(* ===== verification/GoPrelude.thy ===== *)
theory GoPrelude
  imports Main "HOL-Library.Word" "HOL-Library.Signed_Division" "HOL-Library.List_Lexorder"
    "HOL-Library.Char_ord"
begin

text \<open>
  Shared vocabulary of the development: the machine integers of the Go sources, results of Go
  calls, decimal formatting and parsing, the string helpers of the standard library that the
  sources call, and the binary search of \<open>sort.Search\<close>.

  Go's \<open>int64\<close>, \<open>int32\<close> and \<open>int\<close> are HOL integers with the wrap-around written
  out at every operation that can overflow (\<open>i64\<close>, \<open>i32\<close>); Go's unsigned integers are
  words of their width.
\<close>

named_theorems go_arith \<open>machine integer facts used by the components\<close>
named_theorems go_simps \<open>unfolding equations of the small Go helpers\<close>

unbundle bit_operations_syntax

type_synonym int64 = int
type_synonym int32 = int
type_synonym go_int = int
type_synonym uint64 = "64 word"
type_synonym uint32 = "32 word"
type_synonym uint8 = "8 word"
type_synonym bytes = "8 word list"

section \<open>Signed machine integers\<close>

definition i64 :: "int \<Rightarrow> int64" where
  "i64 x = (x + 2 ^ 63) mod 2 ^ 64 - 2 ^ 63"

definition i32 :: "int \<Rightarrow> int32" where
  "i32 x = (x + 2 ^ 31) mod 2 ^ 32 - 2 ^ 31"

definition in_i64 :: "int \<Rightarrow> bool" where
  "in_i64 x \<longleftrightarrow> - (2 ^ 63) \<le> x \<and> x < 2 ^ 63"

definition in_i32 :: "int \<Rightarrow> bool" where
  "in_i32 x \<longleftrightarrow> - (2 ^ 31) \<le> x \<and> x < 2 ^ 31"

definition MaxInt64 :: int64 where
  "MaxInt64 = 2 ^ 63 - 1"

definition MaxInt32 :: int32 where
  "MaxInt32 = 2 ^ 31 - 1"

lemma i64_id [go_arith]: "in_i64 x \<Longrightarrow> i64 x = x"
  by (simp add: in_i64_def i64_def)

lemma i32_id [go_arith]: "in_i32 x \<Longrightarrow> i32 x = x"
  by (simp add: in_i32_def i32_def)

lemma i64_in_range [simp, intro]: "in_i64 (i64 x)"
proof -
  have "0 \<le> (x + 2 ^ 63) mod 2 ^ 64" and "(x + 2 ^ 63) mod 2 ^ 64 < (2 ^ 64 :: int)"
    by simp_all
  then show ?thesis by (simp add: in_i64_def i64_def)
qed

lemma i32_in_range [simp, intro]: "in_i32 (i32 x)"
proof -
  have "0 \<le> (x + 2 ^ 31) mod 2 ^ 32" and "(x + 2 ^ 31) mod 2 ^ 32 < (2 ^ 32 :: int)"
    by simp_all
  then show ?thesis by (simp add: in_i32_def i32_def)
qed

lemma i64_idem [simp]: "i64 (i64 x) = i64 x"
  by (simp add: i64_id)

lemma i32_idem [simp]: "i32 (i32 x) = i32 x"
  by (simp add: i32_id)

lemma in_i32_imp_i64 [intro]: "in_i32 x \<Longrightarrow> in_i64 x"
  by (simp add: in_i32_def in_i64_def)

text \<open>The sum of two in-range values leaves the range by at most one wrap.\<close>

lemma i64_add_cases:
  assumes "in_i64 a" "in_i64 b"
  shows "i64 (a + b) =
    (if a + b \<ge> 2 ^ 63 then a + b - 2 ^ 64 else if a + b < - (2 ^ 63) then a + b + 2 ^ 64 else a + b)"
proof (cases "a + b \<ge> 2 ^ 63")
  case True
  have "(a + b + 2 ^ 63) mod 2 ^ 64 = (a + b + 2 ^ 63 - 2 ^ 64) mod (2 ^ 64 :: int)"
    by (metis mod_diff_right_eq mod_self diff_zero)
  also have "\<dots> = a + b + 2 ^ 63 - 2 ^ 64"
    using True assms by (intro mod_pos_pos_trivial) (simp_all add: in_i64_def)
  finally show ?thesis using True by (simp add: i64_def)
next
  case False
  show ?thesis
  proof (cases "a + b < - (2 ^ 63)")
    case True
    have "(a + b + 2 ^ 63) mod 2 ^ 64 = (a + b + 2 ^ 63 + 2 ^ 64) mod (2 ^ 64 :: int)"
      by (rule mod_add_self2 [symmetric])
    also have "\<dots> = a + b + 2 ^ 63 + 2 ^ 64"
      using True assms by (intro mod_pos_pos_trivial) (simp_all add: in_i64_def)
    finally show ?thesis using True False by (simp add: i64_def)
  next
    case False
    with \<open>\<not> a + b \<ge> 2 ^ 63\<close> show ?thesis by (simp add: i64_id in_i64_def)
  qed
qed

section \<open>Results of calls\<close>

text \<open>
  A Go function that returns \<open>(T, error)\<close> is modelled by a sum; a call that dereferences a
  nil pointer, divides by zero or indexes out of range panics.
\<close>

datatype 'a go = Returns 'a | Panics

fun bind_go :: "'a go \<Rightarrow> ('a \<Rightarrow> 'b go) \<Rightarrow> 'b go" where
  "bind_go (Returns a) f = f a"
| "bind_go Panics f = Panics"

lemma bind_go_Returns_iff: "bind_go m f = Returns b \<longleftrightarrow> (\<exists>a. m = Returns a \<and> f a = Returns b)"
  by (cases m) auto

text \<open>Integer division of Go truncates towards zero and panics on a zero divisor.\<close>

definition go_div :: "int64 \<Rightarrow> int64 \<Rightarrow> int64 go" where
  "go_div a b = (if b = 0 then Panics else Returns (i64 (a sdiv b)))"

definition go_mod :: "int64 \<Rightarrow> int64 \<Rightarrow> int64 go" where
  "go_mod a b = (if b = 0 then Panics else Returns (a smod b))"

lemma sdiv_pos [simp]: "0 \<le> a \<Longrightarrow> 0 < b \<Longrightarrow> (a :: int) sdiv b = a div b"
  by (cases "a = 0") (simp_all add: signed_divide_int_def)

lemma smod_pos [simp]: "0 \<le> a \<Longrightarrow> 0 < b \<Longrightarrow> (a :: int) smod b = a mod b"
  by (cases "a = 0") (simp_all add: signed_modulo_int_def minus_div_mult_eq_mod)

lemma int_div_le_self: "0 \<le> a \<Longrightarrow> 0 < b \<Longrightarrow> (a :: int) div b \<le> a"
  using zdiv_mono2 [of a 1 b] by simp

lemma int_div_mult_le: "0 < b \<Longrightarrow> (a :: int) div b * b \<le> a"
  by (metis add.commute le_add_same_cancel1 mod_div_mult_eq pos_mod_sign)

section \<open>Decimal numbers\<close>

definition digit_char :: "nat \<Rightarrow> char" where
  "digit_char d = char_of (48 + d)"

definition is_digit :: "char \<Rightarrow> bool" where
  "is_digit c \<longleftrightarrow> 48 \<le> (of_char c :: nat) \<and> (of_char c :: nat) \<le> 57"

definition digit_val :: "char \<Rightarrow> nat" where
  "digit_val c = of_char c - 48"

fun show_nat :: "nat \<Rightarrow> string" where
  "show_nat n = (if n < 10 then [digit_char n] else show_nat (n div 10) @ [digit_char (n mod 10)])"

declare show_nat.simps [simp del]

definition show_int :: "int \<Rightarrow> string" where
  "show_int x = (if x < 0 then CHR ''-'' # show_nat (nat (- x)) else show_nat (nat x))"

fun parse_digits :: "nat \<Rightarrow> string \<Rightarrow> nat option" where
  "parse_digits acc [] = Some acc"
| "parse_digits acc (c # cs) =
     (if is_digit c then parse_digits (acc * 10 + digit_val c) cs else None)"

text \<open>
  \<open>strconv.ParseUint(s, 10, bits)\<close>: the empty string and any character outside \<open>0-9\<close> are
  syntax errors, a value of \<open>2 ^ bits\<close> or more is a range error.
\<close>

datatype num_error = ErrSyntax | ErrRange

definition ParseUint :: "nat \<Rightarrow> string \<Rightarrow> num_error + nat" where
  "ParseUint bits s =
     (if s = [] then Inl ErrSyntax
      else case parse_digits 0 s of
             None \<Rightarrow> Inl ErrSyntax
           | Some n \<Rightarrow> if n < 2 ^ bits then Inr n else Inl ErrRange)"

lemma of_char_digit_char: "d < 10 \<Longrightarrow> (of_char (digit_char d) :: nat) = 48 + d"
  by (simp add: digit_char_def of_char_of)

lemma is_digit_digit_char [simp]: "d < 10 \<Longrightarrow> is_digit (digit_char d)"
  by (simp add: is_digit_def of_char_digit_char)

lemma digit_val_digit_char [simp]: "d < 10 \<Longrightarrow> digit_val (digit_char d) = d"
  by (simp add: digit_val_def of_char_digit_char)

lemma show_nat_nonempty [simp]: "show_nat n \<noteq> []"
  by (subst show_nat.simps) simp

lemma show_nat_digits: "c \<in> set (show_nat n) \<Longrightarrow> is_digit c"
proof (induction n rule: show_nat.induct)
  case (1 n)
  then show ?case
    by (cases "n < 10") (auto simp: show_nat.simps [of n])
qed

lemma parse_digits_append:
  "parse_digits acc (xs @ ys) = Option.bind (parse_digits acc xs) (\<lambda>a. parse_digits a ys)"
  by (induction xs arbitrary: acc) auto

lemma parse_digits_show_nat: "parse_digits 0 (show_nat n) = Some n"
proof (induction n rule: show_nat.induct)
  case (1 n)
  show ?case
  proof (cases "n < 10")
    case True
    then show ?thesis by (simp add: show_nat.simps [of n])
  next
    case False
    with 1 have "parse_digits 0 (show_nat (n div 10)) = Some (n div 10)" by simp
    with False show ?thesis
      by (simp add: show_nat.simps [of n] parse_digits_append)
  qed
qed

lemma ParseUint_show_nat: "n < 2 ^ bits \<Longrightarrow> ParseUint bits (show_nat n) = Inr n"
  by (simp add: ParseUint_def parse_digits_show_nat)

lemma show_nat_inj [simp]: "show_nat m = show_nat n \<longleftrightarrow> m = n"
  by (metis parse_digits_show_nat option.inject)

lemma show_nat_not_digit: "\<not> is_digit c \<Longrightarrow> c \<notin> set (show_nat n)"
  using show_nat_digits by blast

lemma show_int_inj [simp]: "show_int x = show_int y \<longleftrightarrow> x = y"
proof -
  have minus: "CHR ''-'' \<notin> set (show_nat n)" for n
    by (rule show_nat_not_digit) (simp add: is_digit_def)
  have hd: "hd (show_nat n) \<noteq> CHR ''-''" for n
    using minus [of n] hd_in_set [OF show_nat_nonempty] by metis
  have "CHR ''-'' # show_nat a \<noteq> show_nat b" for a b
    using hd by (metis list.sel(1))
  then show ?thesis by (auto simp: show_int_def dest: sym)
qed

section \<open>Strings\<close>

text \<open>\<open>strings.Split\<close> for a one-character separator.\<close>

fun split_on :: "char \<Rightarrow> string \<Rightarrow> string list" where
  "split_on sep [] = [[]]"
| "split_on sep (c # cs) =
     (if c = sep then [] # split_on sep cs
      else case split_on sep cs of [] \<Rightarrow> [[c]] | w # ws \<Rightarrow> (c # w) # ws)"

fun join_with :: "string \<Rightarrow> string list \<Rightarrow> string" where
  "join_with sep [] = []"
| "join_with sep [w] = w"
| "join_with sep (w # v # ws) = w @ sep @ join_with sep (v # ws)"

lemma split_on_nonempty [simp]: "split_on sep s \<noteq> []"
  by (cases s) (auto split: list.splits)

lemma split_on_no_sep: "sep \<notin> set w \<Longrightarrow> split_on sep w = [w]"
  by (induction w) auto

lemma split_on_append: "sep \<notin> set w \<Longrightarrow> split_on sep (w @ sep # s) = w # split_on sep s"
  by (induction w) auto

lemma split_on_join:
  "ws \<noteq> [] \<Longrightarrow> \<forall>w \<in> set ws. sep \<notin> set w \<Longrightarrow> split_on sep (join_with [sep] ws) = ws"
  by (induction "[sep]" ws rule: join_with.induct) (auto simp: split_on_no_sep split_on_append)

lemma split_on_pieces: "w \<in> set (split_on sep s) \<Longrightarrow> sep \<notin> set w"
  by (induction s arbitrary: w) (auto split: if_splits list.splits)

lemma join_with_Cons: "join_with sep ((c # w) # ws) = c # join_with sep (w # ws)"
  by (cases ws) simp_all

lemma join_split_on: "join_with [sep] (split_on sep s) = s"
proof (induction s)
  case (Cons c s)
  obtain w ws where "split_on sep s = w # ws" by (cases "split_on sep s") auto
  with Cons show ?case by (auto simp: join_with_Cons)
qed simp

text \<open>\<open>strings.Contains\<close>.\<close>

fun has_prefix :: "string \<Rightarrow> string \<Rightarrow> bool" where
  "has_prefix [] s = True"
| "has_prefix (p # ps) [] = False"
| "has_prefix (p # ps) (c # cs) = (p = c \<and> has_prefix ps cs)"

fun str_contains :: "string \<Rightarrow> string \<Rightarrow> bool" where
  "str_contains [] sub = (sub = [])"
| "str_contains (c # cs) sub = (has_prefix sub (c # cs) \<or> str_contains cs sub)"

lemma has_prefix_iff: "has_prefix p s \<longleftrightarrow> (\<exists>r. s = p @ r)"
  by (induction p s rule: has_prefix.induct) auto

lemma str_contains_iff: "str_contains s sub \<longleftrightarrow> (\<exists>l r. s = l @ sub @ r)"
proof (induction s)
  case (Cons c s)
  show ?case
  proof
    assume "str_contains (c # s) sub"
    then consider "has_prefix sub (c # s)" | "str_contains s sub" by auto
    then show "\<exists>l r. c # s = l @ sub @ r"
    proof cases
      case 1
      then obtain r where "c # s = [] @ sub @ r" by (auto simp: has_prefix_iff)
      then show ?thesis by blast
    next
      case 2
      then obtain l r where "c # s = (c # l) @ sub @ r" using Cons.IH by auto
      then show ?thesis by blast
    qed
  next
    assume "\<exists>l r. c # s = l @ sub @ r"
    then obtain l r where lr: "c # s = l @ sub @ r" by blast
    show "str_contains (c # s) sub"
    proof (cases l)
      case Nil
      with lr have "has_prefix sub (c # s)" by (simp add: has_prefix_iff)
      then show ?thesis by simp
    next
      case (Cons a l')
      with lr have "s = l' @ sub @ r" by simp
      with Cons.IH show ?thesis by auto
    qed
  qed
qed auto

section \<open>Binary search\<close>

text \<open>
  \<open>sort.Search(n, f)\<close>: the loop \<open>for i < j { h := (i+j)/2; if !f(h) { i = h+1 } else { j = h } }\<close>.
\<close>

function sort_search_loop :: "(nat \<Rightarrow> bool) \<Rightarrow> nat \<Rightarrow> nat \<Rightarrow> nat" where
  "sort_search_loop f i j =
     (if i < j then
        (let h = (i + j) div 2
         in if \<not> f h then sort_search_loop f (h + 1) j else sort_search_loop f i h)
      else i)"
  by pat_completeness auto
termination
  by (relation "measure (\<lambda>(f, i, j). j - i)") auto

declare sort_search_loop.simps [simp del]

definition sort_search :: "nat \<Rightarrow> (nat \<Rightarrow> bool) \<Rightarrow> nat" where
  "sort_search n f = sort_search_loop f 0 n"

lemma sort_search_loop_spec:
  assumes "i \<le> j" "j \<le> n" "\<forall>k < i. \<not> f k" "\<forall>k. j \<le> k \<longrightarrow> k < n \<longrightarrow> f k"
    and "\<And>a b. a \<le> b \<Longrightarrow> b < n \<Longrightarrow> f a \<Longrightarrow> f b"
  shows "sort_search_loop f i j \<le> n \<and> (\<forall>k < sort_search_loop f i j. \<not> f k)
    \<and> (\<forall>k. sort_search_loop f i j \<le> k \<longrightarrow> k < n \<longrightarrow> f k)"
  using assms
proof (induction f i j rule: sort_search_loop.induct)
  case (1 f i j)
  let ?h = "(i + j) div 2"
  consider (stop) "\<not> i < j" | (left) "i < j" "f ?h" | (right) "i < j" "\<not> f ?h" by blast
  then show ?case
  proof cases
    case stop
    then have "sort_search_loop f i j = i" by (simp add: sort_search_loop.simps [of f i j])
    with stop 1(3-6) show ?thesis by simp
  next
    case left
    have eq: "sort_search_loop f i j = sort_search_loop f i ?h"
      using left by (simp add: sort_search_loop.simps [of f i j] Let_def)
    have "\<forall>k. ?h \<le> k \<longrightarrow> k < n \<longrightarrow> f k" using left 1(7) by blast
    moreover have "i \<le> ?h" "?h \<le> n" using left 1(4) by auto
    ultimately show ?thesis
      unfolding eq using left 1(5,7) by (intro 1(2) [OF left(1) refl]) blast+
  next
    case right
    have "\<forall>k < ?h + 1. \<not> f k"
    proof (intro allI impI)
      fix k assume "k < ?h + 1"
      moreover have "?h < n" using right 1(4) by linarith
      ultimately show "\<not> f k" using right(2) 1(7) [of k ?h] by auto
    qed
    moreover have "?h + 1 \<le> j" using right by auto
    moreover have eq: "sort_search_loop f i j = sort_search_loop f (?h + 1) j"
      using right by (simp add: sort_search_loop.simps [of f i j] Let_def)
    ultimately show ?thesis
      unfolding eq using right 1(4,6,7) by (intro 1(1) [OF right(1) refl]) blast+
  qed
qed

text \<open>On a monotone predicate the binary search returns the least index where it holds.\<close>

lemma sort_search_spec:
  assumes "\<And>a b. a \<le> b \<Longrightarrow> b < n \<Longrightarrow> f a \<Longrightarrow> f b"
  shows "sort_search n f \<le> n" "k < sort_search n f \<Longrightarrow> \<not> f k"
    "sort_search n f \<le> k \<Longrightarrow> k < n \<Longrightarrow> f k"
  using sort_search_loop_spec [of 0 n n f] assms by (auto simp: sort_search_def)

end
