(* ===== verification/Limits.thy ===== *)
theory Limits
  imports GoPrelude
begin

text \<open>
  Resource limits: the \<open>Limit\<close> interface of \<open>core/rcmgr/limit.go\<close> with its two stubs
  (\<open>NullLimit\<close>, \<open>Unlimited\<close>) and the configurable \<open>GfSpLimit\<close> of
  \<open>base/types/gfsplimit/limit.go\<close>, the limiter that hands limits to the resource manager, and
  the \<open>ScopeStat\<close> usage record. The lemmas characterise the comparison, addition and
  subtraction of limits field by field.
\<close>

section \<open>Data\<close>

datatype Direction = DirUnknown | DirInbound | DirOutbound

datatype ReserveTaskPriority =
    ReserveTaskPriorityUnknown
  | ReserveTaskPriorityHigh
  | ReserveTaskPriorityMedium
  | ReserveTaskPriorityLow

definition ReservationPriorityLow :: uint8 where "ReservationPriorityLow = 101"
definition ReservationPriorityMedium :: uint8 where "ReservationPriorityMedium = 152"
definition ReservationPriorityHigh :: uint8 where "ReservationPriorityHigh = 203"
definition ReservationPriorityAlways :: uint8 where "ReservationPriorityAlways = 255"

record ScopeStat =
  stMemory :: int64
  NumTasksHigh :: int64
  NumTasksMedium :: int64
  NumTasksLow :: int64
  NumConnsInbound :: int64
  NumConnsOutbound :: int64
  NumFD :: int64

record GfSpLimit =
  Memory :: int64
  Tasks :: int32
  TasksHighPriority :: int32
  TasksMediumPriority :: int32
  TasksLowPriority :: int32
  Fd :: int32
  Conns :: int32
  ConnsInbound :: int32
  ConnsOutbound :: int32

definition zero_limit :: GfSpLimit where
  "zero_limit = \<lparr>Memory = 0, Tasks = 0, TasksHighPriority = 0, TasksMediumPriority = 0,
     TasksLowPriority = 0, Fd = 0, Conns = 0, ConnsInbound = 0, ConnsOutbound = 0\<rparr>"

datatype Limit = GfSpLim GfSpLimit | Unlimited | NullLimit

section \<open>The getters of the interface\<close>

fun GetMemoryLimit :: "Limit \<Rightarrow> int64" where
  "GetMemoryLimit (GfSpLim m) = Memory m"
| "GetMemoryLimit Unlimited = MaxInt64"
| "GetMemoryLimit NullLimit = 0"

fun GetFDLimit :: "Limit \<Rightarrow> go_int" where
  "GetFDLimit (GfSpLim m) = Fd m"
| "GetFDLimit Unlimited = MaxInt64"
| "GetFDLimit NullLimit = 0"

fun GetConnLimit :: "Limit \<Rightarrow> Direction \<Rightarrow> go_int" where
  "GetConnLimit (GfSpLim m) d = (if d = DirOutbound then ConnsOutbound m else ConnsInbound m)"
| "GetConnLimit Unlimited d = MaxInt64"
| "GetConnLimit NullLimit d = 0"

fun GetConnTotalLimit :: "Limit \<Rightarrow> go_int" where
  "GetConnTotalLimit (GfSpLim m) = Conns m"
| "GetConnTotalLimit Unlimited = MaxInt64"
| "GetConnTotalLimit NullLimit = 0"

fun GetTaskLimit :: "Limit \<Rightarrow> ReserveTaskPriority \<Rightarrow> go_int" where
  "GetTaskLimit (GfSpLim m) p =
     (if p = ReserveTaskPriorityHigh then TasksHighPriority m
      else if p = ReserveTaskPriorityMedium then TasksMediumPriority m
      else TasksLowPriority m)"
| "GetTaskLimit Unlimited p = MaxInt64"
| "GetTaskLimit NullLimit p = 0"

fun GetTaskTotalLimit :: "Limit \<Rightarrow> go_int" where
  "GetTaskTotalLimit (GfSpLim m) = Tasks m"
| "GetTaskTotalLimit Unlimited = MaxInt64"
| "GetTaskTotalLimit NullLimit = 0"

text \<open>\<open>ScopeStat\<close> of the two stubs is the nil pointer.\<close>

fun LimitScopeStat :: "Limit \<Rightarrow> ScopeStat option" where
  "LimitScopeStat (GfSpLim m) = Some
     \<lparr>stMemory = Memory m,
      NumTasksHigh = GetTaskLimit (GfSpLim m) ReserveTaskPriorityHigh,
      NumTasksMedium = GetTaskLimit (GfSpLim m) ReserveTaskPriorityMedium,
      NumTasksLow = GetTaskLimit (GfSpLim m) ReserveTaskPriorityLow,
      NumConnsInbound = GetConnLimit (GfSpLim m) DirInbound,
      NumConnsOutbound = GetConnLimit (GfSpLim m) DirOutbound,
      NumFD = GetFDLimit (GfSpLim m)\<rparr>"
| "LimitScopeStat Unlimited = None"
| "LimitScopeStat NullLimit = None"

section \<open>Comparison and arithmetic of \<open>GfSpLimit\<close>\<close>

definition GfSpLimit_NotLess :: "GfSpLimit \<Rightarrow> Limit \<Rightarrow> bool" where
  "GfSpLimit_NotLess m x =
     (if GetMemoryLimit (GfSpLim m) < GetMemoryLimit x then False
      else if GetFDLimit (GfSpLim m) < GetFDLimit x then False
      else if GetTaskTotalLimit (GfSpLim m) < GetTaskTotalLimit x then False
      else if GetConnLimit (GfSpLim m) DirOutbound < GetConnLimit x DirOutbound then False
      else if GetConnLimit (GfSpLim m) DirInbound < GetConnLimit x DirInbound then False
      else if GetConnTotalLimit (GfSpLim m) < GetConnTotalLimit x then False
      else if GetTaskLimit (GfSpLim m) ReserveTaskPriorityHigh < GetTaskLimit x ReserveTaskPriorityHigh then False
      else if GetTaskLimit (GfSpLim m) ReserveTaskPriorityMedium < GetTaskLimit x ReserveTaskPriorityMedium then False
      else if GetTaskLimit (GfSpLim m) ReserveTaskPriorityLow < GetTaskLimit x ReserveTaskPriorityLow then False
      else if GetTaskTotalLimit (GfSpLim m) < GetTaskTotalLimit x then False
      else True)"

definition GfSpLimit_Add :: "GfSpLimit \<Rightarrow> Limit \<Rightarrow> GfSpLimit" where
  "GfSpLimit_Add m x = m
     \<lparr>Memory := i64 (Memory m + GetMemoryLimit x),
      Tasks := i32 (Tasks m + i32 (GetTaskTotalLimit x)),
      TasksHighPriority := i32 (TasksHighPriority m + i32 (GetTaskLimit x ReserveTaskPriorityHigh)),
      TasksMediumPriority := i32 (TasksMediumPriority m + i32 (GetTaskLimit x ReserveTaskPriorityMedium)),
      TasksLowPriority := i32 (TasksLowPriority m + i32 (GetTaskLimit x ReserveTaskPriorityLow)),
      Fd := i32 (Fd m + i32 (GetFDLimit x)),
      Conns := i32 (Conns m + i32 (GetConnTotalLimit x)),
      ConnsInbound := i32 (ConnsInbound m + i32 (GetConnLimit x DirInbound)),
      ConnsOutbound := i32 (ConnsOutbound m + i32 (GetConnLimit x DirOutbound))\<rparr>"

text \<open>\<open>Sub\<close> reports whether it subtracted; when it did not, the receiver is unchanged.\<close>

definition GfSpLimit_Sub :: "GfSpLimit \<Rightarrow> Limit \<Rightarrow> bool \<times> GfSpLimit" where
  "GfSpLimit_Sub m x =
     (if \<not> GfSpLimit_NotLess m x then (False, m)
      else (True, m
        \<lparr>Memory := i64 (Memory m - GetMemoryLimit x),
         Tasks := i32 (Tasks m - i32 (GetTaskTotalLimit x)),
         TasksHighPriority := i32 (TasksHighPriority m - i32 (GetTaskLimit x ReserveTaskPriorityHigh)),
         TasksMediumPriority := i32 (TasksMediumPriority m - i32 (GetTaskLimit x ReserveTaskPriorityMedium)),
         TasksLowPriority := i32 (TasksLowPriority m - i32 (GetTaskLimit x ReserveTaskPriorityLow)),
         Fd := i32 (Fd m - i32 (GetFDLimit x)),
         Conns := i32 (Conns m - i32 (GetConnTotalLimit x)),
         ConnsInbound := i32 (ConnsInbound m - i32 (GetConnLimit x DirInbound)),
         ConnsOutbound := i32 (ConnsOutbound m - i32 (GetConnLimit x DirOutbound))\<rparr>))"

definition GfSpLimit_Equal :: "GfSpLimit \<Rightarrow> Limit \<Rightarrow> bool" where
  "GfSpLimit_Equal m x =
     (if GetMemoryLimit (GfSpLim m) \<noteq> GetMemoryLimit x then False
      else if GetFDLimit (GfSpLim m) \<noteq> GetFDLimit x then False
      else if GetTaskTotalLimit (GfSpLim m) \<noteq> GetTaskTotalLimit x then False
      else if GetConnLimit (GfSpLim m) DirOutbound \<noteq> GetConnLimit x DirOutbound then False
      else if GetConnLimit (GfSpLim m) DirInbound \<noteq> GetConnLimit x DirInbound then False
      else if GetConnTotalLimit (GfSpLim m) \<noteq> GetConnTotalLimit x then False
      else if GetTaskLimit (GfSpLim m) ReserveTaskPriorityHigh \<noteq> GetTaskLimit x ReserveTaskPriorityHigh then False
      else if GetTaskLimit (GfSpLim m) ReserveTaskPriorityMedium \<noteq> GetTaskLimit x ReserveTaskPriorityMedium then False
      else if GetTaskLimit (GfSpLim m) ReserveTaskPriorityLow \<noteq> GetTaskLimit x ReserveTaskPriorityLow then False
      else if GetTaskTotalLimit (GfSpLim m) \<noteq> GetTaskTotalLimit x then False
      else True)"

fun NotLess :: "Limit \<Rightarrow> Limit \<Rightarrow> bool" where
  "NotLess (GfSpLim m) x = GfSpLimit_NotLess m x"
| "NotLess Unlimited x = True"
| "NotLess NullLimit x = False"

section \<open>The limiter\<close>

text \<open>A nil \<open>System\<close> or \<open>Transient\<close> message reads as the zero limit through its getters.\<close>

record GfSpLimiter =
  System :: GfSpLimit
  Transient :: GfSpLimit
  ServiceLimit :: "string \<rightharpoonup> GfSpLimit"

datatype Limiter = GfSpLimiterOf GfSpLimiter | UnlimitedLimiter | NullLimiter

fun GetSystemLimits :: "Limiter \<Rightarrow> Limit option" where
  "GetSystemLimits (GfSpLimiterOf m) = Some (GfSpLim (System m))"
| "GetSystemLimits UnlimitedLimiter = Some Unlimited"
| "GetSystemLimits NullLimiter = None"

fun GetServiceLimits :: "Limiter \<Rightarrow> string \<Rightarrow> Limit option" where
  "GetServiceLimits (GfSpLimiterOf m) svc = map_option GfSpLim (ServiceLimit m svc)"
| "GetServiceLimits UnlimitedLimiter svc = Some Unlimited"
| "GetServiceLimits NullLimiter svc = None"

section \<open>Properties\<close>

definition wf_limit :: "GfSpLimit \<Rightarrow> bool" where
  "wf_limit m \<longleftrightarrow> in_i64 (Memory m) \<and> in_i32 (Tasks m) \<and> in_i32 (TasksHighPriority m)
     \<and> in_i32 (TasksMediumPriority m) \<and> in_i32 (TasksLowPriority m) \<and> in_i32 (Fd m)
     \<and> in_i32 (Conns m) \<and> in_i32 (ConnsInbound m) \<and> in_i32 (ConnsOutbound m)"

definition nonneg_limit :: "GfSpLimit \<Rightarrow> bool" where
  "nonneg_limit m \<longleftrightarrow> 0 \<le> Memory m \<and> 0 \<le> Tasks m \<and> 0 \<le> TasksHighPriority m
     \<and> 0 \<le> TasksMediumPriority m \<and> 0 \<le> TasksLowPriority m \<and> 0 \<le> Fd m
     \<and> 0 \<le> Conns m \<and> 0 \<le> ConnsInbound m \<and> 0 \<le> ConnsOutbound m"

text \<open>The comparison is the pointwise order on the nine fields.\<close>

definition limit_le :: "GfSpLimit \<Rightarrow> GfSpLimit \<Rightarrow> bool" where
  "limit_le x m \<longleftrightarrow> Memory x \<le> Memory m \<and> Tasks x \<le> Tasks m
     \<and> TasksHighPriority x \<le> TasksHighPriority m \<and> TasksMediumPriority x \<le> TasksMediumPriority m
     \<and> TasksLowPriority x \<le> TasksLowPriority m \<and> Fd x \<le> Fd m \<and> Conns x \<le> Conns m
     \<and> ConnsInbound x \<le> ConnsInbound m \<and> ConnsOutbound x \<le> ConnsOutbound m"

lemma NotLess_GfSp_iff: "GfSpLimit_NotLess m (GfSpLim x) \<longleftrightarrow> limit_le x m"
  by (auto simp: GfSpLimit_NotLess_def limit_le_def)

lemma limit_le_refl [simp, intro]: "limit_le m m"
  by (simp add: limit_le_def)

lemma limit_le_trans [trans]: "limit_le x y \<Longrightarrow> limit_le y z \<Longrightarrow> limit_le x z"
  by (auto simp: limit_le_def)

lemma limit_le_antisym: "limit_le x y \<Longrightarrow> limit_le y x \<Longrightarrow> x = y"
  by (cases x; cases y) (simp add: limit_le_def)

lemma Equal_GfSp_iff: "GfSpLimit_Equal m (GfSpLim x) \<longleftrightarrow> m = x"
  by (cases m; cases x) (auto simp: GfSpLimit_Equal_def)

lemma in_i32_diff: "in_i32 a \<Longrightarrow> 0 \<le> b \<Longrightarrow> b \<le> a \<Longrightarrow> in_i32 (a - b)"
  by (simp add: in_i32_def)

lemma in_i64_diff: "in_i64 a \<Longrightarrow> 0 \<le> b \<Longrightarrow> b \<le> a \<Longrightarrow> in_i64 (a - b)"
  by (simp add: in_i64_def)

lemma Sub_exact:
  assumes "wf_limit m" "wf_limit x" "nonneg_limit x" "limit_le x m"
  shows "snd (GfSpLimit_Sub m (GfSpLim x)) =
    \<lparr>Memory = Memory m - Memory x, Tasks = Tasks m - Tasks x,
     TasksHighPriority = TasksHighPriority m - TasksHighPriority x,
     TasksMediumPriority = TasksMediumPriority m - TasksMediumPriority x,
     TasksLowPriority = TasksLowPriority m - TasksLowPriority x, Fd = Fd m - Fd x,
     Conns = Conns m - Conns x, ConnsInbound = ConnsInbound m - ConnsInbound x,
     ConnsOutbound = ConnsOutbound m - ConnsOutbound x\<rparr>"
  using assms
  by (cases m) (simp add: GfSpLimit_Sub_def NotLess_GfSp_iff wf_limit_def nonneg_limit_def
      limit_le_def i32_id i64_id in_i32_diff in_i64_diff)

text \<open>
  Comparison, subtraction and addition of limits fit together: \<open>Sub\<close> succeeds exactly when
  every field of the receiver covers the argument, a successful \<open>Sub\<close> of a non-negative limit
  never leaves a negative field, and \<open>Add\<close> of the same limit afterwards restores the receiver,
  with no wrap-around on the way.
\<close>

theorem limit_Sub_Add_roundtrip:
  assumes "wf_limit m" "wf_limit x" "nonneg_limit x"
  shows "GfSpLimit_Sub m (GfSpLim x) = (False, m) \<and> \<not> limit_le x m
    \<or> (\<exists>r. GfSpLimit_Sub m (GfSpLim x) = (True, r) \<and> limit_le x m
         \<and> nonneg_limit r \<and> GfSpLimit_Add r (GfSpLim x) = m)"
proof (cases "limit_le x m")
  case False
  then show ?thesis by (simp add: GfSpLimit_Sub_def NotLess_GfSp_iff)
next
  case True
  let ?r = "snd (GfSpLimit_Sub m (GfSpLim x))"
  have "fst (GfSpLimit_Sub m (GfSpLim x))"
    using True by (simp add: GfSpLimit_Sub_def NotLess_GfSp_iff)
  then have "GfSpLimit_Sub m (GfSpLim x) = (True, ?r)" by (metis prod.collapse)
  moreover have "nonneg_limit ?r \<and> GfSpLimit_Add ?r (GfSpLim x) = m"
    unfolding Sub_exact [OF assms True] using assms True
    by (cases m) (simp add: GfSpLimit_Add_def wf_limit_def nonneg_limit_def limit_le_def i32_id i64_id)
  ultimately show ?thesis using True by blast
qed

theorem limit_Sub_Add_roundtrip_witness:
  "let m = zero_limit\<lparr>Memory := 10, Tasks := 3\<rparr>; x = zero_limit\<lparr>Memory := 4, Tasks := 1\<rparr>
   in wf_limit m \<and> wf_limit x \<and> nonneg_limit x
      \<and> (\<exists>r. GfSpLimit_Sub m (GfSpLim x) = (True, r) \<and> nonneg_limit r
           \<and> GfSpLimit_Add r (GfSpLim x) = m)"
proof -
  let ?m = "zero_limit\<lparr>Memory := 10, Tasks := 3\<rparr>" and ?x = "zero_limit\<lparr>Memory := 4, Tasks := 1\<rparr>"
  have h: "wf_limit ?m" "wf_limit ?x" "nonneg_limit ?x" "limit_le ?x ?m"
    by (simp_all add: wf_limit_def nonneg_limit_def limit_le_def zero_limit_def in_i64_def in_i32_def)
  show ?thesis using limit_Sub_Add_roundtrip [OF h(1-3)] h by (auto simp: Let_def)
qed

end
