(* ===== verification/Resources.thy ===== *)
theory Resources
  imports Limits
begin

text \<open>
  The resource counters of one scope: \<open>base/gfsprcmgr/resource.go\<close> and the error values of
  \<open>base/gfsprcmgr/error.go\<close>. Logging is dropped; every other statement of the functions is
  kept, with Go's 64-bit arithmetic written out. The lemmas show that the overflow-aware memory
  check decides the exact integer inequality, that every reservation keeps the counters within
  the limits, and that a release undoes a reservation.
\<close>

section \<open>Errors\<close>

datatype rc_error =
    ErrResourceLimitExceeded
  | ErrResourceScopeClosed
  | NegativeMemory int64
  | ErrMemoryLimitExceeded (current: int64) (attempted: int64) (limit_of: int64) (priority: uint8) (inner: rc_error)
  | ErrConnLimitExceeded (current: int64) (attempted: int64) (limit_of: int64) (inner: rc_error)
  | ErrTaskLimitExceeded (current: int64) (attempted: int64) (limit_of: int64) (inner: rc_error)
  | Wrapped string rc_error

text \<open>\<open>errors.Is\<close> follows \<open>Unwrap\<close> to the innermost error.\<close>

fun root_cause :: "rc_error \<Rightarrow> rc_error" where
  "root_cause (ErrMemoryLimitExceeded c a l p e) = root_cause e"
| "root_cause (ErrConnLimitExceeded c a l e) = root_cause e"
| "root_cause (ErrTaskLimitExceeded c a l e) = root_cause e"
| "root_cause (Wrapped s e) = root_cause e"
| "root_cause e = e"

section \<open>The counters\<close>

record resources =
  limit :: Limit
  nconnsIn :: go_int
  nconnsOut :: go_int
  nfd :: go_int
  ntasksHigh :: go_int
  ntasksMedium :: go_int
  ntasksLow :: go_int
  memory :: int64

definition new_resources :: "Limit \<Rightarrow> resources" where
  "new_resources l = \<lparr>limit = l, nconnsIn = 0, nconnsOut = 0, nfd = 0, ntasksHigh = 0,
     ntasksMedium = 0, ntasksLow = 0, memory = 0\<rparr>"

definition remaining :: "resources \<Rightarrow> Limit" where
  "remaining rc =
     (let l = zero_limit;
          l = (if GetMemoryLimit (limit rc) > memory rc
               then l\<lparr>Memory := i64 (GetMemoryLimit (limit rc) - memory rc)\<rparr> else l\<lparr>Memory := 0\<rparr>);
          used = i64 (ntasksHigh rc + ntasksHigh rc + ntasksHigh rc);
          l = (if GetTaskTotalLimit (limit rc) > used
               then l\<lparr>Tasks := i32 (GetTaskTotalLimit (limit rc) - used)\<rparr> else l\<lparr>Tasks := 0\<rparr>);
          l = (if GetTaskLimit (limit rc) ReserveTaskPriorityHigh > ntasksLow rc
               then l\<lparr>TasksHighPriority := i32 (GetTaskLimit (limit rc) ReserveTaskPriorityHigh - ntasksLow rc)\<rparr>
               else l\<lparr>TasksHighPriority := 0\<rparr>);
          l = (if GetTaskLimit (limit rc) ReserveTaskPriorityMedium > ntasksLow rc
               then l\<lparr>TasksMediumPriority := i32 (GetTaskLimit (limit rc) ReserveTaskPriorityMedium - ntasksLow rc)\<rparr>
               else l\<lparr>TasksMediumPriority := 0\<rparr>);
          l = (if GetTaskLimit (limit rc) ReserveTaskPriorityLow > ntasksLow rc
               then l\<lparr>TasksLowPriority := i32 (GetTaskLimit (limit rc) ReserveTaskPriorityLow - ntasksLow rc)\<rparr>
               else l\<lparr>TasksLowPriority := 0\<rparr>);
          l = (if GetTaskLimit (limit rc) ReserveTaskPriorityLow > ntasksLow rc
               then l\<lparr>TasksLowPriority := i32 (GetTaskLimit (limit rc) ReserveTaskPriorityLow - ntasksLow rc)\<rparr>
               else l\<lparr>TasksLowPriority := 0\<rparr>)
      in GfSpLim l)"

section \<open>Memory\<close>

definition addInt64WithOverflow :: "int64 \<Rightarrow> int64 \<Rightarrow> int64 \<times> bool" where
  "addInt64WithOverflow a b = (let c = i64 (a + b) in (c, (c > a) = (b > 0)))"

definition mulInt64WithOverflow :: "int64 \<Rightarrow> int64 \<Rightarrow> int64 \<times> bool" where
  "mulInt64WithOverflow a b =
     (let mostPositive = 2 ^ 63 - 1; mostNegative = - (mostPositive + 1); c = i64 (a * b)
      in if a = 0 \<or> b = 0 \<or> a = 1 \<or> b = 1 then (c, True)
         else if a = mostNegative \<or> b = mostNegative then (c, False)
         else (c, i64 (c sdiv b) = a))"

text \<open>
  The \<open>goto finish\<close> of the source leaves the threshold at the limit when the exact quotient
  does not fit. \<open>big.Int.Rsh\<close> rounds towards minus infinity, \<open>/\<close> on \<open>int64\<close> towards zero.
\<close>

definition memoryThreshold :: "int64 \<Rightarrow> uint8 \<Rightarrow> int64" where
  "memoryThreshold lim prio =
     (case mulInt64WithOverflow (i64 (1 + uint prio)) lim of
        (threshold, mulOk) \<Rightarrow>
          if \<not> mulOk then
            (let thresholdBig = (lim * (1 + uint prio)) div 256
             in if \<not> in_i64 thresholdBig then lim else thresholdBig)
          else i64 (threshold sdiv 256))"

definition checkMemory :: "resources \<Rightarrow> int64 \<Rightarrow> uint8 \<Rightarrow> rc_error option" where
  "checkMemory rc rsvp prio =
     (if rsvp < 0 then Some (NegativeMemory rsvp)
      else let lim = GetMemoryLimit (limit rc)
           in if lim = MaxInt64 then None
              else case addInt64WithOverflow (memory rc) rsvp of (newmem, addOk) \<Rightarrow>
                if \<not> addOk \<or> newmem > memoryThreshold lim prio
                then Some (ErrMemoryLimitExceeded (memory rc) rsvp lim prio ErrResourceLimitExceeded)
                else None)"

definition reserveMemory :: "resources \<Rightarrow> int64 \<Rightarrow> uint8 \<Rightarrow> rc_error option \<times> resources" where
  "reserveMemory rc sz prio =
     (case checkMemory rc sz prio of
        Some err \<Rightarrow> (Some err, rc)
      | None \<Rightarrow> (None, rc\<lparr>memory := i64 (memory rc + sz)\<rparr>))"

definition releaseMemory :: "resources \<Rightarrow> int64 \<Rightarrow> resources" where
  "releaseMemory rc sz =
     (let rc = rc\<lparr>memory := i64 (memory rc - sz)\<rparr>
      in if memory rc < 0 then rc\<lparr>memory := 0\<rparr> else rc)"

section \<open>Tasks\<close>

definition addTasks :: "resources \<Rightarrow> go_int \<Rightarrow> go_int \<Rightarrow> go_int \<Rightarrow> rc_error option \<times> resources" where
  "addTasks rc high medium low =
     (if i64 (ntasksHigh rc + ntasksMedium rc + ntasksLow rc + high + medium + low) > GetTaskTotalLimit (limit rc)
      then (Some (ErrTaskLimitExceeded (i64 (ntasksHigh rc + ntasksMedium rc + ntasksLow rc))
              (i64 (high + medium + low)) (GetTaskTotalLimit (limit rc))
              (Wrapped ''total task limit exceeded'' ErrResourceLimitExceeded)), rc)
      else if i64 (high + ntasksHigh rc) > GetTaskLimit (limit rc) ReserveTaskPriorityHigh
      then (Some (ErrTaskLimitExceeded (ntasksHigh rc) high (GetTaskLimit (limit rc) ReserveTaskPriorityHigh)
              (Wrapped ''high priority task limit exceeded'' ErrResourceLimitExceeded)), rc)
      else if i64 (medium + ntasksMedium rc) > GetTaskLimit (limit rc) ReserveTaskPriorityMedium
      then (Some (ErrTaskLimitExceeded (ntasksMedium rc) medium (GetTaskLimit (limit rc) ReserveTaskPriorityMedium)
              (Wrapped ''medium priority task limit exceeded'' ErrResourceLimitExceeded)), rc)
      else if i64 (low + ntasksLow rc) > GetTaskLimit (limit rc) ReserveTaskPriorityLow
      then (Some (ErrTaskLimitExceeded (ntasksLow rc) low (GetTaskLimit (limit rc) ReserveTaskPriorityLow)
              (Wrapped ''low priority task limit exceeded'' ErrResourceLimitExceeded)), rc)
      else (None, rc\<lparr>ntasksHigh := i64 (ntasksHigh rc + high),
                     ntasksMedium := i64 (ntasksMedium rc + medium),
                     ntasksLow := i64 (ntasksLow rc + low)\<rparr>))"

definition addTask :: "resources \<Rightarrow> go_int \<Rightarrow> ReserveTaskPriority \<Rightarrow> rc_error option \<times> resources" where
  "addTask rc num prio =
     (if prio = ReserveTaskPriorityHigh then addTasks rc num 0 0
      else if prio = ReserveTaskPriorityMedium then addTasks rc 0 num 0
      else addTasks rc 0 0 num)"

definition clamp0 :: "go_int \<Rightarrow> go_int" where
  "clamp0 x = (if x < 0 then 0 else x)"

definition removeTasks :: "resources \<Rightarrow> go_int \<Rightarrow> go_int \<Rightarrow> go_int \<Rightarrow> resources" where
  "removeTasks rc high medium low =
     rc\<lparr>ntasksHigh := clamp0 (i64 (ntasksHigh rc - high)),
        ntasksMedium := clamp0 (i64 (ntasksMedium rc - medium)),
        ntasksLow := clamp0 (i64 (ntasksLow rc - low))\<rparr>"

definition removeTask :: "resources \<Rightarrow> go_int \<Rightarrow> ReserveTaskPriority \<Rightarrow> resources" where
  "removeTask rc num prio =
     (if prio = ReserveTaskPriorityHigh then removeTasks rc num 0 0
      else if prio = ReserveTaskPriorityMedium then removeTasks rc 0 num 0
      else if prio = ReserveTaskPriorityLow then removeTasks rc 0 0 num
      else rc)"

section \<open>Connections\<close>

definition addConns :: "resources \<Rightarrow> go_int \<Rightarrow> go_int \<Rightarrow> go_int \<Rightarrow> rc_error option \<times> resources" where
  "addConns rc incount outcount fdcount =
     (if incount > 0 \<and> i64 (nconnsIn rc + incount) > GetConnLimit (limit rc) DirInbound
      then (Some (ErrConnLimitExceeded (nconnsIn rc) incount (GetConnLimit (limit rc) DirInbound)
              (Wrapped ''cannot reserve inbound connection'' ErrResourceLimitExceeded)), rc)
      else if outcount > 0 \<and> i64 (nconnsOut rc + outcount) > GetConnLimit (limit rc) DirOutbound
      then (Some (ErrConnLimitExceeded (nconnsOut rc) outcount (GetConnLimit (limit rc) DirOutbound)
              (Wrapped ''cannot reserve outbound connection'' ErrResourceLimitExceeded)), rc)
      else if i64 (nconnsIn rc + incount + nconnsOut rc + outcount) > GetConnTotalLimit (limit rc)
      then (Some (ErrConnLimitExceeded (i64 (nconnsIn rc + nconnsOut rc)) (i64 (incount + outcount))
              (GetConnTotalLimit (limit rc)) (Wrapped ''cannot reserve connection'' ErrResourceLimitExceeded)), rc)
      else if fdcount > 0 \<and> i64 (nfd rc + fdcount) > GetFDLimit (limit rc)
      then (Some (ErrConnLimitExceeded (nfd rc) fdcount (GetFDLimit (limit rc))
              (Wrapped ''cannot reserve file descriptor'' ErrResourceLimitExceeded)), rc)
      else (None, rc\<lparr>nconnsIn := i64 (nconnsIn rc + incount),
                     nconnsOut := i64 (nconnsOut rc + outcount),
                     nfd := i64 (nfd rc + fdcount)\<rparr>))"

definition addConn :: "resources \<Rightarrow> Direction \<Rightarrow> rc_error option \<times> resources" where
  "addConn rc dir = (if dir = DirInbound then addConns rc 1 0 1 else addConns rc 0 1 1)"

definition removeConns :: "resources \<Rightarrow> go_int \<Rightarrow> go_int \<Rightarrow> go_int \<Rightarrow> resources" where
  "removeConns rc incount outcount fdcount =
     rc\<lparr>nconnsIn := clamp0 (i64 (nconnsIn rc - incount)),
        nconnsOut := clamp0 (i64 (nconnsOut rc - outcount)),
        nfd := clamp0 (i64 (nfd rc - fdcount))\<rparr>"

text \<open>There is no \<open>return\<close> after the inbound branch in the source: both removals run.\<close>

definition removeConn :: "resources \<Rightarrow> Direction \<Rightarrow> resources" where
  "removeConn rc dir =
     (let rc = (if dir = DirInbound then removeConns rc 1 0 1 else rc)
      in removeConns rc 0 1 1)"

definition rc_stat :: "resources \<Rightarrow> ScopeStat" where
  "rc_stat rc = \<lparr>stMemory = memory rc, NumTasksHigh = ntasksHigh rc, NumTasksMedium = ntasksMedium rc,
     NumTasksLow = ntasksLow rc, NumConnsInbound = nconnsIn rc, NumConnsOutbound = nconnsOut rc,
     NumFD = nfd rc\<rparr>"

section \<open>The memory check decides the exact inequality\<close>

lemma addInt64_exact:
  assumes "0 \<le> a" "in_i64 a" "0 \<le> b" "in_i64 b"
  shows "snd (addInt64WithOverflow a b) \<longleftrightarrow> a + b < 2 ^ 63"
    and "a + b < 2 ^ 63 \<Longrightarrow> fst (addInt64WithOverflow a b) = a + b"
  using assms by (auto simp: addInt64WithOverflow_def Let_def i64_add_cases in_i64_def)

lemma mulInt64_exact:
  assumes "0 \<le> a" "in_i64 a" "0 \<le> b" "in_i64 b"
  shows "snd (mulInt64WithOverflow a b) \<longleftrightarrow> a * b < 2 ^ 63"
    and "a * b < 2 ^ 63 \<Longrightarrow> fst (mulInt64WithOverflow a b) = a * b"
proof -
  have fits: "i64 (a * b) = a * b" if "a * b < 2 ^ 63"
    using that assms by (intro i64_id) (simp add: in_i64_def, meson mult_nonneg_nonneg dual_order.trans neg_le_0_iff_le zero_le_numeral)
  show "a * b < 2 ^ 63 \<Longrightarrow> fst (mulInt64WithOverflow a b) = a * b"
    by (simp add: mulInt64WithOverflow_def Let_def fits)
  show "snd (mulInt64WithOverflow a b) \<longleftrightarrow> a * b < 2 ^ 63"
  proof (cases "a = 0 \<or> b = 0 \<or> a = 1 \<or> b = 1")
    case True
    then show ?thesis using assms by (auto simp: mulInt64WithOverflow_def in_i64_def)
  next
    case False
    with assms have pos: "0 < a" "0 < b" by auto
    have ok: "snd (mulInt64WithOverflow a b) \<longleftrightarrow> i64 (i64 (a * b) sdiv b) = a"
      using False assms by (simp add: mulInt64WithOverflow_def Let_def)
    show ?thesis
    proof
      assume "a * b < 2 ^ 63"
      then show "snd (mulInt64WithOverflow a b)"
        using pos assms by (simp add: ok fits i64_id)
    next
      assume "snd (mulInt64WithOverflow a b)"
      then have q: "i64 (i64 (a * b) sdiv b) = a" by (simp add: ok)
      let ?c = "i64 (a * b)"
      have c: "- (2 ^ 63) \<le> ?c" "?c < 2 ^ 63" using i64_in_range by (simp_all add: in_i64_def)
      have "0 \<le> ?c"
      proof (rule ccontr)
        assume neg: "\<not> 0 \<le> ?c"
        then have sd: "?c sdiv b = - ((- ?c) div b)"
          using pos by (simp add: signed_divide_int_def)
        have "0 \<le> (- ?c) div b" "(- ?c) div b \<le> - ?c"
          using neg pos by (simp_all add: pos_imp_zdiv_nonneg_iff int_div_le_self)
        with sd c have "in_i64 (?c sdiv b)" "?c sdiv b \<le> 0" by (simp_all add: in_i64_def)
        with q pos show False by (simp add: i64_id)
      qed
      moreover have "?c div b \<le> ?c" using \<open>0 \<le> ?c\<close> pos by (simp add: int_div_le_self)
      moreover have "0 \<le> ?c div b" using \<open>0 \<le> ?c\<close> pos by (simp add: pos_imp_zdiv_nonneg_iff)
      ultimately have "in_i64 (?c div b)" using c by (simp add: in_i64_def)
      then have "?c div b = a" using q pos \<open>0 \<le> ?c\<close> by (simp add: i64_id)
      then have "a * b \<le> ?c" using pos int_div_mult_le [of b ?c] by simp
      with c show "a * b < 2 ^ 63" by simp
    qed
  qed
qed

definition wf_rc :: "resources \<Rightarrow> bool" where
  "wf_rc rc \<longleftrightarrow> (case limit rc of GfSpLim l \<Rightarrow> wf_limit l \<and> nonneg_limit l | _ \<Rightarrow> False)
     \<and> 0 \<le> memory rc \<and> in_i64 (memory rc)"

lemma uint8_range: "0 \<le> uint (p :: uint8)" "uint (p :: uint8) < 256"
  using uint_bounded [of p] by simp_all

lemma memoryThreshold_exact:
  assumes "0 \<le> lim" "in_i64 lim"
  shows "memoryThreshold lim prio = (lim * (1 + uint prio)) div 256"
proof -
  let ?a = "1 + uint prio"
  have a: "1 \<le> ?a" "?a \<le> 256" "in_i64 ?a"
    using uint8_range [of prio] by (simp_all add: in_i64_def)
  have nonneg: "0 \<le> lim * ?a" using assms a by simp
  have "lim * ?a \<le> lim * 256" using assms a by (intro mult_left_mono) auto
  then have "(lim * ?a) div 256 \<le> (lim * 256) div 256" by (intro zdiv_mono1) auto
  then have "(lim * ?a) div 256 \<le> lim" by simp
  moreover have "0 \<le> (lim * ?a) div 256" using nonneg by simp
  ultimately have fits: "in_i64 ((lim * ?a) div 256)" using assms by (simp add: in_i64_def)
  show ?thesis
  proof (cases "?a * lim < 2 ^ 63")
    case True
    with assms a have "mulInt64WithOverflow ?a lim = (?a * lim, True)"
      using mulInt64_exact [of ?a lim] by (simp add: prod_eq_iff)
    then show ?thesis
      using nonneg fits by (simp add: memoryThreshold_def i64_id a mult.commute)
  next
    case False
    with assms a have "\<not> snd (mulInt64WithOverflow ?a lim)"
      using mulInt64_exact(1) [of ?a lim] by simp
    then show ?thesis
      using fits by (cases "mulInt64WithOverflow ?a lim") (simp add: memoryThreshold_def i64_id a Let_def)
  qed
qed

lemma memoryThreshold_le: "0 \<le> lim \<Longrightarrow> in_i64 lim \<Longrightarrow> memoryThreshold lim prio \<le> lim"
proof -
  assume "0 \<le> lim" "in_i64 lim"
  have "lim * (1 + uint prio) \<le> lim * 256"
    using uint8_range [of prio] \<open>0 \<le> lim\<close> by (intro mult_left_mono) auto
  then have "(lim * (1 + uint prio)) div 256 \<le> (lim * 256) div 256" by (intro zdiv_mono1) auto
  with \<open>0 \<le> lim\<close> \<open>in_i64 lim\<close> show ?thesis by (simp add: memoryThreshold_exact)
qed

text \<open>
  The memory check is exact: on a well-formed scope with a finite memory limit, \<open>checkMemory\<close>
  accepts a reservation exactly when the request is non-negative and the memory in use plus the
  request is at most the fraction \<open>(1 + prio) / 256\<close> of the limit, computed over the integers,
  although the code works with 64-bit sums and products that may overflow.
\<close>

theorem checkMemory_exact:
  assumes "wf_rc rc" "in_i64 rsvp" "GetMemoryLimit (limit rc) \<noteq> MaxInt64"
  shows "checkMemory rc rsvp prio = None \<longleftrightarrow>
    0 \<le> rsvp \<and> memory rc + rsvp \<le> (GetMemoryLimit (limit rc) * (1 + uint prio)) div 256"
proof -
  obtain l where l: "limit rc = GfSpLim l" "wf_limit l" "nonneg_limit l"
    using assms(1) by (auto simp: wf_rc_def split: Limit.splits)
  let ?t = "(Memory l * (1 + uint prio)) div 256"
  have lim: "0 \<le> Memory l" "in_i64 (Memory l)"
    using l by (simp_all add: wf_limit_def nonneg_limit_def)
  have t: "memoryThreshold (Memory l) prio = ?t" using lim by (rule memoryThreshold_exact)
  have tle: "?t < 2 ^ 63" using memoryThreshold_le [OF lim, of prio] lim by (simp add: t in_i64_def)
  have mem: "0 \<le> memory rc" "in_i64 (memory rc)" using assms(1) by (simp_all add: wf_rc_def)
  show ?thesis
  proof (cases "0 \<le> rsvp")
    case False
    then show ?thesis by (simp add: checkMemory_def)
  next
    case True
    note add = addInt64_exact [OF mem True assms(2)]
    obtain c ok where c: "addInt64WithOverflow (memory rc) rsvp = (c, ok)" by fastforce
    have "checkMemory rc rsvp prio = None \<longleftrightarrow> ok \<and> c \<le> ?t"
      using True assms(3) l(1) by (auto simp: checkMemory_def c t Let_def)
    also have "\<dots> \<longleftrightarrow> memory rc + rsvp \<le> ?t"
      using add c tle by (cases ok) auto
    finally show ?thesis using True l(1) by simp
  qed
qed

theorem checkMemory_exact_witness:
  "wf_rc (new_resources (GfSpLim (zero_limit\<lparr>Memory := 2 ^ 62\<rparr>)))
   \<and> checkMemory (new_resources (GfSpLim (zero_limit\<lparr>Memory := 2 ^ 62\<rparr>))) (2 ^ 61) 152 = None"
proof -
  let ?rc = "new_resources (GfSpLim (zero_limit\<lparr>Memory := 2 ^ 62\<rparr>))"
  have h: "wf_rc ?rc" "in_i64 (2 ^ 61)" "GetMemoryLimit (limit ?rc) \<noteq> MaxInt64"
    by (simp_all add: wf_rc_def new_resources_def zero_limit_def wf_limit_def nonneg_limit_def
        in_i64_def in_i32_def MaxInt64_def)
  show ?thesis
    using h(1) checkMemory_exact [OF h, of 152] by (simp add: new_resources_def zero_limit_def)
qed

section \<open>The counters stay within the limits\<close>

definition tasks_ok :: "resources \<Rightarrow> bool" where
  "tasks_ok rc \<longleftrightarrow> 0 \<le> ntasksHigh rc \<and> 0 \<le> ntasksMedium rc \<and> 0 \<le> ntasksLow rc
     \<and> ntasksHigh rc \<le> GetTaskLimit (limit rc) ReserveTaskPriorityHigh
     \<and> ntasksMedium rc \<le> GetTaskLimit (limit rc) ReserveTaskPriorityMedium
     \<and> ntasksLow rc \<le> GetTaskLimit (limit rc) ReserveTaskPriorityLow
     \<and> ntasksHigh rc + ntasksMedium rc + ntasksLow rc \<le> GetTaskTotalLimit (limit rc)"

definition conns_ok :: "resources \<Rightarrow> bool" where
  "conns_ok rc \<longleftrightarrow> 0 \<le> nconnsIn rc \<and> 0 \<le> nconnsOut rc \<and> 0 \<le> nfd rc
     \<and> nconnsIn rc \<le> GetConnLimit (limit rc) DirInbound
     \<and> nconnsOut rc \<le> GetConnLimit (limit rc) DirOutbound
     \<and> nconnsIn rc + nconnsOut rc \<le> GetConnTotalLimit (limit rc)
     \<and> nfd rc \<le> GetFDLimit (limit rc)"

definition rc_ok :: "resources \<Rightarrow> bool" where
  "rc_ok rc \<longleftrightarrow> wf_rc rc \<and> memory rc \<le> GetMemoryLimit (limit rc) \<and> tasks_ok rc \<and> conns_ok rc"

text \<open>A count that a caller may pass: non-negative and far from the 64-bit boundary.\<close>

definition small_count :: "int \<Rightarrow> bool" where
  "small_count n \<longleftrightarrow> 0 \<le> n \<and> n < 2 ^ 62"

lemma rc_okE:
  assumes "rc_ok rc"
  obtains l where "limit rc = GfSpLim l" "wf_limit l" "nonneg_limit l" "wf_rc rc"
    "memory rc \<le> Memory l" "tasks_ok rc" "conns_ok rc"
  using assms by (auto simp: rc_ok_def wf_rc_def split: Limit.splits)

lemma rc_ok_new: "wf_limit l \<Longrightarrow> nonneg_limit l \<Longrightarrow> rc_ok (new_resources (GfSpLim l))"
  by (simp add: rc_ok_def wf_rc_def new_resources_def tasks_ok_def conns_ok_def nonneg_limit_def in_i64_def)

lemma reserveMemory_limit [simp]: "limit (snd (reserveMemory rc n p)) = limit rc"
  by (simp add: reserveMemory_def split: option.splits)

lemma reserveMemory_counts [simp]:
  "tasks_ok (snd (reserveMemory rc n p)) = tasks_ok rc"
  "conns_ok (snd (reserveMemory rc n p)) = conns_ok rc"
  by (simp_all add: reserveMemory_def tasks_ok_def conns_ok_def split: option.splits)

lemma checkMemory_bound:
  assumes "rc_ok rc" "in_i64 n" "checkMemory rc n p = None" "GetMemoryLimit (limit rc) \<noteq> MaxInt64"
  shows "0 \<le> n" "memory rc + n \<le> GetMemoryLimit (limit rc)"
proof -
  obtain l where l: "limit rc = GfSpLim l" "wf_limit l" "nonneg_limit l" "wf_rc rc"
    using assms(1) by (rule rc_okE)
  have lim: "0 \<le> Memory l" "in_i64 (Memory l)"
    using l by (simp_all add: wf_limit_def nonneg_limit_def)
  have *: "0 \<le> n \<and> memory rc + n \<le> memoryThreshold (Memory l) p"
    using checkMemory_exact [OF l(4) assms(2,4), of p] assms(3) l(1) lim
    by (simp add: memoryThreshold_exact)
  then show "0 \<le> n" by simp
  from * show "memory rc + n \<le> GetMemoryLimit (limit rc)"
    using memoryThreshold_le [OF lim, of p] l(1) by simp
qed

lemma reserveMemory_ok:
  assumes "rc_ok rc" "in_i64 n" "GetMemoryLimit (limit rc) \<noteq> MaxInt64"
  shows "rc_ok (snd (reserveMemory rc n p))"
proof (cases "checkMemory rc n p")
  case (Some e)
  with assms show ?thesis by (simp add: reserveMemory_def)
next
  case None
  obtain l where l: "limit rc = GfSpLim l" "wf_limit l" "nonneg_limit l" "wf_rc rc"
    "memory rc \<le> Memory l" "tasks_ok rc" "conns_ok rc"
    using assms(1) by (rule rc_okE)
  have b: "0 \<le> n" "memory rc + n \<le> Memory l"
    using checkMemory_bound [OF assms(1,2) None assms(3)] l(1) by simp_all
  then have "in_i64 (memory rc + n)" "0 \<le> memory rc + n"
    using l by (simp_all add: in_i64_def wf_limit_def wf_rc_def)
  with None l b show ?thesis
    by (simp add: reserveMemory_def rc_ok_def wf_rc_def i64_id tasks_ok_def conns_ok_def)
qed

lemma releaseMemory_eq:
  "in_i64 (memory rc - n) \<Longrightarrow> releaseMemory rc n = rc\<lparr>memory := max 0 (memory rc - n)\<rparr>"
  by (simp add: releaseMemory_def Let_def i64_id)

lemma releaseMemory_ok:
  assumes "rc_ok rc" "in_i64 n" "0 \<le> n"
  shows "rc_ok (releaseMemory rc n)"
proof -
  obtain l where l: "limit rc = GfSpLim l" "wf_limit l" "nonneg_limit l" "wf_rc rc"
    "memory rc \<le> Memory l" "tasks_ok rc" "conns_ok rc"
    using assms(1) by (rule rc_okE)
  have "in_i64 (memory rc - n)" using l(4) assms by (simp add: wf_rc_def in_i64_def)
  then show ?thesis
    using l assms by (simp add: releaseMemory_eq rc_ok_def wf_rc_def tasks_ok_def conns_ok_def
        nonneg_limit_def in_i64_def max_def)
qed

lemma task_limits_range:
  assumes "limit rc = GfSpLim l" "wf_limit l"
  shows "GetTaskLimit (limit rc) p < 2 ^ 31" "GetTaskTotalLimit (limit rc) < 2 ^ 31"
    "GetConnLimit (limit rc) d < 2 ^ 31" "GetConnTotalLimit (limit rc) < 2 ^ 31" "GetFDLimit (limit rc) < 2 ^ 31"
  using assms by (auto simp: wf_limit_def in_i32_def)

lemma addTasks_exact:
  assumes "rc_ok rc" "small_count h" "small_count m" "small_count l" "h + m + l < 2 ^ 62"
  shows "addTasks rc h m l = (None, rc') \<longleftrightarrow>
    rc' = rc\<lparr>ntasksHigh := ntasksHigh rc + h, ntasksMedium := ntasksMedium rc + m, ntasksLow := ntasksLow rc + l\<rparr>
    \<and> tasks_ok rc'"
proof -
  obtain lm where lm: "limit rc = GfSpLim lm" "wf_limit lm" "nonneg_limit lm" "wf_rc rc"
    "memory rc \<le> Memory lm" "tasks_ok rc" "conns_ok rc"
    using assms(1) by (rule rc_okE)
  note r = task_limits_range [OF lm(1,2)]
  have t: "0 \<le> ntasksHigh rc" "0 \<le> ntasksMedium rc" "0 \<le> ntasksLow rc"
    "ntasksHigh rc + ntasksMedium rc + ntasksLow rc < 2 ^ 31"
    using lm(6) r(2) by (auto simp: tasks_ok_def)
  have id: "i64 (ntasksHigh rc + ntasksMedium rc + ntasksLow rc + h + m + l)
        = ntasksHigh rc + ntasksMedium rc + ntasksLow rc + h + m + l"
    "i64 (h + ntasksHigh rc) = ntasksHigh rc + h" "i64 (m + ntasksMedium rc) = ntasksMedium rc + m"
    "i64 (l + ntasksLow rc) = ntasksLow rc + l" "i64 (ntasksHigh rc + h) = ntasksHigh rc + h"
    "i64 (ntasksMedium rc + m) = ntasksMedium rc + m" "i64 (ntasksLow rc + l) = ntasksLow rc + l"
    using t assms(2-5) by (simp_all add: i64_id in_i64_def small_count_def)
  show ?thesis
    using t assms(2-4) unfolding addTasks_def id by (auto simp: tasks_ok_def small_count_def)
qed

lemma addTasks_error: "addTasks rc h m l = (Some e, rc') \<Longrightarrow> rc' = rc"
  by (auto simp: addTasks_def split: if_splits)

lemma addTasks_cases:
  obtains e where "addTasks rc h m l = (Some e, rc)" | rc' where "addTasks rc h m l = (None, rc')"
  by (cases "addTasks rc h m l"; cases "fst (addTasks rc h m l)") (auto dest: addTasks_error)

lemma rc_ok_upd_tasks:
  "rc_ok rc \<Longrightarrow> tasks_ok (rc\<lparr>ntasksHigh := h, ntasksMedium := m, ntasksLow := l\<rparr>) \<Longrightarrow>
   rc_ok (rc\<lparr>ntasksHigh := h, ntasksMedium := m, ntasksLow := l\<rparr>)"
  by (simp add: rc_ok_def wf_rc_def conns_ok_def)

lemma addTasks_None:
  assumes "rc_ok rc" "small_count h" "small_count m" "small_count l" "h + m + l < 2 ^ 62"
    "addTasks rc h m l = (None, rc')"
  shows "rc' = rc\<lparr>ntasksHigh := ntasksHigh rc + h, ntasksMedium := ntasksMedium rc + m,
      ntasksLow := ntasksLow rc + l\<rparr>" "rc_ok rc'"
proof -
  have *: "rc' = rc\<lparr>ntasksHigh := ntasksHigh rc + h, ntasksMedium := ntasksMedium rc + m,
      ntasksLow := ntasksLow rc + l\<rparr> \<and> tasks_ok rc'"
    using addTasks_exact [OF assms(1-5)] assms(6) by blast
  then show "rc' = rc\<lparr>ntasksHigh := ntasksHigh rc + h, ntasksMedium := ntasksMedium rc + m,
      ntasksLow := ntasksLow rc + l\<rparr>" by blast
  with * rc_ok_upd_tasks [OF assms(1)] show "rc_ok rc'" by metis
qed

lemma addTasks_ok:
  assumes "rc_ok rc" "small_count h" "small_count m" "small_count l" "h + m + l < 2 ^ 62"
  shows "rc_ok (snd (addTasks rc h m l))"
  using addTasks_None(2) [OF assms] assms(1) by (cases rule: addTasks_cases [of rc h m l]) auto

lemma addTask_ok: "rc_ok rc \<Longrightarrow> small_count n \<Longrightarrow> rc_ok (snd (addTask rc n p))"
  by (auto simp: addTask_def small_count_def intro!: addTasks_ok)

lemma removeTasks_exact:
  assumes "rc_ok rc" "small_count h" "small_count m" "small_count l"
  shows "removeTasks rc h m l = rc\<lparr>ntasksHigh := max 0 (ntasksHigh rc - h),
     ntasksMedium := max 0 (ntasksMedium rc - m), ntasksLow := max 0 (ntasksLow rc - l)\<rparr>"
proof -
  obtain lm where lm: "limit rc = GfSpLim lm" "wf_limit lm" "nonneg_limit lm" "wf_rc rc"
    "memory rc \<le> Memory lm" "tasks_ok rc" "conns_ok rc"
    using assms(1) by (rule rc_okE)
  have "ntasksHigh rc < 2 ^ 31" "ntasksMedium rc < 2 ^ 31" "ntasksLow rc < 2 ^ 31"
    using lm(6) task_limits_range [OF lm(1,2)] by (auto simp: tasks_ok_def dest: le_less_trans)
  then show ?thesis
    using assms lm(6) by (simp add: removeTasks_def clamp0_def i64_id in_i64_def small_count_def tasks_ok_def max_def)
qed

lemma removeTasks_ok:
  "rc_ok rc \<Longrightarrow> small_count h \<Longrightarrow> small_count m \<Longrightarrow> small_count l \<Longrightarrow> rc_ok (removeTasks rc h m l)"
  by (simp add: removeTasks_exact)
     (rule rc_ok_upd_tasks, assumption, auto simp: rc_ok_def tasks_ok_def small_count_def)

lemma removeTask_ok: "rc_ok rc \<Longrightarrow> small_count n \<Longrightarrow> rc_ok (removeTask rc n p)"
  by (auto simp: removeTask_def small_count_def intro!: removeTasks_ok)

text \<open>A successful addition is undone by the removal of the same amounts.\<close>

lemma removeTasks_undo:
  assumes "rc_ok rc" "small_count h" "small_count m" "small_count l" "h + m + l < 2 ^ 62"
    "addTasks rc h m l = (None, rc')"
  shows "removeTasks rc' h m l = rc"
  using assms(1) removeTasks_exact [OF addTasks_None(2) [OF assms] assms(2-4)]
  by (simp add: addTasks_None(1) [OF assms] rc_ok_def tasks_ok_def)

lemma removeTask_undo:
  assumes "rc_ok rc" "small_count n" "p \<noteq> ReserveTaskPriorityUnknown" "addTask rc n p = (None, rc')"
  shows "removeTask rc' n p = rc"
  using assms
  by (cases p) (auto simp: addTask_def removeTask_def small_count_def intro!: removeTasks_undo)

lemma releaseMemory_undo:
  assumes "rc_ok rc" "in_i64 n" "GetMemoryLimit (limit rc) \<noteq> MaxInt64" "reserveMemory rc n p = (None, rc')"
  shows "releaseMemory rc' n = rc"
proof -
  have c: "checkMemory rc n p = None" and rc': "rc' = rc\<lparr>memory := i64 (memory rc + n)\<rparr>"
    using assms(4) by (auto simp: reserveMemory_def split: option.splits)
  note b = checkMemory_bound [OF assms(1,2) c assms(3)]
  have "0 \<le> memory rc" "in_i64 (memory rc)" "GetMemoryLimit (limit rc) < 2 ^ 63"
    using assms(1) by (auto simp: rc_ok_def wf_rc_def wf_limit_def in_i64_def split: Limit.splits)
  with b rc' show ?thesis
    by (simp add: releaseMemory_def Let_def i64_id in_i64_def)
qed

lemma addConns_exact:
  assumes "rc_ok rc" "small_count a" "small_count b" "small_count f" "a + b < 2 ^ 62"
  shows "addConns rc a b f = (None, rc') \<longleftrightarrow>
    rc' = rc\<lparr>nconnsIn := nconnsIn rc + a, nconnsOut := nconnsOut rc + b, nfd := nfd rc + f\<rparr> \<and> conns_ok rc'"
proof -
  obtain lm where lm: "limit rc = GfSpLim lm" "wf_limit lm" "nonneg_limit lm" "wf_rc rc"
    "memory rc \<le> Memory lm" "tasks_ok rc" "conns_ok rc"
    using assms(1) by (rule rc_okE)
  note r = task_limits_range [OF lm(1,2)]
  have t: "0 \<le> nconnsIn rc" "0 \<le> nconnsOut rc" "0 \<le> nfd rc"
    "nconnsIn rc + nconnsOut rc < 2 ^ 31" "nfd rc < 2 ^ 31"
    using lm(7) r by (auto simp: conns_ok_def)
  have id: "i64 (nconnsIn rc + a + nconnsOut rc + b) = nconnsIn rc + a + nconnsOut rc + b"
    "i64 (nconnsIn rc + a) = nconnsIn rc + a" "i64 (nconnsOut rc + b) = nconnsOut rc + b"
    "i64 (nfd rc + f) = nfd rc + f"
    using t assms(2-5) by (simp_all add: i64_id in_i64_def small_count_def)
  show ?thesis
    using t lm(7) assms(2-4) unfolding addConns_def id by (auto simp: conns_ok_def small_count_def)
qed

lemma addConns_error: "addConns rc a b f = (Some e, rc') \<Longrightarrow> rc' = rc"
  by (auto simp: addConns_def split: if_splits)

lemma addConns_cases:
  obtains e where "addConns rc a b f = (Some e, rc)" | rc' where "addConns rc a b f = (None, rc')"
  by (cases "addConns rc a b f"; cases "fst (addConns rc a b f)") (auto dest: addConns_error)

lemma rc_ok_upd_conns:
  "rc_ok rc \<Longrightarrow> conns_ok (rc\<lparr>nconnsIn := a, nconnsOut := b, nfd := f\<rparr>) \<Longrightarrow>
   rc_ok (rc\<lparr>nconnsIn := a, nconnsOut := b, nfd := f\<rparr>)"
  by (simp add: rc_ok_def wf_rc_def tasks_ok_def)

lemma addConns_None:
  assumes "rc_ok rc" "small_count a" "small_count b" "small_count f" "a + b < 2 ^ 62"
    "addConns rc a b f = (None, rc')"
  shows "rc' = rc\<lparr>nconnsIn := nconnsIn rc + a, nconnsOut := nconnsOut rc + b, nfd := nfd rc + f\<rparr>"
    "rc_ok rc'"
proof -
  have *: "rc' = rc\<lparr>nconnsIn := nconnsIn rc + a, nconnsOut := nconnsOut rc + b, nfd := nfd rc + f\<rparr>
      \<and> conns_ok rc'"
    using addConns_exact [OF assms(1-5)] assms(6) by blast
  then show "rc' = rc\<lparr>nconnsIn := nconnsIn rc + a, nconnsOut := nconnsOut rc + b, nfd := nfd rc + f\<rparr>"
    by blast
  with * rc_ok_upd_conns [OF assms(1)] show "rc_ok rc'" by metis
qed

lemma addConns_ok:
  assumes "rc_ok rc" "small_count a" "small_count b" "small_count f" "a + b < 2 ^ 62"
  shows "rc_ok (snd (addConns rc a b f))"
  using addConns_None(2) [OF assms] assms(1) by (cases rule: addConns_cases [of rc a b f]) auto

lemma addConn_ok: "rc_ok rc \<Longrightarrow> rc_ok (snd (addConn rc d))"
  by (auto simp: addConn_def small_count_def intro!: addConns_ok)

lemma removeConns_exact:
  assumes "rc_ok rc" "small_count a" "small_count b" "small_count f"
  shows "removeConns rc a b f = rc\<lparr>nconnsIn := max 0 (nconnsIn rc - a),
     nconnsOut := max 0 (nconnsOut rc - b), nfd := max 0 (nfd rc - f)\<rparr>"
proof -
  obtain lm where lm: "limit rc = GfSpLim lm" "wf_limit lm" "nonneg_limit lm" "wf_rc rc"
    "memory rc \<le> Memory lm" "tasks_ok rc" "conns_ok rc"
    using assms(1) by (rule rc_okE)
  have "nconnsIn rc < 2 ^ 31" "nconnsOut rc < 2 ^ 31" "nfd rc < 2 ^ 31"
    using lm(7) task_limits_range [OF lm(1,2)] by (auto simp: conns_ok_def dest: le_less_trans)
  then show ?thesis
    using assms lm(7) by (simp add: removeConns_def clamp0_def i64_id in_i64_def small_count_def conns_ok_def max_def)
qed

lemma removeConns_ok:
  "rc_ok rc \<Longrightarrow> small_count a \<Longrightarrow> small_count b \<Longrightarrow> small_count f \<Longrightarrow> rc_ok (removeConns rc a b f)"
  by (simp add: removeConns_exact)
     (rule rc_ok_upd_conns, assumption, auto simp: rc_ok_def conns_ok_def small_count_def)

lemma removeConn_ok: "rc_ok rc \<Longrightarrow> rc_ok (removeConn rc d)"
  by (auto simp: removeConn_def Let_def small_count_def intro!: removeConns_ok)

lemma removeConns_undo:
  assumes "rc_ok rc" "small_count a" "small_count b" "small_count f" "a + b < 2 ^ 62"
    "addConns rc a b f = (None, rc')"
  shows "removeConns rc' a b f = rc"
  using assms(1) removeConns_exact [OF addConns_None(2) [OF assms] assms(2-4)]
  by (simp add: addConns_None(1) [OF assms] rc_ok_def conns_ok_def)

text \<open>Only the removal of an outbound connection undoes its addition.\<close>

lemma removeConn_undo:
  assumes "rc_ok rc" "d \<noteq> DirInbound" "addConn rc d = (None, rc')"
  shows "removeConn rc' d = rc"
  using assms by (auto simp: addConn_def removeConn_def small_count_def intro!: removeConns_undo)

section \<open>Runs of operations\<close>

datatype rc_op =
    ReserveMemoryOp int64 uint8
  | ReleaseMemoryOp int64
  | AddTaskOp go_int ReserveTaskPriority
  | RemoveTaskOp go_int ReserveTaskPriority
  | AddConnOp Direction
  | RemoveConnOp Direction

fun rc_step :: "resources \<Rightarrow> rc_op \<Rightarrow> resources" where
  "rc_step rc (ReserveMemoryOp n p) = snd (reserveMemory rc n p)"
| "rc_step rc (ReleaseMemoryOp n) = releaseMemory rc n"
| "rc_step rc (AddTaskOp n p) = snd (addTask rc n p)"
| "rc_step rc (RemoveTaskOp n p) = removeTask rc n p"
| "rc_step rc (AddConnOp d) = snd (addConn rc d)"
| "rc_step rc (RemoveConnOp d) = removeConn rc d"

fun admissible_op :: "rc_op \<Rightarrow> bool" where
  "admissible_op (ReserveMemoryOp n p) = in_i64 n"
| "admissible_op (ReleaseMemoryOp n) = (0 \<le> n \<and> in_i64 n)"
| "admissible_op (AddTaskOp n p) = small_count n"
| "admissible_op (RemoveTaskOp n p) = small_count n"
| "admissible_op (AddConnOp d) = True"
| "admissible_op (RemoveConnOp d) = True"

lemma rc_step_limit [simp]: "limit (rc_step rc op) = limit rc"
  by (cases op) (simp_all add: reserveMemory_def releaseMemory_def addTask_def addTasks_def removeTask_def
      removeTasks_def addConn_def addConns_def removeConn_def removeConns_def Let_def split: option.splits)

lemma rc_step_ok:
  assumes "rc_ok rc" "admissible_op op" "GetMemoryLimit (limit rc) \<noteq> MaxInt64"
  shows "rc_ok (rc_step rc op)"
  using assms
  by (cases op) (auto intro: reserveMemory_ok releaseMemory_ok addTask_ok removeTask_ok addConn_ok removeConn_ok)

lemma rc_run_ok:
  assumes "rc_ok rc" "list_all admissible_op ops" "GetMemoryLimit (limit rc) \<noteq> MaxInt64"
  shows "rc_ok (foldl rc_step rc ops) \<and> limit (foldl rc_step rc ops) = limit rc"
  using assms by (induction ops arbitrary: rc) (auto simp: rc_step_ok)

text \<open>
  C1. Hard limits: starting from a fresh scope, no sequence of reservations and releases of
  memory, tasks and connections ever makes a counter negative or larger than its configured
  limit, whatever the requests are and whichever of them were refused.
\<close>

theorem resources_never_exceed_limits:
  assumes "wf_limit l" "nonneg_limit l" "Memory l \<noteq> MaxInt64" "list_all admissible_op ops"
  shows "let rc = foldl rc_step (new_resources (GfSpLim l)) ops in
    0 \<le> memory rc \<and> memory rc \<le> Memory l
    \<and> 0 \<le> ntasksHigh rc \<and> ntasksHigh rc \<le> TasksHighPriority l
    \<and> 0 \<le> ntasksMedium rc \<and> ntasksMedium rc \<le> TasksMediumPriority l
    \<and> 0 \<le> ntasksLow rc \<and> ntasksLow rc \<le> TasksLowPriority l
    \<and> ntasksHigh rc + ntasksMedium rc + ntasksLow rc \<le> Tasks l
    \<and> 0 \<le> nconnsIn rc \<and> nconnsIn rc \<le> ConnsInbound l
    \<and> 0 \<le> nconnsOut rc \<and> nconnsOut rc \<le> ConnsOutbound l
    \<and> nconnsIn rc + nconnsOut rc \<le> Conns l \<and> 0 \<le> nfd rc \<and> nfd rc \<le> Fd l"
proof -
  have "rc_ok (new_resources (GfSpLim l))" using assms by (simp add: rc_ok_new)
  moreover have "GetMemoryLimit (limit (new_resources (GfSpLim l))) \<noteq> MaxInt64"
    using assms by (simp add: new_resources_def)
  ultimately have "rc_ok (foldl rc_step (new_resources (GfSpLim l)) ops)
      \<and> limit (foldl rc_step (new_resources (GfSpLim l)) ops) = GfSpLim l"
    using assms(4) rc_run_ok [of "new_resources (GfSpLim l)"] by (simp add: new_resources_def)
  then show ?thesis
    by (auto simp: Let_def rc_ok_def wf_rc_def tasks_ok_def conns_ok_def)
qed

theorem resources_never_exceed_limits_witness:
  "let l = zero_limit\<lparr>Memory := 100, Tasks := 2, TasksHighPriority := 1\<rparr>;
       ops = [ReserveMemoryOp 60 255, ReserveMemoryOp 60 255, AddTaskOp 1 ReserveTaskPriorityHigh];
       rc = foldl rc_step (new_resources (GfSpLim l)) ops
   in wf_limit l \<and> nonneg_limit l \<and> list_all admissible_op ops \<and> memory rc \<le> 100 \<and> ntasksHigh rc \<le> 1"
proof -
  let ?l = "zero_limit\<lparr>Memory := 100, Tasks := 2, TasksHighPriority := 1\<rparr>"
  let ?ops = "[ReserveMemoryOp 60 255, ReserveMemoryOp 60 255, AddTaskOp 1 ReserveTaskPriorityHigh]"
  have h: "wf_limit ?l" "nonneg_limit ?l" "Memory ?l \<noteq> MaxInt64" "list_all admissible_op ?ops"
    by (simp_all add: wf_limit_def nonneg_limit_def zero_limit_def in_i64_def in_i32_def MaxInt64_def small_count_def)
  from resources_never_exceed_limits [OF h] h show ?thesis
    by (simp add: Let_def zero_limit_def)
qed

section \<open>Divergences of the accounting\<close>

text \<open>
  Closing one inbound connection also drops an outbound one: \<open>removeConn\<close> with the inbound
  direction has no return after its branch, so it releases one inbound connection, one outbound
  connection (if there is one) and two file descriptors.
\<close>

theorem removeConn_inbound_overreleases:
  assumes "rc_ok rc" "1 \<le> nconnsIn rc" "1 \<le> nconnsOut rc" "2 \<le> nfd rc"
  shows "removeConn rc DirInbound =
    rc\<lparr>nconnsIn := nconnsIn rc - 1, nconnsOut := nconnsOut rc - 1, nfd := nfd rc - 2\<rparr>"
proof -
  have s: "small_count 0" "small_count 1" by (simp_all add: small_count_def)
  have *: "removeConns rc 1 0 1 = rc\<lparr>nconnsIn := nconnsIn rc - 1, nfd := nfd rc - 1\<rparr>"
    using removeConns_exact [OF assms(1) s(2) s(1) s(2)] assms by (simp add: max_def)
  have "rc_ok (removeConns rc 1 0 1)" using assms(1) s by (simp add: removeConns_ok)
  from removeConns_exact [OF this s(1) s(2) s(2)] show ?thesis
    using assms by (simp add: removeConn_def * max_def)
qed

theorem removeConn_inbound_overreleases_witness:
  "let rc = (new_resources (GfSpLim (zero_limit\<lparr>Fd := 4, Conns := 4, ConnsInbound := 2, ConnsOutbound := 2\<rparr>)))
              \<lparr>nconnsIn := 1, nconnsOut := 1, nfd := 2\<rparr>
   in rc_ok rc \<and> nconnsOut (removeConn rc DirInbound) = 0"
proof -
  let ?rc = "(new_resources (GfSpLim (zero_limit\<lparr>Fd := 4, Conns := 4, ConnsInbound := 2, ConnsOutbound := 2\<rparr>)))
              \<lparr>nconnsIn := 1, nconnsOut := 1, nfd := 2\<rparr>"
  have h: "rc_ok ?rc" "1 \<le> nconnsIn ?rc" "1 \<le> nconnsOut ?rc" "2 \<le> nfd ?rc"
    by (simp_all add: rc_ok_def wf_rc_def tasks_ok_def conns_ok_def new_resources_def zero_limit_def
        wf_limit_def nonneg_limit_def in_i64_def in_i32_def)
  show ?thesis using h(1) removeConn_inbound_overreleases [OF h] by (simp add: Let_def)
qed

text \<open>
  What a scope reports as remaining does not follow its task counters: the remaining high and
  medium quotas are computed from the number of low-priority tasks, so tasks reserved at high or
  medium priority leave them unchanged, and the total subtracts three times the high-priority
  count and ignores the other two.
\<close>

theorem remaining_ignores_reserved_tasks:
  "\<exists>r r'. remaining rc = GfSpLim r \<and> remaining (rc\<lparr>ntasksHigh := h, ntasksMedium := m\<rparr>) = GfSpLim r'
     \<and> TasksHighPriority r' = TasksHighPriority r \<and> TasksMediumPriority r' = TasksMediumPriority r
     \<and> Tasks r' = (if GetTaskTotalLimit (limit rc) > i64 (3 * h)
                   then i32 (GetTaskTotalLimit (limit rc) - i64 (3 * h)) else 0)"
proof -
  have "h + h + h = 3 * h" by simp
  then show ?thesis by (simp add: remaining_def Let_def)
qed

end
