(* ===== verification/Scopes.thy ===== *)
theory Scopes
  imports Resources
begin

text \<open>
  Resource scopes: \<open>base/gfsprcmgr/scope.go\<close> and \<open>base/gfsprcmgr/rcmgr.go\<close>. A scope is a cell
  of a heap addressed by its index, so that the \<open>owner\<close> and \<open>edges\<close> pointers and the
  mutation of a parent by its children are explicit. Every scope carries its mutex: a method
  that locks a mutex the calling goroutine already holds never returns, which is the outcome
  \<open>Deadlock\<close>. Walking up the owner chain locks one more scope at each step, so the number of
  unlocked scopes is a termination measure for every recursive method.

  The three families of methods of the source (memory, tasks, connections) have the same control
  flow around different counter operations; the shared flow is stated once, over the counter
  operations, and instantiated three times. The contract of a counter operation pair is the
  locale \<open>reservation\<close>.
\<close>

section \<open>The heap of scopes\<close>

record resourceScope =
  locked :: bool
  sc_done :: bool
  refCnt :: go_int
  spanID :: go_int
  rc :: resources
  owner :: "nat option"
  edges :: "nat list"
  sc_name :: string

type_synonym scope_heap = "resourceScope list"

datatype 'a outcome = Finished 'a | Deadlock | NilDeref

fun bind_outcome :: "'a outcome \<Rightarrow> ('a \<Rightarrow> 'b outcome) \<Rightarrow> 'b outcome" where
  "bind_outcome (Finished a) f = f a"
| "bind_outcome Deadlock f = Deadlock"
| "bind_outcome NilDeref f = NilDeref"

definition lock_scope :: "scope_heap \<Rightarrow> nat \<Rightarrow> scope_heap" where
  "lock_scope h s = h[s := (h ! s)\<lparr>locked := True\<rparr>]"

definition unlock_scope :: "scope_heap \<Rightarrow> nat \<Rightarrow> scope_heap" where
  "unlock_scope h s = h[s := (h ! s)\<lparr>locked := False\<rparr>]"

definition set_rc :: "scope_heap \<Rightarrow> nat \<Rightarrow> resources \<Rightarrow> scope_heap" where
  "set_rc h s r = h[s := (h ! s)\<lparr>rc := r\<rparr>]"

definition wrapError :: "resourceScope \<Rightarrow> rc_error \<Rightarrow> rc_error" where
  "wrapError s err = Wrapped (sc_name s) err"

text \<open>
  A method whose body runs under \<open>s.Lock(); defer s.Unlock()\<close>; the body sees the heap with the
  lock held.
\<close>

definition with_lock :: "scope_heap \<Rightarrow> nat \<Rightarrow> (scope_heap \<Rightarrow> ('a \<times> scope_heap) outcome) \<Rightarrow> ('a \<times> scope_heap) outcome" where
  "with_lock h s body =
     (if length h \<le> s then NilDeref
      else if locked (h ! s) then Deadlock
      else bind_outcome (body (lock_scope h s)) (\<lambda>(a, h'). Finished (a, unlock_scope h' s)))"

definition unlocked_count :: "scope_heap \<Rightarrow> nat" where
  "unlocked_count h = length (filter (\<lambda>s. \<not> locked s) h)"

section \<open>Creation of scopes\<close>

definition IncRef :: "scope_heap \<Rightarrow> nat \<Rightarrow> (unit \<times> scope_heap) outcome" where
  "IncRef h s = with_lock h s (\<lambda>h. Finished ((), h[s := (h ! s)\<lparr>refCnt := i64 (refCnt (h ! s) + 1)\<rparr>]))"

definition DecRef :: "scope_heap \<Rightarrow> nat \<Rightarrow> (unit \<times> scope_heap) outcome" where
  "DecRef h s = with_lock h s (\<lambda>h. Finished ((), h[s := (h ! s)\<lparr>refCnt := i64 (refCnt (h ! s) - 1)\<rparr>]))"

fun inc_ref_all :: "scope_heap \<Rightarrow> nat list \<Rightarrow> (unit \<times> scope_heap) outcome" where
  "inc_ref_all h [] = Finished ((), h)"
| "inc_ref_all h (e # es) = bind_outcome (IncRef h e) (\<lambda>(_, h). inc_ref_all h es)"

text \<open>Both constructors return the pointer of the new scope.\<close>

definition newResourceScope :: "scope_heap \<Rightarrow> Limit \<Rightarrow> nat list \<Rightarrow> string \<Rightarrow> (nat \<times> scope_heap) outcome" where
  "newResourceScope h lim es name =
     bind_outcome (inc_ref_all h es) (\<lambda>(_, h).
       Finished (length h, h @ [\<lparr>locked = False, sc_done = False, refCnt = 0, spanID = 0,
         rc = new_resources lim, owner = None, edges = es, sc_name = name\<rparr>]))"

definition newResourceScopeSpan :: "scope_heap \<Rightarrow> nat \<Rightarrow> go_int \<Rightarrow> string \<Rightarrow> nat \<times> scope_heap" where
  "newResourceScopeSpan h own sid name =
     (length h, h @ [\<lparr>locked = False, sc_done = False, refCnt = 0, spanID = 0,
        rc = new_resources (limit (rc (h ! own))), owner = Some own, edges = [],
        sc_name = sc_name (h ! own) @ ''.span-'' @ name @ ''-'' @ show_int sid\<rparr>])"

definition NextSpanID :: "scope_heap \<Rightarrow> nat \<Rightarrow> (go_int \<times> scope_heap) outcome" where
  "NextSpanID h s = with_lock h s (\<lambda>h.
     let i = i64 (spanID (h ! s) + 1) in Finished (i, h[s := (h ! s)\<lparr>spanID := i\<rparr>]))"

definition BeginSpan :: "scope_heap \<Rightarrow> nat \<Rightarrow> ((rc_error + nat) \<times> scope_heap) outcome" where
  "BeginSpan h s = with_lock h s (\<lambda>h.
     if sc_done (h ! s) then Finished (Inl (wrapError (h ! s) ErrResourceScopeClosed), h)
     else let i = i64 (spanID (h ! s) + 1);
              h = h[s := (h ! s)\<lparr>refCnt := i64 (refCnt (h ! s) + 1), spanID := i\<rparr>];
              (p, h) = newResourceScopeSpan h s i ''temp''
          in Finished (Inr p, h))"

section \<open>Reservation and release in one scope and along its parents\<close>

text \<open>
  \<open>add\<close> and \<open>rem\<close> are a counter operation and its inverse on the \<open>resources\<close> of a scope.
  \<open>reserve_for_child\<close> is \<open>ReserveMemoryForChild\<close>, \<open>AddTaskForChild\<close> and
  \<open>AddConnForChild\<close>; the \<open>ScopeStat\<close> they also return is only logged.
\<close>

definition reserve_for_child ::
  "(resources \<Rightarrow> rc_error option \<times> resources) \<Rightarrow> scope_heap \<Rightarrow> nat \<Rightarrow> (rc_error option \<times> scope_heap) outcome" where
  "reserve_for_child add h s = with_lock h s (\<lambda>h.
     if sc_done (h ! s) then Finished (Some (wrapError (h ! s) ErrResourceScopeClosed), h)
     else case add (rc (h ! s)) of
            (Some err, _) \<Rightarrow> Finished (Some (wrapError (h ! s) err), h)
          | (None, r) \<Rightarrow> Finished (None, set_rc h s r))"

definition release_for_child :: "(resources \<Rightarrow> resources) \<Rightarrow> scope_heap \<Rightarrow> nat \<Rightarrow> (unit \<times> scope_heap) outcome" where
  "release_for_child rem h s = with_lock h s (\<lambda>h.
     if sc_done (h ! s) then Finished ((), h) else Finished ((), set_rc h s (rem (rc (h ! s)))))"

fun release_edges :: "(resources \<Rightarrow> resources) \<Rightarrow> scope_heap \<Rightarrow> nat list \<Rightarrow> (unit \<times> scope_heap) outcome" where
  "release_edges rem h [] = Finished ((), h)"
| "release_edges rem h (e # es) = bind_outcome (release_for_child rem h e) (\<lambda>(_, h). release_edges rem h es)"

text \<open>
  The loop over the edges stops at the first refusal and undoes the reservations made so far,
  first edge first (\<open>reserved\<close> is the prefix of the edges that accepted).
\<close>

fun reserve_edges ::
  "(resources \<Rightarrow> rc_error option \<times> resources) \<Rightarrow> (resources \<Rightarrow> resources) \<Rightarrow> scope_heap
    \<Rightarrow> nat list \<Rightarrow> nat list \<Rightarrow> (rc_error option \<times> scope_heap) outcome" where
  "reserve_edges add rem h reserved [] = Finished (None, h)"
| "reserve_edges add rem h reserved (e # es) =
     bind_outcome (reserve_for_child add h e) (\<lambda>(err, h).
       case err of
         Some x \<Rightarrow> bind_outcome (release_edges rem h reserved) (\<lambda>(_, h). Finished (Some x, h))
       | None \<Rightarrow> reserve_edges add rem h (reserved @ [e]) es)"

lemma length_filter_update_less:
  "s < length h \<Longrightarrow> P (h ! s) \<Longrightarrow> \<not> P x \<Longrightarrow> length (filter P (h[s := x])) < length (filter P h)"
proof (induction h arbitrary: s)
  case (Cons a h)
  show ?case
  proof (cases s)
    case 0
    with Cons.prems show ?thesis by simp
  next
    case (Suc t)
    with Cons show ?thesis by auto
  qed
qed simp

lemma unlocked_count_lock:
  "s < length h \<Longrightarrow> \<not> locked (h ! s) \<Longrightarrow> locked x \<Longrightarrow> unlocked_count (h[s := x]) < unlocked_count h"
  by (simp add: unlocked_count_def length_filter_update_less)

text \<open>
  \<open>scope_reserve\<close> is \<open>ReserveMemory\<close>, \<open>AddTask\<close> and \<open>AddConn\<close>: reserve here, then in
  the owner (a span) or in every edge (a DAG scope), and undo the local reservation when the
  parents refuse.
\<close>

function scope_reserve ::
  "(resources \<Rightarrow> rc_error option \<times> resources) \<Rightarrow> (resources \<Rightarrow> resources) \<Rightarrow> scope_heap \<Rightarrow> nat
    \<Rightarrow> (rc_error option \<times> scope_heap) outcome" where
  "scope_reserve add rem h s =
     (if length h \<le> s then NilDeref
      else if locked (h ! s) then Deadlock
      else let h1 = lock_scope h s in
        if sc_done (h1 ! s) then Finished (Some (wrapError (h1 ! s) ErrResourceScopeClosed), unlock_scope h1 s)
        else case add (rc (h1 ! s)) of
               (Some err, _) \<Rightarrow> Finished (Some (wrapError (h1 ! s) err), unlock_scope h1 s)
             | (None, r) \<Rightarrow>
                 bind_outcome
                   (case owner (h1 ! s) of
                      Some own \<Rightarrow> scope_reserve add rem (set_rc h1 s r) own
                    | None \<Rightarrow> reserve_edges add rem (set_rc h1 s r) [] (edges (h1 ! s)))
                   (\<lambda>(err, h2).
                      case err of
                        Some x \<Rightarrow> Finished (Some (wrapError (h2 ! s) x),
                                     unlock_scope (set_rc h2 s (rem (rc (h2 ! s)))) s)
                      | None \<Rightarrow> Finished (None, unlock_scope h2 s)))"
  by pat_completeness auto
termination
  by (relation "measure (\<lambda>(add, rem, h, s). unlocked_count h)")
     (auto simp: set_rc_def lock_scope_def unlocked_count_lock)

declare scope_reserve.simps [simp del]

text \<open>
  \<open>scope_release\<close> is \<open>ReleaseMemory\<close>, \<open>RemoveTask\<close> and \<open>RemoveConn\<close>. Only the memory
  method returns after releasing in the owner (\<open>stop\<close>); the other two go on to the edges, which
  are empty for a span.
\<close>

function scope_release :: "bool \<Rightarrow> (resources \<Rightarrow> resources) \<Rightarrow> scope_heap \<Rightarrow> nat \<Rightarrow> (unit \<times> scope_heap) outcome" where
  "scope_release stop rem h s =
     (if length h \<le> s then NilDeref
      else if locked (h ! s) then Deadlock
      else let h1 = lock_scope h s in
        if sc_done (h1 ! s) then Finished ((), unlock_scope h1 s)
        else
          bind_outcome
            (case owner (h1 ! s) of
               Some own \<Rightarrow>
                 bind_outcome (scope_release stop rem (set_rc h1 s (rem (rc (h1 ! s)))) own)
                   (\<lambda>(_, h2). if stop then Finished ((), h2) else release_edges rem h2 (edges (h1 ! s)))
             | None \<Rightarrow> release_edges rem (set_rc h1 s (rem (rc (h1 ! s)))) (edges (h1 ! s)))
            (\<lambda>(_, h2). Finished ((), unlock_scope h2 s)))"
  by pat_completeness auto
termination
  by (relation "measure (\<lambda>(stop, rem, h, s). unlocked_count h)")
     (auto simp: set_rc_def lock_scope_def unlocked_count_lock)

declare scope_release.simps [simp del]

section \<open>The methods of the interface\<close>

definition ReserveMemory :: "scope_heap \<Rightarrow> nat \<Rightarrow> int64 \<Rightarrow> uint8 \<Rightarrow> (rc_error option \<times> scope_heap) outcome" where
  "ReserveMemory h s sz prio = scope_reserve (\<lambda>r. reserveMemory r sz prio) (\<lambda>r. releaseMemory r sz) h s"

definition reserveMemoryForEdges :: "scope_heap \<Rightarrow> nat list \<Rightarrow> int64 \<Rightarrow> uint8 \<Rightarrow> (rc_error option \<times> scope_heap) outcome" where
  "reserveMemoryForEdges h es sz prio = reserve_edges (\<lambda>r. reserveMemory r sz prio) (\<lambda>r. releaseMemory r sz) h [] es"

definition ReserveMemoryForChild :: "scope_heap \<Rightarrow> nat \<Rightarrow> int64 \<Rightarrow> uint8 \<Rightarrow> (rc_error option \<times> scope_heap) outcome" where
  "ReserveMemoryForChild h s sz prio = reserve_for_child (\<lambda>r. reserveMemory r sz prio) h s"

definition ReleaseMemory :: "scope_heap \<Rightarrow> nat \<Rightarrow> int64 \<Rightarrow> (unit \<times> scope_heap) outcome" where
  "ReleaseMemory h s sz = scope_release True (\<lambda>r. releaseMemory r sz) h s"

definition ReleaseMemoryForChild :: "scope_heap \<Rightarrow> nat \<Rightarrow> int64 \<Rightarrow> (unit \<times> scope_heap) outcome" where
  "ReleaseMemoryForChild h s sz = release_for_child (\<lambda>r. releaseMemory r sz) h s"

definition AddTask :: "scope_heap \<Rightarrow> nat \<Rightarrow> go_int \<Rightarrow> ReserveTaskPriority \<Rightarrow> (rc_error option \<times> scope_heap) outcome" where
  "AddTask h s num prio = scope_reserve (\<lambda>r. addTask r num prio) (\<lambda>r. removeTask r num prio) h s"

definition addTaskForEdges :: "scope_heap \<Rightarrow> nat list \<Rightarrow> go_int \<Rightarrow> ReserveTaskPriority \<Rightarrow> (rc_error option \<times> scope_heap) outcome" where
  "addTaskForEdges h es num prio = reserve_edges (\<lambda>r. addTask r num prio) (\<lambda>r. removeTask r num prio) h [] es"

definition AddTaskForChild :: "scope_heap \<Rightarrow> nat \<Rightarrow> go_int \<Rightarrow> ReserveTaskPriority \<Rightarrow> (rc_error option \<times> scope_heap) outcome" where
  "AddTaskForChild h s num prio = reserve_for_child (\<lambda>r. addTask r num prio) h s"

definition RemoveTask :: "scope_heap \<Rightarrow> nat \<Rightarrow> go_int \<Rightarrow> ReserveTaskPriority \<Rightarrow> (unit \<times> scope_heap) outcome" where
  "RemoveTask h s num prio = scope_release False (\<lambda>r. removeTask r num prio) h s"

definition RemoveTaskForChild :: "scope_heap \<Rightarrow> nat \<Rightarrow> go_int \<Rightarrow> ReserveTaskPriority \<Rightarrow> (unit \<times> scope_heap) outcome" where
  "RemoveTaskForChild h s num prio = release_for_child (\<lambda>r. removeTask r num prio) h s"

definition AddConn :: "scope_heap \<Rightarrow> nat \<Rightarrow> Direction \<Rightarrow> (rc_error option \<times> scope_heap) outcome" where
  "AddConn h s dir = scope_reserve (\<lambda>r. addConn r dir) (\<lambda>r. removeConn r dir) h s"

definition addConnForEdges :: "scope_heap \<Rightarrow> nat list \<Rightarrow> Direction \<Rightarrow> (rc_error option \<times> scope_heap) outcome" where
  "addConnForEdges h es dir = reserve_edges (\<lambda>r. addConn r dir) (\<lambda>r. removeConn r dir) h [] es"

definition AddConnForChild :: "scope_heap \<Rightarrow> nat \<Rightarrow> Direction \<Rightarrow> (rc_error option \<times> scope_heap) outcome" where
  "AddConnForChild h s dir = reserve_for_child (\<lambda>r. addConn r dir) h s"

definition RemoveConn :: "scope_heap \<Rightarrow> nat \<Rightarrow> Direction \<Rightarrow> (unit \<times> scope_heap) outcome" where
  "RemoveConn h s dir = scope_release False (\<lambda>r. removeConn r dir) h s"

definition RemoveConnForChild :: "scope_heap \<Rightarrow> nat \<Rightarrow> Direction \<Rightarrow> (unit \<times> scope_heap) outcome" where
  "RemoveConnForChild h s dir = release_for_child (\<lambda>r. removeConn r dir) h s"

section \<open>Reservation of a whole usage record\<close>

text \<open>
  The block shared by \<open>ReserveForChild\<close> and \<open>ReserveResources\<close>. As in the source, the number of
  high-priority tasks is reserved at all three priorities, and the last undo removes the medium
  count.
\<close>

definition reserve_stat :: "resources \<Rightarrow> ScopeStat \<Rightarrow> rc_error option \<times> resources" where
  "reserve_stat r st =
     (case reserveMemory r (stMemory st) ReservationPriorityAlways of
        (Some err, r) \<Rightarrow> (Some err, r)
      | (None, r) \<Rightarrow>
     (case addConns r (NumConnsInbound st) (NumConnsOutbound st) (NumFD st) of
        (Some err, r) \<Rightarrow> (Some err, releaseMemory r (stMemory st))
      | (None, r) \<Rightarrow>
     (case addTask r (NumTasksHigh st) ReserveTaskPriorityHigh of
        (Some err, r) \<Rightarrow>
          (let r = releaseMemory r (stMemory st);
               r = removeConns r (NumConnsInbound st) (NumConnsOutbound st) (NumFD st)
           in (Some err, r))
      | (None, r) \<Rightarrow>
     (case addTask r (NumTasksHigh st) ReserveTaskPriorityMedium of
        (Some err, r) \<Rightarrow>
          (let r = releaseMemory r (stMemory st);
               r = removeConns r (NumConnsInbound st) (NumConnsOutbound st) (NumFD st);
               r = removeTask r (NumTasksHigh st) ReserveTaskPriorityHigh
           in (Some err, r))
      | (None, r) \<Rightarrow>
     (case addTask r (NumTasksHigh st) ReserveTaskPriorityLow of
        (Some err, r) \<Rightarrow>
          (let r = releaseMemory r (stMemory st);
               r = removeConns r (NumConnsInbound st) (NumConnsOutbound st) (NumFD st);
               r = removeTask r (NumTasksHigh st) ReserveTaskPriorityHigh;
               r = removeTask r (NumTasksMedium st) ReserveTaskPriorityMedium
           in (Some err, r))
      | (None, r) \<Rightarrow> (None, r))))))"

definition release_stat :: "resources \<Rightarrow> ScopeStat \<Rightarrow> resources" where
  "release_stat r st =
     (let r = releaseMemory r (stMemory st);
          r = removeConns r (NumConnsInbound st) (NumConnsOutbound st) (NumFD st);
          r = removeTask r (NumTasksHigh st) ReserveTaskPriorityHigh;
          r = removeTask r (NumTasksMedium st) ReserveTaskPriorityMedium
      in removeTask r (NumTasksLow st) ReserveTaskPriorityLow)"

definition ReserveForChild :: "scope_heap \<Rightarrow> nat \<Rightarrow> ScopeStat \<Rightarrow> (rc_error option \<times> scope_heap) outcome" where
  "ReserveForChild h s st = with_lock h s (\<lambda>h.
     if sc_done (h ! s) then Finished (Some (wrapError (h ! s) ErrResourceScopeClosed), h)
     else case reserve_stat (rc (h ! s)) st of
            (Some err, r) \<Rightarrow> Finished (Some (wrapError (h ! s) err), set_rc h s r)
          | (None, r) \<Rightarrow> Finished (None, set_rc h s r))"

definition ReleaseForChild :: "scope_heap \<Rightarrow> nat \<Rightarrow> ScopeStat \<Rightarrow> (unit \<times> scope_heap) outcome" where
  "ReleaseForChild h s st = release_for_child (\<lambda>r. release_stat r st) h s"

definition ReleaseResources :: "scope_heap \<Rightarrow> nat \<Rightarrow> ScopeStat \<Rightarrow> (unit \<times> scope_heap) outcome" where
  "ReleaseResources h s st = scope_release True (\<lambda>r. release_stat r st) h s"

text \<open>
  When the parent refuses, the source calls \<open>s.ReleaseResources\<close> while \<open>s\<close> is still locked by
  this very call; only the first edge is asked (the loop body ends in \<open>break\<close>).
\<close>

function ReserveResources :: "scope_heap \<Rightarrow> nat \<Rightarrow> ScopeStat \<Rightarrow> (rc_error option \<times> scope_heap) outcome" where
  "ReserveResources h s st =
     (if length h \<le> s then NilDeref
      else if locked (h ! s) then Deadlock
      else let h1 = lock_scope h s in
        if sc_done (h1 ! s) then Finished (Some (wrapError (h1 ! s) ErrResourceScopeClosed), unlock_scope h1 s)
        else case reserve_stat (rc (h1 ! s)) st of
               (Some err, r) \<Rightarrow> Finished (Some (wrapError (h1 ! s) err), unlock_scope (set_rc h1 s r) s)
             | (None, r) \<Rightarrow>
                 bind_outcome
                   (case owner (h1 ! s) of
                      Some own \<Rightarrow> ReserveResources (set_rc h1 s r) own st
                    | None \<Rightarrow>
                        (case edges (h1 ! s) of
                           [] \<Rightarrow> Finished (None, set_rc h1 s r)
                         | e # _ \<Rightarrow> ReserveForChild (set_rc h1 s r) e st))
                   (\<lambda>(err, h2).
                      case err of
                        Some x \<Rightarrow>
                          bind_outcome (ReleaseResources h2 s st) (\<lambda>(_, h3). Finished (Some x, unlock_scope h3 s))
                      | None \<Rightarrow> Finished (None, unlock_scope h2 s)))"
  by pat_completeness auto
termination
  by (relation "measure (\<lambda>(h, s, st). unlocked_count h)")
     (auto simp: set_rc_def lock_scope_def unlocked_count_lock)

declare ReserveResources.simps [simp del]

fun release_for_edges :: "scope_heap \<Rightarrow> nat list \<Rightarrow> ScopeStat \<Rightarrow> (unit \<times> scope_heap) outcome" where
  "release_for_edges h [] st = Finished ((), h)"
| "release_for_edges h (e # es) st =
     bind_outcome (ReleaseForChild h e st) (\<lambda>(_, h). release_for_edges h es st)"

definition Release :: "scope_heap \<Rightarrow> nat \<Rightarrow> (unit \<times> scope_heap) outcome" where
  "Release h s = with_lock h s (\<lambda>h.
     if sc_done (h ! s) then Finished ((), h)
     else let st = rc_stat (rc (h ! s));
              h = set_rc h s (release_stat (rc (h ! s)) st)
          in case owner (h ! s) of
               Some own \<Rightarrow> ReleaseResources h own st
             | None \<Rightarrow> release_for_edges h (edges (h ! s)) st)"

fun done_for_edges :: "scope_heap \<Rightarrow> nat list \<Rightarrow> ScopeStat \<Rightarrow> (unit \<times> scope_heap) outcome" where
  "done_for_edges h [] st = Finished ((), h)"
| "done_for_edges h (e # es) st =
     bind_outcome (ReleaseForChild h e st) (\<lambda>(_, h).
     bind_outcome (DecRef h e) (\<lambda>(_, h). done_for_edges h es st))"

text \<open>The task counters of a closed scope keep their values.\<close>

definition Done :: "scope_heap \<Rightarrow> nat \<Rightarrow> (unit \<times> scope_heap) outcome" where
  "Done h s = with_lock h s (\<lambda>h.
     if sc_done (h ! s) then Finished ((), h)
     else let st = rc_stat (rc (h ! s))
          in bind_outcome
               (case owner (h ! s) of
                  Some own \<Rightarrow>
                    bind_outcome (ReleaseResources h own st) (\<lambda>(_, h). DecRef h own)
                | None \<Rightarrow> done_for_edges h (edges (h ! s)) st)
               (\<lambda>(_, h). Finished ((),
                  h[s := (h ! s)\<lparr>rc := (rc (h ! s))\<lparr>nconnsIn := 0, nconnsOut := 0, nfd := 0, memory := 0\<rparr>,
                                 sc_done := True\<rparr>])))"

definition RemainingResource :: "scope_heap \<Rightarrow> nat \<Rightarrow> Limit outcome" where
  "RemainingResource h s = (if length h \<le> s then NilDeref else Finished (remaining (rc (h ! s))))"

definition Stat :: "scope_heap \<Rightarrow> nat \<Rightarrow> (ScopeStat \<times> scope_heap) outcome" where
  "Stat h s = with_lock h s (\<lambda>h. Finished (rc_stat (rc (h ! s)), h))"

definition IsUnused :: "scope_heap \<Rightarrow> nat \<Rightarrow> (bool \<times> scope_heap) outcome" where
  "IsUnused h s = with_lock h s (\<lambda>h.
     if sc_done (h ! s) then Finished (True, h)
     else if refCnt (h ! s) > 0 then Finished (False, h)
     else let st = rc_stat (rc (h ! s))
          in Finished (NumConnsInbound st = 0 \<and> NumConnsOutbound st = 0 \<and> NumFD st = 0, h))"

section \<open>The resource manager\<close>

record resourceManager =
  limits :: Limiter
  rm_system :: nat
  rm_transient :: nat
  svc :: "string \<rightharpoonup> nat"

text \<open>A limiter without system limits leaves a nil limit, which the first use dereferences.\<close>

definition NewResourceManager :: "scope_heap \<Rightarrow> Limiter \<Rightarrow> (resourceManager \<times> scope_heap) outcome" where
  "NewResourceManager h ls =
     (case GetSystemLimits ls of
        None \<Rightarrow> NilDeref
      | Some lim \<Rightarrow>
          bind_outcome (newResourceScope h lim [] ''system'') (\<lambda>(p, h).
            Finished (\<lparr>limits = ls, rm_system = p, rm_transient = p, svc = Map.empty\<rparr>, h)))"

definition OpenService :: "resourceManager \<Rightarrow> scope_heap \<Rightarrow> string \<Rightarrow> (nat \<times> resourceManager \<times> scope_heap) outcome" where
  "OpenService r h name =
     bind_outcome
       (case GetServiceLimits (limits r) name of
          None \<Rightarrow>
            bind_outcome (NextSpanID h (rm_system r)) (\<lambda>(i, h).
              Finished (newResourceScopeSpan h (rm_system r) i name))
        | Some lim \<Rightarrow> newResourceScope h lim [rm_system r] name)
       (\<lambda>(p, h). Finished (p, r\<lparr>svc := (svc r)(name \<mapsto> p)\<rparr>, h))"

section \<open>Heap lemmas\<close>

lemma lock_unlock [simp]: "s < length h \<Longrightarrow> \<not> locked (h ! s) \<Longrightarrow> unlock_scope (lock_scope h s) s = h"
proof -
  assume "s < length h" "\<not> locked (h ! s)"
  then have "(h ! s)\<lparr>locked := True, locked := False\<rparr> = h ! s" by (cases "h ! s") simp
  with \<open>s < length h\<close> show ?thesis by (simp add: lock_scope_def unlock_scope_def)
qed

lemma heap_lengths [simp]:
  "length (lock_scope h s) = length h" "length (unlock_scope h s) = length h" "length (set_rc h s r) = length h"
  by (simp_all add: lock_scope_def unlock_scope_def set_rc_def)

lemma lock_scope_nth [simp]:
  "s < length h \<Longrightarrow> lock_scope h s ! j = (if j = s then (h ! s)\<lparr>locked := True\<rparr> else h ! j)"
  "s < length h \<Longrightarrow> set_rc h s r ! j = (if j = s then (h ! s)\<lparr>rc := r\<rparr> else h ! j)"
  "s < length h \<Longrightarrow> unlock_scope h s ! j = (if j = s then (h ! s)\<lparr>locked := False\<rparr> else h ! j)"
  by (auto simp: lock_scope_def set_rc_def unlock_scope_def nth_list_update)

lemma set_rc_same [simp]: "s < length h \<Longrightarrow> set_rc h s (rc (h ! s)) = h"
  by (simp add: set_rc_def)

lemma set_rc_twice [simp]: "s < length h \<Longrightarrow> set_rc (set_rc h s r) s r' = set_rc h s r'"
  by (simp add: set_rc_def)

lemma set_rc_lock: "s < length h \<Longrightarrow> set_rc (lock_scope h s) s r = lock_scope (set_rc h s r) s"
  by (cases "h ! s") (simp add: set_rc_def lock_scope_def)

lemma reserve_for_child_eq:
  assumes "s < length h" "\<not> locked (h ! s)"
  shows "reserve_for_child add h s = Finished
    (if sc_done (h ! s) then (Some (wrapError (h ! s) ErrResourceScopeClosed), h)
     else case add (rc (h ! s)) of
            (Some err, _) \<Rightarrow> (Some (wrapError (h ! s) err), h)
          | (None, r) \<Rightarrow> (None, set_rc h s r))"
  using assms
  by (auto simp: reserve_for_child_def with_lock_def wrapError_def set_rc_lock split: prod.splits option.splits)

lemma release_for_child_eq:
  assumes "s < length h" "\<not> locked (h ! s)"
  shows "release_for_child rem h s = Finished ((), if sc_done (h ! s) then h else set_rc h s (rem (rc (h ! s))))"
  using assms by (auto simp: release_for_child_def with_lock_def set_rc_lock)

section \<open>The abstract effect of a reservation\<close>

text \<open>
  \<open>charge add h S\<close> applies a counter operation in every scope of the set \<open>S\<close>; \<open>affected h s\<close>
  is the set a reservation in \<open>s\<close> is accounted in: the scope, its owners and the edges of the DAG
  scope at the root of the span tree.
\<close>

definition charge :: "(resources \<Rightarrow> rc_error option \<times> resources) \<Rightarrow> scope_heap \<Rightarrow> nat set \<Rightarrow> scope_heap" where
  "charge add h S = map (\<lambda>i. if i \<in> S then (h ! i)\<lparr>rc := snd (add (rc (h ! i)))\<rparr> else h ! i) [0..<length h]"

function affected :: "scope_heap \<Rightarrow> nat \<Rightarrow> nat set" where
  "affected h s = insert s
     (case owner (h ! s) of
        Some own \<Rightarrow> (if own < s then affected h own else {})
      | None \<Rightarrow> set (edges (h ! s)))"
  by pat_completeness auto
termination
  by (relation "measure snd") auto

declare affected.simps [simp del]

definition accepts :: "(resources \<Rightarrow> rc_error option \<times> resources) \<Rightarrow> resourceScope \<Rightarrow> bool" where
  "accepts add sc \<longleftrightarrow> \<not> sc_done sc \<and> fst (add (rc sc)) = None"

text \<open>Pointers of a scope go to older scopes; a span has no edges, the edges of a scope are distinct.\<close>

definition wf_heap :: "scope_heap \<Rightarrow> bool" where
  "wf_heap h \<longleftrightarrow> (\<forall>i < length h.
     case owner (h ! i) of
       Some own \<Rightarrow> own < i \<and> edges (h ! i) = []
     | None \<Rightarrow> distinct (edges (h ! i)) \<and> (\<forall>e \<in> set (edges (h ! i)). e < i))"

lemma length_charge [simp]: "length (charge add h S) = length h"
  by (simp add: charge_def)

lemma charge_nth [simp]:
  "i < length h \<Longrightarrow> charge add h S ! i = (if i \<in> S then (h ! i)\<lparr>rc := snd (add (rc (h ! i)))\<rparr> else h ! i)"
  by (simp add: charge_def)

lemma charge_empty [simp]: "charge add h {} = h"
  by (rule nth_equalityI) simp_all

lemma charge_insert:
  "i < length h \<Longrightarrow> i \<notin> S \<Longrightarrow> set_rc (charge add h S) i (snd (add (rc (h ! i)))) = charge add h (insert i S)"
  by (rule nth_equalityI) auto

lemma uncharge:
  assumes "i < length h" "i \<notin> S"
  shows "set_rc (charge add h (insert i S)) i (rc (h ! i)) = charge add h S"
proof (rule nth_equalityI)
  fix j assume "j < length (set_rc (charge add h (insert i S)) i (rc (h ! i)))"
  with assms show "set_rc (charge add h (insert i S)) i (rc (h ! i)) ! j = charge add h S ! j"
    by (cases "h ! i") auto
qed simp

lemma wf_heapD:
  assumes "wf_heap h" "i < length h"
  shows "owner (h ! i) = Some own \<Longrightarrow> own < i" "owner (h ! i) = Some own \<Longrightarrow> edges (h ! i) = []"
    "owner (h ! i) = None \<Longrightarrow> distinct (edges (h ! i))"
    "owner (h ! i) = None \<Longrightarrow> e \<in> set (edges (h ! i)) \<Longrightarrow> e < i"
  using assms by (auto simp: wf_heap_def dest!: spec [of _ i])

lemma affected_le: "wf_heap h \<Longrightarrow> s < length h \<Longrightarrow> i \<in> affected h s \<Longrightarrow> i \<le> s"
proof (induction h s rule: affected.induct)
  case (1 h s)
  show ?case
  proof (cases "owner (h ! s)")
    case None
    with 1 wf_heapD(4) [OF 1(2,3) None] show ?thesis by (fastforce simp: affected.simps [of h s])
  next
    case (Some own)
    with 1 wf_heapD(1) [OF 1(2,3) Some] show ?thesis by (fastforce simp: affected.simps [of h s])
  qed
qed

lemma affected_cong:
  assumes "\<And>i. i \<le> s \<Longrightarrow> owner (h ! i) = owner (h' ! i) \<and> edges (h ! i) = edges (h' ! i)"
  shows "affected h s = affected h' s"
  using assms
proof (induction s rule: less_induct)
  case (less s)
  then show ?case
    by (cases "owner (h ! s)") (auto simp: affected.simps [of h s] affected.simps [of h' s])
qed

text \<open>The heap while a reservation in \<open>s\<close> is under way: locked and charged there.\<close>

abbreviation begun :: "scope_heap \<Rightarrow> nat \<Rightarrow> resources \<Rightarrow> scope_heap" where
  "begun h s r \<equiv> set_rc (lock_scope h s) s r"

lemma begun_abort:
  assumes "s < length h" "\<not> locked (h ! s)"
  shows "unlock_scope (set_rc (begun h s r) s (rc (h ! s))) s = h"
proof -
  have "set_rc (begun h s r) s (rc (h ! s)) = set_rc (lock_scope h s) s (rc (lock_scope h s ! s))"
    using assms by simp
  also have "\<dots> = lock_scope h s" using assms by (subst set_rc_same) simp_all
  finally show ?thesis using assms by simp
qed

lemma begun_commit:
  assumes "s < length h" "\<not> locked (h ! s)" "s \<notin> S" "snd (add (rc (h ! s))) = r"
  shows "unlock_scope (charge add (begun h s r) S) s = charge add h (insert s S)"
proof (rule nth_equalityI)
  fix j assume "j < length (unlock_scope (charge add (begun h s r) S) s)"
  with assms show "unlock_scope (charge add (begun h s r) S) s ! j = charge add h (insert s S) ! j"
    by (cases "h ! s") auto
qed simp

lemma wf_heap_begun: "s < length h \<Longrightarrow> wf_heap h \<Longrightarrow> wf_heap (begun h s r)"
  by (simp add: wf_heap_def cong: option.case_cong)

section \<open>The contract of a counter operation and what scopes make of it\<close>

locale reservation =
  fixes add :: "resources \<Rightarrow> rc_error option \<times> resources"
    and rem :: "resources \<Rightarrow> resources"
    and adm :: "resources \<Rightarrow> bool"
  assumes undo: "adm r \<Longrightarrow> add r = (None, r') \<Longrightarrow> rem r' = r"
    and keep: "adm r \<Longrightarrow> add r = (None, r') \<Longrightarrow> adm r'"
begin

lemma release_edges_uncharge:
  assumes "distinct es" "\<forall>e \<in> set es. e < length h \<and> \<not> locked (h ! e) \<and> accepts add (h ! e) \<and> adm (rc (h ! e))"
  shows "release_edges rem (charge add h (set es)) es = Finished ((), h)"
  using assms
proof (induction es)
  case (Cons e es)
  let ?h = "charge add h (set (e # es))"
  obtain r where r: "add (rc (h ! e)) = (None, r)"
    using Cons.prems by (cases "add (rc (h ! e))") (auto simp: accepts_def)
  have e: "e < length ?h" "\<not> locked (?h ! e)" "\<not> sc_done (?h ! e)" "rc (?h ! e) = r"
    using Cons.prems r by (auto simp: accepts_def)
  have "rem r = rc (h ! e)" using undo [OF _ r] Cons.prems by simp
  then have "set_rc ?h e (rem (rc (?h ! e))) = set_rc ?h e (rc (h ! e))"
    by (simp only: e(4))
  also have "\<dots> = charge add h (set es)"
    using uncharge [of e h "set es"] Cons.prems by simp
  finally have "set_rc ?h e (rem (rc (?h ! e))) = charge add h (set es)" .
  then have "release_for_child rem ?h e = Finished ((), charge add h (set es))"
    using release_for_child_eq [OF e(1,2)] e(3) by simp
  with Cons show ?case by simp
qed simp

lemma reserve_edges_cases:
  assumes "distinct (res @ es)" "\<forall>e \<in> set (res @ es). e < length h \<and> \<not> locked (h ! e) \<and> adm (rc (h ! e))"
    "\<forall>e \<in> set res. accepts add (h ! e)"
  shows "(\<exists>x. reserve_edges add rem (charge add h (set res)) res es = Finished (Some x, h)
            \<and> \<not> (\<forall>e \<in> set es. accepts add (h ! e)))
    \<or> reserve_edges add rem (charge add h (set res)) res es = Finished (None, charge add h (set (res @ es)))
      \<and> (\<forall>e \<in> set es. accepts add (h ! e))"
  using assms
proof (induction es arbitrary: res)
  case (Cons e es)
  let ?h = "charge add h (set res)"
  have e: "e < length ?h" "\<not> locked (?h ! e)" "?h ! e = h ! e" using Cons.prems by auto
  show ?case
  proof (cases "accepts add (h ! e)")
    case True
    then obtain r where r: "add (rc (h ! e)) = (None, r)" "\<not> sc_done (h ! e)"
      by (cases "add (rc (h ! e))") (auto simp: accepts_def)
    have "set_rc ?h e r = charge add h (set (res @ [e]))"
      using charge_insert [of e h "set res" add] Cons.prems r by (simp add: insert_commute)
    then have "reserve_for_child add ?h e = Finished (None, charge add h (set (res @ [e])))"
      using reserve_for_child_eq [OF e(1,2), of add] r e(3) by simp
    with Cons.IH [of "res @ [e]"] Cons.prems True show ?thesis by auto
  next
    case False
    obtain x where "reserve_for_child add ?h e = Finished (Some x, ?h)"
      using False reserve_for_child_eq [OF e(1,2), of add] e(3)
      by (cases "add (rc (h ! e))"; cases "fst (add (rc (h ! e)))") (auto simp: accepts_def split: if_splits)
    moreover have "release_edges rem ?h res = Finished ((), h)"
      using Cons.prems by (intro release_edges_uncharge) auto
    ultimately show ?thesis using False by auto
  qed
qed simp

lemma scope_reserve_parents:
  assumes "wf_heap h" "s < length h" "\<forall>i \<le> s. \<not> locked (h ! i) \<and> adm (rc (h ! i))"
    and IH: "\<And>own h'. own < s \<Longrightarrow> wf_heap h' \<Longrightarrow> own < length h' \<Longrightarrow>
        \<forall>i \<le> own. \<not> locked (h' ! i) \<and> adm (rc (h' ! i)) \<Longrightarrow>
        (\<exists>x. scope_reserve add rem h' own = Finished (Some x, h') \<and> \<not> (\<forall>i \<in> affected h' own. accepts add (h' ! i)))
        \<or> scope_reserve add rem h' own = Finished (None, charge add h' (affected h' own))
          \<and> (\<forall>i \<in> affected h' own. accepts add (h' ! i))"
    and S: "affected h s = insert s S" "s \<notin> S"
  shows "(\<exists>x. (case owner (h ! s) of
             Some own \<Rightarrow> scope_reserve add rem (begun h s r) own
           | None \<Rightarrow> reserve_edges add rem (begun h s r) [] (edges (h ! s))) = Finished (Some x, begun h s r)
           \<and> \<not> (\<forall>i \<in> S. accepts add (h ! i)))
    \<or> (case owner (h ! s) of
             Some own \<Rightarrow> scope_reserve add rem (begun h s r) own
           | None \<Rightarrow> reserve_edges add rem (begun h s r) [] (edges (h ! s)))
         = Finished (None, charge add (begun h s r) S) \<and> (\<forall>i \<in> S. accepts add (h ! i))"
proof -
  let ?h = "begun h s r"
  have below: "?h ! i = h ! i" if "i < s" for i using that assms(2) by simp
  have acc: "(\<forall>i \<in> S. accepts add (?h ! i)) = (\<forall>i \<in> S. accepts add (h ! i))"
    using S(2) assms(2) by (metis lock_scope_nth(1,2) heap_lengths(1))
  show ?thesis
  proof (cases "owner (h ! s)")
    case (Some own)
    have own: "own < s" using wf_heapD(1) [OF assms(1,2) Some] .
    have aff: "affected ?h own = affected h own"
      by (rule affected_cong) (use own below in auto)
    have "s \<notin> affected h own" using affected_le [OF assms(1), of own s] own assms(2) by auto
    with S have "S = affected h own"
      using Some own by (auto simp: affected.simps [of h s])
    moreover have "\<forall>i \<le> own. \<not> locked (?h ! i) \<and> adm (rc (?h ! i))" "own < length ?h"
      using own assms(2,3) below by auto
    ultimately show ?thesis
      using IH [OF own wf_heap_begun [OF assms(2,1), of r]] acc aff Some
      by (simp del: lock_scope_nth) blast
  next
    case None
    have es: "distinct (edges (h ! s))" "\<forall>e \<in> set (edges (h ! s)). e < s"
      using wf_heapD(3,4) [OF assms(1,2) None] by auto
    with S None have "S = set (edges (h ! s))" by (auto simp: affected.simps [of h s])
    moreover have "\<forall>e \<in> set ([] @ edges (h ! s)). e < length ?h \<and> \<not> locked (?h ! e) \<and> adm (rc (?h ! e))"
      using es assms(2,3) below by auto
    ultimately show ?thesis
      using reserve_edges_cases [of "[]" "edges (h ! s)" ?h] es(1) acc None
      by (simp del: lock_scope_nth) blast
  qed
qed

text \<open>A reservation is accounted in every affected scope, or nowhere.\<close>

lemma scope_reserve_cases:
  assumes "wf_heap h" "s < length h" "\<forall>i \<le> s. \<not> locked (h ! i) \<and> adm (rc (h ! i))"
  shows "(\<exists>x. scope_reserve add rem h s = Finished (Some x, h) \<and> \<not> (\<forall>i \<in> affected h s. accepts add (h ! i)))
    \<or> scope_reserve add rem h s = Finished (None, charge add h (affected h s))
      \<and> (\<forall>i \<in> affected h s. accepts add (h ! i))"
  using assms
proof (induction s arbitrary: h rule: less_induct)
  case (less s)
  note prems = less.prems
  have unl: "\<not> locked (h ! s)" using prems by simp
  have s_in: "s \<in> affected h s" by (simp add: affected.simps [of h s])
  show ?case
  proof (cases "accepts add (h ! s)")
    case False
    then have "\<exists>x. scope_reserve add rem h s = Finished (Some x, h)"
      using prems(2) unl
      by (cases "add (rc (h ! s))"; cases "fst (add (rc (h ! s)))")
         (auto simp: accepts_def scope_reserve.simps [of add rem h s] Let_def)
    with False s_in show ?thesis by auto
  next
    case True
    then obtain r where r: "add (rc (h ! s)) = (None, r)" "\<not> sc_done (h ! s)"
      by (cases "add (rc (h ! s))") (auto simp: accepts_def)
    define S where "S = affected h s - {s}"
    have S: "affected h s = insert s S" "s \<notin> S" using s_in by (auto simp: S_def)
    define up where "up = (case owner (h ! s) of
             Some own \<Rightarrow> scope_reserve add rem (begun h s r) own
           | None \<Rightarrow> reserve_edges add rem (begun h s r) [] (edges (h ! s)))"
    have eq: "scope_reserve add rem h s = bind_outcome up
        (\<lambda>(err, h2). case err of
           Some x \<Rightarrow> Finished (Some (wrapError (h2 ! s) x), unlock_scope (set_rc h2 s (rem (rc (h2 ! s)))) s)
         | None \<Rightarrow> Finished (None, unlock_scope h2 s))"
      using prems(2) unl r by (simp add: scope_reserve.simps [of add rem h s] Let_def up_def cong: option.case_cong)
    have undone: "rem r = rc (h ! s)" using undo [OF _ r(1)] prems by simp
    from scope_reserve_parents [OF prems less.IH S, of r]
    consider x where "up = Finished (Some x, begun h s r)" "\<not> (\<forall>i \<in> S. accepts add (h ! i))"
      | "up = Finished (None, charge add (begun h s r) S)" "\<forall>i \<in> S. accepts add (h ! i)"
      unfolding up_def by blast
    then show ?thesis
    proof cases
      case 1
      with eq undone begun_abort [OF prems(2) unl, of r] prems(2) S show ?thesis by auto
    next
      case 2
      with eq begun_commit [OF prems(2) unl S(2), of add r] r True S show ?thesis by auto
    qed
  qed
qed

lemma charge_adm:
  assumes "\<forall>i < length h. adm (rc (h ! i))" "\<forall>i \<in> S. accepts add (h ! i)" "j < length h"
  shows "adm (rc (charge add h S ! j))"
proof (cases "j \<in> S")
  case True
  then obtain r where "add (rc (h ! j)) = (None, r)"
    using assms(2) by (cases "add (rc (h ! j))") (auto simp: accepts_def)
  with keep [OF _ this] True assms show ?thesis by simp
qed (use assms in simp)

lemma scope_reserve_adm:
  assumes "wf_heap h" "s < length h" "\<forall>i < length h. \<not> locked (h ! i) \<and> adm (rc (h ! i))"
  obtains err h' where "scope_reserve add rem h s = Finished (err, h')" "length h' = length h"
    "\<forall>i < length h'. \<not> locked (h' ! i) \<and> adm (rc (h' ! i))"
proof -
  have *: "\<forall>i \<le> s. \<not> locked (h ! i) \<and> adm (rc (h ! i))" using assms by auto
  from scope_reserve_cases [OF assms(1,2) *]
  consider (refused) x where "scope_reserve add rem h s = Finished (Some x, h)"
    | (accepted) "scope_reserve add rem h s = Finished (None, charge add h (affected h s))"
        "\<forall>i \<in> affected h s. accepts add (h ! i)"
    by blast
  then show thesis
  proof cases
    case refused
    then show ?thesis by (rule that) (use assms in auto)
  next
    case accepted
    have "\<forall>j < length h. adm (rc (charge add h (affected h s) ! j))"
      using charge_adm assms(3) accepted(2) by blast
    then show ?thesis using assms(3) by (intro that [OF accepted(1)]) auto
  qed
qed

end

lemma release_edges_charge:
  assumes "distinct es" "\<forall>e \<in> set es. e < length h \<and> \<not> locked (h ! e) \<and> \<not> sc_done (h ! e)"
  shows "release_edges rem h es = Finished ((), charge (\<lambda>r. (None, rem r)) h (set es))"
  using assms
proof (induction es arbitrary: h)
  case (Cons e es)
  have "release_for_child rem h e = Finished ((), set_rc h e (rem (rc (h ! e))))"
    using Cons.prems release_for_child_eq [of e h rem] by simp
  moreover have "charge (\<lambda>r. (None, rem r)) (set_rc h e (rem (rc (h ! e)))) (set es)
      = charge (\<lambda>r. (None, rem r)) h (set (e # es))"
    using Cons.prems by (intro nth_equalityI) auto
  ultimately show ?case
    using Cons.IH [of "set_rc h e (rem (rc (h ! e)))"] Cons.prems by auto
qed simp

text \<open>A release reaches exactly the affected scopes, when none of them is closed.\<close>

lemma scope_release_charge:
  assumes "wf_heap h" "s < length h" "\<forall>i \<le> s. \<not> locked (h ! i)" "\<forall>i \<in> affected h s. \<not> sc_done (h ! i)"
  shows "scope_release stop rem h s = Finished ((), charge (\<lambda>r. (None, rem r)) h (affected h s))"
  using assms
proof (induction s arbitrary: h rule: less_induct)
  case (less s)
  let ?add = "\<lambda>r. (None, rem r)" and ?r = "rem (rc (h ! s))"
  let ?h = "begun h s ?r"
  note prems = less.prems
  have s: "\<not> locked (h ! s)" "\<not> sc_done (h ! s)" "s \<in> affected h s"
    using prems by (auto simp: affected.simps [of h s])
  define S where "S = affected h s - {s}"
  have S: "affected h s = insert s S" "s \<notin> S" using s by (auto simp: S_def)
  have below: "?h ! i = h ! i" if "i < s" for i using that prems(2) by simp
  have "(case owner (h ! s) of
          Some own \<Rightarrow> bind_outcome (scope_release stop rem ?h own)
             (\<lambda>(_, h2). if stop then Finished ((), h2) else release_edges rem h2 (edges (h ! s)))
        | None \<Rightarrow> release_edges rem ?h (edges (h ! s))) = Finished ((), charge ?add ?h S)"
  proof (cases "owner (h ! s)")
    case (Some own)
    have own: "own < s" "edges (h ! s) = []" using wf_heapD(1,2) [OF prems(1,2) Some] by auto
    have aff: "affected ?h own = affected h own"
      by (rule affected_cong) (use own below in auto)
    have "s \<notin> affected h own" using affected_le [OF prems(1), of own s] own prems(2) by auto
    with S have "S = affected h own" using Some own by (auto simp: affected.simps [of h s])
    moreover have "scope_release stop rem ?h own = Finished ((), charge ?add ?h (affected ?h own))"
    proof (rule less.IH [OF own(1) wf_heap_begun [OF prems(2,1)]])
      show "\<forall>i \<in> affected ?h own. \<not> sc_done (?h ! i)"
        using prems(4) S \<open>S = affected h own\<close> aff affected_le [OF prems(1), of own] own prems(2) below
        by (metis insertI2 le_less_trans less_trans)
    qed (use own prems below in auto)
    ultimately show ?thesis using Some own aff by simp
  next
    case None
    have es: "distinct (edges (h ! s))" "\<forall>e \<in> set (edges (h ! s)). e < s"
      using wf_heapD(3,4) [OF prems(1,2) None] by auto
    have "S = set (edges (h ! s))" using S es None by (auto simp: affected.simps [of h s])
    moreover from this have "\<forall>e \<in> set (edges (h ! s)). \<not> sc_done (h ! e)" using prems(4) S by auto
    moreover have "\<forall>e \<in> set (edges (h ! s)). e < length ?h \<and> \<not> locked (?h ! e) \<and> \<not> sc_done (?h ! e)"
      using es prems(2,3) below calculation(2) by auto
    ultimately show ?thesis
      using release_edges_charge [OF es(1), of ?h rem] None by (simp del: lock_scope_nth)
  qed
  then have "scope_release stop rem h s = Finished ((), unlock_scope (charge ?add ?h S) s)"
    using prems(2) s
    by (simp add: scope_release.simps [of stop rem h s] Let_def cong: option.case_cong if_cong)
  also have "\<dots> = Finished ((), charge ?add h (affected h s))"
    using begun_commit [OF prems(2) s(1) S(2), of ?add ?r] S(1) by simp
  finally show ?case .
qed

section \<open>The three families\<close>

interpretation mem_rsv: reservation
  "\<lambda>r. reserveMemory r sz prio" "\<lambda>r. releaseMemory r sz"
  "\<lambda>r. rc_ok r \<and> in_i64 sz \<and> GetMemoryLimit (limit r) \<noteq> MaxInt64" for sz prio
proof (unfold_locales, goal_cases)
  case (1 r r')
  then show ?case by (blast intro: releaseMemory_undo)
next
  case (2 r r')
  then show ?case using reserveMemory_ok [of r sz prio] reserveMemory_limit [of r sz prio] by simp
qed

interpretation task_rsv: reservation
  "\<lambda>r. addTask r num prio" "\<lambda>r. removeTask r num prio"
  "\<lambda>r. rc_ok r \<and> small_count num \<and> prio \<noteq> ReserveTaskPriorityUnknown" for num prio
proof (unfold_locales, goal_cases)
  case (1 r r')
  then show ?case by (blast intro: removeTask_undo)
next
  case (2 r r')
  then show ?case using addTask_ok [of r num prio] by simp
qed

interpretation conn_rsv: reservation
  "\<lambda>r. addConn r dir" "\<lambda>r. removeConn r dir" "\<lambda>r. rc_ok r \<and> dir \<noteq> DirInbound" for dir
proof (unfold_locales, goal_cases)
  case (1 r r')
  then show ?case by (blast intro: removeConn_undo)
next
  case (2 r r')
  then show ?case using addConn_ok [of r dir] by simp
qed

text \<open>
  C33. Memory reservation is atomic along the scope tree: on a well-formed tree whose scopes are
  within their limits, \<open>ReserveMemory\<close> always returns; either some affected scope (the scope, an
  owner, or an edge of the root of its span tree) refuses and no scope has changed, or all of
  them accept and each has been charged exactly once.
\<close>

theorem ReserveMemory_atomic:
  assumes "wf_heap h" "s < length h" "\<forall>i \<le> s. \<not> locked (h ! i) \<and> rc_ok (rc (h ! i))
      \<and> GetMemoryLimit (limit (rc (h ! i))) \<noteq> MaxInt64" "in_i64 sz"
  shows "(\<exists>err. ReserveMemory h s sz prio = Finished (Some err, h)
           \<and> (\<exists>i \<in> affected h s. \<not> accepts (\<lambda>r. reserveMemory r sz prio) (h ! i)))
    \<or> (ReserveMemory h s sz prio
         = Finished (None, charge (\<lambda>r. reserveMemory r sz prio) h (affected h s))
       \<and> (\<forall>i \<in> affected h s. accepts (\<lambda>r. reserveMemory r sz prio) (h ! i)))"
  using mem_rsv.scope_reserve_cases [OF assms(1,2), of sz prio] assms(3,4)
  unfolding ReserveMemory_def by blast

text \<open>A system scope, a service scope constrained by it, and a span of the service.\<close>

definition demo_scope :: "Limit \<Rightarrow> nat option \<Rightarrow> nat list \<Rightarrow> resourceScope" where
  "demo_scope l own es = \<lparr>locked = False, sc_done = False, refCnt = 0, spanID = 0,
     rc = new_resources l, owner = own, edges = es, sc_name = ''scope''\<rparr>"

definition demo_heap :: "GfSpLimit \<Rightarrow> GfSpLimit \<Rightarrow> scope_heap" where
  "demo_heap sys service =
     [demo_scope (GfSpLim sys) None [], demo_scope (GfSpLim service) None [0],
      demo_scope (GfSpLim service) (Some 1) []]"

lemma wf_demo_heap: "wf_heap (demo_heap l m)"
  by (auto simp: wf_heap_def demo_heap_def demo_scope_def less_Suc_eq)

lemma demo_heap_ok:
  assumes "wf_limit l" "nonneg_limit l" "wf_limit m" "nonneg_limit m" "i \<le> 2"
  shows "\<not> locked (demo_heap l m ! i) \<and> rc_ok (rc (demo_heap l m ! i))"
proof -
  consider "i = 0" | "i = 1" | "i = 2" using assms(5) by linarith
  then show ?thesis
    using assms by cases (simp_all add: demo_heap_def demo_scope_def rc_ok_new)
qed

theorem ReserveMemory_atomic_witness:
  "let l = zero_limit\<lparr>Memory := 100\<rparr>; h = demo_heap l l
   in (\<exists>err. ReserveMemory h 2 60 255 = Finished (Some err, h))
      \<or> ReserveMemory h 2 60 255 = Finished (None, charge (\<lambda>r. reserveMemory r 60 255) h (affected h 2))"
proof -
  let ?l = "zero_limit\<lparr>Memory := 100\<rparr>"
  have l: "wf_limit ?l" "nonneg_limit ?l"
    by (simp_all add: wf_limit_def nonneg_limit_def zero_limit_def in_i64_def in_i32_def)
  have h: "\<forall>i \<le> 2. \<not> locked (demo_heap ?l ?l ! i) \<and> rc_ok (rc (demo_heap ?l ?l ! i))
      \<and> GetMemoryLimit (limit (rc (demo_heap ?l ?l ! i))) \<noteq> MaxInt64"
    using demo_heap_ok [OF l l]
    by (auto simp: demo_heap_def demo_scope_def new_resources_def MaxInt64_def le_Suc_eq numeral_2_eq_2)
  have "2 < length (demo_heap ?l ?l)" "in_i64 60" by (simp_all add: demo_heap_def in_i64_def)
  from ReserveMemory_atomic [OF wf_demo_heap this(1) h this(2), of 255] show ?thesis
    by (auto simp: Let_def)
qed

text \<open>
  Task reservation is atomic along the scope tree, in the same sense.
\<close>

theorem AddTask_atomic:
  assumes "wf_heap h" "s < length h" "\<forall>i \<le> s. \<not> locked (h ! i) \<and> rc_ok (rc (h ! i))"
    "small_count num" "prio \<noteq> ReserveTaskPriorityUnknown"
  shows "(\<exists>err. AddTask h s num prio = Finished (Some err, h)
           \<and> (\<exists>i \<in> affected h s. \<not> accepts (\<lambda>r. addTask r num prio) (h ! i)))
    \<or> (AddTask h s num prio = Finished (None, charge (\<lambda>r. addTask r num prio) h (affected h s))
       \<and> (\<forall>i \<in> affected h s. accepts (\<lambda>r. addTask r num prio) (h ! i)))"
  using task_rsv.scope_reserve_cases [OF assms(1,2), of num prio] assms(3-5)
  unfolding AddTask_def by blast

theorem AddTask_atomic_witness:
  "let l = zero_limit\<lparr>Tasks := 1, TasksLowPriority := 1\<rparr>; h = demo_heap l l
   in (\<exists>err. AddTask h 2 2 ReserveTaskPriorityLow = Finished (Some err, h))
      \<or> AddTask h 2 2 ReserveTaskPriorityLow
          = Finished (None, charge (\<lambda>r. addTask r 2 ReserveTaskPriorityLow) h (affected h 2))"
proof -
  let ?l = "zero_limit\<lparr>Tasks := 1, TasksLowPriority := 1\<rparr>"
  have l: "wf_limit ?l" "nonneg_limit ?l"
    by (simp_all add: wf_limit_def nonneg_limit_def zero_limit_def in_i64_def in_i32_def)
  have h: "\<forall>i \<le> 2. \<not> locked (demo_heap ?l ?l ! i) \<and> rc_ok (rc (demo_heap ?l ?l ! i))"
    using demo_heap_ok [OF l l] by auto
  have "2 < length (demo_heap ?l ?l)" by (simp add: demo_heap_def)
  from AddTask_atomic [OF wf_demo_heap this h, of 2 ReserveTaskPriorityLow] show ?thesis
    by (auto simp: Let_def small_count_def)
qed

section \<open>Divergences\<close>

text \<open>
  A refused inbound connection is not free of side effects: there is a well-formed tree, every
  scope within its limits, in which \<open>AddConn\<close> of an inbound connection is refused by the system
  scope and the undo in the service scope drops an outbound connection that is still open.
\<close>

theorem AddConn_inbound_refusal_drops_outbound:
  "\<exists>h err h'. wf_heap h \<and> list_all (\<lambda>sc. \<not> locked sc \<and> rc_ok (rc sc)) h
     \<and> AddConn h 1 DirInbound = Finished (Some err, h')
     \<and> nconnsOut (rc (h ! 1)) = 1 \<and> nconnsOut (rc (h' ! 1)) = 0"
proof -
  define l where "l = zero_limit\<lparr>Fd := 9, Conns := 9, ConnsInbound := 9, ConnsOutbound := 9\<rparr>"
  define sys where "sys = (demo_scope (GfSpLim zero_limit) None [])"
  define srv where "srv = (demo_scope (GfSpLim l) None [0])\<lparr>rc := (new_resources (GfSpLim l))\<lparr>nconnsOut := 1, nfd := 1\<rparr>\<rparr>"
  let ?h = "[sys, srv]"
  note defs = l_def sys_def srv_def demo_scope_def new_resources_def zero_limit_def
  have wf: "wf_heap ?h" by (auto simp: wf_heap_def defs less_Suc_eq)
  have ok: "list_all (\<lambda>sc. \<not> locked sc \<and> rc_ok (rc sc)) ?h"
    by (simp add: defs rc_ok_def wf_rc_def tasks_ok_def conns_ok_def wf_limit_def nonneg_limit_def in_i64_def in_i32_def)
  have "\<exists>err h'. AddConn ?h 1 DirInbound = Finished (Some err, h') \<and> nconnsOut (rc (h' ! 1)) = 0"
    by (simp add: AddConn_def scope_reserve.simps defs Let_def addConn_def addConns_def
        removeConn_def removeConns_def clamp0_def i64_def reserve_for_child_def with_lock_def
        lock_scope_def unlock_scope_def set_rc_def)
  moreover have "nconnsOut (rc (?h ! 1)) = 1" by (simp add: defs)
  ultimately show ?thesis using wf ok by blast
qed

text \<open>
  A refused \<open>ReserveResources\<close> in a span never returns: when the span itself has room but its
  owner refuses, the error path releases through \<open>s.ReleaseResources\<close> while the mutex of \<open>s\<close> is
  held by the same call, so the goroutine blocks on its own lock.
\<close>

theorem ReserveResources_refusal_deadlocks:
  assumes "s < length h" "\<not> locked (h ! s)" "\<not> sc_done (h ! s)" "fst (reserve_stat (rc (h ! s)) st) = None"
    "owner (h ! s) = Some own" "own < s" "\<not> locked (h ! own)"
    "sc_done (h ! own) \<or> fst (reserve_stat (rc (h ! own)) st) \<noteq> None"
  shows "ReserveResources h s st = Deadlock"
proof -
  obtain r where r: "reserve_stat (rc (h ! s)) st = (None, r)"
    using assms(4) by (cases "reserve_stat (rc (h ! s)) st") auto
  let ?h = "begun h s r"
  have own: "own < length ?h" "?h ! own = h ! own" using assms(1,6) by auto
  obtain x h2 where up: "ReserveResources ?h own st = Finished (Some x, h2)"
    and h2: "length h2 = length h" "h2 ! s = ?h ! s"
  proof (cases "sc_done (h ! own)")
    case True
    then have "ReserveResources ?h own st
        = Finished (Some (wrapError (lock_scope ?h own ! own) ErrResourceScopeClosed), unlock_scope (lock_scope ?h own) own)"
      using own assms(7) by (simp add: ReserveResources.simps [of ?h own st] Let_def del: lock_unlock)
    from that [OF this] show thesis using own assms(6,7) by simp
  next
    case False
    with assms(8) obtain e r' where "reserve_stat (rc (h ! own)) st = (Some e, r')"
      by (cases "reserve_stat (rc (h ! own)) st") auto
    with False have "ReserveResources ?h own st
        = Finished (Some (wrapError (lock_scope ?h own ! own) e), unlock_scope (set_rc (lock_scope ?h own) own r') own)"
      using own assms(7) by (simp add: ReserveResources.simps [of ?h own st] Let_def)
    from that [OF this] show thesis using own assms(1,6,7) by simp
  qed
  have "ReleaseResources h2 s st = Deadlock"
    using h2 assms(1) by (simp add: ReleaseResources_def scope_release.simps [of _ _ h2 s])
  then show ?thesis
    using assms r up by (simp add: ReserveResources.simps [of h s st] Let_def)
qed

theorem ReserveResources_refusal_deadlocks_witness:
  "let h = [demo_scope (GfSpLim (zero_limit\<lparr>Memory := 10\<rparr>)) None [],
            demo_scope (GfSpLim (zero_limit\<lparr>Memory := 20\<rparr>)) (Some 0) []];
       st = \<lparr>stMemory = 15, NumTasksHigh = 0, NumTasksMedium = 0, NumTasksLow = 0,
             NumConnsInbound = 0, NumConnsOutbound = 0, NumFD = 0\<rparr>
   in ReserveResources h 1 st = Deadlock"
proof -
  let ?h = "[demo_scope (GfSpLim (zero_limit\<lparr>Memory := 10\<rparr>)) None [],
            demo_scope (GfSpLim (zero_limit\<lparr>Memory := 20\<rparr>)) (Some 0) []]"
  let ?st = "\<lparr>stMemory = 15, NumTasksHigh = 0, NumTasksMedium = 0, NumTasksLow = 0,
             NumConnsInbound = 0, NumConnsOutbound = 0, NumFD = 0\<rparr>"
  note defs = demo_scope_def new_resources_def zero_limit_def reserve_stat_def reserveMemory_def checkMemory_def
    addInt64WithOverflow_def memoryThreshold_def mulInt64WithOverflow_def ReservationPriorityAlways_def
    addConns_def addTask_def addTasks_def MaxInt64_def Let_def i64_def
  have h: "1 < length ?h" "\<not> locked (?h ! 1)" "\<not> sc_done (?h ! 1)" "fst (reserve_stat (rc (?h ! 1)) ?st) = None"
    "owner (?h ! 1) = Some 0" "(0::nat) < 1" "\<not> locked (?h ! 0)"
    "sc_done (?h ! 0) \<or> fst (reserve_stat (rc (?h ! 0)) ?st) \<noteq> None"
    by (simp_all add: defs)
  show ?thesis using ReserveResources_refusal_deadlocks [OF h] by (simp add: Let_def)
qed

text \<open>
  \<open>ReserveResources\<close> does not account medium and low priority tasks: a usage record that asks
  for no high-priority task leaves all three task counters of every scope unchanged, however
  many medium and low priority tasks it asks for.
\<close>

theorem reserve_stat_ignores_medium_low:
  assumes "rc_ok r" "NumTasksHigh st = 0" "reserve_stat r st = (None, r')"
  shows "ntasksHigh r' = ntasksHigh r \<and> ntasksMedium r' = ntasksMedium r \<and> ntasksLow r' = ntasksLow r"
proof -
  obtain l where l: "limit r = GfSpLim l" "wf_limit l" "tasks_ok r"
    using assms(1) by (rule rc_okE) blast
  have b: "ntasksHigh r < 2 ^ 31" "ntasksMedium r < 2 ^ 31" "ntasksLow r < 2 ^ 31"
    using l task_limits_range [OF l(1,2)] by (auto simp: tasks_ok_def dest: le_less_trans)
  then have id: "i64 (ntasksHigh r) = ntasksHigh r" "i64 (ntasksMedium r) = ntasksMedium r" "i64 (ntasksLow r) = ntasksLow r"
    using l(3) by (simp_all add: i64_id in_i64_def tasks_ok_def)
  show ?thesis
    using assms(2,3)
    by (auto simp: reserve_stat_def reserveMemory_def addConns_def addTask_def addTasks_def id Let_def
        split: prod.splits option.splits if_splits)
qed

theorem reserve_stat_ignores_medium_low_witness:
  "let r = new_resources (GfSpLim (zero_limit\<lparr>Memory := 10\<rparr>));
       st = \<lparr>stMemory = 5, NumTasksHigh = 0, NumTasksMedium = 7, NumTasksLow = 7,
             NumConnsInbound = 0, NumConnsOutbound = 0, NumFD = 0\<rparr>
   in rc_ok r \<and> (\<exists>r'. reserve_stat r st = (None, r') \<and> ntasksMedium r' = 0)"
proof -
  let ?r = "new_resources (GfSpLim (zero_limit\<lparr>Memory := 10\<rparr>))"
  let ?st = "\<lparr>stMemory = 5, NumTasksHigh = 0, NumTasksMedium = 7, NumTasksLow = 7,
             NumConnsInbound = 0, NumConnsOutbound = 0, NumFD = 0\<rparr>"
  note defs = new_resources_def zero_limit_def reserve_stat_def reserveMemory_def checkMemory_def
    addInt64WithOverflow_def memoryThreshold_def mulInt64WithOverflow_def ReservationPriorityAlways_def
    addConns_def addTask_def addTasks_def MaxInt64_def Let_def i64_def
  have ok: "rc_ok ?r"
    by (rule rc_ok_new) (simp_all add: wf_limit_def nonneg_limit_def zero_limit_def in_i64_def in_i32_def)
  have "fst (reserve_stat ?r ?st) = None" by (simp add: defs)
  then obtain r' where r': "reserve_stat ?r ?st = (None, r')" by (cases "reserve_stat ?r ?st") auto
  from reserve_stat_ignores_medium_low [OF ok _ r'] r' ok show ?thesis
    by (simp add: Let_def new_resources_def)
qed

end
