(* ===== verification/Spans.thy ===== *)
theory Spans
  imports Scopes
begin

text \<open>
  The life cycle of a span of a resource scope (\<open>BeginSpan\<close>, reservations through the span,
  \<open>Done\<close>), over the operations of \<open>Scopes\<close>: closing a span gives back exactly what was
  reserved through it.
\<close>



lemma release_stat_memory_only:
  assumes "rc_ok (releaseMemory r m)"
  shows "release_stat r \<lparr>stMemory = m, NumTasksHigh = 0, NumTasksMedium = 0, NumTasksLow = 0,
    NumConnsInbound = 0, NumConnsOutbound = 0, NumFD = 0\<rparr> = releaseMemory r m"
proof -
  define q where "q = releaseMemory r m"
  have q: "rc_ok q" using assms by (simp add: q_def)
  have z: "small_count 0" by (simp add: small_count_def)
  have c: "removeConns q 0 0 0 = q"
    using removeConns_exact [OF q z z z] q by (simp add: rc_ok_def conns_ok_def)
  have t: "removeTask q 0 p = q" for p
    using removeTasks_exact [OF q z z z] q by (simp add: removeTask_def rc_ok_def tasks_ok_def)
  show ?thesis by (simp add: release_stat_def Let_def c t q_def [symmetric])
qed

lemma BeginSpan_shape:
  assumes "s < length h" "\<not> locked (h ! s)" "BeginSpan h s = Finished (Inr p, h1)"
  obtains i where "p = length h" "\<not> sc_done (h ! s)"
    "h1 = h[s := (h ! s)\<lparr>refCnt := i64 (refCnt (h ! s) + 1), spanID := i\<rparr>]
       @ [\<lparr>locked = False, sc_done = False, refCnt = 0, spanID = 0, rc = new_resources (limit (rc (h ! s))),
          owner = Some s, edges = [], sc_name = sc_name (h ! s) @ ''.span-temp-'' @ show_int i\<rparr>]"
proof -
  have eq: "(h ! s)\<lparr>locked := True, refCnt := a, spanID := i, locked := False\<rparr> = (h ! s)\<lparr>refCnt := a, spanID := i\<rparr>" for a i
    using assms(2) by (cases "h ! s") simp
  show thesis
    using assms that
    by (auto simp: BeginSpan_def with_lock_def newResourceScopeSpan_def Let_def lock_scope_def
        unlock_scope_def nth_append list_update_append eq split: if_splits)
qed

definition memory_stat :: "int64 \<Rightarrow> ScopeStat" where
  "memory_stat m = \<lparr>stMemory = m, NumTasksHigh = 0, NumTasksMedium = 0, NumTasksLow = 0,
     NumConnsInbound = 0, NumConnsOutbound = 0, NumFD = 0\<rparr>"

lemma wf_heap_span:
  assumes "wf_heap h" "s < length h" "owner x = owner (h ! s)" "edges x = edges (h ! s)" "owner y = Some s" "edges y = []"
  shows "wf_heap (h[s := x] @ [y])"
proof (unfold wf_heap_def, intro allI impI)
  fix i assume i: "i < length (h[s := x] @ [y])"
  consider "i = length h" | "i = s" | "i < length h" "i \<noteq> s" using i by force
  then show "case owner ((h[s := x] @ [y]) ! i) of
       Some own \<Rightarrow> own < i \<and> edges ((h[s := x] @ [y]) ! i) = []
     | None \<Rightarrow> distinct (edges ((h[s := x] @ [y]) ! i)) \<and> (\<forall>e \<in> set (edges ((h[s := x] @ [y]) ! i)). e < i)"
    using assms by cases (auto simp: wf_heap_def nth_append cong: option.case_cong)
qed

lemma wf_heap_charge [simp]: "wf_heap (charge add h S) = wf_heap h"
  by (auto simp: wf_heap_def cong: option.case_cong)

lemma wf_heap_lock [simp]: "s < length h \<Longrightarrow> wf_heap (lock_scope h s) = wf_heap h"
  by (auto simp: wf_heap_def cong: option.case_cong)

lemma DecRef_eq:
  assumes "s < length h" "\<not> locked (h ! s)"
  shows "DecRef h s = Finished ((), h[s := (h ! s)\<lparr>refCnt := i64 (refCnt (h ! s) - 1)\<rparr>])"
  using assms by (cases "h ! s") (simp add: DecRef_def with_lock_def lock_scope_def unlock_scope_def)

lemma i64_inc_dec [simp]:
  assumes "in_i64 x"
  shows "i64 (i64 (x + 1) - 1) = x"
proof -
  have "i64 (x + 1) = (if x = 2 ^ 63 - 1 then - (2 ^ 63) else x + 1)"
    using assms i64_add_cases [of x 1] by (auto simp: in_i64_def)
  moreover have "i64 (- (2 ^ 63) - 1) = 2 ^ 63 - 1" by (simp add: i64_def)
  ultimately show ?thesis using assms by (simp add: i64_id)
qed

lemma Done_span:
  assumes "wf_heap h" "p < length h" "\<forall>i < length h. \<not> locked (h ! i)" "\<forall>i \<in> affected h p. \<not> sc_done (h ! i)"
    "owner (h ! p) = Some s"
  shows "\<exists>h'. Done h p = Finished ((), h') \<and> length h' = length h \<and> sc_done (h' ! p)
    \<and> refCnt (h' ! s) = i64 (refCnt (h ! s) - 1)
    \<and> (\<forall>i < length h. i \<noteq> p \<longrightarrow> rc (h' ! i) =
         (if i \<in> affected h s then release_stat (rc (h ! i)) (rc_stat (rc (h ! p))) else rc (h ! i)))"
proof -
  let ?l = "lock_scope h p" and ?st = "rc_stat (rc (h ! p))"
  let ?c = "charge (\<lambda>r. (None, release_stat r ?st)) ?l (affected h s)"
  have s: "s < p" using wf_heapD(1) [OF assms(1,2,5)] .
  have below: "?l ! i = h ! i" if "i \<le> s" for i using that s assms(2) by simp
  have aff: "affected ?l s = affected h s" by (rule affected_cong) (simp add: below)
  have le: "i \<le> s" if "i \<in> affected h s" for i
    using affected_le [OF assms(1) _ that] s assms(2) by simp
  have sub: "affected h s \<subseteq> affected h p" using s assms(5) by (auto simp: affected.simps [of h p])
  have "p \<in> affected h p" by (simp add: affected.simps [of h p])
  then have p: "\<not> sc_done (h ! p)" using assms(4) by blast
  have "ReleaseResources ?l s ?st = Finished ((), charge (\<lambda>r. (None, release_stat r ?st)) ?l (affected ?l s))"
    unfolding ReleaseResources_def
  proof (rule scope_release_charge)
    show "\<forall>i \<in> affected ?l s. \<not> sc_done (?l ! i)"
      using aff sub assms(4) le below by auto
    show "\<forall>i \<le> s. \<not> locked (?l ! i)" using assms(2,3) s below by auto
  qed (use assms s in auto)
  moreover have "s < length ?c" "\<not> locked (?c ! s)" using s assms(2,3) by auto
  ultimately have "Done h p = Finished ((), unlock_scope
     (?c[s := (?c ! s)\<lparr>refCnt := i64 (refCnt (?c ! s) - 1)\<rparr>,
         p := (?c[s := (?c ! s)\<lparr>refCnt := i64 (refCnt (?c ! s) - 1)\<rparr>] ! p)\<lparr>rc := (rc (?c[s := (?c ! s)\<lparr>refCnt := i64 (refCnt (?c ! s) - 1)\<rparr>] ! p))\<lparr>nconnsIn := 0, nconnsOut := 0, nfd := 0, memory := 0\<rparr>,
                                 sc_done := True\<rparr>]) p)"
    using assms(2,3,5) p aff DecRef_eq [of s ?c] by (simp add: Done_def with_lock_def del: charge_nth)
  then show ?thesis
    using s assms(2) le by (intro exI conjI) (assumption, auto simp: nth_list_update)
qed

text \<open>
  A span gives back exactly what it took: on a well-formed tree within its limits, open a span
  with \<open>BeginSpan\<close>, reserve memory through it with \<open>ReserveMemory\<close> and close it with
  \<open>Done\<close>. \<open>Done\<close> returns, the span is closed, the reference count of the parent scope is
  back, and the counters of every scope that existed before are what they were.
\<close>

theorem span_lifecycle_restores:
  assumes "wf_heap h" "s < length h" "in_i64 (refCnt (h ! s))" "in_i64 sz"
    "\<forall>i < length h. \<not> locked (h ! i) \<and> rc_ok (rc (h ! i)) \<and> GetMemoryLimit (limit (rc (h ! i))) \<noteq> MaxInt64"
    "BeginSpan h s = Finished (Inr p, h1)" "ReserveMemory h1 p sz prio = Finished (None, h2)"
  shows "\<exists>h3. Done h2 p = Finished ((), h3) \<and> sc_done (h3 ! p) \<and> refCnt (h3 ! s) = refCnt (h ! s)
    \<and> (\<forall>i < length h. rc (h3 ! i) = rc (h ! i))"
proof -
  let ?add = "\<lambda>r. reserveMemory r sz prio"
  obtain k where p: "p = length h" and h1: "h1 = h[s := (h ! s)\<lparr>refCnt := i64 (refCnt (h ! s) + 1), spanID := k\<rparr>]
       @ [\<lparr>locked = False, sc_done = False, refCnt = 0, spanID = 0, rc = new_resources (limit (rc (h ! s))),
          owner = Some s, edges = [], sc_name = sc_name (h ! s) @ ''.span-temp-'' @ show_int k\<rparr>]"
    using BeginSpan_shape [OF assms(2) _ assms(6)] assms(2,5) by blast
  have wf: "wf_heap h1" unfolding h1 by (rule wf_heap_span) (use assms in auto)
  have "rc_ok (rc (h ! s))" using assms(2,5) by blast
  then have new: "rc_ok (new_resources (limit (rc (h ! s))))" by (rule rc_okE) (simp add: rc_ok_new)
  have old: "rc (h1 ! i) = rc (h ! i)" "locked (h1 ! i) = locked (h ! i)" if "i < length h" for i
    using that assms(2) by (auto simp: h1 nth_append nth_list_update)
  have span: "rc (h1 ! p) = new_resources (limit (rc (h ! s)))" "owner (h1 ! p) = Some s" "\<not> locked (h1 ! p)"
    by (simp_all add: h1 p nth_append)
  have len: "length h1 = Suc p" by (simp add: h1 p)
  have ok: "\<forall>i \<le> p. \<not> locked (h1 ! i) \<and> (rc_ok (rc (h1 ! i)) \<and> in_i64 sz \<and> GetMemoryLimit (limit (rc (h1 ! i))) \<noteq> MaxInt64)"
    using assms(2,4,5) old span new p by (auto simp: le_less new_resources_def)
  have "p < length h1" using len by simp
  from mem_rsv.scope_reserve_cases [OF wf this ok, of prio] assms(7)
  have h2: "h2 = charge ?add h1 (affected h1 p)" and acc: "\<forall>i \<in> affected h1 p. accepts ?add (h1 ! i)"
    by (auto simp: ReserveMemory_def)
  have len2: "length h2 = Suc p" by (simp add: h2 len)
  have wf2: "wf_heap h2" using wf by (simp add: h2)
  have same: "owner (h2 ! i) = owner (h1 ! i) \<and> edges (h2 ! i) = edges (h1 ! i) \<and> locked (h2 ! i) = locked (h1 ! i)
      \<and> sc_done (h2 ! i) = sc_done (h1 ! i) \<and> refCnt (h2 ! i) = refCnt (h1 ! i)" if "i \<le> p" for i
    using that len by (simp add: h2)
  have aff: "affected h2 j = affected h1 j" if "j \<le> p" for j
    by (rule affected_cong) (use same that in auto)
  have sp: "s < p" using assms(2) p by simp
  have affs: "affected h1 p = insert p (affected h1 s)" using span sp by (simp add: affected.simps [of h1 p])
  have undo: "releaseMemory (rc (h2 ! i)) sz = rc (h1 ! i)" if "i \<in> affected h1 s" for i
  proof -
    have i: "i \<le> s" using affected_le [OF wf _ that] sp len by simp
    have "fst (?add (rc (h1 ! i))) = None" using acc affs that by (auto simp: accepts_def)
    then have "?add (rc (h1 ! i)) = (None, snd (?add (rc (h1 ! i))))" by (simp add: prod_eq_iff)
    from mem_rsv.undo [OF _ this] ok i sp that affs assms(4) show ?thesis by (simp add: h2 len)
  qed
  have st: "rc_stat (rc (h2 ! p)) = memory_stat sz"
    using acc affs assms(4) span
    by (auto simp: h2 len accepts_def reserveMemory_def new_resources_def rc_stat_def memory_stat_def i64_id split: option.splits)
  have rel: "release_stat (rc (h2 ! i)) (memory_stat sz) = rc (h1 ! i)" if "i \<in> affected h1 s" for i
    using release_stat_memory_only [of "rc (h2 ! i)" sz] undo [OF that] ok affected_le [OF wf _ that] sp len
    by (simp add: memory_stat_def)
  have "\<exists>h'. Done h2 p = Finished ((), h') \<and> length h' = length h2 \<and> sc_done (h' ! p)
    \<and> refCnt (h' ! s) = i64 (refCnt (h2 ! s) - 1)
    \<and> (\<forall>i < length h2. i \<noteq> p \<longrightarrow> rc (h' ! i) =
         (if i \<in> affected h2 s then release_stat (rc (h2 ! i)) (rc_stat (rc (h2 ! p))) else rc (h2 ! i)))"
  proof (rule Done_span [OF wf2])
    show "\<forall>i \<in> affected h2 p. \<not> sc_done (h2 ! i)"
      using acc aff same affected_le [OF wf] len by (auto simp: accepts_def)
  qed (use len2 same ok span in auto)
  then obtain h3 where h3: "Done h2 p = Finished ((), h3)" "sc_done (h3 ! p)"
    "refCnt (h3 ! s) = i64 (refCnt (h2 ! s) - 1)"
    "\<And>i. i < length h \<Longrightarrow> rc (h3 ! i) = (if i \<in> affected h1 s then rc (h1 ! i) else rc (h2 ! i))"
    using rel st aff [of s] sp len2 p by auto
  have "refCnt (h3 ! s) = refCnt (h ! s)"
    using h3(3) same [of s] sp assms(2,3) by (simp add: h1 nth_append)
  moreover have "rc (h3 ! i) = rc (h ! i)" if "i < length h" for i
    using h3(4) [OF that] old(1) [OF that] that len affs by (simp add: h2 p)
  ultimately show ?thesis using h3 by blast
qed

theorem span_lifecycle_restores_witness:
  "let l = zero_limit\<lparr>Memory := 100\<rparr>; h = demo_heap l l
   in \<exists>p h1 h2 h3. BeginSpan h 1 = Finished (Inr p, h1) \<and> ReserveMemory h1 p 60 255 = Finished (None, h2)
        \<and> memory (rc (h2 ! 0)) = 60 \<and> Done h2 p = Finished ((), h3) \<and> (\<forall>i < length h. rc (h3 ! i) = rc (h ! i))"
proof -
  let ?l = "zero_limit\<lparr>Memory := 100\<rparr>"
  let ?h = "demo_heap ?l ?l"
  have l: "wf_limit ?l" "nonneg_limit ?l"
    by (simp_all add: wf_limit_def nonneg_limit_def zero_limit_def in_i64_def in_i32_def)
  have h: "\<forall>i < length ?h. \<not> locked (?h ! i) \<and> rc_ok (rc (?h ! i)) \<and> GetMemoryLimit (limit (rc (?h ! i))) \<noteq> MaxInt64"
  proof (intro allI impI)
    fix i assume "i < length ?h"
    then have i: "i \<le> 2" by (simp add: demo_heap_def)
    have "GetMemoryLimit (limit (rc (?h ! i))) = 100"
      using i by (auto simp: demo_heap_def demo_scope_def new_resources_def nth_Cons split: nat.splits)
    then show "\<not> locked (?h ! i) \<and> rc_ok (rc (?h ! i)) \<and> GetMemoryLimit (limit (rc (?h ! i))) \<noteq> MaxInt64"
      using demo_heap_ok [OF l l i] by (simp add: MaxInt64_def)
  qed
  have pre: "1 < length ?h" "in_i64 (refCnt (?h ! 1))" "in_i64 60"
    by (simp_all add: demo_heap_def demo_scope_def in_i64_def)
  obtain p h1 where b: "BeginSpan ?h 1 = Finished (Inr p, h1)"
    by (simp add: demo_heap_def demo_scope_def BeginSpan_def with_lock_def newResourceScopeSpan_def Let_def
        lock_scope_def)
  have u: "\<not> locked (?h ! 1)" by (simp add: demo_heap_def demo_scope_def)
  obtain k where p: "p = length ?h" and h1: "h1 = ?h[1 := (?h ! 1)\<lparr>refCnt := i64 (refCnt (?h ! 1) + 1), spanID := k\<rparr>]
       @ [\<lparr>locked = False, sc_done = False, refCnt = 0, spanID = 0, rc = new_resources (limit (rc (?h ! 1))),
          owner = Some 1, edges = [], sc_name = sc_name (?h ! 1) @ ''.span-temp-'' @ show_int k\<rparr>]"
    using BeginSpan_shape [OF pre(1) u b] by blast
  have "\<exists>h2. ReserveMemory h1 p 60 255 = Finished (None, h2) \<and> memory (rc (h2 ! 0)) = 60"
    by (simp add: p h1 demo_heap_def demo_scope_def with_lock_def Let_def
        lock_scope_def unlock_scope_def ReserveMemory_def scope_reserve.simps set_rc_def new_resources_def zero_limit_def
        reserveMemory_def checkMemory_def addInt64WithOverflow_def memoryThreshold_def mulInt64WithOverflow_def
        MaxInt64_def i64_def reserve_for_child_def)
  then obtain h2 where r: "ReserveMemory h1 p 60 255 = Finished (None, h2)" "memory (rc (h2 ! 0)) = 60" by blast
  from span_lifecycle_restores [OF wf_demo_heap pre h b r(1)] b r show ?thesis
    by (auto simp: Let_def)
qed

end
