(* ===== verification/GfSpErrors.thy ===== *)
theory GfSpErrors
  imports GoPrelude
begin

text \<open>
  The error format of the provider: \<open>base/types/gfsperrors/error.go\<close>. Modules predefine their
  errors with \<open>Register\<close>, which panics when two errors share an inner code. The registry, a Go
  map, is an association list; its order stands for the iteration order of the map.
\<close>

record GfSpError =
  CodeSpace :: string
  HttpStatusCode :: int32
  InnerCode :: int32
  Description :: string

text \<open>A Go \<open>error\<close> is one of these or some other error with its text.\<close>

datatype go_error = GfSpErr GfSpError | PlainErr string

definition DefaultCodeSpace :: string where "DefaultCodeSpace = ''GfSp''"
definition DefaultInnerCode :: int where "DefaultInnerCode = 999999"

definition StatusBadRequest :: int where "StatusBadRequest = 400"
definition StatusForbidden :: int where "StatusForbidden = 403"
definition StatusNotFound :: int where "StatusNotFound = 404"
definition StatusNotAcceptable :: int where "StatusNotAcceptable = 406"
definition StatusInternalServerError :: int where "StatusInternalServerError = 500"

text \<open>\<open>nil\<close> errors are \<open>None\<close>, on both sides.\<close>

definition MakeGfSpError :: "go_error option \<Rightarrow> GfSpError option" where
  "MakeGfSpError err =
     (case err of
        None \<Rightarrow> None
      | Some (GfSpErr e) \<Rightarrow> if InnerCode e = 0 then None else Some e
      | Some (PlainErr text) \<Rightarrow>
          Some \<lparr>CodeSpace = DefaultCodeSpace, HttpStatusCode = i32 StatusInternalServerError,
                InnerCode = i32 DefaultInnerCode, Description = text\<rparr>)"

type_synonym GfSpErrorManager = "(int32 \<times> GfSpError) list"

definition AddErr :: "GfSpErrorManager \<Rightarrow> GfSpError \<Rightarrow> GfSpErrorManager go" where
  "AddErr g err =
     (if map_of g (InnerCode err) \<noteq> None then Panics
      else Returns ((InnerCode err, err) # g))"

definition Register :: "GfSpErrorManager \<Rightarrow> string \<Rightarrow> int \<Rightarrow> int \<Rightarrow> string \<Rightarrow> (GfSpError \<times> GfSpErrorManager) go" where
  "Register g codeSpace httpStatusCode innerCode description =
     (let err = \<lparr>CodeSpace = codeSpace, HttpStatusCode = i32 httpStatusCode,
                 InnerCode = i32 innerCode, Description = description\<rparr>
      in bind_go (AddErr g err) (\<lambda>g. Returns (err, g)))"

definition GfSpErrorList :: "GfSpErrorManager \<Rightarrow> GfSpError list" where
  "GfSpErrorList g = sort_key InnerCode (map snd g)"

text \<open>The package-level \<open>Register\<close> calls of a program, in initialisation order.\<close>

type_synonym registration = "string \<times> int \<times> int \<times> string"

fun register_all :: "GfSpErrorManager \<Rightarrow> registration list \<Rightarrow> GfSpErrorManager go" where
  "register_all g [] = Returns g"
| "register_all g ((cs, st, ic, d) # rs) =
     bind_go (Register g cs st ic d) (\<lambda>(_, g). register_all g rs)"

definition reg_code :: "registration \<Rightarrow> int32" where
  "reg_code r = i32 (fst (snd (snd r)))"

definition wf_errors :: "GfSpErrorManager \<Rightarrow> bool" where
  "wf_errors g \<longleftrightarrow> distinct (map fst g) \<and> (\<forall>(c, e) \<in> set g. InnerCode e = c)"

lemma wf_errors_codes: "wf_errors g \<Longrightarrow> map InnerCode (map snd g) = map fst g"
  by (induction g) (auto simp: wf_errors_def)

lemma AddErr_wf: "wf_errors g \<Longrightarrow> AddErr g e = Returns g' \<Longrightarrow> wf_errors g'"
  by (auto simp: AddErr_def wf_errors_def map_of_eq_None_iff split: if_splits)

lemma register_all_iff:
  "(\<exists>g'. register_all g rs = Returns g') \<longleftrightarrow>
     distinct (map reg_code rs) \<and> set (map reg_code rs) \<inter> fst ` set g = {}"
proof (induction g rs rule: register_all.induct)
  case (2 g cs st ic d rs)
  show ?case
  proof (cases "map_of g (i32 ic) = None")
    case True
    then show ?thesis
      using 2 by (auto simp: Register_def AddErr_def Let_def reg_code_def map_of_eq_None_iff image_iff)
  next
    case False
    then have "i32 ic \<in> fst ` set g" by (simp add: map_of_eq_None_iff)
    with False show ?thesis by (auto simp: Register_def AddErr_def Let_def reg_code_def)
  qed
qed simp

lemma register_all_wf: "wf_errors g \<Longrightarrow> register_all g rs = Returns g' \<Longrightarrow> wf_errors g'"
proof (induction g rs rule: register_all.induct)
  case (2 g cs st ic d rs)
  then show ?case by (auto simp: Register_def Let_def bind_go_Returns_iff intro: AddErr_wf)
qed simp

lemma register_all_codes:
  "register_all g rs = Returns g' \<Longrightarrow> fst ` set g' = reg_code ` set rs \<union> fst ` set g"
  by (induction g rs rule: register_all.induct)
     (auto simp: Register_def AddErr_def Let_def bind_go_Returns_iff reg_code_def split: if_splits)

text \<open>
  The error registry: registering a program's errors panics exactly when two of them share an
  inner code; otherwise \<open>GfSpErrorList\<close> lists one error per registered code, in strictly
  increasing code order.
\<close>

theorem error_registry:
  "case register_all [] rs of
     Panics \<Rightarrow> \<not> distinct (map reg_code rs)
   | Returns g \<Rightarrow> distinct (map reg_code rs) \<and> sorted_wrt (<) (map InnerCode (GfSpErrorList g))
       \<and> InnerCode ` set (GfSpErrorList g) = reg_code ` set rs"
proof (cases "register_all [] rs")
  case (Returns g)
  have wf: "wf_errors g" using register_all_wf [OF _ Returns] by (simp add: wf_errors_def)
  have "distinct (map InnerCode (map snd g))"
    unfolding wf_errors_codes [OF wf] using wf by (simp add: wf_errors_def)
  then have "distinct (map snd g)" "inj_on InnerCode (set (map snd g))"
    using distinct_map [of InnerCode "map snd g"] by blast+
  then have "distinct (map InnerCode (GfSpErrorList g))"
    unfolding GfSpErrorList_def by (subst distinct_map) simp
  moreover have "sorted (map InnerCode (GfSpErrorList g))" by (simp add: GfSpErrorList_def)
  ultimately have "sorted_wrt (<) (map InnerCode (GfSpErrorList g))"
    by (simp add: strict_sorted_iff)
  moreover have "InnerCode ` set (GfSpErrorList g) = fst ` set g"
    using arg_cong [OF wf_errors_codes [OF wf], of set] by (simp add: GfSpErrorList_def image_image)
  moreover have "distinct (map reg_code rs)"
    using register_all_iff [of "[]" rs] Returns by auto
  ultimately show ?thesis
    using register_all_codes [OF Returns] Returns by simp
next
  case Panics
  then show ?thesis using register_all_iff [of "[]" rs] by simp
qed

section \<open>Predefined errors of the modelled modules\<close>

definition manager_errors :: "registration list" where
  "manager_errors =
    [(''manager'', StatusBadRequest, 60001, ''OoooH... request lost''),
     (''manager'', StatusNotAcceptable, 60002, ''request repeated''),
     (''manager'', StatusNotAcceptable, 60003, ''OoooH... request exceed, try again later''),
     (''manager'', StatusBadRequest, 60004, ''task canceled''),
     (''manager'', StatusNotFound, 60005, ''future support''),
     (''downloader'', StatusInternalServerError, 65201, ''server slipped away, try again later'')]"

definition tqueue_errors :: "registration list" where
  "tqueue_errors =
    [(''TaskQueue'', StatusBadRequest, 970001, ''request repeated''),
     (''TaskQueue'', StatusBadRequest, 970002, ''request exceed limit'')]"

definition downloader_errors :: "registration list" where
  "downloader_errors =
    [(''downloader'', StatusBadRequest, 30001, ''OoooH.... request lost''),
     (''downloader'', StatusBadRequest, 30002, ''object unsealed''),
     (''downloader'', StatusBadRequest, 30003, ''get piece request exceed''),
     (''downloader'', StatusNotAcceptable, 30004, ''bucket quota overflow''),
     (''downloader'', StatusBadRequest, 30005, ''request params invalid''),
     (''downloader'', StatusBadRequest, 30006, ''request params invalid, no such piece''),
     (''downloader'', StatusInternalServerError, 35101, ''server slipped away, try again later''),
     (''downloader'', StatusInternalServerError, 35201, ''server slipped away, try again later''),
     (''downloader'', StatusBadRequest, 30007, ''invalid key format'')]"

definition uploader_errors :: "registration list" where
  "uploader_errors =
    [(''uploader'', StatusBadRequest, 110001, ''OoooH... request lost, try again later''),
     (''uploader'', StatusForbidden, 110002, ''object not created state''),
     (''uploader'', StatusNotAcceptable, 110003, ''put object request repeated''),
     (''uploader'', StatusNotAcceptable, 110004, ''invalid payload data integrity hash''),
     (''uploader'', StatusBadRequest, 110005, ''upload payload data stream exception''),
     (''uploader'', StatusInternalServerError, 115101, ''server slipped away, try again later''),
     (''uploader'', StatusInternalServerError, 115001, ''server slipped away, try again later'')]"

definition receiver_errors :: "registration list" where
  "receiver_errors =
    [(''receiver'', StatusBadRequest, 80001, ''OoooH... request lost, try again later''),
     (''receiver'', StatusNotAcceptable, 80002, ''request repeated''),
     (''receiver'', StatusForbidden, 80003, ''replicate piece unfinished''),
     (''receiver'', StatusNotAcceptable, 80004, ''verify data checksum failed''),
     (''receiver'', StatusInternalServerError, 85101, ''server slipped away, try again later''),
     (''receiver'', StatusInternalServerError, 85201, ''server slipped away, try again later'')]"

definition approver_errors :: "registration list" where
  "approver_errors =
    [(''approver'', StatusBadRequest, 10001, ''OoooH.... request lost''),
     (''approver'', StatusNotAcceptable, 10002, ''account buckets exceed the limit''),
     (''approver'', StatusInternalServerError, 11001, ''server slipped away, try again later'')]"

definition executor_errors :: "registration list" where
  "executor_errors =
    [(''taskexecutor'', StatusBadRequest, 40001, ''OoooH.... request lost''),
     (''taskexecutor'', StatusNotFound, 40002, ''insufficient approvals from p2p''),
     (''taskexecutor'', StatusInternalServerError, 40003, ''seal object on chain failed''),
     (''taskexecutor'', StatusNotFound, 40004, ''approvals exhausted''),
     (''taskexecutor'', StatusNotAcceptable, 40005, ''secondary integrity hash verification failed''),
     (''taskexecutor'', StatusNotAcceptable, 40006, ''secondary sp mismatch''),
     (''taskexecutor'', StatusNotAcceptable, 40007, ''replicate idx out of bounds''),
     (''taskexecutor'', StatusInternalServerError, 45201, ''server slipped away, try again later''),
     (''taskexecutor'', StatusInternalServerError, 45202, ''recovery only support EC redundancy type''),
     (''taskexecutor'', StatusInternalServerError, 45203, ''fail to get enough piece data to recovery''),
     (''taskexecutor'', StatusInternalServerError, 45204, ''EC decode error''),
     (''receiver'', StatusInternalServerError, 45205, ''server slipped away, try again later''),
     (''taskexecutor'', StatusInternalServerError, 45206, ''recovery checksum not correct''),
     (''taskexecutor'', StatusInternalServerError, 45207, ''get secondary piece data length error''),
     (''taskexecutor'', StatusNotAcceptable, 45208, ''primary sp endpoint not found when recoverying''),
     (''taskexecutor'', StatusNotAcceptable, 45209, ''recovery piece index invalid'')]"

definition predefined_errors :: "registration list" where
  "predefined_errors = manager_errors @ tqueue_errors @ downloader_errors @ uploader_errors
     @ receiver_errors @ approver_errors @ executor_errors"

text \<open>The error value a registration creates, by its position in the table.\<close>

definition registered :: "registration \<Rightarrow> GfSpError" where
  "registered r = (case r of (cs, st, ic, d) \<Rightarrow>
     \<lparr>CodeSpace = cs, HttpStatusCode = i32 st, InnerCode = i32 ic, Description = d\<rparr>)"

text \<open>
  The modelled modules start: registering the predefined errors of the task queue, manager,
  downloader, uploader, receiver, approver and executor modules does not panic, and none of them
  uses the inner code reserved for errors that are not predefined.
\<close>

theorem predefined_errors_register:
  "(\<exists>g. register_all [] predefined_errors = Returns g) \<and> i32 DefaultInnerCode \<notin> reg_code ` set predefined_errors"
proof -
  note tables = predefined_errors_def manager_errors_def tqueue_errors_def
      downloader_errors_def uploader_errors_def receiver_errors_def approver_errors_def executor_errors_def
  have "distinct (map reg_code predefined_errors)"
    by (simp add: tables reg_code_def i32_def)
  moreover have "i32 DefaultInnerCode \<notin> reg_code ` set predefined_errors"
    by (simp add: tables reg_code_def i32_def DefaultInnerCode_def)
  ultimately show ?thesis using register_all_iff [of "[]" predefined_errors] by simp
qed

end
