(* ===== verification/PieceOp.thy ===== *)
theory PieceOp
  imports GoPrelude
begin

text \<open>
  Piece keys and piece sizes: \<open>base/gfsppieceop/pieceop.go\<close>. Objects are cut into segments of
  at most \<open>maxSegmentSize\<close> bytes; a segment is stored under a segment key by the primary
  provider and, erasure coded, under EC keys by the secondary providers.
\<close>

section \<open>Keys\<close>

definition SegmentPieceKey :: "uint64 \<Rightarrow> uint32 \<Rightarrow> string" where
  "SegmentPieceKey objectID segmentIdx =
     ''s'' @ show_nat (unat objectID) @ ''_s'' @ show_nat (unat segmentIdx)"

definition ECPieceKey :: "uint64 \<Rightarrow> uint32 \<Rightarrow> uint32 \<Rightarrow> string" where
  "ECPieceKey objectID segmentIdx replicateIdx =
     ''e'' @ show_nat (unat objectID) @ ''_s'' @ show_nat (unat segmentIdx)
       @ ''_p'' @ show_nat (unat replicateIdx)"

definition ChallengePieceKey :: "uint64 \<Rightarrow> uint32 \<Rightarrow> int32 \<Rightarrow> string" where
  "ChallengePieceKey objectID segmentIdx replicateIdx =
     (if replicateIdx < 0 then SegmentPieceKey objectID segmentIdx
      else ECPieceKey objectID segmentIdx (word_of_int replicateIdx))"

section \<open>Sizes\<close>

text \<open>The conversion \<open>int64(x)\<close> of an unsigned value.\<close>

definition int64_of :: "uint64 \<Rightarrow> int64" where
  "int64_of x = i64 (uint x)"

definition MaxSegmentPieceSize :: "uint64 \<Rightarrow> uint64 \<Rightarrow> int64" where
  "MaxSegmentPieceSize payloadSize maxSegmentSize =
     (if payloadSize > maxSegmentSize then int64_of maxSegmentSize else int64_of payloadSize)"

definition SegmentPieceCount :: "uint64 \<Rightarrow> uint64 \<Rightarrow> uint32 go" where
  "SegmentPieceCount payloadSize maxSegmentSize =
     (if maxSegmentSize = 0 then Panics
      else let count = payloadSize div maxSegmentSize;
               count = (if payloadSize mod maxSegmentSize > 0 then count + 1 else count)
           in Returns (ucast count))"

definition SegmentPieceSize :: "uint64 \<Rightarrow> uint32 \<Rightarrow> uint64 \<Rightarrow> int64 go" where
  "SegmentPieceSize payloadSize segmentIdx maxSegmentSize =
     bind_go (SegmentPieceCount payloadSize maxSegmentSize) (\<lambda>segmentCount.
       if segmentCount = 1 then Returns (int64_of payloadSize)
       else if segmentIdx = segmentCount - 1
       then Returns (i64 (int64_of payloadSize - i64 (i64 (uint segmentCount - 1) * int64_of maxSegmentSize)))
       else Returns (int64_of maxSegmentSize))"

definition ECPieceSize :: "uint64 \<Rightarrow> uint32 \<Rightarrow> uint64 \<Rightarrow> uint32 \<Rightarrow> int64 go" where
  "ECPieceSize payloadSize segmentIdx maxSegmentSize dataChunkNum =
     bind_go (SegmentPieceSize payloadSize segmentIdx maxSegmentSize) (\<lambda>segmentSize.
     bind_go (go_div segmentSize (uint dataChunkNum)) (\<lambda>sz.
       if segmentSize > 0
       then bind_go (go_mod segmentSize (uint dataChunkNum)) (\<lambda>r.
              Returns (if r \<noteq> 0 then i64 (sz + 1) else sz))
       else Returns sz))"

section \<open>Parsing of keys\<close>

datatype piece_key_error =
  InvalidSegmentKeyFormat | InvalidECPieceKey string | InvalidChallengeKey string | BadNumber num_error

text \<open>\<open>strconv.ParseUint(part[1:], 10, 32)\<close>; slicing an empty part panics.\<close>

definition parse_part :: "string \<Rightarrow> (piece_key_error + nat) go" where
  "parse_part part =
     (case part of [] \<Rightarrow> Panics
      | _ # digits \<Rightarrow> Returns (case ParseUint 32 digits of Inl e \<Rightarrow> Inl (BadNumber e) | Inr n \<Rightarrow> Inr n))"

definition ParseSegmentIdx :: "string \<Rightarrow> (piece_key_error + uint32) go" where
  "ParseSegmentIdx segmentKey =
     (let keyParts = split_on CHR ''_'' segmentKey in
      if length keyParts \<noteq> 2 then Returns (Inl InvalidSegmentKeyFormat)
      else bind_go (parse_part (keyParts ! 1)) (\<lambda>r.
             Returns (case r of Inl err \<Rightarrow> Inl err | Inr n \<Rightarrow> Inr (of_nat n))))"

definition ParseECPieceKeyIdx :: "string \<Rightarrow> (piece_key_error + uint32 \<times> int32) go" where
  "ParseECPieceKeyIdx key =
     (let keyParts = split_on CHR ''_'' key in
      if length keyParts \<noteq> 3 then Returns (Inl (InvalidECPieceKey key))
      else bind_go (parse_part (keyParts ! 1)) (\<lambda>r.
        case r of
          Inl err \<Rightarrow> Returns (Inl err)
        | Inr segmentIdx \<Rightarrow>
            bind_go (parse_part (keyParts ! 2)) (\<lambda>r.
              Returns (case r of Inl err \<Rightarrow> Inl err
                       | Inr ecIndex \<Rightarrow> Inr (of_nat segmentIdx, i32 (int ecIndex))))))"

definition ParseChallengeIdx :: "string \<Rightarrow> (piece_key_error + uint32 \<times> int32) go" where
  "ParseChallengeIdx challengeKey =
     (let keyParts = split_on CHR ''_'' challengeKey in
      if length keyParts = 2 then
        bind_go (ParseSegmentIdx challengeKey) (\<lambda>r.
          Returns (case r of Inl err \<Rightarrow> Inl err | Inr segmentIdx \<Rightarrow> Inr (segmentIdx, -1)))
      else if length keyParts = 3 then ParseECPieceKeyIdx challengeKey
      else Returns (Inl (InvalidChallengeKey challengeKey)))"

section \<open>Keys parse back\<close>

lemma underscore_no_digit [simp]: "CHR ''_'' \<notin> set (show_nat n)"
  by (rule show_nat_not_digit) (simp add: is_digit_def)

lemma split_SegmentPieceKey:
  "split_on CHR ''_'' (SegmentPieceKey o1 s) = [''s'' @ show_nat (unat o1), ''s'' @ show_nat (unat s)]"
proof -
  have "SegmentPieceKey o1 s = (''s'' @ show_nat (unat o1)) @ CHR ''_'' # (''s'' @ show_nat (unat s))"
    by (simp add: SegmentPieceKey_def)
  then show ?thesis by (simp only:) (subst split_on_append; simp add: split_on_no_sep)
qed

lemma split_ECPieceKey:
  "split_on CHR ''_'' (ECPieceKey o1 s r)
     = [''e'' @ show_nat (unat o1), ''s'' @ show_nat (unat s), ''p'' @ show_nat (unat r)]"
proof -
  have "ECPieceKey o1 s r = (''e'' @ show_nat (unat o1)) @ CHR ''_'' # (''s'' @ show_nat (unat s))
      @ CHR ''_'' # (''p'' @ show_nat (unat r))"
    by (simp add: ECPieceKey_def)
  then show ?thesis
    by (simp only:) (subst split_on_append, simp, subst split_on_append; simp add: split_on_no_sep)
qed

lemma unat_lt_32: "unat (x :: uint32) < 2 ^ 32"
  proof -
  have "unat x < 2 ^ LENGTH(32)" by (rule unsigned_less)
  then show ?thesis by simp
qed

lemma parse_part_index [simp]: "parse_part (c # show_nat (unat (s :: uint32))) = Returns (Inr (unat s))"
  using ParseUint_show_nat [OF unat_lt_32, of s] by (simp add: parse_part_def)

lemma ParseSegmentIdx_key [simp]: "ParseSegmentIdx (SegmentPieceKey o1 s) = Returns (Inr s)"
  by (simp add: ParseSegmentIdx_def split_SegmentPieceKey)

lemma ParseECPieceKeyIdx_key:
  "ParseECPieceKeyIdx (ECPieceKey o1 s r) = Returns (Inr (s, i32 (uint r)))"
  by (simp add: ParseECPieceKeyIdx_def split_ECPieceKey numeral_2_eq_2)

text \<open>
  Challenge keys parse back: parsing the key of segment \<open>s\<close> and redundancy index \<open>r\<close> of any
  object gives \<open>s\<close> and \<open>r\<close> again, and \<open>-1\<close> for every negative \<open>r\<close> (the segment itself). The
  three parsers never panic on a key that the key functions built.
\<close>

theorem ParseChallengeIdx_roundtrip:
  assumes "in_i32 r"
  shows "ParseChallengeIdx (ChallengePieceKey o1 s r) = Returns (Inr (s, if r < 0 then -1 else r))"
proof (cases "r < 0")
  case True
  then show ?thesis
    by (simp add: ChallengePieceKey_def ParseChallengeIdx_def split_SegmentPieceKey)
next
  case False
  with assms have "i32 (uint (word_of_int r :: uint32)) = r"
    by (simp add: uint_word_of_int in_i32_def i32_def)
  with False show ?thesis
    by (simp add: ChallengePieceKey_def ParseChallengeIdx_def split_ECPieceKey ParseECPieceKeyIdx_key)
qed

theorem ParseChallengeIdx_roundtrip_witness:
  "ParseChallengeIdx (ChallengePieceKey 7 3 4) = Returns (Inr (3, 4))
   \<and> ParseChallengeIdx (ChallengePieceKey 7 3 (-5)) = Returns (Inr (3, -1))"
  using ParseChallengeIdx_roundtrip [of 4 7 3] ParseChallengeIdx_roundtrip [of "-5" 7 3]
  by (simp add: in_i32_def)

text \<open>
  Challenge keys identify the piece: two keys are equal exactly when the object, the segment
  and the redundancy index agree, all negative redundancy indices standing for the segment.
\<close>

theorem ChallengePieceKey_inj:
  assumes "in_i32 r" "in_i32 r'"
  shows "ChallengePieceKey o1 s r = ChallengePieceKey o2 s' r'
    \<longleftrightarrow> o1 = o2 \<and> s = s' \<and> (r = r' \<or> r < 0 \<and> r' < 0)"
proof
  assume eq: "ChallengePieceKey o1 s r = ChallengePieceKey o2 s' r'"
  have w: "(word_of_int r = (word_of_int r' :: uint32)) = (r = r')" if "0 \<le> r" "0 \<le> r'"
    using that assms by (simp add: word_of_int_eq_iff take_bit_int_eq_self in_i32_def)
  have "r < 0 \<longleftrightarrow> r' < 0"
    using arg_cong [OF eq, of "\<lambda>k. length (split_on CHR ''_'' k)"]
    by (auto simp: ChallengePieceKey_def split_SegmentPieceKey split_ECPieceKey split: if_splits)
  then show "o1 = o2 \<and> s = s' \<and> (r = r' \<or> r < 0 \<and> r' < 0)"
    using arg_cong [OF eq, of "split_on CHR ''_''"] w
    by (auto simp: ChallengePieceKey_def split_SegmentPieceKey split_ECPieceKey word_unat_eq_iff)
qed (auto simp: ChallengePieceKey_def)

theorem ChallengePieceKey_inj_witness:
  "ChallengePieceKey 1 12 3 \<noteq> ChallengePieceKey 11 2 3"
  using ChallengePieceKey_inj [of 3 3 1 12 11 2] by (simp add: in_i32_def)

section \<open>Sizes add up\<close>

lemma int64_of_small: "uint x < 2 ^ 63 \<Longrightarrow> int64_of x = uint x"
  proof -
  assume "uint x < 2 ^ 63"
  moreover have "0 \<le> uint x" by simp
  ultimately show ?thesis by (simp add: int64_of_def i64_def)
qed

text \<open>The number of segments is the rounded-up quotient when it fits 32 bits.\<close>

lemma SegmentPieceCount_eq:
  assumes "0 < uint m" "uint p \<le> uint m * (2 ^ 32 - 1)"
  shows "\<exists>c. SegmentPieceCount p m = Returns c \<and> uint c = (uint p + uint m - 1) div uint m"
proof -
  let ?q = "uint p div uint m" and ?r = "uint p mod uint m"
  let ?c = "if ?r > 0 then ?q + 1 else ?q"
  have ceil: "(uint p + uint m - 1) div uint m = ?c"
  proof (cases "?r = 0")
    case True
    then obtain k where k: "uint p = uint m * k" by (auto simp: dvd_def)
    have "(uint m * k + (uint m - 1)) div uint m = k"
      using assms(1) by (simp add: div_pos_pos_trivial)
    then have "(uint m * k + uint m - 1) div uint m = k" by (simp add: add_diff_eq)
    with k True assms(1) show ?thesis by simp
  next
    case False
    then have r: "0 < ?r" using assms(1) by (simp add: order_less_le)
    have "uint p + uint m - 1 = (?r - 1) + (?q + 1) * uint m"
      by (simp add: algebra_simps minus_mod_eq_mult_div [symmetric])
    then have "(uint p + uint m - 1) div uint m = (?r - 1) div uint m + (?q + 1)"
      using assms(1) by (simp only: div_mult_self1 [of "uint m"])
    moreover have "(?r - 1) div uint m = 0"
      using r pos_mod_bound [OF assms(1), of "uint p"] by (intro div_pos_pos_trivial) auto
    ultimately show ?thesis using r by simp
  qed
  have "(uint p + uint m - 1) div uint m \<le> 2 ^ 32 - 1"
  proof -
    have "uint p + uint m - 1 < (2 ^ 32) * uint m" using assms by (simp add: algebra_simps)
    then have "(uint p + uint m - 1) div uint m * uint m < 2 ^ 32 * uint m"
      using int_div_mult_le [OF assms(1), of "uint p + uint m - 1"] by linarith
    then show ?thesis using assms(1) by (simp add: mult_less_cancel_right)
  qed
  then have c: "0 \<le> ?c" "?c < 2 ^ 32" using ceil assms(1) by (auto simp: pos_imp_zdiv_nonneg_iff)
  have u: "uint (if p mod m > 0 then p div m + 1 else p div m) = ?c"
  proof -
    have pos: "p mod m > 0 \<longleftrightarrow> ?r > 0" by (simp add: word_less_def uint_mod)
    have "uint (p div m + 1) = ?q + 1" if "?r > 0"
      using c that by (simp add: uint_word_ariths uint_div)
    then show ?thesis by (simp add: pos uint_div)
  qed
  have "SegmentPieceCount p m = Returns (ucast (if p mod m > 0 then p div m + 1 else p div m))"
    using assms(1) by (auto simp: SegmentPieceCount_def Let_def)
  moreover have "uint (ucast (if p mod m > 0 then p div m + 1 else p div m) :: uint32) = ?c"
    using u c by (simp add: unsigned_ucast_eq take_bit_int_eq_self)
  ultimately show ?thesis using ceil by metis
qed


lemma ceil_bounds:
  assumes "0 < M" "0 < (P :: int)"
  shows "1 \<le> (P + M - 1) div M" "((P + M - 1) div M - 1) * M < P" "P \<le> (P + M - 1) div M * M"
proof -
  let ?c = "(P + M - 1) div M" and ?r = "(P + M - 1) mod M"
  have eq: "P + M - 1 = ?c * M + ?r" and r: "0 \<le> ?r" "?r < M" using assms by simp_all
  show "1 \<le> ?c" using assms by (simp add: pos_imp_zdiv_pos_iff int_one_le_iff_zero_less)
  have "(?c - 1) * M = ?c * M - M" by (simp add: left_diff_distrib)
  then show "(?c - 1) * M < P" using eq r by linarith
  show "P \<le> ?c * M" using eq r by linarith
qed

lemma SegmentPieceSize_eq:
  assumes "0 < uint m" "uint m < 2 ^ 63" "uint p < 2 ^ 63" "uint p \<le> uint m * (2 ^ 32 - 1)"
    "SegmentPieceCount p m = Returns c" "i < unat c"
  shows "SegmentPieceSize p (of_nat i) m
    = Returns (if int i = uint c - 1 then uint p - (uint c - 1) * uint m else uint m)"
proof -
  have c: "uint c = (uint p + uint m - 1) div uint m"
    using SegmentPieceCount_eq [OF assms(1,4)] assms(5) by auto
  have pos: "0 < uint p"
  proof (rule ccontr)
    assume "\<not> 0 < uint p"
    then have "uint p = 0" by (simp add: order_less_le)
    with c assms(1) have "uint c = 0" by (simp add: div_pos_pos_trivial)
    with assms(6) show False by (simp add: uint_0_iff)
  qed
  note b = ceil_bounds [OF assms(1) pos, folded c]
  have i: "i < 2 ^ 32" using assms(6) unat_lt_32 [of c] by simp
  have last: "(of_nat i = c - 1) \<longleftrightarrow> int i = uint c - 1"
  proof -
    have "uint (c - 1) = uint c - 1" using b(1) unat_lt_32 [of c] by (simp add: uint_word_ariths flip: of_nat_less_iff [where 'a = int])
    moreover have "uint (of_nat i :: uint32) = int i" using i by (simp add: unsigned_of_nat take_bit_nat_eq_self)
    ultimately show ?thesis by (simp add: word_uint_eq_iff)
  qed
  have one: "(c = 1) \<longleftrightarrow> uint c = 1" by (simp add: word_uint_eq_iff)
  have prod: "0 \<le> (uint c - 1) * uint m" "(uint c - 1) * uint m < 2 ^ 63"
    using b assms(1,3) by (auto intro: mult_nonneg_nonneg)
  have "uint c < 2 ^ 32" using unat_lt_32 [of c] by (simp flip: of_nat_less_iff [where 'a = int])
  then have cm: "in_i64 (uint c - 1)" using b(1) by (simp add: in_i64_def)
  have res: "i64 (int64_of p - i64 (i64 (uint c - 1) * int64_of m)) = uint p - (uint c - 1) * uint m"
  proof -
    have "in_i64 ((uint c - 1) * uint m)" "in_i64 (uint p - (uint c - 1) * uint m)"
      using prod b assms(3) unfolding in_i64_def by linarith+
    then show ?thesis using assms(2,3) cm by (simp add: int64_of_small i64_id)
  qed
  show ?thesis
  proof (cases "uint c = 1")
    case True
    with assms(3,5,6) one show ?thesis by (simp add: SegmentPieceSize_def int64_of_small)
  next
    case False
    with assms(2,5) one last res show ?thesis by (simp add: SegmentPieceSize_def int64_of_small)
  qed
qed

text \<open>
  The segments partition the payload: for a payload and a maximal segment size below \<open>2 ^ 63\<close>
  whose segment count fits the 32-bit index, the sizes of all segments are positive, at most
  \<open>MaxSegmentPieceSize\<close>, and add up to the payload size.
\<close>

theorem segment_sizes_partition:
  assumes "0 < uint m" "uint m < 2 ^ 63" "uint p < 2 ^ 63" "uint p \<le> uint m * (2 ^ 32 - 1)"
  shows "\<exists>c f. SegmentPieceCount p m = Returns c
    \<and> (\<forall>i < unat c. SegmentPieceSize p (of_nat i) m = Returns (f i) \<and> 0 < f i \<and> f i \<le> MaxSegmentPieceSize p m)
    \<and> (\<Sum>i < unat c. f i) = uint p"
proof -
  obtain c where c: "SegmentPieceCount p m = Returns c" "uint c = (uint p + uint m - 1) div uint m"
    using SegmentPieceCount_eq [OF assms(1,4)] by blast
  define f where "f i = (if int i = uint c - 1 then uint p - (uint c - 1) * uint m else uint m)" for i :: nat
  have mx: "MaxSegmentPieceSize p m = min (uint p) (uint m)"
    using assms by (simp add: MaxSegmentPieceSize_def int64_of_small word_less_def min_def)
  show ?thesis
  proof (cases "uint p = 0")
    case True
    with c assms(1) have "uint c = 0" by (simp add: div_pos_pos_trivial)
    then have "unat c = 0" by (simp add: uint_0_iff)
    with c True show ?thesis by (intro exI [of _ c] exI [of _ f]) simp
  next
    case False
    then have pos: "0 < uint p" by (simp add: order_less_le)
    note b = ceil_bounds [OF assms(1) pos, folded c(2)]
    obtain k where k: "unat c = Suc k" "int k = uint c - 1"
    proof -
      have "0 < unat c" using b(1) by (cases "c = 0") (auto simp: unat_gt_0)
      then obtain k where "unat c = Suc k" by (cases "unat c") auto
      moreover have "uint c = int (unat c)" by simp
      ultimately show thesis using that [of k] by linarith
    qed
    have fk: "f k = uint p - (uint c - 1) * uint m" using k by (simp add: f_def)
    have fi: "f i = uint m" if "i < k" for i using that k by (simp add: f_def)
    have "(\<Sum>i < unat c. f i) = (\<Sum>i < k. uint m) + f k" using k fi by simp
    also have "\<dots> = uint p" using fk k by simp
    finally have sum: "(\<Sum>i < unat c. f i) = uint p" .
    have "0 < f i \<and> f i \<le> min (uint p) (uint m)" if "i < unat c" for i
    proof (cases "i = k")
      case True
      have "0 \<le> (uint c - 1) * uint m" using b(1) assms(1) by (simp add: mult_nonneg_nonneg)
      moreover have "(uint c - 1) * uint m = uint c * uint m - uint m" by (simp add: left_diff_distrib)
      ultimately show ?thesis using True fk b by simp
    next
      case F: False
      then have "i < k" using that k by simp
      then have "1 \<le> uint c - 1" using k by linarith
      then have "uint m \<le> (uint c - 1) * uint m" using assms(1) by (simp add: mult_le_cancel_right1)
      then have "uint m \<le> uint p" using b(2) by linarith
      with fi [OF \<open>i < k\<close>] assms(1) show ?thesis by simp
    qed
    moreover have "SegmentPieceSize p (of_nat i) m = Returns (f i)" if "i < unat c" for i
      using SegmentPieceSize_eq [OF assms c(1) that] by (simp add: f_def)
    ultimately show ?thesis using c(1) sum mx by auto
  qed
qed

theorem segment_sizes_partition_witness:
  "\<exists>c f. SegmentPieceCount 33 16 = Returns c
    \<and> (\<forall>i < unat c. SegmentPieceSize 33 (of_nat i) 16 = Returns (f i)) \<and> (\<Sum>i < unat c. f i) = 33"
proof -
  have "uint (16 :: uint64) = 16" "uint (33 :: uint64) = 33" by simp_all
  then have "0 < uint (16 :: uint64)" "uint (16 :: uint64) < 2 ^ 63" "uint (33 :: uint64) < 2 ^ 63"
    "uint (33 :: uint64) \<le> uint (16 :: uint64) * (2 ^ 32 - 1)" by simp_all
  from segment_sizes_partition [OF this] show ?thesis by auto
qed

lemma SegmentPieceSize_range: "SegmentPieceSize p i m = Returns sz \<Longrightarrow> in_i64 sz"
  by (auto simp: SegmentPieceSize_def bind_go_Returns_iff int64_of_def split: if_splits)

text \<open>
  EC pieces are the segment cut into \<open>dataChunkNum\<close> parts, rounded up: the pieces together
  cover the segment, with less than one byte per chunk of padding. Without data chunks the
  computation panics.
\<close>

theorem ECPieceSize_ceiling:
  assumes "SegmentPieceSize p i m = Returns sz" "0 \<le> sz"
  shows "ECPieceSize p i m d = (if d = 0 then Panics else Returns ((sz + uint d - 1) div uint d))"
proof (cases "d = 0")
  case False
  then have d: "0 < uint d" by (metis order_less_le uint_0_iff unsigned_greater_eq)
  have r: "in_i64 sz" using SegmentPieceSize_range [OF assms(1)] .
  have q: "0 \<le> sz div uint d" "sz div uint d \<le> sz"
    using assms(2) d int_div_le_self [of sz "uint d"] by (simp_all add: pos_imp_zdiv_nonneg_iff)
  have iq: "i64 (sz div uint d) = sz div uint d" using q r by (simp add: i64_id in_i64_def)
  have eq: "ECPieceSize p i m d = Returns
     (if sz > 0 \<and> sz mod uint d \<noteq> 0 then i64 (sz div uint d + 1) else sz div uint d)"
    using assms d iq False by (auto simp: ECPieceSize_def go_div_def go_mod_def i64_def [of 0])
  show ?thesis
  proof (cases "sz mod uint d = 0")
    case True
    then have k: "sz = sz div uint d * uint d" using div_mult_mod_eq [of sz "uint d"] by simp
    have "sz + uint d - 1 = (uint d - 1) + sz div uint d * uint d" using k by linarith
    then have "(sz + uint d - 1) div uint d = (uint d - 1) div uint d + sz div uint d"
      using d by (simp only: div_mult_self1 [of "uint d"])
    then show ?thesis using eq True False d by simp
  next
    case F: False
    let ?q = "sz div uint d" and ?r = "sz mod uint d"
    have rr: "0 < ?r" "?r < uint d"
      using F d pos_mod_sign [OF d, of sz] by (linarith, simp)
    have sz: "sz > 0" using F assms(2) by (cases "sz = 0") auto
    have qle: "?q + 1 \<le> sz \<or> uint d = 1" 
      using sz d rr by (smt (verit) int_div_less_self)
    then have "?q + 1 \<le> sz" using rr by auto
    then have "i64 (?q + 1) = ?q + 1" using q r by (simp add: i64_id in_i64_def)
    moreover have "(sz + uint d - 1) div uint d = ?q + 1"
    proof -
      have "sz + uint d - 1 = (?r - 1) + (?q + 1) * uint d"
        by (simp add: algebra_simps minus_mod_eq_mult_div [symmetric])
      then have "(sz + uint d - 1) div uint d = (?r - 1) div uint d + (?q + 1)"
        using d by (simp only: div_mult_self1 [of "uint d"])
      then show ?thesis using rr by simp
    qed
    ultimately show ?thesis using eq F False sz by simp
  qed
qed (use assms in \<open>simp add: ECPieceSize_def go_div_def\<close>)

theorem ECPieceSize_ceiling_witness:
  "ECPieceSize 15 0 16 4 = Returns 4"
proof -
  have "SegmentPieceSize 15 0 16 = Returns 15"
    by (simp add: SegmentPieceSize_def SegmentPieceCount_def Let_def int64_of_def i64_def)
  from ECPieceSize_ceiling [OF this, of 4] show ?thesis by simp
qed

end
