(* ===== verification/Tasks.thy ===== *)
theory Tasks
  imports GfSpErrors Limits
begin

text \<open>
  Tasks: the common task record of \<open>base/types/gfsptask/task.go\<close>, the concrete task types of
  \<open>upload.go\<close>, \<open>download.go\<close>, \<open>approval.go\<close>, \<open>gc.go\<close> and \<open>recovery.go\<close>, their keys
  (\<open>task_key.go\<close>) and resource estimates, and the task types and priorities of
  \<open>core/task/const.go\<close>. The clock is an argument: \<open>now\<close> is \<open>time.Now().Unix()\<close>.

  The chain messages that tasks carry (\<open>ObjectInfo\<close>, \<open>BucketInfo\<close>, \<open>Params\<close>) come from
  the \<open>greenfield\<close> module; they are records of the fields the provider reads. Object ids are
  \<open>Uint\<close> values of the chain, kept at 64 bits, the range in which \<open>Id.Uint64()\<close> is defined. A
  nil pointer is \<open>None\<close>. Logging strings (\<open>Info\<close>) and the signed bytes (\<open>GetSignBytes\<close>, the
  JSON codec of the chain) are not modelled.
\<close>

section \<open>Chain data\<close>

datatype RedundancyType = REDUNDANCY_EC_TYPE | REDUNDANCY_REPLICA_TYPE
datatype ObjectStatus = OBJECT_STATUS_CREATED | OBJECT_STATUS_SEALED | OBJECT_STATUS_DISCONTINUED
datatype VisibilityType = VISIBILITY_TYPE_UNSPECIFIED | VISIBILITY_TYPE_PUBLIC_READ | VISIBILITY_TYPE_PRIVATE | VISIBILITY_TYPE_INHERIT

record ObjectInfo =
  BucketName :: string
  ObjectName :: string
  Id :: uint64
  PayloadSize :: uint64
  RedundancyType :: RedundancyType
  ObjectStatus :: ObjectStatus
  CreateAt :: int64
  Checksums :: "bytes list"
  SecondarySpAddresses :: "string list"
  Visibility :: VisibilityType
  ContentType :: string

record BucketInfo =
  bi_BucketName :: string
  bi_Id :: uint64
  bi_Owner :: string
  ChargedReadQuota :: uint64
  PrimarySpAddress :: string
  bi_Visibility :: VisibilityType
  PaymentAddress :: string

record Params =
  MaxPayloadSize :: uint64
  MaxSegmentSize :: uint64
  RedundantDataChunkNum :: uint32
  RedundantParityChunkNum :: uint32

record Approval =
  ExpiredHeight :: uint64
  Sig :: bytes

record MsgCreateBucket =
  mcb_Creator :: string
  mcb_BucketName :: string
  mcb_Visibility :: int32
  mcb_PrimarySpApproval :: "Approval option"

record MsgCreateObject =
  mco_Creator :: string
  mco_BucketName :: string
  mco_ObjectName :: string
  mco_Visibility :: int32
  mco_PrimarySpApproval :: "Approval option"

section \<open>Task types and priorities\<close>

datatype TType =
    TypeTaskUnknown | TypeTaskCreateBucketApproval | TypeTaskCreateObjectApproval
  | TypeTaskReplicatePieceApproval | TypeTaskUpload | TypeTaskReplicatePiece | TypeTaskSealObject
  | TypeTaskReceivePiece | TypeTaskDownloadObject | TypeTaskDownloadPiece | TypeTaskChallengePiece
  | TypeTaskGCObject | TypeTaskGCZombiePiece | TypeTaskGCMeta | TypeTaskRecoverPiece

fun TypeTaskMap :: "TType \<Rightarrow> string option" where
  "TypeTaskMap TypeTaskUnknown = Some ''UnknownTask''"
| "TypeTaskMap TypeTaskCreateBucketApproval = Some ''CreateBucketApprovalTask''"
| "TypeTaskMap TypeTaskCreateObjectApproval = Some ''CreateObjectApprovalTask''"
| "TypeTaskMap TypeTaskReplicatePieceApproval = Some ''ReplicatePieceApprovalTask''"
| "TypeTaskMap TypeTaskUpload = Some ''UploadObjectTask''"
| "TypeTaskMap TypeTaskReplicatePiece = Some ''ReplicatePieceTask''"
| "TypeTaskMap TypeTaskSealObject = Some ''SealObjectTask''"
| "TypeTaskMap TypeTaskReceivePiece = Some ''ReceivePieceTask''"
| "TypeTaskMap TypeTaskDownloadObject = Some ''DownloadObjectTask''"
| "TypeTaskMap TypeTaskDownloadPiece = None"
| "TypeTaskMap TypeTaskChallengePiece = Some ''ChallengePieceTask''"
| "TypeTaskMap TypeTaskGCObject = Some ''GCObjectTask''"
| "TypeTaskMap TypeTaskGCZombiePiece = Some ''GCZombiePieceTask''"
| "TypeTaskMap TypeTaskGCMeta = Some ''GCMetaTask''"
| "TypeTaskMap TypeTaskRecoverPiece = Some ''RecoverPieceTask''"

definition TaskTypeName :: "TType \<Rightarrow> string" where
  "TaskTypeName taskType =
     (case TypeTaskMap taskType of
        None \<Rightarrow> (case TypeTaskMap TypeTaskUnknown of None \<Rightarrow> [] | Some n \<Rightarrow> n)
      | Some n \<Rightarrow> n)"

type_synonym TPriority = uint8

definition UnKnownTaskPriority :: TPriority where "UnKnownTaskPriority = 0"
definition UnSchedulingPriority :: TPriority where "UnSchedulingPriority = 0"
definition MaxTaskPriority :: TPriority where "MaxTaskPriority = 255"
definition DefaultLargerTaskPriority :: TPriority where "DefaultLargerTaskPriority = 170"
definition DefaultSmallerPriority :: TPriority where "DefaultSmallerPriority = 85"

datatype TPriorityLevel = TLowPriorityLevel | TMediumPriorityLevel | THighPriorityLevel

section \<open>The common task record\<close>

record GfSpTask =
  Address :: string
  CreateTime :: int64
  UpdateTime :: int64
  Timeout :: int64
  TaskPriority :: int32
  Retry :: int64
  MaxRetry :: int64
  Err :: "GfSpError option"

definition new_task :: GfSpTask where
  "new_task = \<lparr>Address = [], CreateTime = 0, UpdateTime = 0, Timeout = 0, TaskPriority = 0,
     Retry = 0, MaxRetry = 0, Err = None\<rparr>"

definition base_SetAddress :: "string \<Rightarrow> GfSpTask \<Rightarrow> GfSpTask" where
  "base_SetAddress address m = m\<lparr>Address := address\<rparr>"

definition base_SetCreateTime :: "int64 \<Rightarrow> GfSpTask \<Rightarrow> GfSpTask" where
  "base_SetCreateTime time m = m\<lparr>CreateTime := time\<rparr>"

definition base_SetUpdateTime :: "int64 \<Rightarrow> GfSpTask \<Rightarrow> GfSpTask" where
  "base_SetUpdateTime time m = m\<lparr>UpdateTime := time\<rparr>"

definition base_SetTimeout :: "int64 \<Rightarrow> GfSpTask \<Rightarrow> GfSpTask" where
  "base_SetTimeout timeout m = m\<lparr>Timeout := timeout\<rparr>"

definition base_ExceedTimeout :: "int64 \<Rightarrow> GfSpTask \<Rightarrow> bool" where
  "base_ExceedTimeout now m \<longleftrightarrow> i64 (UpdateTime m + Timeout m) < now"

definition base_IncRetry :: "GfSpTask \<Rightarrow> GfSpTask" where
  "base_IncRetry m = m\<lparr>Retry := i64 (Retry m + 1)\<rparr>"

definition base_SetRetry :: "go_int \<Rightarrow> GfSpTask \<Rightarrow> GfSpTask" where
  "base_SetRetry r m = m\<lparr>Retry := r\<rparr>"

definition base_ExceedRetry :: "GfSpTask \<Rightarrow> bool" where
  "base_ExceedRetry m \<longleftrightarrow> Retry m \<ge> MaxRetry m"

definition base_Expired :: "int64 \<Rightarrow> GfSpTask \<Rightarrow> bool" where
  "base_Expired now m = (if base_ExceedRetry m \<and> base_ExceedTimeout now m then True else False)"

definition base_GetPriority :: "GfSpTask \<Rightarrow> TPriority" where
  "base_GetPriority m = word_of_int (TaskPriority m)"

definition base_SetPriority :: "TPriority \<Rightarrow> GfSpTask \<Rightarrow> GfSpTask" where
  "base_SetPriority priority m = m\<lparr>TaskPriority := uint priority\<rparr>"

definition base_SetMaxRetry :: "int64 \<Rightarrow> GfSpTask \<Rightarrow> GfSpTask" where
  "base_SetMaxRetry l m = m\<lparr>MaxRetry := l\<rparr>"

definition base_Error :: "GfSpTask \<Rightarrow> GfSpError option" where
  "base_Error m =
     (case Err m of None \<Rightarrow> None | Some e \<Rightarrow> if InnerCode e = 0 then None else Some e)"

definition base_SetError :: "go_error option \<Rightarrow> GfSpTask \<Rightarrow> GfSpTask" where
  "base_SetError err m = m\<lparr>Err := MakeGfSpError err\<rparr>"

definition LimitEstimateByPriority :: "TPriority \<Rightarrow> Limit" where
  "LimitEstimateByPriority priority =
     (if priority < DefaultSmallerPriority then GfSpLim (zero_limit\<lparr>Tasks := 1, TasksLowPriority := 1\<rparr>)
      else if priority > DefaultLargerTaskPriority then GfSpLim (zero_limit\<lparr>Tasks := 1, TasksHighPriority := 1\<rparr>)
      else GfSpLim (zero_limit\<lparr>Tasks := 1, TasksMediumPriority := 1\<rparr>))"

section \<open>The concrete task types\<close>

text \<open>
  Every concrete type embeds a \<open>GfSpTask\<close> and forwards the accessors of the \<open>Task\<close> interface to
  it (\<open>m.GetTask().SetX(v)\<close> and \<open>return m.GetTask().X()\<close>); per type, \<open>on_task\<close> lifts a method
  of the embedded task to the concrete one.
\<close>

record GfSpUploadObjectTask =
  up_Task :: GfSpTask
  up_ObjectInfo :: "ObjectInfo option"
  up_StorageParams :: "Params option"

definition GfSpUploadObjectTask_on_task :: "(GfSpTask \<Rightarrow> GfSpTask) \<Rightarrow> GfSpUploadObjectTask \<Rightarrow> GfSpUploadObjectTask" where
  "GfSpUploadObjectTask_on_task f m = m\<lparr>up_Task := f (up_Task m)\<rparr>"

record GfSpResumableUploadObjectTask =
  ru_Task :: GfSpTask
  ru_ObjectInfo :: "ObjectInfo option"
  ru_StorageParams :: "Params option"
  ru_Offset :: uint64
  ru_Length :: uint64
  ru_Completed :: bool

definition GfSpResumableUploadObjectTask_on_task :: "(GfSpTask \<Rightarrow> GfSpTask) \<Rightarrow> GfSpResumableUploadObjectTask \<Rightarrow> GfSpResumableUploadObjectTask" where
  "GfSpResumableUploadObjectTask_on_task f m = m\<lparr>ru_Task := f (ru_Task m)\<rparr>"

record GfSpReplicatePieceTask =
  rp_Task :: GfSpTask
  rp_ObjectInfo :: "ObjectInfo option"
  rp_StorageParams :: "Params option"
  rp_SecondaryAddresses :: "string list"
  rp_SecondarySignatures :: "bytes list"
  rp_Sealed :: bool

definition GfSpReplicatePieceTask_on_task :: "(GfSpTask \<Rightarrow> GfSpTask) \<Rightarrow> GfSpReplicatePieceTask \<Rightarrow> GfSpReplicatePieceTask" where
  "GfSpReplicatePieceTask_on_task f m = m\<lparr>rp_Task := f (rp_Task m)\<rparr>"

record GfSpSealObjectTask =
  so_Task :: GfSpTask
  so_ObjectInfo :: "ObjectInfo option"
  so_StorageParams :: "Params option"
  so_SecondaryAddresses :: "string list"
  so_SecondarySignatures :: "bytes list"

definition GfSpSealObjectTask_on_task :: "(GfSpTask \<Rightarrow> GfSpTask) \<Rightarrow> GfSpSealObjectTask \<Rightarrow> GfSpSealObjectTask" where
  "GfSpSealObjectTask_on_task f m = m\<lparr>so_Task := f (so_Task m)\<rparr>"

record GfSpReceivePieceTask =
  rv_Task :: GfSpTask
  rv_ObjectInfo :: "ObjectInfo option"
  rv_StorageParams :: "Params option"
  rv_ReplicateIdx :: uint32
  rv_PieceIdx :: int32
  rv_PieceSize :: int64
  rv_PieceChecksum :: bytes
  rv_Signature :: bytes
  rv_Sealed :: bool

definition GfSpReceivePieceTask_on_task :: "(GfSpTask \<Rightarrow> GfSpTask) \<Rightarrow> GfSpReceivePieceTask \<Rightarrow> GfSpReceivePieceTask" where
  "GfSpReceivePieceTask_on_task f m = m\<lparr>rv_Task := f (rv_Task m)\<rparr>"

record GfSpDownloadObjectTask =
  do_Task :: GfSpTask
  do_ObjectInfo :: "ObjectInfo option"
  do_BucketInfo :: "BucketInfo option"
  do_StorageParams :: "Params option"
  do_UserAddress :: string
  do_Low :: int64
  do_High :: int64

definition GfSpDownloadObjectTask_on_task :: "(GfSpTask \<Rightarrow> GfSpTask) \<Rightarrow> GfSpDownloadObjectTask \<Rightarrow> GfSpDownloadObjectTask" where
  "GfSpDownloadObjectTask_on_task f m = m\<lparr>do_Task := f (do_Task m)\<rparr>"

record GfSpDownloadPieceTask =
  dp_Task :: GfSpTask
  dp_ObjectInfo :: "ObjectInfo option"
  dp_BucketInfo :: "BucketInfo option"
  dp_StorageParams :: "Params option"
  dp_EnableCheck :: bool
  dp_UserAddress :: string
  dp_TotalSize :: uint64
  dp_PieceKey :: string
  dp_PieceOffset :: uint64
  dp_PieceLength :: uint64

definition GfSpDownloadPieceTask_on_task :: "(GfSpTask \<Rightarrow> GfSpTask) \<Rightarrow> GfSpDownloadPieceTask \<Rightarrow> GfSpDownloadPieceTask" where
  "GfSpDownloadPieceTask_on_task f m = m\<lparr>dp_Task := f (dp_Task m)\<rparr>"

record GfSpChallengePieceTask =
  ch_Task :: GfSpTask
  ch_ObjectInfo :: "ObjectInfo option"
  ch_BucketInfo :: "BucketInfo option"
  ch_StorageParams :: "Params option"
  ch_UserAddress :: string
  ch_SegmentIdx :: uint32
  ch_RedundancyIdx :: int32
  ch_IntegrityHash :: bytes
  ch_PieceHash :: "bytes list"
  ch_PieceDataSize :: int64

definition GfSpChallengePieceTask_on_task :: "(GfSpTask \<Rightarrow> GfSpTask) \<Rightarrow> GfSpChallengePieceTask \<Rightarrow> GfSpChallengePieceTask" where
  "GfSpChallengePieceTask_on_task f m = m\<lparr>ch_Task := f (ch_Task m)\<rparr>"

record GfSpGCObjectTask =
  gc_Task :: GfSpTask
  gc_StartBlockNumber :: uint64
  gc_EndBlockNumber :: uint64
  gc_CurrentBlockNumber :: uint64
  gc_LastDeletedObjectId :: uint64

definition GfSpGCObjectTask_on_task :: "(GfSpTask \<Rightarrow> GfSpTask) \<Rightarrow> GfSpGCObjectTask \<Rightarrow> GfSpGCObjectTask" where
  "GfSpGCObjectTask_on_task f m = m\<lparr>gc_Task := f (gc_Task m)\<rparr>"

record GfSpGCZombiePieceTask =
  gz_Task :: GfSpTask
  gz_ObjectId :: uint64
  gz_DeleteCount :: uint64

definition GfSpGCZombiePieceTask_on_task :: "(GfSpTask \<Rightarrow> GfSpTask) \<Rightarrow> GfSpGCZombiePieceTask \<Rightarrow> GfSpGCZombiePieceTask" where
  "GfSpGCZombiePieceTask_on_task f m = m\<lparr>gz_Task := f (gz_Task m)\<rparr>"

record GfSpGCMetaTask =
  gm_Task :: GfSpTask
  gm_CurrentIdx :: uint64
  gm_DeleteCount :: uint64

definition GfSpGCMetaTask_on_task :: "(GfSpTask \<Rightarrow> GfSpTask) \<Rightarrow> GfSpGCMetaTask \<Rightarrow> GfSpGCMetaTask" where
  "GfSpGCMetaTask_on_task f m = m\<lparr>gm_Task := f (gm_Task m)\<rparr>"

record GfSpRecoverPieceTask =
  rr_Task :: GfSpTask
  rr_ObjectInfo :: "ObjectInfo option"
  rr_StorageParams :: "Params option"
  rr_SegmentIdx :: uint32
  rr_EcIdx :: int32
  rr_PieceSize :: uint64
  rr_Signature :: bytes
  rr_Recovered :: bool

definition GfSpRecoverPieceTask_on_task :: "(GfSpTask \<Rightarrow> GfSpTask) \<Rightarrow> GfSpRecoverPieceTask \<Rightarrow> GfSpRecoverPieceTask" where
  "GfSpRecoverPieceTask_on_task f m = m\<lparr>rr_Task := f (rr_Task m)\<rparr>"

record GfSpCreateBucketApprovalTask =
  cb_Task :: GfSpTask
  cb_CreateBucketInfo :: "MsgCreateBucket option"

definition GfSpCreateBucketApprovalTask_on_task :: "(GfSpTask \<Rightarrow> GfSpTask) \<Rightarrow> GfSpCreateBucketApprovalTask \<Rightarrow> GfSpCreateBucketApprovalTask" where
  "GfSpCreateBucketApprovalTask_on_task f m = m\<lparr>cb_Task := f (cb_Task m)\<rparr>"

record GfSpCreateObjectApprovalTask =
  co_Task :: GfSpTask
  co_CreateObjectInfo :: "MsgCreateObject option"

definition GfSpCreateObjectApprovalTask_on_task :: "(GfSpTask \<Rightarrow> GfSpTask) \<Rightarrow> GfSpCreateObjectApprovalTask \<Rightarrow> GfSpCreateObjectApprovalTask" where
  "GfSpCreateObjectApprovalTask_on_task f m = m\<lparr>co_Task := f (co_Task m)\<rparr>"

record GfSpReplicatePieceApprovalTask =
  ra_Task :: GfSpTask
  ra_ObjectInfo :: "ObjectInfo option"
  ra_StorageParams :: "Params option"
  ra_AskSpOperatorAddress :: string
  ra_AskSignature :: bytes
  ra_ApprovedSpEndpoint :: string
  ra_ApprovedSpOperatorAddress :: string
  ra_ApprovedSignature :: bytes
  ra_ApprovedSpApprovalAddress :: string
  ra_ExpiredHeight :: uint64

definition GfSpReplicatePieceApprovalTask_on_task :: "(GfSpTask \<Rightarrow> GfSpTask) \<Rightarrow> GfSpReplicatePieceApprovalTask \<Rightarrow> GfSpReplicatePieceApprovalTask" where
  "GfSpReplicatePieceApprovalTask_on_task f m = m\<lparr>ra_Task := f (ra_Task m)\<rparr>"

text \<open>A value of the \<open>Task\<close> interface.\<close>

datatype Task =
    UploadObjectTask GfSpUploadObjectTask
  | ResumableUploadObjectTask GfSpResumableUploadObjectTask
  | ReplicatePieceTask GfSpReplicatePieceTask
  | SealObjectTask GfSpSealObjectTask
  | ReceivePieceTask GfSpReceivePieceTask
  | DownloadObjectTask GfSpDownloadObjectTask
  | DownloadPieceTask GfSpDownloadPieceTask
  | ChallengePieceTask GfSpChallengePieceTask
  | GCObjectTask GfSpGCObjectTask
  | GCZombiePieceTask GfSpGCZombiePieceTask
  | GCMetaTask GfSpGCMetaTask
  | RecoverPieceTask GfSpRecoverPieceTask
  | CreateBucketApprovalTask GfSpCreateBucketApprovalTask
  | CreateObjectApprovalTask GfSpCreateObjectApprovalTask
  | ReplicatePieceApprovalTask GfSpReplicatePieceApprovalTask

fun GetTask :: "Task \<Rightarrow> GfSpTask" where
  "GetTask (UploadObjectTask m) = up_Task m"
| "GetTask (ResumableUploadObjectTask m) = ru_Task m"
| "GetTask (ReplicatePieceTask m) = rp_Task m"
| "GetTask (SealObjectTask m) = so_Task m"
| "GetTask (ReceivePieceTask m) = rv_Task m"
| "GetTask (DownloadObjectTask m) = do_Task m"
| "GetTask (DownloadPieceTask m) = dp_Task m"
| "GetTask (ChallengePieceTask m) = ch_Task m"
| "GetTask (GCObjectTask m) = gc_Task m"
| "GetTask (GCZombiePieceTask m) = gz_Task m"
| "GetTask (GCMetaTask m) = gm_Task m"
| "GetTask (RecoverPieceTask m) = rr_Task m"
| "GetTask (CreateBucketApprovalTask m) = cb_Task m"
| "GetTask (CreateObjectApprovalTask m) = co_Task m"
| "GetTask (ReplicatePieceApprovalTask m) = ra_Task m"

fun on_task :: "(GfSpTask \<Rightarrow> GfSpTask) \<Rightarrow> Task \<Rightarrow> Task" where
  "on_task f (UploadObjectTask m) = UploadObjectTask (GfSpUploadObjectTask_on_task f m)"
| "on_task f (ResumableUploadObjectTask m) = ResumableUploadObjectTask (GfSpResumableUploadObjectTask_on_task f m)"
| "on_task f (ReplicatePieceTask m) = ReplicatePieceTask (GfSpReplicatePieceTask_on_task f m)"
| "on_task f (SealObjectTask m) = SealObjectTask (GfSpSealObjectTask_on_task f m)"
| "on_task f (ReceivePieceTask m) = ReceivePieceTask (GfSpReceivePieceTask_on_task f m)"
| "on_task f (DownloadObjectTask m) = DownloadObjectTask (GfSpDownloadObjectTask_on_task f m)"
| "on_task f (DownloadPieceTask m) = DownloadPieceTask (GfSpDownloadPieceTask_on_task f m)"
| "on_task f (ChallengePieceTask m) = ChallengePieceTask (GfSpChallengePieceTask_on_task f m)"
| "on_task f (GCObjectTask m) = GCObjectTask (GfSpGCObjectTask_on_task f m)"
| "on_task f (GCZombiePieceTask m) = GCZombiePieceTask (GfSpGCZombiePieceTask_on_task f m)"
| "on_task f (GCMetaTask m) = GCMetaTask (GfSpGCMetaTask_on_task f m)"
| "on_task f (RecoverPieceTask m) = RecoverPieceTask (GfSpRecoverPieceTask_on_task f m)"
| "on_task f (CreateBucketApprovalTask m) = CreateBucketApprovalTask (GfSpCreateBucketApprovalTask_on_task f m)"
| "on_task f (CreateObjectApprovalTask m) = CreateObjectApprovalTask (GfSpCreateObjectApprovalTask_on_task f m)"
| "on_task f (ReplicatePieceApprovalTask m) = ReplicatePieceApprovalTask (GfSpReplicatePieceApprovalTask_on_task f m)"

fun Type :: "Task \<Rightarrow> TType" where
  "Type (UploadObjectTask m) = TypeTaskUpload"
| "Type (ResumableUploadObjectTask m) = TypeTaskUpload"
| "Type (ReplicatePieceTask m) = TypeTaskReplicatePiece"
| "Type (SealObjectTask m) = TypeTaskSealObject"
| "Type (ReceivePieceTask m) = TypeTaskReceivePiece"
| "Type (DownloadObjectTask m) = TypeTaskDownloadObject"
| "Type (DownloadPieceTask m) = TypeTaskDownloadPiece"
| "Type (ChallengePieceTask m) = TypeTaskChallengePiece"
| "Type (GCObjectTask m) = TypeTaskGCObject"
| "Type (GCZombiePieceTask m) = TypeTaskGCZombiePiece"
| "Type (GCMetaTask m) = TypeTaskGCMeta"
| "Type (RecoverPieceTask m) = TypeTaskRecoverPiece"
| "Type (CreateBucketApprovalTask m) = TypeTaskCreateBucketApproval"
| "Type (CreateObjectApprovalTask m) = TypeTaskCreateObjectApproval"
| "Type (ReplicatePieceApprovalTask m) = TypeTaskReplicatePieceApproval"

text \<open>The object a task is about, where its type has one.\<close>

fun GetObjectInfo :: "Task \<Rightarrow> ObjectInfo option" where
  "GetObjectInfo (UploadObjectTask m) = up_ObjectInfo m"
| "GetObjectInfo (ResumableUploadObjectTask m) = ru_ObjectInfo m"
| "GetObjectInfo (ReplicatePieceTask m) = rp_ObjectInfo m"
| "GetObjectInfo (SealObjectTask m) = so_ObjectInfo m"
| "GetObjectInfo (ReceivePieceTask m) = rv_ObjectInfo m"
| "GetObjectInfo (DownloadObjectTask m) = do_ObjectInfo m"
| "GetObjectInfo (DownloadPieceTask m) = dp_ObjectInfo m"
| "GetObjectInfo (ChallengePieceTask m) = ch_ObjectInfo m"
| "GetObjectInfo (GCObjectTask m) = None"
| "GetObjectInfo (GCZombiePieceTask m) = None"
| "GetObjectInfo (GCMetaTask m) = None"
| "GetObjectInfo (RecoverPieceTask m) = rr_ObjectInfo m"
| "GetObjectInfo (CreateBucketApprovalTask m) = None"
| "GetObjectInfo (CreateObjectApprovalTask m) = None"
| "GetObjectInfo (ReplicatePieceApprovalTask m) = ra_ObjectInfo m"

section \<open>Keys\<close>

definition Delimiter :: string where "Delimiter = ''-''"

fun CombineKey :: "string list \<Rightarrow> string" where
  "CombineKey [] = []"
| "CombineKey (f # fs) = Delimiter @ f @ CombineKey fs"

definition GfSpCreateBucketApprovalTaskKey :: "string \<Rightarrow> int32 \<Rightarrow> string" where
  "GfSpCreateBucketApprovalTaskKey bucket visibility =
     ''CreateBucketApproval'' @ CombineKey [''bucket:'' @ bucket, ''visibility:'' @ show_int visibility]"

definition GfSpCreateObjectApprovalTaskKey :: "string \<Rightarrow> string \<Rightarrow> int32 \<Rightarrow> string" where
  "GfSpCreateObjectApprovalTaskKey bucket object visibility =
     ''CreateObjectApproval'' @ CombineKey [''bucket:'' @ bucket, ''object:'' @ object,
       ''visibility:'' @ show_int visibility]"

definition GfSpReplicatePieceApprovalTaskKey :: "string \<Rightarrow> string \<Rightarrow> string \<Rightarrow> string" where
  "GfSpReplicatePieceApprovalTaskKey bucket object oid =
     ''ReplicatePieceApproval'' @ CombineKey [''bucket:'' @ bucket, ''object:'' @ object, ''id:'' @ oid]"

definition GfSpDownloadObjectTaskKey :: "string \<Rightarrow> string \<Rightarrow> string \<Rightarrow> int64 \<Rightarrow> int64 \<Rightarrow> string" where
  "GfSpDownloadObjectTaskKey bucket object oid low high =
     ''DownloadObject'' @ CombineKey [''bucket:'' @ bucket, ''object:'' @ object, ''id:'' @ oid,
       ''low:'' @ show_int low, ''high:'' @ show_int high]"

definition GfSpDownloadPieceTaskKey :: "string \<Rightarrow> string \<Rightarrow> string \<Rightarrow> uint64 \<Rightarrow> uint64 \<Rightarrow> string" where
  "GfSpDownloadPieceTaskKey bucket object pieceKey pieceOffset pieceLength =
     ''DownloadPiece'' @ CombineKey [''bucket:'' @ bucket, ''object:'' @ object, ''piece:'' @ pieceKey,
       ''offset:'' @ show_nat (unat pieceOffset), ''length:'' @ show_nat (unat pieceLength)]"

definition GfSpChallengePieceTaskKey :: "string \<Rightarrow> string \<Rightarrow> string \<Rightarrow> uint32 \<Rightarrow> int32 \<Rightarrow> string \<Rightarrow> string" where
  "GfSpChallengePieceTaskKey bucket object oid sIdx rIdx user =
     ''ChallengePiece'' @ CombineKey [''bucket:'' @ bucket, ''object:'' @ object, ''id:'' @ oid,
       ''sIdx:'' @ show_nat (unat sIdx), ''rIdx:'' @ show_int rIdx, user]"

definition GfSpUploadObjectTaskKey :: "string \<Rightarrow> string \<Rightarrow> string \<Rightarrow> string" where
  "GfSpUploadObjectTaskKey bucket object oid =
     ''Uploading'' @ CombineKey [''bucket:'' @ bucket, ''object:'' @ object, ''id:'' @ oid]"

definition GfSpResumableUploadObjectTaskKey :: "string \<Rightarrow> string \<Rightarrow> string \<Rightarrow> uint64 \<Rightarrow> string" where
  "GfSpResumableUploadObjectTaskKey bucket object oid off =
     ''ResuabmleUploading'' @ CombineKey [bucket, object, oid, show_nat (unat off)]"

definition GfSpReplicatePieceTaskKey :: "string \<Rightarrow> string \<Rightarrow> string \<Rightarrow> string" where
  "GfSpReplicatePieceTaskKey bucket object oid =
     ''Uploading'' @ CombineKey [''bucket:'' @ bucket, ''object:'' @ object, ''id:'' @ oid]"

definition GfSpRecoverPieceTaskKey :: "string \<Rightarrow> string \<Rightarrow> string \<Rightarrow> uint32 \<Rightarrow> int32 \<Rightarrow> int64 \<Rightarrow> string" where
  "GfSpRecoverPieceTaskKey bucket object oid pIdx replicateIdx time =
     (if replicateIdx \<ge> 0
      then ''Recovering'' @ CombineKey [''bucket:'' @ bucket, ''object:'' @ object, ''id:'' @ oid,
             ''segIdx:'' @ show_nat (unat pIdx), ''ecIdx:'' @ show_int replicateIdx, ''time'' @ show_int time]
      else ''Recovering'' @ CombineKey [''bucket:'' @ bucket, ''object:'' @ object, ''id:'' @ oid,
             ''segIdx:'' @ show_nat (unat pIdx), ''time'' @ show_int time])"

definition GfSpSealObjectTaskKey :: "string \<Rightarrow> string \<Rightarrow> string \<Rightarrow> string" where
  "GfSpSealObjectTaskKey bucket object oid =
     ''Uploading'' @ CombineKey [''bucket:'' @ bucket, ''object:'' @ object, ''id:'' @ oid]"

definition GfSpReceivePieceTaskKey :: "string \<Rightarrow> string \<Rightarrow> string \<Rightarrow> uint32 \<Rightarrow> int32 \<Rightarrow> string" where
  "GfSpReceivePieceTaskKey bucket object oid rIdx pIdx =
     ''ReceivePiece'' @ CombineKey [''bucket:'' @ bucket, ''object:'' @ object, ''id:'' @ oid,
       ''rIdx:'' @ show_nat (unat rIdx), ''pIdx:'' @ show_int pIdx]"

definition GfSpGCObjectTaskKey :: "uint64 \<Rightarrow> uint64 \<Rightarrow> int64 \<Rightarrow> string" where
  "GfSpGCObjectTaskKey start fin time =
     ''gcobject'' @ CombineKey [''start'' @ show_nat (unat start), ''end'' @ show_nat (unat fin),
       ''time'' @ show_int time]"

definition GfSpGCZombiePieceTaskKey :: "int64 \<Rightarrow> string" where
  "GfSpGCZombiePieceTaskKey time = ''gczombiepiece'' @ CombineKey [''time'' @ show_int time]"

definition GfSpGfSpGCMetaTaskKey :: "int64 \<Rightarrow> string" where
  "GfSpGfSpGCMetaTaskKey time = ''gcmeta'' @ CombineKey [''time'' @ show_int time]"

text \<open>
  The getters of a nil message return zero values. \<open>m.GetObjectInfo().Id\<close> of a nil object panics
  in the source; \<open>key_defined\<close> says when a key is computed without that, and \<open>Key\<close> is only
  used there.
\<close>

definition nil_object :: ObjectInfo where
  "nil_object = \<lparr>BucketName = [], ObjectName = [], Id = 0, PayloadSize = 0,
     RedundancyType = REDUNDANCY_EC_TYPE, ObjectStatus = OBJECT_STATUS_CREATED, CreateAt = 0,
     Checksums = [], SecondarySpAddresses = [], Visibility = VISIBILITY_TYPE_UNSPECIFIED, ContentType = []\<rparr>"

definition object_of :: "ObjectInfo option \<Rightarrow> ObjectInfo" where
  "object_of x = (case x of None \<Rightarrow> nil_object | Some ob \<Rightarrow> ob)"

definition id_string :: "ObjectInfo \<Rightarrow> string" where
  "id_string ob = show_nat (unat (Id ob))"

fun Key :: "Task \<Rightarrow> string" where
  "Key (UploadObjectTask m) = (let ob = object_of (up_ObjectInfo m) in
     GfSpUploadObjectTaskKey (BucketName ob) (ObjectName ob) (id_string ob))"
| "Key (ResumableUploadObjectTask m) = (let ob = object_of (ru_ObjectInfo m) in
     GfSpResumableUploadObjectTaskKey (BucketName ob) (ObjectName ob) (id_string ob) (ru_Offset m))"
| "Key (ReplicatePieceTask m) = (let ob = object_of (rp_ObjectInfo m) in
     GfSpReplicatePieceTaskKey (BucketName ob) (ObjectName ob) (id_string ob))"
| "Key (SealObjectTask m) = (let ob = object_of (so_ObjectInfo m) in
     GfSpSealObjectTaskKey (BucketName ob) (ObjectName ob) (id_string ob))"
| "Key (ReceivePieceTask m) = (let ob = object_of (rv_ObjectInfo m) in
     GfSpReceivePieceTaskKey (BucketName ob) (ObjectName ob) (id_string ob) (rv_ReplicateIdx m) (rv_PieceIdx m))"
| "Key (DownloadObjectTask m) = (let ob = object_of (do_ObjectInfo m) in
     GfSpDownloadObjectTaskKey (BucketName ob) (ObjectName ob) (id_string ob) (do_Low m) (do_High m))"
| "Key (DownloadPieceTask m) = (let ob = object_of (dp_ObjectInfo m) in
     GfSpDownloadPieceTaskKey (BucketName ob) (ObjectName ob) (dp_PieceKey m) (dp_PieceOffset m) (dp_PieceLength m))"
| "Key (ChallengePieceTask m) = (let ob = object_of (ch_ObjectInfo m) in
     GfSpChallengePieceTaskKey (BucketName ob) (ObjectName ob) (id_string ob) (ch_SegmentIdx m)
       (ch_RedundancyIdx m) (ch_UserAddress m))"
| "Key (GCObjectTask m) =
     GfSpGCObjectTaskKey (gc_StartBlockNumber m) (gc_EndBlockNumber m) (CreateTime (gc_Task m))"
| "Key (GCZombiePieceTask m) = GfSpGCZombiePieceTaskKey (CreateTime (gz_Task m))"
| "Key (GCMetaTask m) = GfSpGfSpGCMetaTaskKey (CreateTime (gm_Task m))"
| "Key (RecoverPieceTask m) = (let ob = object_of (rr_ObjectInfo m) in
     GfSpRecoverPieceTaskKey (BucketName ob) (ObjectName ob) (id_string ob) (rr_SegmentIdx m) (rr_EcIdx m)
       (CreateTime (rr_Task m)))"
| "Key (CreateBucketApprovalTask m) =
     (case cb_CreateBucketInfo m of
        None \<Rightarrow> GfSpCreateBucketApprovalTaskKey [] 0
      | Some b \<Rightarrow> GfSpCreateBucketApprovalTaskKey (mcb_BucketName b) (mcb_Visibility b))"
| "Key (CreateObjectApprovalTask m) =
     (case co_CreateObjectInfo m of
        None \<Rightarrow> GfSpCreateObjectApprovalTaskKey [] [] 0
      | Some b \<Rightarrow> GfSpCreateObjectApprovalTaskKey (mco_BucketName b) (mco_ObjectName b) (mco_Visibility b))"
| "Key (ReplicatePieceApprovalTask m) = (let ob = object_of (ra_ObjectInfo m) in
     GfSpReplicatePieceApprovalTaskKey (BucketName ob) (ObjectName ob) (id_string ob))"

fun key_defined :: "Task \<Rightarrow> bool" where
  "key_defined (UploadObjectTask m) = (up_ObjectInfo m \<noteq> None)"
| "key_defined (ResumableUploadObjectTask m) = (ru_ObjectInfo m \<noteq> None)"
| "key_defined (ReplicatePieceTask m) = (rp_ObjectInfo m \<noteq> None)"
| "key_defined (SealObjectTask m) = (so_ObjectInfo m \<noteq> None)"
| "key_defined (ReceivePieceTask m) = (rv_ObjectInfo m \<noteq> None)"
| "key_defined (DownloadObjectTask m) = (do_ObjectInfo m \<noteq> None)"
| "key_defined (ChallengePieceTask m) = (ch_ObjectInfo m \<noteq> None)"
| "key_defined (RecoverPieceTask m) = (rr_ObjectInfo m \<noteq> None)"
| "key_defined (ReplicatePieceApprovalTask m) = (ra_ObjectInfo m \<noteq> None)"
| "key_defined _ = True"

section \<open>The task interface\<close>

definition GetCreateTime :: "Task \<Rightarrow> int64" where "GetCreateTime t = CreateTime (GetTask t)"
definition GetRetry :: "Task \<Rightarrow> int64" where "GetRetry t = Retry (GetTask t)"
definition GetPriority :: "Task \<Rightarrow> TPriority" where "GetPriority t = base_GetPriority (GetTask t)"
definition ExceedTimeout :: "int64 \<Rightarrow> Task \<Rightarrow> bool" where "ExceedTimeout now t = base_ExceedTimeout now (GetTask t)"
definition ExceedRetry :: "Task \<Rightarrow> bool" where "ExceedRetry t = base_ExceedRetry (GetTask t)"
definition Expired :: "int64 \<Rightarrow> Task \<Rightarrow> bool" where "Expired now t = base_Expired now (GetTask t)"
definition task_Error :: "Task \<Rightarrow> GfSpError option" where "task_Error t = base_Error (GetTask t)"
definition SetAddress :: "string \<Rightarrow> Task \<Rightarrow> Task" where "SetAddress a = on_task (base_SetAddress a)"
definition SetUpdateTime :: "int64 \<Rightarrow> Task \<Rightarrow> Task" where "SetUpdateTime x = on_task (base_SetUpdateTime x)"
definition SetTimeout :: "int64 \<Rightarrow> Task \<Rightarrow> Task" where "SetTimeout x = on_task (base_SetTimeout x)"
definition IncRetry :: "Task \<Rightarrow> Task" where "IncRetry = on_task base_IncRetry"
definition SetRetry :: "go_int \<Rightarrow> Task \<Rightarrow> Task" where "SetRetry r = on_task (base_SetRetry r)"
definition SetMaxRetry :: "int64 \<Rightarrow> Task \<Rightarrow> Task" where "SetMaxRetry r = on_task (base_SetMaxRetry r)"
definition SetPriority :: "TPriority \<Rightarrow> Task \<Rightarrow> Task" where "SetPriority p = on_task (base_SetPriority p)"
definition SetError :: "go_error option \<Rightarrow> Task \<Rightarrow> Task" where "SetError e = on_task (base_SetError e)"

section \<open>Initialisation\<close>

definition stamped :: "int64 \<Rightarrow> GfSpTask" where
  "stamped now = base_SetUpdateTime now (base_SetCreateTime now new_task)"

definition InitUploadObjectTask :: "int64 \<Rightarrow> ObjectInfo option \<Rightarrow> Params option \<Rightarrow> int64 \<Rightarrow> GfSpUploadObjectTask" where
  "InitUploadObjectTask now object params timeout =
     \<lparr>up_Task = base_SetTimeout timeout (stamped now), up_ObjectInfo = object, up_StorageParams = params\<rparr>"

definition InitResumableUploadObjectTask ::
  "int64 \<Rightarrow> ObjectInfo option \<Rightarrow> Params option \<Rightarrow> int64 \<Rightarrow> bool \<Rightarrow> uint64 \<Rightarrow> GfSpResumableUploadObjectTask" where
  "InitResumableUploadObjectTask now object params timeout complete off =
     \<lparr>ru_Task = base_SetTimeout timeout (stamped now), ru_ObjectInfo = object, ru_StorageParams = params,
      ru_Offset = off, ru_Length = 0, ru_Completed = complete\<rparr>"

definition scheduled :: "int64 \<Rightarrow> TPriority \<Rightarrow> int64 \<Rightarrow> int64 \<Rightarrow> GfSpTask" where
  "scheduled now priority timeout retry =
     base_SetMaxRetry retry (base_SetTimeout timeout (base_SetPriority priority (stamped now)))"

definition InitReplicatePieceTask ::
  "int64 \<Rightarrow> ObjectInfo option \<Rightarrow> Params option \<Rightarrow> TPriority \<Rightarrow> int64 \<Rightarrow> int64 \<Rightarrow> GfSpReplicatePieceTask" where
  "InitReplicatePieceTask now object params priority timeout retry =
     \<lparr>rp_Task = scheduled now priority timeout retry, rp_ObjectInfo = object, rp_StorageParams = params,
      rp_SecondaryAddresses = [], rp_SecondarySignatures = [], rp_Sealed = False\<rparr>"

definition InitSealObjectTask ::
  "int64 \<Rightarrow> ObjectInfo option \<Rightarrow> Params option \<Rightarrow> TPriority \<Rightarrow> string list \<Rightarrow> bytes list \<Rightarrow> int64 \<Rightarrow> int64
    \<Rightarrow> GfSpSealObjectTask" where
  "InitSealObjectTask now object params priority addresses signatures timeout retry =
     \<lparr>so_Task = scheduled now priority timeout retry, so_ObjectInfo = object, so_StorageParams = params,
      so_SecondaryAddresses = addresses, so_SecondarySignatures = signatures\<rparr>"

definition InitReceivePieceTask ::
  "int64 \<Rightarrow> ObjectInfo option \<Rightarrow> Params option \<Rightarrow> TPriority \<Rightarrow> uint32 \<Rightarrow> int32 \<Rightarrow> int64 \<Rightarrow> GfSpReceivePieceTask" where
  "InitReceivePieceTask now object params priority replicateIdx pieceIdx pieceSize =
     \<lparr>rv_Task = base_SetPriority priority (stamped now), rv_ObjectInfo = object, rv_StorageParams = params,
      rv_ReplicateIdx = replicateIdx, rv_PieceIdx = pieceIdx, rv_PieceSize = pieceSize,
      rv_PieceChecksum = [], rv_Signature = [], rv_Sealed = False\<rparr>"

definition InitDownloadObjectTask ::
  "int64 \<Rightarrow> ObjectInfo option \<Rightarrow> BucketInfo option \<Rightarrow> Params option \<Rightarrow> TPriority \<Rightarrow> string \<Rightarrow> int64 \<Rightarrow> int64
    \<Rightarrow> int64 \<Rightarrow> int64 \<Rightarrow> GfSpDownloadObjectTask" where
  "InitDownloadObjectTask now object bucket params priority userAddress low high timeout maxRetry =
     \<lparr>do_Task = scheduled now priority timeout maxRetry, do_ObjectInfo = object, do_BucketInfo = bucket,
      do_StorageParams = params, do_UserAddress = userAddress, do_Low = low, do_High = high\<rparr>"

definition InitDownloadPieceTask ::
  "int64 \<Rightarrow> ObjectInfo option \<Rightarrow> BucketInfo option \<Rightarrow> Params option \<Rightarrow> TPriority \<Rightarrow> bool \<Rightarrow> string \<Rightarrow> uint64
    \<Rightarrow> string \<Rightarrow> uint64 \<Rightarrow> uint64 \<Rightarrow> int64 \<Rightarrow> int64 \<Rightarrow> GfSpDownloadPieceTask" where
  "InitDownloadPieceTask now object bucket params priority enableCheck userAddress totalSize pieceKey pieceOffset
     pieceLength timeout maxRetry =
     \<lparr>dp_Task = scheduled now priority timeout maxRetry, dp_ObjectInfo = object, dp_BucketInfo = bucket,
      dp_StorageParams = params, dp_EnableCheck = enableCheck, dp_UserAddress = userAddress,
      dp_TotalSize = totalSize, dp_PieceKey = pieceKey, dp_PieceOffset = pieceOffset, dp_PieceLength = pieceLength\<rparr>"

definition InitChallengePieceTask ::
  "int64 \<Rightarrow> ObjectInfo option \<Rightarrow> BucketInfo option \<Rightarrow> Params option \<Rightarrow> TPriority \<Rightarrow> string \<Rightarrow> int32 \<Rightarrow> uint32
    \<Rightarrow> int64 \<Rightarrow> int64 \<Rightarrow> GfSpChallengePieceTask" where
  "InitChallengePieceTask now object bucket params priority userAddress replicateIdx segmentIdx timeout retry =
     \<lparr>ch_Task = scheduled now priority timeout retry, ch_ObjectInfo = object, ch_BucketInfo = bucket,
      ch_StorageParams = params, ch_UserAddress = userAddress, ch_SegmentIdx = segmentIdx,
      ch_RedundancyIdx = replicateIdx, ch_IntegrityHash = [], ch_PieceHash = [], ch_PieceDataSize = 0\<rparr>"

definition InitGCObjectTask :: "int64 \<Rightarrow> TPriority \<Rightarrow> uint64 \<Rightarrow> uint64 \<Rightarrow> int64 \<Rightarrow> GfSpGCObjectTask" where
  "InitGCObjectTask now priority start fin timeout =
     \<lparr>gc_Task = base_SetTimeout timeout (base_SetPriority priority (stamped now)),
      gc_StartBlockNumber = start, gc_EndBlockNumber = fin, gc_CurrentBlockNumber = 0, gc_LastDeletedObjectId = 0\<rparr>"

definition SetGCObjectProgress :: "uint64 \<Rightarrow> uint64 \<Rightarrow> GfSpGCObjectTask \<Rightarrow> GfSpGCObjectTask" where
  "SetGCObjectProgress block object m = m\<lparr>gc_CurrentBlockNumber := block, gc_LastDeletedObjectId := object\<rparr>"

definition InitRecoverPieceTask ::
  "int64 \<Rightarrow> ObjectInfo option \<Rightarrow> Params option \<Rightarrow> TPriority \<Rightarrow> uint32 \<Rightarrow> int32 \<Rightarrow> uint64 \<Rightarrow> int64 \<Rightarrow> int64
    \<Rightarrow> GfSpRecoverPieceTask" where
  "InitRecoverPieceTask now object params priority segmentIdx ecIdx pieceSize timeout retry =
     \<lparr>rr_Task = scheduled now priority timeout retry, rr_ObjectInfo = object, rr_StorageParams = params,
      rr_SegmentIdx = segmentIdx, rr_EcIdx = ecIdx, rr_PieceSize = pieceSize, rr_Signature = [], rr_Recovered = False\<rparr>"

definition InitApprovalCreateBucketTask :: "int64 \<Rightarrow> MsgCreateBucket option \<Rightarrow> TPriority \<Rightarrow> GfSpCreateBucketApprovalTask" where
  "InitApprovalCreateBucketTask now bucket priority =
     \<lparr>cb_Task = base_SetPriority priority (stamped now), cb_CreateBucketInfo = bucket\<rparr>"

definition InitApprovalCreateObjectTask :: "int64 \<Rightarrow> MsgCreateObject option \<Rightarrow> TPriority \<Rightarrow> GfSpCreateObjectApprovalTask" where
  "InitApprovalCreateObjectTask now object priority =
     \<lparr>co_Task = base_SetPriority priority (stamped now), co_CreateObjectInfo = object\<rparr>"

definition InitApprovalReplicatePieceTask ::
  "int64 \<Rightarrow> ObjectInfo option \<Rightarrow> Params option \<Rightarrow> TPriority \<Rightarrow> string \<Rightarrow> GfSpReplicatePieceApprovalTask" where
  "InitApprovalReplicatePieceTask now object params priority askOpAddress =
     \<lparr>ra_Task = base_SetPriority priority (stamped now), ra_ObjectInfo = object, ra_StorageParams = params,
      ra_AskSpOperatorAddress = askOpAddress, ra_AskSignature = [], ra_ApprovedSpEndpoint = [],
      ra_ApprovedSpOperatorAddress = [], ra_ApprovedSignature = [], ra_ApprovedSpApprovalAddress = [],
      ra_ExpiredHeight = 0\<rparr>"

section \<open>Resource estimates\<close>

text \<open>
  The estimate of a replicate task is computed in \<open>float64\<close>. \<open>f64_round\<close> rounds a natural number
  to 53 significant bits, ties to even; \<open>f64_div_ceil a d\<close> is \<open>math.Ceil\<close> of the rounded quotient.
  A result outside \<open>int64\<close> (or a division by zero) converts to the least \<open>int64\<close>, as on amd64.
\<close>

fun bit_len :: "nat \<Rightarrow> nat" where
  "bit_len n = (if n = 0 then 0 else Suc (bit_len (n div 2)))"

declare bit_len.simps [simp del]

definition round_even :: "nat \<Rightarrow> nat \<Rightarrow> nat \<Rightarrow> nat" where
  "round_even q r d = (if 2 * r > d \<or> (2 * r = d \<and> odd q) then q + 1 else q)"

definition f64_round :: "nat \<Rightarrow> nat" where
  "f64_round n = (let e = bit_len n - 53 in round_even (n div 2 ^ e) (n mod 2 ^ e) (2 ^ e) * 2 ^ e)"

definition f64_div_ceil :: "nat \<Rightarrow> nat \<Rightarrow> nat" where
  "f64_div_ceil a d =
     (if a = 0 then 0
      else if a < d then 1
      else if bit_len (a div d) \<le> 53 then
        (let k = 53 - bit_len (a div d);
             q = round_even (a * 2 ^ k div d) (a * 2 ^ k mod d) d
         in (q + 2 ^ k - 1) div 2 ^ k)
      else (let e = bit_len (a div d) - 53; b = d * 2 ^ e in round_even (a div b) (a mod b) b * 2 ^ e))"

definition ec_memory :: "uint64 \<Rightarrow> Params \<Rightarrow> int64" where
  "ec_memory sz params =
     (let d = unat (RedundantDataChunkNum params); p = unat (RedundantParityChunkNum params);
          v = f64_div_ceil (f64_round (f64_round (unat sz) * (d + p))) d
      in if d = 0 \<or> 2 ^ 63 \<le> v then - (2 ^ 63) else int v)"

definition int64_of_u64 :: "uint64 \<Rightarrow> int64" where
  "int64_of_u64 x = i64 (uint x)"

definition with_priority :: "int64 \<Rightarrow> GfSpTask \<Rightarrow> Limit" where
  "with_priority mem m = GfSpLim (GfSpLimit_Add (zero_limit\<lparr>Memory := mem\<rparr>) (LimitEstimateByPriority (base_GetPriority m)))"

definition upload_EstimateLimit :: "ObjectInfo option \<Rightarrow> Params option \<Rightarrow> GfSpTask \<Rightarrow> Limit go" where
  "upload_EstimateLimit object params m =
     (case params of
        None \<Rightarrow> Panics
      | Some p \<Rightarrow> Returns (with_priority
          (if PayloadSize (object_of object) \<ge> MaxSegmentSize p then i64 (int64_of_u64 (MaxSegmentSize p) * 2)
           else i64 (int64_of_u64 (PayloadSize (object_of object)) * 2)) m))"

definition replicate_EstimateLimit :: "GfSpReplicatePieceTask \<Rightarrow> Limit go" where
  "replicate_EstimateLimit m =
     (let ob = object_of (rp_ObjectInfo m) in
      case rp_StorageParams m of
        None \<Rightarrow> Panics
      | Some p \<Rightarrow> Returns (with_priority
          (if RedundancyType ob = REDUNDANCY_REPLICA_TYPE then
             (if PayloadSize ob < MaxPayloadSize p then int64_of_u64 (PayloadSize ob)
              else int64_of_u64 (MaxSegmentSize p))
           else
             (if PayloadSize ob < MaxPayloadSize p then ec_memory (MaxSegmentSize p) p
              else ec_memory (PayloadSize ob) p)) (rp_Task m)))"

definition download_GetSize :: "GfSpDownloadObjectTask \<Rightarrow> int64" where
  "download_GetSize m = (if do_High m < do_Low m then 0 else i64 (do_High m - do_Low m + 1))"

definition piece_GetSize :: "GfSpDownloadPieceTask \<Rightarrow> int64" where
  "piece_GetSize m = int64_of_u64 (dp_PieceLength m)"

definition challenge_EstimateLimit :: "GfSpChallengePieceTask \<Rightarrow> Limit go" where
  "challenge_EstimateLimit m =
     (let payloadSize = PayloadSize (object_of (ch_ObjectInfo m)) in
      case ch_StorageParams m of
        None \<Rightarrow> Panics
      | Some p \<Rightarrow>
          if MaxSegmentSize p = 0 then Panics
          else let segmentCount = payloadSize div MaxSegmentSize p;
                   segmentCount = (if payloadSize mod MaxSegmentSize p \<noteq> 0 then segmentCount + 1 else segmentCount);
                   rest = i64 (i64 (int64_of_u64 segmentCount - 1) * int64_of_u64 (MaxSegmentSize p));
                   last_segment = (ch_SegmentIdx m = ucast (segmentCount - 1));
                   chunks = uint (RedundantDataChunkNum p)
               in bind_go
                    (if ch_RedundancyIdx m < 0 then
                       Returns (if segmentCount = 1 then int64_of_u64 payloadSize
                                else if last_segment then i64 (int64_of_u64 payloadSize - rest)
                                else int64_of_u64 (MaxSegmentSize p))
                     else if segmentCount = 1 then go_div (int64_of_u64 payloadSize) chunks
                     else if last_segment
                     then bind_go (go_div rest chunks) (\<lambda>x. Returns (i64 (int64_of_u64 payloadSize - x)))
                     else go_div (int64_of_u64 (MaxSegmentSize p)) chunks)
                    (\<lambda>memSize. Returns (with_priority memSize (ch_Task m))))"

definition recover_EstimateLimit :: "GfSpRecoverPieceTask \<Rightarrow> Limit go" where
  "recover_EstimateLimit m =
     (case rr_ObjectInfo m of
        None \<Rightarrow> Panics
      | Some ob \<Rightarrow> Returns (with_priority (i64 (2 * int64_of_u64 (PayloadSize ob))) (rr_Task m)))"

fun EstimateLimit :: "Task \<Rightarrow> Limit go" where
  "EstimateLimit (UploadObjectTask m) = upload_EstimateLimit (up_ObjectInfo m) (up_StorageParams m) (up_Task m)"
| "EstimateLimit (ResumableUploadObjectTask m) = upload_EstimateLimit (ru_ObjectInfo m) (ru_StorageParams m) (ru_Task m)"
| "EstimateLimit (ReplicatePieceTask m) = replicate_EstimateLimit m"
| "EstimateLimit (SealObjectTask m) = Returns (with_priority 0 (so_Task m))"
| "EstimateLimit (ReceivePieceTask m) = Returns (with_priority (rv_PieceSize m) (rv_Task m))"
| "EstimateLimit (DownloadObjectTask m) = Returns (with_priority (download_GetSize m) (do_Task m))"
| "EstimateLimit (DownloadPieceTask m) = Returns (with_priority (piece_GetSize m) (dp_Task m))"
| "EstimateLimit (ChallengePieceTask m) = challenge_EstimateLimit m"
| "EstimateLimit (GCObjectTask m) = Returns (LimitEstimateByPriority (base_GetPriority (gc_Task m)))"
| "EstimateLimit (GCZombiePieceTask m) = Returns (LimitEstimateByPriority (base_GetPriority (gz_Task m)))"
| "EstimateLimit (GCMetaTask m) = Returns (LimitEstimateByPriority (base_GetPriority (gm_Task m)))"
| "EstimateLimit (RecoverPieceTask m) = recover_EstimateLimit m"
| "EstimateLimit (CreateBucketApprovalTask m) = Returns (with_priority 0 (cb_Task m))"
| "EstimateLimit (CreateObjectApprovalTask m) = Returns (with_priority 0 (co_Task m))"
| "EstimateLimit (ReplicatePieceApprovalTask m) = Returns (with_priority 0 (ra_Task m))"

section \<open>Lemmas\<close>

lemmas on_task_defs = GfSpUploadObjectTask_on_task_def GfSpResumableUploadObjectTask_on_task_def
  GfSpReplicatePieceTask_on_task_def GfSpSealObjectTask_on_task_def GfSpReceivePieceTask_on_task_def
  GfSpDownloadObjectTask_on_task_def GfSpDownloadPieceTask_on_task_def GfSpChallengePieceTask_on_task_def
  GfSpGCObjectTask_on_task_def GfSpGCZombiePieceTask_on_task_def GfSpGCMetaTask_on_task_def
  GfSpRecoverPieceTask_on_task_def GfSpCreateBucketApprovalTask_on_task_def
  GfSpCreateObjectApprovalTask_on_task_def GfSpReplicatePieceApprovalTask_on_task_def

lemma GetTask_on_task [simp]: "GetTask (on_task f t) = f (GetTask t)"
  by (cases t) (simp_all add: on_task_defs)

lemma Type_on_task [simp]: "Type (on_task f t) = Type t"
  by (cases t) simp_all

lemma GetObjectInfo_on_task [simp]: "GetObjectInfo (on_task f t) = GetObjectInfo t"
  by (cases t) (simp_all add: on_task_defs)

lemma key_defined_on_task [simp]: "key_defined (on_task f t) = key_defined t"
  by (cases t) (simp_all add: on_task_defs)

text \<open>A method of the embedded task that keeps the creation time keeps the key.\<close>

lemma Key_on_task: "CreateTime (f (GetTask t)) = CreateTime (GetTask t) \<Longrightarrow> Key (on_task f t) = Key t"
  by (cases t) (simp_all add: on_task_defs)

lemma Key_setters [simp]:
  "Key (SetAddress a t) = Key t" "Key (SetUpdateTime x t) = Key t" "Key (SetTimeout x t) = Key t"
  "Key (IncRetry t) = Key t" "Key (SetRetry r t) = Key t" "Key (SetMaxRetry r t) = Key t"
  "Key (SetPriority p t) = Key t" "Key (SetError e t) = Key t"
  by (simp_all add: Key_on_task SetAddress_def SetUpdateTime_def SetTimeout_def IncRetry_def SetRetry_def
      SetMaxRetry_def SetPriority_def SetError_def base_SetAddress_def base_SetUpdateTime_def base_SetTimeout_def
      base_IncRetry_def base_SetRetry_def base_SetMaxRetry_def base_SetPriority_def base_SetError_def)

lemma CreateTime_setters [simp]:
  "GetCreateTime (SetAddress a t) = GetCreateTime t" "GetCreateTime (SetUpdateTime x t) = GetCreateTime t"
  "GetCreateTime (IncRetry t) = GetCreateTime t" "GetCreateTime (SetRetry r t) = GetCreateTime t"
  "GetCreateTime (SetError e t) = GetCreateTime t"
  by (simp_all add: GetCreateTime_def SetAddress_def SetUpdateTime_def IncRetry_def SetRetry_def SetError_def
      base_SetAddress_def base_SetUpdateTime_def base_IncRetry_def base_SetRetry_def base_SetError_def)

lemma GetPriority_SetPriority [simp]: "GetPriority (SetPriority p t) = p"
  by (simp add: GetPriority_def SetPriority_def base_GetPriority_def base_SetPriority_def)

lemma id_string_inj [simp]: "id_string a = id_string b \<longleftrightarrow> Id a = Id b"
  by (simp add: id_string_def word_unat_eq_iff)

text \<open>
  The key that the upload, replicate and seal tasks of an object share. It determines the id of the
  object: the id is the part of the key after its last delimiter.
\<close>

definition uploading_key :: "ObjectInfo \<Rightarrow> string" where
  "uploading_key ob = GfSpUploadObjectTaskKey (BucketName ob) (ObjectName ob) (id_string ob)"

lemma last_part_inj:
  assumes "a @ c # x = b @ c # y" "c \<notin> set x" "c \<notin> set y"
  shows "x = y"
proof -
  have "takeWhile ((\<noteq>) c) (rev (a @ c # x)) = rev x" "takeWhile ((\<noteq>) c) (rev (b @ c # y)) = rev y"
    using assms(2,3) by (auto simp: takeWhile_append2 takeWhile_tail)
  with assms(1) show ?thesis by (metis rev_rev_ident)
qed

lemma uploading_key_id: "uploading_key a = uploading_key b \<Longrightarrow> Id a = Id b"
proof -
  assume eq: "uploading_key a = uploading_key b"
  have "uploading_key ob = (''Uploading-bucket:'' @ BucketName ob @ ''-object:'' @ ObjectName ob @ ''-id'')
      @ CHR '':'' # id_string ob" for ob
    by (simp add: uploading_key_def GfSpUploadObjectTaskKey_def Delimiter_def)
  moreover have "CHR '':'' \<notin> set (id_string ob)" for ob
    unfolding id_string_def by (rule show_nat_not_digit) (simp add: is_digit_def)
  ultimately have "id_string a = id_string b"
    using eq last_part_inj [of _ "CHR '':''"] by metis
  then show "Id a = Id b" by simp
qed

lemma shared_keys:
  "Key (UploadObjectTask m) = uploading_key (object_of (up_ObjectInfo m))"
  "Key (ReplicatePieceTask n) = uploading_key (object_of (rp_ObjectInfo n))"
  "Key (SealObjectTask k) = uploading_key (object_of (so_ObjectInfo k))"
  by (simp_all add: uploading_key_def GfSpUploadObjectTaskKey_def GfSpReplicatePieceTaskKey_def
      GfSpSealObjectTaskKey_def Let_def)

text \<open>
  One key per object in the upload pipeline: the upload, replicate and seal tasks of an object
  have the same key, tasks of objects with different ids have different keys, and the key of a
  resumable upload is none of them.
\<close>

theorem pipeline_keys:
  assumes "t \<in> {UploadObjectTask m, ReplicatePieceTask n, SealObjectTask k}"
    "t' \<in> {UploadObjectTask m', ReplicatePieceTask n', SealObjectTask k'}"
    "GetObjectInfo t = Some ob" "GetObjectInfo t' = Some ob'"
  shows "(ob = ob' \<longrightarrow> Key t = Key t') \<and> (Id ob \<noteq> Id ob' \<longrightarrow> Key t \<noteq> Key t')
    \<and> Key t \<noteq> Key (ResumableUploadObjectTask r)"
proof -
  have "Key t = uploading_key ob" "Key t' = uploading_key ob'"
    using assms by (auto simp: shared_keys object_of_def simp del: Key.simps)
  moreover have "uploading_key ob \<noteq> Key (ResumableUploadObjectTask r)"
    by (simp add: uploading_key_def GfSpUploadObjectTaskKey_def GfSpResumableUploadObjectTaskKey_def Let_def)
  ultimately show ?thesis using uploading_key_id by metis
qed

theorem pipeline_keys_witness:
  "Key (UploadObjectTask (InitUploadObjectTask 0 (Some nil_object) None 0))
     \<noteq> Key (SealObjectTask (InitSealObjectTask 0 (Some (nil_object\<lparr>Id := 7\<rparr>)) None 0 [] [] 0 0))"
  using pipeline_keys [of "UploadObjectTask (InitUploadObjectTask 0 (Some nil_object) None 0)" _ undefined undefined
      "SealObjectTask (InitSealObjectTask 0 (Some (nil_object\<lparr>Id := 7\<rparr>)) None 0 [] [] 0 0)" undefined undefined _
      nil_object "nil_object\<lparr>Id := 7\<rparr>"]
  by (simp add: InitUploadObjectTask_def InitSealObjectTask_def nil_object_def del: Key.simps)


end
