(* ===== verification/TQueue.thy ===== *)
theory TQueue
  imports Tasks "HOL-Library.AList"
begin

text \<open>
  Task queues: \<open>base/gfsptqueue/queue.go\<close> (\<open>GfSpTQueue\<close>) and \<open>queue_limit.go\<close>
  (\<open>GfSpTQueueWithLimit\<close>), the sub-key scans and the stub of \<open>core/taskqueue/queue.go\<close>, and
  \<open>SortKeys\<close> of \<open>util/maps\<close>. The two queue types have the same fields and the same bodies except
  for the selection of the next task, so one record serves both.

  The Go map of tasks is an association list; its order stands for the iteration order, which Go
  leaves open: every statement holds for every order. A retire strategy may start goroutines and
  may change the task it is asked about (the queue holds pointers), so it returns its answer, the
  task, and the database updates it has spawned; the queue logs them in \<open>spawned\<close>. Every
  operation takes the current time \<open>now\<close>. The mutex of a queue is held for the whole of every
  operation, so each operation is one step. Metrics are not modelled.
\<close>

section \<open>Queues\<close>

type_synonym 'e strategy = "int64 \<Rightarrow> Task \<Rightarrow> bool \<times> Task \<times> 'e list"

record 'e tqueue =
  q_name :: string
  current :: int64
  tasks :: "(string \<times> Task) list"
  cap :: go_int
  gcFunc :: "'e strategy option"
  filterFunc :: "(int64 \<Rightarrow> Task \<Rightarrow> bool) option"
  spawned :: "'e list"

definition ErrTaskRepeated :: GfSpError where "ErrTaskRepeated = registered (tqueue_errors ! 0)"
definition ErrTaskQueueExceed :: GfSpError where "ErrTaskQueueExceed = registered (tqueue_errors ! 1)"

definition NewGfSpTQueue :: "string \<Rightarrow> go_int \<Rightarrow> 'e tqueue" where
  "NewGfSpTQueue name c = \<lparr>q_name = name, current = 0, tasks = [], cap = c, gcFunc = None,
     filterFunc = None, spawned = []\<rparr>"

definition NewGfSpTQueueWithLimit :: "string \<Rightarrow> go_int \<Rightarrow> 'e tqueue" where
  "NewGfSpTQueueWithLimit name c = \<lparr>q_name = name, current = 0, tasks = [], cap = c, gcFunc = None,
     filterFunc = None, spawned = []\<rparr>"

definition SetFilterTaskStrategy :: "(int64 \<Rightarrow> Task \<Rightarrow> bool) \<Rightarrow> 'e tqueue \<Rightarrow> 'e tqueue" where
  "SetFilterTaskStrategy flt q = q\<lparr>filterFunc := Some flt\<rparr>"

definition SetRetireTaskStrategy :: "'e strategy \<Rightarrow> 'e tqueue \<Rightarrow> 'e tqueue" where
  "SetRetireTaskStrategy retire q = q\<lparr>gcFunc := Some retire\<rparr>"

definition Len :: "'e tqueue \<Rightarrow> go_int" where "Len q = int (length (tasks q))"
definition Cap :: "'e tqueue \<Rightarrow> go_int" where "Cap q = cap q"

section \<open>Operations\<close>

definition tq_has :: "int64 \<Rightarrow> 'e tqueue \<Rightarrow> string \<Rightarrow> bool \<times> 'e tqueue" where
  "tq_has now q key =
     (case map_of (tasks q) key of
        None \<Rightarrow> (False, q)
      | Some task \<Rightarrow>
          (case gcFunc q of
             None \<Rightarrow> (True, q)
           | Some gc \<Rightarrow>
               (case gc now task of
                  (retire, task, evs) \<Rightarrow>
                    let q = q\<lparr>tasks := AList.update key task (tasks q), spawned := spawned q @ evs\<rparr>
                    in if retire then (False, q\<lparr>tasks := AList.delete (Key task) (tasks q)\<rparr>)
                       else (True, q))))"

definition tq_add :: "int64 \<Rightarrow> 'e tqueue \<Rightarrow> Task \<Rightarrow> 'e tqueue" where
  "tq_add now q task =
     (case tq_has now q (Key task) of
        (True, q) \<Rightarrow> q
      | (False, q) \<Rightarrow> q\<lparr>tasks := AList.update (Key task) task (tasks q)\<rparr>)"

definition tq_delete :: "int64 \<Rightarrow> 'e tqueue \<Rightarrow> Task \<Rightarrow> 'e tqueue" where
  "tq_delete now q task =
     (case tq_has now q (Key task) of
        (False, q) \<Rightarrow> q
      | (True, q) \<Rightarrow> q\<lparr>tasks := AList.delete (Key task) (tasks q)\<rparr>)"

definition exceed :: "'e tqueue \<Rightarrow> bool" where
  "exceed q \<longleftrightarrow> int (length (tasks q)) \<ge> cap q"

definition SortKeys :: "(string \<times> 'v) list \<Rightarrow> string list" where
  "SortKeys m = sort (map fst m)"

text \<open>The loop of \<open>Push\<close> that retires one task when the queue is full.\<close>

fun retire_one :: "int64 \<Rightarrow> 'e strategy \<Rightarrow> 'e tqueue \<Rightarrow> string list \<Rightarrow> bool \<times> 'e tqueue" where
  "retire_one now gc q [] = (False, q)"
| "retire_one now gc q (key # keys) =
     (case map_of (tasks q) key of
        None \<Rightarrow> retire_one now gc q keys
      | Some task \<Rightarrow>
          (case gc now task of
             (retire, task, evs) \<Rightarrow>
               let q = q\<lparr>tasks := AList.update key task (tasks q), spawned := spawned q @ evs\<rparr>
               in if retire then (True, tq_delete now q task) else retire_one now gc q keys))"

definition Push :: "int64 \<Rightarrow> 'e tqueue \<Rightarrow> Task \<Rightarrow> GfSpError option \<times> 'e tqueue" where
  "Push now q task =
     (case tq_has now q (Key task) of
        (True, q) \<Rightarrow> (Some ErrTaskRepeated, q)
      | (False, q) \<Rightarrow>
          if exceed q then
            (case gcFunc q of
               None \<Rightarrow> (Some ErrTaskQueueExceed, q)
             | Some gc \<Rightarrow>
                 (case retire_one now gc q (SortKeys (tasks q)) of
                    (False, q) \<Rightarrow> (Some ErrTaskQueueExceed, q)
                  | (True, q) \<Rightarrow> (None, tq_add now q task)))
          else (None, tq_add now q task))"

definition PopByKey :: "int64 \<Rightarrow> 'e tqueue \<Rightarrow> string \<Rightarrow> Task option \<times> 'e tqueue" where
  "PopByKey now q key =
     (case tq_has now q key of
        (False, q) \<Rightarrow> (None, q)
      | (True, q) \<Rightarrow>
          (case map_of (tasks q) key of
             None \<Rightarrow> (None, q)
           | Some task \<Rightarrow> (Some task, tq_delete now q task)))"

definition Has :: "int64 \<Rightarrow> 'e tqueue \<Rightarrow> string \<Rightarrow> bool \<times> 'e tqueue" where
  "Has now q key = tq_has now q key"

text \<open>
  The scan of \<open>top\<close> and \<open>topByLimit\<close>: the entries as the strategy leaves them, the keys to be
  retired, the candidates, and the spawned updates. The candidates are the tasks that are not
  retired and satisfy \<open>ok\<close>.
\<close>

fun scan_tasks :: "int64 \<Rightarrow> 'e strategy option \<Rightarrow> (Task \<Rightarrow> bool) \<Rightarrow> (string \<times> Task) list
    \<Rightarrow> (string \<times> Task) list \<times> string list \<times> Task list \<times> 'e list" where
  "scan_tasks now gc ok [] = ([], [], [], [])"
| "scan_tasks now gc ok ((k, task) # es) =
     (let (retire, task, evs) = (case gc of None \<Rightarrow> (False, task, []) | Some g \<Rightarrow> g now task);
          (es, gcs, backups, evs') = scan_tasks now gc ok es
      in ((k, task) # es,
          if retire then Key task # gcs else gcs,
          if \<not> retire \<and> ok task then task # backups else backups,
          evs @ evs'))"

definition select_top :: "int64 \<Rightarrow> Task list \<Rightarrow> nat" where
  "select_top cur sorted_tasks =
     (let index = sort_search (length sorted_tasks) (\<lambda>i. GetCreateTime (sorted_tasks ! i) > cur)
      in if index = length sorted_tasks then 0 else index)"

definition take_top :: "int64 \<Rightarrow> (Task \<Rightarrow> bool) \<Rightarrow> 'e tqueue \<Rightarrow> Task option \<times> 'e tqueue" where
  "take_top now ok q =
     (if tasks q = [] then (None, q)
      else case scan_tasks now (gcFunc q) ok (tasks q) of
             (es, gcs, backups, evs) \<Rightarrow>
               let q = q\<lparr>tasks := filter (\<lambda>(k, _). k \<notin> set gcs) es, spawned := spawned q @ evs\<rparr>
               in if backups = [] then (None, q)
                  else let sorted_tasks = sort_key GetCreateTime backups;
                           task = sorted_tasks ! select_top (current q) sorted_tasks
                       in (Some task, q\<lparr>current := GetCreateTime task\<rparr>))"

definition passes :: "int64 \<Rightarrow> 'e tqueue \<Rightarrow> Task \<Rightarrow> bool" where
  "passes now q task = (case filterFunc q of None \<Rightarrow> True | Some f \<Rightarrow> f now task)"

definition tq_top :: "int64 \<Rightarrow> 'e tqueue \<Rightarrow> Task option \<times> 'e tqueue" where
  "tq_top now q = take_top now (passes now q) q"

definition Top :: "int64 \<Rightarrow> 'e tqueue \<Rightarrow> Task option \<times> 'e tqueue" where
  "Top now q = tq_top now q"

definition Pop :: "int64 \<Rightarrow> 'e tqueue \<Rightarrow> Task option \<times> 'e tqueue" where
  "Pop now q =
     (case tq_top now q of
        (None, q) \<Rightarrow> (None, q)
      | (Some task, q) \<Rightarrow> (Some task, tq_delete now q task))"

text \<open>
  \<open>topByLimit\<close> estimates every task that it does not retire, so a task whose estimate panics makes
  the call panic.
\<close>

definition fits :: "Limit \<Rightarrow> Task \<Rightarrow> bool" where
  "fits lim task = (case EstimateLimit task of Panics \<Rightarrow> False | Returns l \<Rightarrow> NotLess lim l)"

definition estimate_panics :: "int64 \<Rightarrow> 'e tqueue \<Rightarrow> bool" where
  "estimate_panics now q =
     list_ex (\<lambda>(k, task). case (case gcFunc q of None \<Rightarrow> (False, task, []) | Some g \<Rightarrow> g now task) of
        (retire, task, evs) \<Rightarrow> \<not> retire \<and> EstimateLimit task = Panics) (tasks q)"

definition topByLimit :: "int64 \<Rightarrow> 'e tqueue \<Rightarrow> Limit \<Rightarrow> (Task option \<times> 'e tqueue) go" where
  "topByLimit now q lim =
     (if estimate_panics now q then Panics
      else Returns (take_top now (\<lambda>task. fits lim task \<and> passes now q task) q))"

definition TopByLimit :: "int64 \<Rightarrow> 'e tqueue \<Rightarrow> Limit \<Rightarrow> (Task option \<times> 'e tqueue) go" where
  "TopByLimit now q lim = topByLimit now q lim"

definition PopByLimit :: "int64 \<Rightarrow> 'e tqueue \<Rightarrow> Limit \<Rightarrow> (Task option \<times> 'e tqueue) go" where
  "PopByLimit now q lim =
     bind_go (topByLimit now q lim) (\<lambda>r. Returns
       (case r of (None, q) \<Rightarrow> (None, q) | (Some task, q) \<Rightarrow> (Some task, tq_delete now q task)))"

definition ScanTask :: "(Task \<Rightarrow> 's \<Rightarrow> 's) \<Rightarrow> 'e tqueue \<Rightarrow> 's \<Rightarrow> 's" where
  "ScanTask scan q s = fold scan (map snd (tasks q)) s"

definition ScanTQueueBySubKey :: "'e tqueue \<Rightarrow> string \<Rightarrow> Task list" where
  "ScanTQueueBySubKey q subKey =
     ScanTask (\<lambda>t ts. if str_contains (Key t) subKey then ts @ [t] else ts) q []"

definition ScanTQueueWithLimitBySubKey :: "'e tqueue \<Rightarrow> string \<Rightarrow> Task list" where
  "ScanTQueueWithLimitBySubKey q subKey =
     ScanTask (\<lambda>t ts. if str_contains (Key t) subKey then ts @ [t] else ts) q []"


section \<open>Queue contents\<close>

definition lookup :: "'e tqueue \<Rightarrow> string \<Rightarrow> Task option" where
  "lookup q = map_of (tasks q)"

definition no_strategy :: "'e strategy" where
  "no_strategy now t = (False, t, [])"

definition gc_of :: "'e tqueue \<Rightarrow> 'e strategy" where
  "gc_of q = (case gcFunc q of None \<Rightarrow> no_strategy | Some g \<Rightarrow> g)"

definition wf_queue :: "(Task \<Rightarrow> bool) \<Rightarrow> 'e tqueue \<Rightarrow> bool" where
  "wf_queue good q \<longleftrightarrow> distinct (map fst (tasks q)) \<and> (\<forall>(k, t) \<in> set (tasks q). Key t = k \<and> good t)"

definition within_cap :: "'e tqueue \<Rightarrow> bool" where
  "within_cap q \<longleftrightarrow> int (length (tasks q)) \<le> max 0 (cap q)"

text \<open>What no operation changes.\<close>

definition same_setup :: "'e tqueue \<Rightarrow> 'e tqueue \<Rightarrow> bool" where
  "same_setup q q' \<longleftrightarrow> q_name q' = q_name q \<and> cap q' = cap q \<and> gcFunc q' = gcFunc q \<and> filterFunc q' = filterFunc q"

lemma same_setup_refl [simp]: "same_setup q q"
  by (simp add: same_setup_def)

lemma same_setup_trans: "same_setup q q' \<Longrightarrow> same_setup q' q'' \<Longrightarrow> same_setup q q''"
  by (simp add: same_setup_def)

lemma same_setup_gc: "same_setup q q' \<Longrightarrow> gc_of q' = gc_of q"
  by (simp add: same_setup_def gc_of_def)

lemma wf_queue_iff:
  "wf_queue good q \<longleftrightarrow> distinct (map fst (tasks q)) \<and> (\<forall>k t. lookup q k = Some t \<longrightarrow> Key t = k \<and> good t)"
  by (auto simp: wf_queue_def lookup_def map_of_eq_Some_iff)

lemma wf_queueD: "wf_queue good q \<Longrightarrow> lookup q k = Some t \<Longrightarrow> Key t = k \<and> good t"
  by (simp add: wf_queue_iff)

lemma finite_dom_lookup [simp]: "finite (dom (lookup q))"
  by (simp add: lookup_def finite_dom_map_of)

lemma length_tasks: "wf_queue good q \<Longrightarrow> length (tasks q) = card (dom (lookup q))"
proof -
  assume "wf_queue good q"
  then have "distinct (map fst (tasks q))" by (simp add: wf_queue_def)
  then have "length (tasks q) = card (fst ` set (tasks q))" by (metis distinct_card length_map set_map)
  then show ?thesis by (simp add: lookup_def dom_map_of_conv_image_fst)
qed

lemma wf_queue_update:
  assumes "wf_queue good q" "Key t = k" "good t"
  shows "wf_queue good (q\<lparr>tasks := AList.update k t (tasks q), spawned := e\<rparr>)"
    "lookup (q\<lparr>tasks := AList.update k t (tasks q), spawned := e\<rparr>) = (lookup q)(k \<mapsto> t)"
proof -
  show eq: "lookup (q\<lparr>tasks := AList.update k t (tasks q), spawned := e\<rparr>) = (lookup q)(k \<mapsto> t)"
    by (simp add: lookup_def update_conv')
  show "wf_queue good (q\<lparr>tasks := AList.update k t (tasks q), spawned := e\<rparr>)"
    using assms by (simp add: wf_queue_iff [of good "q\<lparr>tasks := AList.update k t (tasks q), spawned := e\<rparr>"] eq
        distinct_update wf_queue_iff [of good q])
qed

lemma wf_queue_delete:
  assumes "wf_queue good q"
  shows "wf_queue good (q\<lparr>tasks := AList.delete k (tasks q)\<rparr>)"
    "lookup (q\<lparr>tasks := AList.delete k (tasks q)\<rparr>) = (lookup q)(k := None)"
proof -
  show eq: "lookup (q\<lparr>tasks := AList.delete k (tasks q)\<rparr>) = (lookup q)(k := None)"
    by (simp add: lookup_def AList.delete_conv')
  show "wf_queue good (q\<lparr>tasks := AList.delete k (tasks q)\<rparr>)"
    using assms by (simp add: wf_queue_iff [of good "q\<lparr>tasks := AList.delete k (tasks q)\<rparr>"] eq
        AList.distinct_delete wf_queue_iff [of good q])
qed

text \<open>What asking the strategy about one entry does to the contents.\<close>

definition age :: "'e strategy \<Rightarrow> int64 \<Rightarrow> string \<Rightarrow> (string \<rightharpoonup> Task) \<Rightarrow> (string \<rightharpoonup> Task)" where
  "age g now k m =
     (case m k of None \<Rightarrow> m
      | Some t \<Rightarrow> (case g now t of (r, t', _) \<Rightarrow> m(k := if r then None else Some t')))"

definition retirable :: "'e strategy \<Rightarrow> int64 \<Rightarrow> (string \<rightharpoonup> Task) \<Rightarrow> string \<Rightarrow> bool" where
  "retirable g now m k \<longleftrightarrow> (\<exists>t. m k = Some t \<and> fst (g now t))"

lemma age_other [simp]: "k' \<noteq> k \<Longrightarrow> age g now k m k' = m k'"
  by (auto simp: age_def split: option.splits prod.splits)

lemma age_drop [simp]: "(age g now k m)(k := x) = m(k := x)"
  by (auto simp: age_def split: option.splits prod.splits)

lemma age_None_iff: "age g now k m k = None \<longleftrightarrow> m k = None \<or> retirable g now m k"
  by (auto simp: age_def retirable_def split: option.splits prod.splits)

lemma age_gone: "age g now k m k = None \<Longrightarrow> age g now k m = m(k := None)"
  by (auto simp: age_def split: option.splits prod.splits if_splits)

lemma dom_age: "dom (age g now k m) = (if retirable g now m k then dom m - {k} else dom m)"
  by (auto simp: age_def retirable_def split: option.splits prod.splits if_splits)

text \<open>
  What a call of \<open>Push\<close> is to answer and to leave behind, given the contents of the queue. A live task
  under the key of the new one refuses it. An entry of this key that the strategy retires is gone, and the new
  task is stored when there is room beside the other entries. Otherwise the strategy is asked about the other
  entries in the order of their keys, up to the first it retires: that one makes room for the
  new task, and when there is none the task is refused.
\<close>

definition push_spec :: "'e strategy \<Rightarrow> int64 \<Rightarrow> go_int \<Rightarrow> (string \<rightharpoonup> Task) \<Rightarrow> Task \<Rightarrow> GfSpError option \<times> (string \<rightharpoonup> Task)" where
  "push_spec g now capacity m t =
     (let others = m(Key t := None); retired = {k. retirable g now others k}
      in if m (Key t) \<noteq> None \<and> \<not> retirable g now m (Key t) then (Some ErrTaskRepeated, age g now (Key t) m)
         else if int (card (dom others)) < capacity then (None, others(Key t \<mapsto> t))
         else if retired = {} then (Some ErrTaskQueueExceed, \<lambda>k. age g now k others k)
         else (None, (\<lambda>k. if k < Min retired then age g now k others k else if k = Min retired then None else others k)(Key t \<mapsto> t)))"

text \<open>What a scan of the whole queue does to the contents.\<close>

definition age_all :: "'e strategy \<Rightarrow> int64 \<Rightarrow> (string \<rightharpoonup> Task) \<Rightarrow> (string \<rightharpoonup> Task)" where
  "age_all g now m =
     (\<lambda>k. case m k of None \<Rightarrow> None
          | Some t \<Rightarrow> (case g now t of (r, t', _) \<Rightarrow> if r then None else Some t'))"

text \<open>
  The round robin over creation times: the least creation time after \<open>cur\<close> among the eligible
  tasks, or the least of all when none is later.
\<close>

definition next_up :: "int64 \<Rightarrow> Task set \<Rightarrow> Task \<Rightarrow> bool" where
  "next_up cur elig t \<longleftrightarrow> t \<in> elig \<and>
     (if \<exists>u \<in> elig. cur < GetCreateTime u
      then cur < GetCreateTime t \<and> (\<forall>u \<in> elig. cur < GetCreateTime u \<longrightarrow> GetCreateTime t \<le> GetCreateTime u)
      else \<forall>u \<in> elig. GetCreateTime t \<le> GetCreateTime u)"

lemma select_top_next_up:
  assumes "bk \<noteq> []"
  shows "next_up cur (set bk) (sort_key GetCreateTime bk ! select_top cur (sort_key GetCreateTime bk))"
proof -
  let ?s = "sort_key GetCreateTime bk"
  let ?f = "\<lambda>i. cur < GetCreateTime (?s ! i)"
  let ?n = "length ?s"
  have srt: "GetCreateTime (?s ! i) \<le> GetCreateTime (?s ! j)" if "i \<le> j" "j < ?n" for i j
    using that sorted_nth_mono [of "map GetCreateTime ?s" i j] by simp
  have mono: "?f b" if "a \<le> b" "b < ?n" "?f a" for a b using srt [OF that(1,2)] that(3) by simp
  let ?i = "sort_search ?n ?f"
  have sp: "?i \<le> ?n" "\<And>k. k < ?i \<Longrightarrow> \<not> ?f k" "\<And>k. ?i \<le> k \<Longrightarrow> k < ?n \<Longrightarrow> ?f k"
    using sort_search_spec [of ?n ?f] mono by blast+
  have elem: "\<exists>i < ?n. ?s ! i = u" if "u \<in> set bk" for u
    using that in_set_conv_nth [of u ?s] by simp
  have n: "0 < ?n" using assms by simp
  show ?thesis
  proof (cases "?i = ?n")
    case True
    have none: "\<not> cur < GetCreateTime u" if "u \<in> set bk" for u
      using elem [OF that] sp(2) True by auto
    have "?s ! 0 \<in> set bk" using n nth_mem [of 0 ?s] by (simp only: set_sort)
    moreover have "GetCreateTime (?s ! 0) \<le> GetCreateTime u" if "u \<in> set bk" for u
      using elem [OF that] srt [of 0] by auto
    ultimately show ?thesis using True none by (simp add: next_up_def select_top_def Let_def)
  next
    case False
    then have i: "?i < ?n" using sp(1) by simp
    have fi: "?f ?i" using sp(3) [of ?i] i by simp
    have least: "GetCreateTime (?s ! ?i) \<le> GetCreateTime u" if u: "u \<in> set bk" "cur < GetCreateTime u" for u
    proof -
      obtain j where j: "j < ?n" "?s ! j = u" using elem [OF u(1)] by blast
      then have "?i \<le> j" using sp(2) [of j] u(2) by (meson not_le)
      then show ?thesis using srt [of ?i j] j by simp
    qed
    have "?s ! ?i \<in> set bk" using i nth_mem [of ?i ?s] by (simp only: set_sort)
    then show ?thesis using False fi least by (auto simp: next_up_def select_top_def Let_def)
  qed
qed

section \<open>The contract of a retire strategy and what queues make of it\<close>

text \<open>
  A strategy may not change the key of a task, nor leave the class \<open>good\<close> of tasks that the queue
  is meant for.
\<close>

locale retire_strategy =
  fixes g :: "'e strategy" and good :: "Task \<Rightarrow> bool"
  assumes keeps_key: "g now t = (r, t', evs) \<Longrightarrow> Key t' = Key t"
    and keeps_good: "good t \<Longrightarrow> g now t = (r, t', evs) \<Longrightarrow> good t'"
begin

lemma has_spec:
  assumes "gc_of q = g" "wf_queue good q"
  obtains q' where "tq_has now q k = (lookup q' k \<noteq> None, q')" "wf_queue good q'" "same_setup q q'"
    "current q' = current q" "lookup q' = age g now k (lookup q)"
proof (cases "lookup q k")
  case None
  then have "tq_has now q k = (False, q)" by (simp add: tq_has_def lookup_def)
  then show thesis using that [of q] None assms by (simp add: age_def)
next
  case (Some t)
  obtain r t' evs where g: "g now t = (r, t', evs)" by (metis prod_cases3)
  have t: "Key t' = k" "good t'"
    using wf_queueD [OF assms(2) Some] keeps_key [OF g] keeps_good [OF _ g] by auto
  let ?u = "q\<lparr>tasks := AList.update k t' (tasks q), spawned := spawned q @ evs\<rparr>"
  let ?d = "?u\<lparr>tasks := AList.delete (Key t') (tasks ?u)\<rparr>"
  have trivial: "?u = q" if "gcFunc q = None"
  proof -
    have "t' = t \<and> evs = []" using that g assms(1) by (auto simp: gc_of_def no_strategy_def)
    moreover from this Some have "AList.update k t' (tasks q) = tasks q"
      by (intro update_triv) (simp add: lookup_def)
    ultimately show ?thesis by simp
  qed
  have r: "\<not> r" if "gcFunc q = None"
    using that g assms(1) by (auto simp: gc_of_def no_strategy_def)
  have has: "tq_has now q k = (if r then (False, ?d) else (True, ?u))"
  proof (cases "gcFunc q")
    case None
    then show ?thesis using Some trivial r by (simp add: tq_has_def lookup_def)
  next
    case (Some g')
    then have "g' = g" using assms(1) by (simp add: gc_of_def)
    with Some \<open>lookup q k = Some t\<close> g show ?thesis by (simp add: tq_has_def lookup_def Let_def)
  qed
  have u: "wf_queue good ?u" "lookup ?u = (lookup q)(k \<mapsto> t')"
    using wf_queue_update [OF assms(2) t] by simp_all
  have d: "wf_queue good ?d" "lookup ?d = (lookup q)(k := None)"
    using wf_queue_delete [OF u(1), of "Key t'"] u(2) t(1) by simp_all
  show thesis
  proof (cases r)
    case True
    then show thesis
      using has d Some g by (intro that [of ?d]) (simp_all add: age_def same_setup_def)
  next
    case False
    then show thesis
      using has u Some g by (intro that [of ?u]) (simp_all add: age_def same_setup_def)
  qed
qed

lemma delete_spec:
  assumes "gc_of q = g" "wf_queue good q"
  shows "wf_queue good (tq_delete now q t)" "same_setup q (tq_delete now q t)"
    "current (tq_delete now q t) = current q" "lookup (tq_delete now q t) = (lookup q)(Key t := None)"
proof -
  obtain q' where q': "tq_has now q (Key t) = (lookup q' (Key t) \<noteq> None, q')" "wf_queue good q'" "same_setup q q'"
    "current q' = current q" "lookup q' = age g now (Key t) (lookup q)"
    using has_spec [OF assms] by blast
  let ?d = "q'\<lparr>tasks := AList.delete (Key t) (tasks q')\<rparr>"
  have d: "wf_queue good ?d" "lookup ?d = (lookup q)(Key t := None)"
    using wf_queue_delete [OF q'(2), of "Key t"] q'(5) by simp_all
  have "lookup q' = (lookup q)(Key t := None)" if "lookup q' (Key t) = None"
    using age_gone [of g now "Key t" "lookup q"] that q'(5) by simp
  then show "wf_queue good (tq_delete now q t)" "same_setup q (tq_delete now q t)"
    "current (tq_delete now q t) = current q" "lookup (tq_delete now q t) = (lookup q)(Key t := None)"
    using q' d by (auto simp: tq_delete_def same_setup_def split: bool.splits)
qed

lemma add_spec:
  assumes "gc_of q = g" "wf_queue good q" "lookup q (Key t) = None" "good t"
  shows "wf_queue good (tq_add now q t)" "same_setup q (tq_add now q t)"
    "current (tq_add now q t) = current q" "lookup (tq_add now q t) = (lookup q)(Key t \<mapsto> t)"
proof -
  have "tq_has now q (Key t) = (False, q)" using assms(3) by (simp add: tq_has_def lookup_def)
  then have "tq_add now q t = q\<lparr>tasks := AList.update (Key t) t (tasks q), spawned := spawned q\<rparr>"
    by (simp add: tq_add_def)
  then show "wf_queue good (tq_add now q t)" "same_setup q (tq_add now q t)"
    "current (tq_add now q t) = current q" "lookup (tq_add now q t) = (lookup q)(Key t \<mapsto> t)"
    using wf_queue_update [OF assms(2) refl assms(4), of "spawned q"] by (simp_all add: same_setup_def)
qed

lemma PopByKey_spec:
  assumes "gc_of q = g" "wf_queue good q"
  obtains q' where "PopByKey now q k = (age g now k (lookup q) k, q')" "wf_queue good q'" "same_setup q q'"
    "current q' = current q" "lookup q' = (lookup q)(k := None)"
proof -
  obtain q1 where q1: "tq_has now q k = (lookup q1 k \<noteq> None, q1)" "wf_queue good q1" "same_setup q q1"
    "current q1 = current q" "lookup q1 = age g now k (lookup q)"
    using has_spec [OF assms] by blast
  show thesis
  proof (cases "lookup q1 k")
    case None
    then have "lookup q1 = (lookup q)(k := None)" using age_gone [of g now k "lookup q"] q1(5) by simp
    then show thesis using None q1 by (intro that [of q1]) (simp_all add: PopByKey_def)
  next
    case (Some t)
    have k: "Key t = k" using wf_queueD [OF q1(2) Some] by simp
    have gc: "gc_of q1 = g" using same_setup_gc [OF q1(3)] assms(1) by simp
    note d = delete_spec [OF gc q1(2), of now t]
    have "PopByKey now q k = (Some t, tq_delete now q1 t)"
      using Some q1(1) by (simp add: PopByKey_def lookup_def)
    then show thesis
      using Some q1 d k same_setup_trans [OF q1(3) d(2)] by (intro that [of "tq_delete now q1 t"]) simp_all
  qed
qed

lemma retire_one_spec:
  assumes "gc_of q = g" "wf_queue good q" "distinct keys"
  obtains c q' where "retire_one now g q keys = (c, q')" "wf_queue good q'" "same_setup q q'" "current q' = current q"
    "c \<Longrightarrow> \<exists>k \<in> set keys. retirable g now (lookup q) k \<and> dom (lookup q') = dom (lookup q) - {k}"
    "\<not> c \<Longrightarrow> dom (lookup q') = dom (lookup q)"
  using assms
proof (induction keys arbitrary: q thesis)
  case Nil
  show ?case by (rule Nil.prems(1) [of False q]) (use Nil.prems(3) in simp_all)
next
  case (Cons key keys)
  show ?case
  proof (cases "lookup q key")
    case None
    then have eq: "retire_one now g q (key # keys) = retire_one now g q keys" by (simp add: lookup_def)
    have "distinct keys" using Cons.prems(4) by simp
    from Cons.IH [OF _ Cons.prems(2,3) this] obtain c q' where
      "retire_one now g q keys = (c, q')" "wf_queue good q'" "same_setup q q'" "current q' = current q"
      "c \<Longrightarrow> \<exists>k \<in> set keys. retirable g now (lookup q) k \<and> dom (lookup q') = dom (lookup q) - {k}"
      "\<not> c \<Longrightarrow> dom (lookup q') = dom (lookup q)" by blast
    then show ?thesis using Cons.prems(1) [of c q'] eq by auto
  next
    case (Some t)
    obtain r t' evs where gt: "g now t = (r, t', evs)" by (metis prod_cases3)
    have t: "Key t' = key" "good t'"
      using wf_queueD [OF Cons.prems(3) Some] keeps_key [OF gt] keeps_good [OF _ gt] by auto
    let ?u = "q\<lparr>tasks := AList.update key t' (tasks q), spawned := spawned q @ evs\<rparr>"
    have eq: "retire_one now g q (key # keys) = (if r then (True, tq_delete now ?u t') else retire_one now g ?u keys)"
      using Some gt by (simp add: lookup_def Let_def)
    have u: "wf_queue good ?u" "lookup ?u = (lookup q)(key \<mapsto> t')" "same_setup q ?u" "gc_of ?u = g" "current ?u = current q"
      using wf_queue_update [OF Cons.prems(3) t] Cons.prems(2) by (simp_all add: same_setup_def gc_of_def)
    have dom: "dom (lookup ?u) = dom (lookup q)" using u(2) Some by auto
    show ?thesis
    proof (cases r)
      case True
      note d = delete_spec [OF u(4,1), of now t']
      have "retirable g now (lookup q) key" using True gt Some by (simp add: retirable_def)
      moreover have "dom (lookup (tq_delete now ?u t')) = dom (lookup q) - {key}" using d(4) dom t(1) by simp
      ultimately have ex: "\<exists>k \<in> set (key # keys). retirable g now (lookup q) k
          \<and> dom (lookup (tq_delete now ?u t')) = dom (lookup q) - {k}" by auto
      show ?thesis
        by (rule Cons.prems(1) [of True "tq_delete now ?u t'"])
           (use True eq d(1,3) u(5) ex same_setup_trans [OF u(3) d(2)] in simp_all)
    next
      case False
      obtain c q' where ih: "retire_one now g ?u keys = (c, q')" "wf_queue good q'" "same_setup ?u q'" "current q' = current ?u"
        "c \<Longrightarrow> \<exists>k \<in> set keys. retirable g now (lookup ?u) k \<and> dom (lookup q') = dom (lookup ?u) - {k}"
        "\<not> c \<Longrightarrow> dom (lookup q') = dom (lookup ?u)"
        using Cons.IH [OF _ u(4,1)] Cons.prems(4) by auto
      have earlier: "retirable g now (lookup ?u) k \<Longrightarrow> k \<noteq> key \<Longrightarrow> retirable g now (lookup q) k" for k
        using u(2) by (simp add: retirable_def)
      have ex: "\<exists>k \<in> set (key # keys). retirable g now (lookup q) k \<and> dom (lookup q') = dom (lookup q) - {k}" if c: "c"
      proof -
        obtain k where k: "k \<in> set keys" "retirable g now (lookup ?u) k" "dom (lookup q') = dom (lookup ?u) - {k}"
          using ih(5) [OF c] by blast
        then have "retirable g now (lookup q) k" using Cons.prems(4) by (intro earlier) auto
        with k dom show ?thesis by auto
      qed
      show ?thesis
        by (rule Cons.prems(1) [of c q'])
           (use eq False ih(1,2,4,6) u(5) ex dom same_setup_trans [OF u(3) ih(3)] in simp_all)
    qed
  qed
qed

lemma Push_spec:
  assumes "gc_of q = g" "wf_queue good q" "good t"
  obtains err q' where "Push now q t = (err, q')" "wf_queue good q'" "same_setup q q'" "current q' = current q"
    "within_cap q \<longrightarrow> within_cap q'"
    "err = None \<longrightarrow> lookup q' (Key t) = Some t \<and> dom (lookup q') \<subseteq> insert (Key t) (dom (lookup q))
       \<and> (\<forall>k \<in> dom (lookup q) - dom (lookup q'). retirable g now (lookup q) k)"
    "\<forall>e. err = Some e \<longrightarrow> e = ErrTaskRepeated \<and> Key t \<in> dom (lookup q) \<and> dom (lookup q') = dom (lookup q)
       \<or> e = ErrTaskQueueExceed \<and> Key t \<notin> dom (lookup q') \<and> dom (lookup q') = dom (lookup q) - {Key t}
         \<and> cap q \<le> int (length (tasks q'))"
proof -
  obtain q1 where q1: "tq_has now q (Key t) = (lookup q1 (Key t) \<noteq> None, q1)" "wf_queue good q1" "same_setup q q1"
    "current q1 = current q" "lookup q1 = age g now (Key t) (lookup q)"
    using has_spec [OF assms(1,2)] by blast
  have gc1: "gc_of q1 = g" using same_setup_gc [OF q1(3)] assms(1) by simp
  have cap1: "cap q1 = cap q" using q1(3) by (simp add: same_setup_def)
  have le1: "length (tasks q1) \<le> length (tasks q)"
    unfolding length_tasks [OF q1(2)] length_tasks [OF assms(2)] q1(5)
    by (intro card_mono) (auto simp: dom_age)
  show thesis
  proof (cases "lookup q1 (Key t)")
    case (Some t0)
    then have "Push now q t = (Some ErrTaskRepeated, q1)" using q1(1) by (simp add: Push_def)
    moreover have "\<not> retirable g now (lookup q) (Key t)" "Key t \<in> dom (lookup q)"
      using Some q1(5) age_None_iff [of g now "Key t" "lookup q"] by auto
    ultimately show thesis
      using q1 le1 cap1 by (intro that [of "Some ErrTaskRepeated" q1]) (auto simp: within_cap_def dom_age)
  next
    case None
    have old: "dom (lookup q1) \<subseteq> dom (lookup q)" "dom (lookup q1) = dom (lookup q) - {Key t}"
      using None q1(5) age_None_iff [of g now "Key t" "lookup q"] by (auto simp: dom_age split: if_splits)
    have drop1: "retirable g now (lookup q) k" if "k \<in> dom (lookup q)" "k \<notin> dom (lookup q1)" for k
      using that None q1(5) by (auto simp: dom_age split: if_splits)
    show thesis
    proof (cases "exceed q1")
      case False
      then have push: "Push now q t = (None, tq_add now q1 t)" using None q1(1) by (simp add: Push_def)
      note a = add_spec [OF gc1 q1(2) None assms(3), of now]
      have "length (tasks (tq_add now q1 t)) = Suc (length (tasks q1))"
        unfolding length_tasks [OF a(1)] length_tasks [OF q1(2)] a(4) using None by (simp add: domIff)
      with False have "within_cap (tq_add now q1 t)"
        using a(2) by (simp add: within_cap_def exceed_def same_setup_def)
      then show thesis
        using push a q1 drop1 old same_setup_trans [OF q1(3) a(2)]
        by (intro that [of None "tq_add now q1 t"]) auto
    next
      case True
      show thesis
      proof (cases "gcFunc q1")
        case nog: None
        then have "Push now q t = (Some ErrTaskQueueExceed, q1)" using True None q1(1) by (simp add: Push_def)
        then show thesis
          using q1 le1 cap1 old None True
          by (intro that [of "Some ErrTaskQueueExceed" q1]) (auto simp: within_cap_def exceed_def)
      next
        case (Some g')
        then have g': "g' = g" using gc1 by (simp add: gc_of_def)
        have keys: "distinct (SortKeys (tasks q1))" using q1(2) by (simp add: SortKeys_def wf_queue_def)
        obtain c q2 where q2: "retire_one now g q1 (SortKeys (tasks q1)) = (c, q2)" "wf_queue good q2" "same_setup q1 q2"
          "current q2 = current q1"
          "c \<Longrightarrow> \<exists>k \<in> set (SortKeys (tasks q1)). retirable g now (lookup q1) k \<and> dom (lookup q2) = dom (lookup q1) - {k}"
          "\<not> c \<Longrightarrow> dom (lookup q2) = dom (lookup q1)"
          using retire_one_spec [OF gc1 q1(2) keys] by blast
        have gc2: "gc_of q2 = g" using same_setup_gc [OF q2(3)] gc1 by simp
        show thesis
        proof (cases c)
          case F: False
          then have "Push now q t = (Some ErrTaskQueueExceed, q2)"
            using True None q1(1) Some g' q2(1) by (simp add: Push_def)
          moreover have "length (tasks q2) = length (tasks q1)"
            unfolding length_tasks [OF q2(2)] length_tasks [OF q1(2)] using q2(6) F by simp
          ultimately show thesis
            using q1 q2 F old None True cap1 le1 same_setup_trans [OF q1(3) q2(3)]
            by (intro that [of "Some ErrTaskQueueExceed" q2]) (auto simp: within_cap_def exceed_def same_setup_def)
        next
          case T: True
          then have push: "Push now q t = (None, tq_add now q2 t)"
            using True None q1(1) Some g' q2(1) by (simp add: Push_def)
          obtain k where k: "retirable g now (lookup q1) k" "dom (lookup q2) = dom (lookup q1) - {k}"
            using q2(5) T by blast
          have n2: "lookup q2 (Key t) = None" using k(2) None by (auto simp: domIff)
          have kd: "k \<in> dom (lookup q1)" using k(1) by (auto simp: retirable_def)
          have kq: "retirable g now (lookup q) k"
            using k(1) kd None q1(5) by (cases "k = Key t") (auto simp: retirable_def)
          note a = add_spec [OF gc2 q2(2) n2 assms(3), of now]
          have "card (dom (lookup q2)) = card (dom (lookup q1)) - 1" "0 < card (dom (lookup q1))"
            using k(2) kd by (auto simp: card_gt_0_iff)
          then have "length (tasks (tq_add now q2 t)) = length (tasks q1)"
            unfolding length_tasks [OF a(1)] length_tasks [OF q1(2)] a(4) using n2 by (simp add: domIff)
          then have "within_cap q \<Longrightarrow> within_cap (tq_add now q2 t)"
            using le1 a(2) q2(3) cap1 by (simp add: within_cap_def same_setup_def)
          moreover have "\<forall>k \<in> dom (lookup q) - dom (lookup (tq_add now q2 t)). retirable g now (lookup q) k"
          proof
            fix x assume x: "x \<in> dom (lookup q) - dom (lookup (tq_add now q2 t))"
            then have "x \<notin> dom (lookup q2)" using a(4) by auto
            then show "retirable g now (lookup q) x" using k(2) kq drop1 [of x] x by auto
          qed
          moreover have "dom (lookup (tq_add now q2 t)) \<subseteq> insert (Key t) (dom (lookup q))"
            using a(4) k(2) old by auto
          ultimately show thesis
            using push a q1 q2 same_setup_trans [OF q1(3) same_setup_trans [OF q2(3) a(2)]]
            by (intro that [of None "tq_add now q2 t"]) auto
        qed
      qed
    qed
  qed
qed

lemma retire_one_exact:
  assumes "gc_of q = g" "wf_queue good q" "sorted_wrt (<) keys" "R = {k \<in> set keys. retirable g now (lookup q) k}"
  obtains q' where "retire_one now g q keys = (R \<noteq> {}, q')" "wf_queue good q'" "same_setup q q'"
    "lookup q' = (\<lambda>x. if x \<notin> set keys then lookup q x else if R = {} \<or> x < Min R then age g now x (lookup q) x
       else if x = Min R then None else lookup q x)"
  using assms
proof (induction keys arbitrary: q R thesis)
  case Nil
  show ?case by (rule Nil.prems(1) [of q]) (use Nil.prems in simp_all)
next
  case (Cons key keys)
  have so: "sorted_wrt (<) keys" "key \<notin> set keys" and lt: "\<And>k. k \<in> set keys \<Longrightarrow> key < k" using Cons.prems(4) by auto
  have fin: "finite R" using Cons.prems(5) by simp
  have least: "key < Min R" if "key \<notin> R" "R \<noteq> {}"
  proof -
    have "Min R \<in> set keys" using Min_in [OF fin that(2)] that(1) Cons.prems(5) by auto
    then show ?thesis by (rule lt)
  qed
  show ?case
  proof (cases "lookup q key")
    case None
    then have eq: "retire_one now g q (key # keys) = retire_one now g q keys" by (simp add: lookup_def)
    have R: "R = {k \<in> set keys. retirable g now (lookup q) k}" using None Cons.prems(5) by (auto simp: retirable_def)
    obtain q' where q': "retire_one now g q keys = (R \<noteq> {}, q')" "wf_queue good q'" "same_setup q q'"
      "lookup q' = (\<lambda>x. if x \<notin> set keys then lookup q x else if R = {} \<or> x < Min R then age g now x (lookup q) x
         else if x = Min R then None else lookup q x)"
      using Cons.IH [OF _ Cons.prems(2,3) so(1) R] by blast
    have "lookup q' = (\<lambda>x. if x \<notin> set (key # keys) then lookup q x else if R = {} \<or> x < Min R then age g now x (lookup q) x
         else if x = Min R then None else lookup q x)"
      unfolding q'(4) using so(2) None by (auto simp: age_def fun_eq_iff)
    then show ?thesis using Cons.prems(1) [of q'] eq q'(1-3) by simp
  next
    case (Some t)
    obtain r t' evs where gt: "g now t = (r, t', evs)" by (metis prod_cases3)
    have t: "Key t' = key" "good t'"
      using wf_queueD [OF Cons.prems(3) Some] keeps_key [OF gt] keeps_good [OF _ gt] by auto
    let ?u = "q\<lparr>tasks := AList.update key t' (tasks q), spawned := spawned q @ evs\<rparr>"
    have eq: "retire_one now g q (key # keys) = (if r then (True, tq_delete now ?u t') else retire_one now g ?u keys)"
      using Some gt by (simp add: lookup_def Let_def)
    have u: "wf_queue good ?u" "lookup ?u = (lookup q)(key \<mapsto> t')" "same_setup q ?u" "gc_of ?u = g"
      using wf_queue_update [OF Cons.prems(3) t] Cons.prems(2) by (simp_all add: same_setup_def gc_of_def)
    have iff: "key \<in> R \<longleftrightarrow> r" using Some gt Cons.prems(5) by (simp add: retirable_def)
    show ?thesis
    proof (cases r)
      case True
      note d = delete_spec [OF u(4,1), of now t']
      have Min: "Min R = key" using iff True Cons.prems(5) lt fin by (intro Min_eqI) (auto simp: less_imp_le)
      have ne: "R \<noteq> {}" using iff True by auto
      have above: "x \<in> set keys \<Longrightarrow> \<not> x < key \<and> x \<noteq> key" for x using lt by fastforce
      have "lookup (tq_delete now ?u t') = (\<lambda>x. if x \<notin> set (key # keys) then lookup q x
          else if R = {} \<or> x < Min R then age g now x (lookup q) x else if x = Min R then None else lookup q x)"
        unfolding d(4) u(2) t(1) Min using ne above by (auto simp: fun_eq_iff)
      then show ?thesis
        using Cons.prems(1) [of "tq_delete now ?u t'"] eq True ne d(1) same_setup_trans [OF u(3) d(2)] by simp
    next
      case False
      have R: "R = {k \<in> set keys. retirable g now (lookup ?u) k}"
        using iff False so(2) unfolding Cons.prems(5) u(2) by (auto simp: retirable_def)
      obtain q' where q': "retire_one now g ?u keys = (R \<noteq> {}, q')" "wf_queue good q'" "same_setup ?u q'"
        "lookup q' = (\<lambda>x. if x \<notin> set keys then lookup ?u x else if R = {} \<or> x < Min R then age g now x (lookup ?u) x
           else if x = Min R then None else lookup ?u x)"
        using Cons.IH [OF _ u(4,1) so(1) R] by blast
      have first: "age g now key (lookup q) key = Some t'" using Some gt False by (simp add: age_def)
      have rest: "age g now x (lookup ?u) x = age g now x (lookup q) x" if "x \<noteq> key" for x
        using that unfolding u(2) by (simp add: age_def split: option.splits prod.splits)
      have "lookup q' = (\<lambda>x. if x \<notin> set (key # keys) then lookup q x else if R = {} \<or> x < Min R then age g now x (lookup q) x
           else if x = Min R then None else lookup q x)"
        using so(2) first rest least iff False unfolding q'(4) u(2) fun_eq_iff by (auto simp: u(2))
      then show ?thesis
        using Cons.prems(1) [of q'] eq False q'(1,2) same_setup_trans [OF u(3) q'(3)] by simp
    qed
  qed
qed

lemma Push_exact:
  assumes "gc_of q = g" "wf_queue good q" "good t"
  shows "(fst (Push now q t), lookup (snd (Push now q t))) = push_spec g now (cap q) (lookup q) t"
proof -
  define others where "others = (lookup q)(Key t := None)"
  define retired where "retired = {k. retirable g now others k}"
  obtain q1 where q1: "tq_has now q (Key t) = (lookup q1 (Key t) \<noteq> None, q1)" "wf_queue good q1" "same_setup q q1"
    "lookup q1 = age g now (Key t) (lookup q)"
    using has_spec [OF assms(1,2)] by blast
  have live: "lookup q1 (Key t) \<noteq> None \<longleftrightarrow> lookup q (Key t) \<noteq> None \<and> \<not> retirable g now (lookup q) (Key t)"
    unfolding q1(4) using age_None_iff [of g now "Key t" "lookup q"] by simp
  note spec = push_spec_def [of g now "cap q" "lookup q" t, folded others_def, unfolded Let_def, folded retired_def]
  show ?thesis
  proof (cases "lookup q1 (Key t) = None")
    case False
    then show ?thesis using q1(1,4) live by (simp add: spec Push_def)
  next
    case True
    have gc1: "gc_of q1 = g" using same_setup_gc [OF q1(3)] assms(1) by simp
    have l1: "lookup q1 = others" using age_gone [of g now "Key t" "lookup q"] True q1(4) by (simp add: others_def)
    have room: "exceed q1 \<longleftrightarrow> \<not> int (card (dom others)) < cap q"
      using length_tasks [OF q1(2)] q1(3) by (simp add: exceed_def same_setup_def l1 not_less)
    have spec1: "push_spec g now (cap q) (lookup q) t = (if \<not> exceed q1 then (None, others(Key t \<mapsto> t))
         else if retired = {} then (Some ErrTaskQueueExceed, \<lambda>k. age g now k others k)
         else (None, (\<lambda>k. if k < Min retired then age g now k others k else if k = Min retired then None else others k)(Key t \<mapsto> t)))"
      using live True room by (auto simp: spec)
    show ?thesis
    proof (cases "exceed q1")
      case F: False
      then show ?thesis using True q1(1) add_spec(4) [OF gc1 q1(2) True assms(3), of now] by (simp add: spec1 Push_def l1)
    next
      case T: True
      show ?thesis
      proof (cases "gcFunc q1")
        case None
        then have "g = no_strategy" using gc1 by (simp add: gc_of_def)
        then have "retired = {}" "(\<lambda>k. age g now k others k) = others"
          by (auto simp: retired_def retirable_def age_def no_strategy_def fun_eq_iff split: option.splits)
        then show ?thesis using T True q1(1) None by (simp add: spec1 Push_def l1)
      next
        case (Some g')
        then have g': "g' = g" using gc1 by (simp add: gc_of_def)
        define keys where "keys = SortKeys (tasks q1)"
        have keys: "sorted_wrt (<) keys" "set keys = dom others"
          using q1(2) by (simp_all add: keys_def SortKeys_def wf_queue_def strict_sorted_iff dom_map_of_conv_image_fst lookup_def flip: l1)
        have R: "retired = {k \<in> set keys. retirable g now (lookup q1) k}"
          by (auto simp: retired_def keys(2) l1 retirable_def)
        obtain q2 where q2: "retire_one now g q1 keys = (retired \<noteq> {}, q2)" "wf_queue good q2" "same_setup q1 q2"
          "lookup q2 = (\<lambda>x. if x \<notin> set keys then lookup q1 x else if retired = {} \<or> x < Min retired then age g now x (lookup q1) x
             else if x = Min retired then None else lookup q1 x)"
          using retire_one_exact [OF gc1 q1(2) keys(1) R] by blast
        have l2: "lookup q2 = (\<lambda>x. if retired = {} \<or> x < Min retired then age g now x others x
             else if x = Min retired then None else others x)"
          unfolding q2(4) l1 keys(2) by (auto simp: fun_eq_iff age_def domIff)
        have gc2: "gc_of q2 = g" using same_setup_gc [OF q2(3)] gc1 by simp
        have "lookup q2 (Key t) = None" unfolding l2 by (simp add: others_def age_def)
        from add_spec(4) [OF gc2 q2(2) this assms(3), of now]
        show ?thesis using T True q1(1) Some q2(1) l2 by (auto simp: spec1 Push_def g' simp flip: keys_def)
      qed
    qed
  qed
qed

lemma scan_tasks_spec:
  assumes "gc_of q = g" "\<forall>(k, t) \<in> set es. Key t = k \<and> good t" "distinct (map fst es)"
    "scan_tasks now (gcFunc q) ok es = (es', gcs, bk, evs)"
  shows "map fst es' = map fst es \<and> (\<forall>(k, t) \<in> set es'. Key t = k \<and> good t)
    \<and> map_of (filter (\<lambda>(k, _). k \<notin> set gcs) es') = age_all g now (map_of es)
    \<and> set gcs \<subseteq> fst ` set es
    \<and> set bk = {t \<in> ran (age_all g now (map_of es)). ok t}"
  using assms(2-4)
proof (induction es arbitrary: es' gcs bk evs)
  case Nil
  then show ?case by (auto simp: age_all_def ran_def)
next
  case (Cons e es)
  obtain k t where e: "e = (k, t)" by (cases e)
  obtain r t' ev where g: "g now t = (r, t', ev)" by (metis prod_cases3)
  obtain es1 gcs1 bk1 evs1 where s: "scan_tasks now (gcFunc q) ok es = (es1, gcs1, bk1, evs1)"
    by (metis prod_cases4)
  have strat: "(case gcFunc q of None \<Rightarrow> (False, t, []) | Some g \<Rightarrow> g now t) = (r, t', ev)"
    using assms(1) g by (auto simp: gc_of_def no_strategy_def split: option.splits)
  have kt: "Key t = k" "good t" "k \<notin> fst ` set es" using Cons.prems e by auto
  have t': "Key t' = k" "good t'" using kt keeps_key [OF g] keeps_good [OF _ g] by auto
  have ih: "map fst es1 = map fst es" "\<forall>(k, t) \<in> set es1. Key t = k \<and> good t"
    "map_of (filter (\<lambda>(k, _). k \<notin> set gcs1) es1) = age_all g now (map_of es)"
    "set gcs1 \<subseteq> fst ` set es" "set bk1 = {t \<in> ran (age_all g now (map_of es)). ok t}"
    using Cons.IH [OF _ _ s] Cons.prems by auto
  have res: "es' = (k, t') # es1" "gcs = (if r then k # gcs1 else gcs1)"
    "bk = (if \<not> r \<and> ok t' then t' # bk1 else bk1)"
    using Cons.prems(3) e s strat t' by (auto simp: Let_def split: prod.splits)
  have k1: "k \<notin> fst ` set es1" using ih(1) kt(3) by (metis set_map)
  have same: "filter (\<lambda>(k', _). k' \<notin> set (k # gcs1)) es1 = filter (\<lambda>(k', _). k' \<notin> set gcs1) es1"
    using k1 by (auto intro!: filter_cong simp: image_iff)
  have kn: "map_of es k = None" using kt(3) by (simp add: map_of_eq_None_iff)
  have all: "age_all g now (map_of (e # es)) = (age_all g now (map_of es))(k := if r then None else Some t')"
    using e g by (auto simp: age_all_def)
  have kn': "age_all g now (map_of es) k = None" using kn by (simp add: age_all_def)
  have "k \<notin> set gcs1" using ih(4) kt(3) by auto
  then have "map_of (filter (\<lambda>(k, _). k \<notin> set gcs) es') = age_all g now (map_of (e # es))"
    using ih(3) same all res kn' by (auto simp: fun_upd_idem)
  moreover have "set bk = {t \<in> ran (age_all g now (map_of (e # es))). ok t}"
    unfolding all using ih(5) res kn' by (cases r) (auto simp: fun_upd_idem)
  moreover have "map fst es' = map fst (e # es)" "\<forall>(k, t) \<in> set es'. Key t = k \<and> good t" "set gcs \<subseteq> fst ` set (e # es)"
    using ih(1,2,4) res e t' by auto
  ultimately show ?case by blast
qed

lemma take_top_spec:
  assumes "gc_of q = g" "wf_queue good q"
  obtains r q' where "take_top now ok q = (r, q')" "wf_queue good q'" "same_setup q q'"
    "lookup q' = age_all g now (lookup q)" "length (tasks q') \<le> length (tasks q)"
    "case r of None \<Rightarrow> current q' = current q \<and> {t \<in> ran (lookup q'). ok t} = {}
     | Some t \<Rightarrow> current q' = GetCreateTime t \<and> next_up (current q) {t \<in> ran (lookup q'). ok t} t"
proof (cases "tasks q = []")
  case True
  then have "take_top now ok q = (None, q)" by (simp add: take_top_def)
  moreover have "lookup q = (\<lambda>_. None)" using True by (simp add: lookup_def)
  ultimately show thesis using assms by (intro that [of None q]) (auto simp: age_all_def ran_def)
next
  case False
  obtain es gcs bk evs where s: "scan_tasks now (gcFunc q) ok (tasks q) = (es, gcs, bk, evs)"
    by (metis prod_cases4)
  let ?q = "q\<lparr>tasks := filter (\<lambda>(k, _). k \<notin> set gcs) es, spawned := spawned q @ evs\<rparr>"
  have wf: "distinct (map fst (tasks q))" "\<forall>(k, t) \<in> set (tasks q). Key t = k \<and> good t"
    using assms(2) by (auto simp: wf_queue_def)
  note sp = scan_tasks_spec [OF assms(1) wf(2,1) s]
  have look: "lookup ?q = age_all g now (lookup q)" using sp by (simp add: lookup_def)
  have dist: "distinct (map fst (filter P es))" for P
    using sp wf(1) by (simp add: distinct_map_filter)
  have wfq: "wf_queue good ?q" using sp dist by (auto simp: wf_queue_def)
  have len: "length (tasks ?q) \<le> length (tasks q)"
  proof -
    have "length es = length (tasks q)" using sp map_eq_imp_length_eq by blast
    then show ?thesis using length_filter_le [of "\<lambda>(k, _). k \<notin> set gcs" es] by simp
  qed
  have elig: "set bk = {t \<in> ran (lookup ?q). ok t}"
    using sp look by (simp add: lookup_def)
  show thesis
  proof (cases "bk = []")
    case True
    then have "take_top now ok q = (None, ?q)" using False s by (simp add: take_top_def Let_def)
    then show thesis
      by (rule that) (use wfq look len elig True in \<open>auto simp: same_setup_def\<close>)
  next
    case F: False
    let ?t = "sort_key GetCreateTime bk ! select_top (current q) (sort_key GetCreateTime bk)"
    have "take_top now ok q = (Some ?t, ?q\<lparr>current := GetCreateTime ?t\<rparr>)"
      using False F s by (simp add: take_top_def Let_def)
    moreover have "next_up (current q) (set bk) ?t" using select_top_next_up [OF F] .
    moreover have "wf_queue good (?q\<lparr>current := GetCreateTime ?t\<rparr>)" "lookup (?q\<lparr>current := GetCreateTime ?t\<rparr>) = lookup ?q"
      using wfq by (simp_all add: wf_queue_def lookup_def)
    ultimately show thesis
      by (intro that) (use look len elig in \<open>auto simp: same_setup_def\<close>)
  qed
qed

end


interpretation no_gc: retire_strategy no_strategy "\<lambda>_. True"
  by unfold_locales (auto simp: no_strategy_def)

lemma age_all_no_strategy [simp]: "age_all no_strategy now m = m"
  by (auto simp: age_all_def no_strategy_def split: option.splits)

lemma retirable_no_strategy [simp]: "\<not> retirable no_strategy now m k"
  by (simp add: retirable_def no_strategy_def)

lemma gc_of_None [simp]: "gcFunc q = None \<Longrightarrow> gc_of q = no_strategy"
  by (simp add: gc_of_def)

lemma wf_new_queue [simp]:
  "wf_queue good (NewGfSpTQueue n c)" "within_cap (NewGfSpTQueue n c)"
  "wf_queue good (NewGfSpTQueueWithLimit n c)" "within_cap (NewGfSpTQueueWithLimit n c)"
  by (simp_all add: wf_queue_def within_cap_def NewGfSpTQueue_def NewGfSpTQueueWithLimit_def)

lemma ScanTask_filter:
  "ScanTask (\<lambda>t ts. if P t then ts @ [t] else ts) q acc = acc @ filter P (map snd (tasks q))"
proof -
  have "fold (\<lambda>t ts. if P t then ts @ [t] else ts) xs acc = acc @ filter P xs" for xs
    by (induction xs arbitrary: acc) auto
  then show ?thesis by (simp add: ScanTask_def)
qed

lemma ScanTQueueBySubKey_eq:
  "ScanTQueueBySubKey q sub = filter (\<lambda>t. str_contains (Key t) sub) (map snd (tasks q))"
  "ScanTQueueWithLimitBySubKey q sub = filter (\<lambda>t. str_contains (Key t) sub) (map snd (tasks q))"
  by (simp_all add: ScanTQueueBySubKey_def ScanTQueueWithLimitBySubKey_def ScanTask_filter)

section \<open>Properties\<close>

text \<open>
  C36. The contract of \<open>Push\<close>, for every retire strategy that keeps keys: the answer and the contents
  of the queue are those of \<open>push_spec\<close>, and the queue stays well formed and within its capacity. So a live
  task under the same key is never overwritten and the push is refused as repeated; with room the task
  is stored and no other entry changes; in a full queue the first entry in the order of the
  keys that the strategy retires, and only this one, gives way to the task, the entries before it stay as
  the strategy leaves them; and the push is refused as exceeding exactly when there is no live task of the
  key, the queue is full and nothing is retired, with no more than an expired entry of the same key lost.
\<close>

theorem Push_contract:
  assumes "retire_strategy (gc_of q) good" "wf_queue good q" "within_cap q" "good t"
  shows "\<exists>q'. Push now q t = (fst (push_spec (gc_of q) now (cap q) (lookup q) t), q')
    \<and> lookup q' = snd (push_spec (gc_of q) now (cap q) (lookup q) t) \<and> wf_queue good q' \<and> within_cap q'"
proof -
  obtain err q' where p: "Push now q t = (err, q')" "wf_queue good q'" "within_cap q \<longrightarrow> within_cap q'"
    by (rule retire_strategy.Push_spec [OF assms(1) refl assms(2,4), of now])
  with retire_strategy.Push_exact [OF assms(1) refl assms(2,4), of now]
  have "(err, lookup q') = push_spec (gc_of q) now (cap q) (lookup q) t" by simp
  then have "err = fst (push_spec (gc_of q) now (cap q) (lookup q) t)" "lookup q' = snd (push_spec (gc_of q) now (cap q) (lookup q) t)"
    by (metis fst_conv, metis snd_conv)
  then show ?thesis using p assms(3) by blast
qed

definition demo_task :: "int64 \<Rightarrow> Task" where
  "demo_task now = GCObjectTask (InitGCObjectTask now 0 1 2 60)"

theorem Push_contract_witness:
  "\<exists>q'. Push 5 (NewGfSpTQueue ''q'' 2 :: unit tqueue) (demo_task 5) = (None, q') \<and> lookup q' = [Key (demo_task 5) \<mapsto> demo_task 5]"
proof -
  let ?q = "NewGfSpTQueue ''q'' 2 :: unit tqueue"
  have q: "gc_of ?q = no_strategy" "wf_queue (\<lambda>_. True) ?q" "within_cap ?q" "lookup ?q = Map.empty" "cap ?q = 2"
    by (simp_all add: NewGfSpTQueue_def wf_queue_def within_cap_def lookup_def)
  have "retire_strategy (gc_of ?q) (\<lambda>_. True)" using no_gc.retire_strategy_axioms q(1) by simp
  from Push_contract [OF this q(2,3), where t = "demo_task 5" and now = 5] show ?thesis by (auto simp: q(4,5) push_spec_def)
qed

text \<open>
  \<open>Top\<close> is a fair round robin: on a well-formed queue it returns nothing only when no task is
  eligible (not retired and passed by the filter); otherwise it returns the eligible task with the
  least creation time after that of the previously returned one, starting over with the oldest
  when there is none, and exactly the retired tasks leave the queue.
\<close>

theorem Top_round_robin:
  assumes "retire_strategy (gc_of q) good" "wf_queue good q"
  shows "\<exists>r q'. Top now q = (r, q') \<and> wf_queue good q' \<and> lookup q' = age_all (gc_of q) now (lookup q)
    \<and> (case r of None \<Rightarrow> {t \<in> ran (lookup q'). passes now q t} = {}
       | Some t \<Rightarrow> current q' = GetCreateTime t
           \<and> next_up (current q) {t \<in> ran (lookup q'). passes now q t} t)"
proof -
  obtain r q' where "take_top now (passes now q) q = (r, q')" "wf_queue good q'" "same_setup q q'"
    "lookup q' = age_all (gc_of q) now (lookup q)" "length (tasks q') \<le> length (tasks q)"
    "case r of None \<Rightarrow> current q' = current q \<and> {t \<in> ran (lookup q'). passes now q t} = {}
     | Some t \<Rightarrow> current q' = GetCreateTime t \<and> next_up (current q) {t \<in> ran (lookup q'). passes now q t} t"
    using retire_strategy.take_top_spec [OF assms(1) refl assms(2), of now "passes now q"] by blast
  then show ?thesis by (cases r) (auto simp: Top_def tq_top_def)
qed

text \<open>A queue with two tasks, the older one last in iteration order.\<close>

definition demo_queue :: "unit tqueue" where
  "demo_queue = (NewGfSpTQueue ''q'' 2)\<lparr>tasks := [(Key (demo_task 9), demo_task 9), (Key (demo_task 5), demo_task 5)]\<rparr>"

lemma demo_task_time [simp]: "GetCreateTime (demo_task n) = n"
  by (simp add: demo_task_def InitGCObjectTask_def GetCreateTime_def stamped_def base_SetTimeout_def base_SetPriority_def
      base_SetUpdateTime_def base_SetCreateTime_def new_task_def)

lemma demo_task_key: "Key (demo_task 5) \<noteq> Key (demo_task 9)"
  by (simp add: demo_task_def InitGCObjectTask_def GfSpGCObjectTaskKey_def stamped_def base_SetTimeout_def
      base_SetPriority_def base_SetUpdateTime_def base_SetCreateTime_def new_task_def)

lemma wf_demo_queue: "wf_queue (\<lambda>_. True) demo_queue" "gcFunc demo_queue = None" "filterFunc demo_queue = None"
  "current demo_queue = 0" "ran (lookup demo_queue) = {demo_task 5, demo_task 9}"
proof -
  have "lookup demo_queue = [Key (demo_task 5) \<mapsto> demo_task 5, Key (demo_task 9) \<mapsto> demo_task 9]"
    using demo_task_key by (simp add: demo_queue_def lookup_def)
  then show "ran (lookup demo_queue) = {demo_task 5, demo_task 9}"
    using demo_task_key by (simp add: ran_map_upd insert_commute)
qed (use demo_task_key in \<open>auto simp: demo_queue_def wf_queue_def NewGfSpTQueue_def\<close>)

theorem Top_round_robin_witness:
  "\<exists>q'. Top 0 demo_queue = (Some (demo_task 5), q') \<and> current q' = 5"
proof -
  have "retire_strategy (gc_of demo_queue) (\<lambda>_. True)"
    using no_gc.retire_strategy_axioms wf_demo_queue(2) by simp
  from Top_round_robin [OF this wf_demo_queue(1), of 0] obtain r q' where
    top: "Top 0 demo_queue = (r, q')" "lookup q' = lookup demo_queue"
    "case r of None \<Rightarrow> {t \<in> ran (lookup q'). passes 0 demo_queue t} = {}
     | Some t \<Rightarrow> current q' = GetCreateTime t \<and> next_up 0 {t \<in> ran (lookup q'). passes 0 demo_queue t} t"
    unfolding gc_of_None [OF wf_demo_queue(2)] wf_demo_queue(4) age_all_no_strategy by blast
  moreover have "{t \<in> ran (lookup q'). passes 0 demo_queue t} = {demo_task 5, demo_task 9}"
    using top(2) wf_demo_queue by (auto simp: passes_def)
  ultimately obtain t where "r = Some t" "current q' = GetCreateTime t" "next_up 0 {demo_task 5, demo_task 9} t"
    by (auto split: option.splits)
  then have "t = demo_task 5" by (auto simp: next_up_def)
  with top \<open>r = Some t\<close> \<open>current q' = GetCreateTime t\<close> show ?thesis by auto
qed

text \<open>
  \<open>TopByLimit\<close> respects the limit of the asking node: when no estimate panics it returns, and
  a returned task fits the limit, passes the filter, and is next in the round robin of the tasks
  that do; it returns nothing only when there is no such task.
\<close>

theorem TopByLimit_fits:
  assumes "retire_strategy (gc_of q) good" "wf_queue good q" "\<not> estimate_panics now q"
  shows "\<exists>r q'. TopByLimit now q lim = Returns (r, q') \<and> wf_queue good q'
    \<and> lookup q' = age_all (gc_of q) now (lookup q)
    \<and> (case r of None \<Rightarrow> {t \<in> ran (lookup q'). fits lim t \<and> passes now q t} = {}
       | Some t \<Rightarrow> (\<exists>l. EstimateLimit t = Returns l \<and> NotLess lim l)
           \<and> next_up (current q) {t \<in> ran (lookup q'). fits lim t \<and> passes now q t} t)"
proof -
  obtain r q' where "take_top now (\<lambda>t. fits lim t \<and> passes now q t) q = (r, q')" "wf_queue good q'" "same_setup q q'"
    "lookup q' = age_all (gc_of q) now (lookup q)" "length (tasks q') \<le> length (tasks q)"
    "case r of None \<Rightarrow> current q' = current q \<and> {t \<in> ran (lookup q'). fits lim t \<and> passes now q t} = {}
     | Some t \<Rightarrow> current q' = GetCreateTime t \<and> next_up (current q) {t \<in> ran (lookup q'). fits lim t \<and> passes now q t} t"
    using retire_strategy.take_top_spec [OF assms(1) refl assms(2), of now "\<lambda>t. fits lim t \<and> passes now q t"] by blast
  moreover have "\<exists>l. EstimateLimit t = Returns l \<and> NotLess lim l" if "next_up c {t \<in> A. fits lim t \<and> P t} t" for c A P t
    using that by (auto simp: next_up_def fits_def split: go.splits)
  ultimately show ?thesis using assms(3) by (cases r) (auto simp: TopByLimit_def topByLimit_def)
qed

theorem TopByLimit_fits_witness:
  "\<exists>q'. TopByLimit 0 demo_queue NullLimit = Returns (None, q')"
proof -
  have "retire_strategy (gc_of demo_queue) (\<lambda>_. True)"
    using no_gc.retire_strategy_axioms wf_demo_queue(2) by simp
  moreover have "\<not> estimate_panics 0 demo_queue"
    by (simp add: estimate_panics_def demo_queue_def NewGfSpTQueue_def demo_task_def)
  ultimately obtain r q' where "TopByLimit 0 demo_queue NullLimit = Returns (r, q')"
    "case r of None \<Rightarrow> True | Some t \<Rightarrow> (\<exists>l. EstimateLimit t = Returns l \<and> NotLess NullLimit l)"
    using TopByLimit_fits [OF _ wf_demo_queue(1), of 0 NullLimit] by (fastforce split: option.splits)
  moreover have "\<not> NotLess NullLimit l" for l by (cases l) simp_all
  ultimately show ?thesis by (cases r) auto
qed

section \<open>No starvation\<close>

text \<open>The creation time the round robin moves to from \<open>cur\<close>, over the set \<open>S\<close> of creation times.\<close>

definition next_time :: "int set \<Rightarrow> int \<Rightarrow> int" where
  "next_time S cur = (if \<exists>x \<in> S. cur < x then Min {x \<in> S. cur < x} else Min S)"

lemma next_up_time:
  assumes "finite A" "next_up cur A t"
  shows "GetCreateTime t = next_time (GetCreateTime ` A) cur"
proof (cases "\<exists>u \<in> A. cur < GetCreateTime u")
  case True
  with assms have "Min {x \<in> GetCreateTime ` A. cur < x} = GetCreateTime t"
    by (intro Min_eqI) (auto simp: next_up_def)
  with True show ?thesis by (auto simp: next_time_def)
next
  case False
  with assms have "Min (GetCreateTime ` A) = GetCreateTime t"
    by (intro Min_eqI) (auto simp: next_up_def)
  with False show ?thesis by (auto simp: next_time_def)
qed

lemma next_time_nth:
  assumes "finite S" "j < card S"
  shows "next_time S (sorted_list_of_set S ! j) = sorted_list_of_set S ! (Suc j mod card S)"
proof -
  let ?xs = "sorted_list_of_set S"
  have xs: "sorted_wrt (<) ?xs" "set ?xs = S" "length ?xs = card S"
    using assms(1) by simp_all
  have nth: "?xs ! a < ?xs ! b" if "a < b" "b < card S" for a b
    using sorted_wrt_nth_less [OF xs(1)] that xs(3) by simp
  have mem: "?xs ! a \<in> S" if "a < card S" for a using that nth_mem [of a ?xs] xs by simp
  have idx: "\<exists>a < card S. ?xs ! a = x" if "x \<in> S" for x
    using that xs by (metis in_set_conv_nth)
  show ?thesis
  proof (cases "Suc j < card S")
    case True
    have "Min {x \<in> S. ?xs ! j < x} = ?xs ! Suc j"
    proof (rule Min_eqI)
      fix x assume x: "x \<in> {x \<in> S. ?xs ! j < x}"
      then obtain a where a: "a < card S" "?xs ! a = x" using idx by auto
      then have "j < a" using x nth [of a j] assms(2) by (cases "a = j") (auto simp: not_less_iff_gr_or_eq intro: ccontr)
      then show "?xs ! Suc j \<le> x" using nth [of "Suc j" a] a by (cases "a = Suc j") auto
    qed (use assms True mem nth in auto)
    moreover have "\<exists>x \<in> S. ?xs ! j < x" using mem [OF True] nth [of j "Suc j"] True by auto
    ultimately show ?thesis using True by (simp add: next_time_def)
  next
    case False
    then have j: "Suc j = card S" using assms(2) by simp
    have "\<not> (\<exists>x \<in> S. ?xs ! j < x)"
    proof
      assume "\<exists>x \<in> S. ?xs ! j < x"
      then obtain a where a: "a < card S" "?xs ! j < ?xs ! a" using idx by metis
      then show False using j nth [of a j] by (cases "a = j") auto
    qed
    moreover have "Min S = ?xs ! 0"
    proof (rule Min_eqI)
      fix x assume "x \<in> S"
      then obtain a where a: "a < card S" "?xs ! a = x" using idx by blast
      then show "?xs ! 0 \<le> x" using nth [of 0 a] by (cases "a = 0") auto
    qed (use assms mem j in auto)
    ultimately show ?thesis using j by (simp add: next_time_def)
  qed
qed

lemma next_time_mem: "finite S \<Longrightarrow> S \<noteq> {} \<Longrightarrow> next_time S c \<in> S"
  using Min_in [of S] Min_in [of "{x \<in> S. c < x}"] by (auto simp: next_time_def)

text \<open>Within \<open>card S\<close> steps the round robin visits every creation time.\<close>

lemma next_time_visits:
  assumes "finite S" "x \<in> S"
  shows "\<exists>i < card S. (next_time S ^^ Suc i) c = x"
proof -
  let ?xs = "sorted_list_of_set S" and ?n = "card S"
  have n: "0 < ?n" using assms by (auto simp: card_gt_0_iff)
  have idx: "\<exists>k < ?n. ?xs ! k = y" if "y \<in> S" for y
    using that assms(1) in_set_conv_nth [of y ?xs] by simp
  have "next_time S c \<in> S" using next_time_mem assms by auto
  then obtain j where j: "j < ?n" "next_time S c = ?xs ! j" using idx by metis
  have seq: "(next_time S ^^ Suc i) c = ?xs ! ((j + i) mod ?n)" for i
  proof (induction i)
    case (Suc i)
    have "(j + i) mod ?n < ?n" using n by simp
    then show ?case using Suc next_time_nth [OF assms(1), of "(j + i) mod ?n"] by (simp add: mod_Suc_eq)
  qed (use j in simp)
  obtain k where k: "k < ?n" "?xs ! k = x" using idx assms(2) by blast
  let ?i = "(k + ?n - j) mod ?n"
  have "(j + ?i) mod ?n = (j + (k + ?n - j)) mod ?n" by (simp add: mod_add_right_eq)
  also have "\<dots> = k" using j k by simp
  finally have "(next_time S ^^ Suc ?i) c = x" using seq [of ?i] k(2) by simp
  moreover have "?i < ?n" using n by simp
  ultimately show ?thesis by blast
qed

definition after_tops :: "int64 \<Rightarrow> nat \<Rightarrow> 'e tqueue \<Rightarrow> 'e tqueue" where
  "after_tops now n q = ((\<lambda>q. snd (Top now q)) ^^ n) q"

text \<open>
  No task starves: on a queue without a retire strategy whose filter answers do not change,
  among as many consecutive calls of \<open>Top\<close> as the queue has tasks, one returns a task created at
  the time of any given eligible task (that very task, when creation times are distinct).
\<close>

theorem Top_no_starvation:
  assumes "gcFunc q = None" "wf_queue (\<lambda>_. True) q" "t \<in> ran (lookup q)" "passes now q t"
  shows "\<exists>i < length (tasks q). \<exists>u. fst (Top now (after_tops now i q)) = Some u
    \<and> u \<in> ran (lookup q) \<and> passes now q u \<and> GetCreateTime u = GetCreateTime t"
proof -
  let ?E = "{t \<in> ran (lookup q). passes now q t}"
  let ?S = "GetCreateTime ` ?E"
  have fin: "finite ?E" by (simp add: finite_ran)
  have step: "\<exists>u. fst (Top now p) = Some u \<and> u \<in> ?E \<and> GetCreateTime u = next_time ?S (current p)
      \<and> current (snd (Top now p)) = GetCreateTime u \<and> gcFunc (snd (Top now p)) = None
      \<and> wf_queue (\<lambda>_. True) (snd (Top now p)) \<and> lookup (snd (Top now p)) = lookup q \<and> passes now (snd (Top now p)) = passes now q"
    if p: "gcFunc p = None" "wf_queue (\<lambda>_. True) p" "lookup p = lookup q" "passes now p = passes now q" for p :: "'a tqueue"
  proof -
    obtain r p' where r: "take_top now (passes now p) p = (r, p')" "wf_queue (\<lambda>_. True) p'" "same_setup p p'"
      "lookup p' = age_all (no_strategy :: 'a strategy) now (lookup p)" "length (tasks p') \<le> length (tasks p)"
      "case r of None \<Rightarrow> current p' = current p \<and> {t \<in> ran (lookup p'). passes now p t} = {}
       | Some t \<Rightarrow> current p' = GetCreateTime t \<and> next_up (current p) {t \<in> ran (lookup p'). passes now p t} t"
      by (rule no_gc.take_top_spec [OF gc_of_None [OF p(1)] p(2), of now "passes now p"]) (rule that)
    then obtain u where u: "r = Some u" "current p' = GetCreateTime u" "next_up (current p) ?E u"
      using p assms(3,4) by (cases r) auto
    have "passes now p' = passes now q" using r(3) p(4) by (auto simp: passes_def same_setup_def fun_eq_iff)
    moreover have "Top now p = (Some u, p')" using r(1) u(1) by (simp add: Top_def tq_top_def)
    moreover have "u \<in> ?E" using u(3) by (simp add: next_up_def)
    moreover have "gcFunc p' = None" "lookup p' = lookup q" using r(3,4) p by (simp_all add: same_setup_def)
    ultimately show ?thesis using u(2) r(2) next_up_time [OF fin u(3)] by simp
  qed
  have run: "gcFunc (after_tops now n q) = None \<and> wf_queue (\<lambda>_. True) (after_tops now n q)
      \<and> lookup (after_tops now n q) = lookup q \<and> passes now (after_tops now n q) = passes now q
      \<and> current (after_tops now n q) = (next_time ?S ^^ n) (current q)" for n
  proof (induction n)
    case (Suc n)
    then have "\<exists>u. current (snd (Top now (after_tops now n q))) = GetCreateTime u
        \<and> GetCreateTime u = next_time ?S (current (after_tops now n q))
        \<and> gcFunc (snd (Top now (after_tops now n q))) = None \<and> wf_queue (\<lambda>_. True) (snd (Top now (after_tops now n q)))
        \<and> lookup (snd (Top now (after_tops now n q))) = lookup q \<and> passes now (snd (Top now (after_tops now n q))) = passes now q"
      using step [of "after_tops now n q"] by blast
    with Suc show ?case by (auto simp: after_tops_def)
  qed (use assms in \<open>simp add: after_tops_def\<close>)
  have x: "GetCreateTime t \<in> ?S" using assms by auto
  obtain i where i: "i < card ?S" "(next_time ?S ^^ Suc i) (current q) = GetCreateTime t"
    using next_time_visits [OF finite_imageI [OF fin] x, of "current q"] by blast
  have at_i: "gcFunc (after_tops now i q) = None" "wf_queue (\<lambda>_. True) (after_tops now i q)"
    "lookup (after_tops now i q) = lookup q" "passes now (after_tops now i q) = passes now q"
    using run [of i] by simp_all
  obtain u where u: "fst (Top now (after_tops now i q)) = Some u" "u \<in> ?E"
    "GetCreateTime u = next_time ?S (current (after_tops now i q))"
    using step [OF at_i] by (elim exE conjE) (rule that)
  have "card ?S \<le> card ?E" using fin by (rule card_image_le)
  also have "\<dots> \<le> card (ran (lookup q))" by (intro card_mono) (auto simp: finite_ran)
  also have "\<dots> \<le> card (dom (lookup q))"
  proof -
    have "ran (lookup q) = (the \<circ> lookup q) ` dom (lookup q)" by (force simp: ran_def dom_def image_def)
    then show ?thesis by (simp add: card_image_le)
  qed
  finally have "i < length (tasks q)" using i(1) length_tasks [OF assms(2)] by simp
  moreover have "GetCreateTime u = GetCreateTime t" using u(3) run [of i] i(2) by simp
  ultimately show ?thesis using u by auto
qed

theorem Top_no_starvation_witness:
  "\<exists>i < length (tasks demo_queue). \<exists>u. fst (Top 0 (after_tops 0 i demo_queue)) = Some u
    \<and> u \<in> ran (lookup demo_queue) \<and> GetCreateTime u = 9"
proof -
  have "demo_task 9 \<in> ran (lookup demo_queue)" "passes 0 demo_queue (demo_task 9)"
    using wf_demo_queue by (simp_all add: passes_def)
  from Top_no_starvation [OF wf_demo_queue(2,1) this] show ?thesis by auto
qed

end
