(* ===== verification/AppOptions.thy ===== *)
theory AppOptions
  imports Tasks
begin

text \<open>
  Task options of the application: \<open>base/gfspapp/task_options.go\<close>. Timeout, retry limit, priority
  and priority level of a task by its type, from the configured speeds, timeouts and retries.
\<close>

record GfSpBaseApp =
  uploadSpeed :: int64
  downloadSpeed :: int64
  replicateSpeed :: int64
  sealObjectTimeout :: int64
  gcObjectTimeout :: int64
  gcZombieTimeout :: int64
  gcMetaTimeout :: int64
  replicateRetry :: int64
  receiveConfirmRetry :: int64
  sealObjectRetry :: int64
  gcObjectRetry :: int64
  gcZombieRetry :: int64
  gcMetaRetry :: int64
  recoveryRetry :: int64

definition MinSpeed :: int64 where "MinSpeed = 10 * (1024 * 1024)"
definition NotUseTimeout :: int64 where "NotUseTimeout = 0"
definition MinUploadTime :: int64 where "MinUploadTime = 2"
definition MaxUploadTime :: int64 where "MaxUploadTime = 300"
definition MinReplicateTime :: int64 where "MinReplicateTime = 90"
definition MaxReplicateTime :: int64 where "MaxReplicateTime = 500"
definition MinReceiveTime :: int64 where "MinReceiveTime = 90"
definition MaxReceiveTime :: int64 where "MaxReceiveTime = 300"
definition MinSealObjectTime :: int64 where "MinSealObjectTime = 90"
definition MaxSealObjectTime :: int64 where "MaxSealObjectTime = 300"
definition MinDownloadTime :: int64 where "MinDownloadTime = 2"
definition MaxDownloadTime :: int64 where "MaxDownloadTime = 300"
definition MinGcTime :: int64 where "MinGcTime = 300"
definition MaxGcTime :: int64 where "MaxGcTime = 600"
definition MinRecoveryTime :: int64 where "MinRecoveryTime = 10"
definition MaxRecoveryTime :: int64 where "MaxRecoveryTime = 50"

lemmas option_consts = MinSpeed_def NotUseTimeout_def MinUploadTime_def MaxUploadTime_def MinReplicateTime_def
  MaxReplicateTime_def MinReceiveTime_def MaxReceiveTime_def MinSealObjectTime_def MaxSealObjectTime_def
  MinDownloadTime_def MaxDownloadTime_def MinGcTime_def MaxGcTime_def MinRecoveryTime_def MaxRecoveryTime_def

text \<open>\<open>if x < lo { return lo }; if x > hi { return over }; return x\<close>.\<close>

definition bounded :: "int64 \<Rightarrow> int64 \<Rightarrow> int64 \<Rightarrow> int64 \<Rightarrow> int64" where
  "bounded lo hi over x = (if x < lo then lo else if x > hi then over else x)"

text \<open>\<open>int64(size) / (speed + 1) / MinSpeed\<close>.\<close>

definition transfer_time :: "uint64 \<Rightarrow> int64 \<Rightarrow> int64 go" where
  "transfer_time sz speed =
     bind_go (go_div (i64 (uint sz)) (i64 (speed + 1))) (\<lambda>t. go_div t MinSpeed)"

fun TaskTimeout :: "GfSpBaseApp \<Rightarrow> TType \<Rightarrow> uint64 \<Rightarrow> int64 go" where
  "TaskTimeout g TypeTaskCreateBucketApproval sz = Returns NotUseTimeout"
| "TaskTimeout g TypeTaskCreateObjectApproval sz = Returns NotUseTimeout"
| "TaskTimeout g TypeTaskReplicatePieceApproval sz = Returns NotUseTimeout"
| "TaskTimeout g TypeTaskUpload sz =
     bind_go (transfer_time sz (uploadSpeed g)) (\<lambda>t. Returns (bounded MinUploadTime MaxUploadTime MaxUploadTime t))"
| "TaskTimeout g TypeTaskReplicatePiece sz =
     bind_go (transfer_time sz (replicateSpeed g)) (\<lambda>t. Returns (bounded MinReplicateTime MaxReplicateTime MaxReplicateTime t))"
| "TaskTimeout g TypeTaskReceivePiece sz =
     bind_go (transfer_time sz (replicateSpeed g)) (\<lambda>t. Returns (bounded MinReceiveTime MaxReceiveTime MaxReceiveTime t))"
| "TaskTimeout g TypeTaskSealObject sz =
     Returns (bounded MinSealObjectTime MaxSealObjectTime MaxSealObjectTime (sealObjectTimeout g))"
| "TaskTimeout g TypeTaskDownloadObject sz =
     bind_go (transfer_time sz (downloadSpeed g)) (\<lambda>t. Returns (bounded MinDownloadTime MaxDownloadTime MinDownloadTime t))"
| "TaskTimeout g TypeTaskChallengePiece sz =
     bind_go (transfer_time sz (downloadSpeed g)) (\<lambda>t. Returns (bounded MinDownloadTime MaxDownloadTime MinDownloadTime t))"
| "TaskTimeout g TypeTaskGCObject sz = Returns (bounded MinGcTime MaxGcTime MaxGcTime (gcObjectTimeout g))"
| "TaskTimeout g TypeTaskGCZombiePiece sz = Returns (bounded MinGcTime MaxGcTime MaxGcTime (gcZombieTimeout g))"
| "TaskTimeout g TypeTaskGCMeta sz = Returns (bounded MinGcTime MaxGcTime MaxGcTime (gcMetaTimeout g))"
| "TaskTimeout g TypeTaskRecoverPiece sz =
     bind_go (transfer_time sz (replicateSpeed g)) (\<lambda>t.
       Returns (bounded MinRecoveryTime MaxRecoveryTime MaxRecoveryTime (i64 (t + 100))))"
| "TaskTimeout g TypeTaskUnknown sz = Returns NotUseTimeout"
| "TaskTimeout g TypeTaskDownloadPiece sz = Returns NotUseTimeout"

fun TaskMaxRetry :: "GfSpBaseApp \<Rightarrow> TType \<Rightarrow> int64" where
  "TaskMaxRetry g TypeTaskReplicatePiece = bounded 3 6 6 (replicateRetry g)"
| "TaskMaxRetry g TypeTaskReceivePiece = bounded 0 3 3 (receiveConfirmRetry g)"
| "TaskMaxRetry g TypeTaskSealObject = bounded 3 10 10 (sealObjectRetry g)"
| "TaskMaxRetry g TypeTaskGCObject = bounded 3 5 5 (gcObjectRetry g)"
| "TaskMaxRetry g TypeTaskGCZombiePiece = bounded 3 5 5 (gcZombieRetry g)"
| "TaskMaxRetry g TypeTaskGCMeta = bounded 3 5 5 (gcMetaRetry g)"
| "TaskMaxRetry g TypeTaskRecoverPiece = bounded 2 3 3 (recoveryRetry g)"
| "TaskMaxRetry g _ = 0"

fun TaskPriority_of :: "TType \<Rightarrow> TPriority" where
  "TaskPriority_of TypeTaskReplicatePiece = MaxTaskPriority"
| "TaskPriority_of TypeTaskReceivePiece = DefaultSmallerPriority"
| "TaskPriority_of TypeTaskSealObject = DefaultLargerTaskPriority"
| "TaskPriority_of TypeTaskRecoverPiece = DefaultSmallerPriority"
| "TaskPriority_of TypeTaskUnknown = UnKnownTaskPriority"
| "TaskPriority_of TypeTaskDownloadPiece = UnKnownTaskPriority"
| "TaskPriority_of _ = UnSchedulingPriority"

definition TaskPriorityLevel :: "Task \<Rightarrow> TPriorityLevel" where
  "TaskPriorityLevel task =
     (if GetPriority task \<le> DefaultSmallerPriority then TLowPriorityLevel
      else if GetPriority task > DefaultLargerTaskPriority then THighPriorityLevel
      else TMediumPriorityLevel)"

section \<open>Properties\<close>

lemma transfer_time_exact:
  assumes "uint sz < 2 ^ 63" "0 \<le> speed" "speed < 2 ^ 63 - 1"
  shows "transfer_time sz speed = Returns (uint sz div (speed + 1) div MinSpeed)"
proof -
  have "0 \<le> uint sz" by simp
  then have "in_i64 (uint sz)" "in_i64 (speed + 1)" using assms unfolding in_i64_def by linarith+
  then have s: "0 \<le> uint sz" "i64 (uint sz) = uint sz" "i64 (speed + 1) = speed + 1"
    by (simp_all add: i64_id)
  have d: "0 \<le> uint sz div (speed + 1)" "uint sz div (speed + 1) \<le> uint sz"
    using assms(2) int_div_le_self [of "uint sz" "speed + 1"] by (simp_all add: pos_imp_zdiv_nonneg_iff)
  have e: "0 \<le> uint sz div (speed + 1) div MinSpeed" "uint sz div (speed + 1) div MinSpeed \<le> uint sz div (speed + 1)"
    using d int_div_le_self [of "uint sz div (speed + 1)" MinSpeed] by (simp_all add: MinSpeed_def pos_imp_zdiv_nonneg_iff)
  have "in_i64 (uint sz div (speed + 1))" "in_i64 (uint sz div (speed + 1) div MinSpeed)"
    using d e assms(1) by (simp_all add: in_i64_def)
  then show ?thesis
    using s d(1) assms(2) by (simp add: transfer_time_def go_div_def i64_id MinSpeed_def)
qed

fun timeout_range :: "TType \<Rightarrow> int64 \<times> int64" where
  "timeout_range TypeTaskUpload = (2, 300)"
| "timeout_range TypeTaskReplicatePiece = (90, 500)"
| "timeout_range TypeTaskReceivePiece = (90, 300)"
| "timeout_range TypeTaskSealObject = (90, 300)"
| "timeout_range TypeTaskDownloadObject = (2, 300)"
| "timeout_range TypeTaskChallengePiece = (2, 300)"
| "timeout_range TypeTaskGCObject = (300, 600)"
| "timeout_range TypeTaskGCZombiePiece = (300, 600)"
| "timeout_range TypeTaskGCMeta = (300, 600)"
| "timeout_range TypeTaskRecoverPiece = (10, 50)"
| "timeout_range _ = (0, 0)"

text \<open>
  Timeouts are defined and bounded: for sizes below \<open>2 ^ 63\<close> and non-negative configured speeds,
  the timeout of every task type is computed without a panic and lies in the range of its type
  (upload 2..300, replicate 90..500, receive and seal 90..300, download and challenge 2..300,
  garbage collection 300..600, recovery 10..50 seconds), whatever the configuration.
\<close>

theorem TaskTimeout_bounded:
  assumes "uint sz < 2 ^ 63" "\<forall>s \<in> {uploadSpeed g, downloadSpeed g, replicateSpeed g}. 0 \<le> s \<and> s < 2 ^ 63 - 1"
  shows "\<exists>t. TaskTimeout g ty sz = Returns t \<and> fst (timeout_range ty) \<le> t \<and> t \<le> snd (timeout_range ty)"
proof -
  obtain a where a: "transfer_time sz (uploadSpeed g) = Returns a" using transfer_time_exact assms by blast
  obtain b where b: "transfer_time sz (downloadSpeed g) = Returns b" using transfer_time_exact assms by blast
  obtain c where c: "transfer_time sz (replicateSpeed g) = Returns c" using transfer_time_exact assms by blast
  show ?thesis using a b c by (cases ty) (simp_all add: bounded_def option_consts)
qed

definition demo_app :: GfSpBaseApp where
  "demo_app = \<lparr>uploadSpeed = 0, downloadSpeed = 0, replicateSpeed = 0, sealObjectTimeout = 0, gcObjectTimeout = 0,
     gcZombieTimeout = 0, gcMetaTimeout = 0, replicateRetry = 0, receiveConfirmRetry = 0, sealObjectRetry = 0,
     gcObjectRetry = 0, gcZombieRetry = 0, gcMetaRetry = 0, recoveryRetry = 0\<rparr>"

theorem TaskTimeout_bounded_witness:
  "\<exists>t. TaskTimeout demo_app TypeTaskUpload 1000 = Returns t \<and> 2 \<le> t \<and> t \<le> 300"
  using TaskTimeout_bounded [of 1000 demo_app TypeTaskUpload] by (simp add: demo_app_def)

text \<open>
  Two timeouts ignore the size of a large transfer: a download or challenge that needs more than
  the maximal 300 seconds gets the minimal timeout of 2 seconds, and every recovery gets exactly
  50 seconds.
\<close>

theorem TaskTimeout_large_transfers:
  assumes "uint sz < 2 ^ 63" "0 \<le> downloadSpeed g" "downloadSpeed g < 2 ^ 63 - 1"
    "0 \<le> replicateSpeed g" "replicateSpeed g < 2 ^ 63 - 1"
  shows "(uint sz div (downloadSpeed g + 1) div MinSpeed > MaxDownloadTime \<longrightarrow>
            TaskTimeout g TypeTaskDownloadObject sz = Returns MinDownloadTime
            \<and> TaskTimeout g TypeTaskChallengePiece sz = Returns MinDownloadTime)
    \<and> TaskTimeout g TypeTaskRecoverPiece sz = Returns MaxRecoveryTime"
proof -
  let ?r = "uint sz div (replicateSpeed g + 1) div MinSpeed"
  have "?r \<le> uint sz div (replicateSpeed g + 1)" "uint sz div (replicateSpeed g + 1) \<le> uint sz" "0 \<le> ?r"
    using assms(4) int_div_le_self [of "uint sz" "replicateSpeed g + 1"]
      int_div_le_self [of "uint sz div (replicateSpeed g + 1)" MinSpeed]
    by (simp_all add: MinSpeed_def pos_imp_zdiv_nonneg_iff)
  moreover have "?r \<le> (2 ^ 63 - 1) div MinSpeed"
    using calculation(2) assms(1) by (intro zdiv_mono1) (simp_all add: MinSpeed_def)
  ultimately have "i64 (?r + 100) = ?r + 100" by (simp add: i64_id in_i64_def MinSpeed_def)
  then show ?thesis
    using transfer_time_exact [OF assms(1,2,3)] transfer_time_exact [OF assms(1,4,5)] \<open>0 \<le> ?r\<close>
    by (simp add: bounded_def option_consts)
qed

theorem TaskTimeout_large_transfers_witness:
  "TaskTimeout demo_app TypeTaskDownloadObject (4 * 1024 * 1024 * 1024) = Returns 2
   \<and> TaskTimeout demo_app TypeTaskRecoverPiece 1 = Returns 50"
proof -
  have "uint (4 * 1024 * 1024 * 1024 :: uint64) = 4294967296" by simp
  then show ?thesis
    using TaskTimeout_large_transfers [of "4 * 1024 * 1024 * 1024" demo_app] TaskTimeout_large_transfers [of 1 demo_app]
    by (simp add: demo_app_def option_consts)
qed

fun level_limit :: "TPriorityLevel \<Rightarrow> Limit" where
  "level_limit TLowPriorityLevel = GfSpLim (zero_limit\<lparr>Tasks := 1, TasksLowPriority := 1\<rparr>)"
| "level_limit TMediumPriorityLevel = GfSpLim (zero_limit\<lparr>Tasks := 1, TasksMediumPriority := 1\<rparr>)"
| "level_limit THighPriorityLevel = GfSpLim (zero_limit\<lparr>Tasks := 1, TasksHighPriority := 1\<rparr>)"

text \<open>
  The two views of a task's priority class disagree at one priority only: the class a resource
  estimate reserves (\<open>LimitEstimateByPriority\<close>) and the level (\<open>TaskPriorityLevel\<close>) are the same
  except at priority 85, which is a medium estimate and a low level. Receive and recovery tasks
  have exactly that priority.
\<close>

theorem priority_class_mismatch:
  "(LimitEstimateByPriority (GetPriority t) = level_limit (TaskPriorityLevel t) \<longleftrightarrow> GetPriority t \<noteq> DefaultSmallerPriority)
   \<and> TaskPriority_of TypeTaskReceivePiece = DefaultSmallerPriority
   \<and> TaskPriority_of TypeTaskRecoverPiece = DefaultSmallerPriority"
  by (auto simp: LimitEstimateByPriority_def TaskPriorityLevel_def DefaultSmallerPriority_def
      DefaultLargerTaskPriority_def zero_limit_def)

end
