(* ===== verification/Manager.thy ===== *)
theory Manager
  imports TQueue AppOptions
begin

text \<open>
  The manager module: \<open>modular/manager/manager.go\<close>, \<open>manage_task.go\<close> and \<open>manager_options.go\<close>,
  and the dispatch of tasks in \<open>base/gfspapp/manage_server.go\<close>. The manager keeps the queues of
  the upload pipeline (upload, resumable upload, replicate, seal), of receive confirmations, garbage
  collection, recovery, and two caches, and moves tasks between them when executors report.

  A handler is a function from the state to its error result and the new state. Its calls to the
  metadata database are logged in \<open>db_log\<close>; what they answer is a parameter \<open>db\<close>, a function of
  the call. A goroutine that a handler starts is a \<open>job\<close> in \<open>jobs\<close>, run later by \<open>run_job\<close>;
  the updates started by retire strategies are in the \<open>spawned\<close> log of their queue. A nil task
  is \<open>None\<close>. The handlers are run one at a time. Log lines and metrics, and what evaluating their
  arguments does, are not modelled in this theory. The text of an upload event is a list of pieces.
\<close>

section \<open>State\<close>

datatype TaskState =
    TASK_STATE_UPLOAD_OBJECT_ERROR | TASK_STATE_REPLICATE_OBJECT_DOING | TASK_STATE_REPLICATE_OBJECT_ERROR
  | TASK_STATE_SEAL_OBJECT_DOING | TASK_STATE_SEAL_OBJECT_DONE | TASK_STATE_SEAL_OBJECT_ERROR

text \<open>An error description is a fixed text or the text of an error.\<close>

datatype err_text = TextOf string | TextOfError GfSpError

record UploadObjectMeta =
  um_ObjectID :: uint64
  um_TaskState :: TaskState
  um_SecondaryAddresses :: "string list"
  um_SecondarySignatures :: "bytes list"
  um_ErrorDescription :: err_text

record GCObjectMeta =
  gm_TaskKey :: string
  gm_StartBlockHeight :: uint64
  gm_EndBlockHeight :: uint64
  gm_CurrentBlockHeight :: uint64
  gm_LastDeletedObjectID :: uint64

datatype db_call =
    InsertUploadProgress uint64
  | UpdateUploadProgress UploadObjectMeta
  | InsertGCObjectProgress string GCObjectMeta
  | UpdateGCObjectProgress GCObjectMeta
  | DeleteGCObjectProgress string
  | InsertUploadEvent uint64 string "err_text list"

datatype job =
    JobUpdateProgress UploadObjectMeta
  | JobFailedReplicate GfSpReplicatePieceTask
  | JobSealDone GfSpSealObjectTask
  | JobFailedSeal GfSpSealObjectTask
  | JobReceiveSealed GfSpReceivePieceTask
  | JobReceiveQueue GfSpReceivePieceTask
  | JobFailedReceive GfSpReceivePieceTask

type_synonym queue = "UploadObjectMeta tqueue"

record ManageModular =
  baseApp :: GfSpBaseApp
  enableLoadTask :: bool
  loadTaskLimitToReplicate :: go_int
  loadTaskLimitToSeal :: go_int
  loadTaskLimitToGC :: go_int
  uploadQueue :: queue
  resumeableUploadQueue :: queue
  replicateQueue :: queue
  sealQueue :: queue
  receiveQueue :: queue
  gcObjectQueue :: queue
  gcZombieQueue :: queue
  gcMetaQueue :: queue
  downloadQueue :: queue
  challengeQueue :: queue
  recoveryQueue :: queue
  maxUploadObjectNumber :: go_int
  gcBlockHeight :: uint64
  gcObjectBlockInterval :: uint64
  gcSafeBlockDistance :: uint64
  jobs :: "job list"
  db_log :: "db_call list"

definition ErrDanglingTask :: GfSpError where "ErrDanglingTask = registered (manager_errors ! 0)"
definition ErrRepeatedTask :: GfSpError where "ErrRepeatedTask = registered (manager_errors ! 1)"
definition ErrExceedTask :: GfSpError where "ErrExceedTask = registered (manager_errors ! 2)"
definition ErrCanceledTask :: GfSpError where "ErrCanceledTask = registered (manager_errors ! 3)"
definition ErrFutureSupport :: GfSpError where "ErrFutureSupport = registered (manager_errors ! 4)"
definition ErrGfSpDB :: GfSpError where "ErrGfSpDB = registered (manager_errors ! 5)"

section \<open>Retire and filter strategies\<close>

definition object_id :: "Task \<Rightarrow> uint64" where
  "object_id t = Id (object_of (GetObjectInfo t))"

definition progress :: "uint64 \<Rightarrow> TaskState \<Rightarrow> err_text \<Rightarrow> UploadObjectMeta" where
  "progress oid st txt = \<lparr>um_ObjectID = oid, um_TaskState = st, um_SecondaryAddresses = [],
     um_SecondarySignatures = [], um_ErrorDescription = txt\<rparr>"

definition GCUploadObjectQueue :: "UploadObjectMeta strategy" where
  "GCUploadObjectQueue now task =
     (if Expired now task
      then (True, task, [progress (object_id task) TASK_STATE_UPLOAD_OBJECT_ERROR (TextOf ''expired'')])
      else (False, task, []))"

definition GCResumableUploadObjectQueue :: "UploadObjectMeta strategy" where
  "GCResumableUploadObjectQueue now task =
     (if Expired now task
      then (True, task, [progress (object_id task) TASK_STATE_UPLOAD_OBJECT_ERROR (TextOf ''expired'')])
      else (False, task, []))"

definition GCReplicatePieceQueue :: "UploadObjectMeta strategy" where
  "GCReplicatePieceQueue now task =
     (if Expired now task
      then (True, task, [progress (object_id task) TASK_STATE_REPLICATE_OBJECT_ERROR (TextOf ''expired'')])
      else (False, task, []))"

definition GCSealObjectQueue :: "UploadObjectMeta strategy" where
  "GCSealObjectQueue now task =
     (if Expired now task
      then (True, task, [progress (object_id task) TASK_STATE_SEAL_OBJECT_ERROR (TextOf ''expired'')])
      else (False, task, []))"

definition GCReceiveQueue :: "UploadObjectMeta strategy" where
  "GCReceiveQueue now task = (Expired now task, task, [])"

definition GCRecoverQueue :: "UploadObjectMeta strategy" where
  "GCRecoverQueue now task = (ExceedRetry task \<or> ExceedTimeout now task, task, [])"

text \<open>The only strategy that changes the task it is asked about.\<close>

definition ResetGCObjectTask :: "UploadObjectMeta strategy" where
  "ResetGCObjectTask now task = (False, if Expired now task then SetRetry 0 task else task, [])"

definition GCCacheQueue :: "UploadObjectMeta strategy" where
  "GCCacheQueue now task = (True, task, [])"

definition FilterGCTask :: "int64 \<Rightarrow> Task \<Rightarrow> bool" where
  "FilterGCTask now task = (GetRetry task = 0)"

definition FilterUploadingTask :: "int64 \<Rightarrow> Task \<Rightarrow> bool" where
  "FilterUploadingTask now task =
     (if ExceedRetry task then False
      else if ExceedTimeout now task then True
      else if GetRetry task = 0 then True
      else False)"

section \<open>Start\<close>

definition Start :: "ManageModular \<Rightarrow> ManageModular" where
  "Start m = m
     \<lparr>uploadQueue := SetRetireTaskStrategy GCUploadObjectQueue (uploadQueue m),
      resumeableUploadQueue := SetRetireTaskStrategy GCResumableUploadObjectQueue (resumeableUploadQueue m),
      replicateQueue := SetFilterTaskStrategy FilterUploadingTask
        (SetRetireTaskStrategy GCReplicatePieceQueue (replicateQueue m)),
      sealQueue := SetFilterTaskStrategy FilterUploadingTask (SetRetireTaskStrategy GCSealObjectQueue (sealQueue m)),
      receiveQueue := SetFilterTaskStrategy FilterUploadingTask (SetRetireTaskStrategy GCReceiveQueue (receiveQueue m)),
      gcObjectQueue := SetFilterTaskStrategy FilterGCTask (SetRetireTaskStrategy ResetGCObjectTask (gcObjectQueue m)),
      downloadQueue := SetRetireTaskStrategy GCCacheQueue (downloadQueue m),
      challengeQueue := SetRetireTaskStrategy GCCacheQueue (challengeQueue m),
      recoveryQueue := SetFilterTaskStrategy FilterUploadingTask (SetRetireTaskStrategy GCRecoverQueue (recoveryQueue m))\<rparr>"

text \<open>
  The parallelism settings that \<open>DefaultManagerOptions\<close> reads; a zero setting takes the default.
\<close>

record Parallel =
  GlobalMaxUploadingParallel :: go_int
  GlobalUploadObjectParallel :: go_int
  GlobalReplicatePieceParallel :: go_int
  GlobalSealObjectParallel :: go_int
  GlobalReceiveObjectParallel :: go_int
  GlobalGCObjectParallel :: go_int
  GlobalGCZombieParallel :: go_int
  GlobalGCMetaParallel :: go_int
  GlobalDownloadObjectTaskCacheSize :: go_int
  GlobalChallengePieceTaskCacheSize :: go_int
  GlobalGcObjectBlockInterval :: uint64
  GlobalGcObjectSafeBlockDistance :: uint64
  GlobalRecoveryPieceParallel :: go_int

definition or_default :: "'a \<Rightarrow> 'a :: zero \<Rightarrow> 'a" where
  "or_default d x = (if x = 0 then d else x)"

definition DefaultManagerOptions :: "GfSpBaseApp \<Rightarrow> bool \<Rightarrow> Parallel \<Rightarrow> ManageModular" where
  "DefaultManagerOptions app load cfg =
     (let upload = or_default 10240 (GlobalUploadObjectParallel cfg);
          rep = or_default 10240 (GlobalReplicatePieceParallel cfg);
          seal = or_default 10240 (GlobalSealObjectParallel cfg);
          gc = or_default 4 (GlobalGCObjectParallel cfg)
      in \<lparr>baseApp = app, enableLoadTask = load, loadTaskLimitToReplicate = rep, loadTaskLimitToSeal = seal,
          loadTaskLimitToGC = gc,
          uploadQueue = NewGfSpTQueue ''manager-upload-object'' upload,
          resumeableUploadQueue = NewGfSpTQueue ''manager-resumeable-upload-object'' upload,
          replicateQueue = NewGfSpTQueueWithLimit ''manager-replicate-piece'' rep,
          sealQueue = NewGfSpTQueueWithLimit ''manager-seal-object'' seal,
          receiveQueue = NewGfSpTQueueWithLimit ''manager-confirm-receive-piece''
            (or_default 10240 (GlobalReceiveObjectParallel cfg)),
          gcObjectQueue = NewGfSpTQueueWithLimit ''manager-gc-object'' gc,
          gcZombieQueue = NewGfSpTQueueWithLimit ''manager-gc-zombie'' (or_default 1 (GlobalGCZombieParallel cfg)),
          gcMetaQueue = NewGfSpTQueueWithLimit ''manager-gc-meta'' (or_default 1 (GlobalGCMetaParallel cfg)),
          downloadQueue = NewGfSpTQueue ''manager-cache-download-object''
            (or_default 4096 (GlobalDownloadObjectTaskCacheSize cfg)),
          challengeQueue = NewGfSpTQueue ''manager-cache-challenge-piece''
            (or_default 4096 (GlobalChallengePieceTaskCacheSize cfg)),
          recoveryQueue = NewGfSpTQueueWithLimit ''manager-recovery-piece''
            (or_default 7 (GlobalRecoveryPieceParallel cfg)),
          maxUploadObjectNumber = or_default 40960 (GlobalMaxUploadingParallel cfg),
          gcBlockHeight = 0,
          gcObjectBlockInterval = or_default 1000 (GlobalGcObjectBlockInterval cfg),
          gcSafeBlockDistance = or_default 1000 (GlobalGcObjectSafeBlockDistance cfg),
          jobs = [], db_log = []\<rparr>)"

section \<open>Checks shared by the handlers\<close>

definition spawn :: "job \<Rightarrow> ManageModular \<Rightarrow> ManageModular" where
  "spawn j m = m\<lparr>jobs := jobs m @ [j]\<rparr>"

definition log_db :: "db_call \<Rightarrow> ManageModular \<Rightarrow> ManageModular" where
  "log_db c m = m\<lparr>db_log := db_log m @ [c]\<rparr>"

definition TaskUploading :: "int64 \<Rightarrow> ManageModular \<Rightarrow> string \<Rightarrow> bool \<times> ManageModular" where
  "TaskUploading now m key =
     (case Has now (uploadQueue m) key of (b, q) \<Rightarrow>
      let m = m\<lparr>uploadQueue := q\<rparr> in if b then (True, m) else
      case Has now (replicateQueue m) key of (b, q) \<Rightarrow>
      let m = m\<lparr>replicateQueue := q\<rparr> in if b then (True, m) else
      case Has now (sealQueue m) key of (b, q) \<Rightarrow>
      let m = m\<lparr>sealQueue := q\<rparr> in if b then (True, m) else
      case Has now (resumeableUploadQueue m) key of (b, q) \<Rightarrow>
      let m = m\<lparr>resumeableUploadQueue := q\<rparr> in if b then (True, m) else (False, m))"

definition TaskRecovering :: "int64 \<Rightarrow> ManageModular \<Rightarrow> string \<Rightarrow> bool \<times> ManageModular" where
  "TaskRecovering now m key =
     (case Has now (recoveryQueue m) key of (b, q) \<Rightarrow> (b, m\<lparr>recoveryQueue := q\<rparr>))"

definition UploadingObjectNumber :: "ManageModular \<Rightarrow> go_int" where
  "UploadingObjectNumber m =
     Len (uploadQueue m) + Len (replicateQueue m) + Len (sealQueue m) + Len (resumeableUploadQueue m)"

section \<open>Handlers of the upload pipeline\<close>

type_synonym handler_result = "(GfSpError option \<times> ManageModular) go"

definition HandleCreateUploadObjectTask ::
  "int64 \<Rightarrow> (db_call \<Rightarrow> string option) \<Rightarrow> ManageModular \<Rightarrow> GfSpUploadObjectTask option \<Rightarrow> handler_result" where
  "HandleCreateUploadObjectTask now db m task =
     (case task of
        None \<Rightarrow> Returns (Some ErrDanglingTask, m)
      | Some t \<Rightarrow>
          if UploadingObjectNumber m \<ge> maxUploadObjectNumber m then Returns (Some ErrExceedTask, m)
          else if up_ObjectInfo t = None then Panics
          else case TaskUploading now m (Key (UploadObjectTask t)) of
                 (True, m) \<Rightarrow> Returns (Some ErrRepeatedTask, m)
               | (False, m) \<Rightarrow>
                   (case Push now (uploadQueue m) (UploadObjectTask t) of
                      (Some err, q) \<Rightarrow> Returns (Some err, m\<lparr>uploadQueue := q\<rparr>)
                    | (None, q) \<Rightarrow>
                        let c = InsertUploadProgress (object_id (UploadObjectTask t));
                            m = log_db c (m\<lparr>uploadQueue := q\<rparr>)
                        in Returns (case db c of Some _ \<Rightarrow> Some ErrGfSpDB | None \<Rightarrow> None, m)))"

text \<open>The part of the two done-handlers after the finished task has left its queue.\<close>

definition start_replicate :: "int64 \<Rightarrow> ManageModular \<Rightarrow> Task \<Rightarrow> ObjectInfo \<Rightarrow> Params \<Rightarrow> handler_result" where
  "start_replicate now m done_task object params =
     (case TaskUploading now m (Key done_task) of
        (True, m) \<Rightarrow> Returns (Some ErrRepeatedTask, m)
      | (False, m) \<Rightarrow>
          (case task_Error done_task of
             Some e \<Rightarrow> Returns (None, spawn (JobUpdateProgress
               (progress (Id object) TASK_STATE_UPLOAD_OBJECT_ERROR (TextOfError e))) m)
           | None \<Rightarrow>
               bind_go (TaskTimeout (baseApp m) TypeTaskReplicatePiece (PayloadSize object)) (\<lambda>timeout.
               let rep = InitReplicatePieceTask now (Some object) (Some params)
                           (TaskPriority_of TypeTaskReplicatePiece) timeout
                           (TaskMaxRetry (baseApp m) TypeTaskReplicatePiece)
               in case Push now (replicateQueue m) (ReplicatePieceTask rep) of
                    (Some err, q) \<Rightarrow> Returns (Some err, m\<lparr>replicateQueue := q\<rparr>)
                  | (None, q) \<Rightarrow> Returns (None, spawn (JobUpdateProgress
                      (progress (Id object) TASK_STATE_REPLICATE_OBJECT_DOING (TextOf []))) (m\<lparr>replicateQueue := q\<rparr>)))))"

definition HandleDoneUploadObjectTask :: "int64 \<Rightarrow> ManageModular \<Rightarrow> GfSpUploadObjectTask option \<Rightarrow> handler_result" where
  "HandleDoneUploadObjectTask now m task =
     (case task of
        None \<Rightarrow> Returns (Some ErrDanglingTask, m)
      | Some t \<Rightarrow>
          (case (up_ObjectInfo t, up_StorageParams t) of
             (Some object, Some params) \<Rightarrow>
               (case PopByKey now (uploadQueue m) (Key (UploadObjectTask t)) of
                  (_, q) \<Rightarrow> start_replicate now (m\<lparr>uploadQueue := q\<rparr>) (UploadObjectTask t) object params)
           | _ \<Rightarrow> Returns (Some ErrDanglingTask, m)))"

definition HandleCreateResumableUploadObjectTask ::
  "int64 \<Rightarrow> (db_call \<Rightarrow> string option) \<Rightarrow> ManageModular \<Rightarrow> GfSpResumableUploadObjectTask option \<Rightarrow> handler_result" where
  "HandleCreateResumableUploadObjectTask now db m task =
     (case task of
        None \<Rightarrow> Returns (Some ErrDanglingTask, m)
      | Some t \<Rightarrow>
          if UploadingObjectNumber m \<ge> maxUploadObjectNumber m then Returns (Some ErrExceedTask, m)
          else if ru_ObjectInfo t = None then Panics
          else case TaskUploading now m (Key (ResumableUploadObjectTask t)) of
                 (True, m) \<Rightarrow> Returns (Some ErrRepeatedTask, m)
               | (False, m) \<Rightarrow>
                   (case Push now (resumeableUploadQueue m) (ResumableUploadObjectTask t) of
                      (Some err, q) \<Rightarrow> Returns (Some err, m\<lparr>resumeableUploadQueue := q\<rparr>)
                    | (None, q) \<Rightarrow>
                        let c = InsertUploadProgress (object_id (ResumableUploadObjectTask t));
                            m = log_db c (m\<lparr>resumeableUploadQueue := q\<rparr>)
                        in Returns (case db c of
                                      Some text \<Rightarrow> if str_contains text ''Duplicate entry'' then None else Some ErrGfSpDB
                                    | None \<Rightarrow> None, m)))"

definition HandleDoneResumableUploadObjectTask ::
  "int64 \<Rightarrow> ManageModular \<Rightarrow> GfSpResumableUploadObjectTask option \<Rightarrow> handler_result" where
  "HandleDoneResumableUploadObjectTask now m task =
     (case task of
        None \<Rightarrow> Returns (Some ErrDanglingTask, m)
      | Some t \<Rightarrow>
          (case (ru_ObjectInfo t, ru_StorageParams t) of
             (Some object, Some params) \<Rightarrow>
               (case PopByKey now (resumeableUploadQueue m) (Key (ResumableUploadObjectTask t)) of
                  (_, q) \<Rightarrow> start_replicate now (m\<lparr>resumeableUploadQueue := q\<rparr>) (ResumableUploadObjectTask t) object params)
           | _ \<Rightarrow> Returns (Some ErrDanglingTask, m)))"

definition HandleReplicatePieceTask :: "int64 \<Rightarrow> ManageModular \<Rightarrow> GfSpReplicatePieceTask option \<Rightarrow> handler_result" where
  "HandleReplicatePieceTask now m task =
     (case task of
        None \<Rightarrow> Returns (Some ErrDanglingTask, m)
      | Some t \<Rightarrow>
          (case (rp_ObjectInfo t, rp_StorageParams t) of
             (Some object, Some params) \<Rightarrow>
               if task_Error (ReplicatePieceTask t) \<noteq> None then Returns (None, spawn (JobFailedReplicate t) m)
               else (case PopByKey now (replicateQueue m) (Key (ReplicatePieceTask t)) of (_, q) \<Rightarrow>
                 (case TaskUploading now (m\<lparr>replicateQueue := q\<rparr>) (Key (ReplicatePieceTask t)) of
                    (True, m) \<Rightarrow> Returns (Some ErrRepeatedTask, m)
                  | (False, m) \<Rightarrow>
                      if rp_Sealed t then Returns (None, spawn (JobUpdateProgress
                        (progress (Id object) TASK_STATE_SEAL_OBJECT_DONE (TextOf []))) m)
                      else
                        bind_go (TaskTimeout (baseApp m) TypeTaskSealObject 0) (\<lambda>timeout.
                        let sealObject = InitSealObjectTask now (Some object) (Some params)
                              (TaskPriority_of TypeTaskSealObject) (rp_SecondaryAddresses t) (rp_SecondarySignatures t)
                              timeout (TaskMaxRetry (baseApp m) TypeTaskSealObject)
                        in case Push now (sealQueue m) (SealObjectTask sealObject) of
                             (Some err, q) \<Rightarrow> Returns (Some err, m\<lparr>sealQueue := q\<rparr>)
                           | (None, q) \<Rightarrow> Returns (None, spawn (JobUpdateProgress
                               \<lparr>um_ObjectID = Id object, um_TaskState = TASK_STATE_SEAL_OBJECT_DOING,
                                um_SecondaryAddresses = rp_SecondaryAddresses t,
                                um_SecondarySignatures = rp_SecondarySignatures t,
                                um_ErrorDescription = TextOf []\<rparr>) (m\<lparr>sealQueue := q\<rparr>)))))
           | _ \<Rightarrow> Returns (Some ErrDanglingTask, m)))"

definition handleFailedReplicatePieceTask ::
  "int64 \<Rightarrow> (db_call \<Rightarrow> string option) \<Rightarrow> ManageModular \<Rightarrow> GfSpReplicatePieceTask \<Rightarrow> GfSpError option \<times> ManageModular" where
  "handleFailedReplicatePieceTask now db m t =
     (case PopByKey now (replicateQueue m) (Key (ReplicatePieceTask t)) of (oldTask, q) \<Rightarrow>
      case TaskUploading now (m\<lparr>replicateQueue := q\<rparr>) (Key (ReplicatePieceTask t)) of
        (True, m) \<Rightarrow> (Some ErrRepeatedTask, m)
      | (False, m) \<Rightarrow>
          (case oldTask of
             None \<Rightarrow> (Some ErrCanceledTask, m)
           | Some task \<Rightarrow>
               if \<not> ExceedRetry task then
                 (case Push now (replicateQueue m) (SetUpdateTime now task) of
                    (_, q) \<Rightarrow> (None, m\<lparr>replicateQueue := q\<rparr>))
               else let c = UpdateUploadProgress (progress (object_id task) TASK_STATE_REPLICATE_OBJECT_ERROR
                              (TextOf ''exceed_retry''))
                    in (case db c of Some _ \<Rightarrow> Some ErrGfSpDB | None \<Rightarrow> None, log_db c m)))"

definition HandleSealObjectTask :: "ManageModular \<Rightarrow> GfSpSealObjectTask option \<Rightarrow> handler_result" where
  "HandleSealObjectTask m task =
     (case task of
        None \<Rightarrow> Returns (Some ErrDanglingTask, m)
      | Some t \<Rightarrow>
          if task_Error (SealObjectTask t) \<noteq> None then Returns (None, spawn (JobFailedSeal t) m)
          else Returns (None, spawn (JobSealDone t) m))"

definition seal_done :: "int64 \<Rightarrow> ManageModular \<Rightarrow> GfSpSealObjectTask \<Rightarrow> GfSpError option \<times> ManageModular" where
  "seal_done now m t =
     (case PopByKey now (sealQueue m) (Key (SealObjectTask t)) of (_, q) \<Rightarrow>
        (None, log_db (UpdateUploadProgress (progress (object_id (SealObjectTask t)) TASK_STATE_SEAL_OBJECT_DONE (TextOf [])))
           (m\<lparr>sealQueue := q\<rparr>)))"

definition handleFailedSealObjectTask :: "int64 \<Rightarrow> ManageModular \<Rightarrow> GfSpSealObjectTask \<Rightarrow> GfSpError option \<times> ManageModular" where
  "handleFailedSealObjectTask now m t =
     (case PopByKey now (sealQueue m) (Key (SealObjectTask t)) of (oldTask, q) \<Rightarrow>
      case TaskUploading now (m\<lparr>sealQueue := q\<rparr>) (Key (SealObjectTask t)) of
        (True, m) \<Rightarrow> (Some ErrRepeatedTask, m)
      | (False, m) \<Rightarrow>
          (case oldTask of
             None \<Rightarrow> (Some ErrCanceledTask, m)
           | Some task \<Rightarrow>
               if \<not> ExceedRetry task then
                 (case Push now (sealQueue m) (SetUpdateTime now task) of (_, q) \<Rightarrow> (None, m\<lparr>sealQueue := q\<rparr>))
               else (None, log_db (UpdateUploadProgress (progress (object_id task) TASK_STATE_SEAL_OBJECT_ERROR
                       (TextOf ''exceed_retry''))) m)))"

section \<open>Receive, garbage collection, caches and recovery\<close>

text \<open>
  The key of a task without object information panics, for seal and receive tasks in their
  goroutines.
\<close>

definition HandleReceivePieceTask :: "ManageModular \<Rightarrow> GfSpReceivePieceTask \<Rightarrow> GfSpError option \<times> ManageModular" where
  "HandleReceivePieceTask m t =
     (if rv_Sealed t then (None, spawn (JobReceiveSealed t) m)
      else if task_Error (ReceivePieceTask t) \<noteq> None then (None, spawn (JobFailedReceive t) m)
      else (None, spawn (JobReceiveQueue t) m))"

definition receive_queue :: "int64 \<Rightarrow> ManageModular \<Rightarrow> GfSpReceivePieceTask \<Rightarrow> handler_result" where
  "receive_queue now m t =
     bind_go (TaskTimeout (baseApp m) TypeTaskReceivePiece 0) (\<lambda>timeout.
     let task = SetUpdateTime now (SetPriority (TaskPriority_of TypeTaskReceivePiece) (SetTimeout timeout
                  (SetMaxRetry (TaskMaxRetry (baseApp m) TypeTaskReceivePiece) (SetRetry 0 (ReceivePieceTask t)))))
     in case Push now (receiveQueue m) task of (_, q) \<Rightarrow> Returns (None, m\<lparr>receiveQueue := q\<rparr>))"

definition handleFailedReceivePieceTask :: "int64 \<Rightarrow> ManageModular \<Rightarrow> GfSpReceivePieceTask \<Rightarrow> GfSpError option \<times> ManageModular" where
  "handleFailedReceivePieceTask now m t =
     (case PopByKey now (receiveQueue m) (Key (ReceivePieceTask t)) of
        (None, q) \<Rightarrow> (Some ErrCanceledTask, m\<lparr>receiveQueue := q\<rparr>)
      | (Some task, q) \<Rightarrow>
          if \<not> ExceedRetry task then
            (case Push now q (SetUpdateTime now task) of (_, q) \<Rightarrow> (None, m\<lparr>receiveQueue := q\<rparr>))
          else (None, m\<lparr>receiveQueue := q\<rparr>))"

definition HandleGCObjectTask :: "int64 \<Rightarrow> ManageModular \<Rightarrow> GfSpGCObjectTask option \<Rightarrow> GfSpError option \<times> ManageModular" where
  "HandleGCObjectTask now m gcTask =
     (case gcTask of
        None \<Rightarrow> (Some ErrDanglingTask, m)
      | Some t \<Rightarrow>
          let key = Key (GCObjectTask t) in
          (case Has now (gcObjectQueue m) key of
             (False, q) \<Rightarrow> (Some ErrCanceledTask, m\<lparr>gcObjectQueue := q\<rparr>)
           | (True, q) \<Rightarrow>
               if gc_CurrentBlockNumber t > gc_EndBlockNumber t then
                 (case PopByKey now q key of
                    (_, q) \<Rightarrow> (None, log_db (DeleteGCObjectProgress key) (m\<lparr>gcObjectQueue := q\<rparr>)))
               else
                 (case PopByKey now q key of
                    (Some (GCObjectTask old), q) \<Rightarrow>
                      if gc_CurrentBlockNumber old > gc_CurrentBlockNumber t \<or>
                         (gc_CurrentBlockNumber old = gc_CurrentBlockNumber t \<and>
                          gc_LastDeletedObjectId old > gc_LastDeletedObjectId t)
                      then (Some ErrCanceledTask, m\<lparr>gcObjectQueue := q\<rparr>)
                      else (case Push now q (SetUpdateTime now (GCObjectTask t)) of
                              (_, q) \<Rightarrow> (None, log_db (UpdateGCObjectProgress
                                 \<lparr>gm_TaskKey = key, gm_StartBlockHeight = 0, gm_EndBlockHeight = 0,
                                  gm_CurrentBlockHeight = gc_CurrentBlockNumber t,
                                  gm_LastDeletedObjectID = gc_LastDeletedObjectId t\<rparr>) (m\<lparr>gcObjectQueue := q\<rparr>)))
                  | (_, q) \<Rightarrow> (Some ErrCanceledTask, m\<lparr>gcObjectQueue := q\<rparr>))))"

definition HandleGCZombiePieceTask :: "ManageModular \<Rightarrow> GfSpGCZombiePieceTask \<Rightarrow> GfSpError option \<times> ManageModular" where
  "HandleGCZombiePieceTask m t = (Some ErrFutureSupport, m)"

definition HandleGCMetaTask :: "ManageModular \<Rightarrow> GfSpGCMetaTask \<Rightarrow> GfSpError option \<times> ManageModular" where
  "HandleGCMetaTask m t = (Some ErrFutureSupport, m)"

definition HandleDownloadObjectTask :: "int64 \<Rightarrow> ManageModular \<Rightarrow> GfSpDownloadObjectTask \<Rightarrow> handler_result" where
  "HandleDownloadObjectTask now m t =
     (if do_ObjectInfo t = None then Panics
      else case Push now (downloadQueue m) (DownloadObjectTask t) of (_, q) \<Rightarrow> Returns (None, m\<lparr>downloadQueue := q\<rparr>))"

definition HandleChallengePieceTask :: "int64 \<Rightarrow> ManageModular \<Rightarrow> GfSpChallengePieceTask \<Rightarrow> handler_result" where
  "HandleChallengePieceTask now m t =
     (if ch_ObjectInfo t = None then Panics
      else case Push now (challengeQueue m) (ChallengePieceTask t) of (_, q) \<Rightarrow> Returns (None, m\<lparr>challengeQueue := q\<rparr>))"

definition handleFailedRecoverPieceTask :: "int64 \<Rightarrow> ManageModular \<Rightarrow> GfSpRecoverPieceTask \<Rightarrow> GfSpError option \<times> ManageModular" where
  "handleFailedRecoverPieceTask now m t =
     (case PopByKey now (recoveryQueue m) (Key (RecoverPieceTask t)) of
        (None, q) \<Rightarrow> (Some ErrCanceledTask, m\<lparr>recoveryQueue := q\<rparr>)
      | (Some task, q) \<Rightarrow>
          if \<not> ExceedRetry task then
            (case Push now q (SetUpdateTime now task) of (_, q) \<Rightarrow> (None, m\<lparr>recoveryQueue := q\<rparr>))
          else (None, m\<lparr>recoveryQueue := q\<rparr>))"

definition HandleRecoverPieceTask :: "int64 \<Rightarrow> ManageModular \<Rightarrow> GfSpRecoverPieceTask option \<Rightarrow> GfSpError option \<times> ManageModular" where
  "HandleRecoverPieceTask now m task =
     (case task of
        None \<Rightarrow> (Some ErrDanglingTask, m)
      | Some t \<Rightarrow>
          if rr_ObjectInfo t = None \<or> rr_StorageParams t = None then (Some ErrDanglingTask, m)
          else if rr_Recovered t then
            (case PopByKey now (recoveryQueue m) (Key (RecoverPieceTask t)) of (_, q) \<Rightarrow> (None, m\<lparr>recoveryQueue := q\<rparr>))
          else if task_Error (RecoverPieceTask t) \<noteq> None then handleFailedRecoverPieceTask now m t
          else (case TaskRecovering now m (Key (RecoverPieceTask t)) of
                  (True, m) \<Rightarrow> (Some ErrRepeatedTask, m)
                | (False, m) \<Rightarrow>
                    (case Push now (recoveryQueue m) (SetUpdateTime now (RecoverPieceTask t)) of
                       (err, q) \<Rightarrow> (err, m\<lparr>recoveryQueue := q\<rparr>))))"

section \<open>Goroutines\<close>

definition job_key_defined :: "job \<Rightarrow> bool" where
  "job_key_defined j =
     (case j of
        JobUpdateProgress meta \<Rightarrow> True
      | JobFailedReplicate t \<Rightarrow> key_defined (ReplicatePieceTask t)
      | JobSealDone t \<Rightarrow> key_defined (SealObjectTask t)
      | JobFailedSeal t \<Rightarrow> key_defined (SealObjectTask t)
      | JobReceiveSealed t \<Rightarrow> key_defined (ReceivePieceTask t)
      | JobReceiveQueue t \<Rightarrow> key_defined (ReceivePieceTask t)
      | JobFailedReceive t \<Rightarrow> key_defined (ReceivePieceTask t))"

definition run_job :: "int64 \<Rightarrow> (db_call \<Rightarrow> string option) \<Rightarrow> ManageModular \<Rightarrow> job \<Rightarrow> handler_result" where
  "run_job now db m j =
     (if \<not> job_key_defined j then Panics else
      case j of
        JobUpdateProgress meta \<Rightarrow> Returns (None, log_db (UpdateUploadProgress meta) m)
      | JobFailedReplicate t \<Rightarrow> Returns (handleFailedReplicatePieceTask now db m t)
      | JobSealDone t \<Rightarrow> Returns (seal_done now m t)
      | JobFailedSeal t \<Rightarrow> Returns (handleFailedSealObjectTask now m t)
      | JobReceiveSealed t \<Rightarrow>
          (case PopByKey now (receiveQueue m) (Key (ReceivePieceTask t)) of (_, q) \<Rightarrow> Returns (None, m\<lparr>receiveQueue := q\<rparr>))
      | JobReceiveQueue t \<Rightarrow> receive_queue now m t
      | JobFailedReceive t \<Rightarrow> Returns (handleFailedReceivePieceTask now m t))"

section \<open>Dispatch\<close>

text \<open>
  \<open>PickUpTask\<close> with the random number as an argument: \<open>rnd total\<close> is \<open>r.Intn(total)\<close>, which
  panics for a total of zero. \<open>sort.Slice\<close> on the at most seven candidates is an insertion sort, which
  keeps the order of candidates of equal priority.
\<close>

fun pick_weighted :: "go_int \<Rightarrow> go_int \<Rightarrow> Task list \<Rightarrow> Task option" where
  "pick_weighted randPriority acc [] = None"
| "pick_weighted randPriority acc (task # ts) =
     (let acc' = acc + uint (GetPriority task)
      in if acc' \<ge> randPriority then Some task else pick_weighted randPriority acc' ts)"

definition PickUpTask :: "(go_int \<Rightarrow> go_int) \<Rightarrow> Task list \<Rightarrow> Task option go" where
  "PickUpTask rnd ts =
     (if ts = [] then Returns None
      else if length ts = 1 then Returns (Some (ts ! 0))
      else let ts = sort_key GetPriority ts;
               totalPriority = sum_list (map (\<lambda>t. uint (GetPriority t)) ts)
           in if totalPriority \<le> 0 then Panics else Returns (pick_weighted (rnd totalPriority) 0 ts))"

definition DispatchTask :: "int64 \<Rightarrow> (go_int \<Rightarrow> go_int) \<Rightarrow> ManageModular \<Rightarrow> Limit \<Rightarrow> (Task option \<times> ManageModular) go" where
  "DispatchTask now rnd m lim =
     bind_go (TopByLimit now (replicateQueue m) lim) (\<lambda>(t1, q1).
     bind_go (TopByLimit now (sealQueue m) lim) (\<lambda>(t2, q2).
     bind_go (TopByLimit now (gcObjectQueue m) lim) (\<lambda>(t3, q3).
     bind_go (TopByLimit now (gcZombieQueue m) lim) (\<lambda>(t4, q4).
     bind_go (TopByLimit now (gcMetaQueue m) lim) (\<lambda>(t5, q5).
     bind_go (TopByLimit now (receiveQueue m) lim) (\<lambda>(t6, q6).
     bind_go (TopByLimit now (recoveryQueue m) lim) (\<lambda>(t7, q7).
       let m = m\<lparr>replicateQueue := q1, sealQueue := q2, gcObjectQueue := q3, gcZombieQueue := q4,
                 gcMetaQueue := q5, receiveQueue := q6, recoveryQueue := q7\<rparr>;
           backupTasks = List.map_filter id [t1, t2, t3, t4, t5, t6, t7]
       in bind_go (PickUpTask rnd backupTasks) (\<lambda>t. Returns (t, m)))))))))"

text \<open>
  \<open>OnAskTask\<close> of the server marks the dispatched task; the queue holds the same pointer, so the
  entry of the task changes in place.
\<close>

definition mark_dispatched :: "int64 \<Rightarrow> string \<Rightarrow> Task \<Rightarrow> Task" where
  "mark_dispatched now addr t = SetAddress addr (SetUpdateTime now (SetError None (IncRetry t)))"

definition touch :: "Task \<Rightarrow> (Task \<Rightarrow> Task) \<Rightarrow> queue \<Rightarrow> queue" where
  "touch t f q = q\<lparr>tasks := map (\<lambda>(k, u). (k, if u = t then f u else u)) (tasks q)\<rparr>"

definition OnAskTask :: "int64 \<Rightarrow> (go_int \<Rightarrow> go_int) \<Rightarrow> string \<Rightarrow> ManageModular \<Rightarrow> Limit \<Rightarrow> (Task option \<times> ManageModular) go" where
  "OnAskTask now rnd addr m lim =
     bind_go (DispatchTask now rnd m lim) (\<lambda>(task, m).
       Returns (case task of
          None \<Rightarrow> (None, m)
        | Some t \<Rightarrow> (Some (mark_dispatched now addr t),
            m\<lparr>replicateQueue := touch t (mark_dispatched now addr) (replicateQueue m),
              sealQueue := touch t (mark_dispatched now addr) (sealQueue m),
              gcObjectQueue := touch t (mark_dispatched now addr) (gcObjectQueue m),
              gcZombieQueue := touch t (mark_dispatched now addr) (gcZombieQueue m),
              gcMetaQueue := touch t (mark_dispatched now addr) (gcMetaQueue m),
              receiveQueue := touch t (mark_dispatched now addr) (receiveQueue m),
              recoveryQueue := touch t (mark_dispatched now addr) (recoveryQueue m)\<rparr>)))"

definition QueryTasks :: "ManageModular \<Rightarrow> string \<Rightarrow> Task list" where
  "QueryTasks m subKey =
     ScanTQueueBySubKey (uploadQueue m) subKey
     @ ScanTQueueWithLimitBySubKey (replicateQueue m) subKey
     @ ScanTQueueWithLimitBySubKey (receiveQueue m) subKey
     @ ScanTQueueWithLimitBySubKey (sealQueue m) subKey
     @ ScanTQueueWithLimitBySubKey (gcObjectQueue m) subKey
     @ ScanTQueueWithLimitBySubKey (gcZombieQueue m) subKey
     @ ScanTQueueWithLimitBySubKey (gcMetaQueue m) subKey
     @ ScanTQueueBySubKey (downloadQueue m) subKey
     @ ScanTQueueBySubKey (challengeQueue m) subKey
     @ ScanTQueueWithLimitBySubKey (recoveryQueue m) subKey"

section \<open>The garbage collection tick of the event loop\<close>

definition gc_tick :: "int64 \<Rightarrow> (string + uint64) \<Rightarrow> ManageModular \<Rightarrow> ManageModular go" where
  "gc_tick now currentHeight m =
     (let start = gcBlockHeight m; fin = gcBlockHeight m + gcObjectBlockInterval m in
      case currentHeight of
        Inl err \<Rightarrow> Returns m
      | Inr currentBlockHeight \<Rightarrow>
          if fin + gcSafeBlockDistance m > currentBlockHeight then Returns m
          else bind_go (TaskTimeout (baseApp m) TypeTaskGCObject 0) (\<lambda>timeout.
            let task = GCObjectTask (InitGCObjectTask now (TaskPriority_of TypeTaskGCObject) start fin timeout)
            in case Push now (gcObjectQueue m) task of
                 (Some err, q) \<Rightarrow> Returns (m\<lparr>gcObjectQueue := q\<rparr>)
               | (None, q) \<Rightarrow> Returns (log_db (InsertGCObjectProgress (Key task)
                   \<lparr>gm_TaskKey = [], gm_StartBlockHeight = start, gm_EndBlockHeight = fin,
                    gm_CurrentBlockHeight = 0, gm_LastDeletedObjectID = 0\<rparr>)
                   (m\<lparr>gcObjectQueue := q, gcBlockHeight := fin + 1\<rparr>))))"

section \<open>Rejecting an unsealed object\<close>

text \<open>
  The outcome of attempt \<open>i\<close> of sending the transaction is \<open>send i\<close>, that of listening for it
  \<open>listen i\<close>. The \<open>err\<close> of the listening call is a new variable of the inner block.
\<close>

fun reject_loop :: "(nat \<Rightarrow> string option) \<Rightarrow> (nat \<Rightarrow> string + bool) \<Rightarrow> nat \<Rightarrow> nat \<Rightarrow> string option \<Rightarrow> string option" where
  "reject_loop send listen i 0 err = err"
| "reject_loop send listen i (Suc n) err =
     (case send i of
        Some e \<Rightarrow> reject_loop send listen (Suc i) n (Some e)
      | None \<Rightarrow>
          (case listen i of
             Inl e \<Rightarrow> reject_loop send listen (Suc i) n None
           | Inr False \<Rightarrow> reject_loop send listen (Suc i) n None
           | Inr True \<Rightarrow> None))"

definition RejectUnSealObjectRetry :: nat where "RejectUnSealObjectRetry = 3"

definition RejectUnSealObject :: "(nat \<Rightarrow> string option) \<Rightarrow> (nat \<Rightarrow> string + bool) \<Rightarrow> string option" where
  "RejectUnSealObject send listen = reject_loop send listen 0 RejectUnSealObjectRetry None"

section \<open>Loading tasks from the database\<close>

fun load_replicate :: "int64 \<Rightarrow> (uint64 \<Rightarrow> ObjectInfo option) \<Rightarrow> (int64 \<Rightarrow> Params option) \<Rightarrow> UploadObjectMeta list
    \<Rightarrow> ManageModular \<Rightarrow> ManageModular go" where
  "load_replicate now query params [] m = Returns m"
| "load_replicate now query params (meta # metas) m =
     (case query (um_ObjectID meta) of
        None \<Rightarrow> load_replicate now query params metas m
      | Some object \<Rightarrow>
          if ObjectStatus object \<noteq> OBJECT_STATUS_CREATED then load_replicate now query params metas m
          else (case params (CreateAt object) of
                  None \<Rightarrow> load_replicate now query params metas m
                | Some p \<Rightarrow>
                    bind_go (TaskTimeout (baseApp m) TypeTaskReplicatePiece (PayloadSize object)) (\<lambda>timeout.
                    case Push now (replicateQueue m) (ReplicatePieceTask (InitReplicatePieceTask now (Some object) (Some p)
                           (TaskPriority_of TypeTaskReplicatePiece) timeout
                           (TaskMaxRetry (baseApp m) TypeTaskReplicatePiece))) of
                      (_, q) \<Rightarrow> load_replicate now query params metas (m\<lparr>replicateQueue := q\<rparr>))))"

fun load_seal :: "int64 \<Rightarrow> (uint64 \<Rightarrow> ObjectInfo option) \<Rightarrow> (int64 \<Rightarrow> Params option) \<Rightarrow> UploadObjectMeta list
    \<Rightarrow> ManageModular \<Rightarrow> ManageModular go" where
  "load_seal now query params [] m = Returns m"
| "load_seal now query params (meta # metas) m =
     (case query (um_ObjectID meta) of
        None \<Rightarrow> load_seal now query params metas m
      | Some object \<Rightarrow>
          if ObjectStatus object \<noteq> OBJECT_STATUS_CREATED then load_seal now query params metas m
          else (case params (CreateAt object) of
                  None \<Rightarrow> load_seal now query params metas m
                | Some p \<Rightarrow>
                    bind_go (TaskTimeout (baseApp m) TypeTaskSealObject 0) (\<lambda>timeout.
                    case Push now (sealQueue m) (SealObjectTask (InitSealObjectTask now (Some object) (Some p)
                           (TaskPriority_of TypeTaskSealObject) (um_SecondaryAddresses meta) (um_SecondarySignatures meta)
                           timeout (TaskMaxRetry (baseApp m) TypeTaskSealObject))) of
                      (_, q) \<Rightarrow> load_seal now query params metas (m\<lparr>sealQueue := q\<rparr>))))"

fun load_gc :: "int64 \<Rightarrow> GCObjectMeta list \<Rightarrow> ManageModular \<Rightarrow> ManageModular go" where
  "load_gc now [] m = Returns m"
| "load_gc now (meta # metas) m =
     bind_go (TaskTimeout (baseApp m) TypeTaskGCObject 0) (\<lambda>timeout.
     let task = SetGCObjectProgress (gm_CurrentBlockHeight meta) (gm_LastDeletedObjectID meta)
           (InitGCObjectTask now (TaskPriority_of TypeTaskGCObject) (gm_StartBlockHeight meta) (gm_EndBlockHeight meta) timeout)
     in case Push now (gcObjectQueue m) (GCObjectTask task) of
          (Some err, q) \<Rightarrow> load_gc now metas (m\<lparr>gcObjectQueue := q\<rparr>)
        | (None, q) \<Rightarrow>
            let m = m\<lparr>gcObjectQueue := q\<rparr>
            in load_gc now metas (if gm_EndBlockHeight meta \<ge> gcBlockHeight m
                                  then m\<lparr>gcBlockHeight := gm_EndBlockHeight meta + 1\<rparr> else m))"

definition LoadTaskFromDB :: "int64 \<Rightarrow> (uint64 \<Rightarrow> ObjectInfo option) \<Rightarrow> (int64 \<Rightarrow> Params option)
    \<Rightarrow> (go_int \<Rightarrow> string + UploadObjectMeta list) \<Rightarrow> (go_int \<Rightarrow> string + UploadObjectMeta list)
    \<Rightarrow> (go_int \<Rightarrow> string + GCObjectMeta list) \<Rightarrow> ManageModular \<Rightarrow> (string option \<times> ManageModular) go" where
  "LoadTaskFromDB now query params toReplicate toSeal toGC m =
     (if \<not> enableLoadTask m then Returns (None, m)
      else case toReplicate (loadTaskLimitToReplicate m) of
        Inl err \<Rightarrow> Returns (Some err, m)
      | Inr metas \<Rightarrow> bind_go (load_replicate now query params metas m) (\<lambda>m.
      case toSeal (loadTaskLimitToSeal m) of
        Inl err \<Rightarrow> Returns (Some err, m)
      | Inr metas \<Rightarrow> bind_go (load_seal now query params metas m) (\<lambda>m.
      case toGC (loadTaskLimitToGC m) of
        Inl err \<Rightarrow> Returns (Some err, m)
      | Inr metas \<Rightarrow> bind_go (load_gc now metas m) (\<lambda>m. Returns (None, m)))))"

end
