(* ===== verification/QueueFrames.thy ===== *)
theory QueueFrames
  imports Manager
begin

text \<open>
  What the operations of a queue keep, in the form the handlers of the manager need: a queue
  \<open>queue_ok g good q\<close> has the retire strategy \<open>g\<close>, stores under its key each of its tasks, all of
  them \<open>good\<close>, and holds no more tasks than its capacity. The strategies of the manager are
  instances of the interface of retire strategies.
\<close>

section \<open>Frames of the queue operations\<close>

definition queue_ok :: "'e strategy \<Rightarrow> (Task \<Rightarrow> bool) \<Rightarrow> 'e tqueue \<Rightarrow> bool" where
  "queue_ok g good q \<longleftrightarrow> gc_of q = g \<and> wf_queue good q \<and> within_cap q"

definition keys_of :: "'e tqueue \<Rightarrow> string set" where
  "keys_of q = dom (lookup q)"

lemma within_cap_mono:
  "within_cap q \<Longrightarrow> cap q' = cap q \<Longrightarrow> length (tasks q') \<le> length (tasks q) \<Longrightarrow> within_cap q'"
  by (simp add: within_cap_def)

lemma length_keys: "wf_queue good q \<Longrightarrow> length (tasks q) = card (keys_of q)"
  by (simp add: keys_of_def length_tasks)

lemma finite_keys_of [simp]: "finite (keys_of q)"
  by (simp add: keys_of_def)

lemma keys_subset_length:
  assumes "wf_queue good q" "wf_queue good q'" "keys_of q' \<subseteq> keys_of q"
  shows "length (tasks q') \<le> length (tasks q)"
  using assms card_mono [of "keys_of q" "keys_of q'"] by (simp add: length_keys)

context retire_strategy begin

lemma shrink_ok:
  assumes "queue_ok g good q" "wf_queue good q'" "same_setup q q'" "keys_of q' \<subseteq> keys_of q"
  shows "queue_ok g good q'"
proof -
  have "length (tasks q') \<le> length (tasks q)"
    using assms keys_subset_length by (auto simp: queue_ok_def)
  then show ?thesis
    using assms within_cap_mono [of q q'] same_setup_gc [OF assms(3)] by (simp add: queue_ok_def same_setup_def)
qed

lemma Has_ok:
  assumes "queue_ok g good q" "Has now q k = (b, q')"
  shows "queue_ok g good q' \<and> keys_of q' \<subseteq> keys_of q \<and> (b \<longleftrightarrow> k \<in> keys_of q')"
proof -
  have ok: "gc_of q = g" "wf_queue good q" using assms(1) by (simp_all add: queue_ok_def)
  obtain q1 where q1: "tq_has now q k = (lookup q1 k \<noteq> None, q1)" "wf_queue good q1" "same_setup q q1"
    "current q1 = current q" "lookup q1 = age g now k (lookup q)"
    using has_spec [OF ok] by blast
  have eq: "q' = q1" "b = (lookup q1 k \<noteq> None)" using q1(1) assms(2) by (auto simp: Has_def)
  have "keys_of q1 \<subseteq> keys_of q" by (auto simp: keys_of_def q1(5) dom_age)
  then show ?thesis using shrink_ok [OF assms(1) q1(2,3)] eq by (auto simp: keys_of_def)
qed

lemma PopByKey_ok:
  assumes "queue_ok g good q" "PopByKey now q k = (r, q')"
  shows "queue_ok g good q' \<and> keys_of q' = keys_of q - {k} \<and> (\<forall>t. r = Some t \<longrightarrow> Key t = k \<and> good t)"
proof -
  have ok: "gc_of q = g" "wf_queue good q" using assms(1) by (simp_all add: queue_ok_def)
  obtain q1 where q1: "PopByKey now q k = (age g now k (lookup q) k, q1)" "wf_queue good q1" "same_setup q q1"
    "current q1 = current q" "lookup q1 = (lookup q)(k := None)"
    using PopByKey_spec [OF ok] by blast
  have eq: "q' = q1" "r = age g now k (lookup q) k" using q1(1) assms(2) by auto
  have dom: "keys_of q1 = keys_of q - {k}" by (auto simp: keys_of_def q1(5))
  have "Key t = k \<and> good t" if "r = Some t" for t
  proof -
    obtain q2 where q2: "tq_has now q k = (lookup q2 k \<noteq> None, q2)" "wf_queue good q2" "same_setup q q2"
      "current q2 = current q" "lookup q2 = age g now k (lookup q)"
      using has_spec [OF ok] by blast
    then show ?thesis using that eq wf_queueD [OF q2(2), of k t] by simp
  qed
  then show ?thesis using shrink_ok [OF assms(1) q1(2,3)] dom eq by auto
qed

lemma Push_ok:
  assumes "queue_ok g good q" "good t" "Push now q t = (err, q')"
  shows "queue_ok g good q' \<and> keys_of q' \<subseteq> insert (Key t) (keys_of q) \<and> (err = None \<longrightarrow> Key t \<in> keys_of q')
    \<and> (\<forall>e. err = Some e \<longrightarrow> keys_of q' \<subseteq> keys_of q)"
proof -
  have ok: "gc_of q = g" "wf_queue good q" "within_cap q" using assms(1) by (simp_all add: queue_ok_def)
  obtain err1 q1 where q1: "Push now q t = (err1, q1)" "wf_queue good q1" "same_setup q q1" "current q1 = current q"
    "within_cap q \<longrightarrow> within_cap q1"
    "err1 = None \<longrightarrow> lookup q1 (Key t) = Some t \<and> dom (lookup q1) \<subseteq> insert (Key t) (dom (lookup q))
       \<and> (\<forall>k \<in> dom (lookup q) - dom (lookup q1). retirable g now (lookup q) k)"
    "\<forall>e. err1 = Some e \<longrightarrow> e = ErrTaskRepeated \<and> Key t \<in> dom (lookup q) \<and> dom (lookup q1) = dom (lookup q)
       \<or> e = ErrTaskQueueExceed \<and> Key t \<notin> dom (lookup q1) \<and> dom (lookup q1) = dom (lookup q) - {Key t}
         \<and> cap q \<le> int (length (tasks q1))"
    by (rule Push_spec [OF ok(1,2) assms(2), of now]) (rule that)
  have eq: "q' = q1" "err = err1" using q1(1) assms(3) by simp_all
  have "queue_ok g good q1"
    using q1(2,3,5) ok same_setup_gc [OF q1(3)] by (simp add: queue_ok_def)
  moreover have "keys_of q1 \<subseteq> insert (Key t) (keys_of q) \<and> Key t \<in> keys_of q1" if "err = None"
    using q1(6) eq(2) that by (simp add: keys_of_def domI)
  moreover have "keys_of q1 \<subseteq> keys_of q" if "err = Some e" for e
    using q1(7) eq(2) that unfolding keys_of_def by blast
  ultimately show ?thesis using eq(1) by (cases err) auto
qed

lemma TopByLimit_ok:
  assumes "queue_ok g good q" "TopByLimit now q lim = Returns (r, q')"
  shows "queue_ok g good q' \<and> keys_of q' \<subseteq> keys_of q
    \<and> (\<forall>t. r = Some t \<longrightarrow> good t \<and> lookup q' (Key t) = Some t \<and> fits lim t \<and> passes now q' t)
    \<and> (r = None \<longrightarrow> (\<forall>t \<in> ran (lookup q'). \<not> (fits lim t \<and> passes now q' t)))"
proof -
  have ok: "gc_of q = g" "wf_queue good q" using assms(1) by (simp_all add: queue_ok_def)
  let ?sel = "\<lambda>task. fits lim task \<and> passes now q task"
  obtain r1 q1 where q1: "take_top now ?sel q = (r1, q1)" "wf_queue good q1" "same_setup q q1"
    "lookup q1 = age_all g now (lookup q)" "length (tasks q1) \<le> length (tasks q)"
    "case r1 of None \<Rightarrow> current q1 = current q \<and> {t \<in> ran (lookup q1). ?sel t} = {}
     | Some t \<Rightarrow> current q1 = GetCreateTime t \<and> next_up (current q) {t \<in> ran (lookup q1). ?sel t} t"
    by (rule take_top_spec [OF ok, of now ?sel]) (rule that)
  have eq: "q' = q1" "r = r1" using q1(1) assms(2) by (auto simp: TopByLimit_def topByLimit_def split: if_splits)
  have "keys_of q1 \<subseteq> keys_of q"
    by (auto simp: keys_of_def q1(4) age_all_def split: option.splits if_splits)
  moreover have "good t \<and> lookup q1 (Key t) = Some t \<and> ?sel t" if "r1 = Some t" for t
  proof -
    have "t \<in> {t \<in> ran (lookup q1). ?sel t}"
      using q1(6) that by (simp add: next_up_def)
    then obtain k where "lookup q1 k = Some t" "?sel t" by (auto simp: ran_def)
    then show ?thesis using wf_queueD [OF q1(2)] by metis
  qed
  moreover have "\<forall>t \<in> ran (lookup q1). \<not> ?sel t" if "r1 = None"
    using q1(6) that by auto
  moreover have "passes now q1 = passes now q"
    using q1(3) by (simp add: passes_def same_setup_def fun_eq_iff)
  ultimately show ?thesis using shrink_ok [OF assms(1) q1(2,3)] eq by auto
qed

end

section \<open>The entries of each queue\<close>

text \<open>The type assertions of the strategies and handlers, and that the key can be computed.\<close>

definition upload_entry :: "Task \<Rightarrow> bool" where
  "upload_entry t \<longleftrightarrow> (case t of UploadObjectTask m \<Rightarrow> True | _ \<Rightarrow> False) \<and> key_defined t"
definition resumable_entry :: "Task \<Rightarrow> bool" where
  "resumable_entry t \<longleftrightarrow> (case t of ResumableUploadObjectTask m \<Rightarrow> True | _ \<Rightarrow> False) \<and> key_defined t"
definition replicate_entry :: "Task \<Rightarrow> bool" where
  "replicate_entry t \<longleftrightarrow> (case t of ReplicatePieceTask m \<Rightarrow> True | _ \<Rightarrow> False) \<and> key_defined t"
definition seal_entry :: "Task \<Rightarrow> bool" where
  "seal_entry t \<longleftrightarrow> (case t of SealObjectTask m \<Rightarrow> True | _ \<Rightarrow> False) \<and> key_defined t"
definition receive_entry :: "Task \<Rightarrow> bool" where
  "receive_entry t \<longleftrightarrow> (case t of ReceivePieceTask m \<Rightarrow> True | _ \<Rightarrow> False) \<and> key_defined t"
definition gc_entry :: "Task \<Rightarrow> bool" where
  "gc_entry t \<longleftrightarrow> (case t of GCObjectTask m \<Rightarrow> True | _ \<Rightarrow> False)"
definition recover_entry :: "Task \<Rightarrow> bool" where
  "recover_entry t \<longleftrightarrow> (case t of RecoverPieceTask m \<Rightarrow> True | _ \<Rightarrow> False) \<and> key_defined t"
definition download_entry :: "Task \<Rightarrow> bool" where
  "download_entry t \<longleftrightarrow> (case t of DownloadObjectTask m \<Rightarrow> True | _ \<Rightarrow> False) \<and> key_defined t"
definition challenge_entry :: "Task \<Rightarrow> bool" where
  "challenge_entry t \<longleftrightarrow> (case t of ChallengePieceTask m \<Rightarrow> True | _ \<Rightarrow> False) \<and> key_defined t"

lemmas entry_defs = upload_entry_def resumable_entry_def replicate_entry_def seal_entry_def receive_entry_def
  gc_entry_def recover_entry_def download_entry_def challenge_entry_def

lemma entries_on_task:
  "upload_entry (on_task f t) = upload_entry t" "resumable_entry (on_task f t) = resumable_entry t"
  "replicate_entry (on_task f t) = replicate_entry t" "seal_entry (on_task f t) = seal_entry t"
  "receive_entry (on_task f t) = receive_entry t" "gc_entry (on_task f t) = gc_entry t"
  "recover_entry (on_task f t) = recover_entry t" "download_entry (on_task f t) = download_entry t"
  "challenge_entry (on_task f t) = challenge_entry t"
  by (cases t; simp add: entry_defs on_task_defs)+

lemmas entries_setters [simp] =
  entries_on_task [of "base_SetUpdateTime x" for x, folded SetUpdateTime_def]
  entries_on_task [of "base_SetAddress x" for x, folded SetAddress_def]
  entries_on_task [of "base_SetTimeout x" for x, folded SetTimeout_def]
  entries_on_task [of "base_SetRetry x" for x, folded SetRetry_def]
  entries_on_task [of "base_SetMaxRetry x" for x, folded SetMaxRetry_def]
  entries_on_task [of "base_SetPriority x" for x, folded SetPriority_def]
  entries_on_task [of "base_SetError x" for x, folded SetError_def]
  entries_on_task [of base_IncRetry, folded IncRetry_def]

interpretation upload_q: retire_strategy GCUploadObjectQueue upload_entry
  by unfold_locales (auto simp: GCUploadObjectQueue_def split: if_splits)
interpretation resumable_q: retire_strategy GCResumableUploadObjectQueue resumable_entry
  by unfold_locales (auto simp: GCResumableUploadObjectQueue_def split: if_splits)
interpretation replicate_q: retire_strategy GCReplicatePieceQueue replicate_entry
  by unfold_locales (auto simp: GCReplicatePieceQueue_def split: if_splits)
interpretation seal_q: retire_strategy GCSealObjectQueue seal_entry
  by unfold_locales (auto simp: GCSealObjectQueue_def split: if_splits)
interpretation receive_q: retire_strategy GCReceiveQueue receive_entry
  by unfold_locales (auto simp: GCReceiveQueue_def)
interpretation gc_q: retire_strategy ResetGCObjectTask gc_entry
  by unfold_locales (auto simp: ResetGCObjectTask_def split: if_splits)
interpretation idle_q: retire_strategy no_strategy "\<lambda>t. False"
  by unfold_locales (auto simp: no_strategy_def)
interpretation download_q: retire_strategy GCCacheQueue download_entry
  by unfold_locales (auto simp: GCCacheQueue_def)
interpretation challenge_q: retire_strategy GCCacheQueue challenge_entry
  by unfold_locales (auto simp: GCCacheQueue_def)
interpretation recover_q: retire_strategy GCRecoverQueue recover_entry
  by unfold_locales (auto simp: GCRecoverQueue_def)

section \<open>Marking a task in place\<close>

lemma fst_touch: "map fst (tasks (touch t f q)) = map fst (tasks q)"
  by (auto simp: touch_def)

lemma keys_of_touch [simp]: "keys_of (touch t f q) = keys_of q"
  using arg_cong [OF fst_touch, of set t f q] by (simp add: keys_of_def lookup_def dom_map_of_conv_image_fst)

lemma touch_ok:
  assumes "queue_ok g good q" "\<And>u. good u \<Longrightarrow> good (f u)" "\<And>u. Key (f u) = Key u"
  shows "queue_ok g good (touch t f q)"
proof -
  have "gc_of (touch t f q) = gc_of q" "length (tasks (touch t f q)) = length (tasks q)" "cap (touch t f q) = cap q"
    by (simp_all add: touch_def gc_of_def)
  moreover have "\<forall>(k, u) \<in> set (tasks (touch t f q)). Key u = k \<and> good u"
    using assms by (fastforce simp: touch_def queue_ok_def wf_queue_def)
  ultimately show ?thesis using assms(1) by (simp add: fst_touch queue_ok_def wf_queue_def within_cap_def)
qed

end
