(* ===== verification/ManageServer.thy ===== *)
theory ManageServer
  imports QueueFrames
begin

text \<open>
  The gRPC server of the manager, \<open>base/gfspapp/manage_server.go\<close>: beginning, asking for and
  reporting tasks. The messages of a request are \<open>Task\<close> values, \<open>None\<close> is an empty request. With
  the goroutines of the handlers and the garbage collection tick of the event loop, the three
  calls are the steps of the manager; the invariants of its queues hold in every state that a
  sequence of steps reaches. A call, a goroutine and a tick is one step. The source locks each queue
  for each operation on it, but holds no lock from the check of a handler to its push: what two calls do
  that overlap is no sequence of these steps, see \<open>overlapping_calls_break_exclusion\<close>.
\<close>

declare Key.simps [simp del] TaskTimeout.simps [simp del] TaskMaxRetry.simps [simp del] TaskPriority_of.simps [simp del]

section \<open>The calls of the server\<close>

definition BaseCodeSpace :: string where "BaseCodeSpace = ''gfsp-base-app''"

definition ErrUploadTaskDangling :: GfSpError where
  "ErrUploadTaskDangling = registered (BaseCodeSpace, StatusBadRequest, 990601, ''OoooH... request lost'')"
definition ErrUnsupportedTaskType :: GfSpError where
  "ErrUnsupportedTaskType = registered (BaseCodeSpace, StatusNotFound, 990602, ''unsupported task type'')"
definition ErrNoTaskMatchLimit :: GfSpError where
  "ErrNoTaskMatchLimit = registered (BaseCodeSpace, StatusNotFound, 990603, ''no task to dispatch below the require limits'')"

text \<open>
  Each call logs \<open>task.Info()\<close>, which computes the limit estimate of the task: a task whose estimate
  panics is not served.
\<close>

definition OnBeginUploadObjectTask ::
  "int64 \<Rightarrow> (db_call \<Rightarrow> string option) \<Rightarrow> ManageModular \<Rightarrow> GfSpUploadObjectTask option \<Rightarrow> handler_result" where
  "OnBeginUploadObjectTask now db m task =
     (case task of
        None \<Rightarrow> Returns (Some ErrUploadTaskDangling, m)
      | Some t \<Rightarrow>
          if up_ObjectInfo t = None then Returns (Some ErrUploadTaskDangling, m)
          else bind_go (HandleCreateUploadObjectTask now db m (Some t)) (\<lambda>r.
               bind_go (EstimateLimit (UploadObjectTask t)) (\<lambda>_. Returns r)))"

definition OnBeginResumableUploadObjectTask ::
  "int64 \<Rightarrow> (db_call \<Rightarrow> string option) \<Rightarrow> ManageModular \<Rightarrow> GfSpResumableUploadObjectTask option \<Rightarrow> handler_result" where
  "OnBeginResumableUploadObjectTask now db m task =
     (case task of
        None \<Rightarrow> Returns (Some ErrUploadTaskDangling, m)
      | Some t \<Rightarrow>
          if ru_ObjectInfo t = None then Returns (Some ErrUploadTaskDangling, m)
          else bind_go (HandleCreateResumableUploadObjectTask now db m (Some t)) (\<lambda>r.
               bind_go (EstimateLimit (ResumableUploadObjectTask t)) (\<lambda>_. Returns r)))"

definition response_error :: "GfSpError option \<Rightarrow> GfSpError option" where
  "response_error err = MakeGfSpError (map_option GfSpErr err)"

definition ManagerReceiveAndWaitSchedulingTask :: string where
  "ManagerReceiveAndWaitSchedulingTask = ''manager_receive_and_wait_scheduling_task''"
definition ManagerSchedulingTask :: string where
  "ManagerSchedulingTask = ''manager_scheduling_task''"

definition GfSpBeginTask :: "int64 \<Rightarrow> (db_call \<Rightarrow> string option) \<Rightarrow> ManageModular \<Rightarrow> Task option \<Rightarrow> handler_result" where
  "GfSpBeginTask now db m req =
     (case req of
        None \<Rightarrow> Returns (Some ErrUploadTaskDangling, m)
      | Some (UploadObjectTask t) \<Rightarrow>
          if up_ObjectInfo t = None then Panics
          else let task = UploadObjectTask t;
                   event = (\<lambda>txt. log_db (InsertUploadEvent (object_id task) ManagerReceiveAndWaitSchedulingTask
                                     (TextOf (Key task) # txt)))
               in bind_go (OnBeginUploadObjectTask now db (event [] m) (Some t)) (\<lambda>(err, m).
                  let m = (case err of Some e \<Rightarrow> event [TextOf '':'', TextOfError e] m | None \<Rightarrow> m)
                  in Returns (response_error err, event [TextOf '':''] m))
      | Some (ResumableUploadObjectTask t) \<Rightarrow>
          bind_go (OnBeginResumableUploadObjectTask now db m (Some t)) (\<lambda>(err, m).
            Returns (response_error err, m))
      | Some _ \<Rightarrow> Returns (Some ErrUnsupportedTaskType, m))"

text \<open>The error or the task of the response.\<close>

definition GfSpAskTask :: "int64 \<Rightarrow> (go_int \<Rightarrow> go_int) \<Rightarrow> string \<Rightarrow> ManageModular \<Rightarrow> Limit
    \<Rightarrow> ((GfSpError + Task) \<times> ManageModular) go" where
  "GfSpAskTask now rnd addr m lim =
     bind_go (OnAskTask now rnd addr m lim) (\<lambda>(gfspTask, m).
       let event = (\<lambda>t. log_db (InsertUploadEvent (object_id t) ManagerSchedulingTask [TextOf (Key t)])) in
       Returns (case gfspTask of
          None \<Rightarrow> (Inl ErrNoTaskMatchLimit, m)
        | Some t \<Rightarrow>
            (case t of
               ReplicatePieceTask _ \<Rightarrow> (Inr t, event t m)
             | SealObjectTask _ \<Rightarrow> (Inr t, event t m)
             | ReceivePieceTask _ \<Rightarrow> (Inr t, m)
             | GCObjectTask _ \<Rightarrow> (Inr t, m)
             | GCZombiePieceTask _ \<Rightarrow> (Inr t, m)
             | GCMetaTask _ \<Rightarrow> (Inr t, m)
             | RecoverPieceTask _ \<Rightarrow> (Inr t, m)
             | _ \<Rightarrow> (Inl ErrUnsupportedTaskType, m))))"

fun report_handler :: "int64 \<Rightarrow> ManageModular \<Rightarrow> Task \<Rightarrow> handler_result" where
  "report_handler now m (UploadObjectTask t) = HandleDoneUploadObjectTask now m (Some t)"
| "report_handler now m (ResumableUploadObjectTask t) = HandleDoneResumableUploadObjectTask now m (Some t)"
| "report_handler now m (ReplicatePieceTask t) = HandleReplicatePieceTask now m (Some t)"
| "report_handler now m (SealObjectTask t) = HandleSealObjectTask m (Some t)"
| "report_handler now m (ReceivePieceTask t) = Returns (HandleReceivePieceTask m t)"
| "report_handler now m (GCObjectTask t) = Returns (HandleGCObjectTask now m (Some t))"
| "report_handler now m (GCZombiePieceTask t) = Returns (HandleGCZombiePieceTask m t)"
| "report_handler now m (GCMetaTask t) = Returns (HandleGCMetaTask m t)"
| "report_handler now m (DownloadObjectTask t) = HandleDownloadObjectTask now m t"
| "report_handler now m (ChallengePieceTask t) = HandleChallengePieceTask now m t"
| "report_handler now m (RecoverPieceTask t) = Returns (HandleRecoverPieceTask now m (Some t))"
| "report_handler now m t = Returns (Some ErrUnsupportedTaskType, m)"

definition GfSpReportTask :: "int64 \<Rightarrow> string \<Rightarrow> ManageModular \<Rightarrow> Task option \<Rightarrow> handler_result" where
  "GfSpReportTask now addr m req =
     (case req of
        None \<Rightarrow> Returns (Some ErrUploadTaskDangling, m)
      | Some task \<Rightarrow>
          if Type task \<in> {TypeTaskDownloadPiece, TypeTaskCreateBucketApproval, TypeTaskCreateObjectApproval,
                          TypeTaskReplicatePieceApproval}
          then Returns (Some ErrUnsupportedTaskType, m)
          else if \<not> key_defined task then Panics
          else let task = SetAddress addr task
               in bind_go (EstimateLimit task) (\<lambda>_.
                  bind_go (report_handler now m task) (\<lambda>(err, m). Returns (response_error err, m))))"

section \<open>Steps\<close>

datatype event =
    BeginTask "Task option"
  | ReportTask string "Task option"
  | AskTask "go_int \<Rightarrow> go_int" string Limit
  | RunJob nat
  | GCTick "string + uint64"

text \<open>A goroutine runs once: the job leaves the list.\<close>

definition step_event :: "int64 \<Rightarrow> (db_call \<Rightarrow> string option) \<Rightarrow> event \<Rightarrow> ManageModular \<Rightarrow> ManageModular go" where
  "step_event now db e m =
     (case e of
        BeginTask req \<Rightarrow> bind_go (GfSpBeginTask now db m req) (\<lambda>(_, m). Returns m)
      | ReportTask addr req \<Rightarrow> bind_go (GfSpReportTask now addr m req) (\<lambda>(_, m). Returns m)
      | AskTask rnd addr lim \<Rightarrow> bind_go (GfSpAskTask now rnd addr m lim) (\<lambda>(_, m). Returns m)
      | RunJob i \<Rightarrow>
          if i < length (jobs m)
          then bind_go (run_job now db (m\<lparr>jobs := take i (jobs m) @ drop (Suc i) (jobs m)\<rparr>) (jobs m ! i)) (\<lambda>(_, m). Returns m)
          else Returns m
      | GCTick height \<Rightarrow> gc_tick now height m)"

text \<open>
  \<open>reaches P m m'\<close>: a sequence of events, each satisfying \<open>P\<close> and handled without a panic, takes the
  manager from \<open>m\<close> to \<open>m'\<close>.
\<close>

inductive reaches :: "(event \<Rightarrow> bool) \<Rightarrow> ManageModular \<Rightarrow> ManageModular \<Rightarrow> bool" for P m where
  start: "reaches P m m"
| step: "reaches P m m' \<Longrightarrow> P e \<Longrightarrow> step_event now db e m' = Returns m'' \<Longrightarrow> reaches P m m''"

section \<open>Invariants of the queues\<close>

definition pipeline_ok :: "ManageModular \<Rightarrow> bool" where
  "pipeline_ok m \<longleftrightarrow> queue_ok GCUploadObjectQueue upload_entry (uploadQueue m)
     \<and> queue_ok GCResumableUploadObjectQueue resumable_entry (resumeableUploadQueue m)
     \<and> queue_ok GCReplicatePieceQueue replicate_entry (replicateQueue m)
     \<and> queue_ok GCSealObjectQueue seal_entry (sealQueue m)"

definition others_ok :: "ManageModular \<Rightarrow> bool" where
  "others_ok m \<longleftrightarrow> queue_ok GCReceiveQueue receive_entry (receiveQueue m)
     \<and> queue_ok ResetGCObjectTask gc_entry (gcObjectQueue m)
     \<and> queue_ok no_strategy (\<lambda>t. False) (gcZombieQueue m)
     \<and> queue_ok no_strategy (\<lambda>t. False) (gcMetaQueue m)
     \<and> queue_ok GCCacheQueue download_entry (downloadQueue m)
     \<and> queue_ok GCCacheQueue challenge_entry (challengeQueue m)
     \<and> queue_ok GCRecoverQueue recover_entry (recoveryQueue m)"

text \<open>Every object is in at most one stage of the pipeline.\<close>

definition one_stage :: "ManageModular \<Rightarrow> bool" where
  "one_stage m \<longleftrightarrow> keys_of (uploadQueue m) \<inter> keys_of (replicateQueue m) = {}
     \<and> keys_of (uploadQueue m) \<inter> keys_of (sealQueue m) = {}
     \<and> keys_of (replicateQueue m) \<inter> keys_of (sealQueue m) = {}"

definition in_pipeline :: "ManageModular \<Rightarrow> string set" where
  "in_pipeline m = keys_of (uploadQueue m) \<union> keys_of (replicateQueue m) \<union> keys_of (sealQueue m)
     \<union> keys_of (resumeableUploadQueue m)"

definition managed :: "ManageModular \<Rightarrow> bool" where
  "managed m \<longleftrightarrow> pipeline_ok m \<and> others_ok m"

text \<open>The queues of the pipeline lose entries, the other queues stay.\<close>

definition shrinks :: "ManageModular \<Rightarrow> ManageModular \<Rightarrow> bool" where
  "shrinks m m' \<longleftrightarrow> keys_of (uploadQueue m') \<subseteq> keys_of (uploadQueue m)
     \<and> keys_of (replicateQueue m') \<subseteq> keys_of (replicateQueue m)
     \<and> keys_of (sealQueue m') \<subseteq> keys_of (sealQueue m)
     \<and> keys_of (resumeableUploadQueue m') \<subseteq> keys_of (resumeableUploadQueue m)"

definition same_others :: "ManageModular \<Rightarrow> ManageModular \<Rightarrow> bool" where
  "same_others m m' \<longleftrightarrow> receiveQueue m' = receiveQueue m \<and> gcObjectQueue m' = gcObjectQueue m
     \<and> gcZombieQueue m' = gcZombieQueue m \<and> gcMetaQueue m' = gcMetaQueue m \<and> downloadQueue m' = downloadQueue m
     \<and> challengeQueue m' = challengeQueue m \<and> recoveryQueue m' = recoveryQueue m"

text \<open>The ranges of blocks handed out for garbage collection, as recorded in the database.\<close>

fun is_gc_insert :: "db_call \<Rightarrow> bool" where
  "is_gc_insert (InsertGCObjectProgress _ _) = True"
| "is_gc_insert _ = False"

definition gc_inserts :: "ManageModular \<Rightarrow> db_call list" where
  "gc_inserts m = filter is_gc_insert (db_log m)"

definition same_gc :: "ManageModular \<Rightarrow> ManageModular \<Rightarrow> bool" where
  "same_gc m m' \<longleftrightarrow> gcBlockHeight m' = gcBlockHeight m \<and> gcObjectBlockInterval m' = gcObjectBlockInterval m
     \<and> gc_inserts m' = gc_inserts m"

lemma same_others_ok: "same_others m m' \<Longrightarrow> others_ok m' = others_ok m"
  by (simp add: same_others_def others_ok_def)

lemma shrinks_one_stage: "shrinks m m' \<Longrightarrow> one_stage m \<Longrightarrow> one_stage m'"
  unfolding shrinks_def one_stage_def by blast

lemma log_spawn_frames [simp]:
  "pipeline_ok (log_db c m) = pipeline_ok m" "others_ok (log_db c m) = others_ok m"
  "one_stage (log_db c m) = one_stage m" "pipeline_ok (spawn j m) = pipeline_ok m"
  "others_ok (spawn j m) = others_ok m" "one_stage (spawn j m) = one_stage m"
  "managed (log_db c m) = managed m" "managed (spawn j m) = managed m"
  "managed (m\<lparr>jobs := js\<rparr>) = managed m" "one_stage (m\<lparr>jobs := js\<rparr>) = one_stage m"
  by (simp_all add: log_db_def spawn_def pipeline_ok_def others_ok_def one_stage_def managed_def)

lemma TaskUploading_ok:
  assumes "pipeline_ok m" "TaskUploading now m k = (b, m')"
  shows "pipeline_ok m' \<and> shrinks m m' \<and> same_others m m' \<and> (b \<longleftrightarrow> k \<in> in_pipeline m')"
proof -
  obtain b1 q1 where h1: "Has now (uploadQueue m) k = (b1, q1)" by fastforce
  obtain b2 q2 where h2: "Has now (replicateQueue m) k = (b2, q2)" by fastforce
  obtain b3 q3 where h3: "Has now (sealQueue m) k = (b3, q3)" by fastforce
  obtain b4 q4 where h4: "Has now (resumeableUploadQueue m) k = (b4, q4)" by fastforce
  note ok = upload_q.Has_ok [OF _ h1] replicate_q.Has_ok [OF _ h2] seal_q.Has_ok [OF _ h3] resumable_q.Has_ok [OF _ h4]
  have "(b, m') = (if b1 then (True, m\<lparr>uploadQueue := q1\<rparr>)
     else if b2 then (True, m\<lparr>uploadQueue := q1, replicateQueue := q2\<rparr>)
     else if b3 then (True, m\<lparr>uploadQueue := q1, replicateQueue := q2, sealQueue := q3\<rparr>)
     else if b4 then (True, m\<lparr>uploadQueue := q1, replicateQueue := q2, sealQueue := q3, resumeableUploadQueue := q4\<rparr>)
     else (False, m\<lparr>uploadQueue := q1, replicateQueue := q2, sealQueue := q3, resumeableUploadQueue := q4\<rparr>))"
    using assms(2) by (cases b1; cases b2; cases b3; cases b4) (simp_all add: TaskUploading_def h1 h2 h3 h4 Let_def)
  then show ?thesis using assms(1) ok
    by (auto simp: pipeline_ok_def shrinks_def same_others_def in_pipeline_def split: if_splits)
qed

text \<open>
  The steps of the handlers on one queue: removing an entry keeps everything, adding one keeps
  \<open>one_stage\<close> when its key is in no other stage.
\<close>

definition keeps :: "ManageModular \<Rightarrow> ManageModular \<Rightarrow> bool" where
  "keeps m m' \<longleftrightarrow> (managed m \<longrightarrow> managed m') \<and> (managed m \<longrightarrow> one_stage m \<longrightarrow> one_stage m')
     \<and> same_gc m m'"

lemma keeps_refl [simp]: "keeps m m"
  by (simp add: keeps_def same_gc_def)

lemma keeps_trans [trans]: "keeps m m' \<Longrightarrow> keeps m' m'' \<Longrightarrow> keeps m m''"
  by (auto simp: keeps_def same_gc_def)

lemma keeps_log_spawn [simp]:
  "\<not> is_gc_insert c \<Longrightarrow> keeps m (log_db c m') = keeps m m'" "keeps m (spawn j m') = keeps m m'"
  by (simp_all add: keeps_def same_gc_def log_db_def spawn_def gc_inserts_def managed_def pipeline_ok_def others_ok_def
      one_stage_def)

lemma TaskUploading_same_gc: "TaskUploading now m k = (b, m') \<Longrightarrow> same_gc m m'"
  by (auto simp: TaskUploading_def same_gc_def gc_inserts_def Let_def split: prod.splits if_splits)

lemma TaskUploading_keeps:
  assumes "TaskUploading now m k = (b, m')"
  shows "keeps m m'"
  using TaskUploading_ok [OF _ assms] TaskUploading_same_gc [OF assms] same_others_ok [of m m'] shrinks_one_stage [of m m']
  by (auto simp: keeps_def managed_def)

lemma pop_keeps:
  "PopByKey now (uploadQueue m) k = (r, q) \<Longrightarrow> keeps m (m\<lparr>uploadQueue := q\<rparr>)"
  "PopByKey now (resumeableUploadQueue m) k = (r, q) \<Longrightarrow> keeps m (m\<lparr>resumeableUploadQueue := q\<rparr>)"
  "PopByKey now (replicateQueue m) k = (r, q) \<Longrightarrow> keeps m (m\<lparr>replicateQueue := q\<rparr>)"
  "PopByKey now (sealQueue m) k = (r, q) \<Longrightarrow> keeps m (m\<lparr>sealQueue := q\<rparr>)"
  "PopByKey now (receiveQueue m) k = (r, q) \<Longrightarrow> keeps m (m\<lparr>receiveQueue := q\<rparr>)"
  "PopByKey now (gcObjectQueue m) k = (r, q) \<Longrightarrow> keeps m (m\<lparr>gcObjectQueue := q\<rparr>)"
  "PopByKey now (recoveryQueue m) k = (r, q) \<Longrightarrow> keeps m (m\<lparr>recoveryQueue := q\<rparr>)"
  using upload_q.PopByKey_ok [of "uploadQueue m" now k r q] resumable_q.PopByKey_ok [of "resumeableUploadQueue m" now k r q]
    replicate_q.PopByKey_ok [of "replicateQueue m" now k r q] seal_q.PopByKey_ok [of "sealQueue m" now k r q]
    receive_q.PopByKey_ok [of "receiveQueue m" now k r q] gc_q.PopByKey_ok [of "gcObjectQueue m" now k r q]
    recover_q.PopByKey_ok [of "recoveryQueue m" now k r q]
  by (auto simp: keeps_def same_gc_def gc_inserts_def managed_def pipeline_ok_def others_ok_def one_stage_def)

lemma extend_keeps:
  assumes "k \<notin> in_pipeline m"
  shows "(managed m \<Longrightarrow> queue_ok GCUploadObjectQueue upload_entry q \<and> keys_of q \<subseteq> insert k (keys_of (uploadQueue m)))
      \<Longrightarrow> keeps m (m\<lparr>uploadQueue := q\<rparr>)"
    "(managed m \<Longrightarrow> queue_ok GCReplicatePieceQueue replicate_entry q \<and> keys_of q \<subseteq> insert k (keys_of (replicateQueue m)))
      \<Longrightarrow> keeps m (m\<lparr>replicateQueue := q\<rparr>)"
    "(managed m \<Longrightarrow> queue_ok GCSealObjectQueue seal_entry q \<and> keys_of q \<subseteq> insert k (keys_of (sealQueue m)))
      \<Longrightarrow> keeps m (m\<lparr>sealQueue := q\<rparr>)"
  using assms unfolding keeps_def same_gc_def gc_inserts_def managed_def pipeline_ok_def others_ok_def one_stage_def in_pipeline_def
  by (simp_all, blast+)

lemma push_keeps:
  "Push now (uploadQueue m) t = (err, q) \<Longrightarrow> upload_entry t \<Longrightarrow> Key t \<notin> in_pipeline m \<Longrightarrow> keeps m (m\<lparr>uploadQueue := q\<rparr>)"
  "Push now (replicateQueue m) t = (err, q) \<Longrightarrow> replicate_entry t \<Longrightarrow> Key t \<notin> in_pipeline m \<Longrightarrow> keeps m (m\<lparr>replicateQueue := q\<rparr>)"
  "Push now (sealQueue m) t = (err, q) \<Longrightarrow> seal_entry t \<Longrightarrow> Key t \<notin> in_pipeline m \<Longrightarrow> keeps m (m\<lparr>sealQueue := q\<rparr>)"
proof -
  show "keeps m (m\<lparr>uploadQueue := q\<rparr>)"
    if "Push now (uploadQueue m) t = (err, q)" "upload_entry t" "Key t \<notin> in_pipeline m"
    using that upload_q.Push_ok [OF _ that(2,1)]
    by (intro extend_keeps(1) [of "Key t"]) (simp_all add: managed_def pipeline_ok_def)
  show "keeps m (m\<lparr>replicateQueue := q\<rparr>)"
    if "Push now (replicateQueue m) t = (err, q)" "replicate_entry t" "Key t \<notin> in_pipeline m"
    using that replicate_q.Push_ok [OF _ that(2,1)]
    by (intro extend_keeps(2) [of "Key t"]) (simp_all add: managed_def pipeline_ok_def)
  show "keeps m (m\<lparr>sealQueue := q\<rparr>)"
    if "Push now (sealQueue m) t = (err, q)" "seal_entry t" "Key t \<notin> in_pipeline m"
    using that seal_q.Push_ok [OF _ that(2,1)]
    by (intro extend_keeps(3) [of "Key t"]) (simp_all add: managed_def pipeline_ok_def)
qed

lemma push_others_keeps:
  "Push now (resumeableUploadQueue m) t = (err, q) \<Longrightarrow> resumable_entry t \<Longrightarrow> keeps m (m\<lparr>resumeableUploadQueue := q\<rparr>)"
  "Push now (receiveQueue m) t = (err, q) \<Longrightarrow> receive_entry t \<Longrightarrow> keeps m (m\<lparr>receiveQueue := q\<rparr>)"
  "Push now (gcObjectQueue m) t = (err, q) \<Longrightarrow> gc_entry t \<Longrightarrow> keeps m (m\<lparr>gcObjectQueue := q\<rparr>)"
  "Push now (downloadQueue m) t = (err, q) \<Longrightarrow> download_entry t \<Longrightarrow> keeps m (m\<lparr>downloadQueue := q\<rparr>)"
  "Push now (challengeQueue m) t = (err, q) \<Longrightarrow> challenge_entry t \<Longrightarrow> keeps m (m\<lparr>challengeQueue := q\<rparr>)"
  "Push now (recoveryQueue m) t = (err, q) \<Longrightarrow> recover_entry t \<Longrightarrow> keeps m (m\<lparr>recoveryQueue := q\<rparr>)"
  using resumable_q.Push_ok [of "resumeableUploadQueue m" t now err q] receive_q.Push_ok [of "receiveQueue m" t now err q]
    gc_q.Push_ok [of "gcObjectQueue m" t now err q] download_q.Push_ok [of "downloadQueue m" t now err q]
    challenge_q.Push_ok [of "challengeQueue m" t now err q] recover_q.Push_ok [of "recoveryQueue m" t now err q]
  by (auto simp: keeps_def same_gc_def gc_inserts_def managed_def pipeline_ok_def others_ok_def one_stage_def)

lemma managed_keeps: "managed m \<Longrightarrow> keeps m m' \<Longrightarrow> managed m'"
  by (simp add: keeps_def)

lemma TaskUploading_free: "managed m \<Longrightarrow> TaskUploading now m k = (False, m') \<Longrightarrow> k \<notin> in_pipeline m'"
  using TaskUploading_ok [of m now k False m'] by (simp add: managed_def)

lemma entry_simps [simp]:
  "gc_entry (GCObjectTask g)" "recover_entry (RecoverPieceTask r) \<longleftrightarrow> rr_ObjectInfo r \<noteq> None"
  by (simp_all add: gc_entry_def recover_entry_def)

section \<open>Every handler keeps the invariants\<close>

lemma create_upload_keeps:
  assumes "managed m" "HandleCreateUploadObjectTask now db m task = Returns (e, m')"
  shows "keeps m m'"
proof (cases task)
  case None
  then show ?thesis using assms(2) by (simp add: HandleCreateUploadObjectTask_def)
next
  case (Some t)
  obtain b m1 where u: "TaskUploading now m (Key (UploadObjectTask t)) = (b, m1)" by fastforce
  obtain err q where p: "Push now (uploadQueue m1) (UploadObjectTask t) = (err, q)" by fastforce
  have k1: "keeps m m1" by (rule TaskUploading_keeps [OF u])
  have "keeps m1 (m1\<lparr>uploadQueue := q\<rparr>)" if "\<not> b" "up_ObjectInfo t \<noteq> None"
    using that push_keeps(1) [OF p] TaskUploading_free [OF assms(1)] u by (simp add: upload_entry_def)
  with k1 have "keeps m (m1\<lparr>uploadQueue := q\<rparr>)" if "\<not> b" "up_ObjectInfo t \<noteq> None"
    using that keeps_trans by blast
  then show ?thesis using assms(2) Some k1 u p
    by (auto simp: HandleCreateUploadObjectTask_def Let_def split: if_splits option.splits bool.splits)
qed

lemma create_resumable_keeps:
  assumes "managed m" "HandleCreateResumableUploadObjectTask now db m task = Returns (e, m')"
  shows "keeps m m'"
proof (cases task)
  case None
  then show ?thesis using assms(2) by (simp add: HandleCreateResumableUploadObjectTask_def)
next
  case (Some t)
  obtain b m1 where u: "TaskUploading now m (Key (ResumableUploadObjectTask t)) = (b, m1)" by fastforce
  obtain err q where p: "Push now (resumeableUploadQueue m1) (ResumableUploadObjectTask t) = (err, q)" by fastforce
  have k1: "keeps m m1" by (rule TaskUploading_keeps [OF u])
  have "keeps m (m1\<lparr>resumeableUploadQueue := q\<rparr>)" if "ru_ObjectInfo t \<noteq> None"
    using that keeps_trans [OF k1 push_others_keeps(1) [OF p]] by (simp add: resumable_entry_def)
  then show ?thesis using assms(2) Some k1 u p
    by (auto simp: HandleCreateResumableUploadObjectTask_def Let_def split: if_splits option.splits bool.splits)
qed

text \<open>
  The replicate task that follows an upload has its key, and so does the seal task that follows a
  replicate task; the key of a resumable upload is another one, so that the check before pushing
  its replicate task does not look for the key that is pushed.
\<close>

lemma start_replicate_cases:
  assumes "start_replicate now m t object params = Returns (e, m')"
  obtains (checked) b m1 where "TaskUploading now m (Key t) = (b, m1)" "m' = m1 \<or> (\<exists>j. m' = spawn j m1)"
  | (pushed) m1 rep err q where "TaskUploading now m (Key t) = (False, m1)"
      "rp_ObjectInfo rep = Some object" "Push now (replicateQueue m1) (ReplicatePieceTask rep) = (err, q)"
      "m' = m1\<lparr>replicateQueue := q\<rparr> \<or> (\<exists>j. m' = spawn j (m1\<lparr>replicateQueue := q\<rparr>))"
proof -
  obtain b m1 where u: "TaskUploading now m (Key t) = (b, m1)" by fastforce
  show thesis
  proof (cases "b \<or> task_Error t \<noteq> None")
    case True
    then have "m' = m1 \<or> (\<exists>j. m' = spawn j m1)"
      using assms u by (auto simp: start_replicate_def split: bool.splits)
    then show thesis by (rule checked [OF u])
  next
    case False
    then obtain timeout where t: "TaskTimeout (baseApp m1) TypeTaskReplicatePiece (PayloadSize object) = Returns timeout"
      using assms u by (auto simp: start_replicate_def bind_go_Returns_iff)
    let ?rep = "InitReplicatePieceTask now (Some object) (Some params) (TaskPriority_of TypeTaskReplicatePiece)
        timeout (TaskMaxRetry (baseApp m1) TypeTaskReplicatePiece)"
    obtain err q where p: "Push now (replicateQueue m1) (ReplicatePieceTask ?rep) = (err, q)" by fastforce
    have "m' = m1\<lparr>replicateQueue := q\<rparr> \<or> (\<exists>j. m' = spawn j (m1\<lparr>replicateQueue := q\<rparr>))"
      using assms False u p t by (auto simp: start_replicate_def Let_def split: option.splits)
    with u p False show thesis by (intro pushed [of m1 ?rep err q]) (simp_all add: InitReplicatePieceTask_def)
  qed
qed

lemma start_replicate_keeps:
  assumes "managed m" "start_replicate now m t object params = Returns (e, m')" "Key t = uploading_key object"
  shows "keeps m m'"
  using assms(2)
proof (cases rule: start_replicate_cases)
  case (checked b m1)
  then show ?thesis using TaskUploading_keeps [OF checked(1)] by auto
next
  case (pushed m1 rep err q)
  have "uploading_key object \<notin> in_pipeline m1"
    using TaskUploading_free [OF assms(1) pushed(1)] assms(3) by simp
  then have "keeps m1 (m1\<lparr>replicateQueue := q\<rparr>)"
    using push_keeps(2) [OF pushed(3)] pushed(2) by (simp add: shared_keys object_of_def replicate_entry_def)
  then show ?thesis using keeps_trans [OF TaskUploading_keeps [OF pushed(1)]] pushed(4) by auto
qed

lemma start_replicate_managed:
  assumes "managed m" "start_replicate now m t object params = Returns (e, m')"
  shows "managed m' \<and> same_gc m m'"
  using assms(2)
proof (cases rule: start_replicate_cases)
  case (checked b m1)
  then have "keeps m m'" using TaskUploading_keeps [OF checked(1)] by auto
  then show ?thesis using assms(1) by (simp add: keeps_def)
next
  case (pushed m1 rep err q)
  have k: "keeps m m1" by (rule TaskUploading_keeps [OF pushed(1)])
  then have "managed m1" by (rule managed_keeps [OF assms(1)])
  then have "managed (m1\<lparr>replicateQueue := q\<rparr>)"
    using replicate_q.Push_ok [OF _ _ pushed(3)] pushed(2)
    by (simp add: managed_def pipeline_ok_def others_ok_def replicate_entry_def)
  moreover have "same_gc m (m1\<lparr>replicateQueue := q\<rparr>)" "same_gc m (spawn j (m1\<lparr>replicateQueue := q\<rparr>))" for j
    using k by (simp_all add: keeps_def same_gc_def gc_inserts_def spawn_def)
  ultimately show ?thesis using pushed(4) by auto
qed

lemma done_upload_keeps:
  assumes "managed m" "HandleDoneUploadObjectTask now m task = Returns (e, m')"
  shows "keeps m m'"
proof -
  consider "m' = m"
    | t object params r q where "up_ObjectInfo t = Some object"
      "PopByKey now (uploadQueue m) (Key (UploadObjectTask t)) = (r, q)"
      "start_replicate now (m\<lparr>uploadQueue := q\<rparr>) (UploadObjectTask t) object params = Returns (e, m')"
    using assms(2) by (auto simp: HandleDoneUploadObjectTask_def split: option.splits prod.splits)
  then show ?thesis
  proof cases
    case 2
    have k: "keeps m (m\<lparr>uploadQueue := q\<rparr>)" by (rule pop_keeps(1) [OF 2(2)])
    have "Key (UploadObjectTask t) = uploading_key object"
      using 2(1) by (simp add: shared_keys object_of_def)
    then show ?thesis
      using keeps_trans [OF k start_replicate_keeps [OF managed_keeps [OF assms(1) k] 2(3)]] by blast
  qed simp
qed

lemma replicate_piece_keeps:
  assumes "managed m" "HandleReplicatePieceTask now m task = Returns (e, m')"
  shows "keeps m m'"
proof (cases "\<exists>t object params. task = Some t \<and> rp_ObjectInfo t = Some object \<and> rp_StorageParams t = Some params
    \<and> task_Error (ReplicatePieceTask t) = None")
  case False
  then show ?thesis using assms(2) by (auto simp: HandleReplicatePieceTask_def split: option.splits if_splits)
next
  case True
  then obtain t object params where t: "task = Some t" "rp_ObjectInfo t = Some object" "rp_StorageParams t = Some params"
    "task_Error (ReplicatePieceTask t) = None"
    by blast
  obtain r q where pop: "PopByKey now (replicateQueue m) (Key (ReplicatePieceTask t)) = (r, q)" by fastforce
  obtain b m1 where u: "TaskUploading now (m\<lparr>replicateQueue := q\<rparr>) (Key (ReplicatePieceTask t)) = (b, m1)" by fastforce
  have k: "keeps m (m\<lparr>replicateQueue := q\<rparr>)" by (rule pop_keeps(3) [OF pop])
  have k1: "keeps m m1" by (rule keeps_trans [OF k TaskUploading_keeps [OF u]])
  show ?thesis
  proof (cases "b \<or> rp_Sealed t")
    case True
    then show ?thesis using assms(2) k1 t pop u by (auto simp: HandleReplicatePieceTask_def split: bool.splits)
  next
    case False
    then obtain timeout where to: "TaskTimeout (baseApp m1) TypeTaskSealObject 0 = Returns timeout"
      using assms(2) t pop u by (auto simp: HandleReplicatePieceTask_def bind_go_Returns_iff)
    obtain err q1 where p: "Push now (sealQueue m1) (SealObjectTask (InitSealObjectTask now (Some object) (Some params)
        (TaskPriority_of TypeTaskSealObject) (rp_SecondaryAddresses t) (rp_SecondarySignatures t)
        timeout (TaskMaxRetry (baseApp m1) TypeTaskSealObject))) = (err, q1)"
      by fastforce
    have "keeps m1 (m1\<lparr>sealQueue := q1\<rparr>)"
      using push_keeps(3) [OF p] TaskUploading_free [OF managed_keeps [OF assms(1) k]] u t False
      by (simp add: shared_keys InitSealObjectTask_def object_of_def seal_entry_def)
    then have "keeps m (m1\<lparr>sealQueue := q1\<rparr>)" by (rule keeps_trans [OF k1])
    then show ?thesis using assms(2) False t pop u p to
      by (auto simp: HandleReplicatePieceTask_def Let_def split: option.splits)
  qed
qed

lemma done_resumable_managed:
  assumes "managed m" "HandleDoneResumableUploadObjectTask now m task = Returns (e, m')"
  shows "managed m' \<and> same_gc m m'"
proof -
  consider "m' = m"
    | t object params r q where "ru_ObjectInfo t = Some object"
      "PopByKey now (resumeableUploadQueue m) (Key (ResumableUploadObjectTask t)) = (r, q)"
      "start_replicate now (m\<lparr>resumeableUploadQueue := q\<rparr>) (ResumableUploadObjectTask t) object params = Returns (e, m')"
    using assms(2) by (auto simp: HandleDoneResumableUploadObjectTask_def split: option.splits prod.splits)
  then show ?thesis
  proof cases
    case 1
    then show ?thesis using assms(1) by (simp add: same_gc_def)
  next
    case 2
    have k: "keeps m (m\<lparr>resumeableUploadQueue := q\<rparr>)" by (rule pop_keeps(2) [OF 2(2)])
    show ?thesis
      using start_replicate_managed [OF managed_keeps [OF assms(1) k] 2(3)] k by (simp add: keeps_def same_gc_def)
  qed
qed

text \<open>A failed task goes back to its queue: its key was in no other queue when it was taken out.\<close>

lemma failed_replicate_keeps:
  assumes "managed m" "handleFailedReplicatePieceTask now db m t = (e, m')"
  shows "keeps m m'"
proof -
  obtain old q where pop: "PopByKey now (replicateQueue m) (Key (ReplicatePieceTask t)) = (old, q)" by fastforce
  obtain b m1 where u: "TaskUploading now (m\<lparr>replicateQueue := q\<rparr>) (Key (ReplicatePieceTask t)) = (b, m1)" by fastforce
  have k: "keeps m (m\<lparr>replicateQueue := q\<rparr>)" by (rule pop_keeps(3) [OF pop])
  have k1: "keeps m m1" by (rule keeps_trans [OF k TaskUploading_keeps [OF u]])
  have "keeps m (m1\<lparr>replicateQueue := q1\<rparr>)"
    if "\<not> b" "old = Some task" "Push now (replicateQueue m1) (SetUpdateTime now task) = (err, q1)" for task err q1
  proof -
    have "Key task = Key (ReplicatePieceTask t)" "replicate_entry task"
      using replicate_q.PopByKey_ok [OF _ pop] assms(1) that(2) by (simp_all add: managed_def pipeline_ok_def)
    then show ?thesis
      using keeps_trans [OF k1 push_keeps(2) [OF that(3)]] TaskUploading_free [OF managed_keeps [OF assms(1) k]] u that(1)
      by simp
  qed
  then show ?thesis using assms(2) pop u k1
    by (auto simp: handleFailedReplicatePieceTask_def Let_def split: bool.splits option.splits if_splits prod.splits)
qed

lemma failed_seal_keeps:
  assumes "managed m" "handleFailedSealObjectTask now m t = (e, m')"
  shows "keeps m m'"
proof -
  obtain old q where pop: "PopByKey now (sealQueue m) (Key (SealObjectTask t)) = (old, q)" by fastforce
  obtain b m1 where u: "TaskUploading now (m\<lparr>sealQueue := q\<rparr>) (Key (SealObjectTask t)) = (b, m1)" by fastforce
  have k: "keeps m (m\<lparr>sealQueue := q\<rparr>)" by (rule pop_keeps(4) [OF pop])
  have k1: "keeps m m1" by (rule keeps_trans [OF k TaskUploading_keeps [OF u]])
  have "keeps m (m1\<lparr>sealQueue := q1\<rparr>)"
    if "\<not> b" "old = Some task" "Push now (sealQueue m1) (SetUpdateTime now task) = (err, q1)" for task err q1
  proof -
    have "Key task = Key (SealObjectTask t)" "seal_entry task"
      using seal_q.PopByKey_ok [OF _ pop] assms(1) that(2) by (simp_all add: managed_def pipeline_ok_def)
    then show ?thesis
      using keeps_trans [OF k1 push_keeps(3) [OF that(3)]] TaskUploading_free [OF managed_keeps [OF assms(1) k]] u that(1)
      by simp
  qed
  then show ?thesis using assms(2) pop u k1
    by (auto simp: handleFailedSealObjectTask_def Let_def split: bool.splits option.splits if_splits prod.splits)
qed

lemma receive_queue_keeps:
  assumes "receive_queue now m t = Returns (e, m')" "key_defined (ReceivePieceTask t)"
  shows "keeps m m'"
proof -
  obtain timeout where to: "TaskTimeout (baseApp m) TypeTaskReceivePiece 0 = Returns timeout"
    using assms(1) by (auto simp: receive_queue_def bind_go_Returns_iff)
  let ?task = "SetUpdateTime now (SetPriority (TaskPriority_of TypeTaskReceivePiece) (SetTimeout timeout
     (SetMaxRetry (TaskMaxRetry (baseApp m) TypeTaskReceivePiece) (SetRetry 0 (ReceivePieceTask t)))))"
  obtain err q where p: "Push now (receiveQueue m) ?task = (err, q)" by fastforce
  have "receive_entry (ReceivePieceTask t)" using assms(2) by (simp add: receive_entry_def)
  then show ?thesis using push_others_keeps(2) [OF p] assms(1) to p by (simp add: receive_queue_def)
qed

lemma failed_receive_keeps:
  assumes "managed m" "handleFailedReceivePieceTask now m t = (e, m')"
  shows "keeps m m'"
proof -
  obtain old q where pop: "PopByKey now (receiveQueue m) (Key (ReceivePieceTask t)) = (old, q)" by fastforce
  have k: "keeps m (m\<lparr>receiveQueue := q\<rparr>)" by (rule pop_keeps(5) [OF pop])
  have "keeps m (m\<lparr>receiveQueue := q1\<rparr>)"
    if "old = Some task" "Push now q (SetUpdateTime now task) = (err, q1)" for task err q1
  proof -
    have "receive_entry task"
      using receive_q.PopByKey_ok [OF _ pop] assms(1) that(1) by (simp add: managed_def others_ok_def)
    then show ?thesis
      using keeps_trans [OF k push_others_keeps(2), of now "SetUpdateTime now task" err q1] that(2) by simp
  qed
  then show ?thesis using assms(2) pop k
    by (auto simp: handleFailedReceivePieceTask_def split: option.splits if_splits prod.splits)
qed

lemma run_job_keeps:
  assumes "managed m" "run_job now db m j = Returns (e, m')"
  shows "keeps m m'"
  using assms pop_keeps(4,5) failed_replicate_keeps [of m now db] failed_seal_keeps [of m now] failed_receive_keeps [of m now]
    receive_queue_keeps [of now m]
  by (cases j) (auto simp: run_job_def job_key_defined_def seal_done_def split: prod.splits if_splits)

lemma has_keeps:
  "Has now (gcObjectQueue m) k = (b, q) \<Longrightarrow> keeps m (m\<lparr>gcObjectQueue := q\<rparr>)"
  "Has now (recoveryQueue m) k = (b, q) \<Longrightarrow> keeps m (m\<lparr>recoveryQueue := q\<rparr>)"
  using gc_q.Has_ok [of "gcObjectQueue m" now k b q] recover_q.Has_ok [of "recoveryQueue m" now k b q]
  by (auto simp: keeps_def same_gc_def gc_inserts_def managed_def pipeline_ok_def others_ok_def one_stage_def)

lemma gc_object_keeps:
  assumes "HandleGCObjectTask now m task = (e, m')"
  shows "keeps m m'"
proof (cases task)
  case (Some t)
  let ?key = "Key (GCObjectTask t)"
  obtain b q where h: "Has now (gcObjectQueue m) ?key = (b, q)" by fastforce
  obtain old q1 where pop: "PopByKey now q ?key = (old, q1)" by fastforce
  obtain err q2 where push: "Push now q1 (SetUpdateTime now (GCObjectTask t)) = (err, q2)" by fastforce
  have k: "keeps m (m\<lparr>gcObjectQueue := q\<rparr>)" by (rule has_keeps(1) [OF h])
  have k1: "keeps m (m\<lparr>gcObjectQueue := q1\<rparr>)"
    using keeps_trans [OF k pop_keeps(6) [of now _ ?key old q1]] pop by simp
  have k2: "keeps m (m\<lparr>gcObjectQueue := q2\<rparr>)"
    using keeps_trans [OF k1 push_others_keeps(3) [of now _ "SetUpdateTime now (GCObjectTask t)" err q2]] push
    by simp
  show ?thesis using assms Some h pop push k k1 k2
    by (auto simp: HandleGCObjectTask_def Let_def split: bool.splits if_splits option.splits Task.splits)
qed (use assms in \<open>simp add: HandleGCObjectTask_def\<close>)

lemma cache_keeps:
  "HandleDownloadObjectTask now m d = Returns (e, m') \<Longrightarrow> keeps m m'"
  "HandleChallengePieceTask now m c = Returns (e, m') \<Longrightarrow> keeps m m'"
  using push_others_keeps(4) [of now m "DownloadObjectTask d"] push_others_keeps(5) [of now m "ChallengePieceTask c"]
  by (auto simp: HandleDownloadObjectTask_def HandleChallengePieceTask_def download_entry_def challenge_entry_def
      split: prod.splits if_splits)

lemma failed_recover_keeps:
  assumes "managed m" "handleFailedRecoverPieceTask now m t = (e, m')"
  shows "keeps m m'"
proof -
  obtain old q where pop: "PopByKey now (recoveryQueue m) (Key (RecoverPieceTask t)) = (old, q)" by fastforce
  have k: "keeps m (m\<lparr>recoveryQueue := q\<rparr>)" by (rule pop_keeps(7) [OF pop])
  have "keeps m (m\<lparr>recoveryQueue := q1\<rparr>)"
    if "old = Some task" "Push now q (SetUpdateTime now task) = (err, q1)" for task err q1
  proof -
    have "recover_entry task"
      using recover_q.PopByKey_ok [OF _ pop] assms(1) that(1) by (simp add: managed_def others_ok_def)
    then show ?thesis
      using keeps_trans [OF k push_others_keeps(6), of now "SetUpdateTime now task" err q1] that(2) by simp
  qed
  then show ?thesis using assms(2) pop k
    by (auto simp: handleFailedRecoverPieceTask_def split: option.splits if_splits prod.splits)
qed

lemma recover_piece_keeps:
  assumes "managed m" "HandleRecoverPieceTask now m task = (e, m')"
  shows "keeps m m'"
proof (cases "\<exists>t. task = Some t \<and> rr_ObjectInfo t \<noteq> None \<and> rr_StorageParams t \<noteq> None")
  case True
  then obtain t where t: "task = Some t" "rr_ObjectInfo t \<noteq> None" "rr_StorageParams t \<noteq> None" by blast
  let ?task = "RecoverPieceTask t"
  obtain old q where pop: "PopByKey now (recoveryQueue m) (Key ?task) = (old, q)" by fastforce
  obtain b q1 where h: "Has now (recoveryQueue m) (Key ?task) = (b, q1)" by fastforce
  obtain err q2 where push: "Push now q1 (SetUpdateTime now ?task) = (err, q2)" by fastforce
  have k1: "keeps m (m\<lparr>recoveryQueue := q1\<rparr>)" by (rule has_keeps(2) [OF h])
  have k2: "keeps m (m\<lparr>recoveryQueue := q2\<rparr>)"
    using keeps_trans [OF k1 push_others_keeps(6), of now "SetUpdateTime now ?task" err q2] push t
    by simp
  show ?thesis
    using assms(2) t pop h push k1 k2 pop_keeps(7) [OF pop] failed_recover_keeps [OF assms(1), of now t e m']
    by (auto simp: HandleRecoverPieceTask_def TaskRecovering_def split: if_splits bool.splits)
qed (use assms(2) in \<open>auto simp: HandleRecoverPieceTask_def split: option.splits\<close>)

text \<open>
  A tick that hands out a range records it: the range starts at the height the last one ended
  before, and the height moves behind it.
\<close>

fun gc_chain :: "uint64 \<Rightarrow> uint64 \<Rightarrow> db_call list \<Rightarrow> uint64 \<Rightarrow> bool" where
  "gc_chain interval s [] e \<longleftrightarrow> s = e"
| "gc_chain interval s (InsertGCObjectProgress _ g # cs) e \<longleftrightarrow>
     gm_StartBlockHeight g = s \<and> gm_EndBlockHeight g = s + interval \<and> gc_chain interval (gm_EndBlockHeight g + 1) cs e"
| "gc_chain interval s (_ # cs) e \<longleftrightarrow> False"

lemma gc_chain_append:
  "gc_chain i s cs e \<Longrightarrow> gm_StartBlockHeight g = e \<Longrightarrow> gm_EndBlockHeight g = e + i
    \<Longrightarrow> gc_chain i s (cs @ [InsertGCObjectProgress k g]) (e + i + 1)"
  by (induction i s cs e rule: gc_chain.induct) auto

definition gc_sound :: "ManageModular \<Rightarrow> bool" where
  "gc_sound m \<longleftrightarrow> gc_chain (gcObjectBlockInterval m) 0 (gc_inserts m) (gcBlockHeight m)"

lemma same_gc_sound: "same_gc m m' \<Longrightarrow> gc_sound m \<Longrightarrow> gc_sound m'"
  by (simp add: same_gc_def gc_sound_def)

lemma gc_tick_cases:
  assumes "gc_tick now height m = Returns m'"
  obtains (idle) "m' = m"
  | (pushed) h t err q where "height = Inr h" "gcBlockHeight m + gcObjectBlockInterval m + gcSafeBlockDistance m \<le> h"
      "gc_StartBlockNumber t = gcBlockHeight m" "gc_EndBlockNumber t = gcBlockHeight m + gcObjectBlockInterval m"
      "Push now (gcObjectQueue m) (GCObjectTask t) = (err, q)"
      "m' = (case err of Some e \<Rightarrow> m\<lparr>gcObjectQueue := q\<rparr>
         | None \<Rightarrow> log_db (InsertGCObjectProgress (Key (GCObjectTask t))
              \<lparr>gm_TaskKey = [], gm_StartBlockHeight = gcBlockHeight m,
               gm_EndBlockHeight = gcBlockHeight m + gcObjectBlockInterval m,
               gm_CurrentBlockHeight = 0, gm_LastDeletedObjectID = 0\<rparr>)
              (m\<lparr>gcObjectQueue := q, gcBlockHeight := gcBlockHeight m + gcObjectBlockInterval m + 1\<rparr>))"
proof (cases "\<exists>h. height = Inr h \<and> gcBlockHeight m + gcObjectBlockInterval m + gcSafeBlockDistance m \<le> h")
  case True
  then obtain h where h: "height = Inr h" "gcBlockHeight m + gcObjectBlockInterval m + gcSafeBlockDistance m \<le> h" by blast
  then have nh: "\<not> gcBlockHeight m + gcObjectBlockInterval m + gcSafeBlockDistance m > h" by simp
  obtain timeout where to: "TaskTimeout (baseApp m) TypeTaskGCObject 0 = Returns timeout"
    using assms h(1) nh by (auto simp: gc_tick_def bind_go_Returns_iff Let_def)
  let ?t = "InitGCObjectTask now (TaskPriority_of TypeTaskGCObject) (gcBlockHeight m)
       (gcBlockHeight m + gcObjectBlockInterval m) timeout"
  obtain err q where p: "Push now (gcObjectQueue m) (GCObjectTask ?t) = (err, q)" by fastforce
  show thesis
    by (rule pushed [OF h, of ?t err q])
      (use assms h nh to p in \<open>auto simp: gc_tick_def Let_def InitGCObjectTask_def split: option.splits\<close>)
next
  case False
  then show thesis using idle assms by (auto simp: gc_tick_def Let_def not_le split: sum.splits if_splits)
qed

lemma gc_tick_keeps:
  assumes "gc_tick now height m = Returns m'"
  shows "managed m \<Longrightarrow> managed m' \<and> (one_stage m \<longrightarrow> one_stage m')"
    and "gc_sound m \<Longrightarrow> gc_sound m'"
    and "gcObjectBlockInterval m' = gcObjectBlockInterval m"
proof -
  have "(managed m \<longrightarrow> managed m' \<and> (one_stage m \<longrightarrow> one_stage m')) \<and> (gc_sound m \<longrightarrow> gc_sound m')
    \<and> gcObjectBlockInterval m' = gcObjectBlockInterval m"
    using assms
  proof (cases rule: gc_tick_cases)
    case (pushed h t err q)
    have k: "keeps m (m\<lparr>gcObjectQueue := q\<rparr>)" by (rule push_others_keeps(3) [OF pushed(5)]) simp
    then have "managed m \<longrightarrow> managed m' \<and> (one_stage m \<longrightarrow> one_stage m')"
      using pushed(6)
      by (auto simp: keeps_def managed_def pipeline_ok_def others_ok_def one_stage_def log_db_def split: option.splits)
    moreover have "gc_sound m \<longrightarrow> gc_sound m'"
      using pushed(6) gc_chain_append
      by (auto simp: gc_sound_def gc_inserts_def log_db_def split: option.splits)
    moreover have "gcObjectBlockInterval m' = gcObjectBlockInterval m"
      using pushed(6) by (auto simp: log_db_def split: option.splits)
    ultimately show ?thesis by blast
  qed simp
  then show "managed m \<Longrightarrow> managed m' \<and> (one_stage m \<longrightarrow> one_stage m')"
    "gc_sound m \<Longrightarrow> gc_sound m'" "gcObjectBlockInterval m' = gcObjectBlockInterval m"
    by blast+
qed

text \<open>A scan retires entries of the seven queues that executors are served from.\<close>

lemma mark_dispatched_entry [simp]:
  "Key (mark_dispatched now addr t) = Key t"
  "replicate_entry (mark_dispatched now addr t) = replicate_entry t" "seal_entry (mark_dispatched now addr t) = seal_entry t"
  "gc_entry (mark_dispatched now addr t) = gc_entry t" "receive_entry (mark_dispatched now addr t) = receive_entry t"
  "recover_entry (mark_dispatched now addr t) = recover_entry t"
  by (simp_all add: mark_dispatched_def)

lemma seven_queues_keeps:
  assumes "managed m \<Longrightarrow> queue_ok GCReplicatePieceQueue replicate_entry q1 \<and> keys_of q1 \<subseteq> keys_of (replicateQueue m)"
    "managed m \<Longrightarrow> queue_ok GCSealObjectQueue seal_entry q2 \<and> keys_of q2 \<subseteq> keys_of (sealQueue m)"
    "managed m \<Longrightarrow> queue_ok ResetGCObjectTask gc_entry q3"
    "managed m \<Longrightarrow> queue_ok no_strategy (\<lambda>t. False) q4" "managed m \<Longrightarrow> queue_ok no_strategy (\<lambda>t. False) q5"
    "managed m \<Longrightarrow> queue_ok GCReceiveQueue receive_entry q6" "managed m \<Longrightarrow> queue_ok GCRecoverQueue recover_entry q7"
  shows "keeps m (m\<lparr>replicateQueue := q1, sealQueue := q2, gcObjectQueue := q3, gcZombieQueue := q4,
                    gcMetaQueue := q5, receiveQueue := q6, recoveryQueue := q7\<rparr>)"
  using assms unfolding keeps_def same_gc_def gc_inserts_def managed_def pipeline_ok_def others_ok_def one_stage_def
  by (simp, blast)

lemma dispatch_keeps:
  assumes "DispatchTask now rnd m lim = Returns (r, m')"
  shows "keeps m m'"
proof -
  obtain t1 q1 t2 q2 t3 q3 t4 q4 t5 q5 t6 q6 t7 q7 where t:
    "TopByLimit now (replicateQueue m) lim = Returns (t1, q1)" "TopByLimit now (sealQueue m) lim = Returns (t2, q2)"
    "TopByLimit now (gcObjectQueue m) lim = Returns (t3, q3)" "TopByLimit now (gcZombieQueue m) lim = Returns (t4, q4)"
    "TopByLimit now (gcMetaQueue m) lim = Returns (t5, q5)" "TopByLimit now (receiveQueue m) lim = Returns (t6, q6)"
    "TopByLimit now (recoveryQueue m) lim = Returns (t7, q7)"
    and m': "m' = m\<lparr>replicateQueue := q1, sealQueue := q2, gcObjectQueue := q3, gcZombieQueue := q4,
                    gcMetaQueue := q5, receiveQueue := q6, recoveryQueue := q7\<rparr>"
    using assms by (auto simp: DispatchTask_def bind_go_Returns_iff Let_def)
  show ?thesis unfolding m'
    using replicate_q.TopByLimit_ok [OF _ t(1)] seal_q.TopByLimit_ok [OF _ t(2)] gc_q.TopByLimit_ok [OF _ t(3)]
      idle_q.TopByLimit_ok [OF _ t(4)] idle_q.TopByLimit_ok [OF _ t(5)] receive_q.TopByLimit_ok [OF _ t(6)]
      recover_q.TopByLimit_ok [OF _ t(7)]
    by (intro seven_queues_keeps) (simp_all add: managed_def pipeline_ok_def others_ok_def)
qed

lemma ask_keeps:
  assumes "GfSpAskTask now rnd addr m lim = Returns (r, m')"
  shows "keeps m m'"
proof -
  obtain t m1 where d: "DispatchTask now rnd m lim = Returns (t, m1)"
    using assms by (auto simp: GfSpAskTask_def OnAskTask_def bind_go_Returns_iff)
  have k: "keeps m m1" by (rule dispatch_keeps [OF d])
  show ?thesis
  proof (cases t)
    case None
    then show ?thesis using assms d k by (simp add: GfSpAskTask_def OnAskTask_def)
  next
    case (Some u)
    let ?f = "touch u (mark_dispatched now addr)"
    let ?m = "m1\<lparr>replicateQueue := ?f (replicateQueue m1), sealQueue := ?f (sealQueue m1), gcObjectQueue := ?f (gcObjectQueue m1),
         gcZombieQueue := ?f (gcZombieQueue m1), gcMetaQueue := ?f (gcMetaQueue m1), receiveQueue := ?f (receiveQueue m1),
         recoveryQueue := ?f (recoveryQueue m1)\<rparr>"
    have "keeps m1 ?m"
      by (rule seven_queues_keeps) (use touch_ok [where f = "mark_dispatched now addr" and t = u]
        in \<open>simp_all add: managed_def pipeline_ok_def others_ok_def\<close>)
    then have "keeps m ?m" by (rule keeps_trans [OF k])
    then show ?thesis using assms d Some
      by (auto simp: GfSpAskTask_def OnAskTask_def Let_def split: Task.splits)
  qed
qed

text \<open>The report of a finished resumable upload.\<close>

definition resumable_report :: "event \<Rightarrow> bool" where
  "resumable_report e = (case e of ReportTask _ (Some (ResumableUploadObjectTask _)) \<Rightarrow> True | _ \<Rightarrow> False)"

lemma begin_keeps:
  assumes "managed m" "GfSpBeginTask now db m req = Returns (r, m')"
  shows "keeps m m'"
proof -
  have up: "keeps m m2"
    if "OnBeginUploadObjectTask now db (log_db l m) (Some t) = Returns (e, m2)" "\<not> is_gc_insert l" for l t e m2
  proof -
    have k: "keeps m (log_db l m)" using that(2) by simp
    have "m2 = log_db l m \<or> HandleCreateUploadObjectTask now db (log_db l m) (Some t) = Returns (e, m2)"
      using that(1) by (auto simp: OnBeginUploadObjectTask_def bind_go_Returns_iff split: if_splits)
    then show ?thesis using k keeps_trans [OF k] create_upload_keeps [OF managed_keeps [OF assms(1) k]] by auto
  qed
  have re: "keeps m m2" if "OnBeginResumableUploadObjectTask now db m (Some t) = Returns (e, m2)" for t e m2
    using that create_resumable_keeps [OF assms(1), of now db "Some t"]
    by (auto simp: OnBeginResumableUploadObjectTask_def bind_go_Returns_iff split: if_splits)
  show ?thesis
  proof (cases "\<exists>t. req = Some (UploadObjectTask t)")
    case True
    then show ?thesis using assms(2) up
      by (auto simp: GfSpBeginTask_def bind_go_Returns_iff Let_def split: if_splits option.splits)
  next
    case False
    then show ?thesis using assms(2) re
      by (auto simp: GfSpBeginTask_def bind_go_Returns_iff split: option.splits Task.splits)
  qed
qed

lemma report_handler_keeps:
  assumes "managed m" "report_handler now m t = Returns (r, m')" "\<And>u. t \<noteq> ResumableUploadObjectTask u"
  shows "keeps m m'"
  using assms done_upload_keeps [OF assms(1)] replicate_piece_keeps [OF assms(1)] recover_piece_keeps [OF assms(1)]
    gc_object_keeps [of now m] cache_keeps [of now m]
  by (cases t) (auto simp: HandleSealObjectTask_def HandleReceivePieceTask_def HandleGCZombiePieceTask_def
      HandleGCMetaTask_def split: if_splits)

lemma report_keeps:
  assumes "managed m" "GfSpReportTask now addr m req = Returns (r, m')"
  shows "managed m' \<and> same_gc m m'" "\<not> resumable_report (ReportTask addr req) \<Longrightarrow> keeps m m'"
proof -
  consider (same) "m' = m" | (handled) t e where "req = Some t" "report_handler now m (SetAddress addr t) = Returns (e, m')"
    using assms(2) by (auto simp: GfSpReportTask_def bind_go_Returns_iff Let_def split: option.splits if_splits)
  note cases = this
  have res: "SetAddress addr t = ResumableUploadObjectTask u \<Longrightarrow> resumable_report (ReportTask addr (Some t))" for t u
    by (cases t) (simp_all add: SetAddress_def resumable_report_def)
  show "keeps m m'" if "\<not> resumable_report (ReportTask addr req)"
    using cases
  proof cases
    case handled
    show ?thesis by (rule report_handler_keeps [OF assms(1) handled(2)]) (use that res handled(1) in blast)
  qed simp
  show "managed m' \<and> same_gc m m'"
    using cases
  proof cases
    case same
    then show ?thesis using assms(1) by (simp add: same_gc_def)
  next
    case handled
    show ?thesis
    proof (cases "\<exists>u. SetAddress addr t = ResumableUploadObjectTask u")
      case True
      then show ?thesis using handled(2) done_resumable_managed [OF assms(1)] by auto
    next
      case False
      then have "keeps m m'" by (intro report_handler_keeps [OF assms(1) handled(2)]) blast
      then show ?thesis using assms(1) by (simp add: keeps_def)
    qed
  qed
qed

lemma step_keeps:
  assumes "managed m" "step_event now db e m = Returns m'"
  shows "managed m' \<and> (gc_sound m \<longrightarrow> gc_sound m') \<and> (\<not> resumable_report e \<longrightarrow> one_stage m \<longrightarrow> one_stage m')"
proof -
  have kept: ?thesis if "keeps m m'"
    using that assms(1) same_gc_sound by (auto simp: keeps_def)
  show ?thesis
  proof (cases e)
    case (BeginTask req)
    then show ?thesis using kept assms(2) begin_keeps [OF assms(1)] by (auto simp: step_event_def bind_go_Returns_iff)
  next
    case (ReportTask addr req)
    then obtain r where r: "GfSpReportTask now addr m req = Returns (r, m')"
      using assms(2) by (auto simp: step_event_def bind_go_Returns_iff)
    show ?thesis using report_keeps [OF assms(1) r] same_gc_sound ReportTask assms(1) by (auto simp: keeps_def)
  next
    case (AskTask rnd addr lim)
    then show ?thesis using kept assms(2) ask_keeps by (auto simp: step_event_def bind_go_Returns_iff)
  next
    case (RunJob i)
    let ?m = "m\<lparr>jobs := take i (jobs m) @ drop (Suc i) (jobs m)\<rparr>"
    have "keeps m ?m" by (simp add: keeps_def same_gc_def gc_inserts_def)
    moreover have "keeps ?m m'" if "i < length (jobs m)"
      using assms that RunJob by (auto simp: step_event_def bind_go_Returns_iff intro!: run_job_keeps)
    moreover have "m' = m" if "\<not> i < length (jobs m)" using assms(2) that RunJob by (simp add: step_event_def)
    ultimately have "keeps m m'" using keeps_trans by (cases "i < length (jobs m)") auto
    then show ?thesis by (rule kept)
  next
    case (GCTick height)
    then show ?thesis using assms gc_tick_keeps [of now height m m'] by (auto simp: step_event_def)
  qed
qed

lemma reaches_keeps:
  assumes "reaches P m m'" "managed m"
  shows "managed m' \<and> (gc_sound m \<longrightarrow> gc_sound m') \<and> ((\<forall>e. P e \<longrightarrow> \<not> resumable_report e) \<longrightarrow> one_stage m \<longrightarrow> one_stage m')"
  using assms
proof induction
  case (step m' e now db m'')
  then show ?case using step_keeps [of m' now db e m''] by auto
qed simp

section \<open>Reachable states\<close>

definition started :: "GfSpBaseApp \<Rightarrow> bool \<Rightarrow> Parallel \<Rightarrow> ManageModular" where
  "started app load cfg = Start (DefaultManagerOptions app load cfg)"

lemma queue_ok_new [simp]:
  "queue_ok g good (SetRetireTaskStrategy g (NewGfSpTQueue n c))"
  "queue_ok g good (SetRetireTaskStrategy g (NewGfSpTQueueWithLimit n c))"
  "queue_ok no_strategy good (NewGfSpTQueueWithLimit n c)"
  "queue_ok g good (SetFilterTaskStrategy f q) = queue_ok g good q"
  by (simp_all add: queue_ok_def SetRetireTaskStrategy_def SetFilterTaskStrategy_def NewGfSpTQueue_def
      NewGfSpTQueueWithLimit_def gc_of_def wf_queue_def within_cap_def)

lemma keys_of_new [simp]:
  "keys_of (SetRetireTaskStrategy g (NewGfSpTQueue n c)) = {}"
  "keys_of (SetFilterTaskStrategy f (SetRetireTaskStrategy g (NewGfSpTQueueWithLimit n c))) = {}"
  by (simp_all add: keys_of_def SetRetireTaskStrategy_def SetFilterTaskStrategy_def NewGfSpTQueue_def
      NewGfSpTQueueWithLimit_def lookup_def)

lemma started_ok: "managed (started app load cfg)" "one_stage (started app load cfg)" "gc_sound (started app load cfg)"
  by (simp_all add: started_def Start_def DefaultManagerOptions_def Let_def managed_def pipeline_ok_def others_ok_def
      one_stage_def gc_sound_def gc_inserts_def)

definition demo_base :: GfSpBaseApp where
  "demo_base = \<lparr>uploadSpeed = 10, downloadSpeed = 10, replicateSpeed = 10, sealObjectTimeout = 10,
     gcObjectTimeout = 10, gcZombieTimeout = 10, gcMetaTimeout = 10, replicateRetry = 3, receiveConfirmRetry = 3,
     sealObjectRetry = 3, gcObjectRetry = 3, gcZombieRetry = 3, gcMetaRetry = 3, recoveryRetry = 3\<rparr>"

definition demo_cfg :: Parallel where
  "demo_cfg = \<lparr>GlobalMaxUploadingParallel = 0, GlobalUploadObjectParallel = 0, GlobalReplicatePieceParallel = 0,
     GlobalSealObjectParallel = 0, GlobalReceiveObjectParallel = 0, GlobalGCObjectParallel = 0, GlobalGCZombieParallel = 0,
     GlobalGCMetaParallel = 0, GlobalDownloadObjectTaskCacheSize = 0, GlobalChallengePieceTaskCacheSize = 0,
     GlobalGcObjectBlockInterval = 0, GlobalGcObjectSafeBlockDistance = 0, GlobalRecoveryPieceParallel = 0\<rparr>"

definition demo_object :: ObjectInfo where
  "demo_object = nil_object\<lparr>BucketName := ''b'', ObjectName := ''o'', Id := 7, PayloadSize := 100\<rparr>"

definition demo_params :: Params where
  "demo_params = \<lparr>MaxPayloadSize = 1000, MaxSegmentSize = 16, RedundantDataChunkNum = 4, RedundantParityChunkNum = 2\<rparr>"

text \<open>A run of events at given times, without database errors.\<close>

fun run_events :: "(int64 \<times> event) list \<Rightarrow> ManageModular \<Rightarrow> ManageModular go" where
  "run_events [] m = Returns m"
| "run_events ((now, e) # es) m = bind_go (step_event now (\<lambda>_. None) e m) (run_events es)"

lemma run_events_reaches:
  "reaches P m0 m \<Longrightarrow> run_events es m = Returns m' \<Longrightarrow> \<forall>(now, e) \<in> set es. P e \<Longrightarrow> reaches P m0 m'"
proof (induction es arbitrary: m)
  case (Cons x es)
  then show ?case by (cases x) (auto simp: bind_go_Returns_iff intro: reaches.step)
qed simp

definition demo_events :: "(int64 \<times> event) list" where
  "demo_events =
     [(1, BeginTask (Some (UploadObjectTask (InitUploadObjectTask 1 (Some demo_object) (Some demo_params) 100)))),
      (2, ReportTask ''up'' (Some (UploadObjectTask (InitUploadObjectTask 1 (Some demo_object) (Some demo_params) 100)))),
      (3, RunJob 0),
      (4, GCTick (Inr 5000))]"

lemma demo_run: "case run_events demo_events (started demo_base False demo_cfg) of
   Returns m \<Rightarrow> Len (replicateQueue m) = 1 \<and> gcBlockHeight m = 1001 | Panics \<Rightarrow> False"
  by code_simp

lemma demo_reached:
  obtains m where "reaches (\<lambda>e. \<not> resumable_report e) (started demo_base False demo_cfg) m"
    "Len (replicateQueue m) = 1" "gcBlockHeight m = 1001"
proof -
  obtain m where m: "run_events demo_events (started demo_base False demo_cfg) = Returns m"
    "Len (replicateQueue m) = 1" "gcBlockHeight m = 1001"
    using demo_run by (auto split: go.splits)
  have "\<forall>(now, e) \<in> set demo_events. \<not> resumable_report e"
    by (simp add: demo_events_def resumable_report_def)
  then show thesis using that run_events_reaches [OF reaches.start m(1)] m(2,3) by auto
qed

lemma reaches_weaken: "reaches P m m' \<Longrightarrow> (\<And>e. P e \<Longrightarrow> Q e) \<Longrightarrow> reaches Q m m'"
  by (induction rule: reaches.induct) (auto intro: reaches.intros)

text \<open>
  C9. Queue discipline of the manager: whatever the callers send and in whatever order goroutines
  run, every queue stores each task under its key, has no key twice, is within its capacity, and
  holds only tasks of its own type with object information, so that the type assertions of the
  retire strategies and of the handlers never fail; the zombie and meta queues stay empty.
\<close>

theorem manager_queues_well_formed:
  assumes "reaches (\<lambda>_. True) (started app load cfg) m"
  shows "managed m \<and> tasks (gcZombieQueue m) = [] \<and> tasks (gcMetaQueue m) = []"
proof -
  have m: "managed m" using reaches_keeps [OF assms started_ok(1)] by blast
  have "tasks q = []" if "queue_ok no_strategy (\<lambda>t. False) q" for q :: queue
    using that by (cases "tasks q") (auto simp: queue_ok_def wf_queue_def)
  with m show ?thesis by (auto simp: managed_def others_ok_def)
qed

theorem manager_queues_well_formed_witness:
  "\<exists>m :: ManageModular. Len (replicateQueue m) = 1 \<and> queue_ok GCReplicatePieceQueue replicate_entry (replicateQueue m)"
proof -
  obtain m where m: "reaches (\<lambda>e. \<not> resumable_report e) (started demo_base False demo_cfg) m" "Len (replicateQueue m) = 1"
    using demo_reached by blast
  then show ?thesis
    using manager_queues_well_formed [of demo_base False demo_cfg m] reaches_weaken [OF m(1), of "\<lambda>_. True"]
    by - (rule exI [of _ m], simp add: managed_def pipeline_ok_def)
qed

text \<open>
  C10. Calls that follow each other keep an object in one stage of the pipeline: in every state that is
  reached by whole calls, whole goroutines and whole ticks, one after the other, and without a report of a
  resumable upload, the keys in the upload, replicate and seal queues are pairwise different. For calls
  that overlap this is not claimed.
\<close>

theorem pipeline_stages_exclusive:
  assumes "reaches (\<lambda>e. \<not> resumable_report e) (started app load cfg) m"
  shows "keys_of (uploadQueue m) \<inter> keys_of (replicateQueue m) = {}
    \<and> keys_of (uploadQueue m) \<inter> keys_of (sealQueue m) = {}
    \<and> keys_of (replicateQueue m) \<inter> keys_of (sealQueue m) = {}"
  using reaches_keeps [OF assms started_ok(1)] started_ok(2) [of app load cfg] by (simp add: one_stage_def)

theorem pipeline_stages_exclusive_witness:
  "\<exists>m :: ManageModular. Len (replicateQueue m) = 1 \<and> keys_of (uploadQueue m) \<inter> keys_of (replicateQueue m) = {}"
proof -
  obtain m where m: "reaches (\<lambda>e. \<not> resumable_report e) (started demo_base False demo_cfg) m" "Len (replicateQueue m) = 1"
    using demo_reached by blast
  then show ?thesis using pipeline_stages_exclusive [OF m(1)] by - (rule exI [of _ m], simp)
qed

text \<open>
  Calls that overlap break the exclusion: an upload is reported, the handler takes its task from the upload queue and finds
  the object in no queue; before it pushes the replicate task, another upload of the same object begins, whose
  handler finds the object in no queue either. Then both push, and the object is in the upload and
  in the replicate queue. Below, the report pops and checks (\<open>uploading1\<close>), the second upload checks (\<open>uploading2\<close>), the report
  pushes (\<open>err1\<close>), and the second upload pushes (\<open>err2\<close>), each as in the code of its handler.
\<close>

lemma overlapping_calls_break_exclusion:
  "case run_events [(1, BeginTask (Some (UploadObjectTask (InitUploadObjectTask 1 (Some demo_object) (Some demo_params) 100))))]
       (started demo_base False demo_cfg) of
     Panics \<Rightarrow> False
   | Returns m \<Rightarrow>
       let task = UploadObjectTask (InitUploadObjectTask 1 (Some demo_object) (Some demo_params) 100);
           m = m\<lparr>uploadQueue := snd (PopByKey 2 (uploadQueue m) (Key task))\<rparr>;
           (uploading1, m) = TaskUploading 2 m (Key task);
           (uploading2, m) = TaskUploading 2 m (Key task);
           (err1, q1) = Push 2 (replicateQueue m) (ReplicatePieceTask (InitReplicatePieceTask 2 (Some demo_object) (Some demo_params) 0 100 3));
           m = m\<lparr>replicateQueue := q1\<rparr>;
           (err2, q2) = Push 2 (uploadQueue m) task;
           m = m\<lparr>uploadQueue := q2\<rparr>
       in \<not> uploading1 \<and> \<not> uploading2 \<and> err1 = None \<and> err2 = None
          \<and> map fst (tasks (uploadQueue m)) = [uploading_key demo_object] \<and> map fst (tasks (replicateQueue m)) = [uploading_key demo_object]"
  by code_simp

text \<open>
  A resumable upload breaks the exclusion: its key has another prefix, so the check before its
  replicate task is queued misses the upload task of the same object. After the upload of an object
  has begun, reporting a resumable upload of that object leaves it in the upload and in the
  replicate queue.
\<close>

theorem resumable_report_breaks_exclusion:
  "\<exists>m. reaches (\<lambda>_. True) (started demo_base False demo_cfg) m
     \<and> uploading_key demo_object \<in> keys_of (uploadQueue m) \<inter> keys_of (replicateQueue m)"
proof -
  let ?es = "[(1, BeginTask (Some (UploadObjectTask (InitUploadObjectTask 1 (Some demo_object) (Some demo_params) 100)))),
     (2, ReportTask ''up'' (Some (ResumableUploadObjectTask
        (InitResumableUploadObjectTask 2 (Some demo_object) (Some demo_params) 100 True 0))))]"
  have "case run_events ?es (started demo_base False demo_cfg) of
      Returns m \<Rightarrow> map fst (tasks (uploadQueue m)) = [uploading_key demo_object]
        \<and> map fst (tasks (replicateQueue m)) = [uploading_key demo_object]
    | Panics \<Rightarrow> False"
    by code_simp
  then obtain m where m: "run_events ?es (started demo_base False demo_cfg) = Returns m"
    "map fst (tasks (uploadQueue m)) = [uploading_key demo_object]"
    "map fst (tasks (replicateQueue m)) = [uploading_key demo_object]"
    by (auto split: go.splits)
  have "keys_of q = set (map fst (tasks q))" for q :: queue
    by (simp add: keys_of_def lookup_def dom_map_of_conv_image_fst)
  then show ?thesis
    using m run_events_reaches [OF reaches.start m(1), of "\<lambda>_. True"] by - (rule exI [of _ m], auto)
qed

text \<open>
  The block ranges handed out for garbage collection are adjacent: in every reachable state the
  recorded ranges start at block 0, each has the configured length and starts right after the end
  of the one before, and the next range starts after the last one.
\<close>

theorem gc_ranges_adjacent:
  assumes "reaches (\<lambda>_. True) (started app load cfg) m"
  shows "gc_chain (gcObjectBlockInterval m) 0 (filter is_gc_insert (db_log m)) (gcBlockHeight m)"
  using reaches_keeps [OF assms started_ok(1)] started_ok(3) [of app load cfg] by (simp add: gc_sound_def gc_inserts_def)

theorem gc_ranges_adjacent_witness:
  "\<exists>m :: ManageModular. gcBlockHeight m = 1001 \<and> gc_chain (gcObjectBlockInterval m) 0 (filter is_gc_insert (db_log m)) 1001"
proof -
  obtain m where m: "reaches (\<lambda>e. \<not> resumable_report e) (started demo_base False demo_cfg) m" "gcBlockHeight m = 1001"
    using demo_reached by blast
  then show ?thesis
    using gc_ranges_adjacent [of demo_base False demo_cfg m] reaches_weaken [OF m(1), of "\<lambda>_. True"] by - (rule exI [of _ m], simp)
qed

end
