(* ===== verification/ManagerProps.thy ===== *)
theory ManagerProps
  imports ManageServer
begin

text \<open>
  What single operations of the manager promise: the result of beginning an upload in every case,
  what a dispatched task satisfies and when none is dispatched, the random choice among candidates,
  stale garbage collection reports, and the result of rejecting an unsealed object.
\<close>

section \<open>Rejecting an unsealed object\<close>

text \<open>
  The answer of \<open>RejectUnSealObject\<close> is about the last transaction, not about the rejection: it
  returns nil when one of its three attempts was confirmed on chain, and otherwise whatever sending
  the third transaction returned. In particular it returns nil when no rejection was ever
  confirmed, as long as the third transaction could be sent.
\<close>

theorem RejectUnSealObject_result:
  "RejectUnSealObject send listen =
     (if \<exists>i<3. send i = None \<and> listen i = Inr True then None else send 2)"
proof -
  have ex: "(\<exists>i<3. P i) \<longleftrightarrow> P 0 \<or> P 1 \<or> P 2" for P :: "nat \<Rightarrow> bool"
    by (auto simp: numeral_3_eq_3 numeral_2_eq_2 less_Suc_eq)
  show ?thesis
    unfolding ex RejectUnSealObject_def RejectUnSealObjectRetry_def
    by (auto simp: numeral_3_eq_3 numeral_2_eq_2 split: option.splits sum.splits bool.splits)
qed

section \<open>Choosing a task\<close>

text \<open>The sum of the priorities of the first \<open>n\<close> candidates.\<close>

definition weight :: "Task list \<Rightarrow> nat \<Rightarrow> int" where
  "weight ts n = sum_list (map (\<lambda>t. uint (GetPriority t)) (take n ts))"

lemma weight_simps [simp]:
  "weight ts 0 = 0" "weight (t # ts) (Suc n) = uint (GetPriority t) + weight ts n"
  by (simp_all add: weight_def)

lemma weight_all: "weight ts (length ts) = sum_list (map (\<lambda>t. uint (GetPriority t)) ts)"
  by (simp add: weight_def)

lemma pick_weighted_spec:
  assumes "r \<le> acc + weight ts (length ts)" "ts \<noteq> []"
  shows "\<exists>i<length ts. pick_weighted r acc ts = Some (ts ! i) \<and> r \<le> acc + weight ts (Suc i)
    \<and> (\<forall>j<i. acc + weight ts (Suc j) < r)"
  using assms
proof (induction ts arbitrary: acc)
  case (Cons t ts)
  show ?case
  proof (cases "r \<le> acc + uint (GetPriority t)")
    case True
    then show ?thesis by (intro exI [of _ 0]) simp
  next
    case False
    then have ts: "ts \<noteq> []" using Cons.prems(1) by (cases ts) auto
    have "r \<le> (acc + uint (GetPriority t)) + weight ts (length ts)" using Cons.prems(1) by simp
    from Cons.IH [OF this ts] obtain i where i: "i < length ts"
      "pick_weighted r (acc + uint (GetPriority t)) ts = Some (ts ! i)"
      "r \<le> acc + uint (GetPriority t) + weight ts (Suc i)"
      "\<forall>j<i. acc + uint (GetPriority t) + weight ts (Suc j) < r"
      by blast
    have "\<forall>j<Suc i. acc + weight (t # ts) (Suc j) < r"
      using i(4) False by (auto simp: less_Suc_eq_0_disj)
    then show ?thesis using i False by (intro exI [of _ "Suc i"]) (auto simp: Let_def algebra_simps)
  qed
qed simp

lemma weight_pos_iff: "0 < weight ts (length ts) \<longleftrightarrow> (\<exists>t \<in> set ts. GetPriority t \<noteq> 0)"
proof (induction ts)
  case (Cons t ts)
  have "0 \<le> weight ts (length ts)" unfolding weight_def by (rule sum_list_nonneg) auto
  moreover have "0 < uint (GetPriority t) \<longleftrightarrow> GetPriority t \<noteq> 0" "0 \<le> uint (GetPriority t)"
    by (simp_all add: word_neq_0_conv word_less_def)
  ultimately show ?case using Cons.IH by auto
qed simp

lemma PickUpTask_spec:
  assumes "\<And>n. 0 < n \<Longrightarrow> 0 \<le> rnd n \<and> rnd n < n"
  shows "(PickUpTask rnd ts = Panics \<longleftrightarrow> 2 \<le> length ts \<and> (\<forall>t \<in> set ts. GetPriority t = 0))
    \<and> (PickUpTask rnd ts = Returns None \<longleftrightarrow> ts = [])
    \<and> (length ts = 1 \<longrightarrow> PickUpTask rnd ts = Returns (Some (hd ts)))
    \<and> (2 \<le> length ts \<and> (\<exists>t \<in> set ts. GetPriority t \<noteq> 0) \<longrightarrow>
        (let s = sort_key GetPriority ts; r = rnd (weight s (length s))
         in \<exists>i<length s. PickUpTask rnd ts = Returns (Some (s ! i)) \<and> r \<le> weight s (Suc i)
              \<and> (\<forall>j<i. weight s (Suc j) < r)))"
proof -
  let ?s = "sort_key GetPriority ts"
  have w: "0 < weight ?s (length ?s) \<longleftrightarrow> (\<exists>t \<in> set ts. GetPriority t \<noteq> 0)"
    using weight_pos_iff [of ?s] by simp
  have many: "PickUpTask rnd ts = (if weight ?s (length ?s) \<le> 0 then Panics
      else Returns (pick_weighted (rnd (weight ?s (length ?s))) 0 ?s))" if "2 \<le> length ts"
    using that by (auto simp: PickUpTask_def Let_def weight_all [symmetric])
  have picked: "\<exists>i<length ?s. pick_weighted (rnd (weight ?s (length ?s))) 0 ?s = Some (?s ! i)
      \<and> rnd (weight ?s (length ?s)) \<le> weight ?s (Suc i) \<and> (\<forall>j<i. weight ?s (Suc j) < rnd (weight ?s (length ?s)))"
    if "2 \<le> length ts" "0 < weight ?s (length ?s)"
  proof -
    have "?s \<noteq> []" using that(1) by (metis length_0_conv length_sort not_numeral_le_zero)
    then show ?thesis
      using pick_weighted_spec [of "rnd (weight ?s (length ?s))" 0 ?s] assms [OF that(2)] by simp
  qed
  consider "ts = []" | "length ts = 1" | "2 \<le> length ts" by (cases ts) (auto simp: Suc_le_eq)
  then show ?thesis
  proof cases
    case 2
    then obtain t where "ts = [t]" by (cases ts) auto
    then show ?thesis by (simp add: PickUpTask_def)
  next
    case 3
    then have ne: "ts \<noteq> []" "length ts \<noteq> 1" by auto
    show ?thesis
    proof (cases "0 < weight ?s (length ?s)")
      case True
      then show ?thesis using many [OF 3] picked [OF 3 True] w ne by (auto simp: Let_def)
    next
      case False
      then show ?thesis using many [OF 3] w ne 3 by auto
    qed
  qed (simp add: PickUpTask_def)
qed

text \<open>
  \<open>PickUpTask\<close> is a choice weighted by priority: with a random number below the sum of the
  priorities, it panics exactly when there are two or more candidates and all have priority zero;
  otherwise it returns nothing only for no candidates, a single candidate as it is, and among more
  the first one, in the order of priorities, at which the running sum reaches the random number.
\<close>

theorem PickUpTask_weighted:
  assumes "\<And>n. 0 < n \<Longrightarrow> 0 \<le> rnd n \<and> rnd n < n"
  shows "(PickUpTask rnd ts = Panics \<longleftrightarrow> 2 \<le> length ts \<and> (\<forall>t \<in> set ts. GetPriority t = 0))
    \<and> (PickUpTask rnd ts = Returns None \<longleftrightarrow> ts = [])
    \<and> (length ts = 1 \<longrightarrow> PickUpTask rnd ts = Returns (Some (hd ts)))
    \<and> (2 \<le> length ts \<and> (\<exists>t \<in> set ts. GetPriority t \<noteq> 0) \<longrightarrow>
        (let s = sort_key GetPriority ts; r = rnd (weight s (length s))
         in \<exists>i<length s. PickUpTask rnd ts = Returns (Some (s ! i)) \<and> r \<le> weight s (Suc i)
              \<and> (\<forall>j<i. weight s (Suc j) < r)))"
  using PickUpTask_spec [OF assms] .

theorem PickUpTask_weighted_witness:
  "PickUpTask (\<lambda>n. 0) [demo_task 5, demo_task 9] = Panics"
proof -
  have "GetPriority (demo_task n) = 0" for n
    by (simp add: demo_task_def GetPriority_def InitGCObjectTask_def base_GetPriority_def base_SetPriority_def
        base_SetTimeout_def scheduled_def stamped_def base_SetUpdateTime_def base_SetCreateTime_def new_task_def)
  then show ?thesis using PickUpTask_weighted [of "\<lambda>n. 0" "[demo_task 5, demo_task 9]"] by simp
qed

section \<open>Dispatching\<close>

text \<open>The tasks an executor can be given, and the queues they are taken from.\<close>

definition served_queues :: "ManageModular \<Rightarrow> queue list" where
  "served_queues m = [replicateQueue m, sealQueue m, gcObjectQueue m, gcZombieQueue m, gcMetaQueue m,
     receiveQueue m, recoveryQueue m]"

definition eligible :: "int64 \<Rightarrow> Limit \<Rightarrow> ManageModular \<Rightarrow> Task set" where
  "eligible now lim m = {t. \<exists>q \<in> set (served_queues m). t \<in> ran (lookup q) \<and> fits lim t \<and> passes now q t}"

text \<open>The contract of one scan, for the scan of every queue.\<close>

definition served :: "int64 \<Rightarrow> Limit \<Rightarrow> 'e tqueue \<Rightarrow> Task option \<Rightarrow> bool" where
  "served now lim q r \<longleftrightarrow> (case r of
     None \<Rightarrow> \<forall>t \<in> ran (lookup q). \<not> (fits lim t \<and> passes now q t)
   | Some t \<Rightarrow> t \<in> ran (lookup q) \<and> fits lim t \<and> passes now q t)"

context retire_strategy begin

lemma TopByLimit_served:
  assumes "TopByLimit now q lim = Returns (r, q')" "queue_ok g good q"
  shows "served now lim q' r"
  using TopByLimit_ok [OF assms(2,1)] by (auto simp: served_def ran_def split: option.splits)

end

lemma PickUpTask_member:
  assumes "\<And>n. 0 < n \<Longrightarrow> 0 \<le> rnd n \<and> rnd n < n" "PickUpTask rnd ts = Returns r"
  shows "(r = None \<longleftrightarrow> ts = []) \<and> (\<forall>t. r = Some t \<longrightarrow> t \<in> set ts)"
proof -
  note spec = PickUpTask_spec [OF assms(1), of ts]
  consider "ts = []" | "length ts = 1" | "2 \<le> length ts" by (cases ts) (auto simp: Suc_le_eq)
  then show ?thesis
  proof cases
    case 3
    then have "\<exists>t \<in> set ts. GetPriority t \<noteq> 0" using spec assms(2) by (metis go.distinct(1))
    with 3 spec assms(2) obtain i where "i < length ts" "r = Some (sort_key GetPriority ts ! i)"
      by (auto simp: Let_def)
    then show ?thesis using 3 nth_mem [of i "sort_key GetPriority ts"] by auto
  qed (use spec assms(2) in \<open>auto simp: length_Suc_conv\<close>)
qed

lemma eligible_empty:
  "eligible now lim m = {} \<longleftrightarrow> (\<forall>q \<in> set (served_queues m). \<forall>t \<in> ran (lookup q). \<not> (fits lim t \<and> passes now q t))"
  by (auto simp: eligible_def)

text \<open>
  Dispatch gives an executor a task it can run, and is never idle while it has one: the task
  that \<open>DispatchTask\<close> returns is stored in one of the seven served queues, its estimate fits the
  limit of the executor and it passes the filter of its queue, and nothing is returned only when
  no queue holds such a task.
\<close>

theorem DispatchTask_serves:
  assumes "managed m" "\<And>n. 0 < n \<Longrightarrow> 0 \<le> rnd n \<and> rnd n < n" "DispatchTask now rnd m lim = Returns (r, m')"
  shows "(r = None \<longleftrightarrow> eligible now lim m' = {}) \<and> (\<forall>t. r = Some t \<longrightarrow> t \<in> eligible now lim m')"
proof -
  obtain t1 q1 t2 q2 t3 q3 t4 q4 t5 q5 t6 q6 t7 q7 where t:
    "TopByLimit now (replicateQueue m) lim = Returns (t1, q1)" "TopByLimit now (sealQueue m) lim = Returns (t2, q2)"
    "TopByLimit now (gcObjectQueue m) lim = Returns (t3, q3)" "TopByLimit now (gcZombieQueue m) lim = Returns (t4, q4)"
    "TopByLimit now (gcMetaQueue m) lim = Returns (t5, q5)" "TopByLimit now (receiveQueue m) lim = Returns (t6, q6)"
    "TopByLimit now (recoveryQueue m) lim = Returns (t7, q7)"
    and m': "m' = m\<lparr>replicateQueue := q1, sealQueue := q2, gcObjectQueue := q3, gcZombieQueue := q4,
                    gcMetaQueue := q5, receiveQueue := q6, recoveryQueue := q7\<rparr>"
    and pick: "PickUpTask rnd (List.map_filter id [t1, t2, t3, t4, t5, t6, t7]) = Returns r"
    using assms(3) by (auto simp: DispatchTask_def bind_go_Returns_iff Let_def)
  let ?rs = "[t1, t2, t3, t4, t5, t6, t7]" and ?qs = "[q1, q2, q3, q4, q5, q6, q7]"
  have s: "list_all2 (\<lambda>q r. served now lim q r) ?qs ?rs"
    using assms(1) replicate_q.TopByLimit_served [OF t(1)] seal_q.TopByLimit_served [OF t(2)]
      gc_q.TopByLimit_served [OF t(3)] idle_q.TopByLimit_served [OF t(4)] idle_q.TopByLimit_served [OF t(5)]
      receive_q.TopByLimit_served [OF t(6)] recover_q.TopByLimit_served [OF t(7)]
    by (simp add: managed_def pipeline_ok_def others_ok_def)
  have qs: "served_queues m' = ?qs" by (simp add: served_queues_def m')
  have mem: "t \<in> set (List.map_filter id rs) \<longleftrightarrow> Some t \<in> set rs" for t :: Task and rs
    by (induction rs) (auto simp: List.map_filter_def)
  have none: "List.map_filter id ?rs = [] \<longleftrightarrow> eligible now lim m' = {}"
  proof -
    have "List.map_filter id rs = [] \<longleftrightarrow> (\<forall>q \<in> set qs. \<forall>t \<in> ran (lookup q). \<not> (fits lim t \<and> passes now q t))"
      if "list_all2 (\<lambda>q r. served now lim q r) qs rs" for qs :: "queue list" and rs
      using that
      by (induction qs rs rule: list_all2_induct) (auto simp: served_def List.map_filter_def split: option.splits)
    from this [OF s] show ?thesis by (simp add: eligible_empty qs)
  qed
  have some: "t \<in> eligible now lim m'" if "Some t \<in> set ?rs" for t
  proof -
    have "\<exists>q \<in> set qs. t \<in> ran (lookup q) \<and> fits lim t \<and> passes now q t"
      if "list_all2 (\<lambda>q r. served now lim q r) qs rs" "Some t \<in> set rs" for qs :: "queue list" and rs
      using that by (induction qs rs rule: list_all2_induct) (auto simp: served_def)
    from this [OF s that] show ?thesis by (simp add: eligible_def qs)
  qed
  show ?thesis using PickUpTask_member [OF assms(2) pick, unfolded none mem] some by blast
qed

theorem DispatchTask_serves_witness:
  "\<exists>r m'. DispatchTask 5 (\<lambda>n. 0) (started demo_base False demo_cfg) Unlimited = Returns (r, m')
     \<and> (r = None \<longleftrightarrow> eligible 5 Unlimited m' = {})"
proof -
  have "case DispatchTask 5 (\<lambda>n. 0) (started demo_base False demo_cfg) Unlimited of Returns _ \<Rightarrow> True | Panics \<Rightarrow> False"
    by code_simp
  then obtain r m' where d: "DispatchTask 5 (\<lambda>n. 0) (started demo_base False demo_cfg) Unlimited = Returns (r, m')"
    by (auto split: go.splits)
  show ?thesis
    by (rule exI [of _ r], rule exI [of _ m'])
      (use d DispatchTask_serves [OF started_ok(1) _ d] in simp)
qed

section \<open>Beginning an upload\<close>

context retire_strategy begin

lemma Push_fresh:
  assumes "queue_ok g good q" "good t" "Key t \<notin> keys_of q" "Push now q t = (e, q')"
  shows "e = None \<and> lookup q' (Key t) = Some t \<or> e = Some ErrTaskQueueExceed \<and> Key t \<notin> keys_of q'"
proof -
  have ok: "gc_of q = g" "wf_queue good q" using assms(1) by (simp_all add: queue_ok_def)
  obtain e1 q1 where q1: "Push now q t = (e1, q1)" "wf_queue good q1" "same_setup q q1" "current q1 = current q"
    "within_cap q \<longrightarrow> within_cap q1"
    "e1 = None \<longrightarrow> lookup q1 (Key t) = Some t \<and> dom (lookup q1) \<subseteq> insert (Key t) (dom (lookup q))
       \<and> (\<forall>k \<in> dom (lookup q) - dom (lookup q1). retirable g now (lookup q) k)"
    "\<forall>e. e1 = Some e \<longrightarrow> e = ErrTaskRepeated \<and> Key t \<in> dom (lookup q) \<and> dom (lookup q1) = dom (lookup q)
       \<or> e = ErrTaskQueueExceed \<and> Key t \<notin> dom (lookup q1) \<and> dom (lookup q1) = dom (lookup q) - {Key t}
         \<and> cap q \<le> int (length (tasks q1))"
    by (rule Push_spec [OF ok assms(2), of now]) (rule that)
  have "e = e1" "q' = q1" using q1(1) assms(4) by simp_all
  then show ?thesis using q1(6,7) assms(3) unfolding keys_of_def by (cases e1) blast+
qed

end

lemma TaskUploading_db_log: "TaskUploading now m k = (b, m') \<Longrightarrow> db_log m' = db_log m"
  by (auto simp: TaskUploading_def Let_def split: prod.splits if_splits)

lemma shrinks_in_pipeline: "shrinks m m' \<Longrightarrow> in_pipeline m' \<subseteq> in_pipeline m"
  by (auto simp: shrinks_def in_pipeline_def)

text \<open>
  Beginning an upload, case by case. It is refused without effect when the number of objects in
  the pipeline has reached the maximum; as repeated only when the key of the object is in the
  pipeline; as exceeding when the queue is full, and then the task is not stored and nothing is
  recorded. Otherwise the task is stored in the upload queue, its key is in no other queue of the
  pipeline, the start of the upload is recorded, and the result is an error only when recording
  failed; the task stays in the queue then, too.
\<close>

theorem HandleCreateUploadObjectTask_contract:
  fixes t :: GfSpUploadObjectTask and now :: int64
  defines "key \<equiv> Key (UploadObjectTask t)"
  assumes "managed m" "up_ObjectInfo t = Some ob" "HandleCreateUploadObjectTask now db m (Some t) = Returns (err, m')"
  shows "(err = Some ErrExceedTask \<and> m' = m \<and> maxUploadObjectNumber m \<le> UploadingObjectNumber m)
    \<or> (err = Some ErrRepeatedTask \<and> key \<in> in_pipeline m \<and> db_log m' = db_log m)
    \<or> (err = Some ErrTaskQueueExceed \<and> key \<notin> in_pipeline m' \<and> db_log m' = db_log m)
    \<or> (UploadingObjectNumber m < maxUploadObjectNumber m \<and> lookup (uploadQueue m') key = Some (UploadObjectTask t)
       \<and> key \<notin> keys_of (replicateQueue m') \<union> keys_of (sealQueue m') \<union> keys_of (resumeableUploadQueue m')
       \<and> db_log m' = db_log m @ [InsertUploadProgress (Id ob)]
       \<and> err = (if db (InsertUploadProgress (Id ob)) = None then None else Some ErrGfSpDB))"
proof (cases "maxUploadObjectNumber m \<le> UploadingObjectNumber m")
  case True
  then show ?thesis using assms(4) by (simp add: HandleCreateUploadObjectTask_def)
next
  case False
  obtain b m1 where u: "TaskUploading now m key = (b, m1)" by fastforce
  have m1: "managed m1" by (rule managed_keeps [OF assms(2) TaskUploading_keeps [OF u]])
  have up: "shrinks m m1" "b \<longleftrightarrow> key \<in> in_pipeline m1"
    using TaskUploading_ok [OF _ u] assms(2) by (simp_all add: managed_def)
  note log = TaskUploading_db_log [OF u]
  show ?thesis
  proof (cases b)
    case True
    then show ?thesis using assms(3,4) False u up shrinks_in_pipeline [OF up(1)] log
      by (auto simp: HandleCreateUploadObjectTask_def key_def)
  next
    case nb: False
    then have free: "key \<notin> in_pipeline m1" using up(2) by simp
    obtain e q where q: "Push now (uploadQueue m1) (UploadObjectTask t) = (e, q)" by fastforce
    have "key \<notin> keys_of (uploadQueue m1)" using free by (simp add: in_pipeline_def)
    then consider "e = None" "lookup q key = Some (UploadObjectTask t)" | "e = Some ErrTaskQueueExceed" "key \<notin> keys_of q"
      using upload_q.Push_fresh [OF _ _ _ q] m1 assms(3)
      by (auto simp: managed_def pipeline_ok_def upload_entry_def key_def)
    then show ?thesis
    proof cases
      case 1
      then show ?thesis using assms(3,4) False u nb q log free
        by (auto simp: HandleCreateUploadObjectTask_def key_def [symmetric] Let_def log_db_def in_pipeline_def
            object_id_def object_of_def split: option.splits)
    next
      case 2
      then show ?thesis using assms(3,4) False u nb q log free
        by (auto simp: HandleCreateUploadObjectTask_def key_def [symmetric] in_pipeline_def)
    qed
  qed
qed

theorem HandleCreateUploadObjectTask_contract_witness:
  "\<exists>err m'. HandleCreateUploadObjectTask 1 (\<lambda>_. None) (started demo_base False demo_cfg)
       (Some (InitUploadObjectTask 1 (Some demo_object) (Some demo_params) 100)) = Returns (err, m')
     \<and> (err \<noteq> None \<or> db_log m' = [InsertUploadProgress 7])"
proof -
  let ?m = "started demo_base False demo_cfg" and ?t = "InitUploadObjectTask 1 (Some demo_object) (Some demo_params) 100"
  have "case HandleCreateUploadObjectTask 1 (\<lambda>_. None) ?m (Some ?t) of Returns _ \<Rightarrow> True | Panics \<Rightarrow> False"
    by code_simp
  then obtain err m' where d: "HandleCreateUploadObjectTask 1 (\<lambda>_. None) ?m (Some ?t) = Returns (err, m')"
    by (auto split: go.splits)
  have ob: "up_ObjectInfo ?t = Some demo_object" by (simp add: InitUploadObjectTask_def)
  have "db_log ?m = []" by (simp add: started_def Start_def DefaultManagerOptions_def Let_def)
  then have "err \<noteq> None \<or> db_log m' = [InsertUploadProgress 7]"
    using HandleCreateUploadObjectTask_contract [OF started_ok(1) ob d] by (auto simp: demo_object_def)
  with d show ?thesis by blast
qed

section \<open>Garbage collection reports\<close>

lemma SetRetry_GCObjectTask:
  "\<exists>b. SetRetry r (GCObjectTask t) = GCObjectTask (t\<lparr>gc_Task := b\<rparr>)"
  by (simp add: SetRetry_def GfSpGCObjectTask_on_task_def) blast

text \<open>
  A stale report loses the garbage collection task: when the reported progress is behind that of
  the task in the queue, \<open>HandleGCObjectTask\<close> refuses the report, but it has already taken the task
  out of the queue and does not put it back; the progress record stays in the database, so nothing
  marks the range as done.
\<close>

theorem stale_gc_report_drops_task:
  assumes "managed m" "lookup (gcObjectQueue m) (Key (GCObjectTask t)) = Some (GCObjectTask old)"
    "gc_CurrentBlockNumber t \<le> gc_EndBlockNumber t" "gc_CurrentBlockNumber t < gc_CurrentBlockNumber old"
    "HandleGCObjectTask now m (Some t) = (err, m')"
  shows "err = Some ErrCanceledTask \<and> Key (GCObjectTask t) \<notin> keys_of (gcObjectQueue m') \<and> db_log m' = db_log m"
proof -
  let ?k = "Key (GCObjectTask t)"
  have ok: "queue_ok ResetGCObjectTask gc_entry (gcObjectQueue m)"
    using assms(1) by (simp add: managed_def others_ok_def)
  have aged: "\<exists>b. age ResetGCObjectTask now k L k = Some (GCObjectTask (u\<lparr>gc_Task := b\<rparr>))"
    if "L k = Some (GCObjectTask u)" for L :: "string \<Rightarrow> Task option" and k u
    using that SetRetry_GCObjectTask [of 0 u] by (auto simp: age_def ResetGCObjectTask_def intro: exI [of _ "gc_Task u"])
  obtain q where q: "tq_has now (gcObjectQueue m) ?k = (lookup q ?k \<noteq> None, q)" "wf_queue gc_entry q"
    "same_setup (gcObjectQueue m) q" "lookup q = age ResetGCObjectTask now ?k (lookup (gcObjectQueue m))"
    using gc_q.has_spec [of "gcObjectQueue m" now ?k] ok unfolding queue_ok_def by metis
  obtain b where b: "lookup q ?k = Some (GCObjectTask (old\<lparr>gc_Task := b\<rparr>))"
    using aged [of "lookup (gcObjectQueue m)", OF assms(2)] q(4) by auto
  have okq: "gc_of q = ResetGCObjectTask" using ok same_setup_gc [OF q(3)] by (simp add: queue_ok_def)
  obtain q1 where q1: "PopByKey now q ?k = (age ResetGCObjectTask now ?k (lookup q) ?k, q1)" "lookup q1 = (lookup q)(?k := None)"
    using gc_q.PopByKey_spec [OF okq q(2), of now ?k] by metis
  obtain c where "age ResetGCObjectTask now ?k (lookup q) ?k = Some (GCObjectTask (old\<lparr>gc_Task := c\<rparr>))"
    using aged [of "lookup q", OF b] by auto
  then have "err = Some ErrCanceledTask" "m' = m\<lparr>gcObjectQueue := q1\<rparr>"
    using assms(3,4,5) q(1) q1(1) b by (auto simp: HandleGCObjectTask_def Has_def Let_def split: if_splits)
  then show ?thesis using q1(2) by (simp add: keys_of_def)
qed

definition demo_gc :: GfSpGCObjectTask where
  "demo_gc = InitGCObjectTask 1 0 0 10 60"

definition demo_gc_queue :: queue where
  "demo_gc_queue = (SetRetireTaskStrategy ResetGCObjectTask (NewGfSpTQueueWithLimit ''q'' 4))
     \<lparr>tasks := [(Key (GCObjectTask demo_gc), GCObjectTask (SetGCObjectProgress 5 0 demo_gc))]\<rparr>"

theorem stale_gc_report_drops_task_witness:
  "\<exists>err m'. HandleGCObjectTask 2 ((started demo_base False demo_cfg)\<lparr>gcObjectQueue := demo_gc_queue\<rparr>) (Some demo_gc) = (err, m')
     \<and> err = Some ErrCanceledTask"
proof -
  let ?m = "(started demo_base False demo_cfg)\<lparr>gcObjectQueue := demo_gc_queue\<rparr>"
  have key: "Key (GCObjectTask (SetGCObjectProgress 5 0 demo_gc)) = Key (GCObjectTask demo_gc)"
    by (simp add: Key.simps SetGCObjectProgress_def)
  have "queue_ok ResetGCObjectTask gc_entry demo_gc_queue"
    by (simp add: demo_gc_queue_def queue_ok_def SetRetireTaskStrategy_def NewGfSpTQueueWithLimit_def gc_of_def
        wf_queue_def within_cap_def key)
  then have m: "managed ?m"
    using started_ok(1) [of demo_base False demo_cfg] by (simp add: managed_def pipeline_ok_def others_ok_def)
  obtain err m' where h: "HandleGCObjectTask 2 ?m (Some demo_gc) = (err, m')" by fastforce
  have "err = Some ErrCanceledTask"
    using stale_gc_report_drops_task [OF m _ _ _ h, of "SetGCObjectProgress 5 0 demo_gc"]
    by (simp add: demo_gc_queue_def lookup_def demo_gc_def InitGCObjectTask_def SetGCObjectProgress_def)
  with h show ?thesis by blast
qed

end
