(* ===== verification/PieceStore.thy ===== *)
theory PieceStore
  imports PieceOp "HOL-Library.AList"
begin

text \<open>
  The piece store: \<open>store/piecestore/storage/memory.go\<close>, \<open>sharding.go\<close> and
  \<open>object_storage.go\<close>, \<open>piece/api.go\<close> and \<open>client/piece_store_client.go\<close>. A store maps keys
  to objects; sharding spreads the keys over several stores by the FNV-1a hash of the key, a
  function of the Go library. The reader of an object is the bytes it yields. The backends over a
  network or a file system are not modelled. Modification times are the \<open>now\<close> of the call, and
  metrics are not modelled.
\<close>

section \<open>Stores in memory\<close>

datatype store_error =
  ErrNoSuchObject | ErrNoSuchBucket | ErrUnsupportedDelimiter | ErrInvalidObjectKey | ErrUnsupportedMethod
| ErrNoPermissionAccessBucket | ErrNotExist | ErrInvalidStorage string

record memoryObject =
  mo_data :: bytes
  mo_modTime :: int64

record memoryStore =
  ms_name :: string
  ms_objects :: "(string \<times> memoryObject) list"

record object =
  obj_key :: string
  obj_size :: int64
  obj_modTime :: int64
  obj_isDir :: bool

definition newMemoryStore :: "string \<Rightarrow> memoryStore" where
  "newMemoryStore url = \<lparr>ms_name = url, ms_objects = []\<rparr>"

text \<open>Slicing with a negative bound panics.\<close>

definition memory_GetObject :: "memoryStore \<Rightarrow> string \<Rightarrow> int64 \<Rightarrow> int64 \<Rightarrow> (store_error + bytes) go" where
  "memory_GetObject m key offset limit =
     (if key = [] then Returns (Inl ErrInvalidObjectKey)
      else case map_of (ms_objects m) key of
             None \<Rightarrow> Returns (Inl ErrNoSuchObject)
           | Some d \<Rightarrow>
               let offset = (if offset > int (length (mo_data d)) then int (length (mo_data d)) else offset)
               in if offset < 0 then Panics
                  else let data = drop (nat offset) (mo_data d)
                       in Returns (Inr (if limit > 0 \<and> limit < int (length data) then take (nat limit) data else data)))"

definition memory_PutObject :: "int64 \<Rightarrow> memoryStore \<Rightarrow> string \<Rightarrow> bytes \<Rightarrow> store_error option \<times> memoryStore" where
  "memory_PutObject now m key data =
     (if key = [] then (Some ErrInvalidObjectKey, m)
      else (None, m\<lparr>ms_objects := AList.update key \<lparr>mo_data = data, mo_modTime = now\<rparr> (ms_objects m)\<rparr>))"

definition memory_DeleteObject :: "memoryStore \<Rightarrow> string \<Rightarrow> store_error option \<times> memoryStore" where
  "memory_DeleteObject m key = (None, m\<lparr>ms_objects := AList.delete key (ms_objects m)\<rparr>)"

definition memory_HeadObject :: "memoryStore \<Rightarrow> string \<Rightarrow> store_error + object" where
  "memory_HeadObject m key =
     (if key = [] then Inl ErrInvalidObjectKey
      else case map_of (ms_objects m) key of
             None \<Rightarrow> Inl ErrNotExist
           | Some d \<Rightarrow> Inr \<lparr>obj_key = key, obj_size = int (length (mo_data d)), obj_modTime = mo_modTime d, obj_isDir = False\<rparr>)"

text \<open>Strings compare byte by byte.\<close>

fun str_less :: "string \<Rightarrow> string \<Rightarrow> bool" where
  "str_less [] [] = False"
| "str_less [] (_ # _) = True"
| "str_less (_ # _) [] = False"
| "str_less (c # cs) (d # ds) =
     (if (of_char c :: nat) < of_char d then True else if c = d then str_less cs ds else False)"

fun insert_object :: "object \<Rightarrow> object list \<Rightarrow> object list" where
  "insert_object x [] = [x]"
| "insert_object x (y # ys) = (if str_less (obj_key y) (obj_key x) then y # insert_object x ys else x # y # ys)"

definition memory_ListObjects :: "memoryStore \<Rightarrow> string \<Rightarrow> string \<Rightarrow> string \<Rightarrow> int64 \<Rightarrow> (store_error + object list) go" where
  "memory_ListObjects m prefix marker delimiter limit =
     (if delimiter \<noteq> [] then Returns (Inl ErrUnsupportedDelimiter)
      else let objs = foldr insert_object
                 (map (\<lambda>(k, d). \<lparr>obj_key = k, obj_size = int (length (mo_data d)), obj_modTime = mo_modTime d, obj_isDir = False\<rparr>)
                   (filter (\<lambda>(k, _). has_prefix prefix k \<and> str_less marker k) (ms_objects m))) []
           in if int (length objs) > limit
              then (if limit < 0 then Panics else Returns (Inr (take (nat limit) objs)))
              else Returns (Inr objs))"

section \<open>Sharding\<close>

definition fnv32a :: "string \<Rightarrow> uint32" where
  "fnv32a key = fold (\<lambda>c h. (xor h (of_char c)) * 16777619) key 2166136261"

text \<open>The index of the shard; the remainder panics when there are no shards.\<close>

definition pick :: "'a list \<Rightarrow> string \<Rightarrow> nat go" where
  "pick stores key =
     (if (of_nat (length stores) :: uint32) = 0 then Panics else Returns (unat (fnv32a key mod of_nat (length stores))))"

definition sharded_GetObject :: "memoryStore list \<Rightarrow> string \<Rightarrow> int64 \<Rightarrow> int64 \<Rightarrow> (store_error + bytes) go" where
  "sharded_GetObject stores key off limit = bind_go (pick stores key) (\<lambda>i. memory_GetObject (stores ! i) key off limit)"

definition sharded_PutObject :: "int64 \<Rightarrow> memoryStore list \<Rightarrow> string \<Rightarrow> bytes \<Rightarrow> (store_error option \<times> memoryStore list) go" where
  "sharded_PutObject now stores key data =
     bind_go (pick stores key) (\<lambda>i. case memory_PutObject now (stores ! i) key data of (err, m) \<Rightarrow> Returns (err, stores[i := m]))"

definition sharded_DeleteObject :: "memoryStore list \<Rightarrow> string \<Rightarrow> (store_error option \<times> memoryStore list) go" where
  "sharded_DeleteObject stores key =
     bind_go (pick stores key) (\<lambda>i. case memory_DeleteObject (stores ! i) key of (err, m) \<Rightarrow> Returns (err, stores[i := m]))"

definition sharded_HeadObject :: "memoryStore list \<Rightarrow> string \<Rightarrow> (store_error + object) go" where
  "sharded_HeadObject stores key = bind_go (pick stores key) (\<lambda>i. Returns (memory_HeadObject (stores ! i) key))"

section \<open>The piece store\<close>

text \<open>
  The storage of a piece store that \<open>createStorage\<close> makes for the memory backend. Making a memory store does not fail; the errors of \<open>NewSharded\<close>, for a URL without
  a place for the number of the shard, and of \<open>checkBucket\<close> are those of other backends and configurations.
\<close>

datatype ObjectStorage = MemStore memoryStore | Sharded "memoryStore list"

definition createStorage :: "string \<Rightarrow> (nat \<Rightarrow> string) \<Rightarrow> nat \<Rightarrow> ObjectStorage" where
  "createStorage url shardURL shards =
     (if shards > 1 then Sharded (map (\<lambda>i. newMemoryStore (shardURL i)) [0..<shards]) else MemStore (newMemoryStore url))"

fun GetObject :: "ObjectStorage \<Rightarrow> string \<Rightarrow> int64 \<Rightarrow> int64 \<Rightarrow> (store_error + bytes) go" where
  "GetObject (MemStore m) key offset limit = memory_GetObject m key offset limit"
| "GetObject (Sharded ss) key offset limit = sharded_GetObject ss key offset limit"

fun PutObject :: "int64 \<Rightarrow> ObjectStorage \<Rightarrow> string \<Rightarrow> bytes \<Rightarrow> (store_error option \<times> ObjectStorage) go" where
  "PutObject now (MemStore m) key data = (case memory_PutObject now m key data of (err, m) \<Rightarrow> Returns (err, MemStore m))"
| "PutObject now (Sharded ss) key data =
     bind_go (sharded_PutObject now ss key data) (\<lambda>(err, ss). Returns (err, Sharded ss))"

fun DeleteObject :: "ObjectStorage \<Rightarrow> string \<Rightarrow> (store_error option \<times> ObjectStorage) go" where
  "DeleteObject (MemStore m) key = (case memory_DeleteObject m key of (err, m) \<Rightarrow> Returns (err, MemStore m))"
| "DeleteObject (Sharded ss) key =
     bind_go (sharded_DeleteObject ss key) (\<lambda>(err, ss). Returns (err, Sharded ss))"

fun HeadObject :: "ObjectStorage \<Rightarrow> string \<Rightarrow> (store_error + object) go" where
  "HeadObject (MemStore m) key = Returns (memory_HeadObject m key)"
| "HeadObject (Sharded ss) key = sharded_HeadObject ss key"

definition GetPiece :: "ObjectStorage \<Rightarrow> string \<Rightarrow> int64 \<Rightarrow> int64 \<Rightarrow> (store_error + bytes) go" where
  "GetPiece ps key offset limit = GetObject ps key offset limit"

definition PutPiece :: "int64 \<Rightarrow> ObjectStorage \<Rightarrow> string \<Rightarrow> bytes \<Rightarrow> (store_error option \<times> ObjectStorage) go" where
  "PutPiece now ps key value = PutObject now ps key value"

definition DeletePiece :: "ObjectStorage \<Rightarrow> string \<Rightarrow> (store_error option \<times> ObjectStorage) go" where
  "DeletePiece ps key =
     bind_go (GetPiece ps key 0 (-1)) (\<lambda>r.
       case r of Inl err \<Rightarrow> Returns (Some err, ps) | Inr val \<Rightarrow> DeleteObject ps key)"

section \<open>The contract of a store\<close>

text \<open>What a read at an offset with a limit gives of an object; a limit of zero or less is none.\<close>

definition window :: "int64 \<Rightarrow> int64 \<Rightarrow> bytes \<Rightarrow> bytes" where
  "window off lim d = (if lim > 0 then take (nat lim) (drop (nat off) d) else drop (nat off) d)"

datatype store_op = PutOp int64 string bytes | DelOp string

fun run_ops :: "(int64 \<Rightarrow> 's \<Rightarrow> string \<Rightarrow> bytes \<Rightarrow> (store_error option \<times> 's) go)
    \<Rightarrow> ('s \<Rightarrow> string \<Rightarrow> (store_error option \<times> 's) go) \<Rightarrow> store_op list \<Rightarrow> 's \<Rightarrow> 's go" where
  "run_ops put del [] s = Returns s"
| "run_ops put del (PutOp now k d # ops) s = bind_go (put now s k d) (\<lambda>(_, s). run_ops put del ops s)"
| "run_ops put del (DelOp k # ops) s = bind_go (del s k) (\<lambda>(_, s). run_ops put del ops s)"

text \<open>The abstract store: a map from keys to bytes, without the empty key.\<close>

fun map_op :: "store_op \<Rightarrow> (string \<rightharpoonup> bytes) \<Rightarrow> (string \<rightharpoonup> bytes)" where
  "map_op (PutOp now k d) m = (if k = [] then m else m(k \<mapsto> d))"
| "map_op (DelOp k) m = m(k := None)"

locale object_store =
  fixes get :: "'s \<Rightarrow> string \<Rightarrow> int64 \<Rightarrow> int64 \<Rightarrow> (store_error + bytes) go"
    and put :: "int64 \<Rightarrow> 's \<Rightarrow> string \<Rightarrow> bytes \<Rightarrow> (store_error option \<times> 's) go"
    and del :: "'s \<Rightarrow> string \<Rightarrow> (store_error option \<times> 's) go"
    and content :: "'s \<Rightarrow> (string \<rightharpoonup> bytes)"
    and ok :: "'s \<Rightarrow> bool"
  assumes get_content: "ok s \<Longrightarrow> 0 \<le> off \<Longrightarrow> get s k off lim = Returns
      (if k = [] then Inl ErrInvalidObjectKey
       else case content s k of None \<Rightarrow> Inl ErrNoSuchObject | Some d \<Rightarrow> Inr (window off lim d))"
    and put_content: "ok s \<Longrightarrow> \<exists>s'. put now s k d = Returns (if k = [] then Some ErrInvalidObjectKey else None, s')
      \<and> ok s' \<and> content s' = map_op (PutOp now k d) (content s)"
    and del_content: "ok s \<Longrightarrow> \<exists>err s'. del s k = Returns (err, s') \<and> ok s' \<and> content s' = map_op (DelOp k) (content s)"
begin

lemma run_ops_content:
  "ok s \<Longrightarrow> \<exists>s'. run_ops put del ops s = Returns s' \<and> ok s' \<and> content s' = fold map_op ops (content s)"
proof (induction ops arbitrary: s)
  case (Cons op ops)
  have "\<exists>s1. run_ops put del (op # ops) s = run_ops put del ops s1 \<and> ok s1 \<and> content s1 = map_op op (content s)"
  proof (cases op)
    case (PutOp now k d)
    then show ?thesis using put_content [OF Cons.prems, of now k d] by auto
  next
    case (DelOp k)
    then show ?thesis using del_content [OF Cons.prems, of k] by auto
  qed
  then show ?case using Cons.IH by fastforce
qed simp

lemma get_after_ops:
  assumes "ok s" "0 \<le> off" "k \<noteq> []"
  obtains s' where "run_ops put del ops s = Returns s'"
    "get s' k off lim = Returns (case fold map_op ops (content s) k of None \<Rightarrow> Inl ErrNoSuchObject | Some d \<Rightarrow> Inr (window off lim d))"
proof -
  obtain s' where "run_ops put del ops s = Returns s'" "ok s'" "content s' = fold map_op ops (content s)"
    using run_ops_content [OF assms(1)] by blast
  then show thesis using that get_content [OF _ assms(2), of s' k lim] assms(3) by simp
qed

end

definition mem_content :: "memoryStore \<Rightarrow> (string \<rightharpoonup> bytes)" where
  "mem_content m k = map_option mo_data (map_of (ms_objects m) k)"

lemma memory_get:
  "0 \<le> off \<Longrightarrow> memory_GetObject m k off lim = Returns (if k = [] then Inl ErrInvalidObjectKey
     else case mem_content m k of None \<Rightarrow> Inl ErrNoSuchObject | Some d \<Rightarrow> Inr (window off lim d))"
  by (auto simp: memory_GetObject_def mem_content_def window_def Let_def split: option.splits)

lemma memory_put:
  "mem_content (snd (memory_PutObject now m k d)) = map_op (PutOp now k d) (mem_content m)"
  by (auto simp: memory_PutObject_def mem_content_def update_conv' fun_eq_iff)

lemma memory_del:
  "mem_content (snd (memory_DeleteObject m k)) = map_op (DelOp k) (mem_content m)"
  by (auto simp: memory_DeleteObject_def mem_content_def delete_conv' fun_eq_iff)

interpretation mem_store: object_store memory_GetObject "\<lambda>now s k d. Returns (memory_PutObject now s k d)"
  "\<lambda>s k. Returns (memory_DeleteObject s k)" mem_content "\<lambda>_. True"
proof unfold_locales
  fix s :: memoryStore and now k d
  show "\<exists>s'. Returns (memory_PutObject now s k d) = Returns (if k = [] then Some ErrInvalidObjectKey else None, s')
      \<and> True \<and> mem_content s' = map_op (PutOp now k d) (mem_content s)"
    using memory_put [of now s k d] by (auto simp: memory_PutObject_def)
  show "\<exists>err s'. Returns (memory_DeleteObject s k) = Returns (err, s') \<and> True \<and> mem_content s' = map_op (DelOp k) (mem_content s)"
    using memory_del [of s k] by (cases "memory_DeleteObject s k") simp
qed (simp add: memory_get)

text \<open>The shard of a key, and the contents of all shards together.\<close>

definition shard_of :: "'a list \<Rightarrow> string \<Rightarrow> nat" where
  "shard_of ss k = unat (fnv32a k mod of_nat (length ss))"

definition shards_ok :: "'a list \<Rightarrow> bool" where
  "shards_ok ss \<longleftrightarrow> 0 < length ss \<and> length ss < 2 ^ 32"

definition shards_content :: "memoryStore list \<Rightarrow> (string \<rightharpoonup> bytes)" where
  "shards_content ss k = mem_content (ss ! shard_of ss k) k"

lemma pick_shard:
  assumes "shards_ok ss"
  shows "pick ss k = Returns (shard_of ss k)" "shard_of ss k < length ss"
proof -
  have n: "unat (of_nat (length ss) :: uint32) = length ss"
    using assms by (simp add: shards_ok_def unat_of_nat)
  then have nz: "(of_nat (length ss) :: uint32) \<noteq> 0" using assms by (auto simp: shards_ok_def)
  then show "pick ss k = Returns (shard_of ss k)" by (simp add: pick_def shard_of_def)
  have "fnv32a k mod of_nat (length ss) < of_nat (length ss)"
    using nz by (simp add: word_mod_less_divisor word_neq_0_conv)
  then show "shard_of ss k < length ss" using n by (simp add: shard_of_def word_less_nat_alt)
qed

lemma shard_of_update [simp]: "shard_of (ss[i := m]) k = shard_of ss k" "shards_ok (ss[i := m]) = shards_ok ss"
  by (simp_all add: shard_of_def shards_ok_def)

lemma shards_update:
  assumes "shards_ok ss" "mem_content m = f (mem_content (ss ! shard_of ss k))"
    "\<And>c k'. k' \<noteq> k \<Longrightarrow> f c k' = c k'" "\<And>c c'. c k = c' k \<Longrightarrow> f c k = f c' k"
  shows "shards_content (ss[shard_of ss k := m]) = f (shards_content ss)"
proof
  fix k'
  show "shards_content (ss[shard_of ss k := m]) k' = f (shards_content ss) k'"
  proof (cases "k' = k")
    case True
    have "f (mem_content (ss ! shard_of ss k)) k = f (shards_content ss) k"
      by (rule assms(4)) (simp add: shards_content_def)
    then show ?thesis using True assms(2) pick_shard(2) [OF assms(1)] by (simp add: shards_content_def)
  next
    case False
    then show ?thesis using assms(2,3) pick_shard(2) [OF assms(1), of k']
      by (cases "shard_of ss k' = shard_of ss k") (auto simp: shards_content_def)
  qed
qed

interpretation shard_store: object_store sharded_GetObject sharded_PutObject sharded_DeleteObject shards_content shards_ok
proof unfold_locales
  fix ss :: "memoryStore list" and now k d and off lim :: int
  assume ok: "shards_ok ss"
  note pick = pick_shard(1) [OF ok, of k]
  show "sharded_GetObject ss k off lim = Returns (if k = [] then Inl ErrInvalidObjectKey
      else case shards_content ss k of None \<Rightarrow> Inl ErrNoSuchObject | Some d \<Rightarrow> Inr (window off lim d))" if "0 \<le> off"
    using that by (simp add: sharded_GetObject_def pick memory_get shards_content_def)
  let ?i = "shard_of ss k"
  have "shards_content (ss[?i := snd (memory_PutObject now (ss ! ?i) k d)]) = map_op (PutOp now k d) (shards_content ss)"
    by (rule shards_update [OF ok, of _ "map_op (PutOp now k d)" k]) (auto simp: memory_put split: if_splits)
  then show "\<exists>s'. sharded_PutObject now ss k d = Returns (if k = [] then Some ErrInvalidObjectKey else None, s')
      \<and> shards_ok s' \<and> shards_content s' = map_op (PutOp now k d) (shards_content ss)"
    using ok by (auto simp: sharded_PutObject_def pick memory_PutObject_def)
  have "shards_content (ss[?i := snd (memory_DeleteObject (ss ! ?i) k)]) = map_op (DelOp k) (shards_content ss)"
    by (rule shards_update [OF ok, of _ "map_op (DelOp k)" k]) (auto simp: memory_del)
  then show "\<exists>err s'. sharded_DeleteObject ss k = Returns (err, s') \<and> shards_ok s'
      \<and> shards_content s' = map_op (DelOp k) (shards_content ss)"
    using ok by (auto simp: sharded_DeleteObject_def pick memory_DeleteObject_def)
qed

section \<open>The piece store as a map\<close>

fun store_content :: "ObjectStorage \<Rightarrow> (string \<rightharpoonup> bytes)" where
  "store_content (MemStore m) = mem_content m"
| "store_content (Sharded ss) = shards_content ss"

text \<open>Enough shards to have a remainder, and nothing under the empty key.\<close>

definition store_ok :: "ObjectStorage \<Rightarrow> bool" where
  "store_ok ps \<longleftrightarrow> (case ps of MemStore m \<Rightarrow> True | Sharded ss \<Rightarrow> shards_ok ss) \<and> store_content ps [] = None"

lemma GetPiece_content:
  assumes "store_ok ps" "0 \<le> off"
  shows "GetPiece ps k off lim = Returns (if k = [] then Inl ErrInvalidObjectKey
    else case store_content ps k of None \<Rightarrow> Inl ErrNoSuchObject | Some d \<Rightarrow> Inr (window off lim d))"
  using assms mem_store.get_content shard_store.get_content by (cases ps) (simp_all add: GetPiece_def store_ok_def)

lemma PutPiece_content:
  assumes "store_ok ps"
  shows "\<exists>ps'. PutPiece now ps k d = Returns (if k = [] then Some ErrInvalidObjectKey else None, ps')
    \<and> store_ok ps' \<and> store_content ps' = map_op (PutOp now k d) (store_content ps)"
proof (cases ps)
  case (MemStore m)
  then show ?thesis using assms memory_put [of now m k d]
    by (auto simp: PutPiece_def store_ok_def memory_PutObject_def)
next
  case (Sharded ss)
  then have "shards_ok ss" using assms by (simp add: store_ok_def)
  from shard_store.put_content [OF this, of now k d] Sharded assms show ?thesis
    by (auto simp: PutPiece_def store_ok_def)
qed

lemma DeleteObject_content:
  assumes "store_ok ps"
  shows "\<exists>ps'. DeleteObject ps k = Returns (None, ps') \<and> store_ok ps' \<and> store_content ps' = map_op (DelOp k) (store_content ps)"
proof (cases ps)
  case (MemStore m)
  then show ?thesis using assms memory_del [of m k] by (auto simp: store_ok_def memory_DeleteObject_def)
next
  case (Sharded ss)
  then have ok: "shards_ok ss" using assms by (simp add: store_ok_def)
  from shard_store.del_content [OF this, of k] obtain err ss' where d: "sharded_DeleteObject ss k = Returns (err, ss')"
    "shards_ok ss'" "shards_content ss' = map_op (DelOp k) (shards_content ss)" by blast
  have "err = None"
    using d(1) pick_shard(1) [OF ok, of k] by (simp add: sharded_DeleteObject_def memory_DeleteObject_def)
  then show ?thesis using d Sharded assms by (auto simp: store_ok_def)
qed

interpretation piece_store: object_store GetPiece PutPiece DeletePiece store_content store_ok
proof unfold_locales
  fix ps now k and d :: bytes
  assume ok: "store_ok ps"
  show "\<exists>ps'. PutPiece now ps k d = Returns (if k = [] then Some ErrInvalidObjectKey else None, ps')
      \<and> store_ok ps' \<and> store_content ps' = map_op (PutOp now k d) (store_content ps)"
    by (rule PutPiece_content [OF ok])
  show "\<exists>err ps'. DeletePiece ps k = Returns (err, ps') \<and> store_ok ps' \<and> store_content ps' = map_op (DelOp k) (store_content ps)"
  proof (cases "k = [] \<or> store_content ps k = None")
    case True
    then have "map_op (DelOp k) (store_content ps) = store_content ps"
      using ok by (auto simp: store_ok_def fun_eq_iff)
    then show ?thesis using True ok by (auto simp: DeletePiece_def GetPiece_content [OF ok])
  next
    case False
    then show ?thesis using DeleteObject_content [OF ok, of k]
      by (auto simp: DeletePiece_def GetPiece_content [OF ok])
  qed
qed (rule GetPiece_content)

lemma createStorage_ok:
  assumes "n < 2 ^ 32"
  shows "store_ok (createStorage url f n)" "store_content (createStorage url f n) = Map.empty"
proof -
  have empty: "mem_content (newMemoryStore u) = Map.empty" for u
    by (simp add: mem_content_def newMemoryStore_def fun_eq_iff)
  have "shards_content (map (\<lambda>i. newMemoryStore (f i)) [0..<n]) k = None" if "1 < n" for k
    using pick_shard(2) [of "map (\<lambda>i. newMemoryStore (f i)) [0..<n]" k] that assms
    by (simp add: shards_content_def shards_ok_def empty)
  then show "store_content (createStorage url f n) = Map.empty"
    by (auto simp: createStorage_def empty fun_eq_iff)
  then show "store_ok (createStorage url f n)"
    using assms by (auto simp: store_ok_def createStorage_def shards_ok_def)
qed

text \<open>
  C32. The piece store is a map from keys to bytes, with or without sharding: after any sequence of
  puts and deletes on a new store with any number of shards, none of them fails to return, and a
  read gives the bytes last put under the key and not deleted since, cut to the offset and limit, or
  the error for a missing object.
\<close>

theorem piece_store_refines_map:
  assumes "n < 2 ^ 32" "0 \<le> off" "k \<noteq> []"
  shows "\<exists>ps. run_ops PutPiece DeletePiece ops (createStorage url f n) = Returns ps
    \<and> GetPiece ps k off lim = Returns (case fold map_op ops Map.empty k of
         None \<Rightarrow> Inl ErrNoSuchObject | Some d \<Rightarrow> Inr (window off lim d))"
proof -
  obtain ps where "run_ops PutPiece DeletePiece ops (createStorage url f n) = Returns ps"
    "GetPiece ps k off lim = Returns (case fold map_op ops (store_content (createStorage url f n)) k of
       None \<Rightarrow> Inl ErrNoSuchObject | Some d \<Rightarrow> Inr (window off lim d))"
    by (rule piece_store.get_after_ops [OF createStorage_ok(1) [OF assms(1)] assms(2,3)])
  then show ?thesis using createStorage_ok(2) [OF assms(1), of url f] by auto
qed

theorem piece_store_refines_map_witness:
  "\<exists>ps. run_ops PutPiece DeletePiece [PutOp 1 ''s7_s0'' [1, 2, 3], PutOp 2 ''s7_s1'' [4], DelOp ''s7_s1'']
       (createStorage [] (\<lambda>i. []) 4) = Returns ps
     \<and> GetPiece ps ''s7_s0'' 1 1 = Returns (Inr [2])"
  using piece_store_refines_map [of 4 1 "''s7_s0''"
      "[PutOp 1 ''s7_s0'' [1, 2, 3], PutOp 2 ''s7_s1'' [4], DelOp ''s7_s1'']" "[]" "\<lambda>i. []" 1]
  by (simp add: window_def)

end
