(* ===== verification/ObjectIntegrity.thy ===== *)
theory ObjectIntegrity
  imports GoPrelude "HOL-Library.AList"
begin

text \<open>
  The integrity records of objects: \<open>util/string.go\<close> (the text form of checksum lists) and
  \<open>store/sqldb/object_integrity.go\<close>. The database is reached through \<open>gorm\<close>, a library: its
  calls on a table are the functions of a \<open>gorm_table\<close>, arguments of the definitions, and what the
  code relies on is the locale \<open>sql_table\<close>. Strings are ASCII; on an error the partial list that
  \<open>StringToBytesSlice\<close> returns beside it is left out, as no caller reads it.
\<close>

section \<open>Hexadecimal text\<close>

datatype hex_error = InvalidByteError char | ErrLength

definition hex_char :: "nat \<Rightarrow> char" where
  "hex_char n = (if n < 10 then char_of (48 + n) else char_of (87 + n))"

definition EncodeToString :: "bytes \<Rightarrow> string" where
  "EncodeToString src = concat (map (\<lambda>b. [hex_char (unat b div 16), hex_char (unat b mod 16)]) src)"

definition fromHexChar :: "char \<Rightarrow> nat option" where
  "fromHexChar c =
     (let n = of_char c :: nat in
      if 48 \<le> n \<and> n \<le> 57 then Some (n - 48)
      else if 97 \<le> n \<and> n \<le> 102 then Some (n - 87)
      else if 65 \<le> n \<and> n \<le> 70 then Some (n - 55)
      else None)"

fun DecodeString :: "string \<Rightarrow> hex_error + bytes" where
  "DecodeString [] = Inr []"
| "DecodeString [c] = (case fromHexChar c of None \<Rightarrow> Inl (InvalidByteError c) | Some _ \<Rightarrow> Inl ErrLength)"
| "DecodeString (c # d # s) =
     (case fromHexChar c of None \<Rightarrow> Inl (InvalidByteError c) | Some a \<Rightarrow>
      case fromHexChar d of None \<Rightarrow> Inl (InvalidByteError d) | Some b \<Rightarrow>
      case DecodeString s of Inl e \<Rightarrow> Inl e | Inr bs \<Rightarrow> Inr (of_nat (16 * a + b) # bs))"

definition JoinWithComma :: "string list \<Rightarrow> string" where
  "JoinWithComma strs = join_with '','' strs"

definition is_space :: "char \<Rightarrow> bool" where
  "is_space c \<longleftrightarrow> (let n = of_char c :: nat in n = 32 \<or> (9 \<le> n \<and> n \<le> 13))"

definition TrimSpace :: "string \<Rightarrow> string" where
  "TrimSpace s = rev (dropWhile is_space (rev (dropWhile is_space s)))"

definition SplitByComma :: "string \<Rightarrow> string list" where
  "SplitByComma str =
     map TrimSpace (filter (\<lambda>item. 0 < length (TrimSpace item)) (split_on CHR '','' (TrimSpace str)))"

definition BytesSliceToString :: "bytes list \<Rightarrow> string" where
  "BytesSliceToString bs = JoinWithComma (map EncodeToString bs)"

fun decode_all :: "string list \<Rightarrow> hex_error + bytes list" where
  "decode_all [] = Inr []"
| "decode_all (s # ss) =
     (case DecodeString s of Inl e \<Rightarrow> Inl e | Inr b \<Rightarrow>
      case decode_all ss of Inl e \<Rightarrow> Inl e | Inr bs \<Rightarrow> Inr (b # bs))"

definition StringToBytesSlice :: "string \<Rightarrow> hex_error + bytes list" where
  "StringToBytesSlice str = decode_all (SplitByComma str)"

section \<open>Encoding is undone by decoding\<close>

lemma of_char_hex_char: "n < 16 \<Longrightarrow> (of_char (hex_char n) :: nat) = (if n < 10 then 48 + n else 87 + n)"
  by (simp add: hex_char_def)

lemma fromHexChar_hex_char [simp]: "n < 16 \<Longrightarrow> fromHexChar (hex_char n) = Some n"
  by (auto simp: fromHexChar_def of_char_hex_char Let_def)

lemma hex_char_plain: "n < 16 \<Longrightarrow> \<not> is_space (hex_char n)" "n < 16 \<Longrightarrow> hex_char n \<noteq> CHR '',''"
  by (auto simp: is_space_def of_char_hex_char Let_def dest: arg_cong [of _ _ "of_char :: char \<Rightarrow> nat"] split: if_splits)

lemma unat_byte_bound: "unat (b :: 8 word) < 256"
  using unsigned_less [of b] by simp

lemma nibbles: "unat (b :: 8 word) div 16 < 16" "unat b mod 16 < 16"
  using unat_byte_bound [of b] by auto

lemma DecodeString_EncodeToString [simp]: "DecodeString (EncodeToString bs) = Inr bs"
proof (induction bs)
  case (Cons b bs)
  have "(of_nat (16 * (unat b div 16) + unat b mod 16) :: 8 word) = b"
    by (simp only: mult_div_mod_eq) simp
  then show ?case using Cons by (simp add: EncodeToString_def nibbles)
qed (simp add: EncodeToString_def)

lemma EncodeToString_plain:
  "c \<in> set (EncodeToString bs) \<Longrightarrow> \<not> is_space c \<and> c \<noteq> CHR '',''"
  by (auto simp: EncodeToString_def hex_char_plain nibbles)

lemma EncodeToString_empty [simp]: "EncodeToString bs = [] \<longleftrightarrow> bs = []"
  by (auto simp: EncodeToString_def)

lemma TrimSpace_plain: "(\<And>c. c \<in> set s \<Longrightarrow> \<not> is_space c) \<Longrightarrow> TrimSpace s = s"
proof -
  assume plain: "\<And>c. c \<in> set s \<Longrightarrow> \<not> is_space c"
  have "dropWhile is_space r = r" if "set r = set s" for r
    using plain that hd_in_set [of r] by (auto simp: dropWhile_eq_self_iff)
  then show ?thesis by (simp add: TrimSpace_def)
qed

lemma join_with_chars:
  "c \<in> set (join_with sep ws) \<Longrightarrow> c \<in> set sep \<or> (\<exists>w \<in> set ws. c \<in> set w)"
  by (induction sep ws rule: join_with.induct) auto

lemma SplitByComma_encoded:
  "SplitByComma (BytesSliceToString bs) = map EncodeToString (filter (\<lambda>b. b \<noteq> []) bs)"
proof (cases "bs = []")
  case True
  then show ?thesis by (simp add: SplitByComma_def BytesSliceToString_def JoinWithComma_def TrimSpace_def)
next
  case False
  have nsp: "\<not> is_space c" if "c \<in> set (BytesSliceToString bs)" for c
    using that by (auto simp: BytesSliceToString_def JoinWithComma_def is_space_def
        dest!: join_with_chars EncodeToString_plain)
  have "split_on CHR '','' (BytesSliceToString bs) = map EncodeToString bs"
    unfolding BytesSliceToString_def JoinWithComma_def
    using False by (intro split_on_join) (auto dest: EncodeToString_plain)
  moreover have trim: "TrimSpace (EncodeToString b) = EncodeToString b" for b
    by (rule TrimSpace_plain) (auto dest: EncodeToString_plain)
  ultimately show ?thesis
    by (simp add: SplitByComma_def TrimSpace_plain [OF nsp] filter_map o_def trim)
qed

lemma decode_all_encoded: "decode_all (map EncodeToString bs) = Inr bs"
  by (induction bs) simp_all

lemma read_back: "StringToBytesSlice (BytesSliceToString bs) = Inr (filter (\<lambda>b. b \<noteq> []) bs)"
  by (simp add: StringToBytesSlice_def SplitByComma_encoded decode_all_encoded)

text \<open>
  The text form of a checksum list is read back as the list without its empty members:
  serialising and reading any list never fails, and lists of nonempty checksums come back as they
  were. (The list that holds one empty checksum is written like the empty list.)
\<close>

theorem checksum_list_roundtrip:
  "StringToBytesSlice (BytesSliceToString bs) = Inr (filter (\<lambda>b. b \<noteq> []) bs)"
  by (rule read_back)

section \<open>Rows and calls\<close>

record IntegrityMeta =
  im_ObjectID :: uint64
  im_IntegrityChecksum :: bytes
  im_PieceChecksumList :: "bytes list"
  im_Signature :: bytes

record IntegrityMetaTable =
  it_ObjectID :: uint64
  it_IntegrityChecksum :: string
  it_PieceChecksumList :: string
  it_Signature :: string

record PieceHashTable =
  ph_ObjectID :: uint64
  ph_ReplicateIndex :: uint32
  ph_PieceIndex :: uint32
  ph_PieceChecksum :: string

datatype gorm_error = ErrRecordNotFound | MySQLError nat | OtherGormError string

datatype db_error = GormError gorm_error | HexError hex_error | FailedTo string "gorm_error option"

text \<open>
  The calls of \<open>gorm\<close> on one table of a database: \<open>First\<close> by primary key, \<open>Create\<close> with its
  error and number of affected rows, \<open>Delete\<close> by primary key.
\<close>

record ('d, 'k, 'r) gorm_table =
  First :: "'d \<Rightarrow> 'k \<Rightarrow> gorm_error + 'r"
  Create :: "'d \<Rightarrow> 'r \<Rightarrow> (gorm_error option \<times> int64) \<times> 'd"
  Delete :: "'d \<Rightarrow> 'k \<Rightarrow> gorm_error option \<times> 'd"

definition ErrDuplicateEntryCode :: nat where "ErrDuplicateEntryCode = 1062"

fun MysqlErrCode :: "gorm_error option \<Rightarrow> nat" where
  "MysqlErrCode (Some (MySQLError n)) = n"
| "MysqlErrCode _ = 0"

section \<open>Operations on integrity records\<close>

definition GetObjectIntegrity :: "('d, uint64, IntegrityMetaTable) gorm_table \<Rightarrow> 'd \<Rightarrow> uint64 \<Rightarrow> db_error + IntegrityMeta" where
  "GetObjectIntegrity tab d objectID =
     (case First tab d objectID of
        Inl ErrRecordNotFound \<Rightarrow> Inl (GormError ErrRecordNotFound)
      | Inl e \<Rightarrow> Inl (FailedTo ''failed to query integrity meta record'' (Some e))
      | Inr queryReturn \<Rightarrow>
          case DecodeString (it_IntegrityChecksum queryReturn) of Inl e \<Rightarrow> Inl (HexError e) | Inr integrityChecksum \<Rightarrow>
          case DecodeString (it_Signature queryReturn) of Inl e \<Rightarrow> Inl (HexError e) | Inr signature \<Rightarrow>
          case StringToBytesSlice (it_PieceChecksumList queryReturn) of Inl e \<Rightarrow> Inl (HexError e) | Inr l \<Rightarrow>
          Inr \<lparr>im_ObjectID = it_ObjectID queryReturn, im_IntegrityChecksum = integrityChecksum,
               im_PieceChecksumList = l, im_Signature = signature\<rparr>)"

text \<open>The row that \<open>SetObjectIntegrity\<close> inserts.\<close>

definition integrity_row :: "IntegrityMeta \<Rightarrow> IntegrityMetaTable" where
  "integrity_row meta =
     \<lparr>it_ObjectID = im_ObjectID meta, it_IntegrityChecksum = EncodeToString (im_IntegrityChecksum meta),
      it_PieceChecksumList = BytesSliceToString (im_PieceChecksumList meta), it_Signature = EncodeToString (im_Signature meta)\<rparr>"

definition SetObjectIntegrity :: "('d, uint64, IntegrityMetaTable) gorm_table \<Rightarrow> 'd \<Rightarrow> IntegrityMeta \<Rightarrow> db_error option \<times> 'd" where
  "SetObjectIntegrity tab d meta =
     (case Create tab d (integrity_row meta) of ((err, rowsAffected), d) \<Rightarrow>
        if err \<noteq> None \<and> MysqlErrCode err = ErrDuplicateEntryCode then (None, d)
        else if err \<noteq> None \<or> rowsAffected \<noteq> 1
        then (Some (FailedTo ''failed to insert integrity meta record'' err), d)
        else (None, d))"

definition DeleteObjectIntegrity :: "('d, uint64, IntegrityMetaTable) gorm_table \<Rightarrow> 'd \<Rightarrow> uint64 \<Rightarrow> db_error option \<times> 'd" where
  "DeleteObjectIntegrity tab d objectID =
     (case Delete tab d objectID of (err, d) \<Rightarrow> (map_option GormError err, d))"

definition AppendObjectChecksumIntegrity :: "('d, uint64, IntegrityMetaTable) gorm_table \<Rightarrow> 'd \<Rightarrow> uint64 \<Rightarrow> bytes \<Rightarrow> db_error option \<times> 'd" where
  "AppendObjectChecksumIntegrity tab d objectID checksum =
     (case GetObjectIntegrity tab d objectID of
        Inl (GormError ErrRecordNotFound) \<Rightarrow>
          SetObjectIntegrity tab d \<lparr>im_ObjectID = objectID, im_IntegrityChecksum = [],
            im_PieceChecksumList = [checksum], im_Signature = []\<rparr>
      | Inl err \<Rightarrow> (Some err, d)
      | Inr integrityMeta \<Rightarrow>
          (case DeleteObjectIntegrity tab d objectID of (_, d) \<Rightarrow>
             SetObjectIntegrity tab d
               (integrityMeta\<lparr>im_PieceChecksumList := im_PieceChecksumList integrityMeta @ [checksum]\<rparr>)))"

section \<open>Operations on the checksums of received pieces\<close>

type_synonym piece_id = "uint64 \<times> uint32 \<times> uint32"

definition GetReplicatePieceChecksum :: "('d, piece_id, PieceHashTable) gorm_table \<Rightarrow> 'd \<Rightarrow> uint64 \<Rightarrow> uint32 \<Rightarrow> uint32 \<Rightarrow> db_error + bytes" where
  "GetReplicatePieceChecksum tab d objectID replicateIdx pieceIdx =
     (case First tab d (objectID, replicateIdx, pieceIdx) of
        Inl e \<Rightarrow> Inl (GormError e)
      | Inr queryReturn \<Rightarrow>
          case DecodeString (ph_PieceChecksum queryReturn) of Inl e \<Rightarrow> Inl (HexError e) | Inr pieceChecksum \<Rightarrow> Inr pieceChecksum)"

definition SetReplicatePieceChecksum :: "('d, piece_id, PieceHashTable) gorm_table \<Rightarrow> 'd \<Rightarrow> uint64 \<Rightarrow> uint32 \<Rightarrow> uint32 \<Rightarrow> bytes \<Rightarrow> db_error option \<times> 'd" where
  "SetReplicatePieceChecksum tab d objectID replicateIdx pieceIdx checksum =
     (case Create tab d \<lparr>ph_ObjectID = objectID, ph_ReplicateIndex = replicateIdx, ph_PieceIndex = pieceIdx,
             ph_PieceChecksum = EncodeToString checksum\<rparr> of ((err, rowsAffected), d) \<Rightarrow>
        if err \<noteq> None \<and> MysqlErrCode err = ErrDuplicateEntryCode then (None, d)
        else if err \<noteq> None \<or> rowsAffected \<noteq> 1
        then (Some (FailedTo ''failed to insert piece hash record'' err), d)
        else (None, d))"

definition DeleteReplicatePieceChecksum :: "('d, piece_id, PieceHashTable) gorm_table \<Rightarrow> 'd \<Rightarrow> uint64 \<Rightarrow> uint32 \<Rightarrow> uint32 \<Rightarrow> db_error option \<times> 'd" where
  "DeleteReplicatePieceChecksum tab d objectID replicateIdx pieceIdx =
     (case Delete tab d (objectID, replicateIdx, pieceIdx) of (err, d) \<Rightarrow> (map_option GormError err, d))"

text \<open>The loops over the piece indices below \<open>pieceCount\<close>.\<close>

fun get_checksums :: "('d, piece_id, PieceHashTable) gorm_table \<Rightarrow> 'd \<Rightarrow> uint64 \<Rightarrow> uint32 \<Rightarrow> nat list \<Rightarrow> db_error + bytes list" where
  "get_checksums tab d objectID replicateIdx [] = Inr []"
| "get_checksums tab d objectID replicateIdx (i # is) =
     (case GetReplicatePieceChecksum tab d objectID replicateIdx (of_nat i) of
        Inl err \<Rightarrow> Inl err
      | Inr pieceChecksum \<Rightarrow>
          case get_checksums tab d objectID replicateIdx is of Inl err \<Rightarrow> Inl err | Inr l \<Rightarrow> Inr (pieceChecksum # l))"

definition GetAllReplicatePieceChecksum :: "('d, piece_id, PieceHashTable) gorm_table \<Rightarrow> 'd \<Rightarrow> uint64 \<Rightarrow> uint32 \<Rightarrow> uint32 \<Rightarrow> db_error + bytes list" where
  "GetAllReplicatePieceChecksum tab d objectID replicateIdx pieceCount =
     get_checksums tab d objectID replicateIdx [0..<unat pieceCount]"

fun delete_checksums :: "('d, piece_id, PieceHashTable) gorm_table \<Rightarrow> 'd \<Rightarrow> uint64 \<Rightarrow> uint32 \<Rightarrow> nat list \<Rightarrow> db_error option \<times> 'd" where
  "delete_checksums tab d objectID replicateIdx [] = (None, d)"
| "delete_checksums tab d objectID replicateIdx (i # is) =
     (case DeleteReplicatePieceChecksum tab d objectID replicateIdx (of_nat i) of
        (Some err, d) \<Rightarrow> (Some err, d)
      | (None, d) \<Rightarrow> delete_checksums tab d objectID replicateIdx is)"

definition DeleteAllReplicatePieceChecksum :: "('d, piece_id, PieceHashTable) gorm_table \<Rightarrow> 'd \<Rightarrow> uint64 \<Rightarrow> uint32 \<Rightarrow> uint32 \<Rightarrow> db_error option \<times> 'd" where
  "DeleteAllReplicatePieceChecksum tab d objectID replicateIdx pieceCount =
     delete_checksums tab d objectID replicateIdx [0..<unat pieceCount]"

section \<open>The contract of a table\<close>

text \<open>
  What the operations rely on, for a table with rows under primary keys: a read finds the row of
  the key or reports that there is none, an insert of a new key affects one row, of a key that is
  there fails with the duplicate entry code of MySQL and changes nothing, a delete by a key other
  than the zero value removes the row if there is one.
\<close>

locale sql_table =
  fixes tab :: "('d, 'k, 'r) gorm_table"
    and rows :: "'d \<Rightarrow> ('k \<rightharpoonup> 'r)"
    and key :: "'r \<Rightarrow> 'k"
    and zero_key :: 'k
  assumes First_row: "First tab d k = (case rows d k of None \<Rightarrow> Inl ErrRecordNotFound | Some r \<Rightarrow> Inr r)"
    and Create_new: "rows d (key r) = None \<Longrightarrow> \<exists>d'. Create tab d r = ((None, 1), d') \<and> rows d' = (rows d)(key r \<mapsto> r)"
    and Create_duplicate: "rows d (key r) \<noteq> None \<Longrightarrow> \<exists>d' n. Create tab d r = ((Some (MySQLError ErrDuplicateEntryCode), n), d') \<and> rows d' = rows d"
    and Delete_row: "k \<noteq> zero_key \<Longrightarrow> \<exists>d'. Delete tab d k = (None, d') \<and> rows d' = (rows d)(k := None)"

text \<open>The record of an object with the checksums appended so far, as a row; without any there is none.\<close>

definition appended :: "uint64 \<Rightarrow> bytes list \<Rightarrow> IntegrityMeta" where
  "appended oid cs = \<lparr>im_ObjectID = oid, im_IntegrityChecksum = [], im_PieceChecksumList = cs, im_Signature = []\<rparr>"

definition checksums_row :: "uint64 \<Rightarrow> bytes list \<Rightarrow> IntegrityMetaTable option" where
  "checksums_row oid cs = (if cs = [] then None else Some (integrity_row (appended oid cs)))"

text \<open>The table of integrity records; a record reads back as long as no checksum is empty.\<close>

locale integrity_table = sql_table tab rows it_ObjectID 0
  for tab :: "('d, uint64, IntegrityMetaTable) gorm_table" and rows
begin

lemma Set_new:
  assumes "rows d (im_ObjectID meta) = None"
  obtains d' where "SetObjectIntegrity tab d meta = (None, d')"
    "rows d' = (rows d)(im_ObjectID meta \<mapsto> integrity_row meta)"
proof -
  have "rows d (it_ObjectID (integrity_row meta)) = None"
    using assms by (simp add: integrity_row_def)
  from Create_new [OF this] obtain d' where d': "Create tab d (integrity_row meta) = ((None, 1), d')"
    "rows d' = (rows d)(it_ObjectID (integrity_row meta) \<mapsto> integrity_row meta)" by blast
  then have "SetObjectIntegrity tab d meta = (None, d')" by (simp add: SetObjectIntegrity_def)
  moreover have "rows d' = (rows d)(im_ObjectID meta \<mapsto> integrity_row meta)"
    using d'(2) by (simp add: integrity_row_def)
  ultimately show thesis by (rule that)
qed

lemma Set_duplicate:
  assumes "rows d (im_ObjectID meta) \<noteq> None"
  obtains d' where "SetObjectIntegrity tab d meta = (None, d')" "rows d' = rows d"
proof -
  have "rows d (it_ObjectID (integrity_row meta)) \<noteq> None"
    using assms by (simp add: integrity_row_def)
  from Create_duplicate [OF this] show thesis by (auto simp: SetObjectIntegrity_def intro: that)
qed

lemma Get_absent: "rows d oid = None \<Longrightarrow> GetObjectIntegrity tab d oid = Inl (GormError ErrRecordNotFound)"
  by (simp add: GetObjectIntegrity_def First_row)

lemma Get_row:
  assumes "rows d oid = Some (integrity_row meta)" "\<forall>c \<in> set (im_PieceChecksumList meta). c \<noteq> []"
  shows "GetObjectIntegrity tab d oid = Inr meta"
proof -
  have "StringToBytesSlice (BytesSliceToString (im_PieceChecksumList meta)) = Inr (im_PieceChecksumList meta)"
    using assms(2) by (simp add: read_back filter_id_conv)
  then show ?thesis
    using assms(1) by (simp add: GetObjectIntegrity_def First_row integrity_row_def)
qed

lemma Append_step:
  assumes "rows d oid = checksums_row oid cs" "oid \<noteq> 0" "\<forall>c \<in> set cs. c \<noteq> []"
  obtains d' where "AppendObjectChecksumIntegrity tab d oid c = (None, d')" "rows d' = (rows d)(oid := checksums_row oid (cs @ [c]))"
proof (cases "cs = []")
  case True
  then have "rows d oid = None" using assms by (simp add: checksums_row_def)
  moreover obtain d' where "SetObjectIntegrity tab d (appended oid [c]) = (None, d')"
    "rows d' = (rows d)(oid \<mapsto> integrity_row (appended oid [c]))"
    using Set_new [of d "appended oid [c]"] \<open>rows d oid = None\<close> by (auto simp: appended_def)
  ultimately show thesis
    using True by (intro that) (auto simp: AppendObjectChecksumIntegrity_def Get_absent appended_def checksums_row_def)
next
  case False
  let ?m = "appended oid cs"
  have row: "rows d oid = Some (integrity_row ?m)" using False assms(1) by (simp add: checksums_row_def)
  have get: "GetObjectIntegrity tab d oid = Inr ?m"
    using Get_row [OF row] assms(3) by (simp add: appended_def)
  obtain d1 where d1: "Delete tab d oid = (None, d1)" "rows d1 = (rows d)(oid := None)"
    using Delete_row [OF assms(2)] by blast
  have "rows d1 (im_ObjectID (appended oid (cs @ [c]))) = None" using d1 by (simp add: appended_def)
  from Set_new [OF this] obtain d' where "SetObjectIntegrity tab d1 (appended oid (cs @ [c])) = (None, d')"
    "rows d' = (rows d1)(oid \<mapsto> integrity_row (appended oid (cs @ [c])))" by (auto simp: appended_def)
  moreover have "?m\<lparr>im_PieceChecksumList := im_PieceChecksumList ?m @ [c]\<rparr> = appended oid (cs @ [c])"
    by (simp add: appended_def)
  ultimately show thesis
    using get d1 by (intro that) (auto simp: AppendObjectChecksumIntegrity_def DeleteObjectIntegrity_def checksums_row_def)
qed

end

text \<open>The table of the checksums of received pieces.\<close>

definition piece_hash_row :: "uint64 \<Rightarrow> uint32 \<Rightarrow> uint32 \<Rightarrow> bytes \<Rightarrow> PieceHashTable" where
  "piece_hash_row oid r i c = \<lparr>ph_ObjectID = oid, ph_ReplicateIndex = r, ph_PieceIndex = i, ph_PieceChecksum = EncodeToString c\<rparr>"

definition ph_key :: "PieceHashTable \<Rightarrow> piece_id" where
  "ph_key row = (ph_ObjectID row, ph_ReplicateIndex row, ph_PieceIndex row)"

lemma ph_key_row [simp]: "ph_key (piece_hash_row oid r i c) = (oid, r, i)"
  by (simp add: ph_key_def piece_hash_row_def)

locale piece_hash_table = sql_table tab rows ph_key "(0, 0, 0)"
  for tab :: "('d, piece_id, PieceHashTable) gorm_table" and rows
begin

lemma Set_piece_new:
  assumes "rows d (oid, r, i) = None"
  obtains d' where "SetReplicatePieceChecksum tab d oid r i c = (None, d')"
    "rows d' = (rows d)((oid, r, i) \<mapsto> piece_hash_row oid r i c)"
  using Create_new [of d "piece_hash_row oid r i c"] assms
  by (auto simp: SetReplicatePieceChecksum_def piece_hash_row_def ph_key_def)

lemma Set_piece_duplicate:
  assumes "rows d (oid, r, i) \<noteq> None"
  obtains d' where "SetReplicatePieceChecksum tab d oid r i c = (None, d')" "rows d' = rows d"
proof -
  have "rows d (ph_key (piece_hash_row oid r i c)) \<noteq> None" using assms by simp
  from Create_duplicate [OF this] show thesis
    by (auto simp: SetReplicatePieceChecksum_def piece_hash_row_def intro: that)
qed

lemma get_checksums_rows:
  "(\<And>i. i \<in> set is \<Longrightarrow> rows d (oid, r, of_nat i) = Some (piece_hash_row oid r (of_nat i) (f i)))
     \<Longrightarrow> get_checksums tab d oid r is = Inr (map f is)"
  by (induction "is") (simp_all add: GetReplicatePieceChecksum_def First_row piece_hash_row_def)

lemma delete_checksums_rows:
  assumes "oid \<noteq> 0"
  shows "\<exists>d'. delete_checksums tab d oid r is = (None, d')
    \<and> rows d' = (\<lambda>k. if k \<in> (\<lambda>i. (oid, r, of_nat i)) ` set is then None else rows d k)"
proof (induction "is" arbitrary: d)
  case (Cons i "is")
  obtain d1 where d1: "Delete tab d (oid, r, of_nat i) = (None, d1)" "rows d1 = (rows d)((oid, r, of_nat i) := None)"
    using Delete_row [of "(oid, r, of_nat i)" d] assms by auto
  obtain d' where "delete_checksums tab d1 oid r is = (None, d')"
    "rows d' = (\<lambda>k. if k \<in> (\<lambda>i. (oid, r, of_nat i)) ` set is then None else rows d1 k)" using Cons.IH by blast
  then show ?case using d1 by (auto simp: DeleteReplicatePieceChecksum_def fun_eq_iff)
qed simp

end

section \<open>A table held in memory\<close>

text \<open>An association list of rows under their primary keys meets the contract.\<close>

definition alist_table :: "('r \<Rightarrow> 'k) \<Rightarrow> 'k \<Rightarrow> (('k \<times> 'r) list, 'k, 'r) gorm_table" where
  "alist_table key zero_key =
     \<lparr>First = (\<lambda>d k. case map_of d k of None \<Rightarrow> Inl ErrRecordNotFound | Some r \<Rightarrow> Inr r),
      Create = (\<lambda>d r. case map_of d (key r) of
                  None \<Rightarrow> ((None, 1), (key r, r) # d)
                | Some _ \<Rightarrow> ((Some (MySQLError ErrDuplicateEntryCode), 0), d)),
      Delete = (\<lambda>d k. if k = zero_key then (Some (OtherGormError ''WHERE conditions required''), d)
                  else (None, AList.delete k d))\<rparr>"

lemma alist_sql_table: "sql_table (alist_table key zk) map_of key zk"
  by unfold_locales (auto simp: alist_table_def delete_conv' split: option.splits)

interpretation integrity_rows: integrity_table "alist_table it_ObjectID 0" map_of
  using alist_sql_table by (simp add: integrity_table_def)

interpretation piece_rows: piece_hash_table "alist_table ph_key (0, 0, 0)" map_of
  using alist_sql_table by (simp add: piece_hash_table_def)

end
