(* ===== verification/Uploader.thy ===== *)
theory Uploader
  imports PieceStore ObjectIntegrity TQueue
begin

text \<open>
  The uploader module: \<open>modular/uploader/upload_task.go\<close> and \<open>uploader_options.go\<close>. An upload
  cuts the payload it reads from a stream into segments, puts each into the piece store and records
  the checksums. The payload stream is a list of deliveries, each with the error it ends with; a
  stream is finite, so that the loops end. Calls to other processes are arguments: the checksum and
  the signer (\<open>ue_hash\<close>, \<open>ue_sign\<close>), the piece store (\<open>ue_put\<close>), the tables of the database
  (\<open>ue_table\<close>) and the manager (\<open>ue_create\<close>); reports to the manager are logged. Clocks are
  arguments. Metrics and log lines, and what evaluating their arguments does, are not modelled.
\<close>

section \<open>Streams\<close>

datatype io_error = EOF | StreamError string

type_synonym reader = "(bytes \<times> io_error option) list"

text \<open>One \<open>Read\<close> into a buffer of \<open>n\<close> bytes; the rest of a delivery stays for the next one.\<close>

fun Read :: "reader \<Rightarrow> nat \<Rightarrow> bytes \<times> io_error option \<times> reader" where
  "Read [] n = ([], Some EOF, [])"
| "Read ((c, e) # r) n = (if n < length c then (take n c, None, (drop n c, e) # r) else (c, e, r))"

function read_loop :: "reader \<Rightarrow> nat \<Rightarrow> bytes \<Rightarrow> bytes \<times> io_error option \<times> reader" where
  "read_loop r room acc =
     (case Read r room of (cur, err, r') \<Rightarrow>
        if err \<noteq> None \<or> length cur = room then (acc @ cur, err, r')
        else read_loop r' (room - length cur) (acc @ cur))"
  by pat_completeness auto

lemma Read_progress:
  "Read r room = (cur, None, r') \<Longrightarrow> length cur \<noteq> room \<Longrightarrow> length r' < length r"
  by (cases "(r, room)" rule: Read.cases) (auto split: if_splits)

termination read_loop
  by (relation "measure (\<lambda>(r, _). length r)") (auto dest: Read_progress [OF sym])

declare read_loop.simps [simp del]

definition StreamReadAt :: "reader \<Rightarrow> nat \<Rightarrow> bytes \<times> io_error option \<times> reader" where
  "StreamReadAt stream n =
     (if n = 0 then ([], Some (StreamError ''failed to read due to invalid args''), stream)
      else read_loop stream n [])"

text \<open>The payload of a stream that ends without an exception.\<close>

fun stream_payload :: "reader \<Rightarrow> bytes option" where
  "stream_payload [] = Some []"
| "stream_payload ((c, None) # r) = map_option (\<lambda>p. c @ p) (stream_payload r)"
| "stream_payload ((c, Some EOF) # r) = Some c"
| "stream_payload ((c, Some (StreamError _)) # r) = None"

lemma Read_payload:
  assumes "stream_payload r = Some p" "Read r n = (cur, err, r')"
  shows "length cur \<le> n \<and> (case err of None \<Rightarrow> \<exists>p'. p = cur @ p' \<and> stream_payload r' = Some p' | Some e \<Rightarrow> e = EOF \<and> p = cur)"
  using assms
  by (cases r rule: stream_payload.cases) (auto split: if_splits option.splits)

lemma read_loop_payload:
  assumes "stream_payload r = Some p" "read_loop r room acc = (data, err, r')"
  shows "length data \<le> length acc + room \<and>
    (case err of None \<Rightarrow> length data = length acc + room \<and> (\<exists>p'. acc @ p = data @ p' \<and> stream_payload r' = Some p')
     | Some e \<Rightarrow> e = EOF \<and> acc @ p = data)"
  using assms
proof (induction r room acc arbitrary: p rule: read_loop.induct)
  case (1 r room acc)
  obtain cur e r1 where rd: "Read r room = (cur, e, r1)" by (cases "Read r room") auto
  note pay = Read_payload [OF 1(2) rd]
  show ?case
  proof (cases "e \<noteq> None \<or> length cur = room")
    case True
    then show ?thesis using 1(3) pay rd by (subst (asm) read_loop.simps) (auto split: option.splits)
  next
    case False
    then obtain p' where p': "p = cur @ p'" "stream_payload r1 = Some p'" using pay by auto
    have "read_loop r1 (room - length cur) (acc @ cur) = (data, err, r')"
      using 1(3) rd False by (subst (asm) read_loop.simps) simp
    from 1(1) [OF rd [symmetric] refl False p'(2) this] show ?thesis
      using p'(1) pay by (auto split: option.splits)
  qed
qed

lemma StreamReadAt_payload:
  assumes "stream_payload r = Some p" "0 < n" "StreamReadAt r n = (data, err, r')"
  shows "length data \<le> n" "case err of None \<Rightarrow> length data = n \<and> (\<exists>p'. p = data @ p' \<and> stream_payload r' = Some p')
     | Some e \<Rightarrow> e = EOF \<and> p = data"
  using read_loop_payload [OF assms(1), of n "[]" data err r'] assms(2,3)
  by (auto simp: StreamReadAt_def split: option.splits)

text \<open>Every full read takes bytes from the stream.\<close>

definition stream_size :: "reader \<Rightarrow> nat" where
  "stream_size r = sum_list (map (\<lambda>(c, e). length c) r)"

lemma Read_size: "Read r n = (cur, err, r') \<Longrightarrow> stream_size r = length cur + stream_size r'"
  by (cases "(r, n)" rule: Read.cases) (auto simp: stream_size_def split: if_splits)

lemma read_loop_size: "read_loop r room acc = (data, err, r') \<Longrightarrow> length acc + stream_size r = length data + stream_size r'"
proof (induction r room acc rule: read_loop.induct)
  case (1 r room acc)
  obtain cur e r1 where rd: "Read r room = (cur, e, r1)" by (cases "Read r room") auto
  show ?case
  proof (cases "e \<noteq> None \<or> length cur = room")
    case True
    then show ?thesis using 1(2) Read_size [OF rd] rd by (subst (asm) read_loop.simps) auto
  next
    case False
    then have "read_loop r1 (room - length cur) (acc @ cur) = (data, err, r')"
      using 1(2) rd by (subst (asm) read_loop.simps) simp
    from 1(1) [OF rd [symmetric] refl False this] show ?thesis using Read_size [OF rd] by simp
  qed
qed

lemma read_loop_full: "read_loop r room acc = (data, None, r') \<Longrightarrow> length data = length acc + room"
proof (induction r room acc rule: read_loop.induct)
  case (1 r room acc)
  obtain cur e r1 where rd: "Read r room = (cur, e, r1)" by (cases "Read r room") auto
  have le: "length cur \<le> room" if "e = None"
    using rd that by (cases "(r, room)" rule: Read.cases) (auto split: if_splits)
  show ?case
  proof (cases "e \<noteq> None \<or> length cur = room")
    case True
    then show ?thesis using 1(2) rd by (subst (asm) read_loop.simps) auto
  next
    case False
    then have "read_loop r1 (room - length cur) (acc @ cur) = (data, None, r')"
      using 1(2) rd by (subst (asm) read_loop.simps) simp
    from 1(1) [OF rd [symmetric] refl False this] show ?thesis using le False by simp
  qed
qed

lemma StreamReadAt_full:
  assumes "StreamReadAt r n = (data, None, r')"
  shows "0 < n" "length data = n" "stream_size r' < stream_size r"
proof -
  show "0 < n" using assms by (cases "n = 0") (simp_all add: StreamReadAt_def)
  then have loop: "read_loop r n [] = (data, None, r')" using assms by (simp add: StreamReadAt_def)
  then show "length data = n" using read_loop_full by fastforce
  then show "stream_size r' < stream_size r" using read_loop_size [OF loop] \<open>0 < n\<close> by simp
qed

section \<open>State and environment\<close>

record ('s, 'd) UploadModular =
  ul_uploadQueue :: "unit tqueue"
  ul_resumeableUploadQueue :: "unit tqueue"
  ul_pieceStore :: 's
  ul_db :: 'd
  ul_reported :: "Task list"

record ('s, 'd) upload_env =
  ue_put :: "'s \<Rightarrow> string \<Rightarrow> bytes \<Rightarrow> (store_error option \<times> 's) go"
  ue_hash :: "bytes \<Rightarrow> bytes"
  ue_sign :: "uint64 \<Rightarrow> bytes list \<Rightarrow> go_error + (bytes \<times> bytes)"
  ue_table :: "('d, uint64, IntegrityMetaTable) gorm_table"
  ue_text :: "db_error \<Rightarrow> string"
  ue_create :: "Task \<Rightarrow> go_error option"

definition ErrDanglingUploadTask :: go_error where "ErrDanglingUploadTask = GfSpErr (registered (uploader_errors ! 0))"
definition ErrNotCreatedState :: go_error where "ErrNotCreatedState = GfSpErr (registered (uploader_errors ! 1))"
definition ErrRepeatedUpload :: go_error where "ErrRepeatedUpload = GfSpErr (registered (uploader_errors ! 2))"
definition ErrInvalidIntegrity :: go_error where "ErrInvalidIntegrity = GfSpErr (registered (uploader_errors ! 3))"
definition ErrClosedStream :: go_error where "ErrClosedStream = GfSpErr (registered (uploader_errors ! 4))"
definition ErrUploadPieceStore :: go_error where "ErrUploadPieceStore = GfSpErr (registered (uploader_errors ! 5))"
definition ErrUploadGfSpDB :: go_error where "ErrUploadGfSpDB = GfSpErr (registered (uploader_errors ! 6))"

fun store_text :: "store_error \<Rightarrow> string" where
  "store_text ErrNoSuchObject = ''the specified key does not exist''"
| "store_text ErrNoSuchBucket = ''the specified bucket does not exist''"
| "store_text ErrUnsupportedDelimiter = ''unsupported delimiter''"
| "store_text ErrInvalidObjectKey = ''invalid object key''"
| "store_text ErrUnsupportedMethod = ''unsupported method''"
| "store_text ErrNoPermissionAccessBucket = ''deny access bucket''"
| "store_text ErrNotExist = ''file does not exist''"
| "store_text (ErrInvalidStorage t) = t"

definition DefaultUploaderOptions :: "'s \<Rightarrow> 'd \<Rightarrow> go_int \<Rightarrow> ('s, 'd) UploadModular" where
  "DefaultUploaderOptions s d parallel =
     (let parallel = (if parallel = 0 then 10240 else parallel) in
      \<lparr>ul_uploadQueue = NewGfSpTQueue ''uploader-upload-object'' parallel,
       ul_resumeableUploadQueue = NewGfSpTQueue ''uploader-upload-resumable-object'' parallel,
       ul_pieceStore = s, ul_db = d, ul_reported = []\<rparr>)"

section \<open>Uploads\<close>

text \<open>The checks before an upload; a task is a nil pointer (\<open>None\<close>) or a task.\<close>

definition PreUploadObject :: "('s, 'd) upload_env \<Rightarrow> int64 \<Rightarrow> GfSpUploadObjectTask option \<Rightarrow> ('s, 'd) UploadModular
    \<Rightarrow> go_error option \<times> ('s, 'd) UploadModular" where
  "PreUploadObject env now task u =
     (case task of
        None \<Rightarrow> (Some ErrDanglingUploadTask, u)
      | Some t \<Rightarrow>
          case up_ObjectInfo t of
            None \<Rightarrow> (Some ErrDanglingUploadTask, u)
          | Some ob \<Rightarrow>
              if up_StorageParams t = None then (Some ErrDanglingUploadTask, u)
              else if ObjectStatus ob \<noteq> OBJECT_STATUS_CREATED then (Some ErrNotCreatedState, u)
              else case Has now (ul_uploadQueue u) (Key (UploadObjectTask t)) of
                     (True, q) \<Rightarrow> (Some ErrRepeatedUpload, u\<lparr>ul_uploadQueue := q\<rparr>)
                   | (False, q) \<Rightarrow> (ue_create env (UploadObjectTask t), u\<lparr>ul_uploadQueue := q\<rparr>))"

text \<open>
  The end of an upload: the integrity hash is signed, compared with the one on chain, and recorded.
  The results of the loops are the returned error, the variable \<open>err\<close> at the return, which the
  deferred function stores in the task, the piece store and the database.
\<close>

type_synonym ('s, 'd) upload_result = "go_error option \<times> go_error option \<times> 's \<times> 'd"

definition finish_upload :: "('s, 'd) upload_env \<Rightarrow> ObjectInfo \<Rightarrow> bytes list \<Rightarrow> 's \<Rightarrow> 'd \<Rightarrow> ('s, 'd) upload_result go" where
  "finish_upload env ob checksums s d =
     (case ue_sign env (Id ob) checksums of
        Inl err \<Rightarrow> Returns (Some err, Some err, s, d)
      | Inr (signature, integrity) \<Rightarrow>
          if Checksums ob = [] then Panics
          else if integrity \<noteq> Checksums ob ! 0 then Returns (Some ErrInvalidIntegrity, Some ErrInvalidIntegrity, s, d)
          else case SetObjectIntegrity (ue_table env) d \<lparr>im_ObjectID = Id ob, im_IntegrityChecksum = integrity,
                      im_PieceChecksumList = checksums, im_Signature = signature\<rparr> of
                 (Some err, d) \<Rightarrow> Returns (Some ErrUploadGfSpDB, Some (PlainErr (ue_text env err)), s, d)
               | (None, d) \<Rightarrow> Returns (None, None, s, d))"

function upload_loop :: "('s, 'd) upload_env \<Rightarrow> ObjectInfo \<Rightarrow> nat \<Rightarrow> reader \<Rightarrow> uint32 \<Rightarrow> bytes list \<Rightarrow> 's \<Rightarrow> 'd
    \<Rightarrow> ('s, 'd) upload_result go" where
  "upload_loop env ob segmentSize stream segIdx checksums s d =
     (case StreamReadAt stream segmentSize of (data, err, stream') \<Rightarrow>
        case err of
          Some EOF \<Rightarrow>
            if data \<noteq> []
            then (case ue_put env s (SegmentPieceKey (Id ob) segIdx) data of
                    Panics \<Rightarrow> Panics
                  | Returns (Some e, s) \<Rightarrow> Returns (Some ErrUploadPieceStore, Some (PlainErr (store_text e)), s, d)
                  | Returns (None, s) \<Rightarrow> finish_upload env ob (checksums @ [ue_hash env data]) s d)
            else finish_upload env ob checksums s d
        | Some (StreamError text) \<Rightarrow> Returns (Some ErrClosedStream, Some (PlainErr text), s, d)
        | None \<Rightarrow>
            (case ue_put env s (SegmentPieceKey (Id ob) segIdx) data of
               Panics \<Rightarrow> Panics
             | Returns (Some e, s) \<Rightarrow> Returns (Some ErrUploadPieceStore, Some (PlainErr (store_text e)), s, d)
             | Returns (None, s) \<Rightarrow>
                 upload_loop env ob segmentSize stream' (segIdx + 1) (checksums @ [ue_hash env data]) s d))"
  by pat_completeness auto

termination upload_loop
  by (relation "measure (\<lambda>(env, ob, n, stream, _). stream_size stream)") (auto dest: StreamReadAt_full(3) [OF sym])

declare upload_loop.simps [simp del]

definition HandleUploadObjectTask :: "('s, 'd) upload_env \<Rightarrow> int64 \<Rightarrow> int64 \<Rightarrow> GfSpUploadObjectTask \<Rightarrow> reader \<Rightarrow> ('s, 'd) UploadModular
    \<Rightarrow> (go_error option \<times> ('s, 'd) UploadModular) go" where
  "HandleUploadObjectTask env now now' task stream u =
     (case up_ObjectInfo task of
        None \<Rightarrow> Panics
      | Some ob \<Rightarrow>
          case Push now (ul_uploadQueue u) (UploadObjectTask task) of
            (Some err, q) \<Rightarrow> Returns (Some (GfSpErr err), u\<lparr>ul_uploadQueue := q\<rparr>)
          | (None, q) \<Rightarrow>
              case up_StorageParams task of
                None \<Rightarrow> Panics
              | Some params \<Rightarrow>
                  let segmentSize = MaxSegmentPieceSize (PayloadSize ob) (MaxSegmentSize params)
                  in if segmentSize < 0 then Panics
                     else bind_go (upload_loop env ob (nat segmentSize) stream 0 [] (ul_pieceStore u) (ul_db u)) (\<lambda>(ret, err, s, d).
                       let t = (if err \<noteq> None then SetError err (UploadObjectTask task) else UploadObjectTask task)
                       in Returns (ret, u\<lparr>ul_pieceStore := s, ul_db := d, ul_reported := ul_reported u @ [t],
                            ul_uploadQueue := snd (PopByKey now' q (Key t))\<rparr>)))"

definition upload_QueryTasks :: "('s, 'd) UploadModular \<Rightarrow> string \<Rightarrow> Task list" where
  "upload_QueryTasks u subKey = ScanTQueueBySubKey (ul_uploadQueue u) subKey"

section \<open>Resumable uploads\<close>

definition PreResumableUploadObject :: "('s, 'd) upload_env \<Rightarrow> int64 \<Rightarrow> GfSpResumableUploadObjectTask option \<Rightarrow> ('s, 'd) UploadModular
    \<Rightarrow> go_error option \<times> ('s, 'd) UploadModular" where
  "PreResumableUploadObject env now task u =
     (case task of
        None \<Rightarrow> (Some ErrDanglingUploadTask, u)
      | Some t \<Rightarrow>
          case ru_ObjectInfo t of
            None \<Rightarrow> (Some ErrDanglingUploadTask, u)
          | Some ob \<Rightarrow>
              if ru_StorageParams t = None then (Some ErrDanglingUploadTask, u)
              else if ObjectStatus ob \<noteq> OBJECT_STATUS_CREATED then (Some ErrNotCreatedState, u)
              else case Has now (ul_resumeableUploadQueue u) (Key (ResumableUploadObjectTask t)) of
                     (True, q) \<Rightarrow> (Some ErrRepeatedUpload, u\<lparr>ul_resumeableUploadQueue := q\<rparr>)
                   | (False, q) \<Rightarrow> (ue_create env (ResumableUploadObjectTask t), u\<lparr>ul_resumeableUploadQueue := q\<rparr>))"

definition finish_resumable :: "('s, 'd) upload_env \<Rightarrow> ObjectInfo \<Rightarrow> bool \<Rightarrow> 's \<Rightarrow> 'd \<Rightarrow> ('s, 'd) upload_result go" where
  "finish_resumable env ob completed s d =
     (if \<not> completed then Returns (None, None, s, d)
      else case GetObjectIntegrity (ue_table env) d (Id ob) of
        Inl err \<Rightarrow> Returns (Some (PlainErr (ue_text env err)), Some (PlainErr (ue_text env err)), s, d)
      | Inr integrityMeta \<Rightarrow>
          case ue_sign env (Id ob) (im_PieceChecksumList integrityMeta) of
            Inl err \<Rightarrow> Returns (Some err, Some err, s, d)
          | Inr (signature, integrity) \<Rightarrow>
              if Checksums ob = [] then Panics
              else if integrity \<noteq> Checksums ob ! 0 then Returns (Some ErrInvalidIntegrity, Some ErrInvalidIntegrity, s, d)
              else case SetObjectIntegrity (ue_table env) d
                          (integrityMeta\<lparr>im_IntegrityChecksum := integrity, im_Signature := signature\<rparr>) of
                     (Some err, d) \<Rightarrow> Returns (Some ErrUploadGfSpDB, Some (PlainErr (ue_text env err)), s, d)
                   | (None, d) \<Rightarrow> Returns (None, None, s, d))"

text \<open>Putting a segment and appending its checksum; the outer option is an early return.\<close>

definition put_resumable :: "('s, 'd) upload_env \<Rightarrow> ObjectInfo \<Rightarrow> uint32 \<Rightarrow> bytes \<Rightarrow> 's \<Rightarrow> 'd
    \<Rightarrow> ((go_error \<times> go_error) option \<times> 's \<times> 'd) go" where
  "put_resumable env ob segIdx data s d =
     bind_go (ue_put env s (SegmentPieceKey (Id ob) segIdx) data) (\<lambda>(e, s).
       case e of
         Some e \<Rightarrow> Returns (Some (ErrUploadPieceStore, PlainErr (store_text e)), s, d)
       | None \<Rightarrow>
           case AppendObjectChecksumIntegrity (ue_table env) d (Id ob) (ue_hash env data) of
             (Some err, d) \<Rightarrow> Returns (Some (ErrUploadGfSpDB, PlainErr (ue_text env err)), s, d)
           | (None, d) \<Rightarrow> Returns (None, s, d))"

function resumable_loop :: "('s, 'd) upload_env \<Rightarrow> ObjectInfo \<Rightarrow> bool \<Rightarrow> nat \<Rightarrow> reader \<Rightarrow> uint32 \<Rightarrow> 's \<Rightarrow> 'd
    \<Rightarrow> ('s, 'd) upload_result go" where
  "resumable_loop env ob completed segmentSize stream segIdx s d =
     (case StreamReadAt stream segmentSize of (data, err, stream') \<Rightarrow>
        case err of
          Some EOF \<Rightarrow>
            if data \<noteq> []
            then (case put_resumable env ob segIdx data s d of
                    Panics \<Rightarrow> Panics
                  | Returns (Some (ret, e), s, d) \<Rightarrow> Returns (Some ret, Some e, s, d)
                  | Returns (None, s, d) \<Rightarrow> finish_resumable env ob completed s d)
            else finish_resumable env ob completed s d
        | Some (StreamError text) \<Rightarrow> Returns (Some ErrClosedStream, Some (PlainErr text), s, d)
        | None \<Rightarrow>
            (case put_resumable env ob segIdx data s d of
               Panics \<Rightarrow> Panics
             | Returns (Some (ret, e), s, d) \<Rightarrow> Returns (Some ret, Some e, s, d)
             | Returns (None, s, d) \<Rightarrow> resumable_loop env ob completed segmentSize stream' (segIdx + 1) s d))"
  by pat_completeness auto

termination resumable_loop
  by (relation "measure (\<lambda>(env, ob, c, n, stream, _). stream_size stream)") (auto dest: StreamReadAt_full(3) [OF sym])

declare resumable_loop.simps [simp del]

text \<open>The first segment index divides by the segment size, which panics for an empty object.\<close>

definition HandleResumableUploadObjectTask :: "('s, 'd) upload_env \<Rightarrow> int64 \<Rightarrow> int64 \<Rightarrow> GfSpResumableUploadObjectTask \<Rightarrow> reader
    \<Rightarrow> ('s, 'd) UploadModular \<Rightarrow> (go_error option \<times> ('s, 'd) UploadModular) go" where
  "HandleResumableUploadObjectTask env now now' task stream u =
     (case ru_ObjectInfo task of
        None \<Rightarrow> Panics
      | Some ob \<Rightarrow>
          case Push now (ul_resumeableUploadQueue u) (ResumableUploadObjectTask task) of
            (Some err, q) \<Rightarrow> Returns (Some (GfSpErr err), u\<lparr>ul_resumeableUploadQueue := q\<rparr>)
          | (None, q) \<Rightarrow>
              case ru_StorageParams task of
                None \<Rightarrow> Panics
              | Some params \<Rightarrow>
                  let segmentSize = MaxSegmentPieceSize (PayloadSize ob) (MaxSegmentSize params)
                  in bind_go (go_div (int64_of (ru_Offset task)) segmentSize) (\<lambda>segIdx.
                       if segmentSize < 0 then Panics
                       else bind_go (resumable_loop env ob (ru_Completed task) (nat segmentSize) stream (word_of_int segIdx)
                              (ul_pieceStore u) (ul_db u)) (\<lambda>(ret, err, s, d).
                         let t = (if err \<noteq> None then SetError err (ResumableUploadObjectTask task) else ResumableUploadObjectTask task)
                         in Returns (ret, u\<lparr>ul_pieceStore := s, ul_db := d,
                              ul_reported := ul_reported u @ (if ru_Completed task then [t] else []),
                              ul_resumeableUploadQueue := snd (PopByKey now' q (Key t))\<rparr>))))"

section \<open>What a clean upload stores\<close>

function segments :: "nat \<Rightarrow> bytes \<Rightarrow> bytes list" where
  "segments n p = (if n = 0 \<or> p = [] then [] else take n p # segments n (drop n p))"
  by pat_completeness auto

termination segments
  by (relation "measure (\<lambda>(n, p). length p)") auto

declare segments.simps [simp del]

lemma segments_Nil [simp]: "segments n [] = []"
  by (simp add: segments.simps)

lemma segments_full: "0 < n \<Longrightarrow> length x = n \<Longrightarrow> segments n (x @ p) = x # segments n p"
  by (subst segments.simps) auto

lemma segments_last: "x \<noteq> [] \<Longrightarrow> length x \<le> n \<Longrightarrow> segments n x = [x]"
  by (subst segments.simps) (cases x; auto)

lemma segments_concat: "0 < n \<Longrightarrow> concat (segments n p) = p"
  by (induction n p rule: segments.induct) (subst segments.simps, auto)

text \<open>The puts of the segments of an object, from an index on.\<close>

fun seg_ops :: "int64 \<Rightarrow> uint64 \<Rightarrow> uint32 \<Rightarrow> bytes list \<Rightarrow> store_op list" where
  "seg_ops now oid idx [] = []"
| "seg_ops now oid idx (x # xs) = PutOp now (SegmentPieceKey oid idx) x # seg_ops now oid (idx + 1) xs"

lemma SegmentPieceKey_nonempty [simp]: "SegmentPieceKey oid i \<noteq> []"
  by (simp add: SegmentPieceKey_def)

text \<open>
  What an upload relies on: the contract of the piece store for its puts, the contract of the table
  of integrity records, and that checksums are not empty.
\<close>

locale upload_backend = object_store get put del content ok + integrity_table "ue_table env" rows
  for get :: "'s \<Rightarrow> string \<Rightarrow> int64 \<Rightarrow> int64 \<Rightarrow> (store_error + bytes) go" and put del content ok
    and env :: "('s, 'd) upload_env" and rows :: "'d \<Rightarrow> (uint64 \<rightharpoonup> IntegrityMetaTable)" +
  fixes now :: int64
  assumes put_now: "ue_put env = put now"
    and hash_nonempty: "ue_hash env b \<noteq> []"
begin

lemma put_segment:
  assumes "ok s"
  obtains s' where "ue_put env s (SegmentPieceKey oid i) x = Returns (None, s')" "ok s'"
    "content s' = (content s)(SegmentPieceKey oid i \<mapsto> x)"
  using put_content [OF assms, of now "SegmentPieceKey oid i" x] put_now by auto

lemma upload_loop_stores:
  assumes "0 < n" "stream_payload r = Some p" "ok s"
  shows "\<exists>s'. upload_loop env ob n r idx cs s d = finish_upload env ob (cs @ map (ue_hash env) (segments n p)) s' d
    \<and> ok s' \<and> content s' = fold map_op (seg_ops now (Id ob) idx (segments n p)) (content s)"
  using assms
proof (induction "stream_size r" arbitrary: r p idx cs s rule: less_induct)
  case less
  obtain data err r' where rd: "StreamReadAt r n = (data, err, r')" by (cases "StreamReadAt r n") auto
  note pay = StreamReadAt_payload [OF less(3,2) rd]
  obtain s1 where s1: "ue_put env s (SegmentPieceKey (Id ob) idx) data = Returns (None, s1)" "ok s1"
    "content s1 = (content s)(SegmentPieceKey (Id ob) idx \<mapsto> data)"
    by (rule put_segment [OF less(4)])
  show ?case
  proof (cases err)
    case (Some e)
    then have "e = EOF" "p = data" using pay(2) by simp_all
    then show ?thesis
      using rd Some s1 less(4) segments_last [OF _ pay(1)] by (cases "data = []") (auto simp: upload_loop.simps)
  next
    case None
    then obtain p' where p': "length data = n" "p = data @ p'" "stream_payload r' = Some p'" using pay(2) by auto
    have seg: "segments n p = data # segments n p'" using segments_full [OF less(2) p'(1)] p'(2) by simp
    have step: "upload_loop env ob n r idx cs s d = upload_loop env ob n r' (idx + 1) (cs @ [ue_hash env data]) s1 d"
      by (subst upload_loop.simps) (simp add: rd None s1(1))
    have "\<exists>s'. upload_loop env ob n r' (idx + 1) (cs @ [ue_hash env data]) s1 d
        = finish_upload env ob ((cs @ [ue_hash env data]) @ map (ue_hash env) (segments n p')) s' d
      \<and> ok s' \<and> content s' = fold map_op (seg_ops now (Id ob) (idx + 1) (segments n p')) (content s1)"
      using less(1) [OF StreamReadAt_full(3) [OF rd [unfolded None]] less(2) p'(3) s1(2)] .
    then show ?thesis using step seg s1(3) by simp
  qed
qed

lemma put_resumable_stores:
  assumes "ok s" "rows d (Id ob) = checksums_row (Id ob) cs" "Id ob \<noteq> 0" "\<forall>c \<in> set cs. c \<noteq> []"
  obtains s' d' where "put_resumable env ob idx x s d = Returns (None, s', d')" "ok s'"
    "content s' = (content s)(SegmentPieceKey (Id ob) idx \<mapsto> x)" "rows d' (Id ob) = checksums_row (Id ob) (cs @ [ue_hash env x])"
proof -
  obtain s' where s': "ue_put env s (SegmentPieceKey (Id ob) idx) x = Returns (None, s')" "ok s'"
    "content s' = (content s)(SegmentPieceKey (Id ob) idx \<mapsto> x)" by (rule put_segment [OF assms(1)])
  obtain d' where d': "AppendObjectChecksumIntegrity (ue_table env) d (Id ob) (ue_hash env x) = (None, d')"
    "rows d' = (rows d)(Id ob := checksums_row (Id ob) (cs @ [ue_hash env x]))"
    by (rule Append_step [OF assms(2-4)])
  show thesis by (rule that [of s' d']) (simp_all add: put_resumable_def s' d')
qed

lemma resumable_loop_stores:
  assumes "0 < n" "stream_payload r = Some p" "ok s" "rows d (Id ob) = checksums_row (Id ob) cs" "Id ob \<noteq> 0" "\<forall>c \<in> set cs. c \<noteq> []"
  shows "\<exists>s' d'. resumable_loop env ob completed n r idx s d = finish_resumable env ob completed s' d'
    \<and> ok s' \<and> content s' = fold map_op (seg_ops now (Id ob) idx (segments n p)) (content s)
    \<and> rows d' (Id ob) = checksums_row (Id ob) (cs @ map (ue_hash env) (segments n p))"
  using assms
proof (induction "stream_size r" arbitrary: r p idx cs s d rule: less_induct)
  case less
  obtain data err r' where rd: "StreamReadAt r n = (data, err, r')" by (cases "StreamReadAt r n") auto
  note pay = StreamReadAt_payload [OF less(3,2) rd]
  obtain s1 d1 where s1: "put_resumable env ob idx data s d = Returns (None, s1, d1)" "ok s1"
    "content s1 = (content s)(SegmentPieceKey (Id ob) idx \<mapsto> data)" "rows d1 (Id ob) = checksums_row (Id ob) (cs @ [ue_hash env data])"
    by (rule put_resumable_stores [OF less(4-7)])
  show ?case
  proof (cases err)
    case (Some e)
    then have "e = EOF" "p = data" using pay(2) by simp_all
    then show ?thesis
      using rd Some s1 less(4,5) segments_last [OF _ pay(1)] by (cases "data = []") (auto simp: resumable_loop.simps)
  next
    case None
    then obtain p' where p': "length data = n" "p = data @ p'" "stream_payload r' = Some p'" using pay(2) by auto
    have seg: "segments n p = data # segments n p'" using segments_full [OF less(2) p'(1)] p'(2) by simp
    have step: "resumable_loop env ob completed n r idx s d = resumable_loop env ob completed n r' (idx + 1) s1 d1"
      by (subst resumable_loop.simps) (simp add: rd None s1(1))
    have "\<forall>c \<in> set (cs @ [ue_hash env data]). c \<noteq> []" using less(7) hash_nonempty by auto
    from less(1) [OF StreamReadAt_full(3) [OF rd [unfolded None]] less(2) p'(3) s1(2,4) less(6) this, of "idx + 1"]
    show ?thesis using step seg s1(3) by simp
  qed
qed

lemma finish_upload_cases:
  assumes "rows d (Id ob) = None" "Checksums ob \<noteq> []" "\<forall>c \<in> set cs. c \<noteq> []"
  shows "\<exists>ret d'. finish_upload env ob cs s d = Returns (ret, ret, s, d') \<and>
    (case ue_sign env (Id ob) cs of
       Inl e \<Rightarrow> ret = Some e \<and> d' = d
     | Inr (sig, integrity) \<Rightarrow>
         if integrity \<noteq> Checksums ob ! 0 then ret = Some ErrInvalidIntegrity \<and> d' = d
         else ret = None \<and> GetObjectIntegrity (ue_table env) d' (Id ob) = Inr \<lparr>im_ObjectID = Id ob,
                im_IntegrityChecksum = integrity, im_PieceChecksumList = cs, im_Signature = sig\<rparr>)"
proof (cases "ue_sign env (Id ob) cs")
  case (Inr si)
  obtain sig integrity where si: "si = (sig, integrity)" by (cases si)
  let ?meta = "\<lparr>im_ObjectID = Id ob, im_IntegrityChecksum = integrity, im_PieceChecksumList = cs, im_Signature = sig\<rparr>"
  obtain d' where d': "SetObjectIntegrity (ue_table env) d ?meta = (None, d')"
    "rows d' = (rows d)(Id ob \<mapsto> integrity_row ?meta)"
    using Set_new [of d ?meta] assms(1) by auto
  have "GetObjectIntegrity (ue_table env) d' (Id ob) = Inr ?meta"
    by (rule Get_row) (simp_all add: d'(2) assms(3))
  then show ?thesis using Inr si d'(1) assms(2) by (auto simp: finish_upload_def)
qed (simp add: finish_upload_def)

text \<open>The record of a completed resumable upload is already there, and stays as it was.\<close>

lemma finish_resumable_keeps_row:
  assumes "rows d (Id ob) = checksums_row (Id ob) cs" "cs \<noteq> []" "\<forall>c \<in> set cs. c \<noteq> []"
    "Checksums ob \<noteq> []" "ue_sign env (Id ob) cs = Inr (sig, Checksums ob ! 0)"
  shows "\<exists>d'. finish_resumable env ob True s d = Returns (None, None, s, d')
    \<and> GetObjectIntegrity (ue_table env) d' (Id ob) = Inr (appended (Id ob) cs)"
proof -
  have row: "rows d (Id ob) = Some (integrity_row (appended (Id ob) cs))"
    using assms(1,2) by (simp add: checksums_row_def)
  have get: "GetObjectIntegrity (ue_table env) e (Id ob) = Inr (appended (Id ob) cs)" if "rows e = rows d" for e
    using Get_row [of e "Id ob" "appended (Id ob) cs"] row that assms(3) by (simp add: appended_def)
  let ?meta = "(appended (Id ob) cs)\<lparr>im_IntegrityChecksum := Checksums ob ! 0, im_Signature := sig\<rparr>"
  obtain d' where "SetObjectIntegrity (ue_table env) d ?meta = (None, d')" "rows d' = rows d"
    using Set_duplicate [of d ?meta] row by (auto simp: appended_def)
  then show ?thesis using get assms(4,5) by (auto simp: finish_resumable_def appended_def)
qed

end

section \<open>Segments under their keys\<close>

lemma SegmentPieceKey_eq [simp]: "SegmentPieceKey o1 s1 = SegmentPieceKey o2 s2 \<longleftrightarrow> o1 = o2 \<and> s1 = s2"
proof
  assume "SegmentPieceKey o1 s1 = SegmentPieceKey o2 s2"
  from arg_cong [OF this, of "split_on CHR ''_''"] show "o1 = o2 \<and> s1 = s2"
    by (simp add: split_SegmentPieceKey word_unat_eq_iff)
qed simp

lemma seg_ops_other:
  "(\<And>j. j < length xs \<Longrightarrow> k \<noteq> SegmentPieceKey oid (idx + of_nat j)) \<Longrightarrow> fold map_op (seg_ops now oid idx xs) m k = m k"
proof (induction xs arbitrary: idx m)
  case (Cons x xs)
  have "k \<noteq> SegmentPieceKey oid (idx + 1 + of_nat j)" if "j < length xs" for j
    using Cons.prems [of "Suc j"] that by (simp add: add.assoc)
  then show ?case using Cons.IH [of "idx + 1"] Cons.prems [of 0] by simp
qed simp

lemma of_nat_32_nonzero: "0 < j \<Longrightarrow> j < 2 ^ 32 \<Longrightarrow> (of_nat j :: uint32) \<noteq> 0"
proof
  assume "0 < j" "j < 2 ^ 32" "(of_nat j :: uint32) = 0"
  then have "unat (of_nat j :: uint32) = 0" by (simp only: unat_0)
  then show False using \<open>0 < j\<close> \<open>j < 2 ^ 32\<close> by (simp add: unat_of_nat)
qed

lemma seg_ops_lookup:
  "length xs \<le> 2 ^ 32 \<Longrightarrow> i < length xs \<Longrightarrow>
     fold map_op (seg_ops now oid idx xs) m (SegmentPieceKey oid (idx + of_nat i)) = Some (xs ! i)"
proof (induction xs arbitrary: idx m i)
  case (Cons x xs)
  show ?case
  proof (cases i)
    case 0
    have "SegmentPieceKey oid idx \<noteq> SegmentPieceKey oid (idx + 1 + of_nat j)" if "j < length xs" for j
      using of_nat_32_nonzero [of "Suc j"] that Cons.prems by (simp add: add.assoc)
    then show ?thesis using 0 seg_ops_other [of xs] by simp
  next
    case (Suc i')
    have "idx + of_nat i = idx + 1 + of_nat i'" using Suc by simp
    moreover have "fold map_op (seg_ops now oid (idx + 1) xs) m' (SegmentPieceKey oid (idx + 1 + of_nat i')) = Some (xs ! i')" for m'
      by (rule Cons.IH) (use Cons.prems Suc in simp_all)
    ultimately show ?thesis using Suc by (simp add: add.assoc)
  qed
qed simp

section \<open>The contracts of the handlers\<close>

lemma upload_backend_PutPiece:
  assumes "ue_put env = PutPiece t0" "integrity_table (ue_table env) rows" "\<And>b. ue_hash env b \<noteq> []"
  shows "upload_backend GetPiece PutPiece DeletePiece store_content store_ok env rows t0"
  using assms piece_store.object_store_axioms by (simp add: upload_backend_def upload_backend_axioms_def)

text \<open>
  An environment with the tables in memory, checksums that count bytes and a signer that
  concatenates the checksums, for concrete runs.
\<close>

definition memory_env :: "(ObjectStorage, (uint64 \<times> IntegrityMetaTable) list) upload_env" where
  "memory_env = \<lparr>ue_put = PutPiece 5, ue_hash = (\<lambda>b. [of_nat (length b)]), ue_sign = (\<lambda>oid cs. Inr ([1], concat cs)),
     ue_table = alist_table it_ObjectID 0, ue_text = (\<lambda>e. []), ue_create = (\<lambda>t. None)\<rparr>"

interpretation memory_upload: upload_backend GetPiece PutPiece DeletePiece store_content store_ok memory_env map_of 5
  using integrity_rows.integrity_table_axioms
  by (intro upload_backend_PutPiece) (simp_all add: memory_env_def)

definition demo_upload_object :: ObjectInfo where
  "demo_upload_object = nil_object\<lparr>Id := 7, PayloadSize := 5, Checksums := [[2, 2, 1]]\<rparr>"

definition demo_upload_params :: Params where
  "demo_upload_params = \<lparr>MaxPayloadSize = 100, MaxSegmentSize = 2, RedundantDataChunkNum = 4, RedundantParityChunkNum = 2\<rparr>"

definition demo_stream :: reader where
  "demo_stream = [([1, 2, 3], None), ([4, 5], Some EOF)]"

definition demo_uploader :: "(ObjectStorage, (uint64 \<times> IntegrityMetaTable) list) UploadModular" where
  "demo_uploader = DefaultUploaderOptions (createStorage [] (\<lambda>i. []) 4) [] 10"

definition demo_upload_task :: GfSpUploadObjectTask where
  "demo_upload_task = \<lparr>up_Task = new_task, up_ObjectInfo = Some demo_upload_object, up_StorageParams = Some demo_upload_params\<rparr>"

definition demo_resumable_task :: GfSpResumableUploadObjectTask where
  "demo_resumable_task = \<lparr>ru_Task = new_task, ru_ObjectInfo = Some demo_upload_object, ru_StorageParams = Some demo_upload_params,
     ru_Offset = 0, ru_Length = 5, ru_Completed = True\<rparr>"

text \<open>The segment size of a task's object, and the segments of a payload.\<close>

definition segment_size :: "ObjectInfo \<Rightarrow> Params \<Rightarrow> nat" where
  "segment_size ob params = nat (MaxSegmentPieceSize (PayloadSize ob) (MaxSegmentSize params))"

definition stored_segments :: "ObjectStorage \<Rightarrow> uint64 \<Rightarrow> uint32 \<Rightarrow> bytes list \<Rightarrow> bool" where
  "stored_segments ps oid idx xs \<longleftrightarrow> store_ok ps \<and>
     (\<forall>i < length xs. store_content ps (SegmentPieceKey oid (idx + of_nat i)) = Some (xs ! i))"

text \<open>An accepted upload of a payload that arrives completely stores it and goes on to sign.\<close>

lemma upload_run:
  assumes task: "up_ObjectInfo task = Some ob" "up_StorageParams task = Some params" "Checksums ob \<noteq> []"
    and accepted: "Push now (ul_uploadQueue u) (UploadObjectTask task) = (None, q)"
    and stream: "stream_payload stream = Some payload" "0 < segment_size ob params"
    and segs: "segs = segments (segment_size ob params) payload" "length segs \<le> 2 ^ 32"
    and store: "store_ok (ul_pieceStore u)" "ue_put env = PutPiece t0"
    and db: "integrity_table (ue_table env) rows" "rows (ul_db u) (Id ob) = None" "\<And>b. ue_hash env b \<noteq> []"
  obtains ret u' where "HandleUploadObjectTask env now now' task stream u = Returns (ret, u')"
    "stored_segments (ul_pieceStore u') (Id ob) 0 segs"
    "ul_reported u' = ul_reported u @ [if ret = None then UploadObjectTask task else SetError ret (UploadObjectTask task)]"
    "case ue_sign env (Id ob) (map (ue_hash env) segs) of
       Inl e \<Rightarrow> ret = Some e \<and> ul_db u' = ul_db u
     | Inr (sig, integrity) \<Rightarrow>
         if integrity \<noteq> Checksums ob ! 0 then ret = Some ErrInvalidIntegrity \<and> ul_db u' = ul_db u
         else ret = None \<and> GetObjectIntegrity (ue_table env) (ul_db u') (Id ob) = Inr \<lparr>im_ObjectID = Id ob,
                im_IntegrityChecksum = integrity, im_PieceChecksumList = map (ue_hash env) segs, im_Signature = sig\<rparr>"
proof -
  note backend = upload_backend_PutPiece [OF store(2) db(1,3)]
  obtain s' where loop: "upload_loop env ob (segment_size ob params) stream 0 [] (ul_pieceStore u) (ul_db u)
      = finish_upload env ob (map (ue_hash env) segs) s' (ul_db u)" "store_ok s'"
    "store_content s' = fold map_op (seg_ops t0 (Id ob) 0 segs) (store_content (ul_pieceStore u))"
    using upload_backend.upload_loop_stores [OF backend stream(2,1) store(1), of ob 0 "[]" "ul_db u"] segs(1) by auto
  have stored: "stored_segments s' (Id ob) 0 segs"
    using loop(2) seg_ops_lookup [OF segs(2), of _ t0 "Id ob" 0] by (simp add: stored_segments_def loop(3))
  have cs: "\<forall>c \<in> set (map (ue_hash env) segs). c \<noteq> []" using db(3) by auto
  obtain ret d' where fin: "finish_upload env ob (map (ue_hash env) segs) s' (ul_db u) = Returns (ret, ret, s', d')"
    "case ue_sign env (Id ob) (map (ue_hash env) segs) of
       Inl e \<Rightarrow> ret = Some e \<and> d' = ul_db u
     | Inr (sig, integrity) \<Rightarrow>
         if integrity \<noteq> Checksums ob ! 0 then ret = Some ErrInvalidIntegrity \<and> d' = ul_db u
         else ret = None \<and> GetObjectIntegrity (ue_table env) d' (Id ob) = Inr \<lparr>im_ObjectID = Id ob,
                im_IntegrityChecksum = integrity, im_PieceChecksumList = map (ue_hash env) segs, im_Signature = sig\<rparr>"
    using upload_backend.finish_upload_cases [OF backend db(2) task(3) cs, of s'] by blast
  have "\<not> MaxSegmentPieceSize (PayloadSize ob) (MaxSegmentSize params) < 0" using stream(2) by (simp add: segment_size_def)
  then obtain u' where run: "HandleUploadObjectTask env now now' task stream u = Returns (ret, u')"
    and u': "ul_pieceStore u' = s'" "ul_db u' = d'"
      "ul_reported u' = ul_reported u @ [if ret = None then UploadObjectTask task else SetError ret (UploadObjectTask task)]"
    using loop(1) fin(1) by (simp add: HandleUploadObjectTask_def task accepted Let_def segment_size_def del: Key.simps)
  show thesis using that [OF run] stored fin(2) u'(3) unfolding u'(1,2) [symmetric] by simp
qed

lemma demo_upload_facts:
  "Id demo_upload_object = 7" "Checksums demo_upload_object = [[2, 2, 1]]"
  "segment_size demo_upload_object demo_upload_params = 2"
  "[[1, 2], [3, 4], [5]] = segments (segment_size demo_upload_object demo_upload_params) [1, 2, 3, 4, 5]"
  "stream_payload demo_stream = Some [1, 2, 3, 4, 5]"
  "store_ok (ul_pieceStore demo_uploader)"
  "integrity_table (ue_table memory_env) map_of"
proof -
  show size: "segment_size demo_upload_object demo_upload_params = 2" by code_simp
  show "[[1, 2], [3, 4], [5]] = segments (segment_size demo_upload_object demo_upload_params) [1, 2, 3, 4, 5]"
    unfolding size by code_simp
  show "stream_payload demo_stream = Some [1, 2, 3, 4, 5]" by code_simp
qed (use integrity_rows.integrity_table_axioms in \<open>simp_all add: demo_upload_object_def demo_uploader_def
  DefaultUploaderOptions_def createStorage_ok memory_env_def\<close>)

text \<open>
  C23. What an accepted upload does with a payload that arrives completely, in whatever pieces the
  stream delivers it: every segment of the payload is in the piece store under its key; the result
  is the error of the signer, or the integrity error when the signed hash is not the one on chain,
  and then the integrity records are as before, or no error, and then the record of the object holds
  the checksums of the segments, the hash and the signature. The manager gets one report, with
  the error when there is one.
\<close>

theorem HandleUploadObjectTask_contract:
  assumes task: "up_ObjectInfo task = Some ob" "up_StorageParams task = Some params" "Checksums ob \<noteq> []"
    and accepted: "Push now (ul_uploadQueue u) (UploadObjectTask task) = (None, q)"
    and stream: "stream_payload stream = Some payload" "0 < segment_size ob params"
    and segs: "segs = segments (segment_size ob params) payload" "length segs \<le> 2 ^ 32"
    and store: "store_ok (ul_pieceStore u)" "ue_put env = PutPiece t0"
    and db: "integrity_table (ue_table env) rows" "rows (ul_db u) (Id ob) = None" "\<And>b. ue_hash env b \<noteq> []"
  shows "\<exists>ret u'. HandleUploadObjectTask env now now' task stream u = Returns (ret, u')
    \<and> concat segs = payload \<and> stored_segments (ul_pieceStore u') (Id ob) 0 segs
    \<and> ul_reported u' = ul_reported u @ [if ret = None then UploadObjectTask task else SetError ret (UploadObjectTask task)]
    \<and> (case ue_sign env (Id ob) (map (ue_hash env) segs) of
         Inl e \<Rightarrow> ret = Some e \<and> ul_db u' = ul_db u
       | Inr (sig, integrity) \<Rightarrow>
           if integrity \<noteq> Checksums ob ! 0 then ret = Some ErrInvalidIntegrity \<and> ul_db u' = ul_db u
           else ret = None \<and> GetObjectIntegrity (ue_table env) (ul_db u') (Id ob) = Inr \<lparr>im_ObjectID = Id ob,
                  im_IntegrityChecksum = integrity, im_PieceChecksumList = map (ue_hash env) segs, im_Signature = sig\<rparr>)"
proof -
  have "concat segs = payload" using segs(1) segments_concat [OF stream(2)] by simp
  then show ?thesis
    by - (rule upload_run [OF task accepted stream segs store db, of now'], blast)
qed

theorem HandleUploadObjectTask_contract_witness:
  "\<exists>u' :: (ObjectStorage, (uint64 \<times> IntegrityMetaTable) list) UploadModular.
     HandleUploadObjectTask memory_env 1 2 demo_upload_task demo_stream demo_uploader = Returns (None, u')
     \<and> stored_segments (ul_pieceStore u') 7 0 [[1, 2], [3, 4], [5]]"
proof -
  note ob = demo_upload_facts(1,2) and size = demo_upload_facts(3) and segs = demo_upload_facts(4)
    and pay = demo_upload_facts(5) and store = demo_upload_facts(6) and table = demo_upload_facts(7)
  have push: "Push 1 (ul_uploadQueue demo_uploader) (UploadObjectTask demo_upload_task)
      = (None, snd (Push 1 (ul_uploadQueue demo_uploader) (UploadObjectTask demo_upload_task)))"
    by (rule prod_eqI) (code_simp, simp)
  have sign: "ue_sign memory_env 7 (map (ue_hash memory_env) [[1, 2], [3, 4], [5]]) = Inr ([1], [2, 2, 1])"
    by (simp add: memory_env_def)
  have "\<exists>ret u'. HandleUploadObjectTask memory_env 1 2 demo_upload_task demo_stream demo_uploader = Returns (ret, u')
      \<and> stored_segments (ul_pieceStore u') 7 0 [[1, 2], [3, 4], [5]] \<and> ret = None"
    using HandleUploadObjectTask_contract [of demo_upload_task demo_upload_object demo_upload_params 1 demo_uploader _ demo_stream
        _ "[[1, 2], [3, 4], [5]]" memory_env 5 map_of 2, OF _ _ _ push pay _ segs _ store _ table]
    by (auto simp: ob size sign demo_upload_task_def memory_env_def demo_uploader_def DefaultUploaderOptions_def)
  then show ?thesis by blast
qed

text \<open>
  A completed resumable upload loses the integrity hash: when every part has been received and
  the signed hash is the one on chain, the upload returns no error and reports success, but the
  record of the object keeps the empty hash and the empty signature that appending the checksums
  gave it, because setting the record of an object that has one is ignored.
\<close>

theorem resumable_completion_drops_integrity:
  assumes task: "ru_ObjectInfo task = Some ob" "ru_StorageParams task = Some params" "Checksums ob \<noteq> []" "ru_Completed task"
    and accepted: "Push now (ul_resumeableUploadQueue u) (ResumableUploadObjectTask task) = (None, q)"
    and stream: "stream_payload stream = Some payload" "0 < segment_size ob params"
    and segs: "segs = segments (segment_size ob params) payload" "all_cs = cs @ map (ue_hash env) segs" "all_cs \<noteq> []"
    and store: "store_ok (ul_pieceStore u)" "ue_put env = PutPiece t0"
    and db: "integrity_table (ue_table env) rows" "rows (ul_db u) (Id ob) = checksums_row (Id ob) cs" "Id ob \<noteq> 0"
      "[] \<notin> set cs" "\<And>b. ue_hash env b \<noteq> []"
    and signed: "ue_sign env (Id ob) all_cs = Inr (sig, Checksums ob ! 0)"
  shows "\<exists>u'. HandleResumableUploadObjectTask env now now' task stream u = Returns (None, u')
    \<and> ul_reported u' = ul_reported u @ [ResumableUploadObjectTask task]
    \<and> GetObjectIntegrity (ue_table env) (ul_db u') (Id ob) = Inr \<lparr>im_ObjectID = Id ob, im_IntegrityChecksum = [],
        im_PieceChecksumList = all_cs, im_Signature = []\<rparr>"
proof -
  note backend = upload_backend_PutPiece [OF store(2) db(1,5)]
  have pos: "0 < MaxSegmentPieceSize (PayloadSize ob) (MaxSegmentSize params)"
    using stream(2) by (simp add: segment_size_def)
  then obtain segIdx where idx: "go_div (int64_of (ru_Offset task)) (MaxSegmentPieceSize (PayloadSize ob) (MaxSegmentSize params)) = Returns segIdx"
    by (simp add: go_div_def)
  have cs: "\<forall>c \<in> set cs. c \<noteq> []" using db(4) by auto
  obtain s' d1 where loop: "resumable_loop env ob True (segment_size ob params) stream (word_of_int segIdx) (ul_pieceStore u) (ul_db u)
      = finish_resumable env ob True s' d1" "rows d1 (Id ob) = checksums_row (Id ob) all_cs"
    using upload_backend.resumable_loop_stores [OF backend stream(2,1) store(1) db(2,3) cs, of True "word_of_int segIdx"] segs(1,2)
    by auto
  have "\<forall>c \<in> set all_cs. c \<noteq> []" unfolding segs(2) using cs db(5) by (simp add: ball_Un)
  from upload_backend.finish_resumable_keeps_row [OF backend loop(2) segs(3) this task(3) signed, of s']
  obtain d' where fin: "finish_resumable env ob True s' d1 = Returns (None, None, s', d')"
    "GetObjectIntegrity (ue_table env) d' (Id ob) = Inr (appended (Id ob) all_cs)" by blast
  have run: "HandleResumableUploadObjectTask env now now' task stream u = Returns (None,
      u\<lparr>ul_pieceStore := s', ul_db := d', ul_reported := ul_reported u @ [ResumableUploadObjectTask task],
        ul_resumeableUploadQueue := snd (PopByKey now' q (Key (ResumableUploadObjectTask task)))\<rparr>)"
    using loop(1) fin(1) pos
    by (simp add: HandleResumableUploadObjectTask_def task accepted Let_def idx segment_size_def del: Key.simps)
  show ?thesis by (rule exI, rule conjI [OF run]) (use fin(2) in \<open>simp add: appended_def\<close>)
qed

theorem resumable_completion_drops_integrity_witness:
  "\<exists>u' :: (ObjectStorage, (uint64 \<times> IntegrityMetaTable) list) UploadModular.
     HandleResumableUploadObjectTask memory_env 1 2 demo_resumable_task demo_stream demo_uploader = Returns (None, u')
     \<and> GetObjectIntegrity (alist_table it_ObjectID 0) (ul_db u') 7
        = Inr \<lparr>im_ObjectID = 7, im_IntegrityChecksum = [], im_PieceChecksumList = [[2], [2], [1]], im_Signature = []\<rparr>"
proof -
  note ob = demo_upload_facts(1,2) and size = demo_upload_facts(3) and segs = demo_upload_facts(4)
    and pay = demo_upload_facts(5) and store = demo_upload_facts(6) and table = demo_upload_facts(7)
  have push: "Push 1 (ul_resumeableUploadQueue demo_uploader) (ResumableUploadObjectTask demo_resumable_task)
      = (None, snd (Push 1 (ul_resumeableUploadQueue demo_uploader) (ResumableUploadObjectTask demo_resumable_task)))"
    by (rule prod_eqI) (code_simp, simp)
  have cs: "[[2], [2], [1]] = [] @ map (ue_hash memory_env) [[1, 2], [3, 4], [5]]" by (simp add: memory_env_def)
  have sign: "ue_sign memory_env (Id demo_upload_object) [[2], [2], [1]] = Inr ([1], Checksums demo_upload_object ! 0)"
    by (simp add: memory_env_def ob)
  show ?thesis
    using resumable_completion_drops_integrity [OF _ _ _ _ push pay _ segs cs _ store _ table _ _ _ _ sign, of 5 2]
    by (simp add: ob size demo_resumable_task_def demo_uploader_def DefaultUploaderOptions_def checksums_row_def)
       (auto simp: memory_env_def)
qed

end
