(* ===== verification/Traffic.thy ===== *)
theory Traffic
  imports ObjectIntegrity
begin

text \<open>
  Read quotas: \<open>store/sqldb/traffic.go\<close>. Each bucket has a row per month with the bytes read so
  far; a read is refused when it would exceed the quota, and otherwise counted and recorded. The
  calls of \<open>gorm\<close> are the functions of a \<open>traffic_db\<close>, arguments of the definitions, and what the
  code relies on is the locale \<open>traffic_rows\<close>. The code runs no transaction: a call reads the row of the
  bucket and updates it later, and \<open>overlapping_checks_exceed\<close> shows what two calls can do that overlap; the
  other results are about calls that follow each other. The month of a timestamp (\<open>TimeToYearMonth\<close>
  depends on the time zone of the host) and the clock are arguments.
\<close>

section \<open>Rows and calls\<close>

record ReadRecord =
  rr_BucketID :: uint64
  rr_ObjectID :: uint64
  rr_UserAddress :: string
  rr_BucketName :: string
  rr_ObjectName :: string
  rr_ReadSize :: uint64
  rr_ReadTimestampUs :: int64

record BucketTraffic =
  bt_BucketID :: uint64
  bt_YearMonth :: string
  bt_BucketName :: string
  bt_ReadConsumedSize :: uint64
  bt_ReadQuotaSize :: uint64
  bt_ModifyTime :: int64

record BucketTrafficTable =
  tt_BucketID :: uint64
  tt_Month :: string
  tt_BucketName :: string
  tt_ReadConsumedSize :: uint64
  tt_ReadQuotaSize :: uint64
  tt_ModifiedTime :: int64

record TrafficTimeRange =
  StartTimestampUs :: int64
  EndTimestampUs :: int64
  LimitNum :: go_int

datatype quota_error = ErrCheckQuotaEnough | QuotaDbError db_error

text \<open>
  \<open>td_Updates\<close> is an update of the row of a key by the non-zero fields of a struct, \<open>td_Record\<close> the
  insert of a read record, whose id the database assigns, \<open>td_Find\<close> a query of the read records
  with a condition and a limit.
\<close>

record 'd traffic_db =
  td_First :: "'d \<Rightarrow> uint64 \<times> string \<Rightarrow> gorm_error + BucketTrafficTable"
  td_Create :: "'d \<Rightarrow> BucketTrafficTable \<Rightarrow> (gorm_error option \<times> int64) \<times> 'd"
  td_Updates :: "'d \<Rightarrow> uint64 \<times> string \<Rightarrow> BucketTrafficTable \<Rightarrow> (gorm_error option \<times> int64) \<times> 'd"
  td_Record :: "'d \<Rightarrow> ReadRecord \<Rightarrow> (gorm_error option \<times> int64) \<times> 'd"
  td_Find :: "'d \<Rightarrow> (ReadRecord \<Rightarrow> bool) \<Rightarrow> nat option \<Rightarrow> gorm_error + ReadRecord list"

section \<open>Operations\<close>

definition GetBucketTraffic :: "'d traffic_db \<Rightarrow> 'd \<Rightarrow> uint64 \<Rightarrow> string \<Rightarrow> db_error + BucketTraffic" where
  "GetBucketTraffic db d bucketID yearMonth =
     (case td_First db d (bucketID, yearMonth) of
        Inl ErrRecordNotFound \<Rightarrow> Inl (GormError ErrRecordNotFound)
      | Inl e \<Rightarrow> Inl (FailedTo ''failed to query bucket traffic table'' (Some e))
      | Inr r \<Rightarrow> Inr \<lparr>bt_BucketID = tt_BucketID r, bt_YearMonth = tt_Month r, bt_BucketName = tt_BucketName r,
          bt_ReadConsumedSize = tt_ReadConsumedSize r, bt_ReadQuotaSize = tt_ReadQuotaSize r, bt_ModifyTime = tt_ModifiedTime r\<rparr>)"

text \<open>The structs of the two updates, with their zero fields.\<close>

definition zero_traffic :: BucketTrafficTable where
  "zero_traffic = \<lparr>tt_BucketID = 0, tt_Month = [], tt_BucketName = [], tt_ReadConsumedSize = 0, tt_ReadQuotaSize = 0, tt_ModifiedTime = 0\<rparr>"

text \<open>The end of the check: the comparison, the update of the consumed size, the record.\<close>

definition charge_read :: "'d traffic_db \<Rightarrow> int64 \<Rightarrow> 'd \<Rightarrow> ReadRecord \<Rightarrow> uint64 \<Rightarrow> BucketTraffic \<Rightarrow> quota_error option \<times> 'd" where
  "charge_read db now d record quota bucketTraffic =
     (if bt_ReadConsumedSize bucketTraffic + rr_ReadSize record > quota then (Some ErrCheckQuotaEnough, d)
      else case td_Updates db d (bt_BucketID bucketTraffic, bt_YearMonth bucketTraffic)
                  (zero_traffic\<lparr>tt_ReadConsumedSize := bt_ReadConsumedSize bucketTraffic + rr_ReadSize record, tt_ModifiedTime := now\<rparr>) of
             ((Some e, _), d) \<Rightarrow> (Some (QuotaDbError (FailedTo ''failed to update bucket traffic table'' (Some e))), d)
           | ((None, _), d) \<Rightarrow>
               case td_Record db d record of ((err, rowsAffected), d) \<Rightarrow>
                 if err \<noteq> None \<or> rowsAffected \<noteq> 1
                 then (Some (QuotaDbError (FailedTo ''failed to insert read record table'' err)), d)
                 else (None, d))"

definition refresh_quota :: "'d traffic_db \<Rightarrow> int64 \<Rightarrow> 'd \<Rightarrow> ReadRecord \<Rightarrow> uint64 \<Rightarrow> BucketTraffic \<Rightarrow> quota_error option \<times> 'd" where
  "refresh_quota db now d record quota bucketTraffic =
     (if bt_ReadQuotaSize bucketTraffic \<noteq> quota
      then case td_Updates db d (bt_BucketID bucketTraffic, bt_YearMonth bucketTraffic)
                  (zero_traffic\<lparr>tt_ReadQuotaSize := quota, tt_ModifiedTime := now\<rparr>) of
             ((Some e, _), d) \<Rightarrow> (Some (QuotaDbError (FailedTo ''failed to update bucket traffic table'' (Some e))), d)
           | ((None, _), d) \<Rightarrow> charge_read db now d record quota (bucketTraffic\<lparr>bt_ReadQuotaSize := quota\<rparr>)
      else charge_read db now d record quota bucketTraffic)"

definition CheckQuotaAndAddReadRecord :: "'d traffic_db \<Rightarrow> (int64 \<Rightarrow> string) \<Rightarrow> int64 \<Rightarrow> 'd \<Rightarrow> ReadRecord \<Rightarrow> uint64 \<Rightarrow> quota_error option \<times> 'd" where
  "CheckQuotaAndAddReadRecord db month_of now d record quota =
     (let yearMonth = month_of (rr_ReadTimestampUs record) in
      case GetBucketTraffic db d (rr_BucketID record) yearMonth of
        Inr bucketTraffic \<Rightarrow> refresh_quota db now d record quota bucketTraffic
      | Inl (GormError ErrRecordNotFound) \<Rightarrow>
          (case td_Create db d \<lparr>tt_BucketID = rr_BucketID record, tt_Month = yearMonth, tt_BucketName = rr_BucketName record,
                  tt_ReadConsumedSize = 0, tt_ReadQuotaSize = quota, tt_ModifiedTime = now\<rparr> of
             ((Some e, _), d) \<Rightarrow> (Some (QuotaDbError (FailedTo ''failed to insert bucket traffic table'' (Some e))), d)
           | ((None, _), d) \<Rightarrow>
               refresh_quota db now d record quota \<lparr>bt_BucketID = rr_BucketID record, bt_YearMonth = yearMonth,
                 bt_BucketName = rr_BucketName record, bt_ReadConsumedSize = 0, bt_ReadQuotaSize = quota, bt_ModifyTime = 0\<rparr>)
      | Inl err \<Rightarrow> (Some (QuotaDbError err), d))"

text \<open>The four queries of read records differ in one condition.\<close>

definition in_range :: "TrafficTimeRange \<Rightarrow> ReadRecord \<Rightarrow> bool" where
  "in_range tr r \<longleftrightarrow> rr_ReadTimestampUs r \<ge> StartTimestampUs tr \<and> rr_ReadTimestampUs r < EndTimestampUs tr"

definition range_limit :: "TrafficTimeRange \<Rightarrow> nat option" where
  "range_limit tr = (if LimitNum tr \<le> 0 then None else Some (nat (LimitNum tr)))"

definition GetReadRecord :: "'d traffic_db \<Rightarrow> 'd \<Rightarrow> TrafficTimeRange \<Rightarrow> db_error + ReadRecord list" where
  "GetReadRecord db d tr =
     (case td_Find db d (in_range tr) (range_limit tr) of
        Inl ErrRecordNotFound \<Rightarrow> Inl (GormError ErrRecordNotFound)
      | Inl e \<Rightarrow> Inl (FailedTo ''failed to read record table'' (Some e))
      | Inr records \<Rightarrow> Inr records)"

definition GetBucketReadRecord :: "'d traffic_db \<Rightarrow> 'd \<Rightarrow> uint64 \<Rightarrow> TrafficTimeRange \<Rightarrow> db_error + ReadRecord list" where
  "GetBucketReadRecord db d bucketID tr =
     (case td_Find db d (\<lambda>r. in_range tr r \<and> rr_BucketID r = bucketID) (range_limit tr) of
        Inl e \<Rightarrow> Inl (FailedTo ''failed to query read record table'' (Some e))
      | Inr records \<Rightarrow> Inr records)"

definition GetObjectReadRecord :: "'d traffic_db \<Rightarrow> 'd \<Rightarrow> uint64 \<Rightarrow> TrafficTimeRange \<Rightarrow> db_error + ReadRecord list" where
  "GetObjectReadRecord db d objectID tr =
     (case td_Find db d (\<lambda>r. in_range tr r \<and> rr_ObjectID r = objectID) (range_limit tr) of
        Inl e \<Rightarrow> Inl (FailedTo ''failed to query read record table'' (Some e))
      | Inr records \<Rightarrow> Inr records)"

definition GetUserReadRecord :: "'d traffic_db \<Rightarrow> 'd \<Rightarrow> string \<Rightarrow> TrafficTimeRange \<Rightarrow> db_error + ReadRecord list" where
  "GetUserReadRecord db d userAddress tr =
     (case td_Find db d (\<lambda>r. in_range tr r \<and> rr_UserAddress r = userAddress) (range_limit tr) of
        Inl e \<Rightarrow> Inl (FailedTo ''failed to query read record table'' (Some e))
      | Inr records \<Rightarrow> Inr records)"

section \<open>The contract of the tables\<close>

text \<open>An update by a struct sets the fields that are not zero in it.\<close>

definition merge_row :: "BucketTrafficTable \<Rightarrow> BucketTrafficTable \<Rightarrow> BucketTrafficTable" where
  "merge_row r upd = r\<lparr>
     tt_ReadConsumedSize := (if tt_ReadConsumedSize upd = 0 then tt_ReadConsumedSize r else tt_ReadConsumedSize upd),
     tt_ReadQuotaSize := (if tt_ReadQuotaSize upd = 0 then tt_ReadQuotaSize r else tt_ReadQuotaSize upd),
     tt_ModifiedTime := tt_ModifiedTime upd\<rparr>"

definition row_key :: "BucketTrafficTable \<Rightarrow> uint64 \<times> string" where
  "row_key r = (tt_BucketID r, tt_Month r)"

lemma row_key_merge [simp]: "row_key (merge_row r upd) = row_key r"
  by (simp add: row_key_def merge_row_def)

text \<open>The bytes of a bucket in a month, summed over read records.\<close>

definition read_total :: "(int64 \<Rightarrow> string) \<Rightarrow> uint64 \<times> string \<Rightarrow> ReadRecord list \<Rightarrow> nat" where
  "read_total month_of k rs =
     sum_list (map (\<lambda>r. unat (rr_ReadSize r)) (filter (\<lambda>r. (rr_BucketID r, month_of (rr_ReadTimestampUs r)) = k) rs))"

lemma read_total_append [simp]:
  "read_total month_of k (rs @ [r]) = read_total month_of k rs
     + (if k = (rr_BucketID r, month_of (rr_ReadTimestampUs r)) then unat (rr_ReadSize r) else 0)"
  by (auto simp: read_total_def)

lemma read_total_le: "read_total month_of k rs \<le> sum_list (map (\<lambda>r. unat (rr_ReadSize r)) rs)"
  by (induction rs) (auto simp: read_total_def)

text \<open>A sequence of checks, each with its clock and the quota of the bucket at that time.\<close>

fun run_checks :: "'d traffic_db \<Rightarrow> (int64 \<Rightarrow> string) \<Rightarrow> (int64 \<times> ReadRecord \<times> uint64) list \<Rightarrow> 'd \<Rightarrow> 'd" where
  "run_checks db month_of [] d = d"
| "run_checks db month_of ((now, rec, quota) # cs) d =
     run_checks db month_of cs (snd (CheckQuotaAndAddReadRecord db month_of now d rec quota))"

locale traffic_rows =
  fixes db :: "'d traffic_db"
    and traffic :: "'d \<Rightarrow> (uint64 \<times> string \<rightharpoonup> BucketTrafficTable)"
    and reads :: "'d \<Rightarrow> ReadRecord list"
  assumes First_row: "td_First db d k = (case traffic d k of None \<Rightarrow> Inl ErrRecordNotFound | Some r \<Rightarrow> Inr r)"
    and Create_row: "traffic d (row_key r) = None \<Longrightarrow>
      \<exists>d' n. td_Create db d r = ((None, n), d') \<and> traffic d' = (traffic d)(row_key r \<mapsto> r) \<and> reads d' = reads d"
    and Updates_row: "traffic d k = Some r \<Longrightarrow>
      \<exists>d' n. td_Updates db d k upd = ((None, n), d') \<and> traffic d' = (traffic d)(k \<mapsto> merge_row r upd) \<and> reads d' = reads d"
    and Record_row: "\<exists>d'. td_Record db d rec = ((None, 1), d') \<and> traffic d' = traffic d \<and> reads d' = reads d @ [rec]"
begin

text \<open>Rows are stored under their primary keys.\<close>

definition keyed :: "'d \<Rightarrow> bool" where
  "keyed d \<longleftrightarrow> (\<forall>k r. traffic d k = Some r \<longrightarrow> row_key r = k)"

definition consumed :: "'d \<Rightarrow> uint64 \<times> string \<Rightarrow> uint64" where
  "consumed d k = (case traffic d k of None \<Rightarrow> 0 | Some r \<Rightarrow> tt_ReadConsumedSize r)"

text \<open>The effect of the check, once the row is there.\<close>

definition charged :: "'d \<Rightarrow> ReadRecord \<Rightarrow> uint64 \<times> string \<Rightarrow> uint64 \<Rightarrow> quota_error option \<times> 'd \<Rightarrow> bool" where
  "charged d rec k quota res \<longleftrightarrow> keyed (snd res) \<and> (\<forall>k'. k' \<noteq> k \<longrightarrow> consumed (snd res) k' = consumed d k') \<and>
     (if consumed d k + rr_ReadSize rec > quota
      then fst res = Some ErrCheckQuotaEnough \<and> consumed (snd res) k = consumed d k \<and> reads (snd res) = reads d
      else fst res = None \<and> consumed (snd res) k = consumed d k + rr_ReadSize rec \<and> reads (snd res) = reads d @ [rec])"

lemma charge_read_charged:
  assumes "keyed d" "traffic d k = Some r" "bt_ReadConsumedSize bt = tt_ReadConsumedSize r"
    "k = (bt_BucketID bt, bt_YearMonth bt)" "unat (consumed d k) + unat (rr_ReadSize rec) < 2 ^ 64"
  shows "charged d rec k quota (charge_read db now d rec quota bt)"
proof (cases "consumed d k + rr_ReadSize rec > quota")
  case True
  then show ?thesis using assms by (simp add: charged_def charge_read_def consumed_def)
next
  case False
  let ?upd = "zero_traffic\<lparr>tt_ReadConsumedSize := bt_ReadConsumedSize bt + rr_ReadSize rec, tt_ModifiedTime := now\<rparr>"
  obtain d1 n where d1: "td_Updates db d k ?upd = ((None, n), d1)" "traffic d1 = (traffic d)(k \<mapsto> merge_row r ?upd)" "reads d1 = reads d"
    using Updates_row [OF assms(2)] by blast
  obtain d2 where d2: "td_Record db d1 rec = ((None, 1), d2)" "traffic d2 = traffic d1" "reads d2 = reads d1 @ [rec]"
    using Record_row by blast
  have "charge_read db now d rec quota bt = (None, d2)"
    using False assms d1(1) d2(1) by (simp add: charge_read_def consumed_def)
  moreover have "keyed d2"
    unfolding keyed_def d2(2) d1(2) using assms(1,2) by (auto simp: keyed_def split: if_splits)
  moreover have "tt_ReadConsumedSize (merge_row r ?upd) = tt_ReadConsumedSize r + rr_ReadSize rec"
  proof (cases "tt_ReadConsumedSize r + rr_ReadSize rec = 0")
    case True
    have "unat (tt_ReadConsumedSize r + rr_ReadSize rec) = unat (tt_ReadConsumedSize r) + unat (rr_ReadSize rec)"
      using assms(2,5) by (simp add: consumed_def unat_word_ariths)
    then have "tt_ReadConsumedSize r = 0 \<and> rr_ReadSize rec = 0" using True by (simp add: unat_eq_zero)
    then show ?thesis using assms(3) by (simp add: merge_row_def zero_traffic_def)
  next
    case False
    then show ?thesis using assms(3) by (simp add: merge_row_def zero_traffic_def)
  qed
  ultimately show ?thesis using False assms(2) by (simp add: charged_def consumed_def d1 d2)
qed

lemma refresh_quota_charged:
  assumes "keyed d" "traffic d k = Some r" "bt_ReadConsumedSize bt = tt_ReadConsumedSize r"
    "k = (bt_BucketID bt, bt_YearMonth bt)" "unat (consumed d k) + unat (rr_ReadSize rec) < 2 ^ 64"
  shows "charged d rec k quota (refresh_quota db now d rec quota bt)"
proof (cases "bt_ReadQuotaSize bt = quota")
  case True
  then show ?thesis using charge_read_charged [OF assms] by (simp add: refresh_quota_def)
next
  case False
  let ?upd = "zero_traffic\<lparr>tt_ReadQuotaSize := quota, tt_ModifiedTime := now\<rparr>"
  obtain d1 n where d1: "td_Updates db d k ?upd = ((None, n), d1)" "traffic d1 = (traffic d)(k \<mapsto> merge_row r ?upd)" "reads d1 = reads d"
    using Updates_row [OF assms(2)] by blast
  have cons: "consumed d1 = consumed d"
    using assms(2) by (auto simp: consumed_def d1(2) fun_eq_iff merge_row_def zero_traffic_def)
  have "keyed d1" unfolding keyed_def d1(2) using assms(1,2) by (auto simp: keyed_def split: if_splits)
  then have "charged d1 rec k quota (charge_read db now d1 rec quota (bt\<lparr>bt_ReadQuotaSize := quota\<rparr>))"
    using assms(3-5) d1(2) cons
    by (intro charge_read_charged [where r = "merge_row r ?upd"]) (simp_all add: merge_row_def zero_traffic_def)
  then show ?thesis using False d1(1,3) assms(4) cons by (simp add: refresh_quota_def charged_def)
qed

lemma CheckQuota_charged:
  assumes "keyed d" "k = (rr_BucketID rec, month_of (rr_ReadTimestampUs rec))" "unat (consumed d k) + unat (rr_ReadSize rec) < 2 ^ 64"
  shows "charged d rec k quota (CheckQuotaAndAddReadRecord db month_of now d rec quota)"
proof (cases "traffic d k")
  case (Some r)
  then have "row_key r = k" using assms(1) unfolding keyed_def by blast
  then show ?thesis using Some assms
    by (auto simp: CheckQuotaAndAddReadRecord_def GetBucketTraffic_def First_row row_key_def intro!: refresh_quota_charged)
next
  case None
  let ?row = "\<lparr>tt_BucketID = rr_BucketID rec, tt_Month = month_of (rr_ReadTimestampUs rec), tt_BucketName = rr_BucketName rec,
    tt_ReadConsumedSize = 0, tt_ReadQuotaSize = quota, tt_ModifiedTime = now\<rparr>"
  let ?bt = "\<lparr>bt_BucketID = rr_BucketID rec, bt_YearMonth = month_of (rr_ReadTimestampUs rec),
    bt_BucketName = rr_BucketName rec, bt_ReadConsumedSize = 0, bt_ReadQuotaSize = quota, bt_ModifyTime = 0\<rparr>"
  have key: "row_key ?row = k" using assms(2) by (simp add: row_key_def)
  then obtain d1 n where d1: "td_Create db d ?row = ((None, n), d1)" "traffic d1 = (traffic d)(k \<mapsto> ?row)" "reads d1 = reads d"
    using Create_row [of d ?row] None by auto
  have cons: "consumed d1 = consumed d" using None by (auto simp: consumed_def d1(2) fun_eq_iff)
  have "keyed d1" unfolding keyed_def d1(2) using assms(1) key by (auto simp: keyed_def split: if_splits)
  then have "charged d1 rec k quota (refresh_quota db now d1 rec quota ?bt)"
    using assms(2,3) cons by (intro refresh_quota_charged [where r = ?row]) (simp_all add: d1(2))
  then show ?thesis using None d1(1,3) assms(2) cons
    by (simp add: CheckQuotaAndAddReadRecord_def GetBucketTraffic_def First_row charged_def Let_def)
qed

lemma run_checks_total:
  assumes "keyed d" "\<forall>k. unat (consumed d k) = read_total month_of k (reads d)"
    "sum_list (map (\<lambda>r. unat (rr_ReadSize r)) (reads d)) + sum_list (map (\<lambda>(now, rec, quota). unat (rr_ReadSize rec)) cs) < 2 ^ 64"
  shows "keyed (run_checks db month_of cs d)
    \<and> (\<forall>k. unat (consumed (run_checks db month_of cs d) k) = read_total month_of k (reads (run_checks db month_of cs d)))
    \<and> sum_list (map (\<lambda>r. unat (rr_ReadSize r)) (reads (run_checks db month_of cs d)))
        \<le> sum_list (map (\<lambda>r. unat (rr_ReadSize r)) (reads d)) + sum_list (map (\<lambda>(now, rec, quota). unat (rr_ReadSize rec)) cs)"
  using assms
proof (induction cs arbitrary: d)
  case (Cons c cs)
  obtain now rec quota where c: "c = (now, rec, quota)" by (cases c)
  let ?k = "(rr_BucketID rec, month_of (rr_ReadTimestampUs rec))"
  let ?res = "CheckQuotaAndAddReadRecord db month_of now d rec quota"
  have "unat (consumed d ?k) \<le> sum_list (map (\<lambda>r. unat (rr_ReadSize r)) (reads d))"
    unfolding Cons.prems(2) [rule_format] by (rule read_total_le)
  then have bound: "unat (consumed d ?k) + unat (rr_ReadSize rec) < 2 ^ 64" using Cons.prems(3) by (simp add: c)
  have ch: "charged d rec ?k quota ?res" using Cons.prems(1) bound by (intro CheckQuota_charged) simp_all
  have sum: "unat (consumed d ?k + rr_ReadSize rec) = unat (consumed d ?k) + unat (rr_ReadSize rec)"
    using bound by (simp add: unat_word_ariths)
  have "consumed (snd ?res) k = (if consumed d ?k + rr_ReadSize rec > quota \<or> k \<noteq> ?k then consumed d k else consumed d ?k + rr_ReadSize rec)" for k
    using ch unfolding charged_def by (cases "k = ?k") (auto split: if_splits simp del: split_paired_All)
  then have "\<forall>k. unat (consumed (snd ?res) k) = read_total month_of k (reads (snd ?res))"
    using ch Cons.prems(2) sum by (auto simp: charged_def split: if_splits)
  moreover have "sum_list (map (\<lambda>r. unat (rr_ReadSize r)) (reads (snd ?res))) \<le> sum_list (map (\<lambda>r. unat (rr_ReadSize r)) (reads d)) + unat (rr_ReadSize rec)"
    "keyed (snd ?res)" using ch by (auto simp: charged_def split: if_splits)
  ultimately show ?case using Cons.IH [of "snd ?res"] Cons.prems(3) by (simp add: c)
qed simp

lemma next_check:
  assumes "keyed d" "\<forall>k. unat (consumed d k) = read_total month_of k (reads d)"
    "sum_list (map (\<lambda>r. unat (rr_ReadSize r)) (reads d)) + unat (rr_ReadSize rec) < 2 ^ 64"
    "k = (rr_BucketID rec, month_of (rr_ReadTimestampUs rec))" "CheckQuotaAndAddReadRecord db month_of now d rec quota = (err, d')"
  shows "if read_total month_of k (reads d) + unat (rr_ReadSize rec) \<le> unat quota
    then err = None \<and> reads d' = reads d @ [rec] else err = Some ErrCheckQuotaEnough \<and> reads d' = reads d"
proof -
  have bound: "unat (consumed d k) + unat (rr_ReadSize rec) < 2 ^ 64"
    using assms(2) [rule_format, of k] assms(3) read_total_le [of month_of k "reads d"] by linarith
  have "charged d rec k quota (err, d')" 
    using CheckQuota_charged [where month_of = month_of and quota = quota and now = now, OF assms(1,4) bound] assms(5) by simp
  moreover have "consumed d k + rr_ReadSize rec > quota \<longleftrightarrow> \<not> read_total month_of k (reads d) + unat (rr_ReadSize rec) \<le> unat quota"
    using bound assms(2) [rule_format, of k] by (simp add: word_less_nat_alt unat_word_ariths not_le)
  ultimately show ?thesis by (simp add: charged_def split: if_splits)
qed

end

section \<open>The quota\<close>

text \<open>Rows and records held in lists meet the contract.\<close>

definition list_traffic :: "(((uint64 \<times> string) \<times> BucketTrafficTable) list \<times> ReadRecord list) traffic_db" where
  "list_traffic =
     \<lparr>td_First = (\<lambda>(rows, rs) k. case map_of rows k of None \<Rightarrow> Inl ErrRecordNotFound | Some r \<Rightarrow> Inr r),
      td_Create = (\<lambda>(rows, rs) r. case map_of rows (row_key r) of
          None \<Rightarrow> ((None, 1), ((row_key r, r) # rows, rs))
        | Some _ \<Rightarrow> ((Some (MySQLError ErrDuplicateEntryCode), 0), (rows, rs))),
      td_Updates = (\<lambda>(rows, rs) k upd. case map_of rows k of
          None \<Rightarrow> ((None, 0), (rows, rs))
        | Some r \<Rightarrow> ((None, 1), (AList.update k (merge_row r upd) rows, rs))),
      td_Record = (\<lambda>(rows, rs) rec. ((None, 1), (rows, rs @ [rec]))),
      td_Find = (\<lambda>(rows, rs) P lim. Inr (case lim of None \<Rightarrow> filter P rs | Some n \<Rightarrow> take n (filter P rs)))\<rparr>"

interpretation list_traffic: traffic_rows list_traffic "\<lambda>d. map_of (fst d)" snd
  by unfold_locales (auto simp: list_traffic_def update_conv' split: option.splits prod.splits)

text \<open>
  C34. Read quotas hold for calls that follow each other: starting from empty tables, after any sequence of
  checks, of any buckets and with any quotas, the next check accepts its read exactly when the bytes
  recorded for the bucket in the month and the bytes of the read are together at most the quota of the
  bucket at that time; then it records this read and nothing else, and otherwise it answers that
  the quota is used up and records nothing. The sizes of all these reads are supposed to be below 2^64
  together, so that no count wraps.
\<close>

theorem read_quota_enforced:
  assumes "traffic_rows db traffic reads" "traffic d0 = Map.empty" "reads d0 = []"
    "sum_list (map (\<lambda>(now, rec, quota). unat (rr_ReadSize rec)) before) + unat (rr_ReadSize rec) < 2 ^ 64"
    "d = run_checks db month_of before d0" "CheckQuotaAndAddReadRecord db month_of now d rec quota = (err, d')"
  shows "if read_total month_of (rr_BucketID rec, month_of (rr_ReadTimestampUs rec)) (reads d) + unat (rr_ReadSize rec) \<le> unat quota
    then err = None \<and> reads d' = reads d @ [rec] else err = Some ErrCheckQuotaEnough \<and> reads d' = reads d"
proof -
  have "traffic_rows.keyed traffic d0" "\<forall>k. unat (traffic_rows.consumed traffic d0 k) = read_total month_of k (reads d0)"
    using assms(2,3) by (simp_all add: traffic_rows.keyed_def [OF assms(1)] traffic_rows.consumed_def [OF assms(1)] read_total_def)
  then have "traffic_rows.keyed traffic d" "\<forall>k. unat (traffic_rows.consumed traffic d k) = read_total month_of k (reads d)"
    "sum_list (map (\<lambda>r. unat (rr_ReadSize r)) (reads d)) + unat (rr_ReadSize rec) < 2 ^ 64"
    using traffic_rows.run_checks_total [OF assms(1), of d0 month_of before] assms(3,4) unfolding assms(5) by simp_all
  then show ?thesis by (rule traffic_rows.next_check [OF assms(1) _ _ _ refl assms(6)])
qed

definition demo_read :: "uint64 \<Rightarrow> ReadRecord" where
  "demo_read n = \<lparr>rr_BucketID = 9, rr_ObjectID = 7, rr_UserAddress = [], rr_BucketName = [], rr_ObjectName = [], rr_ReadSize = n, rr_ReadTimestampUs = 5\<rparr>"

theorem read_quota_enforced_witness:
  "\<exists>d'. CheckQuotaAndAddReadRecord list_traffic (\<lambda>ts. ''2023-07'') 2 (run_checks list_traffic (\<lambda>ts. ''2023-07'') [(1, demo_read 60, 100)] ([], []))
     (demo_read 41) 100 = (Some ErrCheckQuotaEnough, d')"
proof -
  let ?d = "run_checks list_traffic (\<lambda>ts. ''2023-07'') [(1, demo_read 60, 100)] ([], [])"
  obtain err d' where c: "CheckQuotaAndAddReadRecord list_traffic (\<lambda>ts. ''2023-07'') 2 ?d (demo_read 41) 100 = (err, d')"
    by (metis surj_pair)
  have "\<not> read_total (\<lambda>ts. ''2023-07'') (9, ''2023-07'') (snd ?d) + 41 \<le> 100" by code_simp
  moreover have "rr_BucketID (demo_read n) = 9" "rr_ReadSize (demo_read n) = n" for n by (simp_all add: demo_read_def)
  ultimately show ?thesis
    using read_quota_enforced [OF list_traffic.traffic_rows_axioms _ _ _ refl c, simplified] c by simp
qed

text \<open>
  Calls that overlap exceed the quota: when two calls read the row of the bucket before either updates it,
  both are accepted, 120 bytes are recorded under a quota of 100, and the row counts 60.
\<close>

lemma overlapping_checks_exceed:
  "case GetBucketTraffic list_traffic ([((9, []), zero_traffic\<lparr>tt_BucketID := 9, tt_ReadQuotaSize := 100\<rparr>)], []) 9 [] of
     Inl err \<Rightarrow> False
   | Inr row \<Rightarrow>
       case refresh_quota list_traffic 1 ([((9, []), zero_traffic\<lparr>tt_BucketID := 9, tt_ReadQuotaSize := 100\<rparr>)], []) (demo_read 60) 100 row of
         (err1, d1) \<Rightarrow>
           case refresh_quota list_traffic 1 d1 (demo_read 60) 100 row of
             (err2, d2) \<Rightarrow> err1 = None \<and> err2 = None \<and> read_total (\<lambda>ts. []) (9, []) (snd d2) = 120
               \<and> map_option tt_ReadConsumedSize (map_of (fst d2) (9, [])) = Some 60"
  by code_simp

text \<open>Without that bound the sum wraps: a read beyond the quota is accepted and lowers the count.\<close>

lemma quota_check_wraps:
  "case CheckQuotaAndAddReadRecord list_traffic (\<lambda>ts. []) 2
      ([((9, []), zero_traffic\<lparr>tt_BucketID := 9, tt_ReadConsumedSize := 100, tt_ReadQuotaSize := 100\<rparr>)], [])
      \<lparr>rr_BucketID = 9, rr_ObjectID = 7, rr_UserAddress = [], rr_BucketName = [], rr_ObjectName = [],
       rr_ReadSize = - 50, rr_ReadTimestampUs = 6\<rparr> 100 of
     (err, rows, rs) \<Rightarrow> err = None \<and> map_option tt_ReadConsumedSize (map_of rows (9, [])) = Some 50"
  by code_simp

end
