(* ===== verification/Downloader.thy ===== *)
theory Downloader
  imports Uploader Traffic AppOptions
begin

text \<open>
  The downloader module: \<open>modular/downloader/download_task.go\<close>, \<open>downloader.go\<close> and
  \<open>downloader_options.go\<close>. A download of a byte range is split into reads of segments, which go
  through a cache. The cache is a third-party LRU: its calls are arguments (\<open>de_cache_get\<close>,
  \<open>de_cache_add\<close>), and what the code relies on is the locale \<open>piece_cache\<close>. The piece store, the
  database and the month of a timestamp are arguments, too; the tasks that are handed to the \<open>ReportTask\<close> of
  the client of the manager are logged in \<open>dl_reported\<close>, whether the client accepts them or not.
  A handler returns its result, the task with the error that the deferred function sets, and the
  new state. The counters of running requests stand for the other requests in flight. Metrics and log
  lines, and what evaluating their arguments does, are not modelled.
\<close>

section \<open>State and environment\<close>

record ('s, 'd, 'i, 'c) DownloadModular =
  dl_pieceStore :: 's
  dl_traffic :: 'd
  dl_integrity :: 'i
  dl_pieceCache :: 'c
  dl_downloading :: int64
  dl_downloadParallel :: int64
  dl_challenging :: int64
  dl_challengeParallel :: int64
  dl_bucketFreeQuota :: uint64
  dl_reported :: "Task list"

record ('s, 'd, 'i, 'c) download_env =
  de_get :: "'s \<Rightarrow> string \<Rightarrow> int64 \<Rightarrow> int64 \<Rightarrow> (store_error + bytes) go"
  de_traffic :: "'d traffic_db"
  de_month_of :: "int64 \<Rightarrow> string"
  de_integrity :: "('i, uint64, IntegrityMetaTable) gorm_table"
  de_cache_get :: "'c \<Rightarrow> string \<Rightarrow> bytes option \<times> 'c"
  de_cache_add :: "'c \<Rightarrow> string \<Rightarrow> bytes \<Rightarrow> 'c"
  de_app :: GfSpBaseApp
  de_operator :: string

definition ErrDanglingPointer :: go_error where "ErrDanglingPointer = GfSpErr (registered (downloader_errors ! 0))"
definition ErrObjectUnsealed :: go_error where "ErrObjectUnsealed = GfSpErr (registered (downloader_errors ! 1))"
definition ErrExceedRequest :: go_error where "ErrExceedRequest = GfSpErr (registered (downloader_errors ! 2))"
definition ErrExceedBucketQuota :: go_error where "ErrExceedBucketQuota = GfSpErr (registered (downloader_errors ! 3))"
definition ErrInvalidParam :: go_error where "ErrInvalidParam = GfSpErr (registered (downloader_errors ! 4))"
definition ErrNoSuchPiece :: go_error where "ErrNoSuchPiece = GfSpErr (registered (downloader_errors ! 5))"
definition ErrDownloadPieceStore :: go_error where "ErrDownloadPieceStore = GfSpErr (registered (downloader_errors ! 6))"
definition ErrDownloadGfSpDB :: go_error where "ErrDownloadGfSpDB = GfSpErr (registered (downloader_errors ! 7))"

definition cacheKey :: "string \<Rightarrow> int64 \<Rightarrow> int64 \<Rightarrow> string" where
  "cacheKey pieceKey offset len =
     ''piece:'' @ pieceKey @ ''-offset:'' @ show_int offset @ ''-length:'' @ show_int len"

text \<open>The options; a cache of the given size is \<open>new_cache\<close>, which may fail.\<close>

definition DefaultDownloaderOptions :: "(go_int \<Rightarrow> 'c option) \<Rightarrow> 's \<Rightarrow> 'd \<Rightarrow> 'i \<Rightarrow> go_int \<Rightarrow> go_int \<Rightarrow> uint64
    \<Rightarrow> ('s, 'd, 'i, 'c) DownloadModular option" where
  "DefaultDownloaderOptions new_cache s d i downloadParallel challengeParallel freeQuota =
     (let downloadParallel = (if downloadParallel = 0 then 10240 else downloadParallel);
          challengeParallel = (if challengeParallel = 0 then 10240 else challengeParallel);
          freeQuota = (if freeQuota = 0 then 10 * 1024 * 1024 * 1024 else freeQuota)
      in case new_cache downloadParallel of
           None \<Rightarrow> None
         | Some cache \<Rightarrow> Some \<lparr>dl_pieceStore = s, dl_traffic = d, dl_integrity = i, dl_pieceCache = cache,
             dl_downloading = 0, dl_downloadParallel = downloadParallel, dl_challenging = 0,
             dl_challengeParallel = challengeParallel, dl_bucketFreeQuota = freeQuota, dl_reported = []\<rparr>)"

section \<open>Object downloads\<close>

text \<open>The quota check shared by the two kinds of downloads: only an exhausted quota refuses.\<close>

definition check_quota :: "('s, 'd, 'i, 'c) download_env \<Rightarrow> int64 \<Rightarrow> ReadRecord \<Rightarrow> uint64 \<Rightarrow> ('s, 'd, 'i, 'c) DownloadModular
    \<Rightarrow> go_error option \<times> ('s, 'd, 'i, 'c) DownloadModular" where
  "check_quota env now rec quota d =
     (case CheckQuotaAndAddReadRecord (de_traffic env) (de_month_of env) now (dl_traffic d) rec quota of (err, t) \<Rightarrow>
        (if err = Some ErrCheckQuotaEnough then Some ErrExceedBucketQuota else None, d\<lparr>dl_traffic := t\<rparr>))"

definition PreDownloadObject :: "('s, 'd, 'i, 'c) download_env \<Rightarrow> int64 \<Rightarrow> int64 \<Rightarrow> GfSpDownloadObjectTask option \<Rightarrow> ('s, 'd, 'i, 'c) DownloadModular
    \<Rightarrow> (go_error option \<times> ('s, 'd, 'i, 'c) DownloadModular) go" where
  "PreDownloadObject env now nowUs task d =
     (case task of
        None \<Rightarrow> Returns (Some ErrDanglingPointer, d)
      | Some t \<Rightarrow>
          case do_ObjectInfo t of
            None \<Rightarrow> Returns (Some ErrDanglingPointer, d)
          | Some ob \<Rightarrow>
              if do_StorageParams t = None then Returns (Some ErrDanglingPointer, d)
              else if ObjectStatus ob \<noteq> OBJECT_STATUS_SEALED then Returns (Some ErrObjectUnsealed, d)
              else case do_BucketInfo t of
                     None \<Rightarrow> Panics
                   | Some b \<Rightarrow>
                       (case check_quota env now
                               \<lparr>rr_BucketID = bi_Id b, rr_ObjectID = Id ob, rr_UserAddress = do_UserAddress t,
                                rr_BucketName = bi_BucketName b, rr_ObjectName = ObjectName ob,
                                rr_ReadSize = word_of_int (download_GetSize t), rr_ReadTimestampUs = nowUs\<rparr>
                               (ChargedReadQuota b + dl_bucketFreeQuota d) d of
                          (Some err, d) \<Rightarrow> Returns (Some err, d)
                        | (None, d) \<Rightarrow> Returns (None, d\<lparr>dl_reported := dl_reported d @ [DownloadObjectTask t]\<rparr>)))"

record SegmentPieceInfo =
  si_SegmentPieceKey :: string
  si_Offset :: uint64
  si_Length :: uint64

fun split_loop :: "uint64 \<Rightarrow> uint64 \<Rightarrow> uint64 \<Rightarrow> uint64 \<Rightarrow> nat list \<Rightarrow> SegmentPieceInfo list" where
  "split_loop oid segmentSize low high [] = []"
| "split_loop oid segmentSize low high (i # is) =
     (let segmentPieceIndex = of_nat i :: uint64;
          currentStart = segmentPieceIndex * segmentSize;
          currentEnd = (segmentPieceIndex + 1) * segmentSize - 1
      in if low > currentEnd then split_loop oid segmentSize low high is
         else let currentStart = (if low > currentStart then low else currentStart)
              in if high \<le> currentEnd
                 then [\<lparr>si_SegmentPieceKey = SegmentPieceKey oid (ucast segmentPieceIndex),
                        si_Offset = currentStart - segmentPieceIndex * segmentSize, si_Length = high - currentStart + 1\<rparr>]
                 else \<lparr>si_SegmentPieceKey = SegmentPieceKey oid (ucast segmentPieceIndex),
                       si_Offset = currentStart - segmentPieceIndex * segmentSize, si_Length = currentEnd - currentStart + 1\<rparr>
                      # split_loop oid segmentSize low high is)"

definition SplitToSegmentPieceInfos :: "GfSpDownloadObjectTask \<Rightarrow> (go_error + SegmentPieceInfo list) go" where
  "SplitToSegmentPieceInfos t =
     (let payloadSize = PayloadSize (object_of (do_ObjectInfo t)) in
      if payloadSize = 0 \<or> do_Low t \<ge> int64_of payloadSize \<or> do_High t \<ge> int64_of payloadSize \<or> do_High t < do_Low t
      then Returns (Inl ErrInvalidParam)
      else case do_StorageParams t of
             None \<Rightarrow> Panics
           | Some params \<Rightarrow>
               bind_go (SegmentPieceCount payloadSize (MaxSegmentSize params)) (\<lambda>segmentCount.
                 Returns (Inr (split_loop (Id (object_of (do_ObjectInfo t))) (MaxSegmentSize params)
                   (word_of_int (do_Low t)) (word_of_int (do_High t)) [0..<unat segmentCount]))))"

text \<open>The loop over the pieces; a piece that is not in the cache is read and added to it.\<close>

fun fetch_pieces :: "('s, 'd, 'i, 'c) download_env \<Rightarrow> 's \<Rightarrow> 'c \<Rightarrow> SegmentPieceInfo list \<Rightarrow> bytes \<Rightarrow> ((go_error + bytes) \<times> 'c) go" where
  "fetch_pieces env s c [] data = Returns (Inr data, c)"
| "fetch_pieces env s c (p # ps) data =
     (let key = cacheKey (si_SegmentPieceKey p) (int64_of (si_Offset p)) (int64_of (si_Length p))
      in case de_cache_get env c key of
           (Some piece, c) \<Rightarrow> fetch_pieces env s c ps (data @ piece)
         | (None, c) \<Rightarrow>
             (case de_get env s (si_SegmentPieceKey p) (int64_of (si_Offset p)) (int64_of (si_Length p)) of
                Panics \<Rightarrow> Panics
              | Returns (Inl err) \<Rightarrow> Returns (Inl ErrDownloadPieceStore, c)
              | Returns (Inr piece) \<Rightarrow> fetch_pieces env s (de_cache_add env c key piece) ps (data @ piece)))"

text \<open>Only the error of the split is in the variable that the deferred function reads.\<close>

definition HandleDownloadObjectTask :: "('s, 'd, 'i, 'c) download_env \<Rightarrow> GfSpDownloadObjectTask \<Rightarrow> ('s, 'd, 'i, 'c) DownloadModular
    \<Rightarrow> ((go_error + bytes) \<times> Task \<times> ('s, 'd, 'i, 'c) DownloadModular) go" where
  "HandleDownloadObjectTask env t d =
     (if i64 (dl_downloading d + 1) \<ge> dl_downloadParallel d then Returns (Inl ErrExceedRequest, DownloadObjectTask t, d)
      else bind_go (SplitToSegmentPieceInfos t) (\<lambda>r.
        case r of
          Inl err \<Rightarrow> Returns (Inl err, SetError (Some err) (DownloadObjectTask t), d)
        | Inr pieceInfos \<Rightarrow>
            bind_go (fetch_pieces env (dl_pieceStore d) (dl_pieceCache d) pieceInfos []) (\<lambda>(res, c).
              Returns (res, DownloadObjectTask t, d\<lparr>dl_pieceCache := c\<rparr>))))"

section \<open>Piece downloads\<close>

text \<open>The deferred report is made on every path; a nil task is no value to log, and the client refuses it.\<close>

definition report_piece :: "GfSpDownloadPieceTask option \<Rightarrow> go_error option \<times> ('s, 'd, 'i, 'c) DownloadModular
    \<Rightarrow> go_error option \<times> ('s, 'd, 'i, 'c) DownloadModular" where
  "report_piece task r =
     (case task of
        None \<Rightarrow> r
      | Some t \<Rightarrow> (fst r, (snd r)\<lparr>dl_reported := dl_reported (snd r) @ [DownloadPieceTask t]\<rparr>))"

definition PreDownloadPiece :: "('s, 'd, 'i, 'c) download_env \<Rightarrow> int64 \<Rightarrow> int64 \<Rightarrow> GfSpDownloadPieceTask option \<Rightarrow> ('s, 'd, 'i, 'c) DownloadModular
    \<Rightarrow> (go_error option \<times> ('s, 'd, 'i, 'c) DownloadModular) go" where
  "PreDownloadPiece env now nowUs task d = bind_go
     (case task of
        None \<Rightarrow> Returns (Some ErrDanglingPointer, d)
      | Some t \<Rightarrow>
          case dp_ObjectInfo t of
            None \<Rightarrow> Returns (Some ErrDanglingPointer, d)
          | Some ob \<Rightarrow>
              if dp_StorageParams t = None then Returns (Some ErrDanglingPointer, d)
              else if ObjectStatus ob \<noteq> OBJECT_STATUS_SEALED then Returns (Some ErrObjectUnsealed, d)
              else case dp_BucketInfo t of
                     None \<Rightarrow> Panics
                   | Some b \<Rightarrow>
                       let rec = \<lparr>rr_BucketID = bi_Id b, rr_ObjectID = Id ob, rr_UserAddress = dp_UserAddress t,
                                  rr_BucketName = bi_BucketName b, rr_ObjectName = ObjectName ob,
                                  rr_ReadSize = dp_TotalSize t, rr_ReadTimestampUs = nowUs\<rparr>
                       in if dp_UserAddress t = PrimarySpAddress b then Returns (None, d)
                          else if \<not> dp_EnableCheck t then Returns (None, d)
                          else if de_operator env = PrimarySpAddress b
                          then Returns (check_quota env now rec (ChargedReadQuota b + dl_bucketFreeQuota d) d)
                          else if de_operator env \<in> set (SecondarySpAddresses ob)
                          then Returns (check_quota env now rec (dl_bucketFreeQuota d) d)
                          else Returns (None, d))
     (\<lambda>r. Returns (report_piece task r))"

definition HandleDownloadPieceTask :: "('s, 'd, 'i, 'c) download_env \<Rightarrow> GfSpDownloadPieceTask \<Rightarrow> ('s, 'd, 'i, 'c) DownloadModular
    \<Rightarrow> ((go_error + bytes) \<times> Task \<times> ('s, 'd, 'i, 'c) DownloadModular) go" where
  "HandleDownloadPieceTask env t d =
     (if i64 (dl_downloading d + 1) \<ge> dl_downloadParallel d then Returns (Inl ErrExceedRequest, DownloadPieceTask t, d)
      else let key = cacheKey (dp_PieceKey t) (int64_of (dp_PieceOffset t)) (int64_of (dp_PieceLength t))
           in case de_cache_get env (dl_pieceCache d) key of
                (Some piece, c) \<Rightarrow> Returns (Inr piece, DownloadPieceTask t, d\<lparr>dl_pieceCache := c\<rparr>)
              | (None, c) \<Rightarrow>
                  bind_go (de_get env (dl_pieceStore d) (dp_PieceKey t) (int64_of (dp_PieceOffset t)) (int64_of (dp_PieceLength t))) (\<lambda>r.
                    Returns (case r of
                        Inl err \<Rightarrow> (Inl ErrDownloadPieceStore, SetError (Some (PlainErr (store_text err))) (DownloadPieceTask t), d\<lparr>dl_pieceCache := c\<rparr>)
                      | Inr piece \<Rightarrow> (Inr piece, DownloadPieceTask t, d\<lparr>dl_pieceCache := c\<rparr>))))"

section \<open>Challenges\<close>

definition PreChallengePiece :: "GfSpChallengePieceTask option \<Rightarrow> ('s, 'd, 'i, 'c) DownloadModular
    \<Rightarrow> go_error option \<times> ('s, 'd, 'i, 'c) DownloadModular" where
  "PreChallengePiece task d =
     (case task of
        None \<Rightarrow> (Some ErrDanglingPointer, d)
      | Some t \<Rightarrow>
          case ch_ObjectInfo t of
            None \<Rightarrow> (Some ErrDanglingPointer, d)
          | Some ob \<Rightarrow>
              if ObjectStatus ob \<noteq> OBJECT_STATUS_SEALED then (Some ErrObjectUnsealed, d)
              else (None, d\<lparr>dl_reported := dl_reported d @ [ChallengePieceTask t]\<rparr>))"

definition recoverChallengePiece :: "('s, 'd, 'i, 'c) download_env \<Rightarrow> int64 \<Rightarrow> GfSpChallengePieceTask \<Rightarrow> string \<Rightarrow> ('s, 'd, 'i, 'c) DownloadModular
    \<Rightarrow> ('s, 'd, 'i, 'c) DownloadModular go" where
  "recoverChallengePiece env now t pieceKey d =
     bind_go (ParseChallengeIdx pieceKey) (\<lambda>r.
       let (segmentIndex, ECIndex) = (case r of Inl parseErr \<Rightarrow> (0, 0) | Inr idx \<Rightarrow> idx)
       in case ch_StorageParams t of
            None \<Rightarrow> Panics
          | Some params \<Rightarrow>
              bind_go (TaskTimeout (de_app env) TypeTaskRecoverPiece (MaxSegmentSize params)) (\<lambda>timeout.
                let recoveryTask = InitRecoverPieceTask now (ch_ObjectInfo t) (Some params) (TaskPriority_of TypeTaskRecoverPiece)
                      segmentIndex ECIndex 0 timeout (TaskMaxRetry (de_app env) TypeTaskRecoverPiece)
                in Returns (d\<lparr>dl_reported := dl_reported d @ [RecoverPieceTask recoveryTask]\<rparr>)))"

definition HandleChallengePiece :: "('s, 'd, 'i, 'c) download_env \<Rightarrow> (db_error \<Rightarrow> string) \<Rightarrow> int64
    \<Rightarrow> GfSpChallengePieceTask \<Rightarrow> ('s, 'd, 'i, 'c) DownloadModular
    \<Rightarrow> ((go_error + bytes \<times> bytes list \<times> bytes) \<times> Task \<times> ('s, 'd, 'i, 'c) DownloadModular) go" where
  "HandleChallengePiece env db_text now t d =
     (if i64 (dl_challenging d + 1) \<ge> dl_challengeParallel d then Returns (Inl ErrExceedRequest, ChallengePieceTask t, d)
      else case ch_ObjectInfo t of
        None \<Rightarrow> Panics
      | Some ob \<Rightarrow>
          let pieceKey = ChallengePieceKey (Id ob) (ch_SegmentIdx t) (ch_RedundancyIdx t)
          in case GetObjectIntegrity (de_integrity env) (dl_integrity d) (Id ob) of
               Inl err \<Rightarrow> Returns (Inl ErrDownloadGfSpDB, SetError (Some (PlainErr (db_text err))) (ChallengePieceTask t), d)
             | Inr integrity \<Rightarrow>
                 if unat (ch_SegmentIdx t) \<ge> length (im_PieceChecksumList integrity)
                 then Returns (Inl ErrNoSuchPiece, ChallengePieceTask t, d)
                 else case de_cache_get env (dl_pieceCache d) (cacheKey pieceKey 0 (-1)) of
                        (Some piece, c) \<Rightarrow>
                          Returns (Inr (im_IntegrityChecksum integrity, im_PieceChecksumList integrity, piece), ChallengePieceTask t, d\<lparr>dl_pieceCache := c\<rparr>)
                      | (None, c) \<Rightarrow>
                          bind_go (de_get env (dl_pieceStore d) pieceKey 0 (-1)) (\<lambda>r.
                            case r of
                              Inl err \<Rightarrow> bind_go (recoverChallengePiece env now t pieceKey (d\<lparr>dl_pieceCache := c\<rparr>)) (\<lambda>d.
                                Returns (Inl ErrDownloadPieceStore, SetError (Some (PlainErr (store_text err))) (ChallengePieceTask t), d))
                            | Inr data \<Rightarrow>
                                Returns (Inr (im_IntegrityChecksum integrity, im_PieceChecksumList integrity, data), ChallengePieceTask t, d\<lparr>dl_pieceCache := c\<rparr>)))"

section \<open>Cache keys\<close>

lemma takeWhile_colon: "CHR '':'' \<notin> set l \<Longrightarrow> takeWhile (\<lambda>c. c \<noteq> CHR '':'') (rev (w @ CHR '':'' # l)) = rev l"
proof -
  assume "CHR '':'' \<notin> set l"
  then have "takeWhile (\<lambda>c. c \<noteq> CHR '':'') (rev l @ CHR '':'' # rev w) = rev l @ takeWhile (\<lambda>c. c \<noteq> CHR '':'') (CHR '':'' # rev w)"
    by (intro takeWhile_append2) auto
  then show ?thesis by simp
qed

lemma last_colon:
  assumes "w1 @ CHR '':'' # l1 = w2 @ CHR '':'' # l2" "CHR '':'' \<notin> set l1" "CHR '':'' \<notin> set l2"
  shows "w1 = w2 \<and> l1 = l2"
proof -
  have "rev l1 = rev l2"
    using takeWhile_colon [OF assms(2), of w1] takeWhile_colon [OF assms(3), of w2] unfolding assms(1) by simp
  then show ?thesis using assms(1) by simp
qed

lemma show_int_no_colon [simp]: "CHR '':'' \<notin> set (show_int x)"
proof -
  have "CHR '':'' \<notin> set (show_nat n)" for n by (rule show_nat_not_digit) (simp add: is_digit_def)
  then show ?thesis by (simp add: show_int_def)
qed

lemma cacheKey_inj: "cacheKey k1 o1 l1 = cacheKey k2 o2 l2 \<longleftrightarrow> k1 = k2 \<and> o1 = o2 \<and> l1 = l2"
proof
  assume eq: "cacheKey k1 o1 l1 = cacheKey k2 o2 l2"
  let ?w = "\<lambda>k x. ''piece:'' @ k @ ''-offset:'' @ show_int x @ ''-length''"
  let ?v = "\<lambda>k. ''piece:'' @ k @ ''-offset''"
  have "?w k1 o1 @ CHR '':'' # show_int l1 = ?w k2 o2 @ CHR '':'' # show_int l2"
    using eq by (simp add: cacheKey_def)
  from last_colon [OF this show_int_no_colon show_int_no_colon]
  have w: "?w k1 o1 = ?w k2 o2" and l: "show_int l1 = show_int l2" by (rule conjunct1, rule conjunct2)
  from w have "(?v k1 @ CHR '':'' # show_int o1) @ ''-length'' = (?v k2 @ CHR '':'' # show_int o2) @ ''-length''" by simp
  then have "?v k1 @ CHR '':'' # show_int o1 = ?v k2 @ CHR '':'' # show_int o2" by (rule iffD1 [OF append_same_eq])
  from last_colon [OF this show_int_no_colon show_int_no_colon]
  show "k1 = k2 \<and> o1 = o2 \<and> l1 = l2" using l by simp
qed simp

section \<open>The split covers the range\<close>

text \<open>The same split over natural numbers, as pairs of a segment and a window in it.\<close>

fun split_nat :: "nat \<Rightarrow> nat \<Rightarrow> nat \<Rightarrow> nat list \<Rightarrow> (nat \<times> nat \<times> nat) list" where
  "split_nat n low high [] = []"
| "split_nat n low high (i # is) =
     (let en = (i + 1) * n - 1; cs = max low (i * n)
      in if low > en then split_nat n low high is
         else if high \<le> en then [(i, cs - i * n, high - cs + 1)]
         else (i, cs - i * n, en - cs + 1) # split_nat n low high is)"

definition piece_cut :: "nat \<Rightarrow> bytes \<Rightarrow> nat \<times> nat \<times> nat \<Rightarrow> bytes" where
  "piece_cut n p w = (case w of (i, off, len) \<Rightarrow> take len (drop off (take n (drop (i * n) p))))"

lemma piece_cut_inside: "off + len \<le> n \<Longrightarrow> piece_cut n p (i, off, len) = take len (drop (i * n + off) p)"
  by (simp add: piece_cut_def drop_take min_def add.commute)

lemma split_nat_covers:
  assumes "0 < n" "max low (k * n) \<le> high" "high < c * n"
  shows "concat (map (piece_cut n p) (split_nat n low high [k..<c])) = take (high + 1 - max low (k * n)) (drop (max low (k * n)) p)"
  using assms
proof (induction "c - k" arbitrary: k)
  case 0
  then have "c * n \<le> k * n" by (intro mult_le_mono1) simp
  then show ?case using 0(3,4) by linarith
next
  case (Suc x)
  have kc: "k < c" using Suc(2) by simp
  have n1: "(k + 1) * n = k * n + n" by simp
  have IH: "concat (map (piece_cut n p) (split_nat n low high [k + 1..<c])) = take (high + 1 - max low (k * n + n)) (drop (max low (k * n + n)) p)"
    if "max low (k * n + n) \<le> high"
    using Suc(1) [of "k + 1"] Suc(2-) that by (simp add: add.commute)
  let ?cs = "max low (k * n)" and ?en = "k * n + n - 1"
  consider "low > ?en" | "low \<le> ?en" "high \<le> ?en" | "low \<le> ?en" "high > ?en" by linarith
  then show ?case
  proof cases
    case 1
    then have "max low (k * n) = low" "max low (k * n + n) = low" using Suc(3) by simp_all
    then show ?thesis using 1 IH Suc(4) kc by (simp add: upt_conv_Cons Let_def add.commute)
  next
    case 2
    have "piece_cut n p (k, ?cs - k * n, high - ?cs + 1) = take (high - ?cs + 1) (drop ?cs p)"
      using 2 Suc(3,4) by (subst piece_cut_inside) auto
    moreover have "high - ?cs + 1 = high + 1 - ?cs" using Suc(4) by linarith
    ultimately show ?thesis using 2 kc by (simp add: upt_conv_Cons Let_def add.commute)
  next
    case 3
    have "piece_cut n p (k, ?cs - k * n, ?en - ?cs + 1) = take (?en + 1 - ?cs) (drop ?cs p)"
    proof -
      have le: "?cs \<le> ?en" using 3 Suc(3) by auto
      then have "?en - ?cs + 1 = ?en + 1 - ?cs" by linarith
      then show ?thesis using le Suc(3) by (subst piece_cut_inside) auto
    qed
    moreover have m: "max low (k * n + n) = ?en + 1" using 3 Suc(3) by simp
    moreover have "take (high + 1 - ?cs) (drop ?cs p) = take (?en + 1 - ?cs) (drop ?cs p) @ take (high + 1 - (?en + 1)) (drop (?en + 1) p)"
    proof -
      have "high + 1 - ?cs = (?en + 1 - ?cs) + (high + 1 - (?en + 1))" "?en + 1 = ?en + 1 - ?cs + ?cs" using 3 Suc(3) by auto
      then show ?thesis by (metis drop_drop take_add)
    qed
    ultimately show ?thesis using 3 IH kc by (simp add: upt_conv_Cons Let_def add.commute)
  qed
qed

text \<open>The loop over words computes the same split, as long as the end of the last segment fits.\<close>

lemma of_nat_64_less: "a < 2 ^ 64 \<Longrightarrow> b < 2 ^ 64 \<Longrightarrow> (of_nat a :: uint64) < of_nat b \<longleftrightarrow> a < b"
  by (simp add: word_less_nat_alt unat_of_nat)

lemma of_nat_64_le: "a < 2 ^ 64 \<Longrightarrow> b < 2 ^ 64 \<Longrightarrow> (of_nat a :: uint64) \<le> of_nat b \<longleftrightarrow> a \<le> b"
  by (simp add: word_le_nat_alt unat_of_nat)

definition piece_info :: "uint64 \<Rightarrow> nat \<times> nat \<times> nat \<Rightarrow> SegmentPieceInfo" where
  "piece_info oid w = (case w of (i, off, len) \<Rightarrow>
     \<lparr>si_SegmentPieceKey = SegmentPieceKey oid (of_nat i), si_Offset = of_nat off, si_Length = of_nat len\<rparr>)"

lemma split_loop_nat:
  assumes "0 < n" "max low (k * n) \<le> high" "high < 2 ^ 64" "c * n < 2 ^ 64" "c \<le> 2 ^ 32"
  shows "split_loop oid (of_nat n) (of_nat low) (of_nat high) [k..<c] = map (piece_info oid) (split_nat n low high [k..<c])"
  using assms(2)
proof (induction "c - k" arbitrary: k)
  case (Suc x)
  have kc: "k < c" using Suc(2) by simp
  let ?st = "k * n" and ?en = "(k + 1) * n - 1"
  have "(k + 1) * n \<le> c * n" using kc by (intro mult_le_mono1) simp
  then have b: "?st < 2 ^ 64" "?en < 2 ^ 64" "low < 2 ^ 64"
    using assms(3,4) Suc(3) by (auto intro: le_less_trans)
  have st: "(of_nat k :: uint64) * of_nat n = of_nat ?st" by simp
  have en: "((of_nat k :: uint64) + 1) * of_nat n - 1 = of_nat ?en"
    using assms(1) by (simp add: of_nat_diff algebra_simps)
  have cs: "(if of_nat low > (of_nat ?st :: uint64) then of_nat low else of_nat ?st) = (of_nat (max low ?st) :: uint64)"
    using of_nat_64_less [OF b(1,3)] by (auto simp: max_def simp del: of_nat_mult)
  have key: "(ucast (of_nat k :: uint64) :: uint32) = of_nat k"
    using kc assms(5) by (simp add: unsigned_of_nat take_bit_nat_eq_self)
  have sub: "(of_nat (max low ?st) :: uint64) - of_nat ?st = of_nat (max low ?st - ?st)"
    by (simp add: of_nat_diff)
  have len: "(of_nat x :: uint64) - of_nat (max low ?st) + 1 = of_nat (x - max low ?st + 1)" if "max low ?st \<le> x" for x
    using that by (simp add: of_nat_diff)
  note loop = upt_conv_Cons [OF kc] split_loop.simps split_nat.simps Let_def st en
  have IH: "split_loop oid (of_nat n) (of_nat low) (of_nat high) [Suc k..<c] = map (piece_info oid) (split_nat n low high [Suc k..<c])"
    if "max low ((k + 1) * n) \<le> high"
    using Suc(1) [of "Suc k"] Suc(2) that by simp
  show ?case
  proof (cases "low > ?en")
    case True
    then have "(of_nat ?en :: uint64) < of_nat low" using b by (simp add: of_nat_64_less)
    moreover have "max low ((k + 1) * n) \<le> high" using True Suc(3) by auto
    ultimately show ?thesis using True IH by (simp only: loop if_True)
  next
    case low: False
    then have nlow: "\<not> (of_nat ?en :: uint64) < of_nat low" using b by (simp add: of_nat_64_less)
    have high: "(of_nat high :: uint64) \<le> of_nat ?en \<longleftrightarrow> high \<le> ?en" using b assms(3) by (simp add: of_nat_64_le)
    show ?thesis
    proof (cases "high \<le> ?en")
      case True
      then show ?thesis using low nlow high len [OF Suc(3)]
        by (simp only: loop cs key sub if_False if_True list.map) (simp add: piece_info_def)
    next
      case False
      have "max low ?st \<le> ?en" using low assms(1) by (cases n) auto
      moreover have "max low ((k + 1) * n) \<le> high" using False Suc(3) assms(1) by auto
      ultimately show ?thesis using low nlow high False len [of ?en] IH
        by (simp only: loop cs key sub if_False list.map) (simp add: piece_info_def)
    qed
  qed
qed simp

section \<open>The cache\<close>

text \<open>
  What the code relies on of the cache: a read gives the entry of the key, if there is one, and an
  addition may drop entries but changes none of the others.
\<close>

definition cache_sound :: "('c \<Rightarrow> string \<Rightarrow> bytes option) \<Rightarrow> ('s \<Rightarrow> string \<Rightarrow> int64 \<Rightarrow> int64 \<Rightarrow> (store_error + bytes) go) \<Rightarrow> 's \<Rightarrow> 'c \<Rightarrow> bool" where
  "cache_sound cached get s c \<longleftrightarrow>
     (\<forall>key off len data. cached c (cacheKey key off len) = Some data \<longrightarrow> get s key off len = Returns (Inr data))"

locale piece_cache =
  fixes cget :: "'c \<Rightarrow> string \<Rightarrow> bytes option \<times> 'c"
    and cadd :: "'c \<Rightarrow> string \<Rightarrow> bytes \<Rightarrow> 'c"
    and cached :: "'c \<Rightarrow> string \<Rightarrow> bytes option"
  assumes get_cached: "\<exists>c'. cget c k = (cached c k, c') \<and> cached c' = cached c"
    and add_cached: "cached (cadd c k v) k' = Some x \<Longrightarrow> ((cached c)(k \<mapsto> v)) k' = Some x"
begin

lemma add_sound:
  assumes "cache_sound cached get s c" "get s key off len = Returns (Inr piece)"
  shows "cache_sound cached get s (cadd c (cacheKey key off len) piece)"
  using assms by (auto simp: cache_sound_def cacheKey_inj dest!: add_cached split: if_splits)

lemma fetch_pieces_reads:
  assumes "de_cache_get env = cget" "de_cache_add env = cadd" "cache_sound cached (de_get env) s c"
    "\<forall>w \<in> set ws. de_get env s (si_SegmentPieceKey (g w)) (int64_of (si_Offset (g w))) (int64_of (si_Length (g w))) = Returns (Inr (f w))"
  shows "\<exists>c'. fetch_pieces env s c (map g ws) data = Returns (Inr (data @ concat (map f ws)), c') \<and> cache_sound cached (de_get env) s c'"
  using assms(3,4)
proof (induction ws arbitrary: c data)
  case (Cons w ws)
  let ?key = "cacheKey (si_SegmentPieceKey (g w)) (int64_of (si_Offset (g w))) (int64_of (si_Length (g w)))"
  obtain c1 where c1: "cget c ?key = (cached c ?key, c1)" "cached c1 = cached c" using get_cached by blast
  have s1: "cache_sound cached (de_get env) s c1" using Cons.prems(1) c1(2) by (simp add: cache_sound_def)
  show ?case
  proof (cases "cached c ?key")
    case None
    have read: "de_get env s (si_SegmentPieceKey (g w)) (int64_of (si_Offset (g w))) (int64_of (si_Length (g w))) = Returns (Inr (f w))"
      using Cons.prems(2) by simp
    show ?thesis using Cons.IH [OF add_sound [OF s1 read], of "data @ f w"] Cons.prems(2) c1(1) assms(1,2) None read by simp
  next
    case (Some piece)
    then have "de_get env s (si_SegmentPieceKey (g w)) (int64_of (si_Offset (g w))) (int64_of (si_Length (g w))) = Returns (Inr piece)"
      using Cons.prems(1) unfolding cache_sound_def by blast
    then have "piece = f w" using Cons.prems(2) by simp
    then show ?thesis using Cons.IH [OF s1, of "data @ f w"] Cons.prems(2) c1(1) assms(1) Some by simp
  qed
qed simp

end

text \<open>A least recently used cache of a given size meets the contract.\<close>

record lru_cache =
  lru_size :: nat
  lru_entries :: "(string \<times> bytes) list"

definition lru_get :: "lru_cache \<Rightarrow> string \<Rightarrow> bytes option \<times> lru_cache" where
  "lru_get c k =
     (case map_of (lru_entries c) k of
        None \<Rightarrow> (None, c)
      | Some v \<Rightarrow> (Some v, c\<lparr>lru_entries := (k, v) # AList.delete k (lru_entries c)\<rparr>))"

definition lru_add :: "lru_cache \<Rightarrow> string \<Rightarrow> bytes \<Rightarrow> lru_cache" where
  "lru_add c k v = c\<lparr>lru_entries := take (lru_size c) ((k, v) # AList.delete k (lru_entries c))\<rparr>"

lemma map_of_take: "map_of (take n xs) k = Some x \<Longrightarrow> map_of xs k = Some x"
  by (induction xs arbitrary: n) (auto simp: take_Cons split: nat.splits if_splits)

interpretation lru: piece_cache lru_get lru_add "\<lambda>c. map_of (lru_entries c)"
proof unfold_locales
  fix c k
  show "\<exists>c'. lru_get c k = (map_of (lru_entries c) k, c') \<and> map_of (lru_entries c') = map_of (lru_entries c)"
    by (cases "map_of (lru_entries c) k") (auto simp: lru_get_def delete_conv' fun_eq_iff)
next
  fix c k v k' x
  assume "map_of (lru_entries (lru_add c k v)) k' = Some x"
  then have "map_of ((k, v) # AList.delete k (lru_entries c)) k' = Some x"
    unfolding lru_add_def by (auto dest: map_of_take)
  then show "((map_of (lru_entries c))(k \<mapsto> v)) k' = Some x"
    by (auto simp: delete_conv' split: if_splits)
qed

section \<open>A download returns the bytes of its range\<close>

lemma segments_nth: "0 < n \<Longrightarrow> i < length (segments n p) \<Longrightarrow> segments n p ! i = take n (drop (i * n) p)"
proof (induction n p arbitrary: i rule: segments.induct)
  case (1 n p)
  show ?case
  proof (cases "p = []")
    case False
    then have seg: "segments n p = take n p # segments n (drop n p)" using 1(2) by (subst segments.simps) simp
    then show ?thesis using 1 False by (cases i) (simp_all add: add.commute)
  qed (use 1 in simp)
qed

lemma length_segments: "0 < n \<Longrightarrow> length (segments n p) = (length p + n - 1) div n"
proof (induction n p rule: segments.induct)
  case (1 n p)
  show ?case
  proof (cases "length p \<le> n")
    case True
    have "(length p + n - 1) div n = 1" if "p \<noteq> []"
    proof (rule div_nat_eqI)
      have "0 < length p" using that by simp
      then show "n * 1 \<le> length p + n - 1" "length p + n - 1 < n * Suc 1" using True 1(2) by (simp_all, linarith)
    qed
    then show ?thesis using True 1(2) segments_last [of p n] by (cases "p = []") auto
  next
    case False
    then have seg: "segments n p = take n p # segments n (drop n p)" using 1(2) by (subst segments.simps) auto
    have "(length p + n - 1) div n = (length p - n + n - 1) div n + 1"
      using False 1(2) by (simp add: div_if)
    moreover have "p \<noteq> []" using False 1(2) by auto
    ultimately show ?thesis using seg 1 False by simp
  qed
qed

lemma split_of_task:
  assumes t: "do_ObjectInfo t = Some ob" "do_StorageParams t = Some params"
    and range: "0 \<le> do_Low t" "do_Low t \<le> do_High t" "do_High t < uint (PayloadSize ob)"
    and sizes: "0 < uint (MaxSegmentSize params)" "uint (PayloadSize ob) < 2 ^ 63" "uint (MaxSegmentSize params) < 2 ^ 63"
      "uint (PayloadSize ob) \<le> uint (MaxSegmentSize params) * (2 ^ 32 - 1)"
    and n: "n = unat (MaxSegmentSize params)"
  obtains c where "SplitToSegmentPieceInfos t = Returns (Inr (map (piece_info (Id ob)) (split_nat n (nat (do_Low t)) (nat (do_High t)) [0..<c])))"
    "c = (unat (PayloadSize ob) + n - 1) div n" "nat (do_High t) < c * n"
proof -
  obtain w where w: "SegmentPieceCount (PayloadSize ob) (MaxSegmentSize params) = Returns w"
    "uint w = (uint (PayloadSize ob) + uint (MaxSegmentSize params) - 1) div uint (MaxSegmentSize params)"
    using SegmentPieceCount_eq [OF sizes(1,4)] by blast
  let ?p = "unat (PayloadSize ob)" and ?c = "(unat (PayloadSize ob) + n - 1) div n"
  have u: "uint (PayloadSize ob) = int ?p" "uint (MaxSegmentSize params) = int n" "uint w = int (unat w)"
    unfolding n by (rule uint_nat)+
  have npos: "0 < n" using sizes(1) unfolding u by simp
  have "int (unat w) = int ?c" using w(2) npos unfolding u by (simp add: zdiv_int of_nat_diff)
  then have c: "unat w = ?c" by (simp only: of_nat_eq_iff)
  have cn: "?p \<le> ?c * n" "?c * n < ?p + n"
    using ceil_bounds npos div_mult_mod_eq [of "?p + n - 1" n] mod_less_divisor [OF npos, of "?p + n - 1"] by linarith+
  have p63: "?p < 2 ^ 63" "n < 2 ^ 63" using sizes(2,3) unfolding u by (simp_all only: of_nat_less_iff [symmetric, where ?'a = int] of_nat_power of_nat_numeral)
  have high: "nat (do_High t) < ?p" using range unfolding u by linarith
  have words: "(word_of_int (do_Low t) :: uint64) = of_nat (nat (do_Low t))" "(word_of_int (do_High t) :: uint64) = of_nat (nat (do_High t))"
    using range by simp_all
  have seg: "MaxSegmentSize params = of_nat n" using n by simp
  have loop: "split_loop (Id ob) (of_nat n) (of_nat (nat (do_Low t))) (of_nat (nat (do_High t))) [0..<?c]
      = map (piece_info (Id ob)) (split_nat n (nat (do_Low t)) (nat (do_High t)) [0..<?c])"
  proof (rule split_loop_nat [OF npos])
    show "max (nat (do_Low t)) (0 * n) \<le> nat (do_High t)" using range by simp
    have "(2 :: nat) ^ 64 = 2 * 2 ^ 63" by simp
    then show "nat (do_High t) < 2 ^ 64" and "?c * n < 2 ^ 64" using high p63 cn by linarith+
    show "?c \<le> 2 ^ 32" using c unat_lt_32 [of w] by simp
  qed
  have "split_loop (Id ob) (MaxSegmentSize params) (word_of_int (do_Low t)) (word_of_int (do_High t)) [0..<unat w]
      = map (piece_info (Id ob)) (split_nat n (nat (do_Low t)) (nat (do_High t)) [0..<?c])"
    unfolding words seg c by (rule loop)
  moreover have "int64_of (PayloadSize ob) = uint (PayloadSize ob)" by (rule int64_of_small [OF sizes(2)])
  moreover have "PayloadSize ob \<noteq> 0" using range by auto
  ultimately have "SplitToSegmentPieceInfos t = Returns (Inr (map (piece_info (Id ob)) (split_nat n (nat (do_Low t)) (nat (do_High t)) [0..<?c])))"
    using range by (simp add: SplitToSegmentPieceInfos_def t object_of_def w(1))
  moreover have "nat (do_High t) < ?c * n" using high cn(1) by linarith
  ultimately show thesis using that by blast
qed

lemma split_nat_bounds:
  assumes "0 < n" "max low (k * n) \<le> high"
  shows "(i, off, len) \<in> set (split_nat n low high [k..<c]) \<Longrightarrow> i < c \<and> 0 < len \<and> off + len \<le> n"
  using assms(2)
proof (induction "c - k" arbitrary: k)
  case (Suc x)
  have kc: "k < c" using Suc(2) by simp
  let ?cs = "max low (k * n)" and ?en = "k * n + n - 1"
  have IH: "i < c \<and> 0 < len \<and> off + len \<le> n" if "(i, off, len) \<in> set (split_nat n low high [Suc k..<c])" "max low (k * n + n) \<le> high"
    using Suc(1) [of "Suc k"] Suc(2) that by (simp add: add.commute)
  consider "low > ?en" | "low \<le> ?en" "high \<le> ?en" | "low \<le> ?en" "high > ?en" by linarith
  then show ?case
  proof cases
    case 1
    then show ?thesis using Suc(3,4) IH kc by (simp add: upt_conv_Cons Let_def add.commute)
  next
    case 2
    then have "(i, off, len) = (k, ?cs - k * n, high - ?cs + 1)"
      using Suc(3) kc by (simp add: upt_conv_Cons Let_def add.commute)
    then show ?thesis using 2 Suc(4) kc assms(1) by auto
  next
    case 3
    have "max low (k * n + n) \<le> high" using 3 assms(1) by auto
    moreover have "(i, off, len) = (k, ?cs - k * n, ?en - ?cs + 1) \<or> (i, off, len) \<in> set (split_nat n low high [Suc k..<c])"
      using 3 Suc(3) kc by (simp add: upt_conv_Cons Let_def add.commute)
    moreover have "?cs - k * n + (?en - ?cs + 1) \<le> n" using 3 assms(1) by auto
    ultimately show ?thesis using IH kc by auto
  qed
qed simp

text \<open>Reading a window of a stored segment.\<close>

lemma read_window:
  assumes stored: "stored_segments ps oid 0 (segments n p)"
    and w: "i < length (segments n p)" "0 < len" "off + len \<le> n" "n < 2 ^ 63"
  shows "GetPiece ps (si_SegmentPieceKey (piece_info oid (i, off, len))) (int64_of (si_Offset (piece_info oid (i, off, len))))
      (int64_of (si_Length (piece_info oid (i, off, len)))) = Returns (Inr (piece_cut n p (i, off, len)))"
proof -
  have small: "int64_of (of_nat x) = int x" if "x < 2 ^ 63" for x :: nat
  proof -
    have "uint (of_nat x :: uint64) = int x" using that by (simp add: unsigned_of_nat take_bit_nat_eq_self)
    then show ?thesis using that by (simp add: int64_of_small)
  qed
  have "store_ok ps" "store_content ps (SegmentPieceKey oid (of_nat i)) = Some (segments n p ! i)"
    using stored w(1) by (simp_all add: stored_segments_def)
  moreover have "segments n p ! i = take n (drop (i * n) p)" using segments_nth [of n] w by simp
  moreover have "off < 2 ^ 63" "len < 2 ^ 63" using w(3,4) by linarith+
  ultimately show ?thesis
    using w(2) GetPiece_content [of ps "int off" "SegmentPieceKey oid (of_nat i)" "int len"]
    by (simp add: piece_info_def piece_cut_def small window_def)
qed

lemma download_range:
  assumes t: "do_ObjectInfo t = Some ob" "do_StorageParams t = Some params"
    and range: "0 \<le> do_Low t" "do_Low t \<le> do_High t" "do_High t < uint (PayloadSize ob)"
    and sizes: "0 < uint (MaxSegmentSize params)" "uint (PayloadSize ob) < 2 ^ 63" "uint (MaxSegmentSize params) < 2 ^ 63"
      "uint (PayloadSize ob) \<le> uint (MaxSegmentSize params) * (2 ^ 32 - 1)"
    and stored: "stored_segments (dl_pieceStore d) (Id ob) 0 (segments (unat (MaxSegmentSize params)) payload)"
      "length payload = unat (PayloadSize ob)"
    and cache: "piece_cache (de_cache_get env) (de_cache_add env) cached" "cache_sound cached (de_get env) (dl_pieceStore d) (dl_pieceCache d)"
      "de_get env = GetPiece"
    and free: "i64 (dl_downloading d + 1) < dl_downloadParallel d"
  shows "\<exists>c. HandleDownloadObjectTask env t d
      = Returns (Inr (take (nat (do_High t - do_Low t + 1)) (drop (nat (do_Low t)) payload)), DownloadObjectTask t, d\<lparr>dl_pieceCache := c\<rparr>)
    \<and> cache_sound cached (de_get env) (dl_pieceStore d) c"
proof -
  let ?n = "unat (MaxSegmentSize params)" and ?low = "nat (do_Low t)" and ?high = "nat (do_High t)"
  obtain c where c: "SplitToSegmentPieceInfos t = Returns (Inr (map (piece_info (Id ob)) (split_nat ?n ?low ?high [0..<c])))"
    "c = (unat (PayloadSize ob) + ?n - 1) div ?n" "?high < c * ?n"
    by (rule split_of_task [OF t range sizes refl])
  have n: "0 < ?n" "?n < 2 ^ 63"
    using sizes(1,3) unfolding uint_nat
    by (simp_all only: of_nat_0_less_iff of_nat_less_iff [symmetric, where ?'a = int] of_nat_power of_nat_numeral)
  have le: "max ?low (0 * ?n) \<le> ?high" using range by simp
  let ?ws = "split_nat ?n ?low ?high [0..<c]"
  have "\<forall>w \<in> set ?ws. de_get env (dl_pieceStore d) (si_SegmentPieceKey (piece_info (Id ob) w)) (int64_of (si_Offset (piece_info (Id ob) w)))
      (int64_of (si_Length (piece_info (Id ob) w))) = Returns (Inr (piece_cut ?n payload w))"
    using split_nat_bounds [OF n(1) le] read_window [OF stored(1) _ _ _ n(2)] length_segments [OF n(1), of payload] c(2) stored(2) cache(3)
    by auto
  then obtain c' where fetch: "fetch_pieces env (dl_pieceStore d) (dl_pieceCache d) (map (piece_info (Id ob)) ?ws) []
      = Returns (Inr (concat (map (piece_cut ?n payload) ?ws)), c')" "cache_sound cached (de_get env) (dl_pieceStore d) c'"
    using piece_cache.fetch_pieces_reads [OF cache(1) refl refl cache(2), of ?ws "piece_info (Id ob)" "piece_cut ?n payload" "[]"] by auto
  have "concat (map (piece_cut ?n payload) ?ws) = take (nat (do_High t - do_Low t + 1)) (drop ?low payload)"
    using split_nat_covers [OF n(1) le c(3), of payload] range by (simp add: nat_diff_distrib Suc_diff_le nat_add_distrib)
  then show ?thesis using free fetch c(1) by (auto simp: HandleDownloadObjectTask_def)
qed

end
