(* ===== verification/Receiver.thy ===== *)
theory Receiver
  imports Uploader
begin

text \<open>
  The receiver module of a secondary provider: \<open>modular/receiver/receive_task.go\<close> and
  \<open>receiver_options.go\<close>. Pieces arrive one by one, each is checked against its checksum, stored
  and its checksum recorded; at the end the integrity hash of all of them is signed and recorded.
  The checksum, the signer, the piece store, the tables and the report to the manager are arguments,
  as in the uploader. The three clocks of a call are those of its queue operations. The deferred
  function reads the task, so that a nil task panics in spite of the check for it, and a task
  without an object does, too (\<open>Info\<close> computes its key). Metrics are not modelled.
\<close>

section \<open>State and environment\<close>

record ('s, 'i, 'p) ReceiveModular =
  rv_receiveQueue :: "unit tqueue"
  rv_pieceStore :: 's
  rv_integrity :: 'i
  rv_hashes :: 'p
  rv_reported :: "Task list"

record ('s, 'i, 'p) receive_env =
  re_put :: "'s \<Rightarrow> string \<Rightarrow> bytes \<Rightarrow> (store_error option \<times> 's) go"
  re_hash :: "bytes \<Rightarrow> bytes"
  re_sign :: "uint64 \<Rightarrow> bytes list \<Rightarrow> go_error + (bytes \<times> bytes)"
  re_integrity :: "('i, uint64, IntegrityMetaTable) gorm_table"
  re_hashes :: "('p, piece_id, PieceHashTable) gorm_table"
  re_report :: "Task \<Rightarrow> go_error option"

definition ErrReceiveRepeated :: go_error where "ErrReceiveRepeated = GfSpErr (registered (receiver_errors ! 1))"
definition ErrUnfinishedTask :: go_error where "ErrUnfinishedTask = GfSpErr (registered (receiver_errors ! 2))"
definition ErrInvalidDataChecksum :: go_error where "ErrInvalidDataChecksum = GfSpErr (registered (receiver_errors ! 3))"
definition ErrReceivePieceStore :: go_error where "ErrReceivePieceStore = GfSpErr (registered (receiver_errors ! 4))"
definition ErrReceiveGfSpDB :: go_error where "ErrReceiveGfSpDB = GfSpErr (registered (receiver_errors ! 5))"

definition DefaultReceiverOptions :: "'s \<Rightarrow> 'i \<Rightarrow> 'p \<Rightarrow> go_int \<Rightarrow> ('s, 'i, 'p) ReceiveModular" where
  "DefaultReceiverOptions s i p parallel =
     (let parallel = (if parallel = 0 then 10240 else parallel) in
      \<lparr>rv_receiveQueue = NewGfSpTQueue ''receiver-receive-piece'' parallel, rv_pieceStore = s, rv_integrity = i,
       rv_hashes = p, rv_reported = []\<rparr>)"

section \<open>Receiving pieces\<close>

definition receive_key :: "ObjectInfo \<Rightarrow> GfSpReceivePieceTask \<Rightarrow> string" where
  "receive_key ob t =
     (if RedundancyType ob = REDUNDANCY_EC_TYPE then ECPieceKey (Id ob) (word_of_int (rv_PieceIdx t)) (rv_ReplicateIdx t)
      else SegmentPieceKey (Id ob) (word_of_int (rv_PieceIdx t)))"

text \<open>The part of the handler while the task is in the queue.\<close>

definition store_piece :: "('s, 'i, 'p) receive_env \<Rightarrow> ObjectInfo \<Rightarrow> GfSpReceivePieceTask \<Rightarrow> bytes \<Rightarrow> 's \<Rightarrow> 'p \<Rightarrow> (go_error option \<times> 's \<times> 'p) go" where
  "store_piece env ob t data s p =
     (if re_hash env data \<noteq> rv_PieceChecksum t then Returns (Some ErrInvalidDataChecksum, s, p)
      else case SetReplicatePieceChecksum (re_hashes env) p (Id ob) (rv_ReplicateIdx t) (word_of_int (rv_PieceIdx t)) (rv_PieceChecksum t) of
             (Some e, p) \<Rightarrow> Returns (Some ErrReceiveGfSpDB, s, p)
           | (None, p) \<Rightarrow>
               bind_go (re_put env s (receive_key ob t) data) (\<lambda>(e, s).
                 Returns (case e of Some _ \<Rightarrow> Some ErrReceivePieceStore | None \<Rightarrow> None, s, p)))"

text \<open>The task with the error that the deferred function sets.\<close>

definition with_error :: "go_error option \<Rightarrow> Task \<Rightarrow> Task" where
  "with_error err t = (if err \<noteq> None then SetError err t else t)"

definition receiver_HandleReceivePieceTask :: "('s, 'i, 'p) receive_env \<Rightarrow> int64 \<Rightarrow> int64 \<Rightarrow> int64 \<Rightarrow> GfSpReceivePieceTask option \<Rightarrow> bytes
    \<Rightarrow> ('s, 'i, 'p) ReceiveModular \<Rightarrow> (go_error option \<times> Task \<times> ('s, 'i, 'p) ReceiveModular) go" where
  "receiver_HandleReceivePieceTask env n1 n2 n3 task data r =
     (case task of
        None \<Rightarrow> Panics
      | Some t \<Rightarrow>
          case rv_ObjectInfo t of
            None \<Rightarrow> Panics
          | Some ob \<Rightarrow>
              let rt = ReceivePieceTask t
              in case Has n1 (rv_receiveQueue r) (Key rt) of
                   (True, q) \<Rightarrow> Returns (Some ErrReceiveRepeated, with_error (Some ErrReceiveRepeated) rt, r\<lparr>rv_receiveQueue := q\<rparr>)
                 | (False, q) \<Rightarrow>
                     (case Push n2 q rt of
                        (Some err, q) \<Rightarrow> Returns (Some (GfSpErr err), with_error (Some (GfSpErr err)) rt, r\<lparr>rv_receiveQueue := q\<rparr>)
                      | (None, q) \<Rightarrow>
                          bind_go (store_piece env ob t data (rv_pieceStore r) (rv_hashes r)) (\<lambda>(err, s, p).
                            Returns (err, with_error err rt, r\<lparr>rv_pieceStore := s, rv_hashes := p,
                              rv_receiveQueue := snd (PopByKey n3 q (Key rt))\<rparr>))))"

text \<open>
  The end of a replication while the task is in the queue. The result is the answer, the variable
  \<open>err\<close> at the return, and the state; the error of the last deletion is overwritten by that of the
  report, and neither is returned.
\<close>

definition finish_receive :: "('s, 'i, 'p) receive_env \<Rightarrow> ObjectInfo \<Rightarrow> GfSpReceivePieceTask \<Rightarrow> uint32 \<Rightarrow> ('s, 'i, 'p) ReceiveModular
    \<Rightarrow> (go_error + bytes \<times> bytes) \<times> Task \<times> ('s, 'i, 'p) ReceiveModular" where
  "finish_receive env ob t segmentCount r =
     (let rt = ReceivePieceTask t; fail = (\<lambda>err r. (Inl err, with_error (Some err) rt, r)) in
      case GetAllReplicatePieceChecksum (re_hashes env) (rv_hashes r) (Id ob) (rv_ReplicateIdx t) segmentCount of
        Inl _ \<Rightarrow> fail ErrReceiveGfSpDB r
      | Inr checksums \<Rightarrow>
          if int (length checksums) \<noteq> uint segmentCount then fail ErrUnfinishedTask r
          else case re_sign env (Id ob) checksums of
            Inl err \<Rightarrow> fail err r
          | Inr (signature, integrity) \<Rightarrow>
              (case SetObjectIntegrity (re_integrity env) (rv_integrity r) \<lparr>im_ObjectID = Id ob, im_IntegrityChecksum = integrity,
                      im_PieceChecksumList = checksums, im_Signature = signature\<rparr> of
                 (Some _, i) \<Rightarrow> fail ErrReceiveGfSpDB (r\<lparr>rv_integrity := i\<rparr>)
               | (None, i) \<Rightarrow>
                   (case DeleteAllReplicatePieceChecksum (re_hashes env) (rv_hashes r) (Id ob) (rv_ReplicateIdx t) segmentCount of (_, p) \<Rightarrow>
                      let rt = SetError None rt
                      in (Inr (integrity, signature), with_error (re_report env rt) rt,
                          r\<lparr>rv_integrity := i, rv_hashes := p, rv_reported := rv_reported r @ [rt]\<rparr>))))"

definition HandleDoneReceivePieceTask :: "('s, 'i, 'p) receive_env \<Rightarrow> int64 \<Rightarrow> int64 \<Rightarrow> GfSpReceivePieceTask option
    \<Rightarrow> ('s, 'i, 'p) ReceiveModular \<Rightarrow> ((go_error + bytes \<times> bytes) \<times> Task \<times> ('s, 'i, 'p) ReceiveModular) go" where
  "HandleDoneReceivePieceTask env n1 n2 task r =
     (case task of
        None \<Rightarrow> Panics
      | Some t \<Rightarrow>
          case rv_ObjectInfo t of
            None \<Rightarrow> Panics
          | Some ob \<Rightarrow>
              let rt = ReceivePieceTask t
              in case Push n1 (rv_receiveQueue r) rt of
                   (Some err, q) \<Rightarrow> Returns (Inl (GfSpErr err), with_error (Some (GfSpErr err)) rt, r\<lparr>rv_receiveQueue := q\<rparr>)
                 | (None, q) \<Rightarrow>
                     (case rv_StorageParams t of
                        None \<Rightarrow> Panics
                      | Some params \<Rightarrow>
                          bind_go (SegmentPieceCount (PayloadSize ob) (MaxSegmentSize params)) (\<lambda>segmentCount.
                            case finish_receive env ob t segmentCount r of (res, rt', r) \<Rightarrow>
                              Returns (res, rt', r\<lparr>rv_receiveQueue := snd (PopByKey n2 q (Key rt))\<rparr>))))"

definition receive_QueryTasks :: "('s, 'i, 'p) ReceiveModular \<Rightarrow> string \<Rightarrow> Task list" where
  "receive_QueryTasks r subKey = ScanTQueueBySubKey (rv_receiveQueue r) subKey"

section \<open>One piece\<close>

text \<open>A queue that nothing is in and that takes a task.\<close>

definition idle :: "'e tqueue \<Rightarrow> bool" where
  "idle q \<longleftrightarrow> tasks q = [] \<and> gcFunc q = None \<and> 0 < cap q"

lemma idle_queue:
  assumes "idle q"
  shows "Has now q k = (False, q)" "Push now q t = (None, q\<lparr>tasks := [(Key t, t)]\<rparr>)"
    "snd (PopByKey now (q\<lparr>tasks := [(Key t, t)]\<rparr>) (Key t)) = q"
  using assms
  by (cases q; simp add: idle_def Has_def tq_has_def Push_def exceed_def tq_add_def PopByKey_def tq_delete_def)+

lemma ECPieceKey_eq [simp]: "ECPieceKey o1 s1 r1 = ECPieceKey o2 s2 r2 \<longleftrightarrow> o1 = o2 \<and> s1 = s2 \<and> r1 = r2"
proof
  assume "ECPieceKey o1 s1 r1 = ECPieceKey o2 s2 r2"
  from arg_cong [OF this, of "split_on CHR ''_''"] show "o1 = o2 \<and> s1 = s2 \<and> r1 = r2"
    by (simp add: split_ECPieceKey word_unat_eq_iff)
qed simp

lemma receive_key_nonempty [simp]: "receive_key ob t \<noteq> []"
  by (simp add: receive_key_def ECPieceKey_def)

lemma store_piece_run:
  assumes "re_put env = PutPiece t0" "store_ok s" "re_hash env data = rv_PieceChecksum t"
    "SetReplicatePieceChecksum (re_hashes env) p (Id ob) (rv_ReplicateIdx t) (word_of_int (rv_PieceIdx t)) (rv_PieceChecksum t) = (None, p')"
  shows "\<exists>s'. store_piece env ob t data s p = Returns (None, s', p') \<and> store_ok s'
    \<and> store_content s' = (store_content s)(receive_key ob t \<mapsto> data)"
  using PutPiece_content [OF assms(2), of t0 "receive_key ob t" data] assms by (auto simp: store_piece_def)

lemma receive_run:
  assumes "rv_ObjectInfo t = Some ob" "idle (rv_receiveQueue r)"
    "store_piece env ob t data (rv_pieceStore r) (rv_hashes r) = Returns (None, s', p')"
  shows "receiver_HandleReceivePieceTask env n1 n2 n3 (Some t) data r
    = Returns (None, ReceivePieceTask t, r\<lparr>rv_pieceStore := s', rv_hashes := p'\<rparr>)"
  using assms idle_queue [OF assms(2)]
  by (cases r) (simp add: receiver_HandleReceivePieceTask_def Let_def with_error_def del: Key.simps)

text \<open>An environment with the tables in memory, for concrete runs.\<close>

definition memory_receive_env :: "(ObjectStorage, (uint64 \<times> IntegrityMetaTable) list, (piece_id \<times> PieceHashTable) list) receive_env" where
  "memory_receive_env = \<lparr>re_put = PutPiece 5, re_hash = (\<lambda>b. [of_nat (length b)]), re_sign = (\<lambda>oid cs. Inr ([1], concat cs)),
     re_integrity = alist_table it_ObjectID 0, re_hashes = alist_table ph_key (0, 0, 0), re_report = (\<lambda>t. None)\<rparr>"

definition demo_receiver :: "(ObjectStorage, (uint64 \<times> IntegrityMetaTable) list, (piece_id \<times> PieceHashTable) list) ReceiveModular" where
  "demo_receiver = DefaultReceiverOptions (createStorage [] (\<lambda>i. []) 4) [] [] 10"

definition demo_receive_task :: GfSpReceivePieceTask where
  "demo_receive_task = \<lparr>rv_Task = new_task, rv_ObjectInfo = Some demo_upload_object, rv_StorageParams = Some demo_upload_params,
     rv_ReplicateIdx = 1, rv_PieceIdx = 0, rv_PieceSize = 2, rv_PieceChecksum = [2], rv_Signature = [], rv_Sealed = False\<rparr>"

lemma demo_receive_facts:
  "rv_ObjectInfo demo_receive_task = Some demo_upload_object" "rv_StorageParams demo_receive_task = Some demo_upload_params"
  "idle (rv_receiveQueue demo_receiver)" "store_ok (rv_pieceStore demo_receiver)" "re_put memory_receive_env = PutPiece 5"
  "piece_hash_table (re_hashes memory_receive_env) map_of" "integrity_table (re_integrity memory_receive_env) map_of"
  using piece_rows.piece_hash_table_axioms integrity_rows.integrity_table_axioms
  by (simp_all add: demo_receive_task_def demo_receiver_def DefaultReceiverOptions_def NewGfSpTQueue_def idle_def createStorage_ok memory_receive_env_def)

text \<open>
  A piece that is sent again replaces the data but not the recorded checksum: when a checksum is
  recorded for the index and other data arrives for it with its own correct checksum, the call
  succeeds, the piece store holds the new data and the checksum of the old data stays recorded.
\<close>

theorem resent_piece_keeps_checksum:
  assumes "rv_ObjectInfo t = Some ob" "idle (rv_receiveQueue r)" "re_put env = PutPiece t0" "store_ok (rv_pieceStore r)"
    "piece_hash_table (re_hashes env) hrows" "re_hash env data = rv_PieceChecksum t"
    "hrows (rv_hashes r) (Id ob, rv_ReplicateIdx t, word_of_int (rv_PieceIdx t)) = Some row"
  shows "\<exists>r'. receiver_HandleReceivePieceTask env n1 n2 n3 (Some t) data r = Returns (None, ReceivePieceTask t, r')
    \<and> store_content (rv_pieceStore r') (receive_key ob t) = Some data \<and> hrows (rv_hashes r') = hrows (rv_hashes r)"
proof -
  obtain p' where p': "SetReplicatePieceChecksum (re_hashes env) (rv_hashes r) (Id ob) (rv_ReplicateIdx t) (word_of_int (rv_PieceIdx t)) (rv_PieceChecksum t) = (None, p')"
    "hrows p' = hrows (rv_hashes r)"
    using piece_hash_table.Set_piece_duplicate [OF assms(5)] assms(7) by (metis option.distinct(1))
  obtain s' where "store_piece env ob t data (rv_pieceStore r) (rv_hashes r) = Returns (None, s', p')"
    "store_content s' = (store_content (rv_pieceStore r))(receive_key ob t \<mapsto> data)"
    using store_piece_run [OF assms(3,4,6) p'(1)] by blast
  then show ?thesis using receive_run [OF assms(1,2)] p'(2) by auto
qed

theorem resent_piece_keeps_checksum_witness:
  "\<exists>r'. receiver_HandleReceivePieceTask memory_receive_env 1 1 1 (Some demo_receive_task) [8, 9]
       (demo_receiver\<lparr>rv_hashes := [((7, 1, 0), piece_hash_row 7 1 0 [3])]\<rparr>) = Returns (None, ReceivePieceTask demo_receive_task, r')
     \<and> store_content (rv_pieceStore r') (receive_key demo_upload_object demo_receive_task) = Some [8, 9]
     \<and> map_of (rv_hashes r') = [(7, 1, 0) \<mapsto> piece_hash_row 7 1 0 [3]]"
  using resent_piece_keeps_checksum [OF demo_receive_facts(1) _ demo_receive_facts(5) _ demo_receive_facts(6),
      of "demo_receiver\<lparr>rv_hashes := [((7, 1, 0), piece_hash_row 7 1 0 [3])]\<rparr>" "[8, 9]" "piece_hash_row 7 1 0 [3]" 1 1 1]
  by (simp add: demo_receive_facts demo_upload_facts(1)) (simp add: demo_receive_task_def memory_receive_env_def)

section \<open>All pieces\<close>

definition piece_task :: "('s, 'i, 'p) receive_env \<Rightarrow> GfSpReceivePieceTask \<Rightarrow> nat \<Rightarrow> bytes \<Rightarrow> GfSpReceivePieceTask" where
  "piece_task env t i x = t\<lparr>rv_PieceIdx := int i, rv_PieceChecksum := re_hash env x\<rparr>"

text \<open>The pieces of one replica in order, from an index on, with the error of each call.\<close>

fun receive_all :: "('s, 'i, 'p) receive_env \<Rightarrow> int64 \<Rightarrow> GfSpReceivePieceTask \<Rightarrow> nat \<Rightarrow> bytes list \<Rightarrow> ('s, 'i, 'p) ReceiveModular
    \<Rightarrow> (go_error option list \<times> ('s, 'i, 'p) ReceiveModular) go" where
  "receive_all env now t i [] r = Returns ([], r)"
| "receive_all env now t i (x # xs) r =
     bind_go (receiver_HandleReceivePieceTask env now now now (Some (piece_task env t i x)) x r) (\<lambda>(err, _, r).
     bind_go (receive_all env now t (Suc i) xs r) (\<lambda>(errs, r). Returns (err # errs, r)))"

definition index_key :: "ObjectInfo \<Rightarrow> GfSpReceivePieceTask \<Rightarrow> nat \<Rightarrow> string" where
  "index_key ob t i = receive_key ob (t\<lparr>rv_PieceIdx := int i\<rparr>)"

lemma of_nat_32_eq: "a < 2 ^ 32 \<Longrightarrow> b < 2 ^ 32 \<Longrightarrow> (of_nat a :: uint32) = of_nat b \<longleftrightarrow> a = b"
  by (simp add: word_unat_eq_iff unat_of_nat)

lemma index_key_eq: "a < 2 ^ 32 \<Longrightarrow> b < 2 ^ 32 \<Longrightarrow> index_key ob t a = index_key ob t b \<longleftrightarrow> a = b"
  using of_nat_32_eq [of a b] by (simp add: index_key_def receive_key_def)

lemma piece_task_key [simp]: "receive_key ob (piece_task env t i x) = index_key ob t i"
  by (simp add: piece_task_def index_key_def receive_key_def)

lemma receive_all_stores:
  assumes "rv_ObjectInfo t = Some ob" "idle (rv_receiveQueue r)" "re_put env = PutPiece t0" "store_ok (rv_pieceStore r)"
    "piece_hash_table (re_hashes env) hrows" "i + length xs \<le> 2 ^ 32"
    "\<And>j. j < length xs \<Longrightarrow> hrows (rv_hashes r) (Id ob, rv_ReplicateIdx t, of_nat (i + j)) = None"
  shows "\<exists>s p. receive_all env now t i xs r = Returns (replicate (length xs) None, r\<lparr>rv_pieceStore := s, rv_hashes := p\<rparr>)
    \<and> store_ok s
    \<and> (\<forall>j < length xs. store_content s (index_key ob t (i + j)) = Some (xs ! j)
         \<and> hrows p (Id ob, rv_ReplicateIdx t, of_nat (i + j)) = Some (piece_hash_row (Id ob) (rv_ReplicateIdx t) (of_nat (i + j)) (re_hash env (xs ! j))))
    \<and> (\<forall>k. (\<forall>j < length xs. k \<noteq> index_key ob t (i + j)) \<longrightarrow> store_content s k = store_content (rv_pieceStore r) k)
    \<and> (\<forall>k. (\<forall>j < length xs. k \<noteq> (Id ob, rv_ReplicateIdx t, of_nat (i + j))) \<longrightarrow> hrows p k = hrows (rv_hashes r) k)"
  using assms(2,4,6,7)
proof (induction xs arbitrary: i r)
  case Nil
  then show ?case by (intro exI [of _ "rv_pieceStore r"] exI [of _ "rv_hashes r"]) simp
next
  case (Cons x xs)
  let ?t = "piece_task env t i x" and ?id = "\<lambda>j. (Id ob, rv_ReplicateIdx t, of_nat j :: uint32)"
  have t: "rv_ObjectInfo ?t = Some ob" "rv_PieceChecksum ?t = re_hash env x" "rv_ReplicateIdx ?t = rv_ReplicateIdx t"
    "word_of_int (rv_PieceIdx ?t) = (of_nat i :: uint32)" using assms(1) by (simp_all add: piece_task_def)
  have "hrows (rv_hashes r) (?id i) = None" using Cons.prems(4) [of 0] by simp
  from piece_hash_table.Set_piece_new [OF assms(5) this] obtain p1 where p1:
    "SetReplicatePieceChecksum (re_hashes env) (rv_hashes r) (Id ob) (rv_ReplicateIdx t) (of_nat i) (re_hash env x) = (None, p1)"
    "hrows p1 = (hrows (rv_hashes r))(?id i \<mapsto> piece_hash_row (Id ob) (rv_ReplicateIdx t) (of_nat i) (re_hash env x))" by blast
  obtain s1 where s1: "store_piece env ob ?t x (rv_pieceStore r) (rv_hashes r) = Returns (None, s1, p1)" "store_ok s1"
    "store_content s1 = (store_content (rv_pieceStore r))(index_key ob t i \<mapsto> x)"
    using store_piece_run [OF assms(3) Cons.prems(2), of x ?t "rv_hashes r" ob p1] t p1(1) by auto
  let ?r = "r\<lparr>rv_pieceStore := s1, rv_hashes := p1\<rparr>"
  have step: "receiver_HandleReceivePieceTask env now now now (Some ?t) x r = Returns (None, ReceivePieceTask ?t, ?r)"
    by (rule receive_run [OF t(1) Cons.prems(1) s1(1)])
  have ne: "?id (Suc i + j) \<noteq> ?id i" "index_key ob t (Suc i + j) \<noteq> index_key ob t i" if "j < length xs" for j
    using that Cons.prems(3) of_nat_32_eq [of "Suc i + j" i] index_key_eq [of "Suc i + j" i] by (simp_all del: of_nat_Suc of_nat_add)
  have "hrows (rv_hashes ?r) (?id (Suc i + j)) = None" if "j < length xs" for j
    using ne(1) [OF that] Cons.prems(4) [of "Suc j"] that p1(2) by simp
  then obtain s p where IH: "receive_all env now t (Suc i) xs ?r = Returns (replicate (length xs) None, ?r\<lparr>rv_pieceStore := s, rv_hashes := p\<rparr>)"
    "store_ok s"
    "\<forall>j < length xs. store_content s (index_key ob t (Suc i + j)) = Some (xs ! j)
         \<and> hrows p (?id (Suc i + j)) = Some (piece_hash_row (Id ob) (rv_ReplicateIdx t) (of_nat (Suc i + j)) (re_hash env (xs ! j)))"
    "\<forall>k. (\<forall>j < length xs. k \<noteq> index_key ob t (Suc i + j)) \<longrightarrow> store_content s k = store_content (rv_pieceStore ?r) k"
    "\<forall>k. (\<forall>j < length xs. k \<noteq> ?id (Suc i + j)) \<longrightarrow> hrows p k = hrows (rv_hashes ?r) k"
    using Cons.IH [of ?r "Suc i"] Cons.prems(1,3) s1(2) by auto
  have hd: "store_content s (index_key ob t i) = Some x"
    "hrows p (?id i) = Some (piece_hash_row (Id ob) (rv_ReplicateIdx t) (of_nat i) (re_hash env x))"
    using IH(4) [THEN spec, of "index_key ob t i"] IH(5) [THEN spec, of "?id i"] ne [THEN not_sym] s1(3) p1(2) by auto
  have frame: "\<forall>k. (\<forall>j < length (x # xs). k \<noteq> index_key ob t (i + j)) \<longrightarrow> store_content s k = store_content (rv_pieceStore r) k"
    "\<forall>k. (\<forall>j < length (x # xs). k \<noteq> ?id (i + j)) \<longrightarrow> hrows p k = hrows (rv_hashes r) k"
    using IH(4,5) s1(3) p1(2) by (simp_all add: All_less_Suc2 del: of_nat_Suc of_nat_add split_paired_All)
  have "receive_all env now t i (x # xs) r = Returns (replicate (length (x # xs)) None, r\<lparr>rv_pieceStore := s, rv_hashes := p\<rparr>)"
    using step IH(1) by simp
  moreover have "\<forall>j < length (x # xs). store_content s (index_key ob t (i + j)) = Some ((x # xs) ! j)
      \<and> hrows p (?id (i + j)) = Some (piece_hash_row (Id ob) (rv_ReplicateIdx t) (of_nat (i + j)) (re_hash env ((x # xs) ! j)))"
    using hd IH(3) by (simp add: All_less_Suc2 del: of_nat_Suc of_nat_add)
  ultimately show ?case using IH(2) frame by blast
qed

section \<open>The end of a replication\<close>

lemma finish_receive_run:
  assumes tables: "piece_hash_table (re_hashes env) hrows" "integrity_table (re_integrity env) irows"
    and obj: "Id ob \<noteq> 0" "irows (rv_integrity r) (Id ob) = None" "\<And>b. re_hash env b \<noteq> []" "unat n = length xs"
    and rows: "\<And>j. j < length xs \<Longrightarrow> hrows (rv_hashes r) (Id ob, rv_ReplicateIdx t, of_nat j)
        = Some (piece_hash_row (Id ob) (rv_ReplicateIdx t) (of_nat j) (re_hash env (xs ! j)))"
    and signed: "re_sign env (Id ob) (map (re_hash env) xs) = Inr (sig, integrity)"
  shows "\<exists>t' i p. finish_receive env ob t n r = (Inr (integrity, sig), t',
      r\<lparr>rv_integrity := i, rv_hashes := p, rv_reported := rv_reported r @ [SetError None (ReceivePieceTask t)]\<rparr>)
    \<and> GetObjectIntegrity (re_integrity env) i (Id ob) = Inr \<lparr>im_ObjectID = Id ob, im_IntegrityChecksum = integrity,
        im_PieceChecksumList = map (re_hash env) xs, im_Signature = sig\<rparr>
    \<and> hrows p = (\<lambda>k. if k \<in> (\<lambda>j. (Id ob, rv_ReplicateIdx t, of_nat j)) ` {0..<length xs} then None else hrows (rv_hashes r) k)"
proof -
  let ?meta = "\<lparr>im_ObjectID = Id ob, im_IntegrityChecksum = integrity, im_PieceChecksumList = map (re_hash env) xs, im_Signature = sig\<rparr>"
  have "map (\<lambda>j. re_hash env (xs ! j)) [0..<length xs] = map (re_hash env) xs" by (rule nth_equalityI) simp_all
  then have all: "GetAllReplicatePieceChecksum (re_hashes env) (rv_hashes r) (Id ob) (rv_ReplicateIdx t) n = Inr (map (re_hash env) xs)"
    using piece_hash_table.get_checksums_rows [OF tables(1), of "[0..<length xs]" "rv_hashes r" "Id ob" "rv_ReplicateIdx t" "\<lambda>j. re_hash env (xs ! j)"]
      rows obj(4) by (simp add: GetAllReplicatePieceChecksum_def)
  obtain i where i: "SetObjectIntegrity (re_integrity env) (rv_integrity r) ?meta = (None, i)"
    "irows i = (irows (rv_integrity r))(Id ob \<mapsto> integrity_row ?meta)"
    using integrity_table.Set_new [OF tables(2), of "rv_integrity r" ?meta] obj(2) by auto
  have get: "GetObjectIntegrity (re_integrity env) i (Id ob) = Inr ?meta"
    by (rule integrity_table.Get_row [OF tables(2)]) (simp_all add: i(2) obj(3))
  obtain p where p: "DeleteAllReplicatePieceChecksum (re_hashes env) (rv_hashes r) (Id ob) (rv_ReplicateIdx t) n = (None, p)"
    "hrows p = (\<lambda>k. if k \<in> (\<lambda>j. (Id ob, rv_ReplicateIdx t, of_nat j)) ` {0..<length xs} then None else hrows (rv_hashes r) k)"
    using piece_hash_table.delete_checksums_rows [OF tables(1) obj(1), of "rv_hashes r" "rv_ReplicateIdx t" "[0..<length xs]"] obj(4)
    by (auto simp: DeleteAllReplicatePieceChecksum_def)
  have "int (length xs) = uint n" using obj(4) by (simp add: uint_nat del: of_nat_unat)
  then have run: "finish_receive env ob t n r = (Inr (integrity, sig), with_error (re_report env (SetError None (ReceivePieceTask t))) (SetError None (ReceivePieceTask t)),
      r\<lparr>rv_integrity := i, rv_hashes := p, rv_reported := rv_reported r @ [SetError None (ReceivePieceTask t)]\<rparr>)"
    by (simp add: finish_receive_def all signed i(1) p(1) Let_def)
  show ?thesis by (rule exI, rule exI [of _ i], rule exI [of _ p], rule conjI [OF run]) (simp add: get p(2))
qed

text \<open>
  C35. A replica that arrives completely is recorded as it is stored: when the pieces of a new
  replica are received one after the other, each with its own checksum, and the replication is then
  finished, every call succeeds, every piece is in the piece store under its key, the integrity
  record of the object holds the checksums of exactly these pieces with the signed hash, which is
  also the answer, no checksum of a single piece is left over, and the manager gets one report.
\<close>

theorem receive_then_done:
  assumes task: "rv_ObjectInfo t = Some ob" "rv_StorageParams t = Some params"
    "SegmentPieceCount (PayloadSize ob) (MaxSegmentSize params) = Returns n" "unat n = length xs"
    and state: "idle (rv_receiveQueue r)" "store_ok (rv_pieceStore r)" "re_put env = PutPiece t0"
    and tables: "piece_hash_table (re_hashes env) hrows" "integrity_table (re_integrity env) irows"
    and obj: "Id ob \<noteq> 0" "irows (rv_integrity r) (Id ob) = None" "\<And>i. hrows (rv_hashes r) (Id ob, rv_ReplicateIdx t, i) = None"
    and signed: "\<And>b. re_hash env b \<noteq> []" "re_sign env (Id ob) (map (re_hash env) xs) = Inr (sig, integrity)"
  shows "\<exists>r1 t' r2. receive_all env now t 0 xs r = Returns (replicate (length xs) None, r1)
    \<and> HandleDoneReceivePieceTask env n1 n2 (Some t) r1 = Returns (Inr (integrity, sig), t', r2)
    \<and> list_all (\<lambda>i. store_content (rv_pieceStore r2) (index_key ob t i) = Some (xs ! i)) [0..<length xs]
    \<and> GetObjectIntegrity (re_integrity env) (rv_integrity r2) (Id ob) = Inr \<lparr>im_ObjectID = Id ob, im_IntegrityChecksum = integrity,
        im_PieceChecksumList = map (re_hash env) xs, im_Signature = sig\<rparr>
    \<and> (\<forall>i. hrows (rv_hashes r2) (Id ob, rv_ReplicateIdx t, i) = None)
    \<and> rv_reported r2 = rv_reported r @ [SetError None (ReceivePieceTask t)]"
proof -
  have len: "0 + length xs \<le> 2 ^ 32" using task(4) unat_lt_32 [of n] by simp
  obtain s p where r1: "receive_all env now t 0 xs r = Returns (replicate (length xs) None, r\<lparr>rv_pieceStore := s, rv_hashes := p\<rparr>)"
    "\<forall>j < length xs. store_content s (index_key ob t (0 + j)) = Some (xs ! j)
       \<and> hrows p (Id ob, rv_ReplicateIdx t, of_nat (0 + j)) = Some (piece_hash_row (Id ob) (rv_ReplicateIdx t) (of_nat (0 + j)) (re_hash env (xs ! j)))"
    "\<forall>k. (\<forall>j < length xs. k \<noteq> (Id ob, rv_ReplicateIdx t, of_nat (0 + j))) \<longrightarrow> hrows p k = hrows (rv_hashes r) k"
    using receive_all_stores [OF task(1) state(1,3,2) tables(1) len, of now] obj(3) by blast
  let ?r1 = "r\<lparr>rv_pieceStore := s, rv_hashes := p\<rparr>"
  obtain t' i p' where fin: "finish_receive env ob t n ?r1 = (Inr (integrity, sig), t',
      ?r1\<lparr>rv_integrity := i, rv_hashes := p', rv_reported := rv_reported ?r1 @ [SetError None (ReceivePieceTask t)]\<rparr>)"
    "GetObjectIntegrity (re_integrity env) i (Id ob) = Inr \<lparr>im_ObjectID = Id ob, im_IntegrityChecksum = integrity,
        im_PieceChecksumList = map (re_hash env) xs, im_Signature = sig\<rparr>"
    "hrows p' = (\<lambda>k. if k \<in> (\<lambda>j. (Id ob, rv_ReplicateIdx t, of_nat j)) ` {0..<length xs} then None else hrows (rv_hashes ?r1) k)"
    using finish_receive_run [OF tables obj(1) _ signed(1) task(4) _ signed(2), of ?r1 t] obj(2) r1(2) by auto
  have left: "hrows p' (Id ob, rv_ReplicateIdx t, k) = None" for k
  proof (cases "(Id ob, rv_ReplicateIdx t, k) \<in> (\<lambda>j. (Id ob, rv_ReplicateIdx t, of_nat j)) ` {0..<length xs}")
    case False
    then have "hrows p (Id ob, rv_ReplicateIdx t, k) = None"
      using r1(3) [THEN spec, of "(Id ob, rv_ReplicateIdx t, k)"] obj(3) by (auto simp: image_iff)
    then show ?thesis using False fin(3) by simp
  qed (simp add: fin(3))
  define r2 where "r2 = ?r1\<lparr>rv_integrity := i, rv_hashes := p', rv_reported := rv_reported r @ [SetError None (ReceivePieceTask t)]\<rparr>"
  have "HandleDoneReceivePieceTask env n1 n2 (Some t) ?r1 = Returns (Inr (integrity, sig), t', r2)"
    using idle_queue [OF state(1)] fin(1)
    by (cases r) (simp add: HandleDoneReceivePieceTask_def task Let_def r2_def del: Key.simps)
  then show ?thesis using r1(1,2) fin(2) left by (intro exI [of _ ?r1] exI [of _ t'] exI [of _ r2]) (simp add: r2_def list_all_iff)
qed

theorem receive_then_done_witness:
  "\<exists>r1 t' r2. receive_all memory_receive_env 1 demo_receive_task 0 [[1, 2], [3, 4], [5]] demo_receiver = Returns ([None, None, None], r1)
    \<and> HandleDoneReceivePieceTask memory_receive_env 2 3 (Some demo_receive_task) r1 = Returns (Inr ([2, 2, 1], [1]), t', r2)
    \<and> store_content (rv_pieceStore r2) ''e7_s2_p1'' = Some [5]"
proof -
  have count: "SegmentPieceCount (PayloadSize demo_upload_object) (MaxSegmentSize demo_upload_params) = Returns 3" by code_simp
  have "index_key demo_upload_object demo_receive_task (Suc (Suc 0)) = ''e7_s2_p1''" by code_simp
  then show ?thesis
    using receive_then_done [OF demo_receive_facts(1,2) count _ demo_receive_facts(3-7), of "[[1, 2], [3, 4], [5]]" "[1]" "[2, 2, 1]" 1 2 3]
    by (simp add: demo_upload_facts(1) upt_rec) (auto simp: memory_receive_env_def demo_receiver_def DefaultReceiverOptions_def)
qed

end
