(* ===== verification/Approver.thy ===== *)
theory Approver
  imports TQueue
begin

text \<open>
  The approver module: \<open>modular/approver/approve_task.go\<close>, \<open>approver.go\<close> and
  \<open>approver_options.go\<close>. An approval to create a bucket or an object is signed with an expiry
  height and kept in a queue, from which repeated requests are answered until it has been there for
  forty seconds. The number of buckets of an account and the signers are arguments; every queue
  operation of a call has its own clock, because the retire strategy reads it each time. A task is
  \<open>None\<close> for a nil pointer. A handler returns its answer, the task as the call leaves it and the new
  state. Metrics and log lines, and what evaluating their arguments does, are not modelled.
\<close>

section \<open>State\<close>

record ApprovalModular =
  ap_bucketQueue :: "unit tqueue"
  ap_objectQueue :: "unit tqueue"
  ap_currentBlockHeight :: uint64
  ap_accountBucketNumber :: int64
  ap_bucketApprovalTimeoutHeight :: uint64
  ap_objectApprovalTimeoutHeight :: uint64

record approval_env =
  ae_buckets :: "string \<Rightarrow> go_error + int64"
  ae_sign_bucket :: "MsgCreateBucket \<Rightarrow> go_error + bytes"
  ae_sign_object :: "MsgCreateObject \<Rightarrow> go_error + bytes"

definition ErrApprovalDangling :: go_error where "ErrApprovalDangling = GfSpErr (registered (approver_errors ! 0))"
definition ErrExceedBucketNumber :: go_error where "ErrExceedBucketNumber = GfSpErr (registered (approver_errors ! 1))"
definition ErrSigner :: go_error where "ErrSigner = GfSpErr (registered (approver_errors ! 2))"

definition DefaultApprovalExpiredTimeout :: int64 where "DefaultApprovalExpiredTimeout = 2 * 20"

definition DefaultApprovalOptions :: "int64 \<Rightarrow> uint64 \<Rightarrow> uint64 \<Rightarrow> go_int \<Rightarrow> go_int \<Rightarrow> ApprovalModular" where
  "DefaultApprovalOptions accountBuckets bucketTimeout objectTimeout bucketParallel objectParallel =
     \<lparr>ap_bucketQueue = NewGfSpTQueue ''approver-create-bucket-approval'' (if bucketParallel = 0 then 10240 else bucketParallel),
      ap_objectQueue = NewGfSpTQueue ''approver-create-object-approval'' (if objectParallel = 0 then 10240 else objectParallel),
      ap_currentBlockHeight = 0,
      ap_accountBucketNumber = (if accountBuckets = 0 then 100 else accountBuckets),
      ap_bucketApprovalTimeoutHeight = (if bucketTimeout = 0 then 100 else bucketTimeout),
      ap_objectApprovalTimeoutHeight = (if objectTimeout = 0 then 100 else objectTimeout)\<rparr>"

definition GCApprovalQueue :: "unit strategy" where
  "GCApprovalQueue now task = (i64 (GetCreateTime task + DefaultApprovalExpiredTimeout) < now, task, [])"

definition approver_Start :: "ApprovalModular \<Rightarrow> ApprovalModular" where
  "approver_Start a = a\<lparr>ap_bucketQueue := SetRetireTaskStrategy GCApprovalQueue (ap_bucketQueue a),
     ap_objectQueue := SetRetireTaskStrategy GCApprovalQueue (ap_objectQueue a)\<rparr>"

definition SetCurrentBlockHeight :: "uint64 \<Rightarrow> ApprovalModular \<Rightarrow> ApprovalModular" where
  "SetCurrentBlockHeight height a =
     (if height \<le> ap_currentBlockHeight a then a else a\<lparr>ap_currentBlockHeight := height\<rparr>)"

text \<open>A tick of the event loop: the height is set also after an error, to the value beside it.\<close>

definition approver_tick :: "go_error option \<times> uint64 \<Rightarrow> ApprovalModular \<Rightarrow> ApprovalModular" where
  "approver_tick answer a = SetCurrentBlockHeight (snd answer) a"

section \<open>Approvals to create a bucket\<close>

definition HandleCreateBucketApprovalTask :: "approval_env \<Rightarrow> int64 \<Rightarrow> int64 \<Rightarrow> int64 \<Rightarrow> GfSpCreateBucketApprovalTask option \<Rightarrow> ApprovalModular
    \<Rightarrow> ((bool \<times> go_error option) \<times> Task option \<times> ApprovalModular) go" where
  "HandleCreateBucketApprovalTask env n1 n2 n3 task a =
     (case task of
        None \<Rightarrow> Returns ((False, Some ErrApprovalDangling), None, a)
      | Some t \<Rightarrow>
          let bt = CreateBucketApprovalTask t in
          case cb_CreateBucketInfo t of
            None \<Rightarrow> Returns ((False, Some ErrApprovalDangling), Some bt, a)
          | Some info \<Rightarrow>
              (case Has n1 (ap_bucketQueue a) (Key bt) of
                 (True, q) \<Rightarrow>
                   (case PopByKey n2 q (Key bt) of
                      (Some (CreateBucketApprovalTask sh), q) \<Rightarrow>
                        Returns ((True, None), Some (CreateBucketApprovalTask (t\<lparr>cb_CreateBucketInfo := cb_CreateBucketInfo sh\<rparr>)),
                          a\<lparr>ap_bucketQueue := snd (Push n3 q (CreateBucketApprovalTask sh))\<rparr>)
                    | (_, q) \<Rightarrow> Panics)
               | (False, q) \<Rightarrow>
                   let a = a\<lparr>ap_bucketQueue := q\<rparr> in
                   (case ae_buckets env (mcb_Creator info) of
                      Inl err \<Rightarrow> Returns ((False, Some err), Some (SetError (Some err) bt), a)
                    | Inr buckets \<Rightarrow>
                        if buckets \<ge> ap_accountBucketNumber a
                        then Returns ((False, Some ErrExceedBucketNumber), Some (SetError (Some ErrExceedBucketNumber) bt), a)
                        else case mcb_PrimarySpApproval info of
                          None \<Rightarrow> Panics
                        | Some appr \<Rightarrow>
                            let appr = appr\<lparr>ExpiredHeight := ap_currentBlockHeight a + ap_bucketApprovalTimeoutHeight a\<rparr>;
                                info = info\<lparr>mcb_PrimarySpApproval := Some appr\<rparr>
                            in case ae_sign_bucket env info of
                                 Inl err \<Rightarrow> Returns ((False, Some ErrSigner),
                                   Some (SetError (Some err) (CreateBucketApprovalTask (t\<lparr>cb_CreateBucketInfo := Some info\<rparr>))), a)
                               | Inr signature \<Rightarrow>
                                   let bt = CreateBucketApprovalTask (t\<lparr>cb_CreateBucketInfo :=
                                         Some (info\<lparr>mcb_PrimarySpApproval := Some (appr\<lparr>Sig := signature\<rparr>)\<rparr>)\<rparr>)
                                   in Returns ((True, None), Some bt, a\<lparr>ap_bucketQueue := snd (Push n3 (ap_bucketQueue a) bt)\<rparr>))))"

section \<open>Approvals to create an object\<close>

definition HandleCreateObjectApprovalTask :: "approval_env \<Rightarrow> int64 \<Rightarrow> int64 \<Rightarrow> int64 \<Rightarrow> GfSpCreateObjectApprovalTask option \<Rightarrow> ApprovalModular
    \<Rightarrow> ((bool \<times> go_error option) \<times> Task option \<times> ApprovalModular) go" where
  "HandleCreateObjectApprovalTask env n1 n2 n3 task a =
     (case task of
        None \<Rightarrow> Returns ((False, Some ErrApprovalDangling), None, a)
      | Some t \<Rightarrow>
          let ot = CreateObjectApprovalTask t in
          case co_CreateObjectInfo t of
            None \<Rightarrow> Returns ((False, Some ErrApprovalDangling), Some ot, a)
          | Some info \<Rightarrow>
              (case Has n1 (ap_objectQueue a) (Key ot) of
                 (True, q) \<Rightarrow>
                   (case PopByKey n2 q (Key ot) of
                      (Some (CreateObjectApprovalTask sh), q) \<Rightarrow>
                        Returns ((True, None), Some (CreateObjectApprovalTask (t\<lparr>co_CreateObjectInfo := co_CreateObjectInfo sh\<rparr>)),
                          a\<lparr>ap_objectQueue := snd (Push n3 q (CreateObjectApprovalTask sh))\<rparr>)
                    | (_, q) \<Rightarrow> Panics)
               | (False, q) \<Rightarrow>
                   let a = a\<lparr>ap_objectQueue := q\<rparr> in
                   (case mco_PrimarySpApproval info of
                      None \<Rightarrow> Panics
                    | Some appr \<Rightarrow>
                        let appr = appr\<lparr>ExpiredHeight := ap_currentBlockHeight a + ap_objectApprovalTimeoutHeight a\<rparr>;
                            info = info\<lparr>mco_PrimarySpApproval := Some appr\<rparr>
                        in case ae_sign_object env info of
                             Inl err \<Rightarrow> Returns ((False, Some err),
                               Some (SetError (Some err) (CreateObjectApprovalTask (t\<lparr>co_CreateObjectInfo := Some info\<rparr>))), a)
                           | Inr signature \<Rightarrow>
                               let ot = CreateObjectApprovalTask (t\<lparr>co_CreateObjectInfo :=
                                     Some (info\<lparr>mco_PrimarySpApproval := Some (appr\<lparr>Sig := signature\<rparr>)\<rparr>)\<rparr>)
                               in Returns ((True, None), Some ot, a\<lparr>ap_objectQueue := snd (Push n3 (ap_objectQueue a) ot)\<rparr>))))"

definition approver_QueryTasks :: "ApprovalModular \<Rightarrow> string \<Rightarrow> Task list" where
  "approver_QueryTasks a subKey = ScanTQueueBySubKey (ap_bucketQueue a) subKey @ ScanTQueueBySubKey (ap_objectQueue a) subKey"

section \<open>Asking the queue\<close>

definition approval_expired :: "int64 \<Rightarrow> Task \<Rightarrow> bool" where
  "approval_expired now t \<longleftrightarrow> i64 (GetCreateTime t + DefaultApprovalExpiredTimeout) < now"

fun is_bucket_approval :: "Task \<Rightarrow> bool" where
  "is_bucket_approval (CreateBucketApprovalTask t) = True"
| "is_bucket_approval _ = False"

fun is_object_approval :: "Task \<Rightarrow> bool" where
  "is_object_approval (CreateObjectApprovalTask t) = True"
| "is_object_approval _ = False"

interpretation bucket_approvals: retire_strategy GCApprovalQueue is_bucket_approval
  by unfold_locales (auto simp: GCApprovalQueue_def)

interpretation object_approvals: retire_strategy GCApprovalQueue is_object_approval
  by unfold_locales (auto simp: GCApprovalQueue_def)

definition live :: "int64 \<Rightarrow> 'e tqueue \<Rightarrow> string \<Rightarrow> bool" where
  "live now q k \<longleftrightarrow> (case lookup q k of None \<Rightarrow> False | Some t \<Rightarrow> \<not> approval_expired now t)"

definition approval_queue :: "unit tqueue \<Rightarrow> bool" where
  "approval_queue q \<longleftrightarrow> gcFunc q = Some GCApprovalQueue \<and> wf_queue is_bucket_approval q"

lemma age_live: "age GCApprovalQueue now k m k = (case m k of None \<Rightarrow> None | Some t \<Rightarrow> if approval_expired now t then None else Some t)"
  by (auto simp: age_def GCApprovalQueue_def approval_expired_def split: option.splits)

lemma has_approval:
  assumes "approval_queue q"
  obtains q' where "Has now q k = (live now q k, q')" "approval_queue q'" "live now q k \<Longrightarrow> lookup q' k = lookup q k"
proof -
  have "gc_of q = GCApprovalQueue" "wf_queue is_bucket_approval q" using assms by (simp_all add: approval_queue_def gc_of_def)
  then obtain q' where q': "tq_has now q k = (lookup q' k \<noteq> None, q')" "wf_queue is_bucket_approval q'" "same_setup q q'"
    "lookup q' = age GCApprovalQueue now k (lookup q)"
    by (rule bucket_approvals.has_spec)
  show thesis
    using q' assms by (intro that [of q']) (auto simp: Has_def live_def age_live approval_queue_def same_setup_def split: option.splits if_splits)
qed

lemma pop_approval:
  assumes "approval_queue q"
  shows "fst (PopByKey now q k) = (if live now q k then lookup q k else None)"
proof -
  have "gc_of q = GCApprovalQueue" "wf_queue is_bucket_approval q" using assms by (simp_all add: approval_queue_def gc_of_def)
  then obtain q' where "PopByKey now q k = (age GCApprovalQueue now k (lookup q) k, q')"
    by (rule bucket_approvals.PopByKey_spec)
  then show ?thesis by (simp add: live_def age_live split: option.splits)
qed

lemma lookup_bucket_approval:
  assumes "approval_queue q" "lookup q k = Some t"
  obtains sh where "t = CreateBucketApprovalTask sh"
  using wf_queueD [of is_bucket_approval q k t] assms by (cases t) (auto simp: approval_queue_def)

text \<open>A started approver and a request, for concrete runs.\<close>

definition demo_approver :: ApprovalModular where
  "demo_approver = SetCurrentBlockHeight 50 (approver_Start (DefaultApprovalOptions 0 0 0 0 0))"

definition demo_approval_env :: approval_env where
  "demo_approval_env = \<lparr>ae_buckets = (\<lambda>owner. Inr 3), ae_sign_bucket = (\<lambda>m. Inr [9]), ae_sign_object = (\<lambda>m. Inr [9])\<rparr>"

definition demo_bucket_task :: GfSpCreateBucketApprovalTask where
  "demo_bucket_task = \<lparr>cb_Task = new_task\<lparr>CreateTime := 100\<rparr>, cb_CreateBucketInfo = Some \<lparr>mcb_Creator = ''0x1'', mcb_BucketName = ''bucket'',
     mcb_Visibility = 1, mcb_PrimarySpApproval = Some \<lparr>ExpiredHeight = 0, Sig = []\<rparr>\<rparr>\<rparr>"

definition waiting_approver :: ApprovalModular where
  "waiting_approver = demo_approver\<lparr>ap_bucketQueue := (ap_bucketQueue demo_approver)\<lparr>tasks :=
     [(Key (CreateBucketApprovalTask demo_bucket_task), CreateBucketApprovalTask demo_bucket_task)]\<rparr>\<rparr>"

lemma demo_approver_queues: "approval_queue (ap_bucketQueue demo_approver)" "approval_queue (ap_bucketQueue waiting_approver)"
  by (simp_all add: approval_queue_def demo_approver_def waiting_approver_def SetCurrentBlockHeight_def approver_Start_def
      DefaultApprovalOptions_def SetRetireTaskStrategy_def NewGfSpTQueue_def wf_queue_def del: Key.simps)

section \<open>What is granted\<close>

text \<open>
  A granted approval is a live one or a new one: when the request for a bucket is granted, no error
  is returned and the answer is either the approval for the same key that is in the queue and is
  not older than the timeout, or one that the signer signed for this request just now, with the
  current height plus the timeout height as its expiry, for an account below its bucket limit,
  and then no live approval of the key was in the queue.
\<close>

theorem approval_granted:
  assumes "HandleCreateBucketApprovalTask env n1 n2 n3 (Some t) a = Returns ((True, err), Some t', a')"
    "approval_queue (ap_bucketQueue a)"
  shows "err = None \<and>
    ((\<exists>sh. lookup (ap_bucketQueue a) (Key (CreateBucketApprovalTask t)) = Some (CreateBucketApprovalTask sh)
        \<and> \<not> approval_expired n1 (CreateBucketApprovalTask sh) \<and> \<not> approval_expired n2 (CreateBucketApprovalTask sh)
        \<and> t' = CreateBucketApprovalTask (t\<lparr>cb_CreateBucketInfo := cb_CreateBucketInfo sh\<rparr>))
     \<or> (\<exists>info appr buckets sig info'. \<not> live n1 (ap_bucketQueue a) (Key (CreateBucketApprovalTask t))
        \<and> cb_CreateBucketInfo t = Some info \<and> mcb_PrimarySpApproval info = Some appr
        \<and> ae_buckets env (mcb_Creator info) = Inr buckets \<and> buckets < ap_accountBucketNumber a
        \<and> info' = info\<lparr>mcb_PrimarySpApproval := Some (appr\<lparr>ExpiredHeight := ap_currentBlockHeight a + ap_bucketApprovalTimeoutHeight a\<rparr>)\<rparr>
        \<and> ae_sign_bucket env info' = Inr sig
        \<and> t' = CreateBucketApprovalTask (t\<lparr>cb_CreateBucketInfo := Some (info'\<lparr>mcb_PrimarySpApproval :=
              Some (appr\<lparr>ExpiredHeight := ap_currentBlockHeight a + ap_bucketApprovalTimeoutHeight a, Sig := sig\<rparr>)\<rparr>)\<rparr>)))"
proof -
  let ?k = "Key (CreateBucketApprovalTask t)" and ?q = "ap_bucketQueue a"
  obtain q1 where q1: "Has n1 ?q ?k = (live n1 ?q ?k, q1)" "approval_queue q1" "live n1 ?q ?k \<Longrightarrow> lookup q1 ?k = lookup ?q ?k"
    using has_approval [OF assms(2)] by blast
  show ?thesis
  proof (cases "live n1 ?q ?k")
    case True
    have pop: "fst (PopByKey n2 q1 ?k) = (if live n2 q1 ?k then lookup q1 ?k else None)" by (rule pop_approval [OF q1(2)])
    then show ?thesis using assms(1) q1(1,3) True
      by (auto simp: HandleCreateBucketApprovalTask_def Let_def live_def simp del: Key.simps split: option.splits prod.splits Task.splits if_splits)
  next
    case False
    then show ?thesis using assms(1) q1(1)
      by (auto simp: HandleCreateBucketApprovalTask_def Let_def simp del: Key.simps split: option.splits sum.splits if_splits)
  qed
qed

theorem approval_granted_witness:
  "\<exists>err t' a'. HandleCreateBucketApprovalTask demo_approval_env 101 101 101 (Some demo_bucket_task) demo_approver
     = Returns ((True, err), Some t', a') \<and> err = None"
proof -
  have "case HandleCreateBucketApprovalTask demo_approval_env 101 101 101 (Some demo_bucket_task) demo_approver of
      Returns ((ok, err), t', a') \<Rightarrow> ok \<and> (case t' of Some _ \<Rightarrow> True | None \<Rightarrow> False) | Panics \<Rightarrow> False" by code_simp
  then obtain err t' a' where run: "HandleCreateBucketApprovalTask demo_approval_env 101 101 101 (Some demo_bucket_task) demo_approver
      = Returns ((True, err), Some t', a')" by (auto split: go.splits prod.splits option.splits)
  then show ?thesis using approval_granted [OF run demo_approver_queues(1)] by blast
qed

text \<open>
  A repeated request can crash the provider: when the approval of the key is still live as the
  handler asks whether the queue has it and expires before the handler takes it out, the take returns
  nothing and the handler panics on the conversion of a nil task.
\<close>

theorem approval_expiry_race_panics:
  assumes "approval_queue (ap_bucketQueue a)" "cb_CreateBucketInfo t = Some info"
    "lookup (ap_bucketQueue a) (Key (CreateBucketApprovalTask t)) = Some sh"
    "\<not> approval_expired n1 sh" "approval_expired n2 sh"
  shows "HandleCreateBucketApprovalTask env n1 n2 n3 (Some t) a = Panics"
proof -
  let ?k = "Key (CreateBucketApprovalTask t)" and ?q = "ap_bucketQueue a"
  have live: "live n1 ?q ?k" using assms(3,4) by (simp add: live_def del: Key.simps)
  obtain q1 where q1: "Has n1 ?q ?k = (live n1 ?q ?k, q1)" "approval_queue q1" "lookup q1 ?k = Some sh"
    using has_approval [OF assms(1)] live assms(3) by metis
  then have "fst (PopByKey n2 q1 ?k) = None" using pop_approval [OF q1(2), of n2 ?k] assms(5) by (simp add: live_def del: Key.simps)
  then show ?thesis using q1(1) live assms(2)
    by (auto simp: HandleCreateBucketApprovalTask_def Let_def simp del: Key.simps split: prod.splits)
qed

theorem approval_expiry_race_panics_witness:
  "HandleCreateBucketApprovalTask demo_approval_env 140 141 141 (Some demo_bucket_task) waiting_approver = Panics"
proof -
  have info: "\<exists>info. cb_CreateBucketInfo demo_bucket_task = Some info" by (simp add: demo_bucket_task_def)
  have entry: "lookup (ap_bucketQueue waiting_approver) (Key (CreateBucketApprovalTask demo_bucket_task)) = Some (CreateBucketApprovalTask demo_bucket_task)"
    by (simp add: waiting_approver_def lookup_def del: Key.simps)
  have "\<not> approval_expired 140 (CreateBucketApprovalTask demo_bucket_task)" "approval_expired 141 (CreateBucketApprovalTask demo_bucket_task)"
    by code_simp+
  with info entry show ?thesis using approval_expiry_race_panics [OF demo_approver_queues(2)] by blast
qed

end
