(* ===== verification/Executor.thy ===== *)
theory Executor
  imports ManageServer Uploader
begin

text \<open>
  The task executor, first part: the state and the surroundings of \<open>modular/executor/executor.go\<close>,
  the options of \<open>executor_options.go\<close>, the calls of \<open>base/gfspclient/manager.go\<close> that the
  executor makes, and from \<open>execute_task.go\<close> sealing an object and confirming a received replica.

  Everything outside the process (the chain, the signer, other providers, the metadata service, the
  manager behind gRPC, the clock) is one world of type \<open>'w\<close>: a call takes the world and returns
  its answer with the next world, so that repeated calls may answer differently. The answers are
  the arguments \<open>execute_env\<close>. The piece store and the integrity table belong to the process. The
  event rows that \<open>InsertUploadEvent\<close> writes are logged with the object and the state of the
  upload, without their text. Sleeping, metrics and log lines are not modelled.
\<close>

section \<open>State and surroundings\<close>

record MsgSealObject =
  mso_Operator :: string
  mso_BucketName :: string
  mso_ObjectName :: string
  mso_SecondarySpAddresses :: "string list"
  mso_SecondarySpSignatures :: "bytes list"

record StorageProvider =
  sp_OperatorAddress :: string
  sp_ApprovalAddress :: string
  sp_Endpoint :: string

text \<open>An object of the metadata service.\<close>

record MetadataObject =
  md_ObjectInfo :: "ObjectInfo option"
  md_DeleteAt :: int64

record ('w, 'i) ExecuteModular =
  ex_maxExecuteNum :: int64
  ex_executingNum :: int64
  ex_askTaskInterval :: go_int
  ex_askReplicateApprovalTimeout :: int64
  ex_askReplicateApprovalExFactor :: "nat \<times> nat"
  ex_listenSealTimeoutHeight :: go_int
  ex_listenSealRetryTimeout :: go_int
  ex_maxListenSealRetry :: go_int
  ex_doingReplicatePieceTaskCnt :: int64
  ex_doingSpSealObjectTaskCnt :: int64
  ex_doingReceivePieceTaskCnt :: int64
  ex_doingGCObjectTaskCnt :: int64
  ex_doingGCZombiePieceTaskCnt :: int64
  ex_doingGCGCMetaTaskCnt :: int64
  ex_doingRecoveryPieceTaskCnt :: int64
  ex_world :: 'w
  ex_pieceStore :: ObjectStorage
  ex_integrity :: 'i
  ex_events :: "(uint64 \<times> string) list"

record ('w, 'i) execute_env =
  xe_operator :: string
  xe_now :: "'w \<Rightarrow> int64"
  xe_hash :: "bytes \<Rightarrow> bytes"
  xe_integrity :: "('i, uint64, IntegrityMetaTable) gorm_table"
  xe_manager_conn :: "'w \<Rightarrow> bool \<times> 'w"
  xe_rpc_report :: "Task \<Rightarrow> 'w \<Rightarrow> (unit + GfSpError option) \<times> 'w"
  xe_rpc_ask :: "Limit \<Rightarrow> 'w \<Rightarrow> (unit + (GfSpError + Task option)) \<times> 'w"
  xe_SealObject :: "MsgSealObject \<Rightarrow> 'w \<Rightarrow> go_error option \<times> 'w"
  xe_ListenObjectSeal :: "uint64 \<Rightarrow> go_int \<Rightarrow> 'w \<Rightarrow> (go_error + bool) \<times> 'w"
  xe_QueryObjectInfo :: "string \<Rightarrow> string \<Rightarrow> 'w \<Rightarrow> (go_error + ObjectInfo) \<times> 'w"
  xe_QueryBucketInfo :: "string \<Rightarrow> 'w \<Rightarrow> (go_error + BucketInfo) \<times> 'w"
  xe_QueryStorageParamsByTimestamp :: "int64 \<Rightarrow> 'w \<Rightarrow> (go_error + Params) \<times> 'w"
  xe_ListSPs :: "'w \<Rightarrow> (go_error + StorageProvider list) \<times> 'w"
  xe_ListDeletedObjects :: "uint64 \<Rightarrow> uint64 \<Rightarrow> 'w \<Rightarrow> (go_error + MetadataObject list \<times> uint64) \<times> 'w"
  xe_AskApproval :: "GfSpReplicatePieceApprovalTask \<Rightarrow> go_int \<Rightarrow> go_int \<Rightarrow> int64 \<Rightarrow> 'w
    \<Rightarrow> (go_error + GfSpReplicatePieceApprovalTask list) \<times> 'w"
  xe_GetSpByAddress :: "string \<Rightarrow> 'w \<Rightarrow> (go_error + StorageProvider) \<times> 'w"
  xe_SignReceiveTask :: "GfSpReceivePieceTask \<Rightarrow> 'w \<Rightarrow> (go_error + bytes) \<times> 'w"
  xe_ReplicatePiece :: "string \<Rightarrow> GfSpReplicatePieceApprovalTask \<Rightarrow> GfSpReceivePieceTask \<Rightarrow> bytes \<Rightarrow> 'w \<Rightarrow> go_error option \<times> 'w"
  xe_DoneReplicate :: "string \<Rightarrow> GfSpReplicatePieceApprovalTask \<Rightarrow> GfSpReceivePieceTask \<Rightarrow> 'w \<Rightarrow> (go_error + bytes \<times> bytes) \<times> 'w"
  xe_EncodeRawSegment :: "bytes \<Rightarrow> go_int \<Rightarrow> go_int \<Rightarrow> go_error + bytes list"
  xe_DecodeRawSegment :: "bytes option list \<Rightarrow> int64 \<Rightarrow> go_int \<Rightarrow> go_int \<Rightarrow> go_error + bytes"
  xe_AccAddress :: "string \<Rightarrow> go_error + bytes"
  xe_SignDoc :: "bytes \<Rightarrow> uint64 \<Rightarrow> bytes \<Rightarrow> bytes"
  xe_VerifySignature :: "bytes \<Rightarrow> bytes \<Rightarrow> bytes \<Rightarrow> go_error option"
  xe_SignRecoveryTask :: "GfSpRecoverPieceTask \<Rightarrow> 'w \<Rightarrow> (go_error + bytes) \<times> 'w"
  xe_GetPieceFromECChunks :: "string \<Rightarrow> GfSpRecoverPieceTask \<Rightarrow> 'w \<Rightarrow> (go_error + bytes) \<times> 'w"

definition ErrExecDangling :: go_error where "ErrExecDangling = GfSpErr (registered (executor_errors ! 0))"
definition ErrInsufficientApproval :: go_error where "ErrInsufficientApproval = GfSpErr (registered (executor_errors ! 1))"
definition ErrUnsealed :: go_error where "ErrUnsealed = GfSpErr (registered (executor_errors ! 2))"
definition ErrExhaustedApproval :: go_error where "ErrExhaustedApproval = GfSpErr (registered (executor_errors ! 3))"
definition ErrReplicaIntegrity :: go_error where "ErrReplicaIntegrity = GfSpErr (registered (executor_errors ! 4))"
definition ErrSecondaryMismatch :: go_error where "ErrSecondaryMismatch = GfSpErr (registered (executor_errors ! 5))"
definition ErrReplicateIdsOutOfBounds :: go_error where "ErrReplicateIdsOutOfBounds = GfSpErr (registered (executor_errors ! 6))"
definition ErrExecGfSpDB :: go_error where "ErrExecGfSpDB = GfSpErr (registered (executor_errors ! 7))"
definition ErrRecoveryRedundancyType :: go_error where "ErrRecoveryRedundancyType = GfSpErr (registered (executor_errors ! 8))"
definition ErrRecoveryPieceNotEnough :: go_error where "ErrRecoveryPieceNotEnough = GfSpErr (registered (executor_errors ! 9))"
definition ErrRecoveryDecode :: go_error where "ErrRecoveryDecode = GfSpErr (registered (executor_errors ! 10))"
definition ErrRecoveryPieceChecksum :: go_error where "ErrRecoveryPieceChecksum = GfSpErr (registered (executor_errors ! 12))"
definition ErrRecoveryPieceLength :: go_error where "ErrRecoveryPieceLength = GfSpErr (registered (executor_errors ! 13))"
definition ErrPrimaryNotFound :: go_error where "ErrPrimaryNotFound = GfSpErr (registered (executor_errors ! 14))"
definition ErrRecoveryPieceIndex :: go_error where "ErrRecoveryPieceIndex = GfSpErr (registered (executor_errors ! 15))"

text \<open>
  The options of the configuration; the factor, a finite \<open>float64\<close> of at least zero, is \<open>m / 2 ^ e\<close>
  for the pair of \<open>m\<close> and \<open>e\<close>.
\<close>

record ExecutorConfig =
  cf_MaxExecuteNumber :: int64
  cf_AskTaskInterval :: go_int
  cf_AskReplicateApprovalTimeout :: int64
  cf_AskReplicateApprovalExFactor :: "nat \<times> nat"
  cf_ListenSealTimeoutHeight :: go_int
  cf_ListenSealRetryTimeout :: go_int
  cf_MaxListenSealRetry :: go_int

definition DefaultExecutorOptions :: "ExecutorConfig \<Rightarrow> 'w \<Rightarrow> ObjectStorage \<Rightarrow> 'i \<Rightarrow> ('w, 'i) ExecuteModular" where
  "DefaultExecutorOptions cfg w s i =
     \<lparr>ex_maxExecuteNum = (if cf_MaxExecuteNumber cfg = 0 then 64 else cf_MaxExecuteNumber cfg),
      ex_executingNum = 0,
      ex_askTaskInterval = (if cf_AskTaskInterval cfg = 0 then 1 else cf_AskTaskInterval cfg),
      ex_askReplicateApprovalTimeout = (if cf_AskReplicateApprovalTimeout cfg = 0 then 10 else cf_AskReplicateApprovalTimeout cfg),
      ex_askReplicateApprovalExFactor =
        (if fst (cf_AskReplicateApprovalExFactor cfg) < 2 ^ snd (cf_AskReplicateApprovalExFactor cfg) then (1, 0)
         else cf_AskReplicateApprovalExFactor cfg),
      ex_listenSealTimeoutHeight = (if cf_ListenSealTimeoutHeight cfg = 0 then 10 else cf_ListenSealTimeoutHeight cfg),
      ex_listenSealRetryTimeout = (if cf_ListenSealRetryTimeout cfg = 0 then 2 else cf_ListenSealRetryTimeout cfg),
      ex_maxListenSealRetry = (if cf_MaxListenSealRetry cfg = 0 then 3 else cf_MaxListenSealRetry cfg),
      ex_doingReplicatePieceTaskCnt = 0, ex_doingSpSealObjectTaskCnt = 0, ex_doingReceivePieceTaskCnt = 0,
      ex_doingGCObjectTaskCnt = 0, ex_doingGCZombiePieceTaskCnt = 0, ex_doingGCGCMetaTaskCnt = 0,
      ex_doingRecoveryPieceTaskCnt = 0, ex_world = w, ex_pieceStore = s, ex_integrity = i, ex_events = []\<rparr>"

definition exec_event :: "uint64 \<Rightarrow> string \<Rightarrow> ('w, 'i) ExecuteModular \<Rightarrow> ('w, 'i) ExecuteModular" where
  "exec_event oid st e = e\<lparr>ex_events := ex_events e @ [(oid, st)]\<rparr>"

text \<open>A call to the outside.\<close>

definition outside :: "('w \<Rightarrow> 'a \<times> 'w) \<Rightarrow> ('w, 'i) ExecuteModular \<Rightarrow> 'a \<times> ('w, 'i) ExecuteModular" where
  "outside f e = (case f (ex_world e) of (a, w) \<Rightarrow> (a, e\<lparr>ex_world := w\<rparr>))"

section \<open>Talking to the manager\<close>

definition ErrRpcUnknown :: go_error where
  "ErrRpcUnknown = GfSpErr (registered (''GfSpClient'', StatusNotFound, 98001, ''server slipped away, try again later''))"
definition ErrTypeMismatch :: go_error where
  "ErrTypeMismatch = GfSpErr (registered (''GfSpClient'', StatusBadRequest, 98101, ''response type mismatch''))"

text \<open>
  The error value of a report. \<open>ReportTask\<close> returns a predefined error, or the error that the
  response carries without testing it for nil: a nil pointer in a non-nil interface is
  \<open>Decoded None\<close>. \<open>errors.Is\<close> compares pointers, and what gRPC decodes is a new object, never a
  predefined error.
\<close>

datatype report_error = Predefined go_error | Decoded "GfSpError option"

fun errors_Is :: "report_error option \<Rightarrow> go_error \<Rightarrow> bool" where
  "errors_Is None t = False"
| "errors_Is (Some (Predefined e)) t = (e = t)"
| "errors_Is (Some (Decoded e)) t = False"

fun reportable :: "Task \<Rightarrow> bool" where
  "reportable (DownloadPieceTask _) = False"
| "reportable (CreateBucketApprovalTask _) = False"
| "reportable (CreateObjectApprovalTask _) = False"
| "reportable (ReplicatePieceApprovalTask _) = False"
| "reportable _ = True"

definition client_ReportTask :: "('w, 'i) execute_env \<Rightarrow> Task \<Rightarrow> 'w \<Rightarrow> report_error option \<times> 'w" where
  "client_ReportTask env report w =
     (case xe_manager_conn env w of
        (False, w) \<Rightarrow> (Some (Predefined ErrRpcUnknown), w)
      | (True, w) \<Rightarrow>
          if \<not> reportable report then (Some (Predefined ErrTypeMismatch), w)
          else (case xe_rpc_report env report w of
                  (Inl _, w) \<Rightarrow> (Some (Predefined ErrRpcUnknown), w)
                | (Inr err, w) \<Rightarrow> (Some (Decoded err), w)))"

definition client_AskTask :: "('w, 'i) execute_env \<Rightarrow> Limit \<Rightarrow> 'w \<Rightarrow> (go_error + Task) \<times> 'w" where
  "client_AskTask env lim w =
     (case xe_manager_conn env w of
        (False, w) \<Rightarrow> (Inl ErrRpcUnknown, w)
      | (True, w) \<Rightarrow>
          (case xe_rpc_ask env lim w of
             (Inl _, w) \<Rightarrow> (Inl ErrRpcUnknown, w)
           | (Inr (Inl err), w) \<Rightarrow> (Inl (GfSpErr err), w)
           | (Inr (Inr resp), w) \<Rightarrow>
               (case resp of
                  Some (ReplicatePieceTask t) \<Rightarrow> (Inr (ReplicatePieceTask t), w)
                | Some (SealObjectTask t) \<Rightarrow> (Inr (SealObjectTask t), w)
                | Some (ReceivePieceTask t) \<Rightarrow> (Inr (ReceivePieceTask t), w)
                | Some (GCObjectTask t) \<Rightarrow> (Inr (GCObjectTask t), w)
                | Some (GCZombiePieceTask t) \<Rightarrow> (Inr (GCZombiePieceTask t), w)
                | Some (GCMetaTask t) \<Rightarrow> (Inr (GCMetaTask t), w)
                | Some (RecoverPieceTask t) \<Rightarrow> (Inr (RecoverPieceTask t), w)
                | _ \<Rightarrow> (Inl ErrTypeMismatch, w))))"

definition executor_ReportTask :: "('w, 'i) execute_env \<Rightarrow> Task \<Rightarrow> ('w, 'i) ExecuteModular \<Rightarrow> report_error option \<times> ('w, 'i) ExecuteModular" where
  "executor_ReportTask env task = outside (client_ReportTask env task)"

section \<open>Sealing\<close>

text \<open>
  The number of attempts is the number of rounds of the loop; a maximal retry count of
  \<open>MaxInt64\<close>, for which the loop variable would wrap after as many rounds, is not treated apart.
\<close>

fun seal_attempts :: "('w, 'i) execute_env \<Rightarrow> uint64 \<Rightarrow> MsgSealObject \<Rightarrow> nat \<Rightarrow> ('w, 'i) ExecuteModular \<Rightarrow> ('w, 'i) ExecuteModular" where
  "seal_attempts env oid msg 0 e = e"
| "seal_attempts env oid msg (Suc n) e =
     (case outside (xe_SealObject env msg) (exec_event oid ''executor_begin_seal_tx'' e) of (err, e) \<Rightarrow>
        let e = exec_event oid ''executor_end_seal_tx'' e
        in if err \<noteq> None then seal_attempts env oid msg n e else e)"

fun listen_attempts :: "('w, 'i) execute_env \<Rightarrow> uint64 \<Rightarrow> nat \<Rightarrow> go_error option \<Rightarrow> ('w, 'i) ExecuteModular
    \<Rightarrow> go_error option \<times> ('w, 'i) ExecuteModular" where
  "listen_attempts env oid 0 err e = (err, e)"
| "listen_attempts env oid (Suc n) err e =
     (case outside (xe_ListenObjectSeal env oid (ex_listenSealTimeoutHeight e)) (exec_event oid ''executor_begin_confirm_seal'' e) of
        (res, e) \<Rightarrow>
          let e = exec_event oid ''executor_end_confirm_seal'' e
          in case res of
               Inl innerErr \<Rightarrow> listen_attempts env oid n (Some innerErr) e
             | Inr sealed \<Rightarrow> if \<not> sealed then listen_attempts env oid n (Some ErrUnsealed) e else (None, e))"

definition listenSealObject :: "('w, 'i) execute_env \<Rightarrow> ObjectInfo \<Rightarrow> ('w, 'i) ExecuteModular \<Rightarrow> go_error option \<times> ('w, 'i) ExecuteModular" where
  "listenSealObject env ob e = listen_attempts env (Id ob) (nat (ex_maxListenSealRetry e)) None e"

definition sealObject :: "('w, 'i) execute_env \<Rightarrow> GfSpTask \<Rightarrow> ObjectInfo \<Rightarrow> MsgSealObject \<Rightarrow> ('w, 'i) ExecuteModular
    \<Rightarrow> go_error option \<times> ('w, 'i) ExecuteModular" where
  "sealObject env t ob sealMsg e =
     listenSealObject env ob (seal_attempts env (Id ob) sealMsg (nat (MaxRetry t + 1)) e)"

definition seal_msg :: "('w, 'i) execute_env \<Rightarrow> ObjectInfo \<Rightarrow> string list \<Rightarrow> bytes list \<Rightarrow> MsgSealObject" where
  "seal_msg env ob addresses signatures =
     \<lparr>mso_Operator = xe_operator env, mso_BucketName = BucketName ob, mso_ObjectName = ObjectName ob,
      mso_SecondarySpAddresses = addresses, mso_SecondarySpSignatures = signatures\<rparr>"

text \<open>The error of a nil task is set on the task itself, which panics.\<close>

definition executor_HandleSealObjectTask :: "('w, 'i) execute_env \<Rightarrow> GfSpSealObjectTask option \<Rightarrow> ('w, 'i) ExecuteModular
    \<Rightarrow> (GfSpSealObjectTask \<times> ('w, 'i) ExecuteModular) go" where
  "executor_HandleSealObjectTask env task e =
     (case task of
        None \<Rightarrow> Panics
      | Some t \<Rightarrow>
          (case so_ObjectInfo t of
             None \<Rightarrow> Returns (GfSpSealObjectTask_on_task (base_SetError (Some ErrExecDangling)) t, e)
           | Some ob \<Rightarrow>
               (case sealObject env (so_Task t) ob (seal_msg env ob (so_SecondaryAddresses t) (so_SecondarySignatures t)) e of
                  (err, e) \<Rightarrow> Returns (GfSpSealObjectTask_on_task (base_SetError err) t, e))))"

section \<open>Confirming a received replica\<close>

text \<open>A loop of deletions that ignores their errors.\<close>

fun delete_pieces :: "string list \<Rightarrow> ObjectStorage \<Rightarrow> ObjectStorage go" where
  "delete_pieces [] s = Returns s"
| "delete_pieces (k # ks) s = bind_go (DeletePiece s k) (\<lambda>(_, s). delete_pieces ks s)"

definition confirm_key :: "ObjectInfo \<Rightarrow> ObjectInfo \<Rightarrow> uint32 \<Rightarrow> nat \<Rightarrow> string" where
  "confirm_key ob onChainObject replicateIdx i =
     (if RedundancyType ob = REDUNDANCY_EC_TYPE then ECPieceKey (Id onChainObject) (of_nat i) replicateIdx
      else SegmentPieceKey (Id onChainObject) (of_nat i))"

definition drop_replica :: "('w, 'i) execute_env \<Rightarrow> ObjectInfo \<Rightarrow> ObjectInfo \<Rightarrow> GfSpReceivePieceTask \<Rightarrow> ('w, 'i) ExecuteModular
    \<Rightarrow> ('w, 'i) ExecuteModular go" where
  "drop_replica env ob onChainObject t e =
     (case DeleteObjectIntegrity (xe_integrity env) (ex_integrity e) (Id ob) of (_, i) \<Rightarrow>
        bind_go (SegmentPieceCount (PayloadSize onChainObject) (case rv_StorageParams t of None \<Rightarrow> 0 | Some p \<Rightarrow> MaxPayloadSize p))
          (\<lambda>segmentCount.
        bind_go (delete_pieces (map (confirm_key ob onChainObject (rv_ReplicateIdx t)) [0..<unat segmentCount]) (ex_pieceStore e))
          (\<lambda>s. Returns (e\<lparr>ex_integrity := i, ex_pieceStore := s\<rparr>))))"

definition executor_HandleReceivePieceTask :: "('w, 'i) execute_env \<Rightarrow> GfSpReceivePieceTask \<Rightarrow> ('w, 'i) ExecuteModular
    \<Rightarrow> (GfSpReceivePieceTask \<times> ('w, 'i) ExecuteModular) go" where
  "executor_HandleReceivePieceTask env t e =
     (let set_err = (\<lambda>err. GfSpReceivePieceTask_on_task (base_SetError (Some err))) in
      case rv_ObjectInfo t of
        None \<Rightarrow> Returns (t, e)
      | Some ob \<Rightarrow>
          (case listenSealObject env ob e of (err, e) \<Rightarrow>
             let t = (if err = None then t\<lparr>rv_Sealed := True\<rparr> else t) in
             case outside (xe_QueryObjectInfo env (BucketName ob) (ObjectName ob)) e of
               (Inl err, e) \<Rightarrow> Returns (set_err err t, e)
             | (Inr onChainObject, e) \<Rightarrow>
                 if ObjectStatus onChainObject \<noteq> OBJECT_STATUS_SEALED then Returns (set_err ErrUnsealed t, e)
                 else let t = t\<lparr>rv_Sealed := True\<rparr>
                      in if unat (rv_ReplicateIdx t) \<ge> length (SecondarySpAddresses onChainObject)
                         then Returns (set_err ErrReplicateIdsOutOfBounds t, e)
                         else if SecondarySpAddresses onChainObject ! unat (rv_ReplicateIdx t) \<noteq> xe_operator env
                         then bind_go (drop_replica env ob onChainObject t e) (\<lambda>e. Returns (set_err ErrSecondaryMismatch t, e))
                         else Returns (t, e)))"

section \<open>Frames\<close>

lemma outside_keeps:
  assumes "outside f e = (a, e')"
  shows "ex_pieceStore e' = ex_pieceStore e" "ex_integrity e' = ex_integrity e" "ex_maxListenSealRetry e' = ex_maxListenSealRetry e"
    "ex_listenSealTimeoutHeight e' = ex_listenSealTimeoutHeight e" "ex_events e' = ex_events e"
  using assms by (auto simp: outside_def split: prod.splits)

lemma exec_event_keeps [simp]:
  "ex_pieceStore (exec_event oid st e) = ex_pieceStore e" "ex_integrity (exec_event oid st e) = ex_integrity e"
  "ex_maxListenSealRetry (exec_event oid st e) = ex_maxListenSealRetry e"
  "ex_listenSealTimeoutHeight (exec_event oid st e) = ex_listenSealTimeoutHeight e"
  "ex_world (exec_event oid st e) = ex_world e"
  by (simp_all add: exec_event_def)

lemma seal_attempts_keeps:
  "ex_pieceStore (seal_attempts env oid msg n e) = ex_pieceStore e \<and> ex_integrity (seal_attempts env oid msg n e) = ex_integrity e
   \<and> ex_maxListenSealRetry (seal_attempts env oid msg n e) = ex_maxListenSealRetry e"
  by (induction n arbitrary: e) (auto simp: Let_def dest: outside_keeps split: prod.splits)

lemma listen_attempts_keeps:
  "listen_attempts env oid n err e = (err', e') \<Longrightarrow> ex_pieceStore e' = ex_pieceStore e \<and> ex_integrity e' = ex_integrity e"
proof (induction n arbitrary: err e)
  case (Suc n)
  obtain r e1 where o: "outside (xe_ListenObjectSeal env oid (ex_listenSealTimeoutHeight e)) (exec_event oid ''executor_begin_confirm_seal'' e) = (r, e1)"
    by fastforce
  have IH: "listen_attempts env oid n x (exec_event oid st e1) = (err', e') \<Longrightarrow> ?case" for x st
    using Suc.IH [of x "exec_event oid st e1"] outside_keeps [OF o] by simp
  show ?case using Suc.prems o IH outside_keeps [OF o] by (auto simp: Let_def split: sum.splits if_splits)
qed simp

section \<open>What a seal confirmation means\<close>

text \<open>The answers of the chain to one round of listening, up to the first that says sealed.\<close>

fun listen_answers :: "('w, 'i) execute_env \<Rightarrow> uint64 \<Rightarrow> go_int \<Rightarrow> nat \<Rightarrow> 'w \<Rightarrow> (go_error + bool) list" where
  "listen_answers env oid h 0 w = []"
| "listen_answers env oid h (Suc n) w =
     (case xe_ListenObjectSeal env oid h w of (r, w) \<Rightarrow> r # (if r = Inr True then [] else listen_answers env oid h n w))"

fun answer_error :: "go_error + bool \<Rightarrow> go_error option" where
  "answer_error (Inl err) = Some err"
| "answer_error (Inr sealed) = (if sealed then None else Some ErrUnsealed)"

lemma listen_attempts_answers:
  "fst (listen_attempts env oid n err e)
     = (case rev (listen_answers env oid (ex_listenSealTimeoutHeight e) n (ex_world e)) of [] \<Rightarrow> err | r # _ \<Rightarrow> answer_error r)"
proof (induction n arbitrary: err e)
  case (Suc n)
  obtain r w where r: "xe_ListenObjectSeal env oid (ex_listenSealTimeoutHeight e) (ex_world e) = (r, w)" by fastforce
  define e1 where "e1 = exec_event oid ''executor_end_confirm_seal'' (exec_event oid ''executor_begin_confirm_seal'' e\<lparr>ex_world := w\<rparr>)"
  have out: "outside (xe_ListenObjectSeal env oid (ex_listenSealTimeoutHeight e)) (exec_event oid ''executor_begin_confirm_seal'' e)
      = (r, exec_event oid ''executor_begin_confirm_seal'' e\<lparr>ex_world := w\<rparr>)"
    using r by (simp add: outside_def)
  have e1: "ex_listenSealTimeoutHeight e1 = ex_listenSealTimeoutHeight e" "ex_world e1 = w" by (simp_all add: e1_def)
  show ?case
  proof (cases "r = Inr True")
    case False
    then obtain err' where "answer_error r = Some err'" "fst (listen_attempts env oid (Suc n) err e) = fst (listen_attempts env oid n (Some err') e1)"
      using out by (cases r) (auto simp: e1_def Let_def)
    then show ?thesis using False r e1 Suc.IH [of "Some err'" e1] by (auto split: list.splits)
  qed (use out r in \<open>simp add: Let_def\<close>)
qed simp

section \<open>Deleting pieces\<close>

lemma delete_pieces_content:
  assumes "store_ok s"
  shows "\<exists>s'. delete_pieces ks s = Returns s' \<and> store_ok s'
    \<and> store_content s' = (\<lambda>k. if k \<in> set ks then None else store_content s k)"
  using assms
proof (induction ks arbitrary: s)
  case (Cons k ks)
  obtain err s1 where s1: "DeletePiece s k = Returns (err, s1)" "store_ok s1" "store_content s1 = (store_content s)(k := None)"
    using piece_store.del_content [OF Cons.prems, of k] by auto
  obtain s' where "delete_pieces ks s1 = Returns s'" "store_ok s'"
    "store_content s' = (\<lambda>k. if k \<in> set ks then None else store_content s1 k)" using Cons.IH [OF s1(2)] by blast
  then show ?case using s1 by (auto simp: fun_eq_iff)
qed simp

section \<open>A replica that another provider stores\<close>

lemma drop_replica_run:
  assumes "store_ok (ex_pieceStore e)" "rv_StorageParams t = Some p"
    "PayloadSize oc \<noteq> 0" "PayloadSize oc \<le> MaxPayloadSize p"
  shows "\<exists>s i. drop_replica env ob oc t e = Returns (e\<lparr>ex_integrity := i, ex_pieceStore := s\<rparr>) \<and> store_ok s
    \<and> store_content s = (store_content (ex_pieceStore e))(confirm_key ob oc (rv_ReplicateIdx t) 0 := None)"
proof -
  have u: "0 < uint (PayloadSize oc)" "uint (PayloadSize oc) \<le> uint (MaxPayloadSize p)"
    using assms(3,4) by (simp_all add: word_le_def uint_0_iff order_less_le)
  then have m: "0 < uint (MaxPayloadSize p)" "uint (PayloadSize oc) \<le> uint (MaxPayloadSize p) * (2 ^ 32 - 1)" by simp_all
  have "(uint (PayloadSize oc) + uint (MaxPayloadSize p) - 1) div uint (MaxPayloadSize p) = 1"
    using u by (simp add: div_pos_geq div_pos_pos_trivial)
  then have count: "SegmentPieceCount (PayloadSize oc) (MaxPayloadSize p) = Returns 1"
    using SegmentPieceCount_eq [OF m] by (auto simp: word_uint_eq_iff)
  obtain x i where i: "DeleteObjectIntegrity (xe_integrity env) (ex_integrity e) (Id ob) = (x, i)" by fastforce
  obtain s where s: "delete_pieces [confirm_key ob oc (rv_ReplicateIdx t) 0] (ex_pieceStore e) = Returns s" "store_ok s"
    "store_content s = (\<lambda>k. if k \<in> set [confirm_key ob oc (rv_ReplicateIdx t) 0] then None else store_content (ex_pieceStore e) k)"
    using delete_pieces_content [OF assms(1)] by blast
  have "drop_replica env ob oc t e = Returns (e\<lparr>ex_integrity := i, ex_pieceStore := s\<rparr>)"
    using count s(1) assms(2) by (simp add: drop_replica_def i)
  moreover have "store_content s = (store_content (ex_pieceStore e))(confirm_key ob oc (rv_ReplicateIdx t) 0 := None)"
    using s(3) by (auto simp: fun_eq_iff)
  ultimately show ?thesis using s(2) by blast
qed

text \<open>
  A replica that the chain assigned to another provider is not cleaned up: when the sealed object
  names another secondary provider at the index of the task, the handler sets the mismatch error and
  deletes piece 0 only, however many segments the object has. The number of pieces is computed with the
  maximal payload size in place of the maximal segment size.
\<close>

theorem mismatched_replica_left_over:
  assumes task: "rv_ObjectInfo t = Some ob" "rv_StorageParams t = Some p" "PayloadSize oc \<noteq> 0" "PayloadSize oc \<le> MaxPayloadSize p"
    and chain: "outside (xe_QueryObjectInfo env (BucketName ob) (ObjectName ob)) (snd (listenSealObject env ob e)) = (Inr oc, e1)"
      "ObjectStatus oc = OBJECT_STATUS_SEALED" "unat (rv_ReplicateIdx t) < length (SecondarySpAddresses oc)"
      "SecondarySpAddresses oc ! unat (rv_ReplicateIdx t) \<noteq> xe_operator env"
    and store: "store_ok (ex_pieceStore e)"
  shows "\<exists>t' e'. executor_HandleReceivePieceTask env t e = Returns (t', e')
    \<and> rv_Sealed t' \<and> Err (rv_Task t') = MakeGfSpError (Some ErrSecondaryMismatch)
    \<and> store_content (ex_pieceStore e') = (store_content (ex_pieceStore e))(confirm_key ob oc (rv_ReplicateIdx t) 0 := None)"
proof -
  obtain err e0 where l: "listenSealObject env ob e = (err, e0)" by fastforce
  have same: "ex_pieceStore e1 = ex_pieceStore e"
    using outside_keeps(1) [OF chain(1)] listen_attempts_keeps [OF l [unfolded listenSealObject_def]] l by simp
  define t1 where "t1 = (if err = None then t\<lparr>rv_Sealed := True\<rparr> else t)\<lparr>rv_Sealed := True\<rparr>"
  have t1: "rv_StorageParams t1 = Some p" "rv_ReplicateIdx t1 = rv_ReplicateIdx t" "rv_Sealed t1"
    using task(2) by (simp_all add: t1_def)
  have q: "outside (xe_QueryObjectInfo env (BucketName ob) (ObjectName ob)) e0 = (Inr oc, e1)" using chain(1) l by simp
  obtain s i where d: "drop_replica env ob oc t1 e1 = Returns (e1\<lparr>ex_integrity := i, ex_pieceStore := s\<rparr>)"
    "store_content s = (store_content (ex_pieceStore e1))(confirm_key ob oc (rv_ReplicateIdx t1) 0 := None)"
    using drop_replica_run [of e1 t1 p oc env ob] t1(1) task store same by auto
  have "executor_HandleReceivePieceTask env t e
      = Returns (GfSpReceivePieceTask_on_task (base_SetError (Some ErrSecondaryMismatch)) t1, e1\<lparr>ex_integrity := i, ex_pieceStore := s\<rparr>)"
    unfolding executor_HandleReceivePieceTask_def Let_def task(1) option.case l prod.case q sum.case
    using chain(2-4) d(1) t1(2) unfolding t1_def [symmetric] by simp
  then show ?thesis
    using d(2) same t1 by (simp add: GfSpReceivePieceTask_on_task_def base_SetError_def)
qed

text \<open>A world that counts the calls to it, with a chain that has sealed the object for others.\<close>

definition demo_onchain :: ObjectInfo where
  "demo_onchain = nil_object\<lparr>Id := 7, PayloadSize := 5, ObjectStatus := OBJECT_STATUS_SEALED, SecondarySpAddresses := [''other'', ''other'']\<rparr>"

definition demo_exec_env :: "(nat, (uint64 \<times> IntegrityMetaTable) list) execute_env" where
  "demo_exec_env =
     \<lparr>xe_operator = ''self'', xe_now = int, xe_hash = (\<lambda>b. [of_nat (length b)]), xe_integrity = alist_table it_ObjectID 0,
      xe_manager_conn = (\<lambda>w. (True, Suc w)), xe_rpc_report = (\<lambda>t w. (Inr None, Suc w)), xe_rpc_ask = (\<lambda>l w. (Inl (), Suc w)),
      xe_SealObject = (\<lambda>m w. (None, Suc w)), xe_ListenObjectSeal = (\<lambda>oid h w. (Inr (2 \<le> w), Suc w)),
      xe_QueryObjectInfo = (\<lambda>b ob w. (Inr demo_onchain, Suc w)), xe_QueryBucketInfo = (\<lambda>b w. (Inl ErrRpcUnknown, Suc w)),
      xe_QueryStorageParamsByTimestamp = (\<lambda>ts w. (Inr \<lparr>MaxPayloadSize = 100, MaxSegmentSize = 2, RedundantDataChunkNum = 1, RedundantParityChunkNum = 1\<rparr>, Suc w)),
      xe_ListSPs = (\<lambda>w. (Inr [], Suc w)), xe_ListDeletedObjects = (\<lambda>a b w. (Inl ErrRpcUnknown, Suc w)),
      xe_AskApproval = (\<lambda>t a b c w. (Inr [], Suc w)), xe_GetSpByAddress = (\<lambda>a w. (Inl ErrRpcUnknown, Suc w)),
      xe_SignReceiveTask = (\<lambda>t w. (Inr [9], Suc w)), xe_ReplicatePiece = (\<lambda>ep a r d w. (None, Suc w)),
      xe_DoneReplicate = (\<lambda>ep a r w. (Inr ([of_nat (unat (rv_ReplicateIdx r))], [5]), Suc w)),
      xe_EncodeRawSegment = (\<lambda>b d p. Inr (replicate (nat (d + p)) b)), xe_DecodeRawSegment = (\<lambda>xs n d p. Inl ErrRpcUnknown),
      xe_AccAddress = (\<lambda>a. Inr []), xe_SignDoc = (\<lambda>a oid h. h), xe_VerifySignature = (\<lambda>a h sig. None),
      xe_SignRecoveryTask = (\<lambda>t w. (Inr [9], Suc w)), xe_GetPieceFromECChunks = (\<lambda>ep t w. (Inl ErrRpcUnknown, Suc w))\<rparr>"

definition demo_exec_config :: ExecutorConfig where
  "demo_exec_config = \<lparr>cf_MaxExecuteNumber = 0, cf_AskTaskInterval = 0, cf_AskReplicateApprovalTimeout = 0,
     cf_AskReplicateApprovalExFactor = (3, 1), cf_ListenSealTimeoutHeight = 0, cf_ListenSealRetryTimeout = 0, cf_MaxListenSealRetry = 0\<rparr>"

definition demo_executor :: "(nat, (uint64 \<times> IntegrityMetaTable) list) ExecuteModular" where
  "demo_executor = DefaultExecutorOptions demo_exec_config 0 (createStorage [] (\<lambda>i. []) 4) []"

definition demo_confirm_task :: GfSpReceivePieceTask where
  "demo_confirm_task = \<lparr>rv_Task = new_task, rv_ObjectInfo = Some demo_upload_object, rv_StorageParams = Some demo_upload_params,
     rv_ReplicateIdx = 1, rv_PieceIdx = -1, rv_PieceSize = 0, rv_PieceChecksum = [], rv_Signature = [], rv_Sealed = False\<rparr>"

lemma demo_executor_ok: "store_ok (ex_pieceStore demo_executor)"
  by (simp add: demo_executor_def DefaultExecutorOptions_def createStorage_ok)

theorem mismatched_replica_left_over_witness:
  "\<exists>t' e'. executor_HandleReceivePieceTask demo_exec_env demo_confirm_task
       (demo_executor\<lparr>ex_pieceStore := MemStore \<lparr>ms_name = [], ms_objects =
          [(''e7_s0_p1'', \<lparr>mo_data = [1], mo_modTime = 0\<rparr>), (''e7_s1_p1'', \<lparr>mo_data = [2], mo_modTime = 0\<rparr>)]\<rparr>\<rparr>) = Returns (t', e')
     \<and> Err (rv_Task t') = MakeGfSpError (Some ErrSecondaryMismatch)
     \<and> store_content (ex_pieceStore e') ''e7_s1_p1'' = Some [2]"
proof -
  let ?e = "demo_executor\<lparr>ex_pieceStore := MemStore \<lparr>ms_name = [], ms_objects =
          [(''e7_s0_p1'', \<lparr>mo_data = [1], mo_modTime = 0\<rparr>), (''e7_s1_p1'', \<lparr>mo_data = [2], mo_modTime = 0\<rparr>)]\<rparr>\<rparr>"
  have q: "outside (xe_QueryObjectInfo demo_exec_env b n) x = (Inr demo_onchain, x\<lparr>ex_world := Suc (ex_world x)\<rparr>)" for b n and x :: "(nat, (uint64 \<times> IntegrityMetaTable) list) ExecuteModular"
    by (simp add: outside_def demo_exec_env_def)
  have "confirm_key demo_upload_object demo_onchain 1 0 = ''e7_s0_p1''" by code_simp
  moreover have "store_ok (ex_pieceStore ?e)" by (simp add: store_ok_def mem_content_def)
  ultimately show ?thesis
    using mismatched_replica_left_over [of demo_confirm_task demo_upload_object demo_upload_params demo_onchain demo_exec_env ?e, OF _ _ _ _ q]
    by (auto simp: demo_confirm_task_def demo_onchain_def demo_upload_params_def demo_exec_env_def mem_content_def)
qed

end
