(* ===== verification/GarbageCollector.thy ===== *)
theory GarbageCollector
  imports Executor "HOL-Library.Product_Lexorder"
begin

text \<open>
  Garbage collection of deleted objects: \<open>HandleGCObjectTask\<close> of
  \<open>modular/executor/execute_task.go\<close>, and what it asks the metadata service for, from the query of
  \<open>store/bsdb/object.go\<close> over \<open>modular/metadata/metadata_object_service.go\<close> to the client call of
  \<open>base/gfspclient/metadata.go\<close>. A table of the block syncer database is the list of its rows; the
  columns that are enumerations by name are the enumerations.
\<close>

section \<open>The deleted objects of a range of blocks\<close>

record ObjectRow =
  or_ObjectID :: uint64
  or_BucketID :: uint64
  or_BucketName :: string
  or_ObjectName :: string
  or_PayloadSize :: uint64
  or_Visibility :: string
  or_CreateTime :: int64
  or_ObjectStatus :: ObjectStatus
  or_RedundancyType :: RedundancyType
  or_Checksums :: "bytes list"
  or_SecondarySpAddresses :: "string list"
  or_ContentType :: string
  or_Removed :: bool
  or_UpdateAt :: int64
  or_DeleteAt :: int64

record BucketRow =
  br_BucketID :: uint64
  br_Visibility :: string

text \<open>\<open>db_error\<close> is the error of the query of the objects, if it fails.\<close>

record BsDB =
  db_latest :: "go_error + int64"
  db_error :: "go_error option"
  db_objects :: "ObjectRow list"
  db_buckets :: "BucketRow list"

definition DeletedObjectsDefaultSize :: nat where "DeletedObjectsDefaultSize = 1000"

text \<open>Rows that were removed in the range, in the order of the query and without its limit.\<close>

definition removed_between :: "int64 \<Rightarrow> int64 \<Rightarrow> ObjectRow \<Rightarrow> bool" where
  "removed_between start fin r \<longleftrightarrow> start \<le> or_UpdateAt r \<and> or_UpdateAt r \<le> fin \<and> or_Removed r"

definition by_update :: "ObjectRow list \<Rightarrow> ObjectRow list" where
  "by_update = sort_key (\<lambda>r. (or_UpdateAt r, or_ObjectID r))"

definition public_row :: "BucketRow \<Rightarrow> ObjectRow \<Rightarrow> bool" where
  "public_row b r \<longleftrightarrow> or_Visibility r = ''VISIBILITY_TYPE_PUBLIC_READ''
     \<or> or_Visibility r = ''VISIBILITY_TYPE_INHERIT'' \<and> br_Visibility b = ''VISIBILITY_TYPE_PUBLIC_READ''"

definition ListDeletedObjectsByBlockNumberRange :: "BsDB \<Rightarrow> int64 \<Rightarrow> int64 \<Rightarrow> bool \<Rightarrow> go_error + ObjectRow list" where
  "ListDeletedObjectsByBlockNumberRange db startBlockNumber endBlockNumber includePrivate =
     (case db_error db of Some err \<Rightarrow> Inl err | None \<Rightarrow> Inr
     (if includePrivate
      then take DeletedObjectsDefaultSize (by_update (filter (removed_between startBlockNumber endBlockNumber) (db_objects db)))
      else take DeletedObjectsDefaultSize (by_update (concat (map (\<lambda>b.
             filter (\<lambda>r. or_BucketID r = br_BucketID b \<and> removed_between startBlockNumber endBlockNumber r \<and> public_row b r)
               (db_objects db)) (db_buckets db))))))"

definition VisibilityType_value :: "string \<Rightarrow> VisibilityType" where
  "VisibilityType_value s =
     (if s = ''VISIBILITY_TYPE_PUBLIC_READ'' then VISIBILITY_TYPE_PUBLIC_READ
      else if s = ''VISIBILITY_TYPE_PRIVATE'' then VISIBILITY_TYPE_PRIVATE
      else if s = ''VISIBILITY_TYPE_INHERIT'' then VISIBILITY_TYPE_INHERIT
      else VISIBILITY_TYPE_UNSPECIFIED)"

definition metadata_object :: "ObjectRow \<Rightarrow> MetadataObject" where
  "metadata_object r =
     \<lparr>md_ObjectInfo = Some \<lparr>BucketName = or_BucketName r, ObjectName = or_ObjectName r, Id = or_ObjectID r,
        PayloadSize = or_PayloadSize r, RedundancyType = or_RedundancyType r, ObjectStatus = or_ObjectStatus r,
        CreateAt = or_CreateTime r, Checksums = or_Checksums r, SecondarySpAddresses = or_SecondarySpAddresses r,
        Visibility = VisibilityType_value (or_Visibility r), ContentType = or_ContentType r\<rparr>,
      md_DeleteAt = or_DeleteAt r\<rparr>"

definition GfSpListDeletedObjectsByBlockNumberRange :: "BsDB \<Rightarrow> int64 \<Rightarrow> int64 \<Rightarrow> bool \<Rightarrow> go_error + MetadataObject list \<times> int64" where
  "GfSpListDeletedObjectsByBlockNumberRange db start fin includePrivate =
     (case db_latest db of
        Inl err \<Rightarrow> Inl err
      | Inr latest \<Rightarrow>
          let endBlockNumber = (if latest > fin then fin else latest)
          in case ListDeletedObjectsByBlockNumberRange db start endBlockNumber includePrivate of
               Inl err \<Rightarrow> Inl err
             | Inr objects \<Rightarrow> Inr (map metadata_object objects, endBlockNumber))"

text \<open>The first argument is the error of the connection, if it cannot be opened.\<close>

definition client_ListDeletedObjects :: "go_error option \<Rightarrow> BsDB \<Rightarrow> uint64 \<Rightarrow> uint64 \<Rightarrow> bool \<Rightarrow> go_error + MetadataObject list \<times> uint64" where
  "client_ListDeletedObjects connErr db startBlockNumber endBlockNumber includePrivate =
     (case connErr of Some err \<Rightarrow> Inl err | None \<Rightarrow>
      case GfSpListDeletedObjectsByBlockNumberRange db (int64_of_u64 startBlockNumber) (int64_of_u64 endBlockNumber) includePrivate of
        Inl _ \<Rightarrow> Inl ErrRpcUnknown
      | Inr (objects, fin) \<Rightarrow> Inr (objects, word_of_int fin))"

section \<open>The handler\<close>

definition reportProgress :: "('w, 'i) execute_env \<Rightarrow> GfSpGCObjectTask \<Rightarrow> ('w, 'i) ExecuteModular \<Rightarrow> bool \<times> ('w, 'i) ExecuteModular" where
  "reportProgress env t e =
     (case executor_ReportTask env (GCObjectTask t) e of (reportErr, e) \<Rightarrow> (errors_Is reportErr (GfSpErr ErrCanceledTask), e))"

text \<open>The keys of an object in the order of the deletions: the segments, then the pieces of each replica held here.\<close>

definition gc_keys :: "string \<Rightarrow> ObjectInfo \<Rightarrow> uint32 \<Rightarrow> string list" where
  "gc_keys operator ob segmentCount =
     map (\<lambda>i. SegmentPieceKey (Id ob) (of_nat i)) [0..<unat segmentCount]
     @ concat (map (\<lambda>(rIdx, address).
         if operator = address
         then map (\<lambda>i. if RedundancyType ob = REDUNDANCY_REPLICA_TYPE then SegmentPieceKey (Id ob) (of_nat i)
                       else ECPieceKey (Id ob) (of_nat i) (of_nat rIdx)) [0..<unat segmentCount]
         else []) (enumerate 0 (SecondarySpAddresses ob)))"

text \<open>The result is the error, whether all objects were handled, the task and the state.\<close>

fun gc_objects :: "('w, 'i) execute_env \<Rightarrow> MetadataObject list \<Rightarrow> GfSpGCObjectTask \<Rightarrow> ('w, 'i) ExecuteModular
    \<Rightarrow> (go_error option \<times> bool \<times> GfSpGCObjectTask \<times> ('w, 'i) ExecuteModular) go" where
  "gc_objects env [] t e = Returns (None, True, t, e)"
| "gc_objects env (object # objects) t e =
     (case outside (xe_QueryStorageParamsByTimestamp env (CreateAt (object_of (md_ObjectInfo object)))) e of
        (Inl err, e) \<Rightarrow> Returns (Some err, False, t, e)
      | (Inr storageParams, e) \<Rightarrow>
          (case md_ObjectInfo object of
             None \<Rightarrow> Panics
           | Some ob \<Rightarrow>
               let currentGCBlockID = word_of_int (md_DeleteAt object) :: uint64
               in if currentGCBlockID < gc_CurrentBlockNumber t then gc_objects env objects t e
                  else bind_go (SegmentPieceCount (PayloadSize ob) (MaxSegmentSize storageParams)) (\<lambda>segmentCount.
                       bind_go (delete_pieces (gc_keys (xe_operator env) ob segmentCount) (ex_pieceStore e)) (\<lambda>s.
                         let e = e\<lparr>ex_pieceStore := s, ex_integrity := snd (DeleteObjectIntegrity (xe_integrity env) (ex_integrity e) (Id ob))\<rparr>;
                             t = t\<lparr>gc_CurrentBlockNumber := currentGCBlockID, gc_LastDeletedObjectId := Id ob\<rparr>
                         in case reportProgress env t e of
                              (True, e) \<Rightarrow> Returns (None, False, t, e)
                            | (False, e) \<Rightarrow> gc_objects env objects t e))))"

definition executor_HandleGCObjectTask :: "('w, 'i) execute_env \<Rightarrow> GfSpGCObjectTask \<Rightarrow> ('w, 'i) ExecuteModular
    \<Rightarrow> (GfSpGCObjectTask \<times> ('w, 'i) ExecuteModular) go" where
  "executor_HandleGCObjectTask env t e =
     bind_go
       (case outside (xe_ListDeletedObjects env (gc_StartBlockNumber t) (gc_EndBlockNumber t)) e of
          (Inl err, e) \<Rightarrow> Returns (Some err, False, t, e)
        | (Inr (waitingGCObjects, responseEndBlockID), e) \<Rightarrow>
            if responseEndBlockID < gc_StartBlockNumber t \<or> responseEndBlockID < gc_EndBlockNumber t
            then Returns (None, False, t, e)
            else if waitingGCObjects = [] then Returns (None, True, t, e)
            else gc_objects env waitingGCObjects t e)
       (\<lambda>(err, succeeded, t, e).
          let t = (if err = None \<and> succeeded then t\<lparr>gc_CurrentBlockNumber := gc_EndBlockNumber t + 1\<rparr>
                   else GfSpGCObjectTask_on_task (base_SetError err) t)
          in Returns (t, snd (reportProgress env t e)))"

section \<open>Reports never cancel\<close>

lemma reportProgress_result:
  obtains e' where "reportProgress env t e = (False, e')" "ex_pieceStore e' = ex_pieceStore e" "ex_integrity e' = ex_integrity e"
proof -
  obtain r e' where r: "executor_ReportTask env (GCObjectTask t) e = (r, e')" by fastforce
  have "ErrRpcUnknown \<noteq> GfSpErr ErrCanceledTask" "ErrTypeMismatch \<noteq> GfSpErr ErrCanceledTask"
    by (simp_all add: ErrRpcUnknown_def ErrTypeMismatch_def ErrCanceledTask_def manager_errors_def registered_def i32_def)
  then have "\<not> errors_Is r (GfSpErr ErrCanceledTask)"
    using r by (auto simp: executor_ReportTask_def outside_def client_ReportTask_def split: prod.splits if_splits sum.splits bool.splits)
  then show thesis using that r outside_keeps(1,2) [OF r [unfolded executor_ReportTask_def]] by (simp add: reportProgress_def)
qed

section \<open>What a run deletes\<close>

definition segment_count :: "ObjectInfo \<Rightarrow> Params \<Rightarrow> uint32" where
  "segment_count ob p = (case SegmentPieceCount (PayloadSize ob) (MaxSegmentSize p) of Returns c \<Rightarrow> c | Panics \<Rightarrow> 0)"

lemma segment_count: "MaxSegmentSize p \<noteq> 0 \<Longrightarrow> SegmentPieceCount (PayloadSize ob) (MaxSegmentSize p) = Returns (segment_count ob p)"
  by (simp add: segment_count_def SegmentPieceCount_def Let_def)

definition object_keys :: "string \<Rightarrow> (int64 \<Rightarrow> Params) \<Rightarrow> ObjectInfo \<Rightarrow> string set" where
  "object_keys operator params ob = set (gc_keys operator ob (segment_count ob (params (CreateAt ob))))"

lemma gc_objects_run:
  assumes "map md_ObjectInfo objs = map Some obs"
    "sorted (gc_CurrentBlockNumber t # map (\<lambda>x. word_of_int (md_DeleteAt x)) objs)"
    "\<And>ts w. fst (xe_QueryStorageParamsByTimestamp env ts w) = Inr (params ts)" "\<And>ts. MaxSegmentSize (params ts) \<noteq> 0"
    "integrity_table (xe_integrity env) rows" "\<And>ob. ob \<in> set obs \<Longrightarrow> Id ob \<noteq> 0" "store_ok (ex_pieceStore e)"
  shows "\<exists>t' e'. gc_objects env objs t e = Returns (None, True, t', e') \<and> gc_EndBlockNumber t' = gc_EndBlockNumber t
    \<and> gc_Task t' = gc_Task t
    \<and> store_content (ex_pieceStore e') = (\<lambda>k. if k \<in> (\<Union>ob \<in> set obs. object_keys (xe_operator env) params ob) then None
        else store_content (ex_pieceStore e) k)
    \<and> rows (ex_integrity e') = (\<lambda>oid. if oid \<in> Id ` set obs then None else rows (ex_integrity e) oid)"
  using assms(1,2,6,7)
proof (induction objs arbitrary: obs t e)
  case Nil
  then show ?case by simp
next
  case (Cons x objs)
  then obtain ob obs' where obs: "obs = ob # obs'" "md_ObjectInfo x = Some ob" "map md_ObjectInfo objs = map Some obs'" by auto
  obtain e1 where q: "outside (xe_QueryStorageParamsByTimestamp env (CreateAt ob)) e = (Inr (params (CreateAt ob)), e1)"
    using assms(3) [of "CreateAt ob" "ex_world e"]
    by (cases "xe_QueryStorageParamsByTimestamp env (CreateAt ob) (ex_world e)") (auto simp: outside_def)
  note keep = outside_keeps [OF q]
  let ?n = "segment_count ob (params (CreateAt ob))"
  obtain s where s: "delete_pieces (gc_keys (xe_operator env) ob ?n) (ex_pieceStore e1) = Returns s" "store_ok s"
    "store_content s = (\<lambda>k. if k \<in> object_keys (xe_operator env) params ob then None else store_content (ex_pieceStore e) k)"
    using delete_pieces_content [of "ex_pieceStore e1"] Cons.prems(4) keep(1) unfolding object_keys_def by metis
  obtain i where i: "DeleteObjectIntegrity (xe_integrity env) (ex_integrity e1) (Id ob) = (None, i)"
    "rows i = (rows (ex_integrity e))(Id ob := None)"
    using sql_table.Delete_row [OF integrity_table.axioms(1) [OF assms(5)], of "Id ob" "ex_integrity e1"] Cons.prems(3) obs(1) keep(2)
    by (auto simp: DeleteObjectIntegrity_def)
  define t1 where "t1 = t\<lparr>gc_CurrentBlockNumber := word_of_int (md_DeleteAt x), gc_LastDeletedObjectId := Id ob\<rparr>"
  obtain e2 where r: "reportProgress env t1 (e1\<lparr>ex_pieceStore := s, ex_integrity := i\<rparr>) = (False, e2)"
    "ex_pieceStore e2 = s" "ex_integrity e2 = i"
    using reportProgress_result [of env t1 "e1\<lparr>ex_pieceStore := s, ex_integrity := i\<rparr>"] by auto
  have ge: "\<not> word_of_int (md_DeleteAt x) < gc_CurrentBlockNumber t" using Cons.prems(2) by (simp add: not_less)
  have step: "gc_objects env (x # objs) t e = gc_objects env objs t1 e2"
    unfolding gc_objects.simps obs(2) object_of_def option.case q prod.case sum.case Let_def segment_count [OF assms(4)]
      bind_go.simps s(1) i(1) snd_conv
    using ge r(1) by (simp add: t1_def)
  have "sorted (gc_CurrentBlockNumber t1 # map (\<lambda>x. word_of_int (md_DeleteAt x)) objs)"
    using Cons.prems(2) by (simp add: t1_def)
  from Cons.IH [OF obs(3) this, of e2] obtain t' e' where IH: "gc_objects env objs t1 e2 = Returns (None, True, t', e')"
    "gc_EndBlockNumber t' = gc_EndBlockNumber t1" "gc_Task t' = gc_Task t1"
    "store_content (ex_pieceStore e') = (\<lambda>k. if k \<in> (\<Union>ob \<in> set obs'. object_keys (xe_operator env) params ob) then None
        else store_content s k)"
    "rows (ex_integrity e') = (\<lambda>oid. if oid \<in> Id ` set obs' then None else rows i oid)"
    using Cons.prems(3) obs(1) r(2,3) s(2) by auto
  show ?case
    unfolding step by (intro exI conjI, rule IH(1)) (simp_all add: IH s(3) i(2) obs(1) t1_def fun_eq_iff)
qed

lemma HandleGC_run:
  assumes "outside (xe_ListDeletedObjects env (gc_StartBlockNumber t) (gc_EndBlockNumber t)) e = (Inr (objs, fin), e1)"
    "gc_StartBlockNumber t \<le> fin" "gc_EndBlockNumber t \<le> fin"
    "map md_ObjectInfo objs = map Some obs"
    "sorted (gc_CurrentBlockNumber t # map (\<lambda>x. word_of_int (md_DeleteAt x)) objs)"
    "\<And>ts w. fst (xe_QueryStorageParamsByTimestamp env ts w) = Inr (params ts)" "\<And>ts. MaxSegmentSize (params ts) \<noteq> 0"
    "integrity_table (xe_integrity env) rows" "\<And>ob. ob \<in> set obs \<Longrightarrow> Id ob \<noteq> 0" "store_ok (ex_pieceStore e)"
  shows "\<exists>t' e'. executor_HandleGCObjectTask env t e = Returns (t', e') \<and> gc_CurrentBlockNumber t' = gc_EndBlockNumber t + 1
    \<and> gc_Task t' = gc_Task t
    \<and> store_content (ex_pieceStore e') = (\<lambda>k. if k \<in> (\<Union>ob \<in> set obs. object_keys (xe_operator env) params ob) then None
        else store_content (ex_pieceStore e) k)
    \<and> rows (ex_integrity e') = (\<lambda>oid. if oid \<in> Id ` set obs then None else rows (ex_integrity e) oid)"
proof -
  note keep = outside_keeps [OF assms(1)]
  have ok: "store_ok (ex_pieceStore e1)" using assms(10) keep(1) by simp
  from gc_objects_run [OF assms(4-9) ok] obtain t1 e2 where
    run: "gc_objects env objs t e1 = Returns (None, True, t1, e2)" and t1: "gc_EndBlockNumber t1 = gc_EndBlockNumber t" "gc_Task t1 = gc_Task t"
    and c: "store_content (ex_pieceStore e2) = (\<lambda>k. if k \<in> (\<Union>ob \<in> set obs. object_keys (xe_operator env) params ob) then None
        else store_content (ex_pieceStore e1) k)"
      "rows (ex_integrity e2) = (\<lambda>oid. if oid \<in> Id ` set obs then None else rows (ex_integrity e1) oid)" by blast
  define t2 where "t2 = t1\<lparr>gc_CurrentBlockNumber := gc_EndBlockNumber t1 + 1\<rparr>"
  obtain e3 where r: "reportProgress env t2 e2 = (False, e3)" "ex_pieceStore e3 = ex_pieceStore e2" "ex_integrity e3 = ex_integrity e2"
    by (rule reportProgress_result)
  have "objs = [] \<Longrightarrow> t1 = t \<and> e2 = e1" using run by simp
  then have "executor_HandleGCObjectTask env t e = Returns (t2, e3)"
    using assms(1-3) run r(1) by (cases "objs = []") (auto simp: executor_HandleGCObjectTask_def t2_def not_less)
  then show ?thesis using r(2,3) c [unfolded keep] t1 by (simp add: t2_def)
qed

lemma object_keys_id:
  assumes "k \<in> object_keys op params ob" "k \<in> object_keys op params ob'"
  shows "Id ob = Id ob'"
proof -
  have key: "(\<exists>i. x = SegmentPieceKey (Id y) i) \<or> (\<exists>i r. x = ECPieceKey (Id y) i r)" if "x \<in> object_keys op params y" for x y
    using that by (auto simp: object_keys_def gc_keys_def split: if_splits)
  have "show_nat (unat (Id y)) = tl (hd (split_on CHR ''_'' x))" if "x \<in> object_keys op params y" for x y
    using key [OF that] by (auto simp: split_SegmentPieceKey split_ECPieceKey)
  from this [OF assms(1)] this [OF assms(2)] show ?thesis by (metis show_nat_inj word_unat_eq_iff)
qed

text \<open>
  The pieces that a provider can hold of an object, whichever operation wrote them: the segments, which
  are the indices at which the payload has bytes left, under segment keys, and, of an erasure-coded object,
  the pieces of each of its segments for every replica index at which the object names the provider.
\<close>

definition piece_keys :: "string \<Rightarrow> uint64 \<Rightarrow> ObjectInfo \<Rightarrow> string set" where
  "piece_keys operator segmentSize ob =
     {SegmentPieceKey (Id ob) i | i. uint i * uint segmentSize < uint (PayloadSize ob)}
   \<union> {ECPieceKey (Id ob) i (of_nat r) | i r. uint i * uint segmentSize < uint (PayloadSize ob)
        \<and> RedundancyType ob \<noteq> REDUNDANCY_REPLICA_TYPE
        \<and> r < length (SecondarySpAddresses ob) \<and> SecondarySpAddresses ob ! r = operator}"

lemma piece_keysI:
  "uint i * uint m < uint (PayloadSize ob) \<Longrightarrow> SegmentPieceKey (Id ob) i \<in> piece_keys operator m ob"
  "uint i * uint m < uint (PayloadSize ob) \<Longrightarrow> RedundancyType ob \<noteq> REDUNDANCY_REPLICA_TYPE \<Longrightarrow> r < length (SecondarySpAddresses ob)
     \<Longrightarrow> SecondarySpAddresses ob ! r = operator \<Longrightarrow> ECPieceKey (Id ob) i (of_nat r) \<in> piece_keys operator m ob"
  unfolding piece_keys_def by blast+

lemma segment_count_index:
  fixes i :: uint32
  assumes "MaxSegmentSize p \<noteq> 0" "uint (PayloadSize ob) \<le> uint (MaxSegmentSize p) * (2 ^ 32 - 1)"
  shows "unat i < unat (segment_count ob p) \<longleftrightarrow> uint i * uint (MaxSegmentSize p) < uint (PayloadSize ob)"
proof -
  let ?m = "uint (MaxSegmentSize p)" and ?p = "uint (PayloadSize ob)" and ?c = "uint (segment_count ob p)"
  have m: "0 < ?m" using assms(1) by (simp add: word_neq_0_conv word_less_def)
  obtain c where c: "?c = (?p + ?m - 1) div ?m"
    using SegmentPieceCount_eq [OF m assms(2)] segment_count [OF assms(1)] by auto
  have "unat i < unat (segment_count ob p) \<longleftrightarrow> uint i < ?c" by (simp add: word_less_def flip: word_less_nat_alt)
  also have "\<dots> \<longleftrightarrow> uint i + 1 \<le> (?p + ?m - 1) div ?m" using c by linarith
  also have "\<dots> \<longleftrightarrow> (uint i + 1) * ?m \<le> ?p + ?m - 1" 
  proof
    assume "uint i + 1 \<le> (?p + ?m - 1) div ?m"
    then have "(uint i + 1) * ?m \<le> (?p + ?m - 1) div ?m * ?m" using m by (intro mult_right_mono) auto
    then show "(uint i + 1) * ?m \<le> ?p + ?m - 1" using int_div_mult_le [OF m, of "?p + ?m - 1"] by linarith
  next
    assume "(uint i + 1) * ?m \<le> ?p + ?m - 1"
    from zdiv_mono1 [OF this m] show "uint i + 1 \<le> (?p + ?m - 1) div ?m" using m by simp
  qed
  also have "\<dots> \<longleftrightarrow> uint i * ?m < ?p" unfolding distrib_right by linarith
  finally show ?thesis .
qed

lemma object_keys_pieces:
  assumes "MaxSegmentSize (params (CreateAt ob)) \<noteq> 0"
    "uint (PayloadSize ob) \<le> uint (MaxSegmentSize (params (CreateAt ob))) * (2 ^ 32 - 1)"
  shows "object_keys operator params ob = piece_keys operator (MaxSegmentSize (params (CreateAt ob))) ob"
proof -
  let ?m = "MaxSegmentSize (params (CreateAt ob))"
  define n where "n = unat (segment_count ob (params (CreateAt ob)))"
  have img: "f ` of_nat ` {0..<n} = {f i | i. uint i * uint ?m < uint (PayloadSize ob)}" for f :: "uint32 \<Rightarrow> string"
  proof -
    have "of_nat ` {0..<n} = {i :: uint32. unat i < n}"
      using order_less_trans [OF _ unsigned_less [of "segment_count ob (params (CreateAt ob))", where 'a = nat]]
      by (auto simp: n_def image_def unat_of_nat take_bit_nat_eq_self intro!: bexI [of _ "unat _"])
    then show ?thesis using segment_count_index [OF assms] by (auto simp: n_def)
  qed
  show ?thesis
  proof -
    have seg: "SegmentPieceKey (Id ob) ` of_nat ` {0..<n} = {SegmentPieceKey (Id ob) i | i. uint i * uint ?m < uint (PayloadSize ob)}"
      by (rule img)
    have ec: "(\<lambda>i. ECPieceKey (Id ob) i (of_nat r)) ` of_nat ` {0..<n}
        = {ECPieceKey (Id ob) i (of_nat r) | i. uint i * uint ?m < uint (PayloadSize ob)}" for r by (rule img)
    have "set (gc_keys operator ob (segment_count ob (params (CreateAt ob))))
        = SegmentPieceKey (Id ob) ` of_nat ` {0..<n}
        \<union> (\<Union>r \<in> {r. r < length (SecondarySpAddresses ob) \<and> SecondarySpAddresses ob ! r = operator}.
             if RedundancyType ob = REDUNDANCY_REPLICA_TYPE then SegmentPieceKey (Id ob) ` of_nat ` {0..<n}
             else (\<lambda>i. ECPieceKey (Id ob) i (of_nat r)) ` of_nat ` {0..<n})"
      by (simp add: gc_keys_def n_def enumerate_eq_zip zip_map_map set_zip image_image) (auto split: if_splits)
    then show ?thesis unfolding object_keys_def piece_keys_def seg ec by (auto split: if_splits)
  qed
qed

section \<open>Collection against the metadata service\<close>

definition row_object :: "ObjectRow \<Rightarrow> ObjectInfo" where
  "row_object r = object_of (md_ObjectInfo (metadata_object r))"

lemma row_object_simps [simp]: "md_ObjectInfo (metadata_object r) = Some (row_object r)" "md_DeleteAt (metadata_object r) = or_DeleteAt r"
  "Id (row_object r) = or_ObjectID r" "CreateAt (row_object r) = or_CreateTime r" "PayloadSize (row_object r) = or_PayloadSize r"
  by (simp_all add: row_object_def metadata_object_def object_of_def)

text \<open>The removed rows of the blocks of a task, oldest first.\<close>

definition removed_rows :: "BsDB \<Rightarrow> GfSpGCObjectTask \<Rightarrow> ObjectRow list" where
  "removed_rows db t = by_update (filter (removed_between (uint (gc_StartBlockNumber t)) (uint (gc_EndBlockNumber t))) (db_objects db))"

text \<open>
  What the collection relies on: the service is reached and answers the listing from the database, which knows the end
  of the range and dates the removal of an object by the block of its last update, the chain answers
  the storage parameters of every time, and objects have ids.
\<close>

definition gc_ready :: "('w, 'i) execute_env \<Rightarrow> BsDB \<Rightarrow> (int64 \<Rightarrow> Params) \<Rightarrow> GfSpGCObjectTask \<Rightarrow> ('w, 'i) ExecuteModular \<Rightarrow> bool" where
  "gc_ready env db params t e \<longleftrightarrow>
     fst (xe_ListDeletedObjects env (gc_StartBlockNumber t) (gc_EndBlockNumber t) (ex_world e))
       = client_ListDeletedObjects None db (gc_StartBlockNumber t) (gc_EndBlockNumber t) True
   \<and> db_error db = None \<and> (\<exists>latest. db_latest db = Inr latest \<and> uint (gc_EndBlockNumber t) \<le> latest)
   \<and> (\<forall>r \<in> set (db_objects db). or_Removed r \<longrightarrow> or_DeleteAt r = or_UpdateAt r \<and> or_ObjectID r \<noteq> 0)
   \<and> gc_StartBlockNumber t \<le> gc_EndBlockNumber t \<and> uint (gc_EndBlockNumber t) < 2 ^ 63
   \<and> gc_CurrentBlockNumber t \<le> gc_StartBlockNumber t
   \<and> (\<forall>ts w. fst (xe_QueryStorageParamsByTimestamp env ts w) = Inr (params ts)) \<and> (\<forall>ts. MaxSegmentSize (params ts) \<noteq> 0)
   \<and> store_ok (ex_pieceStore e)"

lemma removed_rows_sorted:
  assumes "gc_ready env db params t e" "rs = take n (removed_rows db t)"
  shows "sorted (gc_CurrentBlockNumber t # map (\<lambda>r. word_of_int (or_DeleteAt r)) rs)" "\<And>r. r \<in> set rs \<Longrightarrow> or_ObjectID r \<noteq> 0"
proof -
  have mem: "r \<in> set (db_objects db) \<and> removed_between (uint (gc_StartBlockNumber t)) (uint (gc_EndBlockNumber t)) r" if "r \<in> set rs" for r
    using in_set_takeD [of r n "removed_rows db t"] that assms(2) by (auto simp: removed_rows_def by_update_def)
  then show "or_ObjectID r \<noteq> 0" if "r \<in> set rs" for r using that assms(1) by (auto simp: gc_ready_def removed_between_def)
  have at: "or_DeleteAt r = or_UpdateAt r" "uint (gc_StartBlockNumber t) \<le> or_UpdateAt r" "or_UpdateAt r < 2 ^ 63" if "r \<in> set rs" for r
    using mem [OF that] assms(1) by (auto simp: gc_ready_def removed_between_def)
  have u: "uint (word_of_int (or_DeleteAt r) :: uint64) = or_UpdateAt r" if "r \<in> set rs" for r
    using at [OF that] order_trans [OF unsigned_greater_eq at(2) [OF that]] by (simp add: uint_word_of_int)
  have "sorted (map (\<lambda>r. (or_UpdateAt r, or_ObjectID r)) (removed_rows db t))" by (simp add: removed_rows_def by_update_def)
  then have "sorted (map (\<lambda>r. (or_UpdateAt r, or_ObjectID r)) rs)" by (simp add: assms(2) sorted_wrt_take flip: take_map)
  then have "sorted_wrt (\<lambda>a b. or_UpdateAt a \<le> or_UpdateAt b) rs"
    by (auto simp: sorted_map elim!: sorted_wrt_mono_rel [rotated])
  then have "sorted_wrt (\<lambda>a b. (word_of_int (or_DeleteAt a) :: uint64) \<le> word_of_int (or_DeleteAt b)) rs"
    by (rule sorted_wrt_mono_rel [rotated]) (simp add: word_le_def u)
  moreover have "gc_CurrentBlockNumber t \<le> word_of_int (or_DeleteAt r)" if "r \<in> set rs" for r
    using at(2) [OF that] u [OF that] assms(1) by (auto simp: gc_ready_def word_le_def)
  ultimately show "sorted (gc_CurrentBlockNumber t # map (\<lambda>r. word_of_int (or_DeleteAt r)) rs)" by (simp add: sorted_map)
qed

lemma gc_listing:
  assumes "gc_ready env db params t e"
  obtains e1 where "outside (xe_ListDeletedObjects env (gc_StartBlockNumber t) (gc_EndBlockNumber t)) e
    = (Inr (map metadata_object (take DeletedObjectsDefaultSize (removed_rows db t)), gc_EndBlockNumber t), e1)"
proof -
  have small: "uint (gc_EndBlockNumber t) < 2 ^ 63" "uint (gc_StartBlockNumber t) < 2 ^ 63"
    using assms by (auto simp: gc_ready_def word_le_def)
  have i: "int64_of_u64 (gc_StartBlockNumber t) = uint (gc_StartBlockNumber t)" "int64_of_u64 (gc_EndBlockNumber t) = uint (gc_EndBlockNumber t)"
    using int64_of_small [OF small(1)] int64_of_small [OF small(2)] by (simp_all add: int64_of_u64_def int64_of_def)
  obtain latest where l: "db_latest db = Inr latest" "uint (gc_EndBlockNumber t) \<le> latest" "db_error db = None" using assms by (auto simp: gc_ready_def)
  have "client_ListDeletedObjects None db (gc_StartBlockNumber t) (gc_EndBlockNumber t) True
      = Inr (map metadata_object (take DeletedObjectsDefaultSize (removed_rows db t)), gc_EndBlockNumber t)"
    using l by (auto simp: client_ListDeletedObjects_def GfSpListDeletedObjectsByBlockNumberRange_def i Let_def
        ListDeletedObjectsByBlockNumberRange_def removed_rows_def)
  then show thesis
    using that assms by (cases "xe_ListDeletedObjects env (gc_StartBlockNumber t) (gc_EndBlockNumber t) (ex_world e)") (auto simp: gc_ready_def outside_def)
qed

lemma gc_run:
  assumes "gc_ready env db params t e" "integrity_table (xe_integrity env) rows"
  shows "\<exists>t' e'. executor_HandleGCObjectTask env t e = Returns (t', e') \<and> gc_CurrentBlockNumber t' = gc_EndBlockNumber t + 1
    \<and> gc_Task t' = gc_Task t
    \<and> store_content (ex_pieceStore e') = (\<lambda>k. if k \<in> (\<Union>r \<in> set (take DeletedObjectsDefaultSize (removed_rows db t)).
          object_keys (xe_operator env) params (row_object r)) then None else store_content (ex_pieceStore e) k)
    \<and> rows (ex_integrity e') = (\<lambda>oid. if oid \<in> or_ObjectID ` set (take DeletedObjectsDefaultSize (removed_rows db t)) then None
          else rows (ex_integrity e) oid)"
proof -
  define rs where "rs = take DeletedObjectsDefaultSize (removed_rows db t)"
  obtain e1 where l: "outside (xe_ListDeletedObjects env (gc_StartBlockNumber t) (gc_EndBlockNumber t)) e
    = (Inr (map metadata_object rs, gc_EndBlockNumber t), e1)" unfolding rs_def by (rule gc_listing [OF assms(1)])
  note so = removed_rows_sorted [OF assms(1) rs_def]
  have ids: "\<And>ob. ob \<in> set (map row_object rs) \<Longrightarrow> Id ob \<noteq> 0" using so(2) by auto
  have g: "gc_StartBlockNumber t \<le> gc_EndBlockNumber t" "\<And>ts w. fst (xe_QueryStorageParamsByTimestamp env ts w) = Inr (params ts)"
    "\<And>ts. MaxSegmentSize (params ts) \<noteq> 0" "store_ok (ex_pieceStore e)" using assms(1) by (simp_all add: gc_ready_def)
  show ?thesis
    using HandleGC_run [OF l g(1) order_refl _ _ g(2,3) assms(2) ids g(4), where obs = "map row_object rs"] so(1)
    unfolding rs_def [symmetric] by (simp add: comp_def image_image)
qed

text \<open>
  C4. A collection task empties its range: when at most \<open>DeletedObjectsDefaultSize\<close> objects were removed
  in the blocks of the task, none of them with more segments than an index of 32 bits counts, the handler
  deletes, of each of these objects, every segment at which its payload has bytes and every erasure-coded
  piece of a replica that the object assigns to the provider, deletes no other piece, removes exactly the
  integrity records of these objects, and returns the task with the block after the range, which marks
  it as ended, and without an error.
\<close>

theorem gc_collects_range:
  assumes "gc_ready env db params t e" "integrity_table (xe_integrity env) rows"
    "length (removed_rows db t) \<le> DeletedObjectsDefaultSize"
    "\<forall>r \<in> set (removed_rows db t). uint (or_PayloadSize r) \<le> uint (MaxSegmentSize (params (or_CreateTime r))) * (2 ^ 32 - 1)"
  shows "\<exists>t' e'. executor_HandleGCObjectTask env t e = Returns (t', e')
    \<and> gc_CurrentBlockNumber t' = gc_EndBlockNumber t + 1 \<and> gc_Task t' = gc_Task t
    \<and> store_content (ex_pieceStore e') = (\<lambda>k. if k \<in> (\<Union>r \<in> set (removed_rows db t).
           piece_keys (xe_operator env) (MaxSegmentSize (params (or_CreateTime r))) (row_object r))
         then None else store_content (ex_pieceStore e) k)
    \<and> rows (ex_integrity e') = (\<lambda>oid. if oid \<in> or_ObjectID ` set (removed_rows db t) then None else rows (ex_integrity e) oid)"
proof -
  have "object_keys (xe_operator env) params (row_object r)
      = piece_keys (xe_operator env) (MaxSegmentSize (params (or_CreateTime r))) (row_object r)" if "r \<in> set (removed_rows db t)" for r
    using object_keys_pieces [of params "row_object r"] assms(1,4) that by (auto simp: gc_ready_def)
  then show ?thesis using gc_run [OF assms(1,2)] assms(3) by simp
qed

text \<open>
  Objects beyond the limit of the listing are forgotten: when more objects were removed in the blocks of
  a task than one answer of the metadata service lists, the pieces of the later ones stay in the
  piece store, and the task still ends with the block after its range, so that no other task covers them.
\<close>

theorem gc_forgets_beyond_limit:
  assumes "gc_ready env db params t e" "integrity_table (xe_integrity env) rows"
    "DeletedObjectsDefaultSize \<le> i" "i < length (removed_rows db t)" "distinct (map or_ObjectID (db_objects db))"
    "k \<in> object_keys (xe_operator env) params (row_object (removed_rows db t ! i))" "store_content (ex_pieceStore e) k = Some d"
  shows "\<exists>t' e'. executor_HandleGCObjectTask env t e = Returns (t', e')
    \<and> gc_CurrentBlockNumber t' = gc_EndBlockNumber t + 1 \<and> store_content (ex_pieceStore e') k = Some d"
proof -
  have dist: "distinct (map or_ObjectID (removed_rows db t))"
    using assms(5) by (simp add: removed_rows_def by_update_def distinct_map inj_on_def)
  have "k \<notin> object_keys (xe_operator env) params (row_object r)" if "r \<in> set (take DeletedObjectsDefaultSize (removed_rows db t))" for r
  proof
    assume "k \<in> object_keys (xe_operator env) params (row_object r)"
    then have "or_ObjectID r = or_ObjectID (removed_rows db t ! i)" using object_keys_id [OF _ assms(6)] by fastforce
    moreover obtain j where "j < DeletedObjectsDefaultSize" "j < length (removed_rows db t)" "r = removed_rows db t ! j"
      using \<open>r \<in> set _\<close> by (auto simp: in_set_conv_nth)
    ultimately show False using dist assms(3,4) by (auto simp: distinct_conv_nth)
  qed
  then show ?thesis using gc_run [OF assms(1,2)] assms(7) by auto
qed

section \<open>A concrete run\<close>

definition demo_row :: "nat \<Rightarrow> ObjectRow" where
  "demo_row i = \<lparr>or_ObjectID = of_nat (i + 1), or_BucketID = 1, or_BucketName = ''b'', or_ObjectName = ''o'', or_PayloadSize = 3,
     or_Visibility = [], or_CreateTime = 0, or_ObjectStatus = OBJECT_STATUS_SEALED, or_RedundancyType = REDUNDANCY_EC_TYPE,
     or_Checksums = [], or_SecondarySpAddresses = [''other'', ''self''], or_ContentType = [], or_Removed = True, or_UpdateAt = 5, or_DeleteAt = 5\<rparr>"

definition demo_db :: "nat \<Rightarrow> BsDB" where
  "demo_db n = \<lparr>db_latest = Inr 20, db_error = None, db_objects = map demo_row [0..<n], db_buckets = []\<rparr>"

definition demo_gc_task :: GfSpGCObjectTask where
  "demo_gc_task = \<lparr>gc_Task = new_task, gc_StartBlockNumber = 3, gc_EndBlockNumber = 9, gc_CurrentBlockNumber = 0, gc_LastDeletedObjectId = 0\<rparr>"

definition demo_gc_env :: "BsDB \<Rightarrow> (nat, (uint64 \<times> IntegrityMetaTable) list) execute_env" where
  "demo_gc_env db = demo_exec_env\<lparr>xe_ListDeletedObjects := (\<lambda>a b w. (client_ListDeletedObjects None db a b True, Suc w))\<rparr>"

lemma removed_demo_rows: "n < 2 ^ 63 \<Longrightarrow> removed_rows (demo_db n) demo_gc_task = map demo_row [0..<n]"
proof -
  assume n: "n < 2 ^ 63"
  have "filter (removed_between 3 9) (map demo_row [0..<n]) = map demo_row [0..<n]"
    by (rule filter_True) (auto simp: demo_row_def removed_between_def)
  moreover have "sort_key (\<lambda>r. (or_UpdateAt r, or_ObjectID r)) (map demo_row [0..<n]) = map demo_row [0..<n]"
  proof (rule sort_key_id_if_sorted)
    show "sorted (map (\<lambda>r. (or_UpdateAt r, or_ObjectID r)) (map demo_row [0..<n]))"
      using n by (auto simp: sorted_map sorted_wrt_upt sorted_wrt_iff_nth_less demo_row_def word_le_nat_alt unat_of_nat simp flip: of_nat_Suc)
  qed
  ultimately show ?thesis by (simp add: removed_rows_def demo_db_def demo_gc_task_def by_update_def)
qed

lemma demo_gc_ready: "gc_ready (demo_gc_env (demo_db n)) (demo_db n) (\<lambda>_. \<lparr>MaxPayloadSize = 100, MaxSegmentSize = 2, RedundantDataChunkNum = 1,
    RedundantParityChunkNum = 1\<rparr>) demo_gc_task (demo_executor\<lparr>ex_pieceStore := s\<rparr>)" if "n < 2 ^ 63" "store_ok s"
proof -
  have "(of_nat (Suc i) :: uint64) \<noteq> 0" if "i < n" for i
    using \<open>n < 2 ^ 63\<close> that by (simp add: word_unat_eq_iff unat_of_nat del: of_nat_Suc)
  then show ?thesis
    using that(2) by (auto simp: gc_ready_def demo_gc_env_def demo_exec_env_def demo_gc_task_def demo_db_def demo_row_def)
qed

definition demo_pieces :: ObjectStorage where
  "demo_pieces = MemStore \<lparr>ms_name = [], ms_objects = [(''s1_s0'', \<lparr>mo_data = [1], mo_modTime = 0\<rparr>), (''e2_s1_p1'', \<lparr>mo_data = [2], mo_modTime = 0\<rparr>),
     (''s1001_s0'', \<lparr>mo_data = [3], mo_modTime = 0\<rparr>)]\<rparr>"

lemma demo_gc_facts: "store_ok demo_pieces" "integrity_table (xe_integrity (demo_gc_env db)) map_of" "xe_operator (demo_gc_env db) = ''self''"
  using integrity_rows.integrity_table_axioms
  by (simp_all add: demo_pieces_def store_ok_def mem_content_def demo_gc_env_def demo_exec_env_def)

lemma demo_piece: "''e2_s1_p1'' \<in> piece_keys ''self'' 2 (row_object (demo_row 1))" "''s1_s0'' \<in> piece_keys ''self'' 2 (row_object (demo_row 0))"
proof -
  have k: "''e2_s1_p1'' = ECPieceKey (Id (row_object (demo_row 1))) 1 (of_nat 1)" "''s1_s0'' = SegmentPieceKey (Id (row_object (demo_row 0))) 0"
    by code_simp+
  have f: "SecondarySpAddresses (row_object (demo_row n)) = [''other'', ''self'']" "or_PayloadSize (demo_row n) = 3"
    "RedundancyType (row_object (demo_row n)) = REDUNDANCY_EC_TYPE" for n
    by (simp_all add: row_object_def object_of_def metadata_object_def demo_row_def)
  show "''e2_s1_p1'' \<in> piece_keys ''self'' 2 (row_object (demo_row 1))" unfolding k by (rule piece_keysI(2)) (simp_all add: f)
  show "''s1_s0'' \<in> piece_keys ''self'' 2 (row_object (demo_row 0))" unfolding k by (rule piece_keysI(1)) (simp add: f)
qed

theorem gc_collects_range_witness:
  "\<exists>t' e'. executor_HandleGCObjectTask (demo_gc_env (demo_db 2)) demo_gc_task (demo_executor\<lparr>ex_pieceStore := demo_pieces\<rparr>) = Returns (t', e')
     \<and> gc_CurrentBlockNumber t' = 10 \<and> store_content (ex_pieceStore e') ''e2_s1_p1'' = None \<and> store_content (ex_pieceStore e') ''s1_s0'' = None"
proof -
  let ?p = "\<lambda>_ :: int64. \<lparr>MaxPayloadSize = 100, MaxSegmentSize = 2, RedundantDataChunkNum = 1, RedundantParityChunkNum = 1\<rparr>"
  have rows: "removed_rows (demo_db 2) demo_gc_task = [demo_row 0, demo_row 1]" by (simp add: removed_demo_rows upt_rec)
  have small: "length (removed_rows (demo_db 2) demo_gc_task) \<le> DeletedObjectsDefaultSize" by (simp add: rows DeletedObjectsDefaultSize_def)
  have "(2 :: nat) < 2 ^ 63" by simp
  from gc_collects_range [OF demo_gc_ready [OF this demo_gc_facts(1)] demo_gc_facts(2) small]
  obtain t' e' where r: "executor_HandleGCObjectTask (demo_gc_env (demo_db 2)) demo_gc_task (demo_executor\<lparr>ex_pieceStore := demo_pieces\<rparr>) = Returns (t', e')"
    "gc_CurrentBlockNumber t' = gc_EndBlockNumber demo_gc_task + 1"
    and c: "store_content (ex_pieceStore e') = (\<lambda>k. if k \<in> (\<Union>r \<in> set (removed_rows (demo_db 2) demo_gc_task).
       piece_keys (xe_operator (demo_gc_env (demo_db 2))) 2 (row_object r)) then None
       else store_content (ex_pieceStore (demo_executor\<lparr>ex_pieceStore := demo_pieces\<rparr>)) k)" by (auto simp: rows demo_row_def)
  from c demo_piece have "store_content (ex_pieceStore e') ''e2_s1_p1'' = None" "store_content (ex_pieceStore e') ''s1_s0'' = None"
    by (simp_all add: demo_gc_facts(3) rows)
  then show ?thesis using r by (simp add: demo_gc_task_def)
qed

theorem gc_forgets_beyond_limit_witness:
  "\<exists>t' e'. executor_HandleGCObjectTask (demo_gc_env (demo_db 1001)) demo_gc_task (demo_executor\<lparr>ex_pieceStore := demo_pieces\<rparr>) = Returns (t', e')
     \<and> gc_CurrentBlockNumber t' = 10 \<and> store_content (ex_pieceStore e') ''s1001_s0'' = Some [3]"
proof -
  let ?p = "\<lambda>_ :: int64. \<lparr>MaxPayloadSize = 100, MaxSegmentSize = 2, RedundantDataChunkNum = 1, RedundantParityChunkNum = 1\<rparr>"
  let ?e = "demo_executor\<lparr>ex_pieceStore := demo_pieces\<rparr>"
  have rows: "removed_rows (demo_db 1001) demo_gc_task = map demo_row [0..<1001]" by (simp add: removed_demo_rows)
  have dist: "distinct (map or_ObjectID (db_objects (demo_db 1001)))"
    by (auto simp: demo_db_def demo_row_def distinct_map inj_on_def word_unat_eq_iff unat_of_nat simp flip: of_nat_Suc)
  have key: "''s1001_s0'' \<in> object_keys ''self'' ?p (row_object (demo_row 1000))" by code_simp
  have nth: "removed_rows (demo_db 1001) demo_gc_task ! 1000 = demo_row 1000" unfolding rows by simp
  show ?thesis
    using gc_forgets_beyond_limit [OF demo_gc_ready [OF _ demo_gc_facts(1), of 1001] demo_gc_facts(2), of 1000 "''s1001_s0''" "[3]"] dist key
    unfolding nth by (simp add: rows demo_gc_facts(3) DeletedObjectsDefaultSize_def) (simp add: demo_pieces_def mem_content_def demo_gc_task_def)
qed

text \<open>
  A canceled task goes on: when the manager answers a progress report with its error for canceled tasks,
  the executor does not take the task for canceled, because the decoded error is not the predefined object
  that \<open>errors.Is\<close> compares it with.
\<close>

theorem gc_cancellation_ignored:
  assumes "xe_manager_conn env (ex_world e) = (True, w)" "xe_rpc_report env (GCObjectTask t) w = (Inr (Some ErrCanceledTask), w')"
  shows "reportProgress env t e = (False, e\<lparr>ex_world := w'\<rparr>)"
  using assms by (simp add: reportProgress_def executor_ReportTask_def outside_def client_ReportTask_def)

theorem gc_cancellation_ignored_witness:
  "reportProgress (demo_exec_env\<lparr>xe_rpc_report := \<lambda>t w. (Inr (Some ErrCanceledTask), Suc w)\<rparr>) demo_gc_task demo_executor
     = (False, demo_executor\<lparr>ex_world := 2\<rparr>)"
  using gc_cancellation_ignored [of "demo_exec_env\<lparr>xe_rpc_report := \<lambda>t w. (Inr (Some ErrCanceledTask), Suc w)\<rparr>" demo_executor 1 demo_gc_task 2]
  by (simp add: demo_exec_env_def demo_executor_def DefaultExecutorOptions_def)

end
