(* ===== verification/Replicator.thy ===== *)
theory Replicator
  imports Executor "HOL-Library.Multiset"
begin

text \<open>
  Replication by the executor of the primary provider: \<open>modular/executor/execute_replicate.go\<close>. The
  executor asks for approvals, sends the pieces of every segment to the approved providers, closes
  the replication with each of them and checks the integrity hash and the signature it gets back;
  a provider that fails is replaced by the next approval. Then the object is sealed.

  The goroutines that send the pieces of one segment only talk to the outside, their errors are
  dropped and all of them are waited for; they run here in the order of their start, and since the
  answers of the outside are arbitrary the results do not depend on it. The slots of the slices are
  list positions, an approval that was never set is \<open>None\<close>.
\<close>

section \<open>Approvals\<close>

text \<open>\<open>math.Ceil(float64(low) * factor)\<close> for the factor \<open>m / 2 ^ e\<close>, converted to \<open>int\<close>.\<close>

definition approval_high :: "uint32 \<Rightarrow> nat \<times> nat \<Rightarrow> go_int" where
  "approval_high low factor =
     (let v = f64_div_ceil (unat low * fst factor) (2 ^ snd factor) in if 2 ^ 63 \<le> v then - (2 ^ 63) else int v)"

fun fill_approvals :: "('w, 'i) execute_env \<Rightarrow> GfSpReplicatePieceApprovalTask list \<Rightarrow> ('w, 'i) ExecuteModular
    \<Rightarrow> GfSpReplicatePieceApprovalTask list \<times> ('w, 'i) ExecuteModular" where
  "fill_approvals env [] e = ([], e)"
| "fill_approvals env (a # as) e =
     (case outside (xe_GetSpByAddress env (ra_ApprovedSpOperatorAddress a)) e of (res, e) \<Rightarrow>
        let a = (case res of Inl _ \<Rightarrow> a
                 | Inr spInfo \<Rightarrow> a\<lparr>ra_ApprovedSpEndpoint := sp_Endpoint spInfo, ra_ApprovedSpApprovalAddress := sp_ApprovalAddress spInfo\<rparr>)
        in case fill_approvals env as e of (as, e) \<Rightarrow> (a # as, e))"

definition AskReplicatePieceApproval :: "('w, 'i) execute_env \<Rightarrow> GfSpReplicatePieceApprovalTask \<Rightarrow> go_int \<Rightarrow> go_int \<Rightarrow> int64
    \<Rightarrow> ('w, 'i) ExecuteModular \<Rightarrow> (go_error + GfSpReplicatePieceApprovalTask list) \<times> ('w, 'i) ExecuteModular" where
  "AskReplicatePieceApproval env task low high timeout e =
     (case outside (xe_AskApproval env task low high timeout) e of
        (Inl err, e) \<Rightarrow> (Inl err, e)
      | (Inr approvals, e) \<Rightarrow>
          if int (length approvals) < low then (Inl ErrInsufficientApproval, e)
          else (case fill_approvals env approvals e of (approvals, e) \<Rightarrow>
                  if int (length approvals) < low then (Inl ErrExecGfSpDB, e) else (Inr approvals, e)))"

section \<open>One piece, one replica\<close>

definition veritySignature :: "('w, 'i) execute_env \<Rightarrow> uint64 \<Rightarrow> bytes \<Rightarrow> bytes \<Rightarrow> string \<Rightarrow> string \<Rightarrow> bytes \<Rightarrow> go_error option" where
  "veritySignature env objectID integrity expectedIntegrity signOpAddress signApprovalAddress signature =
     (if expectedIntegrity \<noteq> integrity then Some ErrReplicaIntegrity
      else case xe_AccAddress env signOpAddress of
             Inl err \<Rightarrow> Some err
           | Inr signOp \<Rightarrow>
               (case xe_AccAddress env signApprovalAddress of
                  Inl err \<Rightarrow> Some err
                | Inr signApproval \<Rightarrow> xe_VerifySignature env signApproval (xe_SignDoc env signOp objectID integrity) signature))"

definition doReplicatePiece :: "('w, 'i) execute_env \<Rightarrow> GfSpReplicatePieceTask \<Rightarrow> GfSpReplicatePieceApprovalTask \<Rightarrow> uint32 \<Rightarrow> uint32 \<Rightarrow> bytes
    \<Rightarrow> ('w, 'i) ExecuteModular \<Rightarrow> go_error option \<times> ('w, 'i) ExecuteModular" where
  "doReplicatePiece env rTask approval replicateIdx pieceIdx data e =
     (let oid = Id (object_of (rp_ObjectInfo rTask));
          receive = (InitReceivePieceTask (xe_now env (ex_world e)) (rp_ObjectInfo rTask) (rp_StorageParams rTask)
            (TaskPriority_of TypeTaskReplicatePiece) replicateIdx (i32 (uint pieceIdx)) (int (length data)))
            \<lparr>rv_PieceChecksum := xe_hash env data\<rparr>
      in case outside (xe_SignReceiveTask env receive) e of
           (Inl err, e) \<Rightarrow> (Some err, e)
         | (Inr signature, e) \<Rightarrow>
             let receive = receive\<lparr>rv_Signature := signature\<rparr>
             in case outside (xe_ReplicatePiece env (ra_ApprovedSpEndpoint approval) approval receive data)
                       (exec_event oid ''executor_begin_replicate_one_piece'' e) of
                  (err, e) \<Rightarrow> (err, exec_event oid ''executor_end_replicate_one_piece'' e))"

definition doneReplicatePiece :: "('w, 'i) execute_env \<Rightarrow> GfSpReplicatePieceTask \<Rightarrow> GfSpReplicatePieceApprovalTask \<Rightarrow> uint32
    \<Rightarrow> ('w, 'i) ExecuteModular \<Rightarrow> (go_error + bytes \<times> bytes) \<times> ('w, 'i) ExecuteModular" where
  "doneReplicatePiece env rTask approval replicateIdx e =
     (let ob = object_of (rp_ObjectInfo rTask);
          receive = InitReceivePieceTask (xe_now env (ex_world e)) (rp_ObjectInfo rTask) (rp_StorageParams rTask)
            (TaskPriority_of TypeTaskReplicatePiece) replicateIdx (-1) 0
      in case outside (xe_SignReceiveTask env receive) e of
           (Inl err, e) \<Rightarrow> (Inl err, e)
         | (Inr taskSignature, e) \<Rightarrow>
             (case outside (xe_DoneReplicate env (ra_ApprovedSpEndpoint approval) approval (receive\<lparr>rv_Signature := taskSignature\<rparr>))
                     (exec_event (Id ob) ''executor_begin_done_replicate_piece'' e) of (res, e) \<Rightarrow>
                let e = exec_event (Id ob) ''executor_end_done_replicate_piece'' e
                in case res of
                     Inl err \<Rightarrow> (Inl err, e)
                   | Inr (integrity, signature) \<Rightarrow>
                       if unat (replicateIdx + 1) \<ge> length (Checksums ob) then (Inl ErrReplicateIdsOutOfBounds, e)
                       else (case veritySignature env (Id ob) integrity (Checksums ob ! unat (replicateIdx + 1))
                                    (ra_ApprovedSpOperatorAddress approval) (ra_ApprovedSpApprovalAddress approval) signature of
                               Some err \<Rightarrow> (Inl err, e)
                             | None \<Rightarrow> (Inr (integrity, signature), e))))"

section \<open>All replicas\<close>

record replication =
  rn_record :: "bool list"
  rn_secondaryAddresses :: "string list"
  rn_secondarySignatures :: "bytes list"
  rn_approvals :: "GfSpReplicatePieceApprovalTask option list"
  rn_backUpApprovals :: "GfSpReplicatePieceApprovalTask list"

text \<open>\<open>resetApprovals\<close>, over the indices of the slots still to visit.\<close>

fun reset_slots :: "nat list \<Rightarrow> bool \<Rightarrow> replication \<Rightarrow> (go_error + bool) \<times> replication" where
  "reset_slots [] doneAll n = (Inr doneAll, n)"
| "reset_slots (rIdx # rs) doneAll n =
     (if rn_record n ! rIdx then reset_slots rs doneAll n
      else case rn_backUpApprovals n of
             [] \<Rightarrow> (Inl ErrExhaustedApproval, n)
           | a # as \<Rightarrow> reset_slots rs False (n\<lparr>rn_approvals := (rn_approvals n)[rIdx := Some a], rn_backUpApprovals := as\<rparr>))"

definition resetApprovals :: "replication \<Rightarrow> (go_error + bool) \<times> replication" where
  "resetApprovals n = reset_slots [0..<length (rn_record n)] True n"

text \<open>Sending one piece to every replica that is not done, the data given by the index of the replica.\<close>

fun replicate_slots :: "('w, 'i) execute_env \<Rightarrow> GfSpReplicatePieceTask \<Rightarrow> replication \<Rightarrow> uint32 \<Rightarrow> (nat \<Rightarrow> bytes option) \<Rightarrow> nat list
    \<Rightarrow> ('w, 'i) ExecuteModular \<Rightarrow> ('w, 'i) ExecuteModular go" where
  "replicate_slots env rTask n pieceIdx data [] e = Returns e"
| "replicate_slots env rTask n pieceIdx data (rIdx # rs) e =
     (if rn_record n ! rIdx then replicate_slots env rTask n pieceIdx data rs e
      else case (rn_approvals n ! rIdx, data rIdx) of
             (Some a, Some d) \<Rightarrow>
               replicate_slots env rTask n pieceIdx data rs (snd (doReplicatePiece env rTask a (of_nat rIdx) pieceIdx d e))
           | _ \<Rightarrow> Panics)"

definition doReplicateECPiece :: "('w, 'i) execute_env \<Rightarrow> GfSpReplicatePieceTask \<Rightarrow> replication \<Rightarrow> uint32 \<Rightarrow> bytes list
    \<Rightarrow> ('w, 'i) ExecuteModular \<Rightarrow> ('w, 'i) ExecuteModular go" where
  "doReplicateECPiece env rTask n pieceIdx data =
     replicate_slots env rTask n pieceIdx (\<lambda>rIdx. if rIdx < length data then Some (data ! rIdx) else None) [0..<length (rn_record n)]"

definition doReplicateSegmentPiece :: "('w, 'i) execute_env \<Rightarrow> GfSpReplicatePieceTask \<Rightarrow> replication \<Rightarrow> uint32 \<Rightarrow> bytes
    \<Rightarrow> ('w, 'i) ExecuteModular \<Rightarrow> ('w, 'i) ExecuteModular go" where
  "doReplicateSegmentPiece env rTask n pieceIdx data =
     replicate_slots env rTask n pieceIdx (\<lambda>rIdx. Some data) [0..<length (rn_record n)]"

text \<open>The loop over the segments; the result is the error that makes \<open>handleReplicatePiece\<close> return.\<close>

fun replicate_segments :: "('w, 'i) execute_env \<Rightarrow> GfSpReplicatePieceTask \<Rightarrow> ObjectInfo \<Rightarrow> Params \<Rightarrow> replication \<Rightarrow> nat list
    \<Rightarrow> ('w, 'i) ExecuteModular \<Rightarrow> (go_error option \<times> ('w, 'i) ExecuteModular) go" where
  "replicate_segments env rTask ob params n [] e = Returns (None, e)"
| "replicate_segments env rTask ob params n (pIdx # ps) e =
     bind_go (GetPiece (ex_pieceStore e) (SegmentPieceKey (Id ob) (of_nat pIdx)) 0 (-1)) (\<lambda>piece.
       case piece of
         Inl err \<Rightarrow> Returns (Some (PlainErr (store_text err)), e)
       | Inr segData \<Rightarrow>
           if RedundancyType ob = REDUNDANCY_EC_TYPE then
             (case xe_EncodeRawSegment env segData (uint (RedundantDataChunkNum params)) (uint (RedundantParityChunkNum params)) of
                Inl err \<Rightarrow> Returns (Some err, e)
              | Inr ecData \<Rightarrow> bind_go (doReplicateECPiece env rTask n (of_nat pIdx) ecData e) (replicate_segments env rTask ob params n ps))
           else bind_go (doReplicateSegmentPiece env rTask n (of_nat pIdx) segData e) (replicate_segments env rTask ob params n ps))"

fun done_slots :: "('w, 'i) execute_env \<Rightarrow> GfSpReplicatePieceTask \<Rightarrow> nat list \<Rightarrow> replication \<Rightarrow> ('w, 'i) ExecuteModular
    \<Rightarrow> (replication \<times> ('w, 'i) ExecuteModular) go" where
  "done_slots env rTask [] n e = Returns (n, e)"
| "done_slots env rTask (rIdx # rs) n e =
     (if rn_record n ! rIdx then done_slots env rTask rs n e
      else case rn_approvals n ! rIdx of
             None \<Rightarrow> Panics
           | Some a \<Rightarrow>
               (case doneReplicatePiece env rTask a (of_nat rIdx) e of
                  (Inl _, e) \<Rightarrow> done_slots env rTask rs n e
                | (Inr (_, signature), e) \<Rightarrow>
                    done_slots env rTask rs
                      (n\<lparr>rn_secondaryAddresses := (rn_secondaryAddresses n)[rIdx := ra_ApprovedSpOperatorAddress a],
                         rn_secondarySignatures := (rn_secondarySignatures n)[rIdx := signature],
                         rn_record := (rn_record n)[rIdx := True]\<rparr>) e))"

definition doneReplicate :: "('w, 'i) execute_env \<Rightarrow> GfSpReplicatePieceTask \<Rightarrow> replication \<Rightarrow> ('w, 'i) ExecuteModular
    \<Rightarrow> (replication \<times> ('w, 'i) ExecuteModular) go" where
  "doneReplicate env rTask n = done_slots env rTask [0..<length (rn_record n)] n"

text \<open>The slots use up approvals one by one, from the front.\<close>

lemma reset_slots_le: "reset_slots rs d n = (res, n') \<Longrightarrow> length (rn_backUpApprovals n') \<le> length (rn_backUpApprovals n)"
  by (induction rs d n rule: reset_slots.induct) (fastforce split: if_splits list.splits)+

lemma reset_slots_less:
  "reset_slots rs True n = (Inr False, n') \<Longrightarrow> length (rn_backUpApprovals n') < length (rn_backUpApprovals n)"
  by (induction rs) (auto dest!: reset_slots_le split: if_splits list.splits)

lemma done_slots_keeps:
  "done_slots env rTask rs n e = Returns (n', e') \<Longrightarrow> rn_backUpApprovals n' = rn_backUpApprovals n \<and> rn_approvals n' = rn_approvals n
     \<and> length (rn_record n') = length (rn_record n)"
  by (induction env rTask rs n e rule: done_slots.induct) (auto split: if_splits option.splits prod.splits sum.splits)

lemma bind_go_cong [fundef_cong]: "m = m' \<Longrightarrow> (\<And>a. m' = Returns a \<Longrightarrow> f a = g a) \<Longrightarrow> bind_go m f = bind_go m' g"
  by (cases m') simp_all

lemma round_uses_approval:
  assumes "resetApprovals n = (Inr False, n1)" "doneReplicate env rTask n1 e1 = Returns (n2, e2)"
  shows "length (rn_backUpApprovals n2) < length (rn_backUpApprovals n)"
  using reset_slots_less [OF assms(1) [unfolded resetApprovals_def]] done_slots_keeps [OF assms(2) [unfolded doneReplicate_def]] by simp

text \<open>
  The outer loop. A round that is not the last takes an approval for at least one slot, so that the loop
  ends; the rounds after the approvals are used up return \<open>ErrExhaustedApproval\<close>.
\<close>

function replicate_rounds :: "('w, 'i) execute_env \<Rightarrow> GfSpReplicatePieceTask \<Rightarrow> ObjectInfo \<Rightarrow> Params \<Rightarrow> uint32 \<Rightarrow> replication \<Rightarrow> ('w, 'i) ExecuteModular
    \<Rightarrow> (go_error option \<times> GfSpReplicatePieceTask \<times> ('w, 'i) ExecuteModular) go" where
  "replicate_rounds env rTask ob params segCount n e =
     (case resetApprovals n of
        (Inl err, n) \<Rightarrow> Returns (Some err, rTask, e)
      | (Inr True, n) \<Rightarrow>
          Returns (None, rTask\<lparr>rp_SecondaryAddresses := rn_secondaryAddresses n, rp_SecondarySignatures := rn_secondarySignatures n\<rparr>, e)
      | (Inr False, n) \<Rightarrow>
          bind_go (replicate_segments env rTask ob params n [0..<unat segCount] e) (\<lambda>(err, e).
            if err \<noteq> None then Returns (err, GfSpReplicatePieceTask_on_task (base_SetError err) rTask, e)
            else bind_go (doneReplicate env rTask n e) (\<lambda>(n, e). replicate_rounds env rTask ob params segCount n e)))"
  by pat_completeness auto

termination
proof (relation "measure (\<lambda>(env, rTask, ob, params, segCount, n, e). length (rn_backUpApprovals n))", goal_cases)
  case (2 env rTask ob params segCount n e res n1 b v err e1 v' n2 e2)
  then show ?case using round_uses_approval [of n n1 env rTask e1 n2 e2] by auto
qed simp

declare replicate_rounds.simps [simp del]

definition new_replication :: "nat \<Rightarrow> GfSpReplicatePieceApprovalTask list \<Rightarrow> replication" where
  "new_replication replCount backUpApprovals =
     \<lparr>rn_record = replicate replCount False, rn_secondaryAddresses = replicate replCount [],
      rn_secondarySignatures = replicate replCount [], rn_approvals = replicate replCount None, rn_backUpApprovals = backUpApprovals\<rparr>"

text \<open>\<open>handleReplicatePiece\<close> is called with the object and the parameters of the task present.\<close>

definition handleReplicatePiece :: "('w, 'i) execute_env \<Rightarrow> GfSpReplicatePieceTask \<Rightarrow> ObjectInfo \<Rightarrow> Params \<Rightarrow> GfSpReplicatePieceApprovalTask list
    \<Rightarrow> ('w, 'i) ExecuteModular \<Rightarrow> (go_error option \<times> GfSpReplicatePieceTask \<times> ('w, 'i) ExecuteModular) go" where
  "handleReplicatePiece env rTask ob params backUpApprovals e =
     bind_go (SegmentPieceCount (PayloadSize ob) (MaxSegmentSize params)) (\<lambda>segCount.
       replicate_rounds env rTask ob params segCount
         (new_replication (unat (RedundantDataChunkNum params + RedundantParityChunkNum params)) backUpApprovals) e)"

definition executor_HandleReplicatePieceTask :: "('w, 'i) execute_env \<Rightarrow> GfSpReplicatePieceTask option \<Rightarrow> ('w, 'i) ExecuteModular
    \<Rightarrow> (GfSpReplicatePieceTask \<times> ('w, 'i) ExecuteModular) go" where
  "executor_HandleReplicatePieceTask env task e =
     (let finish = (\<lambda>err t e. Returns (GfSpReplicatePieceTask_on_task (base_SetError err) t, e)) in
      case task of
        None \<Rightarrow> Panics
      | Some t \<Rightarrow>
          (case (rp_ObjectInfo t, rp_StorageParams t) of
             (Some ob, Some params) \<Rightarrow>
               let low = RedundantDataChunkNum params + RedundantParityChunkNum params;
                   rAppTask = InitApprovalReplicatePieceTask (xe_now env (ex_world e)) (Some ob) (Some params)
                     (TaskPriority_of TypeTaskReplicatePieceApproval) (xe_operator env)
               in (case AskReplicatePieceApproval env rAppTask (uint low) (approval_high low (ex_askReplicateApprovalExFactor e))
                          (ex_askReplicateApprovalTimeout e) (exec_event (Id ob) ''executor_begin_p2p'' e) of
                     (Inl err, e) \<Rightarrow> finish (Some err) t (exec_event (Id ob) ''executor_end_p2p'' e)
                   | (Inr approvals, e) \<Rightarrow>
                       bind_go (handleReplicatePiece env t ob params approvals
                                  (exec_event (Id ob) ''executor_begin_replicate_all_piece'' (exec_event (Id ob) ''executor_end_p2p'' e)))
                         (\<lambda>(err, t, e).
                          let e = exec_event (Id ob) ''executor_end_replicate_all_piece'' e
                          in if err \<noteq> None then finish err t e
                             else (case sealObject env (rp_Task t) ob
                                          (seal_msg env ob (rp_SecondaryAddresses t) (rp_SecondarySignatures t)) e of
                                     (sealErr, e) \<Rightarrow> finish None (if sealErr = None then t\<lparr>rp_Sealed := True\<rparr> else t) e)))
           | _ \<Rightarrow> finish (Some ErrExecDangling) t e))"

section \<open>Invariants of a replication\<close>

text \<open>An approval and a signature that are good for a slot.\<close>

definition slot_ok :: "('w, 'i) execute_env \<Rightarrow> ObjectInfo \<Rightarrow> nat \<Rightarrow> GfSpReplicatePieceApprovalTask \<Rightarrow> bytes \<Rightarrow> bool" where
  "slot_ok env ob r a sig \<longleftrightarrow> Suc r < length (Checksums ob)
     \<and> veritySignature env (Id ob) (Checksums ob ! Suc r) (Checksums ob ! Suc r) (ra_ApprovedSpOperatorAddress a) (ra_ApprovedSpApprovalAddress a) sig = None"

lemma doneReplicatePiece_ok:
  assumes "doneReplicatePiece env rTask a (of_nat r) e = (Inr (integrity, sig), e')" "rp_ObjectInfo rTask = Some ob" "Suc r < 2 ^ 32"
  shows "slot_ok env ob r a sig"
proof -
  have "unat (of_nat (Suc r) :: uint32) = Suc r" using assms(3) by (simp add: unat_of_nat del: of_nat_Suc)
  then have "unat (of_nat r + 1 :: uint32) = Suc r" by (simp add: add.commute)
  moreover have "veritySignature env oid expected expected x y z = None" if "veritySignature env oid integrity expected x y z = None" for oid expected x y z
    using that by (auto simp: veritySignature_def split: if_splits)
  ultimately show ?thesis
    using assms(1,2)
    by (auto simp: doneReplicatePiece_def slot_ok_def Let_def object_of_def split: prod.splits sum.splits if_splits option.splits)
qed

definition done_set :: "replication \<Rightarrow> nat set" where
  "done_set n = {i. i < length (rn_record n) \<and> rn_record n ! i}"

text \<open>The approvals in a set of slots, with multiplicity.\<close>

definition held :: "replication \<Rightarrow> nat set \<Rightarrow> GfSpReplicatePieceApprovalTask multiset" where
  "held n S = (\<Sum>i \<in> S. {#the (rn_approvals n ! i)#})"

definition sized :: "nat \<Rightarrow> replication \<Rightarrow> bool" where
  "sized k n \<longleftrightarrow> length (rn_record n) = k \<and> length (rn_secondaryAddresses n) = k \<and> length (rn_secondarySignatures n) = k
     \<and> length (rn_approvals n) = k"

definition slots_good :: "('w, 'i) execute_env \<Rightarrow> ObjectInfo \<Rightarrow> replication \<Rightarrow> bool" where
  "slots_good env ob n \<longleftrightarrow> (\<forall>i \<in> done_set n. \<exists>a. rn_approvals n ! i = Some a \<and> rn_secondaryAddresses n ! i = ra_ApprovedSpOperatorAddress a
     \<and> slot_ok env ob i a (rn_secondarySignatures n ! i))"

lemma held_mono: "finite T \<Longrightarrow> S \<subseteq> T \<Longrightarrow> held n S \<subseteq># held n T"
  unfolding held_def by (metis add.commute mset_subset_eq_add_left sum.subset_diff)

lemma held_cong: "(\<And>i. i \<in> S \<Longrightarrow> rn_approvals n ! i = rn_approvals m ! i) \<Longrightarrow> held n S = held m S"
  by (simp add: held_def)

lemma reset_slots_False: "reset_slots rs False n = (Inr d, n') \<Longrightarrow> \<not> d"
  by (induction rs arbitrary: n) (auto split: if_splits list.splits)

lemma reset_slots_inv:
  assumes "reset_slots [j..<k] d n = (Inr d', n')" "j \<le> k" "sized k n"
    "held n (done_set n \<union> {..<j}) + mset (rn_backUpApprovals n) \<subseteq># A" "\<forall>i < j. rn_approvals n ! i \<noteq> None"
    "\<forall>i \<in> done_set n. rn_approvals n ! i \<noteq> None"
  shows "\<exists>as bs. n' = n\<lparr>rn_approvals := as, rn_backUpApprovals := bs\<rparr> \<and> length as = k \<and> (\<forall>i < k. as ! i \<noteq> None)
    \<and> (\<forall>i \<in> done_set n. as ! i = rn_approvals n ! i) \<and> held n' {..<k} + mset bs \<subseteq># A
    \<and> (d' \<longrightarrow> {j..<k} \<subseteq> done_set n)"
  using assms
proof (induction "k - j" arbitrary: j d n)
  case 0
  then have "j = k" by simp
  moreover have "done_set n \<union> {..<k} = {..<k}" using 0(4) by (auto simp: done_set_def sized_def)
  moreover have "n\<lparr>rn_approvals := rn_approvals n, rn_backUpApprovals := rn_backUpApprovals n\<rparr> = n" by simp
  ultimately show ?case using 0 by (intro exI [of _ "rn_approvals n"] exI [of _ "rn_backUpApprovals n"]) (simp add: sized_def)
next
  case (Suc x)
  then have j: "j < k" "[j..<k] = j # [Suc j..<k]" "x = k - Suc j" by (auto simp: upt_conv_Cons)
  have ivl: "{..<Suc j} = insert j {..<j}" "{j..<k} = insert j {Suc j..<k}" using j(1) by auto
  show ?case
  proof (cases "rn_record n ! j")
    case True
    then have jd: "j \<in> done_set n" using Suc.prems(3) j(1) by (simp add: done_set_def sized_def)
    then have "done_set n \<union> {..<Suc j} = done_set n \<union> {..<j}" by (auto simp: ivl)
    moreover have "\<forall>i < Suc j. rn_approvals n ! i \<noteq> None" using jd Suc.prems(5,6) less_Suc_eq by blast
    ultimately show ?thesis
      using Suc.hyps(1) [OF j(3), of d n] True Suc.prems j jd by (simp add: ivl)
  next
    case False
    then have jd: "j \<notin> done_set n" by (simp add: done_set_def)
    obtain a as' where b: "rn_backUpApprovals n = a # as'" using Suc.prems(1) False j(2) by (cases "rn_backUpApprovals n") auto
    define m where "m = n\<lparr>rn_approvals := (rn_approvals n)[j := Some a], rn_backUpApprovals := as'\<rparr>"
    have m: "reset_slots [Suc j..<k] False m = (Inr d', n')" using Suc.prems(1) False j(2) b by (simp add: m_def)
    have dm: "done_set m = done_set n" "sized k m" using Suc.prems(3) by (auto simp: m_def done_set_def sized_def)
    have fin: "finite (done_set n \<union> {..<j})" "j \<notin> done_set n \<union> {..<j}" using jd by (auto simp: done_set_def)
    have "held m (insert j (done_set n \<union> {..<j})) = {#a#} + held m (done_set n \<union> {..<j})"
      using fin j(1) Suc.prems(3) by (simp add: held_def m_def sized_def)
    moreover have keep: "rn_approvals m ! i = rn_approvals n ! i" if "i \<noteq> j" for i using that by (simp add: m_def)
    then have "held m (done_set n \<union> {..<j}) = held n (done_set n \<union> {..<j})" using fin(2) by (intro held_cong) metis
    moreover have "done_set m \<union> {..<Suc j} = insert j (done_set n \<union> {..<j})" using dm(1) by (auto simp: ivl)
    ultimately have "held m (done_set m \<union> {..<Suc j}) + mset (rn_backUpApprovals m) \<subseteq># A"
      using Suc.prems(4) b by (simp add: m_def)
    moreover have "\<forall>i < Suc j. rn_approvals m ! i \<noteq> None" using Suc.prems(3,5) j(1) by (auto simp: m_def sized_def nth_list_update less_Suc_eq)
    moreover have same: "\<forall>i \<in> done_set n. rn_approvals m ! i = rn_approvals n ! i" using jd keep by metis
    ultimately obtain as bs where r: "n' = m\<lparr>rn_approvals := as, rn_backUpApprovals := bs\<rparr>" "length as = k" "\<forall>i < k. as ! i \<noteq> None"
      "\<forall>i \<in> done_set n. as ! i = rn_approvals m ! i" "held n' {..<k} + mset bs \<subseteq># A" "d' \<longrightarrow> {Suc j..<k} \<subseteq> done_set n"
      using Suc.hyps(1) [OF j(3) m _ dm(2)] j(1) dm(1) Suc.prems(6) by auto
    have "\<not> d'" by (rule reset_slots_False [OF m])
    then show ?thesis using r same by (intro exI [of _ as] exI [of _ bs]) (simp add: m_def)
  qed
qed

lemma done_slots_inv:
  assumes "done_slots env rTask rs n e = Returns (n', e')" "sized k n" "slots_good env ob n" "rp_ObjectInfo rTask = Some ob"
    "set rs \<subseteq> {..<k}" "k < 2 ^ 32"
  shows "sized k n' \<and> slots_good env ob n'"
  using assms
proof (induction env rTask rs n e arbitrary: n' e' rule: done_slots.induct)
  case (2 env rTask r rs n e)
  note r = "2.prems"(5,6)
  show ?case
  proof (cases "rn_record n ! r")
    case True
    then show ?thesis using 2 by simp
  next
    case False
    then obtain a where a: "rn_approvals n ! r = Some a" using "2.prems"(1) by (auto split: option.splits)
    obtain res e1 where d: "doneReplicatePiece env rTask a (of_nat r) e = (res, e1)" by fastforce
    show ?thesis
    proof (cases res)
      case (Inl err)
      then show ?thesis using "2.IH"(2) [OF False a] d "2.prems" False a by simp
    next
      case (Inr b)
      obtain i sig where b: "b = (i, sig)" by fastforce
      define m where "m = n\<lparr>rn_secondaryAddresses := (rn_secondaryAddresses n)[r := ra_ApprovedSpOperatorAddress a],
         rn_secondarySignatures := (rn_secondarySignatures n)[r := sig], rn_record := (rn_record n)[r := True]\<rparr>"
      have sz: "sized k m" using "2.prems"(2) by (simp add: m_def sized_def)
      have rk: "r < k" "Suc r < 2 ^ 32" using r by auto
      have "slot_ok env ob r a sig" by (rule doneReplicatePiece_ok [OF _ "2.prems"(4) rk(2)]) (use d Inr b in simp)
      then have "slots_good env ob m"
        using "2.prems"(2,3) a rk(1) by (auto simp: slots_good_def done_set_def m_def sized_def nth_list_update)
      moreover have "done_slots env rTask rs m e1 = Returns (n', e')" using "2.prems"(1) False a d Inr b by (simp add: m_def)
      ultimately show ?thesis
        using "2.IH"(3) [OF False a d [symmetric] Inr b [symmetric]] sz "2.prems"(4,5,6) by (simp add: m_def)
    qed
  qed
qed simp

lemma round_keeps:
  assumes n: "sized k n" "slots_good env ob n" "held n (done_set n) + mset (rn_backUpApprovals n) \<subseteq># A"
    and r: "resetApprovals n = (Inr d, n1)"
  shows "sized k n1" "slots_good env ob n1" "\<forall>i < k. rn_approvals n1 ! i \<noteq> None"
    "held n1 {..<k} + mset (rn_backUpApprovals n1) \<subseteq># A" "d \<longrightarrow> done_set n1 = {..<k}"
proof -
  have len: "length (rn_record n) = k" using n(1) by (simp add: sized_def)
  have "\<forall>i \<in> done_set n. rn_approvals n ! i \<noteq> None" using n(2) by (auto simp: slots_good_def)
  with reset_slots_inv [of 0 k True n d n1 A] n r obtain as bs where
    x: "n1 = n\<lparr>rn_approvals := as, rn_backUpApprovals := bs\<rparr>" "length as = k" "\<forall>i < k. as ! i \<noteq> None"
      "\<forall>i \<in> done_set n. as ! i = rn_approvals n ! i" "held n1 {..<k} + mset bs \<subseteq># A" "d \<longrightarrow> {0..<k} \<subseteq> done_set n"
    by (auto simp: resetApprovals_def len)
  show "sized k n1" using n(1) x(1,2) by (simp add: sized_def)
  have ds: "done_set n1 = done_set n" using x(1) by (simp add: done_set_def)
  show "slots_good env ob n1" unfolding slots_good_def ds using n(2) x(1,4) by (fastforce simp: slots_good_def)
  show "\<forall>i < k. rn_approvals n1 ! i \<noteq> None" "held n1 {..<k} + mset (rn_backUpApprovals n1) \<subseteq># A" using x by simp_all
  show "d \<longrightarrow> done_set n1 = {..<k}" using x(6) ds len by (auto simp: done_set_def)
qed

lemma round_end:
  assumes n: "sized k n" "slots_good env ob n" "held n {..<k} + mset (rn_backUpApprovals n) \<subseteq># A"
    and d: "doneReplicate env rTask n e = Returns (n', e')" "rp_ObjectInfo rTask = Some ob" "k < 2 ^ 32"
  shows "sized k n'" "slots_good env ob n'" "held n' (done_set n') + mset (rn_backUpApprovals n') \<subseteq># A"
proof -
  note d' = d(1) [unfolded doneReplicate_def]
  have len: "length (rn_record n) = k" using n(1) by (simp add: sized_def)
  show "sized k n'" "slots_good env ob n'" using done_slots_inv [OF d' n(1,2) d(2) _ d(3)] len by (auto simp: lessThan_atLeast0)
  have "held n' (done_set n') \<subseteq># held n {..<k}"
    using done_slots_keeps [OF d'] len held_mono [of "{..<k}" "done_set n'" n'] held_cong [of "{..<k}" n' n] by (auto simp: done_set_def)
  then show "held n' (done_set n') + mset (rn_backUpApprovals n') \<subseteq># A"
    using n(3) done_slots_keeps [OF d'] by (metis subset_mset.add_right_mono subset_mset.order_trans)
qed

text \<open>What a successful replication leaves in the task.\<close>

definition replicated :: "('w, 'i) execute_env \<Rightarrow> ObjectInfo \<Rightarrow> nat \<Rightarrow> GfSpReplicatePieceApprovalTask list \<Rightarrow> GfSpReplicatePieceTask \<Rightarrow> bool" where
  "replicated env ob k A t \<longleftrightarrow> (\<exists>as. length as = k \<and> mset as \<subseteq># mset A \<and> rp_SecondaryAddresses t = map ra_ApprovedSpOperatorAddress as
     \<and> length (rp_SecondarySignatures t) = k \<and> (\<forall>r < k. slot_ok env ob r (as ! r) (rp_SecondarySignatures t ! r)))"

lemma mset_held: "mset (map (\<lambda>i. the (rn_approvals n ! i)) [0..<k]) = held n {..<k}"
  by (induction k) (simp_all add: held_def lessThan_Suc)

lemma replicate_rounds_ok:
  assumes "replicate_rounds env rTask ob params segCount n e = Returns (None, t', e')" "rp_ObjectInfo rTask = Some ob" "k < 2 ^ 32"
    "sized k n" "slots_good env ob n" "held n (done_set n) + mset (rn_backUpApprovals n) \<subseteq># mset A"
  shows "replicated env ob k A t'"
  using assms
proof (induction env rTask ob params segCount n e rule: replicate_rounds.induct)
  case (1 env rTask ob params segCount n e)
  obtain d n1 where r: "resetApprovals n = (Inr d, n1)"
    using "1.prems"(1) by (cases "resetApprovals n"; cases "fst (resetApprovals n)") (auto simp: replicate_rounds.simps [of env rTask])
  note k = round_keeps [OF "1.prems"(4-6) r]
  show ?case
  proof (cases d)
    case True
    then have t': "t' = rTask\<lparr>rp_SecondaryAddresses := rn_secondaryAddresses n1, rp_SecondarySignatures := rn_secondarySignatures n1\<rparr>"
      using "1.prems"(1) r by (simp add: replicate_rounds.simps [of env rTask])
    have done_all: "done_set n1 = {..<k}" using k(5) True by simp
    have good: "\<exists>a. rn_approvals n1 ! i = Some a \<and> rn_secondaryAddresses n1 ! i = ra_ApprovedSpOperatorAddress a
        \<and> slot_ok env ob i a (rn_secondarySignatures n1 ! i)" if "i < k" for i
      using k(2) that done_all by (simp add: slots_good_def)
    let ?as = "map (\<lambda>i. the (rn_approvals n1 ! i)) [0..<k]"
    have "mset ?as \<subseteq># mset A" unfolding mset_held using k(4) by (meson mset_subset_eq_add_left subset_mset.order_trans)
    moreover have "rn_secondaryAddresses n1 = map ra_ApprovedSpOperatorAddress ?as"
      using k(1) good by (intro nth_equalityI) (fastforce simp: sized_def)+
    moreover have "\<forall>r < k. slot_ok env ob r (?as ! r) (rn_secondarySignatures n1 ! r)" using good by fastforce
    ultimately show ?thesis using k(1) by (auto simp: replicated_def t' sized_def intro!: exI [of _ ?as])
  next
    case False
    obtain e1 n2 e2 where x: "replicate_segments env rTask ob params n1 [0..<unat segCount] e = Returns (None, e1)"
      "doneReplicate env rTask n1 e1 = Returns (n2, e2)" "replicate_rounds env rTask ob params segCount n2 e2 = Returns (None, t', e')"
      using "1.prems"(1) r False by (auto simp: replicate_rounds.simps [of env rTask ob params segCount n e] bind_go_Returns_iff split: if_splits prod.splits)
    show ?thesis
      using "1.IH" [of "Inr False" n1 False] r False x round_end [OF k(1,2,4) x(2) "1.prems"(2,3)] "1.prems"(2,3) by simp
  qed
qed

lemma initial_replication:
  "sized k (new_replication k A)" "slots_good env ob (new_replication k A)"
  "held (new_replication k A) (done_set (new_replication k A)) + mset (rn_backUpApprovals (new_replication k A)) \<subseteq># mset A"
proof -
  have "done_set (new_replication k A) = {}" by (auto simp: done_set_def new_replication_def)
  then show "sized k (new_replication k A)" "slots_good env ob (new_replication k A)"
    "held (new_replication k A) (done_set (new_replication k A)) + mset (rn_backUpApprovals (new_replication k A)) \<subseteq># mset A"
    by (simp_all add: new_replication_def sized_def slots_good_def held_def)
qed

section \<open>A replication that succeeds\<close>

text \<open>
  C3. A replication only succeeds with verified replicas: when \<open>handleReplicatePiece\<close> returns no error,
  the task names one secondary provider for every data and parity chunk, the providers come from
  approvals that were given, no approval is used for two chunks, the object has a checksum for every
  chunk, and the signature of each provider verifies over the checksum of its own chunk.
\<close>

theorem replication_verified:
  assumes "handleReplicatePiece env t ob params A e = Returns (None, t', e')" "rp_ObjectInfo t = Some ob"
    "k = unat (RedundantDataChunkNum params + RedundantParityChunkNum params)"
  shows "\<exists>as. length as = k \<and> mset as \<subseteq># mset A \<and> rp_SecondaryAddresses t' = map ra_ApprovedSpOperatorAddress as
    \<and> length (rp_SecondarySignatures t') = k \<and> (0 < k \<longrightarrow> k < length (Checksums ob))
    \<and> (\<forall>r < k. veritySignature env (Id ob) (Checksums ob ! Suc r) (Checksums ob ! Suc r) (ra_ApprovedSpOperatorAddress (as ! r))
         (ra_ApprovedSpApprovalAddress (as ! r)) (rp_SecondarySignatures t' ! r) = None)"
proof -
  have "k < 2 ^ 32" using assms(3) unat_lt_32 by simp
  obtain c where "SegmentPieceCount (PayloadSize ob) (MaxSegmentSize params) = Returns c"
    using assms(1) by (auto simp: handleReplicatePiece_def bind_go_Returns_iff)
  then have run: "replicate_rounds env t ob params c (new_replication k A) e = Returns (None, t', e')"
    using assms(1,3) by (simp add: handleReplicatePiece_def)
  obtain as where as: "length as = k" "mset as \<subseteq># mset A" "rp_SecondaryAddresses t' = map ra_ApprovedSpOperatorAddress as"
    "length (rp_SecondarySignatures t') = k" "\<forall>r < k. slot_ok env ob r (as ! r) (rp_SecondarySignatures t' ! r)"
    using replicate_rounds_ok [OF run assms(2) \<open>k < 2 ^ 32\<close> initial_replication] unfolding replicated_def by blast
  have "0 < k \<longrightarrow> k < length (Checksums ob)" using as(5) [THEN spec, of "k - 1"] by (auto simp: slot_ok_def)
  then show ?thesis using as by (intro exI [of _ as]) (simp add: slot_ok_def)
qed

section \<open>Every replication returns\<close>

lemma doReplicatePiece_keeps: "doReplicatePiece env t a r p d e = (x, e') \<Longrightarrow> ex_pieceStore e' = ex_pieceStore e"
  by (auto simp: doReplicatePiece_def Let_def dest!: outside_keeps(1) split: prod.splits sum.splits)

lemma doneReplicatePiece_keeps: "doneReplicatePiece env t a r e = (x, e') \<Longrightarrow> ex_pieceStore e' = ex_pieceStore e"
  by (auto simp: doneReplicatePiece_def Let_def dest!: outside_keeps(1) split: prod.splits sum.splits if_splits option.splits)

lemma replicate_slots_returns:
  assumes "\<forall>i \<in> set rs. rn_approvals n ! i \<noteq> None \<and> data i \<noteq> None"
  shows "\<exists>e'. replicate_slots env t n p data rs e = Returns e' \<and> ex_pieceStore e' = ex_pieceStore e"
  using assms
proof (induction rs arbitrary: e)
  case (Cons r rs)
  obtain a d where ad: "rn_approvals n ! r = Some a" "data r = Some d" using Cons.prems by auto
  have "ex_pieceStore (snd (doReplicatePiece env t a (of_nat r) p d e)) = ex_pieceStore e"
    using doReplicatePiece_keeps [OF surjective_pairing] by blast
  then show ?case using Cons.IH [of e] Cons.IH [of "snd (doReplicatePiece env t a (of_nat r) p d e)"] Cons.prems ad by simp
qed simp

lemma done_slots_returns:
  assumes "\<forall>i \<in> set rs. rn_approvals n ! i \<noteq> None"
  shows "\<exists>n' e'. done_slots env t rs n e = Returns (n', e') \<and> ex_pieceStore e' = ex_pieceStore e"
  using assms
proof (induction rs arbitrary: n e)
  case (Cons r rs)
  obtain a where a: "rn_approvals n ! r = Some a" using Cons.prems by auto
  obtain res e1 where d: "doneReplicatePiece env t a (of_nat r) e = (res, e1)" by fastforce
  have IH: "\<exists>n' e'. done_slots env t rs m x = Returns (n', e') \<and> ex_pieceStore e' = ex_pieceStore e"
    if "rn_approvals m = rn_approvals n" "ex_pieceStore x = ex_pieceStore e" for m x
    using Cons.IH [of m x] Cons.prems that by simp
  show ?case
    using a d IH [of n] IH [of _ e1] doneReplicatePiece_keeps [OF d] by (cases "rn_record n ! r"; cases res) (auto split: prod.splits)
qed simp

text \<open>The segments of the object are in the piece store and the encoder makes one chunk per replica.\<close>

definition replicable :: "('w, 'i) execute_env \<Rightarrow> ObjectInfo \<Rightarrow> Params \<Rightarrow> ObjectStorage \<Rightarrow> bool" where
  "replicable env ob params s \<longleftrightarrow> store_ok s \<and> MaxSegmentSize params \<noteq> 0
     \<and> (\<forall>c. SegmentPieceCount (PayloadSize ob) (MaxSegmentSize params) = Returns c \<longrightarrow>
          (\<forall>i < unat c. store_content s (SegmentPieceKey (Id ob) (of_nat i)) \<noteq> None))
     \<and> (\<forall>data. \<exists>ec. xe_EncodeRawSegment env data (uint (RedundantDataChunkNum params)) (uint (RedundantParityChunkNum params)) = Inr ec
          \<and> length ec = unat (RedundantDataChunkNum params + RedundantParityChunkNum params))"

lemma replicate_segments_returns:
  assumes "replicable env ob params (ex_pieceStore e)" "SegmentPieceCount (PayloadSize ob) (MaxSegmentSize params) = Returns c"
    "set ps \<subseteq> {..<unat c}" "length (rn_record n) = unat (RedundantDataChunkNum params + RedundantParityChunkNum params)"
    "\<forall>i < length (rn_record n). rn_approvals n ! i \<noteq> None"
  shows "\<exists>e'. replicate_segments env t ob params n ps e = Returns (None, e') \<and> ex_pieceStore e' = ex_pieceStore e"
  using assms
proof (induction ps arbitrary: e)
  case (Cons p ps)
  let ?key = "SegmentPieceKey (Id ob) (of_nat p)"
  have ok: "store_ok (ex_pieceStore e)" and "store_content (ex_pieceStore e) ?key \<noteq> None"
    using Cons.prems(1-3) by (auto simp: replicable_def)
  then obtain d where d: "GetPiece (ex_pieceStore e) ?key 0 (-1) = Returns (Inr d)"
    using GetPiece_content [OF ok, of 0 ?key "-1"] by (auto simp: SegmentPieceKey_def)
  obtain ec where ec: "xe_EncodeRawSegment env d (uint (RedundantDataChunkNum params)) (uint (RedundantParityChunkNum params)) = Inr ec"
    "length ec = length (rn_record n)" using Cons.prems(1,4) unfolding replicable_def by metis
  obtain e1 where e1: "doReplicateECPiece env t n (of_nat p) ec e = Returns e1" "ex_pieceStore e1 = ex_pieceStore e"
    using replicate_slots_returns [of "[0..<length (rn_record n)]" n "\<lambda>r. if r < length ec then Some (ec ! r) else None" env t "of_nat p" e] Cons.prems(5) ec(2)
    by (auto simp: doReplicateECPiece_def)
  obtain e2 where e2: "doReplicateSegmentPiece env t n (of_nat p) d e = Returns e2" "ex_pieceStore e2 = ex_pieceStore e"
    using replicate_slots_returns [of "[0..<length (rn_record n)]" n "\<lambda>r. Some d" env t "of_nat p" e] Cons.prems(5)
    by (auto simp: doReplicateSegmentPiece_def)
  show ?case
    using Cons.IH [of e1] Cons.IH [of e2] Cons.prems d ec e1 e2 by (cases "RedundancyType ob = REDUNDANCY_EC_TYPE") simp_all
qed simp

lemma replicate_rounds_returns:
  assumes "replicable env ob params (ex_pieceStore e)" "SegmentPieceCount (PayloadSize ob) (MaxSegmentSize params) = Returns c"
    "k = unat (RedundantDataChunkNum params + RedundantParityChunkNum params)" "rp_ObjectInfo t = Some ob"
    "sized k n" "slots_good env ob n" "held n (done_set n) + mset (rn_backUpApprovals n) \<subseteq># A"
  shows "\<exists>err t' e'. replicate_rounds env t ob params c n e = Returns (err, t', e') \<and> (err = None \<or> err = Some ErrExhaustedApproval)"
  using assms
proof (induction env t ob params c n e arbitrary: A rule: replicate_rounds.induct)
  case (1 env t ob params c n e)
  note eq = replicate_rounds.simps [of env t ob params c n e]
  obtain res n1 where r: "resetApprovals n = (res, n1)" by fastforce
  have ex: "reset_slots rs d m = (Inl err, m') \<Longrightarrow> err = ErrExhaustedApproval" for rs d m err m'
    by (induction rs d m rule: reset_slots.induct) (auto split: if_splits list.splits)
  consider (exhausted) err where "res = Inl err" | (finished) "res = Inr True" | (going) "res = Inr False"
    by (metis (full_types) sum.exhaust)
  then show ?case
  proof cases
    case exhausted
    then show ?thesis using r ex [of _ True n err n1] by (simp add: eq resetApprovals_def)
  next
    case finished
    then show ?thesis using r by (simp add: eq)
  next
    case going
    note k = round_keeps [OF "1.prems"(5-7) r [unfolded going]]
    have len: "length (rn_record n1) = k" using k(1) by (simp add: sized_def)
    obtain e1 where e1: "replicate_segments env t ob params n1 [0..<unat c] e = Returns (None, e1)" "ex_pieceStore e1 = ex_pieceStore e"
      using replicate_segments_returns [OF "1.prems"(1,2), of "[0..<unat c]" n1 t] len "1.prems"(3) k(3) by (auto simp: lessThan_atLeast0)
    obtain n2 e2 where e2: "doneReplicate env t n1 e1 = Returns (n2, e2)" "ex_pieceStore e2 = ex_pieceStore e1"
      using done_slots_returns [of "[0..<length (rn_record n1)]" n1 env t e1] k(3) len by (auto simp: doneReplicate_def)
    have small: "k < 2 ^ 32" using "1.prems"(3) unat_lt_32 by simp
    note y = round_end [OF k(1,2,4) e2(1) "1.prems"(4) small]
    have "replicate_rounds env t ob params c n e = replicate_rounds env t ob params c n2 e2"
      using r going e1(1) e2(1) by (simp add: eq)
    then show ?thesis
      using "1.IH" [OF r [symmetric] going refl e1(1) refl _ e2(1) refl] "1.prems"(1-4) e1(2) e2(2) y by simp
  qed
qed

text \<open>
  C38. Every replication returns: with the segments of the object in the piece store and an encoder that
  makes one chunk per replica, \<open>handleReplicatePiece\<close> neither panics nor runs forever, whatever the
  signer and the other providers answer; the result is success or that the approvals are used up.
\<close>

theorem replication_returns:
  assumes "replicable env ob params (ex_pieceStore e)" "rp_ObjectInfo t = Some ob"
  shows "\<exists>err t' e'. handleReplicatePiece env t ob params A e = Returns (err, t', e') \<and> err \<in> {None, Some ErrExhaustedApproval}"
proof -
  obtain c where c: "SegmentPieceCount (PayloadSize ob) (MaxSegmentSize params) = Returns c"
    using assms(1) by (auto simp: replicable_def SegmentPieceCount_def Let_def)
  show ?thesis
    using replicate_rounds_returns [OF assms(1) c refl assms(2) initial_replication] by (simp add: handleReplicatePiece_def c)
qed

section \<open>Replication to providers that answer\<close>

text \<open>The first \<open>k\<close> approvals belong to providers that close the replication of their chunk as they should.\<close>

definition honest :: "('w, 'i) execute_env \<Rightarrow> ObjectInfo \<Rightarrow> nat \<Rightarrow> GfSpReplicatePieceApprovalTask list \<Rightarrow> bool" where
  "honest env ob k A \<longleftrightarrow> k \<le> length A \<and> k < length (Checksums ob) \<and> (\<forall>receive w. \<exists>sig. fst (xe_SignReceiveTask env receive w) = Inr sig)
     \<and> (\<forall>r < k. \<forall>receive w. rv_ReplicateIdx receive = of_nat r \<longrightarrow>
          (\<exists>sig. fst (xe_DoneReplicate env (ra_ApprovedSpEndpoint (A ! r)) (A ! r) receive w) = Inr (Checksums ob ! Suc r, sig)
            \<and> veritySignature env (Id ob) (Checksums ob ! Suc r) (Checksums ob ! Suc r) (ra_ApprovedSpOperatorAddress (A ! r))
                (ra_ApprovedSpApprovalAddress (A ! r)) sig = None))"

lemma outside_fst: "fst (f (ex_world e)) = a \<Longrightarrow> \<exists>e'. outside f e = (a, e') \<and> ex_world e' = snd (f (ex_world e))"
  by (cases "f (ex_world e)") (simp add: outside_def)

lemma honest_done:
  assumes "honest env ob k A" "r < k" "k < 2 ^ 32" "rp_ObjectInfo t = Some ob"
  shows "\<exists>sig e'. doneReplicatePiece env t (A ! r) (of_nat r) e = (Inr (Checksums ob ! Suc r, sig), e')"
proof -
  let ?rv = "InitReceivePieceTask (xe_now env (ex_world e)) (Some ob) (rp_StorageParams t) (TaskPriority_of TypeTaskReplicatePiece) (of_nat r) (-1) 0"
  obtain s e1 where s: "outside (xe_SignReceiveTask env ?rv) e = (Inr s, e1)"
    using assms(1) outside_fst [of "xe_SignReceiveTask env ?rv" e] unfolding honest_def by metis
  let ?e = "exec_event (Id ob) ''executor_begin_done_replicate_piece'' e1"
  have idx: "rv_ReplicateIdx (?rv\<lparr>rv_Signature := s\<rparr>) = of_nat r" by (simp add: InitReceivePieceTask_def)
  obtain sig where sig: "fst (xe_DoneReplicate env (ra_ApprovedSpEndpoint (A ! r)) (A ! r) (?rv\<lparr>rv_Signature := s\<rparr>) (ex_world ?e)) = Inr (Checksums ob ! Suc r, sig)"
    "veritySignature env (Id ob) (Checksums ob ! Suc r) (Checksums ob ! Suc r) (ra_ApprovedSpOperatorAddress (A ! r))
       (ra_ApprovedSpApprovalAddress (A ! r)) sig = None"
    using assms(1,2) idx unfolding honest_def by blast
  obtain e2 where d: "outside (xe_DoneReplicate env (ra_ApprovedSpEndpoint (A ! r)) (A ! r) (?rv\<lparr>rv_Signature := s\<rparr>)) ?e = (Inr (Checksums ob ! Suc r, sig), e2)"
    using outside_fst [of "xe_DoneReplicate env (ra_ApprovedSpEndpoint (A ! r)) (A ! r) (?rv\<lparr>rv_Signature := s\<rparr>)" ?e, OF sig(1)] by blast
  have "unat (of_nat (Suc r) :: uint32) = Suc r" using assms(2,3) by (simp add: unat_of_nat del: of_nat_Suc)
  then have "unat (of_nat r + 1 :: uint32) = Suc r" by (simp add: add.commute)
  then show ?thesis
    using s d sig(2) assms(1,2,4) by (simp add: doneReplicatePiece_def object_of_def honest_def)
qed

lemma reset_new:
  "rn_record n = replicate k False \<Longrightarrow> length (rn_approvals n) = k \<Longrightarrow> j \<le> k \<Longrightarrow> k - j \<le> length (rn_backUpApprovals n) \<Longrightarrow>
   reset_slots [j..<k] d n = (Inr (d \<and> j = k), n\<lparr>rn_approvals := take j (rn_approvals n) @ map Some (take (k - j) (rn_backUpApprovals n)),
     rn_backUpApprovals := drop (k - j) (rn_backUpApprovals n)\<rparr>)"
proof (induction "k - j" arbitrary: j d n)
  case (Suc x)
  then have j: "j < k" "x = k - Suc j" "[j..<k] = j # [Suc j..<k]" "k - j = Suc (k - Suc j)" by (auto simp: upt_conv_Cons)
  obtain a as where b: "rn_backUpApprovals n = a # as" using Suc.prems(4) j(1) by (cases "rn_backUpApprovals n") auto
  show ?case
    using Suc.hyps(1) [OF j(2), of "n\<lparr>rn_approvals := (rn_approvals n)[j := Some a], rn_backUpApprovals := as\<rparr>" False] Suc.prems j b
    by (simp add: take_Suc_conv_app_nth nth_list_update)
qed simp

lemma reset_done: "\<forall>i \<in> set rs. rn_record n ! i \<Longrightarrow> reset_slots rs d n = (Inr d, n)"
  by (induction rs) auto

lemma done_slots_honest:
  assumes "honest env ob k A" "k < 2 ^ 32" "rp_ObjectInfo t = Some ob" "rn_approvals n = map Some (take k A)" "set rs \<subseteq> {..<k}"
    "done_slots env t rs n e = Returns (n', e')" "length (rn_record n) = k"
  shows "\<forall>i < k. i \<in> set rs \<or> rn_record n ! i \<longrightarrow> rn_record n' ! i"
  using assms(4-)
proof (induction rs arbitrary: n e)
  case (Cons r rs)
  then have r: "r < k" "rn_approvals n ! r = Some (A ! r)" using assms(1) by (auto simp: honest_def)
  obtain sig e1 where d: "doneReplicatePiece env t (A ! r) (of_nat r) e = (Inr (Checksums ob ! Suc r, sig), e1)"
    using honest_done [OF assms(1) r(1) assms(2,3)] by blast
  show ?case
  proof (cases "rn_record n ! r")
    case True
    then show ?thesis using Cons by auto
  next
    case False
    let ?m = "n\<lparr>rn_secondaryAddresses := (rn_secondaryAddresses n)[r := ra_ApprovedSpOperatorAddress (A ! r)],
         rn_secondarySignatures := (rn_secondarySignatures n)[r := sig], rn_record := (rn_record n)[r := True]\<rparr>"
    have "\<forall>i < k. i \<in> set rs \<or> rn_record ?m ! i \<longrightarrow> rn_record n' ! i"
      using Cons.IH [of ?m e1] Cons.prems False r d by simp
    then show ?thesis using Cons.prems(4) r(1) by (auto simp: nth_list_update split: if_splits)
  qed
qed simp

lemma replication_run:
  assumes "replicable env ob params (ex_pieceStore e)" "rp_ObjectInfo t = Some ob"
    "k = unat (RedundantDataChunkNum params + RedundantParityChunkNum params)" "honest env ob k A"
  shows "\<exists>t' e'. handleReplicatePiece env t ob params A e = Returns (None, t', e')
    \<and> rp_SecondaryAddresses t' = map ra_ApprovedSpOperatorAddress (take k A)"
proof -
  obtain c where c: "SegmentPieceCount (PayloadSize ob) (MaxSegmentSize params) = Returns c"
    using assms(1) by (auto simp: replicable_def SegmentPieceCount_def Let_def)
  have small: "k < 2 ^ 32" using assms(3) unat_lt_32 by simp
  define n where "n = new_replication k A"
  define n1 where "n1 = n\<lparr>rn_approvals := map Some (take k A), rn_backUpApprovals := drop k A\<rparr>"
  have reset: "resetApprovals n = (Inr (0 = k), n1)"
    using reset_new [of n k 0 True] assms(4) by (simp add: n_def n1_def new_replication_def resetApprovals_def honest_def)
  note k = round_keeps [OF initial_replication [where k = k and A = A, folded n_def] reset]
  have n1: "length (rn_record n1) = k" "rn_approvals n1 = map Some (take k A)" by (simp_all add: n1_def n_def new_replication_def)
  have addr: "rn_secondaryAddresses m = map ra_ApprovedSpOperatorAddress (take k A)"
    if "sized k m" "slots_good env ob m" "rn_approvals m = map Some (take k A)" "\<forall>i < k. rn_record m ! i" for m
    using that assms(4) by (intro nth_equalityI) (auto simp: sized_def slots_good_def done_set_def honest_def)
  obtain e1 where e1: "replicate_segments env t ob params n1 [0..<unat c] e = Returns (None, e1)"
    using replicate_segments_returns [OF assms(1) c, of "[0..<unat c]" n1 t] n1(1) assms(3) k(3) by (auto simp: lessThan_atLeast0)
  obtain n2 e2 where e2: "doneReplicate env t n1 e1 = Returns (n2, e2)"
    using done_slots_returns [of "[0..<length (rn_record n1)]" n1 env t e1] k(3) n1(1) unfolding doneReplicate_def by fastforce
  note y = round_end [OF k(1,2,4) e2 assms(2) small]
  note keep = done_slots_keeps [OF e2 [unfolded doneReplicate_def]]
  have all: "\<forall>i < k. rn_record n2 ! i"
    using done_slots_honest [OF assms(4) small assms(2) n1(2) _ e2 [unfolded doneReplicate_def] n1(1)] n1(1) by (auto simp: lessThan_atLeast0)
  then have reset2: "resetApprovals n2 = (Inr True, n2)"
    using keep n1(1) by (simp add: resetApprovals_def reset_done)
  have run: "handleReplicatePiece env t ob params A e = replicate_rounds env t ob params c n e"
    by (simp add: handleReplicatePiece_def c n_def assms(3))
  show ?thesis
  proof (cases "k = 0")
    case True
    then have "rn_secondaryAddresses n1 = []" by (simp add: n1_def n_def new_replication_def)
    then show ?thesis using True run reset by (simp add: replicate_rounds.simps [of env t ob params c n e])
  next
    case False
    then have "replicate_rounds env t ob params c n e = replicate_rounds env t ob params c n2 e2"
      using reset e1 e2 by (simp add: replicate_rounds.simps [of env t ob params c n e])
    also have "\<dots> = Returns (None, t\<lparr>rp_SecondaryAddresses := rn_secondaryAddresses n2, rp_SecondarySignatures := rn_secondarySignatures n2\<rparr>, e2)"
      by (simp add: replicate_rounds.simps [of env t ob params c n2 e2] reset2)
    finally show ?thesis using run addr [OF y(1,2) _ all] keep n1(2) by simp
  qed
qed

text \<open>
  C40. With providers that answer, one round is enough: when the first approvals, one per chunk, belong to
  providers that confirm the checksum of their chunk with a valid signature, \<open>handleReplicatePiece\<close>
  succeeds with exactly these providers, in the order of the approvals.
\<close>

theorem replication_succeeds:
  assumes "replicable env ob params (ex_pieceStore e)" "rp_ObjectInfo t = Some ob"
    "k = unat (RedundantDataChunkNum params + RedundantParityChunkNum params)" "honest env ob k A"
  shows "\<exists>t' e'. handleReplicatePiece env t ob params A e = Returns (None, t', e')
    \<and> rp_SecondaryAddresses t' = map ra_ApprovedSpOperatorAddress (take k A)"
  by (rule replication_run [OF assms])

section \<open>A concrete replication\<close>

definition demo_replica_object :: ObjectInfo where
  "demo_replica_object = nil_object\<lparr>Id := 7, PayloadSize := 3, Checksums := [[9], [0], [1]]\<rparr>"

definition demo_replica_params :: Params where
  "demo_replica_params = \<lparr>MaxPayloadSize = 100, MaxSegmentSize = 2, RedundantDataChunkNum = 1, RedundantParityChunkNum = 1\<rparr>"

definition demo_replicate_task :: GfSpReplicatePieceTask where
  "demo_replicate_task = InitReplicatePieceTask 0 (Some demo_replica_object) (Some demo_replica_params) 0 0 0"

definition demo_approvals :: "GfSpReplicatePieceApprovalTask list" where
  "demo_approvals = map (\<lambda>a. (InitApprovalReplicatePieceTask 0 (Some demo_replica_object) (Some demo_replica_params) 0 [])
     \<lparr>ra_ApprovedSpOperatorAddress := a\<rparr>) [''x'', ''y'', ''z'']"

definition demo_primary :: "(nat, (uint64 \<times> IntegrityMetaTable) list) ExecuteModular" where
  "demo_primary = demo_executor\<lparr>ex_pieceStore := MemStore \<lparr>ms_name = [], ms_objects =
     [(''s7_s0'', \<lparr>mo_data = [1, 2], mo_modTime = 0\<rparr>), (''s7_s1'', \<lparr>mo_data = [3], mo_modTime = 0\<rparr>)]\<rparr>\<rparr>"

lemma demo_replicable: "replicable demo_exec_env demo_replica_object demo_replica_params (ex_pieceStore demo_primary)"
proof -
  have c: "SegmentPieceCount (PayloadSize demo_replica_object) (MaxSegmentSize demo_replica_params) = Returns 2" by code_simp
  have "SegmentPieceKey 7 0 = ''s7_s0''" "SegmentPieceKey 7 1 = ''s7_s1''" by code_simp+
  moreover have "i = 0 \<or> i = 1" if "i < 2" for i :: nat using that by auto
  ultimately show ?thesis
    by (auto simp: replicable_def c) (auto simp: demo_primary_def store_ok_def mem_content_def demo_replica_params_def demo_replica_object_def demo_exec_env_def
        dest!: \<open>\<And>i :: nat. i < 2 \<Longrightarrow> i = 0 \<or> i = 1\<close>)
qed

lemma demo_honest: "honest demo_exec_env demo_replica_object 2 demo_approvals"
proof -
  have two: "r = 0 \<or> r = 1" if "r < 2" for r :: nat using that by auto
  show ?thesis
    by (auto simp: honest_def demo_approvals_def demo_replica_object_def demo_exec_env_def veritySignature_def dest!: two)
qed

lemma demo_chunks: "2 = unat (RedundantDataChunkNum demo_replica_params + RedundantParityChunkNum demo_replica_params)"
  by (simp add: demo_replica_params_def)

lemma demo_replicate_object: "rp_ObjectInfo demo_replicate_task = Some demo_replica_object"
  by (simp add: demo_replicate_task_def InitReplicatePieceTask_def)

theorem replication_succeeds_witness:
  "\<exists>t' e'. handleReplicatePiece demo_exec_env demo_replicate_task demo_replica_object demo_replica_params demo_approvals demo_primary
     = Returns (None, t', e') \<and> rp_SecondaryAddresses t' = [''x'', ''y'']"
  using replication_succeeds [OF demo_replicable demo_replicate_object demo_chunks demo_honest] by (simp add: demo_approvals_def)

theorem replication_returns_witness:
  "\<exists>err t' e'. handleReplicatePiece demo_exec_env demo_replicate_task demo_replica_object demo_replica_params [] demo_primary
     = Returns (err, t', e') \<and> err \<in> {None, Some ErrExhaustedApproval}"
  by (rule replication_returns [OF demo_replicable demo_replicate_object])

theorem replication_verified_witness:
  "\<exists>t' e'. handleReplicatePiece demo_exec_env demo_replicate_task demo_replica_object demo_replica_params demo_approvals demo_primary
     = Returns (None, t', e') \<and> length (rp_SecondarySignatures t') = 2"
proof -
  obtain t' e' where run: "handleReplicatePiece demo_exec_env demo_replicate_task demo_replica_object demo_replica_params demo_approvals demo_primary
     = Returns (None, t', e')" using replication_run [OF demo_replicable demo_replicate_object demo_chunks demo_honest] by blast
  then show ?thesis using replication_verified [OF run demo_replicate_object demo_chunks] by blast
qed

end
