(* ===== verification/Recovery.thy ===== *)
theory Recovery
  imports Executor
begin

text \<open>
  Recovery of lost pieces by the executor: \<open>HandleRecoverPieceTask\<close>, \<open>checkRecoveryCheckSum\<close>,
  \<open>doRecoveryPiece\<close> and the lookups of endpoints in \<open>modular/executor/execute_task.go\<close>.

  A secondary provider asks the primary one for its piece. A primary provider asks all secondary
  providers at once, one goroutine each, and waits on two channels until enough pieces are there or
  all goroutines are through. The goroutines and the waiting loop are a transition system: a
  schedule is the list of their actions in the order in which they happen, and an action that is
  not enabled blocks. A call to the outside and the access to the shared task around it are one
  action. Pieces that arrive after the loop was left are not used for the decoding.
\<close>

section \<open>Endpoints, pieces and checksums\<close>

definition endpoint_of :: "StorageProvider list \<Rightarrow> string \<Rightarrow> string" where
  "endpoint_of spList addr = fold (\<lambda>info ep. if addr = sp_OperatorAddress info then sp_Endpoint info else ep) spList []"

definition getObjectSecondaryEndpoints :: "('w, 'i) execute_env \<Rightarrow> ObjectInfo \<Rightarrow> ('w, 'i) ExecuteModular
    \<Rightarrow> (go_error + string list) \<times> ('w, 'i) ExecuteModular" where
  "getObjectSecondaryEndpoints env ob e =
     (case outside (xe_ListSPs env) e of
        (Inl err, e) \<Rightarrow> (Inl err, e)
      | (Inr spList, e) \<Rightarrow> (Inr (map (endpoint_of spList) (SecondarySpAddresses ob)), e))"

definition getObjectPrimarySPEndpoint :: "('w, 'i) execute_env \<Rightarrow> string \<Rightarrow> ('w, 'i) ExecuteModular
    \<Rightarrow> (go_error + string) \<times> ('w, 'i) ExecuteModular" where
  "getObjectPrimarySPEndpoint env bucketName e =
     (case outside (xe_ListSPs env) e of
        (Inl err, e) \<Rightarrow> (Inl err, e)
      | (Inr spList, e) \<Rightarrow>
          (case outside (xe_QueryBucketInfo env bucketName) e of
             (Inl err, e) \<Rightarrow> (Inl err, e)
           | (Inr bucketInfo, e) \<Rightarrow>
               (case find (\<lambda>info. PrimarySpAddress bucketInfo = sp_OperatorAddress info) spList of
                  Some info \<Rightarrow> (Inr (sp_Endpoint info), e)
                | None \<Rightarrow> (Inl ErrPrimaryNotFound, e))))"

text \<open>The signature stays in the task, which all goroutines share.\<close>

definition doRecoveryPiece :: "('w, 'i) execute_env \<Rightarrow> GfSpRecoverPieceTask \<Rightarrow> string \<Rightarrow> ('w, 'i) ExecuteModular
    \<Rightarrow> (go_error + bytes) \<times> GfSpRecoverPieceTask \<times> ('w, 'i) ExecuteModular" where
  "doRecoveryPiece env rTask endpoint e =
     (case outside (xe_SignRecoveryTask env rTask) e of
        (Inl err, e) \<Rightarrow> (Inl err, rTask, e)
      | (Inr signature, e) \<Rightarrow>
          let rTask = rTask\<lparr>rr_Signature := signature\<rparr>
          in case outside (xe_GetPieceFromECChunks env endpoint rTask) e of (res, e) \<Rightarrow> (res, rTask, e))"

definition recover_SetError :: "go_error \<Rightarrow> GfSpRecoverPieceTask \<Rightarrow> GfSpRecoverPieceTask" where
  "recover_SetError err = GfSpRecoverPieceTask_on_task (base_SetError (Some err))"

definition checkRecoveryCheckSum :: "('w, 'i) execute_env \<Rightarrow> GfSpRecoverPieceTask \<Rightarrow> ObjectInfo \<Rightarrow> bytes \<Rightarrow> ('w, 'i) ExecuteModular
    \<Rightarrow> (go_error option \<times> GfSpRecoverPieceTask) go" where
  "checkRecoveryCheckSum env task ob recoveryChecksum e =
     (case GetObjectIntegrity (xe_integrity env) (ex_integrity e) (Id ob) of
        Inl _ \<Rightarrow> Returns (Some ErrExecGfSpDB, recover_SetError ErrExecGfSpDB task)
      | Inr integrityMeta \<Rightarrow>
          if unat (rr_SegmentIdx task) \<ge> length (im_PieceChecksumList integrityMeta) then Panics
          else if recoveryChecksum \<noteq> im_PieceChecksumList integrityMeta ! unat (rr_SegmentIdx task)
          then Returns (Some ErrRecoveryPieceChecksum, recover_SetError ErrRecoveryPieceChecksum task)
          else Returns (None, task))"

section \<open>Collecting pieces from all secondary providers\<close>

datatype fetcher = Fetching | Counting bytes | Quitting | Ended

datatype phase = Waiting | Enough | Failed go_error

record ('w, 'i) collection =
  co_fetchers :: "fetcher list"
  co_recoveryDataSources :: "bytes option list"
  co_doneCh :: nat
  co_doneTaskNum :: uint32
  co_totalTaskNum :: uint32
  co_downLoadPieceSize :: int
  co_phase :: phase
  co_task :: GfSpRecoverPieceTask
  co_exec :: "('w, 'i) ExecuteModular"

text \<open>
  The actions: a goroutine asks its provider, stores what it gets and signals it; it counts itself out, the
  last one then offers the quit signal; the loop receives one signal or the other. \<open>doneCh\<close> has room
  for one signal per goroutine, \<open>quitCh\<close> has none: the sender waits for the receiver. The task counter
  is decremented modulo \<open>2 ^ 32\<close>, as an \<open>int32\<close> is.
\<close>

datatype collect_action = Fetch nat | CountOut nat | TakeDone | TakeQuit nat

fun collect_step :: "('w, 'i) execute_env \<Rightarrow> string list \<Rightarrow> uint32 \<Rightarrow> int64 \<Rightarrow> collect_action \<Rightarrow> ('w, 'i) collection \<Rightarrow> ('w, 'i) collection option" where
  "collect_step env endpoints dataShards segmentSize (Fetch i) c =
     (if i < length (co_fetchers c) \<and> co_fetchers c ! i = Fetching then
        (case doRecoveryPiece env (co_task c) (endpoints ! i) (co_exec c) of
           (Inl _, t, e) \<Rightarrow> Some (c\<lparr>co_fetchers := (co_fetchers c)[i := Counting []], co_task := t, co_exec := e\<rparr>)
         | (Inr pieceData, t, e) \<Rightarrow>
             Some (c\<lparr>co_fetchers := (co_fetchers c)[i := Counting pieceData],
                     co_recoveryDataSources := (co_recoveryDataSources c)[i := Some pieceData],
                     co_doneCh := co_doneCh c + 1, co_task := t, co_exec := e\<rparr>))
      else None)"
| "collect_step env endpoints dataShards segmentSize (CountOut i) c =
     (if i < length (co_fetchers c) then
        (case co_fetchers c ! i of
           Counting pieceData \<Rightarrow>
             if co_totalTaskNum c - 1 = 0
             then Some (c\<lparr>co_totalTaskNum := co_totalTaskNum c - 1, co_downLoadPieceSize := int (length pieceData),
                          co_fetchers := (co_fetchers c)[i := Quitting]\<rparr>)
             else Some (c\<lparr>co_totalTaskNum := co_totalTaskNum c - 1, co_fetchers := (co_fetchers c)[i := Ended]\<rparr>)
         | _ \<Rightarrow> None)
      else None)"
| "collect_step env endpoints dataShards segmentSize TakeDone c =
     (if co_phase c = Waiting \<and> 0 < co_doneCh c then
        let n = co_doneTaskNum c + 1
        in Some (c\<lparr>co_doneCh := co_doneCh c - 1, co_doneTaskNum := n, co_phase := (if n \<ge> dataShards then Enough else Waiting)\<rparr>)
      else None)"
| "collect_step env endpoints dataShards segmentSize (TakeQuit i) c =
     (if co_phase c = Waiting \<and> i < length (co_fetchers c) \<and> co_fetchers c ! i = Quitting then
        let c = c\<lparr>co_fetchers := (co_fetchers c)[i := Ended]\<rparr>;
            ecTotalSize = uint ((word_of_int (co_downLoadPieceSize c) :: uint32) * dataShards)
        in Some (if co_doneTaskNum c < dataShards then c\<lparr>co_phase := Failed ErrRecoveryPieceNotEnough\<rparr>
                 else if ecTotalSize < segmentSize \<or> ecTotalSize > i64 (segmentSize + uint dataShards)
                 then c\<lparr>co_phase := Failed ErrRecoveryPieceLength\<rparr>
                 else c)
      else None)"

fun collect_run :: "('w, 'i) execute_env \<Rightarrow> string list \<Rightarrow> uint32 \<Rightarrow> int64 \<Rightarrow> collect_action list \<Rightarrow> ('w, 'i) collection \<Rightarrow> ('w, 'i) collection option" where
  "collect_run env endpoints dataShards segmentSize [] c = Some c"
| "collect_run env endpoints dataShards segmentSize (a # as) c =
     Option.bind (collect_step env endpoints dataShards segmentSize a c) (collect_run env endpoints dataShards segmentSize as)"

definition new_collection :: "nat \<Rightarrow> nat \<Rightarrow> GfSpRecoverPieceTask \<Rightarrow> ('w, 'i) ExecuteModular \<Rightarrow> ('w, 'i) collection" where
  "new_collection ecPieceCount sources t e =
     \<lparr>co_fetchers = replicate ecPieceCount Fetching, co_recoveryDataSources = replicate sources None, co_doneCh = 0, co_doneTaskNum = 0,
      co_totalTaskNum = of_nat ecPieceCount, co_downLoadPieceSize = 0, co_phase = Waiting, co_task = t, co_exec = e\<rparr>"

section \<open>The handler\<close>

text \<open>The checks before; the storage parameters are read first, which panics without them.\<close>

definition recover_checks :: "GfSpRecoverPieceTask \<Rightarrow> Params \<Rightarrow> go_error option" where
  "recover_checks t params =
     (let ecPieceCount = RedundantDataChunkNum params + RedundantParityChunkNum params in
      case rr_ObjectInfo t of
        None \<Rightarrow> Some ErrExecDangling
      | Some ob \<Rightarrow>
          if RedundancyType ob \<noteq> REDUNDANCY_EC_TYPE then Some ErrRecoveryRedundancyType
          else if rr_EcIdx t < -1 \<or> rr_EcIdx t > i32 (i32 (uint ecPieceCount) - 1) then Some ErrRecoveryPieceIndex
          else None)"

definition store_recovered :: "('w, 'i) execute_env \<Rightarrow> GfSpRecoverPieceTask \<Rightarrow> ObjectInfo \<Rightarrow> string \<Rightarrow> bytes \<Rightarrow> ('w, 'i) ExecuteModular
    \<Rightarrow> (go_error option \<times> bool \<times> GfSpRecoverPieceTask \<times> ('w, 'i) ExecuteModular) go" where
  "store_recovered env t ob recoveryKey data e =
     bind_go (checkRecoveryCheckSum env t ob (xe_hash env data) e) (\<lambda>(err, t).
       if err \<noteq> None then Returns (None, False, t, e)
       else bind_go (PutPiece (xe_now env (ex_world e)) (ex_pieceStore e) recoveryKey data) (\<lambda>(err, s).
              Returns (map_option (\<lambda>x. PlainErr (store_text x)) err, err = None, t, e\<lparr>ex_pieceStore := s\<rparr>)))"

definition recover_secondary :: "('w, 'i) execute_env \<Rightarrow> GfSpRecoverPieceTask \<Rightarrow> ObjectInfo \<Rightarrow> ('w, 'i) ExecuteModular
    \<Rightarrow> (bool \<times> GfSpRecoverPieceTask \<times> ('w, 'i) ExecuteModular) go" where
  "recover_secondary env t ob e =
     (case getObjectPrimarySPEndpoint env (BucketName ob) e of
        (Inl err, e) \<Rightarrow> Returns (False, recover_SetError err t, e)
      | (Inr primarySPEndpoint, e) \<Rightarrow>
          (case doRecoveryPiece env t primarySPEndpoint e of
             (Inl err, t, e) \<Rightarrow> Returns (False, recover_SetError err t, e)
           | (Inr pieceData, t, e) \<Rightarrow>
               bind_go (store_recovered env t ob (ECPieceKey (Id ob) (rr_SegmentIdx t) (word_of_int (rr_EcIdx t))) pieceData e)
                 (\<lambda>(err, finished, t, e).
                    Returns (finished, (case err of Some x \<Rightarrow> recover_SetError x t | None \<Rightarrow> t), e))))"

text \<open>
  The branch of the primary provider; \<open>None\<close> is a schedule that does not reach the end of the loop. The
  errors of the endpoint lookup and of the piece store are lost: \<open>err\<close> is shadowed in this branch.
\<close>

definition recover_primary :: "('w, 'i) execute_env \<Rightarrow> collect_action list \<Rightarrow> GfSpRecoverPieceTask \<Rightarrow> ObjectInfo \<Rightarrow> Params \<Rightarrow> ('w, 'i) ExecuteModular
    \<Rightarrow> (bool \<times> GfSpRecoverPieceTask \<times> ('w, 'i) ExecuteModular) go option" where
  "recover_primary env sched t ob params e =
     (let ecPieceCount = RedundantDataChunkNum params + RedundantParityChunkNum params in
      case getObjectSecondaryEndpoints env ob e of
        (Inl err, e) \<Rightarrow> Some (Returns (False, t, e))
      | (Inr secondaryEndpoints, e) \<Rightarrow>
          (case SegmentPieceSize (PayloadSize ob) (rr_SegmentIdx t) (MaxSegmentSize params) of
             Panics \<Rightarrow> Some Panics
           | Returns segmentSize \<Rightarrow>
               if unat ecPieceCount > length secondaryEndpoints then Some Panics
               else Option.bind (collect_run env secondaryEndpoints (RedundantDataChunkNum params) segmentSize sched
                       (new_collection (unat ecPieceCount) (length secondaryEndpoints) t e)) (\<lambda>c.
                  case co_phase c of
                    Waiting \<Rightarrow> None
                  | Failed err \<Rightarrow> Some (Returns (False, recover_SetError err (co_task c), co_exec c))
                  | Enough \<Rightarrow> Some
                      (case xe_DecodeRawSegment env (co_recoveryDataSources c) segmentSize
                              (uint (RedundantDataChunkNum params)) (uint (RedundantParityChunkNum params)) of
                         Inl _ \<Rightarrow> Returns (False, recover_SetError ErrRecoveryDecode (co_task c), co_exec c)
                       | Inr recoverySegData \<Rightarrow>
                           bind_go (store_recovered env (co_task c) ob (SegmentPieceKey (Id ob) (rr_SegmentIdx (co_task c))) recoverySegData (co_exec c))
                             (\<lambda>(err, finished, t, e). Returns (finished, t, e))))))"

definition executor_HandleRecoverPieceTask :: "('w, 'i) execute_env \<Rightarrow> collect_action list \<Rightarrow> GfSpRecoverPieceTask \<Rightarrow> ('w, 'i) ExecuteModular
    \<Rightarrow> (GfSpRecoverPieceTask \<times> ('w, 'i) ExecuteModular) go option" where
  "executor_HandleRecoverPieceTask env sched t e =
     (let finish = (\<lambda>res. bind_go res (\<lambda>(finished, t, e). Returns (if finished then t\<lparr>rr_Recovered := True\<rparr> else t, e))) in
      case rr_StorageParams t of
        None \<Rightarrow> Some Panics
      | Some params \<Rightarrow>
          (case recover_checks t params of
             Some err \<Rightarrow> Some (Returns (recover_SetError err t, e))
           | None \<Rightarrow>
               if rr_EcIdx t \<ge> 0 then Some (finish (recover_secondary env t (object_of (rr_ObjectInfo t)) e))
               else map_option finish (recover_primary env sched t (object_of (rr_ObjectInfo t)) params e)))"

section \<open>Reachable collections\<close>

text \<open>The goroutines that have not counted themselves out, and the pieces that have arrived.\<close>

fun active :: "fetcher \<Rightarrow> bool" where
  "active Fetching = True"
| "active (Counting d) = True"
| "active _ = False"

definition count :: "('a \<Rightarrow> bool) \<Rightarrow> 'a list \<Rightarrow> nat" where
  "count P xs = length (filter P xs)"

lemma count_update:
  "i < length xs \<Longrightarrow> count P (xs[i := y]) + (if P (xs ! i) then 1 else 0) = count P xs + (if P y then 1 else 0)"
proof (induction xs arbitrary: i)
  case (Cons x xs)
  then show ?case by (cases i) (auto simp: count_def)
qed simp

lemma count_le: "count P xs \<le> length xs"
  by (simp add: count_def)

lemma count_zero: "count P xs = 0 \<longleftrightarrow> (\<forall>x \<in> set xs. \<not> P x)"
  by (auto simp: count_def filter_empty_conv)

abbreviation arrived :: "('w, 'i) collection \<Rightarrow> nat" where
  "arrived c \<equiv> count (\<lambda>x. x \<noteq> None) (co_recoveryDataSources c)"

abbreviation fetching :: "('w, 'i) collection \<Rightarrow> nat" where
  "fetching c \<equiv> count (\<lambda>x. x = Fetching) (co_fetchers c)"

fun phase_ok :: "uint32 \<Rightarrow> uint32 \<Rightarrow> phase \<Rightarrow> bool" where
  "phase_ok d k Waiting = (k < d)"
| "phase_ok d k Enough = (d \<le> k)"
| "phase_ok d k (Failed err) = (err = ErrRecoveryPieceNotEnough)"

definition collection_ok :: "nat \<Rightarrow> nat \<Rightarrow> uint32 \<Rightarrow> ('w, 'i) collection \<Rightarrow> bool" where
  "collection_ok n m d c \<longleftrightarrow>
     length (co_fetchers c) = n \<and> length (co_recoveryDataSources c) = m
   \<and> unat (co_totalTaskNum c) = count active (co_fetchers c)
   \<and> arrived c = co_doneCh c + unat (co_doneTaskNum c) \<and> arrived c + fetching c \<le> n
   \<and> (\<forall>i < n. co_fetchers c ! i = Fetching \<longrightarrow> co_recoveryDataSources c ! i = None)
   \<and> phase_ok d (co_doneTaskNum c) (co_phase c)
   \<and> (co_phase c \<in> {Waiting, Enough} \<longrightarrow> ((\<exists>i < n. co_fetchers c ! i = Quitting) \<longleftrightarrow> co_totalTaskNum c = 0))"

lemma new_collection_ok:
  assumes "0 < n" "n < 2 ^ 32" "0 < d" "n \<le> m"
  shows "collection_ok n m d (new_collection n m t e)"
proof -
  have "count active (replicate n Fetching) = n" "count (\<lambda>x. x = Fetching) (replicate n Fetching) = n"
    "count (\<lambda>x. x \<noteq> None) (replicate m (None :: bytes option)) = 0" by (simp_all add: count_def filter_replicate)
  moreover have "unat (of_nat n :: uint32) = n" using assms(2) by (simp add: unat_of_nat)
  moreover from this have "(of_nat n :: uint32) \<noteq> 0" using assms(1) by (metis less_irrefl unat_0)
  ultimately show ?thesis using assms by (simp add: collection_ok_def new_collection_def)
qed

lemma step_Fetch_ok:
  assumes "collection_ok n m d c" "n \<le> m" "collect_step env eps d sz (Fetch i) c = Some c'"
  shows "collection_ok n m d c'"
proof -
  have i: "i < n" "co_fetchers c ! i = Fetching" "co_recoveryDataSources c ! i = None" "i < m"
    using assms by (auto simp: collection_ok_def split: if_splits)
  note up = count_update [of i "co_fetchers c"] count_update [of i "co_recoveryDataSources c"]
  have len: "length (co_fetchers c) = n" "length (co_recoveryDataSources c) = m" using assms(1) by (simp_all add: collection_ok_def)
  have q: "(\<exists>j < n. (co_fetchers c)[i := Counting x] ! j = Quitting) = (\<exists>j < n. co_fetchers c ! j = Quitting)" for x
  proof -
    have "(co_fetchers c)[i := Counting x] ! j = Quitting \<longleftrightarrow> co_fetchers c ! j = Quitting" if "j < n" for j
      using that i(1,2) len by (cases "j = i") simp_all
    then show ?thesis by blast
  qed
  obtain r t e where r: "doRecoveryPiece env (co_task c) (eps ! i) (co_exec c) = (r, t, e)" by (metis prod_cases3)
  show ?thesis
  proof (cases r)
    case (Inl err)
    then have c': "c' = c\<lparr>co_fetchers := (co_fetchers c)[i := Counting []], co_task := t, co_exec := e\<rparr>"
      using assms(3) r i len by simp
    show ?thesis using assms(1) up(1) [of active "Counting []"] up(1) [of "\<lambda>x. x = Fetching" "Counting []"] i len q
      by (auto simp: c' collection_ok_def nth_list_update)
  next
    case (Inr d)
    then have c': "c' = c\<lparr>co_fetchers := (co_fetchers c)[i := Counting d], co_recoveryDataSources := (co_recoveryDataSources c)[i := Some d],
        co_doneCh := co_doneCh c + 1, co_task := t, co_exec := e\<rparr>"
      using assms(3) r i len by simp
    show ?thesis
      using assms(1) up(1) [of active "Counting d"] up(1) [of "\<lambda>x. x = Fetching" "Counting d"] up(2) [of "\<lambda>x. x \<noteq> None" "Some d"] i len q
      by (auto simp: c' collection_ok_def nth_list_update)
  qed
qed

lemma step_CountOut_ok:
  assumes "collection_ok n m d c" "collect_step env eps d sz (CountOut i) c = Some c'"
  shows "collection_ok n m d c'"
proof -
  have len: "length (co_fetchers c) = n" using assms(1) by (simp add: collection_ok_def)
  obtain x where i: "i < n" "co_fetchers c ! i = Counting x" using assms(2) len by (auto split: if_splits fetcher.splits)
  note up = count_update [of i "co_fetchers c"]
  have "count active (co_fetchers c) \<noteq> 0" unfolding count_zero using i len by (metis active.simps(2) nth_mem)
  then have "co_totalTaskNum c \<noteq> 0" using assms(1) by (auto simp: collection_ok_def)
  then have dec: "unat (co_totalTaskNum c - 1) = unat (co_totalTaskNum c) - 1" by (simp add: unat_minus_one)
  then have total: "unat (co_totalTaskNum c - 1) = count active ((co_fetchers c)[i := y])" if "\<not> active y" for y
    using assms(1) up [of active y] i len that by (simp add: collection_ok_def)
  have keep: "fetching (c\<lparr>co_fetchers := (co_fetchers c)[i := y]\<rparr>) = fetching c" if "y \<noteq> Fetching" for y
    using up [of "\<lambda>x. x = Fetching" y] i len that by simp
  have noq: "co_phase c \<in> {Waiting, Enough} \<Longrightarrow> \<not> (\<exists>j < n. co_fetchers c ! j = Quitting)"
    using assms(1) \<open>co_totalTaskNum c \<noteq> 0\<close> by (auto simp: collection_ok_def)
  show ?thesis
  proof (cases "co_totalTaskNum c - 1 = 0")
    case True
    then have c': "c' = c\<lparr>co_totalTaskNum := co_totalTaskNum c - 1, co_downLoadPieceSize := int (length x), co_fetchers := (co_fetchers c)[i := Quitting]\<rparr>"
      using assms(2) i len by simp
    show ?thesis using assms(1) total [of Quitting] keep [of Quitting] True i len
      by (auto simp: c' collection_ok_def nth_list_update)
  next
    case False
    then have c': "c' = c\<lparr>co_totalTaskNum := co_totalTaskNum c - 1, co_fetchers := (co_fetchers c)[i := Ended]\<rparr>"
      using assms(2) i len by simp
    show ?thesis using assms(1) total [of Ended] keep [of Ended] False i len noq
      by (auto simp: c' collection_ok_def nth_list_update split: if_splits)
  qed
qed

lemma step_TakeDone_ok:
  assumes "collection_ok n m d c" "n < 2 ^ 32" "collect_step env eps d sz TakeDone c = Some c'"
  shows "collection_ok n m d c'"
proof -
  have w: "co_phase c = Waiting" "0 < co_doneCh c" using assms(3) by (auto split: if_splits)
  have "Suc (unat (co_doneTaskNum c)) < 2 ^ 32" using assms(1,2) w(2) by (auto simp: collection_ok_def)
  then have "unat (co_doneTaskNum c + 1) = unat (co_doneTaskNum c) + 1"
    by (simp add: unat_word_ariths)
  then show ?thesis using assms(1,3) w by (auto simp: collection_ok_def not_le Let_def)
qed

lemma step_TakeQuit_ok:
  assumes "collection_ok n m d c" "collect_step env eps d sz (TakeQuit i) c = Some c'"
  shows "collection_ok n m d c'" "co_phase c' = Failed ErrRecoveryPieceNotEnough"
proof -
  have w: "co_phase c = Waiting" "i < n" "co_fetchers c ! i = Quitting" using assms by (auto simp: collection_ok_def split: if_splits)
  have less: "co_doneTaskNum c < d" using assms(1) w(1) by (simp add: collection_ok_def)
  have len: "length (co_fetchers c) = n" using assms(1) by (simp add: collection_ok_def)
  have c': "c' = c\<lparr>co_fetchers := (co_fetchers c)[i := Ended], co_phase := Failed ErrRecoveryPieceNotEnough\<rparr>"
    using assms(2) w less len by (simp add: Let_def)
  show "co_phase c' = Failed ErrRecoveryPieceNotEnough" by (simp add: c')
  show "collection_ok n m d c'"
    using assms(1) count_update [of i "co_fetchers c" active Ended] count_update [of i "co_fetchers c" "\<lambda>x. x = Fetching" Ended] w len
    by (auto simp: c' collection_ok_def nth_list_update split: if_splits)
qed

lemma collect_step_ok:
  assumes "collection_ok n m d c" "n \<le> m" "n < 2 ^ 32" "collect_step env eps d sz a c = Some c'"
  shows "collection_ok n m d c'"
proof (cases a)
  case (Fetch i)
  then show ?thesis using step_Fetch_ok [OF assms(1,2)] assms(4) by metis
next
  case (CountOut i)
  then show ?thesis using step_CountOut_ok [OF assms(1)] assms(4) by metis
next
  case TakeDone
  then show ?thesis using step_TakeDone_ok [OF assms(1,3)] assms(4) by metis
next
  case (TakeQuit i)
  then show ?thesis using step_TakeQuit_ok(1) [OF assms(1)] assms(4) by metis
qed

lemma collect_run_ok:
  "collect_run env eps d sz acts c = Some c' \<Longrightarrow> collection_ok n m d c \<Longrightarrow> n \<le> m \<Longrightarrow> n < 2 ^ 32 \<Longrightarrow> collection_ok n m d c'"
  by (induction acts arbitrary: c) (auto simp: bind_eq_Some_conv dest: collect_step_ok)

section \<open>Every schedule ends\<close>

definition work_left :: "('w, 'i) collection \<Rightarrow> nat" where
  "work_left c = 2 * fetching c + 2 * count active (co_fetchers c) + count (\<lambda>x. x = Quitting) (co_fetchers c) + co_doneCh c"

lemma collect_step_work: "collect_step env eps d sz a c = Some c' \<Longrightarrow> work_left c' < work_left c"
proof (cases a)
  case (Fetch i)
  assume step: "collect_step env eps d sz a c = Some c'"
  then have i: "i < length (co_fetchers c)" "co_fetchers c ! i = Fetching" using Fetch by (auto split: if_splits)
  obtain r t e where r: "doRecoveryPiece env (co_task c) (eps ! i) (co_exec c) = (r, t, e)" by (metis prod_cases3)
  obtain x where f: "co_fetchers c' = (co_fetchers c)[i := Counting x]" "co_doneCh c' \<le> co_doneCh c + 1"
    using step Fetch i r by (cases r) auto
  have "count (\<lambda>x. x = Fetching) ((co_fetchers c)[i := Counting x]) + 1 = fetching c"
    "count active ((co_fetchers c)[i := Counting x]) = count active (co_fetchers c)"
    "count (\<lambda>x. x = Quitting) ((co_fetchers c)[i := Counting x]) = count (\<lambda>x. x = Quitting) (co_fetchers c)"
    using count_update [OF i(1), of "\<lambda>x. x = Fetching" "Counting x"] count_update [OF i(1), of active "Counting x"]
      count_update [OF i(1), of "\<lambda>x. x = Quitting" "Counting x"] i(2) by simp_all
  then show ?thesis using f(2) by (simp add: work_left_def f(1))
next
  case (CountOut i)
  assume step: "collect_step env eps d sz a c = Some c'"
  then obtain x where i: "i < length (co_fetchers c)" "co_fetchers c ! i = Counting x" using CountOut by (auto split: if_splits fetcher.splits)
  obtain y where f: "co_fetchers c' = (co_fetchers c)[i := y]" "co_doneCh c' = co_doneCh c" "y = Quitting \<or> y = Ended"
    using step CountOut i by (cases "co_totalTaskNum c - 1 = 0") auto
  have "count (\<lambda>x. x = Fetching) ((co_fetchers c)[i := y]) = fetching c" "count active ((co_fetchers c)[i := y]) + 1 = count active (co_fetchers c)"
    "count (\<lambda>x. x = Quitting) ((co_fetchers c)[i := y]) \<le> count (\<lambda>x. x = Quitting) (co_fetchers c) + 1"
    using count_update [OF i(1), of "\<lambda>x. x = Fetching" y] count_update [OF i(1), of active y] count_update [OF i(1), of "\<lambda>x. x = Quitting" y] i(2) f(3) by auto
  then show ?thesis by (simp add: work_left_def f)
next
  case TakeDone
  assume "collect_step env eps d sz a c = Some c'"
  then show ?thesis using TakeDone by (auto simp: work_left_def Let_def split: if_splits)
next
  case (TakeQuit i)
  assume step: "collect_step env eps d sz a c = Some c'"
  then have i: "i < length (co_fetchers c)" "co_fetchers c ! i = Quitting" using TakeQuit by (auto split: if_splits)
  have f: "co_fetchers c' = (co_fetchers c)[i := Ended]" "co_doneCh c' = co_doneCh c" using step TakeQuit by (auto simp: Let_def split: if_splits)
  have "count (\<lambda>x. x = Fetching) ((co_fetchers c)[i := Ended]) = fetching c" "count active ((co_fetchers c)[i := Ended]) = count active (co_fetchers c)"
    "count (\<lambda>x. x = Quitting) ((co_fetchers c)[i := Ended]) + 1 = count (\<lambda>x. x = Quitting) (co_fetchers c)"
    using count_update [OF i(1), of "\<lambda>x. x = Fetching" Ended] count_update [OF i(1), of active Ended]
      count_update [OF i(1), of "\<lambda>x. x = Quitting" Ended] i(2) by simp_all
  then show ?thesis by (simp add: work_left_def f)
qed

lemma collect_run_work: "collect_run env eps d sz acts c = Some c' \<Longrightarrow> length acts + work_left c' \<le> work_left c"
proof (induction acts arbitrary: c)
  case (Cons a acts)
  then obtain c1 where "collect_step env eps d sz a c = Some c1" "collect_run env eps d sz acts c1 = Some c'" by (auto simp: bind_eq_Some_conv)
  with Cons.IH [of c1] collect_step_work [of env eps d sz a c c1] show ?case by simp
qed simp

lemma active_enabled:
  assumes "i < length (co_fetchers c)" "active (co_fetchers c ! i)"
  shows "\<exists>a. collect_step env eps d sz a c \<noteq> None"
proof (cases "co_fetchers c ! i")
  case Fetching
  then show ?thesis using assms(1) by (intro exI [of _ "Fetch i"]) (auto split: prod.splits sum.splits)
next
  case (Counting x)
  then show ?thesis using assms(1) by (intro exI [of _ "CountOut i"]) simp
qed (use assms(2) in simp_all)

lemma all_counted_out:
  assumes "collection_ok n m d c" "\<forall>i < n. \<not> active (co_fetchers c ! i)"
  shows "co_totalTaskNum c = 0"
proof -
  have "count active (co_fetchers c) = 0" unfolding count_zero using assms by (auto simp: collection_ok_def in_set_conv_nth)
  then show ?thesis using assms(1) by (simp add: collection_ok_def word_unat_eq_iff)
qed

text \<open>
  C39. Collecting pieces from the secondary providers always comes to an end: whatever they answer, no order of
  the goroutines and of the waiting loop has more than four actions per provider, and as long as the loop
  waits some action is possible; a loop that ends otherwise than with enough pieces reports that there are not
  enough, so that the test of the piece length is never reached.
\<close>

theorem collection_ends:
  assumes "0 < n" "n < 2 ^ 32" "n \<le> m" "0 < d" "collect_run env eps d sz acts (new_collection n m t e) = Some c"
  shows "length acts \<le> 4 * n \<and> (co_phase c = Waiting \<longrightarrow> (\<exists>a. collect_step env eps d sz a c \<noteq> None))
    \<and> co_phase c \<in> {Waiting, Enough, Failed ErrRecoveryPieceNotEnough}"
proof -
  have ok: "collection_ok n m d c" using collect_run_ok [OF assms(5) new_collection_ok [OF assms(1,2,4,3)] assms(3,2)] .
  have "work_left (new_collection n m t e :: ('a, 'b) collection) = 4 * n"
    by (simp add: work_left_def new_collection_def count_def filter_replicate)
  then have "length acts \<le> 4 * n" using collect_run_work [OF assms(5)] by linarith
  moreover have "\<exists>a. collect_step env eps d sz a c \<noteq> None" if w: "co_phase c = Waiting"
  proof (cases "\<exists>i < n. active (co_fetchers c ! i)")
    case True
    then show ?thesis using ok active_enabled by (metis collection_ok_def)
  next
    case False
    then obtain i where "i < n" "co_fetchers c ! i = Quitting"
      using all_counted_out [OF ok] ok w by (auto simp: collection_ok_def)
    then show ?thesis using w ok by (intro exI [of _ "TakeQuit i"]) (simp add: collection_ok_def Let_def)
  qed
  moreover have "co_phase c \<in> {Waiting, Enough, Failed ErrRecoveryPieceNotEnough}" using ok by (cases "co_phase c") (auto simp: collection_ok_def)
  ultimately show ?thesis by blast
qed

text \<open>
  Every successful collection leaves a goroutine behind: once the loop was left with enough pieces and
  nothing more can happen, the goroutine that counted out last still waits for a receiver of its quit signal.
  The pieces that the loop waited for are there.
\<close>

theorem collection_leaks_goroutine:
  assumes "0 < n" "n < 2 ^ 32" "n \<le> m" "0 < d" "collect_run env eps d sz acts (new_collection n m t e) = Some c"
    "co_phase c = Enough" "\<And>a. collect_step env eps d sz a c = None"
  shows "(\<exists>i < n. co_fetchers c ! i = Quitting) \<and> unat d \<le> length (filter (\<lambda>x. x \<noteq> None) (co_recoveryDataSources c))"
proof -
  have ok: "collection_ok n m d c" using collect_run_ok [OF assms(5) new_collection_ok [OF assms(1,2,4,3)] assms(3,2)] .
  have "\<forall>i < n. \<not> active (co_fetchers c ! i)" using assms(7) active_enabled ok by (metis collection_ok_def)
  then have "\<exists>i < n. co_fetchers c ! i = Quitting" using all_counted_out [OF ok] ok assms(6) by (auto simp: collection_ok_def)
  moreover have "unat d \<le> arrived c" using ok assms(6) by (auto simp: collection_ok_def word_le_nat_alt)
  ultimately show ?thesis by (simp add: count_def)
qed

section \<open>A race in the waiting loop\<close>

definition one_by_one :: "nat \<Rightarrow> collect_action list" where
  "one_by_one k = concat (map (\<lambda>i. [Fetch i, CountOut i]) [0..<k])"

lemma collect_run_append:
  "collect_run env eps d sz (as @ bs) c = Option.bind (collect_run env eps d sz as c) (collect_run env eps d sz bs)"
  by (induction as arbitrary: c) (auto simp: bind_eq_Some_conv split: Option.bind_splits)

definition answered :: "nat \<Rightarrow> nat \<Rightarrow> nat \<Rightarrow> ('w, 'i) collection \<Rightarrow> bool" where
  "answered n m k c \<longleftrightarrow> length (co_fetchers c) = n \<and> length (co_recoveryDataSources c) = m \<and> co_phase c = Waiting
     \<and> co_doneCh c = k \<and> co_doneTaskNum c = 0 \<and> co_totalTaskNum c = of_nat (n - k)
     \<and> (\<forall>i < n. k \<le> i \<longrightarrow> co_fetchers c ! i = Fetching) \<and> (\<forall>i < k. co_recoveryDataSources c ! i \<noteq> None)
     \<and> (k = n \<longrightarrow> co_fetchers c ! (n - 1) = Quitting)"

lemma answered_next:
  assumes "answered n m k c" "k < n" "n \<le> m" "n < 2 ^ 32"
    and answers: "\<And>t ep e. \<exists>x t' e'. doRecoveryPiece env t ep e = (Inr x, t', e')"
  shows "\<exists>c'. collect_run env eps d sz [Fetch k, CountOut k] c = Some c' \<and> answered n m (Suc k) c'"
proof -
  obtain x t e where x: "doRecoveryPiece env (co_task c) (eps ! k) (co_exec c) = (Inr x, t, e)" using answers by blast
  have num: "of_nat (n - k) - 1 = (of_nat (n - Suc k) :: uint32)"
    using assms(2) by (metis Suc_diff_Suc add_diff_cancel_left' of_nat_Suc)
  have "(of_nat (n - Suc k) :: uint32) = 0 \<longleftrightarrow> n - Suc k = 0"
    using assms(4) unat_of_nat [of "n - Suc k", where 'a = 32] by (auto simp: unat_eq_0 [symmetric])
  then have last: "co_totalTaskNum c - 1 = 0 \<longleftrightarrow> Suc k = n"
    using assms(1,2) num by (auto simp: answered_def simp del: of_nat_diff)
  let ?f = "c\<lparr>co_fetchers := (co_fetchers c)[k := Counting x], co_recoveryDataSources := (co_recoveryDataSources c)[k := Some x],
    co_doneCh := co_doneCh c + 1, co_task := t, co_exec := e\<rparr>"
  have "collect_step env eps d sz (Fetch k) c = Some ?f" using assms(1,2) x by (simp add: answered_def)
  moreover have "\<exists>c'. collect_step env eps d sz (CountOut k) ?f = Some c' \<and> answered n m (Suc k) c'"
  proof (cases "Suc k = n")
    case True
    then show ?thesis using assms(1,3) last by (auto simp: answered_def nth_list_update less_Suc_eq)
  next
    case False
    then show ?thesis using assms(1-3) last num by (auto simp: answered_def nth_list_update less_Suc_eq simp del: of_nat_diff)
  qed
  ultimately show ?thesis by (simp del: collect_step.simps add: bind_eq_Some_conv)
qed

lemma answered_all:
  assumes "k \<le> n" "0 < n" "n \<le> m" "n < 2 ^ 32" "\<And>t ep e. \<exists>x t' e'. doRecoveryPiece env t ep e = (Inr x, t', e')"
  shows "\<exists>c. collect_run env eps d sz (one_by_one k) (new_collection n m t e) = Some c \<and> answered n m k c"
  using assms(1)
proof (induction k)
  case 0
  then show ?case using assms(2) by (simp add: one_by_one_def answered_def new_collection_def)
next
  case (Suc k)
  then obtain c where "collect_run env eps d sz (one_by_one k) (new_collection n m t e) = Some c" "answered n m k c" by auto
  with answered_next [OF _ _ assms(3,4,5), of k c eps d sz] Suc.prems show ?case
    by (auto simp: one_by_one_def collect_run_append simp del: collect_run.simps collect_step.simps)
qed

lemma take_enough:
  assumes "co_phase c = Waiting" "0 < j" "unat (co_doneTaskNum c) + j = unat d" "j \<le> co_doneCh c"
  shows "\<exists>c'. collect_run env eps d sz (replicate j TakeDone) c = Some c' \<and> co_phase c' = Enough"
  using assms
proof (induction j arbitrary: c)
  case (Suc j)
  let ?n = "co_doneTaskNum c + 1"
  have n: "unat ?n = unat (co_doneTaskNum c) + 1"
    using Suc.prems(3) unsigned_less [of d, where 'a = nat] by (simp add: unat_word_ariths)
  show ?case
  proof (cases j)
    case 0
    then show ?thesis using Suc.prems n by (auto simp: Let_def word_le_nat_alt)
  next
    case (Suc j')
    then have "\<not> d \<le> ?n" using Suc.prems(3) n by (simp add: word_le_nat_alt)
    then show ?thesis
      using Suc Suc.prems n Suc.IH [of "c\<lparr>co_doneCh := co_doneCh c - 1, co_doneTaskNum := ?n\<rparr>"] by (simp add: Let_def)
  qed
qed simp

text \<open>
  The waiting loop may fail although every provider has answered: when all pieces are there and all their
  signals wait in the channel, the loop may just as well receive the quit signal first, and then gives up for
  want of pieces. With the signals received first it has enough. Nothing but the choice of the \<open>select\<close>
  between two ready channels decides.
\<close>

theorem recovery_race:
  assumes "0 < n" "n < 2 ^ 32" "n \<le> m" "0 < d" "unat d \<le> n"
    "\<And>t ep e. \<exists>x t' e'. doRecoveryPiece env t ep e = (Inr x, t', e')"
  shows "\<exists>c. collect_run env eps d sz (one_by_one n) (new_collection n m t e) = Some c
    \<and> (\<forall>i < n. co_recoveryDataSources c ! i \<noteq> None) \<and> co_doneCh c = n
    \<and> map_option co_phase (collect_run env eps d sz [TakeQuit (n - 1)] c) = Some (Failed ErrRecoveryPieceNotEnough)
    \<and> map_option co_phase (collect_run env eps d sz (replicate (unat d) TakeDone) c) = Some Enough"
proof -
  obtain c where c: "collect_run env eps d sz (one_by_one n) (new_collection n m t e) = Some c" "answered n m n c"
    using answered_all [OF order_refl assms(1,3,2,6)] by blast
  have "0 < unat d" using assms(4) by (simp add: word_less_nat_alt)
  then obtain c' where "collect_run env eps d sz (replicate (unat d) TakeDone) c = Some c'" "co_phase c' = Enough"
    using take_enough [of c "unat d" d env eps sz] c(2) assms(5) by (auto simp: answered_def)
  moreover have "map_option co_phase (collect_run env eps d sz [TakeQuit (n - 1)] c) = Some (Failed ErrRecoveryPieceNotEnough)"
    using c(2) assms(1,4) by (simp add: answered_def Let_def)
  ultimately show ?thesis using c by (auto simp: answered_def)
qed

section \<open>What a recovered piece is\<close>

text \<open>The parts of the task and of the executor that only \<open>store_recovered\<close> depends on or changes.\<close>

abbreviation fixed_parts :: "GfSpRecoverPieceTask \<Rightarrow> ('w, 'i) ExecuteModular \<Rightarrow> uint32 \<times> int32 \<times> bool \<times> ObjectStorage \<times> 'i" where
  "fixed_parts t e \<equiv> (rr_SegmentIdx t, rr_EcIdx t, rr_Recovered t, ex_pieceStore e, ex_integrity e)"

lemma outside_fixed: "outside f e = (a, e') \<Longrightarrow> fixed_parts t e' = fixed_parts t e"
  by (auto simp: outside_def split: prod.splits)

lemma SetError_fixed [simp]: "fixed_parts (recover_SetError x t) e = fixed_parts t e"
  by (simp add: recover_SetError_def GfSpRecoverPieceTask_on_task_def)

lemma doRecoveryPiece_fixed: "doRecoveryPiece env t ep e = (r, t', e') \<Longrightarrow> fixed_parts t' e' = fixed_parts t e"
  by (auto simp: doRecoveryPiece_def Let_def outside_def split: prod.splits sum.splits)

lemma endpoints_fixed:
  "getObjectSecondaryEndpoints env ob e = (r, e') \<Longrightarrow> fixed_parts t e' = fixed_parts t e"
  "getObjectPrimarySPEndpoint env b e = (r', e') \<Longrightarrow> fixed_parts t e' = fixed_parts t e"
  by (auto simp: getObjectSecondaryEndpoints_def getObjectPrimarySPEndpoint_def outside_def
      split: prod.splits sum.splits option.splits)

lemma collect_run_fixed:
  "collect_run env eps d sz acts c = Some c' \<Longrightarrow> fixed_parts (co_task c') (co_exec c') = fixed_parts (co_task c) (co_exec c)"
proof (induction acts arbitrary: c)
  case (Cons a acts)
  then obtain c1 where s: "collect_step env eps d sz a c = Some c1" "collect_run env eps d sz acts c1 = Some c'" by (auto simp: bind_eq_Some_conv)
  have "fixed_parts (co_task c1) (co_exec c1) = fixed_parts (co_task c) (co_exec c)"
  proof (cases a)
    case (Fetch i)
    obtain r t e where r: "doRecoveryPiece env (co_task c) (eps ! i) (co_exec c) = (r, t, e)" by (metis prod_cases3)
    then show ?thesis using s(1) Fetch doRecoveryPiece_fixed [OF r] by (cases r) (auto split: if_splits)
  qed (use s(1) in \<open>auto simp: Let_def split: if_splits fetcher.splits\<close>)
  with Cons.IH [OF s(2)] show ?case by simp
qed simp

definition recovered_as :: "('w, 'i) execute_env \<Rightarrow> ObjectInfo \<Rightarrow> uint32 \<Rightarrow> string \<Rightarrow> ('w, 'i) ExecuteModular \<Rightarrow> ('w, 'i) ExecuteModular \<Rightarrow> bool" where
  "recovered_as env ob segmentIdx key e e' \<longleftrightarrow>
     (\<exists>meta data. GetObjectIntegrity (xe_integrity env) (ex_integrity e) (Id ob) = Inr meta \<and> unat segmentIdx < length (im_PieceChecksumList meta)
        \<and> xe_hash env data = im_PieceChecksumList meta ! unat segmentIdx
        \<and> store_content (ex_pieceStore e') = (store_content (ex_pieceStore e))(key \<mapsto> data))"

lemma store_recovered_spec:
  assumes "store_recovered env t ob key data e = Returns (err, finished, t', e')" "store_ok (ex_pieceStore e)"
  shows "(if finished then recovered_as env ob (rr_SegmentIdx t) key e e' else store_content (ex_pieceStore e') = store_content (ex_pieceStore e))
    \<and> rr_Recovered t' = rr_Recovered t"
proof -
  obtain cerr t1 where c: "checkRecoveryCheckSum env t ob (xe_hash env data) e = Returns (cerr, t1)"
    using assms(1) by (cases "checkRecoveryCheckSum env t ob (xe_hash env data) e") (auto simp: store_recovered_def)
  have t1: "rr_Recovered t1 = rr_Recovered t"
    using c by (auto simp: checkRecoveryCheckSum_def recover_SetError_def GfSpRecoverPieceTask_on_task_def split: sum.splits if_splits)
  obtain s where p: "PutPiece (xe_now env (ex_world e)) (ex_pieceStore e) key data = Returns (if key = [] then Some ErrInvalidObjectKey else None, s)"
    "store_content s = map_op (PutOp (xe_now env (ex_world e)) key data) (store_content (ex_pieceStore e))"
    using PutPiece_content [OF assms(2)] by blast
  show ?thesis
  proof (cases "cerr = None")
    case True
    then obtain meta where "GetObjectIntegrity (xe_integrity env) (ex_integrity e) (Id ob) = Inr meta"
      "unat (rr_SegmentIdx t) < length (im_PieceChecksumList meta)" "xe_hash env data = im_PieceChecksumList meta ! unat (rr_SegmentIdx t)"
      using c by (auto simp: checkRecoveryCheckSum_def not_le split: sum.splits if_splits)
    then show ?thesis using assms(1) c p t1 True by (auto simp: store_recovered_def recovered_as_def)
  qed (use assms(1) c t1 in \<open>auto simp: store_recovered_def\<close>)
qed

lemma recover_secondary_spec:
  assumes "recover_secondary env t ob e = Returns (finished, t', e')" "store_ok (ex_pieceStore e)"
  shows "(if finished then recovered_as env ob (rr_SegmentIdx t) (ECPieceKey (Id ob) (rr_SegmentIdx t) (word_of_int (rr_EcIdx t))) e e'
      else store_content (ex_pieceStore e') = store_content (ex_pieceStore e)) \<and> rr_Recovered t' = rr_Recovered t"
proof -
  obtain r1 e1 where r1: "getObjectPrimarySPEndpoint env (BucketName ob) e = (r1, e1)" by fastforce
  note f1 = endpoints_fixed(2) [OF r1, of t]
  show ?thesis
  proof (cases r1)
    case (Inl err)
    then show ?thesis using assms(1) r1 f1 by (auto simp: recover_secondary_def recover_SetError_def GfSpRecoverPieceTask_on_task_def)
  next
    case (Inr ep)
    obtain r2 t2 e2 where r2: "doRecoveryPiece env t ep e1 = (r2, t2, e2)" by (metis prod_cases3)
    note f2 = doRecoveryPiece_fixed [OF r2]
    show ?thesis
    proof (cases r2)
      case (Inl err)
      then show ?thesis using assms(1) r1 f1 r2 f2 Inr by (auto simp: recover_secondary_def recover_SetError_def GfSpRecoverPieceTask_on_task_def)
    next
      case (Inr data)
      let ?s = "store_recovered env t2 ob (ECPieceKey (Id ob) (rr_SegmentIdx t2) (word_of_int (rr_EcIdx t2))) data e2"
      obtain err t3 where s: "?s = Returns (err, finished, t3, e')" "rr_Recovered t' = rr_Recovered t3"
        using assms(1) r1 r2 Inr \<open>r1 = Inr ep\<close>
        by (cases ?s) (auto simp: recover_secondary_def recover_SetError_def GfSpRecoverPieceTask_on_task_def split: option.splits)
      show ?thesis using store_recovered_spec [OF s(1)] s(2) f1 f2 assms(2) by (auto simp: recovered_as_def)
    qed
  qed
qed

lemma recover_primary_spec:
  assumes "recover_primary env sched t ob params e = Some (Returns (finished, t', e'))" "store_ok (ex_pieceStore e)"
  shows "(if finished then recovered_as env ob (rr_SegmentIdx t) (SegmentPieceKey (Id ob) (rr_SegmentIdx t)) e e'
      else store_content (ex_pieceStore e') = store_content (ex_pieceStore e)) \<and> rr_Recovered t' = rr_Recovered t"
proof -
  obtain r1 e1 where r1: "getObjectSecondaryEndpoints env ob e = (r1, e1)" by fastforce
  note f1 = endpoints_fixed(1) [OF r1, of t]
  show ?thesis
  proof (cases r1)
    case (Inl err)
    then show ?thesis using assms(1) r1 f1 by (auto simp: recover_primary_def)
  next
    case (Inr eps)
    then obtain sz c where c: "SegmentPieceSize (PayloadSize ob) (rr_SegmentIdx t) (MaxSegmentSize params) = Returns sz"
      "collect_run env eps (RedundantDataChunkNum params) sz sched
         (new_collection (unat (RedundantDataChunkNum params + RedundantParityChunkNum params)) (length eps) t e1) = Some c"
      using assms(1) r1 by (auto simp: recover_primary_def Let_def bind_eq_Some_conv split: go.splits if_splits)
    have f2: "fixed_parts (co_task c) (co_exec c) = fixed_parts t e1" using collect_run_fixed [OF c(2)] by (simp add: new_collection_def)
    have run: "(case co_phase c of Waiting \<Rightarrow> None
        | Failed err \<Rightarrow> Some (Returns (False, recover_SetError err (co_task c), co_exec c))
        | Enough \<Rightarrow> Some (case xe_DecodeRawSegment env (co_recoveryDataSources c) sz
                              (uint (RedundantDataChunkNum params)) (uint (RedundantParityChunkNum params)) of
              Inl _ \<Rightarrow> Returns (False, recover_SetError ErrRecoveryDecode (co_task c), co_exec c)
            | Inr d \<Rightarrow> bind_go (store_recovered env (co_task c) ob (SegmentPieceKey (Id ob) (rr_SegmentIdx (co_task c))) d (co_exec c))
                (\<lambda>(err, finished, t, e). Returns (finished, t, e)))) = Some (Returns (finished, t', e'))"
      using assms(1) r1 Inr c by (auto simp: recover_primary_def Let_def split: if_splits)
    show ?thesis
    proof (cases "\<exists>err. finished = False \<and> t' = recover_SetError err (co_task c) \<and> e' = co_exec c")
      case True
      then show ?thesis using f1 f2 by (auto simp: recover_SetError_def GfSpRecoverPieceTask_on_task_def)
    next
      case False
      then obtain d where d: "bind_go (store_recovered env (co_task c) ob (SegmentPieceKey (Id ob) (rr_SegmentIdx (co_task c))) d (co_exec c))
          (\<lambda>(err, finished, t, e). Returns (finished, t, e)) = Returns (finished, t', e')"
        using run by (cases "co_phase c") (auto split: sum.splits)
      then obtain err where s: "store_recovered env (co_task c) ob (SegmentPieceKey (Id ob) (rr_SegmentIdx (co_task c))) d (co_exec c)
          = Returns (err, finished, t', e')"
        by (cases "store_recovered env (co_task c) ob (SegmentPieceKey (Id ob) (rr_SegmentIdx (co_task c))) d (co_exec c)") auto
      show ?thesis using store_recovered_spec [OF s] f1 f2 assms(2) by (auto simp: recovered_as_def)
    qed
  qed
qed

text \<open>
  C37. A piece counts as recovered only when what was stored hashes to the checksum that the integrity record has
  at the task's segment index; it is stored under the key of the piece that was lost, whatever the other providers sent
  and in whatever order. A task that is not marked as recovered leaves the piece store alone.
\<close>

theorem recovered_piece_matches:
  assumes "executor_HandleRecoverPieceTask env sched t e = Some (Returns (t', e'))" "rr_ObjectInfo t = Some ob"
    "\<not> rr_Recovered t" "store_ok (ex_pieceStore e)"
  shows "if rr_Recovered t'
    then recovered_as env ob (rr_SegmentIdx t)
      (if rr_EcIdx t \<ge> 0 then ECPieceKey (Id ob) (rr_SegmentIdx t) (word_of_int (rr_EcIdx t)) else SegmentPieceKey (Id ob) (rr_SegmentIdx t)) e e'
    else store_content (ex_pieceStore e') = store_content (ex_pieceStore e)"
proof -
  obtain params where p: "rr_StorageParams t = Some params"
    using assms(1) by (cases "rr_StorageParams t") (auto simp: executor_HandleRecoverPieceTask_def)
  show ?thesis
  proof (cases "recover_checks t params")
    case (Some err)
    then show ?thesis using assms p by (auto simp: executor_HandleRecoverPieceTask_def recover_SetError_def GfSpRecoverPieceTask_on_task_def)
  next
    case checks: None
    show ?thesis
    proof (cases "rr_EcIdx t \<ge> 0")
      case True
      then obtain finished t1 where s: "recover_secondary env t ob e = Returns (finished, t1, e')"
        "t' = (if finished then t1\<lparr>rr_Recovered := True\<rparr> else t1)"
        using assms(1,2) p checks by (cases "recover_secondary env t ob e") (auto simp: executor_HandleRecoverPieceTask_def object_of_def)
      then show ?thesis using recover_secondary_spec [OF s(1) assms(4)] True assms(3) by auto
    next
      case False
      then obtain res where r: "recover_primary env sched t ob params e = Some res"
        "bind_go res (\<lambda>(finished, t, e). Returns (if finished then t\<lparr>rr_Recovered := True\<rparr> else t, e)) = Returns (t', e')"
        using assms(1,2) p checks by (auto simp: executor_HandleRecoverPieceTask_def Let_def object_of_def)
      then obtain finished t1 where s: "recover_primary env sched t ob params e = Some (Returns (finished, t1, e'))"
        "t' = (if finished then t1\<lparr>rr_Recovered := True\<rparr> else t1)"
        by (cases res) auto
      then show ?thesis using recover_primary_spec [OF s(1) assms(4)] False assms(3) by auto
    qed
  qed
qed

section \<open>A recovery from two providers\<close>

definition demo_recover_env :: "(nat, (uint64 \<times> IntegrityMetaTable) list) execute_env" where
  "demo_recover_env = demo_exec_env\<lparr>xe_GetPieceFromECChunks := (\<lambda>ep t w. (Inr [1, 2], Suc w)),
     xe_DecodeRawSegment := (\<lambda>xs n d p. Inr [1, 2])\<rparr>"

definition demo_recover_task :: GfSpRecoverPieceTask where
  "demo_recover_task = \<lparr>rr_Task = new_task, rr_ObjectInfo = Some (demo_onchain\<lparr>RedundancyType := REDUNDANCY_EC_TYPE\<rparr>),
     rr_StorageParams = Some \<lparr>MaxPayloadSize = 100, MaxSegmentSize = 2, RedundantDataChunkNum = 1, RedundantParityChunkNum = 1\<rparr>,
     rr_SegmentIdx = 0, rr_EcIdx = -1, rr_PieceSize = 0, rr_Signature = [], rr_Recovered = False\<rparr>"

abbreviation "demo_collection \<equiv> new_collection 2 2 demo_recover_task demo_executor"

lemma demo_answers: "\<exists>x t' e'. doRecoveryPiece demo_recover_env t ep e = (Inr x, t', e')"
  by (simp add: doRecoveryPiece_def demo_recover_env_def demo_exec_env_def outside_def Let_def)

theorem collection_ends_witness:
  "\<exists>c. collect_run demo_recover_env [''a'', ''b''] 1 2 [Fetch 0, CountOut 0, Fetch 1] demo_collection = Some c
     \<and> co_phase c = Waiting \<and> (\<exists>a. collect_step demo_recover_env [''a'', ''b''] 1 2 a c \<noteq> None)"
proof -
  have "map_option co_phase (collect_run demo_recover_env [''a'', ''b''] 1 2 [Fetch 0, CountOut 0, Fetch 1] demo_collection) = Some Waiting"
    by code_simp
  then obtain c where c: "collect_run demo_recover_env [''a'', ''b''] 1 2 [Fetch 0, CountOut 0, Fetch 1] demo_collection = Some c"
    "co_phase c = Waiting" by auto
  then show ?thesis using collection_ends [OF _ _ _ _ c(1)] by auto
qed

theorem recovery_race_witness:
  "\<exists>c. collect_run demo_recover_env [''a'', ''b''] 1 2 (one_by_one 2) demo_collection = Some c
     \<and> map_option co_phase (collect_run demo_recover_env [''a'', ''b''] 1 2 [TakeQuit 1] c) = Some (Failed ErrRecoveryPieceNotEnough)
     \<and> map_option co_phase (collect_run demo_recover_env [''a'', ''b''] 1 2 [TakeDone] c) = Some Enough"
  using recovery_race [of 2 2 1 demo_recover_env "[''a'', ''b'']" 2 demo_recover_task demo_executor, OF _ _ _ _ _ demo_answers]
  by (auto simp del: collect_run.simps)

lemma settled:
  assumes "co_phase c \<noteq> Waiting" "filter active (co_fetchers c) = []"
  shows "collect_step env eps d sz a c = None"
proof -
  have "\<not> active (co_fetchers c ! i)" if "i < length (co_fetchers c)" for i
    using assms(2) that by (simp add: filter_empty_conv)
  then have "co_fetchers c ! i \<noteq> Fetching" "co_fetchers c ! i \<noteq> Counting x" if "i < length (co_fetchers c)" for i x
    using that by (metis active.simps(1), metis active.simps(2))
  then show ?thesis using assms(1) by (cases a) (auto split: fetcher.splits)
qed

theorem collection_leaks_goroutine_witness:
  "\<exists>c. collect_run demo_recover_env [''a'', ''b''] 1 2 [Fetch 0, TakeDone, CountOut 0, Fetch 1, CountOut 1] demo_collection = Some c
     \<and> (\<exists>i < 2. co_fetchers c ! i = Quitting)"
proof -
  have "map_option (\<lambda>c. (co_phase c, filter active (co_fetchers c)))
      (collect_run demo_recover_env [''a'', ''b''] 1 2 [Fetch 0, TakeDone, CountOut 0, Fetch 1, CountOut 1] demo_collection) = Some (Enough, [])"
    by code_simp
  then obtain c where c: "collect_run demo_recover_env [''a'', ''b''] 1 2 [Fetch 0, TakeDone, CountOut 0, Fetch 1, CountOut 1] demo_collection = Some c"
    "co_phase c = Enough" "filter active (co_fetchers c) = []" by (auto simp del: collect_run.simps)
  then have "\<exists>i < 2. co_fetchers c ! i = Quitting"
    using collection_leaks_goroutine [OF _ _ _ _ c(1,2) settled] by simp
  with c(1) show ?thesis by blast
qed

definition demo_recoverer :: "(nat, (uint64 \<times> IntegrityMetaTable) list) ExecuteModular" where
  "demo_recoverer = demo_executor\<lparr>ex_integrity := [(7, integrity_row \<lparr>im_ObjectID = 7, im_IntegrityChecksum = [9], im_PieceChecksumList = [[2], [2], [1]], im_Signature = [5]\<rparr>)]\<rparr>"

theorem recovered_piece_matches_witness:
  "\<exists>t' e'. executor_HandleRecoverPieceTask demo_recover_env [Fetch 1, CountOut 1, Fetch 0, TakeDone] demo_recover_task demo_recoverer = Some (Returns (t', e'))
     \<and> rr_Recovered t' \<and> recovered_as demo_recover_env (demo_onchain\<lparr>RedundancyType := REDUNDANCY_EC_TYPE\<rparr>) 0 ''s7_s0'' demo_recoverer e'"
proof -
  let ?r = "executor_HandleRecoverPieceTask demo_recover_env [Fetch 1, CountOut 1, Fetch 0, TakeDone] demo_recover_task demo_recoverer"
  have "map_option (\<lambda>r. case r of Returns (t', e') \<Rightarrow> rr_Recovered t' | Panics \<Rightarrow> False) ?r = Some True" by code_simp
  then obtain x where "?r = Some x" "case x of Returns (t', e') \<Rightarrow> rr_Recovered t' | Panics \<Rightarrow> False" by auto
  then obtain t' e' where r: "?r = Some (Returns (t', e'))" "rr_Recovered t'" by (cases x) auto
  have "SegmentPieceKey 7 0 = ''s7_s0''" by code_simp
  moreover have "store_ok (ex_pieceStore demo_recoverer)" using demo_executor_ok by (simp add: demo_recoverer_def)
  ultimately show ?thesis using r recovered_piece_matches [OF r(1)] by (auto simp: demo_recover_task_def demo_onchain_def)
qed

end
