(* ===== verification/GnfdChain.thy ===== *)
theory GnfdChain
  imports Executor
begin

text \<open>
  The chain client of the provider: \<open>base/gnfd/gnfd.go\<close> and \<open>base/gnfd/gnfd_service.go\<close>.

  The client has one connection per configured node and sends every query to the current one. The
  answers of the nodes, the calls of the \<open>greenfield\<close> and \<open>cometbft\<close> clients, are arguments; a call changes
  the outside world. A pointer that may be nil in an answer without error is an option. A node is its
  position in the configuration: \<open>clients\<close> and \<open>wsClients\<close> are the same list of addresses.
\<close>

section \<open>The nodes\<close>

datatype ActionType = ACTION_GET_OBJECT | ACTION_CREATE_OBJECT

datatype Effect = EFFECT_UNSPECIFIED | EFFECT_ALLOW | EFFECT_DENY

datatype StreamAccountStatus = STREAM_ACCOUNT_STATUS_ACTIVE | STREAM_ACCOUNT_STATUS_FROZEN

record 'w gnfd_nodes =
  gn_now :: "'w \<Rightarrow> int64"
  gn_sleep :: "int64 \<Rightarrow> 'w \<Rightarrow> 'w"
  gn_ABCIInfo :: "nat \<Rightarrow> 'w \<Rightarrow> (go_error + int64) \<times> 'w"
  gn_Account :: "nat \<Rightarrow> string \<Rightarrow> 'w \<Rightarrow> (go_error + string option) \<times> 'w"
  gn_StorageProviders :: "nat \<Rightarrow> 'w \<Rightarrow> (go_error + StorageProvider list) \<times> 'w"
  gn_Validators :: "nat \<Rightarrow> string \<Rightarrow> 'w \<Rightarrow> (go_error + string list) \<times> 'w"
  gn_Params :: "nat \<Rightarrow> 'w \<Rightarrow> (go_error + Params) \<times> 'w"
  gn_QueryParamsByTimestamp :: "nat \<Rightarrow> int64 \<Rightarrow> 'w \<Rightarrow> (go_error + Params) \<times> 'w"
  gn_HeadBucket :: "nat \<Rightarrow> string \<Rightarrow> 'w \<Rightarrow> (go_error + BucketInfo option) \<times> 'w"
  gn_HeadObject :: "nat \<Rightarrow> string \<Rightarrow> string \<Rightarrow> 'w \<Rightarrow> (go_error + ObjectInfo option) \<times> 'w"
  gn_HeadObjectById :: "nat \<Rightarrow> string \<Rightarrow> 'w \<Rightarrow> (go_error + ObjectInfo option) \<times> 'w"
  gn_StreamRecord :: "nat \<Rightarrow> string \<Rightarrow> 'w \<Rightarrow> (go_error + StreamAccountStatus) \<times> 'w"
  gn_VerifyPermission :: "nat \<Rightarrow> string \<Rightarrow> string \<Rightarrow> string \<Rightarrow> ActionType \<Rightarrow> 'w \<Rightarrow> (go_error + Effect) \<times> 'w"

record GreenfieldClient =
  gc_Provider :: string
  gc_currentHeight :: int64
  gc_updatedAt :: int64

record Gnfd =
  gf_client :: nat
  gf_wsClient :: nat
  gf_backUpClients :: "GreenfieldClient list"

definition gnfd_errors :: "registration list" where
  "gnfd_errors =
    [(''GreenfieldChain'', StatusBadRequest, 500001, ''no such bucket''),
     (''GreenfieldChain'', StatusBadRequest, 500002, ''seal failed''),
     (''GreenfieldChain'', StatusBadRequest, 500003, ''reject unseal failed'')]"

definition ErrSealTimeout :: go_error where "ErrSealTimeout = GfSpErr (registered (gnfd_errors ! 1))"
definition ErrRejectUnSealTimeout :: go_error where "ErrRejectUnSealTimeout = GfSpErr (registered (gnfd_errors ! 2))"

definition NewGnfd :: "string list \<Rightarrow> go_error + Gnfd" where
  "NewGnfd chainAddress =
     (if chainAddress = [] then Inl (PlainErr ''greenfield nodes missing'')
      else Inr \<lparr>gf_client = 0, gf_wsClient = 0,
                gf_backUpClients = map (\<lambda>a. \<lparr>gc_Provider = a, gc_currentHeight = 0, gc_updatedAt = 0\<rparr>) chainAddress\<rparr>)"

section \<open>Queries\<close>

definition CurrentHeight :: "'w gnfd_nodes \<Rightarrow> Gnfd \<Rightarrow> 'w \<Rightarrow> (go_error + uint64) \<times> 'w" where
  "CurrentHeight nodes g w =
     (case gn_ABCIInfo nodes (gf_wsClient g) w of
        (Inl err, w) \<Rightarrow> (Inl err, w)
      | (Inr height, w) \<Rightarrow> (Inr (word_of_int height), w))"

definition HasAccount :: "'w gnfd_nodes \<Rightarrow> Gnfd \<Rightarrow> string \<Rightarrow> 'w \<Rightarrow> (go_error + bool) \<times> 'w" where
  "HasAccount nodes g address w =
     (case gn_Account nodes (gf_client g) address w of
        (Inl err, w) \<Rightarrow> (Inl err, w)
      | (Inr account, w) \<Rightarrow> (Inr (account \<noteq> None), w))"

definition ListSPs :: "'w gnfd_nodes \<Rightarrow> Gnfd \<Rightarrow> 'w \<Rightarrow> (go_error + StorageProvider list) \<times> 'w" where
  "ListSPs nodes g w = gn_StorageProviders nodes (gf_client g) w"

definition ListBondedValidators :: "'w gnfd_nodes \<Rightarrow> Gnfd \<Rightarrow> 'w \<Rightarrow> (go_error + string list) \<times> 'w" where
  "ListBondedValidators nodes g w = gn_Validators nodes (gf_client g) ''BOND_STATUS_BONDED'' w"

definition QueryStorageParams :: "'w gnfd_nodes \<Rightarrow> Gnfd \<Rightarrow> 'w \<Rightarrow> (go_error + Params) \<times> 'w" where
  "QueryStorageParams nodes g w = gn_Params nodes (gf_client g) w"

definition QueryStorageParamsByTimestamp :: "'w gnfd_nodes \<Rightarrow> Gnfd \<Rightarrow> int64 \<Rightarrow> 'w \<Rightarrow> (go_error + Params) \<times> 'w" where
  "QueryStorageParamsByTimestamp nodes g timestamp w = gn_QueryParamsByTimestamp nodes (gf_client g) timestamp w"

definition QueryBucketInfo :: "'w gnfd_nodes \<Rightarrow> Gnfd \<Rightarrow> string \<Rightarrow> 'w \<Rightarrow> (go_error + BucketInfo option) \<times> 'w" where
  "QueryBucketInfo nodes g bucket w = gn_HeadBucket nodes (gf_client g) bucket w"

definition QueryObjectInfo :: "'w gnfd_nodes \<Rightarrow> Gnfd \<Rightarrow> string \<Rightarrow> string \<Rightarrow> 'w \<Rightarrow> (go_error + ObjectInfo option) \<times> 'w" where
  "QueryObjectInfo nodes g bucket object w = gn_HeadObject nodes (gf_client g) bucket object w"

definition QueryObjectInfoByID :: "'w gnfd_nodes \<Rightarrow> Gnfd \<Rightarrow> string \<Rightarrow> 'w \<Rightarrow> (go_error + ObjectInfo option) \<times> 'w" where
  "QueryObjectInfoByID nodes g objectID w = gn_HeadObjectById nodes (gf_client g) objectID w"

text \<open>The bucket is returned beside the error when only the object is missing.\<close>

definition QueryBucketInfoAndObjectInfo :: "'w gnfd_nodes \<Rightarrow> Gnfd \<Rightarrow> string \<Rightarrow> string \<Rightarrow> 'w
    \<Rightarrow> (BucketInfo option \<times> ObjectInfo option \<times> go_error option) \<times> 'w" where
  "QueryBucketInfoAndObjectInfo nodes g bucket object w =
     (case QueryBucketInfo nodes g bucket w of
        (Inl err, w) \<Rightarrow> ((None, None, Some err), w)
      | (Inr bucketInfo, w) \<Rightarrow>
          (case QueryObjectInfo nodes g bucket object w of
             (Inl err, w) \<Rightarrow> ((bucketInfo, None, Some err), w)
           | (Inr objectInfo, w) \<Rightarrow> ((bucketInfo, objectInfo, None), w)))"

definition QueryPaymentStreamRecord :: "'w gnfd_nodes \<Rightarrow> Gnfd \<Rightarrow> string \<Rightarrow> 'w \<Rightarrow> (go_error + StreamAccountStatus) \<times> 'w" where
  "QueryPaymentStreamRecord nodes g account w = gn_StreamRecord nodes (gf_client g) account w"

definition VerifyGetObjectPermission :: "'w gnfd_nodes \<Rightarrow> Gnfd \<Rightarrow> string \<Rightarrow> string \<Rightarrow> string \<Rightarrow> 'w \<Rightarrow> (go_error + bool) \<times> 'w" where
  "VerifyGetObjectPermission nodes g account bucket object w =
     (case gn_VerifyPermission nodes (gf_client g) account bucket object ACTION_GET_OBJECT w of
        (Inl err, w) \<Rightarrow> (Inl err, w)
      | (Inr effect, w) \<Rightarrow> (Inr (effect = EFFECT_ALLOW), w))"

text \<open>The object is not part of the question.\<close>

definition VerifyPutObjectPermission :: "'w gnfd_nodes \<Rightarrow> Gnfd \<Rightarrow> string \<Rightarrow> string \<Rightarrow> string \<Rightarrow> 'w \<Rightarrow> (go_error + bool) \<times> 'w" where
  "VerifyPutObjectPermission nodes g account bucket object w =
     (case gn_VerifyPermission nodes (gf_client g) account bucket [] ACTION_CREATE_OBJECT w of
        (Inl err, w) \<Rightarrow> (Inl err, w)
      | (Inr effect, w) \<Rightarrow> (Inr (effect = EFFECT_ALLOW), w))"

section \<open>Waiting for the chain\<close>

definition ExpectedOutputBlockInternal :: int64 where "ExpectedOutputBlockInternal = 2"

definition pause_block :: "'w gnfd_nodes \<Rightarrow> 'w \<Rightarrow> 'w" where
  "pause_block nodes w = gn_sleep nodes (ExpectedOutputBlockInternal * 1000000000) w"

fun listen_seal :: "'w gnfd_nodes \<Rightarrow> Gnfd \<Rightarrow> uint64 \<Rightarrow> nat \<Rightarrow> go_error option \<Rightarrow> 'w \<Rightarrow> (go_error + bool) \<times> 'w" where
  "listen_seal nodes g objectID 0 err w = (Inl (case err of None \<Rightarrow> ErrSealTimeout | Some e \<Rightarrow> e), w)"
| "listen_seal nodes g objectID (Suc n) err w =
     (case QueryObjectInfoByID nodes g (show_nat (unat objectID)) w of
        (Inl e, w) \<Rightarrow> listen_seal nodes g objectID n (Some e) (pause_block nodes w)
      | (Inr objectInfo, w) \<Rightarrow>
          if ObjectStatus (object_of objectInfo) = OBJECT_STATUS_SEALED then (Inr True, w)
          else listen_seal nodes g objectID n None (pause_block nodes w))"

definition ListenObjectSeal :: "'w gnfd_nodes \<Rightarrow> Gnfd \<Rightarrow> uint64 \<Rightarrow> go_int \<Rightarrow> 'w \<Rightarrow> (go_error + bool) \<times> 'w" where
  "ListenObjectSeal nodes g objectID timeoutHeight w = listen_seal nodes g objectID (nat timeoutHeight) None w"

text \<open>The text of an error; that of an error message is its text format, quotes in a field are not escaped here.\<close>

definition error_text :: "go_error \<Rightarrow> string" where
  "error_text err =
     (case err of
        PlainErr t \<Rightarrow> t
      | GfSpErr e \<Rightarrow>
          (if CodeSpace e = [] then [] else ''code_space:'' @ [CHR 0x22] @ CodeSpace e @ [CHR 0x22] @ '' '')
          @ (if HttpStatusCode e = 0 then [] else ''http_status_code:'' @ show_int (HttpStatusCode e) @ '' '')
          @ (if InnerCode e = 0 then [] else ''inner_code:'' @ show_int (InnerCode e) @ '' '')
          @ (if Description e = [] then [] else ''description:'' @ [CHR 0x22] @ Description e @ [CHR 0x22] @ '' ''))"

fun listen_reject :: "'w gnfd_nodes \<Rightarrow> Gnfd \<Rightarrow> uint64 \<Rightarrow> nat \<Rightarrow> go_error option \<Rightarrow> 'w \<Rightarrow> (go_error + bool) \<times> 'w" where
  "listen_reject nodes g objectID 0 err w = (Inl (case err of None \<Rightarrow> ErrRejectUnSealTimeout | Some e \<Rightarrow> e), w)"
| "listen_reject nodes g objectID (Suc n) err w =
     (case QueryObjectInfoByID nodes g (show_nat (unat objectID)) w of
        (Inl e, w) \<Rightarrow>
          if str_contains (error_text e) ''No such object'' then (Inr True, w)
          else listen_reject nodes g objectID n (Some e) (pause_block nodes w)
      | (Inr _, w) \<Rightarrow> listen_reject nodes g objectID n None (pause_block nodes w))"

definition ListenRejectUnSealObject :: "'w gnfd_nodes \<Rightarrow> Gnfd \<Rightarrow> uint64 \<Rightarrow> go_int \<Rightarrow> 'w \<Rightarrow> (go_error + bool) \<times> 'w" where
  "ListenRejectUnSealObject nodes g objectID timeoutHeight w = listen_reject nodes g objectID (nat timeoutHeight) None w"

section \<open>Choosing the node\<close>

text \<open>One tick of \<open>updateClient\<close>: the loop over all nodes with the best height so far and its node.\<close>

fun update_loop :: "'w gnfd_nodes \<Rightarrow> nat list \<Rightarrow> uint64 \<Rightarrow> nat \<Rightarrow> nat \<Rightarrow> GreenfieldClient list \<Rightarrow> 'w
    \<Rightarrow> nat \<times> nat \<times> GreenfieldClient list \<times> 'w" where
  "update_loop nodes [] maxHeight best bestWs cs w = (best, bestWs, cs, w)"
| "update_loop nodes (idx # rest) maxHeight best bestWs cs w =
     (case gn_ABCIInfo nodes idx w of
        (Inl _, w) \<Rightarrow> update_loop nodes rest maxHeight best bestWs cs w
      | (Inr h, w) \<Rightarrow>
          let currentHeight = word_of_int h :: uint64;
              cs = cs[idx := (cs ! idx)\<lparr>gc_currentHeight := i64 (uint currentHeight), gc_updatedAt := gn_now nodes w\<rparr>]
          in if currentHeight > maxHeight then update_loop nodes rest currentHeight idx idx cs w
             else update_loop nodes rest maxHeight best bestWs cs w)"

definition updateClient :: "'w gnfd_nodes \<Rightarrow> Gnfd \<Rightarrow> 'w \<Rightarrow> Gnfd \<times> 'w" where
  "updateClient nodes g w =
     (case CurrentHeight nodes g w of
        (r, w) \<Rightarrow>
          (case update_loop nodes [0..<length (gf_backUpClients g)] (case r of Inl _ \<Rightarrow> 0 | Inr h \<Rightarrow> h)
                  (gf_client g) (gf_wsClient g) (gf_backUpClients g) w of
             (best, bestWs, cs, w) \<Rightarrow>
               (if best \<noteq> gf_client g
                then \<lparr>gf_client = best, gf_wsClient = bestWs, gf_backUpClients = cs\<rparr>
                else g\<lparr>gf_backUpClients := cs\<rparr>, w)))"

section \<open>What the loops compute\<close>

text \<open>The answers of successive polls, one block apart.\<close>

fun polls :: "'w gnfd_nodes \<Rightarrow> Gnfd \<Rightarrow> uint64 \<Rightarrow> nat \<Rightarrow> 'w \<Rightarrow> (go_error + ObjectInfo option) list" where
  "polls nodes g objectID 0 w = []"
| "polls nodes g objectID (Suc n) w =
     (case QueryObjectInfoByID nodes g (show_nat (unat objectID)) w of
        (r, w) \<Rightarrow> r # polls nodes g objectID n (pause_block nodes w))"

definition seen_sealed :: "go_error + ObjectInfo option \<Rightarrow> bool" where
  "seen_sealed r = (case r of Inl _ \<Rightarrow> False | Inr ob \<Rightarrow> ObjectStatus (object_of ob) = OBJECT_STATUS_SEALED)"

definition seen_gone :: "go_error + ObjectInfo option \<Rightarrow> bool" where
  "seen_gone r = (case r of Inl e \<Rightarrow> str_contains (error_text e) ''No such object'' | Inr _ \<Rightarrow> False)"

definition outcome :: "(go_error + 'a \<Rightarrow> bool) \<Rightarrow> go_error \<Rightarrow> (go_error + 'a) list \<Rightarrow> go_error + bool" where
  "outcome seen timeout rs =
     (if list_ex seen rs then Inr True
      else Inl (if rs = [] then timeout else case last rs of Inl e \<Rightarrow> e | Inr _ \<Rightarrow> timeout))"

lemma polls_Nil [simp]: "polls nodes g objectID n w = [] \<longleftrightarrow> n = 0"
  by (cases n) (auto split: prod.splits)

lemma outcome_Cons:
  "outcome seen timeout (r # rs) =
     (if seen r then Inr True else if rs = [] then Inl (case r of Inl e \<Rightarrow> e | Inr _ \<Rightarrow> timeout) else outcome seen timeout rs)"
  by (simp add: outcome_def)

lemma listen_seal_polls:
  "fst (listen_seal nodes g objectID n err w) =
     (if n = 0 then Inl (case err of None \<Rightarrow> ErrSealTimeout | Some e \<Rightarrow> e) else outcome seen_sealed ErrSealTimeout (polls nodes g objectID n w))"
proof (induction n arbitrary: err w)
  case (Suc n)
  obtain r w' where r: "QueryObjectInfoByID nodes g (show_nat (unat objectID)) w = (r, w')" by fastforce
  show ?case using r Suc.IH by (cases r) (auto simp: outcome_Cons seen_sealed_def)
qed simp

lemma listen_reject_polls:
  "fst (listen_reject nodes g objectID n err w) =
     (if n = 0 then Inl (case err of None \<Rightarrow> ErrRejectUnSealTimeout | Some e \<Rightarrow> e) else outcome seen_gone ErrRejectUnSealTimeout (polls nodes g objectID n w))"
proof (induction n arbitrary: err w)
  case (Suc n)
  obtain r w' where r: "QueryObjectInfoByID nodes g (show_nat (unat objectID)) w = (r, w')" by fastforce
  show ?case using r Suc.IH by (cases r) (auto simp: outcome_Cons seen_gone_def)
qed simp

text \<open>
  Waiting for the chain is polling: waiting for the seal of an object succeeds exactly when one of as many
  polls as the timeout has blocks sees the object sealed, waiting for its rejection when one of them is told
  that there is no such object. Otherwise the error is that of the last poll, or a timeout when
  the last poll was answered or there was none.
\<close>

theorem listening_is_polling:
  "fst (ListenObjectSeal nodes g objectID timeoutHeight w)
     = outcome seen_sealed ErrSealTimeout (polls nodes g objectID (nat timeoutHeight) w)
   \<and> fst (ListenRejectUnSealObject nodes g objectID timeoutHeight w)
     = outcome seen_gone ErrRejectUnSealTimeout (polls nodes g objectID (nat timeoutHeight) w)"
  by (simp add: ListenObjectSeal_def ListenRejectUnSealObject_def listen_seal_polls listen_reject_polls outcome_def)

fun heights :: "'w gnfd_nodes \<Rightarrow> nat list \<Rightarrow> 'w \<Rightarrow> (nat \<times> uint64) list" where
  "heights nodes [] w = []"
| "heights nodes (i # is) w =
     (case gn_ABCIInfo nodes i w of
        (Inl _, w) \<Rightarrow> heights nodes is w
      | (Inr h, w) \<Rightarrow> (i, word_of_int h) # heights nodes is w)"

lemma update_loop_highest:
  "\<exists>h. fst (update_loop nodes is m c c cs w) = fst (snd (update_loop nodes is m c c cs w))
     \<and> (fst (update_loop nodes is m c c cs w), h) \<in> set ((c, m) # heights nodes is w) \<and> m \<le> h
     \<and> list_all (\<lambda>(i, k). k \<le> h) (heights nodes is w)"
proof (induction "is" arbitrary: m c cs w)
  case (Cons i "is")
  obtain r w' where r: "gn_ABCIInfo nodes i w = (r, w')" by fastforce
  show ?case
  proof (cases r)
    case (Inl e)
    then show ?thesis using r Cons [of m c cs w'] by auto
  next
    case (Inr h)
    let ?h = "word_of_int h :: uint64"
    let ?cs = "cs[i := (cs ! i)\<lparr>gc_currentHeight := i64 (uint ?h), gc_updatedAt := gn_now nodes w'\<rparr>]"
    show ?thesis
    proof (cases "?h > m")
      case True
      then show ?thesis using r Inr Cons [of ?h i ?cs w'] by (auto simp: Let_def)
    next
      case False
      then show ?thesis using r Inr Cons [of m c ?cs w'] by (auto simp: Let_def)
    qed
  qed
qed simp

text \<open>
  The current node after a tick is the old one or one that answered, its height is at least that of the old
  one and of every other node that answered, and queries and heights go to the same node.
\<close>

lemma updateClient_highest:
  assumes "gf_wsClient g = gf_client g" "CurrentHeight nodes g w = (r, w1)" "updateClient nodes g w = (g', w')"
  shows "\<exists>h. (gf_client g', h) \<in> set ((gf_client g, case r of Inl _ \<Rightarrow> 0 | Inr h0 \<Rightarrow> h0) # heights nodes [0..<length (gf_backUpClients g)] w1)
    \<and> list_all (\<lambda>(i, k). k \<le> h) (heights nodes [0..<length (gf_backUpClients g)] w1) \<and> gf_wsClient g' = gf_client g'"
proof -
  let ?l = "update_loop nodes [0..<length (gf_backUpClients g)] (case r of Inl _ \<Rightarrow> 0 | Inr h \<Rightarrow> h) (gf_client g) (gf_client g) (gf_backUpClients g) w1"
  obtain b bs cs w2 where l: "?l = (b, bs, cs, w2)" by (metis prod_cases4)
  then have "gf_client g' = b \<and> gf_wsClient g' = bs"
    using assms update_loop_highest [of nodes "[0..<length (gf_backUpClients g)]" "case r of Inl _ \<Rightarrow> 0 | Inr h \<Rightarrow> h" "gf_client g" "gf_backUpClients g" w1]
    by (auto simp: updateClient_def split: if_splits)
  then show ?thesis
    using l update_loop_highest [of nodes "[0..<length (gf_backUpClients g)]" "case r of Inl _ \<Rightarrow> 0 | Inr h \<Rightarrow> h" "gf_client g" "gf_backUpClients g" w1]
    by auto
qed

end
