(* ===== verification/Authenticator.thy ===== *)
theory Authenticator
  imports GnfdChain
begin

text \<open>
  Who may do what: \<open>modular/authenticator\<close> with the keys of the off-chain authentication
  (\<open>store/sqldb/off_chain_auth_key.go\<close>) and the server and client sides of its calls
  (\<open>base/gfspapp/authenticator_server.go\<close>, \<open>base/gfspclient/authenticator.go\<close>).

  Points in time are nanoseconds since the epoch; the clock stands still between two outside calls.
  The calls of \<open>gorm\<close> on the key table and the EdDSA library are arguments. Every error is returned
  with \<open>false\<close>, so a result is an error or the answer.
\<close>

section \<open>Errors and operations\<close>

datatype AuthOpType =
    AuthOpTypeUnKnown | AuthOpAskCreateBucketApproval | AuthOpAskCreateObjectApproval | AuthOpTypeGetChallengePieceInfo
  | AuthOpTypePutObject | AuthOpTypeGetObject | AuthOpTypeGetUploadingState | AuthOpTypeGetBucketQuota
  | AuthOpTypeListBucketReadRecord | AuthOpTypeGetRecoveryPiece

definition authenticator_errors :: "registration list" where
  "authenticator_errors =
    [(''authenticator'', StatusBadRequest, 20001, ''unsupported auth op type''),
     (''authenticator'', StatusBadRequest, 20002, ''mismatched primary sp''),
     (''authenticator'', StatusBadRequest, 20003, ''object has not been created state''),
     (''authenticator'', StatusBadRequest, 20004, ''object has not been sealed state''),
     (''authenticator'', StatusBadRequest, 20005, ''payment account is not active''),
     (''authenticator'', StatusNotFound, 20006, ''no such account''),
     (''authenticator'', StatusNotFound, 20007, ''no such bucket''),
     (''authenticator'', StatusNotFound, 20008, ''no such object''),
     (''authenticator'', StatusBadRequest, 20009, ''repeated bucket''),
     (''authenticator'', StatusBadRequest, 20010, ''repeated object''),
     (''authenticator'', StatusBadRequest, 20011, ''no permission''),
     (''authenticator'', StatusBadRequest, 20012, ''bad signature''),
     (''authenticator'', StatusBadRequest, 20013, ''signed msg must be formatted as ${actionContent}_${expiredTimestamp}''),
     (''authenticator'', StatusBadRequest, 20014, ''expiredTimestamp in signed msg must be a unix epoch time in milliseconds''),
     (''authenticator'', StatusBadRequest, 20015, ''user public key is expired''),
     (''authenticator'', StatusInternalServerError, 25002, ''server slipped away, try again later'')]"

definition auth_error :: "nat \<Rightarrow> go_error" where
  "auth_error i = GfSpErr (registered (authenticator_errors ! i))"

abbreviation "ErrAuthUnsupportedAuthType \<equiv> auth_error 0"
abbreviation "ErrAuthMismatchSp \<equiv> auth_error 1"
abbreviation "ErrAuthNotCreatedState \<equiv> auth_error 2"
abbreviation "ErrAuthNotSealedState \<equiv> auth_error 3"
abbreviation "ErrAuthPaymentState \<equiv> auth_error 4"
abbreviation "ErrAuthNoSuchAccount \<equiv> auth_error 5"
abbreviation "ErrAuthNoSuchBucket \<equiv> auth_error 6"
abbreviation "ErrAuthNoSuchObject \<equiv> auth_error 7"
abbreviation "ErrAuthRepeatedBucket \<equiv> auth_error 8"
abbreviation "ErrAuthRepeatedObject \<equiv> auth_error 9"
abbreviation "ErrAuthNoPermission \<equiv> auth_error 10"
abbreviation "ErrAuthBadSignature \<equiv> auth_error 11"
abbreviation "ErrAuthSignedMsgFormat \<equiv> auth_error 12"
abbreviation "ErrAuthExpiredTimestampFormat \<equiv> auth_error 13"
abbreviation "ErrAuthPublicKeyExpired \<equiv> auth_error 14"
abbreviation "ErrAuthConsensus \<equiv> auth_error 15"

section \<open>Keys of the off-chain authentication\<close>

type_synonym time = int

record OffChainAuthKey =
  ak_UserAddress :: string
  ak_Domain :: string
  ak_CurrentNonce :: int32
  ak_CurrentPublicKey :: string
  ak_NextNonce :: int32
  ak_ExpiryDate :: time
  ak_CreatedTime :: time
  ak_ModifiedTime :: time

text \<open>
  The calls on the table: the row of a user and a domain, the same with a nonce, an insert, and an update with
  a condition and new values.
\<close>

record 'd auth_table =
  at_table :: "('d, string \<times> string, OffChainAuthKey) gorm_table"
  at_FirstNonce :: "'d \<Rightarrow> string \<times> string \<Rightarrow> int32 \<Rightarrow> gorm_error + OffChainAuthKey"
  at_Updates :: "'d \<Rightarrow> OffChainAuthKey \<Rightarrow> OffChainAuthKey \<Rightarrow> (gorm_error option \<times> int64) \<times> 'd"

definition gorm_text :: "gorm_error \<Rightarrow> string" where
  "gorm_text e = (case e of ErrRecordNotFound \<Rightarrow> ''record not found'' | MySQLError n \<Rightarrow> ''Error '' @ show_nat n | OtherGormError t \<Rightarrow> t)"

text \<open>Formatting a nil error with the verb for strings.\<close>

definition gorm_error_arg :: "gorm_error option \<Rightarrow> string" where
  "gorm_error_arg e = (case e of None \<Rightarrow> ''%!s(<nil>)'' | Some e \<Rightarrow> gorm_text e)"

definition zero_time :: time where "zero_time = -62135596800000000000"

definition zero_auth_key :: OffChainAuthKey where
  "zero_auth_key = \<lparr>ak_UserAddress = [], ak_Domain = [], ak_CurrentNonce = 0, ak_CurrentPublicKey = [], ak_NextNonce = 0,
     ak_ExpiryDate = zero_time, ak_CreatedTime = zero_time, ak_ModifiedTime = zero_time\<rparr>"

definition InsertAuthKey :: "'d auth_table \<Rightarrow> OffChainAuthKey \<Rightarrow> 'd \<Rightarrow> go_error option \<times> 'd" where
  "InsertAuthKey tab newRecord d =
     (case Create (at_table tab) d newRecord of ((err, rowsAffected), d) \<Rightarrow>
        (if err \<noteq> None \<or> rowsAffected \<noteq> 1
         then Some (PlainErr (''failed to insert record in service config table: '' @ gorm_error_arg err)) else None, d))"

definition UpdateAuthKey :: "'d auth_table \<Rightarrow> time \<Rightarrow> string \<Rightarrow> string \<Rightarrow> int32 \<Rightarrow> int32 \<Rightarrow> string \<Rightarrow> time \<Rightarrow> 'd \<Rightarrow> go_error option \<times> 'd" where
  "UpdateAuthKey tab now userAddress domain oldNonce newNonce newPublicKey newExpiryDate d =
     (case at_FirstNonce tab d (userAddress, domain) oldNonce of
        Inl e \<Rightarrow> (Some (PlainErr (''failed to query OffChainAuthKey table: '' @ gorm_text e)), d)
      | Inr queryKeyReturn \<Rightarrow>
          let queryCondition = zero_auth_key\<lparr>ak_UserAddress := ak_UserAddress queryKeyReturn, ak_Domain := ak_Domain queryKeyReturn,
                                 ak_CurrentNonce := ak_CurrentNonce queryKeyReturn\<rparr>;
              updateFields = zero_auth_key\<lparr>ak_CurrentPublicKey := newPublicKey, ak_CurrentNonce := newNonce,
                               ak_NextNonce := i32 (newNonce + 1), ak_ExpiryDate := newExpiryDate, ak_ModifiedTime := now\<rparr>
          in case at_Updates tab d queryCondition updateFields of ((err, rowsAffected), d) \<Rightarrow>
               (if err \<noteq> None \<or> rowsAffected \<noteq> 1
                then Some (PlainErr (''failed to update OffChainAuthKeyTable record's state: '' @ gorm_error_arg err)) else None, d))"

definition GetAuthKey :: "'d auth_table \<Rightarrow> time \<Rightarrow> string \<Rightarrow> string \<Rightarrow> 'd \<Rightarrow> (go_error + OffChainAuthKey) \<times> 'd" where
  "GetAuthKey tab now userAddress domain d =
     (if userAddress = [] \<or> domain = []
      then (Inl (PlainErr ''failed to GetAuthKey: userAddress or domain can't be null''), d)
      else case First (at_table tab) d (userAddress, domain) of
        Inl ErrRecordNotFound \<Rightarrow>
          let newRecord = \<lparr>ak_UserAddress = userAddress, ak_Domain = domain, ak_CurrentNonce = 0, ak_CurrentPublicKey = [],
                           ak_NextNonce = 1, ak_ExpiryDate = now, ak_CreatedTime = now, ak_ModifiedTime = now\<rparr>
          in (case InsertAuthKey tab newRecord d of
                (Some insertError, d) \<Rightarrow> (Inl (PlainErr (''failed to InsertAuthKey: '' @ error_text insertError)), d)
              | (None, d) \<Rightarrow> (Inr newRecord, d))
      | Inl e \<Rightarrow> (Inl (PlainErr (''failed to query OffChainAuthKey table: '' @ gorm_text e)), d)
      | Inr queryKeyReturn \<Rightarrow> (Inr queryKeyReturn, d))"

section \<open>The module\<close>

text \<open>The EdDSA library: reading a public key with the number of bytes read, and verifying.\<close>

record ('w, 'd) auth_env =
  au_operator :: string
  au_nodes :: "'w gnfd_nodes"
  au_gnfd :: Gnfd
  au_table :: "'d auth_table"
  au_SetBytes :: "bytes \<Rightarrow> go_error + go_int"
  au_Verify :: "bytes \<Rightarrow> bytes \<Rightarrow> bytes \<Rightarrow> go_error + bool"

record ('w, 'd) AuthenticationModular =
  am_db :: 'd
  am_world :: 'w

definition auth_now :: "('w, 'd) auth_env \<Rightarrow> ('w, 'd) AuthenticationModular \<Rightarrow> time" where
  "auth_now env a = gn_now (au_nodes env) (am_world a)"

text \<open>\<open>time.Until\<close> is a duration: it saturates at 64 bits.\<close>

definition until :: "time \<Rightarrow> time \<Rightarrow> int64" where
  "until t now = max (- (2 ^ 63)) (min (2 ^ 63 - 1) (t - now))"

definition UnixMilli :: "int64 \<Rightarrow> time" where
  "UnixMilli msec = msec * 1000000"

definition OffChainAuthSigExpiryAgeInSec :: int32 where "OffChainAuthSigExpiryAgeInSec = 60 * 5"

definition Atoi :: "string \<Rightarrow> go_int option" where
  "Atoi s =
     (let (neg, ds) = (case s of CHR ''-'' # r \<Rightarrow> (True, r) | CHR ''+'' # r \<Rightarrow> (False, r) | _ \<Rightarrow> (False, s)) in
      if ds = [] then None
      else case parse_digits 0 ds of
        None \<Rightarrow> None
      | Some n \<Rightarrow> let v = (if neg then - int n else int n) in if in_i64 v then Some v else None)"

definition GetAuthNonce :: "('w, 'd) auth_env \<Rightarrow> string \<Rightarrow> string \<Rightarrow> ('w, 'd) AuthenticationModular
    \<Rightarrow> (go_error + OffChainAuthKey) \<times> ('w, 'd) AuthenticationModular" where
  "GetAuthNonce env account domain a =
     (case GetAuthKey (au_table env) (auth_now env a) account domain (am_db a) of (r, d) \<Rightarrow> (r, a\<lparr>am_db := d\<rparr>))"

definition UpdateUserPublicKey :: "('w, 'd) auth_env \<Rightarrow> string \<Rightarrow> string \<Rightarrow> int32 \<Rightarrow> int32 \<Rightarrow> string \<Rightarrow> int64 \<Rightarrow> ('w, 'd) AuthenticationModular
    \<Rightarrow> (go_error + bool) \<times> ('w, 'd) AuthenticationModular" where
  "UpdateUserPublicKey env account domain currentNonce nonce userPublicKey expiryDate a =
     (case UpdateAuthKey (au_table env) (auth_now env a) account domain currentNonce nonce userPublicKey (UnixMilli expiryDate) (am_db a) of
        (Some err, d) \<Rightarrow> (Inl err, a\<lparr>am_db := d\<rparr>)
      | (None, d) \<Rightarrow> (Inr True, a\<lparr>am_db := d\<rparr>))"

definition upper_hex :: "nat \<Rightarrow> char" where
  "upper_hex n = (if n < 10 then char_of (48 + n) else char_of (55 + n))"

definition hex_text :: "hex_error \<Rightarrow> string" where
  "hex_text e =
     (case e of
        ErrLength \<Rightarrow> ''encoding/hex: odd length hex string''
      | InvalidByteError c \<Rightarrow>
          let n = of_char c :: nat
          in ''encoding/hex: invalid byte: U+00'' @ [upper_hex (n div 16), upper_hex (n mod 16)]
             @ (if 32 \<le> n \<and> n < 127 then [CHR '' '', CHR 0x27, c, CHR 0x27] else []))"

definition ParsePk :: "('w, 'd) auth_env \<Rightarrow> string \<Rightarrow> go_error + bytes" where
  "ParsePk env pkStr =
     (case DecodeString pkStr of
        Inl e \<Rightarrow> Inl (PlainErr (hex_text e))
      | Inr pkBytes \<Rightarrow>
          (case au_SetBytes env pkBytes of
             Inl err \<Rightarrow> Inl err
           | Inr sz \<Rightarrow> if sz \<noteq> 32 then Inl (PlainErr ''invalid public key'') else Inr pkBytes))"

definition VerifyEddsaSignature :: "('w, 'd) auth_env \<Rightarrow> string \<Rightarrow> bytes \<Rightarrow> bytes \<Rightarrow> go_error option" where
  "VerifyEddsaSignature env pubKey sig message =
     (case ParsePk env pubKey of
        Inl err \<Rightarrow> Some err
      | Inr pk \<Rightarrow>
          (case au_Verify env pk sig message of
             Inl err \<Rightarrow> Some err
           | Inr valid \<Rightarrow> if \<not> valid then Some (PlainErr ''invalid signature'') else None))"

definition string_bytes :: "string \<Rightarrow> bytes" where
  "string_bytes s = map (\<lambda>c. of_nat (of_char c)) s"

definition as_gfsp :: "go_error \<Rightarrow> go_error" where
  "as_gfsp err = (case MakeGfSpError (Some err) of None \<Rightarrow> err | Some e \<Rightarrow> GfSpErr e)"

definition VerifyOffChainSignature :: "('w, 'd) auth_env \<Rightarrow> string \<Rightarrow> string \<Rightarrow> string \<Rightarrow> string \<Rightarrow> ('w, 'd) AuthenticationModular
    \<Rightarrow> (go_error + bool) \<times> ('w, 'd) AuthenticationModular" where
  "VerifyOffChainSignature env account domain offChainSig realMsgToSign a =
     (case DecodeString offChainSig of
        Inl _ \<Rightarrow> (Inl ErrAuthBadSignature, a)
      | Inr signature \<Rightarrow>
          (case GetAuthNonce env account domain a of
             (Inl err, a) \<Rightarrow> (Inl err, a)
           | (Inr authKey, a) \<Rightarrow>
               if until (ak_ExpiryDate authKey) (auth_now env a) < 0 then (Inl ErrAuthPublicKeyExpired, a)
               else
                 let signedMsgParts = split_on CHR ''_'' realMsgToSign
                 in if length signedMsgParts < 2 then (Inl ErrAuthSignedMsgFormat, a)
                    else case Atoi (last signedMsgParts) of
                      None \<Rightarrow> (Inl ErrAuthExpiredTimestampFormat, a)
                    | Some signedMsgExpiredTimestamp \<Rightarrow>
                        let expiredAge = until (UnixMilli signedMsgExpiredTimestamp) (auth_now env a)
                        in if OffChainAuthSigExpiryAgeInSec * 1000000000 < expiredAge \<or> expiredAge < 0
                           then (Inl (as_gfsp (PlainErr (''expiredTimestamp in signed msg must be within ''
                                   @ show_int OffChainAuthSigExpiryAgeInSec @ '' seconds. ExpiredTimestamp in sig is ''
                                   @ show_int signedMsgExpiredTimestamp @ '', while the current server timestamp is ''
                                   @ show_int (auth_now env a div 1000000) @ '' ''))), a)
                           else case VerifyEddsaSignature env (ak_CurrentPublicKey authKey) signature (string_bytes realMsgToSign) of
                             Some err \<Rightarrow> (Inl (as_gfsp err), a)
                           | None \<Rightarrow> (Inr True, a)))"

section \<open>Permissions of operations\<close>

text \<open>
  The cases of \<open>VerifyAuthentication\<close>, each with its queries in order. Getters of a nil bucket or
  object give zero values; a field of a nil object panics.
\<close>

type_synonym 'w answer = "((go_error + bool) \<times> 'w) go"

definition nil_bucket :: BucketInfo where
  "nil_bucket = \<lparr>bi_BucketName = [], bi_Id = 0, bi_Owner = [], ChargedReadQuota = 0, PrimarySpAddress = [],
     bi_Visibility = VISIBILITY_TYPE_UNSPECIFIED, PaymentAddress = []\<rparr>"

definition bucket_of :: "BucketInfo option \<Rightarrow> BucketInfo" where
  "bucket_of x = (case x of None \<Rightarrow> nil_bucket | Some b \<Rightarrow> b)"

definition ascii_lower :: "char \<Rightarrow> char" where
  "ascii_lower c = (let n = of_char c :: nat in if 65 \<le> n \<and> n \<le> 90 then char_of (n + 32) else c)"

text \<open>Go folds all of Unicode; the texts compared here are addresses, and strings are lists of ASCII characters, to which folding is restricted.\<close>

definition EqualFold :: "string \<Rightarrow> string \<Rightarrow> bool" where
  "EqualFold s t \<longleftrightarrow> map ascii_lower s = map ascii_lower t"

definition missing_error :: "go_error \<Rightarrow> go_error" where
  "missing_error err =
     (if str_contains (error_text err) ''No such bucket'' then ErrAuthNoSuchBucket
      else if str_contains (error_text err) ''No such object'' then ErrAuthNoSuchObject
      else ErrAuthConsensus)"

definition missing_bucket_error :: "go_error \<Rightarrow> go_error" where
  "missing_bucket_error err =
     (if str_contains (error_text err) ''No such bucket'' then ErrAuthNoSuchBucket else ErrAuthConsensus)"

definition permission_answer :: "(go_error + bool) \<times> 'w \<Rightarrow> 'w answer" where
  "permission_answer r =
     (case r of (Inl _, w) \<Rightarrow> Returns (Inl ErrAuthConsensus, w) | (Inr allow, w) \<Rightarrow> Returns (Inr allow, w))"

definition verify_create_bucket :: "('w, 'd) auth_env \<Rightarrow> string \<Rightarrow> 'w \<Rightarrow> 'w answer" where
  "verify_create_bucket env bucket w =
     (case QueryBucketInfo (au_nodes env) (au_gnfd env) bucket w of
        (Inr (Some _), w) \<Rightarrow> Returns (Inl ErrAuthRepeatedBucket, w)
      | (_, w) \<Rightarrow> Returns (Inr True, w))"

definition verify_create_object :: "('w, 'd) auth_env \<Rightarrow> string \<Rightarrow> string \<Rightarrow> 'w \<Rightarrow> 'w answer" where
  "verify_create_object env bucket object w =
     (case QueryBucketInfoAndObjectInfo (au_nodes env) (au_gnfd env) bucket object w of
        ((bucketInfo, objectInfo, _), w) \<Rightarrow>
          if bucketInfo = None then Returns (Inl ErrAuthNoSuchBucket, w)
          else if objectInfo \<noteq> None then Returns (Inl ErrAuthRepeatedObject, w)
          else Returns (Inr True, w))"

definition verify_put_object :: "('w, 'd) auth_env \<Rightarrow> string \<Rightarrow> string \<Rightarrow> string \<Rightarrow> 'w \<Rightarrow> 'w answer" where
  "verify_put_object env account bucket object w =
     (case QueryBucketInfoAndObjectInfo (au_nodes env) (au_gnfd env) bucket object w of
        ((_, _, Some err), w) \<Rightarrow> Returns (Inl (missing_error err), w)
      | ((bucketInfo, objectInfo, None), w) \<Rightarrow>
          if PrimarySpAddress (bucket_of bucketInfo) \<noteq> au_operator env then Returns (Inl ErrAuthMismatchSp, w)
          else if ObjectStatus (object_of objectInfo) \<noteq> OBJECT_STATUS_CREATED then Returns (Inl ErrAuthNotCreatedState, w)
          else permission_answer (VerifyPutObjectPermission (au_nodes env) (au_gnfd env) account bucket object w))"

definition verify_get_object :: "('w, 'd) auth_env \<Rightarrow> string \<Rightarrow> string \<Rightarrow> string \<Rightarrow> 'w \<Rightarrow> 'w answer" where
  "verify_get_object env account bucket object w =
     (case QueryBucketInfoAndObjectInfo (au_nodes env) (au_gnfd env) bucket object w of
        ((_, _, Some err), w) \<Rightarrow> Returns (Inl (missing_error err), w)
      | ((bucketInfo, objectInfo, None), w) \<Rightarrow>
          if PrimarySpAddress (bucket_of bucketInfo) \<noteq> au_operator env then Returns (Inl ErrAuthMismatchSp, w)
          else if ObjectStatus (object_of objectInfo) \<noteq> OBJECT_STATUS_SEALED then Returns (Inl ErrAuthNotSealedState, w)
          else case QueryPaymentStreamRecord (au_nodes env) (au_gnfd env) (PaymentAddress (bucket_of bucketInfo)) w of
            (Inl _, w) \<Rightarrow> Returns (Inl ErrAuthConsensus, w)
          | (Inr status, w) \<Rightarrow>
              if status \<noteq> STREAM_ACCOUNT_STATUS_ACTIVE then Returns (Inl ErrAuthPaymentState, w)
              else permission_answer (VerifyGetObjectPermission (au_nodes env) (au_gnfd env) account bucket object w))"

definition verify_recovery_piece :: "('w, 'd) auth_env \<Rightarrow> string \<Rightarrow> string \<Rightarrow> string \<Rightarrow> 'w \<Rightarrow> 'w answer" where
  "verify_recovery_piece env account bucket object w =
     (case QueryBucketInfoAndObjectInfo (au_nodes env) (au_gnfd env) bucket object w of
        ((_, _, Some err), w) \<Rightarrow> Returns (Inl (missing_error err), w)
      | ((_, None, None), w) \<Rightarrow> Panics
      | ((_, Some objectInfo, None), w) \<Rightarrow>
          if \<not> list_ex (\<lambda>addr. au_operator env = addr) (SecondarySpAddresses objectInfo) then Returns (Inl ErrAuthMismatchSp, w)
          else if ObjectStatus objectInfo \<noteq> OBJECT_STATUS_SEALED then Returns (Inl ErrAuthNotSealedState, w)
          else permission_answer (VerifyGetObjectPermission (au_nodes env) (au_gnfd env) account bucket object w))"

definition verify_bucket_quota :: "('w, 'd) auth_env \<Rightarrow> string \<Rightarrow> string \<Rightarrow> 'w \<Rightarrow> 'w answer" where
  "verify_bucket_quota env account bucket w =
     (case QueryBucketInfo (au_nodes env) (au_gnfd env) bucket w of
        (Inl err, w) \<Rightarrow> Returns (Inl (missing_bucket_error err), w)
      | (Inr bucketInfo, w) \<Rightarrow>
          if PrimarySpAddress (bucket_of bucketInfo) \<noteq> au_operator env then Returns (Inl ErrAuthMismatchSp, w)
          else if bi_Owner (bucket_of bucketInfo) \<noteq> account then Returns (Inl ErrAuthNoPermission, w)
          else Returns (Inr True, w))"

definition verify_challenge :: "('w, 'd) auth_env \<Rightarrow> string \<Rightarrow> string \<Rightarrow> string \<Rightarrow> 'w \<Rightarrow> 'w answer" where
  "verify_challenge env account bucket object w =
     (case ListBondedValidators (au_nodes env) (au_gnfd env) w of
        (Inl _, w) \<Rightarrow> Returns (Inl ErrAuthConsensus, w)
      | (Inr validators, w) \<Rightarrow>
          if \<not> list_ex (\<lambda>challenger. EqualFold challenger account) validators then Returns (Inl ErrAuthNoPermission, w)
          else case QueryBucketInfoAndObjectInfo (au_nodes env) (au_gnfd env) bucket object w of
            ((_, _, Some err), w) \<Rightarrow> Returns (Inl (missing_error err), w)
          | ((bucketInfo, objectInfo, None), w) \<Rightarrow>
              if EqualFold (PrimarySpAddress (bucket_of bucketInfo)) (au_operator env) then Returns (Inr True, w)
              else if list_ex (\<lambda>address. EqualFold address (au_operator env)) (SecondarySpAddresses (object_of objectInfo))
              then Returns (Inr True, w)
              else Returns (Inl ErrAuthMismatchSp, w))"

definition VerifyAuthentication :: "('w, 'd) auth_env \<Rightarrow> AuthOpType \<Rightarrow> string \<Rightarrow> string \<Rightarrow> string \<Rightarrow> 'w \<Rightarrow> 'w answer" where
  "VerifyAuthentication env authType account bucket object w =
     (case HasAccount (au_nodes env) (au_gnfd env) account w of
        (Inl _, w) \<Rightarrow> Returns (Inl ErrAuthConsensus, w)
      | (Inr has, w) \<Rightarrow>
          if \<not> has then Returns (Inl ErrAuthNoSuchAccount, w)
          else case authType of
            AuthOpAskCreateBucketApproval \<Rightarrow> verify_create_bucket env bucket w
          | AuthOpAskCreateObjectApproval \<Rightarrow> verify_create_object env bucket object w
          | AuthOpTypePutObject \<Rightarrow> verify_put_object env account bucket object w
          | AuthOpTypeGetUploadingState \<Rightarrow> verify_put_object env account bucket object w
          | AuthOpTypeGetObject \<Rightarrow> verify_get_object env account bucket object w
          | AuthOpTypeGetRecoveryPiece \<Rightarrow> verify_recovery_piece env account bucket object w
          | AuthOpTypeGetBucketQuota \<Rightarrow> verify_bucket_quota env account bucket w
          | AuthOpTypeListBucketReadRecord \<Rightarrow> verify_bucket_quota env account bucket w
          | AuthOpTypeGetChallengePieceInfo \<Rightarrow> verify_challenge env account bucket object w
          | AuthOpTypeUnKnown \<Rightarrow> Returns (Inl ErrAuthUnsupportedAuthType, w))"

section \<open>Over the wire\<close>

text \<open>
  The server turns an error into a message, the client returns it or the answer. \<open>conn\<close> says whether the
  client reaches the server.
\<close>

definition over_rpc :: "bool \<Rightarrow> 'a \<Rightarrow> (go_error + 'a) \<Rightarrow> go_error + 'a" where
  "over_rpc conn zero r =
     (if \<not> conn then Inl ErrRpcUnknown
      else case r of
        Inl err \<Rightarrow> (case MakeGfSpError (Some err) of None \<Rightarrow> Inr zero | Some e \<Rightarrow> Inl (GfSpErr e))
      | Inr x \<Rightarrow> Inr x)"

definition client_VerifyAuthentication :: "bool \<Rightarrow> ('w, 'd) auth_env \<Rightarrow> AuthOpType \<Rightarrow> string \<Rightarrow> string \<Rightarrow> string \<Rightarrow> 'w \<Rightarrow> 'w answer" where
  "client_VerifyAuthentication conn env authType account bucket object w =
     (if \<not> conn then Returns (Inl ErrRpcUnknown, w)
      else bind_go (VerifyAuthentication env authType account bucket object w) (\<lambda>(r, w). Returns (over_rpc conn False r, w)))"

definition client_GetAuthNonce :: "bool \<Rightarrow> ('w, 'd) auth_env \<Rightarrow> string \<Rightarrow> string \<Rightarrow> ('w, 'd) AuthenticationModular
    \<Rightarrow> (go_error + int32 \<times> int32 \<times> string \<times> int64) \<times> ('w, 'd) AuthenticationModular" where
  "client_GetAuthNonce conn env account domain a =
     (if \<not> conn then (Inl ErrRpcUnknown, a)
      else case GetAuthNonce env account domain a of
        (Inl err, a) \<Rightarrow> (over_rpc conn (0, 0, [], 0) (Inl err), a)
      | (Inr k, a) \<Rightarrow> (Inr (ak_CurrentNonce k, ak_NextNonce k, ak_CurrentPublicKey k, i64 (ak_ExpiryDate k div 1000000)), a))"

definition client_UpdateUserPublicKey :: "bool \<Rightarrow> ('w, 'd) auth_env \<Rightarrow> string \<Rightarrow> string \<Rightarrow> int32 \<Rightarrow> int32 \<Rightarrow> string \<Rightarrow> int64
    \<Rightarrow> ('w, 'd) AuthenticationModular \<Rightarrow> (go_error + bool) \<times> ('w, 'd) AuthenticationModular" where
  "client_UpdateUserPublicKey conn env account domain currentNonce nonce userPublicKey expiryDate a =
     (if \<not> conn then (Inl ErrRpcUnknown, a)
      else case UpdateUserPublicKey env account domain currentNonce nonce userPublicKey expiryDate a of (r, a) \<Rightarrow> (over_rpc conn False r, a))"

definition client_VerifyOffChainSignature :: "bool \<Rightarrow> ('w, 'd) auth_env \<Rightarrow> string \<Rightarrow> string \<Rightarrow> string \<Rightarrow> string
    \<Rightarrow> ('w, 'd) AuthenticationModular \<Rightarrow> (go_error + bool) \<times> ('w, 'd) AuthenticationModular" where
  "client_VerifyOffChainSignature conn env account domain offChainSig realMsgToSign a =
     (if \<not> conn then (Inl ErrRpcUnknown, a)
      else case VerifyOffChainSignature env account domain offChainSig realMsgToSign a of (r, a) \<Rightarrow> (over_rpc conn False r, a))"

section \<open>The policy\<close>

text \<open>
  What the chain knows, and what an operation requires of it, as a table. The locale says how the nodes answer:
  they know the state of the chain, report what is missing as an error, and answer whether an account has a permission
  on a bucket or an object that is there.
\<close>

record chain_view =
  cv_account :: "string \<Rightarrow> bool"
  cv_bucket :: "string \<Rightarrow> BucketInfo option"
  cv_object :: "string \<Rightarrow> string \<Rightarrow> ObjectInfo option"
  cv_stream :: "string \<Rightarrow> StreamAccountStatus option"
  cv_allows :: "string \<Rightarrow> string \<Rightarrow> string \<Rightarrow> ActionType \<Rightarrow> bool"
  cv_challengers :: "string list"

datatype requirement =
    BucketFree | BucketExists | ObjectFree | ObjectExists | PrimaryHere | SecondaryHere | StoredHere
  | InState ObjectStatus | PaymentActive | MayCreate | MayRead | OwnerOnly | ChallengerOnly

fun meets :: "string \<Rightarrow> chain_view \<Rightarrow> string \<Rightarrow> string \<Rightarrow> string \<Rightarrow> requirement \<Rightarrow> bool" where
  "meets self v account b ob BucketFree = (cv_bucket v b = None)"
| "meets self v account b ob BucketExists = (cv_bucket v b \<noteq> None)"
| "meets self v account b ob ObjectFree = (cv_object v b ob = None)"
| "meets self v account b ob ObjectExists = (cv_object v b ob \<noteq> None)"
| "meets self v account b ob PrimaryHere = (PrimarySpAddress (bucket_of (cv_bucket v b)) = self)"
| "meets self v account b ob SecondaryHere = (self \<in> set (SecondarySpAddresses (object_of (cv_object v b ob))))"
| "meets self v account b ob StoredHere =
     list_ex (EqualFold self) (PrimarySpAddress (bucket_of (cv_bucket v b)) # SecondarySpAddresses (object_of (cv_object v b ob)))"
| "meets self v account b ob (InState s) = (ObjectStatus (object_of (cv_object v b ob)) = s)"
| "meets self v account b ob PaymentActive = (cv_stream v (PaymentAddress (bucket_of (cv_bucket v b))) = Some STREAM_ACCOUNT_STATUS_ACTIVE)"
| "meets self v account b ob MayCreate = cv_allows v account b [] ACTION_CREATE_OBJECT"
| "meets self v account b ob MayRead = cv_allows v account b ob ACTION_GET_OBJECT"
| "meets self v account b ob OwnerOnly = (bi_Owner (bucket_of (cv_bucket v b)) = account)"
| "meets self v account b ob ChallengerOnly = list_ex (EqualFold account) (cv_challengers v)"

fun policy :: "AuthOpType \<Rightarrow> requirement list option" where
  "policy AuthOpTypeUnKnown = None"
| "policy AuthOpAskCreateBucketApproval = Some [BucketFree]"
| "policy AuthOpAskCreateObjectApproval = Some [BucketExists, ObjectFree]"
| "policy AuthOpTypePutObject = Some [ObjectExists, PrimaryHere, InState OBJECT_STATUS_CREATED, MayCreate]"
| "policy AuthOpTypeGetUploadingState = Some [ObjectExists, PrimaryHere, InState OBJECT_STATUS_CREATED, MayCreate]"
| "policy AuthOpTypeGetObject = Some [ObjectExists, PrimaryHere, InState OBJECT_STATUS_SEALED, PaymentActive, MayRead]"
| "policy AuthOpTypeGetRecoveryPiece = Some [ObjectExists, SecondaryHere, InState OBJECT_STATUS_SEALED, MayRead]"
| "policy AuthOpTypeGetBucketQuota = Some [BucketExists, PrimaryHere, OwnerOnly]"
| "policy AuthOpTypeListBucketReadRecord = Some [BucketExists, PrimaryHere, OwnerOnly]"
| "policy AuthOpTypeGetChallengePieceInfo = Some [ChallengerOnly, ObjectExists, StoredHere]"

definition permitted :: "string \<Rightarrow> chain_view \<Rightarrow> AuthOpType \<Rightarrow> string \<Rightarrow> string \<Rightarrow> string \<Rightarrow> bool" where
  "permitted self v authType account b ob \<longleftrightarrow>
     cv_account v account \<and> (case policy authType of None \<Rightarrow> False | Some rs \<Rightarrow> list_all (meets self v account b ob) rs)"

lemma EqualFold_sym: "EqualFold s t = EqualFold t s"
  by (auto simp: EqualFold_def)

locale chain_answers =
  fixes nodes :: "'w gnfd_nodes" and g :: Gnfd and v :: chain_view
  assumes account: "(\<exists>x. fst (gn_Account nodes (gf_client g) a w) = Inr (Some x)) \<longleftrightarrow> cv_account v a"
    and bucket_there: "cv_bucket v b = Some bi \<Longrightarrow> fst (gn_HeadBucket nodes (gf_client g) b w) = Inr (Some bi)"
    and bucket_missing: "cv_bucket v b = None \<Longrightarrow> \<exists>e. fst (gn_HeadBucket nodes (gf_client g) b w) = Inl e"
    and object_there: "cv_object v b ob = Some oi \<Longrightarrow> fst (gn_HeadObject nodes (gf_client g) b ob w) = Inr (Some oi)"
    and object_missing: "cv_object v b ob = None \<Longrightarrow> \<exists>e. fst (gn_HeadObject nodes (gf_client g) b ob w) = Inl e"
    and object_bucket: "cv_object v b ob \<noteq> None \<Longrightarrow> cv_bucket v b \<noteq> None"
    and stream: "fst (gn_StreamRecord nodes (gf_client g) a w) = Inr s \<longleftrightarrow> cv_stream v a = Some s"
    and permission: "cv_bucket v b \<noteq> None \<Longrightarrow> ob = [] \<or> cv_object v b ob \<noteq> None
      \<Longrightarrow> \<exists>eff. fst (gn_VerifyPermission nodes (gf_client g) a b ob act w) = Inr eff \<and> (eff = EFFECT_ALLOW \<longleftrightarrow> cv_allows v a b ob act)"
    and validators: "fst (gn_Validators nodes (gf_client g) ''BOND_STATUS_BONDED'' w) = Inr (cv_challengers v)"
begin

lemma both_cases:
  obtains (no_bucket) e w' where "cv_bucket v b = None" "cv_object v b ob = None"
      "QueryBucketInfo nodes g b w = (Inl e, w')" "QueryBucketInfoAndObjectInfo nodes g b ob w = ((None, None, Some e), w')"
    | (no_object) bi e w' where "cv_bucket v b = Some bi" "cv_object v b ob = None"
      "QueryBucketInfoAndObjectInfo nodes g b ob w = ((Some bi, None, Some e), w')"
    | (both) bi oi w' where "cv_bucket v b = Some bi" "cv_object v b ob = Some oi"
      "QueryBucketInfoAndObjectInfo nodes g b ob w = ((Some bi, Some oi, None), w')"
proof (cases "cv_bucket v b")
  case None
  then obtain e w' where "QueryBucketInfo nodes g b w = (Inl e, w')"
    using bucket_missing [of b w] unfolding QueryBucketInfo_def by (metis prod.collapse)
  then show thesis using no_bucket None object_bucket [of b ob] by (auto simp: QueryBucketInfoAndObjectInfo_def)
next
  case (Some bi)
  then obtain w1 where q: "QueryBucketInfo nodes g b w = (Inr (Some bi), w1)"
    using bucket_there [of b bi w] unfolding QueryBucketInfo_def by (metis prod.collapse)
  show thesis
  proof (cases "cv_object v b ob")
    case None
    then obtain e w' where "QueryObjectInfo nodes g b ob w1 = (Inl e, w')"
      using object_missing [of b ob w1] unfolding QueryObjectInfo_def by (metis prod.collapse)
    then show thesis using no_object Some None q by (auto simp: QueryBucketInfoAndObjectInfo_def)
  next
    case (Some oi)
    then obtain w' where "QueryObjectInfo nodes g b ob w1 = (Inr (Some oi), w')"
      using object_there [of b ob oi w1] unfolding QueryObjectInfo_def by (metis prod.collapse)
    then show thesis using both Some \<open>cv_bucket v b = Some bi\<close> q by (auto simp: QueryBucketInfoAndObjectInfo_def)
  qed
qed

lemma permission_answers:
  assumes "cv_object v b ob \<noteq> None"
  shows "\<exists>w'. permission_answer (VerifyPutObjectPermission nodes g a b ob w) = Returns (Inr (cv_allows v a b [] ACTION_CREATE_OBJECT), w')"
    "\<exists>w'. permission_answer (VerifyGetObjectPermission nodes g a b ob w) = Returns (Inr (cv_allows v a b ob ACTION_GET_OBJECT), w')"
proof -
  have b: "cv_bucket v b \<noteq> None" using object_bucket [OF assms] .
  obtain eff w' where "gn_VerifyPermission nodes (gf_client g) a b [] ACTION_CREATE_OBJECT w = (Inr eff, w')"
    "eff = EFFECT_ALLOW \<longleftrightarrow> cv_allows v a b [] ACTION_CREATE_OBJECT" using permission [OF b] by (metis prod.collapse)
  then show "\<exists>w'. permission_answer (VerifyPutObjectPermission nodes g a b ob w) = Returns (Inr (cv_allows v a b [] ACTION_CREATE_OBJECT), w')"
    by (simp add: permission_answer_def VerifyPutObjectPermission_def)
  obtain eff w' where "gn_VerifyPermission nodes (gf_client g) a b ob ACTION_GET_OBJECT w = (Inr eff, w')"
    "eff = EFFECT_ALLOW \<longleftrightarrow> cv_allows v a b ob ACTION_GET_OBJECT" using permission [OF b] assms by (metis prod.collapse)
  then show "\<exists>w'. permission_answer (VerifyGetObjectPermission nodes g a b ob w) = Returns (Inr (cv_allows v a b ob ACTION_GET_OBJECT), w')"
    by (simp add: permission_answer_def VerifyGetObjectPermission_def)
qed

lemma verify_put:
  assumes "au_nodes env = nodes" "au_gnfd env = g"
  shows "\<exists>r w'. verify_put_object env a b ob w = Returns (r, w')
    \<and> (r = Inr True \<longleftrightarrow> list_all (meets (au_operator env) v a b ob) [ObjectExists, PrimaryHere, InState OBJECT_STATUS_CREATED, MayCreate])"
proof (cases rule: both_cases [of b ob w])
  case (both bi oi w')
  then show ?thesis using assms permission_answers(1) [of b ob a w'] by (auto simp: verify_put_object_def bucket_of_def object_of_def)
qed (use assms in \<open>auto simp: verify_put_object_def\<close>)

lemma verify_get:
  assumes "au_nodes env = nodes" "au_gnfd env = g"
  shows "\<exists>r w'. verify_get_object env a b ob w = Returns (r, w')
    \<and> (r = Inr True \<longleftrightarrow> list_all (meets (au_operator env) v a b ob) [ObjectExists, PrimaryHere, InState OBJECT_STATUS_SEALED, PaymentActive, MayRead])"
proof (cases rule: both_cases [of b ob w])
  case (both bi oi w')
  obtain r w2 where st: "QueryPaymentStreamRecord nodes g (PaymentAddress bi) w' = (r, w2)" by fastforce
  then have "r = Inr s \<longleftrightarrow> cv_stream v (PaymentAddress bi) = Some s" for s
    using stream [of "PaymentAddress bi" w' s] by (simp add: QueryPaymentStreamRecord_def)
  then show ?thesis using assms both st permission_answers(2) [of b ob a w2]
    by (cases r) (auto simp: verify_get_object_def bucket_of_def object_of_def)
qed (use assms in \<open>auto simp: verify_get_object_def\<close>)

lemma verify_recovery:
  assumes "au_nodes env = nodes" "au_gnfd env = g"
  shows "\<exists>r w'. verify_recovery_piece env a b ob w = Returns (r, w')
    \<and> (r = Inr True \<longleftrightarrow> list_all (meets (au_operator env) v a b ob) [ObjectExists, SecondaryHere, InState OBJECT_STATUS_SEALED, MayRead])"
proof (cases rule: both_cases [of b ob w])
  case (both bi oi w')
  then show ?thesis using assms permission_answers(2) [of b ob a w'] by (auto simp: verify_recovery_piece_def object_of_def list_ex_iff)
qed (use assms in \<open>auto simp: verify_recovery_piece_def\<close>)

lemma verify_create:
  assumes "au_nodes env = nodes" "au_gnfd env = g"
  shows "\<exists>r w'. verify_create_bucket env b w = Returns (r, w') \<and> (r = Inr True \<longleftrightarrow> cv_bucket v b = None)"
    "\<exists>r w'. verify_create_object env b ob w = Returns (r, w') \<and> (r = Inr True \<longleftrightarrow> cv_bucket v b \<noteq> None \<and> cv_object v b ob = None)"
proof -
  have "\<exists>r w'. gn_HeadBucket nodes (gf_client g) b w = (r, w') \<and> ((\<exists>e. r = Inl e) \<and> cv_bucket v b = None \<or> (\<exists>bi. r = Inr (Some bi)) \<and> cv_bucket v b \<noteq> None)"
    using bucket_missing [of b w] bucket_there [of b _ w] by (cases "cv_bucket v b") (auto, metis prod.collapse, metis prod.collapse)
  then show "\<exists>r w'. verify_create_bucket env b w = Returns (r, w') \<and> (r = Inr True \<longleftrightarrow> cv_bucket v b = None)"
    using assms by (auto simp: verify_create_bucket_def QueryBucketInfo_def)
  show "\<exists>r w'. verify_create_object env b ob w = Returns (r, w') \<and> (r = Inr True \<longleftrightarrow> cv_bucket v b \<noteq> None \<and> cv_object v b ob = None)"
    by (cases rule: both_cases [of b ob w]) (use assms in \<open>auto simp: verify_create_object_def\<close>)
qed

lemma verify_quota:
  assumes "au_nodes env = nodes" "au_gnfd env = g"
  shows "\<exists>r w'. verify_bucket_quota env a b w = Returns (r, w')
    \<and> (r = Inr True \<longleftrightarrow> list_all (meets (au_operator env) v a b ob) [BucketExists, PrimaryHere, OwnerOnly])"
proof (cases "cv_bucket v b")
  case None
  then obtain e w' where "gn_HeadBucket nodes (gf_client g) b w = (Inl e, w')" using bucket_missing [of b w] by (metis prod.collapse)
  then show ?thesis using assms None by (auto simp: verify_bucket_quota_def QueryBucketInfo_def)
next
  case (Some bi)
  then obtain w' where "gn_HeadBucket nodes (gf_client g) b w = (Inr (Some bi), w')" using bucket_there [of b bi w] by (metis prod.collapse)
  then show ?thesis using assms Some by (auto simp: verify_bucket_quota_def QueryBucketInfo_def bucket_of_def)
qed

lemma verify_challenger:
  assumes "au_nodes env = nodes" "au_gnfd env = g"
  shows "\<exists>r w'. verify_challenge env a b ob w = Returns (r, w')
    \<and> (r = Inr True \<longleftrightarrow> list_all (meets (au_operator env) v a b ob) [ChallengerOnly, ObjectExists, StoredHere])"
proof -
  obtain w1 where vs: "ListBondedValidators nodes g w = (Inr (cv_challengers v), w1)"
    using validators [of w] unfolding ListBondedValidators_def by (metis prod.collapse)
  note fold = EqualFold_sym [of _ a] EqualFold_sym [of _ "au_operator env"]
  show ?thesis
  proof (cases rule: both_cases [of b ob w1])
    case (both bi oi w')
    then show ?thesis using assms vs by (auto simp: verify_challenge_def bucket_of_def object_of_def fold)
  qed (use assms vs in \<open>auto simp: verify_challenge_def fold\<close>)
qed

lemma decides:
  assumes "au_nodes env = nodes" "au_gnfd env = g"
  shows "\<exists>r w'. VerifyAuthentication env op a b ob w = Returns (r, w') \<and> (r = Inr True \<longleftrightarrow> permitted (au_operator env) v op a b ob)"
proof -
  obtain x w1 where acc: "gn_Account nodes (gf_client g) a w = (x, w1)" by fastforce
  then have known: "(\<exists>y. x = Inr (Some y)) \<longleftrightarrow> cv_account v a" using account [of a w] by simp
  show ?thesis
  proof (cases "cv_account v a")
    case False
    then show ?thesis using acc known assms by (cases x) (auto simp: VerifyAuthentication_def HasAccount_def permitted_def)
  next
    case True
    then have has: "HasAccount (au_nodes env) (au_gnfd env) a w = (Inr True, w1)" using acc known assms by (auto simp: HasAccount_def)
    show ?thesis
      using True has verify_put [OF assms, of a b ob w1] verify_get [OF assms, of a b ob w1] verify_recovery [OF assms, of a b ob w1]
        verify_create(1) [OF assms, of b w1] verify_create(2) [OF assms, of b ob w1] verify_quota [OF assms, of a b w1 ob] verify_challenger [OF assms, of a b ob w1]
      by (cases op) (simp_all add: VerifyAuthentication_def permitted_def)
  qed
qed

end

text \<open>Nodes that answer from a state of the chain in memory.\<close>

definition view_nodes :: "chain_view \<Rightarrow> nat gnfd_nodes" where
  "view_nodes v =
     \<lparr>gn_now = int, gn_sleep = (\<lambda>t w. w + nat t), gn_ABCIInfo = (\<lambda>i w. (Inr (int w), w)),
      gn_Account = (\<lambda>i a w. (if cv_account v a then Inr (Some a) else Inl (PlainErr ''account not found''), w)),
      gn_StorageProviders = (\<lambda>i w. (Inr [], w)), gn_Validators = (\<lambda>i st w. (Inr (cv_challengers v), w)),
      gn_Params = (\<lambda>i w. (Inl (PlainErr ''none''), w)), gn_QueryParamsByTimestamp = (\<lambda>i t w. (Inl (PlainErr ''none''), w)),
      gn_HeadBucket = (\<lambda>i b w. (case cv_bucket v b of None \<Rightarrow> Inl (PlainErr ''No such bucket'') | Some x \<Rightarrow> Inr (Some x), w)),
      gn_HeadObject = (\<lambda>i b ob w. (case cv_object v b ob of None \<Rightarrow> Inl (PlainErr ''No such object'') | Some x \<Rightarrow> Inr (Some x), w)),
      gn_HeadObjectById = (\<lambda>i oid w. (Inl (PlainErr ''No such object''), w)),
      gn_StreamRecord = (\<lambda>i a w. (case cv_stream v a of None \<Rightarrow> Inl (PlainErr ''not found'') | Some x \<Rightarrow> Inr x, w)),
      gn_VerifyPermission = (\<lambda>i a b ob act w. (Inr (if cv_allows v a b ob act then EFFECT_ALLOW else EFFECT_DENY), w))\<rparr>"

lemma view_nodes_answer:
  assumes "\<And>b ob. cv_object v b ob \<noteq> None \<Longrightarrow> cv_bucket v b \<noteq> None"
  shows "chain_answers (view_nodes v) g v"
  using assms by unfold_locales (auto simp: view_nodes_def split: option.splits)

text \<open>One bucket with one sealed object, whose owner may read it.\<close>

definition demo_view :: chain_view where
  "demo_view = \<lparr>cv_account = (\<lambda>a. a = ''alice'' \<or> a = ''bob''),
     cv_bucket = (\<lambda>b. if b = ''photos'' then Some (nil_bucket\<lparr>bi_BucketName := b, bi_Owner := ''alice'', PrimarySpAddress := ''self'', PaymentAddress := ''pay''\<rparr>) else None),
     cv_object = (\<lambda>b ob. if b = ''photos'' \<and> ob = ''cat'' then Some (nil_object\<lparr>BucketName := b, ObjectName := ob, Id := 7, PayloadSize := 3,
        ObjectStatus := OBJECT_STATUS_SEALED\<rparr>) else None),
     cv_stream = (\<lambda>a. if a = ''pay'' then Some STREAM_ACCOUNT_STATUS_ACTIVE else None),
     cv_allows = (\<lambda>a b ob act. a = ''alice''), cv_challengers = [''bob'']\<rparr>"

definition demo_gnfd :: Gnfd where
  "demo_gnfd = \<lparr>gf_client = 0, gf_wsClient = 0, gf_backUpClients = []\<rparr>"

interpretation demo_chain: chain_answers "view_nodes demo_view" demo_gnfd demo_view
  by (rule view_nodes_answer) (simp add: demo_view_def split: if_splits)

text \<open>
  C5. The authenticator implements the policy table: with nodes that know the state of the chain, every request is
  answered, and it is allowed exactly when the account exists and all that the table requires for the operation
  holds on the chain. An operation without an entry is never allowed.
\<close>

theorem authentication_policy:
  assumes "chain_answers (au_nodes env) (au_gnfd env) v"
  shows "\<exists>r w'. VerifyAuthentication env op account b ob w = Returns (r, w') \<and> (r = Inr True \<longleftrightarrow> permitted (au_operator env) v op account b ob)"
  by (rule chain_answers.decides [OF assms]) simp_all

text \<open>
  An approval is granted although the chain could not be asked: with an account that exists, a failed
  query of the bucket counts as a bucket that does not exist, and a failed query of the object as a new object.
\<close>

lemma approval_despite_errors:
  assumes "HasAccount (au_nodes env) (au_gnfd env) account w = (Inr True, w1)"
  shows "QueryBucketInfo (au_nodes env) (au_gnfd env) b w1 = (Inl err, w2)
      \<Longrightarrow> VerifyAuthentication env AuthOpAskCreateBucketApproval account b ob w = Returns (Inr True, w2)"
    "QueryBucketInfoAndObjectInfo (au_nodes env) (au_gnfd env) b ob w1 = ((Some bi, None, Some err), w2)
      \<Longrightarrow> VerifyAuthentication env AuthOpAskCreateObjectApproval account b ob w = Returns (Inr True, w2)"
  using assms by (simp_all add: VerifyAuthentication_def verify_create_bucket_def verify_create_object_def)

section \<open>The keys in the table\<close>

definition auth_key :: "OffChainAuthKey \<Rightarrow> string \<times> string" where
  "auth_key r = (ak_UserAddress r, ak_Domain r)"

text \<open>An update writes the fields that differ from the zero value.\<close>

definition merge_key :: "OffChainAuthKey \<Rightarrow> OffChainAuthKey \<Rightarrow> OffChainAuthKey" where
  "merge_key r u =
     \<lparr>ak_UserAddress = (if ak_UserAddress u = [] then ak_UserAddress r else ak_UserAddress u),
      ak_Domain = (if ak_Domain u = [] then ak_Domain r else ak_Domain u),
      ak_CurrentNonce = (if ak_CurrentNonce u = 0 then ak_CurrentNonce r else ak_CurrentNonce u),
      ak_CurrentPublicKey = (if ak_CurrentPublicKey u = [] then ak_CurrentPublicKey r else ak_CurrentPublicKey u),
      ak_NextNonce = (if ak_NextNonce u = 0 then ak_NextNonce r else ak_NextNonce u),
      ak_ExpiryDate = (if ak_ExpiryDate u = zero_time then ak_ExpiryDate r else ak_ExpiryDate u),
      ak_CreatedTime = (if ak_CreatedTime u = zero_time then ak_CreatedTime r else ak_CreatedTime u),
      ak_ModifiedTime = (if ak_ModifiedTime u = zero_time then ak_ModifiedTime r else ak_ModifiedTime u)\<rparr>"

definition fresh_key :: "time \<Rightarrow> string \<Rightarrow> string \<Rightarrow> OffChainAuthKey" where
  "fresh_key now user domain = \<lparr>ak_UserAddress = user, ak_Domain = domain, ak_CurrentNonce = 0, ak_CurrentPublicKey = [],
     ak_NextNonce = 1, ak_ExpiryDate = now, ak_CreatedTime = now, ak_ModifiedTime = now\<rparr>"

locale auth_keys = sql_table "at_table tab" rows auth_key "([], [])"
  for tab :: "'d auth_table" and rows +
  assumes row_key: "rows d k = Some r \<Longrightarrow> auth_key r = k"
    and FirstNonce_row: "at_FirstNonce tab d k n =
      (case rows d k of None \<Rightarrow> Inl ErrRecordNotFound | Some r \<Rightarrow> if ak_CurrentNonce r = n then Inr r else Inl ErrRecordNotFound)"
    and Updates_row: "ak_UserAddress c \<noteq> [] \<Longrightarrow> ak_Domain c \<noteq> [] \<Longrightarrow> auth_key u = ([], []) \<Longrightarrow> rows d (auth_key c) = Some r
      \<Longrightarrow> \<exists>d'. at_Updates tab d c u = ((None, 1), d') \<and> rows d' = (rows d)(auth_key c \<mapsto> merge_key r u)"
begin

lemma GetAuthKey_row:
  assumes "user \<noteq> []" "domain \<noteq> []"
  shows "\<exists>d'. GetAuthKey tab now user domain d = (Inr (case rows d (user, domain) of None \<Rightarrow> fresh_key now user domain | Some r \<Rightarrow> r), d')
    \<and> rows d' = (case rows d (user, domain) of None \<Rightarrow> (rows d)((user, domain) \<mapsto> fresh_key now user domain) | Some r \<Rightarrow> rows d)"
proof (cases "rows d (user, domain)")
  case None
  have "auth_key (fresh_key now user domain) = (user, domain)" by (simp add: fresh_key_def auth_key_def)
  with None Create_new [of d "fresh_key now user domain"] obtain d' where
    "Create (at_table tab) d (fresh_key now user domain) = ((None, 1), d')" "rows d' = (rows d)((user, domain) \<mapsto> fresh_key now user domain)" by auto
  then show ?thesis using assms None by (simp add: GetAuthKey_def First_row InsertAuthKey_def Let_def fresh_key_def [symmetric])
qed (use assms in \<open>simp add: GetAuthKey_def First_row\<close>)

lemma UpdateAuthKey_row:
  assumes "user \<noteq> []" "domain \<noteq> []"
  shows "UpdateAuthKey tab now user domain old new pk expiry d = (None, d')
    \<Longrightarrow> \<exists>r. rows d (user, domain) = Some r \<and> ak_CurrentNonce r = old
      \<and> rows d' = (rows d)((user, domain) \<mapsto> merge_key r (zero_auth_key\<lparr>ak_CurrentPublicKey := pk, ak_CurrentNonce := new,
            ak_NextNonce := i32 (new + 1), ak_ExpiryDate := expiry, ak_ModifiedTime := now\<rparr>))"
proof -
  assume upd: "UpdateAuthKey tab now user domain old new pk expiry d = (None, d')"
  then obtain r where r: "rows d (user, domain) = Some r" "ak_CurrentNonce r = old"
    by (auto simp: UpdateAuthKey_def FirstNonce_row split: option.splits if_splits)
  let ?c = "zero_auth_key\<lparr>ak_UserAddress := ak_UserAddress r, ak_Domain := ak_Domain r, ak_CurrentNonce := ak_CurrentNonce r\<rparr>"
  have c: "auth_key ?c = (user, domain)" "ak_UserAddress ?c \<noteq> []" "ak_Domain ?c \<noteq> []"
    using row_key [OF r(1)] assms by (auto simp: auth_key_def)
  let ?u = "zero_auth_key\<lparr>ak_CurrentPublicKey := pk, ak_CurrentNonce := new, ak_NextNonce := i32 (new + 1), ak_ExpiryDate := expiry, ak_ModifiedTime := now\<rparr>"
  obtain d1 where "at_Updates tab d ?c ?u = ((None, 1), d1)" "rows d1 = (rows d)((user, domain) \<mapsto> merge_key r ?u)"
    using Updates_row [OF c(2,3), of ?u d r] c(1) r(1) by (auto simp: auth_key_def zero_auth_key_def)
  moreover have "UpdateAuthKey tab now user domain old new pk expiry d = (None, d1)"
    using calculation(1) r by (simp add: UpdateAuthKey_def FirstNonce_row Let_def)
  ultimately show ?thesis using upd r by auto
qed

lemma UpdateAuthKey_fails:
  assumes "user \<noteq> []" "domain \<noteq> []"
  shows "UpdateAuthKey tab now user domain old new pk expiry d = (Some e, d') \<Longrightarrow> d' = d"
proof (cases "\<exists>r. rows d (user, domain) = Some r \<and> ak_CurrentNonce r = old")
  case True
  then obtain r where r: "rows d (user, domain) = Some r" "ak_CurrentNonce r = old" by blast
  let ?c = "zero_auth_key\<lparr>ak_UserAddress := ak_UserAddress r, ak_Domain := ak_Domain r, ak_CurrentNonce := ak_CurrentNonce r\<rparr>"
  let ?u = "zero_auth_key\<lparr>ak_CurrentPublicKey := pk, ak_CurrentNonce := new, ak_NextNonce := i32 (new + 1), ak_ExpiryDate := expiry, ak_ModifiedTime := now\<rparr>"
  have c: "auth_key ?c = (user, domain)" "ak_UserAddress ?c \<noteq> []" "ak_Domain ?c \<noteq> []"
    using row_key [OF r(1)] assms by (auto simp: auth_key_def)
  obtain d1 where "at_Updates tab d ?c ?u = ((None, 1), d1)"
    using Updates_row [OF c(2,3), of ?u d r] c(1) r(1) by (auto simp: auth_key_def zero_auth_key_def)
  moreover assume "UpdateAuthKey tab now user domain old new pk expiry d = (Some e, d')"
  ultimately show ?thesis using r by (simp add: UpdateAuthKey_def FirstNonce_row Let_def)
qed (auto simp: UpdateAuthKey_def FirstNonce_row split: option.splits if_splits)

end

text \<open>A table in memory.\<close>

definition list_auth_table :: "OffChainAuthKey list auth_table" where
  "list_auth_table =
     \<lparr>at_table =
        \<lparr>First = (\<lambda>d k. case find (\<lambda>r. auth_key r = k) d of None \<Rightarrow> Inl ErrRecordNotFound | Some r \<Rightarrow> Inr r),
         Create = (\<lambda>d r. case find (\<lambda>x. auth_key x = auth_key r) d of
                      None \<Rightarrow> ((None, 1), r # d) | Some _ \<Rightarrow> ((Some (MySQLError ErrDuplicateEntryCode), 0), d)),
         Delete = (\<lambda>d k. if k = ([], []) then (Some (OtherGormError ''WHERE conditions required''), d)
                     else (None, filter (\<lambda>r. auth_key r \<noteq> k) d))\<rparr>,
      at_FirstNonce = (\<lambda>d k n. case find (\<lambda>r. auth_key r = k) d of
                         None \<Rightarrow> Inl ErrRecordNotFound | Some r \<Rightarrow> if ak_CurrentNonce r = n then Inr r else Inl ErrRecordNotFound),
      at_Updates = (\<lambda>d c u. ((None, 1), map (\<lambda>r. if auth_key r = auth_key c then merge_key r u else r) d))\<rparr>"

abbreviation list_auth_rows :: "OffChainAuthKey list \<Rightarrow> (string \<times> string \<rightharpoonup> OffChainAuthKey)" where
  "list_auth_rows d \<equiv> (\<lambda>k. find (\<lambda>r. auth_key r = k) d)"

lemma find_filter_key: "find (\<lambda>r. f r = k) (filter (\<lambda>r. f r \<noteq> k') d) = (if k = k' then None else find (\<lambda>r. f r = k) d)"
  by (induction d) auto

lemma auth_key_merge: "auth_key u = ([], []) \<Longrightarrow> auth_key (merge_key r u) = auth_key r"
  by (simp add: auth_key_def merge_key_def)

lemma find_merge:
  assumes "auth_key u = ([], [])"
  shows "find (\<lambda>x. auth_key x = k) (map (\<lambda>x. if auth_key x = k' then merge_key x u else x) d)
    = (if k = k' then map_option (\<lambda>r. merge_key r u) (find (\<lambda>x. auth_key x = k) d) else find (\<lambda>x. auth_key x = k) d)"
  by (induction d) (auto simp: auth_key_merge [OF assms])

interpretation list_keys: auth_keys list_auth_table list_auth_rows
proof
  show "auth_key r = k" if "find (\<lambda>r. auth_key r = k) d = Some r" for d k r
    using that by (auto simp: find_Some_iff)
  show "\<exists>d'. at_Updates list_auth_table d c u = ((None, 1), d') \<and> list_auth_rows d' = (list_auth_rows d)(auth_key c \<mapsto> merge_key r u)"
    if "auth_key u = ([], [])" "find (\<lambda>r. auth_key r = auth_key c) d = Some r" for c u d r
    using find_merge [OF that(1)] that(2) by (auto simp: list_auth_table_def fun_eq_iff)
qed (auto simp: list_auth_table_def find_filter_key fun_eq_iff split: option.splits)

section \<open>Off-chain signatures\<close>

lemma until_range: "\<not> until t now < 0 \<longleftrightarrow> now \<le> t" "0 \<le> c \<Longrightarrow> c < 2 ^ 63 - 1 \<Longrightarrow> \<not> c < until t now \<longleftrightarrow> t \<le> now + c"
  by (auto simp: until_def)

text \<open>
  C19. A request with an off-chain signature is accepted only for a user and a domain with a registered key that is
  not expired, when the message ends in a timestamp of the next five minutes and the signature
  verifies under that key.
\<close>

theorem off_chain_signature_sound:
  assumes "VerifyOffChainSignature env account domain offChainSig msg a = (Inr True, a')" "auth_keys (au_table env) rows"
  shows "\<exists>key signature pk stamp. rows (am_db a') (account, domain) = Some key \<and> auth_now env a \<le> ak_ExpiryDate key
    \<and> Atoi (last (split_on CHR ''_'' msg)) = Some stamp
    \<and> auth_now env a \<le> UnixMilli stamp \<and> UnixMilli stamp \<le> auth_now env a + 300 * 1000000000
    \<and> DecodeString offChainSig = Inr signature \<and> DecodeString (ak_CurrentPublicKey key) = Inr pk
    \<and> au_Verify env pk signature (string_bytes msg) = Inr True"
proof -
  obtain signature key a1 where s: "DecodeString offChainSig = Inr signature" "GetAuthNonce env account domain a = (Inr key, a1)"
    using assms(1) by (auto simp: VerifyOffChainSignature_def split: sum.splits prod.splits)
  then have ne: "account \<noteq> []" "domain \<noteq> []" by (auto simp: GetAuthNonce_def GetAuthKey_def split: prod.splits if_splits)
  have now: "auth_now env a1 = auth_now env a" using s(2) by (auto simp: GetAuthNonce_def auth_now_def split: prod.splits)
  have row: "rows (am_db a1) (account, domain) = Some key"
    using auth_keys.GetAuthKey_row [OF assms(2) ne, of "auth_now env a" "am_db a"] s(2)
    by (auto simp: GetAuthNonce_def split: prod.splits option.splits)
  obtain stamp where t: "Atoi (last (split_on CHR ''_'' msg)) = Some stamp" "\<not> until (ak_ExpiryDate key) (auth_now env a) < 0"
    "\<not> OffChainAuthSigExpiryAgeInSec * 1000000000 < until (UnixMilli stamp) (auth_now env a)" "\<not> until (UnixMilli stamp) (auth_now env a) < 0"
    "VerifyEddsaSignature env (ak_CurrentPublicKey key) signature (string_bytes msg) = None" "a' = a1"
    using assms(1) s now by (auto simp: VerifyOffChainSignature_def Let_def split: if_splits option.splits)
  have "UnixMilli stamp \<le> auth_now env a + 300 * 1000000000"
    using t(3) until_range(2) [of "300 * 1000000000" "UnixMilli stamp" "auth_now env a"] by (simp add: OffChainAuthSigExpiryAgeInSec_def)
  moreover obtain pk where "DecodeString (ak_CurrentPublicKey key) = Inr pk" "au_Verify env pk signature (string_bytes msg) = Inr True"
    using t(5) by (auto simp: VerifyEddsaSignature_def ParsePk_def split: sum.splits if_splits)
  ultimately show ?thesis using row t s(1) by (auto simp: until_range(1))
qed

text \<open>An environment with the chain and the table in memory; a signature is valid when it is the key.\<close>

definition demo_auth_env :: "(nat, OffChainAuthKey list) auth_env" where
  "demo_auth_env = \<lparr>au_operator = ''self'', au_nodes = view_nodes demo_view, au_gnfd = demo_gnfd, au_table = list_auth_table,
     au_SetBytes = (\<lambda>b. Inr 32), au_Verify = (\<lambda>pk sig msg. Inr (sig = pk))\<rparr>"

definition demo_auth :: "(nat, OffChainAuthKey list) AuthenticationModular" where
  "demo_auth = \<lparr>am_db = [\<lparr>ak_UserAddress = ''alice'', ak_Domain = ''app'', ak_CurrentNonce = 1, ak_CurrentPublicKey = ''ab'', ak_NextNonce = 2,
     ak_ExpiryDate = 900, ak_CreatedTime = 0, ak_ModifiedTime = 0\<rparr>], am_world = 500\<rparr>"

theorem authentication_policy_witness:
  "permitted ''self'' demo_view AuthOpTypeGetObject ''alice'' ''photos'' ''cat''
   \<and> (\<exists>w'. VerifyAuthentication demo_auth_env AuthOpTypeGetObject ''alice'' ''photos'' ''cat'' 3 = Returns (Inr True, w'))
   \<and> \<not> permitted ''self'' demo_view AuthOpTypeGetObject ''bob'' ''photos'' ''cat''"
proof -
  have "permitted ''self'' demo_view AuthOpTypeGetObject ''alice'' ''photos'' ''cat''"
    "\<not> permitted ''self'' demo_view AuthOpTypeGetObject ''bob'' ''photos'' ''cat''" by code_simp+
  moreover have "chain_answers (au_nodes demo_auth_env) (au_gnfd demo_auth_env) demo_view" "au_operator demo_auth_env = ''self''"
    using demo_chain.chain_answers_axioms by (simp_all add: demo_auth_env_def)
  ultimately show ?thesis using authentication_policy [of demo_auth_env demo_view AuthOpTypeGetObject "''alice''" "''photos''" "''cat''" 3] by auto
qed

theorem off_chain_signature_sound_witness:
  "\<exists>a'. VerifyOffChainSignature demo_auth_env ''alice'' ''app'' ''ab'' ''put_1'' demo_auth = (Inr True, a')
     \<and> (\<exists>key. list_auth_rows (am_db a') (''alice'', ''app'') = Some key \<and> auth_now demo_auth_env demo_auth \<le> ak_ExpiryDate key)"
proof -
  have "fst (VerifyOffChainSignature demo_auth_env ''alice'' ''app'' ''ab'' ''put_1'' demo_auth) = Inr True" by code_simp
  then obtain a' where r: "VerifyOffChainSignature demo_auth_env ''alice'' ''app'' ''ab'' ''put_1'' demo_auth = (Inr True, a')" by (metis prod.collapse)
  have "auth_keys (au_table demo_auth_env) list_auth_rows" using list_keys.auth_keys_axioms by (simp add: demo_auth_env_def)
  from off_chain_signature_sound [OF r this] r show ?thesis by blast
qed

end
