(* ===== verification/GateRequest.thy ===== *)
theory GateRequest
  imports Authenticator
begin

text \<open>
  How the gateway learns who sends a request: \<open>modular/gater/request_context.go\<close> and
  \<open>modular/gater/auth_handler.go\<close>, with the error table of \<open>modular/gater/errors.go\<close>.

  A request is its headers, path variables and query parameters, with the empty string for what is
  not there. The hash of a request that is signed, the elliptic curve and address functions of
  \<open>go-ethereum\<close> and \<open>cosmos-sdk\<close>, the parsing of dates and the two regular expressions of the registration message are arguments.
  The gateway reaches the authenticator through its client; the state is the key table of the authenticator
  and the outside world.
\<close>

section \<open>Requests, errors and the environment\<close>

record http_request =
  rq_Header :: "string \<Rightarrow> string"
  rq_Vars :: "string \<Rightarrow> string"
  rq_Query :: "string \<Rightarrow> string"
  rq_Body :: bytes

definition StatusOK :: int where "StatusOK = 200"
definition StatusUnauthorized :: int where "StatusUnauthorized = 401"

definition gater_errors :: "registration list" where
  "gater_errors =
    [(''gateway'', StatusBadRequest, 50001, ''unsupported sign type''),
     (''gateway'', StatusBadRequest, 50002, ''authorization header format error''),
     (''gateway'', StatusBadRequest, 50003, ''request is tampered''),
     (''gateway'', StatusUnauthorized, 50004, ''no permission''),
     (''gateway'', StatusBadRequest, 50005, ''gnfd msg encoding error''),
     (''gateway'', StatusBadRequest, 50006, ''gnfd msg validate error''),
     (''gateway'', StatusOK, 50007, ''approval request is refuse''),
     (''gateway'', StatusNotFound, 50008, ''unsupported request type''),
     (''gateway'', StatusBadRequest, 50009, ''invalid request header''),
     (''gateway'', StatusBadRequest, 50010, ''invalid request params for query''),
     (''gateway'', StatusInternalServerError, 50011, ''server slipped away, try again later''),
     (''gateway'', StatusBadRequest, 50012, ''invalid range params''),
     (''gateway'', StatusBadRequest, 50013, ''stream exception''),
     (''gateway'', StatusNotAcceptable, 50014, ''mismatch sp''),
     (''gateway'', StatusNotAcceptable, 50015, ''signature verification failed''),
     (''gateway'', StatusForbidden, 50016, ''invalid payload''),
     (''gateway'', StatusBadRequest, 50017, ''The X-Gnfd-App-Reg-Nonce header is incorrect.''),
     (''gateway'', StatusBadRequest, 50018, ''The X-Gnfd-App-Reg-Nonce header is incorrect.''),
     (''gateway'', StatusBadRequest, 50019, ''The X-Gnfd-App-Reg-Nonce header is incorrect.''),
     (''gateway'', StatusBadRequest, 50020, ''The signed message in Authorization does not match the content in headers.''),
     (''gateway'', StatusBadRequest, 50021, ''The signed message in Authorization is not for the this SP.''),
     (''gateway'', StatusBadRequest, 50022, ''The signed message in Authorization does not match the template.''),
     (''gateway'', StatusBadRequest, 50023, ''The X-Gnfd-App-Reg-Expiry-Date header is incorrect. The expiry date is expected to be within 604800 seconds and formatted in YYYY-DD-MM HH:MM:SS 'GMT'Z, e.g. 2023-04-20 16:34:12 GMT+08:00 . ''),
     (''gateway'', StatusBadRequest, 50024, ''The expiry parameter is incorrect. The expiry date is expected to be within 604800 seconds and formatted in YYYY-DD-MM HH:MM:SS 'GMT'Z, e.g. 2023-04-20 16:34:12 GMT+08:00 . ''),
     (''authenticator'', StatusNotFound, 50025, ''no such object''),
     (''gateway'', StatusForbidden, 50026, ''Forbidden to access''),
     (''gateway'', StatusBadRequest, 50027, ''invalid complete''),
     (''gateway'', StatusBadRequest, 50028, ''invalid offset''),
     (''gateway'', StatusBadRequest, 55001, ''server slipped away, try again later''),
     (''gateway'', StatusBadRequest, 550015, ''approval expired''),
     (''gateway'', StatusBadRequest, 50030, ''The SP is not the correct SP to recovery''),
     (''gateway'', StatusBadRequest, 50031, ''The redundancy type of the recovering piece is not EC''),
     (''gateway'', StatusInternalServerError, 50032, ''System busy, try to request later'')]"

definition gate_error :: "nat \<Rightarrow> go_error" where
  "gate_error i = GfSpErr (registered (gater_errors ! i))"

abbreviation "ErrUnsupportedSignType \<equiv> gate_error 0"
abbreviation "ErrAuthorizationHeaderFormat \<equiv> gate_error 1"
abbreviation "ErrRequestConsistent \<equiv> gate_error 2"
abbreviation "ErrNoPermission \<equiv> gate_error 3"
abbreviation "ErrSignature \<equiv> gate_error 14"
abbreviation "ErrInvalidDomainHeader \<equiv> gate_error 16"
abbreviation "ErrInvalidPublicKeyHeader \<equiv> gate_error 17"
abbreviation "ErrInvalidRegNonceHeader \<equiv> gate_error 18"
abbreviation "ErrSignedMsgNotMatchSPAddr \<equiv> gate_error 20"
abbreviation "ErrSignedMsgNotMatchTemplate \<equiv> gate_error 21"
abbreviation "ErrInvalidExpiryDateHeader \<equiv> gate_error 22"

text \<open>
  \<open>ge_match\<close> gives the groups of the registration template in the message, \<open>ge_sps\<close> the address, name and
  nonce of every provider in the text of its last group; \<open>ge_HexAddress\<close> reads an address, with the empty one for
  what is none; \<open>ge_int32_of_seconds\<close> is the conversion of a duration in nanoseconds to whole seconds of 32 bits.
\<close>

record ('w, 'd) gate_env =
  ge_auth :: "('w, 'd) auth_env"
  ge_auth_conn :: "'w \<Rightarrow> bool"
  ge_GetMsgToSign :: "http_request \<Rightarrow> bytes"
  ge_RecoverPubkey :: "bytes \<Rightarrow> bytes \<Rightarrow> go_error + bytes"
  ge_Address :: "bytes \<Rightarrow> string"
  ge_VerifySecp :: "bytes \<Rightarrow> bytes \<Rightarrow> bytes \<Rightarrow> bool"
  ge_HexAddress :: "string \<Rightarrow> string"
  ge_TextHash :: "bytes \<Rightarrow> bytes"
  ge_hexutil_Decode :: "string \<Rightarrow> go_error + bytes"
  ge_parse_date :: "string \<Rightarrow> go_error + time"
  ge_int32_of_seconds :: "int64 \<Rightarrow> int32"
  ge_match :: "string \<Rightarrow> string list"
  ge_sps :: "string \<Rightarrow> (string \<times> string \<times> string) list"

type_synonym ('w, 'd) gate_state = "('w, 'd) AuthenticationModular"

definition gate_conn :: "('w, 'd) gate_env \<Rightarrow> ('w, 'd) gate_state \<Rightarrow> bool" where
  "gate_conn env a = ge_auth_conn env (am_world a)"

section \<open>Signatures of requests\<close>

definition SignAlgorithm :: string where "SignAlgorithm = ''ECDSA-secp256k1''"
definition SignAlgorithmEddsa :: string where "SignAlgorithmEddsa = ''EDDSA''"

definition signaturePrefix :: "string \<Rightarrow> string \<Rightarrow> string" where
  "signaturePrefix version algorithm = version @ '' '' @ algorithm @ '',''"

abbreviation "v1_prefix \<equiv> signaturePrefix ''authTypeV1'' SignAlgorithm"
abbreviation "v2_prefix \<equiv> signaturePrefix ''authTypeV2'' SignAlgorithm"
abbreviation "off_chain_prefix \<equiv> signaturePrefix ''OffChainAuth'' SignAlgorithmEddsa"
abbreviation "personal_prefix \<equiv> signaturePrefix ''PersonalSign'' SignAlgorithm"

definition RecoverAddr :: "('w, 'd) gate_env \<Rightarrow> bytes \<Rightarrow> bytes \<Rightarrow> go_error + string \<times> bytes" where
  "RecoverAddr env msg sig =
     (case ge_RecoverPubkey env msg sig of Inl err \<Rightarrow> Inl err | Inr pk \<Rightarrow> Inr (ge_Address env pk, pk))"

fun v1_items :: "string list \<Rightarrow> string \<times> bytes \<Rightarrow> go_error + string \<times> bytes" where
  "v1_items [] (signedMsg, signature) = Inr (signedMsg, signature)"
| "v1_items (item # items) (signedMsg, signature) =
     (case split_on CHR ''='' item of
        [k, x] \<Rightarrow>
          if k = ''SignedMsg'' then v1_items items (x, signature)
          else if k = ''Signature'' then
            (case DecodeString x of Inl e \<Rightarrow> Inl (PlainErr (hex_text e)) | Inr s \<Rightarrow> v1_items items (signedMsg, s))
          else Inl ErrAuthorizationHeaderFormat
      | _ \<Rightarrow> Inl ErrAuthorizationHeaderFormat)"

definition verifySignatureV1 :: "('w, 'd) gate_env \<Rightarrow> http_request \<Rightarrow> string \<Rightarrow> (go_error + string) go" where
  "verifySignatureV1 env r requestSignature =
     (let signatureItems = split_on CHR '','' (filter (\<lambda>c. c \<noteq> CHR '' '') requestSignature) in
      if length signatureItems < 2 then Returns (Inl ErrAuthorizationHeaderFormat)
      else case v1_items signatureItems ([], []) of
        Inl err \<Rightarrow> Returns (Inl err)
      | Inr (signedMsg, signature) \<Rightarrow>
          let realMsgToSign = ge_GetMsgToSign env r in
          if EncodeToString realMsgToSign \<noteq> signedMsg then Returns (Inl ErrRequestConsistent)
          else case RecoverAddr env realMsgToSign signature of
            Inl _ \<Rightarrow> Returns (Inl ErrRequestConsistent)
          | Inr (addr, pk) \<Rightarrow>
              if signature = [] then Panics
              else if \<not> ge_VerifySecp env pk realMsgToSign (butlast signature) then Returns (Inl ErrRequestConsistent)
              else Returns (Inr addr))"

fun replace_newlines :: "string \<Rightarrow> string" where
  "replace_newlines (c # d # s) =
     (if c = CHR 0x5C \<and> d = CHR ''n'' then CHR 0x0A # replace_newlines s else c # replace_newlines (d # s))"
| "replace_newlines s = s"

fun signed_items :: "string list \<Rightarrow> string \<times> string \<Rightarrow> go_error + string \<times> string" where
  "signed_items [] (signedMsg, signature) = Inr (signedMsg, signature)"
| "signed_items (item # items) (signedMsg, signature) =
     (case split_on CHR ''='' item of
        [k, x] \<Rightarrow>
          if k = ''SignedMsg'' then signed_items items (x, signature)
          else if k = ''Signature'' then signed_items items (signedMsg, x)
          else Inl ErrAuthorizationHeaderFormat
      | _ \<Rightarrow> Inl ErrAuthorizationHeaderFormat)"

definition parseSignedMsgAndSigFromRequest :: "string \<Rightarrow> go_error + string \<times> string" where
  "parseSignedMsgAndSigFromRequest requestSignature =
     (let signatureItems = split_on CHR '','' (replace_newlines requestSignature) in
      if length signatureItems \<noteq> 2 then Inl ErrAuthorizationHeaderFormat else signed_items signatureItems ([], []))"

definition verifyOffChainSignature :: "('w, 'd) gate_env \<Rightarrow> http_request \<Rightarrow> string \<Rightarrow> ('w, 'd) gate_state \<Rightarrow> (go_error + string) \<times> ('w, 'd) gate_state" where
  "verifyOffChainSignature env r requestSignature a =
     (case parseSignedMsgAndSigFromRequest requestSignature of
        Inl err \<Rightarrow> (Inl err, a)
      | Inr (signedMsg, sigString) \<Rightarrow>
          let account = rq_Header r ''X-Gnfd-User-Address'';
              domain = rq_Header r ''X-Gnfd-App-Domain''
          in case client_VerifyOffChainSignature (gate_conn env a) (ge_auth env) account domain sigString signedMsg a of
               (Inl err, a) \<Rightarrow> (Inl err, a)
             | (Inr ok, a) \<Rightarrow> (Inr (if ok then ge_HexAddress env account else []), a))"

definition VerifySignature :: "('w, 'd) gate_env \<Rightarrow> http_request \<Rightarrow> ('w, 'd) gate_state \<Rightarrow> ((go_error + string) \<times> ('w, 'd) gate_state) go" where
  "VerifySignature env r a =
     (let requestSignature = rq_Header r ''Authorization'' in
      if has_prefix v1_prefix requestSignature
      then bind_go (verifySignatureV1 env r (drop (length v1_prefix) requestSignature)) (\<lambda>res. Returns (res, a))
      else if has_prefix v2_prefix requestSignature then Returns (Inr [], a)
      else if has_prefix off_chain_prefix requestSignature
      then Returns (verifyOffChainSignature env r (drop (length off_chain_prefix) requestSignature) a)
      else Returns (Inl ErrUnsupportedSignType, a))"

record RequestContext =
  rc_request :: http_request
  rc_bucketName :: string
  rc_objectName :: string
  rc_account :: string

text \<open>The context is returned with the error, then with the account of the path.\<close>

definition NewRequestContext :: "('w, 'd) gate_env \<Rightarrow> http_request \<Rightarrow> ('w, 'd) gate_state \<Rightarrow> (RequestContext \<times> go_error option \<times> ('w, 'd) gate_state) go" where
  "NewRequestContext env r a =
     bind_go (VerifySignature env r a) (\<lambda>(res, a).
       let reqCtx = \<lparr>rc_request = r, rc_bucketName = rq_Vars r ''bucket'', rc_objectName = rq_Vars r ''object'', rc_account = rq_Vars r ''account_id''\<rparr>
       in case res of
            Inl err \<Rightarrow> Returns (reqCtx, Some err, a)
          | Inr account \<Rightarrow> Returns (reqCtx\<lparr>rc_account := account\<rparr>, None, a))"

definition NeedVerifyAuthentication :: "RequestContext \<Rightarrow> bool" where
  "NeedVerifyAuthentication reqCtx = has_prefix v1_prefix (rq_Header (rc_request reqCtx) ''Authorization'')"

section \<open>Registering a key\<close>

definition requestNonceHandler :: "('w, 'd) gate_env \<Rightarrow> http_request \<Rightarrow> ('w, 'd) gate_state
    \<Rightarrow> ((go_error + int32 \<times> int32 \<times> string \<times> int64) \<times> ('w, 'd) gate_state) go" where
  "requestNonceHandler env r a =
     bind_go (NewRequestContext env r a) (\<lambda>(reqCtx, _, a).
       Returns (client_GetAuthNonce (gate_conn env a) (ge_auth env) (rq_Header r ''X-Gnfd-User-Address'') (rq_Header r ''X-Gnfd-App-Domain'') a))"

definition VerifyPersonalSignature :: "('w, 'd) gate_env \<Rightarrow> string \<Rightarrow> string \<Rightarrow> go_error + string" where
  "VerifyPersonalSignature env signedMsg sigString =
     (case ge_hexutil_Decode env sigString of
        Inl err \<Rightarrow> Inl err
      | Inr signature \<Rightarrow>
          let realMsgToSign = ge_TextHash env (string_bytes signedMsg) in
          if length signature \<noteq> 65 then Inl ErrSignature
          else
            let signature = (if signature ! 64 = 27 \<or> signature ! 64 = 28 then signature[64 := signature ! 64 - 27] else signature)
            in case RecoverAddr env realMsgToSign signature of Inl _ \<Rightarrow> Inl ErrSignature | Inr (addr, _) \<Rightarrow> Inr addr)"

definition verifyPersonalSignatureFromHeader :: "('w, 'd) gate_env \<Rightarrow> string \<Rightarrow> go_error + string" where
  "verifyPersonalSignatureFromHeader env requestSignature =
     (case parseSignedMsgAndSigFromRequest requestSignature of
        Inl err \<Rightarrow> Inl err
      | Inr (signedMsg, sigString) \<Rightarrow> VerifyPersonalSignature env signedMsg sigString)"

fun sps_loop :: "string \<Rightarrow> string \<Rightarrow> (string \<times> string \<times> string) list \<Rightarrow> bool \<Rightarrow> go_error + bool" where
  "sps_loop self expectedNonce [] found = Inr found"
| "sps_loop self expectedNonce ((spAddress, spName, spNonce) # sps) found =
     (if spAddress = self
      then if expectedNonce \<noteq> spNonce then Inl ErrSignedMsgNotMatchTemplate else sps_loop self expectedNonce sps True
      else sps_loop self expectedNonce sps found)"

definition verifySignedContent :: "('w, 'd) gate_env \<Rightarrow> string \<Rightarrow> string \<Rightarrow> string \<Rightarrow> string \<Rightarrow> string \<Rightarrow> go_error option go" where
  "verifySignedContent env signedContent expectedDomain expectedNonce expectedPublicKey expectedExpiryDate =
     (let m = ge_match env signedContent in
      if length m < 4 then Returns (Some ErrSignedMsgNotMatchTemplate)
      else if length m < 10 then Panics
      else case sps_loop (au_operator (ge_auth env)) expectedNonce (ge_sps env (m ! 9)) False of
        Inl err \<Rightarrow> Returns (Some err)
      | Inr found \<Rightarrow>
          Returns (if \<not> found then Some ErrSignedMsgNotMatchSPAddr
                   else if m ! 1 \<noteq> expectedDomain then Some ErrSignedMsgNotMatchTemplate
                   else if m ! 3 \<noteq> expectedPublicKey then Some ErrSignedMsgNotMatchTemplate
                   else if m ! 8 \<noteq> expectedExpiryDate then Some ErrSignedMsgNotMatchTemplate
                   else None))"

definition MaxExpiryAgeInSec :: int32 where "MaxExpiryAgeInSec = 3600 * 24 * 7"

definition expiry_ok :: "('w, 'd) gate_env \<Rightarrow> time \<Rightarrow> ('w, 'd) gate_state \<Rightarrow> bool" where
  "expiry_ok env expiryDate a =
     (let expiryAge = ge_int32_of_seconds env (until expiryDate (auth_now (ge_auth env) a))
      in \<not> (MaxExpiryAgeInSec < expiryAge \<or> expiryAge < 0))"

text \<open>The account that registers; a request with a verified signature of another kind has none.\<close>

definition registering_account :: "('w, 'd) gate_env \<Rightarrow> http_request \<Rightarrow> go_error option \<Rightarrow> go_error + string" where
  "registering_account env r err =
     (case err of
        None \<Rightarrow> Inr []
      | Some err \<Rightarrow>
          let requestSignature = rq_Header r ''Authorization'' in
          if has_prefix personal_prefix requestSignature
          then case verifyPersonalSignatureFromHeader env (drop (length personal_prefix) requestSignature) of
                 Inl _ \<Rightarrow> Inl err | Inr accAddress \<Rightarrow> Inr accAddress
          else Inl err)"

definition register_key :: "('w, 'd) gate_env \<Rightarrow> http_request \<Rightarrow> string \<Rightarrow> ('w, 'd) gate_state \<Rightarrow> ((go_error + bool) \<times> ('w, 'd) gate_state) go" where
  "register_key env r account a =
     (let domain = rq_Header r ''X-Gnfd-App-Domain'';
          origin = rq_Header r ''Origin'';
          nonce = rq_Header r ''X-Gnfd-App-Reg-Nonce'';
          userPublicKey = rq_Header r ''X-Gnfd-App-Reg-Public-Key'';
          expiryDateStr = rq_Header r ''X-Gnfd-App-Reg-Expiry-Date'';
          requestSignature = rq_Header r ''Authorization'' in
      if domain = [] \<or> domain \<noteq> origin then Returns (Inl ErrInvalidDomainHeader, a)
      else if userPublicKey = [] then Returns (Inl ErrInvalidPublicKeyHeader, a)
      else case client_GetAuthNonce (gate_conn env a) (ge_auth env) account domain a of
        (Inl err, a) \<Rightarrow> Returns (Inl err, a)
      | (Inr (currentNonce, nextNonce, _, _), a) \<Rightarrow>
          (case Atoi nonce of
             None \<Rightarrow> Returns (Inl ErrInvalidRegNonceHeader, a)
           | Some nonceInt \<Rightarrow>
               if nextNonce \<noteq> nonceInt then Returns (Inl ErrInvalidRegNonceHeader, a)
               else case ge_parse_date env expiryDateStr of
                 Inl _ \<Rightarrow> Returns (Inl ErrInvalidExpiryDateHeader, a)
               | Inr expiryDate \<Rightarrow>
                   if \<not> expiry_ok env expiryDate a then Returns (Inl ErrInvalidExpiryDateHeader, a)
                   else if length requestSignature < length personal_prefix then Panics
                   else case parseSignedMsgAndSigFromRequest (drop (length personal_prefix) requestSignature) of
                     Inl err \<Rightarrow> Returns (Inl err, a)
                   | Inr (signedMsg, _) \<Rightarrow>
                       bind_go (verifySignedContent env signedMsg domain nonce userPublicKey expiryDateStr) (\<lambda>err.
                         case err of
                           Some err \<Rightarrow> Returns (Inl err, a)
                         | None \<Rightarrow> Returns (client_UpdateUserPublicKey (gate_conn env a) (ge_auth env) account domain currentNonce
                                     (i32 nonceInt) userPublicKey (i64 (expiryDate div 1000000)) a))))"

definition updateUserPublicKeyHandler :: "('w, 'd) gate_env \<Rightarrow> http_request \<Rightarrow> ('w, 'd) gate_state \<Rightarrow> ((go_error + bool) \<times> ('w, 'd) gate_state) go" where
  "updateUserPublicKeyHandler env r a =
     bind_go (NewRequestContext env r a) (\<lambda>(reqCtx, err, a).
       case registering_account env r err of
         Inl err \<Rightarrow> Returns (Inl err, a)
       | Inr account \<Rightarrow> register_key env r account a)"

section \<open>Who the sender is\<close>

lemma has_prefix_drop: "has_prefix p s \<Longrightarrow> s = p @ drop (length p) s"
  by (auto simp: has_prefix_iff)

text \<open>
  C8. A request whose permissions are checked comes from the account it names: when a request with a signature of the
  first kind is accepted, its account is the address of the key that was recovered from the signature, and the
  signature verifies under that key for the content of the request.
\<close>

theorem v1_account_is_signer:
  assumes "NewRequestContext env r a = Returns (reqCtx, None, a')" "NeedVerifyAuthentication reqCtx"
  shows "\<exists>signature pk. ge_RecoverPubkey env (ge_GetMsgToSign env r) signature = Inr pk
    \<and> ge_VerifySecp env pk (ge_GetMsgToSign env r) (butlast signature) \<and> rc_account reqCtx = ge_Address env pk \<and> a' = a"
proof -
  obtain res a1 where v: "VerifySignature env r a = Returns (res, a1)"
    using assms(1) by (cases "VerifySignature env r a") (auto simp: NewRequestContext_def)
  then obtain account where acc: "res = Inr account" "rc_account reqCtx = account" "a' = a1" "rc_request reqCtx = r"
    using assms(1) by (cases res) (auto simp: NewRequestContext_def)
  then have p: "has_prefix v1_prefix (rq_Header r ''Authorization'')" using assms(2) by (simp add: NeedVerifyAuthentication_def)
  let ?s = "drop (length v1_prefix) (rq_Header r ''Authorization'')"
  have "verifySignatureV1 env r ?s = Returns (Inr account)" "a1 = a"
    using v acc p by (cases "verifySignatureV1 env r ?s"; auto simp: VerifySignature_def)+
  then obtain signature pk where "ge_RecoverPubkey env (ge_GetMsgToSign env r) signature = Inr pk" "account = ge_Address env pk"
    "ge_VerifySecp env pk (ge_GetMsgToSign env r) (butlast signature)"
    by (auto simp: verifySignatureV1_def Let_def RecoverAddr_def split: if_splits sum.splits prod.splits)
  with acc \<open>a1 = a\<close> show ?thesis by blast
qed

text \<open>
  A request of the second kind is accepted whatever it contains, without an account, and its permissions are not checked.
  Neither are those of a request with an off-chain signature.
\<close>

lemma v2_unverified:
  assumes "has_prefix v2_prefix (rq_Header r ''Authorization'')"
  shows "\<exists>reqCtx. NewRequestContext env r a = Returns (reqCtx, None, a) \<and> rc_account reqCtx = [] \<and> \<not> NeedVerifyAuthentication reqCtx
    \<and> rc_bucketName reqCtx = rq_Vars r ''bucket'' \<and> rc_objectName reqCtx = rq_Vars r ''object''"
proof -
  obtain rest where "rq_Header r ''Authorization'' = v2_prefix @ rest" using assms by (auto simp: has_prefix_iff)
  then show ?thesis
    by (simp add: NewRequestContext_def VerifySignature_def NeedVerifyAuthentication_def signaturePrefix_def SignAlgorithm_def Let_def)
qed

lemma off_chain_unchecked:
  assumes "has_prefix off_chain_prefix (rq_Header (rc_request reqCtx) ''Authorization'')"
  shows "\<not> NeedVerifyAuthentication reqCtx"
proof -
  obtain rest where "rq_Header (rc_request reqCtx) ''Authorization'' = off_chain_prefix @ rest" using assms by (auto simp: has_prefix_iff)
  then show ?thesis by (simp add: NeedVerifyAuthentication_def signaturePrefix_def SignAlgorithm_def SignAlgorithmEddsa_def)
qed

section \<open>Registration of keys\<close>

lemma personal_context:
  assumes "has_prefix personal_prefix (rq_Header r ''Authorization'')"
  shows "\<exists>reqCtx. NewRequestContext env r a = Returns (reqCtx, Some ErrUnsupportedSignType, a)"
proof -
  obtain rest where "rq_Header r ''Authorization'' = personal_prefix @ rest" using assms by (auto simp: has_prefix_iff)
  then show ?thesis
    by (simp add: NewRequestContext_def VerifySignature_def signaturePrefix_def SignAlgorithm_def SignAlgorithmEddsa_def Let_def)
qed

definition row_or_fresh :: "(string \<times> string \<rightharpoonup> OffChainAuthKey) \<Rightarrow> time \<Rightarrow> string \<Rightarrow> string \<Rightarrow> OffChainAuthKey" where
  "row_or_fresh rows now user domain = (case rows (user, domain) of None \<Rightarrow> fresh_key now user domain | Some k \<Rightarrow> k)"

lemma client_nonce:
  assumes "auth_keys (au_table env) rows" "account \<noteq> []" "domain \<noteq> []"
  shows "\<exists>a'. client_GetAuthNonce True env account domain a =
      (Inr (let k = row_or_fresh (rows (am_db a)) (auth_now env a) account domain
            in (ak_CurrentNonce k, ak_NextNonce k, ak_CurrentPublicKey k, i64 (ak_ExpiryDate k div 1000000))), a')
    \<and> rows (am_db a') = (rows (am_db a))((account, domain) \<mapsto> row_or_fresh (rows (am_db a)) (auth_now env a) account domain)
    \<and> am_world a' = am_world a"
  using auth_keys.GetAuthKey_row [OF assms, of "auth_now env a" "am_db a"]
  by (cases "rows (am_db a) (account, domain)")
    (auto simp: client_GetAuthNonce_def GetAuthNonce_def row_or_fresh_def Let_def fun_upd_idem split: prod.splits)

lemma client_nonce_empty: "fst (client_GetAuthNonce conn env account domain a) = Inr x \<Longrightarrow> account \<noteq> [] \<and> domain \<noteq> [] \<and> conn"
  by (auto simp: client_GetAuthNonce_def GetAuthNonce_def GetAuthKey_def over_rpc_def MakeGfSpError_def DefaultInnerCode_def i32_def split: if_splits)

lemma client_update:
  assumes "client_UpdateUserPublicKey conn env account domain old new pk expiry a = (Inr True, a')" "auth_keys (au_table env) rows"
    "account \<noteq> []" "domain \<noteq> []"
  shows "\<exists>k. rows (am_db a) (account, domain) = Some k \<and> ak_CurrentNonce k = old \<and> am_world a' = am_world a
    \<and> rows (am_db a') = (rows (am_db a))((account, domain) \<mapsto> merge_key k (zero_auth_key\<lparr>ak_CurrentPublicKey := pk, ak_CurrentNonce := new,
            ak_NextNonce := i32 (new + 1), ak_ExpiryDate := UnixMilli expiry, ak_ModifiedTime := auth_now env a\<rparr>))"
proof -
  obtain err d where u: "UpdateAuthKey (au_table env) (auth_now env a) account domain old new pk (UnixMilli expiry) (am_db a) = (err, d)" by fastforce
  have "err = None" "a' = a\<lparr>am_db := d\<rparr>"
    using assms(1) u by (auto simp: client_UpdateUserPublicKey_def UpdateUserPublicKey_def over_rpc_def split: if_splits option.splits)
  then show ?thesis using auth_keys.UpdateAuthKey_row [OF assms(2,3,4) u [unfolded \<open>err = None\<close>]] by auto
qed


text \<open>What a successful registration has checked and stored.\<close>

definition registered_row :: "string \<Rightarrow> int \<Rightarrow> time \<Rightarrow> time \<Rightarrow> OffChainAuthKey \<Rightarrow> OffChainAuthKey" where
  "registered_row pk nonce expiry now k = merge_key k (zero_auth_key\<lparr>ak_CurrentPublicKey := pk, ak_CurrentNonce := i32 nonce,
     ak_NextNonce := i32 (i32 nonce + 1), ak_ExpiryDate := UnixMilli (i64 (expiry div 1000000)), ak_ModifiedTime := now\<rparr>)"

lemma registered_row_fields:
  "pk \<noteq> [] \<Longrightarrow> ak_CurrentPublicKey (registered_row pk nonce expiry now k) = pk"
  "ak_NextNonce (registered_row pk nonce expiry now k) = (if i32 (i32 nonce + 1) = 0 then ak_NextNonce k else i32 (i32 nonce + 1))"
  "UnixMilli (i64 (expiry div 1000000)) \<noteq> zero_time
     \<Longrightarrow> ak_ExpiryDate (registered_row pk nonce expiry now k) = UnixMilli (i64 (expiry div 1000000))"
  by (simp_all add: registered_row_def merge_key_def)

lemma register_key_success:
  assumes "register_key env r account a = Returns (Inr True, a')" "auth_keys (au_table (ge_auth env)) rows"
  shows "\<exists>k nonce expiry signedMsg sig.
     let domain = rq_Header r ''X-Gnfd-App-Domain''; pk = rq_Header r ''X-Gnfd-App-Reg-Public-Key'' in
     account \<noteq> [] \<and> domain \<noteq> [] \<and> domain = rq_Header r ''Origin'' \<and> pk \<noteq> [] \<and> gate_conn env a
   \<and> k = row_or_fresh (rows (am_db a)) (auth_now (ge_auth env) a) account domain
   \<and> Atoi (rq_Header r ''X-Gnfd-App-Reg-Nonce'') = Some nonce \<and> ak_NextNonce k = nonce
   \<and> ge_parse_date env (rq_Header r ''X-Gnfd-App-Reg-Expiry-Date'') = Inr expiry \<and> expiry_ok env expiry a
   \<and> parseSignedMsgAndSigFromRequest (drop (length personal_prefix) (rq_Header r ''Authorization'')) = Inr (signedMsg, sig)
   \<and> verifySignedContent env signedMsg domain (rq_Header r ''X-Gnfd-App-Reg-Nonce'') pk (rq_Header r ''X-Gnfd-App-Reg-Expiry-Date'') = Returns None
   \<and> rows (am_db a') (account, domain) = Some (registered_row pk nonce expiry (auth_now (ge_auth env) a) k)"
proof -
  define domain where d: "domain = rq_Header r ''X-Gnfd-App-Domain''"
  define pk where pk: "pk = rq_Header r ''X-Gnfd-App-Reg-Public-Key''"
  define k where k: "k = row_or_fresh (rows (am_db a)) (auth_now (ge_auth env) a) account domain"
  note run = assms(1) [unfolded register_key_def Let_def]
  have pre: "domain \<noteq> []" "domain = rq_Header r ''Origin''" "pk \<noteq> []" using run by (auto simp: d pk split: if_splits)
  obtain res a1 where g: "client_GetAuthNonce (gate_conn env a) (ge_auth env) account domain a = (res, a1)" by fastforce
  then obtain x where x: "res = Inr x" using run pre by (cases res) (auto simp: d pk split: if_splits)
  have ne: "account \<noteq> []" "gate_conn env a" using client_nonce_empty [of "gate_conn env a" "ge_auth env" account domain a x] g x by auto
  have a1: "x = (ak_CurrentNonce k, ak_NextNonce k, ak_CurrentPublicKey k, i64 (ak_ExpiryDate k div 1000000))"
    "rows (am_db a1) = (rows (am_db a))((account, domain) \<mapsto> k)" "am_world a1 = am_world a"
    using client_nonce [OF assms(2) ne(1) pre(1), of a] g x ne(2) by (auto simp: k Let_def)
  then have now: "auth_now (ge_auth env) a1 = auth_now (ge_auth env) a" "gate_conn env a1 = gate_conn env a" "expiry_ok env e a1 = expiry_ok env e a" for e
    by (simp_all add: auth_now_def gate_conn_def expiry_ok_def)
  obtain nonce expiry signedMsg sig where c: "Atoi (rq_Header r ''X-Gnfd-App-Reg-Nonce'') = Some nonce" "ak_NextNonce k = nonce"
    "ge_parse_date env (rq_Header r ''X-Gnfd-App-Reg-Expiry-Date'') = Inr expiry" "expiry_ok env expiry a"
    "parseSignedMsgAndSigFromRequest (drop (length personal_prefix) (rq_Header r ''Authorization'')) = Inr (signedMsg, sig)"
    "verifySignedContent env signedMsg domain (rq_Header r ''X-Gnfd-App-Reg-Nonce'') pk (rq_Header r ''X-Gnfd-App-Reg-Expiry-Date'') = Returns None"
    "client_UpdateUserPublicKey (gate_conn env a1) (ge_auth env) account domain (ak_CurrentNonce k) (i32 nonce) pk (i64 (expiry div 1000000)) a1 = (Inr True, a')"
    using run g x a1(1) pre now
    by (auto simp: d [symmetric] pk [symmetric] bind_go_Returns_iff split: if_splits option.splits sum.splits)
  have "rows (am_db a') (account, domain) = Some (registered_row pk nonce expiry (auth_now (ge_auth env) a) k)"
    using client_update [OF c(7) assms(2) ne(1) pre(1)] a1(2) now by (auto simp: registered_row_def)
  then show ?thesis using pre ne c k by (auto simp: d pk Let_def)
qed

lemma update_handler_success:
  assumes "updateUserPublicKeyHandler env r a = Returns (Inr True, a')" "auth_keys (au_table (ge_auth env)) rows"
  shows "\<exists>account. has_prefix personal_prefix (rq_Header r ''Authorization'')
    \<and> verifyPersonalSignatureFromHeader env (drop (length personal_prefix) (rq_Header r ''Authorization'')) = Inr account
    \<and> register_key env r account a = Returns (Inr True, a')"
proof -
  obtain reqCtx err a1 where ctx: "NewRequestContext env r a = Returns (reqCtx, err, a1)"
    using assms(1) by (cases "NewRequestContext env r a") (auto simp: updateUserPublicKeyHandler_def)
  then obtain account where acc: "registering_account env r err = Inr account" "register_key env r account a1 = Returns (Inr True, a')"
    using assms(1) by (cases "registering_account env r err") (auto simp: updateUserPublicKeyHandler_def)
  have "account \<noteq> []" using register_key_success [OF acc(2) assms(2)] by (auto simp: Let_def)
  then have p: "has_prefix personal_prefix (rq_Header r ''Authorization'')"
    "verifyPersonalSignatureFromHeader env (drop (length personal_prefix) (rq_Header r ''Authorization'')) = Inr account"
    using acc(1) by (auto simp: registering_account_def Let_def split: option.splits if_splits sum.splits)
  have "a1 = a" using personal_context [OF p(1), of env a] ctx by auto
  with p acc(2) show ?thesis by blast
qed


section \<open>Nonces only grow\<close>

text \<open>The nonce that the next registration of an account and a domain has to name.\<close>

definition next_nonce :: "(string \<times> string \<rightharpoonup> OffChainAuthKey) \<Rightarrow> string \<times> string \<Rightarrow> int32" where
  "next_nonce R k = (case R k of None \<Rightarrow> 1 | Some row \<Rightarrow> ak_NextNonce row)"

definition bump :: "int32 \<Rightarrow> int32" where
  "bump n = (if i32 (i32 n + 1) = 0 then n else i32 (i32 n + 1))"

lemma next_nonce_row: "ak_NextNonce (row_or_fresh R now user domain) = next_nonce R (user, domain)"
  by (simp add: next_nonce_def row_or_fresh_def fresh_key_def split: option.splits)

lemma next_nonce_upd: "next_nonce (R(k \<mapsto> row)) = (next_nonce R)(k := ak_NextNonce row)"
  by (rule ext) (simp add: next_nonce_def)

lemma next_nonce_fresh: "R (user, domain) = None \<Longrightarrow> next_nonce (R((user, domain) \<mapsto> fresh_key now user domain)) = next_nonce R"
  unfolding next_nonce_upd by (rule ext) (simp add: next_nonce_def fresh_key_def)

lemma bump_small: "0 \<le> n \<Longrightarrow> n < 2 ^ 31 - 1 \<Longrightarrow> bump n = n + 1"
  by (simp add: bump_def i32_id in_i32_def)

lemma registered_row_nonce: "ak_NextNonce (registered_row pk (ak_NextNonce k) expiry now k) = bump (ak_NextNonce k)"
  by (simp add: registered_row_fields bump_def)

lemma GetAuthNonce_keeps:
  assumes "auth_keys (au_table env) rows" "GetAuthNonce env account domain a = (res, a')"
  shows "next_nonce (rows (am_db a')) = next_nonce (rows (am_db a))" "am_world a' = am_world a"
proof -
  have "next_nonce (rows (am_db a')) = next_nonce (rows (am_db a)) \<and> am_world a' = am_world a"
  proof (cases "account = [] \<or> domain = []")
    case True
    then show ?thesis using assms(2) by (auto simp: GetAuthNonce_def GetAuthKey_def)
  next
    case False
    then obtain d' where "GetAuthNonce env account domain a = (Inr (case rows (am_db a) (account, domain) of
          None \<Rightarrow> fresh_key (auth_now env a) account domain | Some r \<Rightarrow> r), a\<lparr>am_db := d'\<rparr>)"
      "rows d' = (case rows (am_db a) (account, domain) of
         None \<Rightarrow> (rows (am_db a))((account, domain) \<mapsto> fresh_key (auth_now env a) account domain) | Some r \<Rightarrow> rows (am_db a))"
      using auth_keys.GetAuthKey_row [OF assms(1), of account domain "auth_now env a" "am_db a"] by (auto simp: GetAuthNonce_def)
    then show ?thesis using assms(2) by (cases "rows (am_db a) (account, domain)") (auto simp: next_nonce_fresh)
  qed
  then show "next_nonce (rows (am_db a')) = next_nonce (rows (am_db a))" "am_world a' = am_world a" by simp_all
qed

lemma client_GetAuthNonce_keeps:
  assumes "auth_keys (au_table env) rows" "client_GetAuthNonce conn env account domain a = (res, a')"
  shows "next_nonce (rows (am_db a')) = next_nonce (rows (am_db a))" "am_world a' = am_world a"
  using assms(2) GetAuthNonce_keeps [OF assms(1)]
  by (auto simp: client_GetAuthNonce_def split: if_splits prod.splits sum.splits)

lemma NewRequestContext_keeps:
  assumes "auth_keys (au_table (ge_auth env)) rows" "NewRequestContext env r a = Returns (reqCtx, err, a')"
  shows "next_nonce (rows (am_db a')) = next_nonce (rows (am_db a))"
proof -
  obtain res where res: "VerifySignature env r a = Returns (res, a')"
    using assms(2) by (cases "VerifySignature env r a") (auto simp: NewRequestContext_def Let_def split: sum.splits)
  have v: "VerifyOffChainSignature (ge_auth env) account domain sig msg a = (x, a2) \<Longrightarrow> next_nonce (rows (am_db a2)) = next_nonce (rows (am_db a))"
    for account domain sig msg x a2
    using GetAuthNonce_keeps [OF assms(1)]
    by (auto simp: VerifyOffChainSignature_def Let_def split: sum.splits prod.splits if_splits option.splits)
  then have o: "verifyOffChainSignature env r sig a = (x, a2) \<Longrightarrow> next_nonce (rows (am_db a2)) = next_nonce (rows (am_db a))" for sig x a2
    by (auto simp: verifyOffChainSignature_def client_VerifyOffChainSignature_def Let_def split: sum.splits prod.splits if_splits)
  show ?thesis using res o by (auto simp: VerifySignature_def bind_go_Returns_iff Let_def split: if_splits)
qed

lemma client_update_keeps:
  assumes "auth_keys (au_table env) rows" "client_UpdateUserPublicKey conn env account domain old (i32 new) pk expiry a = (res, a')"
    "account \<noteq> []" "domain \<noteq> []" "new = next_nonce (rows (am_db a)) (account, domain)"
  shows "next_nonce (rows (am_db a')) = next_nonce (rows (am_db a))
    \<or> next_nonce (rows (am_db a')) = (next_nonce (rows (am_db a)))((account, domain) := bump new)"
proof -
  obtain err d where u: "UpdateAuthKey (au_table env) (auth_now env a) account domain old (i32 new) pk (UnixMilli expiry) (am_db a) = (err, d)" by fastforce
  then have a': "a' = a \<or> a' = a\<lparr>am_db := d\<rparr>"
    using assms(2) by (auto simp: client_UpdateUserPublicKey_def UpdateUserPublicKey_def split: if_splits option.splits)
  show ?thesis
  proof (cases err)
    case None
    then obtain k where k: "rows (am_db a) (account, domain) = Some k"
      "rows d = (rows (am_db a))((account, domain) \<mapsto> merge_key k (zero_auth_key\<lparr>ak_CurrentPublicKey := pk, ak_CurrentNonce := i32 new,
            ak_NextNonce := i32 (i32 new + 1), ak_ExpiryDate := UnixMilli expiry, ak_ModifiedTime := auth_now env a\<rparr>))"
      using auth_keys.UpdateAuthKey_row [OF assms(1,3,4)] u by blast
    then have "next_nonce (rows d) = (next_nonce (rows (am_db a)))((account, domain) := bump new)"
      using assms(5) unfolding k(2) next_nonce_upd by (simp add: next_nonce_def merge_key_def bump_def)
    then show ?thesis using a' by auto
  next
    case (Some e)
    then have "d = am_db a" using u auth_keys.UpdateAuthKey_fails [OF assms(1,3,4)] by blast
    then show ?thesis using a' by auto
  qed
qed

text \<open>The requests that reach the key table, and the passing of time outside of it.\<close>

datatype 'w gate_call = AskNonce http_request | RegisterKey http_request | AnyRequest http_request | Elapse 'w

definition do_call :: "('w, 'd) gate_env \<Rightarrow> 'w gate_call \<Rightarrow> ('w, 'd) gate_state \<Rightarrow> ('w, 'd) gate_state go" where
  "do_call env c a =
     (case c of
        AskNonce r \<Rightarrow> bind_go (requestNonceHandler env r a) (\<lambda>(_, a). Returns a)
      | RegisterKey r \<Rightarrow> bind_go (updateUserPublicKeyHandler env r a) (\<lambda>(_, a). Returns a)
      | AnyRequest r \<Rightarrow> bind_go (NewRequestContext env r a) (\<lambda>(_, _, a). Returns a)
      | Elapse w \<Rightarrow> Returns (a\<lparr>am_world := w\<rparr>))"

fun gate_calls :: "('w, 'd) gate_env \<Rightarrow> 'w gate_call list \<Rightarrow> ('w, 'd) gate_state \<Rightarrow> ('w, 'd) gate_state go" where
  "gate_calls env [] a = Returns a"
| "gate_calls env (c # cs) a = bind_go (do_call env c a) (gate_calls env cs)"

lemma register_key_keeps:
  assumes "auth_keys (au_table (ge_auth env)) rows" "register_key env r account a = Returns (res, a')"
  shows "next_nonce (rows (am_db a')) k = next_nonce (rows (am_db a)) k \<or> next_nonce (rows (am_db a')) k = bump (next_nonce (rows (am_db a)) k)"
proof -
  define domain where d: "domain = rq_Header r ''X-Gnfd-App-Domain''"
  obtain res1 a1 where g: "client_GetAuthNonce (gate_conn env a) (ge_auth env) account domain a = (res1, a1)" by fastforce
  note keep = client_GetAuthNonce_keeps(1) [OF assms(1) g]
  note run = assms(2) [unfolded register_key_def Let_def, folded d, unfolded g]
  show ?thesis
  proof (cases "a' = a \<or> a' = a1")
    case False
    then obtain x where x: "res1 = Inr x" using run by (cases res1) (auto split: if_split_asm)
    obtain cur nonce pk expiry where y: "x = (cur, nonce, pk, expiry)" by (metis prod_cases4)
    have ne: "account \<noteq> []" "domain \<noteq> []" "gate_conn env a" using client_nonce_empty [of "gate_conn env a" "ge_auth env" account domain a x] g x by auto
    have "nonce = next_nonce (rows (am_db a)) (account, domain)"
      using client_nonce [OF assms(1) ne(1,2), of a] g x y ne(3) by (auto simp: Let_def next_nonce_row)
    then have n: "nonce = next_nonce (rows (am_db a1)) (account, domain)" using keep by simp
    have "\<exists>conn old pk expiry. client_UpdateUserPublicKey conn (ge_auth env) account domain old (i32 nonce) pk expiry a1 = (res, a')"
      using run False x y by (auto simp: bind_go_Returns_iff split: if_split_asm option.split_asm sum.split_asm prod.split_asm)
    then obtain conn old pk' expiry' where "client_UpdateUserPublicKey conn (ge_auth env) account domain old (i32 nonce) pk' expiry' a1 = (res, a')" by blast
    from client_update_keeps [OF assms(1) this ne(1,2) n] show ?thesis using keep n by (cases "k = (account, domain)") auto
  qed (use keep in auto)
qed

lemma do_call_nonce:
  assumes "auth_keys (au_table (ge_auth env)) rows" "do_call env c a = Returns a'"
  shows "next_nonce (rows (am_db a')) k = next_nonce (rows (am_db a)) k \<or> next_nonce (rows (am_db a')) k = bump (next_nonce (rows (am_db a)) k)"
proof (cases c)
  case (AskNonce r)
  then obtain reqCtx err a1 res where c: "NewRequestContext env r a = Returns (reqCtx, err, a1)"
    "client_GetAuthNonce (gate_conn env a1) (ge_auth env) (rq_Header r ''X-Gnfd-User-Address'') (rq_Header r ''X-Gnfd-App-Domain'') a1 = (res, a')"
    using assms(2) by (auto simp: do_call_def requestNonceHandler_def bind_go_Returns_iff)
  then show ?thesis using NewRequestContext_keeps [OF assms(1) c(1)] client_GetAuthNonce_keeps(1) [OF assms(1) c(2)] by simp
next
  case (RegisterKey r)
  then obtain res where h: "updateUserPublicKeyHandler env r a = Returns (res, a')" using assms(2) by (auto simp: do_call_def bind_go_Returns_iff)
  then obtain reqCtx err a1 where c: "NewRequestContext env r a = Returns (reqCtx, err, a1)"
    by (cases "NewRequestContext env r a") (auto simp: updateUserPublicKeyHandler_def)
  show ?thesis
  proof (cases "registering_account env r err")
    case (Inl e)
    then show ?thesis using h c NewRequestContext_keeps [OF assms(1) c] by (simp add: updateUserPublicKeyHandler_def)
  next
    case (Inr account)
    then have "register_key env r account a1 = Returns (res, a')" using h c by (simp add: updateUserPublicKeyHandler_def)
    from register_key_keeps [OF assms(1) this, of k] show ?thesis using NewRequestContext_keeps [OF assms(1) c] by simp
  qed
next
  case (AnyRequest r)
  then show ?thesis using assms(2) NewRequestContext_keeps [OF assms(1)] by (auto simp: do_call_def bind_go_Returns_iff)
qed (use assms(2) in \<open>auto simp: do_call_def\<close>)

lemma gate_calls_nonce:
  assumes "auth_keys (au_table (ge_auth env)) rows" "gate_calls env cs a = Returns a'"
    "1 \<le> next_nonce (rows (am_db a)) k" "next_nonce (rows (am_db a)) k + int (length cs) < 2 ^ 31"
  shows "next_nonce (rows (am_db a)) k \<le> next_nonce (rows (am_db a')) k
    \<and> next_nonce (rows (am_db a')) k \<le> next_nonce (rows (am_db a)) k + int (length cs)"
  using assms(2-)
proof (induction cs arbitrary: a)
  case (Cons c cs)
  obtain a1 where a1: "do_call env c a = Returns a1" "gate_calls env cs a1 = Returns a'" using Cons.prems(1) by (auto simp: bind_go_Returns_iff)
  have "bump (next_nonce (rows (am_db a)) k) = next_nonce (rows (am_db a)) k + 1" using Cons.prems(2,3) by (intro bump_small) auto
  then have "next_nonce (rows (am_db a1)) k \<in> {next_nonce (rows (am_db a)) k, next_nonce (rows (am_db a)) k + 1}"
    using do_call_nonce [OF assms(1) a1(1), of k] by auto
  then show ?case using Cons.IH [OF a1(2)] Cons.prems(2,3) by auto
qed simp

lemma stale_registration_refused:
  assumes "auth_keys (au_table (ge_auth env)) rows" "gate_conn env a" "has_prefix personal_prefix (rq_Header r ''Authorization'')"
    "verifyPersonalSignatureFromHeader env (drop (length personal_prefix) (rq_Header r ''Authorization'')) = Inr account"
    "account \<noteq> []" "rq_Header r ''X-Gnfd-App-Domain'' \<noteq> []" "rq_Header r ''X-Gnfd-App-Domain'' = rq_Header r ''Origin''"
    "rq_Header r ''X-Gnfd-App-Reg-Public-Key'' \<noteq> []" "Atoi (rq_Header r ''X-Gnfd-App-Reg-Nonce'') = Some nonce"
    "nonce \<noteq> next_nonce (rows (am_db a)) (account, rq_Header r ''X-Gnfd-App-Domain'')"
  shows "\<exists>a'. updateUserPublicKeyHandler env r a = Returns (Inl ErrInvalidRegNonceHeader, a')"
proof -
  let ?d = "rq_Header r ''X-Gnfd-App-Domain''"
  define k where "k = row_or_fresh (rows (am_db a)) (auth_now (ge_auth env) a) account ?d"
  have k: "ak_NextNonce k \<noteq> nonce" using assms(10) by (simp add: k_def next_nonce_row)
  obtain a' where "client_GetAuthNonce True (ge_auth env) account ?d a =
      (Inr (ak_CurrentNonce k, ak_NextNonce k, ak_CurrentPublicKey k, i64 (ak_ExpiryDate k div 1000000)), a')"
    using client_nonce [OF assms(1,5,6), of a] by (auto simp: Let_def k_def)
  then have "register_key env r account a = Returns (Inl ErrInvalidRegNonceHeader, a')"
    using assms(2,6-9) k by (simp add: register_key_def Let_def)
  moreover obtain reqCtx where "NewRequestContext env r a = Returns (reqCtx, Some ErrUnsupportedSignType, a)"
    using personal_context [OF assms(3)] by blast
  ultimately show ?thesis using assms(3,4) by (auto simp: updateUserPublicKeyHandler_def registering_account_def Let_def)
qed

text \<open>
  C21. A registration cannot be replayed: starting from an empty key table, after any requests, once a registration has succeeded, the
  same request is refused for its nonce at any later time, after whatever requests for nonces, registrations and requests
  with other signatures came in between. There are fewer than 2^31 of them in all, so that the nonce of 32 bits does not wrap,
  none of them panics, and the authenticator can be reached.
\<close>

theorem registration_not_replayed:
  assumes "auth_keys (au_table (ge_auth env)) rows" "rows (am_db a0) = Map.empty" "gate_calls env before a0 = Returns a"
    "updateUserPublicKeyHandler env r a = Returns (Inr True, a1)" "gate_calls env later a1 = Returns a2"
    "int (length before + length later) + 2 < 2 ^ 31" "gate_conn env a2"
  shows "\<exists>a3. updateUserPublicKeyHandler env r a2 = Returns (Inl ErrInvalidRegNonceHeader, a3)"
proof -
  obtain account where p: "has_prefix personal_prefix (rq_Header r ''Authorization'')"
    "verifyPersonalSignatureFromHeader env (drop (length personal_prefix) (rq_Header r ''Authorization'')) = Inr account"
    "register_key env r account a = Returns (Inr True, a1)" using update_handler_success [OF assms(4,1)] by blast
  let ?d = "rq_Header r ''X-Gnfd-App-Domain''"
  let ?n = "\<lambda>a. next_nonce (rows (am_db a)) (account, ?d)"
  from register_key_success [OF p(3) assms(1)] obtain k nonce where s: "account \<noteq> []" "?d \<noteq> []" "?d = rq_Header r ''Origin''"
    "rq_Header r ''X-Gnfd-App-Reg-Public-Key'' \<noteq> []" "k = row_or_fresh (rows (am_db a)) (auth_now (ge_auth env) a) account ?d"
    "Atoi (rq_Header r ''X-Gnfd-App-Reg-Nonce'') = Some nonce" "ak_NextNonce k = nonce"
    "\<exists>pk expiry now. rows (am_db a1) (account, ?d) = Some (registered_row pk nonce expiry now k)"
    unfolding Let_def by blast
  have start: "?n a0 = 1" using assms(2) by (simp add: next_nonce_def)
  then have n: "1 \<le> ?n a" "?n a \<le> 1 + int (length before)"
    using gate_calls_nonce [OF assms(1,3), of "(account, ?d)"] assms(6) by auto
  have nonce: "nonce = ?n a" using s(5,7) by (simp add: next_nonce_row)
  have "?n a1 = bump nonce" using s(7,8) registered_row_nonce by (auto simp: next_nonce_def)
  then have n1: "?n a1 = nonce + 1" using bump_small [of nonce] nonce n assms(6) by simp
  then have "nonce < ?n a2" using gate_calls_nonce [OF assms(1,5), of "(account, ?d)"] nonce n assms(6) by auto
  then show ?thesis using stale_registration_refused [OF assms(1,7) p(1,2) s(1-4,6)] by auto
qed

section \<open>A registration and a request\<close>

definition demo_gate_env :: "(nat, OffChainAuthKey list) gate_env" where
  "demo_gate_env = \<lparr>ge_auth = demo_auth_env, ge_auth_conn = (\<lambda>w. True), ge_GetMsgToSign = (\<lambda>r. [1]),
     ge_RecoverPubkey = (\<lambda>m sig. Inr [2]), ge_Address = (\<lambda>pk. ''alice''), ge_VerifySecp = (\<lambda>pk m sig. True), ge_HexAddress = (\<lambda>s. s),
     ge_TextHash = (\<lambda>m. m), ge_hexutil_Decode = (\<lambda>s. Inr (replicate 65 0)), ge_parse_date = (\<lambda>s. Inr 1000),
     ge_int32_of_seconds = (\<lambda>d. d div 1000000000), ge_match = (\<lambda>m. [[], ''app'', [], ''ab'', [], [], [], [], ''later'', ''providers'']),
     ge_sps = (\<lambda>s. [(''self'', ''name'', ''2'')])\<rparr>"

definition demo_registration :: http_request where
  "demo_registration = \<lparr>rq_Header = (\<lambda>h.
       if h = ''Authorization'' then personal_prefix @ ''SignedMsg=m,Signature=s''
       else if h = ''X-Gnfd-App-Domain'' \<or> h = ''Origin'' then ''app''
       else if h = ''X-Gnfd-App-Reg-Nonce'' then ''2''
       else if h = ''X-Gnfd-App-Reg-Public-Key'' then ''ab''
       else if h = ''X-Gnfd-App-Reg-Expiry-Date'' then ''later'' else []),
     rq_Vars = (\<lambda>v. []), rq_Query = (\<lambda>q. []), rq_Body = []\<rparr>"

definition demo_request :: http_request where
  "demo_request = \<lparr>rq_Header = (\<lambda>h. if h = ''Authorization'' then v1_prefix @ ''SignedMsg=01,Signature=0b'' else []),
     rq_Vars = (\<lambda>v. []), rq_Query = (\<lambda>q. []), rq_Body = []\<rparr>"

lemma demo_gate_keys: "auth_keys (au_table (ge_auth demo_gate_env)) list_auth_rows"
  using list_keys.auth_keys_axioms by (simp add: demo_gate_env_def demo_auth_env_def)


theorem v1_account_is_signer_witness:
  "\<exists>reqCtx a'. NewRequestContext demo_gate_env demo_request demo_auth = Returns (reqCtx, None, a') \<and> rc_account reqCtx = ''alice''"
proof -
  have "(case NewRequestContext demo_gate_env demo_request demo_auth of Returns (c, None, _) \<Rightarrow> NeedVerifyAuthentication c | _ \<Rightarrow> False)" by code_simp
  then obtain c a' where c: "NewRequestContext demo_gate_env demo_request demo_auth = Returns (c, None, a')" "NeedVerifyAuthentication c"
    by (auto split: go.splits option.splits)
  from v1_account_is_signer [OF c] c(1) show ?thesis by (auto simp: demo_gate_env_def)
qed


definition first_registration :: http_request where
  "first_registration = demo_registration\<lparr>rq_Header := (rq_Header demo_registration)(''X-Gnfd-App-Reg-Nonce'' := ''1'')\<rparr>"

definition first_env :: "(nat, OffChainAuthKey list) gate_env" where
  "first_env = demo_gate_env\<lparr>ge_sps := (\<lambda>s. [(''self'', ''name'', ''1'')])\<rparr>"

theorem registration_not_replayed_witness:
  "\<exists>a1 a2 a3. updateUserPublicKeyHandler first_env first_registration \<lparr>am_db = [], am_world = 0\<rparr> = Returns (Inr True, a1)
     \<and> gate_calls first_env [AskNonce first_registration, Elapse 7, RegisterKey first_registration] a1 = Returns a2
     \<and> updateUserPublicKeyHandler first_env first_registration a2 = Returns (Inl ErrInvalidRegNonceHeader, a3)"
proof -
  let ?a = "\<lparr>am_db = [], am_world = 0\<rparr> :: (nat, OffChainAuthKey list) gate_state"
  let ?later = "[AskNonce first_registration, Elapse 7, RegisterKey first_registration]"
  have "(case updateUserPublicKeyHandler first_env first_registration ?a of
      Returns (res, a1) \<Rightarrow> res = Inr True \<and> gate_calls first_env ?later a1 \<noteq> Panics | _ \<Rightarrow> False)" by code_simp
  then obtain a1 where run1: "updateUserPublicKeyHandler first_env first_registration ?a = Returns (Inr True, a1)" "gate_calls first_env ?later a1 \<noteq> Panics"
    by (auto split: go.splits)
  then obtain a2 where run: "updateUserPublicKeyHandler first_env first_registration ?a = Returns (Inr True, a1)" "gate_calls first_env ?later a1 = Returns a2"
    by (cases "gate_calls first_env ?later a1") auto
  have keys: "auth_keys (au_table (ge_auth first_env)) list_auth_rows" using demo_gate_keys by (simp add: first_env_def)
  have "gate_conn first_env a2" by (simp add: gate_conn_def first_env_def demo_gate_env_def)
  with registration_not_replayed [OF keys _ _ run, of ?a "[]"] run show ?thesis by (auto simp: fun_eq_iff)
qed

end
