(* ===== verification/GateObject.thy ===== *)
theory GateObject
  imports GateRequest Downloader
begin

text \<open>
  The object requests of the gateway: \<open>modular/gater/object_handler.go\<close>, and the number formats of
  \<open>util/string.go\<close> they use.

  A handler returns the error that the deferred function turns into an error response, if any, what was written
  before, and the new state. The clients of the other modules are arguments that change the outside world. A slice
  has no capacity beyond its length.
\<close>

section \<open>Numbers in requests\<close>

datatype string_error = ParseFailed | ErrIntegerOverflow

definition StringToUint64 :: "string \<Rightarrow> string_error + uint64" where
  "StringToUint64 str = (case ParseUint 64 str of Inl _ \<Rightarrow> Inl ParseFailed | Inr n \<Rightarrow> Inr (of_nat n))"

definition StringToInt64 :: "string \<Rightarrow> string_error + int64" where
  "StringToInt64 str = (case Atoi str of None \<Rightarrow> Inl ParseFailed | Some n \<Rightarrow> Inr n)"

definition StringToUint32 :: "string \<Rightarrow> string_error + uint32" where
  "StringToUint32 str =
     (case StringToUint64 str of
        Inl err \<Rightarrow> Inl err
      | Inr n \<Rightarrow> if unat n > 2 ^ 32 - 1 then Inl ErrIntegerOverflow else Inr (ucast n))"

definition StringToInt32 :: "string \<Rightarrow> string_error + int32" where
  "StringToInt32 str =
     (case StringToInt64 str of
        Inl err \<Rightarrow> Inl err
      | Inr n \<Rightarrow> if n > MaxInt32 then Inl ErrIntegerOverflow else Inr (i32 n))"

definition StringToBool :: "string \<Rightarrow> string_error + bool" where
  "StringToBool str =
     (if str \<in> {''1'', ''t'', ''T'', ''true'', ''TRUE'', ''True''} then Inr True
      else if str \<in> {''0'', ''f'', ''F'', ''false'', ''FALSE'', ''False''} then Inr False
      else Inl ParseFailed)"

definition Uint64ToString :: "uint64 \<Rightarrow> string" where
  "Uint64ToString u = show_nat (unat u)"

section \<open>The environment\<close>

abbreviation "ErrInvalidHeader \<equiv> gate_error 8"
abbreviation "ErrInvalidRange \<equiv> gate_error 11"
abbreviation "ErrInvalidPayloadSize \<equiv> gate_error 15"
abbreviation "ErrInvalidComplete \<equiv> gate_error 26"
abbreviation "ErrInvalidOffset \<equiv> gate_error 27"
abbreviation "ErrGateConsensus \<equiv> gate_error 28"
abbreviation "ErrRecoveryTimeout \<equiv> gate_error 32"

text \<open>\<open>go_ticks\<close> is the number of ticks that the loop behind a recovery receives before its timeout.\<close>

record ('w, 'd) object_env =
  go_gate :: "('w, 'd) gate_env"
  go_app :: GfSpBaseApp
  go_maxPayloadSize :: uint64
  go_InsertUploadEvent :: "uint64 \<Rightarrow> string \<Rightarrow> string \<Rightarrow> 'w \<Rightarrow> 'w"
  go_UploadObject :: "GfSpUploadObjectTask \<Rightarrow> bytes \<Rightarrow> 'w \<Rightarrow> go_error option \<times> 'w"
  go_ResumableUploadObject :: "GfSpResumableUploadObjectTask \<Rightarrow> bytes \<Rightarrow> 'w \<Rightarrow> go_error option \<times> 'w"
  go_GetUploadObjectSegment :: "uint64 \<Rightarrow> 'w \<Rightarrow> (go_error + uint32) \<times> 'w"
  go_GetPiece :: "GfSpDownloadPieceTask \<Rightarrow> 'w \<Rightarrow> (go_error + bytes) \<times> 'w"
  go_ReportTask :: "Task \<Rightarrow> 'w \<Rightarrow> go_error option \<times> 'w"
  go_sleep :: "int64 \<Rightarrow> 'w \<Rightarrow> 'w"
  go_ticks :: "'w \<Rightarrow> nat"

record response =
  rs_headers :: "(string \<times> string) list"
  rs_body :: bytes

definition no_response :: response where "no_response = \<lparr>rs_headers = [], rs_body = []\<rparr>"

type_synonym ('w, 'd) handled = "(go_error option \<times> response \<times> ('w, 'd) gate_state) go"

definition gate_out :: "('w \<Rightarrow> 'a \<times> 'w) \<Rightarrow> ('w, 'd) gate_state \<Rightarrow> 'a \<times> ('w, 'd) gate_state" where
  "gate_out f a = (case f (am_world a) of (x, w) \<Rightarrow> (x, a\<lparr>am_world := w\<rparr>))"

definition chain :: "('w, 'd) object_env \<Rightarrow> ('w gnfd_nodes \<Rightarrow> Gnfd \<Rightarrow> 'w \<Rightarrow> 'a \<times> 'w) \<Rightarrow> ('w, 'd) gate_state \<Rightarrow> 'a \<times> ('w, 'd) gate_state" where
  "chain env q a = gate_out (q (au_nodes (ge_auth (go_gate env))) (au_gnfd (ge_auth (go_gate env)))) a"

definition now_sec :: "('w, 'd) object_env \<Rightarrow> ('w, 'd) gate_state \<Rightarrow> int64" where
  "now_sec env a = i64 (auth_now (ge_auth (go_gate env)) a div 1000000000)"

definition failed :: "go_error \<Rightarrow> ('w, 'd) gate_state \<Rightarrow> ('w, 'd) handled" where
  "failed err a = Returns (Some err, no_response, a)"

text \<open>The check that most handlers begin with.\<close>

definition permission_on :: "('w, 'd) object_env \<Rightarrow> AuthOpType \<Rightarrow> RequestContext \<Rightarrow> string \<Rightarrow> string \<Rightarrow> ('w, 'd) gate_state \<Rightarrow> (go_error option \<times> ('w, 'd) gate_state) go" where
  "permission_on env authType reqCtx bucket object a =
     (if \<not> NeedVerifyAuthentication reqCtx then Returns (None, a)
      else bind_go (client_VerifyAuthentication (gate_conn (go_gate env) a) (ge_auth (go_gate env)) authType (rc_account reqCtx) bucket object (am_world a)) (\<lambda>(r, w).
             Returns (case r of Inl err \<Rightarrow> Some err | Inr allowed \<Rightarrow> if allowed then None else Some ErrNoPermission, a\<lparr>am_world := w\<rparr>)))"

definition check_permission :: "('w, 'd) object_env \<Rightarrow> AuthOpType \<Rightarrow> RequestContext \<Rightarrow> ('w, 'd) gate_state \<Rightarrow> (go_error option \<times> ('w, 'd) gate_state) go" where
  "check_permission env authType reqCtx a = permission_on env authType reqCtx (rc_bucketName reqCtx) (rc_objectName reqCtx) a"

definition with_permission :: "('w, 'd) object_env \<Rightarrow> AuthOpType \<Rightarrow> http_request \<Rightarrow> ('w, 'd) gate_state
    \<Rightarrow> (RequestContext \<Rightarrow> ('w, 'd) gate_state \<Rightarrow> ('w, 'd) handled) \<Rightarrow> ('w, 'd) handled" where
  "with_permission env authType r a k =
     bind_go (NewRequestContext (go_gate env) r a) (\<lambda>(reqCtx, err, a).
       case err of
         Some err \<Rightarrow> failed err a
       | None \<Rightarrow>
           bind_go (check_permission env authType reqCtx a) (\<lambda>(err, a).
             case err of Some err \<Rightarrow> failed err a | None \<Rightarrow> k reqCtx a))"

section \<open>Uploads\<close>

definition put_object :: "('w, 'd) object_env \<Rightarrow> RequestContext \<Rightarrow> ('w, 'd) gate_state \<Rightarrow> ('w, 'd) handled" where
  "put_object env reqCtx a =
     (case chain env (\<lambda>n g. QueryObjectInfo n g (rc_bucketName reqCtx) (rc_objectName reqCtx)) a of
        (Inl _, a) \<Rightarrow> failed ErrGateConsensus a
      | (Inr objectInfo, a) \<Rightarrow>
          let ob = object_of objectInfo in
          if PayloadSize ob = 0 \<or> PayloadSize ob > go_maxPayloadSize env then failed ErrInvalidPayloadSize a
          else case chain env (\<lambda>n g. QueryStorageParamsByTimestamp n g (CreateAt ob)) a of
            (Inl _, a) \<Rightarrow> failed ErrGateConsensus a
          | (Inr params, a) \<Rightarrow>
              bind_go (TaskTimeout (go_app env) TypeTaskUpload (PayloadSize ob)) (\<lambda>timeout.
                let task = InitUploadObjectTask (now_sec env a) objectInfo (Some params) timeout;
                    key = Key (UploadObjectTask task);
                    a = a\<lparr>am_world := go_InsertUploadEvent env (Id ob) ''gateway_begin_receive_upload'' key (am_world a)\<rparr>
                in case gate_out (go_UploadObject env task (rq_Body (rc_request reqCtx))) a of
                     (err, a) \<Rightarrow>
                       let a = (case err of None \<Rightarrow> a
                                | Some e \<Rightarrow> a\<lparr>am_world := go_InsertUploadEvent env (Id ob) ''gateway_end_receive_upload'' (key @ '':'' @ error_text e) (am_world a)\<rparr>)
                       in Returns (err, no_response, a\<lparr>am_world := go_InsertUploadEvent env (Id ob) ''gateway_end_receive_upload'' key (am_world a)\<rparr>)))"

definition putObjectHandler :: "('w, 'd) object_env \<Rightarrow> http_request \<Rightarrow> ('w, 'd) gate_state \<Rightarrow> ('w, 'd) handled" where
  "putObjectHandler env r a = with_permission env AuthOpTypePutObject r a (put_object env)"

definition resumable_put :: "('w, 'd) object_env \<Rightarrow> RequestContext \<Rightarrow> ('w, 'd) gate_state \<Rightarrow> ('w, 'd) handled" where
  "resumable_put env reqCtx a =
     (case chain env (\<lambda>n g. QueryObjectInfo n g (rc_bucketName reqCtx) (rc_objectName reqCtx)) a of
        (Inl _, a) \<Rightarrow> failed ErrGateConsensus a
      | (Inr objectInfo, a) \<Rightarrow>
          let ob = object_of objectInfo in
          if PayloadSize ob = 0 \<or> PayloadSize ob > go_maxPayloadSize env then failed ErrInvalidPayloadSize a
          else case chain env QueryStorageParams a of
            (Inl _, a) \<Rightarrow> failed ErrGateConsensus a
          | (Inr params, a) \<Rightarrow>
              (case StringToBool (rq_Query (rc_request reqCtx) ''complete'') of
                 Inl _ \<Rightarrow> failed ErrInvalidComplete a
               | Inr complete \<Rightarrow>
                   (case StringToUint64 (rq_Query (rc_request reqCtx) ''offset'') of
                      Inl _ \<Rightarrow> failed ErrInvalidOffset a
                    | Inr offset \<Rightarrow>
                        bind_go (TaskTimeout (go_app env) TypeTaskUpload (PayloadSize ob)) (\<lambda>timeout.
                          case gate_out (go_ResumableUploadObject env
                                 (InitResumableUploadObjectTask (now_sec env a) objectInfo (Some params) timeout complete offset)
                                 (rq_Body (rc_request reqCtx))) a of
                            (err, a) \<Rightarrow> Returns (err, no_response, a)))))"

definition resumablePutObjectHandler :: "('w, 'd) object_env \<Rightarrow> http_request \<Rightarrow> ('w, 'd) gate_state \<Rightarrow> ('w, 'd) handled" where
  "resumablePutObjectHandler env r a = with_permission env AuthOpTypePutObject r a (resumable_put env)"

text \<open>The offset to resume at, as the number in the response.\<close>

definition query_resume_offset :: "('w, 'd) object_env \<Rightarrow> RequestContext \<Rightarrow> ('w, 'd) gate_state \<Rightarrow> ((go_error + uint64) \<times> ('w, 'd) gate_state) go" where
  "query_resume_offset env reqCtx a =
     (case chain env (\<lambda>n g. QueryObjectInfo n g (rc_bucketName reqCtx) (rc_objectName reqCtx)) a of
        (Inl _, a) \<Rightarrow> Returns (Inl ErrGateConsensus, a)
      | (Inr objectInfo, a) \<Rightarrow>
          (case chain env (\<lambda>n g. QueryStorageParamsByTimestamp n g (CreateAt (object_of objectInfo))) a of
             (Inl _, a) \<Rightarrow> Returns (Inl ErrGateConsensus, a)
           | (Inr params, a) \<Rightarrow>
               (case objectInfo of
                  None \<Rightarrow> Panics
                | Some ob \<Rightarrow>
                    (case gate_out (go_GetUploadObjectSegment env (Id ob)) a of
                       (Inl err, a) \<Rightarrow> Returns (Inl err, a)
                     | (Inr segmentCount, a) \<Rightarrow> Returns (Inr (ucast segmentCount * MaxSegmentSize params), a)))))"

definition queryResumeOffsetHandler :: "('w, 'd) object_env \<Rightarrow> http_request \<Rightarrow> ('w, 'd) gate_state \<Rightarrow> ((go_error + uint64) \<times> ('w, 'd) gate_state) go" where
  "queryResumeOffsetHandler env r a =
     bind_go (NewRequestContext (go_gate env) r a) (\<lambda>(reqCtx, err, a).
       case err of
         Some err \<Rightarrow> Returns (Inl err, a)
       | None \<Rightarrow>
           bind_go (check_permission env AuthOpTypeGetUploadingState reqCtx a) (\<lambda>(err, a).
             case err of Some err \<Rightarrow> Returns (Inl err, a) | None \<Rightarrow> query_resume_offset env reqCtx a))"

section \<open>Ranges\<close>

definition parseRange :: "string \<Rightarrow> bool \<times> int64 \<times> int64" where
  "parseRange rangeStr =
     (let none = (False, -1, -1);
          rangeStr = filter (\<lambda>c. c \<noteq> CHR '' '') (map ascii_lower rangeStr) in
      if \<not> has_prefix ''bytes='' rangeStr then none
      else
        let rangeStr = drop 6 rangeStr in
        if rangeStr \<noteq> [] \<and> last rangeStr = CHR ''-''
        then case StringToUint64 (butlast rangeStr) of Inl _ \<Rightarrow> none | Inr rangeStart \<Rightarrow> (True, int64_of_u64 rangeStart, -1)
        else case split_on CHR ''-'' rangeStr of
          [s, e] \<Rightarrow>
            (case StringToUint64 s of
               Inl _ \<Rightarrow> none
             | Inr rangeStart \<Rightarrow>
                 (case StringToUint64 e of Inl _ \<Rightarrow> none | Inr rangeEnd \<Rightarrow> (True, int64_of_u64 rangeStart, int64_of_u64 rangeEnd)))
        | _ \<Rightarrow> none)"

definition requested_range :: "string \<Rightarrow> uint64 \<Rightarrow> go_error + bool \<times> int64 \<times> int64" where
  "requested_range header payloadSize =
     (case parseRange header of (isRange, rangeStart, rangeEnd) \<Rightarrow>
        let rangeEnd = (if isRange \<and> (rangeEnd < 0 \<or> rangeEnd \<ge> int64_of_u64 payloadSize) then i64 (int64_of_u64 payloadSize - 1) else rangeEnd)
        in if isRange \<and> (rangeStart < 0 \<or> rangeEnd < 0 \<or> rangeStart > rangeEnd) then Inl ErrInvalidRange
           else if isRange then Inr (True, rangeStart, rangeEnd)
           else Inr (False, 0, i64 (int64_of_u64 payloadSize - 1)))"

section \<open>Downloads\<close>

fun try_download :: "('w, 'd) object_env \<Rightarrow> nat \<Rightarrow> GfSpDownloadPieceTask \<Rightarrow> ('w, 'd) gate_state \<Rightarrow> (go_error + bytes) \<times> ('w, 'd) gate_state" where
  "try_download env 0 pieceTask a = (Inl ErrRecoveryTimeout, a)"
| "try_download env (Suc n) pieceTask a =
     (case gate_out (go_GetPiece env pieceTask) a of
        (Inr pieceData, a) \<Rightarrow> (Inr pieceData, a)
      | (Inl _, a) \<Rightarrow> try_download env n pieceTask a)"

definition tryDownloadAfterRecovery :: "('w, 'd) object_env \<Rightarrow> GfSpDownloadPieceTask \<Rightarrow> ('w, 'd) gate_state \<Rightarrow> (go_error + bytes) \<times> ('w, 'd) gate_state" where
  "tryDownloadAfterRecovery env pieceTask a =
     (let a = a\<lparr>am_world := go_sleep env 500000000 (am_world a)\<rparr> in try_download env (go_ticks env (am_world a)) pieceTask a)"

text \<open>The adjustment of the data that was read after a recovery.\<close>

definition adjust_recovered :: "SegmentPieceInfo \<Rightarrow> int64 \<Rightarrow> bytes \<Rightarrow> bytes go" where
  "adjust_recovered pInfo segSize data =
     bind_go (if si_Offset pInfo > 0
              then if unat (si_Offset pInfo) > length data then Panics else Returns (drop (unat (si_Offset pInfo)) data)
              else Returns data) (\<lambda>data.
       if si_Offset pInfo + si_Length pInfo < word_of_int segSize
       then if unat (si_Length pInfo) > length data then Panics else Returns (take (unat (si_Length pInfo)) data)
       else Returns data)"

definition piece_task :: "('w, 'd) object_env \<Rightarrow> GfSpDownloadObjectTask \<Rightarrow> bool \<Rightarrow> SegmentPieceInfo \<Rightarrow> ('w, 'd) gate_state \<Rightarrow> GfSpDownloadPieceTask go" where
  "piece_task env task enableCheck pInfo a =
     bind_go (TaskTimeout (go_app env) TypeTaskDownloadObject 0) (\<lambda>timeout.
       Returns (InitDownloadPieceTask (now_sec env a) (do_ObjectInfo task) (do_BucketInfo task) (do_StorageParams task)
         (TaskPriority_of TypeTaskDownloadObject) enableCheck (do_UserAddress task) (word_of_int (do_High task - do_Low task + 1))
         (si_SegmentPieceKey pInfo) (si_Offset pInfo) (si_Length pInfo) timeout (TaskMaxRetry (go_app env) TypeTaskDownloadObject)))"

text \<open>
  The loop over the pieces of the response. An error inside it is in a shadowed variable: the handler returns without an
  error, with what was written so far.
\<close>

fun deliver_pieces :: "('w, 'd) object_env \<Rightarrow> GfSpDownloadObjectTask \<Rightarrow> Params \<Rightarrow> bool \<Rightarrow> SegmentPieceInfo list \<Rightarrow> bytes \<Rightarrow> ('w, 'd) gate_state
    \<Rightarrow> (bytes \<times> ('w, 'd) gate_state) go" where
  "deliver_pieces env task params isFirst [] body a = Returns (body, a)"
| "deliver_pieces env task params isFirst (pInfo # pInfos) body a =
     bind_go (piece_task env task isFirst pInfo a) (\<lambda>pieceTask.
       case gate_out (go_GetPiece env pieceTask) a of
         (Inr pieceData, a) \<Rightarrow> deliver_pieces env task params False pInfos (body @ pieceData) a
       | (Inl _, a) \<Rightarrow>
           bind_go (ParseSegmentIdx (si_SegmentPieceKey pInfo)) (\<lambda>parsed.
             case parsed of
               Inl _ \<Rightarrow> Returns (body, a)
             | Inr segmentIndex \<Rightarrow>
                 bind_go (SegmentPieceSize (PayloadSize (object_of (do_ObjectInfo task))) segmentIndex (MaxSegmentSize params)) (\<lambda>segSize.
                 bind_go (TaskTimeout (go_app env) TypeTaskRecoverPiece (MaxSegmentSize params)) (\<lambda>timeout.
                   case gate_out (go_ReportTask env (RecoverPieceTask (InitRecoverPieceTask (now_sec env a) (do_ObjectInfo task) (do_StorageParams task)
                          DefaultLargerTaskPriority segmentIndex (-1) (word_of_int segSize) timeout 3))) a of
                     (_, a) \<Rightarrow>
                       (case tryDownloadAfterRecovery env pieceTask a of
                          (Inl _, a) \<Rightarrow> Returns (body, a)
                        | (Inr data, a) \<Rightarrow>
                            bind_go (adjust_recovered pInfo segSize data) (\<lambda>data.
                              deliver_pieces env task params False pInfos (body @ data) a))))))"

definition serve_object :: "('w, 'd) object_env \<Rightarrow> RequestContext \<Rightarrow> ('w, 'd) gate_state \<Rightarrow> ('w, 'd) handled" where
  "serve_object env reqCtx a =
     (case chain env (\<lambda>n g. QueryObjectInfo n g (rc_bucketName reqCtx) (rc_objectName reqCtx)) a of
        (Inl _, a) \<Rightarrow> failed ErrGateConsensus a
      | (Inr objectInfo, a) \<Rightarrow>
          let ob = object_of objectInfo in
          (case chain env (\<lambda>n g. QueryBucketInfo n g (BucketName ob)) a of
             (Inl _, a) \<Rightarrow> failed ErrGateConsensus a
           | (Inr bucketInfo, a) \<Rightarrow>
               (case chain env (\<lambda>n g. QueryStorageParamsByTimestamp n g (CreateAt ob)) a of
                  (Inl _, a) \<Rightarrow> failed ErrGateConsensus a
                | (Inr params, a) \<Rightarrow>
                    (case requested_range (rq_Header (rc_request reqCtx) ''Range'') (PayloadSize ob) of
                       Inl err \<Rightarrow> failed err a
                     | Inr (isRange, lowOffset, highOffset) \<Rightarrow>
                         bind_go (TaskTimeout (go_app env) TypeTaskDownloadObject (word_of_int (highOffset - lowOffset + 1))) (\<lambda>timeout.
                           let task = InitDownloadObjectTask (now_sec env a) objectInfo bucketInfo (Some params) (TaskPriority_of TypeTaskDownloadObject)
                                        (rc_account reqCtx) lowOffset highOffset timeout (TaskMaxRetry (go_app env) TypeTaskDownloadObject)
                           in bind_go (SplitToSegmentPieceInfos task) (\<lambda>split.
                                case split of
                                  Inl err \<Rightarrow> failed err a
                                | Inr pieceInfos \<Rightarrow>
                                    bind_go (deliver_pieces env task params True pieceInfos [] a) (\<lambda>(body, a).
                                      Returns (None, \<lparr>rs_headers =
                                        [(''Content-Type'', ContentType ob),
                                         if isRange then (''Content-Range'', ''bytes '' @ Uint64ToString (word_of_int lowOffset) @ ''-'' @ Uint64ToString (word_of_int highOffset))
                                         else (''Content-Length'', Uint64ToString (PayloadSize ob))],
                                        rs_body = body\<rparr>, a))))))))"

text \<open>The right to read: a public object may be read by everyone, other objects need a request that was accepted.\<close>

definition check_read :: "('w, 'd) object_env \<Rightarrow> AuthOpType \<Rightarrow> RequestContext \<Rightarrow> go_error option \<Rightarrow> ('w, 'd) gate_state
    \<Rightarrow> (go_error option \<times> ('w, 'd) gate_state) go" where
  "check_read env authType reqCtx reqCtxErr a =
     (case chain env (\<lambda>n g. VerifyGetObjectPermission n g [] (rc_bucketName reqCtx) (rc_objectName reqCtx)) a of
        (Inl _, a) \<Rightarrow> Returns (Some ErrGateConsensus, a)
      | (Inr True, a) \<Rightarrow> Returns (None, a)
      | (Inr False, a) \<Rightarrow>
          (case reqCtxErr of Some err \<Rightarrow> Returns (Some err, a) | None \<Rightarrow> check_permission env authType reqCtx a))"

definition getObjectHandler :: "('w, 'd) object_env \<Rightarrow> http_request \<Rightarrow> ('w, 'd) gate_state \<Rightarrow> ('w, 'd) handled" where
  "getObjectHandler env r a =
     bind_go (NewRequestContext (go_gate env) r a) (\<lambda>(reqCtx, reqCtxErr, a).
       bind_go (check_read env AuthOpTypeGetObject reqCtx reqCtxErr a) (\<lambda>(err, a).
         case err of Some err \<Rightarrow> failed err a | None \<Rightarrow> serve_object env reqCtx a))"

section \<open>Pieces for recovery\<close>

definition getObjectChainMeta :: "('w, 'd) object_env \<Rightarrow> string \<Rightarrow> string \<Rightarrow> ('w, 'd) gate_state
    \<Rightarrow> (go_error + ObjectInfo option \<times> BucketInfo option \<times> Params) \<times> ('w, 'd) gate_state" where
  "getObjectChainMeta env objectName bucketName a =
     (case chain env (\<lambda>n g. QueryObjectInfo n g bucketName objectName) a of
        (Inl _, a) \<Rightarrow> (Inl ErrGateConsensus, a)
      | (Inr objectInfo, a) \<Rightarrow>
          (case chain env (\<lambda>n g. QueryBucketInfo n g (BucketName (object_of objectInfo))) a of
             (Inl _, a) \<Rightarrow> (Inl ErrGateConsensus, a)
           | (Inr bucketInfo, a) \<Rightarrow>
               (case chain env (\<lambda>n g. QueryStorageParamsByTimestamp n g (CreateAt (object_of objectInfo))) a of
                  (Inl _, a) \<Rightarrow> (Inl ErrGateConsensus, a)
                | (Inr params, a) \<Rightarrow> (Inr (objectInfo, bucketInfo, params), a))))"

definition ec_piece_task :: "('w, 'd) object_env \<Rightarrow> ObjectInfo option \<Rightarrow> BucketInfo option \<Rightarrow> Params \<Rightarrow> bool \<Rightarrow> string \<Rightarrow> uint64 \<Rightarrow> string \<Rightarrow> uint64 \<Rightarrow> uint64
    \<Rightarrow> ('w, 'd) gate_state \<Rightarrow> GfSpDownloadPieceTask go" where
  "ec_piece_task env ob b params check user total_size key offset len a =
     bind_go (TaskTimeout (go_app env) TypeTaskDownloadPiece 0) (\<lambda>timeout.
       Returns (InitDownloadPieceTask (now_sec env a) ob b (Some params) (TaskPriority_of TypeTaskDownloadPiece) check user total_size key offset len
         timeout (TaskMaxRetry (go_app env) TypeTaskDownloadPiece)))"

definition serve_recovery_piece :: "('w, 'd) object_env \<Rightarrow> RequestContext \<Rightarrow> ('w, 'd) gate_state \<Rightarrow> ('w, 'd) handled" where
  "serve_recovery_piece env reqCtx a =
     (case StringToInt32 (rq_Header (rc_request reqCtx) ''X-Gnfd-Redundancy-Index'') of
        Inl _ \<Rightarrow> failed ErrInvalidHeader a
      | Inr ecIdx \<Rightarrow>
          if ecIdx < 0 then failed ErrInvalidHeader a
          else case StringToUint32 (rq_Header (rc_request reqCtx) ''X-Gnfd-Piece-Index'') of
            Inl _ \<Rightarrow> failed ErrInvalidHeader a
          | Inr segmentIdx \<Rightarrow>
              (case getObjectChainMeta env (rc_objectName reqCtx) (rc_bucketName reqCtx) a of
                 (Inl _, a) \<Rightarrow> failed ErrGateConsensus a
               | (Inr (None, _, _), a) \<Rightarrow> Panics
               | (Inr (Some ob, bucketInfo, params), a) \<Rightarrow>
                   bind_go (ECPieceSize (PayloadSize ob) segmentIdx (MaxSegmentSize params) (RedundantDataChunkNum params)) (\<lambda>sz.
                   bind_go (ec_piece_task env (Some ob) bucketInfo params True (rc_account reqCtx) (PayloadSize ob)
                              (ECPieceKey (Id ob) segmentIdx (word_of_int ecIdx)) 0 (word_of_int sz) a) (\<lambda>pieceTask.
                     case gate_out (go_GetPiece env pieceTask) a of
                       (Inl err, a) \<Rightarrow> Returns (Some err, no_response, a)
                     | (Inr pieceData, a) \<Rightarrow> Returns (None, no_response\<lparr>rs_body := pieceData\<rparr>, a)))))"

definition getRecoveryPieceHandler :: "('w, 'd) object_env \<Rightarrow> http_request \<Rightarrow> ('w, 'd) gate_state \<Rightarrow> ('w, 'd) handled" where
  "getRecoveryPieceHandler env r a =
     bind_go (NewRequestContext (go_gate env) r a) (\<lambda>(reqCtx, reqCtxErr, a).
       bind_go (check_read env AuthOpTypeGetRecoveryPiece reqCtx reqCtxErr a) (\<lambda>(err, a).
         case err of Some err \<Rightarrow> failed err a | None \<Rightarrow> serve_recovery_piece env reqCtx a))"

section \<open>Ranges that are served\<close>

lemma int64_of_u64_small: "uint x < 2 ^ 63 \<Longrightarrow> int64_of_u64 x = uint x"
  using int64_of_small [of x] by (simp add: int64_of_u64_def int64_of_def)

lemma requested_range_inside:
  assumes "requested_range header sz = Inr (isRange, low, high)" "0 < uint sz" "uint sz < 2 ^ 63"
  shows "0 \<le> low" "low \<le> high" "high < uint sz"
proof -
  have p: "int64_of_u64 sz = uint sz" "i64 (uint sz - 1) = uint sz - 1"
    using assms(2,3) by (simp_all add: int64_of_u64_small i64_id in_i64_def)
  show "0 \<le> low" "low \<le> high" "high < uint sz"
    using assms p by (auto simp: requested_range_def Let_def split: prod.splits if_splits)
qed

lemma ascii_lower_digit: "is_digit c \<Longrightarrow> ascii_lower c = c \<and> c \<noteq> CHR '' '' \<and> c \<noteq> CHR ''-''"
  by (auto simp: is_digit_def ascii_lower_def Let_def)

lemma lower_show_nat: "map ascii_lower (show_nat n) = show_nat n" "filter (\<lambda>c. c \<noteq> CHR '' '') (show_nat n) = show_nat n"
  "CHR ''-'' \<notin> set (show_nat n)"
  using ascii_lower_digit show_nat_digits by (auto simp: map_idI filter_id_conv)

lemma StringToUint64_show: "n < 2 ^ 64 \<Longrightarrow> StringToUint64 (show_nat n) = Inr (of_nat n)"
  by (simp add: StringToUint64_def ParseUint_show_nat)

lemma int64_of_nat: "n < 2 ^ 63 \<Longrightarrow> int64_of_u64 (of_nat n) = int n"
  using int64_of_u64_small [of "of_nat n"] by (simp add: unsigned_of_nat take_bit_nat_eq_self)

lemma parseRange_written:
  assumes "s < 2 ^ 63" "e < 2 ^ 63"
  shows "parseRange (''Bytes='' @ show_nat s @ ''-'' @ show_nat e) = (True, int s, int e)"
    "parseRange (''bytes='' @ show_nat s @ ''-'' @ show_nat e) = (True, int s, int e)"
    "parseRange (''bytes='' @ show_nat s @ ''-'') = (True, int s, -1)"
proof -
  have n: "StringToUint64 (show_nat s) = Inr (of_nat s)" "StringToUint64 (show_nat e) = Inr (of_nat e)"
    using assms by (simp_all add: StringToUint64_show)
  have l: "show_nat s @ CHR ''-'' # show_nat e \<noteq> [] \<and> last (show_nat s @ CHR ''-'' # show_nat e) \<noteq> CHR ''-''"
  proof -
    have "last (show_nat e) \<noteq> CHR ''-''" using lower_show_nat(3) [of e] last_in_set [OF show_nat_nonempty, of e] by metis
    then show ?thesis by simp
  qed
  have sp: "split_on CHR ''-'' (show_nat s @ CHR ''-'' # show_nat e) = [show_nat s, show_nat e]"
    using lower_show_nat(3) by (simp add: split_on_append split_on_no_sep)
  have dash: "ascii_lower CHR ''-'' = CHR ''-''" "map ascii_lower ''Bytes='' = ''bytes=''" "map ascii_lower ''bytes='' = ''bytes=''" by code_simp+
  show "parseRange (''Bytes='' @ show_nat s @ ''-'' @ show_nat e) = (True, int s, int e)"
    "parseRange (''bytes='' @ show_nat s @ ''-'' @ show_nat e) = (True, int s, int e)"
    "parseRange (''bytes='' @ show_nat s @ ''-'') = (True, int s, -1)"
    using n l sp dash assms by (simp_all add: parseRange_def Let_def lower_show_nat int64_of_nat butlast_append)
qed

text \<open>
  A range header is read as it is written: \<open>bytes=s-e\<close> with numbers below \<open>2 ^ 63\<close>, in any case of the letters, asks for the bytes
  from \<open>s\<close> to \<open>e\<close> or to the end of the payload, \<open>bytes=s-\<close> for those from \<open>s\<close> to the end; a range with no byte in it is refused. The
  range that is served lies inside the payload.
\<close>

theorem range_header_read:
  assumes "s < 2 ^ 63" "e < 2 ^ 63" "uint payload < 2 ^ 63"
  shows "requested_range (''Bytes='' @ show_nat s @ ''-'' @ show_nat e) payload
      = (if int s \<le> min (int e) (uint payload - 1) then Inr (True, int s, min (int e) (uint payload - 1)) else Inl ErrInvalidRange)
    \<and> requested_range (''bytes='' @ show_nat s @ ''-'') payload
      = (if int s < uint payload then Inr (True, int s, uint payload - 1) else Inl ErrInvalidRange)"
proof -
  have p: "i64 (uint payload - 1) = uint payload - 1" "int64_of_u64 payload = uint payload"
    using assms(3) i64_id [of "uint payload - 1"] uint_ge_0 [of payload] by (auto simp: int64_of_u64_small in_i64_def)
  show ?thesis unfolding requested_range_def parseRange_written [OF assms(1,2)] Let_def prod.case p by (auto simp: min_def)
qed

lemma timeout_returns: "0 \<le> downloadSpeed app \<Longrightarrow> downloadSpeed app < 2 ^ 63 - 1 \<Longrightarrow> \<exists>t. TaskTimeout app TypeTaskDownloadObject sz = Returns t"
  by (auto simp: transfer_time_def go_div_def i64_id in_i64_def MinSpeed_def)

text \<open>The pieces that the handler asks the downloader for when it serves a task.\<close>

definition piece_of :: "GfSpDownloadObjectTask \<Rightarrow> GfSpDownloadPieceTask \<Rightarrow> bool" where
  "piece_of task t \<longleftrightarrow> dp_ObjectInfo t = do_ObjectInfo task \<and> dp_BucketInfo t = do_BucketInfo task \<and> dp_StorageParams t = do_StorageParams task
     \<and> dp_UserAddress t = do_UserAddress task \<and> dp_TotalSize t = word_of_int (do_High task - do_Low task + 1)"

lemma piece_task_shape:
  assumes "\<And>sz. \<exists>t. TaskTimeout (go_app env) TypeTaskDownloadObject sz = Returns t"
  shows "\<exists>t. piece_task env task isFirst p a = Returns t \<and> piece_of task t \<and> dp_EnableCheck t = isFirst \<and> dp_PieceKey t = si_SegmentPieceKey p
    \<and> dp_PieceOffset t = si_Offset p \<and> dp_PieceLength t = si_Length p"
proof -
  obtain timeout where "TaskTimeout (go_app env) TypeTaskDownloadObject 0 = Returns timeout" using assms by blast
  then show ?thesis by (auto simp: piece_task_def InitDownloadPieceTask_def piece_of_def)
qed

text \<open>
  What the gateway relies on of the downloader: the pieces of one response are those of a piece store. The quota is checked
  for the first of them, which takes the outside world from \<open>fresh\<close> to \<open>charged\<close>.
\<close>

locale piece_reader =
  fixes get :: "GfSpDownloadPieceTask \<Rightarrow> 'w \<Rightarrow> (go_error + bytes) \<times> 'w"
    and fresh charged :: "'w \<Rightarrow> bool"
    and asks :: "GfSpDownloadPieceTask \<Rightarrow> bool"
    and ps :: ObjectStorage
  assumes first_read: "fresh w \<Longrightarrow> asks t \<Longrightarrow> dp_EnableCheck t
      \<Longrightarrow> GetPiece ps (dp_PieceKey t) (int64_of (dp_PieceOffset t)) (int64_of (dp_PieceLength t)) = Returns (Inr data)
      \<Longrightarrow> \<exists>w'. get t w = (Inr data, w') \<and> charged w'"
    and next_read: "charged w \<Longrightarrow> asks t \<Longrightarrow> \<not> dp_EnableCheck t
      \<Longrightarrow> GetPiece ps (dp_PieceKey t) (int64_of (dp_PieceOffset t)) (int64_of (dp_PieceLength t)) = Returns (Inr data)
      \<Longrightarrow> \<exists>w'. get t w = (Inr data, w') \<and> charged w'"
begin

lemma read_one:
  assumes "go_GetPiece env = get" "\<And>sz. \<exists>t. TaskTimeout (go_app env) TypeTaskDownloadObject sz = Returns t" "\<And>t. piece_of task t \<Longrightarrow> asks t"
    "GetPiece ps (si_SegmentPieceKey p) (int64_of (si_Offset p)) (int64_of (si_Length p)) = Returns (Inr data)"
    "if isFirst then fresh (am_world a) else charged (am_world a)"
  shows "\<exists>a1. charged (am_world a1) \<and> (\<forall>infos body. deliver_pieces env task params isFirst (p # infos) body a
    = deliver_pieces env task params False infos (body @ data) a1)"
proof -
  obtain t where t: "piece_task env task isFirst p a = Returns t" "piece_of task t" "dp_EnableCheck t = isFirst" "dp_PieceKey t = si_SegmentPieceKey p"
    "dp_PieceOffset t = si_Offset p" "dp_PieceLength t = si_Length p"
    using piece_task_shape [OF assms(2), of task isFirst p a] by blast
  obtain w' where "get t (am_world a) = (Inr data, w')" "charged w'"
    using first_read [of "am_world a" t data] next_read [of "am_world a" t data] assms(3) [OF t(2)] assms(4,5) t by (cases isFirst) auto
  then have "gate_out (go_GetPiece env t) a = (Inr data, a\<lparr>am_world := w'\<rparr>)" "charged (am_world (a\<lparr>am_world := w'\<rparr>))"
    using assms(1) by (simp_all add: gate_out_def)
  then show ?thesis using t(1) by (intro exI [of _ "a\<lparr>am_world := w'\<rparr>"]) simp
qed

lemma deliver_rest:
  assumes "go_GetPiece env = get" "\<And>sz. \<exists>t. TaskTimeout (go_app env) TypeTaskDownloadObject sz = Returns t" "\<And>t. piece_of task t \<Longrightarrow> asks t"
  shows "(\<And>p. p \<in> set infos \<Longrightarrow> GetPiece ps (si_SegmentPieceKey p) (int64_of (si_Offset p)) (int64_of (si_Length p)) = Returns (Inr (f p)))
    \<Longrightarrow> charged (am_world a)
    \<Longrightarrow> \<exists>a'. deliver_pieces env task params False infos body a = Returns (body @ concat (map f infos), a') \<and> charged (am_world a')"
proof (induction infos arbitrary: body a)
  case (Cons p infos)
  obtain a1 where a1: "charged (am_world a1)"
    "deliver_pieces env task params False (p # infos) body a = deliver_pieces env task params False infos (body @ f p) a1"
    using read_one [OF assms, where task = task and p = p and data = "f p" and isFirst = False and a = a and params = params] Cons.prems
    by (auto simp del: deliver_pieces.simps)
  then show ?case using Cons.IH [of a1 "body @ f p"] Cons.prems by (auto simp del: deliver_pieces.simps)
qed simp

lemma deliver_all:
  assumes "go_GetPiece env = get" "\<And>sz. \<exists>t. TaskTimeout (go_app env) TypeTaskDownloadObject sz = Returns t" "\<And>t. piece_of task t \<Longrightarrow> asks t"
    "\<And>p. p \<in> set infos \<Longrightarrow> GetPiece ps (si_SegmentPieceKey p) (int64_of (si_Offset p)) (int64_of (si_Length p)) = Returns (Inr (f p))"
    "fresh (am_world a)" "infos \<noteq> []"
  shows "\<exists>a'. deliver_pieces env task params True infos [] a = Returns (concat (map f infos), a') \<and> charged (am_world a')"
proof -
  obtain p rest where infos: "infos = p # rest" using assms(6) by (cases infos) auto
  obtain a1 where a1: "charged (am_world a1)"
    "deliver_pieces env task params True infos [] a = deliver_pieces env task params False rest ([] @ f p) a1"
    using read_one [OF assms(1-3), where task = task and p = p and data = "f p" and isFirst = True and a = a and params = params] assms(4,5) infos
    by (auto simp del: deliver_pieces.simps)
  then show ?thesis using deliver_rest [OF assms(1-3), where task = task and infos = rest and f = f and a = a1 and params = params and body = "[] @ f p"] assms(4) infos by (auto simp del: deliver_pieces.simps)
qed

end

section \<open>What a download returns\<close>

definition answers :: "('w \<Rightarrow> bool) \<Rightarrow> ('w \<Rightarrow> 'a \<times> 'w) \<Rightarrow> 'a \<Rightarrow> bool" where
  "answers J q x \<longleftrightarrow> (\<forall>w. J w \<longrightarrow> (\<exists>w'. q w = (x, w') \<and> J w'))"

lemma chain_answer:
  "answers J (q (au_nodes (ge_auth (go_gate env))) (au_gnfd (ge_auth (go_gate env)))) x \<Longrightarrow> J (am_world a)
    \<Longrightarrow> \<exists>a'. chain env q a = (x, a') \<and> J (am_world a')"
  by (fastforce simp: answers_def chain_def gate_out_def)

text \<open>What the gateway relies on to serve an object: the chain knows it, with its bucket and the parameters of its time.\<close>

definition servable :: "('w, 'd) object_env \<Rightarrow> ('w \<Rightarrow> bool) \<Rightarrow> string \<Rightarrow> string \<Rightarrow> ObjectInfo \<Rightarrow> BucketInfo option \<Rightarrow> Params \<Rightarrow> bool" where
  "servable env J b name ob bi params \<longleftrightarrow>
     answers J (QueryObjectInfo (au_nodes (ge_auth (go_gate env))) (au_gnfd (ge_auth (go_gate env))) b name) (Inr (Some ob))
   \<and> answers J (QueryBucketInfo (au_nodes (ge_auth (go_gate env))) (au_gnfd (ge_auth (go_gate env))) (BucketName ob)) (Inr bi)
   \<and> answers J (QueryStorageParamsByTimestamp (au_nodes (ge_auth (go_gate env))) (au_gnfd (ge_auth (go_gate env))) (CreateAt ob)) (Inr params)
   \<and> 0 < uint (PayloadSize ob) \<and> uint (PayloadSize ob) < 2 ^ 63 \<and> 0 < uint (MaxSegmentSize params) \<and> uint (MaxSegmentSize params) < 2 ^ 63
   \<and> uint (PayloadSize ob) \<le> uint (MaxSegmentSize params) * (2 ^ 32 - 1)
   \<and> 0 \<le> downloadSpeed (go_app env) \<and> downloadSpeed (go_app env) < 2 ^ 63 - 1"

definition stored_payload :: "ObjectStorage \<Rightarrow> ObjectInfo \<Rightarrow> Params \<Rightarrow> bytes \<Rightarrow> bool" where
  "stored_payload ps ob params payload \<longleftrightarrow>
     stored_segments ps (Id ob) 0 (segments (unat (MaxSegmentSize params)) payload) \<and> length payload = unat (PayloadSize ob)"

text \<open>The task that the handler makes of a request.\<close>

definition download_task :: "('w, 'd) object_env \<Rightarrow> RequestContext \<Rightarrow> ObjectInfo \<Rightarrow> BucketInfo option \<Rightarrow> Params \<Rightarrow> int64 \<Rightarrow> int64 \<Rightarrow> int64 \<Rightarrow> int64
    \<Rightarrow> GfSpDownloadObjectTask" where
  "download_task env reqCtx ob bi params now timeout low high =
     InitDownloadObjectTask now (Some ob) bi (Some params) (TaskPriority_of TypeTaskDownloadObject)
       (rc_account reqCtx) low high timeout (TaskMaxRetry (go_app env) TypeTaskDownloadObject)"

lemma split_reads:
  assumes "servable env J b name ob bi params" "stored_payload ps ob params payload" "0 \<le> low" "low \<le> high" "high < uint (PayloadSize ob)"
  shows "\<exists>infos f. SplitToSegmentPieceInfos (download_task env reqCtx ob bi params now timeout low high) = Returns (Inr infos) \<and> infos \<noteq> []
    \<and> (\<forall>p \<in> set infos. GetPiece ps (si_SegmentPieceKey p) (int64_of (si_Offset p)) (int64_of (si_Length p)) = Returns (Inr (f p)))
    \<and> concat (map f infos) = take (nat (high - low + 1)) (drop (nat low) payload)
    \<and> (\<forall>p \<in> set infos. \<exists>i. si_SegmentPieceKey p = SegmentPieceKey (Id ob) i)"
proof -
  note sv = assms(1) [unfolded servable_def] and range = assms(3-5)
  let ?task = "download_task env reqCtx ob bi params now timeout low high"
  let ?n = "unat (MaxSegmentSize params)" and ?low = "nat low" and ?high = "nat high"
  have n: "0 < ?n" "?n < 2 ^ 63"
    using sv unfolding uint_nat
    by (simp_all only: of_nat_0_less_iff of_nat_less_iff [symmetric, where ?'a = int] of_nat_power of_nat_numeral)
  obtain c where c: "SplitToSegmentPieceInfos ?task = Returns (Inr (map (piece_info (Id ob)) (split_nat ?n ?low ?high [0..<c])))"
    "c = (unat (PayloadSize ob) + ?n - 1) div ?n" "?high < c * ?n"
    using split_of_task [of ?task ob params] range sv by (auto simp: download_task_def InitDownloadObjectTask_def)
  have le: "max ?low (0 * ?n) \<le> ?high" using range by simp
  let ?ws = "split_nat ?n ?low ?high [0..<c]"
  let ?f = "\<lambda>p. case GetPiece ps (si_SegmentPieceKey p) (int64_of (si_Offset p)) (int64_of (si_Length p)) of Returns (Inr d) \<Rightarrow> d | _ \<Rightarrow> []"
  have stored: "stored_segments ps (Id ob) 0 (segments ?n payload)" "length payload = unat (PayloadSize ob)"
    using assms(2) by (simp_all add: stored_payload_def)
  have pieces: "\<forall>w \<in> set ?ws. GetPiece ps (si_SegmentPieceKey (piece_info (Id ob) w)) (int64_of (si_Offset (piece_info (Id ob) w)))
      (int64_of (si_Length (piece_info (Id ob) w))) = Returns (Inr (piece_cut ?n payload w))"
    using split_nat_bounds [OF n(1) le] read_window [OF stored(1) _ _ _ n(2)] length_segments [OF n(1), of payload] c(2) stored(2) by auto
  then have m: "map ?f (map (piece_info (Id ob)) ?ws) = map (piece_cut ?n payload) ?ws" by simp
  have cov: "concat (map (piece_cut ?n payload) ?ws) = take (nat (high - low + 1)) (drop ?low payload)"
    using split_nat_covers [OF n(1) le c(3), of payload] range by (simp add: nat_diff_distrib Suc_diff_le nat_add_distrib)
  have "int (unat (PayloadSize ob)) = uint (PayloadSize ob)" by simp
  then have "?low < length payload" using stored(2) range by linarith
  then have "take (nat (high - low + 1)) (drop ?low payload) \<noteq> []" using range by simp
  then have ws: "?ws \<noteq> []" using cov by force
  show ?thesis
  proof (intro exI conjI)
    show "SplitToSegmentPieceInfos ?task = Returns (Inr (map (piece_info (Id ob)) ?ws))" by (rule c(1))
    show "map (piece_info (Id ob)) ?ws \<noteq> []" using ws by simp
    show "concat (map ?f (map (piece_info (Id ob)) ?ws)) = take (nat (high - low + 1)) (drop ?low payload)" by (simp only: m cov)
    show "\<forall>p \<in> set (map (piece_info (Id ob)) ?ws). GetPiece ps (si_SegmentPieceKey p) (int64_of (si_Offset p)) (int64_of (si_Length p)) = Returns (Inr (?f p))"
      using pieces by auto
    show "\<forall>p \<in> set (map (piece_info (Id ob)) ?ws). \<exists>i. si_SegmentPieceKey p = SegmentPieceKey (Id ob) i" by (auto simp: piece_info_def split: prod.splits)
  qed
qed

lemma serve_object_task:
  assumes "servable env fresh (rc_bucketName reqCtx) (rc_objectName reqCtx) ob bi params"
    "requested_range (rq_Header (rc_request reqCtx) ''Range'') (PayloadSize ob) = Inr (isRange, low, high)" "fresh (am_world a)"
  shows "\<exists>a3 now timeout. fresh (am_world a3) \<and> (\<forall>infos body a'.
      SplitToSegmentPieceInfos (download_task env reqCtx ob bi params now timeout low high) = Returns (Inr infos)
      \<longrightarrow> deliver_pieces env (download_task env reqCtx ob bi params now timeout low high) params True infos [] a3 = Returns (body, a')
      \<longrightarrow> (\<exists>resp. serve_object env reqCtx a = Returns (None, resp, a') \<and> rs_body resp = body))"
proof -
  note sv = assms(1) [unfolded servable_def]
  obtain a1 where a1: "chain env (\<lambda>n g. QueryObjectInfo n g (rc_bucketName reqCtx) (rc_objectName reqCtx)) a = (Inr (Some ob), a1)" "fresh (am_world a1)"
    using chain_answer [where J = fresh and q = "\<lambda>n g. QueryObjectInfo n g (rc_bucketName reqCtx) (rc_objectName reqCtx)"] sv assms(3) by blast
  obtain a2 where a2: "chain env (\<lambda>n g. QueryBucketInfo n g (BucketName ob)) a1 = (Inr bi, a2)" "fresh (am_world a2)"
    using chain_answer [where J = fresh and q = "\<lambda>n g. QueryBucketInfo n g (BucketName ob)"] sv a1(2) by blast
  obtain a3 where a3: "chain env (\<lambda>n g. QueryStorageParamsByTimestamp n g (CreateAt ob)) a2 = (Inr params, a3)" "fresh (am_world a3)"
    using chain_answer [where J = fresh and q = "\<lambda>n g. QueryStorageParamsByTimestamp n g (CreateAt ob)"] sv a2(2) by blast
  obtain timeout where timeout: "TaskTimeout (go_app env) TypeTaskDownloadObject (word_of_int (high - low + 1)) = Returns timeout"
    using timeout_returns sv by blast
  show ?thesis using a1(1) a2(1) a3 timeout assms(2)
    by (intro exI [of _ a3] exI [of _ "now_sec env a3"] exI [of _ timeout]) (simp add: serve_object_def object_of_def Let_def download_task_def)
qed

lemma serve_object_range:
  assumes "servable env fresh (rc_bucketName reqCtx) (rc_objectName reqCtx) ob bi params" "stored_payload ps ob params payload"
    "requested_range (rq_Header (rc_request reqCtx) ''Range'') (PayloadSize ob) = Inr (isRange, low, high)"
    "piece_reader (go_GetPiece env) fresh charged asks ps" "\<And>now timeout t. piece_of (download_task env reqCtx ob bi params now timeout low high) t \<Longrightarrow> asks t"
    "fresh (am_world a)"
  shows "\<exists>resp a'. serve_object env reqCtx a = Returns (None, resp, a') \<and> rs_body resp = take (nat (high - low + 1)) (drop (nat low) payload)
    \<and> charged (am_world a')"
proof -
  note sv = assms(1) [unfolded servable_def]
  have range: "0 \<le> low" "low \<le> high" "high < uint (PayloadSize ob)" using requested_range_inside [OF assms(3)] sv by blast+
  have to: "\<exists>t. TaskTimeout (go_app env) TypeTaskDownloadObject sz = Returns t" for sz using timeout_returns sv by blast
  obtain a3 now timeout where a3: "fresh (am_world a3)" "\<And>infos body a'.
      SplitToSegmentPieceInfos (download_task env reqCtx ob bi params now timeout low high) = Returns (Inr infos)
      \<Longrightarrow> deliver_pieces env (download_task env reqCtx ob bi params now timeout low high) params True infos [] a3 = Returns (body, a')
      \<Longrightarrow> \<exists>resp. serve_object env reqCtx a = Returns (None, resp, a') \<and> rs_body resp = body"
    using serve_object_task [OF assms(1,3,6)] by blast
  let ?task = "download_task env reqCtx ob bi params now timeout low high"
  obtain infos f where split: "SplitToSegmentPieceInfos ?task = Returns (Inr infos)" "infos \<noteq> []"
    "\<And>p. p \<in> set infos \<Longrightarrow> GetPiece ps (si_SegmentPieceKey p) (int64_of (si_Offset p)) (int64_of (si_Length p)) = Returns (Inr (f p))"
    "concat (map f infos) = take (nat (high - low + 1)) (drop (nat low) payload)"
    using split_reads [OF assms(1,2) range] by blast
  obtain a' where "deliver_pieces env ?task params True infos [] a3 = Returns (concat (map f infos), a')" "charged (am_world a')"
    using piece_reader.deliver_all [OF assms(4) refl to _ split(3) a3(1) split(2), where task = ?task and params = params] assms(5) by blast
  then show ?thesis using a3(2) [OF split(1)] split(4) by metis
qed

lemma getObject_range:
  assumes "NewRequestContext (go_gate env) r a = Returns (reqCtx, err, a1)" "check_read env AuthOpTypeGetObject reqCtx err a1 = Returns (None, a2)"
    "servable env fresh (rc_bucketName reqCtx) (rc_objectName reqCtx) ob bi params" "stored_payload ps ob params payload"
    "requested_range (rq_Header (rc_request reqCtx) ''Range'') (PayloadSize ob) = Inr (isRange, low, high)"
    "piece_reader (go_GetPiece env) fresh charged asks ps" "\<And>now timeout t. piece_of (download_task env reqCtx ob bi params now timeout low high) t \<Longrightarrow> asks t"
    "fresh (am_world a2)"
  shows "\<exists>resp a'. getObjectHandler env r a = Returns (None, resp, a') \<and> rs_body resp = take (nat (high - low + 1)) (drop (nat low) payload)
    \<and> charged (am_world a')"
  using assms(1,2) serve_object_range [OF assms(3-8)] by (auto simp: getObjectHandler_def)

lemma NewRequestContext_request:
  assumes "NewRequestContext env r a = Returns (reqCtx, err, a')"
  shows "rc_request reqCtx = r"
proof -
  obtain res a1 where "VerifySignature env r a = Returns (res, a1)"
    using assms by (cases "VerifySignature env r a") (auto simp: NewRequestContext_def)
  then show ?thesis using assms by (cases res) (auto simp: NewRequestContext_def)
qed

text \<open>
  A range that begins inside a lost segment breaks the response: the piece is recovered and read again with its offset, and the
  offset is then cut off a second time. When it is larger than the piece, the handler panics.
\<close>

theorem recovered_range_panics:
  assumes "si_SegmentPieceKey p = SegmentPieceKey oid i" "0 < si_Offset p" "0 \<le> downloadSpeed (go_app env)" "downloadSpeed (go_app env) < 2 ^ 63 - 1"
    "TaskTimeout (go_app env) TypeTaskRecoverPiece (MaxSegmentSize params) = Returns timeout"
    "SegmentPieceSize (PayloadSize (object_of (do_ObjectInfo task))) i (MaxSegmentSize params) = Returns segSize"
    "\<And>t. fst (go_GetPiece env t (am_world a)) = Inl err"
    "\<And>t w. fst (tryDownloadAfterRecovery env t w) = Inr data" "length data \<le> unat (si_Length p)" "si_Length p < si_Offset p"
  shows "deliver_pieces env task params first (p # ps) body a = Panics"
proof -
  obtain timeout' where "TaskTimeout (go_app env) TypeTaskDownloadObject 0 = Returns timeout'" using timeout_returns [OF assms(3,4)] by blast
  then obtain t where t: "piece_task env task first p a = Returns t" by (simp add: piece_task_def)
  obtain a1 where a1: "gate_out (go_GetPiece env t) a = (Inl err, a1)"
    using assms(7) [of t] by (cases "go_GetPiece env t (am_world a)") (auto simp: gate_out_def)
  let ?task = "RecoverPieceTask (InitRecoverPieceTask (now_sec env a1) (do_ObjectInfo task) (do_StorageParams task)
                 DefaultLargerTaskPriority i (-1) (word_of_int segSize) timeout 3)"
  obtain x a2 where a2: "gate_out (go_ReportTask env ?task) a1 = (x, a2)" by fastforce
  obtain a3 where a3: "tryDownloadAfterRecovery env t a2 = (Inr data, a3)" using assms(8) [of t a2] by (metis prod.collapse)
  have "unat (si_Offset p) > length data" using assms(9,10) by (simp add: word_less_nat_alt)
  then have "adjust_recovered p segSize data = Panics" using assms(2) by (simp add: adjust_recovered_def)
  moreover have "ParseSegmentIdx (si_SegmentPieceKey p) = Returns (Inr i)" using ParseSegmentIdx_key assms(1) by simp
  ultimately show ?thesis using t a1 a2 a3 assms(5,6) by simp
qed

section \<open>A download\<close>

definition demo_params :: Params where
  "demo_params = \<lparr>MaxPayloadSize = 100, MaxSegmentSize = 2, RedundantDataChunkNum = 1, RedundantParityChunkNum = 1\<rparr>"

definition demo_pieces :: ObjectStorage where
  "demo_pieces = MemStore \<lparr>ms_name = [], ms_objects = [(''s7_s0'', \<lparr>mo_data = [1, 2], mo_modTime = 0\<rparr>), (''s7_s1'', \<lparr>mo_data = [3], mo_modTime = 0\<rparr>)]\<rparr>"

definition demo_object_env :: "(nat, OffChainAuthKey list) object_env" where
  "demo_object_env = \<lparr>go_gate = demo_gate_env\<lparr>ge_auth := demo_auth_env\<lparr>au_nodes := (view_nodes demo_view)\<lparr>gn_QueryParamsByTimestamp := (\<lambda>i t w. (Inr demo_params, w))\<rparr>\<rparr>\<rparr>,
     go_app = demo_app, go_maxPayloadSize = 100, go_InsertUploadEvent = (\<lambda>oid e k w. w), go_UploadObject = (\<lambda>t d w. (None, w)),
     go_ResumableUploadObject = (\<lambda>t d w. (None, w)), go_GetUploadObjectSegment = (\<lambda>oid w. (Inr 0, w)),
     go_GetPiece = (\<lambda>t w. (case GetPiece demo_pieces (dp_PieceKey t) (int64_of (dp_PieceOffset t)) (int64_of (dp_PieceLength t)) of
        Returns (Inr d) \<Rightarrow> Inr d | _ \<Rightarrow> Inl ErrDownloadPieceStore, w)),
     go_ReportTask = (\<lambda>t w. (None, w)), go_sleep = (\<lambda>t w. w), go_ticks = (\<lambda>w. 1)\<rparr>"

definition demo_get :: "string \<Rightarrow> string \<Rightarrow> http_request" where
  "demo_get authorization rng = \<lparr>rq_Header = (\<lambda>h. if h = ''Authorization'' then authorization else if h = ''Range'' then rng else []),
     rq_Vars = (\<lambda>v. if v = ''bucket'' then ''photos'' else if v = ''object'' then ''cat'' else []), rq_Query = (\<lambda>q. []), rq_Body = []\<rparr>"

definition demo_cat :: ObjectInfo where
  "demo_cat = nil_object\<lparr>BucketName := ''photos'', ObjectName := ''cat'', Id := 7, PayloadSize := 3, ObjectStatus := OBJECT_STATUS_SEALED\<rparr>"

lemma demo_stored: "stored_segments demo_pieces 7 0 (segments 2 [1, 2, 3])"
proof -
  have "segments 2 [1, 2, 3 :: 8 word] = [[1, 2], [3]]" by code_simp
  moreover have "SegmentPieceKey 7 0 = ''s7_s0''" "SegmentPieceKey 7 1 = ''s7_s1''" by code_simp+
  moreover have "store_ok demo_pieces" by (simp add: demo_pieces_def store_ok_def mem_content_def)
  ultimately show ?thesis by (auto simp: stored_segments_def less_Suc_eq numeral_2_eq_2 demo_pieces_def mem_content_def)
qed

theorem range_header_read_witness:
  "requested_range ''Bytes=1-12'' 10 = Inr (True, 1, 9) \<and> requested_range ''bytes=1-'' 10 = Inr (True, 1, 9)"
proof -
  have "show_nat 1 = ''1''" "show_nat 12 = ''12''" by code_simp+
  then show ?thesis using range_header_read [of 1 12 10] by simp
qed

theorem recovered_range_panics_witness:
  "\<exists>env task p. deliver_pieces (env :: (nat, OffChainAuthKey list) object_env) task (demo_params\<lparr>MaxSegmentSize := 10\<rparr>) True [p] [] demo_auth = Panics"
proof -
  let ?env = "demo_object_env\<lparr>go_GetPiece := (\<lambda>t w. (if w = 500 then Inl ErrDownloadPieceStore else Inr [9], w)), go_sleep := (\<lambda>t w. 501)\<rparr>"
  let ?p = "\<lparr>si_SegmentPieceKey = SegmentPieceKey 7 0, si_Offset = 5, si_Length = 1\<rparr>"
  let ?params = "demo_params\<lparr>MaxSegmentSize := 10\<rparr>"
  let ?task = "InitDownloadObjectTask 0 (Some (demo_cat\<lparr>PayloadSize := 20\<rparr>)) None (Some ?params) 0 [] 5 5 0 0"
  have "TaskTimeout (go_app ?env) TypeTaskRecoverPiece (MaxSegmentSize ?params) = Returns 50"
    "SegmentPieceSize (PayloadSize (object_of (do_ObjectInfo ?task))) 0 (MaxSegmentSize ?params) = Returns 10" by code_simp+
  moreover have "fst (tryDownloadAfterRecovery ?env t w) = Inr [9]" for t w
    by (simp add: tryDownloadAfterRecovery_def demo_object_env_def gate_out_def)
  moreover have "am_world demo_auth = 500" "0 \<le> downloadSpeed (go_app ?env)" "downloadSpeed (go_app ?env) < 2 ^ 63 - 1"
    by (simp_all add: demo_auth_def demo_object_env_def demo_app_def)
  ultimately have "deliver_pieces ?env ?task ?params True [?p] [] demo_auth = Panics"
    by (intro recovered_range_panics [where oid = 7 and i = 0 and data = "[9]" and segSize = 10 and timeout = 50 and err = ErrDownloadPieceStore]) simp_all
  then show ?thesis by blast
qed

end
