(* ===== verification/Services.thy ===== *)
theory Services
  imports Downloader Receiver Approver Executor
begin

text \<open>
  The gRPC services of the downloader, the receiver and the approver, and their clients:
  \<open>base/gfspapp/download_server.go\<close>, \<open>receive_server.go\<close>, \<open>approval_server.go\<close> and \<open>base/gfspclient/downloader.go\<close>,
  \<open>receiver.go\<close>, \<open>approver.go\<close>.

  A server function returns the error field of the response and the rest of it. \<open>reserve\<close> is the answer of the resource
  scope of the module, whose accounting is the subject of \<open>Scopes\<close>. A client gets \<open>ErrRpcUnknown\<close> when it has no
  connection or the call itself fails, as it does when the server panics.
\<close>

section \<open>Errors and responses\<close>

definition service_errors :: "registration list" where
  "service_errors =
    [(''gfsp-base-app'', StatusBadRequest, 990101, ''OoooH... request lost''),
     (''gfsp-base-app'', StatusBadRequest, 990102, ''server overload, try again later''),
     (''gfsp-base-app'', StatusBadRequest, 990301, ''OoooH... request lost''),
     (''gfsp-base-app'', StatusBadRequest, 990302, ''server overload, try again later''),
     (''gfsp-base-app'', StatusBadRequest, 990801, ''OoooH... request lost''),
     (''gfsp-base-app'', StatusBadRequest, 990802, ''server overload, try again later'')]"

definition service_error :: "nat \<Rightarrow> GfSpError" where
  "service_error i = registered (service_errors ! i)"

abbreviation "ErrApprovalTaskDangling \<equiv> service_error 0"
abbreviation "ErrApprovalExhaustResource \<equiv> service_error 1"
abbreviation "ErrDownloadTaskDangling \<equiv> service_error 2"
abbreviation "ErrDownloadExhaustResource \<equiv> service_error 3"
abbreviation "ErrReceiveTaskDangling \<equiv> service_error 4"
abbreviation "ErrReceiveExhaustResource \<equiv> service_error 5"

definition ErrTypeMismatch :: go_error where
  "ErrTypeMismatch = GfSpErr (registered (''GfSpClient'', StatusBadRequest, 98101, ''response type mismatch''))"

definition response_of :: "'a \<Rightarrow> (go_error + 'a) \<Rightarrow> GfSpError option \<times> 'a" where
  "response_of zero r = (case r of Inl err \<Rightarrow> (MakeGfSpError (Some err), zero) | Inr x \<Rightarrow> (None, x))"

text \<open>
  A client call to a server. A call that the server does not answer is an error for the client; when the reason is a panic, which no handler recovers, the
  process of the server has ended: the state that is returned is then what the server left behind, and no later call is served.
\<close>

definition client_call :: "bool \<Rightarrow> ('s \<Rightarrow> ((GfSpError option \<times> 'a) \<times> 's) go) \<Rightarrow> 's \<Rightarrow> (go_error + 'a) \<times> 's" where
  "client_call conn serve s =
     (if \<not> conn then (Inl ErrRpcUnknown, s)
      else case serve s of
        Panics \<Rightarrow> (Inl ErrRpcUnknown, s)
      | Returns ((Some e, _), s) \<Rightarrow> (Inl (GfSpErr e), s)
      | Returns ((None, x), s) \<Rightarrow> (Inr x, s))"

text \<open>A request is served inside a span over the estimate of its task; the key of the task goes into the log context.\<close>

definition reserving :: "(ScopeStat option \<Rightarrow> bool) \<Rightarrow> GfSpError \<Rightarrow> 'a \<Rightarrow> Task \<Rightarrow> 's \<Rightarrow> ((GfSpError option \<times> 'a) \<times> 's) go
    \<Rightarrow> ((GfSpError option \<times> 'a) \<times> 's) go" where
  "reserving reserve exhausted zero t s serve =
     (if \<not> key_defined t then Panics
      else bind_go (EstimateLimit t) (\<lambda>l.
        if \<not> reserve (LimitScopeStat l) then Returns ((Some exhausted, zero), s) else serve))"

section \<open>The downloader\<close>

definition OnDownloadObjectTask :: "('s, 'd, 'i, 'c) download_env \<Rightarrow> int64 \<Rightarrow> int64 \<Rightarrow> GfSpDownloadObjectTask \<Rightarrow> ('s, 'd, 'i, 'c) DownloadModular
    \<Rightarrow> ((go_error + bytes) \<times> ('s, 'd, 'i, 'c) DownloadModular) go" where
  "OnDownloadObjectTask env now nowUs t d =
     (if do_ObjectInfo t = None then Returns (Inl (GfSpErr ErrDownloadTaskDangling), d)
      else bind_go (PreDownloadObject env now nowUs (Some t) d) (\<lambda>(err, d).
        case err of
          Some err \<Rightarrow> Returns (Inl err, d)
        | None \<Rightarrow> bind_go (Downloader.HandleDownloadObjectTask env t d) (\<lambda>(r, _, d). Returns (r, d))))"

definition GfSpDownloadObject :: "('s, 'd, 'i, 'c) download_env \<Rightarrow> (ScopeStat option \<Rightarrow> bool) \<Rightarrow> int64 \<Rightarrow> int64 \<Rightarrow> GfSpDownloadObjectTask option
    \<Rightarrow> ('s, 'd, 'i, 'c) DownloadModular \<Rightarrow> ((GfSpError option \<times> bytes) \<times> ('s, 'd, 'i, 'c) DownloadModular) go" where
  "GfSpDownloadObject env reserve now nowUs task d =
     (case task of
        None \<Rightarrow> Returns ((Some ErrDownloadTaskDangling, []), d)
      | Some t \<Rightarrow>
          reserving reserve ErrDownloadExhaustResource [] (DownloadObjectTask t) d
            (bind_go (OnDownloadObjectTask env now nowUs t d) (\<lambda>(r, d). Returns (response_of [] r, d))))"

definition client_GetObject :: "bool \<Rightarrow> ('s, 'd, 'i, 'c) download_env \<Rightarrow> (ScopeStat option \<Rightarrow> bool) \<Rightarrow> int64 \<Rightarrow> int64 \<Rightarrow> GfSpDownloadObjectTask
    \<Rightarrow> ('s, 'd, 'i, 'c) DownloadModular \<Rightarrow> (go_error + bytes) \<times> ('s, 'd, 'i, 'c) DownloadModular" where
  "client_GetObject conn env reserve now nowUs t d = client_call conn (GfSpDownloadObject env reserve now nowUs (Some t)) d"

definition OnDownloadPieceTask :: "('s, 'd, 'i, 'c) download_env \<Rightarrow> int64 \<Rightarrow> int64 \<Rightarrow> GfSpDownloadPieceTask \<Rightarrow> ('s, 'd, 'i, 'c) DownloadModular
    \<Rightarrow> ((go_error + bytes) \<times> ('s, 'd, 'i, 'c) DownloadModular) go" where
  "OnDownloadPieceTask env now nowUs t d =
     (if dp_ObjectInfo t = None then Returns (Inl (GfSpErr ErrDownloadTaskDangling), d)
      else bind_go (PreDownloadPiece env now nowUs (Some t) d) (\<lambda>(err, d).
        case err of
          Some err \<Rightarrow> Returns (Inl err, d)
        | None \<Rightarrow> bind_go (HandleDownloadPieceTask env t d) (\<lambda>(r, _, d). Returns (r, d))))"

definition GfSpDownloadPiece :: "('s, 'd, 'i, 'c) download_env \<Rightarrow> (ScopeStat option \<Rightarrow> bool) \<Rightarrow> int64 \<Rightarrow> int64 \<Rightarrow> GfSpDownloadPieceTask option
    \<Rightarrow> ('s, 'd, 'i, 'c) DownloadModular \<Rightarrow> ((GfSpError option \<times> bytes) \<times> ('s, 'd, 'i, 'c) DownloadModular) go" where
  "GfSpDownloadPiece env reserve now nowUs task d =
     (case task of
        None \<Rightarrow> Returns ((Some ErrDownloadTaskDangling, []), d)
      | Some t \<Rightarrow>
          reserving reserve ErrDownloadExhaustResource [] (DownloadPieceTask t) d
            (bind_go (OnDownloadPieceTask env now nowUs t d) (\<lambda>(r, d). Returns (response_of [] r, d))))"

definition client_GetPiece :: "bool \<Rightarrow> ('s, 'd, 'i, 'c) download_env \<Rightarrow> (ScopeStat option \<Rightarrow> bool) \<Rightarrow> int64 \<Rightarrow> int64 \<Rightarrow> GfSpDownloadPieceTask
    \<Rightarrow> ('s, 'd, 'i, 'c) DownloadModular \<Rightarrow> (go_error + bytes) \<times> ('s, 'd, 'i, 'c) DownloadModular" where
  "client_GetPiece conn env reserve now nowUs t d = client_call conn (GfSpDownloadPiece env reserve now nowUs (Some t)) d"

definition OnChallengePieceTask :: "('s, 'd, 'i, 'c) download_env \<Rightarrow> (db_error \<Rightarrow> string) \<Rightarrow> int64 \<Rightarrow> GfSpChallengePieceTask
    \<Rightarrow> ('s, 'd, 'i, 'c) DownloadModular \<Rightarrow> ((go_error + bytes \<times> bytes list \<times> bytes) \<times> ('s, 'd, 'i, 'c) DownloadModular) go" where
  "OnChallengePieceTask env db_text now t d =
     (if ch_ObjectInfo t = None then Returns (Inl (GfSpErr ErrDownloadTaskDangling), d)
      else case PreChallengePiece (Some t) d of
        (Some err, d) \<Rightarrow> Returns (Inl err, d)
      | (None, d) \<Rightarrow> bind_go (HandleChallengePiece env db_text now t d) (\<lambda>(r, _, d). Returns (r, d)))"

definition GfSpGetChallengeInfo :: "('s, 'd, 'i, 'c) download_env \<Rightarrow> (ScopeStat option \<Rightarrow> bool) \<Rightarrow> (db_error \<Rightarrow> string) \<Rightarrow> int64
    \<Rightarrow> GfSpChallengePieceTask option \<Rightarrow> ('s, 'd, 'i, 'c) DownloadModular
    \<Rightarrow> ((GfSpError option \<times> bytes \<times> bytes list \<times> bytes) \<times> ('s, 'd, 'i, 'c) DownloadModular) go" where
  "GfSpGetChallengeInfo env reserve db_text now task d =
     (case task of
        None \<Rightarrow> Returns ((Some ErrDownloadTaskDangling, [], [], []), d)
      | Some t \<Rightarrow>
          reserving reserve ErrDownloadExhaustResource ([], [], []) (ChallengePieceTask t) d
            (bind_go (OnChallengePieceTask env db_text now t d) (\<lambda>(r, d). Returns (response_of ([], [], []) r, d))))"

definition client_GetChallengeInfo :: "bool \<Rightarrow> ('s, 'd, 'i, 'c) download_env \<Rightarrow> (ScopeStat option \<Rightarrow> bool) \<Rightarrow> (db_error \<Rightarrow> string) \<Rightarrow> int64
    \<Rightarrow> GfSpChallengePieceTask \<Rightarrow> ('s, 'd, 'i, 'c) DownloadModular \<Rightarrow> (go_error + bytes \<times> bytes list \<times> bytes) \<times> ('s, 'd, 'i, 'c) DownloadModular" where
  "client_GetChallengeInfo conn env reserve db_text now t d = client_call conn (GfSpGetChallengeInfo env reserve db_text now (Some t)) d"

section \<open>The receiver\<close>

definition GfSpReplicatePiece :: "('s, 'i, 'p) receive_env \<Rightarrow> (ScopeStat option \<Rightarrow> bool) \<Rightarrow> int64 \<Rightarrow> int64 \<Rightarrow> int64 \<Rightarrow> GfSpReceivePieceTask option \<Rightarrow> bytes
    \<Rightarrow> ('s, 'i, 'p) ReceiveModular \<Rightarrow> ((GfSpError option \<times> unit) \<times> ('s, 'i, 'p) ReceiveModular) go" where
  "GfSpReplicatePiece env reserve n1 n2 n3 task data r =
     (case task of
        None \<Rightarrow> Returns ((Some ErrReceiveTaskDangling, ()), r)
      | Some t \<Rightarrow>
          reserving reserve ErrReceiveExhaustResource () (ReceivePieceTask t) r
            (bind_go (receiver_HandleReceivePieceTask env n1 n2 n3 (Some t) data r) (\<lambda>(err, _, r).
               Returns ((MakeGfSpError err, ()), r))))"

definition client_ReplicatePiece :: "bool \<Rightarrow> ('s, 'i, 'p) receive_env \<Rightarrow> (ScopeStat option \<Rightarrow> bool) \<Rightarrow> int64 \<Rightarrow> int64 \<Rightarrow> int64 \<Rightarrow> GfSpReceivePieceTask
    \<Rightarrow> bytes \<Rightarrow> ('s, 'i, 'p) ReceiveModular \<Rightarrow> go_error option \<times> ('s, 'i, 'p) ReceiveModular" where
  "client_ReplicatePiece conn env reserve n1 n2 n3 t data r =
     (case client_call conn (GfSpReplicatePiece env reserve n1 n2 n3 (Some t) data) r of
        (Inl err, r) \<Rightarrow> (Some err, r) | (Inr _, r) \<Rightarrow> (None, r))"

text \<open>The end of a replication is served without a reservation.\<close>

definition GfSpDoneReplicatePiece :: "('s, 'i, 'p) receive_env \<Rightarrow> int64 \<Rightarrow> int64 \<Rightarrow> GfSpReceivePieceTask option
    \<Rightarrow> ('s, 'i, 'p) ReceiveModular \<Rightarrow> ((GfSpError option \<times> bytes \<times> bytes) \<times> ('s, 'i, 'p) ReceiveModular) go" where
  "GfSpDoneReplicatePiece env n1 n2 task r =
     (case task of
        None \<Rightarrow> Returns ((Some ErrReceiveTaskDangling, [], []), r)
      | Some t \<Rightarrow>
          if \<not> key_defined (ReceivePieceTask t) then Panics
          else bind_go (HandleDoneReceivePieceTask env n1 n2 (Some t) r) (\<lambda>(res, _, r). Returns (response_of ([], []) res, r)))"

definition client_DoneReplicatePiece :: "bool \<Rightarrow> ('s, 'i, 'p) receive_env \<Rightarrow> int64 \<Rightarrow> int64 \<Rightarrow> GfSpReceivePieceTask
    \<Rightarrow> ('s, 'i, 'p) ReceiveModular \<Rightarrow> (go_error + bytes \<times> bytes) \<times> ('s, 'i, 'p) ReceiveModular" where
  "client_DoneReplicatePiece conn env n1 n2 t r = client_call conn (GfSpDoneReplicatePiece env n1 n2 (Some t)) r"

section \<open>The approver\<close>

datatype approval_request = BucketRequest GfSpCreateBucketApprovalTask | ObjectRequest GfSpCreateObjectApprovalTask

definition OnAskCreateBucketApproval :: "approval_env \<Rightarrow> int64 \<Rightarrow> int64 \<Rightarrow> int64 \<Rightarrow> GfSpCreateBucketApprovalTask \<Rightarrow> ApprovalModular
    \<Rightarrow> ((bool \<times> go_error option) \<times> GfSpCreateBucketApprovalTask \<times> ApprovalModular) go" where
  "OnAskCreateBucketApproval env n1 n2 n3 t a =
     (if cb_CreateBucketInfo t = None then Returns ((False, Some (GfSpErr ErrApprovalTaskDangling)), t, a)
      else bind_go (HandleCreateBucketApprovalTask env n1 n2 n3 (Some t) a) (\<lambda>((allow, err), t', a).
        Returns (if err \<noteq> None then (False, err) else (allow, None), case t' of Some (CreateBucketApprovalTask t') \<Rightarrow> t' | _ \<Rightarrow> t, a)))"

definition OnAskCreateObjectApproval :: "approval_env \<Rightarrow> int64 \<Rightarrow> int64 \<Rightarrow> int64 \<Rightarrow> GfSpCreateObjectApprovalTask \<Rightarrow> ApprovalModular
    \<Rightarrow> ((bool \<times> go_error option) \<times> GfSpCreateObjectApprovalTask \<times> ApprovalModular) go" where
  "OnAskCreateObjectApproval env n1 n2 n3 t a =
     (if co_CreateObjectInfo t = None then Returns ((False, Some (GfSpErr ErrApprovalTaskDangling)), t, a)
      else bind_go (HandleCreateObjectApprovalTask env n1 n2 n3 (Some t) a) (\<lambda>((allow, err), t', a).
        Returns (if err \<noteq> None then (False, err) else (allow, None), case t' of Some (CreateObjectApprovalTask t') \<Rightarrow> t' | _ \<Rightarrow> t, a)))"

definition GfSpAskApproval :: "approval_env \<Rightarrow> (ScopeStat option \<Rightarrow> bool) \<Rightarrow> int64 \<Rightarrow> int64 \<Rightarrow> int64 \<Rightarrow> approval_request option \<Rightarrow> ApprovalModular
    \<Rightarrow> ((GfSpError option \<times> bool \<times> approval_request option) \<times> ApprovalModular) go" where
  "GfSpAskApproval env reserve n1 n2 n3 req a =
     (case req of
        None \<Rightarrow> Returns ((Some ErrApprovalTaskDangling, False, None), a)
      | Some (BucketRequest t) \<Rightarrow>
          reserving reserve ErrApprovalExhaustResource (False, None) (CreateBucketApprovalTask t) a
            (bind_go (OnAskCreateBucketApproval env n1 n2 n3 t a) (\<lambda>((allow, err), t, a).
               Returns ((MakeGfSpError err, allow, Some (BucketRequest t)), a)))
      | Some (ObjectRequest t) \<Rightarrow>
          reserving reserve ErrApprovalExhaustResource (False, None) (CreateObjectApprovalTask t) a
            (bind_go (OnAskCreateObjectApproval env n1 n2 n3 t a) (\<lambda>((allow, err), t, a).
               Returns ((MakeGfSpError err, allow, Some (ObjectRequest t)), a))))"

definition client_AskCreateBucketApproval :: "bool \<Rightarrow> approval_env \<Rightarrow> (ScopeStat option \<Rightarrow> bool) \<Rightarrow> int64 \<Rightarrow> int64 \<Rightarrow> int64
    \<Rightarrow> GfSpCreateBucketApprovalTask \<Rightarrow> ApprovalModular \<Rightarrow> (go_error + bool \<times> GfSpCreateBucketApprovalTask) \<times> ApprovalModular" where
  "client_AskCreateBucketApproval conn env reserve n1 n2 n3 t a =
     (case client_call conn (GfSpAskApproval env reserve n1 n2 n3 (Some (BucketRequest t))) a of
        (Inl err, a) \<Rightarrow> (Inl err, a)
      | (Inr (allowed, Some (BucketRequest t)), a) \<Rightarrow> (Inr (allowed, t), a)
      | (Inr _, a) \<Rightarrow> (Inl ErrTypeMismatch, a))"

definition client_AskCreateObjectApproval :: "bool \<Rightarrow> approval_env \<Rightarrow> (ScopeStat option \<Rightarrow> bool) \<Rightarrow> int64 \<Rightarrow> int64 \<Rightarrow> int64
    \<Rightarrow> GfSpCreateObjectApprovalTask \<Rightarrow> ApprovalModular \<Rightarrow> (go_error + bool \<times> GfSpCreateObjectApprovalTask) \<times> ApprovalModular" where
  "client_AskCreateObjectApproval conn env reserve n1 n2 n3 t a =
     (case client_call conn (GfSpAskApproval env reserve n1 n2 n3 (Some (ObjectRequest t))) a of
        (Inl err, a) \<Rightarrow> (Inl err, a)
      | (Inr (allowed, Some (ObjectRequest t)), a) \<Rightarrow> (Inr (allowed, t), a)
      | (Inr _, a) \<Rightarrow> (Inl ErrTypeMismatch, a))"

end
