(* ===== verification/GateDownload.thy ===== *)
theory GateDownload
  imports GateObject Services
begin

text \<open>
  The gateway with the downloader behind it. The outside world of the gateway is the downloader, reached over gRPC, and the
  list of the tasks that the gateway reported to the manager. The downloader hands every piece task to the client of the manager
  as well (\<open>dl_reported\<close>), which has no request for this type of task (\<open>reportable\<close>) and refuses it.
\<close>

section \<open>Reading a piece through the service\<close>

text \<open>A downloader that can serve: its cache agrees with its piece store, and it is below its number of parallel downloads.\<close>

definition reader_ready :: "('s, 'd, 'i, 'c) download_env \<Rightarrow> ('c \<Rightarrow> string \<Rightarrow> bytes option) \<Rightarrow> ('s, 'd, 'i, 'c) DownloadModular \<Rightarrow> bool" where
  "reader_ready env cached d \<longleftrightarrow> piece_cache (de_cache_get env) (de_cache_add env) cached
     \<and> cache_sound cached (de_get env) (dl_pieceStore d) (dl_pieceCache d) \<and> i64 (dl_downloading d + 1) < dl_downloadParallel d"

lemma HandleDownloadPieceTask_reads:
  assumes "reader_ready env cached d" "de_get env (dl_pieceStore d) (dp_PieceKey t) (int64_of (dp_PieceOffset t)) (int64_of (dp_PieceLength t)) = Returns (Inr data)"
  shows "\<exists>c. HandleDownloadPieceTask env t d = Returns (Inr data, DownloadPieceTask t, d\<lparr>dl_pieceCache := c\<rparr>)
    \<and> reader_ready env cached (d\<lparr>dl_pieceCache := c\<rparr>)"
proof -
  let ?key = "cacheKey (dp_PieceKey t) (int64_of (dp_PieceOffset t)) (int64_of (dp_PieceLength t))"
  obtain c where c: "de_cache_get env (dl_pieceCache d) ?key = (cached (dl_pieceCache d) ?key, c)" "cached c = cached (dl_pieceCache d)"
    using assms(1) piece_cache.get_cached unfolding reader_ready_def by metis
  have "reader_ready env cached (d\<lparr>dl_pieceCache := c\<rparr>)" using assms(1) c(2) by (simp add: reader_ready_def cache_sound_def)
  moreover have "x = data" if "cached (dl_pieceCache d) ?key = Some x" for x
    using assms that unfolding reader_ready_def cache_sound_def by fastforce
  moreover have "\<not> dl_downloadParallel d \<le> i64 (dl_downloading d + 1)" using assms(1) by (simp add: reader_ready_def)
  ultimately show ?thesis using c(1) assms(2)
    by (cases "cached (dl_pieceCache d) ?key") (auto simp: HandleDownloadPieceTask_def Let_def)
qed

lemma client_GetPiece_reads:
  assumes "dp_ObjectInfo t = Some ob" "\<And>s. reserve s" "PreDownloadPiece env now nowUs (Some t) d = Returns (None, d1)" "reader_ready env cached d1"
    "de_get env (dl_pieceStore d1) (dp_PieceKey t) (int64_of (dp_PieceOffset t)) (int64_of (dp_PieceLength t)) = Returns (Inr data)"
  shows "\<exists>c. client_GetPiece True env reserve now nowUs t d = (Inr data, d1\<lparr>dl_pieceCache := c\<rparr>) \<and> reader_ready env cached (d1\<lparr>dl_pieceCache := c\<rparr>)"
proof -
  obtain c where "HandleDownloadPieceTask env t d1 = Returns (Inr data, DownloadPieceTask t, d1\<lparr>dl_pieceCache := c\<rparr>)"
    "reader_ready env cached (d1\<lparr>dl_pieceCache := c\<rparr>)"
    using HandleDownloadPieceTask_reads [OF assms(4,5)] by blast
  then show ?thesis using assms(1-3)
    by (auto simp: client_GetPiece_def client_call_def GfSpDownloadPiece_def reserving_def OnDownloadPieceTask_def response_of_def)
qed

section \<open>The quota\<close>

definition read_record :: "BucketInfo \<Rightarrow> ObjectInfo \<Rightarrow> string \<Rightarrow> uint64 \<Rightarrow> int64 \<Rightarrow> ReadRecord" where
  "read_record b ob account bytes_read nowUs =
     \<lparr>rr_BucketID = bi_Id b, rr_ObjectID = Id ob, rr_UserAddress = account, rr_BucketName = bi_BucketName b, rr_ObjectName = ObjectName ob,
      rr_ReadSize = bytes_read, rr_ReadTimestampUs = nowUs\<rparr>"

definition charge :: "('s, 'd, 'i, 'c) download_env \<Rightarrow> int64 \<Rightarrow> ReadRecord \<Rightarrow> BucketInfo \<Rightarrow> ('s, 'd, 'i, 'c) DownloadModular \<Rightarrow> quota_error option \<times> 'd" where
  "charge env now rec b d =
     CheckQuotaAndAddReadRecord (de_traffic env) (de_month_of env) now (dl_traffic d) rec (ChargedReadQuota b + dl_bucketFreeQuota d)"

definition asked :: "ObjectInfo \<Rightarrow> BucketInfo \<Rightarrow> Params \<Rightarrow> string \<Rightarrow> uint64 \<Rightarrow> GfSpDownloadPieceTask \<Rightarrow> bool" where
  "asked ob b params account bytes_read t \<longleftrightarrow> dp_ObjectInfo t = Some ob \<and> dp_BucketInfo t = Some b \<and> dp_StorageParams t = Some params
     \<and> dp_UserAddress t = account \<and> dp_TotalSize t = bytes_read \<and> ObjectStatus ob = OBJECT_STATUS_SEALED \<and> account \<noteq> PrimarySpAddress b"

lemma PreDownloadPiece_first:
  assumes "asked ob b params account n t" "dp_EnableCheck t" "de_operator env = PrimarySpAddress b"
  shows "PreDownloadPiece env now nowUs (Some t) d
    = Returns (if fst (charge env now (read_record b ob account n nowUs) b d) = Some ErrCheckQuotaEnough then Some ErrExceedBucketQuota else None,
        d\<lparr>dl_traffic := snd (charge env now (read_record b ob account n nowUs) b d), dl_reported := dl_reported d @ [DownloadPieceTask t]\<rparr>)"
  using assms by (auto simp: PreDownloadPiece_def report_piece_def asked_def check_quota_def read_record_def charge_def Let_def split: prod.splits)

lemma PreDownloadPiece_next:
  assumes "asked ob b params account n t" "\<not> dp_EnableCheck t"
  shows "PreDownloadPiece env now nowUs (Some t) d = Returns (None, d\<lparr>dl_reported := dl_reported d @ [DownloadPieceTask t]\<rparr>)"
  using assms by (simp add: PreDownloadPiece_def report_piece_def asked_def Let_def)

section \<open>The downloader as the reader of the gateway\<close>

definition over_fst :: "('t \<Rightarrow> 'd \<Rightarrow> 'a \<times> 'd) \<Rightarrow> 't \<Rightarrow> 'd \<times> 'l \<Rightarrow> 'a \<times> 'd \<times> 'l" where
  "over_fst f t w = (case f t (fst w) of (x, d) \<Rightarrow> (x, d, snd w))"

type_synonym ('s, 'd, 'i, 'c) download_world = "('s, 'd, 'i, 'c) DownloadModular \<times> Task list"

text \<open>
  Before the first piece nothing has changed; afterwards the traffic table has the charge of the whole range, and
  piece tasks of the download were reported.
\<close>

definition uncharged :: "(ObjectStorage, 'd, 'i, 'c) download_env \<Rightarrow> (ScopeStat option \<Rightarrow> bool) \<Rightarrow> ('c \<Rightarrow> string \<Rightarrow> bytes option) \<Rightarrow> ObjectStorage
    \<Rightarrow> int64 \<Rightarrow> ReadRecord \<Rightarrow> BucketInfo \<Rightarrow> (ObjectStorage, 'd, 'i, 'c) download_world \<Rightarrow> (ObjectStorage, 'd, 'i, 'c) download_world \<Rightarrow> bool" where
  "uncharged env reserve cached ps now rec b w0 w \<longleftrightarrow> w = w0 \<and> (\<forall>s. reserve s) \<and> de_get env = GetPiece \<and> dl_pieceStore (fst w0) = ps
     \<and> reader_ready env cached (fst w0) \<and> de_operator env = PrimarySpAddress b \<and> fst (charge env now rec b (fst w0)) \<noteq> Some ErrCheckQuotaEnough"

definition charged_once :: "(ObjectStorage, 'd, 'i, 'c) download_env \<Rightarrow> (ScopeStat option \<Rightarrow> bool) \<Rightarrow> ('c \<Rightarrow> string \<Rightarrow> bytes option) \<Rightarrow> ObjectStorage
    \<Rightarrow> int64 \<Rightarrow> ReadRecord \<Rightarrow> BucketInfo \<Rightarrow> (GfSpDownloadPieceTask \<Rightarrow> bool) \<Rightarrow> (ObjectStorage, 'd, 'i, 'c) download_world
    \<Rightarrow> (ObjectStorage, 'd, 'i, 'c) download_world \<Rightarrow> bool" where
  "charged_once env reserve cached ps now rec b asks w0 w \<longleftrightarrow> (\<forall>s. reserve s) \<and> de_get env = GetPiece \<and> dl_pieceStore (fst w) = ps
     \<and> reader_ready env cached (fst w) \<and> dl_traffic (fst w) = snd (charge env now rec b (fst w0)) \<and> snd w = snd w0
     \<and> (\<exists>ts. ts \<noteq> [] \<and> (\<forall>t \<in> set ts. asks t) \<and> dl_reported (fst w) = dl_reported (fst w0) @ map DownloadPieceTask ts)"

interpretation downloader: piece_reader "over_fst (client_GetPiece True env reserve now nowUs)"
    "uncharged env reserve cached ps now (read_record b ob account n nowUs) b w0"
    "charged_once env reserve cached ps now (read_record b ob account n nowUs) b (asked ob b params account n) w0" "asked ob b params account n" ps
  for env reserve now nowUs cached ps ob b params account n w0
proof
  fix w t data
  assume w: "uncharged env reserve cached ps now (read_record b ob account n nowUs) b w0 w" and t: "asked ob b params account n t" "dp_EnableCheck t"
    and get: "GetPiece ps (dp_PieceKey t) (int64_of (dp_PieceOffset t)) (int64_of (dp_PieceLength t)) = Returns (Inr data)"
  let ?d1 = "fst w0\<lparr>dl_traffic := snd (charge env now (read_record b ob account n nowUs) b (fst w0)),
    dl_reported := dl_reported (fst w0) @ [DownloadPieceTask t]\<rparr>"
  have "PreDownloadPiece env now nowUs (Some t) (fst w) = Returns (None, ?d1)"
    using w t PreDownloadPiece_first [of ob b params account n t env now nowUs "fst w"] by (simp add: uncharged_def)
  moreover have "reader_ready env cached ?d1" "dl_pieceStore ?d1 = ps" "de_get env = GetPiece" "\<And>s. reserve s"
    using w by (auto simp: uncharged_def reader_ready_def)
  ultimately obtain c where "client_GetPiece True env reserve now nowUs t (fst w) = (Inr data, ?d1\<lparr>dl_pieceCache := c\<rparr>)"
    "reader_ready env cached (?d1\<lparr>dl_pieceCache := c\<rparr>)"
    using client_GetPiece_reads [of t ob reserve env now nowUs "fst w" ?d1 cached data] t get by (auto simp: asked_def)
  then show "\<exists>w'. over_fst (client_GetPiece True env reserve now nowUs) t w = (Inr data, w')
      \<and> charged_once env reserve cached ps now (read_record b ob account n nowUs) b (asked ob b params account n) w0 w'"
    using w t(1) by (auto simp: over_fst_def charged_once_def uncharged_def intro!: exI [of _ "[t]"])
next
  fix w t data
  assume w: "charged_once env reserve cached ps now (read_record b ob account n nowUs) b (asked ob b params account n) w0 w" and t: "asked ob b params account n t" "\<not> dp_EnableCheck t"
    and get: "GetPiece ps (dp_PieceKey t) (int64_of (dp_PieceOffset t)) (int64_of (dp_PieceLength t)) = Returns (Inr data)"
  let ?d1 = "(fst w)\<lparr>dl_reported := dl_reported (fst w) @ [DownloadPieceTask t]\<rparr>"
  have "reader_ready env cached ?d1" using w by (auto simp: charged_once_def reader_ready_def)
  moreover have "PreDownloadPiece env now nowUs (Some t) (fst w) = Returns (None, ?d1)" using PreDownloadPiece_next [OF t] .
  ultimately obtain c where "client_GetPiece True env reserve now nowUs t (fst w) = (Inr data, ?d1\<lparr>dl_pieceCache := c\<rparr>)"
    "reader_ready env cached (?d1\<lparr>dl_pieceCache := c\<rparr>)"
    using client_GetPiece_reads [of t ob reserve env now nowUs "fst w" ?d1 cached data] w t get by (auto simp: asked_def charged_once_def)
  then show "\<exists>w'. over_fst (client_GetPiece True env reserve now nowUs) t w = (Inr data, w')
      \<and> charged_once env reserve cached ps now (read_record b ob account n nowUs) b (asked ob b params account n) w0 w'"
    using w t(1) unfolding charged_once_def
    by (auto simp: over_fst_def) (metis (no_types, lifting) Un_iff append_assoc append_is_Nil_conv insert_iff list.map(1,2) list.simps(15) map_append set_append empty_iff list.set(1))
qed

section \<open>A download\<close>

lemma piece_of_asked:
  assumes "piece_of (download_task env reqCtx ob (Some b) params now timeout low high) t" "ObjectStatus ob = OBJECT_STATUS_SEALED"
    "rc_account reqCtx \<noteq> PrimarySpAddress b"
  shows "asked ob b params (rc_account reqCtx) (word_of_int (high - low + 1)) t"
  using assms by (simp add: piece_of_def asked_def download_task_def InitDownloadObjectTask_def)

text \<open>The gateway of a primary provider in front of a downloader that is ready, and the charge of a request.\<close>

definition in_front :: "((ObjectStorage, 'd, 'i, 'c) download_world, 'k) object_env \<Rightarrow> (ObjectStorage, 'd, 'i, 'c) download_env \<Rightarrow> ('c \<Rightarrow> string \<Rightarrow> bytes option)
    \<Rightarrow> int64 \<Rightarrow> int64 \<Rightarrow> BucketInfo \<Rightarrow> (ObjectStorage, 'd, 'i, 'c) download_world \<Rightarrow> bool" where
  "in_front env denv cached now nowUs b w \<longleftrightarrow> go_GetPiece env = over_fst (client_GetPiece True denv (\<lambda>s. True) now nowUs) \<and> de_get denv = GetPiece
     \<and> reader_ready denv cached (fst w) \<and> de_operator denv = PrimarySpAddress b"

lemma download_charged:
  assumes "NewRequestContext (go_gate env) r a = Returns (reqCtx, err, a1)" "check_read env AuthOpTypeGetObject reqCtx err a1 = Returns (None, a2)"
    and "in_front env denv cached now nowUs b (am_world a2)"
    and chain: "servable env (\<lambda>w. w = am_world a2) (rc_bucketName reqCtx) (rc_objectName reqCtx) ob (Some b) params"
    and stored: "stored_payload (dl_pieceStore (fst (am_world a2))) ob params payload"
    and "requested_range (rq_Header (rc_request reqCtx) ''Range'') (PayloadSize ob) = Inr (isRange, low, high)"
    and "ObjectStatus ob = OBJECT_STATUS_SEALED" "rc_account reqCtx \<noteq> PrimarySpAddress b"
    and rec: "rec = read_record b ob (rc_account reqCtx) (word_of_int (high - low + 1)) nowUs"
    and quota: "fst (charge denv now rec b (fst (am_world a2))) \<noteq> Some ErrCheckQuotaEnough"
  shows "\<exists>resp a'. getObjectHandler env r a = Returns (None, resp, a') \<and> rs_body resp = take (nat (high - low + 1)) (drop (nat low) payload)
    \<and> charged_once denv (\<lambda>s. True) cached (dl_pieceStore (fst (am_world a2))) now rec b
         (asked ob b params (rc_account reqCtx) (word_of_int (high - low + 1))) (am_world a2) (am_world a')"
proof -
  let ?ps = "dl_pieceStore (fst (am_world a2))" and ?w = "am_world a2"
  let ?asked = "asked ob b params (rc_account reqCtx) (word_of_int (high - low + 1))"
  let ?fresh = "uncharged denv (\<lambda>s. True) cached ?ps now rec b ?w" and ?charged = "charged_once denv (\<lambda>s. True) cached ?ps now rec b ?asked ?w"
  have fresh: "?fresh = (\<lambda>w. w = ?w)" using assms(3) quota by (auto simp: uncharged_def in_front_def fun_eq_iff)
  have reader: "piece_reader (go_GetPiece env) ?fresh ?charged ?asked ?ps"
    using downloader.piece_reader_axioms assms(3) unfolding in_front_def rec by metis
  have sv: "servable env ?fresh (rc_bucketName reqCtx) (rc_objectName reqCtx) ob (Some b) params" and w: "?fresh ?w" using chain unfolding fresh by simp_all
  have asks: "?asked t" if "piece_of (download_task env reqCtx ob (Some b) params now timeout low high) t" for now timeout t
    using piece_of_asked [OF that assms(7,8)] .
  show ?thesis using getObject_range [OF assms(1,2) sv stored assms(6) reader _ w] asks by blast
qed

text \<open>
  C11. A download through the gateway returns the bytes that were asked for and charges them once: when the sender may read a sealed
  object whose segments are in the piece store of the downloader, and the quota of the bucket allows it, the body of the response
  is the requested range of the payload (the whole payload without a range header), and the traffic table has one charge of the
  size of the range. The gateway reports nothing; the downloader hands piece tasks of this download, and nothing else, to the client of
  the manager, which refuses them for their type, so that the manager hears nothing of the download.
\<close>

theorem gateway_download:
  assumes "NewRequestContext (go_gate env) r a = Returns (reqCtx, err, a1)" "check_read env AuthOpTypeGetObject reqCtx err a1 = Returns (None, a2)"
    and "in_front env denv cached now nowUs b (am_world a2)"
    and chain: "servable env (\<lambda>w. w = am_world a2) (rc_bucketName reqCtx) (rc_objectName reqCtx) ob (Some b) params"
    and stored: "stored_payload (dl_pieceStore (fst (am_world a2))) ob params payload"
    and "requested_range (rq_Header (rc_request reqCtx) ''Range'') (PayloadSize ob) = Inr (isRange, low, high)"
    and "ObjectStatus ob = OBJECT_STATUS_SEALED" "rc_account reqCtx \<noteq> PrimarySpAddress b"
    and rec: "rec = read_record b ob (rc_account reqCtx) (word_of_int (high - low + 1)) nowUs"
    and quota: "fst (charge denv now rec b (fst (am_world a2))) \<noteq> Some ErrCheckQuotaEnough"
  shows "\<exists>resp a' ts. getObjectHandler env r a = Returns (None, resp, a') \<and> rs_body resp = take (nat (high - low + 1)) (drop (nat low) payload)
    \<and> dl_traffic (fst (am_world a')) = snd (charge denv now rec b (fst (am_world a2))) \<and> snd (am_world a') = snd (am_world a2)
    \<and> ts \<noteq> [] \<and> (\<forall>t \<in> set ts. asked ob b params (rc_account reqCtx) (word_of_int (high - low + 1)) t)
    \<and> dl_reported (fst (am_world a')) = dl_reported (fst (am_world a2)) @ map DownloadPieceTask ts
    \<and> filter reportable (map DownloadPieceTask ts) = []"
proof -
  obtain resp a' where "getObjectHandler env r a = Returns (None, resp, a')" "rs_body resp = take (nat (high - low + 1)) (drop (nat low) payload)"
    "charged_once denv (\<lambda>s. True) cached (dl_pieceStore (fst (am_world a2))) now rec b
       (asked ob b params (rc_account reqCtx) (word_of_int (high - low + 1))) (am_world a2) (am_world a')"
    using download_charged [OF assms] by blast
  then show ?thesis by (auto simp: charged_once_def)
qed

section \<open>Requests that are not verified\<close>

text \<open>
  C22. Anybody may read objects that are not public: a request that announces a signature of the second kind, with whatever signature
  and without an account, gets the whole payload of a sealed object although the chain answers that its sender has no permission. As for
  everybody else, the segments have to be in the piece store of the downloader, and the quota of the bucket has to allow the
  read; the bucket has a primary provider.
\<close>

theorem v2_reads_private_objects:
  assumes "has_prefix v2_prefix (rq_Header r ''Authorization'')" "rq_Header r ''Range'' = []"
    and "in_front env denv cached now nowUs b (am_world a)" "PrimarySpAddress b \<noteq> []"
    and chain: "servable env (\<lambda>w. w = am_world a) (rq_Vars r ''bucket'') (rq_Vars r ''object'') ob (Some b) params" "ObjectStatus ob = OBJECT_STATUS_SEALED"
    and denied: "answers (\<lambda>w. w = am_world a) (VerifyGetObjectPermission (au_nodes (ge_auth (go_gate env))) (au_gnfd (ge_auth (go_gate env))) []
      (rq_Vars r ''bucket'') (rq_Vars r ''object'')) (Inr False)"
    and stored: "stored_payload (dl_pieceStore (fst (am_world a))) ob params payload"
    and quota: "fst (charge denv now (read_record b ob [] (PayloadSize ob) nowUs) b (fst (am_world a))) \<noteq> Some ErrCheckQuotaEnough"
  shows "\<exists>resp a'. getObjectHandler env r a = Returns (None, resp, a') \<and> rs_body resp = payload"
proof -
  obtain reqCtx where c: "NewRequestContext (go_gate env) r a = Returns (reqCtx, None, a)" "\<not> NeedVerifyAuthentication reqCtx"
    "rc_bucketName reqCtx = rq_Vars r ''bucket''" "rc_objectName reqCtx = rq_Vars r ''object''" "rc_account reqCtx = []"
    using v2_unverified [OF assms(1)] by blast
  have req: "rc_request reqCtx = r" using NewRequestContext_request [OF c(1)] .
  obtain a1 where "chain env (\<lambda>n g. VerifyGetObjectPermission n g [] (rq_Vars r ''bucket'') (rq_Vars r ''object'')) a = (Inr False, a1)" "am_world a1 = am_world a"
    using chain_answer [where J = "\<lambda>w. w = am_world a" and q = "\<lambda>n g. VerifyGetObjectPermission n g [] (rq_Vars r ''bucket'') (rq_Vars r ''object'')"] denied
    by blast
  then have read: "check_read env AuthOpTypeGetObject reqCtx None a = Returns (None, a1)" "am_world a1 = am_world a"
    using c by (simp_all add: check_read_def check_permission_def permission_on_def)
  have "0 < uint (PayloadSize ob)" "uint (PayloadSize ob) < 2 ^ 63" using chain(1) by (simp_all add: servable_def)
  then have range: "requested_range (rq_Header (rc_request reqCtx) ''Range'') (PayloadSize ob) = Inr (False, 0, uint (PayloadSize ob) - 1)"
    using assms(2) req by (simp add: requested_range_def parseRange_def int64_of_u64_small i64_id in_i64_def)
  have "length payload = unat (PayloadSize ob)" using stored by (simp add: stored_payload_def)
  then have len: "nat (uint (PayloadSize ob) - 1 - 0 + 1) = length payload" by (simp add: nat_uint_eq)
  have front: "in_front env denv cached now nowUs b (am_world a1)" "servable env (\<lambda>w. w = am_world a1) (rc_bucketName reqCtx) (rc_objectName reqCtx) ob (Some b) params"
    "stored_payload (dl_pieceStore (fst (am_world a1))) ob params payload" "rc_account reqCtx \<noteq> PrimarySpAddress b"
    "fst (charge denv now (read_record b ob (rc_account reqCtx) (word_of_int (uint (PayloadSize ob) - 1 - 0 + 1)) nowUs) b (fst (am_world a1)))
       \<noteq> Some ErrCheckQuotaEnough"
    using assms(3,4) chain(1) stored quota c(3-5) unfolding read(2) by simp_all
  from download_charged [OF c(1) read(1) front(1-3) range chain(2) front(4) refl front(5)] show ?thesis using len by auto
qed

section \<open>An exhausted quota\<close>

text \<open>A downloader that refuses the first piece of a download, however often it is asked.\<close>

definition refusing :: "((ObjectStorage, 'd, 'i, 'c) download_world, 'k) object_env \<Rightarrow> (ObjectStorage, 'd, 'i, 'c) download_env \<Rightarrow> ('c \<Rightarrow> string \<Rightarrow> bytes option)
    \<Rightarrow> int64 \<Rightarrow> int64 \<Rightarrow> BucketInfo \<Rightarrow> ReadRecord \<Rightarrow> (ObjectStorage, 'd, 'i, 'c) download_world \<Rightarrow> bool" where
  "refusing env denv cached now nowUs b rec w \<longleftrightarrow> in_front env denv cached now nowUs b w
     \<and> charge denv now rec b (fst w) = (Some ErrCheckQuotaEnough, dl_traffic (fst w))"

lemma refused_piece:
  assumes "refusing env denv cached now nowUs b (read_record b ob account n nowUs) w" "asked ob b params account n t" "dp_EnableCheck t"
  shows "\<exists>e w'. go_GetPiece env t w = (Inl e, w') \<and> snd w' = snd w \<and> refusing env denv cached now nowUs b (read_record b ob account n nowUs) w'"
proof -
  let ?d = "(fst w)\<lparr>dl_reported := dl_reported (fst w) @ [DownloadPieceTask t]\<rparr>"
  have "PreDownloadPiece denv now nowUs (Some t) (fst w) = Returns (Some ErrExceedBucketQuota, ?d)"
    using PreDownloadPiece_first [OF assms(2,3), of denv now nowUs "fst w"] assms(1) by (simp add: refusing_def in_front_def)
  moreover have "MakeGfSpError (Some ErrExceedBucketQuota) \<noteq> None" by code_simp
  ultimately have "\<exists>e. go_GetPiece env t w = (Inl e, (?d, snd w))" using assms(1,2)
    by (auto simp: refusing_def in_front_def over_fst_def client_GetPiece_def client_call_def GfSpDownloadPiece_def reserving_def OnDownloadPieceTask_def
        response_of_def asked_def)
  then show ?thesis using assms(1) by (auto simp: refusing_def in_front_def reader_ready_def charge_def)
qed

lemma SegmentPieceSize_returns: "m \<noteq> 0 \<Longrightarrow> \<exists>sz. SegmentPieceSize p i m = Returns sz"
  by (auto simp: SegmentPieceSize_def SegmentPieceCount_def Let_def)

lemma refused_tries:
  assumes "\<And>w. Q w \<Longrightarrow> \<exists>e w'. go_GetPiece env t w = (Inl e, w') \<and> snd w' = snd w \<and> Q w'" "Q (am_world a)"
  shows "\<exists>e a'. try_download env n t a = (Inl e, a') \<and> snd (am_world a') = snd (am_world a)"
  using assms(2)
proof (induction n arbitrary: a)
  case (Suc n)
  obtain e w' where w: "go_GetPiece env t (am_world a) = (Inl e, w')" "snd w' = snd (am_world a)" "Q w'" using assms(1) [OF Suc.prems] by blast
  then show ?case using Suc.IH [of "a\<lparr>am_world := w'\<rparr>"] by (auto simp: gate_out_def)
qed auto

text \<open>
  C28. A refused download looks like a lost piece: when the read quota of the bucket is exhausted, the handler takes the refusal for
  the loss of a segment, reports a recovery task for the object to the manager, tries again until its time is over, and ends
  without an error, with an empty body.
\<close>

theorem exhausted_quota_starts_recovery:
  assumes "NewRequestContext (go_gate env) r a = Returns (reqCtx, err, a1)" "check_read env AuthOpTypeGetObject reqCtx err a1 = Returns (None, a2)"
    and front: "in_front env denv cached now nowUs b (am_world a2)"
    and chain: "servable env (\<lambda>w. w = am_world a2) (rc_bucketName reqCtx) (rc_objectName reqCtx) ob (Some b) params"
    and stored: "stored_payload (dl_pieceStore (fst (am_world a2))) ob params payload"
    and range: "requested_range (rq_Header (rc_request reqCtx) ''Range'') (PayloadSize ob) = Inr (isRange, low, high)"
    and user: "ObjectStatus ob = OBJECT_STATUS_SEALED" "rc_account reqCtx \<noteq> PrimarySpAddress b"
    and quota: "charge denv now (read_record b ob (rc_account reqCtx) (word_of_int (high - low + 1)) nowUs) b (fst (am_world a2))
      = (Some ErrCheckQuotaEnough, dl_traffic (fst (am_world a2)))"
    and world: "go_ReportTask env = (\<lambda>t w. (None, fst w, snd w @ [t]))" "go_sleep env = (\<lambda>n w. w)"
      "0 \<le> replicateSpeed (go_app env)" "replicateSpeed (go_app env) < 2 ^ 63 - 1"
  shows "\<exists>resp a' t. getObjectHandler env r a = Returns (None, resp, a') \<and> rs_body resp = []
    \<and> snd (am_world a') = snd (am_world a2) @ [RecoverPieceTask t] \<and> rr_ObjectInfo t = Some ob"
proof -
  obtain a3 now' timeout where a3: "am_world a3 = am_world a2" "\<And>infos body a'.
      SplitToSegmentPieceInfos (download_task env reqCtx ob (Some b) params now' timeout low high) = Returns (Inr infos)
      \<Longrightarrow> deliver_pieces env (download_task env reqCtx ob (Some b) params now' timeout low high) params True infos [] a3 = Returns (body, a')
      \<Longrightarrow> \<exists>resp. serve_object env reqCtx a2 = Returns (None, resp, a') \<and> rs_body resp = body"
    using serve_object_task [OF chain range refl] by blast
  note sv = chain [unfolded servable_def]
  let ?task = "download_task env reqCtx ob (Some b) params now' timeout low high"
  have bounds: "0 \<le> low" "low \<le> high" "high < uint (PayloadSize ob)" using requested_range_inside [OF range] sv by blast+
  obtain p infos i where split: "SplitToSegmentPieceInfos ?task = Returns (Inr (p # infos))" "si_SegmentPieceKey p = SegmentPieceKey (Id ob) i"
    using split_reads [OF chain stored bounds, of reqCtx now' timeout] by (metis list.exhaust list.set_intros(1))
  have to: "\<exists>t. TaskTimeout (go_app env) TypeTaskDownloadObject sz = Returns t" for sz using timeout_returns sv by blast
  obtain t where t: "GateObject.piece_task env ?task True p a3 = Returns t" "piece_of ?task t" "dp_EnableCheck t"
    using piece_task_shape [OF to, of ?task True p a3] by auto
  have asked: "asked ob b params (rc_account reqCtx) (word_of_int (high - low + 1)) t" using piece_of_asked [OF t(2) user] .
  define Q where "Q = refusing env denv cached now nowUs b (read_record b ob (rc_account reqCtx) (word_of_int (high - low + 1)) nowUs)"
  have refuse: "\<exists>e w'. go_GetPiece env t w = (Inl e, w') \<and> snd w' = snd w \<and> Q w'" if "Q w" for w
    using refused_piece [OF _ asked t(3)] that unfolding Q_def by blast
  have Q: "Q (am_world a3)" "Q w \<Longrightarrow> Q (fst w, l)" for w l using front quota by (simp_all add: Q_def refusing_def in_front_def a3(1))
  obtain segSize where seg: "SegmentPieceSize (PayloadSize ob) i (MaxSegmentSize params) = Returns segSize"
    using sv SegmentPieceSize_returns by (metis less_irrefl unsigned_0)
  obtain timeout' where to': "TaskTimeout (go_app env) TypeTaskRecoverPiece (MaxSegmentSize params) = Returns timeout'"
    using world(3,4) by (auto simp: transfer_time_def go_div_def i64_id in_i64_def MinSpeed_def)
  obtain e w' where e: "go_GetPiece env t (am_world a3) = (Inl e, w')" "snd w' = snd (am_world a3)" "Q w'" using refuse [OF Q(1)] by blast
  define rt where "rt = InitRecoverPieceTask (now_sec env (a3\<lparr>am_world := w'\<rparr>)) (Some ob) (Some params) DefaultLargerTaskPriority i (-1) (word_of_int segSize) timeout' 3"
  define a4 where "a4 = a3\<lparr>am_world := (fst w', snd w' @ [RecoverPieceTask rt])\<rparr>"
  have "Q (am_world a4)" using Q(2) [OF e(3)] by (simp add: a4_def)
  from refused_tries [of Q env t a4 "go_ticks env (am_world a4)", OF refuse this]
  obtain e' a5 where e': "tryDownloadAfterRecovery env t a4 = (Inl e', a5)" "snd (am_world a5) = snd w' @ [RecoverPieceTask rt]"
    using world(2) by (auto simp: tryDownloadAfterRecovery_def a4_def)
  have task: "do_ObjectInfo ?task = Some ob" "do_StorageParams ?task = Some params" by (simp_all add: download_task_def InitDownloadObjectTask_def)
  have "gate_out (go_GetPiece env t) a3 = (Inl e, a3\<lparr>am_world := w'\<rparr>)" using e(1) by (simp add: gate_out_def)
  moreover have "gate_out (go_ReportTask env (RecoverPieceTask rt)) (a3\<lparr>am_world := w'\<rparr>) = (None, a4)" using world(1) by (simp add: gate_out_def a4_def)
  moreover have "ParseSegmentIdx (si_SegmentPieceKey p) = Returns (Inr i)" using ParseSegmentIdx_key split(2) by simp
  ultimately have "deliver_pieces env ?task params True (p # infos) [] a3 = Returns ([], a5)"
    using t(1) seg to' task e'(1) by (simp add: object_of_def rt_def del: TaskTimeout.simps)
  then obtain resp where "serve_object env reqCtx a2 = Returns (None, resp, a5)" "rs_body resp = []" using a3(2) [OF split(1)] by blast
  then have "getObjectHandler env r a = Returns (None, resp, a5)" using assms(1,2) by (simp add: getObjectHandler_def)
  then show ?thesis using \<open>rs_body resp = []\<close> a3(1) e(2) e'(2)
    by (intro exI [of _ resp] exI [of _ a5] exI [of _ rt]) (simp add: rt_def InitRecoverPieceTask_def)
qed

section \<open>A provider in memory\<close>

text \<open>The chain of \<open>demo_view\<close>, whose queries leave the world alone, in front of a downloader with tables in memory.\<close>

definition still_nodes :: "chain_view \<Rightarrow> 'w gnfd_nodes" where
  "still_nodes v =
     (let n = view_nodes v in
      \<lparr>gn_now = (\<lambda>w. 0), gn_sleep = (\<lambda>t w. w), gn_ABCIInfo = (\<lambda>i w. (fst (gn_ABCIInfo n i 0), w)), gn_Account = (\<lambda>i a w. (fst (gn_Account n i a 0), w)),
       gn_StorageProviders = (\<lambda>i w. (fst (gn_StorageProviders n i 0), w)), gn_Validators = (\<lambda>i st w. (fst (gn_Validators n i st 0), w)),
       gn_Params = (\<lambda>i w. (fst (gn_Params n i 0), w)), gn_QueryParamsByTimestamp = (\<lambda>i t w. (Inr demo_params, w)),
       gn_HeadBucket = (\<lambda>i b w. (fst (gn_HeadBucket n i b 0), w)), gn_HeadObject = (\<lambda>i b ob w. (fst (gn_HeadObject n i b ob 0), w)),
       gn_HeadObjectById = (\<lambda>i oid w. (fst (gn_HeadObjectById n i oid 0), w)), gn_StreamRecord = (\<lambda>i a w. (fst (gn_StreamRecord n i a 0), w)),
       gn_VerifyPermission = (\<lambda>i a b ob act w. (fst (gn_VerifyPermission n i a b ob act 0), w))\<rparr>)"

type_synonym list_tables = "((uint64 \<times> string) \<times> BucketTrafficTable) list \<times> ReadRecord list"
type_synonym memory_world = "(ObjectStorage, list_tables, (uint64 \<times> IntegrityMetaTable) list, lru_cache) download_world"

definition front_denv :: "(ObjectStorage, list_tables, (uint64 \<times> IntegrityMetaTable) list, lru_cache) download_env" where
  "front_denv = \<lparr>de_get = GetPiece, de_traffic = list_traffic, de_month_of = (\<lambda>ts. ''2023-06''), de_integrity = alist_table it_ObjectID 0,
     de_cache_get = lru_get, de_cache_add = lru_add, de_app = demo_app, de_operator = ''self''\<rparr>"

definition front_world :: "uint64 \<Rightarrow> memory_world" where
  "front_world quota = (\<lparr>dl_pieceStore = demo_pieces,
     dl_traffic = ([((0, ''2023-06''), \<lparr>tt_BucketID = 0, tt_Month = ''2023-06'', tt_BucketName = ''photos'', tt_ReadConsumedSize = 5, tt_ReadQuotaSize = quota,
        tt_ModifiedTime = 0\<rparr>)], []),
     dl_integrity = [], dl_pieceCache = \<lparr>lru_size = 2, lru_entries = []\<rparr>, dl_downloading = 0, dl_downloadParallel = 10, dl_challenging = 0,
     dl_challengeParallel = 10, dl_bucketFreeQuota = quota, dl_reported = []\<rparr>, [])"

definition still_env :: "chain_view \<Rightarrow> (GfSpDownloadPieceTask \<Rightarrow> 'w \<Rightarrow> (go_error + bytes) \<times> 'w) \<Rightarrow> (Task \<Rightarrow> 'w \<Rightarrow> go_error option \<times> 'w) \<Rightarrow> ('w, OffChainAuthKey list) object_env" where
  "still_env v get report = \<lparr>go_gate = \<lparr>ge_auth = \<lparr>au_operator = ''self'', au_nodes = still_nodes v, au_gnfd = demo_gnfd, au_table = list_auth_table,
        au_SetBytes = (\<lambda>b. Inr 32), au_Verify = (\<lambda>pk sig msg. Inr (sig = pk))\<rparr>, ge_auth_conn = (\<lambda>w. True), ge_GetMsgToSign = (\<lambda>r. [1]),
        ge_RecoverPubkey = (\<lambda>m sig. Inr [2]), ge_Address = (\<lambda>pk. ''alice''), ge_VerifySecp = (\<lambda>pk m sig. True), ge_HexAddress = (\<lambda>s. s),
        ge_TextHash = (\<lambda>m. m), ge_hexutil_Decode = (\<lambda>s. Inr []), ge_parse_date = (\<lambda>s. Inr 0), ge_int32_of_seconds = (\<lambda>d. d), ge_match = (\<lambda>m. []),
        ge_sps = (\<lambda>s. [])\<rparr>,
     go_app = demo_app, go_maxPayloadSize = 100, go_InsertUploadEvent = (\<lambda>oid e k w. w), go_UploadObject = (\<lambda>t d w. (None, w)),
     go_ResumableUploadObject = (\<lambda>t d w. (None, w)), go_GetUploadObjectSegment = (\<lambda>oid w. (Inr 0, w)),
     go_GetPiece = get, go_ReportTask = report, go_sleep = (\<lambda>t w. w), go_ticks = (\<lambda>w. 3)\<rparr>"

definition front_env :: "(memory_world, OffChainAuthKey list) object_env" where
  "front_env = still_env demo_view (over_fst (client_GetPiece True front_denv (\<lambda>s. True) 0 0)) (\<lambda>t w. (None, fst w, snd w @ [t]))"

definition front_state :: "uint64 \<Rightarrow> (memory_world, OffChainAuthKey list) gate_state" where
  "front_state quota = \<lparr>am_db = [], am_world = front_world quota\<rparr>"

abbreviation "front_bucket \<equiv> the (cv_bucket demo_view ''photos'')"
abbreviation "front_request \<equiv> demo_get (v1_prefix @ ''SignedMsg=01,Signature=0b'') ''bytes=1-2''"

lemma front_nodes: "au_nodes (ge_auth (go_gate front_env)) = still_nodes demo_view" "au_gnfd (ge_auth (go_gate front_env)) = demo_gnfd" "go_app front_env = demo_app"
  by (simp_all add: front_env_def still_env_def)

lemma front_servable: "servable front_env (\<lambda>w. w = w0) ''photos'' ''cat'' demo_cat (Some front_bucket) demo_params"
  unfolding servable_def answers_def front_nodes
  by (simp add: QueryObjectInfo_def QueryBucketInfo_def QueryStorageParamsByTimestamp_def still_nodes_def view_nodes_def demo_view_def demo_cat_def
      demo_params_def demo_app_def Let_def)

lemma front_in_front: "in_front front_env front_denv (\<lambda>c. map_of (lru_entries c)) 0 0 front_bucket (front_world quota)"
  using lru.piece_cache_axioms
  by (simp add: in_front_def front_env_def still_env_def front_denv_def front_world_def reader_ready_def cache_sound_def demo_view_def i64_def)

lemma front_stored: "stored_payload (dl_pieceStore (fst (front_world quota))) demo_cat demo_params [1, 2, 3]"
  using demo_stored by (simp add: stored_payload_def demo_cat_def demo_params_def front_world_def)

lemma front_range: "requested_range (rq_Header front_request ''Range'') (PayloadSize demo_cat) = Inr (True, 1, 2)"
proof -
  have "show_nat 1 = ''1''" "show_nat 2 = ''2''" by code_simp+
  then show ?thesis using parseRange_written(2) [of 1 2] by (simp add: requested_range_def demo_cat_def int64_of_u64_small Let_def demo_get_def)
qed

abbreviation "front_ctx \<equiv> \<lparr>rc_request = front_request, rc_bucketName = ''photos'', rc_objectName = ''cat'', rc_account = ''alice''\<rparr>"

lemma front_context: "NewRequestContext (go_gate front_env) front_request s = Returns (front_ctx, None, s)"
proof -
  have "verifySignatureV1 (go_gate front_env) front_request (drop (length v1_prefix) (rq_Header front_request ''Authorization'')) = Returns (Inr ''alice'')"
    "has_prefix v1_prefix (rq_Header front_request ''Authorization'')"
    by code_simp+
  moreover have "rq_Vars front_request ''bucket'' = ''photos''" "rq_Vars front_request ''object'' = ''cat''" by (simp_all add: demo_get_def)
  ultimately show ?thesis by (simp add: NewRequestContext_def VerifySignature_def)
qed

lemma front_read: "check_read front_env AuthOpTypeGetObject front_ctx None (front_state 100) = Returns (None, front_state 100)"
  "check_read front_env AuthOpTypeGetObject front_ctx None (front_state 5) = Returns (None, front_state 5)"
  by code_simp+

lemma front_user: "ObjectStatus demo_cat = OBJECT_STATUS_SEALED" "rc_account front_ctx \<noteq> PrimarySpAddress front_bucket"
  by (simp_all add: demo_cat_def demo_view_def)

theorem gateway_download_witness:
  "\<exists>resp a'. getObjectHandler front_env front_request (front_state 100) = Returns (None, resp, a') \<and> rs_body resp = [2, 3]
    \<and> tt_ReadConsumedSize (snd (hd (fst (dl_traffic (fst (am_world a')))))) = 7 \<and> snd (am_world a') = []"
proof -
  let ?w = "am_world (front_state 100)" and ?rec = "read_record front_bucket demo_cat (rc_account front_ctx) (word_of_int (2 - 1 + 1)) 0"
  have w: "am_world (front_state q) = front_world q" for q by (simp add: front_state_def)
  have c: "rc_bucketName front_ctx = ''photos''" "rc_objectName front_ctx = ''cat''" "rc_request front_ctx = front_request" by simp_all
  have "fst (charge front_denv 0 ?rec front_bucket (fst (front_world 100))) = None"
    "tt_ReadConsumedSize (snd (hd (fst (snd (charge front_denv 0 ?rec front_bucket (fst (front_world 100))))))) = 7"
    "snd (front_world 100) = []" by code_simp+
  then show ?thesis
    using gateway_download [OF front_context front_read(1), of front_denv "\<lambda>c. map_of (lru_entries c)" 0 0 front_bucket demo_cat demo_params "[1, 2, 3]" True 1 2 ?rec]
      front_in_front front_servable front_stored front_range front_user c w by auto
qed

theorem v2_reads_private_objects_witness:
  "\<exists>resp a'. getObjectHandler front_env (demo_get (v2_prefix @ ''anything'') []) (front_state 100) = Returns (None, resp, a') \<and> rs_body resp = [1, 2, 3]"
proof -
  let ?r = "demo_get (v2_prefix @ ''anything'') []"
  have r: "has_prefix v2_prefix (rq_Header ?r ''Authorization'')" "rq_Header ?r ''Range'' = []"
    "rq_Vars ?r ''bucket'' = ''photos''" "rq_Vars ?r ''object'' = ''cat''" by (simp_all add: demo_get_def has_prefix_iff)
  have w: "am_world (front_state 100) = front_world 100" by (simp add: front_state_def)
  have denied: "answers (\<lambda>w. w = am_world (front_state 100)) (VerifyGetObjectPermission (au_nodes (ge_auth (go_gate front_env)))
      (au_gnfd (ge_auth (go_gate front_env))) [] (rq_Vars ?r ''bucket'') (rq_Vars ?r ''object'')) (Inr False)"
    unfolding front_nodes by (simp add: answers_def VerifyGetObjectPermission_def still_nodes_def view_nodes_def demo_view_def Let_def)
  have quota: "fst (charge front_denv 0 (read_record front_bucket demo_cat [] (PayloadSize demo_cat) 0) front_bucket (fst (am_world (front_state 100))))
      \<noteq> Some ErrCheckQuotaEnough" by code_simp
  have sp: "PrimarySpAddress front_bucket \<noteq> []" by (simp add: demo_view_def)
  have serv: "servable front_env (\<lambda>w. w = am_world (front_state 100)) (rq_Vars ?r ''bucket'') (rq_Vars ?r ''object'') demo_cat (Some front_bucket) demo_params"
    unfolding r(3,4) by (rule front_servable)
  show ?thesis
    using v2_reads_private_objects [OF r(1,2) front_in_front [of 100, folded w] sp serv front_user(1) denied front_stored [of 100, folded w] quota] .
qed

theorem exhausted_quota_starts_recovery_witness:
  "\<exists>resp a' t. getObjectHandler front_env front_request (front_state 5) = Returns (None, resp, a') \<and> rs_body resp = []
    \<and> snd (am_world a') = [RecoverPieceTask t] \<and> rr_ObjectInfo t = Some demo_cat"
proof -
  have w: "am_world (front_state q) = front_world q" for q by (simp add: front_state_def)
  have c: "rc_bucketName front_ctx = ''photos''" "rc_objectName front_ctx = ''cat''" "rc_request front_ctx = front_request" by simp_all
  have "charge front_denv 0 (read_record front_bucket demo_cat (rc_account front_ctx) (word_of_int (2 - 1 + 1)) 0) front_bucket (fst (front_world 5))
      = (Some ErrCheckQuotaEnough, dl_traffic (fst (front_world 5)))" "snd (front_world 5) = []" by code_simp+
  moreover have "go_ReportTask front_env = (\<lambda>t w. (None, fst w, snd w @ [t]))" "go_sleep front_env = (\<lambda>n w. w)" "0 \<le> replicateSpeed (go_app front_env)"
    "replicateSpeed (go_app front_env) < 2 ^ 63 - 1" by (simp_all add: front_env_def still_env_def demo_app_def)
  ultimately show ?thesis
    using exhausted_quota_starts_recovery [OF front_context front_read(2), of front_denv "\<lambda>c. map_of (lru_entries c)" 0 0 front_bucket demo_cat demo_params "[1, 2, 3]" True 1 2]
      front_in_front front_servable front_stored front_range front_user c w by auto
qed

end
