(* ===== verification/GateAdmin.thy ===== *)
theory GateAdmin
  imports GateDownload
begin

text \<open>
  The requests between providers, and those of approvals and challenges: \<open>modular/gater/admin_handler.go\<close>, the requests that
  \<open>base/gfspclient/gater.go\<close> sends to other providers, and the signature check of \<open>modular/p2p/p2pnode/node_options.go\<close>.

  The JSON forms of tasks and messages, the bytes that are signed and the functions of elliptic curves are arguments; so
  are the clients of the modules behind the gateway, which the services interpret.
\<close>

section \<open>The environment\<close>

record ('w, 'd) admin_env =
  ga_object :: "('w, 'd) object_env"
  ga_unmarshal_approval :: "bytes \<Rightarrow> GfSpReplicatePieceApprovalTask option"
  ga_unmarshal_receive :: "bytes \<Rightarrow> GfSpReceivePieceTask option"
  ga_unmarshal_recover :: "bytes \<Rightarrow> GfSpRecoverPieceTask option"
  ga_unmarshal_bucket :: "bytes \<Rightarrow> MsgCreateBucket option"
  ga_unmarshal_object :: "bytes \<Rightarrow> MsgCreateObject option"
  ga_validate_bucket :: "MsgCreateBucket \<Rightarrow> bool"
  ga_validate_object :: "MsgCreateObject \<Rightarrow> bool"
  ga_marshal_bucket :: "MsgCreateBucket option \<Rightarrow> bytes"
  ga_marshal_object :: "MsgCreateObject option \<Rightarrow> bytes"
  ga_approval_SignBytes :: "GfSpReplicatePieceApprovalTask \<Rightarrow> bytes"
  ga_recover_SignBytes :: "GfSpRecoverPieceTask \<Rightarrow> bytes"
  ga_AccAddressFromHex :: "string \<Rightarrow> bytes option"
  ga_Keccak256 :: "bytes \<Rightarrow> bytes"
  ga_RecoverPubkey :: "bytes \<Rightarrow> bytes \<Rightarrow> bytes option"
  ga_PubkeyToAddress :: "bytes \<Rightarrow> bytes option"
  ga_ReadAll :: "http_request \<Rightarrow> bytes option"
  ga_EncodeRawSegment :: "bytes \<Rightarrow> go_int \<Rightarrow> go_int \<Rightarrow> go_error + bytes list"
  ga_AskCreateBucketApproval :: "GfSpCreateBucketApprovalTask \<Rightarrow> 'w \<Rightarrow> (go_error + bool \<times> GfSpCreateBucketApprovalTask) \<times> 'w"
  ga_AskCreateObjectApproval :: "GfSpCreateObjectApprovalTask \<Rightarrow> 'w \<Rightarrow> (go_error + bool \<times> GfSpCreateObjectApprovalTask) \<times> 'w"
  ga_GetChallengeInfo :: "GfSpChallengePieceTask \<Rightarrow> 'w \<Rightarrow> (go_error + bytes \<times> bytes list \<times> bytes) \<times> 'w"
  ga_ReplicatePiece :: "GfSpReceivePieceTask \<Rightarrow> bytes \<Rightarrow> 'w \<Rightarrow> go_error option \<times> 'w"
  ga_DoneReplicatePiece :: "GfSpReceivePieceTask \<Rightarrow> 'w \<Rightarrow> (go_error + bytes \<times> bytes) \<times> 'w"

abbreviation "ErrDecodeMsg \<equiv> gate_error 4"
abbreviation "ErrValidateMsg \<equiv> gate_error 5"
abbreviation "ErrRefuseApproval \<equiv> gate_error 6"
abbreviation "ErrUnsupportedRequestType \<equiv> gate_error 7"
abbreviation "ErrExceptionStream \<equiv> gate_error 12"
abbreviation "ErrGateMismatchSp \<equiv> gate_error 13"
abbreviation "ErrGateNoSuchObject \<equiv> gate_error 24"
abbreviation "ErrApprovalExpired \<equiv> gate_error 29"
abbreviation "ErrRecoverySP \<equiv> gate_error 30"
abbreviation "ErrGateRedundancyType \<equiv> gate_error 31"

definition ErrExecPieceStore :: go_error where "ErrExecPieceStore = GfSpErr (registered (executor_errors ! 11))"

definition gate_of :: "('w, 'd) admin_env \<Rightarrow> ('w, 'd) gate_env" where "gate_of env = go_gate (ga_object env)"

definition operator :: "('w, 'd) admin_env \<Rightarrow> string" where "operator env = au_operator (ge_auth (gate_of env))"

section \<open>Signatures of providers\<close>

text \<open>The result says whether there is no error. A recovery id of 27 or 28 is taken for 0 or 1.\<close>

definition p2p_VerifySignature :: "('w, 'd) admin_env \<Rightarrow> string \<Rightarrow> bytes \<Rightarrow> bytes \<Rightarrow> bool" where
  "p2p_VerifySignature env spOpAddr signBytes sig =
     (case ga_AccAddressFromHex env spOpAddr of
        None \<Rightarrow> False
      | Some spOpAcc \<Rightarrow>
          let sigHash = ga_Keccak256 env signBytes in
          length sig = 65 \<and>
          (let sig = (if sig ! 64 = 27 \<or> sig ! 64 = 28 then sig[64 := sig ! 64 - 27] else sig) in
           case ga_RecoverPubkey env sigHash sig of
             None \<Rightarrow> False
           | Some sigPubKeyBytes \<Rightarrow>
               (case ga_PubkeyToAddress env sigPubKeyBytes of
                  None \<Rightarrow> False
                | Some sigPubKeyAddr \<Rightarrow> sigPubKeyAddr = spOpAcc \<and> ge_VerifySecp (gate_of env) sigPubKeyBytes sigHash (butlast sig))))"

section \<open>Approvals and challenges\<close>

definition getApprovalHandler :: "('w, 'd) admin_env \<Rightarrow> http_request \<Rightarrow> ('w, 'd) gate_state \<Rightarrow> ('w, 'd) handled" where
  "getApprovalHandler env r a =
     bind_go (NewRequestContext (gate_of env) r a) (\<lambda>(reqCtx, err, a).
       case err of
         Some err \<Rightarrow> failed err a
       | None \<Rightarrow>
           (case DecodeString (rq_Header r ''X-Gnfd-Unsigned-Msg'') of
              Inl _ \<Rightarrow> failed ErrDecodeMsg a
            | Inr approvalMsg \<Rightarrow>
                if rq_Vars r ''action'' = ''CreateBucket'' then
                  (case ga_unmarshal_bucket env approvalMsg of
                     None \<Rightarrow> failed ErrDecodeMsg a
                   | Some msg \<Rightarrow>
                       if \<not> ga_validate_bucket env msg then failed ErrValidateMsg a
                       else bind_go (permission_on (ga_object env) AuthOpAskCreateBucketApproval reqCtx (mcb_BucketName msg) [] a) (\<lambda>(err, a).
                         case err of
                           Some err \<Rightarrow> failed err a
                         | None \<Rightarrow>
                             (case gate_out (ga_AskCreateBucketApproval env
                                     (InitApprovalCreateBucketTask (now_sec (ga_object env) a) (Some msg) (TaskPriority_of TypeTaskCreateBucketApproval))) a of
                                (Inl err, a) \<Rightarrow> failed err a
                              | (Inr (approved, t), a) \<Rightarrow>
                                  if \<not> approved then failed ErrRefuseApproval a
                                  else Returns (None, no_response\<lparr>rs_headers :=
                                    [(''X-Gnfd-Signed-Msg'', EncodeToString (ga_marshal_bucket env (cb_CreateBucketInfo t)))]\<rparr>, a))))
                else if rq_Vars r ''action'' = ''CreateObject'' then
                  (case ga_unmarshal_object env approvalMsg of
                     None \<Rightarrow> failed ErrDecodeMsg a
                   | Some msg \<Rightarrow>
                       if \<not> ga_validate_object env msg then failed ErrValidateMsg a
                       else bind_go (permission_on (ga_object env) AuthOpAskCreateObjectApproval reqCtx (mco_BucketName msg) (mco_ObjectName msg) a) (\<lambda>(err, a).
                         case err of
                           Some err \<Rightarrow> failed err a
                         | None \<Rightarrow>
                             (case gate_out (ga_AskCreateObjectApproval env
                                     (InitApprovalCreateObjectTask (now_sec (ga_object env) a) (Some msg) (TaskPriority_of TypeTaskCreateObjectApproval))) a of
                                (Inl err, a) \<Rightarrow> failed err a
                              | (Inr (approved, t), a) \<Rightarrow>
                                  if \<not> approved then failed ErrRefuseApproval a
                                  else Returns (None, no_response\<lparr>rs_headers :=
                                    [(''X-Gnfd-Signed-Msg'', EncodeToString (ga_marshal_object env (co_CreateObjectInfo t)))]\<rparr>, a))))
                else failed ErrUnsupportedRequestType a))"

definition challenge_info :: "('w, 'd) admin_env \<Rightarrow> RequestContext \<Rightarrow> uint64 \<Rightarrow> ObjectInfo option \<Rightarrow> ('w, 'd) gate_state \<Rightarrow> ('w, 'd) handled" where
  "challenge_info env reqCtx objectID objectInfo a =
     (case chain (ga_object env) (\<lambda>n g. QueryBucketInfo n g (BucketName (object_of objectInfo))) a of
        (Inl _, a) \<Rightarrow> failed ErrGateConsensus a
      | (Inr bucketInfo, a) \<Rightarrow>
          (case StringToInt32 (rq_Header (rc_request reqCtx) ''X-Gnfd-Redundancy-Index'') of
             Inl _ \<Rightarrow> failed ErrInvalidHeader a
           | Inr redundancyIdx \<Rightarrow>
               (case StringToUint32 (rq_Header (rc_request reqCtx) ''X-Gnfd-Piece-Index'') of
                  Inl _ \<Rightarrow> failed ErrInvalidHeader a
                | Inr segmentIdx \<Rightarrow>
                    (case chain (ga_object env) (\<lambda>n g. QueryStorageParamsByTimestamp n g (CreateAt (object_of objectInfo))) a of
                       (Inl err, a) \<Rightarrow> failed err a
                     | (Inr params, a) \<Rightarrow>
                         bind_go (if redundancyIdx < 0 then SegmentPieceSize (PayloadSize (object_of objectInfo)) segmentIdx (MaxSegmentSize params)
                                  else ECPieceSize (PayloadSize (object_of objectInfo)) segmentIdx (MaxSegmentSize params) (RedundantDataChunkNum params)) (\<lambda>pieceSize.
                         bind_go (TaskTimeout (go_app (ga_object env)) TypeTaskChallengePiece (word_of_int pieceSize)) (\<lambda>timeout.
                           let task = InitChallengePieceTask (now_sec (ga_object env) a) objectInfo bucketInfo (Some params) (TaskPriority_of TypeTaskChallengePiece)
                                        (rc_account reqCtx) redundancyIdx segmentIdx timeout (TaskMaxRetry (go_app (ga_object env)) TypeTaskChallengePiece)
                           in if \<not> key_defined (ChallengePieceTask task) then Panics
                              else case gate_out (ga_GetChallengeInfo env task) a of
                                (Inl err, a) \<Rightarrow> failed err a
                              | (Inr (integrity, checksums, data), a) \<Rightarrow>
                                  Returns (None, \<lparr>rs_headers =
                                    [(''X-Gnfd-Object-ID'', Uint64ToString objectID), (''X-Gnfd-Integrity-Hash'', EncodeToString integrity),
                                     (''X-Gnfd-Piece-Hash'', BytesSliceToString checksums)], rs_body = data\<rparr>, a)))))))"

definition getChallengeInfoHandler :: "('w, 'd) admin_env \<Rightarrow> http_request \<Rightarrow> ('w, 'd) gate_state \<Rightarrow> ('w, 'd) handled" where
  "getChallengeInfoHandler env r a =
     bind_go (NewRequestContext (gate_of env) r a) (\<lambda>(reqCtx, err, a).
       case err of
         Some err \<Rightarrow> failed err a
       | None \<Rightarrow>
           (case StringToUint64 (rq_Header (rc_request reqCtx) ''X-Gnfd-Object-ID'') of
              Inl _ \<Rightarrow> failed ErrInvalidHeader a
            | Inr objectID \<Rightarrow>
                (case chain (ga_object env) (\<lambda>n g. QueryObjectInfoByID n g (rq_Header (rc_request reqCtx) ''X-Gnfd-Object-ID'')) a of
                   (Inl err, a) \<Rightarrow> failed (if str_contains (error_text err) ''No such object'' then ErrGateNoSuchObject else ErrGateConsensus) a
                 | (Inr objectInfo, a) \<Rightarrow>
                     bind_go (permission_on (ga_object env) AuthOpTypeGetChallengePieceInfo reqCtx (BucketName (object_of objectInfo))
                                (ObjectName (object_of objectInfo)) a) (\<lambda>(err, a).
                       case err of Some err \<Rightarrow> failed err a | None \<Rightarrow> challenge_info env reqCtx objectID objectInfo a))))"

section \<open>Replication\<close>

definition receive_replica :: "('w, 'd) admin_env \<Rightarrow> http_request \<Rightarrow> ('w, 'd) gate_state \<Rightarrow> ('w, 'd) handled" where
  "receive_replica env r a =
     (case DecodeString (rq_Header r ''X-Gnfd-Receive-Msg'') of
        Inl _ \<Rightarrow> failed ErrDecodeMsg a
      | Inr receiveMsg \<Rightarrow>
          (case ga_unmarshal_receive env receiveMsg of
             None \<Rightarrow> failed ErrDecodeMsg a
           | Some receiveTask \<Rightarrow>
               if (case rv_ObjectInfo receiveTask of None \<Rightarrow> True | Some ob \<Rightarrow> unat (rv_ReplicateIdx receiveTask) \<ge> length (Checksums ob))
               then failed ErrInvalidHeader a
               else case ga_ReadAll env r of
                 None \<Rightarrow> failed ErrExceptionStream a
               | Some data \<Rightarrow>
                   if rv_PieceIdx receiveTask \<ge> 0
                   then case gate_out (ga_ReplicatePiece env receiveTask data) a of
                          (Some err, a) \<Rightarrow> failed err a
                        | (None, a) \<Rightarrow> Returns (None, no_response, a)
                   else case gate_out (ga_DoneReplicatePiece env receiveTask) a of
                          (Inl err, a) \<Rightarrow> failed err a
                        | (Inr (integrity, signature), a) \<Rightarrow>
                            Returns (None, no_response\<lparr>rs_headers := [(''X-Gnfd-Integrity-Hash'', EncodeToString integrity),
                              (''X-Gnfd-Integrity-Hash-Signature'', EncodeToString signature)]\<rparr>, a)))"

text \<open>The error of the request context is ignored; so is a height that cannot be had.\<close>

definition replicateHandler :: "('w, 'd) admin_env \<Rightarrow> http_request \<Rightarrow> ('w, 'd) gate_state \<Rightarrow> ('w, 'd) handled" where
  "replicateHandler env r a =
     bind_go (NewRequestContext (gate_of env) r a) (\<lambda>(reqCtx, _, a).
       case DecodeString (rq_Header r ''X-Gnfd-Replicate-Piece-Approval-Msg'') of
         Inl _ \<Rightarrow> failed ErrDecodeMsg a
       | Inr approvalMsg \<Rightarrow>
           (case ga_unmarshal_approval env approvalMsg of
              None \<Rightarrow> failed ErrDecodeMsg a
            | Some approval \<Rightarrow>
                if ra_ApprovedSpOperatorAddress approval \<noteq> operator env then failed ErrGateMismatchSp a
                else if \<not> p2p_VerifySignature env (operator env) (ga_approval_SignBytes env approval) (ra_ApprovedSignature approval)
                then failed ErrSignature a
                else case chain (ga_object env) CurrentHeight a of
                  (Inl _, a) \<Rightarrow> receive_replica env r a
                | (Inr currentHeight, a) \<Rightarrow>
                    if currentHeight > ra_ExpiredHeight approval then failed ErrApprovalExpired a
                    else receive_replica env r a))"

section \<open>Recovery\<close>

definition last_index :: "string \<Rightarrow> string list \<Rightarrow> nat option" where
  "last_index x xs = (case filter (\<lambda>i. xs ! i = x) [0..<length xs] of [] \<Rightarrow> None | is \<Rightarrow> Some (last is))"

text \<open>A sender who is not the primary provider is only logged.\<close>

definition recoverSegmentPiece :: "('w, 'd) admin_env \<Rightarrow> ObjectInfo \<Rightarrow> BucketInfo \<Rightarrow> GfSpRecoverPieceTask \<Rightarrow> Params \<Rightarrow> string \<Rightarrow> ('w, 'd) gate_state
    \<Rightarrow> ((go_error + bytes) \<times> ('w, 'd) gate_state) go" where
  "recoverSegmentPiece env ob b t params signatureAddr a =
     (case last_index (operator env) (SecondarySpAddresses ob) of
        None \<Rightarrow> Returns (Inl ErrRecoverySP, a)
      | Some ecIndex \<Rightarrow>
          bind_go (ECPieceSize (PayloadSize ob) (rr_SegmentIdx t) (MaxSegmentSize params) (RedundantDataChunkNum params)) (\<lambda>ecPieceSize.
          bind_go (ec_piece_task (ga_object env) (Some ob) (Some b) params False (PrimarySpAddress b) (word_of_int ecPieceSize)
                     (ECPieceKey (Id (object_of (rr_ObjectInfo t))) (rr_SegmentIdx t) (of_nat ecIndex)) 0 (word_of_int ecPieceSize) a) (\<lambda>pieceTask.
            case gate_out (go_GetPiece (ga_object env) pieceTask) a of
              (Inl _, a) \<Rightarrow> Returns (Inl ErrDownloadPieceStore, a)
            | (Inr pieceData, a) \<Rightarrow> Returns (Inr pieceData, a))))"

definition recoverECPiece :: "('w, 'd) admin_env \<Rightarrow> ObjectInfo \<Rightarrow> BucketInfo \<Rightarrow> GfSpRecoverPieceTask \<Rightarrow> Params \<Rightarrow> string \<Rightarrow> ('w, 'd) gate_state
    \<Rightarrow> ((go_error + bytes) \<times> ('w, 'd) gate_state) go" where
  "recoverECPiece env ob b t params signatureAddr a =
     bind_go (ECPieceSize (PayloadSize ob) (rr_SegmentIdx t) (MaxSegmentSize params) (RedundantDataChunkNum params)) (\<lambda>ecPieceSize.
       if PrimarySpAddress b \<noteq> operator env then Returns (Inl ErrRecoverySP, a)
       else case last_index signatureAddr (SecondarySpAddresses ob) of
         None \<Rightarrow> Returns (Inl ErrRecoverySP, a)
       | Some ecIndex \<Rightarrow>
           if i32 (int ecIndex) \<noteq> rr_EcIdx t then Returns (Inl ErrRecoverySP, a)
           else let segmentPieceKey = SegmentPieceKey (Id (object_of (rr_ObjectInfo t))) (rr_SegmentIdx t) in
             if rr_EcIdx t < i32 (i32 (uint (RedundantDataChunkNum params)) - 1)
             then bind_go (ec_piece_task (ga_object env) (Some ob) (Some b) params False (PrimarySpAddress b) (word_of_int ecPieceSize) segmentPieceKey
                             (word_of_int (i64 (rr_EcIdx t * ecPieceSize))) (word_of_int ecPieceSize) a) (\<lambda>pieceTask.
                    case gate_out (go_GetPiece (ga_object env) pieceTask) a of
                      (Inl _, a) \<Rightarrow> Returns (Inl ErrDownloadPieceStore, a)
                    | (Inr pieceData, a) \<Rightarrow> Returns (Inr pieceData, a))
             else bind_go (SegmentPieceSize (PayloadSize ob) (rr_SegmentIdx t) (MaxSegmentSize params)) (\<lambda>segmentPieceSize.
                  bind_go (ec_piece_task (ga_object env) (Some ob) (Some b) params False (PrimarySpAddress b) (word_of_int ecPieceSize) segmentPieceKey
                             0 (word_of_int segmentPieceSize) a) (\<lambda>pieceTask.
                    case gate_out (go_GetPiece (ga_object env) pieceTask) a of
                      (Inl _, a) \<Rightarrow> Returns (Inl ErrExecPieceStore, a)
                    | (Inr segmentData, a) \<Rightarrow>
                        (case ga_EncodeRawSegment env segmentData (uint (RedundantDataChunkNum params)) (uint (RedundantParityChunkNum params)) of
                           Inl err \<Rightarrow> Returns (Inl err, a)
                         | Inr ecData \<Rightarrow>
                             if rr_EcIdx t < 0 \<or> nat (rr_EcIdx t) \<ge> length ecData then Panics else Returns (Inr (ecData ! nat (rr_EcIdx t)), a)))))"

definition recover_piece :: "('w, 'd) admin_env \<Rightarrow> GfSpRecoverPieceTask \<Rightarrow> string \<Rightarrow> ('w, 'd) gate_state \<Rightarrow> ('w, 'd) handled" where
  "recover_piece env t signatureAddr a =
     (case rr_ObjectInfo t of
        None \<Rightarrow> failed ErrInvalidHeader a
      | Some objectInfo \<Rightarrow>
          if RedundancyType objectInfo \<noteq> REDUNDANCY_EC_TYPE then failed ErrGateRedundancyType a
          else case getObjectChainMeta (ga_object env) (ObjectName objectInfo) (BucketName objectInfo) a of
            (Inl _, a) \<Rightarrow> failed ErrInvalidHeader a
          | (Inr (chainObjectInfo, bucketInfo, params), a) \<Rightarrow>
              let maxRedundancyIndex = i32 (i32 (uint (RedundantParityChunkNum params + RedundantDataChunkNum params)) - 1) in
              if rr_EcIdx t < -1 \<or> rr_EcIdx t > maxRedundancyIndex then failed ErrRecoveryPieceIndex a
              else (case (chainObjectInfo, bucketInfo) of
                (Some ob, Some b) \<Rightarrow>
                  bind_go (if rr_EcIdx t \<ge> 0 then recoverECPiece env ob b t params signatureAddr a
                           else recoverSegmentPiece env ob b t params signatureAddr a) (\<lambda>(res, a).
                    case res of Inl err \<Rightarrow> failed err a | Inr pieceData \<Rightarrow> Returns (None, no_response\<lparr>rs_body := pieceData\<rparr>, a))
              | _ \<Rightarrow> Panics))"

definition recoverPrimaryHandler :: "('w, 'd) admin_env \<Rightarrow> http_request \<Rightarrow> ('w, 'd) gate_state \<Rightarrow> ('w, 'd) handled" where
  "recoverPrimaryHandler env r a =
     bind_go (NewRequestContext (gate_of env) r a) (\<lambda>(reqCtx, _, a).
       case DecodeString (rq_Header r ''X-Gnfd-Recovery-Msg'') of
         Inl _ \<Rightarrow> failed ErrDecodeMsg a
       | Inr recoveryMsg \<Rightarrow>
           (case ga_unmarshal_recover env recoveryMsg of
              None \<Rightarrow> failed ErrDecodeMsg a
            | Some t \<Rightarrow>
                let digest = ga_Keccak256 env (ga_recover_SignBytes env t) in
                (case RecoverAddr (gate_of env) digest (rr_Signature t) of
                   Inl _ \<Rightarrow> failed ErrSignature a
                 | Inr (signatureAddr, pk) \<Rightarrow>
                     if rr_Signature t = [] then Panics
                     else if \<not> ge_VerifySecp (gate_of env) pk digest (butlast (rr_Signature t)) then failed ErrSignature a
                     else recover_piece env t signatureAddr a)))"

section \<open>The sending provider\<close>

text \<open>\<open>hc_Do\<close> is the network: it answers a request to an endpoint with a status, headers and a body.\<close>

record 'n http_client =
  hc_NewRequest :: "string \<Rightarrow> go_error option"
  hc_marshal_approval :: "GfSpReplicatePieceApprovalTask \<Rightarrow> go_error + bytes"
  hc_marshal_receive :: "GfSpReceivePieceTask \<Rightarrow> go_error + bytes"
  hc_marshal_recover :: "GfSpRecoverPieceTask \<Rightarrow> go_error + bytes"
  hc_Do :: "string \<Rightarrow> http_request \<Rightarrow> 'n \<Rightarrow> (go_error + int \<times> response) \<times> 'n"

definition replicate_request :: "bytes \<Rightarrow> bytes \<Rightarrow> bytes \<Rightarrow> http_request" where
  "replicate_request approvalMsg receiveMsg data =
     \<lparr>rq_Header = (\<lambda>h. if h = ''X-Gnfd-Replicate-Piece-Approval-Msg'' then EncodeToString approvalMsg
                     else if h = ''X-Gnfd-Receive-Msg'' then EncodeToString receiveMsg else []),
      rq_Vars = (\<lambda>v. []), rq_Query = (\<lambda>q. []), rq_Body = data\<rparr>"

definition send_replicate :: "'n http_client \<Rightarrow> string \<Rightarrow> GfSpReplicatePieceApprovalTask \<Rightarrow> GfSpReceivePieceTask \<Rightarrow> bytes \<Rightarrow> 'n
    \<Rightarrow> (go_error + int \<times> response) \<times> 'n" where
  "send_replicate hc endpoint approval receive data n =
     (let url = endpoint @ ''/greenfield/receiver/v1/replicate-piece'' in
      case hc_NewRequest hc url of
        Some err \<Rightarrow> (Inl err, n)
      | None \<Rightarrow>
          (case hc_marshal_approval hc approval of
             Inl err \<Rightarrow> (Inl err, n)
           | Inr approvalMsg \<Rightarrow>
               (case hc_marshal_receive hc receive of
                  Inl err \<Rightarrow> (Inl err, n)
                | Inr receiveMsg \<Rightarrow> hc_Do hc url (replicate_request approvalMsg receiveMsg data) n)))"

definition ReplicatePieceToSecondary :: "'n http_client \<Rightarrow> string \<Rightarrow> GfSpReplicatePieceApprovalTask \<Rightarrow> GfSpReceivePieceTask \<Rightarrow> bytes \<Rightarrow> 'n
    \<Rightarrow> go_error option \<times> 'n" where
  "ReplicatePieceToSecondary hc endpoint approval receive data n =
     (case send_replicate hc endpoint approval receive data n of
        (Inl err, n) \<Rightarrow> (Some err, n)
      | (Inr (status, resp), n) \<Rightarrow>
          (if status \<noteq> StatusOK
           then Some (PlainErr (''failed to replicate piece, StatusCode('' @ show_int status @ '') Endpoint('' @ endpoint @ '')'')) else None, n))"

definition header_of :: "response \<Rightarrow> string \<Rightarrow> string" where
  "header_of resp h = (case map_of (rs_headers resp) h of None \<Rightarrow> [] | Some v \<Rightarrow> v)"

definition DoneReplicatePieceToSecondary :: "'n http_client \<Rightarrow> string \<Rightarrow> GfSpReplicatePieceApprovalTask \<Rightarrow> GfSpReceivePieceTask \<Rightarrow> 'n
    \<Rightarrow> (go_error + bytes \<times> bytes) \<times> 'n" where
  "DoneReplicatePieceToSecondary hc endpoint approval receive n =
     (case send_replicate hc endpoint approval receive [] n of
        (Inl err, n) \<Rightarrow> (Inl err, n)
      | (Inr (status, resp), n) \<Rightarrow>
          (if status \<noteq> StatusOK then Inl (PlainErr (''failed to replicate piece, StatusCode('' @ show_int status @ '')''))
           else case DecodeString (header_of resp ''X-Gnfd-Integrity-Hash'') of
             Inl e \<Rightarrow> Inl (PlainErr (hex_text e))
           | Inr integrity \<Rightarrow>
               (case DecodeString (header_of resp ''X-Gnfd-Integrity-Hash-Signature'') of
                  Inl e \<Rightarrow> Inl (PlainErr (hex_text e))
                | Inr signature \<Rightarrow> Inr (integrity, signature)), n))"

definition GetPieceFromECChunks :: "'n http_client \<Rightarrow> string \<Rightarrow> GfSpRecoverPieceTask \<Rightarrow> 'n \<Rightarrow> (go_error + bytes) \<times> 'n" where
  "GetPieceFromECChunks hc endpoint t n =
     (let url = endpoint @ ''/greenfield/recovery/v1/get-piece'' in
      case hc_NewRequest hc url of
        Some err \<Rightarrow> (Inl err, n)
      | None \<Rightarrow>
          (case hc_marshal_recover hc t of
             Inl err \<Rightarrow> (Inl err, n)
           | Inr recoveryMsg \<Rightarrow>
               (case hc_Do hc url \<lparr>rq_Header = (\<lambda>h. if h = ''X-Gnfd-Recovery-Msg'' then EncodeToString recoveryMsg else []),
                       rq_Vars = (\<lambda>v. []), rq_Query = (\<lambda>q. []), rq_Body = []\<rparr> n of
                  (Inl err, n) \<Rightarrow> (Inl err, n)
                | (Inr (status, resp), n) \<Rightarrow>
                    (if status \<noteq> StatusOK
                     then Inl (PlainErr (''failed to get recovery piece, StatusCode('' @ show_int status @ '') Endpoint('' @ endpoint @ '')''))
                     else Inr (rs_body resp), n))))"

text \<open>
  A gateway as the network: the status of a response is that of its error; a request whose handler panics loses its
  connection.
\<close>

definition status_of :: "go_error option \<Rightarrow> int" where
  "status_of err = (case err of None \<Rightarrow> StatusOK | Some e \<Rightarrow> (case MakeGfSpError (Some e) of None \<Rightarrow> 0 | Some g \<Rightarrow> HttpStatusCode g))"

definition served :: "(http_request \<Rightarrow> ('w, 'd) gate_state \<Rightarrow> ('w, 'd) handled) \<Rightarrow> string \<Rightarrow> http_request \<Rightarrow> ('w, 'd) gate_state
    \<Rightarrow> (go_error + int \<times> response) \<times> ('w, 'd) gate_state" where
  "served handler url r a =
     (case handler r a of
        Panics \<Rightarrow> (Inl (PlainErr ''EOF''), a)
      | Returns (err, resp, a') \<Rightarrow> (Inr (status_of err, resp), a'))"

section \<open>Replication between two providers\<close>

lemma unsigned_context:
  assumes "rq_Header r ''Authorization'' = []"
  shows "\<exists>reqCtx. NewRequestContext env r a = Returns (reqCtx, Some ErrUnsupportedSignType, a)"
  using assms by (simp add: NewRequestContext_def VerifySignature_def signaturePrefix_def Let_def)

text \<open>An approval that the handler accepts at the present height of the chain.\<close>

definition approved :: "('w, 'd) admin_env \<Rightarrow> GfSpReplicatePieceApprovalTask \<Rightarrow> ('w, 'd) gate_state \<Rightarrow> bool" where
  "approved env approval a \<longleftrightarrow> ra_ApprovedSpOperatorAddress approval = operator env
     \<and> p2p_VerifySignature env (operator env) (ga_approval_SignBytes env approval) (ra_ApprovedSignature approval)
     \<and> (case fst (chain (ga_object env) CurrentHeight a) of Inl _ \<Rightarrow> True | Inr h \<Rightarrow> h \<le> ra_ExpiredHeight approval)"

lemma replicateHandler_approved:
  assumes "rq_Header r ''Authorization'' = []" "DecodeString (rq_Header r ''X-Gnfd-Replicate-Piece-Approval-Msg'') = Inr m"
    "ga_unmarshal_approval env m = Some approval" "approved env approval a"
  shows "replicateHandler env r a = receive_replica env r (snd (chain (ga_object env) CurrentHeight a))"
proof -
  obtain reqCtx where c: "NewRequestContext (gate_of env) r a = Returns (reqCtx, Some ErrUnsupportedSignType, a)"
    using unsigned_context [OF assms(1)] by blast
  obtain h a1 where h: "chain (ga_object env) CurrentHeight a = (h, a1)" by fastforce
  then show ?thesis using c assms(2-4) by (cases h) (auto simp: replicateHandler_def approved_def)
qed

lemma send_replicate_served:
  assumes "hc_NewRequest hc = (\<lambda>url. None)" "hc_Do hc = served (replicateHandler env)" "hc_marshal_approval hc approval = Inr m1" "hc_marshal_receive hc receive = Inr m2"
    "ga_unmarshal_approval env m1 = Some approval" "approved env approval a"
  shows "send_replicate hc endpoint approval receive data a
    = served (\<lambda>r a. receive_replica env r (snd (chain (ga_object env) CurrentHeight a))) url (replicate_request m1 m2 data) a"
proof -
  have "replicateHandler env (replicate_request m1 m2 data) a
      = receive_replica env (replicate_request m1 m2 data) (snd (chain (ga_object env) CurrentHeight a))"
    using replicateHandler_approved [OF _ _ assms(5,6), of "replicate_request m1 m2 data"] by (simp add: replicate_request_def)
  then show ?thesis using assms(1-4) by (simp add: send_replicate_def served_def)
qed

text \<open>A secondary provider: a gateway that reads requests, with a receiver behind it.\<close>

definition secondary :: "(('s, 'i, 'p) ReceiveModular, 'd) admin_env \<Rightarrow> ('s, 'i, 'p) receive_env \<Rightarrow> int64 \<Rightarrow> int64 \<Rightarrow> int64 \<Rightarrow> bool" where
  "secondary env renv n1 n2 n3 \<longleftrightarrow> ga_ReadAll env = (\<lambda>r. Some (rq_Body r))
     \<and> ga_ReplicatePiece env = client_ReplicatePiece True renv (\<lambda>s. True) n1 n2 n3 \<and> ga_DoneReplicatePiece env = client_DoneReplicatePiece True renv n1 n2"

text \<open>A primary provider whose requests reach this gateway, and the messages in their headers.\<close>

definition sends_to :: "('w, 'd) gate_state http_client \<Rightarrow> ('w, 'd) admin_env \<Rightarrow> GfSpReplicatePieceApprovalTask \<Rightarrow> GfSpReceivePieceTask \<Rightarrow> bool" where
  "sends_to hc env approval receive \<longleftrightarrow> hc_NewRequest hc = (\<lambda>url. None) \<and> hc_Do hc = served (replicateHandler env)
     \<and> (\<exists>m. hc_marshal_approval hc approval = Inr m \<and> ga_unmarshal_approval env m = Some approval)
     \<and> (\<exists>m. hc_marshal_receive hc receive = Inr m \<and> ga_unmarshal_receive env m = Some receive)"

lemma receive_replica_piece:
  assumes "secondary env renv n1 n2 n3" "ga_unmarshal_receive env m2 = Some receive" "rv_ObjectInfo receive = Some ob"
    "unat (rv_ReplicateIdx receive) < length (Checksums ob)" "0 \<le> rv_PieceIdx receive"
    "receiver_HandleReceivePieceTask renv n1 n2 n3 (Some receive) data (am_world a) = Returns (err, t', w)"
  shows "receive_replica env (replicate_request m1 m2 data) a = Returns (map_option GfSpErr (MakeGfSpError err), no_response, a\<lparr>am_world := w\<rparr>)"
proof -
  have "EstimateLimit (ReceivePieceTask receive) = Returns (with_priority (rv_PieceSize receive) (rv_Task receive))" by simp
  then have "client_ReplicatePiece True renv (\<lambda>s. True) n1 n2 n3 receive data (am_world a) = (map_option GfSpErr (MakeGfSpError err), w)"
    using assms(3,6) by (cases "MakeGfSpError err")
      (simp_all add: client_ReplicatePiece_def client_call_def GfSpReplicatePiece_def reserving_def)
  then show ?thesis using assms(1-5) by (cases "MakeGfSpError err")
      (simp_all add: receive_replica_def replicate_request_def secondary_def gate_out_def failed_def)
qed

lemma receive_replica_done_fails:
  assumes "secondary env renv n1 n2 n3" "ga_unmarshal_receive env m2 = Some receive" "rv_ObjectInfo receive = Some ob"
    "unat (rv_ReplicateIdx receive) < length (Checksums ob)" "rv_PieceIdx receive < 0"
    "HandleDoneReceivePieceTask renv n1 n2 (Some receive) (am_world a) = Returns (Inl err, t', w)" "MakeGfSpError (Some err) = Some g"
  shows "receive_replica env (replicate_request m1 m2 data) a = Returns (Some (GfSpErr g), no_response, a\<lparr>am_world := w\<rparr>)"
proof -
  have "client_DoneReplicatePiece True renv n1 n2 receive (am_world a) = (Inl (GfSpErr g), w)"
    using assms(3,6,7) by (simp add: client_DoneReplicatePiece_def client_call_def GfSpDoneReplicatePiece_def response_of_def)
  then show ?thesis using assms(1-5)
    by (simp add: receive_replica_def replicate_request_def secondary_def gate_out_def failed_def)
qed

lemma receive_replica_done:
  assumes "secondary env renv n1 n2 n3" "ga_unmarshal_receive env m2 = Some receive" "rv_ObjectInfo receive = Some ob"
    "unat (rv_ReplicateIdx receive) < length (Checksums ob)" "rv_PieceIdx receive < 0"
    "HandleDoneReceivePieceTask renv n1 n2 (Some receive) (am_world a) = Returns (Inr (integrity, signature), t', w)"
  shows "receive_replica env (replicate_request m1 m2 data) a
    = Returns (None, no_response\<lparr>rs_headers := [(''X-Gnfd-Integrity-Hash'', EncodeToString integrity),
        (''X-Gnfd-Integrity-Hash-Signature'', EncodeToString signature)]\<rparr>, a\<lparr>am_world := w\<rparr>)"
proof -
  have "client_DoneReplicatePiece True renv n1 n2 receive (am_world a) = (Inr (integrity, signature), w)"
    using assms(3,6) by (simp add: client_DoneReplicatePiece_def client_call_def GfSpDoneReplicatePiece_def response_of_def)
  then show ?thesis using assms(1-5)
    by (simp add: receive_replica_def replicate_request_def secondary_def gate_out_def)
qed

text \<open>
  C13. What a primary provider sends is what the receiver of a secondary provider gets, and what it is told is what the receiver answers:
  with an approval that is accepted, the call that sends a piece runs the receiver on the same task and the same bytes, succeeds
  when it does, and fails when it fails; and the call that ends a replication returns the integrity hash and the signature of
  the receiver, and fails when the receiver fails, in both cases for errors with a code and a status other than 200. The task is served whatever
  its signature, against the comment in \<open>replicateHandler\<close> that the request is verified by it, and the approval may be
  for any object: nothing compares it with the task.
\<close>

theorem replica_calls_reach_receiver:
  assumes hc: "sends_to hc env approval receive" and sec: "secondary env renv n1 n2 n3" and appr: "approved env approval a"
    and ob: "rv_ObjectInfo receive = Some ob" "unat (rv_ReplicateIdx receive) < length (Checksums ob)"
    and a1: "a1 = snd (chain (ga_object env) CurrentHeight a)"
  shows "(0 \<le> rv_PieceIdx receive \<longrightarrow> receiver_HandleReceivePieceTask renv n1 n2 n3 (Some receive) data (am_world a1) = Returns (err, t', w)
      \<longrightarrow> (\<exists>e. ReplicatePieceToSecondary hc endpoint approval receive data a = (e, a1\<lparr>am_world := w\<rparr>) \<and> (err = None \<longrightarrow> e = None)
            \<and> (\<forall>g. MakeGfSpError err = Some g \<and> HttpStatusCode g \<noteq> StatusOK \<and> InnerCode g \<noteq> 0 \<longrightarrow> e \<noteq> None)))
    \<and> (rv_PieceIdx receive < 0 \<longrightarrow> HandleDoneReceivePieceTask renv n1 n2 (Some receive) (am_world a1) = Returns (Inr (integrity, signature), t', w)
      \<longrightarrow> DoneReplicatePieceToSecondary hc endpoint approval receive a = (Inr (integrity, signature), a1\<lparr>am_world := w\<rparr>))
    \<and> (rv_PieceIdx receive < 0 \<longrightarrow> HandleDoneReceivePieceTask renv n1 n2 (Some receive) (am_world a1) = Returns (Inl failure, t', w)
      \<longrightarrow> MakeGfSpError (Some failure) = Some g \<longrightarrow> HttpStatusCode g \<noteq> StatusOK \<longrightarrow> InnerCode g \<noteq> 0
      \<longrightarrow> (\<exists>e. DoneReplicatePieceToSecondary hc endpoint approval receive a = (Inl e, a1\<lparr>am_world := w\<rparr>)))"
proof -
  obtain m1 m2 where m: "hc_marshal_approval hc approval = Inr m1" "ga_unmarshal_approval env m1 = Some approval"
    "hc_marshal_receive hc receive = Inr m2" "ga_unmarshal_receive env m2 = Some receive" using hc unfolding sends_to_def by blast
  have send: "send_replicate hc endpoint approval receive data a
      = served (\<lambda>r a. receive_replica env r (snd (chain (ga_object env) CurrentHeight a))) [] (replicate_request m1 m2 data) a" for data
    by (rule send_replicate_served) (use hc m appr in \<open>auto simp: sends_to_def\<close>)
  have none: "MakeGfSpError None = None" by (simp add: MakeGfSpError_def)
  show ?thesis
  proof (intro conjI impI)
    assume "0 \<le> rv_PieceIdx receive" "receiver_HandleReceivePieceTask renv n1 n2 n3 (Some receive) data (am_world a1) = Returns (err, t', w)"
    then have "receive_replica env (replicate_request m1 m2 data) a1 = Returns (map_option GfSpErr (MakeGfSpError err), no_response, a1\<lparr>am_world := w\<rparr>)"
      using receive_replica_piece [OF sec m(4) ob] by blast
    then have s: "send_replicate hc endpoint approval receive data a
        = (Inr (status_of (map_option GfSpErr (MakeGfSpError err)), no_response), a1\<lparr>am_world := w\<rparr>)" using send [of data] a1 by (simp add: served_def)
    then show "\<exists>e. ReplicatePieceToSecondary hc endpoint approval receive data a = (e, a1\<lparr>am_world := w\<rparr>) \<and> (err = None \<longrightarrow> e = None)
        \<and> (\<forall>g. MakeGfSpError err = Some g \<and> HttpStatusCode g \<noteq> StatusOK \<and> InnerCode g \<noteq> 0 \<longrightarrow> e \<noteq> None)"
      by (auto simp: ReplicatePieceToSecondary_def none status_of_def MakeGfSpError_def)
  next
    assume "rv_PieceIdx receive < 0" "HandleDoneReceivePieceTask renv n1 n2 (Some receive) (am_world a1) = Returns (Inr (integrity, signature), t', w)"
    then have "receive_replica env (replicate_request m1 m2 []) a1
        = Returns (None, no_response\<lparr>rs_headers := [(''X-Gnfd-Integrity-Hash'', EncodeToString integrity),
            (''X-Gnfd-Integrity-Hash-Signature'', EncodeToString signature)]\<rparr>, a1\<lparr>am_world := w\<rparr>)"
      using receive_replica_done [OF sec m(4) ob] by blast
    then show "DoneReplicatePieceToSecondary hc endpoint approval receive a = (Inr (integrity, signature), a1\<lparr>am_world := w\<rparr>)"
      using send [of "[]"] a1 by (simp add: served_def DoneReplicatePieceToSecondary_def status_of_def header_of_def)
  next
    assume "rv_PieceIdx receive < 0" "HandleDoneReceivePieceTask renv n1 n2 (Some receive) (am_world a1) = Returns (Inl failure, t', w)"
      "MakeGfSpError (Some failure) = Some g" and g: "HttpStatusCode g \<noteq> StatusOK" "InnerCode g \<noteq> 0"
    then have "receive_replica env (replicate_request m1 m2 []) a1 = Returns (Some (GfSpErr g), no_response, a1\<lparr>am_world := w\<rparr>)"
      using receive_replica_done_fails [OF sec m(4) ob] by blast
    moreover have "status_of (Some (GfSpErr g)) \<noteq> StatusOK" using g by (simp add: status_of_def MakeGfSpError_def)
    ultimately show "\<exists>e. DoneReplicatePieceToSecondary hc endpoint approval receive a = (Inl e, a1\<lparr>am_world := w\<rparr>)"
      using send [of "[]"] a1 by (simp add: served_def DoneReplicatePieceToSecondary_def)
  qed
qed

section \<open>What a recovery returns\<close>

lemma i32_pred: "0 \<le> x \<Longrightarrow> x < 2 ^ 31 \<Longrightarrow> i32 (i32 x - 1) = x - 1"
  by (simp add: i32_id in_i32_def)

lemma int64_of_int: "0 \<le> x \<Longrightarrow> x < 2 ^ 63 \<Longrightarrow> int64_of (word_of_int x) = x"
  using int64_of_small [of "word_of_int x"] by (simp add: uint_word_of_int)

text \<open>The gateway of a provider in front of its downloader, which reads the pieces of its store.\<close>

definition recovery_reader :: "((ObjectStorage, 'd, 'i, 'c) download_world, 'k) object_env \<Rightarrow> (ObjectStorage, 'd, 'i, 'c) download_env
    \<Rightarrow> ('c \<Rightarrow> string \<Rightarrow> bytes option) \<Rightarrow> (ObjectStorage, 'd, 'i, 'c) download_world \<Rightarrow> bool" where
  "recovery_reader env denv cached w \<longleftrightarrow> (\<exists>now nowUs. go_GetPiece env = over_fst (client_GetPiece True denv (\<lambda>s. True) now nowUs))
     \<and> de_get denv = GetPiece \<and> store_ok (dl_pieceStore (fst w)) \<and> reader_ready denv cached (fst w)"

lemma ec_piece_task_reads:
  assumes "recovery_reader env denv cached (am_world a)" "ObjectStatus ob = OBJECT_STATUS_SEALED"
    "store_content (dl_pieceStore (fst (am_world a))) key = Some segment" "key \<noteq> []" "0 \<le> off" "off < 2 ^ 63" "0 < len" "len < 2 ^ 63"
  shows "\<exists>pt w. ec_piece_task env (Some ob) (Some b) params False (PrimarySpAddress b) sz key (word_of_int off) (word_of_int len) a = Returns pt
    \<and> gate_out (go_GetPiece env pt) a = (Inr (take (nat len) (drop (nat off) segment)), a\<lparr>am_world := w\<rparr>)"
proof -
  let ?d = "fst (am_world a)"
  obtain pt where pt: "ec_piece_task env (Some ob) (Some b) params False (PrimarySpAddress b) sz key (word_of_int off) (word_of_int len) a = Returns pt"
    "dp_PieceKey pt = key" "dp_PieceOffset pt = word_of_int off" "dp_PieceLength pt = word_of_int len"
    "dp_ObjectInfo pt = Some ob" "dp_BucketInfo pt = Some b" "dp_StorageParams pt = Some params" "dp_UserAddress pt = PrimarySpAddress b"
    by (simp add: ec_piece_task_def InitDownloadPieceTask_def)
  let ?d1 = "?d\<lparr>dl_reported := dl_reported ?d @ [DownloadPieceTask pt]\<rparr>"
  obtain now nowUs where get: "go_GetPiece env = over_fst (client_GetPiece True denv (\<lambda>s. True) now nowUs)"
    using assms(1) by (auto simp: recovery_reader_def)
  have "PreDownloadPiece denv now nowUs (Some pt) ?d = Returns (None, ?d1)"
    using pt assms(2) by (simp add: PreDownloadPiece_def report_piece_def)
  moreover have "reader_ready denv cached ?d1" using assms(1) by (auto simp: recovery_reader_def reader_ready_def)
  moreover have "GetPiece (dl_pieceStore ?d) key off len = Returns (Inr (take (nat len) (drop (nat off) segment)))"
    using GetPiece_content [of "dl_pieceStore ?d" off key len] assms by (simp add: recovery_reader_def window_def)
  ultimately have "\<exists>c. client_GetPiece True denv (\<lambda>s. True) now nowUs pt ?d = (Inr (take (nat len) (drop (nat off) segment)), c)"
    using client_GetPiece_reads [of pt ob "\<lambda>s. True" denv now nowUs ?d ?d1 cached] assms pt by (fastforce simp: recovery_reader_def int64_of_int)
  then obtain c where "go_GetPiece env pt (am_world a) = (Inr (take (nat len) (drop (nat off) segment)), c)"
    using get by (auto simp: over_fst_def)
  then show ?thesis using pt(1) by (intro exI [of _ pt] exI [of _ c]) (simp add: gate_out_def)
qed

text \<open>
  C24. Any key reads pieces of every object: a recovery request with the signature of whatever key gets the erasure coded piece that a
  secondary provider keeps of the object whose number is in the request, up to the length of a piece of the object whose name is in
  the request. That object has to be sealed and the provider has to be one of its secondary providers, but it need not
  be the object of the number, and the sender need not be the primary provider. No quota is charged.
\<close>

theorem recovery_serves_anybody:
  assumes r: "rq_Header r ''Authorization'' = []" "DecodeString (rq_Header r ''X-Gnfd-Recovery-Msg'') = Inr m" "ga_unmarshal_recover env m = Some t"
    and key: "RecoverAddr (gate_of env) (ga_Keccak256 env (ga_recover_SignBytes env t)) (rr_Signature t) = Inr (addr, pk)" "rr_Signature t \<noteq> []"
      "ge_VerifySecp (gate_of env) pk (ga_Keccak256 env (ga_recover_SignBytes env t)) (butlast (rr_Signature t))"
    and t: "rr_EcIdx t = -1" "rr_ObjectInfo t = Some named" "RedundancyType named = REDUNDANCY_EC_TYPE"
    and chain: "getObjectChainMeta (ga_object env) (ObjectName named) (BucketName named) a = (Inr (Some ob, Some b, params), a1)"
      "ObjectStatus ob = OBJECT_STATUS_SEALED" "uint (RedundantParityChunkNum params + RedundantDataChunkNum params) < 2 ^ 31"
      "last_index (operator env) (SecondarySpAddresses ob) = Some k"
      "ECPieceSize (PayloadSize ob) (rr_SegmentIdx t) (MaxSegmentSize params) (RedundantDataChunkNum params) = Returns n" "0 < n" "n < 2 ^ 63"
    and piece: "recovery_reader (ga_object env) denv cached (am_world a1)"
      "store_content (dl_pieceStore (fst (am_world a1))) (ECPieceKey (Id named) (rr_SegmentIdx t) (of_nat k)) = Some data"
  shows "\<exists>a'. recoverPrimaryHandler env r a = Returns (None, no_response\<lparr>rs_body := take (nat n) data\<rparr>, a')"
proof -
  obtain reqCtx where c: "NewRequestContext (gate_of env) r a = Returns (reqCtx, Some ErrUnsupportedSignType, a)"
    using unsigned_context [OF r(1)] by blast
  have "ECPieceKey (Id named) (rr_SegmentIdx t) (of_nat k) \<noteq> []" by (simp add: ECPieceKey_def)
  then obtain pt w where "ec_piece_task (ga_object env) (Some ob) (Some b) params False (PrimarySpAddress b) (word_of_int n)
      (ECPieceKey (Id named) (rr_SegmentIdx t) (of_nat k)) (word_of_int 0) (word_of_int n) a1 = Returns pt"
    "gate_out (go_GetPiece (ga_object env) pt) a1 = (Inr (take (nat n) data), a1\<lparr>am_world := w\<rparr>)"
    using ec_piece_task_reads [OF piece(1) chain(2) piece(2) _ _ _ chain(6,7), of 0 b params "word_of_int n"] by auto
  then have "recoverSegmentPiece env ob b t params addr a1 = Returns (Inr (take (nat n) data), a1\<lparr>am_world := w\<rparr>)"
    using chain(4,5) t(2) by (simp add: recoverSegmentPiece_def object_of_def)
  moreover have "- 1 \<le> i32 (i32 (uint (RedundantParityChunkNum params + RedundantDataChunkNum params)) - 1)"
    using i32_pred [OF uint_ge_0 chain(3)] uint_ge_0 [of "RedundantParityChunkNum params + RedundantDataChunkNum params"] by linarith
  ultimately have "recover_piece env t addr a = Returns (None, no_response\<lparr>rs_body := take (nat n) data\<rparr>, a1\<lparr>am_world := w\<rparr>)"
    using t chain(1) by (simp add: recover_piece_def Let_def)
  then show ?thesis using c r(2,3) key by (simp add: recoverPrimaryHandler_def Let_def)
qed

text \<open>The data chunks of an erasure coding are the parts of the segment, the last ones filled up with zeros.\<close>

definition systematic :: "nat \<Rightarrow> nat \<Rightarrow> nat \<Rightarrow> bytes \<Rightarrow> bytes list \<Rightarrow> bool" where
  "systematic d p n segment ec \<longleftrightarrow> length ec = d + p \<and> (\<forall>i < d. ec ! i = take n (drop (i * n) (segment @ replicate (d * n - length segment) 0)))"

lemma cut_is_chunk:
  assumes "systematic d p n segment ec" "k < d" "0 < n" "length segment \<le> d * n"
  shows "take n (drop (k * n) segment) = ec ! k \<longleftrightarrow> (k + 1) * n \<le> length segment"
proof
  assume le: "(k + 1) * n \<le> length segment"
  then have "k * n + n \<le> length segment" by simp
  then have "take n (drop (k * n) (segment @ replicate (d * n - length segment) 0)) = take n (drop (k * n) segment)" by simp
  then show "take n (drop (k * n) segment) = ec ! k" using assms(1,2) by (simp add: systematic_def)
next
  assume "take n (drop (k * n) segment) = ec ! k"
  moreover have "length (ec ! k) = n"
  proof -
    have "(k + 1) * n \<le> d * n" using assms(2) by (intro mult_le_mono1) simp
    then have "k * n + n \<le> d * n" by simp
    then show ?thesis using assms(1,2,4) by (simp add: systematic_def)
  qed
  ultimately have "length (take n (drop (k * n) segment)) = n" by simp
  then show "(k + 1) * n \<le> length segment" using assms(3) by (auto simp: min_def split: if_splits)
qed

text \<open>
  A piece that a primary provider returns to a secondary provider for its recovery: parity chunks and the last data chunk are
  those of the erasure coding of the segment; the other data chunks are cut out of the segment, which is the chunk of the
  coding exactly when the segment reaches to its end. Of a short segment the piece is too short, and its checksum is not
  the recorded one.
\<close>

theorem recovered_chunk:
  assumes sp: "operator env = PrimarySpAddress b" "last_index addr (SecondarySpAddresses ob) = Some k" "rr_EcIdx t = int k" "rr_ObjectInfo t = Some named"
    and params: "0 < uint (RedundantDataChunkNum params)" "uint (RedundantDataChunkNum params) < 2 ^ 31"
      "k < unat (RedundantDataChunkNum params) + unat (RedundantParityChunkNum params)" "k < 2 ^ 31"
    and seg: "SegmentPieceSize (PayloadSize ob) (rr_SegmentIdx t) (MaxSegmentSize params) = Returns sz" "0 < sz" "sz < 2 ^ 62" "length segment = nat sz"
      "n = nat ((sz + uint (RedundantDataChunkNum params) - 1) div uint (RedundantDataChunkNum params))"
    and store: "recovery_reader (ga_object env) denv cached (am_world a)" "ObjectStatus ob = OBJECT_STATUS_SEALED"
      "store_content (dl_pieceStore (fst (am_world a))) (SegmentPieceKey (Id named) (rr_SegmentIdx t)) = Some segment"
    and ec: "ga_EncodeRawSegment env segment (uint (RedundantDataChunkNum params)) (uint (RedundantParityChunkNum params)) = Inr chunks"
      "systematic (unat (RedundantDataChunkNum params)) (unat (RedundantParityChunkNum params)) n segment chunks"
  shows "\<exists>piece a'. recoverECPiece env ob b t params addr a = Returns (Inr piece, a')
    \<and> (piece = chunks ! k \<longleftrightarrow> unat (RedundantDataChunkNum params) - 1 \<le> k \<or> (k + 1) * n \<le> length segment)"
proof -
  let ?d = "uint (RedundantDataChunkNum params)" and ?key = "SegmentPieceKey (Id named) (rr_SegmentIdx t)"
  have d: "int (unat (RedundantDataChunkNum params)) = ?d" by simp
  have n0: "0 < (sz + ?d - 1) div ?d" using params(1) seg(2) by (simp add: pos_imp_zdiv_pos_iff)
  have size: "ECPieceSize (PayloadSize ob) (rr_SegmentIdx t) (MaxSegmentSize params) (RedundantDataChunkNum params) = Returns (int n)"
    using ECPieceSize_ceiling [OF seg(1), of "RedundantDataChunkNum params"] seg(2,5) params(1) n0 by auto
  have "(sz + ?d - 1) div ?d * ?d \<le> sz + ?d - 1" "sz \<le> (sz + ?d - 1) div ?d * ?d"
    using div_mult_mod_eq [of "sz + ?d - 1" ?d] pos_mod_sign [OF params(1), of "sz + ?d - 1"] pos_mod_bound [OF params(1), of "sz + ?d - 1"] by linarith+
  then have nd: "int n * ?d \<le> sz + ?d - 1" "sz \<le> int n * ?d" using seg(5) n0 by simp_all
  have n: "0 < n" "int n < 2 ^ 63"
  proof -
    show "0 < n" using seg(5) n0 by simp
    have "int n * 1 \<le> int n * ?d" using params(1) by (intro mult_left_mono) auto
    then show "int n < 2 ^ 63" using nd(1) seg(3) params(2) by simp
  qed
  have key: "?key \<noteq> []" by (simp add: SegmentPieceKey_nonempty)
  have idx: "i32 (int k) = rr_EcIdx t" using params(4) sp(3) by (simp add: i32_id in_i32_def)
  have i: "i32 (i32 ?d - 1) = ?d - 1" using i32_pred [of ?d] params by simp
  show ?thesis
  proof (cases "int k < ?d - 1")
    case True
    have "int k * int n \<le> (?d - 1) * int n" using True by (intro mult_right_mono) auto
    then have off: "0 \<le> int k * int n" "int k * int n < 2 ^ 63" using nd(1) seg(3) params(2) n by (simp_all add: algebra_simps)
    have "in_i64 (int k * int n)" using off unfolding in_i64_def by linarith
    then have i64: "i64 (int k * int n) = int k * int n" by (rule i64_id)
    obtain pt w where "ec_piece_task (ga_object env) (Some ob) (Some b) params False (PrimarySpAddress b) (word_of_int (int n)) ?key
        (word_of_int (int k * int n)) (word_of_int (int n)) a = Returns pt"
      "gate_out (go_GetPiece (ga_object env) pt) a = (Inr (take (nat (int n)) (drop (nat (int k * int n)) segment)), a\<lparr>am_world := w\<rparr>)"
      using ec_piece_task_reads [OF store key off _ n(2), of b params "word_of_int (int n)"] n(1) by auto
    then have "recoverECPiece env ob b t params addr a = Returns (Inr (take n (drop (k * n) segment)), a\<lparr>am_world := w\<rparr>)"
      using size sp idx i True i64 by (simp add: recoverECPiece_def object_of_def Let_def nat_mult_distrib)
    moreover have "int (length segment) \<le> int (unat (RedundantDataChunkNum params) * n)" using nd(2) seg(2,4) d by (simp add: mult.commute)
    then have "length segment \<le> unat (RedundantDataChunkNum params) * n" by (simp only: of_nat_le_iff)
    moreover have "k < unat (RedundantDataChunkNum params)" "\<not> unat (RedundantDataChunkNum params) - 1 \<le> k" using True d by linarith+
    ultimately show ?thesis using cut_is_chunk [OF ec(2) _ n(1)] by blast
  next
    case False
    obtain pt w where "ec_piece_task (ga_object env) (Some ob) (Some b) params False (PrimarySpAddress b) (word_of_int (int n)) ?key
        (word_of_int 0) (word_of_int sz) a = Returns pt"
      "gate_out (go_GetPiece (ga_object env) pt) a = (Inr (take (nat sz) (drop (nat 0) segment)), a\<lparr>am_world := w\<rparr>)"
      using ec_piece_task_reads [OF store key, where off = 0 and len = sz] seg by fastforce
    moreover have "k < length chunks" using ec(2) params(3) by (simp add: systematic_def)
    ultimately have "recoverECPiece env ob b t params addr a = Returns (Inr (chunks ! k), a\<lparr>am_world := w\<rparr>)"
      using size sp idx i False seg ec(1) by (simp add: recoverECPiece_def object_of_def Let_def)
    moreover have "unat (RedundantDataChunkNum params) - 1 \<le> k" using False d by linarith
    ultimately show ?thesis by blast
  qed
qed

section \<open>Providers in memory\<close>

text \<open>A gateway of the operator \<open>self\<close> that takes every signature, with messages that are the same for all tasks.\<close>

definition demo_admin :: "('w, OffChainAuthKey list) object_env \<Rightarrow> GfSpReceivePieceTask \<Rightarrow> GfSpRecoverPieceTask \<Rightarrow> GfSpReplicatePieceApprovalTask
    \<Rightarrow> (GfSpReceivePieceTask \<Rightarrow> bytes \<Rightarrow> 'w \<Rightarrow> go_error option \<times> 'w) \<Rightarrow> (GfSpReceivePieceTask \<Rightarrow> 'w \<Rightarrow> (go_error + bytes \<times> bytes) \<times> 'w)
    \<Rightarrow> ('w, OffChainAuthKey list) admin_env" where
  "demo_admin env receive recover approval replicate_call done_call = \<lparr>ga_object = env, ga_unmarshal_approval = (\<lambda>m. Some approval),
     ga_unmarshal_receive = (\<lambda>m. Some receive), ga_unmarshal_recover = (\<lambda>m. Some recover), ga_unmarshal_bucket = (\<lambda>m. None), ga_unmarshal_object = (\<lambda>m. None),
     ga_validate_bucket = (\<lambda>m. True), ga_validate_object = (\<lambda>m. True), ga_marshal_bucket = (\<lambda>m. []), ga_marshal_object = (\<lambda>m. []),
     ga_approval_SignBytes = (\<lambda>t. [1]), ga_recover_SignBytes = (\<lambda>t. [1]), ga_AccAddressFromHex = (\<lambda>s. Some [9]), ga_Keccak256 = (\<lambda>m. m),
     ga_RecoverPubkey = (\<lambda>m s. Some [2]), ga_PubkeyToAddress = (\<lambda>k. Some [9]), ga_ReadAll = (\<lambda>r. Some (rq_Body r)),
     ga_EncodeRawSegment = (\<lambda>b d p. Inr [take 2 b, take 2 (drop 2 b), drop 4 b @ [0], [0, 0], [7, 7], [8, 8]]),
     ga_AskCreateBucketApproval = (\<lambda>t w. (Inr (True, t), w)), ga_AskCreateObjectApproval = (\<lambda>t w. (Inr (True, t), w)),
     ga_GetChallengeInfo = (\<lambda>t w. (Inr ([], [], []), w)), ga_ReplicatePiece = replicate_call, ga_DoneReplicatePiece = done_call\<rparr>"

definition demo_approval :: GfSpReplicatePieceApprovalTask where
  "demo_approval = (InitApprovalReplicatePieceTask 0 None None 0 [])\<lparr>ra_ApprovedSpOperatorAddress := ''self'', ra_ApprovedSignature := replicate 65 27, ra_ExpiredHeight := 10\<rparr>"

definition demo_recover :: GfSpRecoverPieceTask where
  "demo_recover = \<lparr>rr_Task = new_task, rr_ObjectInfo = Some (demo_cat\<lparr>Id := 99\<rparr>), rr_StorageParams = None, rr_SegmentIdx = 0, rr_EcIdx = -1, rr_PieceSize = 0,
     rr_Signature = [5], rr_Recovered = False\<rparr>"

abbreviation "demo_replica \<equiv> demo_receive_task\<lparr>rv_ReplicateIdx := 0\<rparr>"
abbreviation "memory_secondary \<equiv> demo_admin (still_env demo_view (\<lambda>t w. (Inl ErrRpcUnknown, w)) (\<lambda>t w. (None, w))) demo_replica demo_recover demo_approval
  (client_ReplicatePiece True memory_receive_env (\<lambda>s. True) 1 1 1) (client_DoneReplicatePiece True memory_receive_env 1 1)"

definition memory_client :: "((ObjectStorage, (uint64 \<times> IntegrityMetaTable) list, (piece_id \<times> PieceHashTable) list) ReceiveModular, OffChainAuthKey list) gate_state http_client" where
  "memory_client = \<lparr>hc_NewRequest = (\<lambda>u. None), hc_marshal_approval = (\<lambda>t. Inr [1]), hc_marshal_receive = (\<lambda>t. Inr [2]), hc_marshal_recover = (\<lambda>t. Inr [3]),
     hc_Do = served (replicateHandler memory_secondary)\<rparr>"

lemma still_height: "chain (still_env v g rep) CurrentHeight a = (Inr 0, a)"
  by (simp add: chain_def gate_out_def still_env_def CurrentHeight_def still_nodes_def view_nodes_def Let_def)

theorem replica_calls_reach_receiver_witness:
  "\<exists>r'. ReplicatePieceToSecondary memory_client ''other'' demo_approval demo_replica [8, 9] \<lparr>am_db = [], am_world = demo_receiver\<rparr>
    = (None, \<lparr>am_db = [], am_world = r'\<rparr>)"
proof -
  let ?a = "\<lparr>am_db = [], am_world = demo_receiver\<rparr> :: (_, OffChainAuthKey list) gate_state"
  have hc: "sends_to memory_client memory_secondary demo_approval demo_replica" "secondary memory_secondary memory_receive_env 1 1 1"
    by (simp_all add: sends_to_def secondary_def memory_client_def demo_admin_def)
  have op: "operator memory_secondary = ''self''" "ga_object memory_secondary = still_env demo_view (\<lambda>t w. (Inl ErrRpcUnknown, w)) (\<lambda>t w. (None, w))"
    by (simp_all add: operator_def gate_of_def demo_admin_def still_env_def)
  have "p2p_VerifySignature memory_secondary ''self'' (ga_approval_SignBytes memory_secondary demo_approval) (ra_ApprovedSignature demo_approval)"
    by (simp add: p2p_VerifySignature_def demo_admin_def demo_approval_def gate_of_def still_env_def Let_def)
  then have appr: "approved memory_secondary demo_approval ?a" unfolding approved_def op still_height by (simp add: demo_approval_def)
  have ob: "rv_ObjectInfo demo_replica = Some demo_upload_object" "unat (rv_ReplicateIdx demo_replica) < length (Checksums demo_upload_object)" "0 \<le> rv_PieceIdx demo_replica"
    by (simp_all add: demo_receive_task_def demo_upload_object_def)
  have "case receiver_HandleReceivePieceTask memory_receive_env 1 1 1 (Some demo_replica) [8, 9] demo_receiver of Returns (None, _) \<Rightarrow> True | _ \<Rightarrow> False" by code_simp
  then obtain t' w where run: "receiver_HandleReceivePieceTask memory_receive_env 1 1 1 (Some demo_replica) [8, 9] demo_receiver = Returns (None, t', w)"
    by (auto split: go.splits option.splits)
  show ?thesis
    using replica_calls_reach_receiver [OF hc appr ob(1,2) refl, of "[8, 9]" None t' w "''other''"] ob(3) run unfolding op still_height by auto
qed

definition demo_secondary_view :: chain_view where
  "demo_secondary_view = demo_view\<lparr>cv_object := (\<lambda>b ob. Some (demo_cat\<lparr>SecondarySpAddresses := [''other'', ''self'']\<rparr>))\<rparr>"

definition recovery_request :: http_request where
  "recovery_request = \<lparr>rq_Header = (\<lambda>h. if h = ''X-Gnfd-Recovery-Msg'' then ''03'' else []), rq_Vars = (\<lambda>v. []), rq_Query = (\<lambda>q. []), rq_Body = []\<rparr>"

abbreviation "secondary_object \<equiv> demo_cat\<lparr>SecondarySpAddresses := [''other'', ''self'']\<rparr>"

definition holding :: "string \<Rightarrow> bytes \<Rightarrow> memory_world" where
  "holding key data = ((fst (front_world 100))\<lparr>dl_pieceStore := MemStore \<lparr>ms_name = [], ms_objects = [(key, \<lparr>mo_data = data, mo_modTime = 0\<rparr>)]\<rparr>\<rparr>, [])"

abbreviation "holder v \<equiv> still_env v (over_fst (client_GetPiece True front_denv (\<lambda>s. True) 0 0)) (\<lambda>t w. (None, fst w, snd w @ [t]))"

lemma holding_reader:
  assumes "key \<noteq> []"
  shows "recovery_reader (holder v) front_denv (\<lambda>c. map_of (lru_entries c)) (holding key data)"
    "store_content (dl_pieceStore (fst (holding key data))) key = Some data"
  using assms lru.piece_cache_axioms
  by (auto simp: recovery_reader_def holding_def still_env_def front_denv_def front_world_def reader_ready_def cache_sound_def store_ok_def mem_content_def i64_def)

theorem recovery_serves_anybody_witness:
  "\<exists>env a'. recoverPrimaryHandler (env :: (memory_world, OffChainAuthKey list) admin_env) recovery_request
     \<lparr>am_db = [], am_world = holding (ECPieceKey 99 0 1) [42, 43, 44]\<rparr> = Returns (None, no_response\<lparr>rs_body := [42, 43]\<rparr>, a')"
proof -
  let ?named = "demo_cat\<lparr>Id := 99, RedundancyType := REDUNDANCY_EC_TYPE\<rparr>"
  let ?t = "demo_recover\<lparr>rr_ObjectInfo := Some ?named\<rparr>"
  let ?env = "demo_admin (holder demo_secondary_view) demo_replica ?t demo_approval (\<lambda>t d w. (None, w)) (\<lambda>t w. (Inr ([], []), w))"
  let ?a = "\<lparr>am_db = [], am_world = holding (ECPieceKey 99 0 1) [42, 43, 44]\<rparr> :: (memory_world, OffChainAuthKey list) gate_state"
  have env: "ga_object ?env = holder demo_secondary_view" "ga_unmarshal_recover ?env = (\<lambda>m. Some ?t)"
    "ga_Keccak256 ?env = (\<lambda>m. m)" "operator ?env = ''self''" "RecoverAddr (gate_of ?env) m sig = Inr (''alice'', [2])" "ge_VerifySecp (gate_of ?env) pk m sig"
    for m sig pk by (simp_all add: demo_admin_def operator_def gate_of_def still_env_def RecoverAddr_def)
  have t: "rr_Signature ?t \<noteq> []" "rr_EcIdx ?t = -1" "rr_ObjectInfo ?t = Some ?named" "RedundancyType ?named = REDUNDANCY_EC_TYPE" "rr_SegmentIdx ?t = 0"
    by (simp_all add: demo_recover_def)
  have chain: "getObjectChainMeta (ga_object ?env) (ObjectName ?named) (BucketName ?named) ?a = (Inr (Some secondary_object, Some front_bucket, demo_params), ?a)"
    unfolding env(1) by (simp add: getObjectChainMeta_def chain_def gate_out_def still_env_def QueryObjectInfo_def QueryBucketInfo_def
        QueryStorageParamsByTimestamp_def still_nodes_def view_nodes_def demo_secondary_view_def demo_view_def demo_cat_def object_of_def Let_def)
  have facts: "uint (RedundantParityChunkNum demo_params + RedundantDataChunkNum demo_params) < 2 ^ 31"
    "last_index ''self'' (SecondarySpAddresses secondary_object) = Some 1" "ObjectStatus secondary_object = OBJECT_STATUS_SEALED"
    "ECPieceSize (PayloadSize secondary_object) 0 (MaxSegmentSize demo_params) (RedundantDataChunkNum demo_params) = Returns 2" by code_simp+
  have r: "rq_Header recovery_request ''Authorization'' = []" "DecodeString (rq_Header recovery_request ''X-Gnfd-Recovery-Msg'') = Inr [3]" by code_simp+
  have "ECPieceKey 99 0 1 \<noteq> []" by (simp add: ECPieceKey_def)
  note held = holding_reader [OF this, where data = "[42, 43, 44]"]
  have "\<exists>a'. recoverPrimaryHandler ?env recovery_request ?a = Returns (None, no_response\<lparr>rs_body := take (nat 2) [42, 43, 44]\<rparr>, a')"
    by (rule recovery_serves_anybody [OF r _ env(5) t(1) env(6) t(2-4) chain facts(3,1), where k = 1 and denv = front_denv and cached = "\<lambda>c. map_of (lru_entries c)"])
      (use env t(5) facts(2,4) held in \<open>simp_all\<close>)
  then show ?thesis by auto
qed

theorem recovered_chunk_witness:
  "\<exists>env b ob t params piece a' w. recoverECPiece (env :: (memory_world, OffChainAuthKey list) admin_env) ob b t params ''third'' \<lparr>am_db = [], am_world = w\<rparr>
     = Returns (Inr piece, a') \<and> piece \<noteq> [5, 0]"
proof -
  let ?params = "demo_upload_params\<lparr>MaxSegmentSize := 16\<rparr>" and ?segment = "[1, 2, 3, 4, 5] :: bytes" and ?named = "nil_object\<lparr>Id := 7\<rparr>"
  let ?t = "demo_recover\<lparr>rr_ObjectInfo := Some ?named, rr_EcIdx := 2\<rparr>"
    and ?ob = "nil_object\<lparr>PayloadSize := 5, ObjectStatus := OBJECT_STATUS_SEALED, SecondarySpAddresses := [''first'', ''second'', ''third'']\<rparr>"
  let ?env = "demo_admin (holder demo_view) demo_replica ?t demo_approval (\<lambda>t d w. (None, w)) (\<lambda>t w. (Inr ([], []), w))"
  let ?a = "\<lparr>am_db = [], am_world = holding (SegmentPieceKey 7 0) ?segment\<rparr> :: (memory_world, OffChainAuthKey list) gate_state"
  have sp: "operator ?env = PrimarySpAddress front_bucket" "rr_EcIdx ?t = int 2" "rr_ObjectInfo ?t = Some ?named"
    by (simp_all add: demo_admin_def operator_def gate_of_def still_env_def demo_view_def demo_recover_def)
  have last: "last_index ''third'' (SecondarySpAddresses ?ob) = Some 2" "SegmentPieceSize (PayloadSize ?ob) (rr_SegmentIdx ?t) (MaxSegmentSize ?params) = Returns 5"
    by code_simp+
  note held = holding_reader [OF SegmentPieceKey_nonempty, where data = ?segment]
  have store: "recovery_reader (ga_object ?env) front_denv (\<lambda>c. map_of (lru_entries c)) (am_world ?a)" "ObjectStatus ?ob = OBJECT_STATUS_SEALED"
    "store_content (dl_pieceStore (fst (am_world ?a))) (SegmentPieceKey (Id ?named) (rr_SegmentIdx ?t)) = Some ?segment"
    using held by (simp_all add: demo_admin_def demo_recover_def)
  let ?chunks = "[[1, 2], [3, 4], [5, 0], [0, 0], [7, 7], [8, 8]] :: bytes list"
  have enc: "ga_EncodeRawSegment ?env ?segment (uint (RedundantDataChunkNum ?params)) (uint (RedundantParityChunkNum ?params)) = Inr ?chunks"
    by (simp add: demo_admin_def)
  have sys: "systematic (unat (RedundantDataChunkNum ?params)) (unat (RedundantParityChunkNum ?params)) 2 ?segment ?chunks" by code_simp
  have pre: "0 < uint (RedundantDataChunkNum ?params)" "uint (RedundantDataChunkNum ?params) < 2 ^ 31"
    "2 < unat (RedundantDataChunkNum ?params) + unat (RedundantParityChunkNum ?params)" "(2 :: nat) < 2 ^ 31" "0 < (5 :: int)" "(5 :: int) < 2 ^ 62"
    "length ?segment = nat 5" "2 = nat ((5 + uint (RedundantDataChunkNum ?params) - 1) div uint (RedundantDataChunkNum ?params))"
    by (simp_all add: demo_upload_params_def)
  obtain piece a' where "recoverECPiece ?env ?ob front_bucket ?t ?params ''third'' ?a = Returns (Inr piece, a')"
    "piece = ?chunks ! 2 \<longleftrightarrow> unat (RedundantDataChunkNum ?params) - 1 \<le> 2 \<or> (2 + 1) * 2 \<le> length ?segment"
    using recovered_chunk [OF sp(1) last(1) sp(2,3) pre(1-4) last(2) pre(5-8) store enc sys] by blast
  then show ?thesis
    by (intro exI [of _ ?env] exI [of _ front_bucket] exI [of _ ?ob] exI [of _ ?t] exI [of _ ?params] exI [of _ piece] exI [of _ a']
        exI [of _ "holding (SegmentPieceKey 7 0) ?segment"]) (simp add: demo_upload_params_def)
qed

end
