(* ===== verification/UploadServer.thy ===== *)
theory UploadServer
  imports Services
begin

text \<open>
  The stream between the gateway and the uploader: the client of \<open>base/gfspclient/uploader.go\<close> and the server of
  \<open>base/gfspapp/upload_server.go\<close>, for uploads and resumable uploads.

  The server runs two goroutines that share the variable \<open>err\<close>, a pipe and a channel: the producer receives messages
  and writes their payload into the pipe, the main goroutine waits for the channel, runs the handler on the pipe and
  answers. Every interleaving is a run of \<open>server_step\<close>. A write into the pipe ends when the reader has taken all of it or
  the pipe is closed; \<open>stream.Recv\<close> waits when there is no message.
\<close>

section \<open>The client\<close>

definition DefaultStreamBufSize :: nat where "DefaultStreamBufSize = 16 * 1024 * 1024"

definition ErrExceptionsStream :: go_error where
  "ErrExceptionsStream = GfSpErr (registered (''GfSpClient'', StatusBadRequest, 98002, ''stream closed abnormally''))"

lemma Read_shrinks:
  assumes "Read r n = (cur, None, r')" "0 < n"
  shows "length r' + length (concat (map fst r')) < length r + length (concat (map fst r))"
  using assms by (cases "(r, n)" rule: Read.cases) (auto split: if_splits)

text \<open>The payloads of the messages that are sent, and whether the stream ended without an exception.\<close>

function client_messages :: "reader \<Rightarrow> bytes list \<times> bool" where
  "client_messages r =
     (case Read r DefaultStreamBufSize of
        (cur, Some EOF, _) \<Rightarrow> (if cur = [] then [] else [cur], True)
      | (_, Some (StreamError _), _) \<Rightarrow> ([], False)
      | (cur, None, r') \<Rightarrow> (case client_messages r' of (ms, ok) \<Rightarrow> (cur # ms, ok)))"
  by pat_completeness auto

termination client_messages
  by (relation "measure (\<lambda>r. length r + length (concat (map fst r)))")
    (auto dest: Read_shrinks [OF sym] simp: DefaultStreamBufSize_def)

declare client_messages.simps [simp del]

text \<open>
  \<open>sends i\<close> says whether the message with this number could be sent, \<open>answer\<close> is what closing the stream returns: nothing when it
  fails, otherwise the error of the response.
\<close>

definition UploadObject_client :: "bool \<Rightarrow> bool \<Rightarrow> (nat \<Rightarrow> bool) \<Rightarrow> (bytes list \<Rightarrow> GfSpError option option) \<Rightarrow> reader \<Rightarrow> go_error option" where
  "UploadObject_client conn opened sends answer r =
     (if \<not> conn \<or> \<not> opened then Some ErrRpcUnknown
      else case client_messages r of (ms, ok) \<Rightarrow>
        if \<not> list_all sends [0..<length ms] then Some ErrRpcUnknown
        else if \<not> ok then Some ErrExceptionsStream
        else case answer ms of
          None \<Rightarrow> Some ErrRpcUnknown
        | Some (Some e) \<Rightarrow> Some (GfSpErr e)
        | Some None \<Rightarrow> None)"

section \<open>The server\<close>

definition upload_errors :: "registration list" where
  "upload_errors =
    [(''gfsp-base-app'', StatusBadRequest, 991101, ''OoooH... request lost''),
     (''gfsp-base-app'', StatusBadRequest, 991102, ''server overload, try again later''),
     (''gfsp-base-app'', StatusBadRequest, 991103, ''stream closed abnormally'')]"

abbreviation "ErrUploadObjectDangling \<equiv> GfSpErr (registered (upload_errors ! 0))"
abbreviation "ErrUploadExhaustResource \<equiv> GfSpErr (registered (upload_errors ! 1))"
abbreviation "ErrServerStream \<equiv> GfSpErr (registered (upload_errors ! 2))"

datatype 't received = Message "'t option" bytes | EndOfStream | BrokenStream

datatype producer = Receiving | Offering bytes | Writing bytes | Stopped

datatype main_goroutine = WaitingInit | Handling | Returning | Answered "GfSpError option"

text \<open>The pipe is open (\<open>None\<close>) or closed, with an error or at its end.\<close>

record 't upload_server =
  us_stream :: "'t received list"
  us_err :: "go_error option"
  us_task :: "'t option"
  us_producer :: producer
  us_init :: bool
  us_pipe :: "go_error option option"
  us_main :: main_goroutine
  us_read :: bytes
  us_events :: "string list"

text \<open>\<open>se_events\<close> distinguishes the two servers: only that of plain uploads writes events.\<close>

record 't server_env =
  se_reserve :: "'t \<Rightarrow> bool"
  se_pre :: "'t \<Rightarrow> go_error option"
  se_events :: bool

definition new_server :: "'t received list \<Rightarrow> 't upload_server" where
  "new_server stream = \<lparr>us_stream = stream, us_err = None, us_task = None, us_producer = Receiving, us_init = False, us_pipe = None,
     us_main = WaitingInit, us_read = [], us_events = []\<rparr>"

definition CloseWithError :: "go_error option \<Rightarrow> 't upload_server \<Rightarrow> 't upload_server" where
  "CloseWithError e s = s\<lparr>us_pipe := (case us_pipe s of None \<Rightarrow> Some e | Some x \<Rightarrow> Some x)\<rparr>"

definition refuse :: "go_error \<Rightarrow> 't upload_server \<Rightarrow> 't upload_server" where
  "refuse e s = CloseWithError (Some e) (s\<lparr>us_err := Some e, us_producer := Stopped\<rparr>)"

definition first_message :: "'t server_env \<Rightarrow> 't option \<Rightarrow> bytes \<Rightarrow> 't upload_server \<Rightarrow> 't upload_server" where
  "first_message env task payload s =
     (let s = s\<lparr>us_init := True, us_task := task\<rparr> in
      case task of
        None \<Rightarrow> refuse ErrUploadObjectDangling s
      | Some t \<Rightarrow>
          let s = (if se_events env then s\<lparr>us_events := us_events s @ [''uploader_begin_receive_data'']\<rparr> else s) in
          if \<not> se_reserve env t then refuse ErrUploadExhaustResource s
          else case se_pre env t of
            Some e \<Rightarrow> refuse e s
          | None \<Rightarrow> s\<lparr>us_err := None, us_producer := Offering payload\<rparr>)"

text \<open>One round of the producer up to the point where it waits.\<close>

definition receive_message :: "'t server_env \<Rightarrow> 't upload_server \<Rightarrow> 't upload_server option" where
  "receive_message env s =
     (case us_stream s of
        [] \<Rightarrow> None
      | EndOfStream # rest \<Rightarrow> Some (CloseWithError None (s\<lparr>us_stream := rest, us_err := None, us_producer := Stopped\<rparr>))
      | BrokenStream # rest \<Rightarrow> Some (refuse ErrServerStream (s\<lparr>us_stream := rest\<rparr>))
      | Message task payload # rest \<Rightarrow>
          let s = s\<lparr>us_stream := rest, us_err := None\<rparr> in
          Some (if us_init s then s\<lparr>us_producer := Writing payload\<rparr> else first_message env task payload s))"

datatype server_action = Recv | HandOver | ReadPipe nat | WriteFails | HandlerReturns "go_error option" | Respond

fun server_step :: "'t server_env \<Rightarrow> server_action \<Rightarrow> 't upload_server \<Rightarrow> 't upload_server option" where
  "server_step env Recv s =
     (if us_producer s \<noteq> Receiving then None
      else case us_main s of Answered _ \<Rightarrow> Some (s\<lparr>us_producer := Stopped\<rparr>) | _ \<Rightarrow> receive_message env s)"
| "server_step env HandOver s =
     (case (us_producer s, us_main s) of
        (Offering payload, WaitingInit) \<Rightarrow> Some (s\<lparr>us_producer := Writing payload, us_main := Handling\<rparr>)
      | _ \<Rightarrow> None)"
| "server_step env (ReadPipe n) s =
     (case (us_producer s, us_main s) of
        (Writing payload, Handling) \<Rightarrow>
          if n = 0 \<or> us_pipe s \<noteq> None then None
          else Some (s\<lparr>us_read := us_read s @ take n payload,
                 us_producer := (if length payload \<le> n then Receiving else Writing (drop n payload))\<rparr>)
      | _ \<Rightarrow> None)"
| "server_step env WriteFails s =
     (case us_producer s of Writing _ \<Rightarrow> if us_pipe s = None then None else Some (s\<lparr>us_producer := Receiving\<rparr>) | _ \<Rightarrow> None)"
| "server_step env (HandlerReturns err) s =
     (if us_main s \<noteq> Handling then None
      else let s = s\<lparr>us_err := err, us_main := Returning\<rparr> in
           Some (case err of None \<Rightarrow> s | Some e \<Rightarrow> CloseWithError (Some e) s))"
| "server_step env Respond s =
     (if us_main s \<noteq> Returning then None
      else Some (s\<lparr>us_main := Answered (MakeGfSpError (us_err s)),
             us_events := us_events s @ (if se_events env \<and> us_task s \<noteq> None then [''uploader_end_receive_data''] else [])\<rparr>))"

fun server_run :: "'t server_env \<Rightarrow> server_action list \<Rightarrow> 't upload_server \<Rightarrow> 't upload_server option" where
  "server_run env [] s = Some s"
| "server_run env (act # acts) s = (case server_step env act s of None \<Rightarrow> None | Some s \<Rightarrow> server_run env acts s)"

text \<open>The two servers: the state after the actions, if they can happen in this order.\<close>

definition GfSpUploadObject :: "('t \<Rightarrow> bool) \<Rightarrow> ('t \<Rightarrow> go_error option) \<Rightarrow> 't received list \<Rightarrow> server_action list \<Rightarrow> 't upload_server option" where
  "GfSpUploadObject reserve pre stream acts = server_run \<lparr>se_reserve = reserve, se_pre = pre, se_events = True\<rparr> acts (new_server stream)"

definition GfSpResumableUploadObject :: "('t \<Rightarrow> bool) \<Rightarrow> ('t \<Rightarrow> go_error option) \<Rightarrow> 't received list \<Rightarrow> server_action list \<Rightarrow> 't upload_server option" where
  "GfSpResumableUploadObject reserve pre stream acts = server_run \<lparr>se_reserve = reserve, se_pre = pre, se_events = False\<rparr> acts (new_server stream)"

lemma server_run_invariant:
  assumes "\<And>act s s'. J s \<Longrightarrow> server_step env act s = Some s' \<Longrightarrow> J s'" "J s" "server_run env acts s = Some s'"
  shows "J s'"
  using assms(2,3) by (induction acts arbitrary: s) (auto split: option.splits intro: assms(1))

section \<open>What the handler reads\<close>

lemma client_messages_payload:
  "stream_payload r = Some p \<Longrightarrow> client_messages r = (ms, ok) \<Longrightarrow> ok \<and> concat ms = p"
proof (induction r arbitrary: p ms ok rule: client_messages.induct)
  case (1 r)
  obtain cur err r' where rd: "Read r DefaultStreamBufSize = (cur, err, r')" by (metis prod_cases3)
  note pay = Read_payload [OF 1(2) rd]
  show ?case
  proof (cases err)
    case None
    then obtain p' where p': "p = cur @ p'" "stream_payload r' = Some p'" using pay by auto
    obtain ms' ok' where rest: "client_messages r' = (ms', ok')" by force
    have "ms = cur # ms'" "ok = ok'" using 1(3) rd rest None by (simp_all add: client_messages.simps [of r])
    then show ?thesis using 1(1) [OF rd [symmetric] refl None p'(2) rest] p'(1) by simp
  next
    case (Some e)
    then show ?thesis using pay 1(3) rd by (auto simp: client_messages.simps [of r])
  qed
qed

text \<open>The bytes the producer holds and those it will receive.\<close>

fun held :: "producer \<Rightarrow> bytes" where
  "held (Offering payload) = payload"
| "held (Writing payload) = payload"
| "held _ = []"

definition upcoming :: "'t \<Rightarrow> bytes list \<Rightarrow> 't received list" where
  "upcoming t ms = map (\<lambda>m. Message (Some t) m) ms @ [EndOfStream]"

lemma upcoming_simps [simp]:
  "upcoming t [] = [EndOfStream]" "upcoming t (m # ms) = Message (Some t) m # upcoming t ms"
  by (simp_all add: upcoming_def)

text \<open>The producer is still busy with the payload: the pipe is open and nothing of the payload is lost, repeated or reordered.\<close>

definition busy :: "'t \<Rightarrow> bytes \<Rightarrow> 't upload_server \<Rightarrow> bool" where
  "busy t p s \<longleftrightarrow> us_pipe s = None \<and> (\<exists>ms. us_stream s = upcoming t ms \<and> p = us_read s @ held (us_producer s) @ concat ms)"

definition delivering :: "'t \<Rightarrow> bytes \<Rightarrow> 't upload_server \<Rightarrow> bool" where
  "delivering t p s \<longleftrightarrow>
     (case (us_main s, us_producer s) of
        (WaitingInit, Receiving) \<Rightarrow> \<not> us_init s \<and> us_read s = [] \<and> busy t p s
      | (WaitingInit, Offering _) \<Rightarrow> us_init s \<and> us_read s = [] \<and> busy t p s
      | (WaitingInit, Writing _) \<Rightarrow> False
      | (WaitingInit, Stopped) \<Rightarrow> us_read s = []
      | (Handling, Receiving) \<Rightarrow> us_init s \<and> busy t p s
      | (Handling, Writing _) \<Rightarrow> us_init s \<and> busy t p s
      | (Handling, Offering _) \<Rightarrow> False
      | (Handling, Stopped) \<Rightarrow> us_pipe s = Some None \<and> us_read s = p
      | _ \<Rightarrow> True)"

lemmas server_defs = receive_message_def first_message_def refuse_def CloseWithError_def Let_def

lemma delivering_receive:
  assumes "delivering t p s" "us_producer s = Receiving" "us_main s = WaitingInit \<or> us_main s = Handling"
    "receive_message env s = Some s'"
  shows "delivering t p s'"
proof -
  have b: "busy t p s" and i: "us_init s \<longleftrightarrow> us_main s = Handling" and w: "us_main s = WaitingInit \<Longrightarrow> us_read s = []"
    using assms(1-3) by (auto simp: delivering_def)
  from b obtain ms where ms: "us_stream s = upcoming t ms" "p = us_read s @ concat ms" "us_pipe s = None"
    by (auto simp: busy_def assms(2))
  show ?thesis using assms(3,4) ms i w
    by (cases ms) (auto simp: server_defs delivering_def busy_def split: if_splits option.splits)
qed

lemma take_drop_append: "take n xs @ drop n xs @ ys = xs @ ys"
  by (metis append_assoc append_take_drop_id)

lemma delivering_step:
  assumes "delivering t p s" "server_step env act s = Some s'"
  shows "delivering t p s'"
proof (cases act)
  case Recv
  then show ?thesis
    using assms delivering_receive [OF assms(1), of env s']
    by (cases "us_main s") (auto simp: delivering_def server_defs split: if_splits option.splits list.splits received.splits)
next
  case HandOver
  then show ?thesis using assms by (auto simp: delivering_def busy_def split: producer.splits main_goroutine.splits)
next
  case (ReadPipe n)
  then show ?thesis using assms
    by (auto 4 4 simp: delivering_def busy_def take_drop_append split: producer.splits main_goroutine.splits if_splits)
next
  case WriteFails
  then show ?thesis using assms
    by (auto simp: delivering_def busy_def split: producer.splits main_goroutine.splits if_splits)
next
  case (HandlerReturns err)
  then show ?thesis using assms
    by (auto simp: delivering_def CloseWithError_def Let_def split: if_splits option.splits)
next
  case Respond
  then show ?thesis using assms by (auto simp: delivering_def split: if_splits)
qed

lemma delivering_new: "delivering t (concat ms) (new_server (upcoming t ms))"
  by (auto simp: delivering_def busy_def new_server_def)

text \<open>While the payload is not complete, one of the two goroutines can go on.\<close>

lemma delivering_progress:
  assumes "delivering t p s" "us_main s = Handling" "us_pipe s = None"
  shows "server_step env Recv s \<noteq> None \<or> server_step env (ReadPipe 1) s \<noteq> None"
proof (cases "us_producer s")
  case Receiving
  then obtain ms where "us_stream s = upcoming t ms" using assms by (auto simp: delivering_def busy_def)
  then show ?thesis using Receiving assms(2) by (cases ms) (auto simp: receive_message_def Let_def)
qed (use assms in \<open>auto simp: delivering_def\<close>)

text \<open>
  C12. An upload over the stream delivers exactly the payload: when the request body holds the payload \<open>p\<close>, then the client sends
  messages and ends the stream without an exception, and in every interleaving of the two goroutines of the server, as
  long as the handler runs, it has read a prefix of \<open>p\<close>; it sees the end of the pipe exactly when it has read all of \<open>p\<close>, and
  never an error of the pipe; and before that one of the goroutines can go on, so that the handler is not left waiting.
\<close>

theorem upload_stream_delivered:
  assumes "stream_payload r = Some p" "client_messages r = (ms, ok)"
    "server_run env acts (new_server (upcoming t ms)) = Some s" "us_main s = Handling"
  shows "ok \<and> (\<exists>rest. p = us_read s @ rest) \<and>
    (if us_pipe s = None then server_step env Recv s \<noteq> None \<or> server_step env (ReadPipe 1) s \<noteq> None
     else us_pipe s = Some None \<and> us_read s = p)"
proof -
  note sent = client_messages_payload [OF assms(1,2)]
  have inv: "delivering t p s"
  proof (rule server_run_invariant [OF _ _ assms(3)])
    show "delivering t p (new_server (upcoming t ms))" using delivering_new sent by metis
  qed (rule delivering_step)
  moreover have "us_pipe s \<noteq> None \<Longrightarrow> us_pipe s = Some None \<and> us_read s = p" "\<exists>rest. p = us_read s @ rest"
    using inv assms(4) by (auto simp: delivering_def busy_def split: producer.splits)
  ultimately show ?thesis using sent delivering_progress [OF inv assms(4)] by auto
qed

section \<open>Uploads that are not answered, or answered wrongly\<close>

text \<open>The first thing received is not the start of an upload that is admitted; the end of the stream is that of an empty body.\<close>

fun refused :: "'t server_env \<Rightarrow> 't received \<Rightarrow> bool" where
  "refused env (Message None payload) \<longleftrightarrow> True"
| "refused env (Message (Some t) payload) \<longleftrightarrow> \<not> se_reserve env t \<or> se_pre env t \<noteq> None"
| "refused env _ \<longleftrightarrow> True"

definition hanging :: "'t upload_server \<Rightarrow> bool" where
  "hanging s \<longleftrightarrow> us_main s = WaitingInit \<and> us_producer s = Stopped"

lemma hanging_stuck: "hanging s \<Longrightarrow> server_step env act s = None"
  by (cases act) (auto simp: hanging_def)

lemma refused_hangs:
  assumes "refused env m" "server_step env act (new_server (m # stream)) = Some s"
  shows "hanging s"
  using assms
  by (cases act; cases "(env, m)" rule: refused.cases)
    (auto simp: hanging_def new_server_def server_defs split: option.splits if_splits)

text \<open>
  C31. When the first message is refused (no task, no resources left, refused by \<open>PreUploadObject\<close>), when the stream breaks before it
  or when the body is empty, the call is never answered: the producer returns without handing over, and the main goroutine, which waits for
  the channel or for the context that only it can cancel, stays there in every run.
\<close>

theorem refused_upload_hangs:
  assumes "refused env m" "server_run env acts (new_server (m # stream)) = Some s"
  shows "us_main s = WaitingInit \<and> (acts = [] \<or> server_step env act s = None)"
proof -
  have "acts = [] \<and> s = new_server (m # stream) \<or> hanging s"
  proof (cases acts)
    case (Cons a rest)
    then obtain s1 where s1: "server_step env a (new_server (m # stream)) = Some s1" "server_run env rest s1 = Some s"
      using assms(2) by (auto split: option.splits)
    note h = refused_hangs [OF assms(1) s1(1)]
    then show ?thesis using s1(2) by (cases rest) (auto simp: hanging_stuck)
  qed (use assms(2) in simp)
  then show ?thesis
  proof
    assume "hanging s"
    then show ?thesis using hanging_stuck [OF \<open>hanging s\<close>, of env act] by (simp add: hanging_def)
  qed (simp add: new_server_def)
qed

text \<open>The handler fails on the first message; then the producer may receive the next one before the answer is made.\<close>

definition failing_run :: "go_error \<Rightarrow> server_action list" where
  "failing_run e = [Recv, HandOver, HandlerReturns (Some e), WriteFails]"

text \<open>
  The goroutines share \<open>err\<close>: after the handler has failed, the answer carries its error if it is made at once, but says that
  the upload succeeded if the producer received one more message (or the end of the stream) before.
\<close>

theorem failed_upload_answered_ok:
  assumes "se_reserve env t" "se_pre env t = None" "m \<noteq> BrokenStream"
  shows "(\<exists>s. server_run env (failing_run e @ [Respond]) (new_server (Message (Some t) payload # m # rest)) = Some s \<and>
      us_main s = Answered (MakeGfSpError (Some e))) \<and>
    (\<exists>s. server_run env (failing_run e @ [Recv, Respond]) (new_server (Message (Some t) payload # m # rest)) = Some s \<and>
      us_main s = Answered None)"
  using assms by (cases m) (auto simp: failing_run_def new_server_def server_defs MakeGfSpError_def)

section \<open>The theorems at work\<close>

definition open_server :: "nat server_env" where
  "open_server = \<lparr>se_reserve = (\<lambda>t. t = 1), se_pre = (\<lambda>_. None), se_events = True\<rparr>"

definition small_body :: reader where
  "small_body = [([1, 2, 3], None), ([4], Some EOF)]"

lemma small_body_messages: "client_messages small_body = ([[1, 2, 3], [4]], True)"
  by (simp add: client_messages.simps small_body_def DefaultStreamBufSize_def)

definition whole_upload :: "server_action list" where
  "whole_upload = [Recv, HandOver, ReadPipe 2, ReadPipe 5, Recv, ReadPipe 1, Recv]"

theorem upload_stream_delivered_witness:
  "\<exists>s. server_run open_server whole_upload (new_server (upcoming 1 [[1, 2, 3], [4]])) = Some s \<and>
     us_pipe s = Some None \<and> us_read s = [1, 2, 3, 4]"
proof -
  let ?s = "\<lparr>us_stream = [], us_err = None, us_task = Some 1, us_producer = Stopped, us_init = True, us_pipe = Some None,
     us_main = Handling, us_read = [1, 2, 3, 4], us_events = [''uploader_begin_receive_data'']\<rparr> :: nat upload_server"
  have run: "server_run open_server whole_upload (new_server (upcoming 1 [[1, 2, 3], [4]])) = Some ?s"
    by (simp add: whole_upload_def new_server_def server_defs open_server_def)
  have "stream_payload small_body = Some [1, 2, 3, 4]" by (simp add: small_body_def)
  from upload_stream_delivered [OF this small_body_messages run] show ?thesis using run by simp
qed

theorem refused_upload_hangs_witness:
  "\<exists>s. GfSpResumableUploadObject (\<lambda>t. False) (\<lambda>t. None) (upcoming (1 :: nat) [[7], [8]]) [Recv] = Some s \<and> us_main s = WaitingInit"
proof -
  let ?env = "\<lparr>se_reserve = (\<lambda>t. False), se_pre = (\<lambda>t. None), se_events = False\<rparr> :: nat server_env"
  let ?start = "new_server (Message (Some 1) [7] # upcoming (1 :: nat) [[8]])"
  have "server_run ?env [Recv] ?start \<noteq> None" by (simp add: new_server_def server_defs)
  then obtain s where s: "server_run ?env [Recv] ?start = Some s" by blast
  moreover have "us_main s = WaitingInit" using refused_upload_hangs [OF _ s] by simp
  ultimately show ?thesis unfolding GfSpResumableUploadObject_def upcoming_simps by blast
qed

theorem failed_upload_answered_ok_witness:
  "\<exists>s. server_run open_server (failing_run ErrUploadObjectDangling @ [Recv, Respond])
       (new_server (upcoming 1 [[7], [8]])) = Some s \<and> us_main s = Answered None"
  using failed_upload_answered_ok [of open_server 1 "Message (Some 1) [8]"]
  by (simp add: open_server_def)

end
