(* ===== verification/Permissions.thy ===== *)
theory Permissions
  imports Tasks
begin

unbundle bit_operations_syntax

text \<open>
  Who may do what with a bucket or an object: \<open>modular/metadata/metadata_permission_service.go\<close> over the queries of
  \<open>store/bsdb/permission.go\<close>, \<open>group.go\<close>, \<open>bucket.go\<close> and \<open>object.go\<close> and the evaluation of policies in \<open>permission.go\<close> and \<open>statement.go\<close>.

  A table is the list of its rows, with the columns that the queries look at; a query can fail. The types of the chain
  (\<open>permtypes\<close>, \<open>keeper\<close>, \<open>sdk\<close>) are arguments where their values matter: the number of \<open>ACTION_TYPE_ALL\<close>, the actions that public
  resources allow, the parser of addresses. Regular expressions and \<open>math.NewUintFromString\<close> are arguments that say \<open>None\<close> when
  the call panics.
\<close>

section \<open>Rows\<close>

type_synonym hash = "256 word"

datatype Effect = EFFECT_UNSPECIFIED | EFFECT_ALLOW | EFFECT_DENY
datatype PrincipalType = PRINCIPAL_TYPE_UNSPECIFIED | PRINCIPAL_TYPE_GNFD_ACCOUNT | PRINCIPAL_TYPE_GNFD_GROUP
datatype ResourceType = RESOURCE_TYPE_BUCKET | RESOURCE_TYPE_OBJECT

record Permission =
  pm_PrincipalType :: PrincipalType
  pm_PrincipalValue :: string
  pm_ResourceType :: ResourceType
  pm_ResourceID :: hash
  pm_PolicyID :: hash
  pm_ExpirationTime :: int64
  pm_Removed :: bool

record Statement =
  st_PolicyID :: hash
  st_Effect :: string
  st_ActionValue :: go_int
  st_Resources :: "string list option"
  st_ExpirationTime :: int64
  st_Removed :: bool

record Group =
  gr_GroupID :: hash
  gr_AccountID :: string
  gr_Removed :: bool

record Bucket =
  bk_BucketID :: hash
  bk_BucketName :: string
  bk_Owner :: string
  bk_Visibility :: string
  bk_Removed :: bool

record Object =
  ob_ObjectID :: hash
  ob_BucketName :: string
  ob_ObjectName :: string
  ob_Owner :: string
  ob_Visibility :: string
  ob_Removed :: bool

datatype bs_query = BucketQuery string | ObjectQuery string string | AccountPermissionQuery ResourceType hash | StatementsQuery "hash list"
  | GroupPermissionsQuery ResourceType hash | GroupsQuery "hash list"

record BsTables =
  bt_fails :: "bs_query \<Rightarrow> go_error option"
  bt_buckets :: "Bucket list"
  bt_objects :: "Object list"
  bt_permissions :: "Permission list"
  bt_statements :: "Statement list"
  bt_groups :: "Group list"

record perm_env =
  pv_ACTION_TYPE_ALL :: int32
  pv_public_bucket :: "int32 \<Rightarrow> bool"
  pv_public_object :: "int32 \<Rightarrow> bool"
  pv_regexp :: "string \<Rightarrow> (string \<Rightarrow> bool) option"
  pv_group_id :: "string \<Rightarrow> hash option"
  pv_HexToAddress :: "string \<Rightarrow> string"
  pv_AccAddress :: "string \<Rightarrow> go_error + string"
  pv_CheckValidBucketName :: "string \<Rightarrow> bool"
  pv_ObjectGRN :: "string \<Rightarrow> string \<Rightarrow> string"

section \<open>Queries\<close>

definition query :: "BsTables \<Rightarrow> bs_query \<Rightarrow> 'a \<Rightarrow> go_error + 'a" where
  "query db q res = (case bt_fails db q of Some err \<Rightarrow> Inl err | None \<Rightarrow> Inr res)"

definition ErrRecordNotFound :: go_error where "ErrRecordNotFound = PlainErr ''record not found''"

definition GetBucketByName :: "BsTables \<Rightarrow> string \<Rightarrow> bool \<Rightarrow> go_error + Bucket option" where
  "GetBucketByName db bucketName includePrivate = query db (BucketQuery bucketName)
     (find (\<lambda>b. bk_BucketName b = bucketName \<and> (includePrivate \<or> bk_Visibility b = ''VISIBILITY_TYPE_PUBLIC_READ'') \<and> \<not> bk_Removed b) (bt_buckets db))"

text \<open>Unlike for buckets, a missing object is the error of the database; private objects are included here.\<close>

definition GetObjectByName :: "BsTables \<Rightarrow> string \<Rightarrow> string \<Rightarrow> go_error + Object option" where
  "GetObjectByName db objectName bucketName =
     (case bt_fails db (ObjectQuery objectName bucketName) of
        Some err \<Rightarrow> Inl err
      | None \<Rightarrow> (case find (\<lambda>ob. ob_ObjectName ob = objectName \<and> ob_BucketName ob = bucketName \<and> \<not> ob_Removed ob) (bt_objects db) of
            None \<Rightarrow> Inl ErrRecordNotFound
          | Some ob \<Rightarrow> Inr (Some ob)))"

definition GetPermissionByResourceAndPrincipal :: "BsTables \<Rightarrow> ResourceType \<Rightarrow> PrincipalType \<Rightarrow> string \<Rightarrow> hash \<Rightarrow> go_error + Permission option" where
  "GetPermissionByResourceAndPrincipal db resourceType principalType principalValue resourceID =
     query db (AccountPermissionQuery resourceType resourceID)
       (find (\<lambda>p. pm_ResourceType p = resourceType \<and> pm_ResourceID p = resourceID \<and> pm_PrincipalType p = principalType
          \<and> pm_PrincipalValue p = principalValue \<and> \<not> pm_Removed p) (bt_permissions db))"

definition GetStatementsByPolicyID :: "BsTables \<Rightarrow> hash list \<Rightarrow> bool \<Rightarrow> go_error + Statement list" where
  "GetStatementsByPolicyID db policyIDList includeRemoved = query db (StatementsQuery policyIDList)
     (filter (\<lambda>s. st_PolicyID s \<in> set policyIDList \<and> (includeRemoved \<or> \<not> st_Removed s)) (bt_statements db))"

definition GetPermissionsByResourceAndPrincipleType :: "BsTables \<Rightarrow> ResourceType \<Rightarrow> PrincipalType \<Rightarrow> hash \<Rightarrow> bool \<Rightarrow> go_error + Permission list" where
  "GetPermissionsByResourceAndPrincipleType db resourceType principalType resourceID includeRemoved = query db (GroupPermissionsQuery resourceType resourceID)
     (filter (\<lambda>p. pm_ResourceType p = resourceType \<and> pm_ResourceID p = resourceID \<and> pm_PrincipalType p = principalType
        \<and> (includeRemoved \<or> \<not> pm_Removed p)) (bt_permissions db))"

definition GetGroupsByGroupIDAndAccount :: "BsTables \<Rightarrow> hash list \<Rightarrow> string \<Rightarrow> bool \<Rightarrow> go_error + Group list" where
  "GetGroupsByGroupIDAndAccount db groupIDList account includeRemoved = query db (GroupsQuery groupIDList)
     (filter (\<lambda>g. gr_GroupID g \<in> set groupIDList \<and> gr_AccountID g = account \<and> (includeRemoved \<or> \<not> gr_Removed g)) (bt_groups db))"

section \<open>Statements and policies\<close>

text \<open>The loop over the sub-resources stops at the first match; a text that is not a regular expression panics.\<close>

fun match_resources :: "perm_env \<Rightarrow> string \<Rightarrow> string list \<Rightarrow> bool go" where
  "match_resources env resource [] = Returns False"
| "match_resources env resource (res # rest) =
     (case pv_regexp env res of
        None \<Rightarrow> Panics
      | Some reg \<Rightarrow> if reg resource then Returns True else match_resources env resource rest)"

text \<open>The values of \<open>ActionTypeMap\<close>.\<close>

definition ActionTypeMap :: "int32 list" where "ActionTypeMap = [0..11]"

definition Effect_value :: "string \<Rightarrow> Effect" where
  "Effect_value s = (if s = ''EFFECT_ALLOW'' then EFFECT_ALLOW else if s = ''EFFECT_DENY'' then EFFECT_DENY else EFFECT_UNSPECIFIED)"

definition eval_actions :: "perm_env \<Rightarrow> Statement \<Rightarrow> int32 \<Rightarrow> Effect" where
  "eval_actions env s action =
     (let actions = filter (\<lambda>v. st_ActionValue s AND push_bit (nat v) 1 = push_bit (nat v) 1) ActionTypeMap in
      if list_ex (\<lambda>act. act = action \<or> act = pv_ACTION_TYPE_ALL env) actions
      then (if st_Effect s = ''EFFECT_DENY'' then EFFECT_DENY else Effect_value (st_Effect s))
      else EFFECT_UNSPECIFIED)"

definition Statement_Eval :: "perm_env \<Rightarrow> Statement \<Rightarrow> int32 \<Rightarrow> string option \<Rightarrow> Effect go" where
  "Statement_Eval env s action opts =
     (case opts of
        None \<Rightarrow> Returns (eval_actions env s action)
      | Some resource \<Rightarrow>
          if resource = [] then Returns (eval_actions env s action)
          else case st_Resources s of
            None \<Rightarrow> Returns EFFECT_UNSPECIFIED
          | Some ress \<Rightarrow> bind_go (match_resources env resource ress) (\<lambda>isMatch.
              Returns (if isMatch then eval_actions env s action else EFFECT_UNSPECIFIED)))"

text \<open>Times of rows are in seconds, the clock is in nanoseconds.\<close>

definition expired :: "int64 \<Rightarrow> int \<Rightarrow> bool" where
  "expired expirationTime now \<longleftrightarrow> expirationTime \<noteq> 0 \<and> expirationTime * 10 ^ 9 < now"

fun eval_statements :: "perm_env \<Rightarrow> int32 \<Rightarrow> int \<Rightarrow> string option \<Rightarrow> bool \<Rightarrow> Statement list \<Rightarrow> Effect go" where
  "eval_statements env action blockTime opts allowed [] = Returns (if allowed then EFFECT_ALLOW else EFFECT_UNSPECIFIED)"
| "eval_statements env action blockTime opts allowed (s # rest) =
     (if expired (st_ExpirationTime s) blockTime then eval_statements env action blockTime opts allowed rest
      else bind_go (Statement_Eval env s action opts) (\<lambda>e.
        if e = EFFECT_DENY then Returns EFFECT_DENY
        else eval_statements env action blockTime opts (allowed \<or> e = EFFECT_ALLOW) rest))"

definition Permission_Eval :: "perm_env \<Rightarrow> Permission \<Rightarrow> int32 \<Rightarrow> int \<Rightarrow> string option \<Rightarrow> Statement list \<Rightarrow> Effect go" where
  "Permission_Eval env p action blockTime opts statements =
     (if expired (pm_ExpirationTime p) blockTime then Returns EFFECT_UNSPECIFIED
      else eval_statements env action blockTime opts False statements)"

section \<open>The verification of a policy\<close>

text \<open>\<open>clock i\<close> is the time of the \<open>i\<close>th evaluation; the account's own permission is evaluated first.\<close>

fun eval_groups :: "perm_env \<Rightarrow> int32 \<Rightarrow> (nat \<Rightarrow> int) \<Rightarrow> string option \<Rightarrow> Statement list \<Rightarrow> nat \<Rightarrow> bool \<Rightarrow> Permission list \<Rightarrow> Effect go" where
  "eval_groups env action clock opts statements i allowed [] = Returns (if allowed then EFFECT_ALLOW else EFFECT_UNSPECIFIED)"
| "eval_groups env action clock opts statements i allowed (p # rest) =
     bind_go (Permission_Eval env p action (clock i) opts statements) (\<lambda>effect.
       if effect = EFFECT_DENY then Returns EFFECT_DENY
       else eval_groups env action clock opts statements (Suc i) (allowed \<or> effect = EFFECT_ALLOW) rest)"

definition group_ids :: "perm_env \<Rightarrow> Permission list \<Rightarrow> hash list go" where
  "group_ids env ps = (if list_all (\<lambda>p. pv_group_id env (pm_PrincipalValue p) \<noteq> None) ps
     then Returns (map (\<lambda>p. the (pv_group_id env (pm_PrincipalValue p))) ps) else Panics)"

definition verify_groups :: "perm_env \<Rightarrow> BsTables \<Rightarrow> (nat \<Rightarrow> int) \<Rightarrow> hash \<Rightarrow> ResourceType \<Rightarrow> string \<Rightarrow> int32 \<Rightarrow> string option \<Rightarrow> (go_error + Effect) go" where
  "verify_groups env db clock resourceID resourceType operator action opts =
     (case GetPermissionsByResourceAndPrincipleType db resourceType PRINCIPAL_TYPE_GNFD_GROUP resourceID False of
        Inl err \<Rightarrow> Returns (Inl err)
      | Inr permissions \<Rightarrow>
          bind_go (group_ids env permissions) (\<lambda>groupIDList.
            case GetGroupsByGroupIDAndAccount db groupIDList (pv_HexToAddress env operator) False of
              Inl err \<Rightarrow> Returns (Inl err)
            | Inr groups \<Rightarrow>
                let groupIDMap = map gr_GroupID groups;
                    filteredPermissionList = filter (\<lambda>p. the (pv_group_id env (pm_PrincipalValue p)) \<in> set groupIDMap) permissions in
                (case GetStatementsByPolicyID db (map pm_PolicyID filteredPermissionList) False of
                   Inl err \<Rightarrow> Returns (Inl err)
                 | Inr statements \<Rightarrow>
                     bind_go (eval_groups env action clock opts statements 1 False filteredPermissionList) (\<lambda>e. Returns (Inr e)))))"

definition VerifyPolicy :: "perm_env \<Rightarrow> BsTables \<Rightarrow> (nat \<Rightarrow> int) \<Rightarrow> hash \<Rightarrow> ResourceType \<Rightarrow> string \<Rightarrow> int32 \<Rightarrow> string option \<Rightarrow> (go_error + Effect) go" where
  "VerifyPolicy env db clock resourceID resourceType operator action opts =
     (case GetPermissionByResourceAndPrincipal db resourceType PRINCIPAL_TYPE_GNFD_ACCOUNT operator resourceID of
        Inl err \<Rightarrow> Returns (Inl err)
      | Inr None \<Rightarrow> verify_groups env db clock resourceID resourceType operator action opts
      | Inr (Some permission) \<Rightarrow>
          (case GetStatementsByPolicyID db [pm_PolicyID permission] False of
             Inl err \<Rightarrow> Returns (Inl err)
           | Inr statements \<Rightarrow>
               bind_go (Permission_Eval env permission action (clock 0) opts statements) (\<lambda>effect.
                 if effect \<noteq> EFFECT_UNSPECIFIED then Returns (Inr effect)
                 else verify_groups env db clock resourceID resourceType operator action opts)))"

section \<open>Buckets, objects and the request\<close>

definition VerifyBucketPermission :: "perm_env \<Rightarrow> BsTables \<Rightarrow> (nat \<Rightarrow> int) \<Rightarrow> Bucket \<Rightarrow> string \<Rightarrow> int32 \<Rightarrow> string option \<Rightarrow> (go_error + Effect) go" where
  "VerifyBucketPermission env db clock bucketInfo operator action options =
     (if bk_Visibility bucketInfo = ''VISIBILITY_TYPE_PUBLIC_READ'' \<and> pv_public_bucket env action then Returns (Inr EFFECT_ALLOW)
      else case pv_AccAddress env (bk_Owner bucketInfo) of
        Inl err \<Rightarrow> Returns (Inl err)
      | Inr owner \<Rightarrow>
          if operator = owner then Returns (Inr EFFECT_ALLOW)
          else bind_go (VerifyPolicy env db clock (bk_BucketID bucketInfo) RESOURCE_TYPE_BUCKET operator action options) (\<lambda>r. Returns (case r of
            Inl err \<Rightarrow> Inl err
          | Inr effect \<Rightarrow> if effect = EFFECT_ALLOW then Inr EFFECT_ALLOW else Inr EFFECT_DENY)))"

text \<open>The clock of the second policy is a later one.\<close>

definition VerifyObjectPermission :: "perm_env \<Rightarrow> BsTables \<Rightarrow> (nat \<Rightarrow> int) \<Rightarrow> (nat \<Rightarrow> int) \<Rightarrow> Bucket \<Rightarrow> Object \<Rightarrow> string \<Rightarrow> int32 \<Rightarrow> (go_error + Effect) go" where
  "VerifyObjectPermission env db clock clock' bucketInfo objectInfo operator action =
     (let visibility = ob_Visibility objectInfo = ''VISIBILITY_TYPE_PUBLIC_READ''
        \<or> ob_Visibility objectInfo = ''VISIBILITY_TYPE_INHERIT'' \<and> bk_Visibility bucketInfo = ''VISIBILITY_TYPE_PUBLIC_READ'' in
      if visibility \<and> pv_public_object env action then Returns (Inr EFFECT_ALLOW)
      else case pv_AccAddress env (ob_Owner objectInfo) of
        Inl err \<Rightarrow> Returns (Inl err)
      | Inr ownerAcc \<Rightarrow>
          if ownerAcc = operator then Returns (Inr EFFECT_ALLOW)
          else bind_go (VerifyPolicy env db clock (bk_BucketID bucketInfo) RESOURCE_TYPE_BUCKET operator action
                 (Some (pv_ObjectGRN env (ob_BucketName objectInfo) (ob_ObjectName objectInfo)))) (\<lambda>r.
            case r of
              Inl err \<Rightarrow> Returns (Inl err)
            | Inr bucketEffect \<Rightarrow>
                if bucketEffect = EFFECT_DENY then Returns (Inr EFFECT_DENY)
                else bind_go (VerifyPolicy env db clock' (ob_ObjectID objectInfo) RESOURCE_TYPE_OBJECT operator action None) (\<lambda>r. Returns (case r of
                  Inl err \<Rightarrow> Inl err
                | Inr objectEffect \<Rightarrow>
                    if objectEffect = EFFECT_DENY then Inr EFFECT_DENY
                    else if bucketEffect = EFFECT_ALLOW \<or> objectEffect = EFFECT_ALLOW then Inr EFFECT_ALLOW
                    else Inr EFFECT_DENY))))"

definition ErrInvalidBucketName :: go_error where "ErrInvalidBucketName = PlainErr ''invalid bucket name''"
definition ErrNoSuchBucket :: go_error where "ErrNoSuchBucket = PlainErr ''the specified bucket does not exist''"
definition ErrNoSuchObject :: go_error where "ErrNoSuchObject = PlainErr ''the specified key does not exist''"

record verify_request =
  vr_Operator :: string
  vr_BucketName :: string
  vr_ObjectName :: string
  vr_ActionType :: int32

definition GfSpVerifyPermission :: "perm_env \<Rightarrow> BsTables \<Rightarrow> (nat \<Rightarrow> int) \<Rightarrow> (nat \<Rightarrow> int) \<Rightarrow> verify_request \<Rightarrow> (go_error + Effect) go" where
  "GfSpVerifyPermission env db clock clock' req =
     (case pv_AccAddress env (vr_Operator req) of
        Inl err \<Rightarrow> Returns (Inl err)
      | Inr operator \<Rightarrow>
          if \<not> pv_CheckValidBucketName env (vr_BucketName req) then Returns (Inl ErrInvalidBucketName)
          else case GetBucketByName db (vr_BucketName req) True of
            Inl err \<Rightarrow> Returns (Inl err)
          | Inr None \<Rightarrow> Returns (Inl ErrNoSuchBucket)
          | Inr (Some bucketInfo) \<Rightarrow>
              if bk_Removed bucketInfo then Returns (Inl ErrNoSuchBucket)
              else if vr_ObjectName req = []
              then VerifyBucketPermission env db clock bucketInfo operator (vr_ActionType req) None
              else (case GetObjectByName db (vr_ObjectName req) (vr_BucketName req) of
                 Inl err \<Rightarrow> Returns (Inl err)
               | Inr None \<Rightarrow> Returns (Inl ErrNoSuchObject)
               | Inr (Some objectInfo) \<Rightarrow>
                   if ob_Removed objectInfo then Returns (Inl ErrNoSuchObject)
                   else VerifyObjectPermission env db clock clock' bucketInfo objectInfo operator (vr_ActionType req)))"

section \<open>What policies mean\<close>

text \<open>
  A statement speaks about an action and a resource when its actions include the action and, for a sub-resource, one of
  its patterns matches; among the statements of the policies that count, a denial prevails. About a statement without
  sub-resources the comments disagree: by that of Eval (statement.go:11) such a statement is ignored for the objects of
  the bucket, which is what \<open>covers\<close> says; by that of the field Resources (statement_schema.go:20) it is about all of them,
  which is what \<open>covers_documented\<close> says.
\<close>

definition matches :: "perm_env \<Rightarrow> string \<Rightarrow> string \<Rightarrow> bool" where
  "matches env resource res \<longleftrightarrow> (case pv_regexp env res of None \<Rightarrow> False | Some reg \<Rightarrow> reg resource)"

definition covers :: "perm_env \<Rightarrow> Statement \<Rightarrow> int32 \<Rightarrow> string option \<Rightarrow> bool" where
  "covers env s action opts \<longleftrightarrow>
     (\<exists>v. 0 \<le> v \<and> v \<le> 11 \<and> bit (st_ActionValue s) (nat v) \<and> (v = action \<or> v = pv_ACTION_TYPE_ALL env))
   \<and> (\<forall>resource. opts = Some resource \<and> resource \<noteq> [] \<longrightarrow>
        (\<exists>ress. st_Resources s = Some ress \<and> list_ex (matches env resource) ress))"

definition covers_documented :: "perm_env \<Rightarrow> Statement \<Rightarrow> int32 \<Rightarrow> string option \<Rightarrow> bool" where
  "covers_documented env s action opts \<longleftrightarrow>
     (\<exists>v. 0 \<le> v \<and> v \<le> 11 \<and> bit (st_ActionValue s) (nat v) \<and> (v = action \<or> v = pv_ACTION_TYPE_ALL env))
   \<and> (\<forall>resource. opts = Some resource \<and> resource \<noteq> [] \<longrightarrow>
        (case st_Resources s of None \<Rightarrow> True | Some ress \<Rightarrow> list_ex (matches env resource) ress))"

definition says :: "perm_env \<Rightarrow> int32 \<Rightarrow> int \<Rightarrow> string option \<Rightarrow> Effect \<Rightarrow> Statement \<Rightarrow> bool" where
  "says env action now opts e s \<longleftrightarrow> \<not> expired (st_ExpirationTime s) now \<and> covers env s action opts \<and> Effect_value (st_Effect s) = e"

definition decide :: "bool \<Rightarrow> bool \<Rightarrow> Effect" where
  "decide denied allowed = (if denied then EFFECT_DENY else if allowed then EFFECT_ALLOW else EFFECT_UNSPECIFIED)"

definition policies_decide :: "perm_env \<Rightarrow> BsTables \<Rightarrow> int32 \<Rightarrow> int \<Rightarrow> string option \<Rightarrow> hash set \<Rightarrow> Effect" where
  "policies_decide env db action now opts ids =
     (let live = {s \<in> set (bt_statements db). st_PolicyID s \<in> ids \<and> \<not> st_Removed s} in
      decide (\<exists>s \<in> live. says env action now opts EFFECT_DENY s) (\<exists>s \<in> live. says env action now opts EFFECT_ALLOW s))"

definition policies_mean :: "perm_env \<Rightarrow> BsTables \<Rightarrow> int32 \<Rightarrow> int \<Rightarrow> string option \<Rightarrow> hash set \<Rightarrow> Effect" where
  "policies_mean env db action now opts ids =
     (let speaking = {s \<in> set (bt_statements db). st_PolicyID s \<in> ids \<and> \<not> st_Removed s \<and> \<not> expired (st_ExpirationTime s) now
            \<and> covers_documented env s action opts} in
      decide (\<exists>s \<in> speaking. Effect_value (st_Effect s) = EFFECT_DENY) (\<exists>s \<in> speaking. Effect_value (st_Effect s) = EFFECT_ALLOW))"

definition account_permission :: "BsTables \<Rightarrow> hash \<Rightarrow> ResourceType \<Rightarrow> string \<Rightarrow> Permission option" where
  "account_permission db resourceID resourceType operator =
     find (\<lambda>p. pm_ResourceType p = resourceType \<and> pm_ResourceID p = resourceID \<and> pm_PrincipalType p = PRINCIPAL_TYPE_GNFD_ACCOUNT
       \<and> pm_PrincipalValue p = operator \<and> \<not> pm_Removed p) (bt_permissions db)"

definition member_of :: "perm_env \<Rightarrow> BsTables \<Rightarrow> string \<Rightarrow> Permission \<Rightarrow> bool" where
  "member_of env db operator p \<longleftrightarrow> (\<exists>g \<in> set (bt_groups db). Some (gr_GroupID g) = pv_group_id env (pm_PrincipalValue p)
     \<and> gr_AccountID g = pv_HexToAddress env operator \<and> \<not> gr_Removed g)"

definition group_permissions :: "perm_env \<Rightarrow> BsTables \<Rightarrow> hash \<Rightarrow> ResourceType \<Rightarrow> string \<Rightarrow> Permission set" where
  "group_permissions env db resourceID resourceType operator =
     {p \<in> set (bt_permissions db). pm_ResourceType p = resourceType \<and> pm_ResourceID p = resourceID \<and> pm_PrincipalType p = PRINCIPAL_TYPE_GNFD_GROUP
        \<and> \<not> pm_Removed p \<and> member_of env db operator p}"

text \<open>The policy of the account decides, then those of the groups it is a member of; expired permissions do not count.\<close>

definition own_effect :: "perm_env \<Rightarrow> BsTables \<Rightarrow> int \<Rightarrow> hash \<Rightarrow> ResourceType \<Rightarrow> string \<Rightarrow> int32 \<Rightarrow> string option \<Rightarrow> Effect" where
  "own_effect env db now resourceID resourceType operator action opts =
     (case account_permission db resourceID resourceType operator of
        None \<Rightarrow> EFFECT_UNSPECIFIED
      | Some p \<Rightarrow> if expired (pm_ExpirationTime p) now then EFFECT_UNSPECIFIED else policies_decide env db action now opts {pm_PolicyID p})"

definition group_effect :: "perm_env \<Rightarrow> BsTables \<Rightarrow> int \<Rightarrow> hash \<Rightarrow> ResourceType \<Rightarrow> string \<Rightarrow> int32 \<Rightarrow> string option \<Rightarrow> Effect" where
  "group_effect env db now resourceID resourceType operator action opts =
     policies_decide env db action now opts
       (pm_PolicyID ` {p \<in> group_permissions env db resourceID resourceType operator. \<not> expired (pm_ExpirationTime p) now})"

definition policy_effect :: "perm_env \<Rightarrow> BsTables \<Rightarrow> int \<Rightarrow> hash \<Rightarrow> ResourceType \<Rightarrow> string \<Rightarrow> int32 \<Rightarrow> string option \<Rightarrow> Effect" where
  "policy_effect env db now resourceID resourceType operator action opts =
     (let own = own_effect env db now resourceID resourceType operator action opts in
      if own \<noteq> EFFECT_UNSPECIFIED then own else group_effect env db now resourceID resourceType operator action opts)"

text \<open>The same by the comment on the field Resources, and what it makes of the whole question.\<close>

definition documented_effect :: "perm_env \<Rightarrow> BsTables \<Rightarrow> int \<Rightarrow> hash \<Rightarrow> ResourceType \<Rightarrow> string \<Rightarrow> int32 \<Rightarrow> string option \<Rightarrow> Effect" where
  "documented_effect env db now resourceID resourceType operator action opts =
     (let valid = (\<lambda>P. {p \<in> P. \<not> expired (pm_ExpirationTime p) now});
          own = policies_mean env db action now opts (pm_PolicyID ` valid (set_option (account_permission db resourceID resourceType operator))) in
      if own \<noteq> EFFECT_UNSPECIFIED then own
      else policies_mean env db action now opts (pm_PolicyID ` valid (group_permissions env db resourceID resourceType operator)))"

definition bucket_allowed :: "perm_env \<Rightarrow> BsTables \<Rightarrow> int \<Rightarrow> Bucket \<Rightarrow> string \<Rightarrow> int32 \<Rightarrow> bool" where
  "bucket_allowed env db now b operator action \<longleftrightarrow>
     bk_Visibility b = ''VISIBILITY_TYPE_PUBLIC_READ'' \<and> pv_public_bucket env action
   \<or> pv_AccAddress env (bk_Owner b) = Inr operator
   \<or> documented_effect env db now (bk_BucketID b) RESOURCE_TYPE_BUCKET operator action None = EFFECT_ALLOW"

definition object_allowed :: "perm_env \<Rightarrow> BsTables \<Rightarrow> int \<Rightarrow> Bucket \<Rightarrow> Object \<Rightarrow> string \<Rightarrow> int32 \<Rightarrow> bool" where
  "object_allowed env db now b ob operator action \<longleftrightarrow>
     (ob_Visibility ob = ''VISIBILITY_TYPE_PUBLIC_READ'' \<or> ob_Visibility ob = ''VISIBILITY_TYPE_INHERIT'' \<and> bk_Visibility b = ''VISIBILITY_TYPE_PUBLIC_READ'')
       \<and> pv_public_object env action
   \<or> pv_AccAddress env (ob_Owner ob) = Inr operator
   \<or> (let bucketEffect = documented_effect env db now (bk_BucketID b) RESOURCE_TYPE_BUCKET operator action
             (Some (pv_ObjectGRN env (ob_BucketName ob) (ob_ObjectName ob)));
          objectEffect = documented_effect env db now (ob_ObjectID ob) RESOURCE_TYPE_OBJECT operator action None in
      bucketEffect \<noteq> EFFECT_DENY \<and> objectEffect \<noteq> EFFECT_DENY \<and> (bucketEffect = EFFECT_ALLOW \<or> objectEffect = EFFECT_ALLOW))"

section \<open>The code against the reference\<close>

text \<open>What the service relies on of its tables: queries are answered, patterns compile, group numbers are numbers.\<close>

definition patterns_compile :: "perm_env \<Rightarrow> Statement \<Rightarrow> bool" where
  "patterns_compile env s \<longleftrightarrow> list_all (\<lambda>res. pv_regexp env res \<noteq> None) (case st_Resources s of None \<Rightarrow> [] | Some ress \<Rightarrow> ress)"

definition sound_tables :: "perm_env \<Rightarrow> BsTables \<Rightarrow> bool" where
  "sound_tables env db \<longleftrightarrow> bt_fails db = (\<lambda>q. None) \<and> list_all (patterns_compile env) (bt_statements db)
     \<and> list_all (\<lambda>p. pm_PrincipalType p = PRINCIPAL_TYPE_GNFD_GROUP \<longrightarrow> pv_group_id env (pm_PrincipalValue p) \<noteq> None) (bt_permissions db)"

lemma match_resources_Returns:
  "list_all (\<lambda>res. pv_regexp env res \<noteq> None) ress \<Longrightarrow>
     match_resources env resource ress = Returns (list_ex (matches env resource) ress)"
  by (induction ress) (auto simp: matches_def)

lemma AND_push_bit: "(x AND push_bit n 1 = push_bit n (1 :: int)) \<longleftrightarrow> bit x n"
proof
  assume "x AND push_bit n 1 = push_bit n 1"
  then have "bit (x AND push_bit n 1) n = bit (push_bit n (1 :: int)) n" by simp
  then show "bit x n" by (simp add: bit_simps)
next
  assume "bit x n"
  then show "x AND push_bit n 1 = push_bit n 1" by (intro bit_eqI) (auto simp: bit_simps)
qed

lemma eval_actions_covers:
  "eval_actions env s action = (if \<exists>v. 0 \<le> v \<and> v \<le> 11 \<and> bit (st_ActionValue s) (nat v) \<and> (v = action \<or> v = pv_ACTION_TYPE_ALL env)
     then Effect_value (st_Effect s) else EFFECT_UNSPECIFIED)"
  unfolding eval_actions_def ActionTypeMap_def AND_push_bit Let_def list_ex_iff set_filter set_upto
  by (auto simp: Effect_value_def)

lemma Statement_Eval_covers:
  assumes "patterns_compile env s"
  shows "Statement_Eval env s action opts = Returns (if covers env s action opts then Effect_value (st_Effect s) else EFFECT_UNSPECIFIED)"
  using assms unfolding Statement_Eval_def covers_def patterns_compile_def eval_actions_covers
  by (auto simp: match_resources_Returns split: option.splits)

lemma eval_statements_decide:
  "list_all (patterns_compile env) ss \<Longrightarrow> eval_statements env action now opts allowed ss =
     Returns (decide (\<exists>s \<in> set ss. says env action now opts EFFECT_DENY s) (allowed \<or> (\<exists>s \<in> set ss. says env action now opts EFFECT_ALLOW s)))"
proof (induction ss arbitrary: allowed)
  case Nil
  show ?case by (simp add: decide_def)
next
  case (Cons s ss)
  have eval: "Statement_Eval env s action opts = Returns (if covers env s action opts then Effect_value (st_Effect s) else EFFECT_UNSPECIFIED)"
    using Statement_Eval_covers Cons.prems by simp
  show ?case
  proof (cases "expired (st_ExpirationTime s) now")
    case True
    then show ?thesis using Cons by (simp add: says_def)
  next
    case False
    then show ?thesis using Cons eval by (auto simp: says_def decide_def)
  qed
qed

lemma statements_decide:
  assumes "sound_tables env db"
  shows "eval_statements env action now opts False (filter (\<lambda>s. st_PolicyID s \<in> set ids \<and> \<not> st_Removed s) (bt_statements db))
    = Returns (policies_decide env db action now opts (set ids))"
proof -
  have "list_all (patterns_compile env) (filter (\<lambda>s. st_PolicyID s \<in> set ids \<and> \<not> st_Removed s) (bt_statements db))"
    using assms by (auto simp: sound_tables_def list_all_iff)
  then show ?thesis by (simp add: eval_statements_decide policies_decide_def Let_def)
qed

text \<open>All the permissions of groups are evaluated with the same statements: it only matters whether one has not expired.\<close>

lemma eval_groups_decide:
  assumes "eval_statements env action now opts False ss = Returns e"
  shows "eval_groups env action (\<lambda>i. now) opts ss i allowed ps =
    Returns (let e' = if \<exists>p \<in> set ps. \<not> expired (pm_ExpirationTime p) now then e else EFFECT_UNSPECIFIED in
      decide (e' = EFFECT_DENY) (allowed \<or> e' = EFFECT_ALLOW))"
  using assms
  by (induction ps arbitrary: i allowed) (auto simp: Permission_Eval_def decide_def Let_def)

lemma decide_idem: "decide (e = EFFECT_DENY) (e = EFFECT_ALLOW) = e"
  by (cases e) (simp_all add: decide_def)

lemma verify_groups_decides:
  assumes "sound_tables env db" "G = group_permissions env db resourceID resourceType operator"
  shows "verify_groups env db (\<lambda>i. now) resourceID resourceType operator action opts = Returns (Inr
    (if \<exists>p \<in> G. \<not> expired (pm_ExpirationTime p) now then policies_decide env db action now opts (pm_PolicyID ` G) else EFFECT_UNSPECIFIED))"
proof -
  let ?ps = "filter (\<lambda>p. pm_ResourceType p = resourceType \<and> pm_ResourceID p = resourceID \<and> pm_PrincipalType p = PRINCIPAL_TYPE_GNFD_GROUP
    \<and> \<not> pm_Removed p) (bt_permissions db)"
  let ?gid = "\<lambda>p. the (pv_group_id env (pm_PrincipalValue p))"
  let ?groups = "filter (\<lambda>g. gr_GroupID g \<in> set (map ?gid ?ps) \<and> gr_AccountID g = pv_HexToAddress env operator \<and> \<not> gr_Removed g) (bt_groups db)"
  let ?filtered = "filter (\<lambda>p. ?gid p \<in> set (map gr_GroupID ?groups)) ?ps"
  have ok: "bt_fails db q = None" "\<And>p. p \<in> set ?ps \<Longrightarrow> \<exists>i. pv_group_id env (pm_PrincipalValue p) = Some i" for q
    using assms(1) by (auto simp: sound_tables_def list_all_iff)
  have ids: "group_ids env ?ps = Returns (map ?gid ?ps)" using ok(2) by (auto simp: group_ids_def list_all_iff)
  have "p \<in> set ?filtered \<longleftrightarrow> p \<in> set ?ps \<and> member_of env db operator p" for p
  proof (cases "p \<in> set ?ps")
    case True
    then obtain i where "pv_group_id env (pm_PrincipalValue p) = Some i" using ok(2) by blast
    then have "?gid p \<in> set (map gr_GroupID ?groups) \<longleftrightarrow> member_of env db operator p"
      using True unfolding member_of_def by (force simp: image_iff)
    then show ?thesis using True by simp
  qed auto
  then have G: "set ?filtered = G" unfolding assms(2) group_permissions_def by auto
  have "\<exists>fl. set fl = G \<and> verify_groups env db (\<lambda>i. now) resourceID resourceType operator action opts = bind_go (eval_groups env action (\<lambda>i. now) opts
      (filter (\<lambda>s. st_PolicyID s \<in> set (map pm_PolicyID fl) \<and> \<not> st_Removed s) (bt_statements db)) 1 False fl) (\<lambda>e. Returns (Inr e))"
    using G unfolding verify_groups_def GetPermissionsByResourceAndPrincipleType_def GetGroupsByGroupIDAndAccount_def GetStatementsByPolicyID_def query_def
    by (intro exI [of _ ?filtered] conjI) (simp_all add: ok(1) ids Let_def del: set_map set_filter filter_filter)
  then obtain fl where fl: "set fl = G" "verify_groups env db (\<lambda>i. now) resourceID resourceType operator action opts = bind_go (eval_groups env action (\<lambda>i. now) opts
      (filter (\<lambda>s. st_PolicyID s \<in> set (map pm_PolicyID fl) \<and> \<not> st_Removed s) (bt_statements db)) 1 False fl) (\<lambda>e. Returns (Inr e))" by blast
  show ?thesis
    unfolding fl(2)
    using eval_groups_decide [OF statements_decide [OF assms(1), where ids = "map pm_PolicyID fl"], where i = 1 and allowed = False and ps = fl] fl(1)
    by (simp add: decide_idem Let_def)
qed

lemma policies_decide_silent:
  "policies_decide env db action now opts {y} = EFFECT_UNSPECIFIED \<Longrightarrow>
     policies_decide env db action now opts {x, y} = policies_decide env db action now opts {x}"
  unfolding policies_decide_def Let_def by (rule arg_cong2 [where f = decide]) (auto simp: decide_def split: if_splits)

text \<open>The exact result of the code; the groups are judged by the statements of all their policies if one of them has not expired.\<close>

lemma VerifyPolicy_result:
  assumes "sound_tables env db" "G = group_permissions env db resourceID resourceType operator"
  shows "VerifyPolicy env db (\<lambda>i. now) resourceID resourceType operator action opts = Returns (Inr
    (let own = own_effect env db now resourceID resourceType operator action opts in
     if own \<noteq> EFFECT_UNSPECIFIED then own
     else if \<exists>p \<in> G. \<not> expired (pm_ExpirationTime p) now then policies_decide env db action now opts (pm_PolicyID ` G) else EFFECT_UNSPECIFIED))"
proof -
  have ok: "bt_fails db q = None" for q using assms(1) by (simp add: sound_tables_def)
  note st = statements_decide [OF assms(1), where ids = "[x]" for x, simplified]
  show ?thesis
    using verify_groups_decides [OF assms]
    by (auto simp: VerifyPolicy_def own_effect_def account_permission_def GetPermissionByResourceAndPrincipal_def GetStatementsByPolicyID_def
        query_def ok Permission_Eval_def st Let_def split: option.splits)
qed

lemma VerifyPolicy_effect:
  assumes "sound_tables env db" "\<And>p. p \<in> group_permissions env db resourceID resourceType operator \<Longrightarrow> \<not> expired (pm_ExpirationTime p) now"
  shows "VerifyPolicy env db (\<lambda>i. now) resourceID resourceType operator action opts
    = Returns (Inr (policy_effect env db now resourceID resourceType operator action opts))"
proof -
  let ?G = "group_permissions env db resourceID resourceType operator"
  have "{p \<in> ?G. \<not> expired (pm_ExpirationTime p) now} = ?G" using assms(2) by blast
  moreover have "policies_decide env db action now opts {} = EFFECT_UNSPECIFIED" by (simp add: policies_decide_def decide_def)
  ultimately show ?thesis
    using assms(2) by (cases "?G = {}") (auto simp: VerifyPolicy_result [OF assms(1) refl] policy_effect_def group_effect_def Let_def)
qed

text \<open>
  The two readings of a statement without sub-resources differ only in the statements of bucket policies when an object is
  asked for: if all of these name sub-resources, the code follows the documentation.
\<close>

definition names_objects :: "BsTables \<Rightarrow> hash \<Rightarrow> bool" where
  "names_objects db bucketID \<longleftrightarrow> list_all (\<lambda>p. pm_ResourceType p = RESOURCE_TYPE_BUCKET \<and> pm_ResourceID p = bucketID \<and> \<not> pm_Removed p \<longrightarrow>
     list_all (\<lambda>s. st_PolicyID s = pm_PolicyID p \<and> \<not> st_Removed s \<longrightarrow> st_Resources s \<noteq> None) (bt_statements db)) (bt_permissions db)"

lemma policies_mean_decide:
  assumes "\<And>s. s \<in> set (bt_statements db) \<Longrightarrow> st_PolicyID s \<in> ids \<Longrightarrow> \<not> st_Removed s \<Longrightarrow> opts \<noteq> None \<Longrightarrow> st_Resources s \<noteq> None"
  shows "policies_mean env db action now opts ids = policies_decide env db action now opts ids"
proof -
  have "covers_documented env s action opts = covers env s action opts"
    if "s \<in> set (bt_statements db)" "st_PolicyID s \<in> ids" "\<not> st_Removed s" for s
    using assms [OF that] by (cases opts) (auto simp: covers_documented_def covers_def)
  then show ?thesis
    unfolding policies_mean_def policies_decide_def Let_def says_def by (intro arg_cong2 [where f = decide]) auto
qed

lemma documented_effect_policy:
  assumes "\<And>p s. p \<in> set (bt_permissions db) \<Longrightarrow> pm_ResourceType p = resourceType \<Longrightarrow> pm_ResourceID p = resourceID \<Longrightarrow> \<not> pm_Removed p \<Longrightarrow>
      s \<in> set (bt_statements db) \<Longrightarrow> st_PolicyID s = pm_PolicyID p \<Longrightarrow> \<not> st_Removed s \<Longrightarrow> opts \<noteq> None \<Longrightarrow> st_Resources s \<noteq> None"
  shows "documented_effect env db now resourceID resourceType operator action opts = policy_effect env db now resourceID resourceType operator action opts"
proof -
  let ?own = "account_permission db resourceID resourceType operator" and ?G = "group_permissions env db resourceID resourceType operator"
  have same: "policies_mean env db action now opts (pm_PolicyID ` P) = policies_decide env db action now opts (pm_PolicyID ` P)"
    if "\<And>p. p \<in> P \<Longrightarrow> p \<in> set (bt_permissions db) \<and> pm_ResourceType p = resourceType \<and> pm_ResourceID p = resourceID \<and> \<not> pm_Removed p" for P
    using assms that by (intro policies_mean_decide) blast
  have own: "p \<in> set (bt_permissions db) \<and> pm_ResourceType p = resourceType \<and> pm_ResourceID p = resourceID \<and> \<not> pm_Removed p" if "?own = Some p" for p
    using that by (auto simp: account_permission_def find_Some_iff)
  have "policies_mean env db action now opts (pm_PolicyID ` {p \<in> set_option ?own. \<not> expired (pm_ExpirationTime p) now})
      = own_effect env db now resourceID resourceType operator action opts"
    using own by (subst same) (auto simp: own_effect_def policies_decide_def decide_def split: option.splits)
  moreover have "policies_mean env db action now opts (pm_PolicyID ` {p \<in> ?G. \<not> expired (pm_ExpirationTime p) now})
      = group_effect env db now resourceID resourceType operator action opts"
    unfolding group_effect_def by (rule same) (auto simp: group_permissions_def)
  ultimately show ?thesis by (simp add: documented_effect_def policy_effect_def Let_def)
qed

lemma documented_effect_whole: "documented_effect env db now resourceID resourceType operator action None = policy_effect env db now resourceID resourceType operator action None"
  by (rule documented_effect_policy) simp

lemma documented_effect_object:
  "names_objects db bucketID \<Longrightarrow> documented_effect env db now bucketID RESOURCE_TYPE_BUCKET operator action opts
     = policy_effect env db now bucketID RESOURCE_TYPE_BUCKET operator action opts"
  by (rule documented_effect_policy) (auto simp: names_objects_def list_all_iff)

text \<open>Where the readings differ: statements without sub-resources decide nothing about an object, whatever they allow or deny.\<close>

lemma bucket_wide_statements_ignored:
  assumes "\<And>s. s \<in> set (bt_statements db) \<Longrightarrow> st_PolicyID s \<in> ids \<Longrightarrow> st_Resources s = None" "resource \<noteq> []"
  shows "policies_decide env db action now (Some resource) ids = EFFECT_UNSPECIFIED
    \<and> policies_mean env db action now (Some resource) ids = policies_mean env db action now None ids"
  using assms unfolding policies_decide_def policies_mean_def covers_documented_def Let_def says_def covers_def
  by (intro conjI arg_cong2 [where f = decide]) (auto simp: decide_def)

text \<open>
  C6. The answer of the permission service is what the documented policies mean: for a live bucket or object, an account may
  act when the resource is public for the action, when it owns it, or when its policies say so; a policy of the account
  decides before those of its groups, a denial prevails over permissions, and a denial on the bucket over the policy of the
  object. Two things are needed. No permission of a group of the account has expired. And, when an object is asked for, every
  statement of a policy on its bucket names sub-resources: one without them is documented to be about all objects of the
  bucket, but the code ignores it. The other hypotheses are that the database answers and that patterns, group numbers
  and owners are well formed. All evaluations see the same time.
\<close>

theorem permission_decided:
  assumes sound: "sound_tables env db" and req: "pv_AccAddress env (vr_Operator req) = Inr operator" "pv_CheckValidBucketName env (vr_BucketName req)"
    and bucket: "GetBucketByName db (vr_BucketName req) True = Inr (Some b)" "pv_AccAddress env (bk_Owner b) = Inr bowner"
    and live: "\<And>resourceID resourceType p. p \<in> group_permissions env db resourceID resourceType operator \<Longrightarrow> \<not> expired (pm_ExpirationTime p) now"
  shows "(vr_ObjectName req = [] \<longrightarrow> GfSpVerifyPermission env db (\<lambda>i. now) (\<lambda>i. now) req
        = Returns (Inr (if bucket_allowed env db now b operator (vr_ActionType req) then EFFECT_ALLOW else EFFECT_DENY)))
    \<and> (\<forall>ob oowner. vr_ObjectName req \<noteq> [] \<and> names_objects db (bk_BucketID b)
        \<and> GetObjectByName db (vr_ObjectName req) (vr_BucketName req) = Inr (Some ob)
        \<and> pv_AccAddress env (ob_Owner ob) = Inr oowner \<longrightarrow> GfSpVerifyPermission env db (\<lambda>i. now) (\<lambda>i. now) req
        = Returns (Inr (if object_allowed env db now b ob operator (vr_ActionType req) then EFFECT_ALLOW else EFFECT_DENY)))"
proof -
  note policy = VerifyPolicy_effect [OF sound live]
  have "\<not> bk_Removed b" using bucket(1) by (auto simp: GetBucketByName_def query_def find_Some_iff split: option.splits)
  moreover have "\<not> ob_Removed ob" if "GetObjectByName db (vr_ObjectName req) (vr_BucketName req) = Inr (Some ob)" for ob
    using that by (auto simp: GetObjectByName_def find_Some_iff split: option.splits)
  ultimately show ?thesis
    using req bucket
    by (auto simp: GfSpVerifyPermission_def VerifyBucketPermission_def VerifyObjectPermission_def bucket_allowed_def object_allowed_def policy
        documented_effect_whole documented_effect_object Let_def)
qed

text \<open>
  C29. An expired permission of a group is revived by another one: when an account is a member of two groups with permissions on a
  resource, of which one has expired and the other has not, and the policy of the expired one allows an action about
  which the valid one says nothing, then the service allows it, although no valid permission does.
\<close>

theorem expired_permission_revived:
  assumes "sound_tables env db" "account_permission db resourceID resourceType operator = None"
    and G: "group_permissions env db resourceID resourceType operator = {p, q}"
    and "expired (pm_ExpirationTime p) now" "\<not> expired (pm_ExpirationTime q) now"
    and silent: "policies_decide env db action now opts {pm_PolicyID q} = EFFECT_UNSPECIFIED"
    and allows: "policies_decide env db action now opts {pm_PolicyID p} = EFFECT_ALLOW"
  shows "VerifyPolicy env db (\<lambda>i. now) resourceID resourceType operator action opts = Returns (Inr EFFECT_ALLOW)
    \<and> policy_effect env db now resourceID resourceType operator action opts = EFFECT_UNSPECIFIED"
proof -
  have "{r \<in> {p, q}. \<not> expired (pm_ExpirationTime r) now} = {q}" using assms(4,5) by auto
  then have "policy_effect env db now resourceID resourceType operator action opts = EFFECT_UNSPECIFIED"
    using assms(2) silent by (simp add: policy_effect_def own_effect_def group_effect_def G Let_def)
  moreover have "policies_decide env db action now opts {pm_PolicyID p, pm_PolicyID q} = EFFECT_ALLOW"
    using policies_decide_silent [OF silent] allows by simp
  ultimately show ?thesis
    using assms(2,5) by (simp add: VerifyPolicy_result [OF assms(1) refl] own_effect_def G Let_def)
qed

section \<open>The theorems at work\<close>

definition demo_perm_env :: perm_env where
  "demo_perm_env = \<lparr>pv_ACTION_TYPE_ALL = 99, pv_public_bucket = (\<lambda>a. a = 8), pv_public_object = (\<lambda>a. a = 6), pv_regexp = (\<lambda>re. Some (\<lambda>s. re = s)),
     pv_group_id = (\<lambda>s. Some (if s = ''7'' then 7 else 8)), pv_HexToAddress = (\<lambda>s. s), pv_AccAddress = Inr, pv_CheckValidBucketName = (\<lambda>s. True),
     pv_ObjectGRN = (\<lambda>b ob. b @ ''/'' @ ob)\<rparr>"

definition demo_grant :: "string \<Rightarrow> hash \<Rightarrow> int64 \<Rightarrow> Permission" where
  "demo_grant grp policy expiry = \<lparr>pm_PrincipalType = PRINCIPAL_TYPE_GNFD_GROUP, pm_PrincipalValue = grp, pm_ResourceType = RESOURCE_TYPE_OBJECT,
     pm_ResourceID = 5, pm_PolicyID = policy, pm_ExpirationTime = expiry, pm_Removed = False\<rparr>"

text \<open>Bob is in two groups; the policy 70 of the first allows to read the object 5, that of the second says nothing.\<close>

definition demo_tables :: "int64 \<Rightarrow> BsTables" where
  "demo_tables expiry = \<lparr>bt_fails = (\<lambda>q. None),
     bt_buckets = [\<lparr>bk_BucketID = 1, bk_BucketName = ''photos'', bk_Owner = ''alice'', bk_Visibility = ''VISIBILITY_TYPE_PRIVATE'', bk_Removed = False\<rparr>],
     bt_objects = [\<lparr>ob_ObjectID = 5, ob_BucketName = ''photos'', ob_ObjectName = ''cat'', ob_Owner = ''alice'', ob_Visibility = ''VISIBILITY_TYPE_PRIVATE'', ob_Removed = False\<rparr>],
     bt_permissions = [demo_grant ''7'' 70 expiry, demo_grant ''8'' 80 0],
     bt_statements = [\<lparr>st_PolicyID = 70, st_Effect = ''EFFECT_ALLOW'', st_ActionValue = 64, st_Resources = None, st_ExpirationTime = 0, st_Removed = False\<rparr>],
     bt_groups = [\<lparr>gr_GroupID = 7, gr_AccountID = ''bob'', gr_Removed = False\<rparr>, \<lparr>gr_GroupID = 8, gr_AccountID = ''bob'', gr_Removed = False\<rparr>]\<rparr>"

lemma demo_sound: "sound_tables demo_perm_env (demo_tables expiry)"
  by (simp add: sound_tables_def demo_tables_def patterns_compile_def demo_perm_env_def demo_grant_def)

lemma demo_groups:
  "group_permissions demo_perm_env (demo_tables expiry) resourceID resourceType ''bob''
     = (if resourceID = 5 \<and> resourceType = RESOURCE_TYPE_OBJECT then {demo_grant ''7'' 70 expiry, demo_grant ''8'' 80 0} else {})"
  by (auto simp: group_permissions_def demo_tables_def member_of_def demo_perm_env_def demo_grant_def)

abbreviation "demo_verify \<equiv> \<lparr>vr_Operator = ''bob'', vr_BucketName = ''photos'', vr_ObjectName = ''cat'', vr_ActionType = 6\<rparr>"

lemma demo_bit: "bit (64 :: int) n \<longleftrightarrow> n = 6"
proof -
  have "(64 :: int) = 2 ^ 6" by simp
  then show ?thesis by (simp only: bit_exp_iff) auto
qed

lemma demo_decides:
  "policies_decide demo_perm_env (demo_tables expiry) 6 now None {70} = EFFECT_ALLOW"
  "policies_decide demo_perm_env (demo_tables expiry) 6 now None {80} = EFFECT_UNSPECIFIED"
  by (auto simp: policies_decide_def demo_tables_def decide_def says_def covers_def expired_def Effect_value_def demo_perm_env_def demo_bit Let_def
      intro!: exI [of _ 6])

theorem permission_decided_witness:
  "GfSpVerifyPermission demo_perm_env (demo_tables 0) (\<lambda>i. 1) (\<lambda>i. 1) demo_verify = Returns (Inr EFFECT_ALLOW)"
proof -
  let ?db = "demo_tables 0" and ?b = "hd (bt_buckets (demo_tables 0))" and ?ob = "hd (bt_objects (demo_tables 0))"
  have rows: "GetBucketByName ?db (vr_BucketName demo_verify) True = Inr (Some ?b)" "GetObjectByName ?db (vr_ObjectName demo_verify) (vr_BucketName demo_verify) = Inr (Some ?ob)"
    by (simp_all add: GetBucketByName_def GetObjectByName_def query_def demo_tables_def)
  have acc: "pv_AccAddress demo_perm_env a = Inr a" "pv_CheckValidBucketName demo_perm_env a" for a by (simp_all add: demo_perm_env_def)
  have live: "\<not> expired (pm_ExpirationTime p) 1" if "p \<in> group_permissions demo_perm_env ?db resourceID resourceType ''bob''" for resourceID resourceType p
    using that by (auto simp: demo_groups demo_grant_def expired_def split: if_splits)
  have none: "account_permission ?db i t ''bob'' = None" for i t by (simp add: account_permission_def demo_tables_def demo_grant_def)
  have "{p \<in> {demo_grant ''7'' 70 0, demo_grant ''8'' 80 0}. \<not> expired (pm_ExpirationTime p) 1} = {demo_grant ''7'' 70 0, demo_grant ''8'' 80 0}"
    by (auto simp: demo_grant_def expired_def)
  then have "policy_effect demo_perm_env ?db 1 5 RESOURCE_TYPE_OBJECT ''bob'' 6 None = EFFECT_ALLOW"
    using policies_decide_silent [OF demo_decides(2) [of 0 1], of 70] demo_decides(1) [of 0 1]
    by (simp add: policy_effect_def own_effect_def none group_effect_def demo_groups demo_grant_def)
  moreover have "policy_effect demo_perm_env ?db 1 1 RESOURCE_TYPE_BUCKET ''bob'' 6 opts = EFFECT_UNSPECIFIED" for opts
    by (simp add: policy_effect_def own_effect_def none group_effect_def demo_groups policies_decide_def decide_def)
  moreover have names: "names_objects ?db (bk_BucketID ?b)" by (simp add: names_objects_def demo_tables_def demo_grant_def)
  ultimately have "object_allowed demo_perm_env ?db 1 ?b ?ob ''bob'' 6"
    by (simp add: object_allowed_def documented_effect_whole documented_effect_object Let_def) (simp add: demo_tables_def)
  then show ?thesis using permission_decided [OF demo_sound acc(1,2) rows(1) acc(1) live] names rows(2) acc(1) by auto
qed

theorem expired_permission_revived_witness:
  "VerifyPolicy demo_perm_env (demo_tables 10) (\<lambda>i. 10 ^ 12) 5 RESOURCE_TYPE_OBJECT ''bob'' 6 None = Returns (Inr EFFECT_ALLOW)"
proof -
  have "account_permission (demo_tables 10) 5 RESOURCE_TYPE_OBJECT ''bob'' = None"
    by (simp add: account_permission_def demo_tables_def demo_grant_def)
  then show ?thesis
    using expired_permission_revived [OF demo_sound _ demo_groups [of 10 5 RESOURCE_TYPE_OBJECT, simplified], of "10 ^ 12" 6 None]
    by (simp add: demo_grant_def expired_def demo_decides)
qed

end
