(* ===== verification/PrefixTree.thy ===== *)
theory PrefixTree
  imports Permissions "HOL-Library.Sublist" "HOL-Library.List_Lexorder" "HOL-Library.Char_ord"
begin

text \<open>
  The folders of a bucket: the block syncer keeps a table with one row per object and one per folder
  (\<open>modular/blocksyncer/modules/prefixtree/prefix_tree.go\<close> over \<open>modular/blocksyncer/database/prefixtree.go\<close>), which the listing of objects reads
  (\<open>store/bsdb/prefix.go\<close>, \<open>store/bsdb/object.go\<close>, \<open>modular/metadata/metadata_object_service.go\<close>).

  The table is the list of its rows without their number. \<open>fails\<close> says which database calls fail. The collation of the database is an
  argument, \<open>ln_weight\<close>: texts are compared by their weights; so is \<open>LIKE\<close>. Equality of texts is taken to be exact, which it is
  under a binary collation; the tables of the program name no collation, and under one that folds letters \<open>a/\<close> and \<open>A/\<close> would be one folder.
\<close>

section \<open>The table\<close>

record SlashPrefixTreeNode =
  tn_PathName :: string
  tn_FullName :: string
  tn_Name :: string
  tn_IsObject :: bool
  tn_IsFolder :: bool
  tn_BucketName :: string
  tn_ObjectID :: hash
  tn_ObjectName :: string

datatype tree_query = TreeQuery string string | TreeObjectQuery hash | TreeCountQuery string string | TreeCreate | TreeDelete

definition tree_call :: "(tree_query \<Rightarrow> go_error option) \<Rightarrow> tree_query \<Rightarrow> 'a \<Rightarrow> go_error + 'a" where
  "tree_call fails q res = (case fails q of Some err \<Rightarrow> Inl err | None \<Rightarrow> Inr res)"

definition CreatePrefixTree :: "(tree_query \<Rightarrow> go_error option) \<Rightarrow> SlashPrefixTreeNode list \<Rightarrow> SlashPrefixTreeNode list \<Rightarrow> go_error option \<times> SlashPrefixTreeNode list" where
  "CreatePrefixTree fails prefixTree db = (case fails TreeCreate of Some err \<Rightarrow> (Some err, db) | None \<Rightarrow> (None, db @ prefixTree))"

definition DeletePrefixTree :: "(tree_query \<Rightarrow> go_error option) \<Rightarrow> SlashPrefixTreeNode list \<Rightarrow> SlashPrefixTreeNode list \<Rightarrow> go_error option \<times> SlashPrefixTreeNode list" where
  "DeletePrefixTree fails prefixTree db =
     (if prefixTree = [] then (None, db)
      else case fails TreeDelete of
        Some err \<Rightarrow> (Some err, db)
      | None \<Rightarrow> (None, filter (\<lambda>r. \<not> list_ex (\<lambda>n. tn_BucketName r = tn_BucketName n \<and> tn_FullName r = tn_FullName n \<and> tn_IsObject r = tn_IsObject n) prefixTree) db))"

definition GetPrefixTree :: "(tree_query \<Rightarrow> go_error option) \<Rightarrow> SlashPrefixTreeNode list \<Rightarrow> string \<Rightarrow> string \<Rightarrow> go_error + SlashPrefixTreeNode option" where
  "GetPrefixTree fails db fullName bucketName = tree_call fails (TreeQuery fullName bucketName)
     (find (\<lambda>r. tn_FullName r = fullName \<and> tn_BucketName r = bucketName \<and> \<not> tn_IsObject r) db)"

definition GetPrefixTreeObject :: "(tree_query \<Rightarrow> go_error option) \<Rightarrow> SlashPrefixTreeNode list \<Rightarrow> hash \<Rightarrow> go_error + SlashPrefixTreeNode option" where
  "GetPrefixTreeObject fails db objectID = tree_call fails (TreeObjectQuery objectID) (find (\<lambda>r. tn_ObjectID r = objectID) db)"

definition GetPrefixTreeCount :: "(tree_query \<Rightarrow> go_error option) \<Rightarrow> SlashPrefixTreeNode list \<Rightarrow> string \<Rightarrow> string \<Rightarrow> go_error + nat" where
  "GetPrefixTreeCount fails db pathName bucketName = tree_call fails (TreeCountQuery pathName bucketName)
     (length (filter (\<lambda>r. tn_BucketName r = bucketName \<and> tn_PathName r = pathName) db))"

section \<open>The events\<close>

abbreviation slash :: char where "slash \<equiv> CHR ''/''"

definition dirname :: "string list \<Rightarrow> string" where "dirname parts = join_with [slash] parts @ [slash]"

definition dir_node :: "string \<Rightarrow> string list \<Rightarrow> SlashPrefixTreeNode" where
  "dir_node bucketName parts = \<lparr>tn_PathName = dirname (butlast parts), tn_FullName = dirname parts, tn_Name = last parts @ [slash],
     tn_IsObject = False, tn_IsFolder = True, tn_BucketName = bucketName, tn_ObjectID = 0, tn_ObjectName = []\<rparr>"

definition object_node :: "string \<Rightarrow> string \<Rightarrow> hash \<Rightarrow> SlashPrefixTreeNode" where
  "object_node bucketName objectPath objectID = (let pathParts = split_on slash objectPath in
     \<lparr>tn_PathName = dirname (butlast pathParts), tn_FullName = objectPath, tn_Name = last pathParts, tn_IsObject = True, tn_IsFolder = False,
      tn_BucketName = bucketName, tn_ObjectID = objectID, tn_ObjectName = objectPath\<rparr>)"

text \<open>From the deepest folder upwards, until one exists.\<close>

fun create_dirs :: "(tree_query \<Rightarrow> go_error option) \<Rightarrow> SlashPrefixTreeNode list \<Rightarrow> string \<Rightarrow> string list \<Rightarrow> nat \<Rightarrow> go_error + SlashPrefixTreeNode list" where
  "create_dirs fails db bucketName pathParts 0 = Inr []"
| "create_dirs fails db bucketName pathParts (Suc i) =
     (case GetPrefixTree fails db (dirname (take (Suc i) pathParts)) bucketName of
        Inl err \<Rightarrow> Inl err
      | Inr (Some _) \<Rightarrow> Inr []
      | Inr None \<Rightarrow>
          (case create_dirs fails db bucketName pathParts i of
             Inl err \<Rightarrow> Inl err
           | Inr nodes \<Rightarrow> Inr (dir_node bucketName (take (Suc i) pathParts) # nodes)))"

definition handleCreateObject :: "(tree_query \<Rightarrow> go_error option) \<Rightarrow> string \<Rightarrow> string \<Rightarrow> hash \<Rightarrow> SlashPrefixTreeNode list \<Rightarrow> go_error option \<times> SlashPrefixTreeNode list" where
  "handleCreateObject fails bucketName objectPath objectID db =
     (let pathParts = split_on slash objectPath in
      case create_dirs fails db bucketName pathParts (length pathParts - 1) of
        Inl err \<Rightarrow> (Some err, db)
      | Inr nodes \<Rightarrow>
          (case GetPrefixTreeObject fails db objectID of
             Inl err \<Rightarrow> (Some err, db)
           | Inr object \<Rightarrow>
               let nodes = (case object of None \<Rightarrow> nodes @ [object_node bucketName objectPath objectID] | Some _ \<Rightarrow> nodes) in
               if nodes = [] then (None, db) else CreatePrefixTree fails nodes db))"

text \<open>From the deepest folder upwards, as long as it has at most one entry; only these three columns of a node are set.\<close>

definition key_node :: "string \<Rightarrow> string \<Rightarrow> bool \<Rightarrow> SlashPrefixTreeNode" where
  "key_node bucketName fullName isObject = \<lparr>tn_PathName = [], tn_FullName = fullName, tn_Name = [], tn_IsObject = isObject, tn_IsFolder = False,
     tn_BucketName = bucketName, tn_ObjectID = 0, tn_ObjectName = []\<rparr>"

fun empty_dirs :: "(tree_query \<Rightarrow> go_error option) \<Rightarrow> SlashPrefixTreeNode list \<Rightarrow> string \<Rightarrow> string list \<Rightarrow> nat \<Rightarrow> go_error + SlashPrefixTreeNode list" where
  "empty_dirs fails db bucketName pathParts 0 = Inr []"
| "empty_dirs fails db bucketName pathParts (Suc i) =
     (let path = dirname (take (Suc i) pathParts) in
      case GetPrefixTreeCount fails db path bucketName of
        Inl err \<Rightarrow> Inl err
      | Inr count \<Rightarrow>
          if count \<le> 1
          then case empty_dirs fails db bucketName pathParts i of
                 Inl err \<Rightarrow> Inl err
               | Inr nodes \<Rightarrow> Inr (key_node bucketName path False # nodes)
          else Inr [])"

definition deleteObject :: "(tree_query \<Rightarrow> go_error option) \<Rightarrow> string \<Rightarrow> string \<Rightarrow> SlashPrefixTreeNode list \<Rightarrow> go_error option \<times> SlashPrefixTreeNode list" where
  "deleteObject fails objectPath bucketName db =
     (let pathParts = split_on slash objectPath in
      case empty_dirs fails db bucketName pathParts (length pathParts - 1) of
        Inl err \<Rightarrow> (Some err, db)
      | Inr nodes \<Rightarrow> DeletePrefixTree fails (key_node bucketName objectPath True # nodes) db)"

datatype tree_event = EventCreateObject string string hash | EventDeleteObject string string | EventCancelCreateObject string string
  | EventRejectSealObject string string | EventOther

fun tree_HandleEvent :: "(tree_query \<Rightarrow> go_error option) \<Rightarrow> tree_event \<Rightarrow> SlashPrefixTreeNode list \<Rightarrow> go_error option \<times> SlashPrefixTreeNode list" where
  "tree_HandleEvent fails (EventCreateObject bucketName objectName objectID) db = handleCreateObject fails bucketName objectName objectID db"
| "tree_HandleEvent fails (EventDeleteObject bucketName objectName) db = deleteObject fails objectName bucketName db"
| "tree_HandleEvent fails (EventCancelCreateObject bucketName objectName) db = deleteObject fails objectName bucketName db"
| "tree_HandleEvent fails (EventRejectSealObject bucketName objectName) db = deleteObject fails objectName bucketName db"
| "tree_HandleEvent fails EventOther db = (None, db)"

section \<open>Listing\<close>

definition processPath :: "string \<Rightarrow> string \<times> string" where
  "processPath pathName =
     (if \<not> str_contains pathName [slash] then ([slash], pathName)
      else (let file = rev (takeWhile (\<lambda>c. c \<noteq> slash) (rev pathName)) in (take (length pathName - length file) pathName, file)))"

record 'k list_env =
  ln_weight :: "string \<Rightarrow> 'k"
  ln_like :: "string \<Rightarrow> string \<Rightarrow> bool"
  ln_nodes_fail :: "go_error option"
  ln_objects_fail :: "go_error option"
  ln_base64 :: "string \<Rightarrow> string"

datatype list_result = ObjectResult string Object | CommonPrefix string

fun result_path :: "list_result \<Rightarrow> string" where
  "result_path (ObjectResult path ob) = path"
| "result_path (CommonPrefix path) = path"

definition objects_map :: "hash list \<Rightarrow> Object list \<Rightarrow> hash \<Rightarrow> Object option" where
  "objects_map ids objects = map_of (rev (map (\<lambda>ob. (ob_ObjectID ob, ob)) (filter (\<lambda>ob. ob_ObjectID ob \<in> set ids) objects)))"

fun filter_nodes :: "(hash \<Rightarrow> Object option) \<Rightarrow> SlashPrefixTreeNode list \<Rightarrow> list_result list" where
  "filter_nodes objectsMap [] = []"
| "filter_nodes objectsMap (n # nodes) =
     (if tn_IsObject n
      then (case objectsMap (tn_ObjectID n) of
              None \<Rightarrow> filter_nodes objectsMap nodes
            | Some ob \<Rightarrow> ObjectResult (tn_FullName n) ob # filter_nodes objectsMap nodes)
      else CommonPrefix (tn_FullName n) # filter_nodes objectsMap nodes)"

definition filterObjects :: "'k list_env \<Rightarrow> Object list \<Rightarrow> SlashPrefixTreeNode list \<Rightarrow> go_error + list_result list" where
  "filterObjects env objects nodes =
     (case ln_objects_fail env of
        Some err \<Rightarrow> Inl err
      | None \<Rightarrow> Inr (filter_nodes (objects_map (map tn_ObjectID (filter tn_IsObject nodes)) objects) nodes))"

text \<open>The rows that the query selects before ordering; equality of texts is exact here, their order is that of the collation.\<close>

definition listed :: "('k :: linorder) list_env \<Rightarrow> SlashPrefixTreeNode list \<Rightarrow> string \<Rightarrow> string \<Rightarrow> string \<Rightarrow> SlashPrefixTreeNode list" where
  "listed env db bucketName continuationToken pre =
     (case processPath pre of (pathName, prefixQuery) \<Rightarrow>
        filter (\<lambda>r. tn_BucketName r = bucketName \<and> (pathName = [] \<or> tn_PathName r = pathName)
          \<and> (prefixQuery = [] \<or> ln_like env (tn_Name r) (prefixQuery @ ''%''))
          \<and> (continuationToken = [] \<or> ln_weight env continuationToken \<le> ln_weight env (tn_FullName r))) db)"

definition ListObjects :: "('k :: linorder) list_env \<Rightarrow> SlashPrefixTreeNode list \<Rightarrow> Object list \<Rightarrow> string \<Rightarrow> string \<Rightarrow> string \<Rightarrow> nat \<Rightarrow> go_error + list_result list" where
  "ListObjects env db objects bucketName continuationToken pre maxKeys =
     (case ln_nodes_fail env of
        Some err \<Rightarrow> Inl err
      | None \<Rightarrow> filterObjects env objects (take (maxKeys + 1)
          (sort_key (\<lambda>r. ln_weight env (tn_FullName r)) (listed env db bucketName continuationToken pre))))"

definition ListObjectsByBucketName :: "('k :: linorder) list_env \<Rightarrow> SlashPrefixTreeNode list \<Rightarrow> Object list \<Rightarrow> string \<Rightarrow> string \<Rightarrow> string \<Rightarrow> string \<Rightarrow> nat \<Rightarrow> bool
    \<Rightarrow> go_error + list_result list" where
  "ListObjectsByBucketName env db objects bucketName continuationToken pre delimiter maxKeys includeRemoved =
     (if delimiter \<noteq> [] then ListObjects env db objects bucketName continuationToken pre maxKeys
      else case ln_objects_fail env of
        Some err \<Rightarrow> Inl err
      | None \<Rightarrow> Inr (map (\<lambda>ob. ObjectResult [] ob) (take (maxKeys + 1) (sort_key (\<lambda>ob. ln_weight env (ob_ObjectName ob))
          (filter (\<lambda>ob. ob_BucketName ob = bucketName \<and> (includeRemoved \<or> \<not> ob_Removed ob)
             \<and> (continuationToken = [] \<or> ln_weight env continuationToken \<le> ln_weight env (ob_ObjectName ob))
             \<and> (pre = [] \<or> ln_like env (ob_ObjectName ob) (pre @ ''%''))) objects)))))"

definition ListObjectsDefaultMaxKeys :: uint64 where "ListObjectsDefaultMaxKeys = 50"
definition ListObjectsLimitSize :: uint64 where "ListObjectsLimitSize = 1000"

record list_request =
  lr_BucketName :: string
  lr_MaxKeys :: uint64
  lr_ContinuationToken :: string
  lr_Prefix :: string
  lr_Delimiter :: string
  lr_IncludeRemoved :: bool

record list_response =
  ls_Objects :: "Object list"
  ls_KeyCount :: uint64
  ls_MaxKeys :: uint64
  ls_IsTruncated :: bool
  ls_NextContinuationToken :: string
  ls_CommonPrefixes :: "string list"

definition next_token :: "string \<Rightarrow> list_result \<Rightarrow> string" where
  "next_token delimiter res = (if delimiter = [] then (case res of ObjectResult _ ob \<Rightarrow> ob_ObjectName ob | CommonPrefix _ \<Rightarrow> []) else result_path res)"

definition GfSpListObjectsByBucketName :: "('k :: linorder) list_env \<Rightarrow> SlashPrefixTreeNode list \<Rightarrow> Object list \<Rightarrow> list_request \<Rightarrow> go_error + list_response" where
  "GfSpListObjectsByBucketName env db objects req =
     (let maxKeys = (if lr_MaxKeys req = 0 then ListObjectsDefaultMaxKeys else lr_MaxKeys req);
          maxKeys = (if lr_MaxKeys req > ListObjectsLimitSize then ListObjectsLimitSize else maxKeys) in
      case ListObjectsByBucketName env db objects (lr_BucketName req) (lr_ContinuationToken req) (lr_Prefix req) (lr_Delimiter req) (unat maxKeys) (lr_IncludeRemoved req) of
        Inl err \<Rightarrow> Inl err
      | Inr results \<Rightarrow>
          let truncated = (word_of_nat (length results) = maxKeys + 1);
              page = (if truncated then butlast results else results) in
          Inr \<lparr>ls_Objects = List.map_filter (\<lambda>r. case r of ObjectResult _ ob \<Rightarrow> Some ob | CommonPrefix _ \<Rightarrow> None) page,
               ls_KeyCount = word_of_nat (length page), ls_MaxKeys = maxKeys, ls_IsTruncated = truncated,
               ls_NextContinuationToken = ln_base64 env (if truncated then next_token (lr_Delimiter req) (last results) else []),
               ls_CommonPrefixes = List.map_filter (\<lambda>r. case r of CommonPrefix p \<Rightarrow> Some p | ObjectResult _ _ \<Rightarrow> None) page\<rparr>)"

section \<open>The table as a tree\<close>

text \<open>
  The live objects of all buckets are triples of bucket, name and number. A folder is a path of names; paths of folders do not begin with the
  empty name, because the folder of the root has the path name \<open>/\<close> as well.
\<close>

type_synonym live = "(string \<times> string \<times> hash) set"

abbreviation parts :: "string \<Rightarrow> string list" where "parts n \<equiv> split_on slash n"

definition folders :: "live \<Rightarrow> string \<Rightarrow> string list set" where
  "folders L b = {ps. ps \<noteq> [] \<and> (\<exists>n i. (b, n, i) \<in> L \<and> strict_prefix ps (parts n))}"

definition tree_rows :: "live \<Rightarrow> SlashPrefixTreeNode set" where
  "tree_rows L = {object_node b n i | b n i. (b, n, i) \<in> L} \<union> {dir_node b ps | b ps. ps \<in> folders L b}"

definition valid_name :: "string \<Rightarrow> bool" where "valid_name n \<longleftrightarrow> n \<noteq> [] \<and> hd n \<noteq> slash"

definition live_ok :: "live \<Rightarrow> bool" where
  "live_ok L \<longleftrightarrow> (\<forall>b n i. (b, n, i) \<in> L \<longrightarrow> valid_name n \<and> i \<noteq> 0)
     \<and> (\<forall>b n i j. (b, n, i) \<in> L \<and> (b, n, j) \<in> L \<longrightarrow> i = j) \<and> (\<forall>b n b' n' i. (b, n, i) \<in> L \<and> (b', n', i) \<in> L \<longrightarrow> b = b' \<and> n = n')"

abbreviation never :: "tree_query \<Rightarrow> go_error option" where "never \<equiv> \<lambda>q. None"

definition good :: "string list \<Rightarrow> bool" where
  "good ps \<longleftrightarrow> (\<forall>w \<in> set ps. slash \<notin> set w) \<and> (ps \<noteq> [] \<longrightarrow> hd ps \<noteq> [])"

lemma good_dirname_inj:
  assumes "good ps" "good qs" "dirname ps = dirname qs"
  shows "ps = qs"
proof -
  have eq: "join_with [slash] ps = join_with [slash] qs" using assms(3) by (simp add: dirname_def)
  have empty: "join_with [slash] xs = [] \<longleftrightarrow> xs = []" if "good xs" for xs
    using that by (cases "([slash], xs)" rule: join_with.cases) (auto simp: good_def)
  show ?thesis
  proof (cases "ps = []")
    case True
    then show ?thesis using eq empty [OF assms(2)] by simp
  next
    case False
    then have "qs \<noteq> []" using eq empty [OF assms(1)] by auto
    moreover have "split_on slash (join_with [slash] xs) = xs" if "good xs" "xs \<noteq> []" for xs
      using that split_on_join [of xs slash] unfolding good_def by blast
    ultimately show ?thesis using False eq assms(1,2) by metis
  qed
qed

lemma good_parts: "valid_name n \<Longrightarrow> good (parts n)"
  unfolding good_def valid_name_def using split_on_pieces [of _ slash n] by (cases n) (auto split: list.splits)

lemma good_prefix: "good qs \<Longrightarrow> prefix ps qs \<Longrightarrow> good ps"
  by (auto simp: good_def prefix_def)

lemma good_butlast [simp]: "good ps \<Longrightarrow> good (butlast ps)"
  by (rule good_prefix) (auto simp: prefixeq_butlast)

lemma good_folder: "live_ok L \<Longrightarrow> ps \<in> folders L b \<Longrightarrow> good ps"
  unfolding folders_def live_ok_def by (auto dest!: good_parts intro: good_prefix simp: strict_prefix_def)

lemma live_good: "live_ok L \<Longrightarrow> (b, n, i) \<in> L \<Longrightarrow> good (parts n)"
  unfolding live_ok_def using good_parts by blast

lemma parts_inj: "parts n = parts m \<Longrightarrow> n = m"
  by (metis join_split_on)

lemma folders_closed: "ps \<in> folders L b \<Longrightarrow> prefix qs ps \<Longrightarrow> qs \<noteq> [] \<Longrightarrow> qs \<in> folders L b"
  unfolding folders_def by (auto intro: prefix_order.le_less_trans)

lemma strict_prefix_take: "k < length xs \<Longrightarrow> strict_prefix (take k xs) xs"
  by (auto simp: strict_prefix_def take_is_prefix)

lemma strict_prefixes_take: "{ps. ps \<noteq> [] \<and> strict_prefix ps xs} = {take j xs | j. 0 < j \<and> j \<le> length xs - 1}" (is "?A = ?B")
proof
  show "?A \<subseteq> ?B"
  proof
    fix ps assume "ps \<in> ?A"
    then have "ps \<noteq> []" "strict_prefix ps xs" by auto
    then have "ps = take (length ps) xs" "0 < length ps" "length ps \<le> length xs - 1"
      using prefix_length_less [of ps xs] by (auto simp: strict_prefix_def prefix_def)
    then show "ps \<in> ?B" by blast
  qed
  show "?B \<subseteq> ?A" by (auto simp: strict_prefix_def take_is_prefix)
qed

lemma rows_path [simp]:
  "tn_PathName (dir_node b ps) = dirname (butlast ps)" "tn_PathName (object_node b n i) = dirname (butlast (parts n))"
  "tn_FullName (dir_node b ps) = dirname ps" "tn_FullName (object_node b n i) = n" "tn_IsObject (dir_node b ps) = False"
  "tn_IsObject (object_node b n i) = True" "tn_BucketName (dir_node b ps) = b" "tn_BucketName (object_node b n i) = b"
  "tn_ObjectID (dir_node b ps) = 0" "tn_ObjectID (object_node b n i) = i"
  by (simp_all add: dir_node_def object_node_def Let_def)

lemma dir_node_inj: "good ps \<Longrightarrow> good qs \<Longrightarrow> dir_node b ps = dir_node c qs \<longleftrightarrow> b = c \<and> ps = qs"
  using good_dirname_inj rows_path(3,7) by metis

lemma object_node_inj: "object_node b n i = object_node c m j \<longleftrightarrow> b = c \<and> n = m \<and> i = j"
  using rows_path(4,8,10) by metis

lemma node_kinds [simp]: "object_node b n i \<noteq> dir_node c ps" "dir_node c ps \<noteq> object_node b n i"
  using rows_path(5,6) by metis+

definition tree_of :: "live \<Rightarrow> SlashPrefixTreeNode list \<Rightarrow> bool" where
  "tree_of L db \<longleftrightarrow> live_ok L \<and> distinct db \<and> set db = tree_rows L"

lemma GetPrefixTree_folder:
  assumes "tree_of L db" "good ps"
  shows "(\<exists>r. GetPrefixTree never db (dirname ps) b = Inr (Some r)) \<longleftrightarrow> ps \<in> folders L b"
    "GetPrefixTree never db (dirname ps) b = Inr None \<longleftrightarrow> ps \<notin> folders L b"
proof -
  have "(\<exists>r \<in> set db. tn_FullName r = dirname ps \<and> tn_BucketName r = b \<and> \<not> tn_IsObject r) \<longleftrightarrow> ps \<in> folders L b" (is "?l \<longleftrightarrow> _")
  proof
    assume ?l
    then obtain qs where "qs \<in> folders L b" "dirname qs = dirname ps" using assms(1) unfolding tree_of_def tree_rows_def by auto
    then show "ps \<in> folders L b" using good_dirname_inj [OF _ assms(2)] good_folder assms(1) unfolding tree_of_def by metis
  next
    assume "ps \<in> folders L b"
    then have "dir_node b ps \<in> set db" using assms(1) unfolding tree_of_def tree_rows_def by blast
    then show ?l by (rule bexI [rotated]) simp
  qed
  then show "(\<exists>r. GetPrefixTree never db (dirname ps) b = Inr (Some r)) \<longleftrightarrow> ps \<in> folders L b"
    "GetPrefixTree never db (dirname ps) b = Inr None \<longleftrightarrow> ps \<notin> folders L b"
    unfolding GetPrefixTree_def tree_call_def
    by (cases "find (\<lambda>r. tn_FullName r = dirname ps \<and> tn_BucketName r = b \<and> \<not> tn_IsObject r) db"; force simp: find_None_iff find_Some_iff)+
qed

subsection \<open>Creating an object\<close>

lemma create_dirs_missing:
  assumes "tree_of L db" "good ps" "i < length ps"
  shows "\<exists>ns. create_dirs never db b ps i = Inr ns \<and> distinct ns
    \<and> set ns = dir_node b ` {take j ps | j. 0 < j \<and> j \<le> i \<and> take j ps \<notin> folders L b}"
  using assms(3)
proof (induction i)
  case (Suc i)
  have good: "good (take j ps)" for j using good_prefix [OF assms(2) take_is_prefix] .
  show ?case
  proof (cases "take (Suc i) ps \<in> folders L b")
    case True
    have "take j ps \<in> folders L b" if "0 < j" "j \<le> Suc i" for j
    proof (rule folders_closed [OF True])
      show "prefix (take j ps) (take (Suc i) ps)" using that(2) by (metis min.absorb1 take_is_prefix take_take)
      show "take j ps \<noteq> []" using that(1) Suc.prems by auto
    qed
    moreover obtain r where "GetPrefixTree never db (dirname (take (Suc i) ps)) b = Inr (Some r)"
      using GetPrefixTree_folder(1) [OF assms(1) good] True by blast
    ultimately show ?thesis by auto
  next
    case False
    obtain ns where ns: "create_dirs never db b ps i = Inr ns" "distinct ns"
      "set ns = dir_node b ` {take j ps | j. 0 < j \<and> j \<le> i \<and> take j ps \<notin> folders L b}" using Suc by auto
    have "dir_node b (take (Suc i) ps) \<notin> set ns"
    proof
      assume "dir_node b (take (Suc i) ps) \<in> set ns"
      then obtain j where "dir_node b (take (Suc i) ps) = dir_node b (take j ps)" "j \<le> i" unfolding ns(3) by auto
      then have "take (Suc i) ps = take j ps" using dir_node_inj [OF good good] by metis
      then have "length (take (Suc i) ps) = length (take j ps)" by simp
      then show False using Suc.prems \<open>j \<le> i\<close> by simp
    qed
    moreover have "create_dirs never db b ps (Suc i) = Inr (dir_node b (take (Suc i) ps) # ns)"
      using GetPrefixTree_folder(2) [OF assms(1) good, THEN iffD2, OF False] ns(1) by simp
    moreover have "{take j ps | j. 0 < j \<and> j \<le> Suc i \<and> take j ps \<notin> folders L b}
        = insert (take (Suc i) ps) {take j ps | j. 0 < j \<and> j \<le> i \<and> take j ps \<notin> folders L b}"
      using False by (auto simp: le_Suc_eq)
    ultimately show ?thesis using ns(2,3) by auto
  qed
qed simp

lemma folders_insert: "folders (insert (b, n, i) L) c = folders L c \<union> (if c = b then {ps. ps \<noteq> [] \<and> strict_prefix ps (parts n)} else {})"
  by (auto simp: folders_def)

lemma create_keeps_tree:
  assumes "tree_of L db" "valid_name n" "\<And>j. (b, n, j) \<notin> L" "i \<noteq> 0" "\<And>c m. (c, m, i) \<notin> L"
  shows "\<exists>db'. handleCreateObject never b n i db = (None, db') \<and> tree_of (insert (b, n, i) L) db'"
proof -
  let ?ps = "parts n"
  have ps: "good ?ps" "length ?ps - 1 < length ?ps" using good_parts [OF assms(2)] by simp_all
  obtain ns where ns: "create_dirs never db b ?ps (length ?ps - 1) = Inr ns" "distinct ns"
    "set ns = dir_node b ` {take j ?ps | j. 0 < j \<and> j \<le> length ?ps - 1 \<and> take j ?ps \<notin> folders L b}"
    using create_dirs_missing [OF assms(1) ps] by blast
  have "{take j ?ps | j. 0 < j \<and> j \<le> length ?ps - 1 \<and> take j ?ps \<notin> folders L b} = {ps. ps \<noteq> [] \<and> strict_prefix ps ?ps} - folders L b"
    unfolding strict_prefixes_take by auto
  then have ns3: "set ns = dir_node b ` ({ps. ps \<noteq> [] \<and> strict_prefix ps ?ps} - folders L b)" using ns(3) by simp
  have rows: "set db = tree_rows L" "distinct db" and ok: "live_ok L" using assms(1) by (simp_all add: tree_of_def)
  have ok': "live_ok (insert (b, n, i) L)" using ok assms(2-5) unfolding live_ok_def by (auto; metis)
  have "find (\<lambda>r. tn_ObjectID r = i) db = None" using assms(4,5) rows(1) by (auto simp: find_None_iff tree_rows_def)
  then have run: "handleCreateObject never b n i db = (None, db @ ns @ [object_node b n i])"
    using ns(1) by (simp add: handleCreateObject_def GetPrefixTreeObject_def tree_call_def CreatePrefixTree_def)
  have "set (db @ ns @ [object_node b n i]) = tree_rows (insert (b, n, i) L)"
    unfolding set_append ns3 rows(1) tree_rows_def folders_insert by auto
  moreover have "object_node b n i \<notin> set db" using assms(3) rows(1) by (auto simp: tree_rows_def object_node_inj)
  moreover have "set db \<inter> set ns = {}"
  proof -
    have "dir_node b ps \<noteq> dir_node c qs" if "qs \<in> folders L c" "ps \<notin> folders L b" "strict_prefix ps ?ps" for ps c qs
      using that dir_node_inj [OF good_prefix [OF ps(1)] good_folder [OF ok that(1)], of ps b c] by (auto simp: strict_prefix_def)
    then show ?thesis unfolding rows(1) ns3 tree_rows_def by auto
  qed
  moreover have "object_node b n i \<notin> set ns" unfolding ns3 by auto
  ultimately show ?thesis using run ok' ns(2) rows(2) by (auto simp: tree_of_def)
qed

lemma create_again:
  assumes "tree_of L db" "(b, n, i) \<in> L"
  shows "handleCreateObject never b n i db = (None, db)"
proof -
  let ?ps = "parts n"
  have ok: "live_ok L" and rows: "set db = tree_rows L" using assms(1) by (simp_all add: tree_of_def)
  have "object_node b n i \<in> set db" using assms(2) unfolding rows tree_rows_def by blast
  then obtain r where r: "find (\<lambda>r. tn_ObjectID r = i) db = Some r"
    by (cases "find (\<lambda>r. tn_ObjectID r = i) db") (auto simp: find_None_iff)
  have good: "good ?ps" using live_good [OF ok assms(2)] .
  obtain ns where ns: "create_dirs never db b ?ps (length ?ps - 1) = Inr ns"
    "set ns = dir_node b ` {take j ?ps | j. 0 < j \<and> j \<le> length ?ps - 1 \<and> take j ?ps \<notin> folders L b}"
    using create_dirs_missing [OF assms(1) good, of "length ?ps - 1" b] by auto
  have "take j ?ps \<in> folders L b" if "0 < j" "j \<le> length ?ps - 1" for j
    using that assms(2) strict_prefixes_take [of ?ps] unfolding folders_def by blast
  then have "{take j ?ps | j. 0 < j \<and> j \<le> length ?ps - 1 \<and> take j ?ps \<notin> folders L b} = {}" by blast
  then have "set ns = {}" using ns(2) by (simp only: image_empty)
  then have "ns = []" by simp
  then show ?thesis using ns(1) r by (simp add: handleCreateObject_def GetPrefixTreeObject_def tree_call_def)
qed

subsection \<open>Deleting an object\<close>

text \<open>No other live object of the bucket lies below the folder.\<close>

definition alone :: "live \<Rightarrow> string \<Rightarrow> string \<Rightarrow> string list \<Rightarrow> bool" where
  "alone L b n ps \<longleftrightarrow> (\<forall>m i. (b, m, i) \<in> L \<and> strict_prefix ps (parts m) \<longrightarrow> m = n)"

lemma alone_longer: "alone L b n ps \<Longrightarrow> prefix ps qs \<Longrightarrow> alone L b n qs"
  unfolding alone_def using prefix_order.le_less_trans by blast

lemma distinct_at_most_one: "distinct xs \<Longrightarrow> length xs \<le> 1 \<longleftrightarrow> (\<forall>x \<in> set xs. \<forall>y \<in> set xs. x = y)"
  by (cases xs; cases "tl xs") auto

text \<open>The entry of a folder that leads to an object below it.\<close>

definition entry :: "string \<Rightarrow> string \<Rightarrow> hash \<Rightarrow> nat \<Rightarrow> SlashPrefixTreeNode" where
  "entry b n i k = (if Suc k < length (parts n) then dir_node b (take (Suc k) (parts n)) else object_node b n i)"

lemma entry_row:
  assumes "(b, n, i) \<in> L" "k < length (parts n)"
  shows "entry b n i k \<in> tree_rows L" "tn_BucketName (entry b n i k) = b" "tn_PathName (entry b n i k) = dirname (take k (parts n))"
proof -
  have "take (Suc k) (parts n) \<in> folders L b" if "Suc k < length (parts n)"
    using assms(1) strict_prefix_take [OF that] unfolding folders_def by fastforce
  then show "entry b n i k \<in> tree_rows L" using assms(1) unfolding entry_def tree_rows_def by auto
  show "tn_BucketName (entry b n i k) = b" by (simp add: entry_def)
  show "tn_PathName (entry b n i k) = dirname (take k (parts n))"
    using assms(2) by (auto simp: entry_def butlast_take butlast_conv_take min_def le_Suc_eq not_less)
qed

lemma row_is_entry:
  assumes "live_ok L" "r \<in> tree_rows L" "tn_BucketName r = b" "tn_PathName r = dirname ps" "good ps"
  shows "\<exists>n i. (b, n, i) \<in> L \<and> strict_prefix ps (parts n) \<and> r = entry b n i (length ps)"
  using assms(2) unfolding tree_rows_def
proof
  assume "r \<in> {object_node b n i | b n i. (b, n, i) \<in> L}"
  then obtain n i where r: "r = object_node b n i" "(b, n, i) \<in> L" using assms(3) by auto
  then have ps: "butlast (parts n) = ps" using assms(4,5) good_dirname_inj [OF good_butlast [OF live_good [OF assms(1) r(2)]]] by simp
  then have "parts n = ps @ [last (parts n)]" by (metis append_butlast_last_id split_on_nonempty)
  then have "strict_prefix ps (parts n)" "length (parts n) = Suc (length ps)" by (metis strict_prefixI' append_Nil2, metis length_append_singleton)
  then show ?thesis using r by (intro exI [of _ n] exI [of _ i]) (simp add: entry_def)
next
  assume "r \<in> {dir_node b ps | b ps. ps \<in> folders L b}"
  then obtain qs where r: "r = dir_node b qs" "qs \<in> folders L b" using assms(3) by auto
  then obtain n i where n: "qs \<noteq> []" "(b, n, i) \<in> L" "strict_prefix qs (parts n)" unfolding folders_def by blast
  have "butlast qs = ps" using assms(4,5) r(1) good_dirname_inj [OF good_butlast [OF good_folder [OF assms(1) r(2)]]] by simp
  then have "length qs = Suc (length ps)" "prefix ps qs" using n(1) prefixeq_butlast [of qs] by (auto simp: Suc_le_eq)
  moreover have "qs = take (length qs) (parts n)" "length qs < length (parts n)"
    using n(3) prefix_length_less [OF n(3)] by (auto simp: strict_prefix_def prefix_def)
  ultimately show ?thesis using r(1) n(2,3) prefix_order.le_less_trans [of ps qs] by (auto simp: entry_def)
qed

lemma count_alone:
  assumes "tree_of L db" "(b, n, i) \<in> L" "0 < k" "k < length (parts n)" "Suc k < length (parts n) \<Longrightarrow> alone L b n (take (Suc k) (parts n))"
  shows "length (filter (\<lambda>r. tn_BucketName r = b \<and> tn_PathName r = dirname (take k (parts n))) db) \<le> 1 \<longleftrightarrow> alone L b n (take k (parts n))"
proof -
  let ?ps = "take k (parts n)"
  let ?R = "{r \<in> tree_rows L. tn_BucketName r = b \<and> tn_PathName r = dirname ?ps}"
  have ok: "live_ok L" and rows: "set db = tree_rows L" "distinct db" using assms(1) by (simp_all add: tree_of_def)
  have good: "good ?ps" using good_prefix [OF live_good [OF ok assms(2)] take_is_prefix] .
  have len: "length ?ps = k" using assms(4) by simp
  have mine: "entry b n i k \<in> ?R" using entry_row [OF assms(2,4)] by simp
  have "(\<forall>x \<in> ?R. \<forall>y \<in> ?R. x = y) \<longleftrightarrow> alone L b n ?ps"
  proof
    assume one: "\<forall>x \<in> ?R. \<forall>y \<in> ?R. x = y"
    show "alone L b n ?ps" unfolding alone_def
    proof (intro allI impI)
      fix m j assume m: "(b, m, j) \<in> L \<and> strict_prefix ?ps (parts m)"
      then have km: "k < length (parts m)" "take k (parts m) = ?ps"
        using prefix_length_less [of ?ps "parts m"] len by (auto simp: strict_prefix_def prefix_def)
      then have "entry b m j k = entry b n i k" using one mine entry_row [of b m j L k] m by auto
      then show "m = n" using km(1) assms(5) m dir_node_inj good_prefix [OF live_good [OF ok] take_is_prefix] assms(2)
          strict_prefix_take [of "Suc k" "parts m"]
        by (auto simp: entry_def object_node_inj alone_def split: if_splits)
    qed
  next
    assume al: "alone L b n ?ps"
    have single: "x = entry b n i k" if x: "x \<in> ?R" for x
    proof -
      obtain m j where "(b, m, j) \<in> L" "strict_prefix ?ps (parts m)" "x = entry b m j k"
        using row_is_entry [OF ok _ _ _ good, of x b] x len by auto
      moreover from this(1,2) have "m = n" using al unfolding alone_def by blast
      moreover have "i = j" if "(b, n, j) \<in> L" for j using ok assms(2) that unfolding live_ok_def by blast
      ultimately show ?thesis by auto
    qed
    show "\<forall>x \<in> ?R. \<forall>y \<in> ?R. x = y"
    proof (intro ballI)
      fix x y assume "x \<in> ?R" "y \<in> ?R"
      from single [OF this(1)] single [OF this(2)] show "x = y" by simp
    qed
  qed
  then show ?thesis using distinct_at_most_one [of "filter (\<lambda>r. tn_BucketName r = b \<and> tn_PathName r = dirname ?ps) db"] rows by simp
qed

lemma empty_dirs_alone:
  assumes "tree_of L db" "(b, n, i) \<in> L" "k < length (parts n)" "Suc k < length (parts n) \<Longrightarrow> alone L b n (take (Suc k) (parts n))"
  shows "\<exists>ns. empty_dirs never db b (parts n) k = Inr ns
    \<and> set ns = (\<lambda>ps. key_node b (dirname ps) False) ` {take j (parts n) | j. 0 < j \<and> j \<le> k \<and> alone L b n (take j (parts n))}"
  using assms(3,4)
proof (induction k)
  case (Suc k)
  let ?P = "\<lambda>k. {take j (parts n) | j. 0 < j \<and> j \<le> k \<and> alone L b n (take j (parts n))}"
  note count = count_alone [OF assms(1,2) _ Suc.prems(1) Suc.prems(2), simplified]
  show ?case
  proof (cases "alone L b n (take (Suc k) (parts n))")
    case True
    then obtain ns where ns: "empty_dirs never db b (parts n) k = Inr ns" "set ns = (\<lambda>ps. key_node b (dirname ps) False) ` ?P k"
      using Suc by auto
    have "?P (Suc k) = insert (take (Suc k) (parts n)) (?P k)" using True by (auto simp: le_Suc_eq)
    then show ?thesis using ns True count by (simp add: GetPrefixTreeCount_def tree_call_def Let_def)
  next
    case False
    have "\<not> alone L b n (take j (parts n))" if "j \<le> Suc k" for j
      using alone_longer [of L b n "take j (parts n)" "take (Suc k) (parts n)"] False that by (metis min.absorb1 take_is_prefix take_take)
    then have "?P (Suc k) = {}" by blast
    then show ?thesis using False count by (simp add: GetPrefixTreeCount_def tree_call_def Let_def)
  qed
qed simp

lemma folders_remove:
  assumes "(b, n, i) \<in> L" "\<And>j. (b, n, j) \<in> L \<Longrightarrow> j = i"
  shows "folders (L - {(b, n, i)}) c = (if c = b then folders L b - {ps. ps \<noteq> [] \<and> strict_prefix ps (parts n) \<and> alone L b n ps} else folders L c)"
proof (cases "c = b")
  case True
  have "(\<exists>m j. (b, m, j) \<in> L - {(b, n, i)} \<and> strict_prefix ps (parts m))
      \<longleftrightarrow> (\<exists>m j. (b, m, j) \<in> L \<and> strict_prefix ps (parts m)) \<and> \<not> (strict_prefix ps (parts n) \<and> alone L b n ps)" (is "?l \<longleftrightarrow> ?r") for ps
  proof
    assume ?l
    then obtain m j where "(b, m, j) \<in> L" "strict_prefix ps (parts m)" "m \<noteq> n" using assms(2) by blast
    then show ?r unfolding alone_def by blast
  next
    assume r: ?r
    show ?l
    proof (cases "strict_prefix ps (parts n)")
      case True
      then obtain m j where "(b, m, j) \<in> L" "strict_prefix ps (parts m)" "m \<noteq> n" using r unfolding alone_def by blast
      then show ?l by blast
    next
      case False
      then show ?l using r by blast
    qed
  qed
  then show ?thesis using True unfolding folders_def by auto
qed (auto simp: folders_def)

lemma delete_keeps_tree:
  assumes "tree_of L db" "(b, n, i) \<in> L"
  shows "\<exists>db'. deleteObject never n b db = (None, db') \<and> tree_of (L - {(b, n, i)}) db'"
proof -
  let ?ps = "parts n" and ?L = "L - {(b, n, i)}"
  let ?E = "{ps. ps \<noteq> [] \<and> strict_prefix ps ?ps \<and> alone L b n ps}"
  have ok: "live_ok L" and rows: "set db = tree_rows L" "distinct db" using assms(1) by (simp_all add: tree_of_def)
  have same: "j = i" if "(b, n, j) \<in> L" for j using ok that assms(2) unfolding live_ok_def by blast
  obtain ns where ns: "empty_dirs never db b ?ps (length ?ps - 1) = Inr ns" "set ns = (\<lambda>ps. key_node b (dirname ps) False) `
      {take j ?ps | j. 0 < j \<and> j \<le> length ?ps - 1 \<and> alone L b n (take j ?ps)}"
    using empty_dirs_alone [OF assms, of "length ?ps - 1"] by auto
  have "{take j ?ps | j. 0 < j \<and> j \<le> length ?ps - 1 \<and> alone L b n (take j ?ps)} = {ps. ps \<noteq> [] \<and> strict_prefix ps ?ps} \<inter> Collect (alone L b n)"
    unfolding strict_prefixes_take by auto
  also have "\<dots> = ?E" by blast
  finally have ns2: "set ns = (\<lambda>ps. key_node b (dirname ps) False) ` ?E" using ns(2) by simp
  let ?gone = "\<lambda>r. tn_BucketName r = b \<and> (tn_IsObject r \<and> tn_FullName r = n \<or> \<not> tn_IsObject r \<and> tn_FullName r \<in> dirname ` ?E)"
  have run: "deleteObject never n b db = (None, filter (\<lambda>r. \<not> ?gone r) db)"
    unfolding deleteObject_def Let_def ns(1) DeletePrefixTree_def
    by (auto simp: list_ex_iff ns2 key_node_def intro!: filter_cong)
  have goodE: "good ps" if "ps \<in> ?E" for ps using that good_prefix [OF live_good [OF ok assms(2)]] by (auto simp: strict_prefix_def)
  have dirs: "dir_node c ps \<in> {r. \<not> ?gone r} \<longleftrightarrow> c \<noteq> b \<or> ps \<notin> ?E" if "good ps" for c ps
    using good_dirname_inj [OF that goodE] by auto
  have folders: "folders ?L c = (if c = b then folders L b - ?E else folders L c)" for c
    by (rule folders_remove [OF assms(2) same])
  define stays where "stays r \<longleftrightarrow> \<not> ?gone r" for r :: SlashPrefixTreeNode
  have obj: "stays (object_node c m j) \<longleftrightarrow> (c, m, j) \<in> ?L" if "(c, m, j) \<in> L" for c m j
    using that same unfolding stays_def by auto
  have dir: "stays (dir_node c ps) \<longleftrightarrow> ps \<in> folders ?L c" if "ps \<in> folders L c" for c ps
    using that dirs [OF good_folder [OF ok that], of c] unfolding stays_def folders by auto
  have sub: "?L \<subseteq> L" "folders ?L c \<subseteq> folders L c" for c unfolding folders by auto
  have "{r \<in> tree_rows L. stays r} = tree_rows ?L"
    unfolding tree_rows_def using obj dir sub by blast
  then have "{r \<in> tree_rows L. \<not> ?gone r} = tree_rows ?L" unfolding stays_def .
  moreover have "live_ok ?L" using ok unfolding live_ok_def by blast
  ultimately show ?thesis using run rows by (simp add: tree_of_def)
qed

subsection \<open>Sequences of events\<close>

text \<open>
  The states of the chain and of the table: objects are created with a new name and number and deleted, canceled or rejected
  while they live. The creation of an object can be handled again as long as the object lives; the end of an object is
  handled once (see \<open>repeated_delete_loses_folder\<close> below for what happens otherwise).
\<close>

inductive syncs :: "live \<Rightarrow> SlashPrefixTreeNode list \<Rightarrow> bool" where
  start: "syncs {} []"
| create: "syncs L db \<Longrightarrow> valid_name n \<Longrightarrow> \<forall>j. (b, n, j) \<notin> L \<Longrightarrow> i \<noteq> 0 \<Longrightarrow> \<forall>c m. (c, m, i) \<notin> L
    \<Longrightarrow> tree_HandleEvent never (EventCreateObject b n i) db = (err, db') \<Longrightarrow> syncs (insert (b, n, i) L) db'"
| again: "syncs L db \<Longrightarrow> (b, n, i) \<in> L \<Longrightarrow> tree_HandleEvent never (EventCreateObject b n i) db = (err, db') \<Longrightarrow> syncs L db'"
| delete: "syncs L db \<Longrightarrow> (b, n, i) \<in> L \<Longrightarrow> ev \<in> {EventDeleteObject b n, EventCancelCreateObject b n, EventRejectSealObject b n}
    \<Longrightarrow> tree_HandleEvent never ev db = (err, db') \<Longrightarrow> syncs (L - {(b, n, i)}) db'"

lemma syncs_tree: "syncs L db \<Longrightarrow> tree_of L db"
proof (induction rule: syncs.induct)
  case start
  show ?case by (simp add: tree_of_def live_ok_def tree_rows_def folders_def)
next
  case (create L db n b i err db')
  then show ?case using create_keeps_tree [of L db n b i] by auto
next
  case (again L db b n i err db')
  then show ?case using create_again [of L db b n i] by auto
next
  case (delete L db b n i ev err db')
  then show ?case using delete_keeps_tree [of L db b n i] by auto
qed

text \<open>
  C7. The table of folders is exactly the tree of the live objects: after a sequence of creations, deletions, cancellations and
  rejections, in any number of buckets, it has one row for every live object and one for every folder on the path of a live
  object, each once, and no other row. The names of the objects are not empty and do not begin with a slash, the end of an object is handled once,
  while its creation may be handled again, no call of the database fails, and the database compares texts exactly.
\<close>

theorem prefix_tree_exact:
  assumes "syncs L db"
  shows "distinct db \<and> set db = {object_node b n i | b n i. (b, n, i) \<in> L}
    \<union> {dir_node b ps | b ps. ps \<noteq> [] \<and> (\<exists>n i. (b, n, i) \<in> L \<and> strict_prefix ps (split_on slash n))}"
  using syncs_tree [OF assms] by (simp add: tree_of_def tree_rows_def folders_def)

text \<open>
  The name of a folder can be its own parent: an object whose name begins with a slash makes the row of a folder \<open>/\<close> that
  counts as an entry of itself, so that it stays when the object is deleted.
\<close>

theorem leading_slash_folder_stays:
  assumes "slash \<notin> set w" "i \<noteq> 0" "handleCreateObject never b (slash # w) i [] = (err, db)"
  shows "deleteObject never (slash # w) b db = (None, [dir_node b [[]]])"
proof -
  have p: "parts (slash # w) = [[], w]" using split_on_no_sep [OF assms(1)] by simp
  then have "db = [dir_node b [[]], object_node b (slash # w) i]"
    using assms(3) by (simp add: handleCreateObject_def GetPrefixTree_def GetPrefixTreeObject_def tree_call_def CreatePrefixTree_def)
  then show ?thesis
    using p by (simp add: deleteObject_def GetPrefixTreeCount_def tree_call_def DeletePrefixTree_def key_node_def dirname_def)
qed

text \<open>
  The end of an object must not be handled again: the block syncer takes the last exported block for unprocessed when it starts again, and the count of
  entries of a folder does not ask whether the object is one of them. If the folder has one other object, its row is deleted although the object lives.
\<close>

lemma repeated_delete_loses_folder:
  assumes "handleCreateObject never b ''a/x'' 1 [] = (err, db1)" "handleCreateObject never b ''a/y'' 2 db1 = (err', db2)"
    and "deleteObject never ''a/y'' b db2 = (err'', db3)"
  shows "syncs {(b, ''a/x'', 1)} db3 \<and> set db3 = {dir_node b [''a''], object_node b ''a/x'' 1}
    \<and> deleteObject never ''a/y'' b db3 = (None, [object_node b ''a/x'' 1])"
proof -
  have "syncs (insert (b, ''a/y'', 2) {(b, ''a/x'', 1)} - {(b, ''a/y'', 2)}) db3"
    using assms by (intro syncs.delete [OF syncs.create [OF syncs.create [OF syncs.start]]]) (auto simp: valid_name_def)
  moreover have "db1 = [dir_node b [''a''], object_node b ''a/x'' 1]"
    using assms(1) by (simp add: handleCreateObject_def GetPrefixTree_def GetPrefixTreeObject_def tree_call_def CreatePrefixTree_def)
  moreover from this have "db2 = db1 @ [object_node b ''a/y'' 2]"
    using assms(2) by (simp add: handleCreateObject_def GetPrefixTree_def GetPrefixTreeObject_def tree_call_def CreatePrefixTree_def dirname_def)
  ultimately show ?thesis
    using assms(3) by (auto simp: deleteObject_def GetPrefixTreeCount_def tree_call_def DeletePrefixTree_def key_node_def dirname_def)
qed

section \<open>Pages of a listing\<close>







text \<open>The rows of a listing in their order.\<close>

definition entries :: "('k :: linorder) list_env \<Rightarrow> SlashPrefixTreeNode list \<Rightarrow> string \<Rightarrow> string \<Rightarrow> string \<Rightarrow> SlashPrefixTreeNode list" where
  "entries env db bucketName token pre = sort_key (\<lambda>r. ln_weight env (tn_FullName r)) (listed env db bucketName token pre)"




text \<open>If the collation takes the names of the entries for the same, it is the whole listing again: following the tokens does not end.\<close>

lemma equal_weights_repeat_listing:
  assumes "\<And>r. r \<in> set (listed env db b token pre) \<Longrightarrow> ln_weight env (tn_FullName r) = w" "k < length (entries env db b token pre)"
    and "tn_FullName (entries env db b token pre ! k) \<noteq> []" "token = []"
  shows "entries env db b (tn_FullName (entries env db b token pre ! k)) pre = entries env db b token pre"
proof -
  let ?t = "tn_FullName (entries env db b token pre ! k)"
  have "entries env db b token pre ! k \<in> set (listed env db b token pre)" using nth_mem [OF assms(2)] by (simp add: entries_def)
  then have "ln_weight env ?t = w" by (rule assms(1))
  then have "listed env db b ?t pre = listed env db b token pre"
    using assms(1,4) by (auto simp: listed_def case_prod_unfold intro!: filter_cong)
  then show ?thesis by (simp add: entries_def)
qed





lemma list_response:
  assumes "ListObjectsByBucketName env db objects (lr_BucketName req) (lr_ContinuationToken req) (lr_Prefix req) (lr_Delimiter req) k (lr_IncludeRemoved req) = Inr res"
    "0 < lr_MaxKeys req" "lr_MaxKeys req \<le> 1000" "unat (lr_MaxKeys req) = k" "word_of_nat (length res) = lr_MaxKeys req + 1 \<longleftrightarrow> full"
    "(if full then butlast res else res) = page"
  shows "\<exists>resp. GfSpListObjectsByBucketName env db objects req = Inr resp \<and> (ls_IsTruncated resp \<longleftrightarrow> full)
    \<and> ls_NextContinuationToken resp = ln_base64 env (if full then next_token (lr_Delimiter req) (last res) else []) \<and> ls_KeyCount resp = word_of_nat (length page)
    \<and> ls_Objects resp = List.map_filter (\<lambda>r. case r of ObjectResult _ ob \<Rightarrow> Some ob | CommonPrefix _ \<Rightarrow> None) page
    \<and> ls_CommonPrefixes resp = List.map_filter (\<lambda>r. case r of CommonPrefix p \<Rightarrow> Some p | ObjectResult _ _ \<Rightarrow> None) page"
proof -
  have max: "\<not> ListObjectsLimitSize < lr_MaxKeys req" "lr_MaxKeys req \<noteq> 0" using assms(2,3) by (auto simp: ListObjectsLimitSize_def)
  then show ?thesis
    unfolding GfSpListObjectsByBucketName_def Let_def assms(5) if_not_P [OF max(1)] if_not_P [OF max(2)] assms(4) assms(1) by (simp add: assms(5,6))
qed



section \<open>The theorems at work\<close>

definition demo_tree :: "SlashPrefixTreeNode list" where
  "demo_tree = [dir_node ''photos'' [''a''], object_node ''photos'' ''a/x'' 1, object_node ''photos'' ''y'' 2]"

definition demo_live :: live where "demo_live = {(''photos'', ''y'', 2), (''photos'', ''a/x'', 1)}"

lemma demo_syncs: "syncs demo_live demo_tree"
proof -
  have "tree_HandleEvent never (EventCreateObject ''photos'' ''a/x'' 1) [] = (None, [dir_node ''photos'' [''a''], object_node ''photos'' ''a/x'' 1])"
    "tree_HandleEvent never (EventCreateObject ''photos'' ''y'' 2) [dir_node ''photos'' [''a''], object_node ''photos'' ''a/x'' 1] = (None, demo_tree)"
    by (simp_all add: handleCreateObject_def GetPrefixTree_def GetPrefixTreeObject_def tree_call_def CreatePrefixTree_def demo_tree_def)
  then show ?thesis
    unfolding demo_live_def by (intro syncs.create [OF syncs.create [OF syncs.start]]) (auto simp: valid_name_def)
qed



abbreviation "demo_listing \<equiv> \<lparr>lr_BucketName = ''photos'', lr_MaxKeys = 1, lr_ContinuationToken = [], lr_Prefix = [], lr_Delimiter = ''/'', lr_IncludeRemoved = False\<rparr>"

theorem prefix_tree_exact_witness:
  "distinct demo_tree \<and> set demo_tree = {object_node b n i | b n i. (b, n, i) \<in> demo_live}
     \<union> {dir_node b ps | b ps. ps \<noteq> [] \<and> (\<exists>n i. (b, n, i) \<in> demo_live \<and> strict_prefix ps (split_on slash n))}"
  by (rule prefix_tree_exact [OF demo_syncs])

theorem leading_slash_folder_stays_witness:
  "\<exists>db. handleCreateObject never ''photos'' ''/x'' 1 [] = (None, db) \<and> deleteObject never ''/x'' ''photos'' db = (None, [dir_node ''photos'' [[]]])"
proof -
  have "fst (handleCreateObject never ''photos'' ''/x'' 1 []) = None"
    by (simp add: handleCreateObject_def GetPrefixTree_def GetPrefixTreeObject_def tree_call_def CreatePrefixTree_def)
  then obtain db where db: "handleCreateObject never ''photos'' ''/x'' 1 [] = (None, db)" by (metis prod.collapse)
  then show ?thesis using leading_slash_folder_stays [of "''x''" 1 "''photos''" None db] by simp
qed


end
