(* ===== verification/Signer.thy ===== *)
theory Signer
  imports Services Authenticator
begin

text \<open>
  The signer, which keeps the keys of the provider: \<open>modular/signer/signer_client.go\<close> (the accounts, transactions and their nonces),
  \<open>signer.go\<close>, its service \<open>base/gfspapp/sign_server.go\<close> and its client \<open>base/gfspclient/signer.go\<close>.

  The SDK of the chain is an argument: key managers, signatures, and the client of an account, whose calls read and change the world
  \<open>'w\<close>. Waiting for a block may take forever: operations that wait return \<open>None\<close> then. The mutexes of the client
  serialise transactions, so an operation is one step of the state.
\<close>

section \<open>Accounts and messages\<close>

datatype SignType = SignOperator | SignFunding | SignSeal | SignApproval | SignGc
datatype GasInfoType = Seal | RejectSeal | GasDiscontinueBucket

record GasInfo =
  gi_GasLimit :: uint64
  gi_FeeAmount :: "(string \<times> int) list"

datatype BroadcastMode = BROADCAST_MODE_UNSPECIFIED | BROADCAST_MODE_BLOCK | BROADCAST_MODE_SYNC | BROADCAST_MODE_ASYNC

record TxOption =
  tx_NoSimulate :: bool
  tx_Mode :: BroadcastMode
  tx_GasLimit :: uint64
  tx_FeeAmount :: "(string \<times> int) list"
  tx_Nonce :: uint64

text \<open>Messages of transactions, as the SDK builds them, with the address of the sender first.\<close>

datatype sdk_msg =
    NewMsgSealObject bytes string string "bytes list" "bytes list"
  | NewMsgRejectUnsealedObject bytes string string
  | NewMsgDiscontinueBucket bytes string string

record MsgRejectSealObject =
  mrs_BucketName :: string
  mrs_ObjectName :: string

record MsgDiscontinueBucket =
  mdb_BucketName :: string
  mdb_Reason :: string

record GfSpPing =
  pi_SpOperatorAddress :: string
  pi_Signature :: bytes

record GfSpPong =
  po_Nodes :: "(string \<times> string list) list"
  po_SpOperatorAddress :: string
  po_Signature :: bytes

text \<open>The SDK. A broadcast answers with a response code and the hash of the transaction; \<open>ck_Done\<close> is the choice between the end of the context and the next tick.\<close>

record ('k, 'c, 'w) chain_sdk =
  ck_NewPrivateKeyManager :: "string \<Rightarrow> go_error + 'k"
  ck_NewGreenfieldClient :: "string \<Rightarrow> string \<Rightarrow> 'k \<Rightarrow> go_error + 'c"
  ck_GetKeyManager :: "'c \<Rightarrow> go_error + 'k"
  ck_GetAddr :: "'k \<Rightarrow> bytes"
  ck_Sign :: "'k \<Rightarrow> bytes \<Rightarrow> go_error + bytes"
  ck_VerifySignature :: "bytes \<Rightarrow> bytes \<Rightarrow> bytes \<Rightarrow> bool"
  ck_Keccak256 :: "bytes \<Rightarrow> bytes"
  ck_GetNonce :: "'c \<Rightarrow> 'w \<Rightarrow> (go_error + uint64) \<times> 'w"
  ck_BroadcastTx :: "'c \<Rightarrow> sdk_msg \<Rightarrow> TxOption \<Rightarrow> 'w \<Rightarrow> (go_error + uint32 \<times> string) \<times> 'w"
  ck_GetLatestBlock :: "'c \<Rightarrow> 'w \<Rightarrow> (go_error + int64) \<times> 'w"
  ck_Done :: "'w \<Rightarrow> bool \<times> 'w"
  ck_AccAddressFromHexUnsafe :: "string \<Rightarrow> go_error + bytes"
  ck_bucket_ApprovalBytes :: "MsgCreateBucket \<Rightarrow> bytes"
  ck_object_ApprovalBytes :: "MsgCreateObject \<Rightarrow> bytes"
  ck_approval_json :: "GfSpReplicatePieceApprovalTask \<Rightarrow> bytes"
  ck_receive_json :: "GfSpReceivePieceTask \<Rightarrow> bytes"
  ck_recover_json :: "GfSpRecoverPieceTask \<Rightarrow> bytes"
  ck_ping_json :: "GfSpPing \<Rightarrow> bytes"
  ck_pong_json :: "GfSpPong \<Rightarrow> bytes"
  ck_GenerateIntegrityHash :: "bytes list \<Rightarrow> bytes"
  ck_SecondarySpSignDoc :: "bytes \<Rightarrow> uint64 \<Rightarrow> bytes \<Rightarrow> bytes"

record 'c GreenfieldChainSignClient =
  gasInfo :: "GasInfoType \<Rightarrow> GasInfo"
  greenfieldClients :: "SignType \<Rightarrow> 'c"
  sealAccNonce :: uint64
  gcAccNonce :: uint64

definition signer_errors :: "registration list" where
  "signer_errors =
    [(''signer'', StatusBadRequest, 120001, ''sign message with private key failed''),
     (''signer'', StatusBadRequest, 120002, ''send seal object msg failed''),
     (''signer'', StatusBadRequest, 120003, ''send reject unseal object msg failed''),
     (''signer'', StatusBadRequest, 120004, ''send discontinue bucket msg failed''),
     (''signer'', StatusBadRequest, 120005, ''sign or tx msg pointer dangling'')]"

definition signer_error :: "nat \<Rightarrow> GfSpError" where "signer_error i = registered (signer_errors ! i)"

abbreviation "ErrSignMsg \<equiv> GfSpErr (signer_error 0)"
abbreviation "ErrSealObjectOnChain \<equiv> signer_error 1"
abbreviation "ErrRejectUnSealObjectOnChain \<equiv> signer_error 2"
abbreviation "ErrDiscontinueBucketOnChain \<equiv> signer_error 3"
abbreviation "ErrSignerDanglingPointer \<equiv> GfSpErr (signer_error 4)"

text \<open>\<open>SetError\<close> replaces the description of the predefined error, which is then returned.\<close>

definition tx_error :: "GfSpError \<Rightarrow> string \<Rightarrow> go_error" where "tx_error e description = GfSpErr (e\<lparr>Description := description\<rparr>)"

section \<open>The accounts\<close>

definition new_account :: "('k, 'c, 'w) chain_sdk \<Rightarrow> string \<Rightarrow> string \<Rightarrow> string \<Rightarrow> go_error + 'c" where
  "new_account sdk rpcAddr chainID privateKey =
     (case ck_NewPrivateKeyManager sdk privateKey of Inl err \<Rightarrow> Inl err | Inr km \<Rightarrow> ck_NewGreenfieldClient sdk rpcAddr chainID km)"

text \<open>The constructor creates the five accounts in this order; the nonces of the seal and the gc account come from the chain.\<close>

definition NewGreenfieldChainSignClient :: "('k, 'c, 'w) chain_sdk \<Rightarrow> string \<Rightarrow> string \<Rightarrow> (GasInfoType \<Rightarrow> GasInfo) \<Rightarrow> (SignType \<Rightarrow> string) \<Rightarrow> 'w
    \<Rightarrow> (go_error + 'c GreenfieldChainSignClient) \<times> 'w" where
  "NewGreenfieldChainSignClient sdk rpcAddr chainID gas privateKey w =
     (case new_account sdk rpcAddr chainID (privateKey SignOperator) of Inl err \<Rightarrow> (Inl err, w) | Inr operatorClient \<Rightarrow>
      case new_account sdk rpcAddr chainID (privateKey SignFunding) of Inl err \<Rightarrow> (Inl err, w) | Inr fundingClient \<Rightarrow>
      case new_account sdk rpcAddr chainID (privateKey SignSeal) of Inl err \<Rightarrow> (Inl err, w) | Inr sealClient \<Rightarrow>
      case ck_GetNonce sdk sealClient w of (Inl err, w) \<Rightarrow> (Inl err, w) | (Inr sealNonce, w) \<Rightarrow>
      case new_account sdk rpcAddr chainID (privateKey SignApproval) of Inl err \<Rightarrow> (Inl err, w) | Inr approvalClient \<Rightarrow>
      case new_account sdk rpcAddr chainID (privateKey SignGc) of Inl err \<Rightarrow> (Inl err, w) | Inr gcClient \<Rightarrow>
      case ck_GetNonce sdk gcClient w of (Inl err, w) \<Rightarrow> (Inl err, w) | (Inr gcNonce, w) \<Rightarrow>
        (Inr \<lparr>gasInfo = gas,
              greenfieldClients = (\<lambda>scope. case scope of SignOperator \<Rightarrow> operatorClient | SignFunding \<Rightarrow> fundingClient | SignSeal \<Rightarrow> sealClient
                | SignApproval \<Rightarrow> approvalClient | SignGc \<Rightarrow> gcClient),
              sealAccNonce = sealNonce, gcAccNonce = gcNonce\<rparr>, w))"

text \<open>
  The configuration of the module: fees and gas limits that are zero get their defaults, keys come from environment variables when these are set. \<open>new_coins\<close>
  is \<open>sdk.NewCoins\<close> of one coin, which panics on a negative amount.
\<close>

record sign_config =
  sg_ChainAddress :: "string list"
  sg_ChainID :: string
  sg_GasLimit :: "GasInfoType \<Rightarrow> uint64"
  sg_FeeAmount :: "GasInfoType \<Rightarrow> uint64"
  sg_PrivateKey :: "SignType \<Rightarrow> string"

fun DefaultGasLimit :: "GasInfoType \<Rightarrow> uint64" where
  "DefaultGasLimit Seal = 1200"
| "DefaultGasLimit RejectSeal = 12000"
| "DefaultGasLimit GasDiscontinueBucket = 2400"

fun DefaultFeeAmount :: "GasInfoType \<Rightarrow> uint64" where
  "DefaultFeeAmount Seal = 6000000000000"
| "DefaultFeeAmount RejectSeal = 60000000000000"
| "DefaultFeeAmount GasDiscontinueBucket = 12000000000000"

fun PrivKeyVariable :: "SignType \<Rightarrow> string" where
  "PrivKeyVariable SignOperator = ''SIGNER_OPERATOR_PRIV_KEY''"
| "PrivKeyVariable SignFunding = ''SIGNER_FUNDING_PRIV_KEY''"
| "PrivKeyVariable SignApproval = ''SIGNER_APPROVAL_PRIV_KEY''"
| "PrivKeyVariable SignSeal = ''SIGNER_SEAL_PRIV_KEY''"
| "PrivKeyVariable SignGc = ''SIGNER_GC_PRIV_KEY''"

definition DefaultSignerOptions :: "('k, 'c, 'w) chain_sdk \<Rightarrow> (int64 \<Rightarrow> (string \<times> int) list go) \<Rightarrow> (string \<Rightarrow> string option) \<Rightarrow> sign_config \<Rightarrow> 'w
    \<Rightarrow> ((go_error + 'c GreenfieldChainSignClient) \<times> 'w) go" where
  "DefaultSignerOptions sdk new_coins LookupEnv cfg w =
     (case sg_ChainAddress cfg of
        [] \<Rightarrow> Returns (Inl (PlainErr ''chain address missing''), w)
      | chainAddress # _ \<Rightarrow>
          let limit = (\<lambda>k. if sg_GasLimit cfg k = 0 then DefaultGasLimit k else sg_GasLimit cfg k);
              fee = (\<lambda>k. i64 (uint (if sg_FeeAmount cfg k = 0 then DefaultFeeAmount k else sg_FeeAmount cfg k)));
              key = (\<lambda>scope. case LookupEnv (PrivKeyVariable scope) of Some val \<Rightarrow> val | None \<Rightarrow> sg_PrivateKey cfg scope) in
          bind_go (new_coins (fee Seal)) (\<lambda>seal_fee.
          bind_go (new_coins (fee RejectSeal)) (\<lambda>reject_fee.
          bind_go (new_coins (fee GasDiscontinueBucket)) (\<lambda>discontinue_fee.
            let gas = (\<lambda>k. \<lparr>gi_GasLimit = limit k,
                  gi_FeeAmount = (case k of Seal \<Rightarrow> seal_fee | RejectSeal \<Rightarrow> reject_fee | GasDiscontinueBucket \<Rightarrow> discontinue_fee)\<rparr>) in
            Returns (NewGreenfieldChainSignClient sdk chainAddress (sg_ChainID cfg) gas key w)))))"

definition signer_GetAddr :: "('k, 'c, 'w) chain_sdk \<Rightarrow> 'c GreenfieldChainSignClient \<Rightarrow> SignType \<Rightarrow> go_error + bytes" where
  "signer_GetAddr sdk cl scope = (case ck_GetKeyManager sdk (greenfieldClients cl scope) of Inl err \<Rightarrow> Inl err | Inr km \<Rightarrow> Inr (ck_GetAddr sdk km))"

definition Sign :: "('k, 'c, 'w) chain_sdk \<Rightarrow> 'c GreenfieldChainSignClient \<Rightarrow> SignType \<Rightarrow> bytes \<Rightarrow> go_error + bytes" where
  "Sign sdk cl scope msg = (case ck_GetKeyManager sdk (greenfieldClients cl scope) of Inl err \<Rightarrow> Inl err | Inr km \<Rightarrow> ck_Sign sdk km msg)"

definition signer_VerifySignature :: "('k, 'c, 'w) chain_sdk \<Rightarrow> 'c GreenfieldChainSignClient \<Rightarrow> SignType \<Rightarrow> bytes \<Rightarrow> bytes \<Rightarrow> bool" where
  "signer_VerifySignature sdk cl scope msg sig =
     (case ck_GetKeyManager sdk (greenfieldClients cl scope) of
        Inl _ \<Rightarrow> False
      | Inr km \<Rightarrow> ck_VerifySignature sdk (ck_GetAddr sdk km) (ck_Keccak256 sdk msg) sig)"

section \<open>Transactions\<close>

text \<open>The error of a wrong sequence is recognised later on; an error of the SDK is not this error itself.\<close>

datatype broadcast_error = ErrWrongSequence | BroadcastErr string

definition broadcast_text :: "broadcast_error \<Rightarrow> string" where
  "broadcast_text e = (case e of ErrWrongSequence \<Rightarrow> ''incorrect account sequence'' | BroadcastErr s \<Rightarrow> s)"

definition broadcastTx :: "('k, 'c, 'w) chain_sdk \<Rightarrow> 'c \<Rightarrow> sdk_msg \<Rightarrow> TxOption \<Rightarrow> 'w \<Rightarrow> (broadcast_error + bytes) \<times> 'w" where
  "broadcastTx sdk c msg txOpt w =
     (case ck_BroadcastTx sdk c msg txOpt w of
        (Inl err, w) \<Rightarrow>
          (Inl (if str_contains (error_text err) ''account sequence mismatch'' then ErrWrongSequence
                else BroadcastErr (''failed to broadcast tx with greenfield client: '' @ error_text err)), w)
      | (Inr (code, txHash), w) \<Rightarrow>
          (if code = 32 then Inl ErrWrongSequence
           else if code \<noteq> 0 then Inl (BroadcastErr (''failed to broadcast tx, resp code: '' @ show_nat (unat code)))
           else case DecodeString txHash of
             Inl err \<Rightarrow> Inl (BroadcastErr (''failed to marshal tx hash: '' @ hex_text err))
           | Inr hash \<Rightarrow> Inr hash, w))"

partial_function (option) wait_for_block :: "('k, 'c, 'w) chain_sdk \<Rightarrow> 'c \<Rightarrow> int64 \<Rightarrow> 'w \<Rightarrow> (go_error option \<times> 'w) option" where
  "wait_for_block sdk c height w =
     (case ck_GetLatestBlock sdk c w of
        (Inl err, w) \<Rightarrow> Some (Some err, w)
      | (Inr latest, w) \<Rightarrow>
          if latest \<ge> i64 (height + 1) then Some (None, w)
          else (case ck_Done sdk w of
             (ended, w) \<Rightarrow> if ended then Some (Some (PlainErr ''timeout exceeded waiting for block''), w) else wait_for_block sdk c height w))"

definition waitForNextBlock :: "('k, 'c, 'w) chain_sdk \<Rightarrow> 'c \<Rightarrow> 'w \<Rightarrow> (go_error option \<times> 'w) option" where
  "waitForNextBlock sdk c w =
     (case ck_GetLatestBlock sdk c w of (Inl err, w) \<Rightarrow> Some (Some err, w) | (Inr height, w) \<Rightarrow> wait_for_block sdk c height w)"

definition getNonceOnChain :: "('k, 'c, 'w) chain_sdk \<Rightarrow> 'c \<Rightarrow> 'w \<Rightarrow> ((go_error + uint64) \<times> 'w) option" where
  "getNonceOnChain sdk c w =
     (case waitForNextBlock sdk c w of
        None \<Rightarrow> None
      | Some (Some err, w) \<Rightarrow> Some (Inl err, w)
      | Some (None, w) \<Rightarrow> Some (ck_GetNonce sdk c w))"

definition BroadcastTxRetry :: nat where "BroadcastTxRetry = 3"

definition tx_option :: "GasInfo \<Rightarrow> uint64 \<Rightarrow> TxOption" where
  "tx_option gas nonce =
     \<lparr>tx_NoSimulate = True, tx_Mode = BROADCAST_MODE_SYNC, tx_GasLimit = gi_GasLimit gas, tx_FeeAmount = gi_FeeAmount gas, tx_Nonce = nonce\<rparr>"

text \<open>
  The loop of \<open>SealObject\<close> and \<open>RejectUnSealObject\<close>: \<open>n\<close> attempts are left and \<open>err\<close> is the error of the last one. The result is the hash, the
  nonce of the account and the world.
\<close>

fun broadcast_attempts :: "('k, 'c, 'w) chain_sdk \<Rightarrow> 'c \<Rightarrow> GasInfo \<Rightarrow> sdk_msg \<Rightarrow> GfSpError \<Rightarrow> string \<Rightarrow> nat \<Rightarrow> broadcast_error \<Rightarrow> uint64 \<Rightarrow> 'w
    \<Rightarrow> ((go_error + bytes) \<times> uint64 \<times> 'w) option" where
  "broadcast_attempts sdk c gas msg onchain what 0 err nonce w = Some (Inl (tx_error onchain (what @ '', error: '' @ broadcast_text err)), nonce, w)"
| "broadcast_attempts sdk c gas msg onchain what (Suc n) _ nonce w =
     (case broadcastTx sdk c msg (tx_option gas nonce) w of
        (Inr txHash, w) \<Rightarrow> Some (Inr txHash, nonce + 1, w)
      | (Inl ErrWrongSequence, w) \<Rightarrow>
          (case getNonceOnChain sdk c w of
             None \<Rightarrow> None
           | Some (Inl nonceErr, w) \<Rightarrow> Some (Inl (tx_error onchain (''failed to get seal account nonce, error: '' @ error_text nonceErr)), nonce, w)
           | Some (Inr nonce, w) \<Rightarrow> broadcast_attempts sdk c gas msg onchain what n ErrWrongSequence nonce w)
      | (Inl err, w) \<Rightarrow> broadcast_attempts sdk c gas msg onchain what n err nonce w)"

fun parse_addresses :: "('k, 'c, 'w) chain_sdk \<Rightarrow> string list \<Rightarrow> go_error + bytes list" where
  "parse_addresses sdk [] = Inr []"
| "parse_addresses sdk (sp # sps) =
     (case ck_AccAddressFromHexUnsafe sdk sp of
        Inl err \<Rightarrow> Inl err
      | Inr a \<Rightarrow> (case parse_addresses sdk sps of Inl err \<Rightarrow> Inl err | Inr accs \<Rightarrow> Inr (a # accs)))"

definition SealObject :: "('k, 'c, 'w) chain_sdk \<Rightarrow> SignType \<Rightarrow> MsgSealObject option \<Rightarrow> 'c GreenfieldChainSignClient \<Rightarrow> 'w
    \<Rightarrow> ((go_error + bytes) \<times> 'c GreenfieldChainSignClient \<times> 'w) option" where
  "SealObject sdk scope sealObj cl w =
     (case sealObj of
        None \<Rightarrow> Some (Inl ErrSignerDanglingPointer, cl, w)
      | Some m \<Rightarrow>
          (case ck_GetKeyManager sdk (greenfieldClients cl scope) of
             Inl _ \<Rightarrow> Some (Inl ErrSignMsg, cl, w)
           | Inr km \<Rightarrow>
               (case parse_addresses sdk (mso_SecondarySpAddresses m) of
                  Inl err \<Rightarrow> Some (Inl err, cl, w)
                | Inr accs \<Rightarrow>
                    map_option (\<lambda>(r, nonce, w). (r, cl\<lparr>sealAccNonce := nonce\<rparr>, w))
                      (broadcast_attempts sdk (greenfieldClients cl scope) (gasInfo cl Seal)
                         (NewMsgSealObject (ck_GetAddr sdk km) (mso_BucketName m) (mso_ObjectName m) accs (mso_SecondarySpSignatures m))
                         ErrSealObjectOnChain ''failed to broadcast seal object tx'' BroadcastTxRetry ErrWrongSequence (sealAccNonce cl) w))))"

definition RejectUnSealObject :: "('k, 'c, 'w) chain_sdk \<Rightarrow> SignType \<Rightarrow> MsgRejectSealObject option \<Rightarrow> 'c GreenfieldChainSignClient \<Rightarrow> 'w
    \<Rightarrow> ((go_error + bytes) \<times> 'c GreenfieldChainSignClient \<times> 'w) option" where
  "RejectUnSealObject sdk scope rejectObject cl w =
     (case rejectObject of
        None \<Rightarrow> Some (Inl ErrSignerDanglingPointer, cl, w)
      | Some m \<Rightarrow>
          (case ck_GetKeyManager sdk (greenfieldClients cl scope) of
             Inl _ \<Rightarrow> Some (Inl ErrSignMsg, cl, w)
           | Inr km \<Rightarrow>
               map_option (\<lambda>(r, nonce, w). (r, cl\<lparr>sealAccNonce := nonce\<rparr>, w))
                 (broadcast_attempts sdk (greenfieldClients cl scope) (gasInfo cl RejectSeal)
                    (NewMsgRejectUnsealedObject (ck_GetAddr sdk km) (mrs_BucketName m) (mrs_ObjectName m))
                    ErrRejectUnSealObjectOnChain ''failed to broadcast reject unseal object tx'' BroadcastTxRetry ErrWrongSequence (sealAccNonce cl) w)))"

text \<open>There is one attempt to discontinue a bucket.\<close>

definition DiscontinueBucket :: "('k, 'c, 'w) chain_sdk \<Rightarrow> SignType \<Rightarrow> MsgDiscontinueBucket \<Rightarrow> 'c GreenfieldChainSignClient \<Rightarrow> 'w
    \<Rightarrow> ((go_error + bytes) \<times> 'c GreenfieldChainSignClient \<times> 'w) option" where
  "DiscontinueBucket sdk scope m cl w =
     (case ck_GetKeyManager sdk (greenfieldClients cl scope) of
        Inl _ \<Rightarrow> Some (Inl ErrSignMsg, cl, w)
      | Inr km \<Rightarrow>
          let c = greenfieldClients cl scope; nonce = gcAccNonce cl;
              failed = (\<lambda>err. Inl (tx_error ErrDiscontinueBucketOnChain (''failed to broadcast discontinue bucket, error: '' @ broadcast_text err))) in
          (case broadcastTx sdk c (NewMsgDiscontinueBucket (ck_GetAddr sdk km) (mdb_BucketName m) (mdb_Reason m)) (tx_option (gasInfo cl GasDiscontinueBucket) nonce) w of
             (Inr txHash, w) \<Rightarrow> Some (Inr txHash, cl\<lparr>gcAccNonce := nonce + 1\<rparr>, w)
           | (Inl ErrWrongSequence, w) \<Rightarrow>
               (case getNonceOnChain sdk c w of
                  None \<Rightarrow> None
                | Some (Inl nonceErr, w) \<Rightarrow>
                    Some (Inl (tx_error ErrDiscontinueBucketOnChain (''failed to get seal account nonce, error: '' @ error_text nonceErr)), cl, w)
                | Some (Inr nonce, w) \<Rightarrow> Some (failed ErrWrongSequence, cl\<lparr>gcAccNonce := nonce\<rparr>, w))
           | (Inl err, w) \<Rightarrow> Some (failed err, cl, w)))"

section \<open>The module\<close>

text \<open>What is signed of a task: the fields that identify it, the creation time of its base and nothing else of it.\<close>

definition approval_sign_doc :: "GfSpReplicatePieceApprovalTask \<Rightarrow> GfSpReplicatePieceApprovalTask" where
  "approval_sign_doc t =
     \<lparr>ra_Task = base_SetCreateTime (CreateTime (ra_Task t)) new_task, ra_ObjectInfo = ra_ObjectInfo t, ra_StorageParams = ra_StorageParams t,
      ra_AskSpOperatorAddress = [], ra_AskSignature = [], ra_ApprovedSpEndpoint = [], ra_ApprovedSpOperatorAddress = [], ra_ApprovedSignature = [],
      ra_ApprovedSpApprovalAddress = [], ra_ExpiredHeight = ra_ExpiredHeight t\<rparr>"

definition receive_sign_doc :: "GfSpReceivePieceTask \<Rightarrow> GfSpReceivePieceTask" where
  "receive_sign_doc t =
     \<lparr>rv_Task = base_SetCreateTime (CreateTime (rv_Task t)) new_task, rv_ObjectInfo = rv_ObjectInfo t, rv_StorageParams = rv_StorageParams t,
      rv_ReplicateIdx = rv_ReplicateIdx t, rv_PieceIdx = rv_PieceIdx t, rv_PieceSize = rv_PieceSize t, rv_PieceChecksum = rv_PieceChecksum t,
      rv_Signature = [], rv_Sealed = False\<rparr>"

definition recover_sign_doc :: "GfSpRecoverPieceTask \<Rightarrow> GfSpRecoverPieceTask" where
  "recover_sign_doc t =
     \<lparr>rr_Task = base_SetCreateTime (CreateTime (rr_Task t)) new_task, rr_ObjectInfo = rr_ObjectInfo t, rr_StorageParams = rr_StorageParams t,
      rr_SegmentIdx = rr_SegmentIdx t, rr_EcIdx = rr_EcIdx t, rr_PieceSize = rr_PieceSize t, rr_Signature = [], rr_Recovered = False\<rparr>"

definition ping_sign_doc :: "GfSpPing \<Rightarrow> GfSpPing" where "ping_sign_doc m = m\<lparr>pi_Signature := []\<rparr>"
definition pong_sign_doc :: "GfSpPong \<Rightarrow> GfSpPong" where "pong_sign_doc m = m\<lparr>po_Signature := []\<rparr>"

text \<open>The state of the module: its client, and the counters of its metrics that count outcomes.\<close>

record ('c, 'w) SignModular =
  sm_client :: "'c GreenfieldChainSignClient"
  sm_world :: 'w
  sm_rejectSucceed :: nat
  sm_rejectFailed :: nat
  sm_discontinueSucceed :: nat
  sm_discontinueFailed :: nat

definition SignCreateBucketApproval :: "('k, 'c, 'w) chain_sdk \<Rightarrow> MsgCreateBucket \<Rightarrow> ('c, 'w) SignModular \<Rightarrow> go_error + bytes" where
  "SignCreateBucketApproval sdk bucket s = Sign sdk (sm_client s) SignApproval (ck_bucket_ApprovalBytes sdk bucket)"

definition SignCreateObjectApproval :: "('k, 'c, 'w) chain_sdk \<Rightarrow> MsgCreateObject \<Rightarrow> ('c, 'w) SignModular \<Rightarrow> go_error + bytes" where
  "SignCreateObjectApproval sdk object s = Sign sdk (sm_client s) SignApproval (ck_object_ApprovalBytes sdk object)"

definition SignReplicatePieceApproval :: "('k, 'c, 'w) chain_sdk \<Rightarrow> GfSpReplicatePieceApprovalTask \<Rightarrow> ('c, 'w) SignModular \<Rightarrow> go_error + bytes" where
  "SignReplicatePieceApproval sdk t s = Sign sdk (sm_client s) SignOperator (ck_approval_json sdk (approval_sign_doc t))"

definition SignReceivePieceTask :: "('k, 'c, 'w) chain_sdk \<Rightarrow> GfSpReceivePieceTask \<Rightarrow> ('c, 'w) SignModular \<Rightarrow> go_error + bytes" where
  "SignReceivePieceTask sdk t s = Sign sdk (sm_client s) SignOperator (ck_receive_json sdk (receive_sign_doc t))"

definition SignRecoveryPieceTask :: "('k, 'c, 'w) chain_sdk \<Rightarrow> GfSpRecoverPieceTask \<Rightarrow> ('c, 'w) SignModular \<Rightarrow> go_error + bytes" where
  "SignRecoveryPieceTask sdk t s = Sign sdk (sm_client s) SignOperator (ck_recover_json sdk (recover_sign_doc t))"

definition SignIntegrityHash :: "('k, 'c, 'w) chain_sdk \<Rightarrow> uint64 \<Rightarrow> bytes list \<Rightarrow> ('c, 'w) SignModular \<Rightarrow> go_error + bytes \<times> bytes" where
  "SignIntegrityHash sdk objectID checksums s =
     (let integrityHash = ck_GenerateIntegrityHash sdk checksums in
      case signer_GetAddr sdk (sm_client s) SignOperator of
        Inl err \<Rightarrow> Inl err
      | Inr opAddr \<Rightarrow>
          (case Sign sdk (sm_client s) SignApproval (ck_SecondarySpSignDoc sdk opAddr objectID integrityHash) of
             Inl err \<Rightarrow> Inl err
           | Inr sig \<Rightarrow> Inr (sig, integrityHash)))"

definition SignP2PPingMsg :: "('k, 'c, 'w) chain_sdk \<Rightarrow> GfSpPing \<Rightarrow> ('c, 'w) SignModular \<Rightarrow> go_error + bytes" where
  "SignP2PPingMsg sdk ping s = Sign sdk (sm_client s) SignOperator (ck_ping_json sdk (ping_sign_doc ping))"

definition SignP2PPongMsg :: "('k, 'c, 'w) chain_sdk \<Rightarrow> GfSpPong \<Rightarrow> ('c, 'w) SignModular \<Rightarrow> go_error + bytes" where
  "SignP2PPongMsg sdk pong s = Sign sdk (sm_client s) SignOperator (ck_pong_json sdk (pong_sign_doc pong))"

text \<open>A transaction of the module; \<open>count\<close> records its outcome.\<close>

definition run_tx :: "('c GreenfieldChainSignClient \<Rightarrow> 'w \<Rightarrow> ((go_error + bytes) \<times> 'c GreenfieldChainSignClient \<times> 'w) option)
    \<Rightarrow> (go_error option \<Rightarrow> ('c, 'w) SignModular \<Rightarrow> ('c, 'w) SignModular) \<Rightarrow> ('c, 'w) SignModular \<Rightarrow> (go_error option \<times> ('c, 'w) SignModular) option" where
  "run_tx f count s =
     map_option (\<lambda>(r, cl, w). let err = (case r of Inl err \<Rightarrow> Some err | Inr _ \<Rightarrow> None) in (err, count err (s\<lparr>sm_client := cl, sm_world := w\<rparr>)))
       (f (sm_client s) (sm_world s))"

definition module_SealObject :: "('k, 'c, 'w) chain_sdk \<Rightarrow> MsgSealObject option \<Rightarrow> ('c, 'w) SignModular \<Rightarrow> (go_error option \<times> ('c, 'w) SignModular) option" where
  "module_SealObject sdk object = run_tx (SealObject sdk SignSeal object) (\<lambda>_ s. s)"

definition module_RejectUnSealObject :: "('k, 'c, 'w) chain_sdk \<Rightarrow> MsgRejectSealObject option \<Rightarrow> ('c, 'w) SignModular
    \<Rightarrow> (go_error option \<times> ('c, 'w) SignModular) option" where
  "module_RejectUnSealObject sdk rejectObject =
     run_tx (RejectUnSealObject sdk SignSeal rejectObject)
       (\<lambda>err s. if err \<noteq> None then s\<lparr>sm_rejectSucceed := sm_rejectSucceed s + 1\<rparr> else s\<lparr>sm_rejectFailed := sm_rejectFailed s + 1\<rparr>)"

definition module_DiscontinueBucket :: "('k, 'c, 'w) chain_sdk \<Rightarrow> MsgDiscontinueBucket \<Rightarrow> ('c, 'w) SignModular \<Rightarrow> (go_error option \<times> ('c, 'w) SignModular) option" where
  "module_DiscontinueBucket sdk bucket =
     run_tx (DiscontinueBucket sdk SignGc bucket)
       (\<lambda>err s. if err \<noteq> None then s\<lparr>sm_discontinueSucceed := sm_discontinueSucceed s + 1\<rparr> else s\<lparr>sm_discontinueFailed := sm_discontinueFailed s + 1\<rparr>)"

section \<open>The service and its client\<close>

datatype GfSpSignRequest =
    CreateBucketInfo MsgCreateBucket | CreateObjectInfo MsgCreateObject | SealObjectInfo "MsgSealObject option"
  | RejectObjectInfo "MsgRejectSealObject option" | DiscontinueBucketInfo MsgDiscontinueBucket | SignIntegrity uint64 "bytes list"
  | PingMsg GfSpPing | PongMsg GfSpPong | SignReceive GfSpReceivePieceTask | SignApprovalTask GfSpReplicatePieceApprovalTask
  | SignRecover GfSpRecoverPieceTask

definition ErrSingTaskDangling :: GfSpError where
  "ErrSingTaskDangling = registered (''gfsp-base-app'', StatusBadRequest, 991001, ''OoooH... request lost'')"

text \<open>The response: the error, the signature and the integrity hash.\<close>

type_synonym sign_response = "GfSpError option \<times> bytes \<times> bytes"

definition signed_response :: "(go_error + bytes \<times> bytes) \<Rightarrow> sign_response" where "signed_response r = response_of ([], []) r"

definition sent_response :: "go_error option \<Rightarrow> sign_response" where "sent_response err = (MakeGfSpError err, [], [])"

definition only_signature :: "(go_error + bytes) \<Rightarrow> go_error + bytes \<times> bytes" where
  "only_signature r = (case r of Inl err \<Rightarrow> Inl err | Inr sig \<Rightarrow> Inr (sig, []))"

fun sign_request :: "('k, 'c, 'w) chain_sdk \<Rightarrow> GfSpSignRequest \<Rightarrow> ('c, 'w) SignModular \<Rightarrow> (sign_response \<times> ('c, 'w) SignModular) go option" where
  "sign_request sdk (CreateBucketInfo m) s = Some (Returns (signed_response (only_signature (SignCreateBucketApproval sdk m s)), s))"
| "sign_request sdk (CreateObjectInfo m) s = Some (Returns (signed_response (only_signature (SignCreateObjectApproval sdk m s)), s))"
| "sign_request sdk (SealObjectInfo m) s = map_option (\<lambda>(err, s). Returns (sent_response err, s)) (module_SealObject sdk m s)"
| "sign_request sdk (RejectObjectInfo m) s = map_option (\<lambda>(err, s). Returns (sent_response err, s)) (module_RejectUnSealObject sdk m s)"
| "sign_request sdk (DiscontinueBucketInfo m) s = map_option (\<lambda>(err, s). Returns (sent_response err, s)) (module_DiscontinueBucket sdk m s)"
| "sign_request sdk (SignIntegrity objectID checksums) s = Some (Returns (signed_response (SignIntegrityHash sdk objectID checksums s), s))"
| "sign_request sdk (PingMsg m) s = Some (Returns (signed_response (only_signature (SignP2PPingMsg sdk m s)), s))"
| "sign_request sdk (PongMsg m) s = Some (Returns (signed_response (only_signature (SignP2PPongMsg sdk m s)), s))"
| "sign_request sdk (SignReceive t) s =
     Some (if key_defined (ReceivePieceTask t) then Returns (signed_response (only_signature (SignReceivePieceTask sdk t s)), s) else Panics)"
| "sign_request sdk (SignApprovalTask t) s =
     Some (if key_defined (ReplicatePieceApprovalTask t) then Returns (signed_response (only_signature (SignReplicatePieceApproval sdk t s)), s) else Panics)"
| "sign_request sdk (SignRecover t) s =
     Some (if key_defined (RecoverPieceTask t) then Returns (signed_response (only_signature (SignRecoveryPieceTask sdk t s)), s) else Panics)"

definition GfSpSign :: "('k, 'c, 'w) chain_sdk \<Rightarrow> GfSpSignRequest option \<Rightarrow> ('c, 'w) SignModular \<Rightarrow> (sign_response \<times> ('c, 'w) SignModular) go option" where
  "GfSpSign sdk req s = (case req of None \<Rightarrow> Some (Returns ((Some ErrSingTaskDangling, [], []), s)) | Some t \<Rightarrow> sign_request sdk t s)"

definition sign_call :: "bool \<Rightarrow> ('k, 'c, 'w) chain_sdk \<Rightarrow> GfSpSignRequest \<Rightarrow> ('c, 'w) SignModular \<Rightarrow> ((go_error + bytes \<times> bytes) \<times> ('c, 'w) SignModular) option" where
  "sign_call conn sdk req s =
     (if \<not> conn then Some (Inl ErrRpcUnknown, s)
      else case GfSpSign sdk (Some req) s of None \<Rightarrow> None | Some r \<Rightarrow> Some (client_call True (\<lambda>_. r) s))"

definition client_signature :: "((go_error + bytes \<times> bytes) \<times> 's) option \<Rightarrow> ((go_error + bytes) \<times> 's) option" where
  "client_signature = map_option (\<lambda>(r, s). (case r of Inl err \<Rightarrow> Inl err | Inr (sig, _) \<Rightarrow> Inr sig, s))"

definition client_error :: "((go_error + bytes \<times> bytes) \<times> 's) option \<Rightarrow> (go_error option \<times> 's) option" where
  "client_error = map_option (\<lambda>(r, s). (case r of Inl err \<Rightarrow> Some err | Inr _ \<Rightarrow> None, s))"

definition client_SignCreateBucketApproval where "client_SignCreateBucketApproval conn sdk bucket s = client_signature (sign_call conn sdk (CreateBucketInfo bucket) s)"
definition client_SignCreateObjectApproval where "client_SignCreateObjectApproval conn sdk object s = client_signature (sign_call conn sdk (CreateObjectInfo object) s)"
definition client_SealObject where "client_SealObject conn sdk object s = client_error (sign_call conn sdk (SealObjectInfo object) s)"
definition client_RejectUnSealObject where "client_RejectUnSealObject conn sdk object s = client_error (sign_call conn sdk (RejectObjectInfo object) s)"
definition client_DiscontinueBucket where "client_DiscontinueBucket conn sdk bucket s = client_error (sign_call conn sdk (DiscontinueBucketInfo bucket) s)"
definition client_SignReplicatePieceApproval where "client_SignReplicatePieceApproval conn sdk t s = client_signature (sign_call conn sdk (SignApprovalTask t) s)"
definition client_SignIntegrityHash where "client_SignIntegrityHash conn sdk objectID checksums s = sign_call conn sdk (SignIntegrity objectID checksums) s"
definition client_SignReceiveTask where "client_SignReceiveTask conn sdk t s = client_signature (sign_call conn sdk (SignReceive t) s)"
definition client_SignRecoveryTask where "client_SignRecoveryTask conn sdk t s = client_signature (sign_call conn sdk (SignRecover t) s)"
definition client_SignP2PPingMsg where "client_SignP2PPingMsg conn sdk ping s = client_signature (sign_call conn sdk (PingMsg ping) s)"
definition client_SignP2PPongMsg where "client_SignP2PPongMsg conn sdk pong s = client_signature (sign_call conn sdk (PongMsg pong) s)"

section \<open>Nonces\<close>

text \<open>
  What a chain does with the transactions of an account, as long as nobody else uses the account: the sequence number of the account is \<open>seq\<close> and its accepted
  transactions are \<open>txs\<close>. A transaction with the next number is accepted, one with another number is refused with a mismatch,
  either by an error that says so or by a response with the code 32 of \<open>ErrWrongSequence\<close>, and either may happen each time; the number
  can be queried, and the next block comes after finitely many ticks. \<open>S\<close> are the states of the world in which the chain answers.
\<close>

definition same_account :: "('w \<Rightarrow> uint64) \<Rightarrow> ('w \<Rightarrow> sdk_msg list) \<Rightarrow> 'w \<Rightarrow> 'w \<Rightarrow> bool" where
  "same_account sq txs w w' \<longleftrightarrow> sq w' = sq w \<and> txs w' = txs w"

definition mismatch_answer :: "go_error + uint32 \<times> string \<Rightarrow> bool" where
  "mismatch_answer res \<longleftrightarrow> (case res of Inl err \<Rightarrow> str_contains (error_text err) ''account sequence mismatch'' | Inr (code, txHash) \<Rightarrow> code = 32)"

definition sequenced_chain :: "('k, 'c, 'w) chain_sdk \<Rightarrow> 'c \<Rightarrow> ('w \<Rightarrow> uint64) \<Rightarrow> ('w \<Rightarrow> sdk_msg list) \<Rightarrow> ('w \<Rightarrow> int64) \<Rightarrow> ('w \<Rightarrow> nat) \<Rightarrow> 'w set \<Rightarrow> bool" where
  "sequenced_chain sdk c sq txs height ticks S \<longleftrightarrow> (\<forall>w \<in> S.
     (\<forall>msg opt. tx_Nonce opt = sq w \<longrightarrow> (\<exists>txHash hash w'. ck_BroadcastTx sdk c msg opt w = (Inr (0, txHash), w') \<and> DecodeString txHash = Inr hash
        \<and> sq w' = sq w + 1 \<and> txs w' = txs w @ [msg] \<and> w' \<in> S)) \<and>
     (\<forall>msg opt. tx_Nonce opt \<noteq> sq w \<longrightarrow> (\<exists>res w'. ck_BroadcastTx sdk c msg opt w = (res, w')
        \<and> mismatch_answer res \<and> same_account sq txs w w' \<and> w' \<in> S)) \<and>
     (\<exists>w'. ck_GetNonce sdk c w = (Inr (sq w), w') \<and> same_account sq txs w w' \<and> w' \<in> S) \<and>
     ck_GetLatestBlock sdk c w = (Inr (height w), w) \<and>
     (\<exists>w'. ck_Done sdk w = (False, w') \<and> same_account sq txs w w' \<and> w' \<in> S
        \<and> (if ticks w = 0 then height w' \<ge> i64 (height w + 1) else height w' = height w \<and> ticks w' < ticks w)))"

lemma tx_option_Nonce [simp]: "tx_Nonce (tx_option gas nonce) = nonce"
  by (simp add: tx_option_def)

lemma broadcast_accepted:
  assumes "sequenced_chain sdk c sq txs height ticks S" "w \<in> S" "tx_Nonce opt = sq w"
  obtains hash w' where "broadcastTx sdk c msg opt w = (Inr hash, w')" "sq w' = sq w + 1" "txs w' = txs w @ [msg]" "w' \<in> S"
proof -
  obtain txHash hash w' where "ck_BroadcastTx sdk c msg opt w = (Inr (0, txHash), w')" "DecodeString txHash = Inr hash"
    "sq w' = sq w + 1" "txs w' = txs w @ [msg]" "w' \<in> S"
    using assms unfolding sequenced_chain_def by metis
  then show thesis by (intro that [of hash w']) (simp_all add: broadcastTx_def)
qed

lemma broadcast_mismatch:
  assumes "sequenced_chain sdk c sq txs height ticks S" "w \<in> S" "tx_Nonce opt \<noteq> sq w"
  obtains w' where "broadcastTx sdk c msg opt w = (Inl ErrWrongSequence, w')" "same_account sq txs w w'" "w' \<in> S"
proof -
  obtain res w' where "ck_BroadcastTx sdk c msg opt w = (res, w')" "mismatch_answer res" "same_account sq txs w w'" "w' \<in> S"
    using assms unfolding sequenced_chain_def by metis
  then show thesis by (intro that [of w']) (auto simp: broadcastTx_def mismatch_answer_def split: sum.splits)
qed

lemma wait_for_block_ends:
  assumes chain: "sequenced_chain sdk c sq txs height ticks S"
  shows "w \<in> S \<Longrightarrow> \<exists>w'. wait_for_block sdk c (height w) w = Some (None, w') \<and> same_account sq txs w w' \<and> w' \<in> S"
proof (induction "ticks w" arbitrary: w rule: less_induct)
  case less
  have latest: "ck_GetLatestBlock sdk c v = (Inr (height v), v)" if "v \<in> S" for v using chain that unfolding sequenced_chain_def by blast
  obtain w1 where w1: "ck_Done sdk w = (False, w1)" "same_account sq txs w w1" "w1 \<in> S"
    "if ticks w = 0 then height w1 \<ge> i64 (height w + 1) else height w1 = height w \<and> ticks w1 < ticks w"
    using chain less.prems unfolding sequenced_chain_def by blast
  have after: "\<exists>w'. wait_for_block sdk c (height w) w1 = Some (None, w') \<and> same_account sq txs w1 w' \<and> w' \<in> S"
  proof (cases "ticks w = 0")
    case True
    then show ?thesis using w1 latest [OF w1(3)] by (intro exI [of _ w1]) (simp add: wait_for_block.simps same_account_def)
  next
    case False
    then show ?thesis using less.hyps [of w1] w1 by simp
  qed
  show ?case
  proof (cases "height w \<ge> i64 (height w + 1)")
    case True
    then show ?thesis using latest [OF less.prems] less.prems by (intro exI [of _ w]) (simp add: wait_for_block.simps same_account_def)
  next
    case False
    then have "wait_for_block sdk c (height w) w = wait_for_block sdk c (height w) w1"
      using latest [OF less.prems] w1(1) by (subst wait_for_block.simps) simp
    then show ?thesis using after w1(2) by (auto simp: same_account_def)
  qed
qed

lemma getNonceOnChain_current:
  assumes chain: "sequenced_chain sdk c sq txs height ticks S" and "w \<in> S"
  obtains w' where "getNonceOnChain sdk c w = Some (Inr (sq w), w')" "same_account sq txs w w'" "w' \<in> S"
proof -
  obtain w1 where w1: "wait_for_block sdk c (height w) w = Some (None, w1)" "same_account sq txs w w1" "w1 \<in> S"
    using wait_for_block_ends [OF assms] by blast
  obtain w2 where "ck_GetNonce sdk c w1 = (Inr (sq w1), w2)" "same_account sq txs w1 w2" "w2 \<in> S"
    using chain w1(3) unfolding sequenced_chain_def by blast
  moreover have "ck_GetLatestBlock sdk c w = (Inr (height w), w)" using assms unfolding sequenced_chain_def by blast
  ultimately show thesis using w1 by (intro that [of w2]) (auto simp: getNonceOnChain_def waitForNextBlock_def same_account_def)
qed

text \<open>Two attempts are enough, whatever nonce is remembered: the first one may be refused, and then the nonce is in step.\<close>

lemma broadcast_attempts_succeed:
  assumes chain: "sequenced_chain sdk c sq txs height ticks S" and "w \<in> S"
  obtains hash nonce' w' where "broadcast_attempts sdk c gas msg onchain what (Suc (Suc n)) err nonce w = Some (Inr hash, nonce', w')"
    "nonce' = sq w'" "txs w' = txs w @ [msg]" "w' \<in> S"
proof (cases "nonce = sq w")
  case True
  obtain hash w' where "broadcastTx sdk c msg (tx_option gas nonce) w = (Inr hash, w')" "sq w' = sq w + 1" "txs w' = txs w @ [msg]" "w' \<in> S"
    using broadcast_accepted [OF assms, of "tx_option gas nonce" msg] True by auto
  then show thesis using that [of hash "nonce + 1" w'] True by simp
next
  case False
  obtain w1 where w1: "broadcastTx sdk c msg (tx_option gas nonce) w = (Inl ErrWrongSequence, w1)" "same_account sq txs w w1" "w1 \<in> S"
    using broadcast_mismatch [OF assms, of "tx_option gas nonce" msg] False by auto
  obtain w2 where w2: "getNonceOnChain sdk c w1 = Some (Inr (sq w1), w2)" "same_account sq txs w1 w2" "w2 \<in> S"
    using getNonceOnChain_current [OF chain w1(3)] by blast
  obtain hash w' where "broadcastTx sdk c msg (tx_option gas (sq w1)) w2 = (Inr hash, w')" "sq w' = sq w2 + 1" "txs w' = txs w2 @ [msg]" "w' \<in> S"
    using broadcast_accepted [OF chain w2(3), of "tx_option gas (sq w1)" msg] w2(2) unfolding same_account_def by (metis tx_option_Nonce)
  then show thesis using that [of hash "sq w1 + 1" w'] w1 w2 by (simp add: same_account_def)
qed

text \<open>
  C14. Sealing recovers from a stale nonce: on a chain that counts the transactions of the account and refuses one with a wrong number
  by an error or by the response code 32, whatever nonce the signer remembers, \<open>SealObject\<close> ends, returns a hash, has sent exactly one transaction, the seal of this object, and remembers the right nonce.
\<close>

theorem seal_recovers_nonce:
  assumes "sequenced_chain sdk (greenfieldClients cl scope) sq txs height ticks S" "w \<in> S"
    and "ck_GetKeyManager sdk (greenfieldClients cl scope) = Inr km" "parse_addresses sdk (mso_SecondarySpAddresses m) = Inr accs"
  shows "\<exists>hash cl' w'. SealObject sdk scope (Some m) cl w = Some (Inr hash, cl', w') \<and> sealAccNonce cl' = sq w' \<and> gcAccNonce cl' = gcAccNonce cl
    \<and> txs w' = txs w @ [NewMsgSealObject (ck_GetAddr sdk km) (mso_BucketName m) (mso_ObjectName m) accs (mso_SecondarySpSignatures m)]"
proof -
  let ?msg = "NewMsgSealObject (ck_GetAddr sdk km) (mso_BucketName m) (mso_ObjectName m) accs (mso_SecondarySpSignatures m)"
  obtain hash nonce w' where "broadcast_attempts sdk (greenfieldClients cl scope) (gasInfo cl Seal) ?msg ErrSealObjectOnChain
      ''failed to broadcast seal object tx'' (Suc (Suc 1)) ErrWrongSequence (sealAccNonce cl) w = Some (Inr hash, nonce, w')"
    "nonce = sq w'" "txs w' = txs w @ [?msg]"
    by (rule broadcast_attempts_succeed [OF assms(1,2)])
  then show ?thesis using assms(3,4) by (simp add: SealObject_def BroadcastTxRetry_def numeral_3_eq_3)
qed

text \<open>
  The signer starts in step: when the options succeed on such a chain, the remembered nonces are the ones of the accounts.
\<close>

lemma signer_starts_in_step:
  assumes "DefaultSignerOptions sdk new_coins LookupEnv cfg w = Returns (Inr cl, w')"
    and "\<And>c. sequenced_chain sdk c (sq c) txs height ticks S" "w \<in> S"
  shows "\<exists>v. sealAccNonce cl = sq (greenfieldClients cl SignSeal) w \<and> gcAccNonce cl = sq (greenfieldClients cl SignGc) v \<and> v \<in> S"
proof -
  obtain addr gas key where new: "NewGreenfieldChainSignClient sdk addr (sg_ChainID cfg) gas key w = (Inr cl, w')"
    using assms(1) by (auto simp: DefaultSignerOptions_def Let_def bind_go_Returns_iff split: list.splits)
  obtain b where ab: "ck_GetNonce sdk c v = (Inr (sq c v), b c v)" "b c v \<in> S" if "v \<in> S" for c v
    using assms(2) unfolding sequenced_chain_def by metis
  show ?thesis using new ab assms(3)
    by (auto simp: NewGreenfieldChainSignClient_def split: sum.splits)
qed

text \<open>
  Discontinuing a bucket does not recover at once: with a stale nonce \<open>DiscontinueBucket\<close> fails and sends nothing, but remembers the right
  nonce, with which it succeeds when it is called again.
\<close>

theorem stale_discontinue_fails_once:
  assumes "sequenced_chain sdk (greenfieldClients cl scope) sq txs height ticks S" "w \<in> S"
    and "ck_GetKeyManager sdk (greenfieldClients cl scope) = Inr km" "gcAccNonce cl \<noteq> sq w"
  shows "\<exists>err cl1 w1 hash cl2 w2. DiscontinueBucket sdk scope m cl w = Some (Inl err, cl1, w1) \<and> txs w1 = txs w
    \<and> DiscontinueBucket sdk scope m cl1 w1 = Some (Inr hash, cl2, w2) \<and> gcAccNonce cl2 = sq w2
    \<and> txs w2 = txs w @ [NewMsgDiscontinueBucket (ck_GetAddr sdk km) (mdb_BucketName m) (mdb_Reason m)]"
proof -
  let ?c = "greenfieldClients cl scope" and ?msg = "NewMsgDiscontinueBucket (ck_GetAddr sdk km) (mdb_BucketName m) (mdb_Reason m)"
  let ?opt = "tx_option (gasInfo cl GasDiscontinueBucket)"
  obtain v where v: "broadcastTx sdk ?c ?msg (?opt (gcAccNonce cl)) w = (Inl ErrWrongSequence, v)" "same_account sq txs w v" "v \<in> S"
    using broadcast_mismatch [OF assms(1,2), of "?opt (gcAccNonce cl)" ?msg] assms(4) by auto
  obtain w1 where w1: "getNonceOnChain sdk ?c v = Some (Inr (sq v), w1)" "same_account sq txs v w1" "w1 \<in> S"
    using getNonceOnChain_current [OF assms(1) v(3)] by blast
  obtain hash w2 where w2: "broadcastTx sdk ?c ?msg (?opt (sq v)) w1 = (Inr hash, w2)" "sq w2 = sq w1 + 1" "txs w2 = txs w1 @ [?msg]"
    using broadcast_accepted [OF assms(1) w1(3), of "?opt (sq v)" ?msg] w1(2) unfolding same_account_def by (metis tx_option_Nonce)
  have "\<exists>err. DiscontinueBucket sdk scope m cl w = Some (Inl err, cl\<lparr>gcAccNonce := sq v\<rparr>, w1)"
    using v w1 assms(3) by (simp add: DiscontinueBucket_def Let_def)
  moreover have "DiscontinueBucket sdk scope m (cl\<lparr>gcAccNonce := sq v\<rparr>) w1 = Some (Inr hash, cl\<lparr>gcAccNonce := sq v + 1\<rparr>, w2)"
    using w2 assms(3) by (simp add: DiscontinueBucket_def Let_def)
  ultimately show ?thesis using v w1 w2 by (auto simp: same_account_def)
qed

text \<open>
  A lost answer seals twice: if the chain accepts the first transaction but the answer is lost, the loop takes the mismatch of its second attempt
  for a stale nonce and sends the seal again; two transactions with the same message are on the chain.
\<close>

theorem lost_answer_seals_twice:
  assumes "sequenced_chain sdk (greenfieldClients cl scope) sq txs height ticks S"
    and "ck_GetKeyManager sdk (greenfieldClients cl scope) = Inr km" "parse_addresses sdk (mso_SecondarySpAddresses m) = Inr accs"
    and "msg = NewMsgSealObject (ck_GetAddr sdk km) (mso_BucketName m) (mso_ObjectName m) accs (mso_SecondarySpSignatures m)"
    and "ck_BroadcastTx sdk (greenfieldClients cl scope) msg (tx_option (gasInfo cl Seal) (sealAccNonce cl)) w = (Inl (PlainErr why), w1)"
    and "\<not> str_contains why ''account sequence mismatch''" "w1 \<in> S" "txs w1 = txs w @ [msg]"
    and "sq w1 = sealAccNonce cl + 1"
  shows "\<exists>hash cl' w'. SealObject sdk scope (Some m) cl w = Some (Inr hash, cl', w') \<and> txs w' = txs w @ [msg, msg]"
proof -
  let ?run = "broadcast_attempts sdk (greenfieldClients cl scope) (gasInfo cl Seal) msg ErrSealObjectOnChain ''failed to broadcast seal object tx''"
  let ?err = "BroadcastErr (''failed to broadcast tx with greenfield client: '' @ why)"
  obtain hash nonce w' where run: "?run (Suc (Suc 0)) ?err (sealAccNonce cl) w1 = Some (Inr hash, nonce, w')" "txs w' = txs w1 @ [msg]"
    by (rule broadcast_attempts_succeed [OF assms(1,7)])
  have lost: "broadcastTx sdk (greenfieldClients cl scope) msg (tx_option (gasInfo cl Seal) (sealAccNonce cl)) w = (Inl ?err, w1)"
    using assms(5,6) by (simp add: broadcastTx_def error_text_def)
  have "?run (Suc (Suc (Suc 0))) ErrWrongSequence (sealAccNonce cl) w = Some (Inr hash, nonce, w')"
    unfolding broadcast_attempts.simps(2) [of _ _ _ _ _ _ "Suc (Suc 0)"] lost using run(1) by simp
  then have "SealObject sdk scope (Some m) cl w = Some (Inr hash, cl\<lparr>sealAccNonce := nonce\<rparr>, w')"
    using assms(2-4) by (simp add: SealObject_def BroadcastTxRetry_def numeral_3_eq_3)
  then show ?thesis using run(2) assms(8) by simp
qed

text \<open>
  The outcomes of rejections are counted the wrong way round: a rejection that succeeds is counted as failed, and one that fails as successful.
\<close>

theorem rejections_counted_wrong:
  assumes "module_RejectUnSealObject sdk m s = Some (err, s')"
  shows "sm_rejectFailed s' = sm_rejectFailed s + (if err = None then 1 else 0) \<and> sm_rejectSucceed s' = sm_rejectSucceed s + (if err = None then 0 else 1)"
proof -
  obtain r cl w where "Signer.RejectUnSealObject sdk SignSeal m (sm_client s) (sm_world s) = Some (r, cl, w)"
    using assms by (auto simp: module_RejectUnSealObject_def run_tx_def)
  then show ?thesis using assms by (cases r) (auto simp: module_RejectUnSealObject_def run_tx_def Let_def)
qed

section \<open>The theorems at work\<close>

text \<open>A chain with one account, whose answer to the next transaction may get lost. A number that is too small is refused by the code, one that is too large by an error.\<close>

record account_world =
  aw_seq :: uint64
  aw_txs :: "sdk_msg list"
  aw_height :: nat
  aw_lose :: bool

definition demo_sdk :: "(unit, unit, account_world) chain_sdk" where
  "demo_sdk =
    \<lparr>ck_NewPrivateKeyManager = (\<lambda>_. Inr ()), ck_NewGreenfieldClient = (\<lambda>_ _ _. Inr ()), ck_GetKeyManager = (\<lambda>_. Inr ()), ck_GetAddr = (\<lambda>_. [7]),
     ck_Sign = (\<lambda>_ m. Inr (7 # m)), ck_VerifySignature = (\<lambda>a m sig. sig = a @ m), ck_Keccak256 = (\<lambda>m. m),
     ck_GetNonce = (\<lambda>_ w. (Inr (aw_seq w), w)),
     ck_BroadcastTx = (\<lambda>_ msg opt w.
       if tx_Nonce opt = aw_seq w
       then (if aw_lose w then Inl (PlainErr ''lost'') else Inr (0, ''0a''), w\<lparr>aw_seq := aw_seq w + 1, aw_txs := aw_txs w @ [msg], aw_lose := False\<rparr>)
       else (if tx_Nonce opt < aw_seq w then Inr (32, []) else Inl (PlainErr ''account sequence mismatch''), w)),
     ck_GetLatestBlock = (\<lambda>_ w. (Inr (i64 (int (aw_height w))), w)), ck_Done = (\<lambda>w. (False, w\<lparr>aw_height := aw_height w + 1\<rparr>)),
     ck_AccAddressFromHexUnsafe = (\<lambda>_. Inr [8]), ck_bucket_ApprovalBytes = (\<lambda>_. [1]), ck_object_ApprovalBytes = (\<lambda>_. [2]), ck_approval_json = (\<lambda>_. [3]),
     ck_receive_json = (\<lambda>_. [4]), ck_recover_json = (\<lambda>_. [5]), ck_ping_json = (\<lambda>_. [6]), ck_pong_json = (\<lambda>_. [7]),
     ck_GenerateIntegrityHash = concat, ck_SecondarySpSignDoc = (\<lambda>a n h. a @ h)\<rparr>"

definition demo_account :: account_world where "demo_account = \<lparr>aw_seq = 5, aw_txs = [], aw_height = 9, aw_lose = False\<rparr>"

definition demo_sign_client :: "uint64 \<Rightarrow> unit GreenfieldChainSignClient" where
  "demo_sign_client nonce = \<lparr>gasInfo = (\<lambda>_. \<lparr>gi_GasLimit = 1200, gi_FeeAmount = [(''BNB'', 6)]\<rparr>), greenfieldClients = (\<lambda>_. ()), sealAccNonce = nonce, gcAccNonce = nonce\<rparr>"

definition demo_seal :: MsgSealObject where
  "demo_seal = \<lparr>mso_Operator = ''op'', mso_BucketName = ''b'', mso_ObjectName = ''o'', mso_SecondarySpAddresses = [''s''], mso_SecondarySpSignatures = [[1]]\<rparr>"

lemma demo_sdk_sequenced: "sequenced_chain demo_sdk c aw_seq aw_txs (\<lambda>w. i64 (int (aw_height w))) (\<lambda>_. 0) {w. \<not> aw_lose w}"
proof -
  have "DecodeString ''0a'' = Inr [10]" by code_simp
  moreover have "i64 (int (Suc n)) \<ge> i64 (i64 (int n) + 1)" for n by (simp add: i64_def algebra_simps mod_simps)
  ultimately show ?thesis by (auto simp: sequenced_chain_def same_account_def demo_sdk_def mismatch_answer_def error_text_def)
qed

lemma demo_sdk_key: "ck_GetKeyManager demo_sdk c = Inr ()" "parse_addresses demo_sdk (mso_SecondarySpAddresses demo_seal) = Inr [[8]]"
  "ck_GetAddr demo_sdk () = [7]"
  by (simp_all add: demo_sdk_def demo_seal_def)

lemma demo_account_answers: "demo_account \<in> {w. \<not> aw_lose w}" by (simp add: demo_account_def)

theorem seal_recovers_nonce_witness:
  "\<exists>hash cl' w'. SealObject demo_sdk SignSeal (Some demo_seal) (demo_sign_client 2) demo_account = Some (Inr hash, cl', w')
     \<and> sealAccNonce cl' = aw_seq w' \<and> aw_txs w' = [NewMsgSealObject [7] ''b'' ''o'' [[8]] [[1]]]"
  using seal_recovers_nonce [OF demo_sdk_sequenced demo_account_answers demo_sdk_key(1,2), where cl = "demo_sign_client 2" and scope = SignSeal]
  by (fastforce simp: demo_account_def demo_seal_def demo_sdk_key(3))

theorem stale_discontinue_fails_once_witness:
  "\<exists>err cl1 w1 hash cl2 w2. DiscontinueBucket demo_sdk SignGc \<lparr>mdb_BucketName = ''b'', mdb_Reason = ''r''\<rparr> (demo_sign_client 2) demo_account = Some (Inl err, cl1, w1)
     \<and> DiscontinueBucket demo_sdk SignGc \<lparr>mdb_BucketName = ''b'', mdb_Reason = ''r''\<rparr> cl1 w1 = Some (Inr hash, cl2, w2)"
proof -
  have "gcAccNonce (demo_sign_client 2) \<noteq> aw_seq demo_account" by (simp add: demo_sign_client_def demo_account_def)
  then show ?thesis
    using stale_discontinue_fails_once [OF demo_sdk_sequenced demo_account_answers demo_sdk_key(1), where cl = "demo_sign_client 2" and scope = SignGc] by blast
qed

theorem lost_answer_seals_twice_witness:
  "\<exists>hash cl' w'. SealObject demo_sdk SignSeal (Some demo_seal) (demo_sign_client 5) (demo_account\<lparr>aw_lose := True\<rparr>) = Some (Inr hash, cl', w')
     \<and> length (aw_txs w') = 2"
proof -
  let ?msg = "NewMsgSealObject [7] ''b'' ''o'' [[8]] [[1]]"
  let ?w1 = "demo_account\<lparr>aw_seq := 6, aw_txs := [?msg]\<rparr>"
  have lost: "ck_BroadcastTx demo_sdk (greenfieldClients (demo_sign_client 5) SignSeal) ?msg (tx_option (gasInfo (demo_sign_client 5) Seal) (sealAccNonce (demo_sign_client 5)))
      (demo_account\<lparr>aw_lose := True\<rparr>) = (Inl (PlainErr ''lost''), ?w1)"
    by (simp add: demo_sdk_def demo_account_def demo_sign_client_def)
  show ?thesis
    using lost_answer_seals_twice [OF demo_sdk_sequenced demo_sdk_key(1,2) _ lost]
    by (fastforce simp: demo_account_def demo_seal_def demo_sdk_key demo_sign_client_def)
qed

theorem rejections_counted_wrong_witness:
  "\<exists>s'. module_RejectUnSealObject demo_sdk None \<lparr>sm_client = demo_sign_client 5, sm_world = demo_account, sm_rejectSucceed = 0, sm_rejectFailed = 0,
     sm_discontinueSucceed = 0, sm_discontinueFailed = 0\<rparr> = Some (Some ErrSignerDanglingPointer, s') \<and> sm_rejectSucceed s' = 1"
proof -
  let ?s = "\<lparr>sm_client = demo_sign_client 5, sm_world = demo_account, sm_rejectSucceed = 0, sm_rejectFailed = 0, sm_discontinueSucceed = 0, sm_discontinueFailed = 0\<rparr>"
  obtain s' where s': "module_RejectUnSealObject demo_sdk None ?s = Some (Some ErrSignerDanglingPointer, s')"
    by (simp add: module_RejectUnSealObject_def run_tx_def Signer.RejectUnSealObject_def)
  show ?thesis using s' rejections_counted_wrong [OF s'] by simp
qed

end
