(* ===== verification/P2PNode.thy ===== *)
theory P2PNode
  imports GateAdmin Signer "HOL-Library.Product_Lexorder"
begin

text \<open>
  The network of providers: \<open>modular/p2p/p2pnode/peers.go\<close> (which nodes are known), \<open>approval.go\<close> and the collection of approvals in \<open>node.go\<close>.

  Messages are the bytes of a stream and their decoding is an argument. The approval protocol runs in many goroutines that share a map of
  channels and its lock: requests that wait for approvals, and one goroutine per response. Every interleaving is a run of \<open>node_step\<close>; the
  lock is only visible where a goroutine waits while it holds it, which is when the channel of a request is full. The list of known providers
  is the same during such a run: an update of it between two responses is left out.
\<close>

section \<open>Peers\<close>

text \<open>
  The peers of a provider are pointers into the map of all peers, from which nothing is ever deleted: here they are the keys of the map.
  \<open>pp_store\<close> is the peer store, the addresses of each node.
\<close>

record Peer =
  pe_sp :: string
  pe_addr :: string
  pe_last :: int64
  pe_failCnt :: int

record PeerProvider =
  pp_store :: "string \<Rightarrow> string set"
  pp_peers :: "string \<rightharpoonup> Peer"
  pp_spPeers :: "string \<rightharpoonup> string list"

definition PrunePeersNumberMax :: nat where "PrunePeersNumberMax = 10"
definition PeerSpUnspecified :: string where "PeerSpUnspecified = ''PEER_SP_UNSPECIFIED''"

definition NewPeerProvider :: "(string \<Rightarrow> string set) \<Rightarrow> PeerProvider" where
  "NewPeerProvider store = \<lparr>pp_store = store, pp_peers = Map.empty, pp_spPeers = Map.empty\<rparr>"

definition IncrFail :: "int64 \<Rightarrow> Peer \<Rightarrow> Peer" where "IncrFail now p = p\<lparr>pe_failCnt := i64 (pe_failCnt p + 1), pe_last := now\<rparr>"
definition Reset :: "int64 \<Rightarrow> Peer \<Rightarrow> Peer" where "Reset now p = p\<lparr>pe_failCnt := 0, pe_last := now\<rparr>"

definition UpdateSp :: "string list \<Rightarrow> PeerProvider \<Rightarrow> PeerProvider" where
  "UpdateSp SPs pr =
     (let peers_of = (\<lambda>sp. case pp_spPeers pr sp of None \<Rightarrow> [] | Some peers \<Rightarrow> peers) in
      pr\<lparr>pp_spPeers := (\<lambda>sp. if sp = PeerSpUnspecified \<or> sp \<in> set SPs then Some (peers_of sp) else None)\<rparr>)"

definition checkSP :: "string \<Rightarrow> PeerProvider \<Rightarrow> bool" where "checkSP sp pr \<longleftrightarrow> pp_spPeers pr sp \<noteq> None"

text \<open>Fewest failures first, then the latest; the sort is stable.\<close>

definition prune_order :: "(string \<rightharpoonup> Peer) \<Rightarrow> string list \<Rightarrow> string list" where
  "prune_order peers ids = sort_key (\<lambda>i. (pe_failCnt (the (peers i)), - pe_last (the (peers i)))) ids"

definition prunePeers :: "PeerProvider \<Rightarrow> PeerProvider" where
  "prunePeers pr =
     (let pruned = (\<lambda>ids. PrunePeersNumberMax < length ids);
          discard = {i. \<exists>sp ids. pp_spPeers pr sp = Some ids \<and> pruned ids \<and> i \<in> set (drop PrunePeersNumberMax (prune_order (pp_peers pr) ids))} in
      pr\<lparr>pp_store := (\<lambda>i. if i \<in> discard then {} else pp_store pr i),
         pp_spPeers := (\<lambda>sp. map_option (\<lambda>ids. if pruned ids then take PrunePeersNumberMax (prune_order (pp_peers pr) ids) else ids) (pp_spPeers pr sp))\<rparr>)"

definition DeletePeer :: "int64 \<Rightarrow> string \<Rightarrow> PeerProvider \<Rightarrow> PeerProvider" where
  "DeletePeer now peerID pr =
     (case pp_peers pr peerID of
        None \<Rightarrow> pr
      | Some p \<Rightarrow> prunePeers (pr\<lparr>pp_peers := (pp_peers pr)(peerID \<mapsto> IncrFail now p)\<rparr>))"

definition AddPeer :: "int64 \<Rightarrow> string \<Rightarrow> string \<Rightarrow> string \<Rightarrow> PeerProvider \<Rightarrow> PeerProvider" where
  "AddPeer now peerID sp addr pr =
     (let sp = (if pp_spPeers pr sp = None then PeerSpUnspecified else sp);
          node = (case pp_peers pr peerID of None \<Rightarrow> \<lparr>pe_sp = sp, pe_addr = addr, pe_last = 0, pe_failCnt = 0\<rparr> | Some p \<Rightarrow> p);
          ids = (case pp_spPeers pr sp of None \<Rightarrow> [] | Some ids \<Rightarrow> ids) in
      prunePeers (pr\<lparr>pp_peers := (pp_peers pr)(peerID \<mapsto> Reset now node),
                     pp_spPeers := (pp_spPeers pr)(sp \<mapsto> if peerID \<in> set ids then ids else ids @ [peerID])\<rparr>))"

datatype peer_event = PeerAdded int64 string string string | PeerFailed int64 string | SpsUpdated "string list"

fun peer_step :: "peer_event \<Rightarrow> PeerProvider \<Rightarrow> PeerProvider" where
  "peer_step (PeerAdded now peerID sp addr) pr = AddPeer now peerID sp addr pr"
| "peer_step (PeerFailed now peerID) pr = DeletePeer now peerID pr"
| "peer_step (SpsUpdated SPs) pr = UpdateSp SPs pr"

definition peers_ok :: "PeerProvider \<Rightarrow> bool" where
  "peers_ok pr \<longleftrightarrow> (\<forall>sp ids. pp_spPeers pr sp = Some ids \<longrightarrow> length ids \<le> PrunePeersNumberMax \<and> distinct ids \<and> (\<forall>i \<in> set ids. pp_peers pr i \<noteq> None))"

lemma prune_order_simps [simp]: "set (prune_order m ids) = set ids" "distinct (prune_order m ids) = distinct ids" "length (prune_order m ids) = length ids"
  by (simp_all add: prune_order_def)

lemma prunePeers_simps [simp]:
  "pp_peers (prunePeers pr) = pp_peers pr"
  "pp_spPeers (prunePeers pr) sp = map_option (\<lambda>ids. if PrunePeersNumberMax < length ids then take PrunePeersNumberMax (prune_order (pp_peers pr) ids) else ids) (pp_spPeers pr sp)"
  by (simp_all add: prunePeers_def Let_def)

lemma prunePeers_ok:
  assumes "\<forall>sp ids. pp_spPeers pr sp = Some ids \<longrightarrow> distinct ids \<and> (\<forall>i \<in> set ids. pp_peers pr i \<noteq> None)"
  shows "peers_ok (prunePeers pr)"
  unfolding peers_ok_def
proof (intro allI impI)
  fix sp ids assume "pp_spPeers (prunePeers pr) sp = Some ids"
  then obtain old where old: "pp_spPeers pr sp = Some old"
    "ids = (if PrunePeersNumberMax < length old then take PrunePeersNumberMax (prune_order (pp_peers pr) old) else old)" by auto
  then show "length ids \<le> PrunePeersNumberMax \<and> distinct ids \<and> (\<forall>i \<in> set ids. pp_peers (prunePeers pr) i \<noteq> None)"
    using assms set_take_subset [of PrunePeersNumberMax "prune_order (pp_peers pr) old"] by (auto dest!: subsetD)
qed

lemma peer_step_ok:
  assumes "peers_ok pr"
  shows "peers_ok (peer_step ev pr)"
proof -
  have lists: "distinct ids" "(\<forall>i \<in> set ids. pp_peers pr i \<noteq> None)" if "pp_spPeers pr sp = Some ids" for sp ids
    using assms that by (simp_all add: peers_ok_def)
  show ?thesis
  proof (cases ev)
    case (PeerAdded now peerID sp addr)
    let ?sp = "if pp_spPeers pr sp = None then PeerSpUnspecified else sp"
    let ?ids = "case pp_spPeers pr ?sp of None \<Rightarrow> [] | Some ids \<Rightarrow> ids"
    have "distinct ?ids" "\<forall>i \<in> set ?ids. pp_peers pr i \<noteq> None" using lists [of ?sp]
      by (cases "pp_spPeers pr ?sp"; simp split del: if_split del: not_None_eq)+
    then show ?thesis unfolding PeerAdded peer_step.simps AddPeer_def Let_def
      by (intro prunePeers_ok) (use lists in \<open>auto simp del: not_None_eq\<close>)
  next
    case (PeerFailed now peerID)
    then show ?thesis using assms lists by (auto simp: DeletePeer_def intro!: prunePeers_ok split: option.splits)
  next
    case (SpsUpdated SPs)
    then show ?thesis using assms by (auto simp: UpdateSp_def peers_ok_def Let_def split: if_splits option.splits)
  qed
qed

text \<open>The order of pruning asks for failures, but whether nodes are pruned only depends on their number.\<close>

lemma eleventh_healthy_pruned:
  assumes "pp_spPeers pr sp = Some ids" "length ids = 10" "distinct ids" "i \<notin> set ids"
    and healthy: "\<forall>j \<in> set ids. \<exists>p. pp_peers pr j = Some p \<and> pe_failCnt p = 0"
  shows "\<exists>j \<in> insert i (set ids). \<exists>p ids'. pp_peers (AddPeer now i sp addr pr) j = Some p \<and> pe_failCnt p = 0
    \<and> pp_spPeers (AddPeer now i sp addr pr) sp = Some ids' \<and> j \<notin> set ids' \<and> pp_store (AddPeer now i sp addr pr) j = {}"
proof -
  let ?node = "case pp_peers pr i of None \<Rightarrow> \<lparr>pe_sp = sp, pe_addr = addr, pe_last = 0, pe_failCnt = 0\<rparr> | Some p \<Rightarrow> p"
  let ?pr = "pr\<lparr>pp_peers := (pp_peers pr)(i \<mapsto> Reset now ?node), pp_spPeers := (pp_spPeers pr)(sp \<mapsto> ids @ [i])\<rparr>"
  let ?order = "prune_order (pp_peers ?pr) (ids @ [i])"
  have add: "AddPeer now i sp addr pr = prunePeers ?pr" using assms(1,4) by (simp add: AddPeer_def Let_def)
  have order: "length ?order = 11" "set ?order = insert i (set ids)" "distinct ?order" using assms(2-4) by auto
  then have split: "?order = take 10 ?order @ [?order ! 10]" using take_Suc_conv_app_nth [of 10 ?order] by simp
  let ?j = "?order ! 10"
  have j: "?j \<in> insert i (set ids)" using order(1,2) nth_mem [of 10 ?order] by simp
  have "?j \<notin> set (take 10 ?order)" using order(3) split by (metis distinct_append disjoint_iff list.set_intros(1))
  moreover have "?j \<in> set (drop 10 ?order)" using order(1) by (auto simp: in_set_conv_nth intro!: exI [of _ 0])
  moreover have "\<exists>p. pp_peers ?pr ?j = Some p \<and> pe_failCnt p = 0" using j healthy by (auto simp: Reset_def)
  ultimately show ?thesis unfolding add using j assms(2)
    by (intro bexI [of _ ?j]) (auto simp: prunePeers_def PrunePeersNumberMax_def Let_def intro!: exI [of _ sp])
qed

text \<open>
  C16. However nodes come, fail and change, and however the list of providers is updated, no provider has more than ten nodes, and
  none of them twice; every one of them is a known peer. The bound holds for healthy nodes as well, although the comments on the peer provider say that only nodes in a
  fail state, with multiple failed interactions, are pruned: when an eleventh node of a provider is added and none of the eleven has a failure, one of them
  is dropped from the list of the provider all the same, and its addresses are deleted.
\<close>

theorem peers_bounded:
  "(\<forall>sp ids. pp_spPeers (fold peer_step evs (NewPeerProvider store)) sp = Some ids
     \<longrightarrow> length ids \<le> 10 \<and> distinct ids \<and> (\<forall>i \<in> set ids. pp_peers (fold peer_step evs (NewPeerProvider store)) i \<noteq> None))
   \<and> (\<forall>pr sp ids i now addr. pp_spPeers pr sp = Some ids \<and> length ids = 10 \<and> distinct ids \<and> i \<notin> set ids
       \<and> (\<forall>j \<in> set ids. \<exists>p. pp_peers pr j = Some p \<and> pe_failCnt p = 0)
     \<longrightarrow> (\<exists>j \<in> insert i (set ids). \<exists>p ids'. pp_peers (AddPeer now i sp addr pr) j = Some p \<and> pe_failCnt p = 0
          \<and> pp_spPeers (AddPeer now i sp addr pr) sp = Some ids' \<and> j \<notin> set ids' \<and> pp_store (AddPeer now i sp addr pr) j = {}))"
proof -
  have "peers_ok (fold peer_step evs pr)" if "peers_ok pr" for pr
    using that by (induction evs arbitrary: pr) (auto intro: peer_step_ok)
  moreover have "peers_ok (NewPeerProvider store)" by (simp add: peers_ok_def NewPeerProvider_def)
  ultimately have "peers_ok (fold peer_step evs (NewPeerProvider store))" by blast
  then show ?thesis using eleventh_healthy_pruned by (simp add: peers_ok_def PrunePeersNumberMax_def)
qed

section \<open>Answering a request for approval\<close>

text \<open>
  \<open>pn_unmarshal\<close> decodes messages; height and signature of a request are the answers of the chain and of the signer. The other fields are used by pings:
  the node and address that is announced besides those of the peer store, the listing of the peer store, and parsing.
\<close>

record ('w, 'd) p2p_env =
  pn_admin :: "('w, 'd) admin_env"
  pn_unmarshal :: "bytes \<Rightarrow> GfSpReplicatePieceApprovalTask option"
  pn_secondaryApprovalExpiredHeight :: uint64
  pn_unmarshal_ping :: "bytes \<Rightarrow> GfSpPing option"
  pn_unmarshal_pong :: "bytes \<Rightarrow> GfSpPong option"
  pn_ping_json :: "GfSpPing \<Rightarrow> bytes"
  pn_pong_json :: "GfSpPong \<Rightarrow> bytes"
  pn_ant_node :: "(string \<times> string) option"
  pn_list_nodes :: "(string \<Rightarrow> string set) \<Rightarrow> (string \<times> string list) list"
  pn_Decode :: "string \<Rightarrow> string option"
  pn_NewMultiaddr :: "string \<Rightarrow> string option"

definition ComputeApprovalExpiredHeight :: "GfSpReplicatePieceApprovalTask \<Rightarrow> (go_error + uint64) go" where
  "ComputeApprovalExpiredHeight t =
     (case (ra_ObjectInfo t, ra_StorageParams t) of
        (Some ob, Some params) \<Rightarrow>
          let chunks = (ucast (RedundantDataChunkNum params + 1) :: uint64) in
          if chunks = 0 then Panics
          else Returns (Inr (PayloadSize ob div chunks div (1024 * 1024) div 8 + 100))
      | _ \<Rightarrow> Returns (Inl (PlainErr ''ask replicate piece approval param invalied'')))"

text \<open>The key of the task and the number of its object are evaluated for the log before anything is checked.\<close>

definition onGetApprovalRequest :: "('w, 'd) p2p_env \<Rightarrow> PeerProvider \<Rightarrow> bytes option \<Rightarrow> (go_error + uint64) \<Rightarrow> (GfSpReplicatePieceApprovalTask \<Rightarrow> go_error + bytes)
    \<Rightarrow> GfSpReplicatePieceApprovalTask option go" where
  "onGetApprovalRequest env pr buf height sign =
     (case buf of
        None \<Rightarrow> Returns None
      | Some buf \<Rightarrow>
          (case pn_unmarshal env buf of
             None \<Rightarrow> Returns None
           | Some req \<Rightarrow>
               if \<not> key_defined (ReplicatePieceApprovalTask req) \<or> ra_ObjectInfo req = None then Panics
               else if \<not> checkSP (ra_AskSpOperatorAddress req) pr then Returns None
               else if ra_AskSpOperatorAddress req = operator (pn_admin env) then Returns None
               else if \<not> p2p_VerifySignature (pn_admin env) (ra_AskSpOperatorAddress req) (ga_approval_SignBytes (pn_admin env) req) (ra_AskSignature req)
               then Returns None
               else (case height of
                  Inl _ \<Rightarrow> Returns None
                | Inr currentHeight \<Rightarrow>
                    bind_go (ComputeApprovalExpiredHeight req) (\<lambda>r.
                      let expiredHeight = (case r of Inl _ \<Rightarrow> 0 | Inr h \<Rightarrow> h);
                          expiredHeight = (if expiredHeight < pn_secondaryApprovalExpiredHeight env then pn_secondaryApprovalExpiredHeight env else expiredHeight);
                          req = req\<lparr>ra_ExpiredHeight := currentHeight + expiredHeight\<rparr> in
                      case sign req of
                        Inl _ \<Rightarrow> Returns None
                      | Inr signature \<Rightarrow>
                          Returns (Some (req\<lparr>ra_ApprovedSignature := signature, ra_ApprovedSpOperatorAddress := operator (pn_admin env)\<rparr>))))))"

section \<open>Pings\<close>

text \<open>
  A ping from \<open>peerID\<close> at \<open>addr\<close>: \<open>sign\<close> and \<open>send\<close> are the answers of the signer and of the stream. The result is the pong that was sent, if it was. A node
  whose ping is not answered counts as failed, twice if the pong cannot be sent: once where it is sent and once at the end of the handler.
\<close>

definition add_addrs :: "string \<Rightarrow> string set \<Rightarrow> PeerProvider \<Rightarrow> PeerProvider" where
  "add_addrs peerID addrs pr = pr\<lparr>pp_store := (pp_store pr)(peerID := pp_store pr peerID \<union> addrs)\<rparr>"

definition pong_of :: "('w, 'd) p2p_env \<Rightarrow> PeerProvider \<Rightarrow> GfSpPong" where
  "pong_of env pr =
     \<lparr>po_Nodes = pn_list_nodes env (pp_store pr) @ (case pn_ant_node env of None \<Rightarrow> [] | Some (node, addr) \<Rightarrow> [(node, [addr])]),
      po_SpOperatorAddress = operator (pn_admin env), po_Signature = []\<rparr>"

definition onPing :: "('w, 'd) p2p_env \<Rightarrow> int64 \<Rightarrow> string \<Rightarrow> string \<Rightarrow> bytes option \<Rightarrow> (GfSpPong \<Rightarrow> go_error + bytes) \<Rightarrow> (GfSpPong \<Rightarrow> bool) \<Rightarrow> PeerProvider
    \<Rightarrow> GfSpPong option \<times> PeerProvider" where
  "onPing env now peerID addr buf sign send pr =
     (case (case buf of None \<Rightarrow> None | Some buf \<Rightarrow> pn_unmarshal_ping env buf) of
        None \<Rightarrow> (None, DeletePeer now peerID pr)
      | Some ping \<Rightarrow>
          if \<not> p2p_VerifySignature (pn_admin env) (pi_SpOperatorAddress ping) (pn_ping_json env (ping_sign_doc ping)) (pi_Signature ping)
          then (None, DeletePeer now peerID pr)
          else
            let pr = AddPeer now peerID (pi_SpOperatorAddress ping) addr (add_addrs peerID {addr} pr);
                pong = pong_of env pr in
            (case sign pong of
               Inl _ \<Rightarrow> (None, DeletePeer now peerID pr)
             | Inr signature \<Rightarrow>
                 let pong = pong\<lparr>po_Signature := signature\<rparr> in
                 if send pong then (Some pong, pr) else (None, DeletePeer now peerID (DeletePeer now peerID pr))))"

fun learn_nodes :: "('w, 'd) p2p_env \<Rightarrow> (string \<times> string list) list \<Rightarrow> PeerProvider \<Rightarrow> PeerProvider" where
  "learn_nodes env [] pr = pr"
| "learn_nodes env ((node, maddrs) # nodes) pr =
     learn_nodes env nodes
       (case pn_Decode env node of None \<Rightarrow> pr | Some pID \<Rightarrow> add_addrs pID (set (List.map_filter (pn_NewMultiaddr env) maddrs)) pr)"

definition onPong :: "('w, 'd) p2p_env \<Rightarrow> int64 \<Rightarrow> string \<Rightarrow> string \<Rightarrow> bytes option \<Rightarrow> PeerProvider \<Rightarrow> PeerProvider" where
  "onPong env now peerID addr buf pr =
     (case (case buf of None \<Rightarrow> None | Some buf \<Rightarrow> pn_unmarshal_pong env buf) of
        None \<Rightarrow> DeletePeer now peerID pr
      | Some pong \<Rightarrow>
          if \<not> p2p_VerifySignature (pn_admin env) (po_SpOperatorAddress pong) (pn_pong_json env (pong_sign_doc pong)) (po_Signature pong)
          then DeletePeer now peerID pr
          else learn_nodes env (po_Nodes pong) (AddPeer now peerID (po_SpOperatorAddress pong) addr pr))"

text \<open>
  The messages that a node receives, each with the time, the sender and its address, and with what happens to the answer; and the broadcasts
  to a node that fail (\<open>sendToPeer\<close>).
\<close>

datatype heartbeat =
    Ping int64 string string "bytes option" "GfSpPong \<Rightarrow> go_error + bytes" "GfSpPong \<Rightarrow> bool"
  | Pong int64 string string "bytes option"
  | SendFailed int64 string
  | ProvidersUpdated "string list"

fun heartbeat_step :: "('w, 'd) p2p_env \<Rightarrow> heartbeat \<Rightarrow> PeerProvider \<Rightarrow> PeerProvider" where
  "heartbeat_step env (Ping now peerID addr buf sign send) pr = snd (onPing env now peerID addr buf sign send pr)"
| "heartbeat_step env (Pong now peerID addr buf) pr = onPong env now peerID addr buf pr"
| "heartbeat_step env (SendFailed now peerID) pr = DeletePeer now peerID pr"
| "heartbeat_step env (ProvidersUpdated SPs) pr = UpdateSp SPs pr"

text \<open>The node and the provider that a message introduces, if it is signed by this provider.\<close>

fun introduces :: "('w, 'd) p2p_env \<Rightarrow> heartbeat \<Rightarrow> (string \<times> string) option" where
  "introduces env (Ping now peerID addr buf sign send) =
     (case (case buf of None \<Rightarrow> None | Some buf \<Rightarrow> pn_unmarshal_ping env buf) of
        None \<Rightarrow> None
      | Some ping \<Rightarrow> if p2p_VerifySignature (pn_admin env) (pi_SpOperatorAddress ping) (pn_ping_json env (ping_sign_doc ping)) (pi_Signature ping)
                     then Some (peerID, pi_SpOperatorAddress ping) else None)"
| "introduces env (Pong now peerID addr buf) =
     (case (case buf of None \<Rightarrow> None | Some buf \<Rightarrow> pn_unmarshal_pong env buf) of
        None \<Rightarrow> None
      | Some pong \<Rightarrow> if p2p_VerifySignature (pn_admin env) (po_SpOperatorAddress pong) (pn_pong_json env (pong_sign_doc pong)) (po_Signature pong)
                     then Some (peerID, po_SpOperatorAddress pong) else None)"
| "introduces env (SendFailed now peerID) = None"
| "introduces env (ProvidersUpdated SPs) = None"

definition listed_by :: "(string \<times> string) set \<Rightarrow> PeerProvider \<Rightarrow> bool" where
  "listed_by K pr \<longleftrightarrow> (\<forall>sp ids i. pp_spPeers pr sp = Some ids \<and> i \<in> set ids \<and> sp \<noteq> PeerSpUnspecified \<longrightarrow> (i, sp) \<in> K)"

lemma add_addrs_simps [simp]: "pp_spPeers (add_addrs i a pr) = pp_spPeers pr" "pp_peers (add_addrs i a pr) = pp_peers pr"
  by (simp_all add: add_addrs_def)

lemma learn_nodes_simps [simp]: "pp_spPeers (learn_nodes env nodes pr) = pp_spPeers pr" "pp_peers (learn_nodes env nodes pr) = pp_peers pr"
  by (induction nodes arbitrary: pr rule: list.induct) (auto split: option.splits)

lemma prunePeers_listed:
  assumes "listed_by K pr"
  shows "listed_by K (prunePeers pr)"
  unfolding listed_by_def
proof (intro allI impI, elim conjE)
  fix sp ids i assume "pp_spPeers (prunePeers pr) sp = Some ids" and i: "i \<in> set ids" "sp \<noteq> PeerSpUnspecified"
  then obtain old where old: "pp_spPeers pr sp = Some old"
    "ids = (if PrunePeersNumberMax < length old then take PrunePeersNumberMax (prune_order (pp_peers pr) old) else old)" by auto
  then have "i \<in> set old" using i(1) in_set_takeD [of i PrunePeersNumberMax "prune_order (pp_peers pr) old"] by (auto split: if_splits)
  then show "(i, sp) \<in> K" using assms i(2) old(1) unfolding listed_by_def by blast
qed

lemma DeletePeer_listed: "listed_by K pr \<Longrightarrow> listed_by K (DeletePeer now i pr)"
  by (auto simp: DeletePeer_def intro!: prunePeers_listed split: option.splits) (simp_all add: listed_by_def)

lemma AddPeer_listed:
  assumes "listed_by K pr"
  shows "listed_by (insert (i, sp) K) (AddPeer now i sp addr pr)"
  unfolding AddPeer_def Let_def
  by (rule prunePeers_listed) (use assms in \<open>auto simp: listed_by_def split: if_splits option.splits\<close>)

lemma listed_by_mono: "listed_by K pr \<Longrightarrow> K \<subseteq> K' \<Longrightarrow> listed_by K' pr"
  by (auto simp: listed_by_def)

lemma heartbeat_step_listed:
  assumes "listed_by K pr"
  shows "listed_by (K \<union> set_option (introduces env ev)) (heartbeat_step env ev pr)"
proof (cases ev)
  case (ProvidersUpdated SPs)
  have "(i, sp) \<in> K" if "pp_spPeers (UpdateSp SPs pr) sp = Some ids" "i \<in> set ids" "sp \<noteq> PeerSpUnspecified" for sp ids i
    using assms that unfolding listed_by_def by (auto simp: UpdateSp_def Let_def split: if_splits option.splits)
  then show ?thesis using ProvidersUpdated by (auto simp: listed_by_def)
next
  case (SendFailed now i)
  then show ?thesis using DeletePeer_listed [OF assms] by simp
next
  case (Pong now i addr buf)
  have learn: "listed_by (insert (i, sp) K) (learn_nodes env nodes (AddPeer now i sp addr pr))" for sp nodes
    using AddPeer_listed [OF assms] by (simp add: listed_by_def)
  show ?thesis using Pong DeletePeer_listed [OF assms] learn by (auto simp: onPong_def split: option.splits)
next
  case (Ping now i addr buf sign send)
  have "listed_by K (add_addrs i {addr} pr)" using assms by (simp add: listed_by_def)
  then show ?thesis
    using Ping DeletePeer_listed [OF assms] DeletePeer_listed [OF AddPeer_listed] DeletePeer_listed [OF DeletePeer_listed [OF AddPeer_listed]] AddPeer_listed
    by (auto simp: onPing_def Let_def split: option.splits sum.splits)
qed

text \<open>
  C18. A node is only taken for a node of a provider after a message that this provider signed: in whatever order pings, pongs, failed broadcasts and updates of the providers come,
  for each node in the list of a provider there was a ping or pong from this node with a signature of this provider.
\<close>

theorem listed_peers_introduced:
  assumes "pp_spPeers (fold (heartbeat_step env) evs (NewPeerProvider store)) sp = Some ids" "i \<in> set ids" "sp \<noteq> PeerSpUnspecified"
  shows "\<exists>ev \<in> set evs. introduces env ev = Some (i, sp)"
proof -
  have run: "listed_by (K \<union> (\<Union>ev \<in> set evs. set_option (introduces env ev))) (fold (heartbeat_step env) evs pr)" if "listed_by K pr" for K pr
    using that
  proof (induction evs arbitrary: K pr)
    case (Cons ev evs)
    then show ?case using Cons.IH [OF heartbeat_step_listed [OF Cons.prems, of env ev]] by (simp add: Un_assoc)
  qed simp
  have "listed_by {} (NewPeerProvider store)" by (simp add: listed_by_def NewPeerProvider_def)
  from run [OF this] have "(i, sp) \<in> {} \<union> (\<Union>ev \<in> set evs. set_option (introduces env ev))" using assms unfolding listed_by_def by blast
  then show ?thesis by (simp add: elem_set)
qed

text \<open>
  The ping of a provider can be sent by anybody: its signature covers nothing but the address of the provider, so the same bytes
  introduce every node that sends them, at any time.
\<close>

theorem ping_replayed:
  assumes "introduces env (Ping now i addr buf sign send) = Some (i, sp)"
  shows "introduces env (Ping now' j addr' buf sign' send') = Some (j, sp)"
  using assms by (auto split: option.splits if_splits)

section \<open>Collecting approvals\<close>

text \<open>What becomes of a response: \<open>None\<close> when it is dropped, otherwise it goes to the waiting request.\<close>

definition onGetApprovalResponse :: "('w, 'd) p2p_env \<Rightarrow> PeerProvider \<Rightarrow> bytes option \<Rightarrow> GfSpReplicatePieceApprovalTask option go" where
  "onGetApprovalResponse env pr buf =
     (case buf of
        None \<Rightarrow> Returns None
      | Some buf \<Rightarrow>
          (case pn_unmarshal env buf of
             None \<Rightarrow> Returns None
           | Some resp \<Rightarrow>
               if \<not> key_defined (ReplicatePieceApprovalTask resp) \<or> ra_ObjectInfo resp = None then Panics
               else if \<not> p2p_VerifySignature (pn_admin env) (ra_ApprovedSpOperatorAddress resp) (ga_approval_SignBytes (pn_admin env) resp) (ra_ApprovedSignature resp)
               then Returns None
               else if \<not> checkSP (ra_ApprovedSpOperatorAddress resp) pr then Returns None
               else if ra_ApprovedSpOperatorAddress resp = operator (pn_admin env) then Returns None
               else Returns (Some resp)))"

definition ResponseChannelSize :: nat where "ResponseChannelSize = 12"

record asking =
  as_expected :: int
  as_accept :: "GfSpReplicatePieceApprovalTask list"
  as_done :: bool

text \<open>
  \<open>an_response\<close> is the map of channels, \<open>an_lock\<close> the goroutine that holds the lock while it waits to send, \<open>an_asking\<close> the requests that run and
  \<open>an_results\<close> what they returned. A crash of a handler ends the process.
\<close>

record approval_node =
  an_response :: "uint64 \<rightharpoonup> GfSpReplicatePieceApprovalTask list"
  an_lock :: "(uint64 \<times> GfSpReplicatePieceApprovalTask) option"
  an_asking :: "uint64 \<rightharpoonup> asking"
  an_results :: "(uint64 \<times> GfSpReplicatePieceApprovalTask list) list"
  an_crashed :: bool

definition new_node :: approval_node where
  "new_node = \<lparr>an_response = Map.empty, an_lock = None, an_asking = Map.empty, an_results = [], an_crashed = False\<rparr>"

text \<open>\<open>hangApprovalRequest\<close>, the signature and the broadcast of a request; a request that is not signed ends at once.\<close>

definition hangApprovalRequest :: "uint64 \<Rightarrow> int \<Rightarrow> bool \<Rightarrow> approval_node \<Rightarrow> approval_node" where
  "hangApprovalRequest i expected sent s =
     (if an_response s i \<noteq> None then s
      else s\<lparr>an_response := (an_response s)(i \<mapsto> []), an_asking := (an_asking s)(i \<mapsto> \<lparr>as_expected = expected, as_accept = [], as_done = \<not> sent\<rparr>)\<rparr>)"

definition notifyApprovalResponse :: "GfSpReplicatePieceApprovalTask \<Rightarrow> approval_node \<Rightarrow> approval_node" where
  "notifyApprovalResponse resp s =
     (let i = Id (object_of (ra_ObjectInfo resp)) in
      case an_response s i of
        None \<Rightarrow> s
      | Some ch \<Rightarrow> if length ch < ResponseChannelSize then s\<lparr>an_response := (an_response s)(i \<mapsto> ch @ [resp])\<rparr> else s\<lparr>an_lock := Some (i, resp)\<rparr>)"

definition cancelApprovalRequest :: "uint64 \<Rightarrow> approval_node \<Rightarrow> approval_node" where
  "cancelApprovalRequest i s = s\<lparr>an_response := (an_response s)(i := None)\<rparr>"

text \<open>The request takes an approval from its channel, which lets a waiting sender go on; \<open>height\<close> is the answer of the chain, if there is one.\<close>

definition take_approval :: "uint64 \<Rightarrow> approval_node \<Rightarrow> (GfSpReplicatePieceApprovalTask \<times> approval_node) option" where
  "take_approval i s =
     (case an_response s i of
        Some (approval # ch) \<Rightarrow>
          (case an_lock s of
             Some (j, resp) \<Rightarrow> if i = j then Some (approval, s\<lparr>an_response := (an_response s)(i \<mapsto> ch @ [resp]), an_lock := None\<rparr>)
                               else Some (approval, s\<lparr>an_response := (an_response s)(i \<mapsto> ch)\<rparr>)
           | None \<Rightarrow> Some (approval, s\<lparr>an_response := (an_response s)(i \<mapsto> ch)\<rparr>))
      | _ \<Rightarrow> None)"

definition count_approval :: "GfSpReplicatePieceApprovalTask \<Rightarrow> uint64 option \<Rightarrow> asking \<Rightarrow> asking" where
  "count_approval approval height q =
     (if (case height of None \<Rightarrow> False | Some currentHeight \<Rightarrow> ra_ExpiredHeight approval < currentHeight) then q
      else let accept = as_accept q @ [approval] in q\<lparr>as_accept := accept, as_done := int (length accept) \<ge> as_expected q\<rparr>)"

datatype node_action = Ask uint64 int bool | Respond "bytes option" | Collect uint64 "uint64 option" | Timeout uint64 | Cancel uint64

fun node_step :: "('w, 'd) p2p_env \<Rightarrow> PeerProvider \<Rightarrow> node_action \<Rightarrow> approval_node \<Rightarrow> approval_node option" where
  "node_step env pr (Ask i expected sent) s = (if an_lock s \<noteq> None then None else Some (hangApprovalRequest i expected sent s))"
| "node_step env pr (Respond buf) s =
     (case onGetApprovalResponse env pr buf of
        Panics \<Rightarrow> Some (s\<lparr>an_crashed := True\<rparr>)
      | Returns None \<Rightarrow> Some s
      | Returns (Some resp) \<Rightarrow> if an_lock s \<noteq> None then None else Some (notifyApprovalResponse resp s))"
| "node_step env pr (Collect i height) s =
     (case (an_asking s i, take_approval i s) of
        (Some q, Some (approval, s)) \<Rightarrow> if as_done q then None else Some (s\<lparr>an_asking := (an_asking s)(i \<mapsto> count_approval approval height q)\<rparr>)
      | _ \<Rightarrow> None)"
| "node_step env pr (Timeout i) s =
     (case an_asking s i of Some q \<Rightarrow> Some (s\<lparr>an_asking := (an_asking s)(i \<mapsto> q\<lparr>as_done := True\<rparr>)\<rparr>) | None \<Rightarrow> None)"
| "node_step env pr (Cancel i) s =
     (case an_asking s i of
        Some q \<Rightarrow> if as_done q \<and> an_lock s = None
                  then Some (cancelApprovalRequest i (s\<lparr>an_asking := (an_asking s)(i := None), an_results := (i, as_accept q) # an_results s\<rparr>)) else None
      | None \<Rightarrow> None)"

text \<open>Nothing happens in a process that has crashed.\<close>

fun node_run :: "('w, 'd) p2p_env \<Rightarrow> PeerProvider \<Rightarrow> node_action list \<Rightarrow> approval_node \<Rightarrow> approval_node option" where
  "node_run env pr [] s = Some s"
| "node_run env pr (a # as) s = (if an_crashed s then None else case node_step env pr a s of None \<Rightarrow> None | Some s \<Rightarrow> node_run env pr as s)"

section \<open>What is collected\<close>

text \<open>An approval that a provider signed: another one, known, and with a signature that is verified.\<close>

definition genuine :: "('w, 'd) p2p_env \<Rightarrow> PeerProvider \<Rightarrow> uint64 \<Rightarrow> GfSpReplicatePieceApprovalTask \<Rightarrow> bool" where
  "genuine env pr i t \<longleftrightarrow> (\<exists>ob. ra_ObjectInfo t = Some ob \<and> Id ob = i) \<and> checkSP (ra_ApprovedSpOperatorAddress t) pr
     \<and> ra_ApprovedSpOperatorAddress t \<noteq> operator (pn_admin env)
     \<and> p2p_VerifySignature (pn_admin env) (ra_ApprovedSpOperatorAddress t) (ga_approval_SignBytes (pn_admin env) t) (ra_ApprovedSignature t)"

definition all_genuine :: "('w, 'd) p2p_env \<Rightarrow> PeerProvider \<Rightarrow> approval_node \<Rightarrow> bool" where
  "all_genuine env pr s \<longleftrightarrow> (\<forall>i ch. an_response s i = Some ch \<longrightarrow> list_all (genuine env pr i) ch)
     \<and> (\<forall>i t. an_lock s = Some (i, t) \<longrightarrow> genuine env pr i t)
     \<and> (\<forall>i q. an_asking s i = Some q \<longrightarrow> list_all (genuine env pr i) (as_accept q))
     \<and> (\<forall>i ts. (i, ts) \<in> set (an_results s) \<longrightarrow> list_all (genuine env pr i) ts)"

lemma response_genuine: "onGetApprovalResponse env pr buf = Returns (Some t) \<Longrightarrow> genuine env pr (Id (object_of (ra_ObjectInfo t))) t"
  by (auto simp: onGetApprovalResponse_def genuine_def object_of_def split: option.splits if_splits)

lemma take_approval_genuine:
  assumes "take_approval i s = Some (t, s')" "all_genuine env pr s"
  shows "genuine env pr i t \<and> all_genuine env pr s'"
proof -
  obtain ch where ch: "an_response s i = Some (t # ch)"
    using assms(1) by (auto simp: take_approval_def split: option.splits list.splits if_splits)
  then have "list_all (genuine env pr i) (t # ch)" using assms(2) unfolding all_genuine_def by blast
  then show ?thesis using assms ch unfolding all_genuine_def take_approval_def
    by (auto split: option.splits if_splits)
qed

lemma node_step_genuine:
  assumes "all_genuine env pr s" "node_step env pr a s = Some s'"
  shows "all_genuine env pr s'"
proof (cases a)
  case (Ask i expected sent)
  then show ?thesis using assms by (auto simp: hangApprovalRequest_def all_genuine_def split: if_splits)
next
  case (Respond buf)
  then show ?thesis
    using assms response_genuine [of env pr buf]
    by (auto simp: notifyApprovalResponse_def all_genuine_def Let_def split: go.splits option.splits if_splits)
next
  case (Collect i height)
  then obtain q t s1 where s1: "an_asking s i = Some q" "take_approval i s = Some (t, s1)" "s' = s1\<lparr>an_asking := (an_asking s1)(i \<mapsto> count_approval t height q)\<rparr>"
    using assms(2) by (auto split: option.splits prod.splits if_splits)
  note g = take_approval_genuine [OF s1(2) assms(1)]
  have "list_all (genuine env pr i) (as_accept (count_approval t height q))"
    using assms(1) s1(1) g by (auto simp: count_approval_def all_genuine_def Let_def)
  then show ?thesis using g s1(3) by (auto simp: all_genuine_def)
next
  case (Timeout i)
  then show ?thesis using assms by (auto simp: all_genuine_def split: option.splits if_splits)
next
  case (Cancel i)
  then show ?thesis using assms by (auto simp: all_genuine_def cancelApprovalRequest_def split: option.splits if_splits)
qed

lemma node_run_invariant:
  assumes "\<And>a s s'. J s \<Longrightarrow> node_step env pr a s = Some s' \<Longrightarrow> J s'" "J s" "node_run env pr as s = Some s'"
  shows "J s'"
  using assms(2,3) by (induction "as" arbitrary: s) (auto split: option.splits if_splits intro: assms(1))

text \<open>
  C15. The approvals that a request returns are approvals of other providers for its object: in every interleaving of requests and
  responses, each of them is for the object of the request, names a known provider other than this one, and carries a signature
  of this provider over the approval.
\<close>

theorem collected_approvals_genuine:
  assumes "node_run env pr as new_node = Some s" "(i, ts) \<in> set (an_results s)" "t \<in> set ts"
  shows "(\<exists>ob. ra_ObjectInfo t = Some ob \<and> Id ob = i) \<and> checkSP (ra_ApprovedSpOperatorAddress t) pr
    \<and> ra_ApprovedSpOperatorAddress t \<noteq> operator (pn_admin env)
    \<and> p2p_VerifySignature (pn_admin env) (ra_ApprovedSpOperatorAddress t) (ga_approval_SignBytes (pn_admin env) t) (ra_ApprovedSignature t)"
proof -
  have "all_genuine env pr new_node" by (simp add: all_genuine_def new_node_def)
  then have "all_genuine env pr s" using node_run_invariant [where J = "all_genuine env pr", OF _ _ assms(1)] node_step_genuine by blast
  then have "genuine env pr i t" using assms(2,3) unfolding all_genuine_def list_all_iff by blast
  then show ?thesis by (simp add: genuine_def)
qed

section \<open>Where the protocol fails\<close>

text \<open>A sender waits with the lock for a request that does not read any more.\<close>

definition jammed :: "uint64 \<Rightarrow> approval_node \<Rightarrow> bool" where
  "jammed i s \<longleftrightarrow> (\<exists>t. an_lock s = Some (i, t)) \<and> (\<exists>q. an_asking s i = Some q \<and> as_done q)"

lemma jammed_step:
  assumes "jammed i s" "node_step env pr a s = Some s'"
  shows "jammed i s' \<and> an_results s' = an_results s"
proof (cases a)
  case (Collect j height)
  then obtain q t s1 where s1: "an_asking s j = Some q" "take_approval j s = Some (t, s1)" "\<not> as_done q"
    "s' = s1\<lparr>an_asking := (an_asking s1)(j \<mapsto> count_approval t height q)\<rparr>"
    using assms(2) by (auto split: option.splits prod.splits if_splits)
  then have "j \<noteq> i" using assms(1) by (auto simp: jammed_def)
  then have "an_lock s1 = an_lock s" "an_asking s1 = an_asking s" "an_results s1 = an_results s"
    using s1(2) assms(1) by (auto simp: take_approval_def jammed_def split: option.splits list.splits if_splits)
  then show ?thesis using s1(4) \<open>j \<noteq> i\<close> assms(1) by (auto simp: jammed_def)
qed (use assms in \<open>auto simp: jammed_def split: option.splits go.splits if_splits\<close>)

definition jamming :: "uint64 \<Rightarrow> bytes \<Rightarrow> node_action list" where
  "jamming i buf = [Ask i 1 True, Respond (Some buf), Collect i None] @ replicate 13 (Respond (Some buf))"

lemma jamming_run:
  assumes "onGetApprovalResponse env pr (Some buf) = Returns (Some t)" "Id (object_of (ra_ObjectInfo t)) = i"
  shows "\<exists>s. node_run env pr (jamming i buf) new_node = Some s \<and> jammed i s \<and> an_results s = []"
  using assms
  by (simp add: jamming_def numeral_eq_Suc new_node_def hangApprovalRequest_def notifyApprovalResponse_def take_approval_def count_approval_def
      ResponseChannelSize_def jammed_def Let_def)

text \<open>
  C25. Thirteen approvals too many stop the protocol: a request that has enough approvals takes the lock to remove its channel; if by then
  thirteen more responses have arrived, the channel is full, the last sender waits on it with the lock, and from then on,
  whatever happens, no request ever returns and no new one can start.
\<close>

theorem surplus_approvals_jam_protocol:
  assumes "onGetApprovalResponse env pr (Some buf) = Returns (Some t)" "Id (object_of (ra_ObjectInfo t)) = i"
  shows "\<exists>s. node_run env pr (jamming i buf) new_node = Some s
    \<and> (\<forall>as s'. node_run env pr as s = Some s' \<longrightarrow> an_results s' = [] \<and> (\<forall>j expected sent. node_step env pr (Ask j expected sent) s' = None))"
proof -
  obtain s where s: "node_run env pr (jamming i buf) new_node = Some s" "jammed i s" "an_results s = []" using jamming_run [OF assms] by blast
  have "jammed i s' \<and> an_results s' = []" if "node_run env pr as s = Some s'" for "as" s'
    by (rule node_run_invariant [where J = "\<lambda>s. jammed i s \<and> an_results s = []", OF _ _ that]) (use s jammed_step in \<open>metis+\<close>)
  moreover have "node_step env pr (Ask j expected sent) s' = None" if "jammed i s'" for s' j expected sent using that by (auto simp: jammed_def)
  ultimately show ?thesis using s(1) by blast
qed

text \<open>
  A message without an object crashes the node: the handlers of requests and responses evaluate the number of the object
  before they look at the sender or at a signature.
\<close>

theorem malformed_message_crashes:
  assumes "pn_unmarshal env buf = Some t" "ra_ObjectInfo t = None"
  shows "onGetApprovalRequest env pr (Some buf) height sign = Panics \<and> onGetApprovalResponse env pr (Some buf) = Panics"
  using assms by (simp add: onGetApprovalRequest_def onGetApprovalResponse_def)

text \<open>
  An approval is only given to another known provider that signed the request, and it expires the configured number of blocks after the current
  one or later, as long as heights do not wrap.
\<close>

theorem approval_given_to_provider:
  assumes "onGetApprovalRequest env pr (Some buf) (Inr currentHeight) sign = Returns (Some resp)" "pn_unmarshal env buf = Some req"
  shows "checkSP (ra_AskSpOperatorAddress req) pr \<and> ra_AskSpOperatorAddress req \<noteq> operator (pn_admin env)
    \<and> p2p_VerifySignature (pn_admin env) (ra_AskSpOperatorAddress req) (ga_approval_SignBytes (pn_admin env) req) (ra_AskSignature req)
    \<and> (\<exists>h. h \<ge> pn_secondaryApprovalExpiredHeight env \<and> ra_ExpiredHeight resp = currentHeight + h
         \<and> sign (req\<lparr>ra_ExpiredHeight := currentHeight + h\<rparr>) = Inr (ra_ApprovedSignature resp) \<and> ra_ApprovedSpOperatorAddress resp = operator (pn_admin env))"
proof -
  obtain r where r: "ComputeApprovalExpiredHeight req = Returns r"
    using assms by (cases "ComputeApprovalExpiredHeight req") (auto simp: onGetApprovalRequest_def Let_def split: if_splits)
  let ?h0 = "case r of Inl _ \<Rightarrow> 0 | Inr h \<Rightarrow> h"
  let ?h = "if ?h0 < pn_secondaryApprovalExpiredHeight env then pn_secondaryApprovalExpiredHeight env else ?h0"
  have "?h \<ge> pn_secondaryApprovalExpiredHeight env" by (auto simp: not_less)
  moreover have "sign (req\<lparr>ra_ExpiredHeight := currentHeight + ?h\<rparr>) = Inr (ra_ApprovedSignature resp)" "ra_ExpiredHeight resp = currentHeight + ?h"
    "ra_ApprovedSpOperatorAddress resp = operator (pn_admin env)"
    using assms r by (auto simp: onGetApprovalRequest_def Let_def split: if_splits sum.splits)
  moreover have "checkSP (ra_AskSpOperatorAddress req) pr" "ra_AskSpOperatorAddress req \<noteq> operator (pn_admin env)"
    "p2p_VerifySignature (pn_admin env) (ra_AskSpOperatorAddress req) (ga_approval_SignBytes (pn_admin env) req) (ra_AskSignature req)"
    using assms by (auto simp: onGetApprovalRequest_def split: if_splits)
  ultimately show ?thesis by blast
qed

section \<open>The module\<close>

text \<open>
  The module keeps the requests that run in a queue; \<open>ask\<close> is what \<open>GetSecondaryReplicatePieceApproval\<close> returns, whose steps are above. \<open>mp_integrity\<close> is the hash of
  the providers that the loop of the module has seen last.
\<close>

record p2p_module =
  mp_queue :: "unit tqueue"
  mp_peers :: PeerProvider
  mp_integrity :: bytes

definition ErrP2PRepeatedTask :: go_error where "ErrP2PRepeatedTask = GfSpErr (registered (''p2p'', StatusBadRequest, 70001, ''request repeated''))"
definition ErrP2PInsufficientApproval :: go_error where
  "ErrP2PInsufficientApproval = GfSpErr (registered (''p2p'', StatusNotFound, 70002, ''insufficient approvals as secondary sp''))"
definition ErrReplicatePieceApprovalTaskDangling :: GfSpError where
  "ErrReplicatePieceApprovalTaskDangling = registered (''gfsp-base-app'', StatusBadRequest, 990701, ''OoooH... request lost'')"

definition HandleReplicatePieceApproval :: "(GfSpReplicatePieceApprovalTask \<Rightarrow> int \<Rightarrow> int64 \<Rightarrow> go_error + GfSpReplicatePieceApprovalTask list) \<Rightarrow> int64 \<Rightarrow> int64 \<Rightarrow> int64
    \<Rightarrow> GfSpReplicatePieceApprovalTask \<Rightarrow> int32 \<Rightarrow> int32 \<Rightarrow> int64 \<Rightarrow> p2p_module \<Rightarrow> ((go_error + GfSpReplicatePieceApprovalTask list) \<times> p2p_module) go" where
  "HandleReplicatePieceApproval ask n1 n2 n3 t low high timeout p =
     (let at = ReplicatePieceApprovalTask t in
      if \<not> key_defined at then Panics
      else case Has n1 (mp_queue p) (Key at) of
        (True, q) \<Rightarrow> Returns (Inl ErrP2PRepeatedTask, p\<lparr>mp_queue := q\<rparr>)
      | (False, q) \<Rightarrow>
          (case Push n2 q at of
             (Some err, q) \<Rightarrow> Returns (Inl (GfSpErr err), p\<lparr>mp_queue := q\<rparr>)
           | (None, q) \<Rightarrow>
               Returns (case ask t high timeout of
                  Inl err \<Rightarrow> Inl err
                | Inr approvals \<Rightarrow> if int (length approvals) < low then Inl ErrP2PInsufficientApproval else Inr approvals,
                p\<lparr>mp_queue := snd (PopByKey n3 q (Key at))\<rparr>)))"

text \<open>The call itself fails when there is no task, and otherwise the response has an error and approvals.\<close>

definition GfSpAskSecondaryReplicatePieceApproval where
  "GfSpAskSecondaryReplicatePieceApproval ask n1 n2 n3 task low high timeout p =
     (case task of
        None \<Rightarrow> Returns (Inl ErrReplicatePieceApprovalTaskDangling, p)
      | Some t \<Rightarrow> bind_go (HandleReplicatePieceApproval ask n1 n2 n3 t low high timeout p) (\<lambda>(r, p). Returns (Inr (response_of [] r), p)))"

definition AskSecondaryReplicatePieceApproval where
  "AskSecondaryReplicatePieceApproval conn ask n1 n2 n3 t low high timeout p =
     (if \<not> conn then (Inl ErrRpcUnknown, p)
      else case GfSpAskSecondaryReplicatePieceApproval ask n1 n2 n3 (Some t) (i32 low) (i32 high) timeout p of
        Panics \<Rightarrow> (Inl ErrRpcUnknown, p)
      | Returns (Inl _, p) \<Rightarrow> (Inl ErrRpcUnknown, p)
      | Returns (Inr (Some e, _), p) \<Rightarrow> (Inl (GfSpErr e), p)
      | Returns (Inr (None, approvals), p) \<Rightarrow> (Inr approvals, p))"

text \<open>The loop of the module updates the providers when their list in the database has changed.\<close>

definition update_tick :: "(bytes list \<Rightarrow> bytes) \<Rightarrow> (go_error + string list) \<Rightarrow> p2p_module \<Rightarrow> p2p_module" where
  "update_tick GenerateIntegrityHash sps p =
     (case sps of
        Inl _ \<Rightarrow> p
      | Inr spOpAddrs \<Rightarrow>
          let spOpAddrs = sort spOpAddrs;
              currentIntegrity = GenerateIntegrityHash (map string_bytes spOpAddrs) in
          if currentIntegrity = mp_integrity p then p
          else p\<lparr>mp_integrity := currentIntegrity, mp_peers := UpdateSp spOpAddrs (mp_peers p)\<rparr>)"

lemma p2p_errors_reported:
  "MakeGfSpError (Some ErrP2PInsufficientApproval) \<noteq> None" "MakeGfSpError (Some ErrP2PRepeatedTask) \<noteq> None"
  "Push now q t = (Some err, q') \<Longrightarrow> MakeGfSpError (Some (GfSpErr err)) \<noteq> None"
  by (auto simp: MakeGfSpError_def ErrP2PInsufficientApproval_def ErrP2PRepeatedTask_def registered_def i32_def Push_def ErrTaskRepeated_def ErrTaskQueueExceed_def tqueue_errors_def
      split: prod.splits bool.splits if_splits option.splits)

lemma HandleReplicatePieceApproval_result:
  assumes "HandleReplicatePieceApproval ask n1 n2 n3 t low high timeout p = Returns (r, p')"
  shows "(\<exists>approvals. r = Inr approvals \<and> ask t high timeout = Inr approvals \<and> low \<le> int (length approvals))
    \<or> (\<exists>err. r = Inl err \<and> (ask t high timeout = Inl err \<or> MakeGfSpError (Some err) \<noteq> None))"
proof -
  let ?at = "ReplicatePieceApprovalTask t"
  obtain found q where q: "Has n1 (mp_queue p) (Key ?at) = (found, q)" by fastforce
  obtain err q' where q': "Push n2 q ?at = (err, q')" by fastforce
  have k: "key_defined ?at" using assms by (auto simp: HandleReplicatePieceApproval_def Let_def split: if_splits)
  obtain answer where answer: "ask t high timeout = answer" by blast
  show ?thesis
  proof (cases found)
    case True
    then show ?thesis using assms q k p2p_errors_reported(2) by (auto simp: HandleReplicatePieceApproval_def Let_def simp del: Key.simps key_defined.simps)
  next
    case new: False
    show ?thesis
    proof (cases err)
      case (Some e)
      then show ?thesis using assms new q q' k p2p_errors_reported(3) [of n2 q ?at e q']
        by (auto simp: HandleReplicatePieceApproval_def Let_def simp del: Key.simps key_defined.simps)
    next
      case None
      then have "r = (case answer of Inl err \<Rightarrow> Inl err | Inr approvals \<Rightarrow> if int (length approvals) < low then Inl ErrP2PInsufficientApproval else Inr approvals)"
        using assms new q q' k answer by (simp add: HandleReplicatePieceApproval_def Let_def del: Key.simps key_defined.simps)
      then show ?thesis using answer p2p_errors_reported(1) by (cases answer) (auto simp del: not_None_eq)
    qed
  qed
qed

text \<open>
  The client of the p2p module gets enough approvals or an error: a list of approvals that it returns is what the node collected for this task, and is not
  shorter than the minimum it asked for, as long as the errors of the node are reported as errors.
\<close>

theorem client_gets_enough_approvals:
  assumes "AskSecondaryReplicatePieceApproval conn ask n1 n2 n3 t low high timeout p = (Inr approvals, p')" "in_i32 low"
    and "\<forall>err. ask t (i32 high) timeout = Inl err \<longrightarrow> MakeGfSpError (Some err) \<noteq> None"
  shows "ask t (i32 high) timeout = Inr approvals \<and> low \<le> int (length approvals)"
proof -
  obtain r p1 where r: "HandleReplicatePieceApproval ask n1 n2 n3 t (i32 low) (i32 high) timeout p = Returns (r, p1)" "response_of [] r = (None, approvals)"
    using assms(1) by (cases "HandleReplicatePieceApproval ask n1 n2 n3 t (i32 low) (i32 high) timeout p")
      (auto simp: AskSecondaryReplicatePieceApproval_def GfSpAskSecondaryReplicatePieceApproval_def split: if_splits option.splits prod.splits)
  then show ?thesis using HandleReplicatePieceApproval_result [OF r(1)] assms(2,3) by (auto simp: response_of_def i32_id)
qed

section \<open>From the signer of one provider to the node of another\<close>

lemma answered_request:
  assumes "onGetApprovalRequest env pr (Some buf) (Inr currentHeight) sign = Returns (Some resp)"
  obtains req h sig where "pn_unmarshal env buf = Some req" "sign (req\<lparr>ra_ExpiredHeight := h\<rparr>) = Inr sig" "ra_ObjectInfo req \<noteq> None"
    "resp = req\<lparr>ra_ExpiredHeight := h, ra_ApprovedSignature := sig, ra_ApprovedSpOperatorAddress := operator (pn_admin env)\<rparr>"
    "checkSP (ra_AskSpOperatorAddress req) pr" "ra_AskSpOperatorAddress req \<noteq> operator (pn_admin env)"
    "p2p_VerifySignature (pn_admin env) (ra_AskSpOperatorAddress req) (ga_approval_SignBytes (pn_admin env) req) (ra_AskSignature req)"
proof -
  obtain req where req: "pn_unmarshal env buf = Some req" using assms by (auto simp: onGetApprovalRequest_def split: option.splits)
  obtain r where r: "ComputeApprovalExpiredHeight req = Returns r"
    using assms req by (cases "ComputeApprovalExpiredHeight req") (auto simp: onGetApprovalRequest_def Let_def split: if_splits)
  show thesis using that [OF req] assms req r by (auto simp: onGetApprovalRequest_def Let_def split: if_splits sum.splits)
qed

text \<open>
  C17. An approval reaches the one who asked: what a provider answers to a request, signed by its signer with the operator account, is accepted by the node of
  another provider that knows it, since the fields that are set after signing are not part of what is signed.
\<close>

theorem approval_reaches_asker:
  assumes "onGetApprovalRequest env pr (Some buf) (Inr currentHeight) (\<lambda>t. SignReplicatePieceApproval sdk t s) = Returns (Some resp)"
    and "\<And>m sig. Sign sdk (sm_client s) SignOperator m = Inr sig \<Longrightarrow> p2p_VerifySignature (pn_admin asker) (operator (pn_admin env)) m sig"
    and "ga_approval_SignBytes (pn_admin asker) = (\<lambda>t. ck_approval_json sdk (approval_sign_doc t))"
    and "checkSP (operator (pn_admin env)) apr" "operator (pn_admin env) \<noteq> operator (pn_admin asker)" "pn_unmarshal asker reply = Some resp"
  shows "onGetApprovalResponse asker apr (Some reply) = Returns (Some resp)"
proof -
  obtain req h sig where req: "SignReplicatePieceApproval sdk (req\<lparr>ra_ExpiredHeight := h\<rparr>) s = Inr sig" "ra_ObjectInfo req \<noteq> None"
    "resp = req\<lparr>ra_ExpiredHeight := h, ra_ApprovedSignature := sig, ra_ApprovedSpOperatorAddress := operator (pn_admin env)\<rparr>"
    using assms(1) by (rule answered_request)
  have "approval_sign_doc resp = approval_sign_doc (req\<lparr>ra_ExpiredHeight := h\<rparr>)" by (simp add: req(3) approval_sign_doc_def)
  then have "p2p_VerifySignature (pn_admin asker) (operator (pn_admin env)) (ck_approval_json sdk (approval_sign_doc resp)) sig"
    using assms(2) req(1) by (simp add: SignReplicatePieceApproval_def)
  then show ?thesis using assms(3-6) req(2,3) by (simp add: onGetApprovalResponse_def)
qed

text \<open>Approvals that are collected at known heights have not expired; the heights are those of the actions.\<close>

definition collects_at :: "uint64 \<Rightarrow> node_action \<Rightarrow> bool" where
  "collects_at H a \<longleftrightarrow> (case a of Collect i height \<Rightarrow> (case height of None \<Rightarrow> False | Some h \<Rightarrow> H \<le> h) | _ \<Rightarrow> True)"

definition none_expired :: "uint64 \<Rightarrow> approval_node \<Rightarrow> bool" where
  "none_expired H s \<longleftrightarrow> (\<forall>i q. an_asking s i = Some q \<longrightarrow> list_all (\<lambda>t. H \<le> ra_ExpiredHeight t) (as_accept q))
     \<and> (\<forall>i ts. (i, ts) \<in> set (an_results s) \<longrightarrow> list_all (\<lambda>t. H \<le> ra_ExpiredHeight t) ts)"

lemma take_approval_frame: "take_approval i s = Some (t, s') \<Longrightarrow> an_asking s' = an_asking s \<and> an_results s' = an_results s"
  by (auto simp: take_approval_def split: option.splits list.splits if_splits)

lemma node_step_none_expired:
  assumes "none_expired H s" "node_step env pr a s = Some s'" "collects_at H a"
  shows "none_expired H s'"
proof (cases a)
  case (Collect i height)
  then obtain q t s1 h where s1: "an_asking s i = Some q" "take_approval i s = Some (t, s1)" "s' = s1\<lparr>an_asking := (an_asking s1)(i \<mapsto> count_approval t height q)\<rparr>"
    "height = Some h" "H \<le> h"
    using assms(2,3) by (auto simp: collects_at_def split: option.splits prod.splits if_splits)
  have "list_all (\<lambda>t. H \<le> ra_ExpiredHeight t) (as_accept (count_approval t height q))"
    using assms(1) s1(1,4,5) by (auto simp: count_approval_def none_expired_def Let_def)
  then show ?thesis using assms(1) s1(3) take_approval_frame [OF s1(2)] by (auto simp: none_expired_def)
qed (use assms in \<open>auto simp: none_expired_def hangApprovalRequest_def notifyApprovalResponse_def cancelApprovalRequest_def Let_def
      split: go.splits option.splits if_splits\<close>)

lemma node_run_none_expired:
  "none_expired H s \<Longrightarrow> node_run env pr as s = Some s' \<Longrightarrow> list_all (collects_at H) as \<Longrightarrow> none_expired H s'"
  by (induction "as" arbitrary: s) (auto split: option.splits if_splits intro: node_step_none_expired)

text \<open>The signature covers neither the asking nor the approving provider: the handler of responses takes a request for an approval of its sender.\<close>

lemma request_handled_as_approval:
  assumes "onGetApprovalRequest env pr (Some buf) (Inr currentHeight) sign = Returns (Some resp)" "pn_unmarshal env buf = Some req"
    and "ga_approval_SignBytes (pn_admin env) = (\<lambda>t. json (approval_sign_doc t))"
    and "forgery = req\<lparr>ra_ApprovedSpOperatorAddress := ra_AskSpOperatorAddress req, ra_ApprovedSignature := ra_AskSignature req\<rparr>"
    and "pn_unmarshal env forged = Some forgery"
  shows "onGetApprovalResponse env pr (Some forged) = Returns (Some forgery)"
proof -
  obtain req' where "pn_unmarshal env buf = Some req'" "ra_ObjectInfo req' \<noteq> None" "checkSP (ra_AskSpOperatorAddress req') pr"
    "ra_AskSpOperatorAddress req' \<noteq> operator (pn_admin env)"
    "p2p_VerifySignature (pn_admin env) (ra_AskSpOperatorAddress req') (ga_approval_SignBytes (pn_admin env) req') (ra_AskSignature req')"
    using assms(1) by (rule answered_request)
  then show ?thesis using assms(2-5) by (simp add: onGetApprovalResponse_def approval_sign_doc_def)
qed

text \<open>
  C26. Only the height of the chain tells a request from an approval of its sender. Let a node answer a request in which no expiry is set, and let a
  message repeat this request with the address and signature of the asker as those of the approver. If the chain does not answer when the message is
  collected, a request for approvals of this object returns it as an approval that the asker gave. But in every run in which the approvals are
  collected at known heights above zero, no result contains such a message, or any approval that had expired at the lowest of these heights.
\<close>

theorem request_counts_without_height:
  assumes "onGetApprovalRequest env pr (Some buf) (Inr currentHeight) sign = Returns (Some resp)" "pn_unmarshal env buf = Some req"
    and "ga_approval_SignBytes (pn_admin env) = (\<lambda>t. json (approval_sign_doc t))" "ra_ExpiredHeight req = 0"
    and "forgery = req\<lparr>ra_ApprovedSpOperatorAddress := ra_AskSpOperatorAddress req, ra_ApprovedSignature := ra_AskSignature req\<rparr>"
    and "pn_unmarshal env forged = Some forgery" "i = Id (object_of (ra_ObjectInfo req))" "0 < H"
  shows "map_option an_results (node_run env pr [Ask i 1 True, Respond (Some forged), Collect i None, Cancel i] new_node) = Some [(i, [forgery])]
    \<and> (\<forall>as s j ts. node_run env pr as new_node = Some s \<and> list_all (collects_at H) as \<and> (j, ts) \<in> set (an_results s)
         \<longrightarrow> forgery \<notin> set ts \<and> (\<forall>t \<in> set ts. H \<le> ra_ExpiredHeight t))"
proof (intro conjI allI impI)
  have "onGetApprovalResponse env pr (Some forged) = Returns (Some forgery)" by (rule request_handled_as_approval [OF assms(1-3,5,6)])
  then show "map_option an_results (node_run env pr [Ask i 1 True, Respond (Some forged), Collect i None, Cancel i] new_node) = Some [(i, [forgery])]"
    using assms(5,7) by (simp add: new_node_def hangApprovalRequest_def notifyApprovalResponse_def take_approval_def count_approval_def
        ResponseChannelSize_def cancelApprovalRequest_def Let_def)
next
  fix "as" s j ts assume run: "node_run env pr as new_node = Some s \<and> list_all (collects_at H) as \<and> (j, ts) \<in> set (an_results s)"
  have "none_expired H new_node" by (simp add: none_expired_def new_node_def)
  then have "none_expired H s" using node_run_none_expired run by blast
  then have all: "\<forall>t \<in> set ts. H \<le> ra_ExpiredHeight t" using run by (auto simp: none_expired_def list_all_iff)
  moreover have "ra_ExpiredHeight forgery = 0" using assms(4,5) by simp
  ultimately show "forgery \<notin> set ts" using assms(8) by fastforce
  show "\<forall>t \<in> set ts. H \<le> ra_ExpiredHeight t" by (rule all)
qed

section \<open>The theorems at work\<close>

definition demo_answer :: GfSpReplicatePieceApprovalTask where
  "demo_answer = demo_approval\<lparr>ra_ObjectInfo := Some demo_cat, ra_AskSpOperatorAddress := ''other'', ra_AskSignature := replicate 65 27,
     ra_ApprovedSpOperatorAddress := ''other'', ra_ExpiredHeight := 0\<rparr>"

definition demo_node :: "(nat, OffChainAuthKey list) p2p_env" where
  "demo_node = \<lparr>pn_admin = demo_admin (still_env demo_view (\<lambda>t w. (Inl ErrRpcUnknown, w)) (\<lambda>t w. (None, w))) demo_replica demo_recover demo_approval
       (\<lambda>t d w. (None, w)) (\<lambda>t w. (Inr ([], []), w)),
     pn_unmarshal = (\<lambda>m. if m = [] then Some demo_approval else Some demo_answer), pn_secondaryApprovalExpiredHeight = 200,
     pn_unmarshal_ping = (\<lambda>m. Some \<lparr>pi_SpOperatorAddress = ''other'', pi_Signature = replicate 65 27\<rparr>), pn_unmarshal_pong = (\<lambda>m. None),
     pn_ping_json = (\<lambda>m. [1]), pn_pong_json = (\<lambda>m. [1]), pn_ant_node = None, pn_list_nodes = (\<lambda>p. []), pn_Decode = Some, pn_NewMultiaddr = Some\<rparr>"

definition demo_provider :: PeerProvider where "demo_provider = UpdateSp [''other''] (NewPeerProvider (\<lambda>_. {}))"

lemma demo_provider_sps: "checkSP ''other'' demo_provider"
  by (simp add: demo_provider_def UpdateSp_def checkSP_def NewPeerProvider_def Let_def)

lemma demo_node_verifies: "p2p_VerifySignature (pn_admin demo_node) a m (replicate 65 27)" "operator (pn_admin demo_node) = ''self''"
  by (simp_all add: p2p_VerifySignature_def demo_node_def demo_admin_def gate_of_def operator_def still_env_def Let_def)

lemma demo_answer_fields:
  "ra_ObjectInfo demo_answer = Some demo_cat" "ra_ApprovedSpOperatorAddress demo_answer = ''other''" "ra_ApprovedSignature demo_answer = replicate 65 27"
  "ra_AskSpOperatorAddress demo_answer = ''other''" "ra_AskSignature demo_answer = replicate 65 27"
  by (simp_all add: demo_answer_def demo_approval_def)

lemma demo_response: "onGetApprovalResponse demo_node demo_provider (Some [1]) = Returns (Some demo_answer)"
proof -
  have "pn_unmarshal demo_node [1] = Some demo_answer" by (simp add: demo_node_def)
  then show ?thesis by (simp add: onGetApprovalResponse_def demo_answer_fields demo_node_verifies demo_provider_sps)
qed

lemma demo_request_answered:
  assumes "\<And>t. sign t = Inr sig"
  shows "\<exists>resp. onGetApprovalRequest demo_node demo_provider (Some [1]) (Inr 5) sign = Returns (Some resp)"
proof -
  have "pn_unmarshal demo_node [1] = Some demo_answer" by (simp add: demo_node_def)
  moreover have "\<exists>h. ComputeApprovalExpiredHeight demo_answer = Returns h"
    by (simp add: ComputeApprovalExpiredHeight_def demo_answer_def demo_approval_def InitApprovalReplicatePieceTask_def)
  ultimately show ?thesis using assms by (auto simp: onGetApprovalRequest_def demo_answer_fields demo_node_verifies demo_provider_sps Let_def)
qed

lemma unspecified_kept:
  assumes "pp_spPeers pr PeerSpUnspecified \<noteq> None"
  shows "pp_spPeers (fold peer_step evs pr) PeerSpUnspecified \<noteq> None"
proof -
  have "pp_spPeers (peer_step ev pr) PeerSpUnspecified \<noteq> None" if "pp_spPeers pr PeerSpUnspecified \<noteq> None" for ev pr
    using that by (cases ev) (auto simp: AddPeer_def DeletePeer_def UpdateSp_def Let_def split: option.splits)
  then show ?thesis using assms by (induction evs arbitrary: pr) (simp_all del: not_None_eq)
qed

theorem peers_bounded_witness:
  "length (the (pp_spPeers (fold peer_step (SpsUpdated [] # map (\<lambda>i. PeerAdded (int i) [char_of i] ''sp'' []) [0..<12]) (NewPeerProvider (\<lambda>_. {}))) PeerSpUnspecified)) \<le> 10"
proof -
  define evs where "evs = map (\<lambda>i. PeerAdded (int i) [char_of i] ''sp'' []) [0..<12]"
  have "pp_spPeers (fold peer_step evs (UpdateSp [] (NewPeerProvider (\<lambda>_. {})))) PeerSpUnspecified \<noteq> None"
    by (rule unspecified_kept) (simp add: UpdateSp_def Let_def)
  then obtain ids where ids: "pp_spPeers (fold peer_step (SpsUpdated [] # evs) (NewPeerProvider (\<lambda>_. {}))) PeerSpUnspecified = Some ids" by auto
  then have "length ids \<le> 10" using peers_bounded [of "SpsUpdated [] # evs" "\<lambda>_. {}"] by blast
  then show ?thesis unfolding evs_def [symmetric] ids by simp
qed

theorem collected_approvals_genuine_witness:
  "\<exists>s. node_run demo_node demo_provider [Ask (Id demo_cat) 1 True, Respond (Some [1]), Collect (Id demo_cat) None, Cancel (Id demo_cat)] new_node = Some s
     \<and> an_results s = [(Id demo_cat, [demo_answer])] \<and> checkSP (ra_ApprovedSpOperatorAddress demo_answer) demo_provider"
proof -
  let ?run = "node_run demo_node demo_provider [Ask (Id demo_cat) 1 True, Respond (Some [1]), Collect (Id demo_cat) None, Cancel (Id demo_cat)] new_node"
  have "\<exists>s. ?run = Some s \<and> an_results s = [(Id demo_cat, [demo_answer])]"
    by (simp add: demo_response new_node_def hangApprovalRequest_def notifyApprovalResponse_def take_approval_def count_approval_def
        ResponseChannelSize_def cancelApprovalRequest_def demo_answer_fields object_of_def Let_def)
  then obtain s where s: "?run = Some s" "an_results s = [(Id demo_cat, [demo_answer])]" by blast
  then show ?thesis using collected_approvals_genuine [OF s(1), of "Id demo_cat" "[demo_answer]" demo_answer] by simp
qed

theorem surplus_approvals_jam_protocol_witness:
  "\<exists>s. node_run demo_node demo_provider (jamming (Id demo_cat) [1]) new_node = Some s \<and> node_step demo_node demo_provider (Ask 7 1 True) s = None"
proof -
  obtain s where s: "node_run demo_node demo_provider (jamming (Id demo_cat) [1]) new_node = Some s"
    "\<And>as s'. node_run demo_node demo_provider as s = Some s' \<Longrightarrow> \<forall>j expected sent. node_step demo_node demo_provider (Ask j expected sent) s' = None"
    using surplus_approvals_jam_protocol [OF demo_response, of "Id demo_cat"] by (auto simp: demo_answer_fields object_of_def)
  show ?thesis using s(1) s(2) [of "[]" s] by simp
qed

theorem malformed_message_crashes_witness: "onGetApprovalResponse demo_node demo_provider (Some []) = Panics"
  using malformed_message_crashes [of demo_node "[]" demo_approval] by (simp add: demo_node_def demo_approval_def InitApprovalReplicatePieceTask_def)

theorem approval_given_to_provider_witness:
  "\<exists>resp. onGetApprovalRequest demo_node demo_provider (Some [1]) (Inr 5) (\<lambda>t. Inr [3]) = Returns (Some resp) \<and> checkSP (ra_AskSpOperatorAddress demo_answer) demo_provider"
proof -
  have u: "pn_unmarshal demo_node [1] = Some demo_answer" by (simp add: demo_node_def)
  have "\<exists>resp. onGetApprovalRequest demo_node demo_provider (Some [1]) (Inr 5) (\<lambda>t. Inr [3]) = Returns (Some resp)"
    by (rule demo_request_answered) simp
  then show ?thesis using approval_given_to_provider [OF _ u] by blast
qed

text \<open>Another node, which asked, and the signer of the node that answers.\<close>

definition renamed_admin :: "string \<Rightarrow> ('w, 'd) admin_env \<Rightarrow> ('w, 'd) admin_env" where
  "renamed_admin name adm =
     (let ob = ga_object adm; gate = go_gate ob in adm\<lparr>ga_object := ob\<lparr>go_gate := gate\<lparr>ge_auth := (ge_auth gate)\<lparr>au_operator := name\<rparr>\<rparr>\<rparr>\<rparr>)"

definition demo_asker :: "(bytes \<Rightarrow> GfSpReplicatePieceApprovalTask option) \<Rightarrow> (nat, OffChainAuthKey list) p2p_env" where
  "demo_asker unmarshal = demo_node\<lparr>pn_admin := renamed_admin ''other'' (pn_admin demo_node), pn_unmarshal := unmarshal\<rparr>"

definition demo_signer_sdk :: "(unit, unit, account_world) chain_sdk" where
  "demo_signer_sdk = demo_sdk\<lparr>ck_Sign := (\<lambda>_ m. Inr (replicate 65 27)), ck_approval_json := (\<lambda>_. [1])\<rparr>"

definition demo_signer :: "(unit, account_world) SignModular" where
  "demo_signer = \<lparr>sm_client = demo_sign_client 5, sm_world = demo_account, sm_rejectSucceed = 0, sm_rejectFailed = 0, sm_discontinueSucceed = 0, sm_discontinueFailed = 0\<rparr>"

lemma renamed_admin_simps [simp]:
  "operator (renamed_admin name adm) = name" "p2p_VerifySignature (renamed_admin name adm) = p2p_VerifySignature adm"
  "ga_approval_SignBytes (renamed_admin name adm) = ga_approval_SignBytes adm"
  by (simp_all add: renamed_admin_def operator_def gate_of_def p2p_VerifySignature_def Let_def fun_eq_iff split del: if_split cong: option.case_cong)

lemma demo_sign_bytes: "ga_approval_SignBytes (pn_admin demo_node) = (\<lambda>t. [1])" by (simp add: demo_node_def demo_admin_def)

theorem approval_reaches_asker_witness:
  "\<exists>resp. onGetApprovalRequest demo_node demo_provider (Some [1]) (Inr 5) (\<lambda>t. SignReplicatePieceApproval demo_signer_sdk t demo_signer) = Returns (Some resp)
     \<and> onGetApprovalResponse (demo_asker (\<lambda>m. Some resp)) (UpdateSp [''self''] (NewPeerProvider (\<lambda>_. {}))) (Some [2]) = Returns (Some resp)"
proof -
  have signs: "Sign demo_signer_sdk (sm_client demo_signer) SignOperator m = Inr (replicate 65 27)" for m by (simp add: Sign_def demo_signer_sdk_def demo_sdk_def)
  obtain resp where resp: "onGetApprovalRequest demo_node demo_provider (Some [1]) (Inr 5) (\<lambda>t. SignReplicatePieceApproval demo_signer_sdk t demo_signer) = Returns (Some resp)"
    using demo_request_answered [of "\<lambda>t. SignReplicatePieceApproval demo_signer_sdk t demo_signer"] signs by (auto simp: SignReplicatePieceApproval_def)
  have "onGetApprovalResponse (demo_asker (\<lambda>m. Some resp)) (UpdateSp [''self''] (NewPeerProvider (\<lambda>_. {}))) (Some [2]) = Returns (Some resp)"
    by (rule approval_reaches_asker [OF resp])
      (use signs in \<open>simp_all add: demo_asker_def demo_node_verifies demo_sign_bytes demo_signer_sdk_def checkSP_def UpdateSp_def Let_def\<close>)
  then show ?thesis using resp by blast
qed

theorem request_counts_without_height_witness:
  "map_option an_results (node_run demo_node demo_provider [Ask (Id demo_cat) 1 True, Respond (Some [1]), Collect (Id demo_cat) None, Cancel (Id demo_cat)] new_node)
     = Some [(Id demo_cat, [demo_answer])]
   \<and> \<not> (\<exists>as s j ts. node_run demo_node demo_provider as new_node = Some s \<and> list_all (collects_at 5) as \<and> (j, ts) \<in> set (an_results s) \<and> demo_answer \<in> set ts)"
proof -
  obtain resp where resp: "onGetApprovalRequest demo_node demo_provider (Some [1]) (Inr 5) (\<lambda>t. Inr [3]) = Returns (Some resp)"
    using demo_request_answered [of "\<lambda>t. Inr [3]"] by auto
  have u: "pn_unmarshal demo_node [1] = Some demo_answer" by (simp add: demo_node_def)
  have f: "demo_answer = demo_answer\<lparr>ra_ApprovedSpOperatorAddress := ra_AskSpOperatorAddress demo_answer, ra_ApprovedSignature := ra_AskSignature demo_answer\<rparr>"
    by (simp add: demo_answer_def demo_approval_def)
  have h: "ra_ExpiredHeight demo_answer = 0" by (simp add: demo_answer_def)
  show ?thesis
    using request_counts_without_height [OF resp u _ h f u, of "\<lambda>_. [1]" "Id demo_cat" 5]
    by (simp add: demo_sign_bytes demo_answer_fields object_of_def)
qed

theorem ping_replayed_witness:
  "introduces demo_node (Ping 7 ''mallory'' ''x'' (Some [1]) (\<lambda>_. Inr []) (\<lambda>_. True)) = Some (''mallory'', ''other'')"
proof -
  have "introduces demo_node (Ping 3 ''peer'' ''a'' (Some [1]) (\<lambda>_. Inr []) (\<lambda>_. True)) = Some (''peer'', ''other'')"
    using demo_node_verifies by (simp add: demo_node_def)
  then show ?thesis by (rule ping_replayed)
qed

theorem listed_peers_introduced_witness:
  "\<exists>ids. pp_spPeers (fold (heartbeat_step demo_node) [ProvidersUpdated [''other''], Ping 3 ''peer'' ''a'' (Some [1]) (\<lambda>_. Inr []) (\<lambda>_. True)] (NewPeerProvider (\<lambda>_. {})))
       ''other'' = Some ids \<and> ''peer'' \<in> set ids
     \<and> introduces demo_node (Ping 3 ''peer'' ''a'' (Some [1]) (\<lambda>_. Inr []) (\<lambda>_. True)) = Some (''peer'', ''other'')"
proof -
  let ?ping = "Ping 3 ''peer'' ''a'' (Some [1]) (\<lambda>_. Inr []) (\<lambda>_. True)"
  let ?evs = "[ProvidersUpdated [''other''], ?ping]"
  have u: "pn_unmarshal_ping demo_node [1] = Some \<lparr>pi_SpOperatorAddress = ''other'', pi_Signature = replicate 65 27\<rparr>" by (simp add: demo_node_def)
  have "pp_spPeers (fold (heartbeat_step demo_node) ?evs (NewPeerProvider (\<lambda>_. {}))) ''other'' = Some [''peer'']"
    by (simp add: onPing_def u demo_node_verifies AddPeer_def UpdateSp_def NewPeerProvider_def PeerSpUnspecified_def PrunePeersNumberMax_def Let_def)
  moreover have "''other'' \<noteq> PeerSpUnspecified" by (simp add: PeerSpUnspecified_def)
  ultimately show ?thesis using listed_peers_introduced [of demo_node ?evs "\<lambda>_. {}" "''other''" "[''peer'']" "''peer''"] by simp
qed

end
