(* ===== verification/ExecutorLoop.thy ===== *)
theory ExecutorLoop
  imports Spans Replicator GarbageCollector Recovery ManageServer
begin

text \<open>
  The loop of the task executor (\<open>modular/executor/executor.go\<close>): a worker asks the manager for a task that fits the remaining resources, reserves the
  resources of the task, runs it, reports it and gives the resources back.

  The scopes are the heap of \<open>Scopes\<close>, with \<open>scope\<close> the one of the module; \<open>ReserveResource\<close> and \<open>ReleaseResource\<close> are the same in every module. A worker
  that blocks forever, on a lock or because the goroutines of a recovery are not done, is \<open>Hangs\<close>, with the call that does not return and the state in which
  the worker made it; a panic ends the process.
\<close>

section \<open>Resources of a request\<close>

definition ReserveResource :: "scope_heap \<Rightarrow> nat \<Rightarrow> ScopeStat \<Rightarrow> ((rc_error + nat) \<times> scope_heap) outcome" where
  "ReserveResource h scope st =
     bind_outcome (BeginSpan h scope) (\<lambda>(r, h).
       case r of
         Inl err \<Rightarrow> Finished (Inl err, h)
       | Inr span \<Rightarrow>
           bind_outcome (ReserveResources h span st) (\<lambda>(err, h). Finished (case err of Some err \<Rightarrow> Inl err | None \<Rightarrow> Inr span, h)))"

definition ReleaseResource :: "scope_heap \<Rightarrow> nat \<Rightarrow> (unit \<times> scope_heap) outcome" where "ReleaseResource h span = Done h span"

section \<open>A task\<close>

definition executor_HandleGCZombiePieceTask :: "GfSpGCZombiePieceTask \<Rightarrow> ('w, 'i) ExecuteModular \<Rightarrow> ('w, 'i) ExecuteModular" where
  "executor_HandleGCZombiePieceTask t e = e"
definition executor_HandleGCMetaTask :: "GfSpGCMetaTask \<Rightarrow> ('w, 'i) ExecuteModular \<Rightarrow> ('w, 'i) ExecuteModular" where
  "executor_HandleGCMetaTask t e = e"

text \<open>The upload events around a task; a task that failed has two events at its end.\<close>

definition begin_event :: "ObjectInfo option \<Rightarrow> ('w, 'i) ExecuteModular \<Rightarrow> ('w, 'i) ExecuteModular" where
  "begin_event ob e = exec_event (Id (object_of ob)) ''executor_begin_task'' e"

definition end_events :: "ObjectInfo option \<Rightarrow> Task \<Rightarrow> ('w, 'i) ExecuteModular \<Rightarrow> ('w, 'i) ExecuteModular" where
  "end_events ob t e =
     (let e = (if task_Error t \<noteq> None then exec_event (Id (object_of ob)) ''executor_end_task'' e else e) in
      exec_event (Id (object_of ob)) ''executor_end_task'' e)"

text \<open>The counters of running tasks; the one of recoveries is counted up at the end, too.\<close>

fun run_task :: "('w, 'i) execute_env \<Rightarrow> collect_action list \<Rightarrow> Task \<Rightarrow> ('w, 'i) ExecuteModular \<Rightarrow> (Task \<times> ('w, 'i) ExecuteModular) go option" where
  "run_task env sched (ReplicatePieceTask t) e =
     Some (bind_go (executor_HandleReplicatePieceTask env (Some t)
                      (begin_event (rp_ObjectInfo t) (e\<lparr>ex_doingReplicatePieceTaskCnt := i64 (ex_doingReplicatePieceTaskCnt e + 1)\<rparr>)))
       (\<lambda>(t', e). let e = end_events (rp_ObjectInfo t) (ReplicatePieceTask t') e in
          Returns (ReplicatePieceTask t', e\<lparr>ex_doingReplicatePieceTaskCnt := i64 (ex_doingReplicatePieceTaskCnt e - 1)\<rparr>)))"
| "run_task env sched (SealObjectTask t) e =
     Some (bind_go (executor_HandleSealObjectTask env (Some t)
                      (begin_event (so_ObjectInfo t) (e\<lparr>ex_doingSpSealObjectTaskCnt := i64 (ex_doingSpSealObjectTaskCnt e + 1)\<rparr>)))
       (\<lambda>(t', e). let e = end_events (so_ObjectInfo t) (SealObjectTask t') e in
          Returns (SealObjectTask t', e\<lparr>ex_doingSpSealObjectTaskCnt := i64 (ex_doingSpSealObjectTaskCnt e - 1)\<rparr>)))"
| "run_task env sched (ReceivePieceTask t) e =
     Some (bind_go (executor_HandleReceivePieceTask env t (e\<lparr>ex_doingReceivePieceTaskCnt := i64 (ex_doingReceivePieceTaskCnt e + 1)\<rparr>))
       (\<lambda>(t, e). Returns (ReceivePieceTask t, e\<lparr>ex_doingReceivePieceTaskCnt := i64 (ex_doingReceivePieceTaskCnt e - 1)\<rparr>)))"
| "run_task env sched (GCObjectTask t) e =
     Some (bind_go (executor_HandleGCObjectTask env t (e\<lparr>ex_doingGCObjectTaskCnt := i64 (ex_doingGCObjectTaskCnt e + 1)\<rparr>))
       (\<lambda>(t, e). Returns (GCObjectTask t, e\<lparr>ex_doingGCObjectTaskCnt := i64 (ex_doingGCObjectTaskCnt e - 1)\<rparr>)))"
| "run_task env sched (GCZombiePieceTask t) e =
     (let e = executor_HandleGCZombiePieceTask t (e\<lparr>ex_doingGCZombiePieceTaskCnt := i64 (ex_doingGCZombiePieceTaskCnt e + 1)\<rparr>) in
      Some (Returns (GCZombiePieceTask t, e\<lparr>ex_doingGCZombiePieceTaskCnt := i64 (ex_doingGCZombiePieceTaskCnt e - 1)\<rparr>)))"
| "run_task env sched (GCMetaTask t) e =
     (let e = executor_HandleGCMetaTask t (e\<lparr>ex_doingGCGCMetaTaskCnt := i64 (ex_doingGCGCMetaTaskCnt e + 1)\<rparr>) in
      Some (Returns (GCMetaTask t, e\<lparr>ex_doingGCGCMetaTaskCnt := i64 (ex_doingGCGCMetaTaskCnt e - 1)\<rparr>)))"
| "run_task env sched (RecoverPieceTask t) e =
     map_option (\<lambda>r. bind_go r (\<lambda>(t, e). Returns (RecoverPieceTask t, e\<lparr>ex_doingRecoveryPieceTaskCnt := i64 (ex_doingRecoveryPieceTaskCnt e + 1)\<rparr>)))
       (executor_HandleRecoverPieceTask env sched t (e\<lparr>ex_doingRecoveryPieceTaskCnt := i64 (ex_doingRecoveryPieceTaskCnt e + 1)\<rparr>))"
| "run_task env sched t e = Some (Returns (t, e))"

section \<open>Asking for a task\<close>

datatype ask_error = AskErr go_error | ScopeErr rc_error

datatype ask_call = RemainingCall | ReserveCall | TaskCall | ReleaseCall

datatype ('w, 'i) asked = Asked "ask_error option" scope_heap "('w, 'i) ExecuteModular" | Hangs ask_call "('w, 'i) ExecuteModular" | Crashes

definition omitError :: "go_error \<Rightarrow> bool" where
  "omitError err = (case err of GfSpErr e \<Rightarrow> InnerCode e = InnerCode ErrNoTaskMatchLimit | PlainErr _ \<Rightarrow> False)"

definition ask_done :: "ask_error option \<Rightarrow> scope_heap \<Rightarrow> ('w, 'i) ExecuteModular \<Rightarrow> ('w, 'i) asked" where
  "ask_done err h e = Asked err h (e\<lparr>ex_executingNum := i64 (ex_executingNum e - 1)\<rparr>)"

text \<open>Running a task inside its span; the report and the release are deferred.\<close>

definition run_in_span :: "('w, 'i) execute_env \<Rightarrow> collect_action list \<Rightarrow> Task \<Rightarrow> nat \<Rightarrow> scope_heap \<Rightarrow> ('w, 'i) ExecuteModular \<Rightarrow> ('w, 'i) asked" where
  "run_in_span env sched t span h e =
     (if \<not> key_defined t then Crashes
      else case run_task env sched t e of
        None \<Rightarrow> Hangs TaskCall e
      | Some Panics \<Rightarrow> Crashes
      | Some (Returns (t, e)) \<Rightarrow>
          (case executor_ReportTask env t e of (_, e) \<Rightarrow>
             (case ReleaseResource h span of
                Finished (_, h) \<Rightarrow> ask_done None h e
              | Deadlock \<Rightarrow> Hangs ReleaseCall e
              | NilDeref \<Rightarrow> Crashes)))"

definition executor_AskTask :: "('w, 'i) execute_env \<Rightarrow> collect_action list \<Rightarrow> nat \<Rightarrow> scope_heap \<Rightarrow> ('w, 'i) ExecuteModular \<Rightarrow> ('w, 'i) asked" where
  "executor_AskTask env sched scope h e =
     (let e = e\<lparr>ex_executingNum := i64 (ex_executingNum e + 1)\<rparr> in
      case RemainingResource h scope of
        Finished lim \<Rightarrow>
          (case outside (client_AskTask env lim) e of
             (Inl err, e) \<Rightarrow> ask_done (Some (AskErr err)) h e
           | (Inr t, e) \<Rightarrow>
               (case EstimateLimit t of
                  Panics \<Rightarrow> Crashes
                | Returns l \<Rightarrow>
                    (case LimitScopeStat l of
                       None \<Rightarrow> Crashes
                     | Some st \<Rightarrow>
                         (case ReserveResource h scope st of
                            Finished (Inl err, h) \<Rightarrow> ask_done (Some (ScopeErr err)) h e
                          | Finished (Inr span, h) \<Rightarrow> run_in_span env sched t span h e
                          | Deadlock \<Rightarrow> Hangs ReserveCall e
                          | NilDeref \<Rightarrow> Crashes))))
      | Deadlock \<Rightarrow> Hangs RemainingCall e
      | NilDeref \<Rightarrow> Crashes)"

section \<open>Refused resources\<close>

lemma BeginSpan_open:
  assumes "s < length h" "\<not> locked (h ! s)" "\<not> sc_done (h ! s)"
  obtains i where "BeginSpan h s = Finished (Inr (length h), h[s := (h ! s)\<lparr>refCnt := i64 (refCnt (h ! s) + 1), spanID := i\<rparr>]
       @ [\<lparr>locked = False, sc_done = False, refCnt = 0, spanID = 0, rc = new_resources (limit (rc (h ! s))),
          owner = Some s, edges = [], sc_name = sc_name (h ! s) @ ''.span-temp-'' @ show_int i\<rparr>])"
proof -
  obtain p h1 where b: "BeginSpan h s = Finished (Inr p, h1)"
    using assms by (simp add: BeginSpan_def with_lock_def newResourceScopeSpan_def Let_def)
  show thesis by (rule BeginSpan_shape [OF assms(1,2) b]) (use that b in auto)
qed

text \<open>
  C27. A task that does not fit any more stops the worker: when the task that the manager hands out is below the limit of the scope of the executor,
  so that an empty scope would take it, but does not fit beside what is reserved already, the reservation blocks on the lock of its own span.
  The worker hangs in this call, with nothing done since it asked the manager: the task is neither run nor reported, and the worker stays counted as executing.
\<close>

theorem overbooked_ask_hangs:
  assumes "scope < length h" "\<not> locked (h ! scope)" "\<not> sc_done (h ! scope)"
    and ask: "client_AskTask env (remaining (rc (h ! scope))) (ex_world e) = (Inr t, w)"
    and "EstimateLimit t = Returns l" "LimitScopeStat l = Some st"
    and "fst (reserve_stat (new_resources (limit (rc (h ! scope)))) st) = None" "fst (reserve_stat (rc (h ! scope)) st) \<noteq> None"
  shows "executor_AskTask env sched scope h e = Hangs ReserveCall (e\<lparr>ex_executingNum := i64 (ex_executingNum e + 1), ex_world := w\<rparr>)"
proof -
  obtain i where span: "BeginSpan h scope = Finished (Inr (length h), h[scope := (h ! scope)\<lparr>refCnt := i64 (refCnt (h ! scope) + 1), spanID := i\<rparr>]
       @ [\<lparr>locked = False, sc_done = False, refCnt = 0, spanID = 0, rc = new_resources (limit (rc (h ! scope))),
          owner = Some scope, edges = [], sc_name = sc_name (h ! scope) @ ''.span-temp-'' @ show_int i\<rparr>])"
    (is "_ = Finished (_, ?h)") using assms(1-3) by (rule BeginSpan_open)
  have "ReserveResources ?h (length h) st = Deadlock"
    by (rule ReserveResources_refusal_deadlocks [where own = scope]) (use assms in \<open>simp_all add: nth_append\<close>)
  then have "ReserveResource h scope st = Deadlock" using span by (simp add: ReserveResource_def)
  then show ?thesis using assms(1,5,6) ask by (simp add: executor_AskTask_def RemainingResource_def outside_def Let_def)
qed

text \<open>
  A refusal by the span itself leaves the span behind: the error is returned, but the span is never finished and the scope of the module keeps a reference to it.
\<close>

theorem refused_reservation_leaks_span:
  assumes "scope < length h" "\<not> locked (h ! scope)" "\<not> sc_done (h ! scope)"
    and "reserve_stat (new_resources (limit (rc (h ! scope)))) st = (Some err, r)"
  shows "\<exists>err' h'. ReserveResource h scope st = Finished (Inl err', h') \<and> refCnt (h' ! scope) = i64 (refCnt (h ! scope) + 1)
    \<and> length h' = Suc (length h) \<and> \<not> sc_done (h' ! length h)"
proof -
  obtain i where span: "BeginSpan h scope = Finished (Inr (length h), h[scope := (h ! scope)\<lparr>refCnt := i64 (refCnt (h ! scope) + 1), spanID := i\<rparr>]
       @ [\<lparr>locked = False, sc_done = False, refCnt = 0, spanID = 0, rc = new_resources (limit (rc (h ! scope))),
          owner = Some scope, edges = [], sc_name = sc_name (h ! scope) @ ''.span-temp-'' @ show_int i\<rparr>])"
    using assms(1-3) by (rule BeginSpan_open)
  show ?thesis using assms(1,4)
    by (simp add: ReserveResource_def span ReserveResources.simps Let_def lock_scope_def unlock_scope_def set_rc_def nth_append list_update_append)
qed

text \<open>Every recovery raises the counter of running recoveries by two, even one that is refused at once.\<close>

theorem recovery_counter_grows:
  assumes "rr_StorageParams t = Some params" "recover_checks t params = Some err"
  shows "\<exists>t' e'. run_task env sched (RecoverPieceTask t) e = Some (Returns (t', e'))
    \<and> ex_doingRecoveryPieceTaskCnt e' = i64 (i64 (ex_doingRecoveryPieceTaskCnt e + 1) + 1)"
  using assms by (simp add: executor_HandleRecoverPieceTask_def Let_def)

section \<open>The theorems at work\<close>

text \<open>A manager that hands out a task to confirm a replica, and a scope whose memory is used up.\<close>

definition full_scope :: scope_heap where
  "full_scope = [(demo_scope (GfSpLim (zero_limit\<lparr>Memory := 100\<rparr>)) None [])\<lparr>rc := (new_resources (GfSpLim (zero_limit\<lparr>Memory := 100\<rparr>)))\<lparr>memory := 90\<rparr>\<rparr>]"

definition handing_env :: "(nat, (uint64 \<times> IntegrityMetaTable) list) execute_env" where
  "handing_env = demo_exec_env\<lparr>xe_rpc_ask := (\<lambda>l w. (Inr (Inr (Some (ReceivePieceTask (demo_confirm_task\<lparr>rv_PieceSize := 20\<rparr>)))), Suc w))\<rparr>"

definition task_memory :: ScopeStat where
  "task_memory = \<lparr>stMemory = 20, NumTasksHigh = 0, NumTasksMedium = 0, NumTasksLow = 1, NumConnsInbound = 0, NumConnsOutbound = 0, NumFD = 0\<rparr>"

lemmas scope_evaluation = full_scope_def demo_scope_def new_resources_def zero_limit_def reserve_stat_def reserveMemory_def checkMemory_def
    addInt64WithOverflow_def memoryThreshold_def mulInt64WithOverflow_def ReservationPriorityAlways_def
    addConns_def addTask_def addTasks_def MaxInt64_def Let_def i64_def

theorem overbooked_ask_hangs_witness:
  "executor_AskTask handing_env [] 0 full_scope demo_executor
     = Hangs ReserveCall (demo_executor\<lparr>ex_executingNum := i64 (ex_executingNum demo_executor + 1), ex_world := Suc (Suc (ex_world demo_executor))\<rparr>)"
proof -
  let ?t = "ReceivePieceTask (demo_confirm_task\<lparr>rv_PieceSize := 20\<rparr>)"
  have l: "EstimateLimit ?t = Returns (with_priority 20 new_task)" by (simp add: demo_confirm_task_def)
  have st: "LimitScopeStat (with_priority 20 new_task) = Some task_memory" by code_simp
  have asks: "client_AskTask handing_env (remaining (rc (full_scope ! 0))) (ex_world demo_executor) = (Inr ?t, Suc (Suc (ex_world demo_executor)))"
    by (simp add: client_AskTask_def handing_env_def demo_exec_env_def)
  show ?thesis
    by (rule overbooked_ask_hangs [OF _ _ _ asks l st]) (simp_all add: task_memory_def scope_evaluation)
qed

theorem refused_reservation_leaks_span_witness:
  "\<exists>err' h'. ReserveResource full_scope 0 (task_memory\<lparr>stMemory := 200\<rparr>) = Finished (Inl err', h') \<and> refCnt (h' ! 0) = 1"
proof -
  obtain err r where "reserve_stat (new_resources (limit (rc (full_scope ! 0)))) (task_memory\<lparr>stMemory := 200\<rparr>) = (Some err, r)"
    by (simp add: task_memory_def scope_evaluation)
  then show ?thesis using refused_reservation_leaks_span [of 0 full_scope "task_memory\<lparr>stMemory := 200\<rparr>" err r]
    by (fastforce simp: full_scope_def demo_scope_def i64_def)
qed

end
