(* ===== verification/Spec2Isabelle.thy ===== *)
theory Spec2Isabelle
  imports Limits Resources Scopes Spans GfSpErrors PieceOp Tasks TQueue AppOptions Manager QueueFrames ManageServer
    ManagerProps PieceStore ObjectIntegrity Uploader Traffic Downloader Receiver Approver Executor GarbageCollector Replicator Recovery
    GnfdChain Authenticator GateRequest GateObject Services GateDownload GateAdmin UploadServer
    Permissions PrefixTree Signer P2PNode ExecutorLoop
begin

text \<open>
  A verification library for the Greenfield storage provider (the Go program under \<open>src/\<close>).

  \<^bold>\<open>The program.\<close> A storage provider keeps the payload of objects that users create on a chain. A
  primary provider receives an object (uploader), cuts it into segments that it keeps in a piece
  store, and replicates erasure coded pieces to secondary providers (executor, receiver); the
  manager drives this pipeline with queues of tasks that executors ask for and report back. Users
  read objects through the downloader, which enforces read quotas; the approver signs permissions to
  create buckets and objects. HTTP requests enter through the gateway, which asks the authenticator, and
  this in turn the chain, whether their sender may do what they ask for. Every module runs its requests inside resource scopes that limit
  memory, tasks and connections. The modules are separate gRPC services over one base application.

  \<^bold>\<open>Theories, in the order of their imports.\<close>
  \<^item> \<open>GoPrelude\<close>: what the program uses of Go: integers at their width (\<open>int64\<close> is an integer with the
    wrap \<open>i64\<close>, \<open>uint64\<close> and \<open>uint32\<close> are words), panics (\<open>'a go\<close>), decimal text, splitting and joining of
    strings, \<open>sort.Search\<close>.
  \<^item> \<open>Limits\<close>: \<open>base/types/gfsplimit/limit.go\<close>, \<open>core/rcmgr/limit.go\<close>. Limits, their order, addition and
    subtraction; \<open>Resources\<close>: \<open>base/gfsprcmgr/resource.go\<close>, the counters of one scope with the overflow
    checks; \<open>Scopes\<close>: \<open>base/gfsprcmgr/scope.go\<close> and \<open>rcmgr.go\<close>, scopes as a heap with their locks, charging a
    scope and its edges and undoing it; \<open>Spans\<close>: the life of a span. Shown: counters never leave
    their limits, memory and task reservations over a scope graph are all or nothing, a finished
    span restores its owner, and four places where the accounting is wrong.
  \<^item> \<open>GfSpErrors\<close>: \<open>base/types/gfsperrors/error.go\<close> and the error tables of seven modules.
  \<^item> \<open>PieceOp\<close>: \<open>base/gfsppieceop/pieceop.go\<close>. Piece keys are injective and parse back, sizes of segments
    and erasure coded pieces add up.
  \<^item> \<open>Tasks\<close>: the fifteen task types of \<open>base/types/gfsptask\<close>, their keys and estimates; \<open>AppOptions\<close>:
    \<open>base/gfspapp/task_options.go\<close>, timeouts, retries, priorities.
  \<^item> \<open>TQueue\<close>: \<open>base/gfsptqueue\<close> and \<open>core/taskqueue\<close>. A queue is a map from keys to tasks with a capacity,
    a retire strategy and a filter; the locale \<open>retire_strategy\<close> is the contract of strategies. Shown:
    what every operation does to the map (a push is compared with an abstract one on maps), round robin selection, no starvation.
  \<^item> \<open>Manager\<close>, \<open>QueueFrames\<close>, \<open>ManageServer\<close>, \<open>ManagerProps\<close>: \<open>modular/manager\<close> and
    \<open>base/gfspapp/manage_server.go\<close>. Handlers are functions on the record of queues, goroutines are jobs
    that run later, and calls, ticks and jobs are the steps of a transition system, whose reachable
    states keep well-formed queues, at most one pipeline stage per object (without resumable
    uploads, which break it, and for calls that follow each other: overlapping calls break it as well) and adjacent garbage collection ranges; the contracts of dispatch,
    choice and upload creation; two places where work is lost.
  \<^item> \<open>PieceStore\<close>: \<open>store/piecestore\<close> with the memory backend and sharding; the locale \<open>object_store\<close> is the
    contract of a store, and the piece store is shown to be a map from keys to bytes.
  \<^item> \<open>ObjectIntegrity\<close>: \<open>util/string.go\<close> and \<open>store/sqldb/object_integrity.go\<close>; \<open>Traffic\<close>: \<open>store/sqldb/traffic.go\<close>.
    The calls of \<open>gorm\<close> are arguments; the locales \<open>sql_table\<close>, \<open>integrity_table\<close>, \<open>piece_hash_table\<close> and
    \<open>traffic_rows\<close> say what the code relies on, and tables in memory interpret them. Shown: checksum
    lists read back; calls that follow each other keep the read quota of their bucket, overlapping ones may exceed it.
  \<^item> \<open>Uploader\<close>, \<open>Receiver\<close>, \<open>Downloader\<close>, \<open>Approver\<close>: \<open>modular/uploader\<close>, \<open>modular/receiver\<close>, \<open>modular/downloader\<close>,
    \<open>modular/approver\<close>. Streams are lists of deliveries; the locale \<open>upload_backend\<close> joins what an upload relies
    on, \<open>piece_cache\<close> is the contract of the LRU cache. Shown: what an upload and a replica store, record,
    report and return, that a split of a range covers it, what approvals are granted, and three
    places where a record is lost or stale or a handler panics.
  \<^item> \<open>Executor\<close>, \<open>GarbageCollector\<close>, \<open>Replicator\<close>, \<open>Recovery\<close>: \<open>modular/executor\<close> with the calls of \<open>base/gfspclient\<close> to the
    manager and the metadata service, and its query in \<open>store/bsdb\<close>. Sealing and confirming replicas; the
    collection of deleted objects, which deletes exactly the pieces of the objects of its blocks as long as one listing
    holds them; replication in rounds, which ends, and succeeds only with a verified signature of every
    provider; recovery, whose goroutines, channel and counters are the steps of a transition system that
    ends under every schedule, and whose outcome is a race.
  \<^item> \<open>GnfdChain\<close>: \<open>base/gnfd\<close>, queries over several chain nodes, the choice of the highest node, listening as
    polling.
  \<^item> \<open>Authenticator\<close>: \<open>modular/authenticator\<close>, \<open>store/sqldb/off_chain_auth_key.go\<close>, their server and client. The decision
    of every operation is compared with a table of requirements (under the locale \<open>chain_answers\<close>: the chain
    answers from a fixed state), and off chain signatures are checked against the registered keys (locale
    \<open>auth_keys\<close>: what the code relies on of the table of keys).
  \<^item> \<open>GateRequest\<close>, \<open>GateObject\<close>: \<open>modular/gater\<close>. Signatures of requests, registration of keys, which cannot be
    replayed whatever the gateway serves in between, uploads, downloads of ranges, recovery pieces. Shown: whose account a request has, and that two kinds
    of signatures are never checked against the permissions. The locale \<open>piece_reader\<close> is what a download relies on
    of the service that reads pieces.
  \<^item> \<open>Services\<close>: the gRPC servers of the downloader, the receiver and the approver (\<open>base/gfspapp\<close>) with their clients
    (\<open>base/gfspclient\<close>): checks, reservation, call of the module, errors of the response. \<open>GateDownload\<close> puts the
    downloader behind the gateway (an interpretation of \<open>piece_reader\<close>): a download returns the bytes that were asked for and
    charges them once; the reports of its piece tasks are never accepted by the client of the manager; a request with a signature of version 2 reads a
    private object that is sealed, as anybody; an exhausted quota is taken for a lost piece.
  \<^item> \<open>GateAdmin\<close>: \<open>modular/gater/admin_handler.go\<close> and the HTTP calls of \<open>base/gfspclient/gater.go\<close>: approvals, challenges,
    replication and recovery between providers. Shown: what a primary provider sends is what the receiver of
    the other provider gets; when a recovered chunk is that of the erasure coding; that recovery serves every signer, from the
    downloader of the provider.
  \<^item> \<open>UploadServer\<close>: \<open>base/gfspapp/upload_server.go\<close> and \<open>base/gfspclient/uploader.go\<close>. The two goroutines of the stream server, with their
    pipe, channel and shared error, are a transition system. Shown: the handler reads exactly the payload in
    every interleaving; refused uploads are never answered; a failed one may be answered with success.
  \<^item> \<open>Permissions\<close>: \<open>modular/metadata/metadata_permission_service.go\<close> over the queries and policies of \<open>store/bsdb\<close>. The answer is compared
    with the documented meaning of policies, which holds as long as no group permission has expired and no statement of a bucket policy leaves
    out its sub-resources.
  \<^item> \<open>PrefixTree\<close>: the folders that the block syncer keeps of every bucket (\<open>modular/blocksyncer/modules/prefixtree\<close>) and the listing
    that reads them (\<open>store/bsdb/prefix.go\<close>, \<open>metadata_object_service.go\<close>). Shown: after creations and ends of objects, each end handled once, the table is exactly the tree of
    the live objects (names do not begin with a slash), and following the pages of a listing shows every entry once if the collation tells the names apart.
  \<^item> \<open>Signer\<close>: \<open>modular/signer\<close>, \<open>base/gfspapp/sign_server.go\<close>, \<open>base/gfspclient/signer.go\<close>. The accounts of the provider over the SDK of the chain, which is an
    argument, what is signed of a message, transactions and their nonces. Waiting for a block is a \<open>partial_function\<close>; on a chain that counts
    transactions and makes blocks, and refuses a wrong sequence number by an error or by a response code (\<open>sequenced_chain\<close>), sealing ends, with the right nonce and one transaction. Shown too: a lost answer seals twice.
  \<^item> \<open>P2PNode\<close>: \<open>modular/p2p\<close>, its service and its client. Peers of providers, pings, and the approval protocol, whose goroutines, channels and lock are the
    steps of a transition system. Shown: bounds of the lists, that listed nodes were introduced and collected approvals signed by
    the provider they name, that an answer is accepted by the one who asked; that surplus responses stop the protocol, and
    that a request counts as an approval only while the height of the chain is not known.
  \<^item> \<open>ExecutorLoop\<close>: \<open>modular/executor/executor.go\<close>, a worker of the executor over the scopes of \<open>Scopes\<close>: asking for a task, reserving, running with the handlers
    above, reporting and releasing. Shown: a worker whose task does not fit any more hangs before running it; refused spans and the counter of recoveries leak.
  This theory joins the modules: what is uploaded is what is downloaded.

  \<^bold>\<open>Bounds and termination.\<close> There is no fuel: every loop is structural or a \<open>function\<close> with a
  termination proof (streams get shorter with every read, the binary search interval shrinks), except waiting for a block of the chain, which
  may never return; that it does is proved from the progress of the chain.
  Sizes are at their Go width; theorems that need the absence of wrap-around say so with bounds
  far above real values (payloads and segments below \<open>2 ^ 63\<close> bytes, at most \<open>2 ^ 32\<close> segments, because
  segment indices are 32 bits).

  \<^bold>\<open>Arguments.\<close> Code that is not part of the repository is an argument of the definitions that use it:
  the SDK of the chain and the checksum of \<open>greenfield-common\<close>, \<open>gorm\<close> and MySQL, the LRU cache, random numbers,
  clocks, chain queries, and the remote sides of gRPC calls, whose reports are logged.

  \<^bold>\<open>Not modelled.\<close> The block syncer beyond the tree of folders, the networking of p2p over libp2p, the handlers of the gateway for buckets,
  metadata queries and the universal endpoint, the other calls of the metadata module; cloud and file backends of the piece store; database tables other than
  integrity records, piece checksums, traffic, off chain keys and deleted objects; lifecycle and reservation of resources of the
  modules; log lines, metrics and the panics that evaluating log arguments can cause, except where a
  theory says otherwise. Handlers run one at a time: interleavings are those of whole calls, jobs
  and clock ticks, and locks are explicit only in \<open>Scopes\<close> and \<open>P2PNode\<close>. Where the code holds no lock over a whole call, lemmas show what overlapping calls can
  do (\<open>overlapping_calls_break_exclusion\<close> in \<open>ManageServer\<close>, \<open>overlapping_checks_exceed\<close> in \<open>Traffic\<close>), and the theorems say that the calls follow each other.
  The database is taken to compare texts exactly, which is an assumption on its collation.
\<close>

section \<open>Upload and download\<close>

lemma segment_size_cases:
  assumes "length payload = unat (PayloadSize ob)" "uint (PayloadSize ob) < 2 ^ 63" "uint (MaxSegmentSize params) < 2 ^ 63"
  shows "segments (segment_size ob params) payload = segments (unat (MaxSegmentSize params)) payload"
proof (cases "PayloadSize ob > MaxSegmentSize params")
  case True
  then show ?thesis by (simp add: segment_size_def MaxSegmentPieceSize_def int64_of_small [OF assms(3)])
next
  case False
  then have "segment_size ob params = length payload" "length payload \<le> unat (MaxSegmentSize params)"
    using assms(1) int64_of_small [OF assms(2)]
    by (simp_all add: segment_size_def MaxSegmentPieceSize_def word_less_nat_alt not_less)
  then show ?thesis by (cases "payload = []") (simp_all add: segments_last)
qed

lemma segment_size_pos:
  assumes "0 < uint (PayloadSize ob)" "0 < uint (MaxSegmentSize params)" "uint (PayloadSize ob) < 2 ^ 63" "uint (MaxSegmentSize params) < 2 ^ 63"
  shows "0 < segment_size ob params"
  using assms by (simp add: segment_size_def MaxSegmentPieceSize_def int64_of_small)

lemma segment_count_bound:
  assumes "length payload = unat (PayloadSize ob)" "0 < uint (MaxSegmentSize params)"
    "uint (PayloadSize ob) \<le> uint (MaxSegmentSize params) * (2 ^ 32 - 1)"
  shows "length (segments (unat (MaxSegmentSize params)) payload) \<le> 2 ^ 32"
proof -
  let ?n = "unat (MaxSegmentSize params)" and ?p = "unat (PayloadSize ob)"
  have n: "0 < ?n" using assms(2) unfolding uint_nat by (simp only: of_nat_0_less_iff)
  have "int ?p \<le> int ?n * (2 ^ 32 - 1)" using assms(3) unfolding uint_nat .
  then have "int (?p + ?n - 1) < int (?n * (2 ^ 32 + 1))" using n by (simp add: algebra_simps of_nat_diff del: of_nat_unat)
  then have "?p + ?n - 1 < ?n * (2 ^ 32 + 1)" by (simp only: of_nat_less_iff)
  then have "(?p + ?n - 1) div ?n < 2 ^ 32 + 1" using n by (simp add: less_mult_imp_div_less mult.commute)
  then show ?thesis using length_segments [OF n, of payload] assms(1) by simp
qed

text \<open>An environment of the downloader with tables in memory and a small cache, and a task for the bytes 1 to 3.\<close>

definition memory_download_env ::
  "(ObjectStorage, ((uint64 \<times> string) \<times> BucketTrafficTable) list \<times> ReadRecord list, (uint64 \<times> IntegrityMetaTable) list, lru_cache) download_env" where
  "memory_download_env = \<lparr>de_get = GetPiece, de_traffic = list_traffic, de_month_of = (\<lambda>ts. []), de_integrity = alist_table it_ObjectID 0,
     de_cache_get = lru_get, de_cache_add = lru_add, de_app = demo_app, de_operator = []\<rparr>"

definition demo_downloader ::
  "(ObjectStorage, ((uint64 \<times> string) \<times> BucketTrafficTable) list \<times> ReadRecord list, (uint64 \<times> IntegrityMetaTable) list, lru_cache) DownloadModular" where
  "demo_downloader = \<lparr>dl_pieceStore = createStorage [] (\<lambda>i. []) 4, dl_traffic = ([], []), dl_integrity = [],
     dl_pieceCache = \<lparr>lru_size = 2, lru_entries = []\<rparr>, dl_downloading = 0, dl_downloadParallel = 10, dl_challenging = 0,
     dl_challengeParallel = 10, dl_bucketFreeQuota = 100, dl_reported = []\<rparr>"

definition demo_download_task :: GfSpDownloadObjectTask where
  "demo_download_task = \<lparr>do_Task = new_task, do_ObjectInfo = Some demo_upload_object, do_BucketInfo = None,
     do_StorageParams = Some demo_upload_params, do_UserAddress = [], do_Low = 1, do_High = 3\<rparr>"

text \<open>
  C2. What is uploaded is what is downloaded: when a payload of the declared size arrives completely,
  in whatever pieces, and its signed hash is the one on chain, the upload succeeds, and a download of
  any range of bytes from the same piece store returns exactly these bytes of the payload, for
  every segment size, number of shards and cache that keeps its contract.
\<close>

theorem upload_then_download:
  assumes up: "up_ObjectInfo task = Some ob" "up_StorageParams task = Some params" "Checksums ob \<noteq> []"
    and accepted: "Push now (ul_uploadQueue u) (UploadObjectTask task) = (None, q)"
    and stream: "stream_payload stream = Some payload" "length payload = unat (PayloadSize ob)"
    and sizes: "0 < uint (MaxSegmentSize params)" "uint (PayloadSize ob) < 2 ^ 63" "uint (MaxSegmentSize params) < 2 ^ 63"
      "uint (PayloadSize ob) \<le> uint (MaxSegmentSize params) * (2 ^ 32 - 1)"
    and store: "store_ok (ul_pieceStore u)" "ue_put env = PutPiece t0" "de_get denv = GetPiece"
    and db: "integrity_table (ue_table env) rows" "rows (ul_db u) (Id ob) = None" "\<And>b. ue_hash env b \<noteq> []"
    and signed: "ue_sign env (Id ob) (map (ue_hash env) (segments (segment_size ob params) payload)) = Inr (sig, Checksums ob ! 0)"
    and down: "do_ObjectInfo t = Some ob" "do_StorageParams t = Some params"
    and range: "0 \<le> do_Low t" "do_Low t \<le> do_High t" "do_High t < uint (PayloadSize ob)"
    and cache: "piece_cache (de_cache_get denv) (de_cache_add denv) cached" "cached (dl_pieceCache d) = Map.empty"
    and free: "i64 (dl_downloading d + 1) < dl_downloadParallel d"
  shows "\<exists>u' c. HandleUploadObjectTask env now now' task stream u = Returns (None, u')
    \<and> Downloader.HandleDownloadObjectTask denv t (d\<lparr>dl_pieceStore := ul_pieceStore u'\<rparr>)
      = Returns (Inr (take (nat (do_High t - do_Low t + 1)) (drop (nat (do_Low t)) payload)), DownloadObjectTask t,
          d\<lparr>dl_pieceStore := ul_pieceStore u', dl_pieceCache := c\<rparr>)"
proof -
  let ?segs = "segments (segment_size ob params) payload"
  have eq: "?segs = segments (unat (MaxSegmentSize params)) payload" by (rule segment_size_cases [OF stream(2) sizes(2,3)])
  have pos: "0 < segment_size ob params" using segment_size_pos [OF _ sizes(1-3)] range by simp
  have cnt: "length ?segs \<le> 2 ^ 32" unfolding eq by (rule segment_count_bound [OF stream(2) sizes(1,4)])
  obtain ret u' where u': "HandleUploadObjectTask env now now' task stream u = Returns (ret, u')"
    "stored_segments (ul_pieceStore u') (Id ob) 0 ?segs" "ret = None"
    by (rule upload_run [OF up accepted stream(1) pos refl cnt store(1,2) db, of now']) (use signed in auto)
  let ?d = "d\<lparr>dl_pieceStore := ul_pieceStore u'\<rparr>"
  have "stored_segments (dl_pieceStore ?d) (Id ob) 0 (segments (unat (MaxSegmentSize params)) payload)"
    using u'(2) eq by simp
  moreover have "cache_sound cached (de_get denv) (dl_pieceStore ?d) (dl_pieceCache ?d)"
    using cache(2) by (simp add: cache_sound_def)
  moreover have "i64 (dl_downloading ?d + 1) < dl_downloadParallel ?d" using free by simp
  ultimately obtain c where "Downloader.HandleDownloadObjectTask denv t ?d
      = Returns (Inr (take (nat (do_High t - do_Low t + 1)) (drop (nat (do_Low t)) payload)), DownloadObjectTask t, ?d\<lparr>dl_pieceCache := c\<rparr>)"
    using download_range [OF down range sizes _ stream(2) cache(1) _ store(3), of ?d] by blast
  then show ?thesis using u'(1,3) by auto
qed

theorem upload_then_download_witness:
  "\<exists>(u' :: (ObjectStorage, (uint64 \<times> IntegrityMetaTable) list) UploadModular) c.
     HandleUploadObjectTask memory_env 1 2 demo_upload_task demo_stream demo_uploader = Returns (None, u')
     \<and> Downloader.HandleDownloadObjectTask memory_download_env demo_download_task (demo_downloader\<lparr>dl_pieceStore := ul_pieceStore u'\<rparr>)
       = Returns (Inr [2, 3, 4], DownloadObjectTask demo_download_task,
           demo_downloader\<lparr>dl_pieceStore := ul_pieceStore u', dl_pieceCache := c\<rparr>)"
proof -
  have push: "Push 1 (ul_uploadQueue demo_uploader) (UploadObjectTask demo_upload_task)
      = (None, snd (Push 1 (ul_uploadQueue demo_uploader) (UploadObjectTask demo_upload_task)))"
    by (rule prod_eqI) (code_simp, simp)
  have up: "up_ObjectInfo demo_upload_task = Some demo_upload_object" "up_StorageParams demo_upload_task = Some demo_upload_params"
    "Checksums demo_upload_object \<noteq> []" by (simp_all add: demo_upload_task_def demo_upload_facts)
  have size: "PayloadSize demo_upload_object = 5" "MaxSegmentSize demo_upload_params = 2"
    by (simp_all add: demo_upload_object_def demo_upload_params_def)
  have range: "do_Low demo_download_task = 1" "do_High demo_download_task = 3"
    "do_ObjectInfo demo_download_task = Some demo_upload_object" "do_StorageParams demo_download_task = Some demo_upload_params"
    by (simp_all add: demo_download_task_def)
  have env: "ue_put memory_env = PutPiece 5" "de_get memory_download_env = GetPiece" "\<And>b. ue_hash memory_env b \<noteq> []"
    "map_of (ul_db demo_uploader) (Id demo_upload_object) = None" "i64 (dl_downloading demo_downloader + 1) < dl_downloadParallel demo_downloader"
    "map_of (lru_entries (dl_pieceCache demo_downloader)) = Map.empty"
    by (simp_all add: memory_env_def memory_download_env_def demo_uploader_def DefaultUploaderOptions_def demo_downloader_def i64_def)
  have signed: "ue_sign memory_env (Id demo_upload_object) (map (ue_hash memory_env)
      (segments (segment_size demo_upload_object demo_upload_params) [1, 2, 3, 4, 5])) = Inr ([1], Checksums demo_upload_object ! 0)"
    unfolding demo_upload_facts(4) [symmetric] by (simp add: memory_env_def demo_upload_facts(1,2))
  have cache: "piece_cache (de_cache_get memory_download_env) (de_cache_add memory_download_env) (\<lambda>c. map_of (lru_entries c))"
    using lru.piece_cache_axioms by (simp add: memory_download_env_def)
  show ?thesis
    using upload_then_download [OF up push demo_upload_facts(5) _ _ _ _ _ demo_upload_facts(6) env(1,2) demo_upload_facts(7) env(4,3)
        signed range(3,4) _ _ _ cache env(6,5), of 2]
    by (simp add: size range)
qed

end
